(* ===== verification/Prelude.thy ===== *)
theory Prelude
  imports Main "HOL-Library.Word" "HOL-Library.State_Monad"
begin

unbundle bit_operations_syntax

text \<open>
  Shared vocabulary of the development: the machine types of the C++ sources, the
  little-endian byte images of 16- and 32-bit integers, the copy loop every buffer
  operation uses, and the lemma collections the component theories extend.

  Unsigned integers are machine words, so every \<open>+\<close> and every cast wraps exactly as
  in the source. Signed fields are words of the same width, read with \<open>sint\<close>: a cast
  between \<open>int16_t\<close> and \<open>uint16_t\<close> is the identity on the word. Buffer lengths and
  offsets (\<open>size_t\<close>) are natural numbers; every length in the program is bounded by
  a buffer of at most a few hundred bytes.
\<close>

section \<open>Machine types\<close>

type_synonym u8 = "8 word"
type_synonym u16 = "16 word"
type_synonym u32 = "32 word"
type_synonym u64 = "64 word"
type_synonym i8 = "8 word"
type_synonym i16 = "16 word"
type_synonym i32 = "32 word"
type_synonym bytes = "8 word list"

section \<open>Lemma collections\<close>

named_theorems stream_simps \<open>symbolic execution of byte writers and readers\<close>
named_theorems emits_intros \<open>what a composed writer emits\<close>
named_theorems reads_intros \<open>how many bytes a composed reader takes\<close>
named_theorems wire_defs \<open>unfolding of the wire tables\<close>

section \<open>Little-endian images\<close>

definition le16 :: "u16 \<Rightarrow> bytes" where
  "le16 v = [ucast v, ucast (drop_bit 8 v)]"

definition le32 :: "u32 \<Rightarrow> bytes" where
  "le32 v = [ucast v, ucast (drop_bit 8 v), ucast (drop_bit 16 v), ucast (drop_bit 24 v)]"

definition of_le16 :: "u8 \<Rightarrow> u8 \<Rightarrow> u16" where
  "of_le16 a b = ucast a OR push_bit 8 (ucast b)"

definition of_le32 :: "u8 \<Rightarrow> u8 \<Rightarrow> u8 \<Rightarrow> u8 \<Rightarrow> u32" where
  "of_le32 a b c d =
     ucast a OR push_bit 8 (ucast b) OR push_bit 16 (ucast c) OR push_bit 24 (ucast d)"

lemma length_le16 [simp]: "length (le16 v) = 2"
  by (simp add: le16_def)

lemma length_le32 [simp]: "length (le32 v) = 4"
  by (simp add: le32_def)

text \<open>
  The source writes each byte as \<open>static_cast<uint8_t>((v >> k) & 0xFF)\<close>; the mask
  is absorbed by the narrowing cast.
\<close>

lemma bit_255_iff [simp]: "bit (255 :: 'a::len word) n \<longleftrightarrow> n < 8 \<and> n < LENGTH('a)"
proof -
  have "(255 :: 'a word) = mask 8"
    by (simp add: mask_eq_exp_minus_1)
  then show ?thesis
    by (simp only: bit_mask_iff possible_bit_word) auto
qed

lemma ucast_and_255 [simp]: "(ucast (v AND 255) :: u8) = ucast (v :: 'a::len word)"
proof -
  have "v AND 255 = take_bit 8 v"
    by (simp add: take_bit_eq_mask mask_eq_exp_minus_1)
  then show ?thesis
    by (auto intro: bit_word_eqI simp: bit_simps)
qed

lemma of_le16_inverse [simp]: "of_le16 (ucast v) (ucast (drop_bit 8 v)) = v"
  by (rule bit_word_eqI) (auto simp: of_le16_def bit_simps)

lemma of_le32_inverse [simp]:
  "of_le32 (ucast v) (ucast (drop_bit 8 v)) (ucast (drop_bit 16 v)) (ucast (drop_bit 24 v)) = v"
proof (rule bit_word_eqI)
  fix n assume "n < LENGTH(32)"
  then consider "n < 8" | "8 \<le> n" "n < 16" | "16 \<le> n" "n < 24" | "24 \<le> n" "n < 32"
    by fastforce
  then show "bit (of_le32 (ucast v) (ucast (drop_bit 8 v)) (ucast (drop_bit 16 v))
      (ucast (drop_bit 24 v))) n = bit v n"
    by cases (auto simp: of_le32_def bit_simps)
qed

lemma le16_of_le16 [simp]: "le16 (of_le16 a b) = [a, b]"
  by (auto simp: le16_def of_le16_def bit_eq_iff bit_simps dest: bit_imp_le_length)

lemma le32_of_le32 [simp]: "le32 (of_le32 a b c d) = [a, b, c, d]"
  by (auto simp: le32_def of_le32_def bit_eq_iff bit_simps dest: bit_imp_le_length)

lemma le16_inject [simp]: "le16 v = le16 w \<longleftrightarrow> v = w"
proof
  assume "le16 v = le16 w"
  then have "of_le16 (ucast v) (ucast (drop_bit 8 v)) = of_le16 (ucast w) (ucast (drop_bit 8 w))"
    by (simp only: le16_def list.inject)
  then show "v = w" by simp
qed simp

lemma xor_right_cancel [simp]: "a XOR c = b XOR c \<longleftrightarrow> a = b" for a b c :: "'a::len word"
  by (metis xor.assoc xor.right_neutral xor_self_eq)

lemma xor_left_cancel [simp]: "c XOR a = c XOR b \<longleftrightarrow> a = b" for a b c :: "'a::len word"
  by (metis xor.assoc xor.left_neutral xor_self_eq)

lemma word_eq_0_bits: "w = 0 \<longleftrightarrow> (\<forall>n. \<not> bit w n)" for w :: "'a::len word"
  by (auto intro: bit_word_eqI)

lemma word_eq_1_iff: "w \<noteq> 0 \<Longrightarrow> w = 1 \<longleftrightarrow> \<not> 1 < w" for w :: "'a::len word"
  by (auto simp: word_less_nat_alt word_unat_eq_iff)

lemma unat_u8_less: "unat (x :: u8) < 256"
  by (rule order_less_le_trans [OF unsigned_less]) simp

lemma unat_u16_less: "unat (x :: u16) < 65536"
  by (rule order_less_le_trans [OF unsigned_less]) simp

lemma unat_u32_less: "unat (x :: u32) < 4294967296"
  by (rule order_less_le_trans [OF unsigned_less]) simp

lemmas unat_bounds = unat_u8_less unat_u16_less unat_u32_less

section \<open>The copy loop\<close>

text \<open>
  \<open>for (i = 0; i < n; ++i) buf[pos + i] = src[i]\<close>, one indexed store per byte.
\<close>

fun blit :: "'a list \<Rightarrow> nat \<Rightarrow> 'a list \<Rightarrow> 'a list" where
  "blit buf pos [] = buf"
| "blit buf pos (x # xs) = blit (buf[pos := x]) (Suc pos) xs"

lemma length_blit [simp]: "length (blit buf pos xs) = length buf"
  by (induction xs arbitrary: buf pos) auto

lemma blit_eq:
  "pos + length xs \<le> length buf \<Longrightarrow>
   blit buf pos xs = take pos buf @ xs @ drop (pos + length xs) buf"
proof (induction xs arbitrary: buf pos)
  case Nil
  then show ?case by simp
next
  case (Cons x xs)
  then have "take (Suc pos) (buf[pos := x]) = take pos buf @ [x]"
    by (simp add: take_Suc_conv_app_nth)
  with Cons show ?case
    by simp
qed

lemma take_blit [simp]:
  "pos + length xs \<le> length buf \<Longrightarrow> take (pos + length xs) (blit buf pos xs) = take pos buf @ xs"
  by (simp add: blit_eq)

lemma blit_0 [simp]: "length xs \<le> length buf \<Longrightarrow> blit buf 0 xs = xs @ drop (length xs) buf"
  by (simp add: blit_eq)

lemma blit_append:
  "blit buf pos (xs @ ys) = blit (blit buf pos xs) (pos + length xs) ys"
  by (induction xs arbitrary: buf pos) auto

lemma blit_nth_outside:
  "i < pos \<or> pos + length xs \<le> i \<Longrightarrow> blit buf pos xs ! i = buf ! i"
  by (induction xs arbitrary: buf pos) auto

lemma blit_nth_inside:
  "j < length xs \<Longrightarrow> pos + length xs \<le> length buf \<Longrightarrow> blit buf pos xs ! (pos + j) = xs ! j"
  by (simp add: blit_eq nth_append)

end
