(* ===== verification/Bytes.thy ===== *)
theory Bytes
  imports Prelude
begin

text \<open>
  The serialization primitives of \<open>lib/lran-protocol\<close>: the latching \<open>ByteWriter\<close> and
  \<open>ByteReader\<close> (\<open>bytes.h\<close>, \<open>bytes.cpp\<close>), the application CRC (\<open>crc.cpp\<close>) and the
  serial-number arithmetic on sequence numbers (\<open>seq.h\<close>).

  A writer is a state-monad computation over the writer record; the Boolean each C++
  member returns is its result. \<open>writer_at\<close> and \<open>reader_at\<close> are the canonical states
  of a stream that has not failed: what was written so far, and what is left to read.
  The rules in \<open>stream_simps\<close> execute a run of writes or reads on these states, so a
  whole message layout is checked by rewriting.
\<close>

section \<open>ByteWriter\<close>

record ByteWriter =
  bw_buf :: bytes
  bw_cap :: nat
  bw_pos :: nat
  bw_ok :: bool

definition bw_new :: "bytes \<Rightarrow> ByteWriter" where
  "bw_new buf = \<lparr>bw_buf = buf, bw_cap = length buf, bw_pos = 0, bw_ok = True\<rparr>"

definition bw_u8 :: "u8 \<Rightarrow> (ByteWriter, bool) state" where
  "bw_u8 v = State (\<lambda>w.
     if \<not> bw_ok w \<or> bw_pos w + 1 > bw_cap w then (False, w\<lparr>bw_ok := False\<rparr>)
     else (True, w\<lparr>bw_buf := (bw_buf w)[bw_pos w := v], bw_pos := bw_pos w + 1\<rparr>))"

definition bw_u16 :: "u16 \<Rightarrow> (ByteWriter, bool) state" where
  "bw_u16 v = State (\<lambda>w.
     if \<not> bw_ok w \<or> bw_pos w + 2 > bw_cap w then (False, w\<lparr>bw_ok := False\<rparr>)
     else (True, w\<lparr>bw_buf := (bw_buf w)
                     [bw_pos w := ucast (v AND 255),
                      bw_pos w + 1 := ucast (drop_bit 8 v AND 255)],
                   bw_pos := bw_pos w + 2\<rparr>))"

definition bw_u32 :: "u32 \<Rightarrow> (ByteWriter, bool) state" where
  "bw_u32 v = State (\<lambda>w.
     if \<not> bw_ok w \<or> bw_pos w + 4 > bw_cap w then (False, w\<lparr>bw_ok := False\<rparr>)
     else (True, w\<lparr>bw_buf := (bw_buf w)
                     [bw_pos w := ucast (v AND 255),
                      bw_pos w + 1 := ucast (drop_bit 8 v AND 255),
                      bw_pos w + 2 := ucast (drop_bit 16 v AND 255),
                      bw_pos w + 3 := ucast (drop_bit 24 v AND 255)],
                   bw_pos := bw_pos w + 4\<rparr>))"

text \<open>Two's complement: the cast to the unsigned type is the identity on the word.\<close>

definition bw_i8 :: "i8 \<Rightarrow> (ByteWriter, bool) state" where
  "bw_i8 v = bw_u8 v"

definition bw_i16 :: "i16 \<Rightarrow> (ByteWriter, bool) state" where
  "bw_i16 v = bw_u16 v"

definition bw_i32 :: "i32 \<Rightarrow> (ByteWriter, bool) state" where
  "bw_i32 v = bw_u32 v"

definition bw_bytes :: "bytes \<Rightarrow> nat \<Rightarrow> (ByteWriter, bool) state" where
  "bw_bytes src n = State (\<lambda>w.
     if \<not> bw_ok w \<or> bw_pos w + n > bw_cap w then (False, w\<lparr>bw_ok := False\<rparr>)
     else (True, w\<lparr>bw_buf := blit (bw_buf w) (bw_pos w) (take n src), bw_pos := bw_pos w + n\<rparr>))"

definition bw_skip :: "nat \<Rightarrow> (ByteWriter, bool) state" where
  "bw_skip n = State (\<lambda>w.
     if \<not> bw_ok w \<or> bw_pos w + n > bw_cap w then (False, w\<lparr>bw_ok := False\<rparr>)
     else (True, w\<lparr>bw_buf := blit (bw_buf w) (bw_pos w) (replicate n 0), bw_pos := bw_pos w + n\<rparr>))"

definition bw_remaining :: "ByteWriter \<Rightarrow> nat" where
  "bw_remaining w = bw_cap w - bw_pos w"

section \<open>ByteReader\<close>

record ByteReader =
  br_buf :: bytes
  br_len :: nat
  br_pos :: nat
  br_ok :: bool

definition br_new :: "bytes \<Rightarrow> ByteReader" where
  "br_new buf = \<lparr>br_buf = buf, br_len = length buf, br_pos = 0, br_ok = True\<rparr>"

definition br_u8 :: "(ByteReader, u8) state" where
  "br_u8 = State (\<lambda>r.
     if \<not> br_ok r \<or> br_pos r + 1 > br_len r then (0, r\<lparr>br_ok := False\<rparr>)
     else (br_buf r ! br_pos r, r\<lparr>br_pos := br_pos r + 1\<rparr>))"

definition br_u16 :: "(ByteReader, u16) state" where
  "br_u16 = State (\<lambda>r.
     if \<not> br_ok r \<or> br_pos r + 2 > br_len r then (0, r\<lparr>br_ok := False\<rparr>)
     else (of_le16 (br_buf r ! br_pos r) (br_buf r ! (br_pos r + 1)),
           r\<lparr>br_pos := br_pos r + 2\<rparr>))"

definition br_u32 :: "(ByteReader, u32) state" where
  "br_u32 = State (\<lambda>r.
     if \<not> br_ok r \<or> br_pos r + 4 > br_len r then (0, r\<lparr>br_ok := False\<rparr>)
     else (of_le32 (br_buf r ! br_pos r) (br_buf r ! (br_pos r + 1))
                   (br_buf r ! (br_pos r + 2)) (br_buf r ! (br_pos r + 3)),
           r\<lparr>br_pos := br_pos r + 4\<rparr>))"

definition br_i8 :: "(ByteReader, i8) state" where
  "br_i8 = br_u8"

definition br_i16 :: "(ByteReader, i16) state" where
  "br_i16 = br_u16"

definition br_i32 :: "(ByteReader, i32) state" where
  "br_i32 = br_u32"

text \<open>\<open>bytes(dst, n)\<close>: the bytes stored in \<open>dst\<close>, or \<open>None\<close> when it returns false
  and leaves \<open>dst\<close> alone.\<close>

definition br_bytes :: "nat \<Rightarrow> (ByteReader, bytes option) state" where
  "br_bytes n = State (\<lambda>r.
     if \<not> br_ok r \<or> br_pos r + n > br_len r then (None, r\<lparr>br_ok := False\<rparr>)
     else (Some (take n (drop (br_pos r) (br_buf r))), r\<lparr>br_pos := br_pos r + n\<rparr>))"

definition br_skip :: "nat \<Rightarrow> (ByteReader, bool) state" where
  "br_skip n = State (\<lambda>r.
     if \<not> br_ok r \<or> br_pos r + n > br_len r then (False, r\<lparr>br_ok := False\<rparr>)
     else (True, r\<lparr>br_pos := br_pos r + n\<rparr>))"

definition br_remaining :: "ByteReader \<Rightarrow> nat" where
  "br_remaining r = (if br_ok r then br_len r - br_pos r else 0)"

section \<open>CRC-16/CCITT-FALSE\<close>

definition crc_bit :: "u16 \<Rightarrow> u16" where
  "crc_bit crc = (if crc AND 0x8000 \<noteq> 0 then push_bit 1 crc XOR 0x1021 else push_bit 1 crc)"

definition crc_byte :: "u16 \<Rightarrow> u8 \<Rightarrow> u16" where
  "crc_byte crc d = (crc_bit ^^ 8) (crc XOR push_bit 8 (ucast d))"

definition crc16_ccitt_false :: "bytes \<Rightarrow> u16" where
  "crc16_ccitt_false data = foldl crc_byte 0xFFFF data"

section \<open>Serial-number arithmetic\<close>

definition seq_newer :: "u16 \<Rightarrow> u16 \<Rightarrow> bool" where
  "seq_newer a b = (let d = a - b in d \<noteq> 0 \<and> d < 0x8000)"

definition seq_next :: "u16 \<Rightarrow> u16" where
  "seq_next s = s + 1"

section \<open>Symbolic execution of writers\<close>

text \<open>All writers are one operation: append a run of bytes or latch the failure.\<close>

definition bw_put :: "bytes \<Rightarrow> (ByteWriter, bool) state" where
  "bw_put bs = State (\<lambda>w.
     if \<not> bw_ok w \<or> bw_pos w + length bs > bw_cap w then (False, w\<lparr>bw_ok := False\<rparr>)
     else (True, w\<lparr>bw_buf := blit (bw_buf w) (bw_pos w) bs, bw_pos := bw_pos w + length bs\<rparr>))"

lemma bw_put_eqs:
  "bw_u8 v = bw_put [v]"
  "bw_u16 x = bw_put (le16 x)"
  "bw_u32 y = bw_put (le32 y)"
  "bw_i8 v = bw_put [v]"
  "bw_i16 x = bw_put (le16 x)"
  "bw_i32 y = bw_put (le32 y)"
  "n \<le> length src \<Longrightarrow> bw_bytes src n = bw_put (take n src)"
  "bw_skip k = bw_put (replicate k 0)"
  by (auto simp: bw_u8_def bw_u16_def bw_u32_def bw_i8_def bw_i16_def bw_i32_def bw_bytes_def
      bw_skip_def bw_put_def le16_def le32_def fun_eq_iff eval_nat_numeral)

definition writer_at :: "bytes \<Rightarrow> bytes \<Rightarrow> ByteWriter" where
  "writer_at buf out =
     \<lparr>bw_buf = out @ drop (length out) buf, bw_cap = length buf, bw_pos = length out, bw_ok = True\<rparr>"

lemma bw_new_writer_at: "bw_new buf = writer_at buf []"
  by (simp add: bw_new_def writer_at_def)

lemma writer_at_sel [simp]:
  "bw_ok (writer_at buf out)"
  "bw_pos (writer_at buf out) = length out"
  "bw_cap (writer_at buf out) = length buf"
  "bw_buf (writer_at buf out) = out @ drop (length out) buf"
  by (simp_all add: writer_at_def)

lemma run_bw_put_at:
  "length out + length bs \<le> length buf \<Longrightarrow>
   run_state (bw_put bs) (writer_at buf out) = (True, writer_at buf (out @ bs))"
  by (simp add: bw_put_def writer_at_def blit_eq add.commute)

lemma run_bw_at [stream_simps]:
  "length out + 1 \<le> length buf \<Longrightarrow>
     run_state (bw_u8 v) (writer_at buf out) = (True, writer_at buf (out @ [v]))"
  "length out + 2 \<le> length buf \<Longrightarrow>
     run_state (bw_u16 x) (writer_at buf out) = (True, writer_at buf (out @ le16 x))"
  "length out + 4 \<le> length buf \<Longrightarrow>
     run_state (bw_u32 y) (writer_at buf out) = (True, writer_at buf (out @ le32 y))"
  "length out + 1 \<le> length buf \<Longrightarrow>
     run_state (bw_i8 v) (writer_at buf out) = (True, writer_at buf (out @ [v]))"
  "length out + 2 \<le> length buf \<Longrightarrow>
     run_state (bw_i16 x) (writer_at buf out) = (True, writer_at buf (out @ le16 x))"
  "length out + 4 \<le> length buf \<Longrightarrow>
     run_state (bw_i32 y) (writer_at buf out) = (True, writer_at buf (out @ le32 y))"
  "length out + n \<le> length buf \<Longrightarrow> n \<le> length src \<Longrightarrow>
     run_state (bw_bytes src n) (writer_at buf out) = (True, writer_at buf (out @ take n src))"
  "length out + k \<le> length buf \<Longrightarrow>
     run_state (bw_skip k) (writer_at buf out) = (True, writer_at buf (out @ replicate k 0))"
  by (simp_all add: bw_put_eqs run_bw_put_at)

text \<open>A run that ends with the flag still set wrote every byte it was given.\<close>

lemma bw_put_ok_pos:
  "run_state (bw_put bs) w = (r, w') \<Longrightarrow> bw_ok w' \<Longrightarrow>
     bw_ok w \<and> bw_cap w' = bw_cap w \<and> bw_pos w' = bw_pos w + length bs \<and> bw_pos w' \<le> bw_cap w"
  by (auto simp: bw_put_def split: if_splits)

lemma bw_put_length:
  "length (bw_buf (snd (run_state (bw_put bs) w))) = length (bw_buf w)"
  by (simp add: bw_put_def)

text \<open>
  \<open>emits m bs\<close>: on any writer, \<open>m\<close> appends exactly \<open>bs\<close> when there is room for all of it
  and leaves the failure latched otherwise. The property composes, so what a serializer emits is
  read off its code, field by field.
\<close>

definition emits :: "(ByteWriter, 'a) state \<Rightarrow> bytes \<Rightarrow> bool" where
  "emits m bs \<longleftrightarrow> (\<forall>w x w'. bw_pos w \<le> bw_cap w \<longrightarrow> run_state m w = (x, w') \<longrightarrow>
     length (bw_buf w') = length (bw_buf w) \<and> bw_cap w' = bw_cap w \<and> bw_pos w' \<le> bw_cap w' \<and>
     (if bw_ok w \<and> bw_pos w + length bs \<le> bw_cap w
      then w' = w\<lparr>bw_buf := blit (bw_buf w) (bw_pos w) bs, bw_pos := bw_pos w + length bs\<rparr>
      else \<not> bw_ok w'))"

lemma emits_put [emits_intros]: "emits (bw_put bs) bs"
  by (auto simp: emits_def bw_put_def split: if_splits)

lemma emits_return [emits_intros]: "emits (State_Monad.return x) []"
  by (auto simp: emits_def)

lemma emits_bind [emits_intros]:
  assumes m: "emits m as" and k: "\<And>x. emits (k x) bs"
  shows "emits (State_Monad.bind m k) (as @ bs)"
  unfolding emits_def
proof (intro allI impI)
  fix w y w2
  assume pos: "bw_pos w \<le> bw_cap w" and run: "run_state (State_Monad.bind m k) w = (y, w2)"
  obtain x w1 where r: "run_state m w = (x, w1)" by (cases "run_state m w")
  with run have r2: "run_state (k x) w1 = (y, w2)" by simp
  from m pos r have 1: "length (bw_buf w1) = length (bw_buf w)" "bw_cap w1 = bw_cap w"
    "bw_pos w1 \<le> bw_cap w1"
    "if bw_ok w \<and> bw_pos w + length as \<le> bw_cap w
     then w1 = w\<lparr>bw_buf := blit (bw_buf w) (bw_pos w) as, bw_pos := bw_pos w + length as\<rparr>
     else \<not> bw_ok w1"
    unfolding emits_def by blast+
  from k [of x] 1(3) r2 have 2: "length (bw_buf w2) = length (bw_buf w1)" "bw_cap w2 = bw_cap w1"
    "bw_pos w2 \<le> bw_cap w2"
    "if bw_ok w1 \<and> bw_pos w1 + length bs \<le> bw_cap w1
     then w2 = w1\<lparr>bw_buf := blit (bw_buf w1) (bw_pos w1) bs, bw_pos := bw_pos w1 + length bs\<rparr>
     else \<not> bw_ok w2"
    unfolding emits_def by blast+
  show "length (bw_buf w2) = length (bw_buf w) \<and> bw_cap w2 = bw_cap w \<and> bw_pos w2 \<le> bw_cap w2 \<and>
    (if bw_ok w \<and> bw_pos w + length (as @ bs) \<le> bw_cap w
     then w2 = w\<lparr>bw_buf := blit (bw_buf w) (bw_pos w) (as @ bs), bw_pos := bw_pos w + length (as @ bs)\<rparr>
     else \<not> bw_ok w2)"
    using 1 2 by (auto simp: blit_append add.assoc split: if_splits)
qed

lemma emits_prims [emits_intros]:
  "emits (bw_u8 v) [v]" "emits (bw_u16 x) (le16 x)" "emits (bw_u32 y) (le32 y)"
  "emits (bw_i8 v) [v]" "emits (bw_i16 x) (le16 x)" "emits (bw_i32 y) (le32 y)"
  "n \<le> length src \<Longrightarrow> emits (bw_bytes src n) (take n src)"
  "emits (bw_skip k) (replicate k 0)"
  by (simp_all add: bw_put_eqs emits_put)

lemma emits_new:
  assumes "emits m bs"
  shows "length bs \<le> length buf \<Longrightarrow>
      snd (run_state m (bw_new buf)) = writer_at buf bs"
    and "length buf < length bs \<Longrightarrow> \<not> bw_ok (snd (run_state m (bw_new buf)))"
    and "length (bw_buf (snd (run_state m (bw_new buf)))) = length buf"
  using assms [unfolded emits_def, rule_format, of "bw_new buf"
      "fst (run_state m (bw_new buf))" "snd (run_state m (bw_new buf))"]
  by (auto simp: bw_new_def writer_at_def)

section \<open>Symbolic execution of readers\<close>

text \<open>\<open>reads m n\<close>: a reader with \<open>n\<close> bytes left runs \<open>m\<close> without failing and takes them.\<close>

definition reads :: "(ByteReader, 'a) state \<Rightarrow> nat \<Rightarrow> bool" where
  "reads m n \<longleftrightarrow> (\<forall>r. br_ok r \<and> br_pos r + n \<le> br_len r \<longrightarrow>
     snd (run_state m r) = r\<lparr>br_pos := br_pos r + n\<rparr>)"

lemma reads_prims [reads_intros]:
  "reads br_u8 1" "reads br_u16 2" "reads br_u32 4" "reads br_i8 1" "reads br_i16 2"
  "reads br_i32 4" "reads (br_bytes n) n" "reads (br_skip n) n" "reads (State_Monad.return x) 0"
  by (auto simp: reads_def br_u8_def br_u16_def br_u32_def br_i8_def br_i16_def br_i32_def
      br_bytes_def br_skip_def)

lemma reads_bind [reads_intros]:
  assumes m: "reads m a" and k: "\<And>x. reads (k x) b"
  shows "reads (State_Monad.bind m k) (a + b)"
  unfolding reads_def
proof (intro allI impI)
  fix r :: ByteReader assume r: "br_ok r \<and> br_pos r + (a + b) \<le> br_len r"
  obtain x r1 where 1: "run_state m r = (x, r1)" by (cases "run_state m r")
  with m r have "r1 = r\<lparr>br_pos := br_pos r + a\<rparr>" by (auto simp: reads_def)
  with k [of x] r 1 show "snd (run_state (State_Monad.bind m k) r) = r\<lparr>br_pos := br_pos r + (a + b)\<rparr>"
    by (simp add: reads_def add.assoc)
qed

lemma reads_new: "reads m n \<Longrightarrow> n \<le> length bs \<Longrightarrow>
    snd (run_state m (br_new bs)) = (br_new bs)\<lparr>br_pos := n\<rparr>"
  by (simp add: reads_def br_new_def)

definition reader_at :: "bytes \<Rightarrow> bytes \<Rightarrow> ByteReader" where
  "reader_at pre rest =
     \<lparr>br_buf = pre @ rest, br_len = length pre + length rest, br_pos = length pre, br_ok = True\<rparr>"

lemma br_new_reader_at: "br_new buf = reader_at [] buf"
  by (simp add: br_new_def reader_at_def)

lemma reader_at_sel [simp]:
  "br_ok (reader_at pre rest)"
  "br_pos (reader_at pre rest) = length pre"
  "br_len (reader_at pre rest) = length pre + length rest"
  by (simp_all add: reader_at_def)

lemma reader_at_append: "reader_at pre (xs @ ys)\<lparr>br_pos := length pre + length xs\<rparr> = reader_at (pre @ xs) ys"
  by (simp add: reader_at_def)

lemma run_br_at [stream_simps]:
  "run_state br_u8 (reader_at pre (v # rest)) = (v, reader_at (pre @ [v]) rest)"
  "run_state br_u16 (reader_at pre (le16 x @ rest)) = (x, reader_at (pre @ le16 x) rest)"
  "run_state br_u32 (reader_at pre (le32 y @ rest)) = (y, reader_at (pre @ le32 y) rest)"
  "run_state br_i8 (reader_at pre (v # rest)) = (v, reader_at (pre @ [v]) rest)"
  "run_state br_i16 (reader_at pre (le16 x @ rest)) = (x, reader_at (pre @ le16 x) rest)"
  "run_state br_i32 (reader_at pre (le32 y @ rest)) = (y, reader_at (pre @ le32 y) rest)"
  by (simp_all add: br_u8_def br_u16_def br_u32_def br_i8_def br_i16_def br_i32_def reader_at_def
      le16_def le32_def nth_append)

lemma run_br_at_end [stream_simps]:
  "run_state br_u16 (reader_at pre (le16 x)) = (x, reader_at (pre @ le16 x) [])"
  "run_state br_u32 (reader_at pre (le32 y)) = (y, reader_at (pre @ le32 y) [])"
  "run_state br_i16 (reader_at pre (le16 x)) = (x, reader_at (pre @ le16 x) [])"
  "run_state br_i32 (reader_at pre (le32 y)) = (y, reader_at (pre @ le32 y) [])"
  using run_br_at [where rest = "[]"] by simp_all

lemma run_br_bytes_at [stream_simps]:
  "n = length xs \<Longrightarrow>
     run_state (br_bytes n) (reader_at pre (xs @ rest)) = (Some xs, reader_at (pre @ xs) rest)"
  "n = length xs \<Longrightarrow>
     run_state (br_skip n) (reader_at pre (xs @ rest)) = (True, reader_at (pre @ xs) rest)"
  by (simp_all add: br_bytes_def br_skip_def reader_at_def)

section \<open>The CRC as an error detector\<close>

text \<open>
  Each bit step is linear and injective: the polynomial has its constant term, so the
  bit shifted out can be read back from bit 0 of the result.
\<close>

lemma bit_0x8000: "bit (0x8000 :: u16) n \<longleftrightarrow> n = 15"
proof -
  have "(0x8000 :: u16) = 2 ^ 15" by simp
  then show ?thesis by (simp only: bit_exp_iff) (auto simp: possible_bit_def)
qed

lemma and_0x8000_iff: "x AND (0x8000 :: u16) \<noteq> 0 \<longleftrightarrow> bit x 15"
proof -
  have "x AND 0x8000 = 0 \<longleftrightarrow> (\<forall>n. \<not> bit (x AND 0x8000) n)"
    by (rule word_eq_0_bits)
  also have "\<dots> \<longleftrightarrow> \<not> bit x 15"
    by (simp only: bit_and_iff bit_0x8000) blast
  finally show ?thesis by simp
qed

lemma crc_bit_eq: "crc_bit x = push_bit 1 x XOR (if bit x 15 then 0x1021 else 0)"
  by (simp add: crc_bit_def and_0x8000_iff)

lemma crc_bit_xor: "crc_bit (x XOR y) = crc_bit x XOR crc_bit y"
  by (simp add: crc_bit_eq push_bit_xor bit_xor_iff xor.assoc xor.left_commute)

lemma crc_bit_inj: "inj crc_bit"
proof (rule injI)
  fix x y assume eq: "crc_bit x = crc_bit y"
  have b0: "bit (crc_bit z) 0 \<longleftrightarrow> bit z 15" for z
    by (auto simp: crc_bit_eq bit_0 even_xor_iff)
  from eq b0 [of x] b0 [of y] have msb: "bit x 15 \<longleftrightarrow> bit y 15" by simp
  with eq have "push_bit 1 x = push_bit 1 y"
    by (simp add: crc_bit_eq split: if_splits)
  then have low: "bit x n = bit y n" if "n < 15" for n
  proof -
    have "bit (push_bit 1 z) (Suc n) = bit z n" for z :: u16
      using that by (simp only: bit_push_bit_iff) simp
    with \<open>push_bit 1 x = push_bit 1 y\<close> show ?thesis by metis
  qed
  show "x = y"
  proof (rule bit_word_eqI)
    fix n assume "n < LENGTH(16)"
    then consider "n < 15" | "n = 15" by fastforce
    then show "bit x n = bit y n"
      using low msb by cases auto
  qed
qed

lemma crc_bits_inj: "inj (crc_bit ^^ n)"
  by (simp add: crc_bit_inj inj_fn)

lemma crc_bits_xor: "(crc_bit ^^ n) (x XOR y) = (crc_bit ^^ n) x XOR (crc_bit ^^ n) y"
  by (induction n) (simp_all add: crc_bit_xor)

lemma crc_bits_low:
  "n \<le> 8 \<Longrightarrow> (crc_bit ^^ n) (ucast (d :: u8)) = push_bit n (ucast d)"
proof (induction n)
  case 0
  then show ?case by simp
next
  case (Suc n)
  then have "\<not> bit (push_bit n (ucast d :: u16)) 15"
    by (auto simp: bit_push_bit_iff bit_simps dest: bit_imp_le_length)
  with Suc show ?case
    by (simp add: crc_bit_eq [of "push_bit n (ucast d)"] push_bit_double)
qed

text \<open>Two bytes in a row feed sixteen consecutive bits into the register.\<close>

lemma crc_two_bytes:
  "crc_byte (crc_byte c d1) d2 = (crc_bit ^^ 16) (c XOR (push_bit 8 (ucast d1) OR ucast d2))"
proof -
  have "push_bit 8 (ucast d1 :: u16) OR ucast d2 = push_bit 8 (ucast d1) XOR ucast d2"
    by (rule bit_word_eqI) (auto simp: bit_simps dest: bit_imp_le_length)
  then have "(crc_bit ^^ 8) (c XOR (push_bit 8 (ucast d1) OR ucast d2))
      = crc_byte c d1 XOR push_bit 8 (ucast d2)"
    by (simp add: crc_byte_def crc_bits_xor crc_bits_low flip: xor.assoc)
  moreover have "crc_bit ^^ 16 = (crc_bit ^^ 8) \<circ> (crc_bit ^^ 8)"
    by (simp flip: funpow_add)
  ultimately show ?thesis
    by (simp add: crc_byte_def)
qed

lemma crc_byte_inj: "crc_byte x d = crc_byte y d \<longleftrightarrow> x = y"
proof
  assume "crc_byte x d = crc_byte y d"
  then have "x XOR push_bit 8 (ucast d) = y XOR push_bit 8 (ucast d)"
    unfolding crc_byte_def by (rule injD [OF crc_bits_inj])
  then show "x = y" by simp
qed simp

lemma crc_fold_inj: "foldl crc_byte x ds = foldl crc_byte y ds \<longleftrightarrow> x = y"
  by (induction ds arbitrary: x y) (simp_all add: crc_byte_inj)

lemma crc_pair_inj:
  assumes "crc_byte (crc_byte c d1) d2 = crc_byte (crc_byte c e1) e2"
  shows "d1 = e1 \<and> d2 = e2"
proof -
  let ?p = "\<lambda>a b. push_bit 8 (ucast (a :: u8)) OR (ucast (b :: u8) :: u16)"
  have "c XOR ?p d1 d2 = c XOR ?p e1 e2"
    using assms unfolding crc_two_bytes by (rule injD [OF crc_bits_inj])
  then have "of_le16 d2 d1 = of_le16 e2 e1"
    by (simp add: of_le16_def or.commute)
  then have "le16 (of_le16 d2 d1) = le16 (of_le16 e2 e1)" by simp
  then show ?thesis by simp
qed

text \<open>
  Any damage confined to two adjacent bytes (a burst of up to sixteen bits at a byte
  boundary) changes the checksum.
\<close>

lemma crc16_detects_burst:
  assumes "(d1, d2) \<noteq> (e1, e2)"
  shows "crc16_ccitt_false (pre @ d1 # d2 # post) \<noteq> crc16_ccitt_false (pre @ e1 # e2 # post)"
  using assms by (auto simp: crc16_ccitt_false_def crc_fold_inj dest: crc_pair_inj)

text \<open>The catalogue check value of CRC-16/CCITT-FALSE, over the ASCII digits 1 to 9.\<close>

lemma crc_byte_steps:
  "crc_byte c d = crc_bit (crc_bit (crc_bit (crc_bit (crc_bit (crc_bit (crc_bit (crc_bit
     (c XOR push_bit 8 (ucast d)))))))))"
  by (simp add: crc_byte_def eval_nat_numeral)

lemma crc16_check_value:
  "crc16_ccitt_false [0x31, 0x32, 0x33, 0x34, 0x35, 0x36, 0x37, 0x38, 0x39] = 0x29B1"
  by (simp add: crc16_ccitt_false_def crc_byte_steps crc_bit_def)

section \<open>Laws of serial numbers\<close>

lemma seq_newer_iff: "seq_newer a b \<longleftrightarrow> 0 < unat (a - b) \<and> unat (a - b) < 32768"
  by (simp add: seq_newer_def Let_def word_less_nat_alt unat_gt_0)

lemma seq_newer_irrefl [simp]: "\<not> seq_newer a a"
  by (simp add: seq_newer_def)

lemma seq_newer_asym: "seq_newer a b \<Longrightarrow> \<not> seq_newer b a"
  by (auto simp: seq_newer_iff unat_sub_if' split: if_splits)

lemma seq_newer_total: "a \<noteq> b \<Longrightarrow> unat (a - b) \<noteq> 32768 \<Longrightarrow> seq_newer a b \<or> seq_newer b a"
  using unat_u16_less [of a] unat_u16_less [of b]
  by (auto simp: seq_newer_iff unat_sub_if' word_unat_eq_iff split: if_splits)

lemma seq_newer_ahead:
  "k < 65536 \<Longrightarrow> seq_newer (s + of_nat k) s \<longleftrightarrow> 0 < k \<and> k < 32768"
  by (simp add: seq_newer_iff unat_of_nat)

lemma seq_newer_behind:
  "k < 32768 \<Longrightarrow> \<not> seq_newer s (s + of_nat k)"
  using seq_newer_ahead [of k s] seq_newer_asym [of "s + of_nat k" s]
  by (cases "k = 0") auto

lemma seq_next_newer: "seq_newer (seq_next s) s"
  by (simp add: seq_next_def seq_newer_def)

end
