(* ===== verification/Wire.thy ===== *)
theory Wire
  imports Bytes
begin

text \<open>
  Identifiers, status codes and the wire tables of \<open>lib/lran-protocol\<close>: \<open>types.h\<close>,
  \<open>config.h\<close>, \<open>counters.h\<close>/\<open>counters.cpp\<close> and \<open>wire.h\<close>/\<open>wire.cpp\<close>.

  A C++ \<open>enum class\<close> with a fixed underlying type holds any value of that type after a
  \<open>static_cast\<close> from the wire. Where the source casts an untrusted byte, the datatype has
  a last constructor (\<open>MT_Other\<close>, \<open>CO_Other\<close>, \<dots>) for the values the enumeration does
  not name; \<open>u8_MsgType\<close> is the cast from the byte and \<open>MsgType_u8\<close> the cast back.
\<close>

section \<open>Sizes (config.h)\<close>

abbreviation kMaxFrame :: nat where "kMaxFrame \<equiv> 222"
abbreviation kHdrLen :: nat where "kHdrLen \<equiv> 16"
abbreviation kCrcLen :: nat where "kCrcLen \<equiv> 2"
abbreviation kMacLen :: nat where "kMacLen \<equiv> 8"
abbreviation kMaxPayloadAuth :: nat where
  "kMaxPayloadAuth \<equiv> kMaxFrame - kHdrLen - kMacLen - kCrcLen"
abbreviation kMaxPayloadPlain :: nat where
  "kMaxPayloadPlain \<equiv> kMaxFrame - kHdrLen - kCrcLen"
abbreviation kMaxSchemaPayload :: nat where "kMaxSchemaPayload \<equiv> kMaxPayloadAuth"
abbreviation kPingMaxEcho :: nat where "kPingMaxEcho \<equiv> kMaxPayloadPlain - 2"
abbreviation kMinFrame :: nat where "kMinFrame \<equiv> kHdrLen + kCrcLen"
abbreviation kProtoVer :: u8 where "kProtoVer \<equiv> 2"
abbreviation kMaxFragments :: nat where "kMaxFragments \<equiv> 15"
abbreviation kDefaultFragTimeoutMs :: u32 where "kDefaultFragTimeoutMs \<equiv> 5000"
abbreviation kNodeKeyLen :: nat where "kNodeKeyLen \<equiv> 32"

section \<open>Identifiers (types.h)\<close>

type_synonym NodeId = u8
type_synonym SchemaId = u8
type_synonym Seq = u16
type_synonym CtxId = u32

abbreviation kNodeBridge :: NodeId where "kNodeBridge \<equiv> 0x00"
abbreviation kNodeBroadcast :: NodeId where "kNodeBroadcast \<equiv> 0xFF"

datatype MsgType =
    MT_Command | MT_CommandAck | MT_Poll | MT_Status | MT_Event | MT_Error
  | MT_Ping | MT_HexReq | MT_HexRsp | MT_Config | MT_ConfigAck | MT_Other u8

fun MsgType_u8 :: "MsgType \<Rightarrow> u8" where
  "MsgType_u8 MT_Command = 0x01"
| "MsgType_u8 MT_CommandAck = 0x02"
| "MsgType_u8 MT_Poll = 0x03"
| "MsgType_u8 MT_Status = 0x04"
| "MsgType_u8 MT_Event = 0x05"
| "MsgType_u8 MT_Error = 0x06"
| "MsgType_u8 MT_Ping = 0x07"
| "MsgType_u8 MT_HexReq = 0x08"
| "MsgType_u8 MT_HexRsp = 0x09"
| "MsgType_u8 MT_Config = 0x0A"
| "MsgType_u8 MT_ConfigAck = 0x0B"
| "MsgType_u8 (MT_Other b) = b"

definition u8_MsgType :: "u8 \<Rightarrow> MsgType" where
  "u8_MsgType b =
     (if b = 0x01 then MT_Command else if b = 0x02 then MT_CommandAck
      else if b = 0x03 then MT_Poll else if b = 0x04 then MT_Status
      else if b = 0x05 then MT_Event else if b = 0x06 then MT_Error
      else if b = 0x07 then MT_Ping else if b = 0x08 then MT_HexReq
      else if b = 0x09 then MT_HexRsp else if b = 0x0A then MT_Config
      else if b = 0x0B then MT_ConfigAck else MT_Other b)"

abbreviation kSchemaNone :: SchemaId where "kSchemaNone \<equiv> 0x00"
abbreviation kSchemaGateLinkStatusV1 :: SchemaId where "kSchemaGateLinkStatusV1 \<equiv> 0x10"
abbreviation kSchemaGateLinkEventV1 :: SchemaId where "kSchemaGateLinkEventV1 \<equiv> 0x11"
abbreviation kSchemaNodeConfigV1 :: SchemaId where "kSchemaNodeConfigV1 \<equiv> 0x12"
abbreviation kSchemaGateLinkStatusV2 :: SchemaId where "kSchemaGateLinkStatusV2 \<equiv> 0x13"
abbreviation kSchemaNodeHealthV1 :: SchemaId where "kSchemaNodeHealthV1 \<equiv> 0xF0"
abbreviation kSchemaSimnodeStatusV1 :: SchemaId where "kSchemaSimnodeStatusV1 \<equiv> 0xFE"

abbreviation kHdrFlagCriticalExt :: u8 where "kHdrFlagCriticalExt \<equiv> 0x80"

datatype Status =
    St_Ok | St_Runt | St_Oversize | St_BadCrc | St_BadVersion | St_NotAddressed
  | St_UnknownHdrExt | St_BadFrag | St_UnknownType | St_UnknownSchema | St_BadLength
  | St_ReassemblyTimeout | St_ReassemblyAbandoned | St_FragLate | St_FragmentOverflow
  | St_NotFragmentable | St_RejectedMac | St_RejectedCtx | St_UnknownSrc | St_RejectedSeq
  | St_DuplicateCached | St_DuplicateInFlight | St_BufferTooSmall | St_MissingMac
  | St_NotImplemented

abbreviation Cmd_Nop :: u8 where "Cmd_Nop \<equiv> 0x00"
abbreviation Cmd_Open :: u8 where "Cmd_Open \<equiv> 0x01"
abbreviation Cmd_Close :: u8 where "Cmd_Close \<equiv> 0x02"
abbreviation Cmd_HoldOpen :: u8 where "Cmd_HoldOpen \<equiv> 0x03"
abbreviation Cmd_ReleaseHold :: u8 where "Cmd_ReleaseHold \<equiv> 0x04"
abbreviation Cmd_RequestStatus :: u8 where "Cmd_RequestStatus \<equiv> 0x10"
abbreviation Cmd_RequestConfig :: u8 where "Cmd_RequestConfig \<equiv> 0x11"
abbreviation Cmd_RollContext :: u8 where "Cmd_RollContext \<equiv> 0x12"
abbreviation Cmd_SetDebugMode :: u8 where "Cmd_SetDebugMode \<equiv> 0x20"
abbreviation Cmd_SetRelayDryRun :: u8 where "Cmd_SetRelayDryRun \<equiv> 0x21"
abbreviation Cmd_SetBmsPolling :: u8 where "Cmd_SetBmsPolling \<equiv> 0x22"
abbreviation Cmd_Reboot :: u8 where "Cmd_Reboot \<equiv> 0x7F"
abbreviation kRollContextGuard :: u8 where "kRollContextGuard \<equiv> 0xA5"

datatype AckResult =
    AR_Accepted | AR_RejectedMac | AR_RejectedSeq | AR_RejectedCtx | AR_RejectedUnknownCmd
  | AR_RejectedArg | AR_RejectedNotSupported | AR_DuplicateCached | AR_DryRun
  | AR_ActuatorBusy | AR_RejectedUnsafe | AR_ActuatorFault

fun AckResult_u8 :: "AckResult \<Rightarrow> u8" where
  "AckResult_u8 AR_Accepted = 0x00"
| "AckResult_u8 AR_RejectedMac = 0x01"
| "AckResult_u8 AR_RejectedSeq = 0x02"
| "AckResult_u8 AR_RejectedCtx = 0x03"
| "AckResult_u8 AR_RejectedUnknownCmd = 0x04"
| "AckResult_u8 AR_RejectedArg = 0x05"
| "AckResult_u8 AR_RejectedNotSupported = 0x06"
| "AckResult_u8 AR_DuplicateCached = 0x07"
| "AckResult_u8 AR_DryRun = 0x10"
| "AckResult_u8 AR_ActuatorBusy = 0x11"
| "AckResult_u8 AR_RejectedUnsafe = 0x12"
| "AckResult_u8 AR_ActuatorFault = 0x13"

section \<open>Discard counters (counters.h, counters.cpp)\<close>

record Counters =
  rx_frames :: u32
  tx_frames :: u32
  rx_crc_err :: u32
  rx_runt :: u32
  rx_oversize :: u32
  rx_bad_crc :: u32
  rx_bad_ver :: u32
  rx_not_addressed :: u32
  rx_unknown_hdr_ext :: u32
  rx_bad_frag :: u32
  rx_unknown_type :: u32
  rx_unknown_schema :: u32
  rx_bad_length :: u32
  rx_not_fragmentable :: u32
  rx_rejected_ctx :: u32
  rx_rejected_mac :: u32
  rx_unknown_src :: u32
  rx_reassembly_timeout :: u32
  rx_fragment_overflow :: u32
  rx_reassembly_abandoned :: u32
  rx_rejected_seq :: u32
  rx_dup_command :: u32
  rx_frag_duplicate :: u32
  rx_frag_late :: u32
  cad_backoffs :: u32

definition Counters_init :: Counters where
  "Counters_init = \<lparr>rx_frames = 0, tx_frames = 0, rx_crc_err = 0, rx_runt = 0, rx_oversize = 0,
     rx_bad_crc = 0, rx_bad_ver = 0, rx_not_addressed = 0, rx_unknown_hdr_ext = 0,
     rx_bad_frag = 0, rx_unknown_type = 0, rx_unknown_schema = 0, rx_bad_length = 0,
     rx_not_fragmentable = 0, rx_rejected_ctx = 0, rx_rejected_mac = 0, rx_unknown_src = 0,
     rx_reassembly_timeout = 0, rx_fragment_overflow = 0, rx_reassembly_abandoned = 0,
     rx_rejected_seq = 0, rx_dup_command = 0, rx_frag_duplicate = 0, rx_frag_late = 0,
     cad_backoffs = 0\<rparr>"

fun Counters_bump :: "Status \<Rightarrow> Counters \<Rightarrow> Counters" where
  "Counters_bump St_Ok c = c"
| "Counters_bump St_Runt c = c\<lparr>rx_runt := rx_runt c + 1\<rparr>"
| "Counters_bump St_Oversize c = c\<lparr>rx_oversize := rx_oversize c + 1\<rparr>"
| "Counters_bump St_BadCrc c = c\<lparr>rx_bad_crc := rx_bad_crc c + 1\<rparr>"
| "Counters_bump St_BadVersion c = c\<lparr>rx_bad_ver := rx_bad_ver c + 1\<rparr>"
| "Counters_bump St_NotAddressed c = c\<lparr>rx_not_addressed := rx_not_addressed c + 1\<rparr>"
| "Counters_bump St_UnknownHdrExt c = c\<lparr>rx_unknown_hdr_ext := rx_unknown_hdr_ext c + 1\<rparr>"
| "Counters_bump St_BadFrag c = c\<lparr>rx_bad_frag := rx_bad_frag c + 1\<rparr>"
| "Counters_bump St_UnknownType c = c\<lparr>rx_unknown_type := rx_unknown_type c + 1\<rparr>"
| "Counters_bump St_UnknownSchema c = c\<lparr>rx_unknown_schema := rx_unknown_schema c + 1\<rparr>"
| "Counters_bump St_BadLength c = c\<lparr>rx_bad_length := rx_bad_length c + 1\<rparr>"
| "Counters_bump St_NotFragmentable c = c\<lparr>rx_not_fragmentable := rx_not_fragmentable c + 1\<rparr>"
| "Counters_bump St_ReassemblyTimeout c =
     c\<lparr>rx_reassembly_timeout := rx_reassembly_timeout c + 1\<rparr>"
| "Counters_bump St_ReassemblyAbandoned c =
     c\<lparr>rx_reassembly_abandoned := rx_reassembly_abandoned c + 1\<rparr>"
| "Counters_bump St_FragmentOverflow c =
     c\<lparr>rx_fragment_overflow := rx_fragment_overflow c + 1\<rparr>"
| "Counters_bump St_FragLate c = c\<lparr>rx_frag_late := rx_frag_late c + 1\<rparr>"
| "Counters_bump St_RejectedMac c = c\<lparr>rx_rejected_mac := rx_rejected_mac c + 1\<rparr>"
| "Counters_bump St_RejectedCtx c = c\<lparr>rx_rejected_ctx := rx_rejected_ctx c + 1\<rparr>"
| "Counters_bump St_UnknownSrc c = c\<lparr>rx_unknown_src := rx_unknown_src c + 1\<rparr>"
| "Counters_bump St_RejectedSeq c = c\<lparr>rx_rejected_seq := rx_rejected_seq c + 1\<rparr>"
| "Counters_bump St_DuplicateCached c = c\<lparr>rx_dup_command := rx_dup_command c + 1\<rparr>"
| "Counters_bump St_DuplicateInFlight c = c\<lparr>rx_dup_command := rx_dup_command c + 1\<rparr>"
| "Counters_bump St_BufferTooSmall c = c"
| "Counters_bump St_MissingMac c = c"
| "Counters_bump St_NotImplemented c = c"

text \<open>\<open>kCounterRegistry\<close>: name, field and the \<open>in_dropped\<close> column.\<close>

definition kCounterRegistry :: "(string \<times> (Counters \<Rightarrow> u32) \<times> bool) list" where
  "kCounterRegistry =
    [(''rx_crc_err'', rx_crc_err, True),
     (''rx_runt'', rx_runt, True),
     (''rx_oversize'', rx_oversize, True),
     (''rx_bad_crc'', rx_bad_crc, True),
     (''rx_bad_ver'', rx_bad_ver, True),
     (''rx_not_addressed'', rx_not_addressed, True),
     (''rx_unknown_hdr_ext'', rx_unknown_hdr_ext, True),
     (''rx_bad_frag'', rx_bad_frag, True),
     (''rx_unknown_type'', rx_unknown_type, True),
     (''rx_unknown_schema'', rx_unknown_schema, True),
     (''rx_bad_length'', rx_bad_length, True),
     (''rx_not_fragmentable'', rx_not_fragmentable, True),
     (''rx_rejected_ctx'', rx_rejected_ctx, True),
     (''rx_rejected_mac'', rx_rejected_mac, True),
     (''rx_unknown_src'', rx_unknown_src, True),
     (''rx_reassembly_timeout'', rx_reassembly_timeout, True),
     (''rx_fragment_overflow'', rx_fragment_overflow, True),
     (''rx_reassembly_abandoned'', rx_reassembly_abandoned, True),
     (''rx_rejected_seq'', rx_rejected_seq, True),
     (''rx_frag_duplicate'', rx_frag_duplicate, False),
     (''rx_frag_late'', rx_frag_late, False),
     (''rx_dup_command'', rx_dup_command, False)]"

definition Counters_total_dropped :: "Counters \<Rightarrow> u32" where
  "Counters_total_dropped c =
     foldl (\<lambda>sum (name, field, in_dropped). if in_dropped then sum + field c else sum)
       0 kCounterRegistry"

definition Counters_reset :: "Counters \<Rightarrow> Counters" where
  "Counters_reset c = Counters_init"

text \<open>A \<open>Counters*\<close> that may be null.\<close>

definition count_in :: "Counters option \<Rightarrow> Status \<Rightarrow> Counters option" where
  "count_in c s = map_option (Counters_bump s) c"

section \<open>The (type, schema) tables (wire.h, wire.cpp)\<close>

definition type_is_known :: "u8 \<Rightarrow> bool" where
  "type_is_known t \<longleftrightarrow>
     t = MsgType_u8 MT_Command \<or> t = MsgType_u8 MT_CommandAck \<or> t = MsgType_u8 MT_Poll \<or>
     t = MsgType_u8 MT_Status \<or> t = MsgType_u8 MT_Event \<or> t = MsgType_u8 MT_Error \<or>
     t = MsgType_u8 MT_Ping \<or> t = MsgType_u8 MT_HexReq \<or> t = MsgType_u8 MT_HexRsp \<or>
     t = MsgType_u8 MT_Config \<or> t = MsgType_u8 MT_ConfigAck"

fun type_carries_schema :: "MsgType \<Rightarrow> bool" where
  "type_carries_schema MT_Status = True"
| "type_carries_schema MT_Event = True"
| "type_carries_schema MT_Config = True"
| "type_carries_schema MT_ConfigAck = True"
| "type_carries_schema _ = False"

definition schema_is_known :: "MsgType \<Rightarrow> SchemaId \<Rightarrow> bool" where
  "schema_is_known type schema =
     (if \<not> type_carries_schema type then True
      else case type of
        MT_Status \<Rightarrow> schema = kSchemaGateLinkStatusV1 \<or> schema = kSchemaGateLinkStatusV2 \<or>
                     schema = kSchemaNodeHealthV1 \<or> schema = kSchemaSimnodeStatusV1
      | MT_Event \<Rightarrow> schema = kSchemaGateLinkEventV1
      | MT_Config \<Rightarrow> schema = kSchemaNodeConfigV1
      | MT_ConfigAck \<Rightarrow> schema = kSchemaNodeConfigV1
      | _ \<Rightarrow> False)"

text \<open>The expected payload length; \<open>None\<close> is \<open>kVariableLen\<close>.\<close>

definition fixed_payload_len :: "MsgType \<Rightarrow> SchemaId \<Rightarrow> nat option" where
  "fixed_payload_len type schema =
     (case type of
        MT_Command \<Rightarrow> Some 4
      | MT_CommandAck \<Rightarrow> Some 6
      | MT_Poll \<Rightarrow> Some 1
      | MT_Error \<Rightarrow> Some 4
      | MT_Ping \<Rightarrow> None
      | MT_HexReq \<Rightarrow> None
      | MT_HexRsp \<Rightarrow> None
      | MT_Config \<Rightarrow> None
      | MT_ConfigAck \<Rightarrow> None
      | MT_Other _ \<Rightarrow> None
      | _ \<Rightarrow> if schema = kSchemaGateLinkStatusV1 then Some 78
             else if schema = kSchemaSimnodeStatusV1 then Some 78
             else if schema = kSchemaGateLinkStatusV2 then Some 80
             else if schema = kSchemaGateLinkEventV1 then Some 16
             else if schema = kSchemaNodeHealthV1 then Some 20
             else None)"

fun type_requires_mac :: "MsgType \<Rightarrow> bool" where
  "type_requires_mac MT_Command = True"
| "type_requires_mac MT_Config = True"
| "type_requires_mac _ = False"

fun type_is_fragmentable :: "MsgType \<Rightarrow> bool" where
  "type_is_fragmentable MT_Config = True"
| "type_is_fragmentable MT_ConfigAck = True"
| "type_is_fragmentable MT_Ping = True"
| "type_is_fragmentable MT_Status = True"
| "type_is_fragmentable MT_Event = True"
| "type_is_fragmentable _ = False"

definition default_frag_chunk :: "MsgType \<Rightarrow> nat" where
  "default_frag_chunk type = (if type_requires_mac type then kMaxPayloadAuth else kMaxPayloadPlain)"

definition reassembly_cap :: "MsgType \<Rightarrow> nat" where
  "reassembly_cap type = (if type = MT_Ping then kMaxPayloadPlain else kMaxSchemaPayload)"

text \<open>The command nibble of an ASCII hex digit; the characters are their codes.\<close>

definition hex_nibble :: "u8 \<Rightarrow> u8 option" where
  "hex_nibble c =
     (if 0x30 \<le> c \<and> c \<le> 0x39 then Some (c - 0x30)
      else if 0x41 \<le> c \<and> c \<le> 0x46 then Some (c - 0x41 + 10)
      else if 0x61 \<le> c \<and> c \<le> 0x66 then Some (c - 0x61 + 10)
      else None)"

definition hex_req_is_write_class :: "bytes \<Rightarrow> bool" where
  "hex_req_is_write_class payload =
     (if length payload < 4 then False
      else let n = payload ! 1 in
        if n < 2 \<or> length payload < 2 + unat n then False
        else if payload ! 2 \<noteq> 0x3A then False
        else case hex_nibble (payload ! 3) of
          None \<Rightarrow> False
        | Some nibble \<Rightarrow> nibble = 0x8 \<or> nibble = 0x6)"

section \<open>Facts about the tables\<close>

definition wf_MsgType :: "MsgType \<Rightarrow> bool" where
  "wf_MsgType t \<longleftrightarrow> u8_MsgType (MsgType_u8 t) = t"

lemma MsgType_u8_u8_MsgType [simp]: "MsgType_u8 (u8_MsgType b) = b"
  by (simp add: u8_MsgType_def)

lemma wf_u8_MsgType [simp]: "wf_MsgType (u8_MsgType b)"
  by (simp add: wf_MsgType_def)

lemma wf_MsgType_simps [simp]:
  "wf_MsgType MT_Command" "wf_MsgType MT_CommandAck" "wf_MsgType MT_Poll"
  "wf_MsgType MT_Status" "wf_MsgType MT_Event" "wf_MsgType MT_Error" "wf_MsgType MT_Ping"
  "wf_MsgType MT_HexReq" "wf_MsgType MT_HexRsp" "wf_MsgType MT_Config" "wf_MsgType MT_ConfigAck"
  by (simp_all add: wf_MsgType_def u8_MsgType_def)

lemma u8_MsgType_u8 [simp]: "wf_MsgType t \<Longrightarrow> u8_MsgType (MsgType_u8 t) = t"
  by (simp add: wf_MsgType_def)

lemma type_is_known_other:
  "wf_MsgType (MT_Other b) \<Longrightarrow> \<not> type_is_known b"
  by (auto simp: wf_MsgType_def u8_MsgType_def type_is_known_def split: if_splits)

lemma known_cases:
  assumes "wf_MsgType t" "type_is_known (MsgType_u8 t)"
  obtains "t = MT_Command" | "t = MT_CommandAck" | "t = MT_Poll" | "t = MT_Status"
    | "t = MT_Event" | "t = MT_Error" | "t = MT_Ping" | "t = MT_HexReq" | "t = MT_HexRsp"
    | "t = MT_Config" | "t = MT_ConfigAck"
  using assms type_is_known_other by (cases t) auto

lemma reassembly_cap_le: "reassembly_cap t \<le> kMaxPayloadPlain"
  by (simp add: reassembly_cap_def)

lemma Counters_bump_inert [simp]:
  "rx_frames (Counters_bump s c) = rx_frames c"
  "tx_frames (Counters_bump s c) = tx_frames c"
  "rx_crc_err (Counters_bump s c) = rx_crc_err c"
  "rx_frag_duplicate (Counters_bump s c) = rx_frag_duplicate c"
  "cad_backoffs (Counters_bump s c) = cad_backoffs c"
  by (cases s; simp)+

end
