(* ===== verification/Mac.thy ===== *)
theory Mac
  imports Wire
begin

text \<open>
  Authentication primitives: the constant-time comparison and the placeholder-key test of
  \<open>mac.h\<close>/\<open>mac.cpp\<close>, the interface \<open>IMac\<close>, and the reference implementation of
  HMAC-SHA256 and HKDF (\<open>platform/native/refimpl_mac.cpp\<close>) that provides it on the host.

  The codec sees a MAC only through \<open>IMac\<close>: a function of key and data that fills exactly
  \<open>kMacLen\<close> bytes. The locale \<open>imac\<close> is that contract and \<open>RefMac\<close> its model.
\<close>

section \<open>Comparisons (mac.cpp)\<close>

definition ct_equal :: "bytes \<Rightarrow> bytes \<Rightarrow> nat \<Rightarrow> bool" where
  "ct_equal a b len \<longleftrightarrow> foldl (\<lambda>diff i. diff OR (a ! i XOR b ! i)) (0 :: u8) [0..<len] = 0"

fun key_is_placeholder :: "bytes \<Rightarrow> bool" where
  "key_is_placeholder [] = True"
| "key_is_placeholder (k # ks) = (if k \<noteq> 0 then False else key_is_placeholder ks)"

section \<open>SHA-256 (refimpl_mac.cpp)\<close>

definition kK :: "u32 list" where
  "kK = concat
    [[0x428a2f98, 0x71374491, 0xb5c0fbcf, 0xe9b5dba5, 0x3956c25b, 0x59f111f1],
     [0x923f82a4, 0xab1c5ed5, 0xd807aa98, 0x12835b01, 0x243185be, 0x550c7dc3],
     [0x72be5d74, 0x80deb1fe, 0x9bdc06a7, 0xc19bf174, 0xe49b69c1, 0xefbe4786],
     [0x0fc19dc6, 0x240ca1cc, 0x2de92c6f, 0x4a7484aa, 0x5cb0a9dc, 0x76f988da],
     [0x983e5152, 0xa831c66d, 0xb00327c8, 0xbf597fc7, 0xc6e00bf3, 0xd5a79147],
     [0x06ca6351, 0x14292967, 0x27b70a85, 0x2e1b2138, 0x4d2c6dfc, 0x53380d13],
     [0x650a7354, 0x766a0abb, 0x81c2c92e, 0x92722c85, 0xa2bfe8a1, 0xa81a664b],
     [0xc24b8b70, 0xc76c51a3, 0xd192e819, 0xd6990624, 0xf40e3585, 0x106aa070],
     [0x19a4c116, 0x1e376c08, 0x2748774c, 0x34b0bcb5, 0x391c0cb3, 0x4ed8aa4a],
     [0x5b9cca4f, 0x682e6ff3, 0x748f82ee, 0x78a5636f, 0x84c87814, 0x8cc70208],
     [0x90befffa, 0xa4506ceb, 0xbef9a3f7, 0xc67178f2]]"

definition rotr :: "u32 \<Rightarrow> nat \<Rightarrow> u32" where
  "rotr x n = drop_bit n x OR push_bit (32 - n) x"

record Sha256 =
  sha_h :: "u32 list"
  sha_block :: bytes
  sha_used :: nat
  sha_total_bits :: u64

definition Sha256_init :: Sha256 where
  "Sha256_init =
     \<lparr>sha_h = [0x6a09e667, 0xbb67ae85, 0x3c6ef372, 0xa54ff53a,
               0x510e527f, 0x9b05688c, 0x1f83d9ab, 0x5be0cd19],
      sha_block = replicate 64 0, sha_used = 0, sha_total_bits = 0\<rparr>"

text \<open>The message schedule \<open>w\<close>: sixteen big-endian words, then forty-eight derived ones.\<close>

definition sha_word :: "bytes \<Rightarrow> nat \<Rightarrow> u32" where
  "sha_word p i =
     push_bit 24 (ucast (p ! (4 * i))) OR push_bit 16 (ucast (p ! (4 * i + 1))) OR
     push_bit 8 (ucast (p ! (4 * i + 2))) OR ucast (p ! (4 * i + 3))"

definition sha_extend :: "u32 list \<Rightarrow> nat \<Rightarrow> u32 list" where
  "sha_extend w i =
     (let s0 = rotr (w ! (i - 15)) 7 XOR rotr (w ! (i - 15)) 18 XOR drop_bit 3 (w ! (i - 15));
          s1 = rotr (w ! (i - 2)) 17 XOR rotr (w ! (i - 2)) 19 XOR drop_bit 10 (w ! (i - 2))
      in w @ [w ! (i - 16) + s0 + w ! (i - 7) + s1])"

definition sha_schedule :: "bytes \<Rightarrow> u32 list" where
  "sha_schedule p = foldl sha_extend (map (sha_word p) [0..<16]) [16..<64]"

type_synonym sha_regs = "u32 \<times> u32 \<times> u32 \<times> u32 \<times> u32 \<times> u32 \<times> u32 \<times> u32"

definition sha_round :: "u32 list \<Rightarrow> sha_regs \<Rightarrow> nat \<Rightarrow> sha_regs" where
  "sha_round w regs i =
     (case regs of (a, b, c, d, e, f, g, hh) \<Rightarrow>
        let S1 = rotr e 6 XOR rotr e 11 XOR rotr e 25;
            ch = (e AND f) XOR (NOT e AND g);
            t1 = hh + S1 + ch + kK ! i + w ! i;
            S0 = rotr a 2 XOR rotr a 13 XOR rotr a 22;
            maj = (a AND b) XOR (a AND c) XOR (b AND c);
            t2 = S0 + maj
        in (t1 + t2, a, b, c, d + t1, e, f, g))"

definition Sha256_compress :: "bytes \<Rightarrow> Sha256 \<Rightarrow> Sha256" where
  "Sha256_compress p s =
     (let w = sha_schedule p; h = sha_h s in
      case foldl (sha_round w) (h ! 0, h ! 1, h ! 2, h ! 3, h ! 4, h ! 5, h ! 6, h ! 7) [0..<64] of
        (a, b, c, d, e, f, g, hh) \<Rightarrow>
          s\<lparr>sha_h := [h ! 0 + a, h ! 1 + b, h ! 2 + c, h ! 3 + d,
                      h ! 4 + e, h ! 5 + f, h ! 6 + g, h ! 7 + hh]\<rparr>)"

definition sha_push :: "Sha256 \<Rightarrow> u8 \<Rightarrow> Sha256" where
  "sha_push s d =
     (let s = s\<lparr>sha_block := (sha_block s)[sha_used s := d], sha_used := sha_used s + 1\<rparr>
      in if sha_used s = 64 then (Sha256_compress (sha_block s) s)\<lparr>sha_used := 0\<rparr> else s)"

definition Sha256_update :: "bytes \<Rightarrow> Sha256 \<Rightarrow> Sha256" where
  "Sha256_update data s =
     foldl sha_push (s\<lparr>sha_total_bits := sha_total_bits s + of_nat (length data) * 8\<rparr>) data"

definition Sha256_finish :: "Sha256 \<Rightarrow> bytes" where
  "Sha256_finish s0 =
     (let bits = sha_total_bits s0;
          s1 = s0\<lparr>sha_block := (sha_block s0)[sha_used s0 := 0x80], sha_used := sha_used s0 + 1\<rparr>;
          s2 = (if sha_used s1 > 56
                then let blk = blit (sha_block s1) (sha_used s1) (replicate (64 - sha_used s1) 0)
                     in (Sha256_compress blk (s1\<lparr>sha_block := blk\<rparr>))\<lparr>sha_used := 0\<rparr>
                else s1);
          blk = blit (sha_block s2) (sha_used s2) (replicate (56 - sha_used s2) 0);
          blk = blit blk 56 (map (\<lambda>i. ucast (drop_bit (56 - 8 * i) bits)) [0..<8]);
          s3 = Sha256_compress blk (s2\<lparr>sha_block := blk\<rparr>)
      in concat (map (\<lambda>i. [ucast (drop_bit 24 (sha_h s3 ! i)), ucast (drop_bit 16 (sha_h s3 ! i)),
                           ucast (drop_bit 8 (sha_h s3 ! i)), ucast (sha_h s3 ! i)]) [0..<8]))"

definition sha256 :: "bytes \<Rightarrow> bytes" where
  "sha256 data = Sha256_finish (Sha256_update data Sha256_init)"

section \<open>HMAC and HKDF (refimpl_mac.cpp)\<close>

definition hmac_sha256 :: "bytes \<Rightarrow> bytes \<Rightarrow> bytes" where
  "hmac_sha256 key data =
     (let k = blit (replicate 64 0) 0 (if length key > 64 then sha256 key else key);
          ipad = map (\<lambda>b. b XOR 0x36) k;
          opad = map (\<lambda>b. b XOR 0x5c) k;
          inner = Sha256_finish (Sha256_update data (Sha256_update ipad Sha256_init))
      in Sha256_finish (Sha256_update inner (Sha256_update opad Sha256_init)))"

definition hkdf_sha256 :: "bytes \<Rightarrow> bytes \<Rightarrow> bytes \<Rightarrow> nat \<Rightarrow> bytes" where
  "hkdf_sha256 salt ikm info out_len =
     (let prk = hmac_sha256 salt ikm;
          t = hmac_sha256 prk (take 255 info @ [0x01])
      in take out_len t)"

definition RefMac :: "bytes \<Rightarrow> bytes \<Rightarrow> bytes" where
  "RefMac key data = take kMacLen (hmac_sha256 key data)"

text \<open>\<open>kKdfSalt\<close> is \<open>"lran-v1"\<close> and \<open>kKdfInfoPrefix\<close> is \<open>"node-"\<close>, without their NUL.\<close>

definition kKdfSalt :: bytes where
  "kKdfSalt = [0x6c, 0x72, 0x61, 0x6e, 0x2d, 0x76, 0x31]"

definition kKdfInfoPrefix :: bytes where
  "kKdfInfoPrefix = [0x6e, 0x6f, 0x64, 0x65, 0x2d]"

definition RefKdf :: "bytes \<Rightarrow> NodeId \<Rightarrow> bytes" where
  "RefKdf master nid = hkdf_sha256 kKdfSalt master (kKdfInfoPrefix @ [nid]) kNodeKeyLen"

section \<open>Correctness\<close>

lemma or_zero_iff: "a OR b = 0 \<longleftrightarrow> a = 0 \<and> b = 0" for a b :: "'a::len word"
  by (auto simp: word_eq_0_bits [of "a OR b"] word_eq_0_bits [of a] word_eq_0_bits [of b] bit_or_iff)

lemma or_fold_zero:
  "foldl (\<lambda>diff i. diff OR f i) d xs = (0 :: 'a::len word) \<longleftrightarrow> d = 0 \<and> (\<forall>i \<in> set xs. f i = 0)"
  by (induction xs arbitrary: d) (auto simp: or_zero_iff)

text \<open>The accumulated difference is zero exactly when the two byte strings agree.\<close>

lemma ct_equal_iff:
  "len \<le> length a \<Longrightarrow> len \<le> length b \<Longrightarrow> ct_equal a b len \<longleftrightarrow> take len a = take len b"
proof -
  assume len: "len \<le> length a" "len \<le> length b"
  have "x XOR y = 0 \<longleftrightarrow> x = y" for x y :: u8
    by (metis xor_left_cancel xor_self_eq)
  then have "ct_equal a b len \<longleftrightarrow> (\<forall>i < len. a ! i = b ! i)"
    by (simp add: ct_equal_def or_fold_zero atLeast0LessThan Ball_def)
  with len show ?thesis
    by (auto simp: list_eq_iff_nth_eq)
qed

lemma key_is_placeholder_iff: "key_is_placeholder key \<longleftrightarrow> (\<forall>k \<in> set key. k = 0)"
  by (induction key) auto

lemma length_Sha256_finish [simp]: "length (Sha256_finish s) = 32"
  by (simp add: Sha256_finish_def Let_def length_concat comp_def sum_list_triv)

lemma length_hmac_sha256 [simp]: "length (hmac_sha256 key data) = 32"
  by (simp add: hmac_sha256_def Let_def)

lemma length_RefKdf [simp]: "length (RefKdf master nid) = kNodeKeyLen"
  by (simp add: RefKdf_def hkdf_sha256_def)

section \<open>The interface\<close>

locale imac =
  fixes hmac_sha256_trunc :: "bytes \<Rightarrow> bytes \<Rightarrow> bytes"
  assumes mac_length: "length (hmac_sha256_trunc key data) = kMacLen"
begin

lemma mac_accept_iff:
  "length m = kMacLen \<Longrightarrow>
   ct_equal (hmac_sha256_trunc key data) m kMacLen \<longleftrightarrow> m = hmac_sha256_trunc key data"
  using ct_equal_iff [of kMacLen "hmac_sha256_trunc key data" m] mac_length [of key data] by auto

end

interpretation ref_mac: imac RefMac
  by unfold_locales (simp add: RefMac_def)

end
