(* ===== verification/Codec.thy ===== *)
theory Codec
  imports Mac
begin

text \<open>
  Frame encoding and decoding: \<open>frame.h\<close>, \<open>codec.h\<close> and \<open>codec.cpp\<close>.

  A pointer with its length is one byte list, so the null checks of the C++ signatures have
  no counterpart, except where a null pointer is data (\<open>Frame::payload\<close>, \<open>Frame::mac\<close>,
  the optional MAC, key and counters of a context), which are options. \<open>decode_header\<close> and
  \<open>decode_payload\<close> return the status, the counters after \<open>fail\<close>, and the frame;
  \<open>encode\<close> returns the status, the output buffer and \<open>*out_len\<close>.
\<close>

section \<open>Header and frame (frame.h)\<close>

record Header =
  h_ver :: u8
  h_type :: MsgType
  h_src :: NodeId
  h_dst :: NodeId
  h_seq :: Seq
  h_ctx_id :: CtxId
  h_frag :: u8
  h_schema :: SchemaId
  h_hdr_flags :: u8
  h_reserved :: bytes

definition Header_init :: Header where
  "Header_init = \<lparr>h_ver = kProtoVer, h_type = MT_Poll, h_src = 0, h_dst = 0, h_seq = 0,
     h_ctx_id = 0, h_frag = 0x01, h_schema = kSchemaNone, h_hdr_flags = 0,
     h_reserved = [0, 0, 0]\<rparr>"

definition frag_index :: "Header \<Rightarrow> u8" where
  "frag_index h = drop_bit 4 (h_frag h)"

definition frag_total :: "Header \<Rightarrow> u8" where
  "frag_total h = h_frag h AND 0x0F"

definition critical_ext :: "Header \<Rightarrow> bool" where
  "critical_ext h \<longleftrightarrow> h_hdr_flags h AND kHdrFlagCriticalExt \<noteq> 0"

definition set_frag :: "u8 \<Rightarrow> u8 \<Rightarrow> Header \<Rightarrow> Header" where
  "set_frag idx tot h = h\<lparr>h_frag := push_bit 4 idx OR (tot AND 0x0F)\<rparr>"

record Frame =
  f_hdr :: Header
  f_payload :: "bytes option"
  f_mac :: "bytes option"
  f_mac_verified :: bool

definition Frame_init :: Frame where
  "Frame_init = \<lparr>f_hdr = Header_init, f_payload = None, f_mac = None, f_mac_verified = False\<rparr>"

definition f_payload_len :: "Frame \<Rightarrow> nat" where
  "f_payload_len f = (case f_payload f of None \<Rightarrow> 0 | Some p \<Rightarrow> length p)"

section \<open>Contexts (codec.h)\<close>

type_synonym IMac = "bytes \<Rightarrow> bytes \<Rightarrow> bytes"

record DecodeCtx =
  dc_self :: NodeId
  dc_accept_ver_min :: u8
  dc_accept_ver_max :: u8
  dc_mac :: "IMac option"
  dc_node_key :: "bytes option"
  dc_expect_ctx_id :: CtxId
  dc_counters :: "Counters option"

record EncodeCtx =
  ec_mac :: "IMac option"
  ec_node_key :: "bytes option"

section \<open>Encode and decode (codec.cpp)\<close>

definition fail :: "DecodeCtx \<Rightarrow> Status \<Rightarrow> Status \<times> Counters option" where
  "fail ctx s = (s, count_in (dc_counters ctx) s)"

definition write_header :: "Header \<Rightarrow> (ByteWriter, bool) state" where
  "write_header h = do {
     bw_u8 (h_ver h);
     bw_u8 (MsgType_u8 (h_type h));
     bw_u8 (h_src h);
     bw_u8 (h_dst h);
     bw_u16 (h_seq h);
     bw_u32 (h_ctx_id h);
     bw_u8 (h_frag h);
     bw_u8 (h_schema h);
     bw_u8 (h_hdr_flags h AND kHdrFlagCriticalExt);
     bw_skip 3
   }"

definition read_header :: "(ByteReader, Header) state" where
  "read_header = do {
     ver \<leftarrow> br_u8;
     type \<leftarrow> br_u8;
     src \<leftarrow> br_u8;
     dst \<leftarrow> br_u8;
     seq \<leftarrow> br_u16;
     ctx_id \<leftarrow> br_u32;
     frag \<leftarrow> br_u8;
     schema \<leftarrow> br_u8;
     hdr_flags \<leftarrow> br_u8;
     reserved \<leftarrow> br_bytes 3;
     State_Monad.return \<lparr>h_ver = ver, h_type = u8_MsgType type, h_src = src, h_dst = dst,
       h_seq = seq, h_ctx_id = ctx_id, h_frag = frag, h_schema = schema,
       h_hdr_flags = hdr_flags,
       h_reserved = (case reserved of None \<Rightarrow> [0, 0, 0] | Some r \<Rightarrow> r)\<rparr>
   }"

text \<open>The entry loop of CONFIG (entry header of 4 bytes) and CONFIG\_ACK (5 bytes), the last
  header byte being the value length; the offset after the last entry, or \<open>None\<close>.\<close>

fun walk_entries :: "nat \<Rightarrow> bytes \<Rightarrow> nat \<Rightarrow> nat \<Rightarrow> nat option" where
  "walk_entries hdr p 0 off = Some off"
| "walk_entries hdr p (Suc i) off =
     (if off + hdr > length p then None
      else let vlen = unat (p ! (off + hdr - 1)) in
        if off + hdr + vlen > length p then None
        else walk_entries hdr p i (off + hdr + vlen))"

abbreviation kConfigAckMoreFollows :: u8 where "kConfigAckMoreFollows \<equiv> 0x80"

definition check_variable_payload :: "MsgType \<Rightarrow> bytes \<Rightarrow> Status" where
  "check_variable_payload type p =
     (case type of
        MT_Ping \<Rightarrow>
          if length p < 2 then St_BadLength
          else let n = unat (p ! 1) in
            if n > kPingMaxEcho then St_BadLength
            else if length p = 2 + n then St_Ok else St_BadLength
      | MT_HexReq \<Rightarrow>
          if length p < 2 then St_BadLength
          else if length p = 2 + unat (p ! 1) then St_Ok else St_BadLength
      | MT_HexRsp \<Rightarrow>
          if length p < 2 then St_BadLength
          else if length p = 2 + unat (p ! 1) then St_Ok else St_BadLength
      | MT_Config \<Rightarrow>
          if length p < 2 then St_BadLength
          else (case walk_entries 4 p (unat (p ! 1)) 2 of
                  None \<Rightarrow> St_BadLength
                | Some off \<Rightarrow> if off = length p then St_Ok else St_BadLength)
      | MT_ConfigAck \<Rightarrow>
          if length p < 3 then St_BadLength
          else (case walk_entries 5 p (unat (p ! 2 AND NOT kConfigAckMoreFollows)) 3 of
                  None \<Rightarrow> St_BadLength
                | Some off \<Rightarrow> if off = length p then St_Ok else St_BadLength)
      | _ \<Rightarrow> St_Ok)"

definition frame_has_mac :: "MsgType \<Rightarrow> bytes \<Rightarrow> bool" where
  "frame_has_mac type payload =
     (if type_requires_mac type then True
      else if type = MT_HexReq then hex_req_is_write_class payload
      else False)"

definition frame_len :: "nat \<Rightarrow> bool \<Rightarrow> nat" where
  "frame_len payload_len has_mac =
     (let total = kHdrLen + payload_len + (if has_mac then kMacLen else 0) + kCrcLen
      in if total > kMaxFrame then 0 else total)"

definition decode_header :: "bytes \<Rightarrow> DecodeCtx \<Rightarrow> (Status \<times> Counters option) \<times> Frame" where
  "decode_header buf ctx =
     (let out = Frame_init; len = length buf in
      if len < kMinFrame then (fail ctx St_Runt, out)
      else if len > kMaxFrame then (fail ctx St_Oversize, out)
      else if crc16_ccitt_false (take (len - kCrcLen) buf)
                \<noteq> of_le16 (buf ! (len - 2)) (buf ! (len - 1)) then (fail ctx St_BadCrc, out)
      else let h = fst (run_state read_header (br_new buf)); out = out\<lparr>f_hdr := h\<rparr> in
        if h_ver h < dc_accept_ver_min ctx \<or> h_ver h > dc_accept_ver_max ctx
          then (fail ctx St_BadVersion, out)
        else if h_dst h \<noteq> dc_self ctx \<and> h_dst h \<noteq> kNodeBroadcast
          then (fail ctx St_NotAddressed, out)
        else if critical_ext h then (fail ctx St_UnknownHdrExt, out)
        else if frag_total h = 0 then (fail ctx St_BadFrag, out)
        else if frag_index h \<ge> frag_total h then (fail ctx St_FragmentOverflow, out)
        else if \<not> type_is_known (MsgType_u8 (h_type h)) then (fail ctx St_UnknownType, out)
        else ((St_Ok, dc_counters ctx), out))"

text \<open>\<open>body = buf + kHdrLen\<close> with \<open>body_len = len - kHdrLen - kCrcLen\<close>: payload and MAC.\<close>

definition frame_body :: "bytes \<Rightarrow> bytes" where
  "frame_body buf = take (length buf - kHdrLen - kCrcLen) (drop kHdrLen buf)"

text \<open>
  Stage 8's first half: where the payload ends and whether a MAC follows it, from the body
  (payload and MAC). \<open>Inl\<close> is the early return.
\<close>

definition payload_boundary :: "Header \<Rightarrow> bytes \<Rightarrow> Status + (nat \<times> bool)" where
  "payload_boundary h body =
     (let mac_present = type_requires_mac (h_type h); body_len = length body in
      if h_type h = MT_HexReq then
        if frag_total h > 1 then Inl St_NotFragmentable
        else if body_len < 2 then Inl St_BadLength
        else let payload_len = 2 + unat (body ! 1) in
          if payload_len > body_len then Inl St_BadLength
          else let rem = body_len - payload_len in
            if rem = kMacLen then Inr (payload_len, True)
            else if rem \<noteq> 0 then Inl St_BadLength
            else Inr (payload_len, mac_present)
      else if mac_present \<and> body_len < kMacLen then Inl St_BadLength
      else Inr (body_len - (if mac_present then kMacLen else 0), mac_present))"

text \<open>Stages 7, 8a and 8 on a payload whose boundary is known.\<close>

definition check_payload :: "Header \<Rightarrow> bytes \<Rightarrow> Status" where
  "check_payload h p =
     (if \<not> schema_is_known (h_type h) (h_schema h) then St_UnknownSchema
      else if frag_total h > 1 \<and> \<not> type_is_fragmentable (h_type h) then St_NotFragmentable
      else if frag_total h > 1 then
        if length p = 0 \<or> length p > reassembly_cap (h_type h) then St_FragmentOverflow else St_Ok
      else (case fixed_payload_len (h_type h) (h_schema h) of
              None \<Rightarrow> check_variable_payload (h_type h) p
            | Some want \<Rightarrow> if length p \<noteq> want then St_BadLength else St_Ok))"

definition decode_payload ::
  "bytes \<Rightarrow> DecodeCtx \<Rightarrow> Frame \<Rightarrow> (Status \<times> Counters option) \<times> Frame" where
  "decode_payload buf ctx f =
     (let len = length buf; h = f_hdr f in
      if len < kMinFrame \<or> len > kMaxFrame then (fail ctx St_Runt, f)
      else if frag_total h = 0 then (fail ctx St_BadFrag, f)
      else if unat (frag_total h) > kMaxFragments \<or> frag_index h \<ge> frag_total h
        then (fail ctx St_FragmentOverflow, f)
      else let body = frame_body buf in
        case payload_boundary h body of
          Inl s \<Rightarrow> (fail ctx s, f)
        | Inr (payload_len, mac_present) \<Rightarrow>
            let p = take payload_len body; s = check_payload h p in
            if s \<noteq> St_Ok then (fail ctx s, f)
            else let mac = take kMacLen (drop payload_len body);
                     f = f\<lparr>f_payload := Some p, f_mac := (if mac_present then Some mac else None)\<rparr> in
              if dc_expect_ctx_id ctx \<noteq> 0 \<and> frame_has_mac (h_type h) p \<and>
                 h_ctx_id h \<noteq> dc_expect_ctx_id ctx then (fail ctx St_RejectedCtx, f)
              else if h_type h = MT_HexReq \<and> \<not> mac_present \<and> hex_req_is_write_class p
                then (fail ctx St_RejectedMac, f)
              else (case (dc_mac ctx, dc_node_key ctx) of
                      (Some hmac, Some key) \<Rightarrow>
                        if mac_present then
                          if \<not> ct_equal (hmac key (take (kHdrLen + payload_len) buf)) mac kMacLen
                            then (fail ctx St_RejectedMac, f)
                          else ((St_Ok, dc_counters ctx), f\<lparr>f_mac_verified := True\<rparr>)
                        else ((St_Ok, dc_counters ctx), f)
                    | _ \<Rightarrow> ((St_Ok, dc_counters ctx), f)))"

text \<open>The second half of \<open>encode\<close>, reached once every check has passed.\<close>

definition emit_frame :: "Header \<Rightarrow> bytes \<Rightarrow> EncodeCtx \<Rightarrow> bool \<Rightarrow> bytes \<Rightarrow> Status \<times> bytes \<times> nat" where
  "emit_frame hdr payload ctx mac_present buf =
     (let w = snd (run_state (do {write_header hdr; bw_bytes payload (length payload)})
                    (bw_new buf))
      in if \<not> bw_ok w then (St_BufferTooSmall, bw_buf w, 0)
      else let w = (if mac_present
                    then let mac = (the (ec_mac ctx)) (the (ec_node_key ctx))
                                     (take (kHdrLen + length payload) (bw_buf w))
                         in snd (run_state (bw_bytes mac kMacLen) w)
                    else w);
               crc = crc16_ccitt_false (take (bw_pos w) (bw_buf w));
               w = snd (run_state (bw_u16 crc) w)
        in if \<not> bw_ok w then (St_BufferTooSmall, bw_buf w, 0)
           else (St_Ok, bw_buf w, bw_pos w))"

text \<open>The length check of \<open>encode\<close>: the whole message, or the chunk of a fragment.\<close>

definition encode_shape :: "Header \<Rightarrow> bytes \<Rightarrow> Status" where
  "encode_shape hdr payload =
     (if frag_total hdr = 1 then
        (case fixed_payload_len (h_type hdr) (h_schema hdr) of
           None \<Rightarrow> check_variable_payload (h_type hdr) payload
         | Some want \<Rightarrow> if length payload \<noteq> want then St_BadLength else St_Ok)
      else if length payload = 0 \<or> length payload > reassembly_cap (h_type hdr)
        then St_FragmentOverflow else St_Ok)"

definition encode :: "Header \<Rightarrow> bytes \<Rightarrow> EncodeCtx \<Rightarrow> bytes \<Rightarrow> Status \<times> bytes \<times> nat" where
  "encode hdr payload ctx buf =
     (if \<not> type_is_known (MsgType_u8 (h_type hdr)) then (St_UnknownType, buf, 0)
      else if frag_total hdr = 0 then (St_BadFrag, buf, 0)
      else if unat (frag_total hdr) > kMaxFragments \<or> frag_index hdr \<ge> frag_total hdr
        then (St_FragmentOverflow, buf, 0)
      else if frag_total hdr > 1 \<and> \<not> type_is_fragmentable (h_type hdr)
        then (St_NotFragmentable, buf, 0)
      else if \<not> schema_is_known (h_type hdr) (h_schema hdr) then (St_UnknownSchema, buf, 0)
      else if encode_shape hdr payload \<noteq> St_Ok then (encode_shape hdr payload, buf, 0)
      else let mac_present = frame_has_mac (h_type hdr) payload;
               total = frame_len (length payload) mac_present
        in if total = 0 then (St_BadLength, buf, 0)
      else if total > length buf then (St_BufferTooSmall, buf, 0)
      else if mac_present \<and> (ec_mac ctx = None \<or> ec_node_key ctx = None)
        then (St_MissingMac, buf, 0)
      else emit_frame hdr payload ctx mac_present buf)"

definition fragment_count :: "nat \<Rightarrow> nat \<Rightarrow> nat" where
  "fragment_count payload_len chunk =
     (if chunk = 0 then 0
      else if payload_len = 0 then 1
      else let n = (payload_len + chunk - 1) div chunk
           in if n > kMaxFragments then 0 else n)"

definition encode_fragment ::
  "Header \<Rightarrow> bytes \<Rightarrow> nat \<Rightarrow> nat \<Rightarrow> EncodeCtx \<Rightarrow> bytes \<Rightarrow> Status \<times> bytes \<times> nat" where
  "encode_fragment hdr payload index frag_chunk ctx buf =
     (if \<not> type_is_known (MsgType_u8 (h_type hdr)) then (St_UnknownType, buf, 0)
      else let chunk = (if frag_chunk = 0 then default_frag_chunk (h_type hdr) else frag_chunk);
               total = fragment_count (length payload) chunk
        in if total = 0 then (St_FragmentOverflow, buf, 0)
      else if index \<ge> total then (St_FragmentOverflow, buf, 0)
      else if total > 1 \<and> \<not> type_is_fragmentable (h_type hdr) then (St_NotFragmentable, buf, 0)
      else let off = index * chunk;
               here = (if length payload - off < chunk then length payload - off else chunk)
        in encode (set_frag (of_nat index) (of_nat total) hdr) (take here (drop off payload)) ctx buf)"

section \<open>The byte image of a frame\<close>

definition header_bytes :: "Header \<Rightarrow> bytes" where
  "header_bytes h =
     [h_ver h, MsgType_u8 (h_type h), h_src h, h_dst h] @ le16 (h_seq h) @ le32 (h_ctx_id h) @
     [h_frag h, h_schema h, h_hdr_flags h AND kHdrFlagCriticalExt, 0, 0, 0]"

definition mac_bytes :: "EncodeCtx \<Rightarrow> Header \<Rightarrow> bytes \<Rightarrow> bytes" where
  "mac_bytes ctx h p =
     (if frame_has_mac (h_type h) p then the (ec_mac ctx) (the (ec_node_key ctx)) (header_bytes h @ p)
      else [])"

definition frame_image :: "EncodeCtx \<Rightarrow> Header \<Rightarrow> bytes \<Rightarrow> bytes" where
  "frame_image ctx h p =
     (let b = header_bytes h @ p @ mac_bytes ctx h p in b @ le16 (crc16_ccitt_false b))"

text \<open>The law of the injected MAC, and what a sender needs to hold to authenticate.\<close>

definition mac_ok :: "IMac option \<Rightarrow> bool" where
  "mac_ok m \<longleftrightarrow> (\<forall>hm. m = Some hm \<longrightarrow> imac hm)"

lemma length_header_bytes [simp]: "length (header_bytes h) = kHdrLen"
  by (simp add: header_bytes_def)

lemma run_write_header_at [stream_simps]:
  "length out + kHdrLen \<le> length buf \<Longrightarrow>
   run_state (write_header h) (writer_at buf out) = (True, writer_at buf (out @ header_bytes h))"
  by (simp add: write_header_def header_bytes_def stream_simps numeral_eq_Suc)

lemma run_read_header_at:
  "run_state read_header (reader_at [] (header_bytes h @ rest)) =
     (h\<lparr>h_type := u8_MsgType (MsgType_u8 (h_type h)),
        h_hdr_flags := h_hdr_flags h AND kHdrFlagCriticalExt, h_reserved := [0, 0, 0]\<rparr>,
      reader_at (header_bytes h) rest)"
proof -
  have res: "run_state (br_bytes 3) (reader_at pre (0 # 0 # 0 # rest)) =
      (Some [0, 0, 0], reader_at (pre @ [0, 0, 0]) rest)" for pre
    using run_br_bytes_at(1) [of 3 "[0, 0, 0]" pre rest] by simp
  show ?thesis
    by (simp add: read_header_def header_bytes_def stream_simps res)
qed

lemma length_mac_bytes:
  "mac_ok (ec_mac ctx) \<Longrightarrow> frame_has_mac (h_type h) p \<Longrightarrow> ec_mac ctx \<noteq> None \<Longrightarrow>
   length (mac_bytes ctx h p) = kMacLen"
  by (auto simp: mac_bytes_def mac_ok_def imac_def)

lemma emit_frame_eq:
  assumes mac: "mac_ok (ec_mac ctx)" "mp \<Longrightarrow> ec_mac ctx \<noteq> None"
    and mp: "mp = frame_has_mac (h_type h) p"
    and room: "kHdrLen + length p + (if mp then kMacLen else 0) + kCrcLen \<le> length buf"
  shows "emit_frame h p ctx mp buf =
    (St_Ok, frame_image ctx h p @ drop (length (frame_image ctx h p)) buf,
     length (frame_image ctx h p))"
proof (cases mp)
  case True
  with mac mp have len: "length (mac_bytes ctx h p) = kMacLen"
    by (simp add: length_mac_bytes)
  have mb: "mac_bytes ctx h p = the (ec_mac ctx) (the (ec_node_key ctx)) (header_bytes h @ p)"
    using True mp by (simp add: mac_bytes_def)
  from True room len show ?thesis
    by (simp add: emit_frame_def bw_new_writer_at stream_simps frame_image_def Let_def flip: mb)
next
  case False
  with mp have "mac_bytes ctx h p = []"
    by (simp add: mac_bytes_def)
  with False room show ?thesis
    by (simp add: emit_frame_def bw_new_writer_at stream_simps frame_image_def Let_def)
qed

end
