(* ===== verification/CodecCorrect.thy ===== *)
theory CodecCorrect
  imports Codec
begin

text \<open>
  What the codec guarantees: exactly which frames the encoder emits and with which bytes, that
  the decoder gives them back, that an accepted authenticated frame carries the right MAC, that
  every discard is counted once, and that damaged frames are refused.
\<close>

section \<open>Exactly what the encoder emits\<close>

definition frame_ok :: "Header \<Rightarrow> bytes \<Rightarrow> bool" where
  "frame_ok h p \<longleftrightarrow> type_is_known (MsgType_u8 (h_type h)) \<and> frag_total h \<noteq> 0 \<and>
     frag_index h < frag_total h \<and> check_payload h p = St_Ok \<and>
     frame_len (length p) (frame_has_mac (h_type h) p) \<noteq> 0"

definition can_sign :: "EncodeCtx \<Rightarrow> Header \<Rightarrow> bytes \<Rightarrow> bool" where
  "can_sign ctx h p \<longleftrightarrow>
     (frame_has_mac (h_type h) p \<longrightarrow> ec_mac ctx \<noteq> None \<and> ec_node_key ctx \<noteq> None)"

lemma frag_total_le: "unat (frag_total h) \<le> kMaxFragments"
proof -
  have "frag_total h \<le> 0x0F"
    unfolding frag_total_def by (rule word_and_le1)
  then show ?thesis
    by (simp add: word_le_nat_alt)
qed

lemma check_payload_Ok_iff:
  "frag_total h \<noteq> 0 \<Longrightarrow>
   check_payload h p = St_Ok \<longleftrightarrow>
     schema_is_known (h_type h) (h_schema h) \<and>
     (frag_total h > 1 \<longrightarrow> type_is_fragmentable (h_type h)) \<and> encode_shape h p = St_Ok"
  by (cases "1 < frag_total h")
    (auto simp: check_payload_def encode_shape_def word_eq_1_iff split: option.split)

lemma emit_frame_eq_can_sign:
  assumes "mac_ok (ec_mac ctx)" "can_sign ctx h p"
    "frame_len (length p) (frame_has_mac (h_type h) p) \<noteq> 0"
    "frame_len (length p) (frame_has_mac (h_type h) p) \<le> length buf"
  shows "emit_frame h p ctx (frame_has_mac (h_type h) p) buf =
    (St_Ok, frame_image ctx h p @ drop (length (frame_image ctx h p)) buf,
     length (frame_image ctx h p))"
  by (rule emit_frame_eq)
    (use assms in \<open>auto simp: can_sign_def frame_len_def Let_def split: if_splits\<close>)

lemma length_frame_image:
  assumes "mac_ok (ec_mac ctx)" "can_sign ctx h p"
  shows "length (frame_image ctx h p) =
     kHdrLen + length p + (if frame_has_mac (h_type h) p then kMacLen else 0) + kCrcLen"
  using assms length_mac_bytes [of ctx h p]
  by (auto simp: frame_image_def Let_def can_sign_def mac_bytes_def)

lemma encode_accepts:
  assumes "mac_ok (ec_mac ctx)" "frame_ok h p" "can_sign ctx h p"
    "length (frame_image ctx h p) \<le> length buf"
  shows "encode h p ctx buf =
    (St_Ok, frame_image ctx h p @ drop (length (frame_image ctx h p)) buf,
     length (frame_image ctx h p))"
proof -
  have len: "frame_len (length p) (frame_has_mac (h_type h) p) \<le> length buf"
    using assms length_frame_image [of ctx h p] by (auto simp: frame_len_def)
  from assms(2) have "check_payload h p = St_Ok" "frag_total h \<noteq> 0"
    and ok: "type_is_known (MsgType_u8 (h_type h))" "frag_index h < frag_total h"
      "frame_len (length p) (frame_has_mac (h_type h) p) \<noteq> 0"
    by (auto simp: frame_ok_def)
  then have chk: "schema_is_known (h_type h) (h_schema h)" "encode_shape h p = St_Ok"
    "\<not> (1 < frag_total h \<and> \<not> type_is_fragmentable (h_type h))"
    by (auto simp: check_payload_Ok_iff)
  have sgn: "\<not> (frame_has_mac (h_type h) p \<and> (ec_mac ctx = None \<or> ec_node_key ctx = None))"
    using assms(3) by (simp add: can_sign_def)
  have frag: "\<not> (kMaxFragments < unat (frag_total h) \<or> frag_total h \<le> frag_index h)"
    using ok(2) frag_total_le [of h] by simp
  show ?thesis
    using emit_frame_eq_can_sign [OF assms(1,3) ok(3) len] len
    by (simp only: encode_def Let_def ok not_not simp_thms if_False \<open>frag_total h \<noteq> 0\<close> frag chk sgn
        leD)
qed

lemma if_reject:
  "(c \<Longrightarrow> s \<noteq> St_Ok) \<Longrightarrow> (\<not> c \<Longrightarrow> \<exists>s'. t = (s', b, n) \<and> s' \<noteq> St_Ok) \<Longrightarrow>
   \<exists>s'. (if c then (s, b, n) else t) = (s', b, n) \<and> s' \<noteq> St_Ok"
  by simp

lemma encode_rejects:
  assumes "mac_ok (ec_mac ctx)"
    "\<not> (frame_ok h p \<and> can_sign ctx h p \<and> length (frame_image ctx h p) \<le> length buf)"
  shows "\<exists>s. encode h p ctx buf = (s, buf, 0) \<and> s \<noteq> St_Ok"
  unfolding encode_def Let_def
proof ((rule if_reject, simp)+, goal_cases)
  case 1
  then have ok: "frame_ok h p" and sgn: "can_sign ctx h p"
    by (simp_all add: frame_ok_def can_sign_def check_payload_Ok_iff not_le)
  have "frame_len (length p) (frame_has_mac (h_type h) p) = length (frame_image ctx h p)"
    using ok length_frame_image [OF assms(1) sgn]
    by (simp add: frame_ok_def frame_len_def Let_def split: if_splits)
  with 1 ok sgn assms(2) show ?case by simp
qed

section \<open>Decoding an emitted frame\<close>

text \<open>The header as it crosses the wire: reserved bits are sent as zero.\<close>

definition wire_hdr :: "Header \<Rightarrow> Header" where
  "wire_hdr h = h\<lparr>h_hdr_flags := h_hdr_flags h AND kHdrFlagCriticalExt, h_reserved := [0, 0, 0]\<rparr>"

lemma wire_hdr_sel [simp]:
  "h_ver (wire_hdr h) = h_ver h" "h_type (wire_hdr h) = h_type h" "h_dst (wire_hdr h) = h_dst h"
  "h_src (wire_hdr h) = h_src h" "h_seq (wire_hdr h) = h_seq h" "h_schema (wire_hdr h) = h_schema h"
  "h_ctx_id (wire_hdr h) = h_ctx_id h" "h_frag (wire_hdr h) = h_frag h"
  "frag_index (wire_hdr h) = frag_index h" "frag_total (wire_hdr h) = frag_total h"
  "critical_ext (wire_hdr h) = critical_ext h"
  by (simp_all add: wire_hdr_def frag_index_def frag_total_def critical_ext_def and.assoc)

definition admits :: "DecodeCtx \<Rightarrow> Header \<Rightarrow> bool" where
  "admits ctx h \<longleftrightarrow> dc_accept_ver_min ctx \<le> h_ver h \<and> h_ver h \<le> dc_accept_ver_max ctx \<and>
     (h_dst h = dc_self ctx \<or> h_dst h = kNodeBroadcast) \<and> \<not> critical_ext h"

text \<open>The trailer of any buffer that ends in the checksum of the rest.\<close>

lemma crc_trailer:
  fixes b defines "buf \<equiv> b @ le16 (crc16_ccitt_false b)"
  shows "take (length buf - kCrcLen) buf = b"
    "of_le16 (buf ! (length buf - 2)) (buf ! (length buf - 1)) = crc16_ccitt_false b"
proof -
  have "buf ! (length buf - 1) = ucast (drop_bit 8 (crc16_ccitt_false b))"
    "buf ! (length buf - 2) = ucast (crc16_ccitt_false b)"
    by (simp_all add: buf_def le16_def nth_append)
  then show "of_le16 (buf ! (length buf - 2)) (buf ! (length buf - 1)) = crc16_ccitt_false b"
    by simp
qed (simp add: buf_def)

lemma decode_header_of_image:
  assumes "wf_MsgType (h_type h)" "type_is_known (MsgType_u8 (h_type h))" "admits ctx h"
    "frag_total h \<noteq> 0" "frag_index h < frag_total h"
    and b: "b = header_bytes h @ q" and len: "length q + kMinFrame \<le> kMaxFrame"
  shows "decode_header (b @ le16 (crc16_ccitt_false b)) ctx =
    ((St_Ok, dc_counters ctx), Frame_init\<lparr>f_hdr := wire_hdr h\<rparr>)"
proof -
  let ?buf = "b @ le16 (crc16_ccitt_false b)"
  have rd: "fst (run_state read_header (br_new ?buf)) = wire_hdr h"
    using assms(1) by (simp add: b br_new_reader_at run_read_header_at wire_hdr_def)
  have "\<not> length ?buf < kMinFrame" "\<not> kMaxFrame < length ?buf"
    using len by (simp_all add: b)
  then show ?thesis
    using assms(2-5)
    by (simp only: decode_header_def Let_def crc_trailer rd)
      (auto simp: admits_def dest: leD)
qed

lemma check_variable_hex_req:
  "check_variable_payload MT_HexReq p = St_Ok \<Longrightarrow> length p = 2 + unat (p ! 1) \<and> 2 \<le> length p"
  by (simp add: check_variable_payload_def split: if_splits)

lemma payload_boundary_of_image:
  assumes "frag_total h \<noteq> 0" "check_payload h p = St_Ok"
    and mac: "length mac = (if frame_has_mac (h_type h) p then kMacLen else 0)"
  shows "payload_boundary h (p @ mac) = Inr (length p, frame_has_mac (h_type h) p)"
proof (cases "h_type h = MT_HexReq")
  case True
  with assms(1,2) have "\<not> 1 < frag_total h" "check_variable_payload MT_HexReq p = St_Ok"
    by (auto simp: check_payload_Ok_iff encode_shape_def fixed_payload_len_def word_eq_1_iff)
  with True check_variable_hex_req [of p] mac show ?thesis
    by (simp add: payload_boundary_def Let_def nth_append frame_has_mac_def split: if_splits)
next
  case False
  then have "frame_has_mac (h_type h) p = type_requires_mac (h_type h)"
    by (simp add: frame_has_mac_def)
  with False mac show ?thesis
    by (simp add: payload_boundary_def Let_def)
qed

lemma check_payload_wire_hdr [simp]: "check_payload (wire_hdr h) p = check_payload h p"
  by (simp only: check_payload_def wire_hdr_sel)

lemma payload_boundary_wire_hdr [simp]: "payload_boundary (wire_hdr h) b = payload_boundary h b"
  by (simp only: payload_boundary_def wire_hdr_sel)

definition shares_key :: "DecodeCtx \<Rightarrow> EncodeCtx \<Rightarrow> bool" where
  "shares_key dctx ectx \<longleftrightarrow> dc_mac dctx = ec_mac ectx \<and> dc_node_key dctx = ec_node_key ectx"

lemma decode_payload_of_image:
  assumes ok: "mac_ok (ec_mac ec)" "frame_ok h p" "can_sign ec h p"
    and key: "shares_key ctx ec"
    and ctxid: "dc_expect_ctx_id ctx = 0 \<or> h_ctx_id h = dc_expect_ctx_id ctx"
    and f: "f_hdr f = wire_hdr h"
  shows "decode_payload (frame_image ec h p) ctx f =
    ((St_Ok, dc_counters ctx),
     f\<lparr>f_payload := Some p,
       f_mac := (if frame_has_mac (h_type h) p then Some (mac_bytes ec h p) else None),
       f_mac_verified := (f_mac_verified f \<or> frame_has_mac (h_type h) p)\<rparr>)"
proof -
  let ?img = "frame_image ec h p" and ?mac = "mac_bytes ec h p"
  let ?mp = "frame_has_mac (h_type h) p"
  have maclen: "length ?mac = (if ?mp then kMacLen else 0)"
    using ok length_mac_bytes [of ec h p] by (auto simp: can_sign_def mac_bytes_def)
  have len: "\<not> (length ?img < kMinFrame \<or> kMaxFrame < length ?img)"
    using ok length_frame_image [OF ok(1,3)]
    by (simp add: frame_ok_def frame_len_def Let_def split: if_splits)
  have body: "frame_body ?img = p @ ?mac"
    by (simp add: frame_body_def frame_image_def Let_def)
  have signed: "take (kHdrLen + length p) ?img = header_bytes h @ p"
    by (simp add: frame_image_def Let_def)
  have chk: "check_payload h p = St_Ok" "frag_total h \<noteq> 0" "frag_index h < frag_total h"
    using ok by (simp_all add: frame_ok_def)
  have frag: "\<not> (kMaxFragments < unat (frag_total h) \<or> frag_total h \<le> frag_index h)"
    using chk frag_total_le [of h] by auto
  have hex: "\<not> (h_type h = MT_HexReq \<and> \<not> ?mp \<and> hex_req_is_write_class p)"
    by (simp add: frame_has_mac_def)
  have cid: "\<not> (dc_expect_ctx_id ctx \<noteq> 0 \<and> ?mp \<and> h_ctx_id h \<noteq> dc_expect_ctx_id ctx)"
    using ctxid by blast
  have bnd: "payload_boundary h (p @ ?mac) = Inr (length p, ?mp)"
    by (rule payload_boundary_of_image [OF chk(2,1) maclen])
  have p: "take (length p) (p @ ?mac) = p" and mac: "take kMacLen (drop (length p) (p @ ?mac)) = ?mac"
    using maclen by simp_all
  show ?thesis
    unfolding decode_payload_def Let_def body f
    by (simp only: len chk frag hex cid signed wire_hdr_sel payload_boundary_wire_hdr bnd p
        check_payload_wire_hdr sum.case prod.case if_False simp_thms mac)
      (use key ok(3) maclen in \<open>auto simp: shares_key_def can_sign_def mac_bytes_def ct_equal_iff
        split: option.splits\<close>)
qed

section \<open>What an accepted frame satisfies\<close>

lemma if_ok_iff:
  "(b \<Longrightarrow> s \<noteq> St_Ok) \<Longrightarrow> (if b then (fail ctx s, f) else t) = ((St_Ok, c), f') \<longleftrightarrow> \<not> b \<and> t = ((St_Ok, c), f')"
  by (auto simp: fail_def)

lemma payload_boundary_Inl: "payload_boundary h b = Inl s \<Longrightarrow> s \<noteq> St_Ok"
  by (auto simp: payload_boundary_def Let_def split: if_splits)

lemma payload_boundary_Inr:
  assumes "payload_boundary h b = Inr (n, mp)"
  shows "n + (if mp then kMacLen else 0) = length b" and "type_requires_mac (h_type h) \<Longrightarrow> mp"
  using assms by (auto simp: payload_boundary_def Let_def split: if_splits)

lemma decode_payload_OkD:
  assumes dec: "decode_payload buf ctx f = ((St_Ok, c), f')"
  obtains p mp mac where
    "kMinFrame \<le> length buf" "length buf \<le> kMaxFrame"
    "c = dc_counters ctx" "f_hdr f' = f_hdr f" "f_payload f' = Some p"
    "frame_body buf = p @ mac" "length mac = (if mp then kMacLen else 0)"
    "check_payload (f_hdr f) p = St_Ok"
    "f_mac f' = (if mp then Some mac else None)"
    "frame_has_mac (h_type (f_hdr f)) p \<Longrightarrow>
       mp \<and> (dc_expect_ctx_id ctx = 0 \<or> h_ctx_id (f_hdr f) = dc_expect_ctx_id ctx)"
    "\<And>hm key. dc_mac ctx = Some hm \<Longrightarrow> dc_node_key ctx = Some key \<Longrightarrow> mp \<Longrightarrow>
       f_mac_verified f' \<and> ct_equal (hm key (take (kHdrLen + length p) buf)) mac kMacLen"
    "\<not> mp \<Longrightarrow> f_mac_verified f' = f_mac_verified f"
proof -
  let ?b = "frame_body buf" and ?h = "f_hdr f"
  have len: "kMinFrame \<le> length buf" "length buf \<le> kMaxFrame"
    using dec by (auto simp: decode_payload_def fail_def Let_def split: if_splits)
  show thesis
  proof (cases "payload_boundary ?h ?b")
    case (Inl s)
    with dec payload_boundary_Inl [OF Inl] show thesis
      by (simp add: decode_payload_def Let_def if_ok_iff fail_def)
  next
    case (Inr r)
    then obtain n mp where r: "payload_boundary ?h ?b = Inr (n, mp)" by (cases r) auto
    let ?p = "take n ?b" and ?m = "take kMacLen (drop n ?b)"
    note bd = payload_boundary_Inr [OF r]
    have n: "n \<le> length ?b" and m: "?m = drop n ?b" using bd(1) by (auto split: if_splits)
    have body: "?b = ?p @ ?m" "length ?p = n" "length ?m = (if mp then kMacLen else 0)"
      using bd(1) n unfolding m by (auto split: if_splits)
    from dec r have chk: "check_payload ?h ?p = St_Ok"
      and cid: "\<not> (dc_expect_ctx_id ctx \<noteq> 0 \<and> frame_has_mac (h_type ?h) ?p \<and>
                h_ctx_id ?h \<noteq> dc_expect_ctx_id ctx)"
      and hex: "\<not> (h_type ?h = MT_HexReq \<and> \<not> mp \<and> hex_req_is_write_class ?p)"
      and fin: "(case (dc_mac ctx, dc_node_key ctx) of
          (Some hmac, Some key) \<Rightarrow>
            if mp then
              if \<not> ct_equal (hmac key (take (kHdrLen + n) buf)) ?m kMacLen
              then (fail ctx St_RejectedMac, f\<lparr>f_payload := Some ?p, f_mac := (if mp then Some ?m else None)\<rparr>)
              else ((St_Ok, dc_counters ctx),
                f\<lparr>f_payload := Some ?p, f_mac := (if mp then Some ?m else None), f_mac_verified := True\<rparr>)
            else ((St_Ok, dc_counters ctx), f\<lparr>f_payload := Some ?p, f_mac := (if mp then Some ?m else None)\<rparr>)
        | _ \<Rightarrow> ((St_Ok, dc_counters ctx), f\<lparr>f_payload := Some ?p, f_mac := (if mp then Some ?m else None)\<rparr>))
        = ((St_Ok, c), f')"
      by (auto simp: decode_payload_def Let_def if_ok_iff)
    show thesis
      by (rule that [of ?p ?m mp])
        (use len body chk cid hex fin bd(2) in
          \<open>auto simp: frame_has_mac_def fail_def split: option.splits if_splits\<close>)
  qed
qed

section \<open>Every discard is counted once\<close>

definition discards :: "Status set" where
  "discards = {St_Runt, St_Oversize, St_BadCrc, St_BadVersion, St_NotAddressed, St_UnknownHdrExt,
     St_BadFrag, St_UnknownType, St_UnknownSchema, St_BadLength, St_FragmentOverflow,
     St_NotFragmentable, St_RejectedMac, St_RejectedCtx}"

lemma total_dropped_bump:
  "s \<in> discards \<Longrightarrow> Counters_total_dropped (Counters_bump s c) = Counters_total_dropped c + 1"
  by (auto simp: discards_def Counters_total_dropped_def kCounterRegistry_def)

lemma check_variable_payload_status: "check_variable_payload t p \<in> {St_Ok, St_BadLength}"
  by (auto simp: check_variable_payload_def Let_def split: MsgType.split option.split)

lemma check_payload_status: "check_payload h p \<in> insert St_Ok discards"
  using check_variable_payload_status [of "h_type h" p]
  by (auto simp: check_payload_def discards_def split: option.split)

lemma payload_boundary_status: "payload_boundary h b = Inl s \<Longrightarrow> s \<in> discards"
  by (auto simp: payload_boundary_def discards_def Let_def split: if_splits)

text \<open>Both decoders end in \<open>fail\<close> with a counted status, or leave the counters alone.\<close>

definition accounted :: "DecodeCtx \<Rightarrow> (Status \<times> Counters option) \<times> Frame \<Rightarrow> bool" where
  "accounted ctx r \<longleftrightarrow> fst r = (St_Ok, dc_counters ctx) \<or> (\<exists>s \<in> discards. fst r = fail ctx s)"

lemma accounted_if [intro]: "(b \<Longrightarrow> accounted ctx r) \<Longrightarrow> (\<not> b \<Longrightarrow> accounted ctx t) \<Longrightarrow>
   accounted ctx (if b then r else t)"
  by simp

lemma accounted_simps [simp]:
  "accounted ctx ((St_Ok, dc_counters ctx), f)"
  "s \<in> discards \<Longrightarrow> accounted ctx (fail ctx s, f)"
  by (auto simp: accounted_def)

lemma accounted_decode_header: "accounted ctx (decode_header buf ctx)"
  unfolding decode_header_def Let_def by (intro accounted_if) (simp_all add: discards_def)

lemma accounted_decode_payload: "accounted ctx (decode_payload buf ctx f)"
proof -
  have mac: "accounted ctx (fail ctx St_RejectedMac, f)" "accounted ctx (fail ctx St_RejectedCtx, f)"
    for f by (simp_all add: discards_def)
  have chk: "accounted ctx (fail ctx (check_payload h p), f)" if "check_payload h p \<noteq> St_Ok" for h p
    using that check_payload_status [of h p] by simp
  show ?thesis
  proof (cases "payload_boundary (f_hdr f) (frame_body buf)")
    case (Inl s)
    then have "accounted ctx (fail ctx s, f)" by (simp add: payload_boundary_status)
    with Inl show ?thesis
      unfolding decode_payload_def Let_def by (simp add: discards_def)
  next
    case (Inr r)
    then obtain n mp where "payload_boundary (f_hdr f) (frame_body buf) = Inr (n, mp)" by (cases r) auto
    then show ?thesis
      unfolding decode_payload_def Let_def
      by (auto simp: chk mac discards_def split: option.split)
  qed
qed

lemma accounted_total:
  assumes "accounted ctx r" "dc_counters ctx = Some c0"
  shows "\<exists>c. snd (fst r) = Some c \<and>
    Counters_total_dropped c = Counters_total_dropped c0 + (if fst (fst r) = St_Ok then 0 else 1)"
proof (cases "fst r = (St_Ok, dc_counters ctx)")
  case True
  with assms(2) show ?thesis by simp
next
  case False
  with assms(1) obtain s where "s \<in> discards" "fst r = fail ctx s"
    by (auto simp: accounted_def)
  moreover from this have "s \<noteq> St_Ok" by (auto simp: discards_def)
  ultimately show ?thesis
    using assms(2) by (simp add: fail_def count_in_def total_dropped_bump)
qed

section \<open>Properties\<close>

text \<open>
  C1: a frame the encoder emits is accepted by a receiver that admits its header and holds the
  same key (and whose context, when it tracks one, is the frame's). The receiver sees the header
  as sent, the very payload, and a MAC marked verified exactly on the frames that carry one;
  no discard is counted.
\<close>

theorem encode_decode_roundtrip:
  assumes "mac_ok (ec_mac ec)" "wf_MsgType (h_type h)"
    "encode h p ec buf = (St_Ok, out, n)"
    "admits ctx h" "shares_key ctx ec"
    "dc_expect_ctx_id ctx = 0 \<or> h_ctx_id h = dc_expect_ctx_id ctx"
  shows "\<exists>f. decode_header (take n out) ctx = ((St_Ok, dc_counters ctx), f) \<and>
    decode_payload (take n out) ctx f = ((St_Ok, dc_counters ctx),
      \<lparr>f_hdr = wire_hdr h, f_payload = Some p,
       f_mac = (if frame_has_mac (h_type h) p then Some (mac_bytes ec h p) else None),
       f_mac_verified = frame_has_mac (h_type h) p\<rparr>)"
proof -
  have acc: "frame_ok h p" "can_sign ec h p" "length (frame_image ec h p) \<le> length buf"
    using encode_rejects [of ec h p buf] assms(1,3) by auto
  have img: "take n out = frame_image ec h p"
    using encode_accepts [OF assms(1) acc] assms(3) by simp
  let ?f = "Frame_init\<lparr>f_hdr := wire_hdr h\<rparr>"
  have "decode_header (frame_image ec h p) ctx = ((St_Ok, dc_counters ctx), ?f)"
    unfolding frame_image_def Let_def
    by (rule decode_header_of_image)
      (use assms acc length_frame_image [OF assms(1) acc(2)] in
        \<open>auto simp: frame_ok_def frame_len_def frame_image_def Let_def split: if_splits\<close>)
  moreover have "decode_payload (frame_image ec h p) ctx ?f = ((St_Ok, dc_counters ctx),
      \<lparr>f_hdr = wire_hdr h, f_payload = Some p,
       f_mac = (if frame_has_mac (h_type h) p then Some (mac_bytes ec h p) else None),
       f_mac_verified = frame_has_mac (h_type h) p\<rparr>)"
    using decode_payload_of_image [OF assms(1) acc(1,2) assms(5,6), of ?f] by (simp add: Frame_init_def)
  ultimately show ?thesis
    unfolding img by blast
qed

text \<open>A COMMAND from the bridge to node 1, signed with an all-ones node key.\<close>

definition sample_hdr :: Header where
  "sample_hdr = Header_init\<lparr>h_type := MT_Command, h_dst := 1, h_seq := 7, h_ctx_id := 0x1234\<rparr>"

definition sample_ec :: EncodeCtx where
  "sample_ec = \<lparr>ec_mac = Some RefMac, ec_node_key = Some (replicate kNodeKeyLen 1)\<rparr>"

definition sample_dc :: DecodeCtx where
  "sample_dc = \<lparr>dc_self = 1, dc_accept_ver_min = 2, dc_accept_ver_max = 2, dc_mac = Some RefMac,
     dc_node_key = Some (replicate kNodeKeyLen 1), dc_expect_ctx_id = 0x1234,
     dc_counters = Some Counters_init\<rparr>"

lemma sample_facts:
  "mac_ok (ec_mac sample_ec)" "wf_MsgType (h_type sample_hdr)" "admits sample_dc sample_hdr"
  "shares_key sample_dc sample_ec" "h_ctx_id sample_hdr = dc_expect_ctx_id sample_dc"
  "frame_ok sample_hdr [1, 0, 0, 0]" "can_sign sample_ec sample_hdr [1, 0, 0, 0]"
  "length (frame_image sample_ec sample_hdr [1, 0, 0, 0]) = 30"
proof -
  show m: "mac_ok (ec_mac sample_ec)"
    by (simp add: mac_ok_def sample_ec_def ref_mac.imac_axioms)
  show c: "can_sign sample_ec sample_hdr [1, 0, 0, 0]"
    by (simp add: can_sign_def sample_ec_def)
  show "length (frame_image sample_ec sample_hdr [1, 0, 0, 0]) = 30"
    using length_frame_image [OF m c] by (simp add: sample_hdr_def frame_has_mac_def)
qed (simp_all add: sample_hdr_def sample_ec_def sample_dc_def Header_init_def admits_def
    shares_key_def critical_ext_def frame_ok_def frag_total_def frag_index_def check_payload_def
    schema_is_known_def fixed_payload_len_def frame_len_def frame_has_mac_def type_is_known_def)

lemma sample_sel [simp]:
  "dc_mac sample_dc = Some RefMac" "dc_node_key sample_dc = Some (replicate kNodeKeyLen 1)"
  "dc_counters sample_dc = Some Counters_init" "h_type sample_hdr = MT_Command"
  by (simp_all add: sample_dc_def sample_hdr_def)

lemma sample_encode:
  "encode sample_hdr [1, 0, 0, 0] sample_ec (replicate 222 0) =
    (St_Ok, frame_image sample_ec sample_hdr [1, 0, 0, 0] @ replicate 192 0, 30)"
  using encode_accepts [OF sample_facts(1,6,7), of "replicate 222 0"] sample_facts(8) by simp

theorem encode_decode_roundtrip_witness:
  "\<exists>out n f. encode sample_hdr [1, 0, 0, 0] sample_ec (replicate 222 0) = (St_Ok, out, n) \<and>
    decode_header (take n out) sample_dc = ((St_Ok, dc_counters sample_dc), f) \<and>
    f_mac_verified (snd (decode_payload (take n out) sample_dc f)) \<and>
    f_payload (snd (decode_payload (take n out) sample_dc f)) = Some [1, 0, 0, 0]"
  using encode_decode_roundtrip [OF sample_facts(1,2) sample_encode sample_facts(3,4) disjI2,
      OF sample_facts(5)] sample_encode
  by (auto simp: frame_has_mac_def)

text \<open>
  C2: \<open>encode\<close> succeeds exactly on the frames the protocol defines (known type and schema, legal
  fragment field, right length, at most \<open>kMaxFrame\<close> bytes), for which a key is at hand whenever
  the frame must be authenticated, and which fit the buffer. It then writes exactly the frame's
  image and nothing behind it; otherwise it reports no length and leaves the buffer alone.
\<close>

theorem encode_exact:
  assumes "mac_ok (ec_mac ec)"
  shows "if frame_ok h p \<and> can_sign ec h p \<and> length (frame_image ec h p) \<le> length buf
    then length (frame_image ec h p) \<le> kMaxFrame \<and>
      encode h p ec buf =
        (St_Ok, frame_image ec h p @ drop (length (frame_image ec h p)) buf,
         length (frame_image ec h p))
    else \<exists>s. s \<noteq> St_Ok \<and> encode h p ec buf = (s, buf, 0)"
proof (cases "frame_ok h p \<and> can_sign ec h p \<and> length (frame_image ec h p) \<le> length buf")
  case True
  with encode_accepts [OF assms, of h p buf] length_frame_image [OF assms, of h p] show ?thesis
    by (auto simp: frame_ok_def frame_len_def Let_def split: if_splits)
next
  case False
  with encode_rejects [OF assms False] show ?thesis by auto
qed

theorem encode_exact_witness:
  "fst (encode sample_hdr [1, 0, 0, 0] sample_ec (replicate 222 0)) = St_Ok \<and>
   fst (encode sample_hdr [1, 0, 0, 0] (sample_ec\<lparr>ec_node_key := None\<rparr>) (replicate 222 0)) \<noteq> St_Ok"
  using encode_exact [OF sample_facts(1), of sample_hdr "[1, 0, 0, 0]" "replicate 222 0"]
    encode_exact [of "sample_ec\<lparr>ec_node_key := None\<rparr>" sample_hdr "[1, 0, 0, 0]" "replicate 222 0"]
    sample_facts sample_encode
  by (auto simp: can_sign_def frame_has_mac_def)

text \<open>
  C3: a receiver that holds a key accepts a COMMAND, a CONFIG or a write-class HEX\_REQ only with a
  MAC that is the keyed MAC of the received header and payload, marks the frame verified, and,
  when it tracks a context, only in that context. A write-class register access can therefore
  not pass unauthenticated.
\<close>

theorem accepted_frame_is_authentic:
  assumes "decode_payload buf ctx f = ((St_Ok, c), f')"
    "dc_mac ctx = Some hm" "imac hm" "dc_node_key ctx = Some key"
    "f_payload f' = Some p" "frame_has_mac (h_type (f_hdr f)) p"
  shows "f_mac_verified f' \<and>
    frame_body buf = p @ hm key (take (kHdrLen + length p) buf) \<and>
    f_mac f' = Some (hm key (take (kHdrLen + length p) buf)) \<and>
    (dc_expect_ctx_id ctx = 0 \<or> h_ctx_id (f_hdr f) = dc_expect_ctx_id ctx)"
  using assms(1)
proof (rule decode_payload_OkD)
  fix p' mp mac
  assume a: "f_payload f' = Some p'" "frame_body buf = p' @ mac"
    "length mac = (if mp then kMacLen else 0)" "f_mac f' = (if mp then Some mac else None)"
    "frame_has_mac (h_type (f_hdr f)) p' \<Longrightarrow>
       mp \<and> (dc_expect_ctx_id ctx = 0 \<or> h_ctx_id (f_hdr f) = dc_expect_ctx_id ctx)"
    "\<And>hm key. dc_mac ctx = Some hm \<Longrightarrow> dc_node_key ctx = Some key \<Longrightarrow> mp \<Longrightarrow>
       f_mac_verified f' \<and> ct_equal (hm key (take (kHdrLen + length p') buf)) mac kMacLen"
  then have p: "p' = p" and mp: mp using assms by auto
  with a assms(2,4) have "ct_equal (hm key (take (kHdrLen + length p) buf)) mac kMacLen" by blast
  then have "mac = hm key (take (kHdrLen + length p) buf)"
    using imac.mac_accept_iff [OF assms(3)] a(3) mp by simp
  with a p mp assms show ?thesis by auto
qed

theorem accepted_frame_is_authentic_witness:
  "\<exists>out n f. encode sample_hdr [1, 0, 0, 0] sample_ec (replicate 222 0) = (St_Ok, out, n) \<and>
    f_mac_verified (snd (decode_payload (take n out) sample_dc f)) \<and>
    frame_body (take n out) = [1, 0, 0, 0] @ RefMac (replicate kNodeKeyLen 1) (take 20 (take n out))"
proof -
  let ?img = "frame_image sample_ec sample_hdr [1, 0, 0, 0]"
  let ?f = "Frame_init\<lparr>f_hdr := wire_hdr sample_hdr\<rparr>"
  note dec = decode_payload_of_image [OF sample_facts(1,6,7,4) disjI2, OF sample_facts(5), of ?f]
  have "frame_has_mac (h_type (f_hdr ?f)) [1, 0, 0, 0]"
    by (simp add: frame_has_mac_def)
  with accepted_frame_is_authentic [OF dec sample_sel(1) ref_mac.imac_axioms sample_sel(2)]
  have "f_mac_verified (snd (decode_payload ?img sample_dc ?f)) \<and>
      frame_body ?img = [1, 0, 0, 0] @ RefMac (replicate kNodeKeyLen 1) (take 20 ?img)"
    by (simp add: dec)
  with sample_encode sample_facts(8) show ?thesis
    by (intro exI [of _ "?img @ replicate 192 0"] exI [of _ 30] exI [of _ ?f]) simp
qed

text \<open>
  C4: damage confined to two adjacent bytes of an emitted frame, both covered by the checksum or
  both the checksum itself, never gets past the first decode stage: the frame is discarded as
  \<open>BadCrc\<close> before any field of it is interpreted.
\<close>

theorem damaged_frame_is_refused:
  assumes "mac_ok (ec_mac ec)" "encode h p ec buf = (St_Ok, out, n)"
    "take n out = pre @ a1 # a2 # post" "(a1, a2) \<noteq> (b1, b2)" "length post \<noteq> 1"
  shows "decode_header (pre @ b1 # b2 # post) ctx = (fail ctx St_BadCrc, Frame_init)"
proof -
  have acc: "frame_ok h p" "can_sign ec h p" "length (frame_image ec h p) \<le> length buf"
    using encode_rejects [of ec h p buf] assms(1,2) by auto
  define b where "b = header_bytes h @ p @ mac_bytes ec h p"
  have img: "pre @ a1 # a2 # post = b @ le16 (crc16_ccitt_false b)"
    using encode_accepts [OF assms(1) acc] assms(2,3) by (simp add: frame_image_def b_def Let_def)
  let ?buf = "pre @ b1 # b2 # post"
  have len: "length ?buf = length b + 2" and "kHdrLen \<le> length b" "length b + 2 \<le> kMaxFrame"
    using arg_cong [OF img, of length] acc(1) length_frame_image [OF assms(1) acc(2)]
    by (auto simp: frame_ok_def frame_len_def b_def frame_image_def Let_def split: if_splits)
  moreover have "crc16_ccitt_false (take (length ?buf - kCrcLen) ?buf)
      \<noteq> of_le16 (?buf ! (length ?buf - 2)) (?buf ! (length ?buf - 1))"
  proof (cases "post = []")
    case True
    have "?buf = b @ [b1, b2]" "[a1, a2] = le16 (crc16_ccitt_false b)"
      using img len True by (auto simp: append_eq_append_conv)
    with assms(4) show ?thesis
      by (auto simp: nth_append simp flip: le16_inject)
  next
    case False
    with assms(5) obtain q c1 c2 where post: "post = q @ [c1, c2]"
      by (metis append_butlast_last_id append_assoc append_Cons append_Nil length_0_conv length_append_singleton One_nat_def)
    have b: "b = pre @ a1 # a2 # q" and crc: "[c1, c2] = le16 (crc16_ccitt_false b)"
      using img len by (auto simp: post append_eq_append_conv simp flip: append_assoc append_Cons)
    have "of_le16 c1 c2 = crc16_ccitt_false b"
      using crc by (simp flip: le16_inject)
    with crc16_detects_burst [OF assms(4), of pre q] show ?thesis
      by (simp add: post b nth_append)
  qed
  ultimately show ?thesis
    unfolding decode_header_def Let_def by simp
qed

theorem damaged_frame_is_refused_witness:
  "\<exists>out n rest. encode sample_hdr [1, 0, 0, 0] sample_ec (replicate 222 0) = (St_Ok, out, n) \<and>
    take n out = 2 # 1 # rest \<and>
    decode_header (3 # 1 # rest) sample_dc = (fail sample_dc St_BadCrc, Frame_init)"
proof -
  let ?img = "frame_image sample_ec sample_hdr [1, 0, 0, 0]"
  obtain rest where r: "?img = 2 # 1 # rest"
    by (simp add: frame_image_def header_bytes_def Let_def sample_hdr_def Header_init_def)
  with sample_facts(8) have "length rest \<noteq> 1" by simp
  with damaged_frame_is_refused [OF sample_facts(1) sample_encode, of "[]" 2 1 rest 3 1 sample_dc] r
    sample_facts(8) sample_encode
  show ?thesis by (intro exI [of _ "?img @ replicate 192 0"] exI [of _ 30] exI [of _ rest]) simp
qed

text \<open>
  Every discard of either decode stage adds exactly one to the drop total the node reports,
  and an accepted frame adds nothing; no frame is dropped without a counter saying so.
\<close>

theorem decode_discards_are_counted:
  assumes "dc_counters ctx = Some c0"
  shows "(\<exists>c. snd (fst (decode_header buf ctx)) = Some c \<and>
      Counters_total_dropped c = Counters_total_dropped c0 +
        (if fst (fst (decode_header buf ctx)) = St_Ok then 0 else 1)) \<and>
    (\<exists>c. snd (fst (decode_payload buf ctx f)) = Some c \<and>
      Counters_total_dropped c = Counters_total_dropped c0 +
        (if fst (fst (decode_payload buf ctx f)) = St_Ok then 0 else 1))"
  using accounted_total [OF accounted_decode_header assms] accounted_total [OF accounted_decode_payload assms]
  by blast

theorem decode_discards_are_counted_witness:
  "Counters_total_dropped (the (snd (fst (decode_header [] sample_dc)))) = 1"
proof -
  have "Counters_total_dropped Counters_init = 0"
    by (simp add: Counters_total_dropped_def kCounterRegistry_def Counters_init_def)
  moreover have "fst (fst (decode_header [] sample_dc)) = St_Runt"
    by (simp add: decode_header_def fail_def Let_def)
  ultimately show ?thesis
    using decode_discards_are_counted [OF sample_sel(3), of "[]" Frame_init] by auto
qed

end
