(* ===== verification/Messages.thy ===== *)
theory Messages
  imports Wire
begin

text \<open>
  The fixed message bodies of the protocol (\<open>messages.h\<close>, \<open>messages.cpp\<close>) and the contract all
  payload formats share.

  A serializer takes the value and the output buffer (its length is \<open>cap\<close>) and returns the
  status, the buffer after the call, and the number stored in \<open>*written\<close> (\<open>None\<close> when it is
  left alone). A deserializer returns the value, or the status it fails with; the fields a failing
  call may already have stored in \<open>*out\<close> are not part of the result, and no caller reads them.

  The locale \<open>wire_format\<close> states what a format promises: the serializer writes a fixed byte
  image or reports the buffer as too small, and the deserializer inverts the image. Round trip and
  injectivity are proved once from these laws. \<open>closed_format\<close> adds that every value read can be
  sent again, and \<open>fixed_format\<close> extends that for the bodies of one length.
\<close>

section \<open>The contract of a payload format\<close>

locale wire_format =
  fixes ser :: "'a \<Rightarrow> bytes \<Rightarrow> Status \<times> bytes \<times> nat option"
    and des :: "bytes \<Rightarrow> Status + 'a"
    and wf :: "'a \<Rightarrow> bool"
    and img :: "'a \<Rightarrow> bytes"
  assumes ser_fits: "wf v \<Longrightarrow> length (img v) \<le> length buf \<Longrightarrow>
      ser v buf = (St_Ok, img v @ drop (length (img v)) buf, Some (length (img v)))"
    and ser_small: "wf v \<Longrightarrow> length buf < length (img v) \<Longrightarrow>
      \<exists>out. ser v buf = (St_BufferTooSmall, out, None) \<and> length out = length buf"
    and des_img: "wf v \<Longrightarrow> des (img v) = Inr v"
begin

lemma ser_des: "wf v \<Longrightarrow> ser v buf = (St_Ok, out, Some n) \<Longrightarrow> des (take n out) = Inr v"
  using ser_fits [of v buf] ser_small [of v buf] des_img [of v] by (cases "length (img v) \<le> length buf") auto

lemma ser_status: "wf v \<Longrightarrow>
   fst (ser v buf) = (if length (img v) \<le> length buf then St_Ok else St_BufferTooSmall)"
  using ser_fits [of v buf] ser_small [of v buf] by (cases "length (img v) \<le> length buf") auto

lemma ser_keeps_rest: "wf v \<Longrightarrow> ser v buf = (St_Ok, out, Some n) \<Longrightarrow> drop n out = drop n buf"
  using ser_fits [of v buf] ser_small [of v buf] by (cases "length (img v) \<le> length buf") auto

lemma img_inj: "wf v \<Longrightarrow> wf w \<Longrightarrow> img v = img w \<Longrightarrow> v = w"
  by (metis des_img sum.inject(2))

end

text \<open>A format whose reader yields only values its writer can send back.\<close>

locale closed_format = wire_format +
  assumes des_wf: "des bs = Inr v \<Longrightarrow> wf v"
begin

lemma des_canonical: "des bs = Inr v \<Longrightarrow> des (img v) = Inr v"
  by (simp add: des_wf des_img)

lemma relay: "des bs = Inr v \<Longrightarrow> ser v buf = (St_Ok, out, Some n) \<Longrightarrow> des (take n out) = Inr v"
  by (rule ser_des) (simp_all add: des_wf)

end

locale fixed_format = closed_format +
  fixes len :: nat
  assumes length_img: "wf v \<Longrightarrow> length (img v) = len"
    and des_length: "length bs \<noteq> len \<Longrightarrow> des bs = Inl St_BadLength"
    and des_total: "length bs = len \<Longrightarrow> \<exists>v. des bs = Inr v"
begin

lemma des_iff: "(\<exists>v. des bs = Inr v) \<longleftrightarrow> length bs = len"
  using des_length [of bs] des_total [of bs] by fastforce

lemma ser_total: "wf v \<Longrightarrow> fst (ser v buf) = (if len \<le> length buf then St_Ok else St_BufferTooSmall)"
  by (simp add: ser_status length_img)

end

section \<open>Messages (messages.h)\<close>

record Command =
  cmd_cmd :: u8
  cmd_arg :: u8
  cmd_arg2 :: u16

record CommandAck =
  ca_ack_seq :: Seq
  ca_result :: u8
  ca_detail :: u8

record Poll =
  poll_flags :: u8

record Error =
  err_code :: u8
  err_detail :: u8
  err_ref_seq :: Seq

record Ping =
  ping_flags :: u8
  ping_n :: u8
  ping_data :: "bytes option"

record HexReq =
  hreq_flags :: u8
  hreq_n :: u8
  hreq_hex :: "bytes option"

record HexRsp =
  hrsp_status :: u8
  hrsp_n :: u8
  hrsp_hex :: "bytes option"

abbreviation kCommandLen :: nat where "kCommandLen \<equiv> 4"
abbreviation kCommandAckLen :: nat where "kCommandAckLen \<equiv> 6"
abbreviation kPollLen :: nat where "kPollLen \<equiv> 1"
abbreviation kErrorLen :: nat where "kErrorLen \<equiv> 4"
abbreviation kPingHdrLen :: nat where "kPingHdrLen \<equiv> 2"
abbreviation kHexReqHdrLen :: nat where "kHexReqHdrLen \<equiv> 2"
abbreviation kHexRspHdrLen :: nat where "kHexRspHdrLen \<equiv> 2"

section \<open>Serializers and deserializers (messages.cpp)\<close>

definition finish :: "ByteWriter \<Rightarrow> Status \<times> bytes \<times> nat option" where
  "finish w = (if \<not> bw_ok w then (St_BufferTooSmall, bw_buf w, None)
               else (St_Ok, bw_buf w, Some (bw_pos w)))"

definition write_msg :: "(ByteWriter, bool) state \<Rightarrow> bytes \<Rightarrow> Status \<times> bytes \<times> nat option" where
  "write_msg m buf = finish (snd (run_state m (bw_new buf)))"

definition read_msg :: "(ByteReader, 'a) state \<Rightarrow> bytes \<Rightarrow> Status + 'a" where
  "read_msg m bs = (case run_state m (br_new bs) of
     (v, r) \<Rightarrow> if br_ok r then Inr v else Inl St_BadLength)"

text \<open>The bytes behind a pointer that is null when there are none.\<close>

definition ptr_bytes :: "bytes option \<Rightarrow> bytes" where
  "ptr_bytes p = (case p of None \<Rightarrow> [] | Some d \<Rightarrow> d)"

text \<open>\<open>for (i = 0; i < n; ++i) dst[i] = read()\<close>.\<close>

fun read_times :: "nat \<Rightarrow> (ByteReader, 'a) state \<Rightarrow> (ByteReader, 'a list) state" where
  "read_times 0 m = State_Monad.return []"
| "read_times (Suc n) m = do {
     x \<leftarrow> m;
     xs \<leftarrow> read_times n m;
     State_Monad.return (x # xs)
   }"

definition serialize_Command :: "Command \<Rightarrow> bytes \<Rightarrow> Status \<times> bytes \<times> nat option" where
  "serialize_Command v = write_msg (do {
     bw_u8 (cmd_cmd v);
     bw_u8 (cmd_arg v);
     bw_u16 (cmd_arg2 v)
   })"

definition serialize_CommandAck :: "CommandAck \<Rightarrow> bytes \<Rightarrow> Status \<times> bytes \<times> nat option" where
  "serialize_CommandAck v = write_msg (do {
     bw_u16 (ca_ack_seq v);
     bw_u8 (ca_result v);
     bw_u8 (ca_detail v);
     bw_skip 2
   })"

definition serialize_Poll :: "Poll \<Rightarrow> bytes \<Rightarrow> Status \<times> bytes \<times> nat option" where
  "serialize_Poll v = write_msg (bw_u8 (poll_flags v))"

definition serialize_Error :: "Error \<Rightarrow> bytes \<Rightarrow> Status \<times> bytes \<times> nat option" where
  "serialize_Error v = write_msg (do {
     bw_u8 (err_code v);
     bw_u8 (err_detail v);
     bw_u16 (err_ref_seq v)
   })"

definition serialize_Ping :: "Ping \<Rightarrow> bytes \<Rightarrow> Status \<times> bytes \<times> nat option" where
  "serialize_Ping v buf =
     (if unat (ping_n v) > kPingMaxEcho then (St_BadLength, buf, None)
      else if ping_n v > 0 \<and> ping_data v = None then (St_BufferTooSmall, buf, None)
      else write_msg (do {
        bw_u8 (ping_flags v);
        bw_u8 (ping_n v);
        bw_bytes (ptr_bytes (ping_data v)) (unat (ping_n v))
      }) buf)"

definition serialize_HexReq :: "HexReq \<Rightarrow> bytes \<Rightarrow> Status \<times> bytes \<times> nat option" where
  "serialize_HexReq v buf =
     (if hreq_n v > 0 \<and> hreq_hex v = None then (St_BufferTooSmall, buf, None)
      else write_msg (do {
        bw_u8 (hreq_flags v);
        bw_u8 (hreq_n v);
        bw_bytes (ptr_bytes (hreq_hex v)) (unat (hreq_n v))
      }) buf)"

definition serialize_HexRsp :: "HexRsp \<Rightarrow> bytes \<Rightarrow> Status \<times> bytes \<times> nat option" where
  "serialize_HexRsp v buf =
     (if hrsp_n v > 0 \<and> hrsp_hex v = None then (St_BufferTooSmall, buf, None)
      else write_msg (do {
        bw_u8 (hrsp_status v);
        bw_u8 (hrsp_n v);
        bw_bytes (ptr_bytes (hrsp_hex v)) (unat (hrsp_n v))
      }) buf)"

definition deserialize_Command :: "bytes \<Rightarrow> Status + Command" where
  "deserialize_Command bs =
     (if length bs \<noteq> kCommandLen then Inl St_BadLength
      else read_msg (do {
        cmd \<leftarrow> br_u8;
        arg \<leftarrow> br_u8;
        arg2 \<leftarrow> br_u16;
        State_Monad.return \<lparr>cmd_cmd = cmd, cmd_arg = arg, cmd_arg2 = arg2\<rparr>
      }) bs)"

definition deserialize_CommandAck :: "bytes \<Rightarrow> Status + CommandAck" where
  "deserialize_CommandAck bs =
     (if length bs \<noteq> kCommandAckLen then Inl St_BadLength
      else read_msg (do {
        ack_seq \<leftarrow> br_u16;
        result \<leftarrow> br_u8;
        detail \<leftarrow> br_u8;
        br_skip 2;
        State_Monad.return \<lparr>ca_ack_seq = ack_seq, ca_result = result, ca_detail = detail\<rparr>
      }) bs)"

definition deserialize_Poll :: "bytes \<Rightarrow> Status + Poll" where
  "deserialize_Poll bs =
     (if length bs \<noteq> kPollLen then Inl St_BadLength else Inr \<lparr>poll_flags = bs ! 0\<rparr>)"

definition deserialize_Error :: "bytes \<Rightarrow> Status + Error" where
  "deserialize_Error bs =
     (if length bs \<noteq> kErrorLen then Inl St_BadLength
      else read_msg (do {
        code \<leftarrow> br_u8;
        detail \<leftarrow> br_u8;
        ref_seq \<leftarrow> br_u16;
        State_Monad.return \<lparr>err_code = code, err_detail = detail, err_ref_seq = ref_seq\<rparr>
      }) bs)"

text \<open>The counted bodies alias the input: \<open>in + 2\<close>, or null when the count is zero.\<close>

definition counted_tail :: "bytes \<Rightarrow> bytes option" where
  "counted_tail bs = (if bs ! 1 > 0 then Some (drop 2 bs) else None)"

definition deserialize_Ping :: "bytes \<Rightarrow> Status + Ping" where
  "deserialize_Ping bs =
     (if length bs < kPingHdrLen then Inl St_BadLength
      else if unat (bs ! 1) > kPingMaxEcho then Inl St_BadLength
      else if length bs = kPingHdrLen + unat (bs ! 1)
        then Inr \<lparr>ping_flags = bs ! 0, ping_n = bs ! 1, ping_data = counted_tail bs\<rparr>
      else Inl St_BadLength)"

definition deserialize_HexReq :: "bytes \<Rightarrow> Status + HexReq" where
  "deserialize_HexReq bs =
     (if length bs < kHexReqHdrLen then Inl St_BadLength
      else if length bs = kHexReqHdrLen + unat (bs ! 1)
        then Inr \<lparr>hreq_flags = bs ! 0, hreq_n = bs ! 1, hreq_hex = counted_tail bs\<rparr>
      else Inl St_BadLength)"

definition deserialize_HexRsp :: "bytes \<Rightarrow> Status + HexRsp" where
  "deserialize_HexRsp bs =
     (if length bs < kHexRspHdrLen then Inl St_BadLength
      else if length bs = kHexRspHdrLen + unat (bs ! 1)
        then Inr \<lparr>hrsp_status = bs ! 0, hrsp_n = bs ! 1, hrsp_hex = counted_tail bs\<rparr>
      else Inl St_BadLength)"

definition ping_fill_pattern :: "Seq \<Rightarrow> nat \<Rightarrow> bytes" where
  "ping_fill_pattern seq n = map (\<lambda>i. ucast (seq AND 0xFF) + of_nat i) [0..<n]"

text \<open>The index of the first wrong byte, or \<open>None\<close> when the pattern holds.\<close>

fun ping_check_from :: "u8 \<Rightarrow> nat \<Rightarrow> bytes \<Rightarrow> nat option" where
  "ping_check_from base i [] = None"
| "ping_check_from base i (d # ds) =
     (if d \<noteq> base + of_nat i then Some i else ping_check_from base (Suc i) ds)"

definition ping_check_pattern :: "Seq \<Rightarrow> bytes \<Rightarrow> nat option" where
  "ping_check_pattern seq data = ping_check_from (ucast (seq AND 0xFF)) 0 data"

section \<open>Byte images\<close>

text \<open>The layouts of the protocol's message bodies, offset by offset.\<close>

definition Command_img :: "Command \<Rightarrow> bytes" where
  "Command_img v = [cmd_cmd v, cmd_arg v] @ le16 (cmd_arg2 v)"

definition CommandAck_img :: "CommandAck \<Rightarrow> bytes" where
  "CommandAck_img v = le16 (ca_ack_seq v) @ [ca_result v, ca_detail v, 0, 0]"

definition Poll_img :: "Poll \<Rightarrow> bytes" where
  "Poll_img v = [poll_flags v]"

definition Error_img :: "Error \<Rightarrow> bytes" where
  "Error_img v = [err_code v, err_detail v] @ le16 (err_ref_seq v)"

definition wf_counted :: "u8 \<Rightarrow> bytes option \<Rightarrow> bool" where
  "wf_counted n d \<longleftrightarrow> (case d of None \<Rightarrow> n = 0 | Some bs \<Rightarrow> n \<noteq> 0 \<and> length bs = unat n)"

definition counted_img :: "u8 \<Rightarrow> u8 \<Rightarrow> bytes option \<Rightarrow> bytes" where
  "counted_img a n d = [a, n] @ ptr_bytes d"

lemma write_msg_emits:
  assumes "emits m bs"
  shows "length bs \<le> length buf \<Longrightarrow> write_msg m buf = (St_Ok, bs @ drop (length bs) buf, Some (length bs))"
    and "length buf < length bs \<Longrightarrow>
      \<exists>out. write_msg m buf = (St_BufferTooSmall, out, None) \<and> length out = length buf"
  using emits_new [OF assms, of buf] by (auto simp: write_msg_def finish_def)

lemma read_msg_reads: "reads m (length bs) \<Longrightarrow> \<exists>v. read_msg m bs = Inr v"
  by (cases "run_state m (br_new bs)")
    (use reads_new [of m "length bs" bs] in \<open>simp add: read_msg_def br_new_def\<close>)

text \<open>One rule for the interpretations below: a serializer is what its code emits.\<close>

lemma closed_formatI:
  assumes "\<And>v. ok v \<Longrightarrow> ser v = write_msg (m v)" "\<And>v. ok v \<Longrightarrow> emits (m v) (img v)"
    "\<And>v. ok v \<Longrightarrow> des (img v) = Inr v" "\<And>bs v. des bs = Inr v \<Longrightarrow> ok v"
  shows "closed_format ser des ok img"
proof
  fix v and buf :: bytes assume v: "ok v"
  note w = write_msg_emits [OF assms(2) [OF v], of buf]
  show "length (img v) \<le> length buf \<Longrightarrow>
      ser v buf = (St_Ok, img v @ drop (length (img v)) buf, Some (length (img v)))"
    using w(1) assms(1) [OF v] by simp
  show "length buf < length (img v) \<Longrightarrow>
      \<exists>out. ser v buf = (St_BufferTooSmall, out, None) \<and> length out = length buf"
    using w(2) assms(1) [OF v] by simp
qed (use assms(3,4) in blast)+

lemma counted_facts:
  "wf_counted n d \<Longrightarrow> length (ptr_bytes d) = unat n"
  "wf_counted n d \<Longrightarrow> counted_tail (counted_img a n d) = d"
  "wf_counted n d \<Longrightarrow> \<not> (n > 0 \<and> d = None)"
  "length bs = Suc (Suc (unat (bs ! Suc 0))) \<Longrightarrow> wf_counted (bs ! Suc 0) (counted_tail bs)"
  by (auto simp: wf_counted_def ptr_bytes_def counted_tail_def counted_img_def word_gt_0
      split: option.splits)

lemma emits_counted:
  assumes "wf_counted n d"
  shows "emits (do {bw_u8 a; bw_u8 n; bw_bytes (ptr_bytes d) (unat n)}) (counted_img a n d)"
proof -
  have "emits (bw_bytes (ptr_bytes d) (unat n)) (ptr_bytes d)"
    using emits_prims(7) [of "unat n" "ptr_bytes d"] counted_facts(1) [OF assms] by simp
  then have "emits (do {bw_u8 a; bw_u8 n; bw_bytes (ptr_bytes d) (unat n)}) ([a] @ [n] @ ptr_bytes d)"
    by (intro emits_intros)
  then show ?thesis by (simp add: counted_img_def)
qed

section \<open>The formats\<close>

lemma fixed_formatI:
  assumes "closed_format ser des ok img" "\<And>v. ok v \<Longrightarrow> length (img v) = len"
    "\<And>bs. length bs \<noteq> len \<Longrightarrow> des bs = Inl St_BadLength"
    "\<And>bs. length bs = len \<Longrightarrow> \<exists>v. des bs = Inr v"
  shows "fixed_format ser des ok img len"
  using assms by (auto intro!: fixed_format.intro fixed_format_axioms.intro)

text \<open>The common case: every value of the type is a message.\<close>

definition any_value :: "'a \<Rightarrow> bool" where
  [simp]: "any_value v \<longleftrightarrow> True"

lemma write_formatI:
  assumes "\<And>v. ser v = write_msg (m v)" "\<And>v. emits (m v) (img v)" "\<And>v. length (img v) = len"
    "\<And>v. des (img v) = Inr v" "\<And>bs. length bs \<noteq> len \<Longrightarrow> des bs = Inl St_BadLength"
    "\<And>bs. length bs = len \<Longrightarrow> \<exists>v. des bs = Inr v"
  shows "fixed_format ser des any_value img len"
proof (rule fixed_formatI)
  show "closed_format ser des any_value img"
    by (rule closed_formatI [where m = m]) (use assms in auto)
qed (use assms in auto)

lemma emitsI: "emits m as \<Longrightarrow> as = bs \<Longrightarrow> emits m bs"
  by simp

lemma read_msg_total: "reads m n \<Longrightarrow> n = length bs \<Longrightarrow> \<exists>v. read_msg m bs = Inr v"
  by (simp add: read_msg_reads)

lemma run_br_skip_at [stream_simps]:
  "n \<le> length rest \<Longrightarrow>
   run_state (br_skip n) (reader_at pre rest) = (True, reader_at (pre @ take n rest) (drop n rest))"
  by (simp add: br_skip_def reader_at_def)

lemmas msg_read = read_msg_def br_new_reader_at stream_simps

interpretation fmt_Command:
  fixed_format serialize_Command deserialize_Command any_value Command_img kCommandLen
proof (rule write_formatI, rule serialize_Command_def)
  show "emits (do {bw_u8 (cmd_cmd v); bw_u8 (cmd_arg v); bw_u16 (cmd_arg2 v)}) (Command_img v)" for v
    by (rule emitsI, (rule emits_intros)+) (simp add: Command_img_def)
  show "\<exists>v. deserialize_Command bs = Inr v" if "length bs = kCommandLen" for bs
    by (simp add: deserialize_Command_def that, rule read_msg_total, (rule reads_intros)+) (simp add: that)
qed (simp_all add: Command_img_def deserialize_Command_def msg_read)

interpretation fmt_CommandAck:
  fixed_format serialize_CommandAck deserialize_CommandAck any_value CommandAck_img kCommandAckLen
proof (rule write_formatI, rule serialize_CommandAck_def)
  show "emits (do {bw_u16 (ca_ack_seq v); bw_u8 (ca_result v); bw_u8 (ca_detail v); bw_skip 2})
      (CommandAck_img v)" for v
    by (rule emitsI, (rule emits_intros)+) (simp add: CommandAck_img_def numeral_eq_Suc)
  show "\<exists>v. deserialize_CommandAck bs = Inr v" if "length bs = kCommandAckLen" for bs
    by (simp add: deserialize_CommandAck_def that, rule read_msg_total, (rule reads_intros)+)
      (simp add: that)
qed (simp_all add: CommandAck_img_def deserialize_CommandAck_def msg_read)

interpretation fmt_Poll: fixed_format serialize_Poll deserialize_Poll any_value Poll_img kPollLen
proof (rule write_formatI, rule serialize_Poll_def)
  show "emits (bw_u8 (poll_flags v)) (Poll_img v)" for v
    by (simp add: Poll_img_def emits_prims)
qed (simp_all add: Poll_img_def deserialize_Poll_def)

interpretation fmt_Error: fixed_format serialize_Error deserialize_Error any_value Error_img kErrorLen
proof (rule write_formatI, rule serialize_Error_def)
  show "emits (do {bw_u8 (err_code v); bw_u8 (err_detail v); bw_u16 (err_ref_seq v)}) (Error_img v)" for v
    by (rule emitsI, (rule emits_intros)+) (simp add: Error_img_def)
  show "\<exists>v. deserialize_Error bs = Inr v" if "length bs = kErrorLen" for bs
    by (simp add: deserialize_Error_def that, rule read_msg_total, (rule reads_intros)+) (simp add: that)
qed (simp_all add: Error_img_def deserialize_Error_def msg_read)

text \<open>The counted bodies are well formed when the count is that of the data.\<close>

definition wf_Ping :: "Ping \<Rightarrow> bool" where
  "wf_Ping v \<longleftrightarrow> unat (ping_n v) \<le> kPingMaxEcho \<and> wf_counted (ping_n v) (ping_data v)"

definition wf_HexReq :: "HexReq \<Rightarrow> bool" where
  "wf_HexReq v \<longleftrightarrow> wf_counted (hreq_n v) (hreq_hex v)"

definition wf_HexRsp :: "HexRsp \<Rightarrow> bool" where
  "wf_HexRsp v \<longleftrightarrow> wf_counted (hrsp_n v) (hrsp_hex v)"

definition Ping_img :: "Ping \<Rightarrow> bytes" where
  "Ping_img v = counted_img (ping_flags v) (ping_n v) (ping_data v)"

definition HexReq_img :: "HexReq \<Rightarrow> bytes" where
  "HexReq_img v = counted_img (hreq_flags v) (hreq_n v) (hreq_hex v)"

definition HexRsp_img :: "HexRsp \<Rightarrow> bytes" where
  "HexRsp_img v = counted_img (hrsp_status v) (hrsp_n v) (hrsp_hex v)"

lemma counted_img_sel:
  "wf_counted n d \<Longrightarrow> length (counted_img a n d) = 2 + unat n"
  "counted_img a n d ! 0 = a" "counted_img a n d ! Suc 0 = n"
  by (simp_all add: counted_img_def counted_facts(1))

interpretation fmt_Ping: closed_format serialize_Ping deserialize_Ping wf_Ping Ping_img
proof (rule closed_formatI)
  show "serialize_Ping v = write_msg (do {bw_u8 (ping_flags v); bw_u8 (ping_n v);
      bw_bytes (ptr_bytes (ping_data v)) (unat (ping_n v))})" if "wf_Ping v" for v
    using that counted_facts(3) [of "ping_n v" "ping_data v"]
    by (auto simp: fun_eq_iff serialize_Ping_def wf_Ping_def)
qed (auto simp: wf_Ping_def Ping_img_def emits_counted counted_img_sel counted_facts
    deserialize_Ping_def split: if_splits)

interpretation fmt_HexReq: closed_format serialize_HexReq deserialize_HexReq wf_HexReq HexReq_img
proof (rule closed_formatI)
  show "serialize_HexReq v = write_msg (do {bw_u8 (hreq_flags v); bw_u8 (hreq_n v);
      bw_bytes (ptr_bytes (hreq_hex v)) (unat (hreq_n v))})" if "wf_HexReq v" for v
    using that counted_facts(3) [of "hreq_n v" "hreq_hex v"]
    by (auto simp: fun_eq_iff serialize_HexReq_def wf_HexReq_def)
qed (auto simp: wf_HexReq_def HexReq_img_def emits_counted counted_img_sel counted_facts
    deserialize_HexReq_def split: if_splits)

interpretation fmt_HexRsp: closed_format serialize_HexRsp deserialize_HexRsp wf_HexRsp HexRsp_img
proof (rule closed_formatI)
  show "serialize_HexRsp v = write_msg (do {bw_u8 (hrsp_status v); bw_u8 (hrsp_n v);
      bw_bytes (ptr_bytes (hrsp_hex v)) (unat (hrsp_n v))})" if "wf_HexRsp v" for v
    using that counted_facts(3) [of "hrsp_n v" "hrsp_hex v"]
    by (auto simp: fun_eq_iff serialize_HexRsp_def wf_HexRsp_def)
qed (auto simp: wf_HexRsp_def HexRsp_img_def emits_counted counted_img_sel counted_facts
    deserialize_HexRsp_def split: if_splits)

section \<open>The echo pattern\<close>

lemma ping_check_from_None:
  "ping_check_from base i ds = None \<longleftrightarrow> (\<forall>j < length ds. ds ! j = base + of_nat (i + j))"
proof (induction ds arbitrary: i)
  case (Cons d ds)
  then show ?case
    by (auto simp: nth_Cons less_Suc_eq_0_disj add.assoc)
qed simp

lemma ping_check_from_Some:
  "ping_check_from base i ds = Some k \<Longrightarrow>
   \<exists>j < length ds. k = i + j \<and> ds ! j \<noteq> base + of_nat k \<and> (\<forall>m < j. ds ! m = base + of_nat (i + m))"
proof (induction ds arbitrary: i)
  case (Cons d ds)
  show ?case
  proof (cases "d = base + of_nat i")
    case True
    with Cons.prems have "ping_check_from base (Suc i) ds = Some k" by simp
    from Cons.IH [OF this] obtain j where j: "j < length ds" "k = Suc i + j"
      "ds ! j \<noteq> base + of_nat k" "\<forall>m < j. ds ! m = base + of_nat (Suc i + m)" by blast
    with True show ?thesis
      by (intro exI [of _ "Suc j"]) (auto simp: nth_Cons add.assoc split: nat.split)
  next
    case False
    with Cons.prems show ?thesis by (intro exI [of _ 0]) auto
  qed
qed simp

end
