(* ===== verification/Schemas.thy ===== *)
theory Schemas
  imports Messages
begin

text \<open>
  The telemetry payloads: \<open>schema/gatelink_status_v1\<close>, \<open>gatelink_status_v2\<close>,
  \<open>gatelink_event_v1\<close> and \<open>node_health_v1\<close> (headers and sources).

  Each schema has its record, the run of writes and the run of reads of the source, and the byte
  image of its offset table; the interpretations of \<open>fixed_format\<close> show that writer, table and
  reader agree field by field. The two cell arrays are lists of \<open>kMaxCells\<close> elements.
\<close>

section \<open>Fixed-length payloads\<close>

text \<open>The frame of every schema serializer and deserializer around its run of fields.\<close>

definition write_fixed ::
  "(ByteWriter, bool) state \<Rightarrow> nat \<Rightarrow> bytes \<Rightarrow> Status \<times> bytes \<times> nat option" where
  "write_fixed m len buf =
     (if length buf < len then (St_BufferTooSmall, buf, None)
      else let w = snd (run_state m (bw_new buf)) in
        if \<not> bw_ok w \<or> bw_pos w \<noteq> len then (St_BufferTooSmall, bw_buf w, None)
        else (St_Ok, bw_buf w, Some (bw_pos w)))"

definition read_fixed :: "(ByteReader, 'a) state \<Rightarrow> nat \<Rightarrow> bytes \<Rightarrow> Status + 'a" where
  "read_fixed m len bs =
     (if length bs \<noteq> len then Inl St_BadLength
      else case run_state m (br_new bs) of
        (v, r) \<Rightarrow> if br_ok r \<and> br_pos r = len then Inr v else Inl St_BadLength)"

section \<open>gatelink\_status\_v1\<close>

abbreviation kGateLinkStatusV1Len :: nat where "kGateLinkStatusV1Len \<equiv> 78"
abbreviation kMaxCells :: nat where "kMaxCells \<equiv> 4"

record GateLinkStatusV1 =
  sv1_gate_state :: u8
  sv1_input_bits :: u8
  sv1_hold :: u8
  sv1_movement_cause :: u8
  sv1_last_direction :: u8
  sv1_detect_flags :: u8
  sv1_last_traversal_age_s :: u32
  sv1_batt_mv :: u16
  sv1_batt_ma :: i16
  sv1_pv_cv :: u16
  sv1_pv_w :: u16
  sv1_load_ma :: i16
  sv1_yield_today :: u16
  sv1_yield_yest :: u16
  sv1_pmax_today :: u16
  sv1_yield_total :: u32
  sv1_charge_state :: u8
  sv1_mppt_err :: u8
  sv1_mppt_tracker :: u8
  sv1_mppt_flags :: u8
  sv1_mppt_temp_c10 :: i16
  sv1_bms_soc :: u8
  sv1_bms_flags :: u8
  sv1_pack_mv :: u16
  sv1_pack_ma :: i16
  sv1_cell_count :: u8
  sv1_bms_rssi_neg :: u8
  sv1_cell_mv :: "u16 list"
  sv1_cell_temp_c :: "i8 list"
  sv1_bms_cycles :: u16
  sv1_bms_capacity_dah :: u16
  sv1_bms_alarms :: u16
  sv1_bms_age_s :: u16
  sv1_uptime_s :: u32
  sv1_boot_count :: u16
  sv1_node_mv :: u16
  sv1_node_ma :: i16
  sv1_enclosure_temp_c10 :: i16
  sv1_node_flags :: u8
  sv1_status_reason :: u8

definition write_StatusV1 :: "GateLinkStatusV1 \<Rightarrow> (ByteWriter, bool) state" where
  "write_StatusV1 v = do {
     bw_u8 (sv1_gate_state v);
     bw_u8 (sv1_input_bits v);
     bw_u8 (sv1_hold v);
     bw_u8 (sv1_movement_cause v);
     bw_u8 (sv1_last_direction v);
     bw_u8 (sv1_detect_flags v);
     bw_u32 (sv1_last_traversal_age_s v);
     bw_u16 (sv1_batt_mv v);
     bw_i16 (sv1_batt_ma v);
     bw_u16 (sv1_pv_cv v);
     bw_u16 (sv1_pv_w v);
     bw_i16 (sv1_load_ma v);
     bw_u16 (sv1_yield_today v);
     bw_u16 (sv1_yield_yest v);
     bw_u16 (sv1_pmax_today v);
     bw_u32 (sv1_yield_total v);
     bw_u8 (sv1_charge_state v);
     bw_u8 (sv1_mppt_err v);
     bw_u8 (sv1_mppt_tracker v);
     bw_u8 (sv1_mppt_flags v);
     bw_i16 (sv1_mppt_temp_c10 v);
     bw_u8 (sv1_bms_soc v);
     bw_u8 (sv1_bms_flags v);
     bw_u16 (sv1_pack_mv v);
     bw_i16 (sv1_pack_ma v);
     bw_u8 (sv1_cell_count v);
     bw_u8 (sv1_bms_rssi_neg v);
     bw_u16 (sv1_cell_mv v ! 0);
     bw_u16 (sv1_cell_mv v ! 1);
     bw_u16 (sv1_cell_mv v ! 2);
     bw_u16 (sv1_cell_mv v ! 3);
     bw_i8 (sv1_cell_temp_c v ! 0);
     bw_i8 (sv1_cell_temp_c v ! 1);
     bw_i8 (sv1_cell_temp_c v ! 2);
     bw_i8 (sv1_cell_temp_c v ! 3);
     bw_u16 (sv1_bms_cycles v);
     bw_u16 (sv1_bms_capacity_dah v);
     bw_u16 (sv1_bms_alarms v);
     bw_u16 (sv1_bms_age_s v);
     bw_u32 (sv1_uptime_s v);
     bw_u16 (sv1_boot_count v);
     bw_u16 (sv1_node_mv v);
     bw_i16 (sv1_node_ma v);
     bw_i16 (sv1_enclosure_temp_c10 v);
     bw_u8 (sv1_node_flags v);
     bw_u8 (sv1_status_reason v)
   }"

definition read_StatusV1 :: "(ByteReader, GateLinkStatusV1) state" where
  "read_StatusV1 = do {
     gate_state \<leftarrow> br_u8;
     input_bits \<leftarrow> br_u8;
     hold \<leftarrow> br_u8;
     movement_cause \<leftarrow> br_u8;
     last_direction \<leftarrow> br_u8;
     detect_flags \<leftarrow> br_u8;
     last_traversal_age_s \<leftarrow> br_u32;
     batt_mv \<leftarrow> br_u16;
     batt_ma \<leftarrow> br_i16;
     pv_cv \<leftarrow> br_u16;
     pv_w \<leftarrow> br_u16;
     load_ma \<leftarrow> br_i16;
     yield_today \<leftarrow> br_u16;
     yield_yest \<leftarrow> br_u16;
     pmax_today \<leftarrow> br_u16;
     yield_total \<leftarrow> br_u32;
     charge_state \<leftarrow> br_u8;
     mppt_err \<leftarrow> br_u8;
     mppt_tracker \<leftarrow> br_u8;
     mppt_flags \<leftarrow> br_u8;
     mppt_temp_c10 \<leftarrow> br_i16;
     bms_soc \<leftarrow> br_u8;
     bms_flags \<leftarrow> br_u8;
     pack_mv \<leftarrow> br_u16;
     pack_ma \<leftarrow> br_i16;
     cell_count \<leftarrow> br_u8;
     bms_rssi_neg \<leftarrow> br_u8;
     cell_mv \<leftarrow> read_times kMaxCells br_u16;
     cell_temp_c \<leftarrow> read_times kMaxCells br_i8;
     bms_cycles \<leftarrow> br_u16;
     bms_capacity_dah \<leftarrow> br_u16;
     bms_alarms \<leftarrow> br_u16;
     bms_age_s \<leftarrow> br_u16;
     uptime_s \<leftarrow> br_u32;
     boot_count \<leftarrow> br_u16;
     node_mv \<leftarrow> br_u16;
     node_ma \<leftarrow> br_i16;
     enclosure_temp_c10 \<leftarrow> br_i16;
     node_flags \<leftarrow> br_u8;
     status_reason \<leftarrow> br_u8;
     State_Monad.return \<lparr>sv1_gate_state = gate_state,
       sv1_input_bits = input_bits,
       sv1_hold = hold,
       sv1_movement_cause = movement_cause,
       sv1_last_direction = last_direction,
       sv1_detect_flags = detect_flags,
       sv1_last_traversal_age_s = last_traversal_age_s,
       sv1_batt_mv = batt_mv,
       sv1_batt_ma = batt_ma,
       sv1_pv_cv = pv_cv,
       sv1_pv_w = pv_w,
       sv1_load_ma = load_ma,
       sv1_yield_today = yield_today,
       sv1_yield_yest = yield_yest,
       sv1_pmax_today = pmax_today,
       sv1_yield_total = yield_total,
       sv1_charge_state = charge_state,
       sv1_mppt_err = mppt_err,
       sv1_mppt_tracker = mppt_tracker,
       sv1_mppt_flags = mppt_flags,
       sv1_mppt_temp_c10 = mppt_temp_c10,
       sv1_bms_soc = bms_soc,
       sv1_bms_flags = bms_flags,
       sv1_pack_mv = pack_mv,
       sv1_pack_ma = pack_ma,
       sv1_cell_count = cell_count,
       sv1_bms_rssi_neg = bms_rssi_neg,
       sv1_cell_mv = cell_mv,
       sv1_cell_temp_c = cell_temp_c,
       sv1_bms_cycles = bms_cycles,
       sv1_bms_capacity_dah = bms_capacity_dah,
       sv1_bms_alarms = bms_alarms,
       sv1_bms_age_s = bms_age_s,
       sv1_uptime_s = uptime_s,
       sv1_boot_count = boot_count,
       sv1_node_mv = node_mv,
       sv1_node_ma = node_ma,
       sv1_enclosure_temp_c10 = enclosure_temp_c10,
       sv1_node_flags = node_flags,
       sv1_status_reason = status_reason\<rparr>
   }"

definition serialize_GateLinkStatusV1 :: "GateLinkStatusV1 \<Rightarrow> bytes \<Rightarrow> Status \<times> bytes \<times> nat option" where
  "serialize_GateLinkStatusV1 v = write_fixed (write_StatusV1 v) kGateLinkStatusV1Len"

definition deserialize_GateLinkStatusV1 :: "bytes \<Rightarrow> Status + GateLinkStatusV1" where
  "deserialize_GateLinkStatusV1 = read_fixed read_StatusV1 kGateLinkStatusV1Len"

section \<open>gatelink\_status\_v2\<close>

abbreviation kGateLinkStatusV2Len :: nat where "kGateLinkStatusV2Len \<equiv> 80"

record GateLinkStatusV2 =
  sv2_v1 :: GateLinkStatusV1
  sv2_ah_drawn_dah :: u16

definition serialize_GateLinkStatusV2 ::
  "GateLinkStatusV2 \<Rightarrow> bytes \<Rightarrow> Status \<times> bytes \<times> nat option" where
  "serialize_GateLinkStatusV2 v buf =
     (if length buf < kGateLinkStatusV2Len then (St_BufferTooSmall, buf, None)
      else case serialize_GateLinkStatusV1 (sv2_v1 v) buf of
        (s, out, written) \<Rightarrow>
          if s \<noteq> St_Ok then (s, out, None)
          else let head = (case written of None \<Rightarrow> 0 | Some n \<Rightarrow> n);
                   w = snd (run_state (bw_u16 (sv2_ah_drawn_dah v)) (bw_new (drop head out)));
                   out = take head out @ bw_buf w
            in if \<not> bw_ok w \<or> head + bw_pos w \<noteq> kGateLinkStatusV2Len
               then (St_BufferTooSmall, out, None)
               else (St_Ok, out, Some kGateLinkStatusV2Len))"

definition deserialize_GateLinkStatusV2 :: "bytes \<Rightarrow> Status + GateLinkStatusV2" where
  "deserialize_GateLinkStatusV2 bs =
     (if length bs \<noteq> kGateLinkStatusV2Len then Inl St_BadLength
      else case deserialize_GateLinkStatusV1 (take kGateLinkStatusV1Len bs) of
        Inl s \<Rightarrow> Inl s
      | Inr v1 \<Rightarrow>
          (case run_state br_u16 (br_new (drop kGateLinkStatusV1Len bs)) of
             (ah, r) \<Rightarrow>
               if br_ok r \<and> br_pos r = length bs - kGateLinkStatusV1Len
               then Inr \<lparr>sv2_v1 = v1, sv2_ah_drawn_dah = ah\<rparr>
               else Inl St_BadLength))"

section \<open>gatelink\_event\_v1\<close>

abbreviation kGateLinkEventV1Len :: nat where "kGateLinkEventV1Len \<equiv> 16"

record GateLinkEventV1 =
  ev_event_type :: u8
  ev_event_flags :: u8
  ev_hold_source :: u8
  ev_direction :: u8
  ev_gate_state :: u8
  ev_input_bits :: u8
  ev_detail :: u16
  ev_event_id :: u32
  ev_uptime_s :: u32

definition write_GateLinkEventV1 :: "GateLinkEventV1 \<Rightarrow> (ByteWriter, bool) state" where
  "write_GateLinkEventV1 v = do {
     bw_u8 (ev_event_type v);
     bw_u8 (ev_event_flags v);
     bw_u8 (ev_hold_source v);
     bw_u8 (ev_direction v);
     bw_u8 (ev_gate_state v);
     bw_u8 (ev_input_bits v);
     bw_u16 (ev_detail v);
     bw_u32 (ev_event_id v);
     bw_u32 (ev_uptime_s v)
   }"

definition read_GateLinkEventV1 :: "(ByteReader, GateLinkEventV1) state" where
  "read_GateLinkEventV1 = do {
     event_type \<leftarrow> br_u8;
     event_flags \<leftarrow> br_u8;
     hold_source \<leftarrow> br_u8;
     direction \<leftarrow> br_u8;
     gate_state \<leftarrow> br_u8;
     input_bits \<leftarrow> br_u8;
     detail \<leftarrow> br_u16;
     event_id \<leftarrow> br_u32;
     uptime_s \<leftarrow> br_u32;
     State_Monad.return \<lparr>ev_event_type = event_type, ev_event_flags = event_flags,
       ev_hold_source = hold_source, ev_direction = direction, ev_gate_state = gate_state,
       ev_input_bits = input_bits, ev_detail = detail, ev_event_id = event_id,
       ev_uptime_s = uptime_s\<rparr>
   }"

definition serialize_GateLinkEventV1 :: "GateLinkEventV1 \<Rightarrow> bytes \<Rightarrow> Status \<times> bytes \<times> nat option" where
  "serialize_GateLinkEventV1 v = write_fixed (write_GateLinkEventV1 v) kGateLinkEventV1Len"

definition deserialize_GateLinkEventV1 :: "bytes \<Rightarrow> Status + GateLinkEventV1" where
  "deserialize_GateLinkEventV1 = read_fixed read_GateLinkEventV1 kGateLinkEventV1Len"

section \<open>node\_health\_v1\<close>

abbreviation kNodeHealthV1Len :: nat where "kNodeHealthV1Len \<equiv> 20"

record NodeHealthV1 =
  nh_uptime_s :: u32
  nh_boot_count :: u16
  nh_rx_frames :: u16
  nh_tx_frames :: u16
  nh_rx_dropped :: u16
  nh_cad_backoffs :: u16
  nh_last_rssi_dbm :: i16
  nh_last_snr_db10 :: i16
  nh_proto_ver :: u8
  nh_health_flags :: u8

definition write_NodeHealthV1 :: "NodeHealthV1 \<Rightarrow> (ByteWriter, bool) state" where
  "write_NodeHealthV1 v = do {
     bw_u32 (nh_uptime_s v);
     bw_u16 (nh_boot_count v);
     bw_u16 (nh_rx_frames v);
     bw_u16 (nh_tx_frames v);
     bw_u16 (nh_rx_dropped v);
     bw_u16 (nh_cad_backoffs v);
     bw_i16 (nh_last_rssi_dbm v);
     bw_i16 (nh_last_snr_db10 v);
     bw_u8 (nh_proto_ver v);
     bw_u8 (nh_health_flags v)
   }"

definition read_NodeHealthV1 :: "(ByteReader, NodeHealthV1) state" where
  "read_NodeHealthV1 = do {
     uptime_s \<leftarrow> br_u32;
     boot_count \<leftarrow> br_u16;
     rx_frames \<leftarrow> br_u16;
     tx_frames \<leftarrow> br_u16;
     rx_dropped \<leftarrow> br_u16;
     cad_backoffs \<leftarrow> br_u16;
     last_rssi_dbm \<leftarrow> br_i16;
     last_snr_db10 \<leftarrow> br_i16;
     proto_ver \<leftarrow> br_u8;
     health_flags \<leftarrow> br_u8;
     State_Monad.return \<lparr>nh_uptime_s = uptime_s, nh_boot_count = boot_count,
       nh_rx_frames = rx_frames, nh_tx_frames = tx_frames, nh_rx_dropped = rx_dropped,
       nh_cad_backoffs = cad_backoffs, nh_last_rssi_dbm = last_rssi_dbm,
       nh_last_snr_db10 = last_snr_db10, nh_proto_ver = proto_ver,
       nh_health_flags = health_flags\<rparr>
   }"

definition serialize_NodeHealthV1 :: "NodeHealthV1 \<Rightarrow> bytes \<Rightarrow> Status \<times> bytes \<times> nat option" where
  "serialize_NodeHealthV1 v = write_fixed (write_NodeHealthV1 v) kNodeHealthV1Len"

definition deserialize_NodeHealthV1 :: "bytes \<Rightarrow> Status + NodeHealthV1" where
  "deserialize_NodeHealthV1 = read_fixed read_NodeHealthV1 kNodeHealthV1Len"

section \<open>Offset tables\<close>

definition StatusV1_img :: "GateLinkStatusV1 \<Rightarrow> bytes" where
  "StatusV1_img v =
     [sv1_gate_state v] @
     [sv1_input_bits v] @
     [sv1_hold v] @
     [sv1_movement_cause v] @
     [sv1_last_direction v] @
     [sv1_detect_flags v] @
     le32 (sv1_last_traversal_age_s v) @
     le16 (sv1_batt_mv v) @
     le16 (sv1_batt_ma v) @
     le16 (sv1_pv_cv v) @
     le16 (sv1_pv_w v) @
     le16 (sv1_load_ma v) @
     le16 (sv1_yield_today v) @
     le16 (sv1_yield_yest v) @
     le16 (sv1_pmax_today v) @
     le32 (sv1_yield_total v) @
     [sv1_charge_state v] @
     [sv1_mppt_err v] @
     [sv1_mppt_tracker v] @
     [sv1_mppt_flags v] @
     le16 (sv1_mppt_temp_c10 v) @
     [sv1_bms_soc v] @
     [sv1_bms_flags v] @
     le16 (sv1_pack_mv v) @
     le16 (sv1_pack_ma v) @
     [sv1_cell_count v] @
     [sv1_bms_rssi_neg v] @
     concat (map le16 (sv1_cell_mv v)) @
     sv1_cell_temp_c v @
     le16 (sv1_bms_cycles v) @
     le16 (sv1_bms_capacity_dah v) @
     le16 (sv1_bms_alarms v) @
     le16 (sv1_bms_age_s v) @
     le32 (sv1_uptime_s v) @
     le16 (sv1_boot_count v) @
     le16 (sv1_node_mv v) @
     le16 (sv1_node_ma v) @
     le16 (sv1_enclosure_temp_c10 v) @
     [sv1_node_flags v] @
     [sv1_status_reason v]"

definition wf_StatusV1 :: "GateLinkStatusV1 \<Rightarrow> bool" where
  "wf_StatusV1 v \<longleftrightarrow> length (sv1_cell_mv v) = kMaxCells \<and> length (sv1_cell_temp_c v) = kMaxCells"

definition StatusV2_img :: "GateLinkStatusV2 \<Rightarrow> bytes" where
  "StatusV2_img v = StatusV1_img (sv2_v1 v) @ le16 (sv2_ah_drawn_dah v)"

definition GateLinkEventV1_img :: "GateLinkEventV1 \<Rightarrow> bytes" where
  "GateLinkEventV1_img v =
     [ev_event_type v] @ [ev_event_flags v] @ [ev_hold_source v] @ [ev_direction v] @
       [ev_gate_state v] @ [ev_input_bits v] @ le16 (ev_detail v) @ le32 (ev_event_id v) @
       le32 (ev_uptime_s v)"

definition NodeHealthV1_img :: "NodeHealthV1 \<Rightarrow> bytes" where
  "NodeHealthV1_img v =
     le32 (nh_uptime_s v) @ le16 (nh_boot_count v) @ le16 (nh_rx_frames v) @
       le16 (nh_tx_frames v) @ le16 (nh_rx_dropped v) @ le16 (nh_cad_backoffs v) @
       le16 (nh_last_rssi_dbm v) @ le16 (nh_last_snr_db10 v) @ [nh_proto_ver v] @
       [nh_health_flags v]"

section \<open>Writer, table and reader agree\<close>

lemma write_fixed_eq:
  assumes "emits m bs" "length bs = len"
  shows "len \<le> length buf \<Longrightarrow> write_fixed m len buf = (St_Ok, bs @ drop len buf, Some len)"
    and "length buf < len \<Longrightarrow> write_fixed m len buf = (St_BufferTooSmall, buf, None)"
  using emits_new [OF assms(1), of buf] assms(2) by (simp_all add: write_fixed_def Let_def)

lemma read_fixed_total: "reads m n \<Longrightarrow> n = len \<Longrightarrow> length bs = len \<Longrightarrow> \<exists>v. read_fixed m len bs = Inr v"
  by (cases "run_state m (br_new bs)")
    (use reads_new [of m n bs] in \<open>simp add: read_fixed_def br_new_def\<close>)

lemma schema_formatI:
  assumes ser: "\<And>v. ser v = write_fixed (m v) len" and des: "des = read_fixed r len"
    and em: "\<And>v. ok v \<Longrightarrow> emits (m v) (img v)" and len: "\<And>v. ok v \<Longrightarrow> length (img v) = len"
    and rd: "\<And>v. ok v \<Longrightarrow> run_state r (reader_at [] (img v)) = (v, reader_at (img v) [])"
    and reads: "reads r len" and dwf: "\<And>bs v. read_fixed r len bs = Inr v \<Longrightarrow> ok v"
  shows "fixed_format ser des ok img len"
proof (rule fixed_formatI)
  show "closed_format ser des ok img"
  proof
    fix v and buf :: bytes assume v: "ok v"
    note w = write_fixed_eq [OF em [OF v] len [OF v], of buf]
    show "length (img v) \<le> length buf \<Longrightarrow>
        ser v buf = (St_Ok, img v @ drop (length (img v)) buf, Some (length (img v)))"
      using w(1) by (simp add: ser len [OF v])
    show "length buf < length (img v) \<Longrightarrow>
        \<exists>out. ser v buf = (St_BufferTooSmall, out, None) \<and> length out = length buf"
      using w(2) by (simp add: ser len [OF v])
    show "des (img v) = Inr v"
      by (simp add: des read_fixed_def len [OF v] br_new_reader_at rd [OF v])
  qed (simp add: des dwf)
qed (use len read_fixed_total [OF reads] in \<open>auto simp: des read_fixed_def\<close>)

lemma readsI: "reads m a \<Longrightarrow> a = b \<Longrightarrow> reads m b"
  by simp

lemma reads_times [reads_intros]: "reads m k \<Longrightarrow> reads (read_times n m) (n * k)"
proof (induction n)
  case 0
  then show ?case by (simp add: reads_prims)
next
  case (Suc n)
  have "reads (read_times (Suc n) m) (k + (n * k + 0))"
    unfolding read_times.simps by (intro reads_intros Suc)
  then show ?case by simp
qed

lemma run_read_times [stream_simps]:
  "length xs = n \<Longrightarrow>
     run_state (read_times n br_u16) (reader_at pre (concat (map le16 xs) @ rest)) =
       (xs, reader_at (pre @ concat (map le16 xs)) rest)"
  "length ys = n \<Longrightarrow>
     run_state (read_times n br_i8) (reader_at pre (ys @ rest)) = (ys, reader_at (pre @ ys) rest)"
proof (induction n arbitrary: xs ys pre)
  case (Suc n)
  {
    case 1
    then show ?case
      using Suc.IH(1) by (cases xs) (simp_all add: stream_simps)
  next
    case 2
    then show ?case
      using Suc.IH(2) by (cases ys) (simp_all add: stream_simps)
  }
qed simp_all

lemma length_read_times: "length (fst (run_state (read_times n m) r)) = n"
  by (induction n arbitrary: r) (simp_all add: split_beta)

lemma list4: "length xs = 4 \<Longrightarrow> [xs ! 0, xs ! 1, xs ! 2, xs ! 3] = xs"
  by (auto simp: numeral_eq_Suc length_Suc_conv)

lemma emits_StatusV1: "wf_StatusV1 v \<Longrightarrow> emits (write_StatusV1 v) (StatusV1_img v)"
proof -
  assume wf: "wf_StatusV1 v"
  then obtain a b c d e f g h where "sv1_cell_mv v = [a, b, c, d]" "sv1_cell_temp_c v = [e, f, g, h]"
    by (auto simp: wf_StatusV1_def numeral_eq_Suc length_Suc_conv)
  then show ?thesis
    unfolding write_StatusV1_def
    by (intro emitsI [OF _ StatusV1_img_def [symmetric]], simp only: append_assoc)
      (rule emitsI, (rule emits_intros)+, simp)
qed

interpretation fmt_StatusV1: fixed_format serialize_GateLinkStatusV1 deserialize_GateLinkStatusV1
  wf_StatusV1 StatusV1_img kGateLinkStatusV1Len
proof (rule schema_formatI)
  show "emits (write_StatusV1 v) (StatusV1_img v)" if "wf_StatusV1 v" for v
    by (rule emits_StatusV1 [OF that])
  show "reads read_StatusV1 kGateLinkStatusV1Len"
    unfolding read_StatusV1_def by (rule readsI, (rule reads_intros)+) simp
  show "run_state read_StatusV1 (reader_at [] (StatusV1_img v)) = (v, reader_at (StatusV1_img v) [])"
    if "wf_StatusV1 v" for v
    using that by (simp add: read_StatusV1_def StatusV1_img_def wf_StatusV1_def stream_simps)
  show "length (StatusV1_img v) = kGateLinkStatusV1Len" if "wf_StatusV1 v" for v
    using that by (auto simp: StatusV1_img_def wf_StatusV1_def numeral_eq_Suc length_Suc_conv)
  show "wf_StatusV1 v" if "read_fixed read_StatusV1 kGateLinkStatusV1Len bs = Inr v" for bs v
    using that
    by (auto simp: read_fixed_def read_StatusV1_def wf_StatusV1_def length_read_times split_beta
        split: if_splits)
qed (simp_all add: serialize_GateLinkStatusV1_def deserialize_GateLinkStatusV1_def)

lemma emits_Event: "emits (write_GateLinkEventV1 v) (GateLinkEventV1_img v)"
  unfolding write_GateLinkEventV1_def
  by (rule emitsI, (rule emits_intros)+) (simp add: GateLinkEventV1_img_def)

interpretation fmt_EventV1: fixed_format serialize_GateLinkEventV1 deserialize_GateLinkEventV1
  any_value GateLinkEventV1_img kGateLinkEventV1Len
proof (rule schema_formatI)
  show "reads read_GateLinkEventV1 kGateLinkEventV1Len"
    unfolding read_GateLinkEventV1_def by (rule readsI, (rule reads_intros)+) simp
  show "emits (write_GateLinkEventV1 v) (GateLinkEventV1_img v)" for v by (rule emits_Event)
qed (simp_all add: serialize_GateLinkEventV1_def deserialize_GateLinkEventV1_def
    GateLinkEventV1_img_def read_GateLinkEventV1_def stream_simps)

lemma emits_Health: "emits (write_NodeHealthV1 v) (NodeHealthV1_img v)"
  unfolding write_NodeHealthV1_def
  by (rule emitsI, (rule emits_intros)+) (simp add: NodeHealthV1_img_def)

interpretation fmt_HealthV1: fixed_format serialize_NodeHealthV1 deserialize_NodeHealthV1
  any_value NodeHealthV1_img kNodeHealthV1Len
proof (rule schema_formatI)
  show "reads read_NodeHealthV1 kNodeHealthV1Len"
    unfolding read_NodeHealthV1_def by (rule readsI, (rule reads_intros)+) simp
  show "emits (write_NodeHealthV1 v) (NodeHealthV1_img v)" for v by (rule emits_Health)
qed (simp_all add: serialize_NodeHealthV1_def deserialize_NodeHealthV1_def
    NodeHealthV1_img_def read_NodeHealthV1_def stream_simps)

text \<open>Version 2 is version 1 with one field behind it, built on the laws of version 1.\<close>

definition wf_StatusV2 :: "GateLinkStatusV2 \<Rightarrow> bool" where
  "wf_StatusV2 v \<longleftrightarrow> wf_StatusV1 (sv2_v1 v)"

lemma serialize_StatusV2_eq:
  assumes v: "wf_StatusV2 v"
  shows "serialize_GateLinkStatusV2 v buf =
    (if kGateLinkStatusV2Len \<le> length buf
     then (St_Ok, StatusV2_img v @ drop kGateLinkStatusV2Len buf, Some kGateLinkStatusV2Len)
     else (St_BufferTooSmall, buf, None))"
proof (cases "kGateLinkStatusV2Len \<le> length buf")
  case True
  have len: "length (StatusV1_img (sv2_v1 v)) = kGateLinkStatusV1Len"
    using v by (simp add: wf_StatusV2_def fmt_StatusV1.length_img)
  have 1: "serialize_GateLinkStatusV1 (sv2_v1 v) buf =
      (St_Ok, StatusV1_img (sv2_v1 v) @ drop kGateLinkStatusV1Len buf, Some kGateLinkStatusV1Len)"
    using v True fmt_StatusV1.ser_fits [of "sv2_v1 v" buf] by (simp add: wf_StatusV2_def len)
  have "run_state (bw_u16 (sv2_ah_drawn_dah v)) (bw_new (drop kGateLinkStatusV1Len buf)) =
      (True, writer_at (drop kGateLinkStatusV1Len buf) (le16 (sv2_ah_drawn_dah v)))"
    using True by (simp add: bw_new_writer_at stream_simps)
  with True 1 len show ?thesis
    by (simp add: serialize_GateLinkStatusV2_def Let_def StatusV2_img_def)
qed (simp add: serialize_GateLinkStatusV2_def)

interpretation fmt_StatusV2: fixed_format serialize_GateLinkStatusV2 deserialize_GateLinkStatusV2
  wf_StatusV2 StatusV2_img kGateLinkStatusV2Len
proof (rule fixed_formatI)
  have len: "length (StatusV2_img v) = kGateLinkStatusV2Len" if "wf_StatusV2 v" for v
    using that fmt_StatusV1.length_img [of "sv2_v1 v"] by (simp add: wf_StatusV2_def StatusV2_img_def)
  show "length (StatusV2_img v) = kGateLinkStatusV2Len" if "wf_StatusV2 v" for v by (rule len [OF that])
  show "closed_format serialize_GateLinkStatusV2 deserialize_GateLinkStatusV2 wf_StatusV2 StatusV2_img"
  proof
    fix v assume v: "wf_StatusV2 v"
    have 1: "length (StatusV1_img (sv2_v1 v)) = kGateLinkStatusV1Len"
      "deserialize_GateLinkStatusV1 (StatusV1_img (sv2_v1 v)) = Inr (sv2_v1 v)"
      using v fmt_StatusV1.length_img fmt_StatusV1.des_img by (auto simp: wf_StatusV2_def)
    then show "deserialize_GateLinkStatusV2 (StatusV2_img v) = Inr v"
      by (simp add: deserialize_GateLinkStatusV2_def StatusV2_img_def br_new_reader_at stream_simps)
  next
    fix bs v assume "deserialize_GateLinkStatusV2 bs = Inr v"
    then show "wf_StatusV2 v"
      by (auto simp: deserialize_GateLinkStatusV2_def wf_StatusV2_def split_beta
          dest: fmt_StatusV1.des_wf split: if_splits sum.splits)
  qed (simp_all add: serialize_StatusV2_eq len)
  show "\<exists>v. deserialize_GateLinkStatusV2 bs = Inr v" if "length bs = kGateLinkStatusV2Len" for bs
  proof -
    have "length (take kGateLinkStatusV1Len bs) = kGateLinkStatusV1Len" using that by simp
    from fmt_StatusV1.des_total [OF this] obtain v1
      where "deserialize_GateLinkStatusV1 (take kGateLinkStatusV1Len bs) = Inr v1" by blast
    then show ?thesis
      using that by (simp add: deserialize_GateLinkStatusV2_def br_new_def br_u16_def)
  qed
qed (simp add: deserialize_GateLinkStatusV2_def)

text \<open>The lengths the codec enforces are the lengths of the tables.\<close>

lemma fixed_payload_len_agrees:
  "fixed_payload_len MT_Command s = Some kCommandLen"
  "fixed_payload_len MT_CommandAck s = Some kCommandAckLen"
  "fixed_payload_len MT_Poll s = Some kPollLen"
  "fixed_payload_len MT_Error s = Some kErrorLen"
  "fixed_payload_len MT_Status kSchemaGateLinkStatusV1 = Some kGateLinkStatusV1Len"
  "fixed_payload_len MT_Status kSchemaGateLinkStatusV2 = Some kGateLinkStatusV2Len"
  "fixed_payload_len MT_Status kSchemaNodeHealthV1 = Some kNodeHealthV1Len"
  "fixed_payload_len MT_Event kSchemaGateLinkEventV1 = Some kGateLinkEventV1Len"
  by (simp_all add: fixed_payload_len_def)

end
