(* ===== verification/NodeConfig.thy ===== *)
theory NodeConfig
  imports Messages Codec
begin

text \<open>
  The configuration payloads, schema \<open>node_config_v1\<close> (\<open>schema/node_config_v1.h\<close>,
  \<open>schema/node_config_v1.cpp\<close>): the CONFIG request and its CONFIG\_ACK answer, and the packing
  of a parameter value into an entry.

  The arrays of a request or an answer are lists, \<open>count\<close> being their length; the value bytes of
  an entry are a list of \<open>kMaxParamValueLen\<close> bytes, of which the first \<open>len\<close> count. A received
  entry may announce a \<open>len\<close> this build cannot store: its bytes are skipped and its value stays
  zero.
\<close>

section \<open>Enumerations (types.h)\<close>

datatype ConfigOp = CO_Set | CO_Get | CO_GetAll | CO_RestoreDefaults | CO_Other u8

fun ConfigOp_u8 :: "ConfigOp \<Rightarrow> u8" where
  "ConfigOp_u8 CO_Set = 0x01"
| "ConfigOp_u8 CO_Get = 0x02"
| "ConfigOp_u8 CO_GetAll = 0x03"
| "ConfigOp_u8 CO_RestoreDefaults = 0x04"
| "ConfigOp_u8 (CO_Other b) = b"

definition u8_ConfigOp :: "u8 \<Rightarrow> ConfigOp" where
  "u8_ConfigOp b =
     (if b = 0x01 then CO_Set else if b = 0x02 then CO_Get else if b = 0x03 then CO_GetAll
      else if b = 0x04 then CO_RestoreDefaults else CO_Other b)"

datatype PersistStatus = PS_Persisted | PS_AppliedNotPersisted | PS_NotApplied | PS_Other u8

fun PersistStatus_u8 :: "PersistStatus \<Rightarrow> u8" where
  "PersistStatus_u8 PS_Persisted = 0x00"
| "PersistStatus_u8 PS_AppliedNotPersisted = 0x01"
| "PersistStatus_u8 PS_NotApplied = 0x02"
| "PersistStatus_u8 (PS_Other b) = b"

definition u8_PersistStatus :: "u8 \<Rightarrow> PersistStatus" where
  "u8_PersistStatus b =
     (if b = 0x00 then PS_Persisted else if b = 0x01 then PS_AppliedNotPersisted
      else if b = 0x02 then PS_NotApplied else PS_Other b)"

datatype ParamStatus =
    Pa_Ok | Pa_UnknownParam | Pa_Clamped | Pa_TypeMismatch | Pa_ReadOnly | Pa_InvalidValue
  | Pa_Other u8

fun ParamStatus_u8 :: "ParamStatus \<Rightarrow> u8" where
  "ParamStatus_u8 Pa_Ok = 0x00"
| "ParamStatus_u8 Pa_UnknownParam = 0x01"
| "ParamStatus_u8 Pa_Clamped = 0x02"
| "ParamStatus_u8 Pa_TypeMismatch = 0x03"
| "ParamStatus_u8 Pa_ReadOnly = 0x04"
| "ParamStatus_u8 Pa_InvalidValue = 0x05"
| "ParamStatus_u8 (Pa_Other b) = b"

definition u8_ParamStatus :: "u8 \<Rightarrow> ParamStatus" where
  "u8_ParamStatus b =
     (if b = 0x00 then Pa_Ok else if b = 0x01 then Pa_UnknownParam else if b = 0x02 then Pa_Clamped
      else if b = 0x03 then Pa_TypeMismatch else if b = 0x04 then Pa_ReadOnly
      else if b = 0x05 then Pa_InvalidValue else Pa_Other b)"

datatype PType = PT_U8 | PT_U16 | PT_U32 | PT_I16 | PT_I32 | PT_Bool | PT_Other u8

fun PType_u8 :: "PType \<Rightarrow> u8" where
  "PType_u8 PT_U8 = 0x01"
| "PType_u8 PT_U16 = 0x02"
| "PType_u8 PT_U32 = 0x03"
| "PType_u8 PT_I16 = 0x04"
| "PType_u8 PT_I32 = 0x05"
| "PType_u8 PT_Bool = 0x06"
| "PType_u8 (PT_Other b) = b"

definition u8_PType :: "u8 \<Rightarrow> PType" where
  "u8_PType b =
     (if b = 0x01 then PT_U8 else if b = 0x02 then PT_U16 else if b = 0x03 then PT_U32
      else if b = 0x04 then PT_I16 else if b = 0x05 then PT_I32 else if b = 0x06 then PT_Bool
      else PT_Other b)"

section \<open>Entries (node\_config\_v1.h)\<close>

abbreviation kMaxParamValueLen :: nat where "kMaxParamValueLen \<equiv> 4"
abbreviation kConfigEntryHdrLen :: nat where "kConfigEntryHdrLen \<equiv> 4"
abbreviation kConfigAckEntryHdrLen :: nat where "kConfigAckEntryHdrLen \<equiv> 5"
abbreviation kConfigHdrLen :: nat where "kConfigHdrLen \<equiv> 2"
abbreviation kConfigAckHdrLen :: nat where "kConfigAckHdrLen \<equiv> 3"
abbreviation kMaxConfigEntries :: nat where
  "kMaxConfigEntries \<equiv> (kMaxSchemaPayload - kConfigHdrLen) div (kConfigEntryHdrLen + 1)"
abbreviation kMaxConfigAckEntries :: nat where
  "kMaxConfigAckEntries \<equiv> (kMaxSchemaPayload - kConfigAckHdrLen) div (kConfigAckEntryHdrLen + 1)"
abbreviation kConfigStatusOverride :: u8 where "kConfigStatusOverride \<equiv> 0x80"
abbreviation kMaxConfigAckMessages :: nat where "kMaxConfigAckMessages \<equiv> 4"

record ConfigEntry =
  ce_param_id :: u16
  ce_ptype :: PType
  ce_len :: u8
  ce_value :: bytes

record ConfigAckEntry =
  cae_param_id :: u16
  cae_status :: ParamStatus
  cae_is_override :: bool
  cae_ptype :: PType
  cae_len :: u8
  cae_value :: bytes

record NodeConfigV1 =
  nc_op :: ConfigOp
  nc_entries :: "ConfigEntry list"

record NodeConfigAckV1 =
  nca_op :: ConfigOp
  nca_more_follows :: bool
  nca_persist_status :: PersistStatus
  nca_entries :: "ConfigAckEntry list"

definition ConfigEntry_init :: ConfigEntry where
  "ConfigEntry_init = \<lparr>ce_param_id = 0, ce_ptype = PT_U8, ce_len = 0, ce_value = [0, 0, 0, 0]\<rparr>"

definition ConfigAckEntry_init :: ConfigAckEntry where
  "ConfigAckEntry_init = \<lparr>cae_param_id = 0, cae_status = Pa_Ok, cae_is_override = False,
     cae_ptype = PT_U8, cae_len = 0, cae_value = [0, 0, 0, 0]\<rparr>"

section \<open>Values (node\_config\_v1.cpp)\<close>

fun param_value_len :: "PType \<Rightarrow> nat" where
  "param_value_len PT_U8 = 1"
| "param_value_len PT_U16 = 2"
| "param_value_len PT_U32 = 4"
| "param_value_len PT_I16 = 2"
| "param_value_len PT_I32 = 4"
| "param_value_len PT_Bool = 1"
| "param_value_len (PT_Other _) = 0"

text \<open>\<open>pack_value\<close> into a zeroed value array: the low \<open>n\<close> bytes, least significant first.\<close>

definition pack_value :: "nat \<Rightarrow> u32 \<Rightarrow> bytes" where
  "pack_value n raw =
     blit (replicate kMaxParamValueLen 0) 0 (map (\<lambda>i. ucast (drop_bit (8 * i) raw AND 255)) [0..<n])"

definition entry_pack :: "u16 \<Rightarrow> PType \<Rightarrow> u32 \<Rightarrow> ConfigEntry option" where
  "entry_pack param_id t raw =
     (let n = param_value_len t in
      if n = 0 \<or> n > kMaxParamValueLen then None
      else Some \<lparr>ce_param_id = param_id, ce_ptype = t, ce_len = of_nat n, ce_value = pack_value n raw\<rparr>)"

definition entry_pack_ack :: "u16 \<Rightarrow> ParamStatus \<Rightarrow> PType \<Rightarrow> u32 \<Rightarrow> ConfigAckEntry option" where
  "entry_pack_ack param_id s t raw =
     (let n = param_value_len t in
      if n = 0 \<or> n > kMaxParamValueLen then None
      else Some \<lparr>cae_param_id = param_id, cae_status = s, cae_is_override = False, cae_ptype = t,
                 cae_len = of_nat n, cae_value = pack_value n raw\<rparr>)"

definition entry_raw :: "bytes \<Rightarrow> u8 \<Rightarrow> u32" where
  "entry_raw v len =
     foldl (\<lambda>acc i. acc OR push_bit (8 * i) (ucast (v ! i))) 0 [0..<min (unat len) kMaxParamValueLen]"

text \<open>The \<open>int32_t\<close> a value denotes: an I16 is cut to 16 bits and sign-extended.\<close>

definition entry_signed :: "bytes \<Rightarrow> u8 \<Rightarrow> PType \<Rightarrow> int" where
  "entry_signed v len t =
     (let raw = entry_raw v len in
      if t = PT_I16 then sint (ucast raw :: i16) else sint raw)"

section \<open>CONFIG and CONFIG\_ACK (node\_config\_v1.cpp)\<close>

definition write_entry :: "ConfigEntry \<Rightarrow> (ByteWriter, bool) state" where
  "write_entry e = do {
     bw_u16 (ce_param_id e);
     bw_u8 (PType_u8 (ce_ptype e));
     bw_u8 (ce_len e);
     bw_bytes (ce_value e) (unat (ce_len e))
   }"

definition write_ack_entry :: "ConfigAckEntry \<Rightarrow> (ByteWriter, bool) state" where
  "write_ack_entry e = do {
     bw_u16 (cae_param_id e);
     bw_u8 ((ParamStatus_u8 (cae_status e) AND NOT kConfigStatusOverride) OR
            (if cae_is_override e then kConfigStatusOverride else 0));
     bw_u8 (PType_u8 (cae_ptype e));
     bw_u8 (cae_len e);
     bw_bytes (cae_value e) (unat (cae_len e))
   }"

text \<open>
  The entry loop of both serializers: it stops with \<open>BadLength\<close> at the first entry whose
  \<open>len\<close> the build cannot produce, with everything before it written.
\<close>

fun write_entries ::
  "('e \<Rightarrow> u8) \<Rightarrow> ('e \<Rightarrow> (ByteWriter, bool) state) \<Rightarrow> 'e list \<Rightarrow> (ByteWriter, bool) state" where
  "write_entries len wr [] = State_Monad.return True"
| "write_entries len wr (e # es) =
     (if unat (len e) > kMaxParamValueLen then State_Monad.return False
      else do { wr e; write_entries len wr es })"

definition finish_config ::
  "(ByteWriter, bool) state \<Rightarrow> bytes \<Rightarrow> Status \<times> bytes \<times> nat option" where
  "finish_config m buf =
     (case run_state m (bw_new buf) of
        (entries_ok, w) \<Rightarrow>
          if \<not> entries_ok then (St_BadLength, bw_buf w, None)
          else if \<not> bw_ok w then (St_BufferTooSmall, bw_buf w, None)
          else if bw_pos w > kMaxSchemaPayload then (St_BadLength, bw_buf w, None)
          else (St_Ok, bw_buf w, Some (bw_pos w)))"

definition serialize_NodeConfigV1 :: "NodeConfigV1 \<Rightarrow> bytes \<Rightarrow> Status \<times> bytes \<times> nat option" where
  "serialize_NodeConfigV1 v buf =
     (if length (nc_entries v) > kMaxConfigEntries then (St_BadLength, buf, None)
      else finish_config (do {
        bw_u8 (ConfigOp_u8 (nc_op v));
        bw_u8 (of_nat (length (nc_entries v)));
        write_entries ce_len write_entry (nc_entries v)
      }) buf)"

definition serialize_NodeConfigAckV1 ::
  "NodeConfigAckV1 \<Rightarrow> bytes \<Rightarrow> Status \<times> bytes \<times> nat option" where
  "serialize_NodeConfigAckV1 v buf =
     (if length (nca_entries v) > kMaxConfigAckEntries then (St_BadLength, buf, None)
      else finish_config (do {
        bw_u8 (ConfigOp_u8 (nca_op v));
        bw_u8 (PersistStatus_u8 (nca_persist_status v));
        bw_u8 (of_nat (length (nca_entries v)) OR (if nca_more_follows v then kConfigAckMoreFollows else 0));
        write_entries cae_len write_ack_entry (nca_entries v)
      }) buf)"

text \<open>\<open>if (e.len > kMaxParamValueLen) r.skip(e.len); else r.bytes(e.value, e.len)\<close>.\<close>

definition read_value :: "u8 \<Rightarrow> (ByteReader, bytes) state" where
  "read_value len =
     (if unat len > kMaxParamValueLen
      then do { br_skip (unat len); State_Monad.return (replicate kMaxParamValueLen 0) }
      else do {
        b \<leftarrow> br_bytes (unat len);
        State_Monad.return (case b of
            None \<Rightarrow> replicate kMaxParamValueLen 0
          | Some bs \<Rightarrow> blit (replicate kMaxParamValueLen 0) 0 bs)
      })"

definition read_entry :: "(ByteReader, ConfigEntry) state" where
  "read_entry = do {
     param_id \<leftarrow> br_u16;
     ptype \<leftarrow> br_u8;
     len \<leftarrow> br_u8;
     v \<leftarrow> read_value len;
     State_Monad.return \<lparr>ce_param_id = param_id, ce_ptype = u8_PType ptype, ce_len = len, ce_value = v\<rparr>
   }"

definition read_ack_entry :: "(ByteReader, ConfigAckEntry) state" where
  "read_ack_entry = do {
     param_id \<leftarrow> br_u16;
     status_byte \<leftarrow> br_u8;
     ptype \<leftarrow> br_u8;
     len \<leftarrow> br_u8;
     v \<leftarrow> read_value len;
     State_Monad.return \<lparr>cae_param_id = param_id,
       cae_status = u8_ParamStatus (status_byte AND NOT kConfigStatusOverride),
       cae_is_override = (status_byte AND kConfigStatusOverride \<noteq> 0),
       cae_ptype = u8_PType ptype, cae_len = len, cae_value = v\<rparr>
   }"

text \<open>
  The entry loop is \<open>read_times\<close>. The source returns at the first entry whose header does not fit;
  here the failed reader carries the same verdict to the end, where \<open>r.ok()\<close> is tested.
\<close>

definition deserialize_NodeConfigV1 :: "bytes \<Rightarrow> Status + NodeConfigV1" where
  "deserialize_NodeConfigV1 bs =
     (if length bs < kConfigHdrLen then Inl St_BadLength
      else case run_state (do { op \<leftarrow> br_u8; count \<leftarrow> br_u8; State_Monad.return (op, count) }) (br_new bs) of
        ((op, count), r) \<Rightarrow>
          if unat count > kMaxConfigEntries then Inl St_BadLength
          else case run_state (read_times (unat count) read_entry) r of
            (es, r) \<Rightarrow>
              if br_ok r \<and> br_pos r = length bs
              then Inr \<lparr>nc_op = u8_ConfigOp op, nc_entries = es\<rparr>
              else Inl St_BadLength)"

definition deserialize_NodeConfigAckV1 :: "bytes \<Rightarrow> Status + NodeConfigAckV1" where
  "deserialize_NodeConfigAckV1 bs =
     (if length bs < kConfigAckHdrLen then Inl St_BadLength
      else case run_state (do { op \<leftarrow> br_u8; persist \<leftarrow> br_u8; count_byte \<leftarrow> br_u8;
                                State_Monad.return (op, persist, count_byte) }) (br_new bs) of
        ((op, persist, count_byte), r) \<Rightarrow>
          let more = (count_byte AND kConfigAckMoreFollows \<noteq> 0);
              count = count_byte AND NOT kConfigAckMoreFollows in
          if unat count > kMaxConfigAckEntries then Inl St_BadLength
          else case run_state (read_times (unat count) read_ack_entry) r of
            (es, r) \<Rightarrow>
              if br_ok r \<and> br_pos r = length bs
              then Inr \<lparr>nca_op = u8_ConfigOp op, nca_more_follows = more,
                        nca_persist_status = u8_PersistStatus persist, nca_entries = es\<rparr>
              else Inl St_BadLength)"

section \<open>Enumerations round-trip\<close>

lemma enum_u8 [simp]:
  "ConfigOp_u8 (u8_ConfigOp b) = b" "PersistStatus_u8 (u8_PersistStatus b) = b"
  "ParamStatus_u8 (u8_ParamStatus b) = b" "PType_u8 (u8_PType b) = b"
  by (simp_all add: u8_ConfigOp_def u8_PersistStatus_def u8_ParamStatus_def u8_PType_def)

definition wf_ConfigOp :: "ConfigOp \<Rightarrow> bool" where
  "wf_ConfigOp x \<longleftrightarrow> u8_ConfigOp (ConfigOp_u8 x) = x"

definition wf_PersistStatus :: "PersistStatus \<Rightarrow> bool" where
  "wf_PersistStatus x \<longleftrightarrow> u8_PersistStatus (PersistStatus_u8 x) = x"

definition wf_PType :: "PType \<Rightarrow> bool" where
  "wf_PType x \<longleftrightarrow> u8_PType (PType_u8 x) = x"

text \<open>A status of an answer shares its byte with the override bit.\<close>

definition wf_ParamStatus :: "ParamStatus \<Rightarrow> bool" where
  "wf_ParamStatus x \<longleftrightarrow> u8_ParamStatus (ParamStatus_u8 x) = x \<and> ParamStatus_u8 x < kConfigStatusOverride"

section \<open>What arrives\<close>

text \<open>
  An entry on the wire: identifier, type byte and a value of any length up to 255. Reading it
  stores the value padded with zeros, or zeros when it is too wide.
\<close>

definition wire_entry :: "u16 \<Rightarrow> u8 \<Rightarrow> bytes \<Rightarrow> bytes" where
  "wire_entry pid t v = le16 pid @ [t, of_nat (length v)] @ v"

definition stored_value :: "bytes \<Rightarrow> bytes" where
  "stored_value v = (if length v > kMaxParamValueLen then replicate kMaxParamValueLen 0
                     else v @ replicate (kMaxParamValueLen - length v) 0)"

definition stored_entry :: "u16 \<Rightarrow> u8 \<Rightarrow> bytes \<Rightarrow> ConfigEntry" where
  "stored_entry pid t v =
     \<lparr>ce_param_id = pid, ce_ptype = u8_PType t, ce_len = of_nat (length v), ce_value = stored_value v\<rparr>"

lemma run_read_value [stream_simps]:
  "length v < 256 \<Longrightarrow>
   run_state (read_value (of_nat (length v))) (reader_at pre (v @ rest)) =
     (stored_value v, reader_at (pre @ v) rest)"
  by (simp add: read_value_def stored_value_def stream_simps unat_of_nat)

lemma run_read_entry:
  "length v < 256 \<Longrightarrow>
   run_state read_entry (reader_at pre (wire_entry pid t v @ rest)) =
     (stored_entry pid t v, reader_at (pre @ wire_entry pid t v) rest)"
  by (simp add: read_entry_def wire_entry_def stored_entry_def stream_simps)

text \<open>A run of items, each read as one, is read as the list of them.\<close>

lemma run_read_times_concat:
  assumes "\<And>x pre rest. x \<in> set xs \<Longrightarrow>
      run_state m (reader_at pre (img x @ rest)) = (val x, reader_at (pre @ img x) rest)"
  shows "n = length xs \<Longrightarrow> run_state (read_times n m) (reader_at pre (concat (map img xs) @ rest)) =
      (map val xs, reader_at (pre @ concat (map img xs)) rest)"
  using assms
proof (induction xs arbitrary: n pre)
  case (Cons x xs)
  then show ?case by simp
qed simp

definition config_wire :: "u8 \<Rightarrow> (u16 \<times> u8 \<times> bytes) list \<Rightarrow> bytes" where
  "config_wire op ws = [op, of_nat (length ws)] @ concat (map (\<lambda>(pid, t, v). wire_entry pid t v) ws)"

lemma deserialize_config_wire:
  assumes "length ws \<le> kMaxConfigEntries" "\<forall>(pid, t, v) \<in> set ws. length v < 256"
  shows "deserialize_NodeConfigV1 (config_wire op ws) =
    Inr \<lparr>nc_op = u8_ConfigOp op, nc_entries = map (\<lambda>(pid, t, v). stored_entry pid t v) ws\<rparr>"
proof -
  have n: "unat (of_nat (length ws) :: u8) = length ws"
    using assms(1) by (simp add: unat_of_nat)
  let ?img = "\<lambda>(pid, t, v). wire_entry pid t v" and ?val = "\<lambda>(pid, t, v). stored_entry pid t v"
  have "run_state (read_times (length ws) read_entry)
        (reader_at [op, of_nat (length ws)] (concat (map ?img ws) @ [])) =
      (map ?val ws, reader_at ([op, of_nat (length ws)] @ concat (map ?img ws)) [])"
    by (rule run_read_times_concat) (use assms(2) run_read_entry in auto)
  with assms(1) n show ?thesis
    by (simp add: deserialize_NodeConfigV1_def config_wire_def br_new_reader_at stream_simps)
qed

section \<open>The writer's side\<close>

definition wf_entry :: "ConfigEntry \<Rightarrow> bool" where
  "wf_entry e \<longleftrightarrow> wf_PType (ce_ptype e) \<and> unat (ce_len e) \<le> kMaxParamValueLen \<and>
     ce_value e = stored_value (take (unat (ce_len e)) (ce_value e)) \<and>
     length (ce_value e) = kMaxParamValueLen"

definition entry_wire :: "ConfigEntry \<Rightarrow> u16 \<times> u8 \<times> bytes" where
  "entry_wire e = (ce_param_id e, PType_u8 (ce_ptype e), take (unat (ce_len e)) (ce_value e))"

definition Config_img :: "NodeConfigV1 \<Rightarrow> bytes" where
  "Config_img v = config_wire (ConfigOp_u8 (nc_op v)) (map entry_wire (nc_entries v))"

definition wf_Config :: "NodeConfigV1 \<Rightarrow> bool" where
  "wf_Config v \<longleftrightarrow> wf_ConfigOp (nc_op v) \<and> length (nc_entries v) \<le> kMaxConfigEntries \<and>
     (\<forall>e \<in> set (nc_entries v). wf_entry e) \<and> length (Config_img v) \<le> kMaxSchemaPayload"

lemma stored_entry_wire:
  "wf_entry e \<Longrightarrow> (case entry_wire e of (pid, t, v) \<Rightarrow> stored_entry pid t v) = e"
  by (simp add: wf_entry_def entry_wire_def stored_entry_def wf_PType_def)

lemma emits_entry: "wf_entry e \<Longrightarrow>
   emits (write_entry e) (case entry_wire e of (pid, t, v) \<Rightarrow> wire_entry pid t v)"
  unfolding write_entry_def
  by (rule emitsI, (rule emits_intros)+) (simp_all add: wf_entry_def entry_wire_def wire_entry_def)

lemma emits_entries:
  assumes "\<And>e. e \<in> set es \<Longrightarrow> emits (wr e) (img e) \<and> unat (len e) \<le> kMaxParamValueLen"
  shows "emits (write_entries len wr es) (concat (map img es))"
    and "fst (run_state (write_entries len wr es) w)"
  using assms
proof (induction es arbitrary: w)
  case (Cons e es)
  {
    case 1
    then have "\<not> kMaxParamValueLen < unat (len e)" "emits (wr e) (img e)" by (simp_all add: not_less)
    moreover have "emits (write_entries len wr es) (concat (map img es))"
      by (rule Cons.IH(1)) (use 1 in simp)
    ultimately show ?case by (simp add: emits_bind)
  next
    case 2
    then have "\<not> kMaxParamValueLen < unat (len e)" by (simp add: not_less)
    moreover have "fst (run_state (write_entries len wr es) w)" for w
      by (rule Cons.IH(2)) (use 2 in simp)
    ultimately show ?case by (simp add: split_beta)
  }
qed (simp_all add: emits_return)

lemma finish_config_eq:
  assumes "emits m bs" "\<And>w. fst (run_state m w)" "length bs \<le> kMaxSchemaPayload"
  shows "length bs \<le> length buf \<Longrightarrow>
      finish_config m buf = (St_Ok, bs @ drop (length bs) buf, Some (length bs))"
    and "length buf < length bs \<Longrightarrow>
      \<exists>out. finish_config m buf = (St_BufferTooSmall, out, None) \<and> length out = length buf"
  using emits_new [OF assms(1), of buf] assms(2) [of "bw_new buf"] assms(3)
  by (auto simp: finish_config_def split_beta)

interpretation fmt_Config: wire_format serialize_NodeConfigV1 deserialize_NodeConfigV1
  wf_Config Config_img
proof
  fix v and buf :: bytes assume v: "wf_Config v"
  let ?m = "do {bw_u8 (ConfigOp_u8 (nc_op v)); bw_u8 (of_nat (length (nc_entries v)));
     write_entries ce_len write_entry (nc_entries v)}"
  let ?wi = "\<lambda>e. case entry_wire e of (pid, t, v) \<Rightarrow> wire_entry pid t v"
  have e: "emits (write_entry e) (?wi e) \<and> unat (ce_len e) \<le> kMaxParamValueLen"
    if "e \<in> set (nc_entries v)" for e
    using v that emits_entry by (auto simp: wf_Config_def wf_entry_def)
  have em: "emits ?m (Config_img v)"
    by (rule emitsI, (rule emits_intros emits_entries(1) [OF e])+)
      (simp_all add: Config_img_def config_wire_def comp_def)
  have ok: "fst (run_state ?m w)" for w
    using emits_entries(2) [OF e] by (simp add: split_beta)
  have ser: "serialize_NodeConfigV1 v buf = finish_config ?m buf"
    using v by (simp add: serialize_NodeConfigV1_def wf_Config_def)
  have len: "length (Config_img v) \<le> kMaxSchemaPayload" using v by (simp add: wf_Config_def)
  show "length (Config_img v) \<le> length buf \<Longrightarrow> serialize_NodeConfigV1 v buf =
      (St_Ok, Config_img v @ drop (length (Config_img v)) buf, Some (length (Config_img v)))"
    unfolding ser by (rule finish_config_eq(1) [OF em ok len])
  show "length buf < length (Config_img v) \<Longrightarrow>
      \<exists>out. serialize_NodeConfigV1 v buf = (St_BufferTooSmall, out, None) \<and> length out = length buf"
    unfolding ser by (rule finish_config_eq(2) [OF em ok len])
  have "map (\<lambda>(pid, t, v). stored_entry pid t v) (map entry_wire (nc_entries v)) = nc_entries v"
    using v by (auto simp: wf_Config_def stored_entry_wire intro!: map_idI)
  moreover have "\<forall>(pid, t, u) \<in> set (map entry_wire (nc_entries v)). length u < 256"
    using v by (auto simp: entry_wire_def wf_Config_def wf_entry_def)
  ultimately show "deserialize_NodeConfigV1 (Config_img v) = Inr v"
    using v deserialize_config_wire [of "map entry_wire (nc_entries v)" "ConfigOp_u8 (nc_op v)"]
    by (simp add: Config_img_def wf_Config_def wf_ConfigOp_def)
qed

section \<open>CONFIG\_ACK\<close>

definition status_byte :: "ParamStatus \<Rightarrow> bool \<Rightarrow> u8" where
  "status_byte s ov = (ParamStatus_u8 s AND NOT kConfigStatusOverride) OR (if ov then kConfigStatusOverride else 0)"

definition ack_entry_img :: "ConfigAckEntry \<Rightarrow> bytes" where
  "ack_entry_img e = le16 (cae_param_id e) @
     [status_byte (cae_status e) (cae_is_override e), PType_u8 (cae_ptype e), cae_len e] @
     take (unat (cae_len e)) (cae_value e)"

definition wf_ack_entry :: "ConfigAckEntry \<Rightarrow> bool" where
  "wf_ack_entry e \<longleftrightarrow> wf_PType (cae_ptype e) \<and> wf_ParamStatus (cae_status e) \<and>
     unat (cae_len e) \<le> kMaxParamValueLen \<and>
     cae_value e = stored_value (take (unat (cae_len e)) (cae_value e)) \<and>
     length (cae_value e) = kMaxParamValueLen"

definition count_byte :: "nat \<Rightarrow> bool \<Rightarrow> u8" where
  "count_byte n mf = of_nat n OR (if mf then kConfigAckMoreFollows else 0)"

definition ConfigAck_img :: "NodeConfigAckV1 \<Rightarrow> bytes" where
  "ConfigAck_img v =
     [ConfigOp_u8 (nca_op v), PersistStatus_u8 (nca_persist_status v),
      count_byte (length (nca_entries v)) (nca_more_follows v)] @
     concat (map ack_entry_img (nca_entries v))"

definition wf_ConfigAck :: "NodeConfigAckV1 \<Rightarrow> bool" where
  "wf_ConfigAck v \<longleftrightarrow> wf_ConfigOp (nca_op v) \<and> wf_PersistStatus (nca_persist_status v) \<and>
     length (nca_entries v) \<le> kMaxConfigAckEntries \<and>
     (\<forall>e \<in> set (nca_entries v). wf_ack_entry e) \<and> length (ConfigAck_img v) \<le> kMaxSchemaPayload"

text \<open>The low seven bits and the top bit of a byte are independent.\<close>

lemma bit_0x80: "bit (0x80 :: u8) n \<longleftrightarrow> n = 7"
proof -
  have "(0x80 :: u8) = 2 ^ 7" by simp
  then show ?thesis by (simp only: bit_exp_iff) (auto simp: possible_bit_def)
qed

lemma small_bit7: "x < (0x80 :: u8) \<Longrightarrow> \<not> bit x 7"
proof -
  assume "x < 0x80"
  then have "unat x < 2 ^ 7" by (simp add: word_less_nat_alt)
  then have "unat (drop_bit 7 x) = 0" by (simp add: drop_bit_eq_div unat_div)
  then have "drop_bit 7 x = 0" by (simp only: unat_eq_zero)
  moreover have "bit x 7 = bit (drop_bit 7 x) 0" by (simp add: bit_drop_bit_eq)
  ultimately show ?thesis by simp
qed

lemma top_bit_split:
  assumes "x < (0x80 :: u8)"
  shows "x AND NOT 0x80 = x"
    "(x OR (if b then 0x80 else 0)) AND NOT 0x80 = x"
    "(x OR (if b then 0x80 else 0)) AND 0x80 \<noteq> 0 \<longleftrightarrow> b"
proof -
  note 7 = small_bit7 [OF assms]
  show "x AND NOT 0x80 = x"
    by (rule bit_word_eqI) (use 7 in \<open>auto simp only: bit_and_iff bit_not_iff bit_0x80 possible_bit_word\<close>)
  show "(x OR (if b then 0x80 else 0)) AND NOT 0x80 = x"
    by (rule bit_word_eqI)
      (use 7 in \<open>auto simp only: bit_and_iff bit_or_iff bit_not_iff bit_0x80 possible_bit_word if_True
        if_False bit_0_eq bot_apply bot_bool_def split: if_splits\<close>)
  have "bit ((x OR (if b then 0x80 else 0)) AND 0x80) n \<longleftrightarrow> n = 7 \<and> b" for n
    by (cases b) (use 7 in \<open>auto simp only: bit_and_iff bit_or_iff bit_0x80 if_True if_False bit_0_eq
        bot_apply bot_bool_def\<close>)
  then show "(x OR (if b then 0x80 else 0)) AND 0x80 \<noteq> 0 \<longleftrightarrow> b"
    unfolding word_eq_0_bits by blast
qed

lemma count_byte_split:
  assumes "n \<le> kMaxConfigAckEntries"
  shows "unat (count_byte n b AND NOT kConfigAckMoreFollows) = n"
    "count_byte n b AND kConfigAckMoreFollows \<noteq> 0 \<longleftrightarrow> b"
proof -
  have u: "unat (of_nat n :: u8) = n" using assms by (simp add: unat_of_nat)
  then have "(of_nat n :: u8) < 0x80" using assms by (simp add: word_less_nat_alt)
  note t = top_bit_split(2,3) [OF this, of b]
  show "unat (count_byte n b AND NOT kConfigAckMoreFollows) = n"
    unfolding count_byte_def t(1) by (rule u)
  show "count_byte n b AND kConfigAckMoreFollows \<noteq> 0 \<longleftrightarrow> b"
    unfolding count_byte_def by (rule t(2))
qed

lemma status_byte_split:
  assumes "wf_ParamStatus s"
  shows "u8_ParamStatus (status_byte s b AND NOT kConfigStatusOverride) = s"
    "status_byte s b AND kConfigStatusOverride \<noteq> 0 \<longleftrightarrow> b"
proof -
  have lt: "ParamStatus_u8 s < 0x80" and s: "u8_ParamStatus (ParamStatus_u8 s) = s"
    using assms by (auto simp: wf_ParamStatus_def)
  note t = top_bit_split [OF lt]
  show "u8_ParamStatus (status_byte s b AND NOT kConfigStatusOverride) = s"
    unfolding status_byte_def t(1) t(2) by (rule s)
  show "status_byte s b AND kConfigStatusOverride \<noteq> 0 \<longleftrightarrow> b"
    unfolding status_byte_def t(1) by (rule t(3))
qed

lemma run_read_ack_entry:
  assumes "wf_ack_entry e"
  shows "run_state read_ack_entry (reader_at pre (ack_entry_img e @ rest)) =
     (e, reader_at (pre @ ack_entry_img e) rest)"
proof -
  let ?v = "take (unat (cae_len e)) (cae_value e)"
  have "cae_len e = of_nat (length ?v)" "length ?v < 256"
    using assms by (simp_all add: wf_ack_entry_def)
  then have "run_state (read_value (cae_len e)) (reader_at pre (?v @ rest)) =
      (stored_value ?v, reader_at (pre @ ?v) rest)" for pre
    by (metis run_read_value)
  with assms show ?thesis
    unfolding read_ack_entry_def ack_entry_img_def
    by (simp add: stream_simps wf_ack_entry_def wf_PType_def status_byte_split
        status_byte_split [simplified])
qed

interpretation fmt_ConfigAck: wire_format serialize_NodeConfigAckV1 deserialize_NodeConfigAckV1
  wf_ConfigAck ConfigAck_img
proof
  fix v and buf :: bytes assume v: "wf_ConfigAck v"
  let ?m = "do {bw_u8 (ConfigOp_u8 (nca_op v)); bw_u8 (PersistStatus_u8 (nca_persist_status v));
     bw_u8 (count_byte (length (nca_entries v)) (nca_more_follows v));
     write_entries cae_len write_ack_entry (nca_entries v)}"
  have e: "emits (write_ack_entry e) (ack_entry_img e) \<and> unat (cae_len e) \<le> kMaxParamValueLen"
    if "e \<in> set (nca_entries v)" for e
  proof -
    have wf: "wf_ack_entry e" using v that by (simp add: wf_ConfigAck_def)
    then have "emits (write_ack_entry e) (ack_entry_img e)"
      unfolding write_ack_entry_def status_byte_def [symmetric]
      by (intro emitsI [OF _ ack_entry_img_def [symmetric]])
        (rule emitsI, (rule emits_intros)+, simp_all add: wf_ack_entry_def)
    with wf show ?thesis by (simp add: wf_ack_entry_def)
  qed
  have em: "emits ?m (ConfigAck_img v)"
    by (rule emitsI, (rule emits_intros emits_entries(1) [OF e])+) (simp_all add: ConfigAck_img_def)
  have ok: "fst (run_state ?m w)" for w
    using emits_entries(2) [OF e] by (simp add: split_beta)
  have ser: "serialize_NodeConfigAckV1 v buf = finish_config ?m buf"
    using v by (simp add: serialize_NodeConfigAckV1_def wf_ConfigAck_def count_byte_def)
  have len: "length (ConfigAck_img v) \<le> kMaxSchemaPayload" using v by (simp add: wf_ConfigAck_def)
  show "length (ConfigAck_img v) \<le> length buf \<Longrightarrow> serialize_NodeConfigAckV1 v buf =
      (St_Ok, ConfigAck_img v @ drop (length (ConfigAck_img v)) buf, Some (length (ConfigAck_img v)))"
    unfolding ser by (rule finish_config_eq(1) [OF em ok len])
  show "length buf < length (ConfigAck_img v) \<Longrightarrow>
      \<exists>out. serialize_NodeConfigAckV1 v buf = (St_BufferTooSmall, out, None) \<and> length out = length buf"
    unfolding ser by (rule finish_config_eq(2) [OF em ok len])
  let ?es = "nca_entries v"
  have n: "length ?es \<le> kMaxConfigAckEntries" using v by (simp add: wf_ConfigAck_def)
  have "run_state (read_times (length ?es) read_ack_entry)
        (reader_at pre (concat (map ack_entry_img ?es) @ [])) =
      (map (\<lambda>e. e) ?es, reader_at (pre @ concat (map ack_entry_img ?es)) [])" for pre
    by (rule run_read_times_concat) (use v run_read_ack_entry in \<open>auto simp: wf_ConfigAck_def\<close>)
  with v n show "deserialize_NodeConfigAckV1 (ConfigAck_img v) = Inr v"
    unfolding deserialize_NodeConfigAckV1_def ConfigAck_img_def
    by (simp add: br_new_reader_at stream_simps count_byte_split count_byte_split [simplified] wf_ConfigAck_def wf_ConfigOp_def
        wf_PersistStatus_def Let_def)
qed

section \<open>Packed values read back\<close>

lemma upt_small: "[0..<1] = [0 :: nat]" "[0..<2] = [0 :: nat, 1]" "[0..<4] = [0 :: nat, 1, 2, 3]"
  by (simp_all add: upt_rec)

lemma zeros_small:
  "replicate 4 (0 :: u8) = [0, 0, 0, 0]" "replicate 3 (0 :: u8) = [0, 0, 0]"
  "replicate 2 (0 :: u8) = [0, 0]"
  by (simp_all add: numeral_eq_Suc)

lemma pack_value_simps:
  "pack_value 1 raw = [ucast raw, 0, 0, 0]"
  "pack_value 2 raw = [ucast raw, ucast (drop_bit 8 raw), 0, 0]"
  "pack_value 4 raw = le32 raw"
  by (simp_all only: pack_value_def upt_small zeros_small)
    (simp_all add: le32_def)

lemma entry_raw_simps:
  "entry_raw (b # bs) 1 = ucast b"
  "entry_raw (b # c # bs) 2 = ucast b OR push_bit 8 (ucast c)"
  "entry_raw (b # c # d # e # bs) 4 = of_le32 b c d e"
  by (simp_all add: entry_raw_def upt_small upt_small [simplified] of_le32_def or.assoc)

lemma entry_raw_pack:
  assumes "param_value_len t = n" "n \<noteq> 0"
  shows "entry_raw (pack_value n raw) (of_nat n) = take_bit (8 * n) raw"
proof -
  have "n \<in> {1, 2, 4}" using assms by (cases t) simp_all
  then consider "n = 1" | "n = 2" | "n = 4" by blast
  then show ?thesis
  proof cases
    case 1
    have "ucast (ucast raw :: u8) = take_bit 8 raw"
      by (rule bit_word_eqI) (auto simp: bit_simps)
    with 1 show ?thesis
      by (simp only: pack_value_simps entry_raw_simps of_nat_1 mult_1_right)
  next
    case 2
    have "ucast (ucast raw :: u8) OR push_bit 8 (ucast (ucast (drop_bit 8 raw) :: u8)) = take_bit 16 raw"
      by (rule bit_word_eqI) (auto simp: bit_simps)
    with 2 show ?thesis
      by (simp add: pack_value_simps entry_raw_simps)
  next
    case 3
    have "take_bit 32 raw = raw" by (rule bit_word_eqI) (simp add: bit_simps)
    with 3 show ?thesis by (simp add: pack_value_simps entry_raw_simps le32_def)
  qed
qed

text \<open>The values a type can hold, and that a held value survives the entry.\<close>

fun ptype_holds :: "PType \<Rightarrow> int \<Rightarrow> bool" where
  "ptype_holds PT_U8 v \<longleftrightarrow> 0 \<le> v \<and> v < 2 ^ 8"
| "ptype_holds PT_Bool v \<longleftrightarrow> 0 \<le> v \<and> v < 2 ^ 8"
| "ptype_holds PT_U16 v \<longleftrightarrow> 0 \<le> v \<and> v < 2 ^ 16"
| "ptype_holds PT_I16 v \<longleftrightarrow> - (2 ^ 15) \<le> v \<and> v < 2 ^ 15"
| "ptype_holds PT_U32 v \<longleftrightarrow> - (2 ^ 31) \<le> v \<and> v < 2 ^ 31"
| "ptype_holds PT_I32 v \<longleftrightarrow> - (2 ^ 31) \<le> v \<and> v < 2 ^ 31"
| "ptype_holds (PT_Other _) v \<longleftrightarrow> False"

lemma sint_of_small: "- (2 ^ 31) \<le> v \<Longrightarrow> v < 2 ^ 31 \<Longrightarrow> sint (word_of_int v :: u32) = v"
  by (simp add: signed_of_int signed_take_bit_int_eq_self)

lemma take_bit_of_int: "n \<le> 32 \<Longrightarrow> take_bit n (word_of_int v :: u32) = word_of_int (take_bit n v)"
  by (rule bit_word_eqI) (auto simp: bit_simps)

lemma entry_signed_pack:
  assumes "ptype_holds t v" "param_value_len t = n"
  shows "entry_signed (pack_value n (word_of_int v)) (of_nat n) t = v"
proof -
  have n: "n \<noteq> 0" using assms by (cases t) auto
  have raw: "entry_raw (pack_value n (word_of_int v)) (of_nat n) =
      word_of_int (take_bit (8 * n) v)"
    using entry_raw_pack [OF assms(2) n] assms(2) by (cases t) (auto simp: take_bit_of_int)
  show ?thesis
  proof (cases "t = PT_I16")
    case True
    with assms have "ucast (word_of_int (take_bit 16 v) :: u32) = (word_of_int v :: i16)"
      by (auto intro!: bit_word_eqI simp: bit_simps)
    with True assms raw show ?thesis
      by (simp add: entry_signed_def signed_of_int signed_take_bit_int_eq_self)
  next
    case False
    with assms have "take_bit (8 * n) v = v \<or> n = 4"
      by (cases t) (auto simp: take_bit_int_eq_self)
    then have "(word_of_int (take_bit (8 * n) v) :: u32) = word_of_int v"
      by (auto intro!: bit_word_eqI simp: bit_simps)
    moreover have "sint (word_of_int v :: u32) = v"
      by (rule sint_of_small) (use assms False in \<open>cases t; simp\<close>)+
    ultimately show ?thesis
      using False raw by (simp add: entry_signed_def)
  qed
qed

section \<open>Agreement with the codec\<close>

text \<open>The codec's entry walk and the deserializer take the same steps.\<close>

lemma read_entry_step:
  assumes "br_ok r" "br_pos r \<le> br_len r" "br_len r = length (br_buf r)"
  shows "let off = br_pos r; p = br_buf r; r' = snd (run_state read_entry r) in
    if off + 4 > length p \<or> off + 4 + unat (p ! (3 + off)) > length p then \<not> br_ok r'
    else r' = r\<lparr>br_pos := off + 4 + unat (p ! (3 + off))\<rparr>"
  using assms
  by (auto simp: Let_def read_entry_def read_value_def br_u16_def br_u8_def br_skip_def br_bytes_def
      split_beta eval_nat_numeral)

lemma failed_reader: "\<not> br_ok r \<Longrightarrow> \<not> br_ok (snd (run_state (read_times n read_entry) r))"
proof (induction n arbitrary: r)
  case (Suc n)
  then have "\<not> br_ok (snd (run_state read_entry r))"
    by (auto simp: read_entry_def read_value_def br_u16_def br_u8_def br_skip_def br_bytes_def split_beta)
  with Suc.IH show ?case by (simp add: split_beta)
qed simp

lemma walk_entries_read:
  assumes "br_ok r" "br_pos r \<le> br_len r" "br_len r = length (br_buf r)"
  shows "case walk_entries 4 (br_buf r) n (br_pos r) of
      None \<Rightarrow> \<not> br_ok (snd (run_state (read_times n read_entry) r))
    | Some off \<Rightarrow> snd (run_state (read_times n read_entry) r) = r\<lparr>br_pos := off\<rparr>"
  using assms
proof (induction n arbitrary: r)
  case (Suc n)
  note step = read_entry_step [OF Suc.prems]
  show ?case
  proof (cases "br_pos r + 4 > length (br_buf r) \<or>
      br_pos r + 4 + unat (br_buf r ! (3 + br_pos r)) > length (br_buf r)")
    case True
    with step have "\<not> br_ok (snd (run_state read_entry r))" by (simp add: Let_def)
    with True failed_reader show ?thesis by (auto simp: split_beta Let_def)
  next
    case False
    let ?r = "r\<lparr>br_pos := br_pos r + 4 + unat (br_buf r ! (3 + br_pos r))\<rparr>"
    have r: "snd (run_state read_entry r) = ?r"
      using step False by (simp add: Let_def)
    from False Suc.prems Suc.IH [of ?r] show ?thesis
      by (simp add: split_beta r Let_def split: option.splits)
  qed
qed simp

lemma config_header_read:
  "2 \<le> length bs \<Longrightarrow>
   run_state (do { op \<leftarrow> br_u8; count \<leftarrow> br_u8; State_Monad.return (op, count) }) (br_new bs) =
     ((bs ! 0, bs ! 1), (br_new bs)\<lparr>br_pos := 2\<rparr>)"
  by (cases bs) (auto simp: br_new_def br_u8_def)

section \<open>Properties\<close>

text \<open>
  A CONFIG payload parses exactly when the codec accepts its entry structure and it announces
  at most \<open>kMaxConfigEntries\<close> entries, so a request the codec lets through is never dropped by the
  parser for any other reason, and the parser never reads past what the codec has checked.
\<close>

theorem config_parses_iff_codec_accepts:
  "(\<exists>v. deserialize_NodeConfigV1 p = Inr v) \<longleftrightarrow>
     check_variable_payload MT_Config p = St_Ok \<and> unat (p ! 1) \<le> kMaxConfigEntries"
proof (cases "2 \<le> length p")
  case True
  let ?r = "(br_new p)\<lparr>br_pos := 2\<rparr>"
  have "case walk_entries 4 p (unat (p ! 1)) 2 of
      None \<Rightarrow> \<not> br_ok (snd (run_state (read_times (unat (p ! 1)) read_entry) ?r))
    | Some off \<Rightarrow> snd (run_state (read_times (unat (p ! 1)) read_entry) ?r) = ?r\<lparr>br_pos := off\<rparr>"
    using walk_entries_read [of ?r "unat (p ! 1)"] True by (simp add: br_new_def)
  with True show ?thesis
    unfolding deserialize_NodeConfigV1_def config_header_read [OF True]
    by (auto simp: check_variable_payload_def split_beta br_new_def split: option.splits)
qed (simp add: deserialize_NodeConfigV1_def check_variable_payload_def)

text \<open>
  An entry whose value is wider than this build can store costs that entry and nothing else:
  every other entry of the request is read as sent, and the wide one arrives with its announced
  length and a zero value.
\<close>

theorem wide_entry_costs_only_itself:
  assumes "length ws \<le> kMaxConfigEntries" "\<forall>(pid, t, v) \<in> set ws. length v < 256"
  shows "deserialize_NodeConfigV1 (config_wire op ws) =
    Inr \<lparr>nc_op = u8_ConfigOp op,
         nc_entries = map (\<lambda>(pid, t, v).
           \<lparr>ce_param_id = pid, ce_ptype = u8_PType t, ce_len = of_nat (length v),
            ce_value = (if length v > kMaxParamValueLen then replicate kMaxParamValueLen 0
                        else v @ replicate (kMaxParamValueLen - length v) 0)\<rparr>) ws\<rparr>"
  using deserialize_config_wire [OF assms, of op] by (simp only: stored_entry_def stored_value_def)

theorem wide_entry_costs_only_itself_witness:
  "deserialize_NodeConfigV1
     (config_wire 1 [(0x0101, 1, [7]), (0x0102, 9, [1, 2, 3, 4, 5, 6]), (0x0103, 2, [8, 9])]) =
   Inr \<lparr>nc_op = CO_Set, nc_entries =
     [\<lparr>ce_param_id = 0x0101, ce_ptype = PT_U8, ce_len = 1, ce_value = [7, 0, 0, 0]\<rparr>,
      \<lparr>ce_param_id = 0x0102, ce_ptype = PT_Other 9, ce_len = 6, ce_value = [0, 0, 0, 0]\<rparr>,
      \<lparr>ce_param_id = 0x0103, ce_ptype = PT_U16, ce_len = 2, ce_value = [8, 9, 0, 0]\<rparr>]\<rparr>"
  using wide_entry_costs_only_itself
    [of "[(0x0101, 1, [7]), (0x0102, 9, [1, 2, 3, 4, 5, 6]), (0x0103, 2, [8, 9])]" 1]
  by (simp add: u8_ConfigOp_def u8_PType_def zeros_small)

text \<open>
  A parameter value its type can hold survives packing into an entry: the receiver reads back
  the same number, sign included, for every type of the table.
\<close>

theorem param_value_roundtrip:
  assumes "ptype_holds t v" "entry_pack pid t (word_of_int v) = Some e"
  shows "entry_signed (ce_value e) (ce_len e) (ce_ptype e) = v"
  using assms entry_signed_pack [OF assms(1) refl]
  by (auto simp: entry_pack_def Let_def split: if_splits)

theorem param_value_roundtrip_witness:
  "\<exists>e. entry_pack 5 PT_I16 (word_of_int (-2)) = Some e \<and>
     entry_signed (ce_value e) (ce_len e) (ce_ptype e) = -2"
proof -
  obtain e where e: "entry_pack 5 PT_I16 (word_of_int (-2)) = Some e"
    by (simp add: entry_pack_def)
  with param_value_roundtrip [OF _ e] show ?thesis by (auto simp: e)
qed

end
