(* ===== verification/Reassembly.thy ===== *)
theory Reassembly
  imports Codec
begin

text \<open>
  Fragment reassembly: class \<open>Reassembler\<close> (\<open>reassembly.h\<close>, \<open>reassembly.cpp\<close>).

  One object holds one live set. Fragment bytes are staged in arrival order, so the model keeps
  the staging buffer, the offset and length tables and the arrival mask as the class has them.
  The two byte arrays are uninitialised in the source; their first contents are parameters of
  \<open>Reassembler_new\<close>. Offsets and lengths (\<open>uint16_t\<close>) are natural numbers: the invariant
  bounds them by the buffer size, so no cast of the source can lose a bit.

  \<open>ra_frags\<close> abstracts a live set to a partial map from fragment index to payload. Storing a
  fragment is a map update, a set is complete when the map is total on its indices, and what is
  delivered is the concatenation in index order.
\<close>

section \<open>State (reassembly.h)\<close>

record Reassembler =
  ra_counters :: "Counters option"
  ra_timeout_ms :: u32
  ra_active :: bool
  ra_complete :: bool
  ra_start_ms :: u32
  ra_src :: NodeId
  ra_ctx_id :: CtxId
  ra_seq :: Seq
  ra_schema :: SchemaId
  ra_type :: MsgType
  ra_total :: u8
  ra_got_mask :: u16
  ra_stage :: bytes
  ra_stage_used :: nat
  ra_set_len :: nat
  ra_frag_off :: "nat list"
  ra_frag_len :: "nat list"
  ra_out :: bytes
  ra_out_len :: nat
  ra_have_last :: bool
  ra_last_src :: NodeId
  ra_last_ctx_id :: CtxId
  ra_last_seq :: Seq
  ra_last_schema :: SchemaId
  ra_last_type :: MsgType

definition Reassembler_new :: "Counters option \<Rightarrow> bytes \<Rightarrow> bytes \<Rightarrow> Reassembler" where
  "Reassembler_new c stage out =
     \<lparr>ra_counters = c, ra_timeout_ms = kDefaultFragTimeoutMs, ra_active = False,
      ra_complete = False, ra_start_ms = 0, ra_src = 0, ra_ctx_id = 0, ra_seq = 0,
      ra_schema = kSchemaNone, ra_type = MT_Poll, ra_total = 0, ra_got_mask = 0,
      ra_stage = stage, ra_stage_used = 0, ra_set_len = 0,
      ra_frag_off = replicate kMaxFragments 0, ra_frag_len = replicate kMaxFragments 0,
      ra_out = out, ra_out_len = 0, ra_have_last = False, ra_last_src = 0, ra_last_ctx_id = 0,
      ra_last_seq = 0, ra_last_schema = kSchemaNone, ra_last_type = MT_Poll\<rparr>"

section \<open>Operations (reassembly.cpp)\<close>

definition ra_count :: "Status \<Rightarrow> Reassembler \<Rightarrow> Reassembler" where
  "ra_count s r = r\<lparr>ra_counters := count_in (ra_counters r) s\<rparr>"

definition ra_set_timeout_ms :: "u32 \<Rightarrow> Reassembler \<Rightarrow> Reassembler" where
  "ra_set_timeout_ms ms r = r\<lparr>ra_timeout_ms := ms\<rparr>"

definition ra_reset :: "Reassembler \<Rightarrow> Reassembler" where
  "ra_reset r = r\<lparr>ra_active := False, ra_complete := False, ra_got_mask := 0, ra_stage_used := 0,
     ra_set_len := 0, ra_out_len := 0, ra_total := 0\<rparr>"

definition ra_forget_completed :: "Reassembler \<Rightarrow> Reassembler" where
  "ra_forget_completed r = r\<lparr>ra_have_last := False\<rparr>"

definition same_completed :: "Reassembler \<Rightarrow> Frame \<Rightarrow> bool" where
  "same_completed r f \<longleftrightarrow> ra_have_last r \<and> h_src (f_hdr f) = ra_last_src r \<and>
     h_ctx_id (f_hdr f) = ra_last_ctx_id r \<and> h_seq (f_hdr f) = ra_last_seq r \<and>
     h_schema (f_hdr f) = ra_last_schema r \<and> h_type (f_hdr f) = ra_last_type r"

definition same_set :: "Reassembler \<Rightarrow> Frame \<Rightarrow> bool" where
  "same_set r f \<longleftrightarrow> h_src (f_hdr f) = ra_src r \<and> h_ctx_id (f_hdr f) = ra_ctx_id r \<and>
     h_seq (f_hdr f) = ra_seq r \<and> h_schema (f_hdr f) = ra_schema r \<and> h_type (f_hdr f) = ra_type r"

definition ra_begin :: "Frame \<Rightarrow> u32 \<Rightarrow> Reassembler \<Rightarrow> Reassembler" where
  "ra_begin f now r =
     (ra_reset r)\<lparr>ra_active := True, ra_start_ms := now, ra_src := h_src (f_hdr f),
       ra_ctx_id := h_ctx_id (f_hdr f), ra_seq := h_seq (f_hdr f), ra_schema := h_schema (f_hdr f),
       ra_type := h_type (f_hdr f), ra_total := frag_total (f_hdr f)\<rparr>"

text \<open>The bytes of fragment \<open>i\<close> in the staging buffer.\<close>

definition ra_slice :: "Reassembler \<Rightarrow> nat \<Rightarrow> bytes" where
  "ra_slice r i = take (ra_frag_len r ! i) (drop (ra_frag_off r ! i) (ra_stage r))"

definition ra_assemble :: "Reassembler \<Rightarrow> Reassembler" where
  "ra_assemble r =
     (case foldl (\<lambda>(out, off) i. (blit out off (ra_slice r i), off + ra_frag_len r ! i))
             (ra_out r, 0) [0..<unat (ra_total r)] of
        (out, off) \<Rightarrow>
          r\<lparr>ra_out := out, ra_out_len := off, ra_complete := True, ra_active := False,
            ra_have_last := True, ra_last_src := ra_src r, ra_last_ctx_id := ra_ctx_id r,
            ra_last_seq := ra_seq r, ra_last_schema := ra_schema r, ra_last_type := ra_type r\<rparr>)"

definition ra_tick :: "u32 \<Rightarrow> Reassembler \<Rightarrow> Reassembler" where
  "ra_tick now r =
     (if \<not> ra_active r then r
      else if now - ra_start_ms r \<ge> ra_timeout_ms r
        then ra_reset (ra_count St_ReassemblyTimeout r)
      else r)"

text \<open>The tail of \<open>accept\<close>: append the fragment, and assemble when it was the last missing one.\<close>

definition ra_append :: "Frame \<Rightarrow> bytes \<Rightarrow> nat \<Rightarrow> Reassembler \<Rightarrow> Status \<times> Reassembler" where
  "ra_append f p old_len r =
     (let index = unat (frag_index (f_hdr f)) in
      if length p > kMaxPayloadPlain \<or> ra_stage_used r + length p > kMaxPayloadPlain
      then (St_FragmentOverflow, ra_reset (ra_count St_FragmentOverflow r))
      else let r = r\<lparr>ra_frag_off := (ra_frag_off r)[index := ra_stage_used r],
                     ra_frag_len := (ra_frag_len r)[index := length p],
                     ra_stage := blit (ra_stage r) (ra_stage_used r) p,
                     ra_stage_used := ra_stage_used r + length p,
                     ra_set_len := ra_set_len r - old_len + length p,
                     ra_got_mask := ra_got_mask r OR push_bit index 1\<rparr>;
               want_mask = push_bit (unat (ra_total r)) 1 - 1
        in (St_Ok, if ra_got_mask r = want_mask then ra_assemble r else r))"

text \<open>The part of \<open>accept\<close> after the slot has been settled: the frame belongs to the live set.\<close>

definition ra_store :: "Frame \<Rightarrow> bytes \<Rightarrow> Reassembler \<Rightarrow> Status \<times> Reassembler" where
  "ra_store f p r =
     (let h = f_hdr f; index = unat (frag_index h); cap = reassembly_cap (h_type h) in
      if frag_total h \<noteq> ra_total r
      then (St_FragmentOverflow, ra_reset (ra_count St_FragmentOverflow r))
      else let duplicate = (ra_got_mask r AND push_bit index 1 \<noteq> 0);
               old_len = (if duplicate then ra_frag_len r ! index else 0) in
        if ra_set_len r - old_len + length p > cap
        then (St_FragmentOverflow, ra_reset (ra_count St_FragmentOverflow r))
        else if duplicate then
          let r = r\<lparr>ra_counters := map_option (\<lambda>c. c\<lparr>rx_frag_duplicate := rx_frag_duplicate c + 1\<rparr>)
                                      (ra_counters r)\<rparr> in
          if length p = old_len
          then (St_Ok, r\<lparr>ra_stage := blit (ra_stage r) (ra_frag_off r ! index) p\<rparr>)
          else ra_append f p old_len r
        else ra_append f p old_len r)"

text \<open>
  The part of \<open>accept\<close> that makes room: a completed payload is released, a different live set is
  abandoned, and an empty slot begins the frame's set.
\<close>

definition ra_settle :: "Frame \<Rightarrow> u32 \<Rightarrow> Reassembler \<Rightarrow> Reassembler" where
  "ra_settle f now r =
     (let r = (if ra_complete r \<and> \<not> ra_active r then ra_reset r else r);
          r = (if ra_active r \<and> \<not> same_set r f
               then ra_reset (ra_count St_ReassemblyAbandoned r) else r)
      in if \<not> ra_active r then ra_begin f now r else r)"

definition ra_accept :: "Frame \<Rightarrow> u32 \<Rightarrow> Reassembler \<Rightarrow> Status \<times> Reassembler" where
  "ra_accept f now r =
     (case f_payload f of
        None \<Rightarrow> (St_BufferTooSmall, ra_count St_BufferTooSmall r)
      | Some p \<Rightarrow>
          let h = f_hdr f; total = frag_total h; index = frag_index h in
          if total = 0 then (St_BadFrag, ra_count St_BadFrag r)
          else if unat total > kMaxFragments \<or> index \<ge> total
            then (St_FragmentOverflow, ra_count St_FragmentOverflow r)
          else if total = 1 then
            if length p > kMaxPayloadPlain \<or> length p > reassembly_cap (h_type h)
            then (St_FragmentOverflow, ra_count St_FragmentOverflow r)
            else (St_Ok, r\<lparr>ra_out := blit (ra_out r) 0 p, ra_out_len := length p,
                           ra_complete := True\<rparr>)
          else let r = ra_tick now r in
            if \<not> type_is_fragmentable (h_type h)
            then (St_NotFragmentable, ra_count St_NotFragmentable r)
            else if frame_has_mac (h_type h) p \<and> \<not> f_mac_verified f
            then (St_RejectedMac, ra_count St_RejectedMac r)
            else if \<not> (ra_active r \<and> same_set r f) \<and> same_completed r f
            then (St_FragLate,
                  r\<lparr>ra_counters := map_option (\<lambda>c. c\<lparr>rx_frag_late := rx_frag_late c + 1\<rparr>)
                                     (ra_counters r)\<rparr>)
            else ra_store f p (ra_settle f now r))"

text \<open>What the caller reads: \<open>data()\<close> up to \<open>len()\<close>.\<close>

definition ra_data :: "Reassembler \<Rightarrow> bytes" where
  "ra_data r = take (ra_out_len r) (ra_out r)"

section \<open>The arrival mask\<close>

definition ra_got :: "Reassembler \<Rightarrow> nat \<Rightarrow> bool" where
  "ra_got r i \<longleftrightarrow> bit (ra_got_mask r) i"

lemma bit_single: "bit (2 ^ i :: u16) j \<longleftrightarrow> j = i \<and> i < 16"
  by (auto simp: bit_exp_iff possible_bit_def)

lemma mask_test: "i < 16 \<Longrightarrow> m AND 2 ^ i \<noteq> 0 \<longleftrightarrow> bit m i" for m :: u16
  by (simp only: word_eq_0_bits bit_and_iff bit_single) auto

lemma mask_set: "i < 16 \<Longrightarrow> bit (m OR 2 ^ i) j \<longleftrightarrow> bit m j \<or> j = i" for m :: u16
  by (simp only: bit_or_iff bit_single) auto

lemma mask_full: "n < 16 \<Longrightarrow> m = 2 ^ n - 1 \<longleftrightarrow> (\<forall>i. bit m i \<longleftrightarrow> i < n)" for m :: u16
proof -
  assume "n < 16"
  have "2 ^ n - 1 = (mask n :: u16)"
    by (simp add: mask_eq_exp_minus_1)
  moreover have "bit (mask n :: u16) i \<longleftrightarrow> i < n" for i
    using \<open>n < 16\<close> by (auto simp: bit_mask_iff possible_bit_def)
  ultimately show ?thesis
    by (auto intro: bit_word_eqI)
qed

section \<open>Invariant and abstraction\<close>

definition ra_frags :: "Reassembler \<Rightarrow> nat \<rightharpoonup> bytes" where
  "ra_frags r i = (if ra_got r i then Some (ra_slice r i) else None)"

definition ra_arrived :: "Reassembler \<Rightarrow> nat set" where
  "ra_arrived r = {i. ra_got r i}"

definition ra_staged :: "Reassembler \<Rightarrow> bool" where
  "ra_staged r \<longleftrightarrow> 1 < unat (ra_total r) \<and> unat (ra_total r) \<le> kMaxFragments \<and>
     type_is_fragmentable (ra_type r) \<and>
     ra_arrived r \<subseteq> {..<unat (ra_total r)} \<and>
     ra_stage_used r \<le> kMaxPayloadPlain \<and>
     (\<forall>i \<in> ra_arrived r. ra_frag_off r ! i + ra_frag_len r ! i \<le> ra_stage_used r) \<and>
     (\<forall>i \<in> ra_arrived r. \<forall>j \<in> ra_arrived r. i \<noteq> j \<longrightarrow>
        ra_frag_off r ! i + ra_frag_len r ! i \<le> ra_frag_off r ! j \<or>
        ra_frag_off r ! j + ra_frag_len r ! j \<le> ra_frag_off r ! i) \<and>
     ra_set_len r = (\<Sum>i \<in> ra_arrived r. ra_frag_len r ! i) \<and>
     ra_set_len r \<le> reassembly_cap (ra_type r)"

definition ra_sizes :: "Reassembler \<Rightarrow> bool" where
  "ra_sizes r \<longleftrightarrow> length (ra_stage r) = kMaxPayloadPlain \<and> length (ra_out r) = kMaxPayloadPlain \<and>
     length (ra_frag_off r) = kMaxFragments \<and> length (ra_frag_len r) = kMaxFragments \<and>
     ra_out_len r \<le> kMaxPayloadPlain"

definition ra_inv :: "Reassembler \<Rightarrow> bool" where
  "ra_inv r \<longleftrightarrow> ra_sizes r \<and>
     (ra_active r \<longrightarrow> ra_staged r \<and> ra_arrived r \<noteq> {..<unat (ra_total r)})"

lemma ra_arrived_finite [simp]: "ra_staged r \<Longrightarrow> finite (ra_arrived r)"
  by (auto simp: ra_staged_def dest: finite_subset)

lemma ra_stagedD:
  assumes "ra_staged r"
  shows "1 < unat (ra_total r)" "unat (ra_total r) \<le> kMaxFragments"
    "type_is_fragmentable (ra_type r)" "ra_arrived r \<subseteq> {..<unat (ra_total r)}"
    "ra_stage_used r \<le> kMaxPayloadPlain"
    "ra_set_len r = (\<Sum>i \<in> ra_arrived r. ra_frag_len r ! i)"
    "ra_set_len r \<le> reassembly_cap (ra_type r)"
    "i \<in> ra_arrived r \<Longrightarrow> ra_frag_off r ! i + ra_frag_len r ! i \<le> ra_stage_used r"
    "i \<in> ra_arrived r \<Longrightarrow> j \<in> ra_arrived r \<Longrightarrow> i \<noteq> j \<Longrightarrow>
       ra_frag_off r ! i + ra_frag_len r ! i \<le> ra_frag_off r ! j \<or>
       ra_frag_off r ! j + ra_frag_len r ! j \<le> ra_frag_off r ! i"
  using assms unfolding ra_staged_def by blast+

lemma length_ra_slice:
  "ra_sizes r \<Longrightarrow> ra_staged r \<Longrightarrow> i \<in> ra_arrived r \<Longrightarrow> length (ra_slice r i) = ra_frag_len r ! i"
proof -
  assume a: "ra_sizes r" "ra_staged r" "i \<in> ra_arrived r"
  then have "ra_frag_off r ! i + ra_frag_len r ! i \<le> ra_stage_used r"
    "ra_stage_used r \<le> length (ra_stage r)"
    by (simp_all add: ra_staged_def ra_sizes_def)
  then show ?thesis by (simp add: ra_slice_def)
qed

lemma ra_frags_dom: "dom (ra_frags r) = ra_arrived r"
  by (auto simp: ra_frags_def ra_arrived_def split: if_splits)

lemma ra_fields_count [simp]:
  "ra_active (ra_count s r) = ra_active r" "ra_sizes (ra_count s r) = ra_sizes r"
  "ra_staged (ra_count s r) = ra_staged r" "ra_arrived (ra_count s r) = ra_arrived r"
  "ra_total (ra_count s r) = ra_total r" "ra_inv (ra_count s r) = ra_inv r"
  "ra_frags (ra_count s r) = ra_frags r"
  by (simp_all add: ra_count_def ra_sizes_def ra_staged_def ra_arrived_def ra_got_def ra_inv_def
      ra_frags_def ra_slice_def fun_eq_iff)

lemma ra_fields_counters [simp]:
  "ra_inv (q\<lparr>ra_counters := c\<rparr>) = ra_inv q"
  by (simp add: ra_inv_def ra_sizes_def ra_staged_def ra_arrived_def ra_got_def)

lemma ra_fields_ctl [simp]:
  "ra_inv (ra_forget_completed q) = ra_inv q" "ra_inv (ra_set_timeout_ms ms q) = ra_inv q"
  by (simp_all add: ra_forget_completed_def ra_set_timeout_ms_def ra_inv_def ra_sizes_def ra_staged_def
      ra_arrived_def ra_got_def)

lemma ra_fields_out [simp]:
  "ra_staged (q\<lparr>ra_out := x, ra_out_len := n, ra_complete := c\<rparr>) = ra_staged q"
  "ra_arrived (q\<lparr>ra_out := x, ra_out_len := n, ra_complete := c\<rparr>) = ra_arrived q"
  by (simp_all add: ra_staged_def ra_arrived_def ra_got_def)

lemma ra_reset_inv [simp]: "ra_sizes r \<Longrightarrow> ra_inv (ra_reset r)"
  by (simp add: ra_inv_def ra_reset_def ra_sizes_def)

lemma ra_tick_inv: "ra_inv r \<Longrightarrow> ra_inv (ra_tick now r)"
  by (auto simp: ra_tick_def ra_inv_def [of r] intro!: ra_reset_inv)

section \<open>Storing a fragment\<close>

text \<open>The state right after the stores of \<open>ra_append\<close>.\<close>

definition ra_put :: "nat \<Rightarrow> bytes \<Rightarrow> nat \<Rightarrow> Reassembler \<Rightarrow> Reassembler" where
  "ra_put i p old_len r =
     r\<lparr>ra_frag_off := (ra_frag_off r)[i := ra_stage_used r],
       ra_frag_len := (ra_frag_len r)[i := length p],
       ra_stage := blit (ra_stage r) (ra_stage_used r) p,
       ra_stage_used := ra_stage_used r + length p,
       ra_set_len := ra_set_len r - old_len + length p,
       ra_got_mask := ra_got_mask r OR push_bit i 1\<rparr>"

lemma arrived_put: "i < 16 \<Longrightarrow> ra_arrived (ra_put i p n r) = insert i (ra_arrived r)"
  by (auto simp: ra_arrived_def ra_got_def ra_put_def mask_set)

lemma take_drop_append_outside:
  "off + n \<le> k \<Longrightarrow> k \<le> length xs \<Longrightarrow> take n (drop off (take k xs @ ys)) = take n (drop off xs)"
proof -
  assume le: "off + n \<le> k" "k \<le> length xs"
  then have "drop off (take k xs @ ys) = take (k - off) (drop off xs) @ ys"
    by (simp add: drop_take)
  with le show ?thesis by simp
qed

lemma slice_put:
  assumes "ra_sizes r" "ra_staged r" "i < kMaxFragments" "ra_stage_used r + length p \<le> kMaxPayloadPlain"
  shows "ra_slice (ra_put i p n r) i = p"
    and "j \<in> ra_arrived r \<Longrightarrow> j \<noteq> i \<Longrightarrow> ra_slice (ra_put i p n r) j = ra_slice r j"
proof -
  have st: "blit (ra_stage r) (ra_stage_used r) p =
      take (ra_stage_used r) (ra_stage r) @ p @ drop (ra_stage_used r + length p) (ra_stage r)"
    using assms by (simp add: blit_eq ra_sizes_def)
  then show "ra_slice (ra_put i p n r) i = p"
    using assms by (simp add: ra_slice_def ra_put_def ra_sizes_def)
  assume j: "j \<in> ra_arrived r" "j \<noteq> i"
  then have "ra_frag_off r ! j + ra_frag_len r ! j \<le> ra_stage_used r"
    using assms by (simp add: ra_staged_def)
  with j assms show "ra_slice (ra_put i p n r) j = ra_slice r j"
    by (simp add: ra_slice_def ra_put_def st ra_sizes_def drop_take)
qed

lemma frags_put:
  assumes "ra_sizes r" "ra_staged r" "i < kMaxFragments" "ra_stage_used r + length p \<le> kMaxPayloadPlain"
  shows "ra_frags (ra_put i p n r) = (ra_frags r)(i \<mapsto> p)"
proof
  fix j
  have "ra_got (ra_put i p n r) j \<longleftrightarrow> ra_got r j \<or> j = i"
    using assms(3) by (simp add: ra_got_def ra_put_def mask_set)
  with slice_put [OF assms] show "ra_frags (ra_put i p n r) j = ((ra_frags r)(i \<mapsto> p)) j"
    by (auto simp: ra_frags_def ra_arrived_def)
qed

lemma staged_put:
  assumes sz: "ra_sizes r" and st: "ra_staged r" and i: "i < unat (ra_total r)"
    and room: "ra_stage_used r + length p \<le> kMaxPayloadPlain"
    and old: "old = (if i \<in> ra_arrived r then ra_frag_len r ! i else 0)"
    and cap: "ra_set_len r - old + length p \<le> reassembly_cap (ra_type r)"
  shows "ra_staged (ra_put i p old r)" "ra_sizes (ra_put i p old r)"
proof -
  have n: "unat (ra_total r) \<le> kMaxFragments" and i16: "i < 16" and i15: "i < kMaxFragments"
    using st i by (auto simp: ra_staged_def)
  let ?r = "ra_put i p old r" and ?A = "ra_arrived r"
  have A: "ra_arrived ?r = insert i ?A" by (rule arrived_put [OF i16])
  show "ra_sizes ?r" using sz by (simp add: ra_sizes_def ra_put_def)
  have off: "ra_frag_off ?r ! j = (if j = i then ra_stage_used r else ra_frag_off r ! j)"
    and len: "ra_frag_len ?r ! j = (if j = i then length p else ra_frag_len r ! j)" for j
    using sz i15 by (simp_all add: ra_put_def ra_sizes_def nth_list_update)
  have used: "ra_stage_used ?r = ra_stage_used r + length p" by (simp add: ra_put_def)
  have set_len: "ra_set_len ?r = ra_set_len r - old + length p" by (simp add: ra_put_def)
  have fin: "finite ?A" using st by simp
  have "(\<Sum>j \<in> insert i ?A. ra_frag_len ?r ! j) = length p + (\<Sum>j \<in> ?A - {i}. ra_frag_len r ! j)"
    using fin by (simp add: sum.insert_remove len)
  also have "(\<Sum>j \<in> ?A - {i}. ra_frag_len r ! j) = ra_set_len r - old"
    unfolding old ra_stagedD(6) [OF st] using fin by (simp add: sum_diff1_nat)
  finally have sum: "ra_set_len ?r = (\<Sum>j \<in> ra_arrived ?r. ra_frag_len ?r ! j)"
    unfolding A using set_len by simp
  have before: "ra_frag_off r ! j + ra_frag_len r ! j \<le> ra_stage_used r" if "j \<in> ?A" for j
    by (rule ra_stagedD(8) [OF st that])
  show "ra_staged ?r"
    unfolding ra_staged_def
  proof (intro conjI)
    show "\<forall>j \<in> ra_arrived ?r. ra_frag_off ?r ! j + ra_frag_len ?r ! j \<le> ra_stage_used ?r"
      unfolding A used using before by (auto simp: off len intro: trans_le_add1)
    show "\<forall>j \<in> ra_arrived ?r. \<forall>k \<in> ra_arrived ?r. j \<noteq> k \<longrightarrow>
        ra_frag_off ?r ! j + ra_frag_len ?r ! j \<le> ra_frag_off ?r ! k \<or>
        ra_frag_off ?r ! k + ra_frag_len ?r ! k \<le> ra_frag_off ?r ! j"
      using before ra_stagedD(9) [OF st] by (auto simp: A off len)
    show "ra_arrived ?r \<subseteq> {..<unat (ra_total ?r)}"
      using ra_stagedD(4) [OF st] i unfolding A by (simp add: ra_put_def)
    show "ra_set_len ?r = (\<Sum>j \<in> ra_arrived ?r. ra_frag_len ?r ! j)" by (rule sum)
    show "ra_set_len ?r \<le> reassembly_cap (ra_type ?r)"
      unfolding set_len using cap by (simp add: ra_put_def)
    show "ra_stage_used ?r \<le> kMaxPayloadPlain"
      unfolding used by (rule room)
  qed (use ra_stagedD(1-3) [OF st] in \<open>simp_all add: ra_put_def\<close>)
qed

text \<open>An in-place overwrite of the same length replaces exactly one fragment.\<close>

lemma blit_slice_outside:
  "off + n \<le> pos \<or> pos + length p \<le> off \<Longrightarrow> pos + length p \<le> length xs \<Longrightarrow>
   take n (drop off (blit xs pos p)) = take n (drop off xs)"
proof (rule nth_equalityI)
  fix k
  assume a: "off + n \<le> pos \<or> pos + length p \<le> off"
    and k: "k < length (take n (drop off (blit xs pos p)))"
  then have "off + k < pos \<or> pos + length p \<le> off + k" by auto
  then have "blit xs pos p ! (off + k) = xs ! (off + k)" by (rule blit_nth_outside)
  moreover have "off \<le> length xs" using k by auto
  ultimately show "take n (drop off (blit xs pos p)) ! k = take n (drop off xs) ! k"
    using k by simp
qed simp

definition ra_overwrite :: "nat \<Rightarrow> bytes \<Rightarrow> Reassembler \<Rightarrow> Reassembler" where
  "ra_overwrite i p r = r\<lparr>ra_stage := blit (ra_stage r) (ra_frag_off r ! i) p\<rparr>"

lemma frags_overwrite:
  assumes sz: "ra_sizes r" and st: "ra_staged r" and i: "i \<in> ra_arrived r"
    and len: "length p = ra_frag_len r ! i"
  shows "ra_frags (ra_overwrite i p r) = (ra_frags r)(i \<mapsto> p)"
proof
  fix j
  have room: "ra_frag_off r ! i + length p \<le> length (ra_stage r)"
    using sz ra_stagedD(5) [OF st] ra_stagedD(8) [OF st i] len by (simp add: ra_sizes_def)
  have sl: "ra_slice (ra_overwrite i p r) j =
      take (ra_frag_len r ! j) (drop (ra_frag_off r ! j) (blit (ra_stage r) (ra_frag_off r ! i) p))"
    by (simp add: ra_slice_def ra_overwrite_def)
  show "ra_frags (ra_overwrite i p r) j = ((ra_frags r)(i \<mapsto> p)) j"
  proof (cases "j = i")
    case True
    with i room len show ?thesis
      by (simp add: ra_frags_def ra_got_def ra_overwrite_def ra_slice_def blit_eq ra_arrived_def)
  next
    case False
    have "ra_slice (ra_overwrite i p r) j = ra_slice r j" if "j \<in> ra_arrived r"
      unfolding sl ra_slice_def [of r]
      by (rule blit_slice_outside [OF _ room]) (use ra_stagedD(9) [OF st i that] False len in auto)
    with False show ?thesis
      by (simp add: ra_frags_def ra_got_def ra_arrived_def) (simp add: ra_overwrite_def)
  qed
qed

lemma overwrite_fields [simp]:
  "ra_staged (ra_overwrite i p r) = ra_staged r" "ra_sizes (ra_overwrite i p r) = ra_sizes r"
  "ra_arrived (ra_overwrite i p r) = ra_arrived r" "ra_total (ra_overwrite i p r) = ra_total r"
  "ra_active (ra_overwrite i p r) = ra_active r"
  by (simp_all add: ra_overwrite_def ra_staged_def ra_sizes_def ra_arrived_def ra_got_def)

section \<open>Delivery\<close>

lemma assemble_loop:
  assumes "\<forall>i < n. length (sl i) = (len :: nat list) ! i" "length (concat (map sl [0..<n])) \<le> length out"
  shows "foldl (\<lambda>(out, off) i. (blit out off (sl i), off + len ! i)) (out, 0) [0..<n] =
    (concat (map sl [0..<n]) @ drop (length (concat (map sl [0..<n]))) out,
     length (concat (map sl [0..<n])))"
  using assms
proof (induction n)
  case (Suc n)
  let ?c = "concat (map sl [0..<n])"
  have "length ?c + length (sl n) \<le> length out" using Suc.prems(2) by simp
  then have "blit (?c @ drop (length ?c) out) (length ?c) (sl n) =
      (?c @ sl n) @ drop (length (?c @ sl n)) out"
    by (simp add: blit_eq add.commute)
  with Suc show ?case by simp
qed simp

lemma ra_assemble_delivers:
  assumes sz: "ra_sizes r" and st: "ra_staged r" and all: "ra_arrived r = {..<unat (ra_total r)}"
  shows "ra_data (ra_assemble r) = concat (map (ra_slice r) [0..<unat (ra_total r)])"
    and "ra_inv (ra_assemble r)" "ra_complete (ra_assemble r)" "\<not> ra_active (ra_assemble r)"
proof -
  let ?n = "unat (ra_total r)" and ?c = "concat (map (ra_slice r) [0..<unat (ra_total r)])"
  have sl: "\<forall>i < ?n. length (ra_slice r i) = ra_frag_len r ! i"
    using length_ra_slice [OF sz st] all by auto
  then have "length ?c = (\<Sum>i \<in> ra_arrived r. ra_frag_len r ! i)"
    by (auto simp: all length_concat comp_def interv_sum_list_conv_sum_set_nat atLeast0LessThan
        intro!: sum.cong)
  also have "\<dots> \<le> kMaxPayloadPlain"
    using ra_stagedD(6,7) [OF st] reassembly_cap_le [of "ra_type r"] by simp
  finally have len: "length ?c \<le> length (ra_out r)" "length ?c \<le> kMaxPayloadPlain"
    using sz by (simp_all add: ra_sizes_def)
  note asm = assemble_loop [OF sl len(1)]
  show "ra_data (ra_assemble r) = ?c"
    by (simp add: ra_data_def ra_assemble_def asm)
  show "ra_inv (ra_assemble r)"
    using sz len by (simp add: ra_inv_def ra_assemble_def asm ra_sizes_def)
  show "ra_complete (ra_assemble r)" "\<not> ra_active (ra_assemble r)"
    by (simp_all add: ra_assemble_def asm)
qed

section \<open>The abstract set\<close>

text \<open>
  The specification of one step on a live set of \<open>n\<close> fragments: the fragment is stored; the set
  is delivered when every index is there, and lives on otherwise.
\<close>

definition set_payload :: "nat \<Rightarrow> (nat \<rightharpoonup> bytes) \<Rightarrow> bytes" where
  "set_payload n m = concat (map (\<lambda>i. the (m i)) [0..<n])"

definition refines_store :: "nat \<Rightarrow> (nat \<rightharpoonup> bytes) \<Rightarrow> Reassembler \<Rightarrow> bool" where
  "refines_store n m r \<longleftrightarrow>
     (if dom m = {..<n} then \<not> ra_active r \<and> ra_complete r \<and> ra_data r = set_payload n m
      else ra_active r \<and> ra_frags r = m)"

definition key_of :: "Reassembler \<Rightarrow> NodeId \<times> CtxId \<times> Seq \<times> SchemaId \<times> MsgType \<times> u8 \<times> u32 \<times> u32" where
  "key_of r = (ra_src r, ra_ctx_id r, ra_seq r, ra_schema r, ra_type r, ra_total r, ra_start_ms r,
     ra_timeout_ms r)"

definition last_of :: "Reassembler \<Rightarrow> bool \<times> NodeId \<times> CtxId \<times> Seq \<times> SchemaId \<times> MsgType" where
  "last_of r = (ra_have_last r, ra_last_src r, ra_last_ctx_id r, ra_last_seq r, ra_last_schema r,
     ra_last_type r)"

definition last_after :: "Reassembler \<Rightarrow> Reassembler \<Rightarrow> bool" where
  "last_after r r' \<longleftrightarrow> last_of r' =
     (if ra_active r' then last_of r
      else (True, ra_src r, ra_ctx_id r, ra_seq r, ra_schema r, ra_type r))"

lemma ra_append_eq:
  assumes sz: "ra_sizes r" and st: "ra_staged r" and act: "ra_active r"
    and i: "i = unat (frag_index (f_hdr f))" "i < unat (ra_total r)"
    and room: "ra_stage_used r + length p \<le> kMaxPayloadPlain"
    and old: "old = (if i \<in> ra_arrived r then ra_frag_len r ! i else 0)"
    and cap: "ra_set_len r - old + length p \<le> reassembly_cap (ra_type r)"
  shows "\<exists>r'. ra_append f p old r = (St_Ok, r') \<and> ra_inv r' \<and> key_of r' = key_of r \<and>
    refines_store (unat (ra_total r)) ((ra_frags r)(i \<mapsto> p)) r' \<and> last_after r r'"
proof -
  let ?q = "ra_put i p old r" and ?n = "unat (ra_total r)"
  have n: "?n \<le> kMaxFragments" and i15: "i < kMaxFragments"
    using ra_stagedD(2) [OF st] i(2) by auto
  note q = staged_put [OF sz st i(2) room old cap]
  have frags: "ra_frags ?q = (ra_frags r)(i \<mapsto> p)" by (rule frags_put [OF sz st i15 room])
  have fields: "ra_total ?q = ra_total r" "ra_active ?q" "key_of ?q = key_of r" "last_after r ?q"
    using act by (simp_all add: ra_put_def key_of_def last_of_def last_after_def)
  have app: "ra_append f p old r =
      (St_Ok, if ra_got_mask ?q = 2 ^ ?n - 1 then ra_assemble ?q else ?q)"
    using room by (simp add: ra_append_def ra_put_def Let_def flip: i(1))
  have full: "ra_got_mask ?q = 2 ^ ?n - 1 \<longleftrightarrow> ra_arrived ?q = {..<?n}"
    using mask_full [of ?n "ra_got_mask ?q"] n by (auto simp: ra_arrived_def ra_got_def)
  have dom: "dom ((ra_frags r)(i \<mapsto> p)) = ra_arrived ?q"
    by (metis frags ra_frags_dom)
  show ?thesis
  proof (cases "ra_arrived ?q = {..<?n}")
    case True
    with q fields have d: "ra_data (ra_assemble ?q) = concat (map (ra_slice ?q) [0..<?n])"
      "ra_inv (ra_assemble ?q)" "ra_complete (ra_assemble ?q)" "\<not> ra_active (ra_assemble ?q)"
      using ra_assemble_delivers [of ?q] by simp_all
    have "the (((ra_frags r)(i \<mapsto> p)) j) = ra_slice ?q j" if "j < ?n" for j
      using True that by (simp add: ra_arrived_def ra_frags_def flip: frags) auto
    then have "set_payload ?n ((ra_frags r)(i \<mapsto> p)) = concat (map (ra_slice ?q) [0..<?n])"
      unfolding set_payload_def by (metis (mono_tags, lifting) atLeastLessThan_iff map_eq_conv set_upt)
    moreover have "key_of (ra_assemble ?q) = key_of ?q" "last_after r (ra_assemble ?q)"
      by (simp_all add: ra_assemble_def key_of_def last_after_def last_of_def ra_put_def
          split: prod.split)
    ultimately show ?thesis
      using True d fields dom by (simp add: app full refines_store_def)
  next
    case False
    with q fields frags dom show ?thesis
      by (simp add: app full refines_store_def ra_inv_def)
  qed
qed

section \<open>One step on a live set\<close>

definition ra_tight :: "Reassembler \<Rightarrow> bool" where
  "ra_tight r \<longleftrightarrow> ra_stage_used r = ra_set_len r"

definition bump_dup :: "Reassembler \<Rightarrow> Reassembler" where
  "bump_dup r = r\<lparr>ra_counters := map_option (\<lambda>c. c\<lparr>rx_frag_duplicate := rx_frag_duplicate c + 1\<rparr>)
     (ra_counters r)\<rparr>"

lemma bump_dup_fields [simp]:
  "ra_sizes (bump_dup r) = ra_sizes r" "ra_staged (bump_dup r) = ra_staged r"
  "ra_arrived (bump_dup r) = ra_arrived r" "ra_active (bump_dup r) = ra_active r"
  "ra_frags (bump_dup r) = ra_frags r" "key_of (bump_dup r) = key_of r"
  "last_after (bump_dup r) = last_after r" "ra_total (bump_dup r) = ra_total r"
  "ra_type (bump_dup r) = ra_type r" "ra_set_len (bump_dup r) = ra_set_len r"
  "ra_stage_used (bump_dup r) = ra_stage_used r" "ra_frag_len (bump_dup r) = ra_frag_len r"
  "ra_frag_off (bump_dup r) = ra_frag_off r" "ra_stage (bump_dup r) = ra_stage r"
  by (simp_all add: bump_dup_def ra_sizes_def ra_staged_def ra_arrived_def ra_got_def ra_frags_def
      ra_slice_def key_of_def last_after_def last_of_def fun_eq_iff)

definition overflowed :: "Status \<times> Reassembler \<Rightarrow> bool" where
  "overflowed x \<longleftrightarrow> fst x = St_FragmentOverflow \<and> ra_inv (snd x) \<and> \<not> ra_active (snd x) \<and>
     \<not> ra_complete (snd x)"

lemma overflowed_reset: "ra_sizes r \<Longrightarrow> overflowed (St_FragmentOverflow, ra_reset (ra_count s r))"
  by (simp add: overflowed_def) (simp add: ra_reset_def)

lemma ra_store_step:
  assumes inv: "ra_inv r" "ra_active r" and tot: "frag_total (f_hdr f) = ra_total r"
    and ty: "h_type (f_hdr f) = ra_type r"
    and i: "i = unat (frag_index (f_hdr f))" "i < unat (ra_total r)"
  shows "overflowed (ra_store f p r) \<or>
    (\<exists>r'. ra_store f p r = (St_Ok, r') \<and> ra_inv r' \<and> key_of r' = key_of r \<and>
       refines_store (unat (ra_total r)) ((ra_frags r)(i \<mapsto> p)) r' \<and>
       last_after r r')"
proof -
  have sz: "ra_sizes r" and st: "ra_staged r" and part: "ra_arrived r \<noteq> {..<unat (ra_total r)}"
    using inv by (simp_all add: ra_inv_def)
  have i16: "i < 16" using ra_stagedD(2) [OF st] i(2) by simp
  let ?dup = "i \<in> ra_arrived r" and ?old = "if i \<in> ra_arrived r then ra_frag_len r ! i else 0"
  have dup: "ra_got_mask r AND 2 ^ i \<noteq> 0 \<longleftrightarrow> ?dup"
    using mask_test [OF i16] by (simp add: ra_arrived_def ra_got_def)
  let ?d = "if ?dup then bump_dup r else r"
  have d: "ra_sizes ?d" "ra_staged ?d" "ra_active ?d" "ra_total ?d = ra_total r" "key_of ?d = key_of r"
    "ra_arrived ?d = ra_arrived r" "ra_frags ?d = ra_frags r" "last_after ?d = last_after r"
    "ra_set_len ?d = ra_set_len r" "ra_type ?d = ra_type r" "ra_stage_used ?d = ra_stage_used r"
    "ra_frag_len ?d = ra_frag_len r"
    using sz st inv by simp_all
  have eq: "ra_store f p r =
      (if ra_set_len r - ?old + length p > reassembly_cap (ra_type r)
       then (St_FragmentOverflow, ra_reset (ra_count St_FragmentOverflow r))
       else if ?dup \<and> length p = ?old then (St_Ok, ra_overwrite i p (bump_dup r))
       else ra_append f p ?old ?d)"
    by (simp add: ra_store_def Let_def tot ty dup bump_dup_def ra_overwrite_def flip: i(1))
  consider (over) "ra_set_len r - ?old + length p > reassembly_cap (ra_type r)"
    | (same) "ra_set_len r - ?old + length p \<le> reassembly_cap (ra_type r)" "?dup" "length p = ?old"
    | (app) "ra_set_len r - ?old + length p \<le> reassembly_cap (ra_type r)" "\<not> (?dup \<and> length p = ?old)"
    by linarith
  then show ?thesis
  proof cases
    case over
    then show ?thesis using overflowed_reset [OF sz] by (simp add: eq)
  next
    case same
    let ?r = "ra_overwrite i p (bump_dup r)"
    have "ra_frags ?r = (ra_frags r)(i \<mapsto> p)"
      using frags_overwrite [of "bump_dup r" i p] sz st same by simp
    moreover have "dom (ra_frags ?r) = ra_arrived r" by (simp add: ra_frags_dom)
    moreover have "key_of ?r = key_of r" "last_after r ?r"
      using inv by (simp_all add: ra_overwrite_def key_of_def last_after_def last_of_def bump_dup_def)
    ultimately show ?thesis
      using same sz st inv part by (simp add: eq refines_store_def ra_inv_def)
  next
    case app
    show ?thesis
    proof (cases "ra_stage_used r + length p \<le> kMaxPayloadPlain")
      case True
      have "\<exists>r'. ra_append f p ?old ?d = (St_Ok, r') \<and> ra_inv r' \<and> key_of r' = key_of ?d \<and>
          refines_store (unat (ra_total ?d)) ((ra_frags ?d)(i \<mapsto> p)) r' \<and>
          last_after ?d r'"
        by (rule ra_append_eq [OF d(1-3) i(1)]) (simp_all only: d i(2) True app(1))
      moreover have "ra_store f p r = ra_append f p ?old ?d"
        unfolding eq using app by auto
      ultimately show ?thesis by (simp only: d simp_thms)
    next
      case False
      then have "ra_append f p ?old ?d =
          (St_FragmentOverflow, ra_reset (ra_count St_FragmentOverflow ?d))"
        using d(11) by (simp add: ra_append_def)
      moreover have "ra_store f p r = ra_append f p ?old ?d"
        unfolding eq using app by auto
      ultimately show ?thesis using overflowed_reset [OF d(1)] by simp
    qed
  qed
qed

text \<open>A set without dead space never overflows while its fragments fit the cap.\<close>

lemma ra_store_fits:
  assumes inv: "ra_inv r" "ra_active r" and tot: "frag_total (f_hdr f) = ra_total r"
    and ty: "h_type (f_hdr f) = ra_type r"
    and i: "i = unat (frag_index (f_hdr f))" "i < unat (ra_total r)"
    and tight: "ra_tight r" and len: "\<And>q. ra_frags r i = Some q \<Longrightarrow> length q = length p"
    and cap: "i \<notin> ra_arrived r \<Longrightarrow> ra_set_len r + length p \<le> reassembly_cap (ra_type r)"
  shows "fst (ra_store f p r) = St_Ok \<and>
    (ra_active (snd (ra_store f p r)) \<longrightarrow> ra_tight (snd (ra_store f p r)) \<and>
       ra_set_len (snd (ra_store f p r)) = ra_set_len r + (if i \<in> ra_arrived r then 0 else length p))"
proof -
  have sz: "ra_sizes r" and st: "ra_staged r" using inv by (simp_all add: ra_inv_def)
  have i16: "i < 16" using ra_stagedD(2) [OF st] i(2) by simp
  have dup: "ra_got_mask r AND 2 ^ i \<noteq> 0 \<longleftrightarrow> i \<in> ra_arrived r"
    using mask_test [OF i16] by (simp add: ra_arrived_def ra_got_def)
  have plain: "reassembly_cap (ra_type r) \<le> kMaxPayloadPlain" by (rule reassembly_cap_le)
  show ?thesis
  proof (cases "i \<in> ra_arrived r")
    case True
    then have "length p = ra_frag_len r ! i"
      using len [of "ra_slice r i"] length_ra_slice [OF sz st True]
      by (simp add: ra_frags_def ra_arrived_def)
    moreover have "ra_frag_len r ! i \<le> ra_set_len r"
      using ra_stagedD(6) [OF st] True st by (simp add: member_le_sum)
    moreover note ra_stagedD(7) [OF st]
    ultimately show ?thesis
      using True tight by (simp add: ra_store_def Let_def tot ty dup ra_tight_def flip: i(1))
  next
    case False
    with cap have c: "ra_set_len r + length p \<le> reassembly_cap (ra_type r)" by simp
    then have "\<not> (length p > kMaxPayloadPlain \<or> ra_stage_used r + length p > kMaxPayloadPlain)"
      using plain tight by (simp add: ra_tight_def)
    with False c tight show ?thesis
      by (simp add: ra_store_def ra_append_def Let_def tot ty dup ra_tight_def flip: i(1))
        (simp add: ra_assemble_def split: prod.split)
  qed
qed

section \<open>Settling the slot\<close>

definition is_fragment :: "Frame \<Rightarrow> bool" where
  "is_fragment f \<longleftrightarrow> 1 < unat (frag_total (f_hdr f)) \<and> unat (frag_total (f_hdr f)) \<le> kMaxFragments \<and>
     frag_index (f_hdr f) < frag_total (f_hdr f) \<and> type_is_fragmentable (h_type (f_hdr f))"

definition begun :: "Frame \<Rightarrow> u32 \<Rightarrow> Reassembler \<Rightarrow> bool" where
  "begun f now r \<longleftrightarrow> ra_frags r = Map.empty \<and> ra_total r = frag_total (f_hdr f) \<and>
     ra_start_ms r = now \<and> ra_set_len r = 0 \<and> ra_tight r"

lemma ra_begin_begun:
  assumes "ra_sizes r" "is_fragment f"
  shows "ra_inv (ra_begin f now r)" "ra_active (ra_begin f now r)" "same_set (ra_begin f now r) f"
    "begun f now (ra_begin f now r)"
proof -
  have a: "ra_arrived (ra_begin f now r) = {}"
    by (simp add: ra_arrived_def ra_got_def ra_begin_def ra_reset_def)
  show "ra_active (ra_begin f now r)" "same_set (ra_begin f now r) f"
    by (simp_all add: ra_begin_def same_set_def)
  have "ra_staged (ra_begin f now r)"
    using assms unfolding ra_staged_def a by (simp add: ra_begin_def ra_reset_def is_fragment_def)
  moreover have "0 < unat (ra_total (ra_begin f now r))"
    using assms by (simp add: is_fragment_def ra_begin_def)
  ultimately show "ra_inv (ra_begin f now r)"
    using assms unfolding ra_inv_def a by (auto simp: ra_sizes_def ra_begin_def ra_reset_def)
  show "begun f now (ra_begin f now r)"
    using a by (simp add: begun_def ra_frags_def fun_eq_iff ra_arrived_def)
      (simp add: ra_begin_def ra_reset_def ra_tight_def)
qed

lemma ra_settle_cases:
  assumes "ra_inv r" "is_fragment f"
  shows "ra_inv (ra_settle f now r) \<and> ra_active (ra_settle f now r) \<and> same_set (ra_settle f now r) f \<and>
    (if ra_active r \<and> same_set r f then ra_settle f now r = r else begun f now (ra_settle f now r))"
proof (cases "ra_active r \<and> same_set r f")
  case True
  with assms(1) show ?thesis by (simp add: ra_settle_def)
next
  case False
  have sz: "ra_sizes r" using assms(1) by (simp add: ra_inv_def)
  obtain r' where r': "ra_settle f now r = ra_begin f now r'" "ra_sizes r'"
  proof
    show "ra_settle f now r = ra_begin f now
        (if ra_active r then ra_reset (ra_count St_ReassemblyAbandoned r)
         else if ra_complete r then ra_reset r else r)"
      using False by (auto simp: ra_settle_def Let_def) (auto simp: ra_reset_def)
    show "ra_sizes (if ra_active r then ra_reset (ra_count St_ReassemblyAbandoned r)
         else if ra_complete r then ra_reset r else r)"
      using sz by (simp add: ra_sizes_def ra_reset_def ra_count_def)
  qed
  from ra_begin_begun [OF r'(2) assms(2)] False show ?thesis
    by (auto simp: r'(1))
qed

text \<open>What is left of \<open>ra_accept\<close> for an authenticated fragment.\<close>

definition verified :: "Frame \<Rightarrow> bytes \<Rightarrow> bool" where
  "verified f p \<longleftrightarrow> (frame_has_mac (h_type (f_hdr f)) p \<longrightarrow> f_mac_verified f)"

definition is_late :: "Reassembler \<Rightarrow> Frame \<Rightarrow> bool" where
  "is_late r f \<longleftrightarrow> \<not> (ra_active r \<and> same_set r f) \<and> same_completed r f"

lemma ra_accept_fragment:
  assumes "f_payload f = Some p" "is_fragment f"
  shows "ra_accept f now r =
    (if \<not> verified f p then (St_RejectedMac, ra_count St_RejectedMac (ra_tick now r))
     else if is_late (ra_tick now r) f
     then (St_FragLate, (ra_tick now r)\<lparr>ra_counters :=
             map_option (\<lambda>c. c\<lparr>rx_frag_late := rx_frag_late c + 1\<rparr>) (ra_counters (ra_tick now r))\<rparr>)
     else ra_store f p (ra_settle f now (ra_tick now r)))"
proof -
  have "frag_total (f_hdr f) \<noteq> 0" "frag_total (f_hdr f) \<noteq> 1"
    "\<not> (kMaxFragments < unat (frag_total (f_hdr f)) \<or> frag_total (f_hdr f) \<le> frag_index (f_hdr f))"
    using assms(2) by (auto simp: is_fragment_def)
  with assms show ?thesis
    by (simp add: ra_accept_def Let_def verified_def is_late_def is_fragment_def del: not_le)
qed

lemma store_index:
  assumes "is_fragment f"
  shows "unat (frag_index (f_hdr f)) < unat (frag_total (f_hdr f))"
  using assms by (simp add: is_fragment_def word_less_nat_alt)

lemma ra_store_inv:
  assumes "ra_inv r" "ra_active r" "is_fragment f" "same_set r f"
  shows "ra_inv (snd (ra_store f p r))"
proof (cases "frag_total (f_hdr f) = ra_total r")
  case True
  have "h_type (f_hdr f) = ra_type r" using assms(4) by (simp add: same_set_def)
  moreover have "unat (frag_index (f_hdr f)) < unat (ra_total r)"
    using store_index [OF assms(3)] True by simp
  ultimately show ?thesis
    using ra_store_step [OF assms(1,2) True _ refl, of p] by (auto simp: overflowed_def)
next
  case False
  with assms(1) show ?thesis by (simp add: ra_store_def Let_def ra_inv_def [of r])
qed

lemma ra_accept_inv:
  assumes "ra_inv r"
  shows "ra_inv (snd (ra_accept f now r))"
proof (cases "f_payload f")
  case None
  then show ?thesis using assms by (simp add: ra_accept_def)
next
  case (Some p)
  note t = ra_tick_inv [OF assms, of now]
  show ?thesis
  proof (cases "is_fragment f")
    case True
    from True t ra_settle_cases [OF t True, of now] ra_store_inv [OF _ _ True] show ?thesis
      unfolding ra_accept_fragment [OF Some True] by auto
  next
    case False
    let ?tot = "frag_total (f_hdr f)"
    consider "?tot = 0" | "?tot = 1" | "1 < unat ?tot"
      using word_eq_1_iff [of ?tot] by (auto simp: word_less_nat_alt)
    then show ?thesis
    proof cases
      case 2
      have "ra_inv (r\<lparr>ra_out := blit (ra_out r) 0 p, ra_out_len := length p, ra_complete := True\<rparr>)"
        if "length p \<le> kMaxPayloadPlain"
        using assms that by (simp add: ra_inv_def ra_sizes_def)
      with 2 Some assms show ?thesis by (auto simp: ra_accept_def Let_def)
    next
      case 3
      with False Some assms t show ?thesis by (auto simp: ra_accept_def Let_def is_fragment_def)
    qed (use Some assms in \<open>simp add: ra_accept_def Let_def\<close>)
  qed
qed

section \<open>Splitting and joining\<close>

text \<open>The chunk \<open>encode_fragment\<close> puts into fragment \<open>i\<close>.\<close>

definition chunk_of :: "bytes \<Rightarrow> nat \<Rightarrow> nat \<Rightarrow> bytes" where
  "chunk_of p c i =
     (let off = i * c; here = (if length p - off < c then length p - off else c)
      in take here (drop off p))"

lemma chunk_of_eq: "chunk_of p c i = take c (drop (i * c) p)"
  by (simp add: chunk_of_def Let_def)

lemma take_chunks: "concat (map (chunk_of p c) [0..<n]) = take (n * c) p"
proof (induction n)
  case (Suc n)
  have "take (n * c) p @ take c (drop (n * c) p) = take (n * c + c) p"
    by (rule take_add [symmetric])
  with Suc show ?case by (simp add: chunk_of_eq add.commute)
qed simp

lemma fragment_count_covers:
  assumes "fragment_count (length p) c = n" "n \<noteq> 0"
  shows "length p \<le> n * c" "0 < c" "n \<le> kMaxFragments"
proof -
  show c: "0 < c" and "n \<le> kMaxFragments"
    using assms by (auto simp: fragment_count_def Let_def split: if_splits)
  show "length p \<le> n * c"
  proof (cases "length p = 0")
    case False
    with assms have n: "n = (length p + c - 1) div c"
      by (auto simp: fragment_count_def Let_def split: if_splits)
    have "length p + c - 1 < n * c + c"
      using c n by (metis add.commute dividend_less_times_div mult.commute)
    then show ?thesis using c by linarith
  qed simp
qed

lemma chunks_join:
  "fragment_count (length p) c = n \<Longrightarrow> n \<noteq> 0 \<Longrightarrow> concat (map (chunk_of p c) [0..<n]) = p"
  using fragment_count_covers(1) [of p c n] by (simp add: take_chunks)

lemma sum_chunks_le:
  "A \<subseteq> {..<n} \<Longrightarrow> (\<Sum>i \<in> A. length (chunk_of p c i)) \<le> length p"
proof -
  assume "A \<subseteq> {..<n}"
  then have "(\<Sum>i \<in> A. length (chunk_of p c i)) \<le> (\<Sum>i < n. length (chunk_of p c i))"
    by (intro sum_mono2) auto
  also have "\<dots> = length (concat (map (chunk_of p c) [0..<n]))"
    by (simp add: length_concat comp_def interv_sum_list_conv_sum_set_nat atLeast0LessThan)
  also have "\<dots> \<le> length p" by (simp add: take_chunks)
  finally show ?thesis .
qed

lemma and_0x0F: "x AND 0x0F = take_bit 4 x" for x :: u8
  by (simp add: take_bit_eq_mask mask_eq_exp_minus_1)

lemma small_nibble: "i < 16 \<Longrightarrow> bit (of_nat i :: u8) k \<Longrightarrow> k < 4"
proof (rule ccontr)
  assume i: "i < 16" "bit (of_nat i :: u8) k" "\<not> k < 4"
  have "take_bit 4 (of_nat i :: u8) = of_nat i"
    using i(1) by (simp add: take_bit_eq_mod word_unat_eq_iff unat_mod unat_of_nat)
  then have "bit (take_bit 4 (of_nat i :: u8)) k" using i(2) by simp
  with i(3) show False by (simp add: bit_take_bit_iff)
qed

lemma set_frag_sel:
  assumes "i < 16" "n < 16"
  shows "frag_index (set_frag (of_nat i) (of_nat n) h) = of_nat i"
    "frag_total (set_frag (of_nat i) (of_nat n) h) = of_nat n"
  using small_nibble [OF assms(1)] small_nibble [OF assms(2)]
  by (auto intro!: bit_word_eqI simp: frag_index_def frag_total_def set_frag_def and_0x0F
      bit_drop_bit_eq bit_or_iff bit_push_bit_iff bit_take_bit_iff possible_bit_def
      dest: bit_imp_le_length)

lemma set_frag_keeps [simp]:
  "h_src (set_frag i n h) = h_src h" "h_ctx_id (set_frag i n h) = h_ctx_id h"
  "h_seq (set_frag i n h) = h_seq h" "h_schema (set_frag i n h) = h_schema h"
  "h_type (set_frag i n h) = h_type h" "h_ver (set_frag i n h) = h_ver h"
  "h_dst (set_frag i n h) = h_dst h"
  by (simp_all add: set_frag_def)

section \<open>Arrival sequences\<close>

lemma set_mono_butlast: "set (butlast xs) \<subseteq> set xs"
  by (auto dest: in_set_butlastD)

fun ra_run :: "(Frame \<times> u32) list \<Rightarrow> Reassembler \<Rightarrow> Status list \<times> Reassembler" where
  "ra_run [] r = ([], r)"
| "ra_run ((f, now) # fs) r =
     (case ra_accept f now r of (s, r1) \<Rightarrow> case ra_run fs r1 of (ss, r2) \<Rightarrow> (s # ss, r2))"

text \<open>The fragments of one message, as a receiver sees them.\<close>

definition fragments_of :: "Header \<Rightarrow> bytes \<Rightarrow> nat \<Rightarrow> nat \<Rightarrow> (nat \<Rightarrow> Frame) \<Rightarrow> bool" where
  "fragments_of h p c n F \<longleftrightarrow> (\<forall>i < n. f_payload (F i) = Some (chunk_of p c i) \<and>
     h_src (f_hdr (F i)) = h_src h \<and> h_ctx_id (f_hdr (F i)) = h_ctx_id h \<and>
     h_seq (f_hdr (F i)) = h_seq h \<and> h_schema (f_hdr (F i)) = h_schema h \<and>
     h_type (f_hdr (F i)) = h_type h \<and> frag_index (f_hdr (F i)) = of_nat i \<and>
     frag_total (f_hdr (F i)) = of_nat n \<and> verified (F i) (chunk_of p c i))"

definition splits_into :: "Header \<Rightarrow> bytes \<Rightarrow> nat \<Rightarrow> nat \<Rightarrow> bool" where
  "splits_into h p c n \<longleftrightarrow> fragment_count (length p) c = n \<and> 1 < n \<and>
     type_is_fragmentable (h_type h) \<and> length p \<le> reassembly_cap (h_type h)"

definition collecting ::
  "Header \<Rightarrow> bytes \<Rightarrow> nat \<Rightarrow> nat \<Rightarrow> u32 \<Rightarrow> u32 \<Rightarrow> nat set \<Rightarrow> Reassembler \<Rightarrow> bool" where
  "collecting h p c n t0 T A r \<longleftrightarrow> ra_inv r \<and> ra_active r \<and> A \<subset> {..<n} \<and>
     key_of r = (h_src h, h_ctx_id h, h_seq h, h_schema h, h_type h, of_nat n, t0, T) \<and>
     ra_frags r = (\<lambda>i. if i \<in> A then Some (chunk_of p c i) else None) \<and> ra_tight r"

lemma fragment_is_fragment:
  assumes "fragments_of h p c n F" "splits_into h p c n" "i < n"
  shows "is_fragment (F i)" "unat (frag_index (f_hdr (F i))) = i" "unat (frag_total (f_hdr (F i))) = n"
proof -
  have n: "n \<le> kMaxFragments"
    by (rule fragment_count_covers(3) [of p c]) (use assms(2) in \<open>simp_all add: splits_into_def\<close>)
  show i: "unat (frag_index (f_hdr (F i))) = i" and t: "unat (frag_total (f_hdr (F i))) = n"
    using assms n by (simp_all add: fragments_of_def unat_of_nat)
  show "is_fragment (F i)"
    using assms n i t by (simp add: is_fragment_def word_less_nat_alt splits_into_def fragments_of_def)
qed

lemma collecting_set_len:
  assumes "collecting h p c n t0 T A r"
  shows "ra_set_len r = (\<Sum>i \<in> A. length (chunk_of p c i))" "ra_arrived r = A"
proof -
  have st: "ra_staged r" and sz: "ra_sizes r" using assms by (simp_all add: collecting_def ra_inv_def)
  show A: "ra_arrived r = A"
    using assms ra_frags_dom [of r] by (auto simp: collecting_def dom_def split: if_splits)
  have "ra_frag_len r ! i = length (chunk_of p c i)" if "i \<in> A" for i
  proof -
    have "ra_slice r i = chunk_of p c i"
      using assms that A by (auto simp: collecting_def ra_frags_def ra_arrived_def fun_eq_iff split: if_splits)
    then show ?thesis using length_ra_slice [OF sz st, of i] that A by simp
  qed
  then show "ra_set_len r = (\<Sum>i \<in> A. length (chunk_of p c i))"
    using ra_stagedD(6) [OF st] A by simp
qed

definition delivered :: "nat \<Rightarrow> (nat \<Rightarrow> Frame) \<Rightarrow> bytes \<Rightarrow> Reassembler \<Rightarrow> bool" where
  "delivered n F p r \<longleftrightarrow> ra_complete r \<and> \<not> ra_active r \<and> ra_data r = p \<and>
     (\<forall>i < n. same_completed r (F i))"

lemma collecting_store:
  assumes fr: "fragments_of h p c n F" and sp: "splits_into h p c n" and i: "i < n"
    and col: "collecting h p c n t0 T A r"
  shows "\<exists>r'. ra_store (F i) (chunk_of p c i) r = (St_Ok, r') \<and> ra_inv r' \<and>
    (if insert i A = {..<n} then delivered n F p r'
     else collecting h p c n t0 T (insert i A) r')"
proof -
  let ?q = "chunk_of p c i"
  note f = fragment_is_fragment [OF fr sp i]
  have inv: "ra_inv r" "ra_active r" and tight: "ra_tight r" and A: "A \<subseteq> {..<n}"
    and fg: "ra_frags r = (\<lambda>i. if i \<in> A then Some (chunk_of p c i) else None)"
    using col by (auto simp: collecting_def)
  have tot: "frag_total (f_hdr (F i)) = ra_total r" and ty: "h_type (f_hdr (F i)) = ra_type r"
    using col fr i by (simp_all add: collecting_def key_of_def fragments_of_def)
  have un: "unat (ra_total r) = n" using tot f(3) by simp
  note idx = f(2) [symmetric]
  have fits: "fst (ra_store (F i) ?q r) = St_Ok \<and>
      (ra_active (snd (ra_store (F i) ?q r)) \<longrightarrow> ra_tight (snd (ra_store (F i) ?q r)) \<and>
        ra_set_len (snd (ra_store (F i) ?q r)) =
          ra_set_len r + (if i \<in> ra_arrived r then 0 else length ?q))"
  proof (rule ra_store_fits [OF inv tot ty idx _ tight])
    show "i < unat (ra_total r)" using un i by simp
    show "length q = length ?q" if "ra_frags r i = Some q" for q
      using that fg by (auto split: if_splits)
    assume "i \<notin> ra_arrived r"
    then have "ra_set_len r + length ?q = (\<Sum>i \<in> insert i A. length (chunk_of p c i))"
      using collecting_set_len [OF col] finite_subset [OF A] by simp
    also have "\<dots> \<le> length p" by (rule sum_chunks_le [of _ n]) (use A i in auto)
    also have "\<dots> \<le> reassembly_cap (ra_type r)"
      using sp ty fr i by (simp add: splits_into_def fragments_of_def)
    finally show "ra_set_len r + length ?q \<le> reassembly_cap (ra_type r)" .
  qed
  have "i < unat (ra_total r)" using un i by simp
  with ra_store_step [OF inv tot ty idx this, of ?q] fits obtain r'
    where st: "ra_store (F i) ?q r = (St_Ok, r')" "ra_inv r'" "key_of r' = key_of r"
      "refines_store n ((ra_frags r)(i \<mapsto> ?q)) r'" "last_after r r'"
    by (auto simp: overflowed_def un)
  have m: "(ra_frags r)(i \<mapsto> ?q) = (\<lambda>j. if j \<in> insert i A then Some (chunk_of p c j) else None)"
    by (auto simp: fg)
  have dom: "dom ((ra_frags r)(i \<mapsto> ?q)) = insert i A"
    unfolding m by (auto split: if_splits)
  show ?thesis
  proof (cases "insert i A = {..<n}")
    case True
    have "set_payload n ((ra_frags r)(i \<mapsto> ?q)) = concat (map (chunk_of p c) [0..<n])"
      unfolding set_payload_def m True by (intro arg_cong [where f = concat] map_cong) auto
    also have "\<dots> = p" using sp by (intro chunks_join) (auto simp: splits_into_def)
    finally have d: "\<not> ra_active r'" "ra_complete r'" "ra_data r' = p"
      using True st dom by (auto simp: refines_store_def)
    moreover from d(1) st(5) col fr have "\<forall>i < n. same_completed r' (F i)"
      by (simp add: last_after_def last_of_def same_completed_def fragments_of_def collecting_def key_of_def)
    ultimately show ?thesis using True st by (simp add: delivered_def)
  next
    case False
    then have "insert i A \<subset> {..<n}" using A i by auto
    with False st dom m col fits show ?thesis
      by (auto simp: refines_store_def collecting_def)
  qed
qed

lemma singleton_not_full: "1 < n \<Longrightarrow> {i} \<noteq> {..<n}" for i n :: nat
proof
  assume "1 < n" "{i} = {..<n}"
  then have "card {..<n} = 1" by (metis is_singletonI is_singleton_altdef)
  with \<open>1 < n\<close> show False by simp
qed

lemma collecting_accept:
  assumes fr: "fragments_of h p c n F" and sp: "splits_into h p c n" and i: "i < n"
    and col: "collecting h p c n t0 T A r" and t: "t - t0 < T"
  shows "\<exists>r'. ra_accept (F i) t r = (St_Ok, r') \<and> ra_inv r' \<and>
    (if insert i A = {..<n} then delivered n F p r'
     else collecting h p c n t0 T (insert i A) r')"
proof -
  note f = fragment_is_fragment(1) [OF fr sp i]
  have p: "f_payload (F i) = Some (chunk_of p c i)" and v: "verified (F i) (chunk_of p c i)"
    using fr i by (simp_all add: fragments_of_def)
  have act: "ra_active r" and same: "same_set r (F i)" and times: "ra_start_ms r = t0" "ra_timeout_ms r = T"
    using col fr i by (auto simp: collecting_def key_of_def same_set_def fragments_of_def)
  have tick: "ra_tick t r = r"
    using t times by (simp add: ra_tick_def not_le [symmetric])
  have "ra_accept (F i) t r = ra_store (F i) (chunk_of p c i) r"
    using v act same by (simp add: ra_accept_fragment [OF p f] tick is_late_def ra_settle_def)
  then show ?thesis using collecting_store [OF fr sp i col] by simp
qed

lemma idle_accept:
  assumes fr: "fragments_of h p c n F" and sp: "splits_into h p c n" and i: "i < n"
    and inv: "ra_inv r" "\<not> ra_active r" and new: "\<not> same_completed r (F i)"
  shows "\<exists>r'. ra_accept (F i) t r = (St_Ok, r') \<and> ra_inv r' \<and>
    collecting h p c n t (ra_timeout_ms r) {i} r'"
proof -
  note f = fragment_is_fragment [OF fr sp i]
  have p: "f_payload (F i) = Some (chunk_of p c i)" and v: "verified (F i) (chunk_of p c i)"
    using fr i by (simp_all add: fragments_of_def)
  let ?s = "ra_settle (F i) t r"
  have tick: "ra_tick t r = r" using inv by (simp add: ra_tick_def)
  have acc: "ra_accept (F i) t r = ra_store (F i) (chunk_of p c i) ?s"
    using v new by (simp add: ra_accept_fragment [OF p f(1)] tick is_late_def)
  have s: "ra_inv ?s" "ra_active ?s" "same_set ?s (F i)" "begun (F i) t ?s"
    using ra_settle_cases [OF inv(1) f(1), of t] inv(2) by auto
  have "ra_timeout_ms ?s = ra_timeout_ms r"
    by (simp add: ra_settle_def Let_def ra_begin_def ra_reset_def ra_count_def)
  with s fr i have col: "collecting h p c n t (ra_timeout_ms r) {} ?s"
    by (auto simp: collecting_def begun_def key_of_def same_set_def fragments_of_def)
  have "{i} \<noteq> {..<n}"
    using sp by (intro singleton_not_full) (simp add: splits_into_def)
  with collecting_store [OF fr sp i col] show ?thesis by (auto simp: acc)
qed

lemma collecting_run:
  assumes "fragments_of h p c n F" "splits_into h p c n" "collecting h p c n t0 T A r"
    "as \<noteq> []" "\<forall>(i, t) \<in> set as. i < n \<and> t - t0 < T"
    "A \<union> fst ` set as = {..<n}" "A \<union> fst ` set (butlast as) \<noteq> {..<n}"
  shows "\<exists>r'. ra_run (map (\<lambda>(i, t). (F i, t)) as) r = (replicate (length as) St_Ok, r') \<and>
    ra_inv r' \<and> delivered n F p r'"
  using assms(3-)
proof (induction as arbitrary: A r)
  case (Cons a as)
  obtain i t where a: "a = (i, t)" by (cases a)
  have it: "i < n" "t - t0 < T" using Cons.prems(3) by (auto simp: a)
  from collecting_accept [OF assms(1,2) it(1) Cons.prems(1) it(2)] obtain r'
    where r': "ra_accept (F i) t r = (St_Ok, r')" "ra_inv r'"
      "if insert i A = {..<n} then delivered n F p r'
       else collecting h p c n t0 T (insert i A) r'" by auto
  show ?case
  proof (cases "as = []")
    case True
    with Cons.prems(4) r' show ?thesis by (simp add: a insert_commute)
  next
    case False
    have "insert i A \<noteq> {..<n}"
    proof
      assume "insert i A = {..<n}"
      then have "{..<n} \<subseteq> A \<union> fst ` set (butlast (a # as))" using False by (auto simp: a)
      moreover have "A \<union> fst ` set (butlast (a # as)) \<subseteq> {..<n}"
        using Cons.prems(4) set_mono_butlast [of "a # as"] by blast
      ultimately show False using Cons.prems(5) by auto
    qed
    with r' have "collecting h p c n t0 T (insert i A) r'" by simp
    moreover have "insert i A \<union> fst ` set as = {..<n}" using Cons.prems(4) by (auto simp: a)
    moreover have "insert i A \<union> fst ` set (butlast as) \<noteq> {..<n}"
      using Cons.prems(5) False by (auto simp: a)
    ultimately show ?thesis
      using Cons.IH [of "insert i A" r'] False Cons.prems(3) r'(1) by (auto simp: a)
  qed
qed simp

section \<open>Reachable states\<close>

inductive ra_reachable :: "Reassembler \<Rightarrow> bool" where
  "length stage = kMaxPayloadPlain \<Longrightarrow> length out = kMaxPayloadPlain \<Longrightarrow>
     ra_reachable (Reassembler_new c stage out)"
| "ra_reachable r \<Longrightarrow> ra_reachable (snd (ra_accept f now r))"
| "ra_reachable r \<Longrightarrow> ra_reachable (ra_tick now r)"
| "ra_reachable r \<Longrightarrow> ra_reachable (ra_reset r)"
| "ra_reachable r \<Longrightarrow> ra_reachable (ra_forget_completed r)"
| "ra_reachable r \<Longrightarrow> ra_reachable (ra_set_timeout_ms ms r)"

lemma ra_new_inv:
  "length stage = kMaxPayloadPlain \<Longrightarrow> length out = kMaxPayloadPlain \<Longrightarrow>
   ra_inv (Reassembler_new c stage out)"
  by (simp add: Reassembler_new_def ra_inv_def ra_sizes_def)

lemma ra_reachable_inv: "ra_reachable r \<Longrightarrow> ra_inv r"
proof (induction rule: ra_reachable.induct)
  case (4 r)
  then show ?case by (simp add: ra_inv_def [of r])
qed (simp_all add: ra_new_inv ra_accept_inv ra_tick_inv)

section \<open>Properties\<close>

text \<open>
  C5: in every state a reassembler can reach, whatever frames arrive and however they lie about
  their indices and totals, the buffers keep their size, every staged fragment lies inside the
  staging buffer and overlaps no other, and a live set's length is the sum of its fragments and
  within the cap of its type. So no sequence of frames writes outside the buffers.
\<close>

theorem reassembler_stays_in_bounds:
  assumes "ra_reachable r"
  shows "length (ra_stage r) = kMaxPayloadPlain \<and> length (ra_out r) = kMaxPayloadPlain \<and>
    ra_out_len r \<le> kMaxPayloadPlain \<and>
    (ra_active r \<longrightarrow>
      ra_stage_used r \<le> kMaxPayloadPlain \<and>
      ra_set_len r = (\<Sum>i \<in> ra_arrived r. ra_frag_len r ! i) \<and>
      ra_set_len r \<le> reassembly_cap (ra_type r) \<and>
      (\<forall>i \<in> ra_arrived r. i < kMaxFragments \<and> ra_frag_off r ! i + ra_frag_len r ! i \<le> ra_stage_used r) \<and>
      (\<forall>i \<in> ra_arrived r. \<forall>j \<in> ra_arrived r. i \<noteq> j \<longrightarrow>
         ra_frag_off r ! i + ra_frag_len r ! i \<le> ra_frag_off r ! j \<or>
         ra_frag_off r ! j + ra_frag_len r ! j \<le> ra_frag_off r ! i))"
proof -
  have inv: "ra_inv r" by (rule ra_reachable_inv [OF assms])
  show ?thesis
  proof (intro conjI impI)
    assume "ra_active r"
    with inv have st: "ra_staged r" by (simp add: ra_inv_def)
    note d = ra_stagedD [OF st]
    show "ra_stage_used r \<le> kMaxPayloadPlain" by (rule d(5))
    show "ra_set_len r = (\<Sum>i \<in> ra_arrived r. ra_frag_len r ! i)" by (rule d(6))
    show "ra_set_len r \<le> reassembly_cap (ra_type r)" by (rule d(7))
    show "\<forall>i \<in> ra_arrived r. i < kMaxFragments \<and>
        ra_frag_off r ! i + ra_frag_len r ! i \<le> ra_stage_used r"
      using d(2) d(4) d(8) by (meson lessThan_iff less_le_trans subsetD)
    show "\<forall>i \<in> ra_arrived r. \<forall>j \<in> ra_arrived r. i \<noteq> j \<longrightarrow>
         ra_frag_off r ! i + ra_frag_len r ! i \<le> ra_frag_off r ! j \<or>
         ra_frag_off r ! j + ra_frag_len r ! j \<le> ra_frag_off r ! i"
      using d(9) by blast
  qed (use inv in \<open>simp_all add: ra_inv_def ra_sizes_def\<close>)
qed

text \<open>A two-fragment PING of three bytes, in chunks of two, for the witnesses.\<close>

definition demo_hdr :: Header where
  "demo_hdr = Header_init\<lparr>h_type := MT_Ping, h_src := 3, h_seq := 9\<rparr>"

definition demo_frag :: "nat \<Rightarrow> Frame" where
  "demo_frag i = Frame_init\<lparr>f_hdr := set_frag (of_nat i) 2 demo_hdr,
     f_payload := Some (chunk_of [0, 1, 0xAB] 2 i)\<rparr>"

definition demo_ra :: Reassembler where
  "demo_ra = Reassembler_new (Some Counters_init) (replicate kMaxPayloadPlain 0) (replicate kMaxPayloadPlain 0)"

lemma lessThan_two: "{..<2 :: nat} = {0, 1}"
  by (simp add: numeral_2_eq_2 lessThan_Suc insert_commute)

lemma demo_facts:
  "splits_into demo_hdr [0, 1, 0xAB] 2 2" "fragments_of demo_hdr [0, 1, 0xAB] 2 2 demo_frag"
  "ra_reachable demo_ra" "\<not> ra_active demo_ra" "\<not> ra_have_last demo_ra"
  "ra_timeout_ms demo_ra = kDefaultFragTimeoutMs"
proof -
  show "splits_into demo_hdr [0, 1, 0xAB] 2 2"
    by (simp add: splits_into_def fragment_count_def demo_hdr_def reassembly_cap_def)
  show "ra_reachable demo_ra"
    unfolding demo_ra_def by (rule ra_reachable.intros) simp_all
  have "frag_index (set_frag (of_nat i) 2 h) = of_nat i" "frag_total (set_frag (of_nat i) 2 h) = 2"
    if "i < 2" for i h
    using set_frag_sel [of i 2 h] that by simp_all
  then show "fragments_of demo_hdr [0, 1, 0xAB] 2 2 demo_frag"
    by (simp add: fragments_of_def demo_frag_def verified_def frame_has_mac_def demo_hdr_def)
qed (simp_all add: demo_ra_def Reassembler_new_def)

theorem reassembler_stays_in_bounds_witness:
  "length (ra_stage (snd (ra_accept (demo_frag 1) 0 demo_ra))) = kMaxPayloadPlain"
  using reassembler_stays_in_bounds [OF ra_reachable.intros(2) [OF demo_facts(3)]] by blast

text \<open>
  C6: the fragments of a message, arriving in any order and any of them repeated, are each
  accepted, and the arrival that fills the last gap delivers exactly the original payload, as long
  as the set's key is not that of the set completed last and no fragment comes later than the
  timeout after the first. The slot remembers the key, so that a later copy is seen to be late.
\<close>

theorem reassembly_any_order:
  assumes "fragments_of h p c n F" "splits_into h p c n"
    "ra_reachable r" "\<not> ra_active r" "\<not> same_completed r (F (fst (hd as)))"
    "\<forall>(i, t) \<in> set as. i < n \<and> t - snd (hd as) < ra_timeout_ms r"
    "fst ` set as = {..<n}" "fst ` set (butlast as) \<noteq> {..<n}"
  shows "\<exists>r'. ra_run (map (\<lambda>(i, t). (F i, t)) as) r = (replicate (length as) St_Ok, r') \<and>
    ra_complete r' \<and> \<not> ra_active r' \<and> ra_data r' = p \<and> (\<forall>i < n. same_completed r' (F i))"
proof (cases as)
  case Nil
  with assms(2,7) show ?thesis by (auto simp: splits_into_def)
next
  case (Cons a bs)
  obtain i t where a: "a = (i, t)" by (cases a)
  have i: "i < n" using assms(6) by (auto simp: Cons a)
  have inv: "ra_inv r" by (rule ra_reachable_inv [OF assms(3)])
  obtain r1 where r1: "ra_accept (F i) t r = (St_Ok, r1)"
    "collecting h p c n t (ra_timeout_ms r) {i} r1"
    using idle_accept [OF assms(1,2) i inv assms(4), of t] assms(5) by (auto simp: Cons a)
  have two: "{i} \<noteq> {..<n}" using assms(2) by (intro singleton_not_full) (simp add: splits_into_def)
  have ne: "bs \<noteq> []"
  proof
    assume "bs = []"
    with assms(7) have "{i} = {..<n}" by (simp add: Cons a)
    with two show False by (rule notE)
  qed
  have rest: "\<forall>(j, u) \<in> set bs. j < n \<and> u - t < ra_timeout_ms r"
    using assms(6) by (simp add: Cons a)
  have cover: "{i} \<union> fst ` set bs = {..<n}" "{i} \<union> fst ` set (butlast bs) \<noteq> {..<n}"
    using assms(7,8) ne by (simp_all add: Cons a)
  from collecting_run [OF assms(1,2) r1(2) ne rest cover] r1(1) show ?thesis
    by (auto simp: Cons a delivered_def)
qed

theorem reassembly_any_order_witness:
  "\<exists>r'. ra_run [(demo_frag 1, 10), (demo_frag 1, 20), (demo_frag 0, 4000)] demo_ra =
      ([St_Ok, St_Ok, St_Ok], r') \<and> ra_complete r' \<and> \<not> ra_active r' \<and> ra_data r' = [0, 1, 0xAB]"
proof -
  let ?as = "[(1, 10), (1, 20), (0, 4000)] :: (nat \<times> u32) list"
  have all: "fst ` set ?as = {..<2}" and part: "fst ` set (butlast ?as) \<noteq> {..<2}"
    unfolding lessThan_two by (simp_all add: insert_commute)
  have new: "\<not> same_completed demo_ra (demo_frag (fst (hd ?as)))"
    using demo_facts(5) by (simp add: same_completed_def)
  have time: "\<forall>(i, t) \<in> set ?as. i < 2 \<and> t - snd (hd ?as) < ra_timeout_ms demo_ra"
    using demo_facts(6) by simp
  show ?thesis
    using reassembly_any_order [OF demo_facts(2,1,3,4) new time all part]
    by (auto simp: numeral_3_eq_3 simp del: ra_run.simps)
qed

text \<open>
  A single-frame message is delivered at once and leaves the live set alone: it neither
  starts, joins, displaces nor expires one, and changes nothing but the delivery buffer.
\<close>

theorem single_frame_leaves_set_alone:
  assumes "f_payload f = Some p" "frag_total (f_hdr f) = 1" "frag_index (f_hdr f) = 0"
    "length p \<le> reassembly_cap (h_type (f_hdr f))" "ra_reachable r"
  shows "ra_accept f now r =
      (St_Ok, r\<lparr>ra_out := p @ drop (length p) (ra_out r), ra_out_len := length p, ra_complete := True\<rparr>) \<and>
    ra_data (snd (ra_accept f now r)) = p \<and>
    ra_frags (snd (ra_accept f now r)) = ra_frags r"
proof -
  have "length (ra_out r) = kMaxPayloadPlain"
    using ra_reachable_inv [OF assms(5)] by (simp add: ra_inv_def ra_sizes_def)
  moreover have "length p \<le> kMaxPayloadPlain"
    using assms(4) reassembly_cap_le [of "h_type (f_hdr f)"] by simp
  ultimately show ?thesis
    using assms
    by (simp add: ra_accept_def Let_def ra_data_def ra_frags_def ra_got_def ra_slice_def fun_eq_iff)
qed

definition demo_single :: Frame where
  "demo_single = Frame_init\<lparr>f_hdr := Header_init\<lparr>h_type := MT_Ping\<rparr>, f_payload := Some [0, 1, 7]\<rparr>"

theorem single_frame_leaves_set_alone_witness:
  "ra_data (snd (ra_accept demo_single 99 (snd (ra_accept (demo_frag 1) 0 demo_ra)))) = [0, 1, 7]"
proof -
  have "f_payload demo_single = Some [0, 1, 7]" "frag_total (f_hdr demo_single) = 1"
    "frag_index (f_hdr demo_single) = 0" "length [0, 1, 7 :: u8] \<le> reassembly_cap (h_type (f_hdr demo_single))"
    by (simp_all add: demo_single_def Header_init_def frag_total_def frag_index_def reassembly_cap_def)
  from single_frame_leaves_set_alone [OF this ra_reachable.intros(2) [OF demo_facts(3)]]
  show ?thesis by blast
qed

text \<open>
  C7: a fragment of an authenticated type whose MAC was not verified is refused before it can
  touch the slot: apart from the expiry of an overdue set, only the counter changes, so a forger
  can neither occupy nor displace a set.
\<close>

theorem unverified_fragment_is_refused:
  assumes "f_payload f = Some p" "is_fragment f" "frame_has_mac (h_type (f_hdr f)) p"
    "\<not> f_mac_verified f"
  shows "ra_accept f now r = (St_RejectedMac, ra_count St_RejectedMac (ra_tick now r))"
  using ra_accept_fragment [OF assms(1,2)] assms(3,4) by (simp add: verified_def)

definition forged :: Frame where
  "forged = Frame_init\<lparr>f_hdr := set_frag 0 2 (Header_init\<lparr>h_type := MT_Config\<rparr>), f_payload := Some [1, 0]\<rparr>"

theorem unverified_fragment_is_refused_witness:
  "ra_accept forged 5 demo_ra = (St_RejectedMac, ra_count St_RejectedMac demo_ra)"
proof -
  have "is_fragment forged"
    using set_frag_sel [of 0 2] by (simp add: is_fragment_def forged_def Header_init_def)
  with unverified_fragment_is_refused [of forged "[1, 0]" 5 demo_ra] demo_facts(4) show ?thesis
    by (simp add: forged_def Frame_init_def frame_has_mac_def Header_init_def ra_tick_def)
qed

text \<open>
  A late copy of a fragment of the set completed last is recognised as such, even after the
  slot is idle again: it starts no new set, and the payload waiting for its reader is untouched.
\<close>

theorem late_fragment_keeps_delivery:
  assumes "f_payload f = Some p" "is_fragment f" "verified f p" "\<not> ra_active r" "same_completed r f"
  shows "\<exists>c. ra_accept f now r = (St_FragLate, r\<lparr>ra_counters := c\<rparr>)"
  using ra_accept_fragment [OF assms(1,2), of now r] assms(3-5)
  by (auto simp: is_late_def ra_tick_def)

theorem late_fragment_keeps_delivery_witness:
  "\<exists>r' c. ra_run [(demo_frag 0, 0), (demo_frag 1, 1)] demo_ra = ([St_Ok, St_Ok], r') \<and>
     ra_accept (demo_frag 0) 2 r' = (St_FragLate, r'\<lparr>ra_counters := c\<rparr>)"
proof -
  have col0: "\<not> same_completed demo_ra (demo_frag 0)"
    using demo_facts(5) by (simp add: same_completed_def)
  obtain r1 where r1: "ra_accept (demo_frag 0) 0 demo_ra = (St_Ok, r1)"
    "collecting demo_hdr [0, 1, 0xAB] 2 2 0 kDefaultFragTimeoutMs {0} r1"
    using idle_accept [OF demo_facts(2,1) _ ra_reachable_inv [OF demo_facts(3)] demo_facts(4) col0, of 0]
      demo_facts(6) by auto
  have "insert 1 {0} = {..<2 :: nat}" unfolding lessThan_two by (rule insert_commute)
  with collecting_accept [OF demo_facts(2,1) _ r1(2), of 1 1] obtain r'
    where r': "ra_accept (demo_frag 1) 1 r1 = (St_Ok, r')" "delivered 2 demo_frag [0, 1, 0xAB] r'" by auto
  have f: "f_payload (demo_frag 0) = Some (chunk_of [0, 1, 0xAB] 2 0)" "is_fragment (demo_frag 0)"
    "verified (demo_frag 0) (chunk_of [0, 1, 0xAB] 2 0)"
    using fragment_is_fragment(1) [OF demo_facts(2,1), of 0] demo_facts(2) by (auto simp: fragments_of_def)
  have "\<not> ra_active r'" "same_completed r' (demo_frag 0)"
    using r'(2) by (auto simp: delivered_def)
  from late_fragment_keeps_delivery [OF f this] r1(1) r'(1) show ?thesis by auto
qed

end
