(* ===== verification/CommandGate.thy ===== *)
theory CommandGate
  imports Wire
begin

text \<open>
  Replay protection and idempotent commands: class \<open>CommandGate\<close> (\<open>command_gate.h\<close>,
  \<open>command_gate.cpp\<close>).

  The gate holds the high-water mark of the command sequence and a ring of the last results, with
  one in-flight bit per slot. The ring is modelled as it is: the entry array, the head, the count
  and the bit set; head, count and depth (\<open>uint8_t\<close>, at most 32) are natural numbers. The
  abstraction \<open>cg_cache\<close> reads it as a list of pairs, oldest first, in which a command that is
  still executing has no result; every operation refines the corresponding list operation.

  The locale \<open>seq_gate\<close> is the contract a dispatcher relies on, from which at-most-once
  execution follows for any sequence of calls.
\<close>

section \<open>State (command\_gate.h)\<close>

abbreviation kDedupCacheCapacity :: nat where "kDedupCacheCapacity \<equiv> 32"
abbreviation kDefaultDedupCacheDepth :: nat where "kDefaultDedupCacheDepth \<equiv> 8"

datatype Verdict = V_Execute | V_ReturnCached | V_InFlight | V_Reject

record GateResult =
  gr_verdict :: Verdict
  gr_status :: Status
  gr_cached_result :: AckResult
  gr_cached_detail :: u8

record GateEntry =
  ge_seq :: Seq
  ge_result :: AckResult
  ge_detail :: u8

record CommandGate =
  cg_counters :: "Counters option"
  cg_ctx_id :: CtxId
  cg_high_water :: Seq
  cg_depth :: nat
  cg_entries :: "GateEntry list"
  cg_in_flight :: u32
  cg_head :: nat
  cg_count :: nat

definition CommandGate_new :: "Counters option \<Rightarrow> CommandGate" where
  "CommandGate_new c = \<lparr>cg_counters = c, cg_ctx_id = 0, cg_high_water = 0,
     cg_depth = kDefaultDedupCacheDepth,
     cg_entries = replicate kDedupCacheCapacity \<lparr>ge_seq = 0, ge_result = AR_Accepted, ge_detail = 0\<rparr>,
     cg_in_flight = 0, cg_head = 0, cg_count = 0\<rparr>"

section \<open>Operations (command\_gate.cpp)\<close>

definition cg_bump :: "Status \<Rightarrow> CommandGate \<Rightarrow> CommandGate" where
  "cg_bump s g = g\<lparr>cg_counters := count_in (cg_counters g) s\<rparr>"

definition cg_slot :: "CommandGate \<Rightarrow> nat \<Rightarrow> nat" where
  "cg_slot g i = (cg_head g + i) mod kDedupCacheCapacity"

definition cg_find :: "Seq \<Rightarrow> CommandGate \<Rightarrow> nat option" where
  "cg_find seq g =
     map_option (cg_slot g)
       (List.find (\<lambda>i. ge_seq (cg_entries g ! cg_slot g i) = seq) [0..<cg_count g])"

definition cg_evict_oldest :: "CommandGate \<Rightarrow> CommandGate" where
  "cg_evict_oldest g =
     g\<lparr>cg_in_flight := cg_in_flight g AND NOT (push_bit (cg_head g) 1),
       cg_head := (cg_head g + 1) mod kDedupCacheCapacity,
       cg_count := cg_count g - 1\<rparr>"

text \<open>\<open>while (count_ > depth_) evict_oldest()\<close>.\<close>

function cg_shrink :: "CommandGate \<Rightarrow> CommandGate" where
  "cg_shrink g = (if cg_count g > cg_depth g then cg_shrink (cg_evict_oldest g) else g)"
  by auto
termination
  by (relation "measure (\<lambda>g. cg_count g)") (simp_all add: cg_evict_oldest_def)

declare cg_shrink.simps [simp del]

definition cg_set_cache_depth :: "u8 \<Rightarrow> CommandGate \<Rightarrow> CommandGate" where
  "cg_set_cache_depth n g =
     (let n = unat n; n = (if n < 1 then 1 else n);
          n = (if n > kDedupCacheCapacity then kDedupCacheCapacity else n)
      in cg_shrink (g\<lparr>cg_depth := n\<rparr>))"

definition cg_check :: "Seq \<Rightarrow> CommandGate \<Rightarrow> GateResult \<times> CommandGate" where
  "cg_check seq g =
     (case cg_find seq g of
        Some slot \<Rightarrow>
          if cg_in_flight g AND push_bit slot 1 \<noteq> 0 then
            (\<lparr>gr_verdict = V_InFlight, gr_status = St_DuplicateInFlight,
              gr_cached_result = AR_Accepted, gr_cached_detail = 0\<rparr>,
             cg_bump St_DuplicateInFlight g)
          else
            (\<lparr>gr_verdict = V_ReturnCached, gr_status = St_DuplicateCached,
              gr_cached_result = ge_result (cg_entries g ! slot),
              gr_cached_detail = ge_detail (cg_entries g ! slot)\<rparr>,
             cg_bump St_DuplicateCached g)
      | None \<Rightarrow>
          if \<not> seq_newer seq (cg_high_water g) then
            (\<lparr>gr_verdict = V_Reject, gr_status = St_RejectedSeq,
              gr_cached_result = AR_Accepted, gr_cached_detail = 0\<rparr>,
             cg_bump St_RejectedSeq g)
          else
            let g = g\<lparr>cg_high_water := seq\<rparr>;
                g = (if cg_count g = cg_depth g then cg_evict_oldest g else g);
                s = (cg_head g + cg_count g) mod kDedupCacheCapacity
            in (\<lparr>gr_verdict = V_Execute, gr_status = St_Ok,
                 gr_cached_result = AR_Accepted, gr_cached_detail = 0\<rparr>,
                g\<lparr>cg_entries := (cg_entries g)[s := \<lparr>ge_seq = seq, ge_result = AR_Accepted,
                                                       ge_detail = 0\<rparr>],
                  cg_in_flight := cg_in_flight g OR push_bit s 1,
                  cg_count := cg_count g + 1\<rparr>))"

definition cg_record :: "Seq \<Rightarrow> AckResult \<Rightarrow> u8 \<Rightarrow> CommandGate \<Rightarrow> bool \<times> CommandGate" where
  "cg_record seq result detail g =
     (case cg_find seq g of
        None \<Rightarrow> (False, g)
      | Some slot \<Rightarrow>
          if cg_in_flight g AND push_bit slot 1 = 0 then (False, g)
          else (True, g\<lparr>cg_entries := (cg_entries g)
                           [slot := (cg_entries g ! slot)\<lparr>ge_result := result, ge_detail := detail\<rparr>],
                        cg_in_flight := cg_in_flight g AND NOT (push_bit slot 1)\<rparr>))"

definition cg_reset_context :: "CtxId \<Rightarrow> CommandGate \<Rightarrow> CommandGate" where
  "cg_reset_context new_ctx g =
     g\<lparr>cg_ctx_id := new_ctx, cg_high_water := 0, cg_head := 0, cg_count := 0, cg_in_flight := 0\<rparr>"

definition cg_any_in_flight :: "CommandGate \<Rightarrow> bool" where
  "cg_any_in_flight g \<longleftrightarrow> cg_in_flight g \<noteq> 0"

section \<open>The contract\<close>

locale seq_gate =
  fixes check :: "Seq \<Rightarrow> 'g \<Rightarrow> GateResult \<times> 'g"
    and record_result :: "Seq \<Rightarrow> AckResult \<Rightarrow> u8 \<Rightarrow> 'g \<Rightarrow> bool \<times> 'g"
    and set_depth :: "u8 \<Rightarrow> 'g \<Rightarrow> 'g"
    and high_water :: "'g \<Rightarrow> Seq"
  assumes execute_newer: "gr_verdict (fst (check s g)) = V_Execute \<Longrightarrow> seq_newer s (high_water g)"
    and execute_marks: "gr_verdict (fst (check s g)) = V_Execute \<Longrightarrow> high_water (snd (check s g)) = s"
    and others_keep: "gr_verdict (fst (check s g)) \<noteq> V_Execute \<Longrightarrow>
      high_water (snd (check s g)) = high_water g"
    and record_keeps: "high_water (snd (record_result s r d g)) = high_water g"
    and depth_keeps: "high_water (set_depth n g) = high_water g"

text \<open>The calls a dispatcher makes between two context changes.\<close>

datatype gate_call = GC_Check Seq | GC_Record Seq AckResult u8 | GC_Depth u8

context seq_gate
begin

fun do_call :: "gate_call \<Rightarrow> 'g \<Rightarrow> 'g" where
  "do_call (GC_Check s) g = snd (check s g)"
| "do_call (GC_Record s r d) g = snd (record_result s r d g)"
| "do_call (GC_Depth n) g = set_depth n g"

fun executions :: "Seq \<Rightarrow> gate_call list \<Rightarrow> 'g \<Rightarrow> nat" where
  "executions s [] g = 0"
| "executions s (c # cs) g =
     (if c = GC_Check s \<and> gr_verdict (fst (check s g)) = V_Execute then 1 else 0) +
     executions s cs (do_call c g)"

text \<open>By how much the mark moves over a run of calls.\<close>

fun advance :: "gate_call list \<Rightarrow> 'g \<Rightarrow> nat" where
  "advance [] g = 0"
| "advance (c # cs) g =
     unat (high_water (do_call c g) - high_water g) + advance cs (do_call c g)"

lemma no_execution_behind:
  "high_water g = s + of_nat k \<Longrightarrow> k + advance cs g < 32768 \<Longrightarrow> executions s cs g = 0"
proof (induction cs arbitrary: g k)
  case (Cons c cs)
  have "gr_verdict (fst (check s g)) \<noteq> V_Execute"
    using execute_newer [of s g] seq_newer_behind [of k s] Cons.prems by auto
  moreover have "executions s cs (do_call c g) = 0"
  proof (rule Cons.IH)
    show "high_water (do_call c g) = s + of_nat (k + unat (high_water (do_call c g) - high_water g))"
      using Cons.prems(1) by (simp add: algebra_simps)
    show "k + unat (high_water (do_call c g) - high_water g) + advance cs (do_call c g) < 32768"
      using Cons.prems(2) by simp
  qed
  ultimately show ?case by auto
qed simp

lemma at_most_once: "advance cs g < 32768 \<Longrightarrow> executions s cs g \<le> 1"
proof (induction cs arbitrary: g)
  case (Cons c cs)
  show ?case
  proof (cases "c = GC_Check s \<and> gr_verdict (fst (check s g)) = V_Execute")
    case True
    have "executions s cs (do_call c g) = 0"
      by (rule no_execution_behind [of _ _ 0]) (use True execute_marks [of s g] Cons.prems in auto)
    with True show ?thesis by simp
  next
    case False
    with Cons show ?thesis by auto
  qed
qed simp

end

lemma high_water_evict [simp]: "cg_high_water (cg_evict_oldest g) = cg_high_water g"
  by (simp add: cg_evict_oldest_def)

lemma high_water_shrink [simp]: "cg_high_water (cg_shrink g) = cg_high_water g"
  by (induction g rule: cg_shrink.induct) (simp add: cg_shrink.simps)

lemma cg_check_execute:
  "gr_verdict (fst (cg_check s g)) = V_Execute \<longleftrightarrow>
     cg_find s g = None \<and> seq_newer s (cg_high_water g)"
  by (auto simp: cg_check_def Let_def split: option.splits)

interpretation gate: seq_gate cg_check cg_record cg_set_cache_depth cg_high_water
proof
  fix s g
  show "gr_verdict (fst (cg_check s g)) = V_Execute \<Longrightarrow> seq_newer s (cg_high_water g)"
    by (simp add: cg_check_execute)
  show "gr_verdict (fst (cg_check s g)) = V_Execute \<Longrightarrow> cg_high_water (snd (cg_check s g)) = s"
    by (simp add: cg_check_execute) (simp add: cg_check_def Let_def)
  show "gr_verdict (fst (cg_check s g)) \<noteq> V_Execute \<Longrightarrow>
      cg_high_water (snd (cg_check s g)) = cg_high_water g"
    by (auto simp: cg_check_def cg_bump_def Let_def split: option.splits if_splits)
next
  show "cg_high_water (snd (cg_record s r d g)) = cg_high_water g" for s r d g
    by (simp add: cg_record_def split: option.split)
  show "cg_high_water (cg_set_cache_depth n g) = cg_high_water g" for n g
    by (simp add: cg_set_cache_depth_def Let_def)
qed

section \<open>The ring as a list\<close>

text \<open>The cache of a gate, oldest first; a command still executing has no result.\<close>

type_synonym gate_cache = "(Seq \<times> (AckResult \<times> u8) option) list"

definition cg_item :: "CommandGate \<Rightarrow> nat \<Rightarrow> Seq \<times> (AckResult \<times> u8) option" where
  "cg_item g s =
     (ge_seq (cg_entries g ! s),
      if bit (cg_in_flight g) s then None
      else Some (ge_result (cg_entries g ! s), ge_detail (cg_entries g ! s)))"

definition cg_cache :: "CommandGate \<Rightarrow> gate_cache" where
  "cg_cache g = map (\<lambda>i. cg_item g (cg_slot g i)) [0..<cg_count g]"

definition cg_window :: "CommandGate \<Rightarrow> nat set" where
  "cg_window g = cg_slot g ` {..<cg_count g}"

definition cg_ring :: "CommandGate \<Rightarrow> bool" where
  "cg_ring g \<longleftrightarrow> length (cg_entries g) = kDedupCacheCapacity \<and> cg_head g < kDedupCacheCapacity \<and>
     1 \<le> cg_depth g \<and> cg_depth g \<le> kDedupCacheCapacity \<and> cg_count g \<le> kDedupCacheCapacity \<and>
     (\<forall>s. bit (cg_in_flight g) s \<longrightarrow> s \<in> cg_window g) \<and> distinct (map fst (cg_cache g))"

definition cg_inv :: "CommandGate \<Rightarrow> bool" where
  "cg_inv g \<longleftrightarrow> cg_ring g \<and> cg_count g \<le> cg_depth g"

lemma bit_single32: "bit (2 ^ i :: u32) j \<longleftrightarrow> j = i \<and> i < 32"
  by (auto simp: bit_exp_iff possible_bit_def)

lemma flight_test: "i < 32 \<Longrightarrow> m AND 2 ^ i = 0 \<longleftrightarrow> \<not> bit m i" for m :: u32
  by (simp only: word_eq_0_bits bit_and_iff bit_single32) auto

lemma flight_set: "i < 32 \<Longrightarrow> bit (m OR 2 ^ i) j \<longleftrightarrow> bit m j \<or> j = i" for m :: u32
  by (simp only: bit_or_iff bit_single32) auto

lemma flight_clear: "bit (m AND NOT (2 ^ i)) j \<longleftrightarrow> bit m j \<and> \<not> (j = i \<and> i < 32)" for m :: u32
  by (simp only: bit_and_iff bit_not_iff bit_single32) (auto dest: bit_imp_le_length simp: possible_bit_def)

lemma cg_slot_less [simp]: "cg_slot g i < 32"
  by (simp add: cg_slot_def)

lemma cg_slot_inj:
  "i < 32 \<Longrightarrow> j < 32 \<Longrightarrow> cg_slot g i = cg_slot g j \<Longrightarrow> i = j"
proof -
  assume ij: "i < 32" "j < 32" and "cg_slot g i = cg_slot g j"
  then have "(cg_head g mod 32 + i) mod 32 = (cg_head g mod 32 + j) mod 32"
    by (simp add: cg_slot_def mod_add_left_eq)
  moreover have "(h + k) mod 32 = (if h + k < 32 then h + k else h + k - 32)"
    if "h < 32" "k < 32" for h k :: nat
    using that by (simp add: le_mod_geq)
  ultimately show ?thesis using ij by (auto split: if_splits)
qed

lemma length_cg_cache [simp]: "length (cg_cache g) = cg_count g"
  by (simp add: cg_cache_def)

text \<open>Looking a sequence number up in the ring is looking it up in the list.\<close>

lemma cg_find_Some:
  assumes "cg_find seq g = Some s"
  obtains i where "i < cg_count g" "s = cg_slot g i" "ge_seq (cg_entries g ! s) = seq"
  using assms by (auto simp: cg_find_def find_Some_iff)

lemma cg_find_None: "cg_find seq g = None \<longleftrightarrow> seq \<notin> fst ` set (cg_cache g)"
  by (auto simp: cg_find_def find_None_iff cg_cache_def cg_item_def image_image)

lemma map_of_distinct_nth:
  "distinct (map fst xs) \<Longrightarrow> i < length xs \<Longrightarrow> map_of xs (fst (xs ! i)) = Some (snd (xs ! i))"
  by (metis map_of_eq_Some_iff nth_mem prod.collapse)

lemma cg_cache_nth: "i < cg_count g \<Longrightarrow> cg_cache g ! i = cg_item g (cg_slot g i)"
  by (simp add: cg_cache_def)

lemma cg_find_lookup:
  assumes "cg_inv g" "cg_find seq g = Some s"
  shows "map_of (cg_cache g) seq = Some (snd (cg_item g s))" "s < 32"
proof -
  obtain i where i: "i < cg_count g" "s = cg_slot g i" "ge_seq (cg_entries g ! s) = seq"
    by (rule cg_find_Some [OF assms(2)])
  have "map_of (cg_cache g) (fst (cg_cache g ! i)) = Some (snd (cg_cache g ! i))"
    by (rule map_of_distinct_nth) (use assms(1) i in \<open>simp_all add: cg_inv_def cg_ring_def\<close>)
  with i show "map_of (cg_cache g) seq = Some (snd (cg_item g s))"
    by (simp add: cg_cache_nth) (simp add: cg_item_def)
  show "s < 32" by (simp add: i(2))
qed

section \<open>Eviction and insertion\<close>

lemma cg_slot_evict: "cg_slot (cg_evict_oldest g) i = cg_slot g (Suc i)"
  by (simp add: cg_slot_def cg_evict_oldest_def mod_simps)

lemma cache_evict:
  assumes "cg_ring g" "cg_count g \<noteq> 0"
  shows "cg_cache (cg_evict_oldest g) = tl (cg_cache g)"
proof -
  have "cg_item (cg_evict_oldest g) (cg_slot g (Suc i)) = cg_item g (cg_slot g (Suc i))"
    if "Suc i < cg_count g" for i
  proof -
    have "cg_slot g (Suc i) \<noteq> cg_slot g 0"
      using cg_slot_inj [of "Suc i" 0 g] that assms(1) by (auto simp: cg_ring_def)
    moreover have "cg_slot g 0 = cg_head g" using assms(1) by (simp add: cg_slot_def cg_ring_def)
    ultimately show ?thesis
      by (simp add: cg_item_def cg_evict_oldest_def flight_clear)
  qed
  note item = this
  have cnt: "cg_count (cg_evict_oldest g) = cg_count g - 1" by (simp add: cg_evict_oldest_def)
  show ?thesis
  proof (rule nth_equalityI)
    fix i assume "i < length (cg_cache (cg_evict_oldest g))"
    then have i: "i < cg_count (cg_evict_oldest g)" "Suc i < cg_count g" by (auto simp: cnt)
    then show "cg_cache (cg_evict_oldest g) ! i = tl (cg_cache g) ! i"
      using assms(2) by (simp add: nth_tl cg_cache_nth cg_slot_evict item)
  qed (simp add: cnt)
qed

lemma evict_ring:
  assumes "cg_ring g" "cg_count g \<noteq> 0"
  shows "cg_ring (cg_evict_oldest g)"
proof -
  let ?g = "cg_evict_oldest g"
  have "s \<in> cg_window ?g" if b: "bit (cg_in_flight ?g) s" for s
  proof -
    have s: "bit (cg_in_flight g) s" "s \<noteq> cg_head g"
      using b assms(1) by (auto simp: cg_evict_oldest_def flight_clear cg_ring_def)
    then obtain i where i: "i < cg_count g" "s = cg_slot g i"
      using assms(1) by (auto simp: cg_ring_def cg_window_def)
    with s(2) assms(1) obtain k where "i = Suc k"
      by (cases i) (auto simp: cg_slot_def cg_ring_def)
    with i show ?thesis
      by (auto simp: cg_window_def cg_slot_evict image_iff) (auto simp: cg_evict_oldest_def)
  qed
  moreover have "distinct (map fst (cg_cache ?g))"
    using distinct_tl [of "map fst (cg_cache g)"] assms
    by (simp add: cache_evict cg_ring_def map_tl)
  ultimately show ?thesis
    using assms by (simp add: cg_ring_def) (auto simp: cg_evict_oldest_def)
qed

definition cg_push :: "Seq \<Rightarrow> CommandGate \<Rightarrow> CommandGate" where
  "cg_push seq g =
     (let s = (cg_head g + cg_count g) mod kDedupCacheCapacity
      in g\<lparr>cg_entries := (cg_entries g)[s := \<lparr>ge_seq = seq, ge_result = AR_Accepted, ge_detail = 0\<rparr>],
           cg_in_flight := cg_in_flight g OR push_bit s 1,
           cg_count := cg_count g + 1\<rparr>)"

lemma cg_push_fields:
  "cg_head (cg_push q g) = cg_head g" "cg_count (cg_push q g) = Suc (cg_count g)"
  "cg_depth (cg_push q g) = cg_depth g" "cg_slot (cg_push q g) = cg_slot g"
  "length (cg_entries (cg_push q g)) = length (cg_entries g)"
  by (simp_all add: cg_push_def Let_def cg_slot_def fun_eq_iff)

lemma cache_push:
  assumes "cg_inv g" "cg_count g < cg_depth g"
  shows "cg_cache (cg_push q g) = cg_cache g @ [(q, None)]"
proof -
  let ?s = "cg_slot g (cg_count g)"
  have c: "cg_count g < 32" and len: "length (cg_entries g) = 32"
    using assms by (auto simp: cg_inv_def cg_ring_def)
  have new: "cg_item (cg_push q g) ?s = (q, None)"
    using len by (simp add: cg_item_def cg_push_def Let_def flight_set flip: cg_slot_def)
  have old: "cg_item (cg_push q g) (cg_slot g i) = cg_item g (cg_slot g i)" if "i < cg_count g" for i
  proof -
    have "cg_slot g i \<noteq> ?s" using cg_slot_inj [of i "cg_count g" g] that c by auto
    then show ?thesis by (simp add: cg_item_def cg_push_def Let_def flight_set flip: cg_slot_def)
  qed
  show ?thesis
    unfolding cg_cache_def cg_push_fields by (simp add: new old)
qed

lemma push_inv:
  assumes "cg_inv g" "cg_count g < cg_depth g" "q \<notin> fst ` set (cg_cache g)"
  shows "cg_inv (cg_push q g)"
proof -
  have "s \<in> cg_window (cg_push q g)" if "bit (cg_in_flight (cg_push q g)) s" for s
  proof -
    have "bit (cg_in_flight g) s \<or> s = cg_slot g (cg_count g)"
      using that by (simp add: cg_push_def Let_def flight_set flip: cg_slot_def)
    then show ?thesis
      using assms(1) by (auto simp: cg_inv_def cg_ring_def cg_window_def cg_push_fields)
  qed
  moreover have "distinct (map fst (cg_cache (cg_push q g)))"
    using assms by (auto simp: cache_push cg_inv_def cg_ring_def)
  ultimately show ?thesis
    using assms by (simp add: cg_inv_def cg_ring_def cg_push_fields)
qed

section \<open>Refinement\<close>

text \<open>The list-level gate: remember the command, forget the oldest one when the cache is full.\<close>

definition gc_insert :: "nat \<Rightarrow> Seq \<Rightarrow> gate_cache \<Rightarrow> gate_cache" where
  "gc_insert depth q c = (if length c = depth then tl c else c) @ [(q, None)]"

definition gc_settle :: "Seq \<Rightarrow> AckResult \<times> u8 \<Rightarrow> gate_cache \<Rightarrow> gate_cache" where
  "gc_settle q r c = map (\<lambda>(s, x). if s = q then (s, Some r) else (s, x)) c"

lemma cg_fields_bump [simp]:
  "cg_cache (cg_bump s g) = cg_cache g" "cg_inv (cg_bump s g) = cg_inv g"
  "cg_high_water (cg_bump s g) = cg_high_water g" "cg_depth (cg_bump s g) = cg_depth g"
  by (simp_all add: cg_bump_def cg_cache_def cg_item_def cg_slot_def cg_inv_def cg_ring_def cg_window_def
      cong: if_cong)

lemma cg_fields_water [simp]:
  "cg_cache (g\<lparr>cg_high_water := w\<rparr>) = cg_cache g" "cg_inv (g\<lparr>cg_high_water := w\<rparr>) = cg_inv g"
  "cg_ring (g\<lparr>cg_high_water := w\<rparr>) = cg_ring g"
  by (simp_all add: cg_cache_def cg_item_def cg_slot_def cg_inv_def cg_ring_def cg_window_def cong: if_cong)

lemma cg_check_run:
  assumes "cg_find q g = None" "seq_newer q (cg_high_water g)"
  shows "snd (cg_check q g) =
    cg_push q (if cg_count g = cg_depth g then cg_evict_oldest (g\<lparr>cg_high_water := q\<rparr>)
               else g\<lparr>cg_high_water := q\<rparr>)"
  using assms by (simp add: cg_check_def cg_push_def Let_def)

lemma execute_refines:
  assumes inv: "cg_inv g" and new: "cg_find q g = None" "seq_newer q (cg_high_water g)"
  shows "cg_cache (snd (cg_check q g)) = gc_insert (cg_depth g) q (cg_cache g)"
    "cg_inv (snd (cg_check q g))" "cg_depth (snd (cg_check q g)) = cg_depth g"
proof -
  let ?h = "g\<lparr>cg_high_water := q\<rparr>"
  have h: "cg_ring ?h" "cg_inv ?h" "cg_cache ?h = cg_cache g" "cg_depth ?h = cg_depth g" "cg_count ?h = cg_count g"
    using inv by (simp_all add: cg_inv_def [of g])
  have q: "q \<notin> fst ` set (cg_cache g)" using new(1) by (simp add: cg_find_None)
  have d: "cg_count g \<le> cg_depth g" "1 \<le> cg_depth g" using inv by (simp_all add: cg_inv_def cg_ring_def)
  show "cg_cache (snd (cg_check q g)) = gc_insert (cg_depth g) q (cg_cache g)"
    "cg_inv (snd (cg_check q g))" "cg_depth (snd (cg_check q g)) = cg_depth g"
  proof (atomize (full), cases "cg_count g = cg_depth g")
    case True
    with d have c: "cg_count ?h \<noteq> 0" by simp
    let ?e = "cg_evict_oldest ?h"
    have e: "cg_inv ?e" "cg_cache ?e = tl (cg_cache g)" "cg_count ?e < cg_depth ?e" "cg_depth ?e = cg_depth g"
      using evict_ring [OF h(1) c] cache_evict [OF h(1) c] True d
      by (simp_all add: cg_evict_oldest_def cg_inv_def)
    have "q \<notin> fst ` set (cg_cache ?e)"
      using q list.set_sel(2) [of "cg_cache g"] unfolding e(2) by (cases "cg_cache g") auto
    with e True show "cg_cache (snd (cg_check q g)) = gc_insert (cg_depth g) q (cg_cache g) \<and>
      cg_inv (snd (cg_check q g)) \<and> cg_depth (snd (cg_check q g)) = cg_depth g"
      by (simp add: cg_check_run [OF new] cache_push push_inv gc_insert_def cg_push_fields)
  next
    case False
    with d h q show "cg_cache (snd (cg_check q g)) = gc_insert (cg_depth g) q (cg_cache g) \<and>
      cg_inv (snd (cg_check q g)) \<and> cg_depth (snd (cg_check q g)) = cg_depth g"
      by (simp add: cg_check_run [OF new] cache_push push_inv gc_insert_def cg_push_fields)
  qed
qed

lemma cg_settled:
  fixes r d
  assumes inv: "cg_inv g" and i: "i < cg_count g"
  defines "s \<equiv> cg_slot g i"
  defines "g' \<equiv> g\<lparr>cg_entries := (cg_entries g)[s := (cg_entries g ! s)\<lparr>ge_result := r, ge_detail := d\<rparr>],
                   cg_in_flight := cg_in_flight g AND NOT (push_bit s 1)\<rparr>"
  shows "cg_cache g' = (cg_cache g)[i := (fst (cg_cache g ! i), Some (r, d))]" "cg_inv g'"
proof -
  have len: "length (cg_entries g) = 32" and c: "cg_count g \<le> 32" and s32: "s < 32"
    using inv by (auto simp: cg_inv_def cg_ring_def s_def)
  have sl: "cg_slot g' = cg_slot g" "cg_count g' = cg_count g" "cg_depth g' = cg_depth g"
    "cg_head g' = cg_head g"
    by (simp_all add: g'_def cg_slot_def fun_eq_iff)
  have new: "cg_item g' s = (fst (cg_item g s), Some (r, d))"
    using len s32 by (simp add: g'_def cg_item_def flight_clear)
  have old: "cg_item g' (cg_slot g j) = cg_item g (cg_slot g j)" if "j < cg_count g" "j \<noteq> i" for j
  proof -
    have "cg_slot g j \<noteq> s" using cg_slot_inj [of j i g] that i c by (auto simp: s_def)
    then show ?thesis by (simp add: g'_def cg_item_def flight_clear cong: if_cong)
  qed
  show cache: "cg_cache g' = (cg_cache g)[i := (fst (cg_cache g ! i), Some (r, d))]"
    by (rule nth_equalityI)
      (use i new old in \<open>auto simp: cg_cache_nth sl nth_list_update s_def\<close>)
  have "cg_in_flight g' = cg_in_flight g AND NOT (2 ^ s)" by (simp add: g'_def)
  then have fl: "bit (cg_in_flight g') t \<Longrightarrow> bit (cg_in_flight g) t" for t
    by (simp add: flight_clear)
  have "map fst (cg_cache g') = map fst (cg_cache g)"
    unfolding cache by (simp add: map_update list_update_same_conv i)
  moreover have "length (cg_entries g') = 32" using len by (simp add: g'_def)
  moreover have "cg_window g' = cg_window g" by (simp add: cg_window_def sl)
  ultimately show "cg_inv g'"
    using inv fl by (simp add: cg_inv_def cg_ring_def sl)
qed

lemma list_update_settle:
  "distinct (map fst c) \<Longrightarrow> i < length c \<Longrightarrow> fst (c ! i) = q \<Longrightarrow> c[i := (q, Some r)] = gc_settle q r c"
proof (rule nth_equalityI)
  fix j assume a: "distinct (map fst c)" "i < length c" "fst (c ! i) = q" "j < length (c[i := (q, Some r)])"
  then have "fst (c ! j) = q \<longleftrightarrow> j = i"
    using nth_eq_iff_index_eq [of "map fst c" i j] by auto
  with a show "c[i := (q, Some r)] ! j = gc_settle q r c ! j"
    by (auto simp: gc_settle_def nth_list_update split_beta prod_eq_iff)
qed (simp add: gc_settle_def)

lemma record_refines:
  assumes "cg_inv g"
  shows "cg_inv (snd (cg_record q r d g))"
    "fst (cg_record q r d g) \<longleftrightarrow> map_of (cg_cache g) q = Some None"
    "cg_cache (snd (cg_record q r d g)) =
      (if map_of (cg_cache g) q = Some None then gc_settle q (r, d) (cg_cache g) else cg_cache g)"
    "cg_depth (snd (cg_record q r d g)) = cg_depth g"
proof -
  show "cg_depth (snd (cg_record q r d g)) = cg_depth g"
    by (simp add: cg_record_def split: option.split)
  have "cg_inv (snd (cg_record q r d g)) \<and>
    (fst (cg_record q r d g) \<longleftrightarrow> map_of (cg_cache g) q = Some None) \<and>
    cg_cache (snd (cg_record q r d g)) =
      (if map_of (cg_cache g) q = Some None then gc_settle q (r, d) (cg_cache g) else cg_cache g)"
  proof (cases "cg_find q g")
    case None
    then have "map_of (cg_cache g) q = None" by (simp add: cg_find_None map_of_eq_None_iff)
    with None assms show ?thesis by (simp add: cg_record_def)
  next
    case (Some s)
    obtain i where i: "i < cg_count g" "s = cg_slot g i" "ge_seq (cg_entries g ! s) = q"
      by (rule cg_find_Some [OF Some])
    note look = cg_find_lookup [OF assms Some]
    have fst: "fst (cg_cache g ! i) = q" using i by (simp add: cg_cache_nth) (simp add: cg_item_def)
    have dist: "distinct (map fst (cg_cache g))" using assms by (simp add: cg_inv_def cg_ring_def)
    have fl: "map_of (cg_cache g) q = Some None \<longleftrightarrow> bit (cg_in_flight g) s"
      using look(1) by (simp add: cg_item_def)
    show ?thesis
    proof (cases "bit (cg_in_flight g) s")
      case True
      with cg_settled [OF assms i(1), where r = r and d = d] list_update_settle [OF dist _ fst, of "(r, d)"] i fst show ?thesis
        unfolding fl by (simp add: cg_record_def Some flight_test look(2) del: bit_and_iff)
    next
      case False
      with assms show ?thesis
        unfolding fl by (simp add: cg_record_def Some flight_test look(2))
    qed
  qed
  then show "cg_inv (snd (cg_record q r d g))"
    "fst (cg_record q r d g) \<longleftrightarrow> map_of (cg_cache g) q = Some None"
    "cg_cache (snd (cg_record q r d g)) =
      (if map_of (cg_cache g) q = Some None then gc_settle q (r, d) (cg_cache g) else cg_cache g)"
    by blast+
qed

lemma shrink_refines:
  assumes "cg_ring g"
  shows "cg_inv (cg_shrink g) \<and> cg_depth (cg_shrink g) = cg_depth g \<and>
    cg_cache (cg_shrink g) = drop (cg_count g - cg_depth g) (cg_cache g)"
  using assms
proof (induction g rule: cg_shrink.induct)
  case (1 g)
  show ?case
  proof (cases "cg_count g > cg_depth g")
    case True
    then have c: "cg_count g \<noteq> 0" by simp
    let ?e = "cg_evict_oldest g"
    have e: "cg_depth ?e = cg_depth g" "cg_count ?e = cg_count g - 1" by (simp_all add: cg_evict_oldest_def)
    have "drop (cg_count ?e - cg_depth ?e) (tl (cg_cache g)) = drop (cg_count g - cg_depth g) (cg_cache g)"
      using True by (simp add: e drop_Suc [symmetric] Suc_diff_Suc)
    with 1 True c evict_ring [OF "1.prems" c] cache_evict [OF "1.prems" c] e show ?thesis
      by (simp add: cg_shrink.simps [of g])
  next
    case False
    with 1 show ?thesis by (simp add: cg_shrink.simps [of g] cg_inv_def)
  qed
qed

lemma depth_refines:
  assumes "cg_inv g"
  shows "cg_inv (cg_set_cache_depth n g)"
    "cg_cache (cg_set_cache_depth n g) =
       drop (cg_count g - cg_depth (cg_set_cache_depth n g)) (cg_cache g)"
proof -
  define k where "k = (let m = (if unat n < 1 then 1 else unat n)
      in if m > kDedupCacheCapacity then kDedupCacheCapacity else m)"
  have eq: "cg_set_cache_depth n g = cg_shrink (g\<lparr>cg_depth := k\<rparr>)"
    by (simp add: cg_set_cache_depth_def k_def Let_def)
  have "cg_cache (g\<lparr>cg_depth := k\<rparr>) = cg_cache g" "cg_window (g\<lparr>cg_depth := k\<rparr>) = cg_window g"
    by (simp_all add: cg_cache_def cg_item_def cg_slot_def cg_window_def cong: if_cong)
  moreover from this have "cg_ring (g\<lparr>cg_depth := k\<rparr>)"
    using assms by (simp add: cg_inv_def cg_ring_def k_def Let_def)
  ultimately show "cg_inv (cg_set_cache_depth n g)"
    "cg_cache (cg_set_cache_depth n g) =
       drop (cg_count g - cg_depth (cg_set_cache_depth n g)) (cg_cache g)"
    using shrink_refines [of "g\<lparr>cg_depth := k\<rparr>"] by (simp_all add: eq)
qed

lemma reset_inv: "cg_inv g \<Longrightarrow> cg_inv (cg_reset_context x g) \<and> cg_cache (cg_reset_context x g) = []"
  by (simp add: cg_inv_def cg_ring_def cg_reset_context_def cg_cache_def)

lemma new_inv: "cg_inv (CommandGate_new c) \<and> cg_cache (CommandGate_new c) = []"
  by (simp add: cg_inv_def cg_ring_def CommandGate_new_def cg_cache_def)

lemma check_inv: "cg_inv g \<Longrightarrow> cg_inv (snd (cg_check q g))"
  using execute_refines(2) [of g q] by (auto simp: cg_check_def Let_def split: option.splits if_splits)

section \<open>Runs of calls\<close>

fun cg_do :: "gate_call \<Rightarrow> CommandGate \<Rightarrow> CommandGate" where
  "cg_do (GC_Check s) g = snd (cg_check s g)"
| "cg_do (GC_Record s r d) g = snd (cg_record s r d g)"
| "cg_do (GC_Depth n) g = cg_set_cache_depth n g"

definition cg_executes :: "gate_call \<Rightarrow> CommandGate \<Rightarrow> Seq list" where
  "cg_executes c g =
     (case c of GC_Check s \<Rightarrow> if gr_verdict (fst (cg_check s g)) = V_Execute then [s] else []
      | _ \<Rightarrow> [])"

text \<open>The sequence numbers the dispatcher is told to execute, in order.\<close>

fun cg_executed :: "gate_call list \<Rightarrow> CommandGate \<Rightarrow> Seq list" where
  "cg_executed [] g = []"
| "cg_executed (c # cs) g = cg_executes c g @ cg_executed cs (cg_do c g)"

fun cg_advance :: "gate_call list \<Rightarrow> CommandGate \<Rightarrow> nat" where
  "cg_advance [] g = 0"
| "cg_advance (c # cs) g =
     unat (cg_high_water (cg_do c g) - cg_high_water g) + cg_advance cs (cg_do c g)"

definition cg_run :: "gate_call list \<Rightarrow> CommandGate \<Rightarrow> CommandGate" where
  "cg_run cs g = foldl (\<lambda>g c. cg_do c g) g cs"

lemma cg_do_eq: "gate.do_call c g = cg_do c g"
  by (cases c) simp_all

lemma cg_advance_eq: "gate.advance cs g = cg_advance cs g"
  by (induction cs arbitrary: g) (simp_all add: cg_do_eq)

lemma cg_executions_eq: "gate.executions s cs g = count_list (cg_executed cs g) s"
  by (induction cs arbitrary: g) (auto simp: cg_do_eq cg_executes_def split: gate_call.split)

lemma cg_do_inv: "cg_inv g \<Longrightarrow> cg_inv (cg_do c g)"
  by (cases c) (simp_all add: check_inv record_refines depth_refines)

lemma cg_run_inv: "cg_inv g \<Longrightarrow> cg_inv (cg_run cs g)"
  unfolding cg_run_def by (induction cs arbitrary: g) (simp_all add: cg_do_inv)

text \<open>An answered command keeps its answer while fewer than \<open>depth\<close> others are executed.\<close>

definition answered :: "Seq \<Rightarrow> AckResult \<times> u8 \<Rightarrow> nat \<Rightarrow> CommandGate \<Rightarrow> bool" where
  "answered q r k g \<longleftrightarrow> (\<exists>xs ys. cg_cache g = xs @ (q, Some r) # ys \<and> length ys \<le> k)"

lemma map_of_split:
  "distinct (map fst c) \<Longrightarrow> c = xs @ (q, x) # ys \<Longrightarrow> map_of c q = Some x"
proof -
  assume d: "distinct (map fst c)" and c: "c = xs @ (q, x) # ys"
  have "(q, x) \<in> set c" by (simp add: c)
  then show ?thesis using d by (simp only: map_of_eq_Some_iff)
qed

lemma answered_step:
  assumes inv: "cg_inv g" and ans: "answered q r k g" and k: "k + length (cg_executes c g) < cg_depth g"
    and c: "\<And>n. c \<noteq> GC_Depth n"
  shows "answered q r (k + length (cg_executes c g)) (cg_do c g)" "cg_depth (cg_do c g) = cg_depth g"
proof -
  obtain xs ys where cache: "cg_cache g = xs @ (q, Some r) # ys" and ys: "length ys \<le> k"
    using ans by (auto simp: answered_def)
  have dist: "distinct (map fst (cg_cache g))" using inv by (simp add: cg_inv_def cg_ring_def)
  have "answered q r (k + length (cg_executes c g)) (cg_do c g) \<and> cg_depth (cg_do c g) = cg_depth g"
  proof (cases c)
    case (GC_Check s)
    show ?thesis
    proof (cases "gr_verdict (fst (cg_check s g)) = V_Execute")
      case True
      then have new: "cg_find s g = None" "seq_newer s (cg_high_water g)" by (simp_all add: cg_check_execute)
      note ex = execute_refines [OF inv new]
      have "length (cg_cache g) = cg_depth g \<Longrightarrow> xs \<noteq> []"
        using k ys GC_Check True by (auto simp: cache cg_executes_def simp del: length_cg_cache)
      then have "gc_insert (cg_depth g) s (cg_cache g) =
          (if length (cg_cache g) = cg_depth g then tl xs else xs) @ (q, Some r) # (ys @ [(s, None)])"
        by (cases xs) (auto simp: gc_insert_def cache simp del: length_cg_cache)
      moreover have "length (ys @ [(s, None)]) \<le> k + 1" using ys by simp
      ultimately have "answered q r (k + 1) (snd (cg_check s g))"
        unfolding answered_def ex(1) by blast
      with ex GC_Check True show ?thesis by (simp add: cg_executes_def)
    next
      case False
      then have "cg_cache (snd (cg_check s g)) = cg_cache g \<and> cg_depth (snd (cg_check s g)) = cg_depth g"
        by (auto simp: cg_check_def Let_def split: option.splits if_splits)
      with GC_Check False ans show ?thesis by (simp add: answered_def cg_executes_def)
    qed
  next
    case (GC_Record s r' d)
    note rec = record_refines [OF inv, of s r' d]
    show ?thesis
    proof (cases "map_of (cg_cache g) s = Some None")
      case True
      then have "s \<noteq> q" using map_of_split [OF dist cache] by auto
      then have "gc_settle s (r', d) (cg_cache g) =
          gc_settle s (r', d) xs @ (q, Some r) # gc_settle s (r', d) ys"
        by (simp add: gc_settle_def cache)
      moreover have "length (gc_settle s (r', d) ys) \<le> k" using ys by (simp add: gc_settle_def)
      ultimately show ?thesis
        using rec True GC_Record by (auto simp: answered_def cg_executes_def)
    next
      case False
      with rec GC_Record ans show ?thesis by (simp add: answered_def cg_executes_def)
    qed
  next
    case (GC_Depth n)
    with c [of n] show ?thesis by contradiction
  qed
  then show "answered q r (k + length (cg_executes c g)) (cg_do c g)" "cg_depth (cg_do c g) = cg_depth g"
    by blast+
qed

lemma answered_run:
  assumes "cg_inv g" "answered q r k g" "k + length (cg_executed cs g) < cg_depth g"
    "\<forall>c \<in> set cs. \<forall>n. c \<noteq> GC_Depth n"
  shows "answered q r (k + length (cg_executed cs g)) (cg_run cs g)"
  using assms
proof (induction cs arbitrary: g k)
  case (Cons c cs)
  have "k + length (cg_executes c g) < cg_depth g" using Cons.prems(3) by simp
  with Cons.prems have "answered q r (k + length (cg_executes c g)) (cg_do c g)"
    "cg_depth (cg_do c g) = cg_depth g"
    using answered_step [of g q r k c] by auto
  with Cons.IH [of "cg_do c g" "k + length (cg_executes c g)"] Cons.prems show ?case
    by (simp add: cg_do_inv cg_run_def add.assoc)
qed (simp add: cg_run_def)

lemma distinct_by_count: "(\<And>x. count_list xs x \<le> 1) \<Longrightarrow> distinct xs"
proof (induction xs)
  case (Cons y ys)
  from Cons.prems [of y] have "y \<notin> set ys" by (simp add: count_list_0_iff)
  moreover have "count_list ys x \<le> 1" for x
    using Cons.prems [of x] by (simp split: if_splits)
  ultimately show ?case using Cons.IH by simp
qed simp

section \<open>Properties\<close>

text \<open>
  C8: no command is executed twice. Whatever the order of checks, retries, completions and cache
  resizes, the sequence numbers the gate releases for execution are pairwise different, as long as
  the high-water mark moves by less than half the sequence space within the context.
\<close>

theorem commands_execute_at_most_once:
  assumes "cg_advance cs g < 32768"
  shows "distinct (cg_executed cs g)"
proof -
  have "count_list (cg_executed cs g) s \<le> 1" for s
    using gate.at_most_once [of cs g s] assms by (simp add: cg_advance_eq cg_executions_eq)
  then show ?thesis by (intro distinct_by_count) simp
qed

theorem commands_execute_at_most_once_witness:
  "cg_executed [GC_Check 1, GC_Check 1] (CommandGate_new None) = [1] \<and>
   distinct (cg_executed [GC_Check 1, GC_Check 1] (CommandGate_new None))"
proof -
  let ?g = "CommandGate_new None"
  have 1: "gr_verdict (fst (cg_check 1 ?g)) = V_Execute"
    by (simp add: cg_check_execute cg_find_def CommandGate_new_def seq_newer_def)
  have hw: "cg_high_water (snd (cg_check 1 ?g)) = 1" "cg_high_water ?g = 0"
    using gate.execute_marks [OF 1] by (simp_all add: CommandGate_new_def)
  have 2: "gr_verdict (fst (cg_check 1 (snd (cg_check 1 ?g)))) \<noteq> V_Execute"
    by (simp add: cg_check_execute hw)
  have "cg_advance [GC_Check 1, GC_Check 1] ?g = 1"
    using gate.others_keep [OF 2] hw by simp
  then have "distinct (cg_executed [GC_Check 1, GC_Check 1] ?g)"
    by (intro commands_execute_at_most_once) simp
  with 1 2 show ?thesis by (simp add: cg_executes_def)
qed

text \<open>
  The ring refines a list of recent commands. A check answers from the list: a finished
  command with its result, a running one with silence, an unknown newer one by executing it, moving
  the mark and appending it (the oldest entry leaving a full cache), and anything else with a
  rejection that changes nothing; and the ring stays well formed.
\<close>

theorem gate_check_refines_list:
  assumes "cg_inv g"
  shows "let (res, g') = cg_check q g in
    cg_inv g' \<and>
    (case map_of (cg_cache g) q of
       Some None \<Rightarrow> gr_verdict res = V_InFlight \<and> cg_cache g' = cg_cache g \<and>
         cg_high_water g' = cg_high_water g
     | Some (Some (r, d)) \<Rightarrow> gr_verdict res = V_ReturnCached \<and> gr_cached_result res = r \<and>
         gr_cached_detail res = d \<and> cg_cache g' = cg_cache g \<and> cg_high_water g' = cg_high_water g
     | None \<Rightarrow>
         if seq_newer q (cg_high_water g)
         then gr_verdict res = V_Execute \<and> cg_cache g' = gc_insert (cg_depth g) q (cg_cache g) \<and>
           cg_high_water g' = q
         else gr_verdict res = V_Reject \<and> cg_cache g' = cg_cache g \<and>
           cg_high_water g' = cg_high_water g)"
proof (cases "cg_find q g")
  case None
  then have m: "map_of (cg_cache g) q = None" by (simp add: cg_find_None map_of_eq_None_iff)
  show ?thesis
  proof (cases "seq_newer q (cg_high_water g)")
    case True
    have "gr_verdict (fst (cg_check q g)) = V_Execute" using None True by (simp add: cg_check_execute)
    with execute_refines [OF assms None True] gate.execute_marks [of q g] True m show ?thesis
      by (simp add: split_beta)
  next
    case False
    with None m assms show ?thesis by (simp add: cg_check_def)
  qed
next
  case (Some s)
  with cg_find_lookup [OF assms Some] assms show ?thesis
    by (simp add: cg_check_def cg_item_def flight_test)
qed

theorem gate_check_refines_list_witness:
  "gr_verdict (fst (cg_check 5 (CommandGate_new None))) = V_Execute"
  using gate_check_refines_list [of "CommandGate_new None" 5] new_inv [of None]
  by (simp add: split_beta seq_newer_def CommandGate_new_def)

text \<open>
  A retry of an answered command gets the recorded answer. Once \<open>record\<close> has stored the
  result of the running command \<open>q\<close>, a check of \<open>q\<close> after any further calls that execute fewer
  than \<open>depth\<close> other commands returns exactly that result and detail.
\<close>

theorem retry_gets_recorded_answer:
  assumes "cg_inv g" "cg_find q g = None" "seq_newer q (cg_high_water g)"
    "g1 = snd (cg_record q r d (snd (cg_check q g)))"
    "length (cg_executed cs g1) < cg_depth g" "\<forall>c \<in> set cs. \<forall>n. c \<noteq> GC_Depth n"
  shows "let res = fst (cg_check q (cg_run cs g1)) in
    gr_verdict res = V_ReturnCached \<and> gr_cached_result res = r \<and> gr_cached_detail res = d"
proof -
  note ex = execute_refines [OF assms(1-3)]
  let ?c = "snd (cg_check q g)"
  have dist: "distinct (map fst (cg_cache ?c))" using ex(2) by (simp add: cg_inv_def cg_ring_def)
  obtain xs where xs: "cg_cache ?c = xs @ [(q, None)]" unfolding ex(1) gc_insert_def by blast
  then have run: "map_of (cg_cache ?c) q = Some None" by (rule map_of_split [OF dist])
  note rec = record_refines [OF ex(2), of q r d]
  have "answered q (r, d) 0 g1"
    unfolding answered_def assms(4) rec(3) using run xs by (auto simp: gc_settle_def)
  moreover have inv: "cg_inv g1" and "cg_depth g1 = cg_depth g"
    using rec ex by (simp_all add: assms(4))
  ultimately have "answered q (r, d) (length (cg_executed cs g1)) (cg_run cs g1)"
    using answered_run [of g1 q "(r, d)" 0 cs] assms(5,6) by simp
  then obtain ys zs where c: "cg_cache (cg_run cs g1) = ys @ (q, Some (r, d)) # zs"
    by (auto simp: answered_def)
  have inv2: "cg_inv (cg_run cs g1)" by (rule cg_run_inv [OF inv])
  then have "map_of (cg_cache (cg_run cs g1)) q = Some (Some (r, d))"
    by (intro map_of_split [OF _ c]) (simp add: cg_inv_def cg_ring_def)
  moreover obtain s where s: "cg_find q (cg_run cs g1) = Some s"
    using c cg_find_None [of q "cg_run cs g1"] by (cases "cg_find q (cg_run cs g1)") auto
  ultimately show ?thesis
    using cg_find_lookup [OF inv2 s] by (simp add: cg_check_def cg_item_def flight_test split: if_splits)
qed

theorem retry_gets_recorded_answer_witness:
  "let g1 = snd (cg_record 1 AR_Accepted 9 (snd (cg_check 1 (CommandGate_new None)))) in
   gr_verdict (fst (cg_check 1 (cg_run [GC_Check 2] g1))) = V_ReturnCached \<and>
   gr_cached_detail (fst (cg_check 1 (cg_run [GC_Check 2] g1))) = 9"
proof -
  let ?g = "CommandGate_new None"
  let ?g1 = "snd (cg_record 1 AR_Accepted 9 (snd (cg_check 1 ?g)))"
  have "cg_find 1 ?g = None" "seq_newer 1 (cg_high_water ?g)" "cg_depth ?g = 8"
    by (simp_all add: CommandGate_new_def cg_find_def seq_newer_def)
  moreover have "length (cg_executed [GC_Check 2] ?g1) \<le> 1"
    by (simp add: cg_executes_def)
  ultimately show ?thesis
    using retry_gets_recorded_answer [of ?g 1 ?g1 AR_Accepted 9 "[GC_Check 2]"] new_inv [of None]
    by (simp add: Let_def)
qed

end
