(* ===== verification/ConfigTable.thy ===== *)
theory ConfigTable
  imports NodeConfig
begin

text \<open>
  The parameter table of \<open>lib/lran-config\<close> (\<open>table.h\<close>): one row per parameter, in a block per
  owner, with the compile-time checks the header makes of its rows, and the \<open>Table\<close> of
  \<open>store.h\<close>/\<open>store.cpp\<close> that joins blocks into one table in ascending id order.

  A \<open>Value\<close> is an \<open>int32_t\<close>: the model keeps it as an integer, and writes the cast to
  \<open>uint32_t\<close> where the source casts. A \<open>const char*\<close> that may be null is a \<open>string option\<close>.
  An array with its count is a list, so the loops over \<open>p[0..n)\<close> are recursions over it.
  The locale \<open>param_rows\<close> states what the rest of the library relies on of a table's rows; it is
  interpreted on the three tables the firmware ships.
\<close>

section \<open>Rows (table.h)\<close>

datatype Access = Ac_ReadWrite | Ac_ReadOnly | Ac_Phy

datatype Owner = Ow_BridgeGlobal | Ow_BridgePerNode | Ow_Node

type_synonym Value = int

record ParamDef =
  pd_id :: u16
  pd_name :: string
  pd_owner :: Owner
  pd_access :: Access
  pd_type :: PType
  pd_min :: Value
  pd_max :: Value
  pd_def :: Value
  pd_unit :: "string option"
  pd_doc :: string

definition row :: "u16 \<Rightarrow> string \<Rightarrow> Owner \<Rightarrow> Access \<Rightarrow> PType \<Rightarrow> Value \<Rightarrow> Value \<Rightarrow> Value \<Rightarrow>
    string option \<Rightarrow> string \<Rightarrow> ParamDef" where
  "row i name owner access type mn mx df unit doc =
     \<lparr>pd_id = i, pd_name = name, pd_owner = owner, pd_access = access, pd_type = type,
      pd_min = mn, pd_max = mx, pd_def = df, pd_unit = unit, pd_doc = doc\<rparr>"

definition kBridgeParams :: "ParamDef list" where
  "kBridgeParams =
    [
     row 0x0001 ''simnode_diag_enable'' Ow_BridgeGlobal Ac_ReadWrite PT_Bool 0 1 0 None
       ''Publish bench nodes, spec 16.6'',
     row 0x0002 ''diag_interval_s'' Ow_BridgeGlobal Ac_ReadWrite PT_U16 10 3600 60 (Some ''s'')
       ''Diagnostics publication period (BF-19)'',
     row 0x0003 ''missed_poll_threshold'' Ow_BridgeGlobal Ac_ReadWrite PT_U8 1 20 3 None
       ''Unanswered polls before offline, spec 16.5'',
     row 0x0004 ''poll_reply_timeout_ms'' Ow_BridgeGlobal Ac_ReadWrite PT_U16 2000 30000 10000 (Some ''ms'')
       ''Poll outstanding before it counts as missed'',
     row 0x0005 ''command_ack_timeout_ms'' Ow_BridgeGlobal Ac_ReadWrite PT_U16 500 30000 3000 (Some ''ms'')
       ''ACK wait before retry, Impl Plan 6.2'',
     row 0x0006 ''cmd_retries'' Ow_BridgeGlobal Ac_ReadWrite PT_U8 0 10 3 None
       ''Retries after the first, SAME seq'',
     row 0x0007 ''cad_retries'' Ow_BridgeGlobal Ac_ReadWrite PT_U8 0 10 5 None
       ''CAD attempts before transmitting regardless, spec 12.3'',
     row 0x0008 ''backoff_max_ms'' Ow_BridgeGlobal Ac_ReadWrite PT_U16 100 5000 1500 (Some ''ms'')
       ''Upper bound of the random CAD backoff, spec 12.3'',
     row 0x0009 ''frag_reassembly_timeout_ms'' Ow_BridgeGlobal Ac_ReadWrite PT_U16 500 30000 5000 (Some ''ms'')
       ''Fragment set window, spec 11.2'',
     row 0x000A ''error_min_interval_ms'' Ow_BridgeGlobal Ac_ReadWrite PT_U16 100 60000 1000 (Some ''ms'')
       ''Floor between ERRORs to one peer, spec 14.2'',
     row 0x000B ''config_readback_timeout_ms'' Ow_BridgeGlobal Ac_ReadWrite PT_U16 1000 60000 15000 (Some ''ms'')
       ''Wait for a split readback to complete, spec 7.4.1 (D57)'',
     row 0x000C ''config_ack_timeout_ms'' Ow_BridgeGlobal Ac_ReadWrite PT_U16 1000 60000 8000 (Some ''ms'')
       ''CONFIG_ACK wait before the outcome is unknown, spec 7.4'',
     row 0x000D ''republish_interval_s'' Ow_BridgeGlobal Ac_ReadWrite PT_U16 60 3600 900 (Some ''s'')
       ''Unchanged state republished at most this often, Impl Plan 6.3'',
     row 0x000E ''bms_stale_s'' Ow_BridgeGlobal Ac_ReadWrite PT_U16 30 3600 600 (Some ''s'')
       ''bms_age_s above this marks BMS entities unavailable, spec 16.4'',
     row 0x000F ''cell_mv_deadband'' Ow_BridgeGlobal Ac_ReadWrite PT_U8 0 50 5 (Some ''mV'')
       ''Cell voltage change that republishes, spec 16.4; 0 = any'',
     row 0x0010 ''freq_hz'' Ow_BridgeGlobal Ac_Phy PT_U32 902000000 928000000 917400000 (Some ''Hz'')
       ''Channel, spec 12.1 - fleet-wide'',
     row 0x0011 ''spreading_factor'' Ow_BridgeGlobal Ac_Phy PT_U8 7 12 9 None
       ''SF, spec 12.1 - fleet-wide'',
     row 0x0012 ''bandwidth_khz'' Ow_BridgeGlobal Ac_Phy PT_U16 125 500 125 (Some ''kHz'')
       ''BW - 125 until an envelope decision, spec 18.2'',
     row 0x0013 ''coding_rate_denominator'' Ow_BridgeGlobal Ac_Phy PT_U8 5 8 5 None
       ''CR 4/N, spec 12.1'',
     row 0x0014 ''tx_power_dbm'' Ow_BridgeGlobal Ac_Phy PT_I16 (- 9) (- 4) (- 4) (Some ''dBm'')
       ''Conducted; the maximum IS D33's ceiling, spec 18.2'',
     row 0x0015 ''phy_trial_s'' Ow_BridgeGlobal Ac_Phy PT_U16 30 900 120 (Some ''s'')
       ''Revert window after a PHY change, spec 12.4'',
     row 0x0020 ''mppt_write_arm_timeout_s'' Ow_BridgeGlobal Ac_ReadWrite PT_U16 30 3600 300 (Some ''s'')
       ''MPPT write-enable auto-expiry, PRD R-3.5b'',
     row 0x0021 ''hex_rsp_timeout_ms'' Ow_BridgeGlobal Ac_ReadWrite PT_U16 1500 30000 3000 (Some ''ms'')
       ''HEX_RSP wait before a read is retried, PRD R-3.5a'',
     row 0x0022 ''charge_readback_interval_h'' Ow_BridgeGlobal Ac_ReadWrite PT_U16 0 720 0 (Some ''h'')
       ''Periodic MPPT charge readback, Impl Plan 6.4; 0 = boot and writes only'',
     row 0x0080 ''poll_interval_s'' Ow_BridgePerNode Ac_ReadWrite PT_U16 10 3600 60 (Some ''s'')
       ''Poll period for this node, BG-4'',
     row 0x0081 ''deployed'' Ow_BridgePerNode Ac_ReadWrite PT_Bool 0 1 0 None
       ''Polled from boot, D61'']"

definition kNodeCommonParams :: "ParamDef list" where
  "kNodeCommonParams =
    [
     row 0x0100 ''dedup_cache_depth'' Ow_Node Ac_ReadWrite PT_U8 1 32 8 None
       ''Cached command results, spec 10.4'',
     row 0x0101 ''frag_reassembly_timeout_ms'' Ow_Node Ac_ReadWrite PT_U16 500 30000 5000 (Some ''ms'')
       ''Fragment set window, spec 11.2'',
     row 0x0102 ''cad_retries'' Ow_Node Ac_ReadWrite PT_U8 0 10 5 None
       ''CAD attempts before transmitting regardless, spec 12.3'',
     row 0x0103 ''backoff_max_ms'' Ow_Node Ac_ReadWrite PT_U16 100 5000 1500 (Some ''ms'')
       ''Upper bound of the random CAD backoff, spec 12.3'',
     row 0x0110 ''freq_hz'' Ow_Node Ac_Phy PT_U32 902000000 928000000 917400000 (Some ''Hz'')
       ''Channel, spec 12.1 - fleet-wide'',
     row 0x0111 ''spreading_factor'' Ow_Node Ac_Phy PT_U8 7 12 9 None
       ''SF, spec 12.1 - fleet-wide'',
     row 0x0112 ''bandwidth_khz'' Ow_Node Ac_Phy PT_U16 125 500 125 (Some ''kHz'')
       ''BW - 125 until an envelope decision, spec 18.2'',
     row 0x0113 ''coding_rate_denominator'' Ow_Node Ac_Phy PT_U8 5 8 5 None
       ''CR 4/N, spec 12.1'',
     row 0x0114 ''tx_power_dbm'' Ow_Node Ac_Phy PT_I16 (- 9) (- 4) (- 4) (Some ''dBm'')
       ''Conducted; the maximum IS D33's ceiling, spec 18.2'',
     row 0x0115 ''phy_trial_s'' Ow_Node Ac_Phy PT_U16 30 900 120 (Some ''s'')
       ''Revert window after a PHY change, spec 12.4'']"

definition kGateLinkParams :: "ParamDef list" where
  "kGateLinkParams =
    [
     row 0x1000 ''relay_pulse_ms'' Ow_Node Ac_ReadWrite PT_U16 100 2000 500 (Some ''ms'')
       ''Relay pulse width, PRD R-3.1.2a'',
     row 0x1001 ''relay_min_spacing_ms'' Ow_Node Ac_ReadWrite PT_U16 100 5000 500 (Some ''ms'')
       ''Least gap between two relay pulses, PRD R-3.1.2b'',
     row 0x1002 ''unlock_settle_ms'' Ow_Node Ac_ReadWrite PT_U16 100 5000 500 (Some ''ms'')
       ''K2 to K4 on an immediate close, Impl Plan 6.1'',
     row 0x1003 ''post_wake_settle_ms'' Ow_Node Ac_ReadWrite PT_U16 0 5000 500 (Some ''ms'')
       ''After a pulse, before state is read, PRD R-3.1.3c'',
     row 0x1004 ''command_confirm_timeout_s'' Ow_Node Ac_ReadWrite PT_U8 2 60 5 (Some ''s'')
       ''Movement wait before a command fails, PRD R-3.1.3c'',
     row 0x1010 ''input_poll_ms'' Ow_Node Ac_ReadWrite PT_U16 20 500 100 (Some ''ms'')
       ''Input expander poll period, PRD R-3.1.4d'',
     row 0x1011 ''input_debounce_samples'' Ow_Node Ac_ReadWrite PT_U8 1 10 2 None
       ''Agreeing reads before an input changes, PRD R-3.1.4d'',
     row 0x1012 ''hold_confirm_ms'' Ow_Node Ac_ReadWrite PT_U16 500 10000 2000 (Some ''ms'')
       ''Stable OPEN without MOVING before a hold, PRD R-3.1.4b'',
     row 0x1020 ''detect_sequence_window_ms'' Ow_Node Ac_ReadWrite PT_U32 5000 300000 60000 (Some ''ms'')
       ''Longest EXIT-to-SAFETY traversal, PRD R-3.2.3e'',
     row 0x1021 ''detect_sequence_idle_ms'' Ow_Node Ac_ReadWrite PT_U16 1000 60000 10000 (Some ''ms'')
       ''Quiet time that resets classification, PRD R-3.2.3e'',
     row 0x1022 ''held_open_alert_repeat_s'' Ow_Node Ac_ReadWrite PT_U16 0 3600 0 (Some ''s'')
       ''Held-open alert repeat, PRD R-3.2.3e; 0 = one per detection'',
     row 0x1023 ''cause_window_ms'' Ow_Node Ac_ReadWrite PT_U16 1000 60000 10000 (Some ''ms'')
       ''EXIT edge to gate opening, read as the wand, Impl Plan 6.3'',
     row 0x1030 ''hex_timeout_ms'' Ow_Node Ac_ReadWrite PT_U16 200 1000 1000 (Some ''ms'')
       ''MPPT HEX reply wait before TIMEOUT, PRD R-3.3d'',
     row 0x1031 ''vedirect_stale_s'' Ow_Node Ac_ReadWrite PT_U8 2 60 5 (Some ''s'')
       ''No complete text block for this long is stale, PRD R-3.3f'',
     row 0x1040 ''bms_poll_s'' Ow_Node Ac_ReadWrite PT_U16 60 3600 300 (Some ''s'')
       ''BLE BMS read period, PRD R-3.4a'',
     row 0x1041 ''charge_inhibit_confirm_s'' Ow_Node Ac_ReadWrite PT_U16 60 3600 300 (Some ''s'')
       ''Inferred charge inhibit must hold this long, PRD R-6.4b'',
     row 0x1042 ''bms_window_max_ms'' Ow_Node Ac_ReadWrite PT_U16 2000 30000 5000 (Some ''ms'')
       ''BLE window cap; LoRa waits no longer, Impl Plan 5.2'',
     row 0x1043 ''charge_inhibit_temp_c'' Ow_Node Ac_ReadWrite PT_I16 (- 20) 10 0 (Some [CHR 0xC2, CHR 0xB0, CHR 0x43])
       ''Coldest pack sensor at or below this inhibits charging, PRD R-6.4a'',
     row 0x1044 ''charge_inhibit_band_ma'' Ow_Node Ac_ReadWrite PT_U16 0 1000 100 (Some ''mA'')
       ''Battery current this close to zero is not charging, PRD R-6.4'',
     row 0x1045 ''charge_inhibit_rise_mv'' Ow_Node Ac_ReadWrite PT_U16 0 500 20 (Some ''mV'')
       ''Battery rise that reads as charging, PRD R-6.4b'',
     row 0x1046 ''bms_retry_s'' Ow_Node Ac_ReadWrite PT_U16 2 60 5 (Some ''s'')
       ''Retry after a window a reply aborted, Impl Plan 5.2'',
     row 0x1050 ''display_timeout_s'' Ow_Node Ac_ReadWrite PT_U16 10 3600 60 (Some ''s'')
       ''Backlight inactivity timeout, PRD R-4.7b'',
     row 0x1051 ''buzzer_enable'' Ow_Node Ac_ReadWrite PT_Bool 0 1 0 None
       ''Panel buzzer, Impl Plan 5.2 ui_task'',
     row 0x1052 ''inject_spacing_ms'' Ow_Node Ac_ReadWrite PT_U16 100 60000 1000 (Some ''ms'')
       ''Gap between injected inputs, PRD R-5.4b'',
     row 0x1060 ''watchdog_timeout_s'' Ow_Node Ac_ReadWrite PT_U8 5 60 10 (Some ''s'')
       ''Task watchdog timeout, fed by app_task, Impl Plan 5.2'']"

abbreviation kMaxTableParams :: nat where "kMaxTableParams \<equiv> 64"
abbreviation kPhyGroupSize :: nat where "kPhyGroupSize \<equiv> 6"
abbreviation kNodeGateLink :: NodeId where "kNodeGateLink \<equiv> 0x01"

text \<open>A null block is the empty list.\<close>

definition node_block :: "NodeId \<Rightarrow> ParamDef list" where
  "node_block node = (if node = kNodeGateLink then kGateLinkParams else [])"

section \<open>Checks of the rows (table.h)\<close>

fun ids_ascending :: "ParamDef list \<Rightarrow> bool" where
  "ids_ascending (a # b # p) \<longleftrightarrow> pd_id a < pd_id b \<and> ids_ascending (b # p)"
| "ids_ascending _ \<longleftrightarrow> True"

definition in_block :: "ParamDef list \<Rightarrow> u16 \<Rightarrow> u16 \<Rightarrow> bool" where
  "in_block p lo hi \<longleftrightarrow> list_all (\<lambda>d. \<not> (pd_id d < lo \<or> pd_id d > hi)) p"

definition defaults_in_range :: "ParamDef list \<Rightarrow> bool" where
  "defaults_in_range p \<longleftrightarrow>
     list_all (\<lambda>d. \<not> pd_min d > pd_max d \<and> \<not> (pd_def d < pd_min d \<or> pd_def d > pd_max d)) p"

text \<open>
  \<open>phy_rows_agree\<close>: every PHY row of the bridge has a namesake among the node's, every namesake
  agrees in type, range and default, and both sides have exactly the six rows of the group. The
  inner loop of the source is \<open>phy_namesakes\<close>: \<open>None\<close> is its \<open>return false\<close>, \<open>Some found\<close> its end.
\<close>

fun phy_namesakes :: "ParamDef \<Rightarrow> ParamDef list \<Rightarrow> bool \<Rightarrow> bool option" where
  "phy_namesakes b [] found = Some found"
| "phy_namesakes b (n # ns) found =
     (if pd_access n \<noteq> Ac_Phy \<or> pd_name b \<noteq> pd_name n then phy_namesakes b ns found
      else if pd_type b \<noteq> pd_type n \<or> pd_min b \<noteq> pd_min n \<or> pd_max b \<noteq> pd_max n \<or> pd_def b \<noteq> pd_def n
        then None
      else phy_namesakes b ns True)"

fun phy_matched :: "ParamDef list \<Rightarrow> ParamDef list \<Rightarrow> nat \<Rightarrow> nat option" where
  "phy_matched [] ns matched = Some matched"
| "phy_matched (b # bs) ns matched =
     (if pd_access b \<noteq> Ac_Phy then phy_matched bs ns matched
      else (case phy_namesakes b ns False of
              Some True \<Rightarrow> phy_matched bs ns (matched + 1)
            | _ \<Rightarrow> None))"

definition phy_rows_agree :: "ParamDef list \<Rightarrow> ParamDef list \<Rightarrow> bool" where
  "phy_rows_agree b n =
     (case phy_matched b n 0 of
        None \<Rightarrow> False
      | Some matched \<Rightarrow> matched = length (filter (\<lambda>d. pd_access d = Ac_Phy) n) \<and>
                        matched = kPhyGroupSize)"

section \<open>Listed values (table.h)\<close>

record ParamPoints =
  pp_name :: string
  pp_points :: "Value list"

definition kParamPoints :: "ParamPoints list" where
  "kParamPoints = [\<lparr>pp_name = ''bandwidth_khz'', pp_points = [125, 250, 500]\<rparr>]"

definition points_for :: "ParamDef \<Rightarrow> ParamPoints option" where
  "points_for d = List.find (\<lambda>p. pd_name d = pp_name p) kParamPoints"

definition value_allowed :: "ParamDef \<Rightarrow> Value \<Rightarrow> bool" where
  "value_allowed d v =
     (case points_for d of None \<Rightarrow> True | Some p \<Rightarrow> list_ex (\<lambda>x. x = v) (pp_points p))"

definition points_hold_ends :: "ParamDef list \<Rightarrow> bool" where
  "points_hold_ends p \<longleftrightarrow>
     list_all (\<lambda>d. \<not> (\<not> value_allowed d (pd_min d) \<or> \<not> value_allowed d (pd_max d) \<or>
                      \<not> value_allowed d (pd_def d))) p"

section \<open>Widths (table.h)\<close>

fun ptype_width :: "PType \<Rightarrow> nat" where
  "ptype_width PT_U8 = 1"
| "ptype_width PT_Bool = 1"
| "ptype_width PT_U16 = 2"
| "ptype_width PT_I16 = 2"
| "ptype_width PT_U32 = 4"
| "ptype_width PT_I32 = 4"
| "ptype_width (PT_Other _) = 0"

definition readback_bytes :: "ParamDef list \<Rightarrow> nat" where
  "readback_bytes p = foldl (\<lambda>b d. b + (5 + ptype_width (pd_type d))) 0 p"

section \<open>Table (store.h, store.cpp)\<close>

abbreviation kMaxBlocks :: nat where "kMaxBlocks \<equiv> 3"

text \<open>\<open>blocks_\<close> and \<open>counts_\<close> are a list of blocks, \<open>nblocks_\<close> its length.\<close>

record Table =
  tb_blocks :: "ParamDef list list"
  tb_total :: nat

definition Table_new :: Table where
  "Table_new = \<lparr>tb_blocks = [], tb_total = 0\<rparr>"

definition add_block :: "ParamDef list \<Rightarrow> Table \<Rightarrow> bool \<times> Table" where
  "add_block rows t =
     (if rows = [] then (False, t)
      else if length (tb_blocks t) \<ge> kMaxBlocks then (False, t)
      else if tb_total t + length rows > kMaxTableParams then (False, t)
      else if tb_blocks t \<noteq> [] \<and> \<not> pd_id (last (last (tb_blocks t))) < pd_id (hd rows) then (False, t)
      else (True, t\<lparr>tb_blocks := tb_blocks t @ [rows], tb_total := tb_total t + length rows\<rparr>))"

fun at_blocks :: "ParamDef list list \<Rightarrow> nat \<Rightarrow> ParamDef option" where
  "at_blocks [] i = None"
| "at_blocks (b # bs) i = (if i < length b then Some (b ! i) else at_blocks bs (i - length b))"

definition table_at :: "Table \<Rightarrow> nat \<Rightarrow> ParamDef option" where
  "table_at t i = at_blocks (tb_blocks t) i"

fun find_blocks :: "ParamDef list list \<Rightarrow> u16 \<Rightarrow> ParamDef option" where
  "find_blocks [] i = None"
| "find_blocks (b # bs) i =
     (case List.find (\<lambda>d. pd_id d = i) b of Some d \<Rightarrow> Some d | None \<Rightarrow> find_blocks bs i)"

definition table_find :: "Table \<Rightarrow> u16 \<Rightarrow> ParamDef option" where
  "table_find t i = find_blocks (tb_blocks t) i"

section \<open>A table as one list of rows\<close>

definition tb_rows :: "Table \<Rightarrow> ParamDef list" where
  "tb_rows t = concat (tb_blocks t)"

definition tb_wf :: "Table \<Rightarrow> bool" where
  "tb_wf t \<longleftrightarrow> [] \<notin> set (tb_blocks t) \<and> tb_total t = length (tb_rows t) \<and>
     length (tb_rows t) \<le> kMaxTableParams \<and> length (tb_blocks t) \<le> kMaxBlocks"

lemma tb_wf_new: "tb_wf Table_new"
  by (simp add: tb_wf_def Table_new_def tb_rows_def)

lemma add_block_wf: "tb_wf t \<Longrightarrow> tb_wf (snd (add_block rows t))"
  by (auto simp: tb_wf_def add_block_def tb_rows_def)

lemma add_block_rows:
  "fst (add_block rows t) \<Longrightarrow> tb_rows (snd (add_block rows t)) = tb_rows t @ rows"
  by (auto simp: add_block_def tb_rows_def split: if_splits)

lemma table_at_rows: "table_at t i = (if i < length (tb_rows t) then Some (tb_rows t ! i) else None)"
proof -
  have "at_blocks bs i = (if i < length (concat bs) then Some (concat bs ! i) else None)" for bs
    by (induction bs arbitrary: i) (auto simp: nth_append)
  then show ?thesis by (simp add: table_at_def tb_rows_def)
qed

lemma find_append:
  "List.find P (xs @ ys) = (case List.find P xs of Some x \<Rightarrow> Some x | None \<Rightarrow> List.find P ys)"
  by (induction xs) auto

lemma table_find_rows: "table_find t i = List.find (\<lambda>d. pd_id d = i) (tb_rows t)"
proof -
  have "find_blocks bs i = List.find (\<lambda>d. pd_id d = i) (concat bs)" for bs
    by (induction bs) (auto simp: find_append split: option.split)
  then show ?thesis by (simp add: table_find_def tb_rows_def)
qed

lemma find_id_SomeD:
  "List.find (\<lambda>d. pd_id d = i) rows = Some d \<Longrightarrow> d \<in> set rows \<and> pd_id d = i"
  by (induction rows) (auto split: if_splits)

lemma table_find_SomeD: "table_find t i = Some d \<Longrightarrow> d \<in> set (tb_rows t) \<and> pd_id d = i"
  unfolding table_find_rows by (rule find_id_SomeD)

lemma ids_ascending_iff: "ids_ascending rows \<longleftrightarrow> sorted_wrt (<) (map pd_id rows)"
proof (induction rows rule: ids_ascending.induct)
  case (1 a b p)
  then show ?case by (simp only: ids_ascending.simps list.map sorted_wrt2 [OF transp_on_less])
qed simp_all

lemma ids_ascending_append:
  "ids_ascending (xs @ ys) \<longleftrightarrow>
   ids_ascending xs \<and> ids_ascending ys \<and> (xs \<noteq> [] \<and> ys \<noteq> [] \<longrightarrow> pd_id (last xs) < pd_id (hd ys))"
proof (induction xs)
  case (Cons x xs)
  then show ?case by (cases xs; cases ys) auto
qed simp

section \<open>What the library relies on of a table\<close>

lemma ptype_holds_between:
  "ptype_holds t lo \<Longrightarrow> ptype_holds t hi \<Longrightarrow> lo \<le> v \<Longrightarrow> v \<le> hi \<Longrightarrow> ptype_holds t v"
  by (cases t) auto

lemma ptype_holds_width: "ptype_holds t v \<Longrightarrow> param_value_len t = ptype_width t \<and> ptype_width t \<in> {1, 2, 4}"
  by (cases t) auto

definition row_fits :: "ParamDef \<Rightarrow> bool" where
  "row_fits d \<longleftrightarrow> ptype_holds (pd_type d) (pd_min d) \<and> ptype_holds (pd_type d) (pd_max d)"

text \<open>The parameter's range, less what its list of values excludes.\<close>

definition valid_value :: "ParamDef \<Rightarrow> Value \<Rightarrow> bool" where
  "valid_value d v \<longleftrightarrow> pd_min d \<le> v \<and> v \<le> pd_max d \<and> value_allowed d v"

locale param_rows =
  fixes rows :: "ParamDef list"
  assumes ascending: "ids_ascending rows"
    and in_range: "defaults_in_range rows"
    and listed_ends: "points_hold_ends rows"
    and fits: "list_all row_fits rows"
    and phy_group: "length (filter (\<lambda>d. pd_access d = Ac_Phy) rows) \<le> kPhyGroupSize"
begin

lemma distinct_ids: "distinct (map pd_id rows)"
  using ascending by (simp add: ids_ascending_iff strict_sorted_iff)

lemma find_row: "d \<in> set rows \<Longrightarrow> List.find (\<lambda>r. pd_id r = pd_id d) rows = Some d"
  using distinct_ids by (induction rows) (auto simp: image_iff)

lemma def_valid: "d \<in> set rows \<Longrightarrow> valid_value d (pd_def d)"
  using in_range listed_ends
  by (auto simp: valid_value_def defaults_in_range_def points_hold_ends_def list_all_iff)

lemma min_max_valid: "d \<in> set rows \<Longrightarrow> valid_value d (pd_min d) \<and> valid_value d (pd_max d)"
  using in_range listed_ends
  by (auto simp: valid_value_def defaults_in_range_def points_hold_ends_def list_all_iff)

lemma valid_fits: "d \<in> set rows \<Longrightarrow> valid_value d v \<Longrightarrow> ptype_holds (pd_type d) v"
  using fits by (auto simp: valid_value_def list_all_iff row_fits_def intro: ptype_holds_between)

lemma row_width: "d \<in> set rows \<Longrightarrow>
    param_value_len (pd_type d) = ptype_width (pd_type d) \<and> ptype_width (pd_type d) \<in> {1, 2, 4}"
  using fits ptype_holds_width by (auto simp: list_all_iff row_fits_def)

end

section \<open>The tables as shipped\<close>

lemmas shipped_tables = kBridgeParams_def kNodeCommonParams_def kGateLinkParams_def row_def

lemma shipped_ascending:
  "ids_ascending kBridgeParams" "ids_ascending (kNodeCommonParams @ kGateLinkParams)"
  "ids_ascending kNodeCommonParams"
  by (simp_all add: shipped_tables)

lemma shipped_ranges:
  "defaults_in_range kBridgeParams" "defaults_in_range (kNodeCommonParams @ kGateLinkParams)"
  "defaults_in_range kNodeCommonParams"
  by (simp_all add: shipped_tables defaults_in_range_def)

lemma shipped_points:
  "points_hold_ends kBridgeParams" "points_hold_ends (kNodeCommonParams @ kGateLinkParams)"
  "points_hold_ends kNodeCommonParams"
  by (simp_all add: shipped_tables points_hold_ends_def value_allowed_def points_for_def kParamPoints_def)

lemma shipped_fits:
  "list_all row_fits kBridgeParams" "list_all row_fits (kNodeCommonParams @ kGateLinkParams)"
  "list_all row_fits kNodeCommonParams"
  by (simp_all add: shipped_tables row_fits_def)

lemma shipped_phy:
  "length (filter (\<lambda>d. pd_access d = Ac_Phy) kBridgeParams) = kPhyGroupSize"
  "length (filter (\<lambda>d. pd_access d = Ac_Phy) kNodeCommonParams) = kPhyGroupSize"
  "length (filter (\<lambda>d. pd_access d = Ac_Phy) kGateLinkParams) = 0"
  by (simp_all add: shipped_tables)

interpretation bridge_rows: param_rows kBridgeParams
  by unfold_locales (simp_all add: shipped_ascending shipped_ranges shipped_points shipped_fits shipped_phy)

interpretation node_rows: param_rows kNodeCommonParams
  by unfold_locales (simp_all add: shipped_ascending shipped_ranges shipped_points shipped_fits shipped_phy)

interpretation gatelink_rows: param_rows "kNodeCommonParams @ kGateLinkParams"
  by unfold_locales
    (use shipped_ascending shipped_ranges shipped_points shipped_fits shipped_phy in simp_all)

end
