(* ===== verification/ConfigStore.thy ===== *)
theory ConfigStore
  imports ConfigTable
begin

text \<open>
  The override store of \<open>lib/lran-config\<close> (\<open>store.h\<close>, \<open>store.cpp\<close>): compiled defaults from the
  table, overrides in RAM, the PHY group's trial copy, and the injected nonvolatile store.

  \<open>Persist\<close> is an interface the firmware implements. It is a record of operations on a state of
  any type, and the store holds that state, \<open>None\<close> for a null pointer; \<open>persist\<close> is the contract
  the interface documents. The fixed arrays with their counts are lists. The store holds its
  table by value: the source holds a reference to a table that does not change while the store
  is in use.
\<close>

section \<open>Persist (store.h)\<close>

record 'p Persist =
  ps_usable :: "'p \<Rightarrow> bool"
  ps_save :: "u16 \<Rightarrow> Value \<Rightarrow> 'p \<Rightarrow> bool \<times> 'p"
  ps_clear_all :: "'p \<Rightarrow> bool \<times> 'p"
  ps_save_group :: "(u16 \<times> Value) list \<Rightarrow> 'p \<Rightarrow> bool \<times> 'p"

section \<open>Store state (store.h)\<close>

record Override =
  ov_id :: u16
  ov_value :: Value
  ov_set :: bool

record 'p Store =
  so_table :: Table
  so_persist :: "'p option"
  so_overrides :: "Override list"
  so_phy_trial_enabled :: bool
  so_trial :: "Override list"

record ReadbackCursor =
  rc_next :: nat
  rc_messages :: nat

definition ReadbackCursor_init :: ReadbackCursor where
  "ReadbackCursor_init = \<lparr>rc_next = 0, rc_messages = 0\<rparr>"

definition Store_new :: "Table \<Rightarrow> 'p option \<Rightarrow> 'p Store" where
  "Store_new t p = \<lparr>so_table = t, so_persist = p, so_overrides = [], so_phy_trial_enabled = False,
                    so_trial = []\<rparr>"

definition result_bytes :: "PType \<Rightarrow> nat" where
  "result_bytes t = kConfigAckEntryHdrLen + ptype_width t"

section \<open>Operations (store.cpp)\<close>

definition raw_bits :: "Value \<Rightarrow> PType \<Rightarrow> u32" where
  "raw_bits v t =
     (if ptype_width t = 1 then word_of_int v AND 0xFF
      else if ptype_width t = 2 then word_of_int v AND 0xFFFF
      else word_of_int v)"

definition clamp :: "Value \<Rightarrow> ParamDef \<Rightarrow> Value" where
  "clamp v d = (if v < pd_min d then pd_min d else if v > pd_max d then pd_max d else v)"

definition st_find :: "u16 \<Rightarrow> 'p Store \<Rightarrow> ParamDef option" where
  "st_find i st = table_find (so_table st) i"

definition slot_of :: "u16 \<Rightarrow> Override list \<Rightarrow> Override option" where
  "slot_of i os = List.find (\<lambda>x. ov_id x = i) os"

definition slot :: "u16 \<Rightarrow> 'p Store \<Rightarrow> Override option" where
  "slot i st = slot_of i (so_overrides st)"

definition trial_slot :: "u16 \<Rightarrow> 'p Store \<Rightarrow> Override option" where
  "trial_slot i st = slot_of i (so_trial st)"

definition enable_phy_trial :: "'p Store \<Rightarrow> 'p Store" where
  "enable_phy_trial st = st\<lparr>so_phy_trial_enabled := True\<rparr>"

definition phy_trial_pending :: "'p Store \<Rightarrow> bool" where
  "phy_trial_pending st \<longleftrightarrow> so_trial st \<noteq> []"

definition persist_usable :: "'p Persist \<Rightarrow> 'p Store \<Rightarrow> bool" where
  "persist_usable ops st = (case so_persist st of None \<Rightarrow> False | Some p \<Rightarrow> ps_usable ops p)"

definition phy_writable :: "'p Persist \<Rightarrow> 'p Store \<Rightarrow> bool" where
  "phy_writable ops st \<longleftrightarrow> so_phy_trial_enabled st \<and> persist_usable ops st"

text \<open>
  Writing through a slot pointer: the first entry with the id takes the value, or a new entry is
  appended. The caller has checked that there is room.
\<close>

fun put_override :: "u16 \<Rightarrow> Value \<Rightarrow> Override list \<Rightarrow> Override list" where
  "put_override i v [] = [\<lparr>ov_id = i, ov_value = v, ov_set = True\<rparr>]"
| "put_override i v (x # os) =
     (if ov_id x = i then x\<lparr>ov_value := v, ov_set := True\<rparr> # os else x # put_override i v os)"

text \<open>The boolean is \<open>set_override(...) != nullptr\<close>.\<close>

definition set_override :: "u16 \<Rightarrow> Value \<Rightarrow> 'p Store \<Rightarrow> bool \<times> 'p Store" where
  "set_override i v st =
     (if slot i st = None \<and> length (so_overrides st) \<ge> kMaxTableParams then (False, st)
      else (True, st\<lparr>so_overrides := put_override i v (so_overrides st)\<rparr>))"

definition effective :: "u16 \<Rightarrow> 'p Store \<Rightarrow> Value" where
  "effective i st =
     (case st_find i st of
        None \<Rightarrow> 0
      | Some d \<Rightarrow>
          (case trial_slot i st of
             Some t \<Rightarrow> ov_value t
           | None \<Rightarrow> (case slot i st of
                       Some x \<Rightarrow> if ov_set x then ov_value x else pd_def d
                     | None \<Rightarrow> pd_def d)))"

definition is_override :: "u16 \<Rightarrow> 'p Store \<Rightarrow> bool" where
  "is_override i st = (case slot i st of None \<Rightarrow> False | Some x \<Rightarrow> ov_set x)"

definition marked_override :: "u16 \<Rightarrow> 'p Store \<Rightarrow> bool" where
  "marked_override i st \<longleftrightarrow> trial_slot i st \<noteq> None \<or> is_override i st"

text \<open>
  The result of an entry: \<open>entry_pack\<close> fills a default \<open>ConfigAckEntry\<close>, which it leaves as it is
  when the type has no width, and the caller then sets the override bit.
\<close>

definition packed_result :: "u16 \<Rightarrow> ParamStatus \<Rightarrow> PType \<Rightarrow> Value \<Rightarrow> bool \<Rightarrow> ConfigAckEntry" where
  "packed_result i s t v ov =
     (case entry_pack_ack i s t (raw_bits v t) of None \<Rightarrow> ConfigAckEntry_init | Some e \<Rightarrow> e)
       \<lparr>cae_is_override := ov\<rparr>"

definition held_result :: "u16 \<Rightarrow> ParamStatus \<Rightarrow> PType \<Rightarrow> 'p Store \<Rightarrow> ConfigAckEntry" where
  "held_result i s t st = packed_result i s t (effective i st) (marked_override i st)"

text \<open>\<open>persist_ != nullptr && persist_->usable() && persist_->save(id, v)\<close>.\<close>

definition try_save :: "'p Persist \<Rightarrow> u16 \<Rightarrow> Value \<Rightarrow> 'p option \<Rightarrow> bool \<times> 'p option" where
  "try_save ops i v q =
     (case q of
        None \<Rightarrow> (False, None)
      | Some p \<Rightarrow> if ps_usable ops p then let (ok, p') = ps_save ops i v p in (ok, Some p')
                   else (False, Some p))"

text \<open>\<open>apply\<close>: the result, \<open>*applied\<close>, \<open>*persisted\<close> and the store after it.\<close>

definition store_apply ::
  "'p Persist \<Rightarrow> ConfigEntry \<Rightarrow> 'p Store \<Rightarrow> (ConfigAckEntry \<times> bool \<times> bool) \<times> 'p Store" where
  "store_apply ops e st =
     (let i = ce_param_id e in
      case st_find i st of
        None \<Rightarrow> ((ConfigAckEntry_init\<lparr>cae_param_id := i, cae_status := Pa_UnknownParam,
                    cae_ptype := ce_ptype e, cae_len := 0\<rparr>, False, True), st)
      | Some d \<Rightarrow>
          let t = pd_type d in
          if ce_ptype e \<noteq> t \<or> unat (ce_len e) \<noteq> ptype_width t then
            ((held_result i Pa_TypeMismatch t st, False, True), st)
          else if pd_access d = Ac_ReadOnly \<or> (pd_access d = Ac_Phy \<and> \<not> phy_writable ops st) then
            ((held_result i Pa_ReadOnly t st, False, True), st)
          else
            let requested = entry_signed (ce_value e) (ce_len e) (ce_ptype e);
                eff = clamp requested d in
            if \<not> value_allowed d eff then ((held_result i Pa_InvalidValue t st, False, True), st)
            else
              let status = (if eff = requested then Pa_Ok else Pa_Clamped) in
              if pd_access d = Ac_Phy then
                ((packed_result i status t eff True, True, False),
                 st\<lparr>so_trial := put_override i eff (so_trial st)\<rparr>)
              else
                (case set_override i eff st of
                   (False, st) \<Rightarrow> ((held_result i Pa_TypeMismatch t st, False, True), st)
                 | (True, st) \<Rightarrow>
                     (let (saved, p) = try_save ops i eff (so_persist st)
                      in ((packed_result i status t eff True, True, saved), st\<lparr>so_persist := p\<rparr>))))"

definition restore :: "'p Persist \<Rightarrow> u16 \<Rightarrow> Value \<Rightarrow> 'p Store \<Rightarrow> bool \<times> 'p Store" where
  "restore ops i v st =
     (case st_find i st of
        None \<Rightarrow> (False, st)
      | Some d \<Rightarrow>
          if pd_access d = Ac_ReadOnly then (False, st)
          else if pd_access d = Ac_Phy \<and> \<not> phy_writable ops st then (False, st)
          else let eff = clamp v d in
            if \<not> value_allowed d eff then (False, st) else set_override i eff st)"

text \<open>The group \<open>commit_phy_trial\<close> collects: the first six PHY rows of the table, in its order.\<close>

definition phy_rows :: "'p Store \<Rightarrow> (u16 \<times> Value) list" where
  "phy_rows st = map (\<lambda>d. (pd_id d, effective (pd_id d) st))
     (take kPhyGroupSize (filter (\<lambda>d. pd_access d = Ac_Phy) (tb_rows (so_table st))))"

definition commit_phy_trial :: "'p Persist \<Rightarrow> 'p Store \<Rightarrow> bool \<times> 'p Store" where
  "commit_phy_trial ops st =
     (if so_trial st = [] then (True, st)
      else if \<not> phy_writable ops st then (False, st)
      else let group = phy_rows st;
               (ok, p) = ps_save_group ops group (the (so_persist st));
               st = st\<lparr>so_persist := Some p\<rparr> in
        if \<not> ok then (False, st)
        else (True, (foldl (\<lambda>s (i, v). snd (set_override i v s)) st group)\<lparr>so_trial := []\<rparr>))"

definition revert_phy_trial :: "'p Store \<Rightarrow> 'p Store" where
  "revert_phy_trial st = st\<lparr>so_trial := []\<rparr>"

definition names_phy :: "'p Store \<Rightarrow> Override \<Rightarrow> bool" where
  "names_phy st x = (case st_find (ov_id x) st of None \<Rightarrow> False | Some d \<Rightarrow> pd_access d = Ac_Phy)"

definition forget_phy_group :: "'p Store \<Rightarrow> 'p Store" where
  "forget_phy_group st =
     st\<lparr>so_trial := [], so_overrides := filter (\<lambda>x. \<not> names_phy st x) (so_overrides st)\<rparr>"

definition restore_defaults :: "'p Persist \<Rightarrow> 'p Store \<Rightarrow> bool \<times> 'p Store" where
  "restore_defaults ops st =
     (let kept = take kPhyGroupSize (filter (names_phy st) (so_overrides st));
          st = foldl (\<lambda>s x. snd (set_override (ov_id x) (ov_value x) s)) (st\<lparr>so_overrides := []\<rparr>) kept
      in case so_persist st of
           None \<Rightarrow> (False, st)
         | Some p \<Rightarrow> if \<not> ps_usable ops p then (False, st)
                      else let (ok, p) = ps_clear_all ops p in (ok, st\<lparr>so_persist := Some p\<rparr>))"

definition read_persist_status :: "'p Persist \<Rightarrow> 'p Store \<Rightarrow> PersistStatus" where
  "read_persist_status ops st =
     (if so_trial st \<noteq> [] then PS_AppliedNotPersisted
      else if so_overrides st = [] then PS_Persisted
      else if \<not> persist_usable ops st then PS_AppliedNotPersisted
      else PS_Persisted)"

definition store_get :: "u16 \<Rightarrow> 'p Store \<Rightarrow> ConfigAckEntry" where
  "store_get i st =
     (case st_find i st of
        None \<Rightarrow> ConfigAckEntry_init\<lparr>cae_param_id := i, cae_status := Pa_UnknownParam, cae_len := 0\<rparr>
      | Some d \<Rightarrow> held_result i Pa_Ok (pd_type d) st)"

text \<open>
  The filling loop of \<open>next_readback_message\<close>: from the cursor on, while rows remain, fit in the
  payload and in the entry array.
\<close>

function readback_fill :: "'p Store \<Rightarrow> nat \<Rightarrow> nat \<Rightarrow> ConfigAckEntry list \<Rightarrow> ConfigAckEntry list \<times> nat" where
  "readback_fill st used next es =
     (if next < tb_total (so_table st) then
        (case table_at (so_table st) next of
           None \<Rightarrow> (es, next)
         | Some d \<Rightarrow>
             let cost = result_bytes (pd_type d) in
             if used + cost > kMaxSchemaPayload then (es, next)
             else if length es \<ge> kMaxConfigAckEntries then (es, next)
             else readback_fill st (used + cost) (next + 1)
                    (es @ [held_result (pd_id d) Pa_Ok (pd_type d) st]))
      else (es, next))"
  by pat_completeness auto

termination
  by (relation "measure (\<lambda>(st, used, next, es). tb_total (so_table st) - next)") auto

declare readback_fill.simps [simp del]

text \<open>\<open>None\<close> is the early return false, before \<open>*out\<close> is touched.\<close>

definition next_readback_message ::
  "'p Persist \<Rightarrow> ConfigOp \<Rightarrow> 'p Store \<Rightarrow> ReadbackCursor \<Rightarrow> (bool \<times> NodeConfigAckV1 \<times> ReadbackCursor) option" where
  "next_readback_message ops op st cur =
     (if rc_next cur \<ge> tb_total (so_table st) then None
      else if rc_messages cur \<ge> kMaxConfigAckMessages then None
      else let (es, next) = readback_fill st kConfigAckHdrLen (rc_next cur) [];
               messages = rc_messages cur + 1;
               more = (next < tb_total (so_table st) \<and> messages < kMaxConfigAckMessages)
        in Some (es \<noteq> [],
             \<lparr>nca_op = op, nca_more_follows = more, nca_persist_status = read_persist_status ops st,
              nca_entries = es\<rparr>,
             \<lparr>rc_next = next, rc_messages = messages\<rparr>))"

section \<open>Slot lists\<close>

lemma slot_of_put:
  "slot_of j (put_override i v os) =
     (if j = i then Some \<lparr>ov_id = i, ov_value = v, ov_set = True\<rparr> else slot_of j os)"
  by (induction os) (auto simp: slot_of_def)

lemma slot_of_Nil [simp]: "slot_of i [] = None"
  by (simp add: slot_of_def)

lemma slot_of_SomeD: "slot_of i os = Some x \<Longrightarrow> x \<in> set os \<and> ov_id x = i"
  by (induction os) (auto simp: slot_of_def split: if_splits)

lemma slot_of_None_iff: "slot_of i os = None \<longleftrightarrow> i \<notin> ov_id ` set os"
  by (auto simp: slot_of_def find_None_iff)

lemma slot_of_mem: "distinct (map ov_id os) \<Longrightarrow> x \<in> set os \<Longrightarrow> slot_of (ov_id x) os = Some x"
  by (induction os) (auto simp: slot_of_def image_iff)

lemma ids_put: "ov_id ` set (put_override i v os) = insert i (ov_id ` set os)"
  by (induction os) auto

lemma distinct_put:
  "distinct (map ov_id os) \<Longrightarrow> distinct (map ov_id (put_override i v os))"
proof (induction os)
  case (Cons x os)
  have "ov_id x \<in> ov_id ` set (put_override i v os) \<longleftrightarrow> ov_id x = i \<or> ov_id x \<in> ov_id ` set os"
    by (simp only: ids_put insert_iff)
  with Cons show ?case by auto
qed simp

lemma length_put: "length (put_override i v os) = (if i \<in> ov_id ` set os then length os else Suc (length os))"
  by (induction os) auto

lemma set_put:
  "x \<in> set (put_override i v os) \<Longrightarrow> x = \<lparr>ov_id = i, ov_value = v, ov_set = True\<rparr> \<or> x \<in> set os"
  by (induction os) (auto split: if_splits)

lemma slot_of_filter:
  "slot_of i (filter P os) = (if \<forall>x\<in>set os. ov_id x = i \<longrightarrow> P x then slot_of i os else slot_of i (filter P os))"
  by (induction os) (auto simp: slot_of_def)

section \<open>The store invariant\<close>

definition slots_ok :: "(ParamDef \<Rightarrow> bool) \<Rightarrow> Table \<Rightarrow> Override list \<Rightarrow> bool" where
  "slots_ok P t os \<longleftrightarrow> distinct (map ov_id os) \<and>
     (\<forall>x\<in>set os. ov_set x \<and> (\<exists>d. table_find t (ov_id x) = Some d \<and> P d \<and> valid_value d (ov_value x)))"

definition store_inv :: "'p Store \<Rightarrow> bool" where
  "store_inv st \<longleftrightarrow> tb_wf (so_table st) \<and> param_rows (tb_rows (so_table st)) \<and>
     slots_ok (\<lambda>d. pd_access d \<noteq> Ac_ReadOnly) (so_table st) (so_overrides st) \<and>
     slots_ok (\<lambda>d. pd_access d = Ac_Phy) (so_table st) (so_trial st)"

lemma store_invD:
  assumes "store_inv st"
  shows store_inv_wf: "tb_wf (so_table st)"
    and store_inv_rows: "param_rows (tb_rows (so_table st))"
    and store_inv_overrides: "slots_ok (\<lambda>d. pd_access d \<noteq> Ac_ReadOnly) (so_table st) (so_overrides st)"
    and store_inv_trial: "slots_ok (\<lambda>d. pd_access d = Ac_Phy) (so_table st) (so_trial st)"
  using assms by (simp_all add: store_inv_def)

lemma slots_ok_Nil [simp]: "slots_ok P t []"
  by (simp add: slots_ok_def)

lemma slots_ok_put:
  "slots_ok P t os \<Longrightarrow> table_find t i = Some d \<Longrightarrow> P d \<Longrightarrow> valid_value d v \<Longrightarrow>
   slots_ok P t (put_override i v os)"
  by (auto simp: slots_ok_def distinct_put dest!: set_put)

lemma slots_ok_filter: "slots_ok P t os \<Longrightarrow> slots_ok P t (filter Q os)"
  by (auto simp: slots_ok_def distinct_map_filter)

lemma slots_ok_slot:
  assumes "slots_ok P t os" "slot_of i os = Some x"
  shows "\<exists>d. table_find t i = Some d \<and> P d \<and> valid_value d (ov_value x) \<and> ov_set x"
  using assms slot_of_SomeD [OF assms(2)] by (auto simp: slots_ok_def)

text \<open>A slot list is never longer than the rows it may name, so the source's arrays suffice.\<close>

lemma slots_ok_ids:
  assumes "slots_ok P t os"
  shows "ov_id ` set os \<subseteq> pd_id ` set (filter P (tb_rows t))"
proof
  fix i assume "i \<in> ov_id ` set os"
  with assms obtain d where "table_find t i = Some d" "P d" by (auto simp: slots_ok_def)
  with table_find_SomeD [of t i d] show "i \<in> pd_id ` set (filter P (tb_rows t))" by auto
qed

lemma slots_ok_card: "slots_ok P t os \<Longrightarrow> length os = card (ov_id ` set os)"
  by (simp add: slots_ok_def distinct_card flip: set_map)

lemma card_ids_le: "card (pd_id ` set ds) \<le> length ds"
  using card_image_le card_length le_trans List.finite_set by metis

lemma slots_ok_length: "slots_ok P t os \<Longrightarrow> length os \<le> length (filter P (tb_rows t))"
  using slots_ok_ids [of P t os] slots_ok_card [of P t os] card_ids_le [of "filter P (tb_rows t)"]
    card_mono [of "pd_id ` set (filter P (tb_rows t))" "ov_id ` set os"] by fastforce

lemma slots_ok_room:
  assumes "slots_ok P t os" "table_find t i = Some d" "slot_of i os = None"
  shows "length os < length (tb_rows t)"
proof -
  have "ov_id ` set os \<subset> pd_id ` set (tb_rows t)"
    using slots_ok_ids [OF assms(1)] assms(2,3) table_find_SomeD [of t i d]
    by (fastforce simp: slot_of_None_iff)
  then have "card (ov_id ` set os) < card (pd_id ` set (tb_rows t))"
    by (intro psubset_card_mono) simp_all
  with card_ids_le [of "tb_rows t"] slots_ok_card [OF assms(1)] show ?thesis by simp
qed

section \<open>What each operation does to the values\<close>

lemmas store_slot_defs = st_find_def slot_def trial_slot_def

text \<open>The value a reboot or a revert comes back to: the override or the default.\<close>

definition committed :: "u16 \<Rightarrow> 'p Store \<Rightarrow> Value" where
  "committed i st = effective i (st\<lparr>so_trial := []\<rparr>)"

lemma effective_valid:
  assumes "store_inv st" "st_find i st = Some d"
  shows "valid_value d (effective i st)"
proof -
  have rows: "param_rows (tb_rows (so_table st))" using assms(1) by (rule store_inv_rows)
  have d: "d \<in> set (tb_rows (so_table st))"
    using assms(2) table_find_SomeD by (auto simp: st_find_def)
  show ?thesis
    using assms(2) param_rows.def_valid [OF rows d]
      slots_ok_slot [OF store_inv_trial [OF assms(1)], of i]
      slots_ok_slot [OF store_inv_overrides [OF assms(1)], of i]
    by (auto simp: effective_def store_slot_defs split: option.splits)
qed

lemma clamp_valid:
  assumes "store_inv st" "st_find i st = Some d" "value_allowed d (clamp v d)"
  shows "valid_value d (clamp v d)"
proof -
  have "d \<in> set (tb_rows (so_table st))"
    using assms(2) table_find_SomeD by (auto simp: st_find_def)
  with param_rows.def_valid [OF store_inv_rows [OF assms(1)]] assms(3) show ?thesis
    by (force simp: valid_value_def clamp_def)
qed

text \<open>Under the invariant the override array has room for every row of the table.\<close>

lemma set_override_eq:
  assumes "store_inv st" "st_find i st = Some d"
  shows "set_override i v st = (True, st\<lparr>so_overrides := put_override i v (so_overrides st)\<rparr>)"
  using slots_ok_room [OF store_inv_overrides [OF assms(1)], of i d] assms store_inv_wf [OF assms(1)]
  by (auto simp: set_override_def store_slot_defs tb_wf_def)

lemma set_override_inv:
  assumes "store_inv st" "st_find i st = Some d" "pd_access d \<noteq> Ac_ReadOnly" "valid_value d v"
  shows "store_inv (snd (set_override i v st))"
  using assms slots_ok_put [OF store_inv_overrides [OF assms(1)]]
  by (simp add: set_override_eq store_inv_def st_find_def)

lemma effective_set_override:
  assumes "store_inv st" "st_find i st = Some d"
  shows "effective j (snd (set_override i v st)) =
    (if j = i \<and> trial_slot i st = None then v else effective j st)"
  using assms by (auto simp: set_override_eq effective_def store_slot_defs slot_of_put split: option.splits)

lemma effective_put_trial:
  "st_find i st = Some d \<Longrightarrow>
   effective j (st\<lparr>so_trial := put_override i v (so_trial st)\<rparr>) = (if j = i then v else effective j st)"
  by (auto simp: effective_def store_slot_defs slot_of_put split: option.splits)

section \<open>Results\<close>

lemma raw_bits_eq:
  "raw_bits v t = (if ptype_width t \<in> {1, 2} then take_bit (8 * ptype_width t) (word_of_int v)
                   else word_of_int v)"
  by (simp add: raw_bits_def take_bit_eq_mask mask_eq_exp_minus_1)

lemma pack_raw_bits: "pack_value (ptype_width t) (raw_bits v t) = pack_value (ptype_width t) (word_of_int v)"
proof -
  have "ucast (take_bit 8 x) = (ucast x :: u8)" "ucast (take_bit 16 x) = (ucast x :: u8)"
    "ucast (drop_bit 8 (take_bit 16 x)) = (ucast (drop_bit 8 x) :: u8)" for x :: u32
    by (auto intro!: bit_word_eqI simp: bit_simps)
  then show ?thesis
    by (cases t) (simp_all only: raw_bits_eq ptype_width.simps pack_value_simps, simp_all)
qed

lemma packed_result_fields:
  assumes "ptype_holds t v"
  shows "cae_param_id (packed_result i s t v ov) = i" "cae_status (packed_result i s t v ov) = s"
    "cae_is_override (packed_result i s t v ov) = ov" "cae_ptype (packed_result i s t v ov) = t"
    "cae_len (packed_result i s t v ov) = of_nat (ptype_width t)"
    "entry_signed (cae_value (packed_result i s t v ov)) (of_nat (ptype_width t)) t = v"
proof -
  have w: "param_value_len t = ptype_width t" "ptype_width t \<in> {1, 2, 4}"
    using ptype_holds_width [OF assms] by auto
  have *: "packed_result i s t v ov =
     \<lparr>cae_param_id = i, cae_status = s, cae_is_override = ov, cae_ptype = t,
      cae_len = of_nat (ptype_width t), cae_value = pack_value (ptype_width t) (word_of_int v)\<rparr>"
    using w by (auto simp: packed_result_def entry_pack_ack_def pack_raw_bits Let_def)
  show "cae_param_id (packed_result i s t v ov) = i" "cae_status (packed_result i s t v ov) = s"
    "cae_is_override (packed_result i s t v ov) = ov" "cae_ptype (packed_result i s t v ov) = t"
    "cae_len (packed_result i s t v ov) = of_nat (ptype_width t)"
    "entry_signed (cae_value (packed_result i s t v ov)) (of_nat (ptype_width t)) t = v"
    using entry_signed_pack [OF assms w(1)] by (simp_all add: *)
qed

text \<open>What a result says: the parameter, its type and width, the value, the override bit.\<close>

definition answers :: "ConfigAckEntry \<Rightarrow> ParamDef \<Rightarrow> Value \<Rightarrow> bool \<Rightarrow> bool" where
  "answers r d v ov \<longleftrightarrow> cae_param_id r = pd_id d \<and> cae_ptype r = pd_type d \<and>
     unat (cae_len r) = ptype_width (pd_type d) \<and>
     entry_signed (cae_value r) (cae_len r) (cae_ptype r) = v \<and> cae_is_override r = ov"

lemma packed_answers:
  assumes "ptype_holds (pd_type d) v"
  shows "answers (packed_result (pd_id d) s (pd_type d) v ov) d v ov"
  using packed_result_fields [OF assms, of "pd_id d" s ov] ptype_holds_width [OF assms]
  by (auto simp: answers_def)

lemma row_value_holds:
  assumes "store_inv st" "st_find i st = Some d" "valid_value d v"
  shows "ptype_holds (pd_type d) v"
  using param_rows.valid_fits [OF store_inv_rows [OF assms(1)], of d v] assms(2,3) table_find_SomeD
  by (auto simp: st_find_def)

lemma held_answers:
  assumes "store_inv st" "st_find i st = Some d"
  shows "answers (held_result i s (pd_type d) st) d (effective i st) (marked_override i st)"
    and "cae_status (held_result i s (pd_type d) st) = s"
proof -
  have v: "ptype_holds (pd_type d) (effective i st)"
    by (rule row_value_holds [OF assms effective_valid [OF assms]])
  have "i = pd_id d" using assms(2) table_find_SomeD by (auto simp: st_find_def)
  with packed_answers [OF v] packed_result_fields(2) [OF v]
  show "answers (held_result i s (pd_type d) st) d (effective i st) (marked_override i st)"
    "cae_status (held_result i s (pd_type d) st) = s"
    by (simp_all add: held_result_def)
qed

section \<open>apply\<close>

text \<open>Why \<open>apply\<close> refuses an entry for a row the table has, if it does.\<close>

definition refusal :: "'p Persist \<Rightarrow> ConfigEntry \<Rightarrow> ParamDef \<Rightarrow> 'p Store \<Rightarrow> ParamStatus option" where
  "refusal ops e d st =
     (if ce_ptype e \<noteq> pd_type d \<or> unat (ce_len e) \<noteq> ptype_width (pd_type d) then Some Pa_TypeMismatch
      else if pd_access d = Ac_ReadOnly \<or> pd_access d = Ac_Phy \<and> \<not> phy_writable ops st then Some Pa_ReadOnly
      else if \<not> value_allowed d (clamp (entry_signed (ce_value e) (ce_len e) (ce_ptype e)) d)
        then Some Pa_InvalidValue
      else None)"

definition requested :: "ConfigEntry \<Rightarrow> Value" where
  "requested e = entry_signed (ce_value e) (ce_len e) (ce_ptype e)"

lemma store_apply_refused:
  "st_find (ce_param_id e) st = Some d \<Longrightarrow> refusal ops e d st = Some s \<Longrightarrow>
   store_apply ops e st = ((held_result (ce_param_id e) s (pd_type d) st, False, True), st)"
  by (auto simp: store_apply_def refusal_def Let_def split: if_splits)

lemma store_apply_phy:
  "st_find (ce_param_id e) st = Some d \<Longrightarrow> refusal ops e d st = None \<Longrightarrow> pd_access d = Ac_Phy \<Longrightarrow>
   store_apply ops e st =
     ((packed_result (ce_param_id e) (if clamp (requested e) d = requested e then Pa_Ok else Pa_Clamped)
         (pd_type d) (clamp (requested e) d) True, True, False),
      st\<lparr>so_trial := put_override (ce_param_id e) (clamp (requested e) d) (so_trial st)\<rparr>)"
  by (auto simp: store_apply_def refusal_def requested_def Let_def split: if_splits)

lemma store_apply_set:
  assumes "store_inv st" "st_find (ce_param_id e) st = Some d" "refusal ops e d st = None"
    "pd_access d \<noteq> Ac_Phy"
  shows "store_apply ops e st =
     (let (saved, p) = try_save ops (ce_param_id e) (clamp (requested e) d) (so_persist st) in
      ((packed_result (ce_param_id e) (if clamp (requested e) d = requested e then Pa_Ok else Pa_Clamped)
         (pd_type d) (clamp (requested e) d) True, True, saved),
       st\<lparr>so_overrides := put_override (ce_param_id e) (clamp (requested e) d) (so_overrides st),
          so_persist := p\<rparr>))"
  using assms by (auto simp: store_apply_def refusal_def requested_def Let_def set_override_eq split: if_splits)

text \<open>The three outcomes of an entry for a row of the table, as one rule.\<close>

lemma store_apply_cases:
  assumes "store_inv st" "st_find (ce_param_id e) st = Some d"
  obtains (refused) s where "refusal ops e d st = Some s"
      "store_apply ops e st = ((held_result (ce_param_id e) s (pd_type d) st, False, True), st)"
  | (trial) s v where "refusal ops e d st = None" "pd_access d = Ac_Phy" "v = clamp (requested e) d"
      "valid_value d v" "s = (if v = requested e then Pa_Ok else Pa_Clamped)"
      "store_apply ops e st = ((packed_result (ce_param_id e) s (pd_type d) v True, True, False),
         st\<lparr>so_trial := put_override (ce_param_id e) v (so_trial st)\<rparr>)"
  | (set) s v saved p where "refusal ops e d st = None" "pd_access d = Ac_ReadWrite"
      "v = clamp (requested e) d" "valid_value d v" "s = (if v = requested e then Pa_Ok else Pa_Clamped)"
      "(saved, p) = try_save ops (ce_param_id e) v (so_persist st)"
      "store_apply ops e st = ((packed_result (ce_param_id e) s (pd_type d) v True, True, saved),
         st\<lparr>so_overrides := put_override (ce_param_id e) v (so_overrides st), so_persist := p\<rparr>)"
proof (cases "refusal ops e d st")
  case (Some s)
  with assms show ?thesis by (intro refused) (auto simp: store_apply_refused)
next
  case None
  then have "value_allowed d (clamp (requested e) d)" and ro: "pd_access d \<noteq> Ac_ReadOnly"
    by (auto simp: refusal_def requested_def split: if_splits)
  then have v: "valid_value d (clamp (requested e) d)" using clamp_valid [OF assms] by simp
  show ?thesis
  proof (cases "pd_access d")
    case Ac_ReadWrite
    obtain saved p where
      sp: "try_save ops (ce_param_id e) (clamp (requested e) d) (so_persist st) = (saved, p)"
      by fastforce
    with v None assms Ac_ReadWrite show ?thesis
      by (intro set [OF None Ac_ReadWrite refl v refl sp [symmetric]]) (simp add: store_apply_set)
  qed (use None v ro assms in \<open>auto intro!: trial simp: store_apply_phy\<close>)
qed

lemma set_override_fields [simp]:
  "so_table (snd (set_override i v st)) = so_table st"
  "so_trial (snd (set_override i v st)) = so_trial st"
  "so_persist (snd (set_override i v st)) = so_persist st"
  "so_phy_trial_enabled (snd (set_override i v st)) = so_phy_trial_enabled st"
  by (auto simp: set_override_def)

lemma store_apply_unknown:
  "st_find (ce_param_id e) st = None \<Longrightarrow> store_apply ops e st =
     ((ConfigAckEntry_init\<lparr>cae_param_id := ce_param_id e, cae_status := Pa_UnknownParam,
         cae_ptype := ce_ptype e, cae_len := 0\<rparr>, False, True), st)"
  by (simp add: store_apply_def)

lemma store_apply_inv:
  assumes "store_inv st"
  shows "store_inv (snd (store_apply ops e st))"
proof (cases "st_find (ce_param_id e) st")
  case None
  with assms show ?thesis by (simp add: store_apply_unknown)
next
  case (Some d)
  from assms Some show ?thesis
  proof (cases rule: store_apply_cases [where ops = ops])
    case (trial s v)
    with assms Some slots_ok_put [OF store_inv_trial [OF assms], of "ce_param_id e" d v] show ?thesis
      by (simp add: store_inv_def st_find_def)
  next
    case (set s v saved p)
    with assms Some slots_ok_put [OF store_inv_overrides [OF assms], of "ce_param_id e" d v] show ?thesis
      by (simp add: store_inv_def st_find_def)
  qed (use assms in simp)
qed

text \<open>A row outside the PHY group is never in the trial copy.\<close>

lemma trial_slot_phy: "store_inv st \<Longrightarrow> st_find i st = Some d \<Longrightarrow> pd_access d \<noteq> Ac_Phy \<Longrightarrow> trial_slot i st = None"
  using slots_ok_slot [OF store_inv_trial, of st i] by (cases "trial_slot i st") (auto simp: store_slot_defs)

section \<open>The PHY trial\<close>

text \<open>Setting one row to a valid value: the step of \<open>commit\_phy\_trial\<close> and \<open>restore\_defaults\<close>.\<close>

definition good_pair :: "Table \<Rightarrow> u16 \<times> Value \<Rightarrow> bool" where
  "good_pair t iv \<longleftrightarrow>
     (\<exists>d. table_find t (fst iv) = Some d \<and> pd_access d = Ac_Phy \<and> valid_value d (snd iv))"

abbreviation set_all :: "'p Store \<Rightarrow> (u16 \<times> Value) list \<Rightarrow> 'p Store" where
  "set_all \<equiv> foldl (\<lambda>s (i, v). snd (set_override i v s))"

lemma set_all_fields [simp]:
  "so_table (set_all st g) = so_table st" "so_trial (set_all st g) = so_trial st"
  "so_persist (set_all st g) = so_persist st"
  "so_phy_trial_enabled (set_all st g) = so_phy_trial_enabled st"
  by (induction g arbitrary: st) (auto simp: split_beta)

lemma set_all_inv:
  "store_inv st \<Longrightarrow> \<forall>iv\<in>set g. good_pair (so_table st) iv \<Longrightarrow> store_inv (set_all st g)"
proof (induction g arbitrary: st)
  case (Cons iv g)
  then obtain d where "st_find (fst iv) st = Some d" "pd_access d = Ac_Phy" "valid_value d (snd iv)"
    by (auto simp: good_pair_def st_find_def)
  with Cons show ?case by (simp add: split_beta set_override_inv)
qed simp

lemma set_all_slot:
  "store_inv st \<Longrightarrow> \<forall>iv\<in>set g. good_pair (so_table st) iv \<Longrightarrow> distinct (map fst g) \<Longrightarrow>
   slot i (set_all st g) =
     (case map_of g i of Some v \<Rightarrow> Some \<lparr>ov_id = i, ov_value = v, ov_set = True\<rparr> | None \<Rightarrow> slot i st)"
proof (induction g arbitrary: st)
  case (Cons iv g)
  then obtain d where d: "st_find (fst iv) st = Some d" "pd_access d = Ac_Phy" "valid_value d (snd iv)"
    by (auto simp: good_pair_def st_find_def)
  have inv: "store_inv (snd (set_override (fst iv) (snd iv) st))"
    using d Cons.prems(1) by (simp add: set_override_inv)
  have "slot i (snd (set_override (fst iv) (snd iv) st)) =
      (if i = fst iv then Some \<lparr>ov_id = i, ov_value = snd iv, ov_set = True\<rparr> else slot i st)"
    using set_override_eq [OF Cons.prems(1) d(1)] by (simp add: slot_def slot_of_put)
  moreover have "map_of g (fst iv) = None" using Cons.prems(3) by (simp add: map_of_eq_None_iff)
  ultimately show ?case using Cons.IH [OF inv] Cons.prems by (auto simp: split_beta split: option.split)
qed simp

lemma phy_rows_good:
  assumes "store_inv st"
  shows "\<forall>iv\<in>set (phy_rows st). good_pair (so_table st) iv"
proof
  fix iv assume "iv \<in> set (phy_rows st)"
  then obtain d where d: "d \<in> set (tb_rows (so_table st))" "pd_access d = Ac_Phy"
      "iv = (pd_id d, effective (pd_id d) st)"
    by (fastforce simp: phy_rows_def dest: in_set_takeD)
  then have "st_find (pd_id d) st = Some d"
    using param_rows.find_row [OF store_inv_rows [OF assms]] by (simp add: st_find_def table_find_rows)
  with d effective_valid [OF assms this] show "good_pair (so_table st) iv"
    by (auto simp: good_pair_def st_find_def)
qed

lemma map_of_group:
  assumes "distinct (map f xs)"
  shows "map_of (map (\<lambda>d. (f d, g (f d))) xs) i = (if i \<in> f ` set xs then Some (g i) else None)"
  using assms by (induction xs) auto

lemma phy_rows_distinct:
  assumes "store_inv st"
  shows "distinct (map fst (phy_rows st))"
    "map_of (phy_rows st) i =
       (case st_find i st of
          Some d \<Rightarrow> if pd_access d = Ac_Phy then Some (effective i st) else None | None \<Rightarrow> None)"
proof -
  let ?rows = "tb_rows (so_table st)" let ?phy = "filter (\<lambda>d. pd_access d = Ac_Phy) ?rows"
  note rows = store_inv_rows [OF assms]
  have t: "take kPhyGroupSize ?phy = ?phy" using param_rows.phy_group [OF rows] by simp
  have d: "distinct (map pd_id ?phy)" using param_rows.distinct_ids [OF rows] by (simp add: distinct_map_filter)
  show "distinct (map fst (phy_rows st))" using d by (simp add: phy_rows_def t comp_def)
  have "i \<in> pd_id ` set ?phy \<longleftrightarrow> (\<exists>d. st_find i st = Some d \<and> pd_access d = Ac_Phy)"
    using param_rows.find_row [OF rows] table_find_SomeD [of "so_table st" i]
    by (auto simp: st_find_def table_find_rows)
  then show "map_of (phy_rows st) i =
       (case st_find i st of
          Some d \<Rightarrow> if pd_access d = Ac_Phy then Some (effective i st) else None | None \<Rightarrow> None)"
    using map_of_group [OF d, of "\<lambda>i. effective i st" i]
    by (auto simp: phy_rows_def t split: option.split)
qed

lemma store_inv_persist [simp]: "store_inv (st\<lparr>so_persist := p\<rparr>) = store_inv st"
  by (simp add: store_inv_def)

lemma effective_persist [simp]: "effective i (st\<lparr>so_persist := p\<rparr>) = effective i st"
  by (auto simp: effective_def store_slot_defs split: option.split)

lemma store_inv_no_trial: "store_inv st \<Longrightarrow> store_inv (st\<lparr>so_trial := []\<rparr>)"
  by (simp add: store_inv_def)

lemma effective_all_set:
  assumes "store_inv st"
  shows "effective i ((set_all (st\<lparr>so_persist := p\<rparr>) (phy_rows st))\<lparr>so_trial := []\<rparr>) = effective i st"
proof (cases "st_find i st")
  case None
  then show ?thesis by (simp add: effective_def store_slot_defs)
next
  case (Some d)
  let ?st = "st\<lparr>so_persist := p\<rparr>"
  have inv: "store_inv ?st" and good: "\<forall>iv\<in>set (phy_rows st). good_pair (so_table ?st) iv"
    using assms phy_rows_good [OF assms] by simp_all
  have "slot i (set_all ?st (phy_rows st)) =
      (if pd_access d = Ac_Phy then Some \<lparr>ov_id = i, ov_value = effective i st, ov_set = True\<rparr> else slot i st)"
    using set_all_slot [OF inv good phy_rows_distinct(1) [OF assms], of i] Some
    by (simp add: phy_rows_distinct(2) [OF assms] slot_def)
  with Some trial_slot_phy [OF assms Some] show ?thesis
    by (auto simp: effective_def store_slot_defs split: option.splits)
qed

text \<open>
  The outcomes of a commit: nothing to do, refused, the store failed to write, or written. In
  each the group handed to \<open>save\_group\<close> is the six effective values.
\<close>

lemma commit_cases:
  assumes "store_inv st"
  obtains (none) "so_trial st = []" "commit_phy_trial ops st = (True, st)"
  | (refused) "so_trial st \<noteq> []" "\<not> phy_writable ops st" "commit_phy_trial ops st = (False, st)"
  | (failed) p p' where "so_trial st \<noteq> []" "phy_writable ops st" "so_persist st = Some p"
      "ps_save_group ops (phy_rows st) p = (False, p')"
      "commit_phy_trial ops st = (False, st\<lparr>so_persist := Some p'\<rparr>)"
  | (written) p p' where "so_trial st \<noteq> []" "phy_writable ops st" "so_persist st = Some p"
      "ps_save_group ops (phy_rows st) p = (True, p')"
      "commit_phy_trial ops st = (True, (set_all (st\<lparr>so_persist := Some p'\<rparr>) (phy_rows st))\<lparr>so_trial := []\<rparr>)"
proof (cases "so_trial st = [] \<or> \<not> phy_writable ops st")
  case True
  then show ?thesis using none refused by (auto simp: commit_phy_trial_def)
next
  case False
  then obtain p where p: "so_persist st = Some p"
    by (auto simp: phy_writable_def persist_usable_def split: option.splits)
  obtain ok p' where sg: "ps_save_group ops (phy_rows st) p = (ok, p')" by fastforce
  show ?thesis
    using False p sg failed [of p p'] written [of p p']
    by (cases ok) (auto simp: commit_phy_trial_def Let_def)
qed

lemma commit_inv:
  assumes "store_inv st"
  shows "store_inv (snd (commit_phy_trial ops st))"
  by (rule commit_cases [OF assms, of ops])
    (use assms phy_rows_good [OF assms] in \<open>auto intro!: store_inv_no_trial set_all_inv\<close>)

lemma commit_effective:
  assumes "store_inv st"
  shows "effective i (snd (commit_phy_trial ops st)) = effective i st"
  by (rule commit_cases [OF assms, of ops]) (simp_all add: effective_all_set [OF assms])

section \<open>restore, forget\_phy\_group and restore\_defaults\<close>

lemma restore_inv: "store_inv st \<Longrightarrow> store_inv (snd (restore ops i v st))"
  by (auto simp: restore_def Let_def set_override_inv clamp_valid split: option.splits)

lemma names_phy_iff:
  "store_inv st \<Longrightarrow> x \<in> set (so_overrides st) \<Longrightarrow>
   names_phy st x \<longleftrightarrow> (\<exists>d. st_find (ov_id x) st = Some d \<and> pd_access d = Ac_Phy)"
  by (auto simp: names_phy_def split: option.splits)

lemma forget_inv: "store_inv st \<Longrightarrow> store_inv (forget_phy_group st)"
  by (simp add: store_inv_def forget_phy_group_def slots_ok_filter)

lemma forget_effective:
  assumes "store_inv st" "st_find i st = Some d"
  shows "effective i (forget_phy_group st) = (if pd_access d = Ac_Phy then pd_def d else effective i st)"
proof -
  have phy: "pd_access d = Ac_Phy \<Longrightarrow> slot_of i (filter (\<lambda>x. \<not> names_phy st x) (so_overrides st)) = None"
    using assms(2) by (auto simp: slot_of_None_iff names_phy_def)
  have other: "pd_access d \<noteq> Ac_Phy \<Longrightarrow> slot_of i (filter (\<lambda>x. \<not> names_phy st x) (so_overrides st)) = slot i st"
    using assms(2) slot_of_filter [of i "\<lambda>x. \<not> names_phy st x" "so_overrides st"]
    by (auto simp: slot_def names_phy_def)
  show ?thesis
    using assms phy other trial_slot_phy [OF assms]
    by (auto simp: effective_def store_slot_defs forget_phy_group_def split: option.splits)
qed

lemma kept_phy:
  assumes "store_inv st"
  defines "kept \<equiv> take kPhyGroupSize (filter (names_phy st) (so_overrides st))"
  shows "kept = filter (names_phy st) (so_overrides st)"
proof -
  have "slots_ok (\<lambda>d. pd_access d = Ac_Phy) (so_table st) (filter (names_phy st) (so_overrides st))"
    using store_inv_overrides [OF assms(1)] names_phy_iff [OF assms(1)]
    by (fastforce simp: slots_ok_def distinct_map_filter st_find_def)
  then have "length (filter (names_phy st) (so_overrides st)) \<le> kPhyGroupSize"
    using slots_ok_length param_rows.phy_group [OF store_inv_rows [OF assms(1)]] le_trans by blast
  then show ?thesis by (simp add: kept_def)
qed

text \<open>The store \<open>restore\_defaults\<close> leaves in RAM.\<close>

definition defaults_kept :: "'p Store \<Rightarrow> 'p Store" where
  "defaults_kept st = set_all (st\<lparr>so_overrides := []\<rparr>)
     (map (\<lambda>x. (ov_id x, ov_value x)) (filter (names_phy st) (so_overrides st)))"

lemma restore_defaults_eq:
  assumes "store_inv st"
  shows "restore_defaults ops st =
     (case so_persist st of
        None \<Rightarrow> (False, defaults_kept st)
      | Some p \<Rightarrow> if \<not> ps_usable ops p then (False, defaults_kept st)
                   else (fst (ps_clear_all ops p), (defaults_kept st)\<lparr>so_persist := Some (snd (ps_clear_all ops p))\<rparr>))"
proof -
  have ram: "foldl (\<lambda>s x. snd (set_override (ov_id x) (ov_value x) s)) (st\<lparr>so_overrides := []\<rparr>)
      (take kPhyGroupSize (filter (names_phy st) (so_overrides st))) = defaults_kept st"
    unfolding kept_phy [OF assms] defaults_kept_def by (simp add: foldl_map)
  have "so_persist (defaults_kept st) = so_persist st" by (simp add: defaults_kept_def)
  with ram show ?thesis
    by (simp only: restore_defaults_def Let_def split_beta)
qed

lemma kept_good:
  assumes "store_inv st"
  shows "\<forall>iv\<in>set (map (\<lambda>x. (ov_id x, ov_value x)) (filter (names_phy st) (so_overrides st))).
      good_pair (so_table st) iv"
  using store_inv_overrides [OF assms] names_phy_iff [OF assms]
  by (fastforce simp: good_pair_def slots_ok_def st_find_def)

lemma defaults_kept_inv: "store_inv st \<Longrightarrow> store_inv (defaults_kept st)"
  unfolding defaults_kept_def using kept_good [of st]
  by (intro set_all_inv) (simp_all add: store_inv_def)

lemma defaults_kept_effective:
  assumes "store_inv st" "st_find i st = Some d"
  shows "effective i (defaults_kept st) = (if pd_access d = Ac_Phy then effective i st else pd_def d)"
proof -
  let ?os = "filter (names_phy st) (so_overrides st)"
  let ?g = "map (\<lambda>x. (ov_id x, ov_value x)) ?os"
  have dist: "distinct (map ov_id ?os)"
    using store_inv_overrides [OF assms(1)] by (simp add: slots_ok_def distinct_map_filter)
  have inv: "store_inv (st\<lparr>so_overrides := []\<rparr>)" using assms(1) by (simp add: store_inv_def)
  have s: "slot i (defaults_kept st) =
      (case map_of ?g i of Some v \<Rightarrow> Some \<lparr>ov_id = i, ov_value = v, ov_set = True\<rparr> | None \<Rightarrow> None)"
    using set_all_slot [OF inv, of ?g i] kept_good [OF assms(1)] dist
    by (simp add: defaults_kept_def slot_def comp_def split: option.split)
  have m: "map_of ?g i = (if pd_access d = Ac_Phy then map_option ov_value (slot i st) else None)"
  proof -
    have "map_of (map (\<lambda>x. (ov_id x, ov_value x)) os) i = map_option ov_value (slot_of i os)" for os
      by (induction os) (auto simp: slot_of_def)
    moreover have "slot_of i ?os = (if pd_access d = Ac_Phy then slot i st else None)"
      using assms(2) slot_of_filter [of i "names_phy st" "so_overrides st"]
      by (auto simp: slot_def slot_of_None_iff names_phy_def)
    ultimately show ?thesis by simp
  qed
  have set: "slot i st = Some x \<Longrightarrow> ov_set x" for x
    using slots_ok_slot [OF store_inv_overrides [OF assms(1)]] by (auto simp: slot_def)
  have "so_table (defaults_kept st) = so_table st" "so_trial (defaults_kept st) = so_trial st"
    by (simp_all add: defaults_kept_def)
  then show ?thesis
    using assms s m set trial_slot_phy [OF assms]
    by (auto simp: effective_def st_find_def trial_slot_def split: option.splits)
qed

section \<open>The readback walk\<close>

definition readback_result :: "'p Store \<Rightarrow> ParamDef \<Rightarrow> ConfigAckEntry" where
  "readback_result st d = held_result (pd_id d) Pa_Ok (pd_type d) st"

text \<open>How many of the rows fit one message after \<open>used\<close> bytes and \<open>k\<close> entries.\<close>

fun fitting :: "nat \<Rightarrow> nat \<Rightarrow> ParamDef list \<Rightarrow> nat" where
  "fitting used k [] = 0"
| "fitting used k (d # ds) =
     (if used + result_bytes (pd_type d) > kMaxSchemaPayload \<or> k \<ge> kMaxConfigAckEntries then 0
      else Suc (fitting (used + result_bytes (pd_type d)) (Suc k) ds))"

lemma fitting_le: "fitting used k ds \<le> length ds"
  by (induction used k ds rule: fitting.induct) auto

lemma fitting_bytes:
  "used \<le> kMaxSchemaPayload \<Longrightarrow>
   used + (\<Sum>d\<leftarrow>take (fitting used k ds) ds. result_bytes (pd_type d)) \<le> kMaxSchemaPayload"
  by (induction used k ds rule: fitting.induct) (auto simp: add.assoc)

lemma result_bytes_bounds:
  "ptype_width t \<le> 4" "5 \<le> result_bytes t" "result_bytes t \<le> 9"
  by (cases t; simp add: result_bytes_def)+

text \<open>
  A message takes at least 21 rows, or all that are left: its 193 bytes hold 21 of the widest
  results.
\<close>

lemma fitting_ge:
  "used + 9 * (21 - k) \<le> kMaxSchemaPayload \<Longrightarrow> k \<le> 21 \<Longrightarrow> min (21 - k) (length ds) \<le> fitting used k ds"
proof (induction used k ds rule: fitting.induct)
  case (2 used k d ds)
  show ?case
  proof (cases "k = 21")
    case False
    let ?used = "used + result_bytes (pd_type d)"
    have k: "21 - k = Suc (21 - Suc k)" using False 2(3) by simp
    then have u: "?used + 9 * (21 - Suc k) \<le> kMaxSchemaPayload"
      using 2(2) result_bytes_bounds [of "pd_type d"] by simp
    then have fits: "\<not> (?used > kMaxSchemaPayload \<or> k \<ge> kMaxConfigAckEntries)" using 2(3) by simp
    then have "min (21 - Suc k) (length ds) \<le> fitting ?used (Suc k) ds"
      using 2(1) [OF fits u] False 2(3) by simp
    with fits k show ?thesis by simp
  qed simp
qed simp

lemma readback_fill_eq:
  assumes "tb_wf (so_table st)"
  shows "readback_fill st used next es =
    (let ds = drop next (tb_rows (so_table st)); n = fitting used (length es) ds
     in (es @ map (readback_result st) (take n ds), next + n))"
  using assms
proof (induction st used "next" es rule: readback_fill.induct)
  case (1 st used "next" es)
  let ?rows = "tb_rows (so_table st)"
  show ?case
  proof (cases "next < length ?rows")
    case True
    then have d: "drop next ?rows = ?rows ! next # drop (Suc next) ?rows" by (simp add: Cons_nth_drop_Suc)
    with True 1 show ?thesis
      by (subst readback_fill.simps)
        (auto simp: table_at_rows tb_wf_def Let_def readback_result_def)
  qed (use 1 in \<open>subst readback_fill.simps, simp add: tb_wf_def\<close>)
qed

text \<open>The caller's loop: send while \<open>next\_readback\_message\<close> returns true.\<close>

fun readback_run :: "nat \<Rightarrow> 'p Persist \<Rightarrow> ConfigOp \<Rightarrow> 'p Store \<Rightarrow> ReadbackCursor \<Rightarrow> NodeConfigAckV1 list" where
  "readback_run 0 ops op st cur = []"
| "readback_run (Suc fuel) ops op st cur =
     (case next_readback_message ops op st cur of
        Some (True, msg, cur) \<Rightarrow> msg # readback_run fuel ops op st cur
      | _ \<Rightarrow> [])"

definition readback_messages :: "'p Persist \<Rightarrow> ConfigOp \<Rightarrow> 'p Store \<Rightarrow> NodeConfigAckV1 list" where
  "readback_messages ops op st = readback_run (kMaxConfigAckMessages + 1) ops op st ReadbackCursor_init"

text \<open>Every message but the last announces another; an answer with no message announces none.\<close>

fun chained :: "NodeConfigAckV1 list \<Rightarrow> bool" where
  "chained [] \<longleftrightarrow> True"
| "chained [m] \<longleftrightarrow> \<not> nca_more_follows m"
| "chained (m # ms) \<longleftrightarrow> nca_more_follows m \<and> chained ms"

lemma readback_step:
  assumes "tb_wf (so_table st)" "next < length (tb_rows (so_table st))" "k < kMaxConfigAckMessages"
  obtains n where "0 < n" "min 21 (length (tb_rows (so_table st)) - next) \<le> n"
    "next + n \<le> length (tb_rows (so_table st))"
    "(\<Sum>d\<leftarrow>take n (drop next (tb_rows (so_table st))). result_bytes (pd_type d)) \<le> 193"
    "next_readback_message ops op st \<lparr>rc_next = next, rc_messages = k\<rparr> =
       Some (True, \<lparr>nca_op = op,
          nca_more_follows = (next + n < length (tb_rows (so_table st)) \<and> k + 1 < kMaxConfigAckMessages),
          nca_persist_status = read_persist_status ops st,
          nca_entries = map (readback_result st) (take n (drop next (tb_rows (so_table st))))\<rparr>,
        \<lparr>rc_next = next + n, rc_messages = k + 1\<rparr>)"
proof -
  let ?rows = "tb_rows (so_table st)" let ?n = "fitting kConfigAckHdrLen 0 (drop next ?rows)"
  have "min 21 (length ?rows - next) \<le> ?n" using fitting_ge [of kConfigAckHdrLen 0 "drop next ?rows"] by simp
  moreover have "?n \<le> length ?rows - next" using fitting_le [of kConfigAckHdrLen 0 "drop next ?rows"] by simp
  moreover have "(\<Sum>d\<leftarrow>take ?n (drop next ?rows). result_bytes (pd_type d)) \<le> 193"
    using fitting_bytes [of kConfigAckHdrLen 0 "drop next ?rows"] by simp
  ultimately show ?thesis
    using assms that [of ?n]
    by (simp add: next_readback_message_def readback_fill_eq Let_def tb_wf_def)
qed

lemma readback_run_spec:
  assumes "tb_wf (so_table st)" "next \<le> length (tb_rows (so_table st))"
    "length (tb_rows (so_table st)) - next \<le> 21 * (kMaxConfigAckMessages - k)" "kMaxConfigAckMessages - k < fuel"
  shows "let ms = readback_run fuel ops op st \<lparr>rc_next = next, rc_messages = k\<rparr> in
    concat (map nca_entries ms) = map (readback_result st) (drop next (tb_rows (so_table st))) \<and>
    chained ms \<and> length ms \<le> kMaxConfigAckMessages - k \<and> (ms = [] \<longleftrightarrow> next = length (tb_rows (so_table st)))"
  using assms(2,3,4)
proof (induction fuel arbitrary: "next" k)
  case (Suc fuel)
  let ?rows = "tb_rows (so_table st)"
  show ?case
  proof (cases "next < length ?rows")
    case True
    then have k: "k < kMaxConfigAckMessages" using Suc.prems by (cases "k < kMaxConfigAckMessages") auto
    obtain n where n: "0 < n" "min 21 (length ?rows - next) \<le> n" "next + n \<le> length ?rows"
      "next_readback_message ops op st \<lparr>rc_next = next, rc_messages = k\<rparr> =
       Some (True, \<lparr>nca_op = op, nca_more_follows = (next + n < length ?rows \<and> k + 1 < kMaxConfigAckMessages),
          nca_persist_status = read_persist_status ops st,
          nca_entries = map (readback_result st) (take n (drop next ?rows))\<rparr>,
        \<lparr>rc_next = next + n, rc_messages = k + 1\<rparr>)"
      by (rule readback_step [OF assms(1) True k]) blast
    define ms where "ms = readback_run fuel ops op st \<lparr>rc_next = next + n, rc_messages = k + 1\<rparr>"
    have left: "length ?rows - (next + n) \<le> 21 * (kMaxConfigAckMessages - (k + 1))"
      using n(2,3) Suc.prems(2) k by (auto simp: min_def split: if_splits)
    have fuel: "kMaxConfigAckMessages - (k + 1) < fuel" using Suc.prems(3) k by linarith
    have more: "next + n < length ?rows \<Longrightarrow> k + 1 < kMaxConfigAckMessages"
      using left by (cases "k + 1 < kMaxConfigAckMessages") auto
    have IH: "concat (map nca_entries ms) = map (readback_result st) (drop (next + n) ?rows)"
      "chained ms" "length ms \<le> kMaxConfigAckMessages - (k + 1)" "ms = [] \<longleftrightarrow> next + n = length ?rows"
      using Suc.IH [OF n(3) left fuel] by (simp_all add: ms_def Let_def)
    have "take n (drop next ?rows) @ drop (next + n) ?rows = drop next ?rows"
      using append_take_drop_id [of n "drop next ?rows"] by (simp add: add.commute)
    then have "map (readback_result st) (take n (drop next ?rows)) @
        map (readback_result st) (drop (next + n) ?rows) = map (readback_result st) (drop next ?rows)"
      by (metis map_append)
    moreover have "readback_run (Suc fuel) ops op st \<lparr>rc_next = next, rc_messages = k\<rparr> =
        \<lparr>nca_op = op, nca_more_follows = (next + n < length ?rows \<and> k + 1 < kMaxConfigAckMessages),
          nca_persist_status = read_persist_status ops st,
          nca_entries = map (readback_result st) (take n (drop next ?rows))\<rparr> # ms"
      by (simp only: readback_run.simps n(4) ms_def option.case prod.case bool.case if_True)
    ultimately show ?thesis
      unfolding Let_def using n(1,3) IH True k more by (cases ms) auto
  qed (use Suc.prems in \<open>simp add: next_readback_message_def assms(1) [unfolded tb_wf_def]\<close>)
qed simp

lemma readback_size:
  "m \<in> set (readback_run fuel ops op st cur) \<Longrightarrow> tb_wf (so_table st) \<Longrightarrow>
   \<exists>ds. nca_entries m = map (readback_result st) ds \<and> set ds \<subseteq> set (tb_rows (so_table st)) \<and>
     (\<Sum>d\<leftarrow>ds. result_bytes (pd_type d)) \<le> kMaxSchemaPayload - kConfigAckHdrLen \<and>
     nca_op m = op \<and> nca_persist_status m = read_persist_status ops st"
proof (induction fuel arbitrary: cur)
  case (Suc fuel)
  let ?ds = "drop (rc_next cur) (tb_rows (so_table st))" let ?n = "fitting kConfigAckHdrLen 0 ?ds"
  have b: "(\<Sum>d\<leftarrow>take ?n ?ds. result_bytes (pd_type d)) \<le> kMaxSchemaPayload - kConfigAckHdrLen"
    using fitting_bytes [of kConfigAckHdrLen 0 ?ds] by simp
  have s: "set (take ?n ?ds) \<subseteq> set (tb_rows (so_table st))"
    by (meson in_set_dropD in_set_takeD subsetI)
  from Suc.prems show ?case
    using b s Suc.IH
    by (auto simp: next_readback_message_def readback_fill_eq Let_def split: option.splits bool.splits if_splits)
qed simp

text \<open>A result of the store is a legal entry of a CONFIG\_ACK, and its size on the wire is known.\<close>

lemma pack_value_padded:
  "n \<in> {1, 2, 4} \<Longrightarrow> stored_value (take n (pack_value n raw)) = pack_value n raw \<and>
     length (pack_value n raw) = kMaxParamValueLen"
  by (elim insertE emptyE) (simp_all only: pack_value_simps, simp_all add: stored_value_def le32_def eval_nat_numeral)

lemma packed_result_wf:
  assumes "ptype_holds t v" "wf_ParamStatus s"
  shows "wf_ack_entry (packed_result i s t v ov)"
    "length (ack_entry_img (packed_result i s t v ov)) = result_bytes t"
proof -
  have w: "param_value_len t = ptype_width t" "ptype_width t \<in> {1, 2, 4}"
    using ptype_holds_width [OF assms(1)] by auto
  then have u: "unat (of_nat (ptype_width t) :: u8) = ptype_width t" by auto
  have *: "packed_result i s t v ov =
     \<lparr>cae_param_id = i, cae_status = s, cae_is_override = ov, cae_ptype = t,
      cae_len = of_nat (ptype_width t), cae_value = pack_value (ptype_width t) (word_of_int v)\<rparr>"
    using w by (auto simp: packed_result_def entry_pack_ack_def pack_raw_bits Let_def)
  have t: "wf_PType t" using assms(1) by (cases t) (auto simp: wf_PType_def u8_PType_def)
  show "wf_ack_entry (packed_result i s t v ov)"
    using assms(2) t u w pack_value_padded [OF w(2), of "word_of_int v"] by (auto simp: * wf_ack_entry_def)
  show "length (ack_entry_img (packed_result i s t v ov)) = result_bytes t"
    using u w pack_value_padded [OF w(2), of "word_of_int v"] by (auto simp: * ack_entry_img_def result_bytes_def)
qed

lemma row_of_find:
  "store_inv st \<Longrightarrow> d \<in> set (tb_rows (so_table st)) \<Longrightarrow> st_find (pd_id d) st = Some d"
  using param_rows.find_row [OF store_inv_rows] by (auto simp: st_find_def table_find_rows)

lemma readback_result_wf:
  assumes "store_inv st" "d \<in> set (tb_rows (so_table st))"
  shows "wf_ack_entry (readback_result st d)"
    "length (ack_entry_img (readback_result st d)) = result_bytes (pd_type d)"
    "readback_result st d = store_get (pd_id d) st"
    "answers (readback_result st d) d (effective (pd_id d) st) (marked_override (pd_id d) st)"
proof -
  note f = row_of_find [OF assms]
  have v: "ptype_holds (pd_type d) (effective (pd_id d) st)"
    by (rule row_value_holds [OF assms(1) f effective_valid [OF assms(1) f]])
  have ok: "wf_ParamStatus Pa_Ok" by (simp add: wf_ParamStatus_def u8_ParamStatus_def)
  show "wf_ack_entry (readback_result st d)"
    "length (ack_entry_img (readback_result st d)) = result_bytes (pd_type d)"
    using packed_result_wf [OF v ok] by (simp_all add: readback_result_def held_result_def)
  show "readback_result st d = store_get (pd_id d) st"
    using f by (simp add: readback_result_def store_get_def)
  show "answers (readback_result st d) d (effective (pd_id d) st) (marked_override (pd_id d) st)"
    using held_answers(1) [OF assms(1) f] by (simp add: readback_result_def)
qed

lemma entries_within_bound: "(\<Sum>d\<leftarrow>ds. result_bytes (pd_type d)) \<ge> 5 * length ds"
  by (induction ds) (use result_bytes_bounds(2) in \<open>auto intro: add_mono\<close>)

lemma readback_message_wf:
  assumes "store_inv st" "wf_ConfigOp op" "m \<in> set (readback_run fuel ops op st cur)"
  shows "wf_ConfigAck m"
proof -
  obtain ds where ds: "nca_entries m = map (readback_result st) ds" "set ds \<subseteq> set (tb_rows (so_table st))"
      "(\<Sum>d\<leftarrow>ds. result_bytes (pd_type d)) \<le> kMaxSchemaPayload - kConfigAckHdrLen"
      "nca_op m = op" "nca_persist_status m = read_persist_status ops st"
    using readback_size [OF assms(3) store_inv_wf [OF assms(1)]] by blast
  have six: "(\<Sum>d\<leftarrow>ds. result_bytes (pd_type d)) \<ge> 6 * length ds" if "set ds \<subseteq> set (tb_rows (so_table st))" for ds
    using that
  proof (induction ds)
    case (Cons d ds)
    then have "ptype_width (pd_type d) \<in> {1, 2, 4}"
      using param_rows.row_width [OF store_inv_rows [OF assms(1)], of d] by simp
    with Cons show ?case by (auto simp: result_bytes_def)
  qed simp
  have "length (concat (map ack_entry_img (nca_entries m))) = (\<Sum>d\<leftarrow>ds. result_bytes (pd_type d))"
    using ds(2) readback_result_wf(2) [OF assms(1)] unfolding ds(1)
    by (induction ds) auto
  moreover have "length ds \<le> kMaxConfigAckEntries" using six [OF ds(2)] ds(3) by simp
  moreover have "wf_PersistStatus (read_persist_status ops st)"
    by (simp add: read_persist_status_def wf_PersistStatus_def u8_PersistStatus_def)
  ultimately show ?thesis
    using ds assms(2) readback_result_wf(1) [OF assms(1)]
    by (auto simp: wf_ConfigAck_def ConfigAck_img_def)
qed

section \<open>Stores in use\<close>

text \<open>Every store the firmware can build over a table of blocks, and every call it can make.\<close>

inductive store_reachable :: "'p Persist \<Rightarrow> 'p Store \<Rightarrow> bool" for ops where
  sr_new: "tb_wf t \<Longrightarrow> param_rows (tb_rows t) \<Longrightarrow> store_reachable ops (Store_new t p)"
| sr_enable: "store_reachable ops st \<Longrightarrow> store_reachable ops (enable_phy_trial st)"
| sr_apply: "store_reachable ops st \<Longrightarrow> store_reachable ops (snd (store_apply ops e st))"
| sr_restore: "store_reachable ops st \<Longrightarrow> store_reachable ops (snd (restore ops i v st))"
| sr_commit: "store_reachable ops st \<Longrightarrow> store_reachable ops (snd (commit_phy_trial ops st))"
| sr_revert: "store_reachable ops st \<Longrightarrow> store_reachable ops (revert_phy_trial st)"
| sr_forget: "store_reachable ops st \<Longrightarrow> store_reachable ops (forget_phy_group st)"
| sr_defaults: "store_reachable ops st \<Longrightarrow> store_reachable ops (snd (restore_defaults ops st))"

lemma Store_new_inv: "tb_wf t \<Longrightarrow> param_rows (tb_rows t) \<Longrightarrow> store_inv (Store_new t p)"
  by (simp add: store_inv_def Store_new_def)

lemma enable_inv: "store_inv st \<Longrightarrow> store_inv (enable_phy_trial st)"
  by (simp add: store_inv_def enable_phy_trial_def)

lemma revert_inv: "store_inv st \<Longrightarrow> store_inv (revert_phy_trial st)"
  by (simp add: store_inv_def revert_phy_trial_def)

lemma restore_defaults_inv: "store_inv st \<Longrightarrow> store_inv (snd (restore_defaults ops st))"
  by (auto simp: restore_defaults_eq defaults_kept_inv split: option.split)

lemmas store_inv_intros =
  Store_new_inv enable_inv store_apply_inv restore_inv commit_inv revert_inv forget_inv restore_defaults_inv

lemma reachable_inv: "store_reachable ops st \<Longrightarrow> store_inv st"
  by (induction rule: store_reachable.induct) (auto intro: store_inv_intros)

end
