(* ===== verification/ConfigCorrect.thy ===== *)
theory ConfigCorrect
  imports ConfigStore
begin

text \<open>
  What the configuration library promises: values stay inside their ranges in every state the
  store can reach, an answer tells the truth about the value in force, the PHY trial commits or
  reverts as a whole, and a readback covers the table in order and inside the message bound.
\<close>

section \<open>A store to evaluate\<close>

text \<open>GateLink's table, and a nonvolatile store that takes every write.\<close>

definition gatelink_table :: Table where
  "gatelink_table = snd (add_block kGateLinkParams (snd (add_block kNodeCommonParams Table_new)))"

definition taking :: "unit Persist" where
  "taking = \<lparr>ps_usable = (\<lambda>_. True), ps_save = (\<lambda>i v p. (True, p)), ps_clear_all = (\<lambda>p. (True, p)),
             ps_save_group = (\<lambda>g p. (True, p))\<rparr>"

definition sample_store :: "unit Store" where
  "sample_store = enable_phy_trial (Store_new gatelink_table (Some ()))"

text \<open>SET spreading\_factor to 20, above its maximum, and bandwidth\_khz to 300, off its list.\<close>

definition sf_entry :: ConfigEntry where
  "sf_entry = \<lparr>ce_param_id = 0x0111, ce_ptype = PT_U8, ce_len = 1, ce_value = [20, 0, 0, 0]\<rparr>"

definition bw_entry :: ConfigEntry where
  "bw_entry = \<lparr>ce_param_id = 0x0112, ce_ptype = PT_U16, ce_len = 2, ce_value = [44, 1, 0, 0]\<rparr>"

definition sf_row :: ParamDef where
  "sf_row = row 0x0111 ''spreading_factor'' Ow_Node Ac_Phy PT_U8 7 12 9 None ''SF, spec 12.1 - fleet-wide''"

definition trial_store :: "unit Store" where
  "trial_store = snd (store_apply taking sf_entry sample_store)"

lemma gatelink_rows_eq: "tb_rows gatelink_table = kNodeCommonParams @ kGateLinkParams"
  "tb_total gatelink_table = length (kNodeCommonParams @ kGateLinkParams)" "tb_wf gatelink_table"
proof -
  have 1: "fst (add_block kNodeCommonParams Table_new)"
    by (simp add: add_block_def Table_new_def kNodeCommonParams_def)
  have 2: "fst (add_block kGateLinkParams (snd (add_block kNodeCommonParams Table_new)))"
    by (simp add: add_block_def Table_new_def kNodeCommonParams_def kGateLinkParams_def row_def)
  show rows: "tb_rows gatelink_table = kNodeCommonParams @ kGateLinkParams"
    using add_block_rows [OF 1] add_block_rows [OF 2] by (simp add: gatelink_table_def tb_rows_def Table_new_def)
  show wf: "tb_wf gatelink_table" unfolding gatelink_table_def by (intro add_block_wf tb_wf_new)
  with rows show "tb_total gatelink_table = length (kNodeCommonParams @ kGateLinkParams)"
    by (simp add: tb_wf_def)
qed

lemma sample_reachable: "store_reachable taking sample_store" "store_reachable taking trial_store"
proof -
  have "param_rows (tb_rows gatelink_table)"
    unfolding gatelink_rows_eq by (rule gatelink_rows.param_rows_axioms)
  then show "store_reachable taking sample_store"
    unfolding sample_store_def by (intro store_reachable.intros gatelink_rows_eq)
  then show "store_reachable taking trial_store" unfolding trial_store_def by (rule sr_apply)
qed

lemma sample_table [simp]: "so_table sample_store = gatelink_table"
  by (simp add: sample_store_def Store_new_def enable_phy_trial_def)

lemma sf_find: "st_find 0x0111 sample_store = Some sf_row"
  by (simp add: st_find_def table_find_rows gatelink_rows_eq kNodeCommonParams_def sf_row_def row_def)

lemma sf_trial: "trial_store = sample_store\<lparr>so_trial := [\<lparr>ov_id = 0x0111, ov_value = 12, ov_set = True\<rparr>]\<rparr>"
proof -
  have "requested sf_entry = 20"
    by (simp add: requested_def sf_entry_def entry_signed_def entry_raw_def upt_small)
  then have "clamp (requested sf_entry) sf_row = 12" by (simp add: clamp_def sf_row_def row_def)
  moreover have "refusal taking sf_entry sf_row sample_store = None"
    using calculation
    by (simp add: refusal_def sf_entry_def sf_row_def row_def phy_writable_def persist_usable_def taking_def
        sample_store_def Store_new_def enable_phy_trial_def value_allowed_def points_for_def kParamPoints_def)
  moreover have "pd_access sf_row = Ac_Phy" "ce_param_id sf_entry = 0x0111"
    by (simp_all add: sf_row_def row_def sf_entry_def)
  ultimately show ?thesis
    using store_apply_phy [of sf_entry sample_store sf_row taking] sf_find
    by (simp add: trial_store_def sample_store_def Store_new_def enable_phy_trial_def)
qed

section \<open>Properties\<close>

text \<open>
  C18: whatever is set, restored, committed, reverted or reset, in whatever order, and whatever the
  nonvolatile store answers, every parameter of the table reads as a value inside its range and on
  its list where it has one, and the override array and the trial copy never need more than their
  fixed sizes.
\<close>

theorem store_values_always_valid:
  assumes "store_reachable ops st"
  shows "(\<forall>d \<in> set (tb_rows (so_table st)). valid_value d (effective (pd_id d) st)) \<and>
    length (so_overrides st) \<le> kMaxTableParams \<and> length (so_trial st) \<le> kPhyGroupSize"
proof -
  have inv: "store_inv st" using assms by (rule reachable_inv)
  have "length (so_overrides st) \<le> length (tb_rows (so_table st))"
    using slots_ok_length [OF store_inv_overrides [OF inv]] length_filter_le le_trans by blast
  moreover have "length (so_trial st) \<le> kPhyGroupSize"
    using slots_ok_length [OF store_inv_trial [OF inv]] param_rows.phy_group [OF store_inv_rows [OF inv]]
    by (rule le_trans)
  ultimately show ?thesis
    using inv store_inv_wf [OF inv] effective_valid [OF inv] row_of_find [OF inv]
    by (auto simp: tb_wf_def)
qed

theorem store_values_always_valid_witness:
  "store_reachable taking trial_store \<and>
   valid_value sf_row (effective (pd_id sf_row) trial_store) \<and> length (so_trial trial_store) \<le> kPhyGroupSize"
proof -
  have "sf_row \<in> set (tb_rows (so_table trial_store))"
    using table_find_SomeD sf_find by (auto simp: sf_trial st_find_def)
  with store_values_always_valid [OF sample_reachable(2)] sample_reachable(2) show ?thesis by simp
qed

text \<open>
  The answer to an entry tells the truth. It names the parameter, its type and width, and
  carries the value in force after the entry and whether that value is an override; it says OK or
  CLAMPED exactly when the entry took effect, and then the value in force is the requested one
  clamped to the range. A refused entry changes nothing, and no entry changes another parameter.
\<close>

theorem apply_answers_effective:
  assumes "store_inv st" "st_find (ce_param_id e) st = Some d"
    "store_apply ops e st = ((r, applied, saved), st')"
  shows "answers r d (effective (pd_id d) st') (marked_override (pd_id d) st') \<and>
    (applied \<longleftrightarrow> cae_status r = (if clamp (requested e) d = requested e then Pa_Ok else Pa_Clamped)) \<and>
    (applied \<longrightarrow> effective (pd_id d) st' = clamp (requested e) d) \<and>
    (\<not> applied \<longrightarrow> st' = st \<and> refusal ops e d st = Some (cae_status r)) \<and>
    (\<forall>j. j \<noteq> pd_id d \<longrightarrow> effective j st' = effective j st)"
proof -
  have i: "ce_param_id e = pd_id d" using assms(2) table_find_SomeD by (auto simp: st_find_def)
  from assms(1,2) show ?thesis
  proof (cases rule: store_apply_cases [where ops = ops])
    case (refused s)
    have "s \<noteq> Pa_Ok \<and> s \<noteq> Pa_Clamped" using refused(1) by (auto simp: refusal_def split: if_splits)
    with refused assms(3) i held_answers [OF assms(1,2), of s] show ?thesis by auto
  next
    case (trial s v)
    have h: "ptype_holds (pd_type d) v" by (rule row_value_holds [OF assms(1,2) trial(4)])
    have st': "st' = st\<lparr>so_trial := put_override (pd_id d) v (so_trial st)\<rparr>"
      and r: "r = packed_result (pd_id d) s (pd_type d) v True" and applied
      using trial(6) assms(3) i by auto
    have "marked_override (pd_id d) st'"
      by (simp add: st' marked_override_def trial_slot_def slot_of_put)
    with \<open>applied\<close> st' r trial(3,5) i packed_answers [OF h] packed_result_fields(2) [OF h] assms(2)
    show ?thesis by (simp add: effective_put_trial)
  next
    case (set s v saved' p)
    have h: "ptype_holds (pd_type d) v" by (rule row_value_holds [OF assms(1,2) set(4)])
    have st': "st' = (snd (set_override (pd_id d) v st))\<lparr>so_persist := p\<rparr>"
      and r: "r = packed_result (pd_id d) s (pd_type d) v True" and applied
      using set(7) assms i by (auto simp: set_override_eq)
    have t: "trial_slot (pd_id d) st = None"
      using trial_slot_phy [OF assms(1,2)] set(2) i by simp
    have "marked_override (pd_id d) st'"
      using assms(1,2) i by (simp add: st' marked_override_def is_override_def set_override_eq slot_def slot_of_put)
    with \<open>applied\<close> st' r t set(3,5) i packed_answers [OF h] packed_result_fields(2) [OF h] assms(1,2)
    show ?thesis by (simp add: effective_set_override)
  qed
qed

theorem apply_answers_effective_witness:
  "\<exists>r saved. store_apply taking sf_entry sample_store = ((r, True, saved), trial_store) \<and>
     answers r sf_row (effective 0x0111 trial_store) True \<and> effective 0x0111 trial_store = 12"
proof -
  obtain r applied saved st' where
    a: "store_apply taking sf_entry sample_store = ((r, applied, saved), st')" by (metis surj_pair)
  have st': "st' = trial_store" using a by (simp add: trial_store_def)
  have inv: "store_inv sample_store" by (rule reachable_inv [OF sample_reachable(1)])
  have ids: "ce_param_id sf_entry = 0x0111" "pd_id sf_row = 0x0111"
    by (simp_all add: sf_entry_def sf_row_def row_def)
  have e: "effective 0x0111 trial_store = 12" "marked_override 0x0111 trial_store"
    using sf_find by (simp_all add: sf_trial effective_def marked_override_def trial_slot_def slot_of_def st_find_def)
  have "st' \<noteq> sample_store" by (simp add: st' sf_trial sample_store_def Store_new_def enable_phy_trial_def)
  moreover have "st_find (ce_param_id sf_entry) sample_store = Some sf_row" using sf_find ids by simp
  note A = apply_answers_effective [OF inv this a]
  ultimately have applied using A by blast
  moreover have "answers r sf_row (effective 0x0111 trial_store) True"
    using conjunct1 [OF A] e(2) by (simp add: st' ids)
  ultimately show ?thesis using a e(1) unfolding st' by auto
qed

text \<open>
  C19: the PHY trial is all or nothing. Committing never changes a value in force; when it succeeds
  every trial value is the committed one and the trial is over; when it fails the committed values
  and the trial are exactly as they were. Reverting brings every parameter back to its committed
  value, and an entry for a PHY row moves no committed value.
\<close>

theorem phy_trial_all_or_nothing:
  assumes "store_inv st" "commit_phy_trial ops st = (ok, st')"
  shows "(\<forall>i. effective i st' = effective i st) \<and>
    (ok \<longrightarrow> so_trial st' = [] \<and> (\<forall>i. committed i st' = effective i st)) \<and>
    (\<not> ok \<longrightarrow> so_trial st' = so_trial st \<and> so_overrides st' = so_overrides st) \<and>
    (\<forall>i. effective i (revert_phy_trial st) = committed i st) \<and>
    (\<forall>e d i. st_find (ce_param_id e) st = Some d \<and> pd_access d = Ac_Phy \<longrightarrow>
       committed i (snd (store_apply ops e st)) = committed i st)"
proof -
  have eff: "effective i st' = effective i st" for i using commit_effective [OF assms(1), of i ops] assms(2) by simp
  have "committed i (snd (store_apply ops e st)) = committed i st"
    if "st_find (ce_param_id e) st = Some d" "pd_access d = Ac_Phy" for e d i
    by (rule store_apply_cases [OF assms(1) that(1), of ops]) (use that in \<open>simp_all add: committed_def\<close>)
  moreover have "so_trial st' = []" if ok
    by (rule commit_cases [OF assms(1), of ops]) (use assms(2) that in auto)
  moreover have "so_trial st' = so_trial st \<and> so_overrides st' = so_overrides st" if "\<not> ok"
    by (rule commit_cases [OF assms(1), of ops]) (use assms(2) that in auto)
  moreover have "committed i st' = effective i st" if "so_trial st' = []" for i
    using that eff [of i] by (cases st') (simp add: committed_def)
  ultimately show ?thesis
    using eff by (auto simp: committed_def [of _ st] revert_phy_trial_def)
qed

theorem phy_trial_all_or_nothing_witness:
  "fst (commit_phy_trial taking trial_store) \<and> effective 0x0111 (snd (commit_phy_trial taking trial_store)) = 12 \<and>
   committed 0x0111 trial_store = 9 \<and> effective 0x0111 (revert_phy_trial trial_store) = 9"
proof -
  obtain ok st' where c: "commit_phy_trial taking trial_store = (ok, st')" by fastforce
  have inv: "store_inv trial_store" by (rule reachable_inv [OF sample_reachable(2)])
  have ok
  proof (rule commit_cases [OF inv, of taking])
    assume "\<not> phy_writable taking trial_store"
    then show ok
      by (simp add: sf_trial phy_writable_def persist_usable_def sample_store_def Store_new_def
          enable_phy_trial_def taking_def)
  qed (use c in \<open>auto simp: taking_def\<close>)
  have "effective 0x0111 trial_store = 12" "committed 0x0111 trial_store = 9"
    using sf_find
    by (simp_all add: sf_trial effective_def committed_def trial_slot_def slot_of_def st_find_def slot_def
        sample_store_def Store_new_def enable_phy_trial_def sf_row_def row_def)
  with phy_trial_all_or_nothing [OF inv c] c \<open>ok\<close> show ?thesis by simp
qed

text \<open>
  RESTORE\_DEFAULTS sets every parameter outside the PHY group to its default and leaves every
  PHY parameter exactly as it was, a trial in progress included; it reports success only when the
  nonvolatile store was usable and took the clear.
\<close>

theorem restore_defaults_spares_phy:
  assumes "store_inv st" "d \<in> set (tb_rows (so_table st))" "restore_defaults ops st = (ok, st')"
  shows "effective (pd_id d) st' = (if pd_access d = Ac_Phy then effective (pd_id d) st else pd_def d) \<and>
    so_trial st' = so_trial st \<and>
    (ok \<longleftrightarrow> (\<exists>p. so_persist st = Some p \<and> ps_usable ops p \<and> fst (ps_clear_all ops p)))"
proof -
  have "so_trial (defaults_kept st) = so_trial st" by (simp add: defaults_kept_def)
  with defaults_kept_effective [OF assms(1) row_of_find [OF assms(1,2)]] assms(3) show ?thesis
    unfolding restore_defaults_eq [OF assms(1)] by (auto split: option.splits if_splits)
qed

theorem restore_defaults_spares_phy_witness:
  "fst (restore_defaults taking trial_store) \<and> effective 0x0111 (snd (restore_defaults taking trial_store)) = 12"
proof -
  obtain ok st' where r: "restore_defaults taking trial_store = (ok, st')" by fastforce
  have row: "sf_row \<in> set (tb_rows (so_table trial_store))" "pd_id sf_row = 0x0111" "pd_access sf_row = Ac_Phy"
    using table_find_SomeD sf_find by (auto simp: sf_trial st_find_def sf_row_def row_def)
  have "effective 0x0111 trial_store = 12" "so_persist trial_store = Some ()"
    using sf_find by (simp_all add: sf_trial effective_def trial_slot_def slot_of_def st_find_def
        sample_store_def Store_new_def enable_phy_trial_def)
  with restore_defaults_spares_phy [OF reachable_inv [OF sample_reachable(2)] row(1) r] r row(2,3)
  show ?thesis by (simp add: taking_def)
qed

text \<open>
  C20: a readback covers the table. Sent message by message, the results are those of a GET of
  every row, in ascending id order and each exactly once; there are at most four messages, all but
  the last announcing another; and each fits a frame: it serializes into a payload buffer and the
  receiver parses back the same message.
\<close>

theorem readback_covers_table:
  assumes "store_inv st" "wf_ConfigOp op" "length buf = kMaxSchemaPayload"
  shows "concat (map nca_entries (readback_messages ops op st)) =
      map (\<lambda>d. store_get (pd_id d) st) (tb_rows (so_table st)) \<and>
    sorted_wrt (<) (map pd_id (tb_rows (so_table st))) \<and>
    chained (readback_messages ops op st) \<and>
    length (readback_messages ops op st) \<le> kMaxConfigAckMessages \<and>
    (\<forall>m \<in> set (readback_messages ops op st).
       \<exists>out n. serialize_NodeConfigAckV1 m buf = (St_Ok, out, Some n) \<and>
               deserialize_NodeConfigAckV1 (take n out) = Inr m)"
proof -
  let ?ms = "readback_messages ops op st" let ?rows = "tb_rows (so_table st)"
  note wf = store_inv_wf [OF assms(1)]
  have "concat (map nca_entries ?ms) = map (readback_result st) ?rows \<and> chained ?ms \<and>
      length ?ms \<le> kMaxConfigAckMessages"
    using readback_run_spec [OF wf, of 0 0 "kMaxConfigAckMessages + 1" ops op] wf
    by (simp add: readback_messages_def ReadbackCursor_init_def Let_def tb_wf_def)
  moreover have "map (readback_result st) ?rows = map (\<lambda>d. store_get (pd_id d) st) ?rows"
    using readback_result_wf(3) [OF assms(1)] by simp
  moreover have "sorted_wrt (<) (map pd_id ?rows)"
    using param_rows.ascending [OF store_inv_rows [OF assms(1)]] by (simp add: ids_ascending_iff)
  moreover have "\<exists>out n. serialize_NodeConfigAckV1 m buf = (St_Ok, out, Some n) \<and>
               deserialize_NodeConfigAckV1 (take n out) = Inr m" if "m \<in> set ?ms" for m
  proof -
    have "wf_ConfigAck m"
      using readback_message_wf [OF assms(1,2)] that by (simp add: readback_messages_def)
    then show ?thesis
      using fmt_ConfigAck.ser_fits [of m buf] fmt_ConfigAck.des_img [of m] assms(3)
      by (auto simp: wf_ConfigAck_def)
  qed
  ultimately show ?thesis by simp
qed

theorem readback_covers_table_witness:
  "concat (map nca_entries (readback_messages taking CO_GetAll trial_store)) =
     map (\<lambda>d. store_get (pd_id d) trial_store) (kNodeCommonParams @ kGateLinkParams) \<and>
   chained (readback_messages taking CO_GetAll trial_store)"
proof -
  have "wf_ConfigOp CO_GetAll" by (simp add: wf_ConfigOp_def u8_ConfigOp_def)
  moreover have "tb_rows (so_table trial_store) = kNodeCommonParams @ kGateLinkParams"
    by (simp add: sf_trial gatelink_rows_eq)
  ultimately show ?thesis
    using readback_covers_table [OF reachable_inv [OF sample_reachable(2)], of CO_GetAll "replicate 196 0" taking]
    by simp
qed

section \<open>The shipped tables\<close>

lemma phy_namesakes_mono: "phy_namesakes b ns True = Some found \<Longrightarrow> found"
  by (induction ns) (auto split: if_splits)

lemma phy_namesakes_True:
  "phy_namesakes b ns False = Some True \<Longrightarrow>
   \<exists>n\<in>set ns. pd_access n = Ac_Phy \<and> pd_name n = pd_name b \<and> pd_type n = pd_type b \<and>
     pd_min n = pd_min b \<and> pd_max n = pd_max b \<and> pd_def n = pd_def b"
  by (induction ns) (auto split: if_splits)

lemma phy_matched_all:
  "phy_matched bs ns k = Some m \<Longrightarrow> b \<in> set bs \<Longrightarrow> pd_access b = Ac_Phy \<Longrightarrow> phy_namesakes b ns False = Some True"
  by (induction bs ns k rule: phy_matched.induct) (auto split: if_splits option.splits bool.splits)

lemma phy_rows_agreeD:
  assumes "phy_rows_agree bs ns" "b \<in> set bs" "pd_access b = Ac_Phy"
  obtains n where "n \<in> set ns" "pd_access n = Ac_Phy" "pd_name n = pd_name b" "pd_type n = pd_type b"
    "pd_min n = pd_min b" "pd_max n = pd_max b" "pd_def n = pd_def b"
  using assms phy_matched_all [of bs ns 0 _ b] phy_namesakes_True [of b ns]
  by (fastforce simp: phy_rows_agree_def split: option.splits)

lemma valid_value_cong:
  "pd_name n = pd_name b \<Longrightarrow> pd_min n = pd_min b \<Longrightarrow> pd_max n = pd_max b \<Longrightarrow> valid_value n v = valid_value b v"
  by (simp add: valid_value_def value_allowed_def points_for_def)

text \<open>
  The bridge and the nodes agree on the PHY group. Every PHY row of the bridge has a node row
  of its name that takes exactly the same values, with the same type and default, so a value the
  bridge accepts for itself is never clamped or refused by a node. A full GateLink readback takes
  240 bytes of results, more than one message's 193.
\<close>

theorem phy_values_shared:
  "(\<forall>b \<in> set kBridgeParams. pd_access b = Ac_Phy \<longrightarrow>
      (\<exists>n \<in> set kNodeCommonParams. pd_access n = Ac_Phy \<and> pd_name n = pd_name b \<and>
         pd_type n = pd_type b \<and> pd_def n = pd_def b \<and> (\<forall>v. valid_value n v = valid_value b v))) \<and>
   readback_bytes (kNodeCommonParams @ kGateLinkParams) = 240 \<and>
   240 > kMaxSchemaPayload - kConfigAckHdrLen"
proof -
  have agree: "phy_rows_agree kBridgeParams kNodeCommonParams"
    by (simp add: phy_rows_agree_def shipped_tables)
  have "\<exists>n \<in> set kNodeCommonParams. pd_access n = Ac_Phy \<and> pd_name n = pd_name b \<and>
         pd_type n = pd_type b \<and> pd_def n = pd_def b \<and> (\<forall>v. valid_value n v = valid_value b v)"
    if "b \<in> set kBridgeParams" "pd_access b = Ac_Phy" for b
    by (rule phy_rows_agreeD [OF agree that]) (metis valid_value_cong)
  moreover have "readback_bytes (kNodeCommonParams @ kGateLinkParams) = 240"
    by (simp add: readback_bytes_def shipped_tables)
  ultimately show ?thesis by simp
qed

theorem phy_values_shared_witness:
  "\<exists>n \<in> set kNodeCommonParams. pd_name n = ''bandwidth_khz'' \<and> valid_value n 250 \<and> \<not> valid_value n 300"
proof -
  define b where "b = row 0x0012 ''bandwidth_khz'' Ow_BridgeGlobal Ac_Phy PT_U16 125 500 125 (Some ''kHz'')
    ''BW - 125 until an envelope decision, spec 18.2''"
  have "b \<in> set kBridgeParams" "pd_access b = Ac_Phy" "pd_name b = ''bandwidth_khz''"
    by (simp_all add: b_def row_def kBridgeParams_def)
  moreover have "valid_value b 250" "\<not> valid_value b 300"
    by (simp_all add: b_def row_def valid_value_def value_allowed_def points_for_def kParamPoints_def)
  ultimately show ?thesis using phy_values_shared by metis
qed

end
