(* ===== verification/PhyBlob.thy ===== *)
theory PhyBlob
  imports ConfigCorrect
begin

text \<open>
  The PHY group's nonvolatile record (\<open>lib/lran-config\<close>: \<open>phy\_blob.h\<close>, \<open>phy\_blob.cpp\<close>) and
  \<open>PhyPersist\<close> of \<open>lib/lran-node\<close> (\<open>phy\_trial.h\<close>, \<open>phy\_trial.cpp\<close>), the nonvolatile store built
  on it. The bytes of the board, \<open>BlobStore\<close>, are an interface the firmware implements: a record
  of operations on a state of any type, with the contract \<open>blob\_store\<close>. The contract gives
  \<open>persist\<close>, what the configuration store relies on.

  The arrays \<open>ids\<close> and \<open>values\<close> with their count are a list of pairs. A function that returns a
  byte count returns the bytes, none when the count is 0.
\<close>

section \<open>The blob (phy\_blob.h, phy\_blob.cpp)\<close>

abbreviation kPhyBlobVersion :: u8 where "kPhyBlobVersion \<equiv> 2"
text \<open>\<open>kPhyBlobMax\<close> is \<open>5 + kPhyGroupSize * 6\<close>.\<close>

abbreviation kPhyBlobMax :: nat where "kPhyBlobMax \<equiv> 41"

record PhyBlob =
  pb_trial_open :: bool
  pb_ack_owed :: bool
  pb_ack_rows :: u16
  pb_rows :: "(u16 \<times> Value) list"

definition PhyBlob_init :: PhyBlob where
  "PhyBlob_init = \<lparr>pb_trial_open = False, pb_ack_owed = False, pb_ack_rows = 0, pb_rows = []\<rparr>"

definition put_u16 :: "u16 \<Rightarrow> bytes" where
  "put_u16 v = [ucast (v AND 0xFF), ucast (drop_bit 8 v)]"

definition put_i32 :: "Value \<Rightarrow> bytes" where
  "put_i32 v = (let u = word_of_int v :: u32 in map (\<lambda>i. ucast (drop_bit (8 * i) u)) [0, 1, 2, 3])"

definition get_u16 :: "bytes \<Rightarrow> u16" where
  "get_u16 p = ucast (p ! 0) OR push_bit 8 (ucast (p ! 1))"

definition get_i32 :: "bytes \<Rightarrow> Value" where
  "get_i32 p = sint (foldl (\<lambda>u i. u OR push_bit (8 * i) (ucast (p ! i))) (0 :: u32) [0, 1, 2, 3])"

definition phy_blob_encode :: "PhyBlob \<Rightarrow> nat \<Rightarrow> bytes" where
  "phy_blob_encode b cap =
     (let n = length (pb_rows b); len = 5 + n * 6 in
      if n > kPhyGroupSize then []
      else if cap < len then []
      else [kPhyBlobVersion, (if pb_trial_open b then 0x01 else 0x00) OR (if pb_ack_owed b then 0x02 else 0x00)] @
           put_u16 (pb_ack_rows b) @ [of_nat n] @
           concat (map (\<lambda>(i, v). put_u16 i @ put_i32 v) (pb_rows b)))"

definition phy_blob_decode :: "bytes \<Rightarrow> PhyBlob option" where
  "phy_blob_decode bs =
     (if length bs < 3 then None
      else let hdr = (if bs ! 0 = 1 then 3 else if bs ! 0 = kPhyBlobVersion \<and> length bs \<ge> 5 then 5 else 0) in
        if hdr = 0 then None
        else let n = unat (bs ! (hdr - 1)) in
          if n > kPhyGroupSize \<or> length bs \<noteq> hdr + n * 6 then None
          else Some \<lparr>pb_trial_open = (bs ! 1 AND 0x01 \<noteq> 0),
                     pb_ack_owed = (hdr = 5 \<and> bs ! 1 AND 0x02 \<noteq> 0),
                     pb_ack_rows = (if hdr = 5 then get_u16 (drop 2 bs) else 0),
                     pb_rows = map (\<lambda>i. (get_u16 (drop (hdr + i * 6) bs), get_i32 (drop (hdr + 2 + i * 6) bs)))
                                 [0..<n]\<rparr>)"

section \<open>PhyPersist (phy\_trial.h, phy\_trial.cpp)\<close>

record 'b BlobStore =
  bs_usable :: "'b \<Rightarrow> bool"
  bs_read :: "nat \<Rightarrow> 'b \<Rightarrow> bytes"
  bs_write :: "bytes \<Rightarrow> 'b \<Rightarrow> bool \<times> 'b"
  bs_erase :: "'b \<Rightarrow> bool \<times> 'b"

text \<open>The state of a \<open>PhyPersist\<close> is its \<open>bytes\_\<close>, \<open>None\<close> for a null pointer.\<close>

definition pp_usable :: "'b BlobStore \<Rightarrow> 'b option \<Rightarrow> bool" where
  "pp_usable bo q = (case q of None \<Rightarrow> False | Some b \<Rightarrow> bs_usable bo b)"

definition pp_write :: "'b BlobStore \<Rightarrow> PhyBlob \<Rightarrow> 'b option \<Rightarrow> bool \<times> 'b option" where
  "pp_write bo blob q =
     (if \<not> pp_usable bo q then (False, q)
      else let buf = phy_blob_encode blob kPhyBlobMax in
        if buf = [] then (False, q)
        else let (ok, b) = bs_write bo buf (the q) in (ok, Some b))"

definition pp_read :: "'b BlobStore \<Rightarrow> 'b option \<Rightarrow> PhyBlob option" where
  "pp_read bo q =
     (if \<not> pp_usable bo q then None
      else let buf = bs_read bo kPhyBlobMax (the q) in
        if buf = [] then None else phy_blob_decode buf)"

definition pp_save_group :: "'b BlobStore \<Rightarrow> (u16 \<times> Value) list \<Rightarrow> 'b option \<Rightarrow> bool \<times> 'b option" where
  "pp_save_group bo grp q =
     (if length grp > kPhyGroupSize then (False, q)
      else pp_write bo (PhyBlob_init\<lparr>pb_trial_open := False, pb_rows := grp\<rparr>) q)"

definition pp_mark_trial :: "'b BlobStore \<Rightarrow> bool \<Rightarrow> 'b option \<Rightarrow> bool \<times> 'b option" where
  "pp_mark_trial bo opened q =
     (let b = (case pp_read bo q of None \<Rightarrow> PhyBlob_init | Some b \<Rightarrow> b)
      in pp_write bo (b\<lparr>pb_trial_open := opened\<rparr>) q)"

definition pp_erase :: "'b BlobStore \<Rightarrow> 'b option \<Rightarrow> bool \<times> 'b option" where
  "pp_erase bo q =
     (if pp_usable bo q then let (ok, b) = bs_erase bo (the q) in (ok, Some b) else (False, q))"

definition PhyPersist :: "'b BlobStore \<Rightarrow> ('b option) Persist" where
  "PhyPersist bo = \<lparr>ps_usable = pp_usable bo, ps_save = (\<lambda>i v q. (False, q)),
     ps_clear_all = (\<lambda>q. (False, q)), ps_save_group = pp_save_group bo\<rparr>"

section \<open>Encoding and decoding\<close>

definition i32_range :: "Value \<Rightarrow> bool" where
  "i32_range v \<longleftrightarrow> - (2 ^ 31) \<le> v \<and> v < 2 ^ 31"

lemma put_u16_eq: "put_u16 v = le16 v"
  unfolding put_u16_def le16_def by (auto intro!: bit_word_eqI simp: bit_simps)

lemma put_i32_eq: "put_i32 v = le32 (word_of_int v)"
  by (simp add: put_i32_def le32_def Let_def)

lemma get_u16_le16: "get_u16 (le16 v @ rest) = v"
  by (auto intro!: bit_word_eqI simp: get_u16_def le16_def bit_simps)

lemma get_i32_le32: "i32_range v \<Longrightarrow> get_i32 (le32 (word_of_int v) @ rest) = v"
proof -
  assume v: "i32_range v"
  have "get_i32 (le32 u @ rest) = sint u" for u :: u32
  proof -
    have "foldl (\<lambda>x i. x OR push_bit (8 * i) (ucast ((le32 u @ rest) ! i))) (0 :: u32) [0, 1, 2, 3] = u"
      using of_le32_inverse [of u] by (simp add: le32_def of_le32_def or.assoc)
    then show ?thesis by (simp only: get_i32_def)
  qed
  with v sint_of_small [of v] show ?thesis by (simp add: i32_range_def)
qed

definition blob_row :: "u16 \<times> Value \<Rightarrow> bytes" where
  "blob_row iv = le16 (fst iv) @ le32 (word_of_int (snd iv))"

lemma length_blob_row [simp]: "length (blob_row iv) = 6"
  by (simp add: blob_row_def)

lemma length_blob_rows [simp]: "length (concat (map blob_row rows)) = length rows * 6"
  by (induction rows) auto

lemma drop_blob_rows:
  "i < length rows \<Longrightarrow>
   drop (i * 6) (concat (map blob_row rows)) = blob_row (rows ! i) @ concat (map blob_row (drop (Suc i) rows))"
proof (induction rows arbitrary: i)
  case (Cons r rows)
  then show ?case by (cases i) (auto simp: add.commute)
qed simp

text \<open>A group that fits: at most six rows, each value an \<open>int32\_t\<close>.\<close>

definition blob_ok :: "PhyBlob \<Rightarrow> bool" where
  "blob_ok b \<longleftrightarrow> length (pb_rows b) \<le> kPhyGroupSize \<and> list_all (\<lambda>iv. i32_range (snd iv)) (pb_rows b)"

lemma phy_blob_encode_eq:
  "blob_ok b \<Longrightarrow> phy_blob_encode b kPhyBlobMax =
     [kPhyBlobVersion, (if pb_trial_open b then 0x01 else 0x00) OR (if pb_ack_owed b then 0x02 else 0x00)] @
     le16 (pb_ack_rows b) @ [of_nat (length (pb_rows b))] @ concat (map blob_row (pb_rows b))"
proof -
  have "(\<lambda>(i, v). put_u16 i @ put_i32 v) = blob_row"
    by (auto simp: fun_eq_iff blob_row_def put_u16_eq put_i32_eq)
  then show "blob_ok b \<Longrightarrow> ?thesis"
    by (simp add: phy_blob_encode_def blob_ok_def Let_def put_u16_eq)
qed

lemma phy_blob_decode_encode:
  assumes "blob_ok b"
  shows "phy_blob_decode (phy_blob_encode b kPhyBlobMax) = Some b"
proof -
  let ?rows = "pb_rows b" let ?n = "length ?rows"
  let ?flags = "(if pb_trial_open b then 0x01 else 0x00) OR (if pb_ack_owed b then 0x02 else 0x00) :: u8"
  define hdr where "hdr = [2, ?flags] @ le16 (pb_ack_rows b) @ [of_nat ?n]"
  define bs where "bs = hdr @ concat (map blob_row ?rows)"
  have n: "?n \<le> 6" "unat (of_nat ?n :: u8) = ?n"
    using assms by (simp_all add: blob_ok_def unat_of_nat)
  have h: "length hdr = 5" "bs ! 0 = 2" "bs ! 1 = ?flags" "bs ! 4 = of_nat ?n" "length bs = 5 + ?n * 6"
    by (simp_all add: hdr_def bs_def nth_append le16_def)
  have ack: "get_u16 (drop 2 bs) = pb_ack_rows b"
    using get_u16_le16 [of "pb_ack_rows b" "[of_nat ?n] @ concat (map blob_row ?rows)"]
    by (simp add: bs_def hdr_def)
  have row: "(get_u16 (drop (5 + i * 6) bs), get_i32 (drop (7 + i * 6) bs)) = ?rows ! i" if "i < ?n" for i
  proof -
    have 5: "drop (5 + i * 6) bs = blob_row (?rows ! i) @ concat (map blob_row (drop (Suc i) ?rows))"
      using h(1) drop_blob_rows [OF that] by (simp add: bs_def)
    then have 7: "drop (7 + i * 6) bs =
        le32 (word_of_int (snd (?rows ! i))) @ concat (map blob_row (drop (Suc i) ?rows))"
      using drop_drop [of 2 "5 + i * 6" bs] by (simp add: blob_row_def add.commute)
    have "i32_range (snd (?rows ! i))" using assms that by (simp add: blob_ok_def list_all_length)
    with 5 7 show ?thesis
      by (simp only: get_i32_le32) (simp add: blob_row_def get_u16_le16)
  qed
  have rows: "map (\<lambda>i. (get_u16 (drop (5 + i * 6) bs), get_i32 (drop (5 + 2 + i * 6) bs))) [0..<?n] = ?rows"
    using row by (auto intro!: nth_equalityI)
  have flags: "?flags AND 0x01 \<noteq> 0 \<longleftrightarrow> pb_trial_open b" "?flags AND 0x02 \<noteq> 0 \<longleftrightarrow> pb_ack_owed b"
    by auto
  have "phy_blob_decode bs = Some b"
    unfolding phy_blob_decode_def using n h ack rows flags by (simp add: Let_def)
  then show ?thesis by (simp only: phy_blob_encode_eq [OF assms] bs_def hdr_def append_assoc)
qed

section \<open>The contracts\<close>

text \<open>
  What a board's bytes promise: a write that succeeds is what the next read returns, and an erase
  that succeeds leaves nothing. Nothing is said of what a refused write or erase leaves.
\<close>

locale blob_store =
  fixes bo :: "'b BlobStore"
  assumes read_written: "bs_write bo bs b = (True, b') \<Longrightarrow> length bs \<le> cap \<Longrightarrow> bs_read bo cap b' = bs"
    and read_erased: "bs_erase bo b = (True, b') \<Longrightarrow> bs_read bo cap b' = []"

text \<open>
  What the configuration store relies on of its nonvolatile store (\<open>store.h\<close>): what it holds
  under \<open>save\<close> and, beside it, the PHY group, which only \<open>save\_group\<close> moves.
\<close>

locale persist =
  fixes ops :: "'p Persist"
    and saved :: "'p \<Rightarrow> u16 \<rightharpoonup> Value"
    and grp :: "'p \<Rightarrow> (u16 \<times> Value) list"
  assumes save_saved: "ps_save ops i v p = (True, p') \<Longrightarrow> saved p' = (saved p)(i \<mapsto> v)"
    and save_grp: "ps_save ops i v p = (ok, p') \<Longrightarrow> grp p' = grp p"
    and clear_saved: "ps_clear_all ops p = (True, p') \<Longrightarrow> saved p' = Map.empty"
    and clear_grp: "ps_clear_all ops p = (ok, p') \<Longrightarrow> grp p' = grp p"
    and group_saved: "ps_save_group ops g p = (ok, p') \<Longrightarrow> saved p' = saved p"
    and group_written: "ps_save_group ops g p = (True, p') \<Longrightarrow> length g \<le> kPhyGroupSize \<Longrightarrow>
      list_all (\<lambda>iv. i32_range (snd iv)) g \<Longrightarrow> grp p' = g"
begin

definition st_grp :: "'p Store \<Rightarrow> (u16 \<times> Value) list" where
  "st_grp st = (case so_persist st of None \<Rightarrow> [] | Some p \<Rightarrow> grp p)"

lemma try_save_grp: "try_save ops i v q = (ok, q') \<Longrightarrow> q' = None \<and> q = None \<or>
   (\<exists>p p'. q = Some p \<and> q' = Some p' \<and> grp p' = grp p)"
  using save_grp by (auto simp: try_save_def split: option.splits if_splits prod.splits)

lemma apply_grp:
  assumes "store_inv st"
  shows "st_grp (snd (store_apply ops e st)) = st_grp st"
proof (cases "st_find (ce_param_id e) st")
  case None
  then show ?thesis by (simp add: store_apply_unknown)
next
  case (Some d)
  from assms Some show ?thesis
  proof (cases rule: store_apply_cases [where ops = ops])
    case (set s v saved' p)
    with try_save_grp [of "ce_param_id e" v "so_persist st" saved' p] show ?thesis
      by (auto simp: st_grp_def)
  qed (auto simp: st_grp_def)
qed

lemma restore_defaults_grp:
  assumes "store_inv st"
  shows "st_grp (snd (restore_defaults ops st)) = st_grp st"
proof -
  have "so_persist (defaults_kept st) = so_persist st" by (simp add: defaults_kept_def)
  then show ?thesis
    unfolding restore_defaults_eq [OF assms]
    using clear_grp by (auto simp: st_grp_def prod_eq_iff split: option.splits)
qed

lemma phy_rows_writable:
  assumes "store_inv st"
  shows "length (phy_rows st) \<le> kPhyGroupSize \<and> list_all (\<lambda>iv. i32_range (snd iv)) (phy_rows st)"
proof -
  have "i32_range (snd iv)" if iv: "iv \<in> set (phy_rows st)" for iv
  proof -
    obtain d where d: "st_find (fst iv) st = Some d" "valid_value d (snd iv)"
      using phy_rows_good [OF assms] iv by (auto simp: good_pair_def st_find_def)
    then have "ptype_holds (pd_type d) (snd iv)" by (rule row_value_holds [OF assms])
    then show ?thesis by (cases "pd_type d") (auto simp: i32_range_def)
  qed
  then show ?thesis by (auto simp: list_all_iff phy_rows_def)
qed

lemma commit_grp:
  assumes "store_inv st" "commit_phy_trial ops st = (True, st')"
  shows "st_grp st' = (if so_trial st \<noteq> [] then phy_rows st else st_grp st)"
  by (rule commit_cases [OF assms(1), of ops])
    (use assms group_written phy_rows_writable [OF assms(1)] in \<open>auto simp: st_grp_def\<close>)

end

text \<open>The group a board's bytes hold, none when they do not decode.\<close>

definition blob_rows :: "'b BlobStore \<Rightarrow> 'b option \<Rightarrow> (u16 \<times> Value) list" where
  "blob_rows bo q =
     (case q of None \<Rightarrow> []
      | Some b \<Rightarrow> (case phy_blob_decode (bs_read bo kPhyBlobMax b) of None \<Rightarrow> [] | Some blob \<Rightarrow> pb_rows blob))"

context blob_store
begin

lemma encode_length: "blob_ok blob \<Longrightarrow> length (phy_blob_encode blob kPhyBlobMax) \<le> kPhyBlobMax"
  by (simp add: phy_blob_encode_eq blob_ok_def)

lemma encode_nonempty: "blob_ok blob \<Longrightarrow> phy_blob_encode blob kPhyBlobMax \<noteq> []"
  by (simp add: phy_blob_encode_eq)

lemma write_rows:
  assumes "pp_write bo blob q = (True, q')" "blob_ok blob"
  shows "blob_rows bo q' = pb_rows blob"
  using assms read_written [OF _ encode_length] encode_nonempty [OF assms(2)]
    phy_blob_decode_encode [OF assms(2)]
  by (auto simp: pp_write_def blob_rows_def pp_usable_def Let_def split: if_splits option.splits prod.splits)

end

sublocale blob_store \<subseteq> pp: persist "PhyPersist bo" "\<lambda>_. Map.empty" "blob_rows bo"
proof
  fix g p p' assume a: "ps_save_group (PhyPersist bo) g p = (True, p')" "length g \<le> kPhyGroupSize"
    "list_all (\<lambda>iv. i32_range (snd iv)) g"
  then show "blob_rows bo p' = g"
    using write_rows [of "PhyBlob_init\<lparr>pb_trial_open := False, pb_rows := g\<rparr>" p p']
    by (simp add: PhyPersist_def pp_save_group_def blob_ok_def)
qed (auto simp: PhyPersist_def)

text \<open>
  The same bytes with a note beside them of whether a write or an erase was ever refused.
\<close>

definition logged :: "'b BlobStore \<Rightarrow> ('b \<times> bool) BlobStore" where
  "logged bo = \<lparr>bs_usable = (\<lambda>(b, r). bs_usable bo b), bs_read = (\<lambda>cap (b, r). bs_read bo cap b),
     bs_write = (\<lambda>bs (b, r). let (ok, b') = bs_write bo bs b in (ok, (b', r \<or> \<not> ok))),
     bs_erase = (\<lambda>(b, r). let (ok, b') = bs_erase bo b in (ok, (b', r \<or> \<not> ok)))\<rparr>"

definition intact :: "('b \<times> bool) option \<Rightarrow> bool" where
  "intact q = (case q of None \<Rightarrow> True | Some (b, r) \<Rightarrow> \<not> r)"

lemma logged_blob_store: "blob_store bo \<Longrightarrow> blob_store (logged bo)"
  unfolding blob_store_def by (auto simp: logged_def Let_def split: prod.splits)

lemma intact_write:
  "pp_write (logged bo) blob q = (ok, q') \<Longrightarrow> intact q' \<Longrightarrow> intact q \<and> (ok \<or> q' = q)"
  by (auto simp: pp_write_def logged_def intact_def pp_usable_def Let_def split: if_splits option.splits prod.splits)

end
