(* ===== verification/PhyTrial.thy ===== *)
theory PhyTrial
  imports PhyBlob
begin

text \<open>
  A node's half of a fleet PHY change (\<open>lib/lran-node\<close>: \<open>phy\_trial.h\<close>, \<open>phy\_trial.cpp\<close>) and the
  radio settings a group describes (\<open>lib/lran-link\<close>: \<open>radio\_config.h\<close>).

  \<open>PhyTrial\<close> and its store hold one pointer to the same \<open>PhyPersist\<close>: the model keeps that state
  once, in the store. A group is the list of its six values. Where the source follows a pointer it
  has not checked, the model returns no value, or leaves a null store as it is: the engine reaches
  neither (\<open>pt\_set\_known\<close>, \<open>pt\_inv\<close>).
\<close>

section \<open>Radio settings (radio\_config.h)\<close>

record PhyConfig =
  pc_freq_hz :: u32
  pc_bw_khz10 :: u16
  pc_sf :: u8
  pc_cr_denom :: u8
  pc_conducted_dbm :: i8
  pc_antenna_gain_dbi10 :: u8
  pc_sync_word :: u8
  pc_preamble_symbols :: u8

definition kPhy :: PhyConfig where
  "kPhy = \<lparr>pc_freq_hz = 917400000, pc_bw_khz10 = 1250, pc_sf = 9, pc_cr_denom = 5,
     pc_conducted_dbm = - 4, pc_antenna_gain_dbi10 = 30, pc_sync_word = 0x12, pc_preamble_symbols = 8\<rparr>"

abbreviation kEirpCeilingDbm10 :: int where "kEirpCeilingDbm10 \<equiv> - 10"

definition within_eirp_ceiling :: "PhyConfig \<Rightarrow> bool" where
  "within_eirp_ceiling phy \<longleftrightarrow>
     sint (pc_conducted_dbm phy) * 10 + uint (pc_antenna_gain_dbi10 phy) \<le> kEirpCeilingDbm10"

section \<open>The group (phy\_trial.h, phy\_trial.cpp)\<close>

type_synonym PhyGroup = "Value list"

definition phy_row :: "nat \<Rightarrow> ParamDef option" where
  "phy_row i = (let rows = filter (\<lambda>d. pd_access d = Ac_Phy) kNodeCommonParams
                in if i < length rows then Some (rows ! i) else None)"

abbreviation kTrialIndex :: nat where "kTrialIndex \<equiv> 5"

definition phy_id :: "nat \<Rightarrow> u16" where
  "phy_id i = pd_id (the (phy_row i))"

definition is_phy :: "u16 \<Rightarrow> bool" where
  "is_phy i \<longleftrightarrow> list_ex (\<lambda>k. phy_id k = i) [0..<kPhyGroupSize]"

definition expired :: "u32 \<Rightarrow> u32 \<Rightarrow> u32 \<Rightarrow> bool" where
  "expired now_ms since_ms span_ms \<longleftrightarrow> now_ms - since_ms \<ge> span_ms"

definition phy_config_from :: "PhyGroup \<Rightarrow> PhyConfig \<Rightarrow> PhyConfig option" where
  "phy_config_from g base =
     (let p = base\<lparr>pc_freq_hz := word_of_int (g ! 0), pc_sf := word_of_int (g ! 1),
                   pc_bw_khz10 := word_of_int (g ! 2 * 10), pc_cr_denom := word_of_int (g ! 3),
                   pc_conducted_dbm := word_of_int (g ! 4)\<rparr>
      in if \<not> within_eirp_ceiling p then None else Some p)"

section \<open>State (phy\_trial.h)\<close>

datatype PhyState = PhS_Idle | PhS_Pending | PhS_Trial

datatype RevertCause = RC_None | RC_Window | RC_Reboot

fun RevertCause_u16 :: "RevertCause \<Rightarrow> u16" where
  "RevertCause_u16 RC_None = 0x0000"
| "RevertCause_u16 RC_Window = 0x0001"
| "RevertCause_u16 RC_Reboot = 0x0002"

record PhyTrialStats =
  ps_trials :: u32
  ps_committed :: u32
  ps_reverted :: u32
  ps_abandoned :: u32
  ps_commit_failed :: u32
  ps_refused_in_trial :: u32

record 'b PhyTrial =
  pt_store :: "('b option) Store"
  pt_state :: PhyState
  pt_retune_due :: bool
  pt_retune_to_trial :: bool
  pt_accepted :: u8
  pt_committed :: PhyGroup
  pt_pending :: PhyGroup
  pt_pending_since_ms :: u32
  pt_window_start_ms :: u32
  pt_window_ms :: u32
  pt_stats :: PhyTrialStats

definition store_group :: "'p Store \<Rightarrow> PhyGroup" where
  "store_group st = map (\<lambda>i. effective (phy_id i) st) [0..<kPhyGroupSize]"

definition pt_group :: "'b PhyTrial \<Rightarrow> PhyGroup" where
  "pt_group pt = store_group (pt_store pt)"

definition node_table :: Table where
  "node_table = snd (add_block kNodeCommonParams Table_new)"

definition PhyTrial_new :: "'b option option \<Rightarrow> 'b PhyTrial" where
  "PhyTrial_new q =
     (let st = Store_new node_table q in
      \<lparr>pt_store = st, pt_state = PhS_Idle, pt_retune_due = False, pt_retune_to_trial = False,
       pt_accepted = 0, pt_committed = store_group st, pt_pending = replicate kPhyGroupSize 0,
       pt_pending_since_ms = 0, pt_window_start_ms = 0, pt_window_ms = 0,
       pt_stats = \<lparr>ps_trials = 0, ps_committed = 0, ps_reverted = 0, ps_abandoned = 0,
                   ps_commit_failed = 0, ps_refused_in_trial = 0\<rparr>\<rparr>)"

section \<open>Operations (phy\_trial.cpp)\<close>

definition pt_writable :: "'b BlobStore \<Rightarrow> 'b PhyTrial \<Rightarrow> bool" where
  "pt_writable bo pt = persist_usable (PhyPersist bo) (pt_store pt)"

text \<open>\<open>persist\_->mark\_trial(open)\<close>, its result ignored.\<close>

definition store_mark :: "'b BlobStore \<Rightarrow> bool \<Rightarrow> ('b option) Store \<Rightarrow> ('b option) Store" where
  "store_mark bo opened st =
     st\<lparr>so_persist := map_option (\<lambda>q. snd (pp_mark_trial bo opened q)) (so_persist st)\<rparr>"

definition boot_restore :: "'b BlobStore \<Rightarrow> ('b option) Store \<Rightarrow> u16 \<times> Value \<Rightarrow> ('b option) Store" where
  "boot_restore bo st iv =
     (if is_phy (fst iv) then snd (restore (PhyPersist bo) (fst iv) (snd iv) st) else st)"

definition pt_begin :: "'b BlobStore \<Rightarrow> 'b PhyTrial \<Rightarrow> RevertCause \<times> 'b PhyTrial" where
  "pt_begin bo pt =
     (if \<not> pt_writable bo pt then (RC_None, pt)
      else let st = enable_phy_trial (pt_store pt) in
        case pp_read bo (the (so_persist st)) of
          None \<Rightarrow> (RC_None, pt\<lparr>pt_store := st\<rparr>)
        | Some b \<Rightarrow>
            let st = foldl (boot_restore bo) st (pb_rows b);
                pt = pt\<lparr>pt_store := st, pt_committed := store_group st\<rparr> in
            if \<not> pb_trial_open b then (RC_None, pt)
            else (RC_Reboot, pt\<lparr>pt_store := store_mark bo False st,
                   pt_stats := (pt_stats pt)\<lparr>ps_reverted := ps_reverted (pt_stats pt) + 1\<rparr>\<rparr>))"

definition pt_get :: "u16 \<Rightarrow> 'b PhyTrial \<Rightarrow> ConfigAckEntry" where
  "pt_get i pt =
     (case table_find (so_table (pt_store pt)) i of
        None \<Rightarrow> ConfigAckEntry_init\<lparr>cae_param_id := i, cae_status := Pa_UnknownParam, cae_len := 0\<rparr>
      | Some d \<Rightarrow> held_result i Pa_Ok (pd_type d) (pt_store pt))"

text \<open>
  \<open>set\<close>: the result, \<open>*applied\<close> and the trial after it; \<open>None\<close> where a trial is open and the table
  has no such row, whose null pointer the source would follow.
\<close>

definition pt_set :: "'b BlobStore \<Rightarrow> ConfigEntry \<Rightarrow> 'b PhyTrial \<Rightarrow> (ConfigAckEntry \<times> bool \<times> 'b PhyTrial) option" where
  "pt_set bo e pt =
     (if pt_state pt = PhS_Trial then
        (case table_find (so_table (pt_store pt)) (ce_param_id e) of
           None \<Rightarrow> None
         | Some d \<Rightarrow>
             Some (held_result (ce_param_id e) Pa_ReadOnly (pd_type d) (pt_store pt), False,
                   pt\<lparr>pt_stats := (pt_stats pt)\<lparr>ps_refused_in_trial := ps_refused_in_trial (pt_stats pt) + 1\<rparr>\<rparr>))
      else let ((r, applied, persisted), st) = store_apply (PhyPersist bo) e (pt_store pt)
           in Some (r, applied, pt\<lparr>pt_store := st\<rparr>))"

definition pt_on_set :: "nat \<Rightarrow> bool \<Rightarrow> u8 \<Rightarrow> u32 \<Rightarrow> 'b PhyTrial \<Rightarrow> 'b PhyTrial" where
  "pt_on_set sl accepted members now_ms pt =
     (if pt_state pt = PhS_Trial \<or> \<not> accepted \<or> sl \<ge> 8 then pt
      else let g = pt_group pt;
               pt = (if pt_state pt = PhS_Idle \<or> g \<noteq> pt_pending pt
                     then pt\<lparr>pt_pending := g, pt_accepted := 0, pt_pending_since_ms := now_ms,
                             pt_state := PhS_Pending\<rparr>
                     else pt);
               pt = pt\<lparr>pt_accepted := pt_accepted pt OR push_bit sl 1\<rparr>
        in if members \<noteq> 0 \<and> pt_accepted pt AND members = members
           then pt\<lparr>pt_retune_due := True, pt_retune_to_trial := True\<rparr>
           else pt)"

definition pt_trial_ms :: "'b PhyTrial \<Rightarrow> u32" where
  "pt_trial_ms pt = word_of_int (effective (phy_id kTrialIndex) (pt_store pt)) * 1000"

definition pt_on_retuned :: "'b BlobStore \<Rightarrow> u32 \<Rightarrow> 'b PhyTrial \<Rightarrow> 'b PhyTrial" where
  "pt_on_retuned bo now_ms pt =
     (if \<not> pt_retune_to_trial pt then pt\<lparr>pt_retune_due := False\<rparr>
      else pt\<lparr>pt_retune_due := False, pt_retune_to_trial := False, pt_state := PhS_Trial,
              pt_window_start_ms := now_ms, pt_window_ms := pt_trial_ms pt,
              pt_stats := (pt_stats pt)\<lparr>ps_trials := ps_trials (pt_stats pt) + 1\<rparr>,
              pt_store := store_mark bo True (pt_store pt)\<rparr>)"

definition pt_on_authenticated :: "'b BlobStore \<Rightarrow> 'b PhyTrial \<Rightarrow> 'b PhyTrial" where
  "pt_on_authenticated bo pt =
     (if pt_state pt \<noteq> PhS_Trial then pt
      else let (ok, st) = commit_phy_trial (PhyPersist bo) (pt_store pt) in
        if \<not> ok then
          pt\<lparr>pt_store := st,
             pt_stats := (pt_stats pt)\<lparr>ps_commit_failed := ps_commit_failed (pt_stats pt) + 1\<rparr>\<rparr>
        else
          pt\<lparr>pt_store := st, pt_committed := store_group st, pt_state := PhS_Idle, pt_accepted := 0,
             pt_stats := (pt_stats pt)\<lparr>ps_committed := ps_committed (pt_stats pt) + 1\<rparr>\<rparr>)"

definition pt_tick :: "'b BlobStore \<Rightarrow> u32 \<Rightarrow> 'b PhyTrial \<Rightarrow> RevertCause \<times> 'b PhyTrial" where
  "pt_tick bo now_ms pt =
     (if pt_state pt = PhS_Pending \<and> \<not> pt_retune_due pt \<and>
         expired now_ms (pt_pending_since_ms pt) (pt_trial_ms pt) then
        (RC_None, pt\<lparr>pt_store := revert_phy_trial (pt_store pt), pt_state := PhS_Idle, pt_accepted := 0,
           pt_stats := (pt_stats pt)\<lparr>ps_abandoned := ps_abandoned (pt_stats pt) + 1\<rparr>\<rparr>)
      else if pt_state pt \<noteq> PhS_Trial \<or> \<not> expired now_ms (pt_window_start_ms pt) (pt_window_ms pt) then
        (RC_None, pt)
      else
        (RC_Window, pt\<lparr>pt_store := store_mark bo False (revert_phy_trial (pt_store pt)),
           pt_state := PhS_Idle, pt_accepted := 0, pt_retune_due := True, pt_retune_to_trial := False,
           pt_stats := (pt_stats pt)\<lparr>ps_reverted := ps_reverted (pt_stats pt) + 1\<rparr>\<rparr>))"

definition pt_reset_to_defaults :: "'b BlobStore \<Rightarrow> 'b PhyTrial \<Rightarrow> bool \<times> 'b PhyTrial" where
  "pt_reset_to_defaults bo pt =
     (if \<not> pt_writable bo pt then (False, pt)
      else let st = forget_phy_group (pt_store pt);
               (ok, q) = pp_erase bo (the (so_persist st))
        in (ok, pt\<lparr>pt_store := st\<lparr>so_persist := Some q\<rparr>, pt_committed := store_group st,
                   pt_state := PhS_Idle, pt_accepted := 0, pt_retune_due := True,
                   pt_retune_to_trial := False\<rparr>))"

definition pt_window_left_ms :: "u32 \<Rightarrow> 'b PhyTrial \<Rightarrow> u32" where
  "pt_window_left_ms now_ms pt =
     (if pt_state pt \<noteq> PhS_Trial then 0
      else let used = now_ms - pt_window_start_ms pt
           in if used \<ge> pt_window_ms pt then 0 else pt_window_ms pt - used)"

definition pt_read_persist_status :: "'b BlobStore \<Rightarrow> 'b PhyTrial \<Rightarrow> PersistStatus" where
  "pt_read_persist_status bo pt = read_persist_status (PhyPersist bo) (pt_store pt)"

section \<open>The six rows\<close>

lemma phy_rows_of_node:
  "filter (\<lambda>d. pd_access d = Ac_Phy) kNodeCommonParams =
    [row 0x0110 ''freq_hz'' Ow_Node Ac_Phy PT_U32 902000000 928000000 917400000 (Some ''Hz'')
       ''Channel, spec 12.1 - fleet-wide'',
     row 0x0111 ''spreading_factor'' Ow_Node Ac_Phy PT_U8 7 12 9 None ''SF, spec 12.1 - fleet-wide'',
     row 0x0112 ''bandwidth_khz'' Ow_Node Ac_Phy PT_U16 125 500 125 (Some ''kHz'')
       ''BW - 125 until an envelope decision, spec 18.2'',
     row 0x0113 ''coding_rate_denominator'' Ow_Node Ac_Phy PT_U8 5 8 5 None ''CR 4/N, spec 12.1'',
     row 0x0114 ''tx_power_dbm'' Ow_Node Ac_Phy PT_I16 (- 9) (- 4) (- 4) (Some ''dBm'')
       ''Conducted; the maximum IS D33's ceiling, spec 18.2'',
     row 0x0115 ''phy_trial_s'' Ow_Node Ac_Phy PT_U16 30 900 120 (Some ''s'')
       ''Revert window after a PHY change, spec 12.4'']"
  by (simp add: kNodeCommonParams_def row_def)

lemma six: "[0..<6] = [0, 1, 2, 3, 4, 5 :: nat]"
  by (simp add: upt_rec)

lemma phy_ids: "map phy_id [0..<kPhyGroupSize] = [0x0110, 0x0111, 0x0112, 0x0113, 0x0114, 0x0115]"
  unfolding six by (simp add: phy_id_def phy_row_def phy_rows_of_node row_def)

lemma phy_ids_rows: "map phy_id [0..<kPhyGroupSize] = map pd_id (filter (\<lambda>d. pd_access d = Ac_Phy) kNodeCommonParams)"
  unfolding phy_ids phy_rows_of_node by (simp add: row_def)

lemma is_phy_iff: "is_phy i \<longleftrightarrow> i \<in> set (map phy_id [0..<kPhyGroupSize])"
  by (auto simp: is_phy_def list_ex_iff)

lemma store_group_ids: "store_group st = map (\<lambda>i. effective i st) (map phy_id [0..<kPhyGroupSize])"
  by (simp add: store_group_def)

lemma node_table_rows: "tb_rows node_table = kNodeCommonParams" "tb_wf node_table"
proof -
  have "fst (add_block kNodeCommonParams Table_new)"
    by (simp add: add_block_def Table_new_def kNodeCommonParams_def)
  from add_block_rows [OF this] show "tb_rows node_table = kNodeCommonParams"
    by (simp add: node_table_def tb_rows_def Table_new_def)
  show "tb_wf node_table" unfolding node_table_def by (intro add_block_wf tb_wf_new)
qed

text \<open>Under the node's table, a PHY id is exactly a row of the group.\<close>

lemma node_find_phy:
  "is_phy i \<longleftrightarrow> (\<exists>d. table_find node_table i = Some d \<and> pd_access d = Ac_Phy)"
proof
  assume "is_phy i"
  then obtain d where "d \<in> set kNodeCommonParams" "pd_access d = Ac_Phy" "pd_id d = i"
    by (auto simp: is_phy_iff phy_ids_rows)
  with node_rows.find_row [of d] show "\<exists>d. table_find node_table i = Some d \<and> pd_access d = Ac_Phy"
    by (auto simp: table_find_rows node_table_rows)
next
  assume "\<exists>d. table_find node_table i = Some d \<and> pd_access d = Ac_Phy"
  with table_find_SomeD [of node_table i] show "is_phy i"
    by (auto simp: is_phy_iff phy_ids_rows node_table_rows)
qed

lemma pt_set_known: "so_table (pt_store pt) = node_table \<Longrightarrow> is_phy (ce_param_id e) \<Longrightarrow> pt_set bo e pt \<noteq> None"
  by (auto simp: pt_set_def node_find_phy split: option.splits prod.splits)

section \<open>What a boot comes back to\<close>

text \<open>The value a parameter has after the stored rows are restored in order over the defaults.\<close>

definition boot_step :: "(u16 \<Rightarrow> Value) \<Rightarrow> u16 \<times> Value \<Rightarrow> u16 \<Rightarrow> Value" where
  "boot_step f iv =
     (case table_find node_table (fst iv) of
        None \<Rightarrow> f
      | Some d \<Rightarrow> if pd_access d = Ac_Phy \<and> value_allowed d (clamp (snd iv) d)
                   then f(fst iv := clamp (snd iv) d) else f)"

definition boot_values :: "(u16 \<times> Value) list \<Rightarrow> u16 \<Rightarrow> Value" where
  "boot_values rows = foldl boot_step (\<lambda>i. effective i (Store_new node_table (None :: unit option))) rows"

definition boot_group :: "(u16 \<times> Value) list \<Rightarrow> PhyGroup" where
  "boot_group rows = map (boot_values rows) (map phy_id [0..<kPhyGroupSize])"

lemma effective_enable [simp]: "effective i (enable_phy_trial st) = effective i st"
  by (auto simp: effective_def enable_phy_trial_def store_slot_defs split: option.split)

lemma effective_new: "effective i (Store_new t p) = (case table_find t i of None \<Rightarrow> 0 | Some d \<Rightarrow> pd_def d)"
  by (auto simp: effective_def store_slot_defs Store_new_def split: option.split)

lemma boot_restore_step:
  assumes "store_inv st" "so_table st = node_table" "so_trial st = []" "phy_writable (PhyPersist bo) st"
  shows "store_inv (boot_restore bo st iv)" "so_table (boot_restore bo st iv) = node_table"
    "so_trial (boot_restore bo st iv) = []" "so_persist (boot_restore bo st iv) = so_persist st"
    "phy_writable (PhyPersist bo) (boot_restore bo st iv)"
    "(\<lambda>i. effective i (boot_restore bo st iv)) = boot_step (\<lambda>i. effective i st) iv"
proof -
  have keep: "so_table (snd (restore ops i v s)) = so_table s" "so_trial (snd (restore ops i v s)) = so_trial s"
    "so_persist (snd (restore ops i v s)) = so_persist s"
    "so_phy_trial_enabled (snd (restore ops i v s)) = so_phy_trial_enabled s"
    for ops i v and s :: "'a option Store"
    by (auto simp: restore_def Let_def split: option.splits)
  show "store_inv (boot_restore bo st iv)" using assms(1) by (simp add: boot_restore_def restore_inv)
  show "so_table (boot_restore bo st iv) = node_table" "so_trial (boot_restore bo st iv) = []"
    "so_persist (boot_restore bo st iv) = so_persist st" "phy_writable (PhyPersist bo) (boot_restore bo st iv)"
    using assms by (simp_all add: boot_restore_def keep phy_writable_def persist_usable_def)
  show "(\<lambda>i. effective i (boot_restore bo st iv)) = boot_step (\<lambda>i. effective i st) iv"
  proof (cases "is_phy (fst iv)")
    case True
    then obtain d where d: "table_find node_table (fst iv) = Some d" "pd_access d = Ac_Phy"
      by (auto simp: node_find_phy)
    then have f: "st_find (fst iv) st = Some d" using assms(2) by (simp add: st_find_def)
    have "trial_slot (fst iv) st = None" using assms(3) by (simp add: trial_slot_def)
    with True d f assms show ?thesis
      using effective_set_override [OF assms(1) f]
      by (auto simp: boot_restore_def boot_step_def restore_def Let_def fun_eq_iff)
  qed (auto simp: boot_restore_def boot_step_def node_find_phy split: option.splits)
qed

lemma boot_restore_all:
  assumes "store_inv st" "so_table st = node_table" "so_trial st = []" "phy_writable (PhyPersist bo) st"
  shows "let st' = foldl (boot_restore bo) st rows in
    store_inv st' \<and> so_table st' = node_table \<and> so_trial st' = [] \<and> so_persist st' = so_persist st \<and>
    so_phy_trial_enabled st' \<and> (\<lambda>i. effective i st') = foldl boot_step (\<lambda>i. effective i st) rows"
  using assms
proof (induction rows arbitrary: st)
  case Nil
  then show ?case by (simp add: phy_writable_def)
next
  case (Cons iv rows)
  note b = boot_restore_step [OF Cons.prems, of iv]
  from Cons.IH [OF b(1,2,3,5)] show ?case by (simp add: b(4,6) Let_def)
qed

lemma boot_values_valid:
  assumes "distinct (map fst rows)" "\<forall>iv\<in>set rows. good_pair node_table iv"
  shows "boot_values rows i = (case map_of rows i of Some v \<Rightarrow> v | None \<Rightarrow> boot_values [] i)"
proof -
  have step: "boot_step f iv = f(fst iv := snd iv)" if "good_pair node_table iv" for f iv
    using that by (auto simp: boot_step_def good_pair_def valid_value_def clamp_def)
  have "foldl boot_step f rows i = (case map_of rows i of Some v \<Rightarrow> v | None \<Rightarrow> f i)" for f
    using assms
  proof (induction rows arbitrary: f)
    case (Cons iv rows)
    then have "map_of rows (fst iv) = None" by (simp add: map_of_eq_None_iff)
    with Cons show ?case by (auto simp: step split: option.splits)
  qed simp
  then show ?thesis by (simp add: boot_values_def split: option.split)
qed

lemma boot_group_committed:
  assumes "store_inv st" "so_table st = node_table"
  shows "boot_group (phy_rows st) = store_group st"
proof -
  have "boot_values (phy_rows st) i = effective i st" if i: "i \<in> set (map phy_id [0..<kPhyGroupSize])" for i
  proof -
    have "is_phy i" using i by (simp only: is_phy_iff)
    then have "map_of (phy_rows st) i = Some (effective i st)"
      using phy_rows_distinct(2) [OF assms(1), of i] by (auto simp: node_find_phy st_find_def assms(2))
    then show ?thesis
      using boot_values_valid [OF phy_rows_distinct(1) [OF assms(1)]] phy_rows_good [OF assms(1)] assms(2) by simp
  qed
  then show ?thesis unfolding boot_group_def store_group_ids by simp
qed

section \<open>The invariant of a booted trial\<close>

definition committed_group :: "'p Store \<Rightarrow> PhyGroup" where
  "committed_group st = map (\<lambda>i. committed i st) (map phy_id [0..<kPhyGroupSize])"

lemma committed_no_trial: "so_trial st = [] \<Longrightarrow> committed i st = effective i st"
  by (cases st) (simp add: committed_def)

lemma committed_group_idle: "so_trial st = [] \<Longrightarrow> committed_group st = store_group st"
  by (simp add: committed_group_def store_group_ids committed_no_trial)

text \<open>
  The invariant of the trial in RAM: the committed group is what the store falls back to, and a
  board without a usable flash never holds a trial copy. It does not depend on what the flash does.
\<close>

definition pt_inv :: "'b PhyTrial \<Rightarrow> bool" where
  "pt_inv pt \<longleftrightarrow> store_inv (pt_store pt) \<and> so_table (pt_store pt) = node_table \<and>
     pt_committed pt = committed_group (pt_store pt) \<and>
     (so_phy_trial_enabled (pt_store pt) \<longrightarrow> so_persist (pt_store pt) \<noteq> None) \<and>
     (\<not> so_phy_trial_enabled (pt_store pt) \<longrightarrow> so_trial (pt_store pt) = [])"

lemma pt_invD:
  assumes "pt_inv pt"
  shows pt_inv_store: "store_inv (pt_store pt)" and pt_inv_table: "so_table (pt_store pt) = node_table"
    and pt_inv_committed: "pt_committed pt = committed_group (pt_store pt)"
    and pt_inv_persist: "so_phy_trial_enabled (pt_store pt) \<Longrightarrow> so_persist (pt_store pt) \<noteq> None"
    and pt_inv_off: "\<not> so_phy_trial_enabled (pt_store pt) \<Longrightarrow> so_trial (pt_store pt) = []"
  using assms by (simp_all add: pt_inv_def)

text \<open>What matters of a step that leaves the committed values alone.\<close>

lemma pt_inv_step:
  assumes "pt_inv pt" "store_inv (pt_store pt')" "so_table (pt_store pt') = node_table"
    "pt_committed pt' = pt_committed pt" "committed_group (pt_store pt') = committed_group (pt_store pt)"
    "so_phy_trial_enabled (pt_store pt') = so_phy_trial_enabled (pt_store pt)"
    "so_persist (pt_store pt') = None \<longrightarrow> so_persist (pt_store pt) = None"
    "\<not> so_phy_trial_enabled (pt_store pt) \<Longrightarrow> so_trial (pt_store pt') = []"
  shows "pt_inv pt'"
  using assms unfolding pt_inv_def by metis

lemma effective_cong:
  "so_table a = so_table b \<Longrightarrow> so_trial a = so_trial b \<Longrightarrow> so_overrides a = so_overrides b \<Longrightarrow>
   effective i a = effective i b"
  by (auto simp: effective_def store_slot_defs split: option.split)

lemma store_mark_keeps [simp]:
  "store_inv (store_mark bo opened st) = store_inv st" "so_table (store_mark bo opened st) = so_table st"
  "so_trial (store_mark bo opened st) = so_trial st" "effective i (store_mark bo opened st) = effective i st"
  "committed i (store_mark bo opened st) = committed i st"
  "so_phy_trial_enabled (store_mark bo opened st) = so_phy_trial_enabled st"
  "so_persist (store_mark bo opened st) = None \<longleftrightarrow> so_persist st = None"
  by (simp_all add: store_mark_def committed_def effective_cong [of "st\<lparr>so_persist := _, so_trial := []\<rparr>" "st\<lparr>so_trial := []\<rparr>"])

lemma store_mark_held [simp]:
  "(\<exists>y. so_persist (store_mark bo opened st) = Some y) \<longleftrightarrow> (\<exists>y. so_persist st = Some y)"
  by (simp add: store_mark_def)

lemma committed_group_mark [simp]: "committed_group (store_mark bo opened st) = committed_group st"
  "store_group (store_mark bo opened st) = store_group st"
  by (simp_all add: committed_group_def store_group_def)

lemma store_apply_keeps [simp]:
  "so_table (snd (store_apply ops e st)) = so_table st"
  "so_phy_trial_enabled (snd (store_apply ops e st)) = so_phy_trial_enabled st"
proof -
  have "so_table (snd (store_apply ops e st)) = so_table st \<and>
      so_phy_trial_enabled (snd (store_apply ops e st)) = so_phy_trial_enabled st"
    by (auto simp: store_apply_def Let_def split_beta set_override_def split: option.split)
  then show "so_table (snd (store_apply ops e st)) = so_table st"
    "so_phy_trial_enabled (snd (store_apply ops e st)) = so_phy_trial_enabled st" by simp_all
qed

lemma commit_keeps:
  assumes "store_inv st"
  shows "so_table (snd (commit_phy_trial ops st)) = so_table st"
    "so_phy_trial_enabled (snd (commit_phy_trial ops st)) = so_phy_trial_enabled st"
    "so_persist (snd (commit_phy_trial ops st)) = None \<longleftrightarrow> so_persist st = None"
  by (rule commit_cases [OF assms, of ops]; simp)+

lemma commit_outcome:
  assumes "store_inv st" "commit_phy_trial ops st = (ok, st')"
  shows "effective i st' = effective i st" "ok \<Longrightarrow> so_trial st' = []"
    "\<not> ok \<Longrightarrow> so_trial st' = so_trial st" "\<not> ok \<Longrightarrow> so_overrides st' = so_overrides st"
proof -
  show "effective i st' = effective i st" using commit_effective [OF assms(1), of i ops] assms(2) by simp
qed (rule commit_cases [OF assms(1), of ops]; use assms(2) in auto)+

lemma committed_apply_phy:
  assumes "store_inv st" "st_find (ce_param_id e) st = Some d" "pd_access d = Ac_Phy"
  shows "committed i (snd (store_apply ops e st)) = committed i st"
    "so_persist (snd (store_apply ops e st)) = so_persist st"
    "\<not> so_phy_trial_enabled st \<Longrightarrow> so_trial (snd (store_apply ops e st)) = so_trial st"
  by (rule store_apply_cases [OF assms(1,2), of ops];
      use assms(3) in \<open>simp add: committed_def refusal_def phy_writable_def split: if_splits\<close>)+

lemma pt_set_eq:
  "pt_set bo e pt = Some (r, applied, pt') \<Longrightarrow> pt_state pt \<noteq> PhS_Trial \<Longrightarrow>
   pt' = pt\<lparr>pt_store := snd (store_apply (PhyPersist bo) e (pt_store pt))\<rparr>"
  by (auto simp: pt_set_def Let_def split: prod.splits)

lemma pt_set_trial:
  "pt_set bo e pt = Some (r, applied, pt') \<Longrightarrow> pt_state pt = PhS_Trial \<Longrightarrow>
   \<exists>x. pt' = pt\<lparr>pt_stats := x\<rparr> \<and> \<not> applied"
  by (auto simp: pt_set_def split: option.splits)

lemma pt_on_set_keeps [simp]:
  "pt_store (pt_on_set sl accepted members now_ms pt) = pt_store pt"
  "pt_committed (pt_on_set sl accepted members now_ms pt) = pt_committed pt"
  by (simp_all add: pt_on_set_def Let_def)

lemma pt_inv_cong: "pt_store pt' = pt_store pt \<Longrightarrow> pt_committed pt' = pt_committed pt \<Longrightarrow> pt_inv pt' = pt_inv pt"
  by (simp add: pt_inv_def)

lemma pt_set_parts:
  assumes "pt_inv pt" "is_phy (ce_param_id e)" "pt_set bo e pt = Some (r, applied, pt')"
  shows "pt_committed pt' = pt_committed pt" "so_persist (pt_store pt') = so_persist (pt_store pt)"
    "so_phy_trial_enabled (pt_store pt') = so_phy_trial_enabled (pt_store pt)" "pt_inv pt'"
proof -
  have "pt_committed pt' = pt_committed pt \<and> so_persist (pt_store pt') = so_persist (pt_store pt) \<and>
    so_phy_trial_enabled (pt_store pt') = so_phy_trial_enabled (pt_store pt) \<and> pt_inv pt'"
  proof (cases "pt_state pt = PhS_Trial")
    case True
    with pt_set_trial [OF assms(3)] assms(1) pt_inv_cong [of pt' pt] show ?thesis by auto
  next
    case False
    let ?st = "pt_store pt" let ?st' = "snd (store_apply (PhyPersist bo) e ?st)"
    obtain d where d: "st_find (ce_param_id e) ?st = Some d" "pd_access d = Ac_Phy"
      using assms(2) pt_inv_table [OF assms(1)] by (auto simp: node_find_phy st_find_def)
    note inv = pt_inv_store [OF assms(1)]
    have pt': "pt_store pt' = ?st'" "pt_committed pt' = pt_committed pt"
      using pt_set_eq [OF assms(3) False] by simp_all
    note c = committed_apply_phy [OF inv d, where ops = "PhyPersist bo"]
    have "pt_inv pt'"
      by (rule pt_inv_step [OF assms(1)])
        (use pt' c inv assms(1) in \<open>auto simp: store_apply_inv pt_invD committed_group_def\<close>)
    with pt' c show ?thesis by simp
  qed
  then show "pt_committed pt' = pt_committed pt" "so_persist (pt_store pt') = so_persist (pt_store pt)"
    "so_phy_trial_enabled (pt_store pt') = so_phy_trial_enabled (pt_store pt)" "pt_inv pt'" by simp_all
qed

lemma revert_keeps [simp]:
  "so_table (revert_phy_trial st) = so_table st" "so_trial (revert_phy_trial st) = []"
  "so_persist (revert_phy_trial st) = so_persist st" "committed i (revert_phy_trial st) = committed i st"
  "so_phy_trial_enabled (revert_phy_trial st) = so_phy_trial_enabled st"
  by (simp_all add: revert_phy_trial_def committed_def)

lemma mark_inv: "pt_inv pt \<Longrightarrow> pt_inv (pt\<lparr>pt_store := store_mark bo opened (pt_store pt)\<rparr>)"
  by (rule pt_inv_step, assumption) (simp_all add: pt_invD)

lemma revert_pt_inv: "pt_inv pt \<Longrightarrow> pt_inv (pt\<lparr>pt_store := revert_phy_trial (pt_store pt)\<rparr>)"
  by (rule pt_inv_step, assumption) (simp_all add: pt_invD revert_inv committed_group_def)

lemma on_retuned_inv: "pt_inv pt \<Longrightarrow> pt_inv (pt_on_retuned bo now_ms pt)"
  using mark_inv [of pt bo True] by (simp add: pt_on_retuned_def pt_inv_def)

lemma tick_inv: "pt_inv pt \<Longrightarrow> pt_inv (snd (pt_tick bo now_ms pt))"
  using revert_pt_inv [of pt] mark_inv [OF revert_pt_inv, of pt bo False]
  by (simp add: pt_tick_def pt_inv_def)

lemma commit_parts:
  assumes "pt_inv pt" "commit_phy_trial (PhyPersist bo) (pt_store pt) = (ok, st')"
  shows "so_table st' = node_table" "so_phy_trial_enabled st' = so_phy_trial_enabled (pt_store pt)"
    "so_persist st' = None \<longleftrightarrow> so_persist (pt_store pt) = None" "store_inv st'"
    "store_group st' = store_group (pt_store pt)" "\<not> ok \<Longrightarrow> committed_group st' = committed_group (pt_store pt)"
proof -
  note inv = pt_inv_store [OF assms(1)]
  show t: "so_table st' = node_table" and "so_phy_trial_enabled st' = so_phy_trial_enabled (pt_store pt)"
    "so_persist st' = None \<longleftrightarrow> so_persist (pt_store pt) = None" "store_inv st'"
    using commit_keeps [OF inv, of "PhyPersist bo"] commit_inv [OF inv, of "PhyPersist bo"] assms pt_inv_table [OF assms(1)]
    by simp_all
  show "store_group st' = store_group (pt_store pt)" by (simp add: store_group_def commit_outcome(1) [OF inv assms(2)])
  assume "\<not> ok"
  note same = commit_outcome(3,4) [OF inv assms(2) this]
  then have "committed i st' = committed i (pt_store pt)" for i
    using t pt_inv_table [OF assms(1)] by (simp add: committed_def effective_cong)
  then show "committed_group st' = committed_group (pt_store pt)" by (simp add: committed_group_def)
qed

lemma on_authenticated_inv:
  assumes "pt_inv pt"
  shows "pt_inv (pt_on_authenticated bo pt)"
proof (cases "pt_state pt = PhS_Trial")
  case True
  obtain ok st' where c: "commit_phy_trial (PhyPersist bo) (pt_store pt) = (ok, st')" by fastforce
  note p = commit_parts [OF assms c] and out = commit_outcome [OF pt_inv_store [OF assms] c]
  show ?thesis
  proof (cases ok)
    case True
    with p out(2) assms \<open>pt_state pt = PhS_Trial\<close> c show ?thesis
      by (auto simp: pt_inv_def pt_on_authenticated_def committed_group_idle)
  next
    case False
    with p out(3) assms \<open>pt_state pt = PhS_Trial\<close> c show ?thesis
      by (intro pt_inv_step [OF assms]) (auto simp: pt_on_authenticated_def pt_inv_off)
  qed
qed (use assms in \<open>simp add: pt_on_authenticated_def\<close>)

lemma forget_group:
  assumes "pt_inv pt"
  shows "store_group (forget_phy_group (pt_store pt)) = boot_group []"
proof -
  have "effective i (forget_phy_group (pt_store pt)) = boot_values [] i" if "i \<in> set (map phy_id [0..<kPhyGroupSize])" for i
  proof -
    have "is_phy i" using that by (simp only: is_phy_iff)
    then obtain d where "table_find node_table i = Some d" "pd_access d = Ac_Phy" by (auto simp: node_find_phy)
    then show ?thesis
      using forget_effective [OF pt_inv_store [OF assms], of i d] pt_inv_table [OF assms]
      by (simp add: st_find_def boot_values_def effective_new)
  qed
  then show ?thesis unfolding boot_group_def store_group_ids by simp
qed

lemma pt_reset_parts:
  assumes "pt_inv pt" "pt_reset_to_defaults bo pt = (ok, pt')" "pt_writable bo pt"
  shows "pt_committed pt' = boot_group []" "pt_group pt' = boot_group []" "pt_inv pt'"
    "so_persist (pt_store pt') = Some (snd (pp_erase bo (the (so_persist (pt_store pt)))))"
    "ok = fst (pp_erase bo (the (so_persist (pt_store pt))))"
    "pt_state pt' = PhS_Idle" "pt_retune_due pt'" "\<not> pt_retune_to_trial pt'"
proof -
  let ?st = "forget_phy_group (pt_store pt)"
  have p: "so_persist ?st = so_persist (pt_store pt)" by (simp add: forget_phy_group_def)
  obtain q where e: "pp_erase bo (the (so_persist (pt_store pt))) = (ok, q)"
    and pt': "pt_store pt' = ?st\<lparr>so_persist := Some q\<rparr>" "pt_committed pt' = store_group ?st" "pt_state pt' = PhS_Idle"
      "pt_retune_due pt'" "\<not> pt_retune_to_trial pt'"
    using assms(2,3) p by (auto simp: pt_reset_to_defaults_def Let_def split: if_splits prod.splits)
  have inv: "store_inv ?st" by (rule forget_inv [OF pt_inv_store [OF assms(1)]])
  have t: "so_trial ?st = []" "so_table ?st = node_table"
    using pt_inv_table [OF assms(1)] by (simp_all add: forget_phy_group_def)
  have g: "store_group (?st\<lparr>so_persist := Some q\<rparr>) = store_group ?st" by (simp add: store_group_def)
  note f = forget_group [OF assms(1)]
  show "pt_committed pt' = boot_group []" "pt_group pt' = boot_group []" using f g by (simp_all add: pt' pt_group_def)
  show "pt_inv pt'" unfolding pt_inv_def using inv t g by (simp add: pt' committed_group_idle)
  show "so_persist (pt_store pt') = Some (snd (pp_erase bo (the (so_persist (pt_store pt)))))"
    "ok = fst (pp_erase bo (the (so_persist (pt_store pt))))" using e by (simp_all add: pt')
  show "pt_state pt' = PhS_Idle" "pt_retune_due pt'" "\<not> pt_retune_to_trial pt'" using pt' by simp_all
qed

lemma pt_reset_inv: "pt_inv pt \<Longrightarrow> pt_inv (snd (pt_reset_to_defaults bo pt))"
  using pt_reset_parts(3) [of pt bo] by (cases "pt_writable bo pt") (auto simp: pt_reset_to_defaults_def prod_eq_iff)

section \<open>The flash\<close>

text \<open>
  As long as the flash has taken every write and erase, what it holds is the committed group: a
  boot from it comes up there.
\<close>

definition flash_holds :: "'b BlobStore \<Rightarrow> ('b \<times> bool) PhyTrial \<Rightarrow> bool" where
  "flash_holds bo pt \<longleftrightarrow> (\<forall>q. so_phy_trial_enabled (pt_store pt) \<and> so_persist (pt_store pt) = Some q \<and> intact q \<longrightarrow>
     boot_group (blob_rows (logged bo) q) = pt_committed pt)"

lemma flash_holds_same:
  "flash_holds bo pt \<Longrightarrow> pt_committed pt' = pt_committed pt \<Longrightarrow> so_persist (pt_store pt') = so_persist (pt_store pt) \<Longrightarrow>
   so_phy_trial_enabled (pt_store pt') = so_phy_trial_enabled (pt_store pt) \<Longrightarrow> flash_holds bo pt'"
  by (simp add: flash_holds_def)

lemma phy_blob_decode_ok: "phy_blob_decode bs = Some b \<Longrightarrow> blob_ok b"
proof -
  have "i32_range (get_i32 p)" for p
    using sint_range_size [of "foldl (\<lambda>u i. u OR push_bit (8 * i) (ucast (p ! i))) (0 :: u32) [0, 1, 2, 3]"]
    by (auto simp: i32_range_def get_i32_def word_size)
  then show "phy_blob_decode bs = Some b \<Longrightarrow> blob_ok b"
    by (auto simp: phy_blob_decode_def blob_ok_def list_all_iff Let_def split: if_splits)
qed

lemma read_rows: "pp_usable bo q \<Longrightarrow> blob_rows bo q = (case pp_read bo q of None \<Rightarrow> [] | Some b \<Rightarrow> pb_rows b)"
  by (auto simp: pp_read_def blob_rows_def pp_usable_def Let_def phy_blob_decode_def split: option.splits)

lemma intact_save: "pp_save_group (logged bo) g q = (ok, q') \<Longrightarrow> intact q' \<Longrightarrow> intact q \<and> (ok \<or> q' = q)"
  by (auto simp: pp_save_group_def split: if_splits dest: intact_write)

lemma intact_erased: "pp_erase (logged bo) q = (ok, q') \<Longrightarrow> pp_usable (logged bo) q \<Longrightarrow> intact q' \<Longrightarrow> ok"
  by (auto simp: pp_erase_def logged_def intact_def pp_usable_def Let_def split: if_splits option.splits prod.splits)

context blob_store
begin

lemma erase_rows: "pp_erase bo q = (True, q') \<Longrightarrow> blob_rows bo q' = []"
  using read_erased
  by (auto simp: pp_erase_def blob_rows_def phy_blob_decode_def split: if_splits prod.splits option.splits)

lemma commit_rows:
  assumes "store_inv st" "commit_phy_trial (PhyPersist bo) st = (True, st')" "so_trial st \<noteq> []" "so_persist st' = Some q"
  shows "blob_rows bo q = phy_rows st"
  using pp.commit_grp [OF assms(1,2)] assms(3,4) by (simp add: pp.st_grp_def)

end

lemma mark_rows:
  assumes "blob_store bo" "intact (snd (pp_mark_trial (logged bo) opened q))"
  shows "intact q \<and> blob_rows (logged bo) (snd (pp_mark_trial (logged bo) opened q)) = blob_rows (logged bo) q"
proof (cases "pp_usable (logged bo) q")
  case True
  let ?b = "(case pp_read (logged bo) q of None \<Rightarrow> PhyBlob_init | Some b \<Rightarrow> b)\<lparr>pb_trial_open := opened\<rparr>"
  have ok: "blob_ok ?b"
    using phy_blob_decode_ok
    by (auto simp: pp_read_def blob_ok_def PhyBlob_init_def Let_def split: option.splits if_splits)
  obtain r q' where w: "pp_write (logged bo) ?b q = (r, q')" by fastforce
  have e: "snd (pp_mark_trial (logged bo) opened q) = q'" using w by (simp add: pp_mark_trial_def)
  have "pb_rows ?b = blob_rows (logged bo) q"
    using read_rows [OF True] by (auto simp: PhyBlob_init_def split: option.split)
  with intact_write [OF w] blob_store.write_rows [OF logged_blob_store [OF assms(1)], of ?b q q'] w ok assms(2)
  show ?thesis unfolding e by (cases r) auto
qed (use assms(2) in \<open>simp add: pp_mark_trial_def pp_write_def\<close>)

lemma mark_flash:
  assumes "blob_store bo" "flash_holds bo pt" "pt_committed pt' = pt_committed pt"
    "pt_store pt' = store_mark (logged bo) opened st" "so_persist st = so_persist (pt_store pt)"
    "so_phy_trial_enabled st = so_phy_trial_enabled (pt_store pt)"
  shows "flash_holds bo pt'"
  using assms(2-) mark_rows [OF assms(1)] by (auto simp: flash_holds_def store_mark_def)

lemma retuned_flash:
  assumes "blob_store bo" "flash_holds bo pt"
  shows "flash_holds bo (pt_on_retuned (logged bo) now_ms pt)"
proof (cases "pt_retune_to_trial pt")
  case True
  then show ?thesis by (intro mark_flash [OF assms, of _ True "pt_store pt"]) (simp_all add: pt_on_retuned_def)
next
  case False
  then show ?thesis by (intro flash_holds_same [OF assms(2)]) (simp_all add: pt_on_retuned_def)
qed

lemma tick_flash:
  assumes "blob_store bo" "flash_holds bo pt"
  shows "flash_holds bo (snd (pt_tick (logged bo) now_ms pt))"
proof (cases "fst (pt_tick (logged bo) now_ms pt) = RC_Window")
  case True
  then show ?thesis
    by (intro mark_flash [OF assms, of _ False "revert_phy_trial (pt_store pt)"]) (auto simp: pt_tick_def split: if_splits)
next
  case False
  then show ?thesis by (intro flash_holds_same [OF assms(2)]) (auto simp: pt_tick_def split: if_splits)
qed

lemma commit_flash_kept:
  assumes "store_inv st" "commit_phy_trial (PhyPersist (logged bo)) st = (ok, st')" "so_persist st = Some q"
    "so_persist st' = Some q'" "intact q'" "ok \<Longrightarrow> so_trial st = []"
  shows "q' = q"
  by (rule commit_cases [OF assms(1), of "PhyPersist (logged bo)"])
    (use assms in \<open>auto simp: PhyPersist_def dest: intact_save\<close>)

lemma authenticated_flash:
  assumes "blob_store bo" "pt_inv pt" "flash_holds bo pt"
  shows "flash_holds bo (pt_on_authenticated (logged bo) pt)"
proof (cases "pt_state pt = PhS_Trial")
  case True
  let ?st = "pt_store pt"
  obtain ok st' where c: "commit_phy_trial (PhyPersist (logged bo)) ?st = (ok, st')" by fastforce
  note p = commit_parts [OF assms(2) c] and inv = pt_inv_store [OF assms(2)]
  have "boot_group (blob_rows (logged bo) q') = (if ok then store_group st' else pt_committed pt)"
    if en: "so_phy_trial_enabled st'" and q': "so_persist st' = Some q'" "intact q'" for q'
  proof (cases "ok \<and> so_trial ?st \<noteq> []")
    case True
    with blob_store.commit_rows [OF logged_blob_store [OF assms(1)] inv _ _ q'(1)] c
      boot_group_committed [OF inv pt_inv_table [OF assms(2)]] p(5) show ?thesis by simp
  next
    case False
    obtain q where q: "so_persist ?st = Some q" using p(3) q'(1) by (cases "so_persist ?st") auto
    from False have "q' = q" by (intro commit_flash_kept [OF inv c q q']) auto
    moreover have "boot_group (blob_rows (logged bo) q) = pt_committed pt"
      using assms(3) en p(2) q q'(2) \<open>q' = q\<close> by (simp add: flash_holds_def)
    moreover have "pt_committed pt = store_group st'" if ok
      using that False p(5) committed_group_idle [of ?st] pt_inv_committed [OF assms(2)] by simp
    ultimately show ?thesis by simp
  qed
  with True c show ?thesis by (auto simp: flash_holds_def pt_on_authenticated_def)
qed (use assms(3) in \<open>simp add: pt_on_authenticated_def\<close>)

lemma reset_flash:
  assumes "blob_store bo" "pt_inv pt" "flash_holds bo pt"
  shows "flash_holds bo (snd (pt_reset_to_defaults (logged bo) pt))"
proof (cases "pt_writable (logged bo) pt")
  case True
  obtain ok pt' where r: "pt_reset_to_defaults (logged bo) pt = (ok, pt')" by fastforce
  note p = pt_reset_parts [OF assms(2) r True]
  let ?q = "the (so_persist (pt_store pt))"
  have "pp_usable (logged bo) ?q"
    using True by (auto simp: pt_writable_def persist_usable_def PhyPersist_def split: option.splits)
  then have "boot_group (blob_rows (logged bo) (snd (pp_erase (logged bo) ?q))) = boot_group []"
    if "intact (snd (pp_erase (logged bo) ?q))"
    using that blob_store.erase_rows [OF logged_blob_store [OF assms(1)]] intact_erased
    by (metis prod.collapse)
  with p r show ?thesis by (simp add: flash_holds_def)
qed (use assms(3) in \<open>simp add: pt_reset_to_defaults_def\<close>)

end
