(* ===== verification/NvsBlob.thy ===== *)
theory NvsBlob
  imports PhyBlob
begin

text \<open>
  GateLink's committed PHY group in flash (\<open>firmware/gatelink\<close>: \<open>nvs\_blob.h\<close>, \<open>nvs\_blob.cpp\<close>), the
  \<open>BlobStore\<close> a board gives its \<open>PhyPersist\<close>.

  Arduino's \<open>Preferences\<close> is outside the repository: its calls on the one key are a record of
  operations, a parameter, and what its documentation promises of them is the locale
  \<open>preferences\<close>. From that promise alone \<open>NvsBlob\<close> is a \<open>blob\_store\<close>.
\<close>

section \<open>Operations (nvs\_blob.cpp)\<close>

record 'n Preferences =
  pf_begin :: "'n \<Rightarrow> bool \<times> 'n"
  pf_isKey :: "'n \<Rightarrow> bool"
  pf_getBytesLength :: "'n \<Rightarrow> nat"
  pf_getBytes :: "nat \<Rightarrow> 'n \<Rightarrow> bytes"
  pf_putBytes :: "bytes \<Rightarrow> 'n \<Rightarrow> nat \<times> 'n"
  pf_remove :: "'n \<Rightarrow> bool \<times> 'n"

record 'n NvsBlob =
  nb_prefs :: 'n
  nb_open :: bool

definition nvs_begin :: "'n Preferences \<Rightarrow> 'n NvsBlob \<Rightarrow> bool \<times> 'n NvsBlob" where
  "nvs_begin pf b = (let (ok, p) = pf_begin pf (nb_prefs b) in (ok, b\<lparr>nb_prefs := p, nb_open := ok\<rparr>))"

definition nvs_read :: "'n Preferences \<Rightarrow> nat \<Rightarrow> 'n NvsBlob \<Rightarrow> bytes" where
  "nvs_read pf cap b =
     (if \<not> nb_open b \<or> \<not> pf_isKey pf (nb_prefs b) then []
      else let len = pf_getBytesLength pf (nb_prefs b) in
        if len = 0 \<or> len > cap then []
        else let out = pf_getBytes pf len (nb_prefs b) in if length out = len then out else [])"

definition nvs_write :: "'n Preferences \<Rightarrow> bytes \<Rightarrow> 'n NvsBlob \<Rightarrow> bool \<times> 'n NvsBlob" where
  "nvs_write pf bs b =
     (if \<not> nb_open b \<or> bs = [] then (False, b)
      else let (n, p) = pf_putBytes pf bs (nb_prefs b) in (n = length bs, b\<lparr>nb_prefs := p\<rparr>))"

definition nvs_erase :: "'n Preferences \<Rightarrow> 'n NvsBlob \<Rightarrow> bool \<times> 'n NvsBlob" where
  "nvs_erase pf b =
     (if \<not> nb_open b then (False, b)
      else if \<not> pf_isKey pf (nb_prefs b) then (True, b)
      else let (ok, p) = pf_remove pf (nb_prefs b) in (ok, b\<lparr>nb_prefs := p\<rparr>))"

definition NvsBlobStore :: "'n Preferences \<Rightarrow> 'n NvsBlob BlobStore" where
  "NvsBlobStore pf = \<lparr>bs_usable = nb_open, bs_read = nvs_read pf, bs_write = nvs_write pf, bs_erase = nvs_erase pf\<rparr>"

section \<open>The contract of Preferences and what it gives\<close>

text \<open>
  \<open>putBytes\<close> returns the bytes it stored: when that is all of them, they are what the key holds.
  \<open>remove\<close> returning true leaves no key. What a failed call leaves is not promised.
\<close>

locale preferences =
  fixes pf :: "'n Preferences"
  assumes put_isKey: "pf_putBytes pf bs p = (length bs, p') \<Longrightarrow> bs \<noteq> [] \<Longrightarrow> pf_isKey pf p'"
    and put_length: "pf_putBytes pf bs p = (length bs, p') \<Longrightarrow> bs \<noteq> [] \<Longrightarrow> pf_getBytesLength pf p' = length bs"
    and put_bytes: "pf_putBytes pf bs p = (length bs, p') \<Longrightarrow> bs \<noteq> [] \<Longrightarrow> pf_getBytes pf (length bs) p' = bs"
    and removed: "pf_remove pf p = (True, p') \<Longrightarrow> \<not> pf_isKey pf p'"

sublocale preferences \<subseteq> nvs: blob_store "NvsBlobStore pf"
proof
  fix bs b b' cap
  assume "bs_write (NvsBlobStore pf) bs b = (True, b')" "length bs \<le> cap"
  then show "bs_read (NvsBlobStore pf) cap b' = bs"
    using put_isKey put_length put_bytes
    by (auto simp: NvsBlobStore_def nvs_write_def nvs_read_def Let_def split: if_splits prod.splits)
next
  fix b b' cap
  assume "bs_erase (NvsBlobStore pf) b = (True, b')"
  then show "bs_read (NvsBlobStore pf) cap b' = []"
    using removed
    by (auto simp: NvsBlobStore_def nvs_erase_def nvs_read_def split: if_splits prod.splits)
qed

text \<open>A key-value store of one key, to evaluate with.\<close>

definition one_key :: "bytes option Preferences" where
  "one_key = \<lparr>pf_begin = (\<lambda>p. (True, p)), pf_isKey = (\<lambda>p. p \<noteq> None),
     pf_getBytesLength = (\<lambda>p. case p of None \<Rightarrow> 0 | Some bs \<Rightarrow> length bs),
     pf_getBytes = (\<lambda>n p. case p of None \<Rightarrow> [] | Some bs \<Rightarrow> if length bs \<le> n then bs else []),
     pf_putBytes = (\<lambda>bs p. (length bs, Some bs)), pf_remove = (\<lambda>p. (p \<noteq> None, None))\<rparr>"

interpretation one_key: preferences one_key
  by unfold_locales (auto simp: one_key_def)

text \<open>Opened on flash that never held a group.\<close>

abbreviation fresh_nvs :: "bytes option NvsBlob" where
  "fresh_nvs \<equiv> \<lparr>nb_prefs = None, nb_open = True\<rparr>"

end
