(* ===== verification/PhyTrialCorrect.thy ===== *)
theory PhyTrialCorrect
  imports PhyTrial NvsBlob
begin

text \<open>
  What a node's half of a fleet PHY change promises, over every order of SETs, retunes, frames,
  ticks and resets: while the flash has refused no write a reboot comes back on the committed group,
  an open window ends in a commit or a revert, the board retunes only when every member accepted,
  and the radio never leaves the EIRP ceiling.
\<close>

section \<open>Reachable trials\<close>

text \<open>
  A booted board: whatever the calls, their order and what the flash answers to each. The one call
  left out is a SET of a row outside the group, which the engine never makes.
\<close>

inductive pt_reachable :: "'b BlobStore \<Rightarrow> 'b PhyTrial \<Rightarrow> bool" for bo where
  pr_boot: "pt_reachable bo (snd (pt_begin bo (PhyTrial_new q)))"
| pr_set: "pt_reachable bo pt \<Longrightarrow> is_phy (ce_param_id e) \<Longrightarrow> pt_set bo e pt = Some (r, applied, pt') \<Longrightarrow>
    pt_reachable bo pt'"
| pr_on_set: "pt_reachable bo pt \<Longrightarrow> pt_reachable bo (pt_on_set sl accepted members now_ms pt)"
| pr_on_retuned: "pt_reachable bo pt \<Longrightarrow> pt_reachable bo (pt_on_retuned bo now_ms pt)"
| pr_on_authenticated: "pt_reachable bo pt \<Longrightarrow> pt_reachable bo (pt_on_authenticated bo pt)"
| pr_tick: "pt_reachable bo pt \<Longrightarrow> pt_reachable bo (snd (pt_tick bo now_ms pt))"
| pr_reset: "pt_reachable bo pt \<Longrightarrow> pt_reachable bo (snd (pt_reset_to_defaults bo pt))"

lemma new_store_inv: "store_inv (Store_new node_table q)"
  using node_rows.param_rows_axioms by (intro Store_new_inv) (simp_all add: node_table_rows)

lemma boot_group_Nil: "boot_group [] = store_group (Store_new node_table q)"
  unfolding boot_group_def store_group_ids by (simp add: boot_values_def effective_new)

text \<open>A boot with a usable store starts on the group its bytes hold, idle, no trial open.\<close>

lemma begin_parts:
  assumes "pp_usable bo q" "pt_begin bo (PhyTrial_new (Some q)) = (cause, pt)"
  shows "store_inv (pt_store pt)" "so_table (pt_store pt) = node_table" "so_trial (pt_store pt) = []"
    "so_phy_trial_enabled (pt_store pt)" "pt_committed pt = store_group (pt_store pt)"
    "pt_state pt = PhS_Idle" "\<not> pt_retune_due pt"
    "store_group (pt_store pt) = boot_group (case pp_read bo q of None \<Rightarrow> [] | Some b \<Rightarrow> pb_rows b)"
    "so_persist (pt_store pt) = Some (if cause = RC_Reboot then snd (pp_mark_trial bo False q) else q)"
proof -
  let ?st = "enable_phy_trial (Store_new node_table (Some q))"
  have st: "store_inv ?st" "so_table ?st = node_table" "so_trial ?st = []" "phy_writable (PhyPersist bo) ?st"
    "so_persist ?st = Some q"
    using assms(1)
    by (simp_all add: new_store_inv enable_inv, simp_all add: enable_phy_trial_def Store_new_def phy_writable_def
        persist_usable_def PhyPersist_def)
  have w: "pt_writable bo (PhyTrial_new (Some q))"
    using assms(1)
    by (simp add: pt_writable_def persist_usable_def PhyTrial_new_def Store_new_def PhyPersist_def Let_def)
  have "store_inv (pt_store pt) \<and> so_table (pt_store pt) = node_table \<and> so_trial (pt_store pt) = [] \<and>
    so_phy_trial_enabled (pt_store pt) \<and> pt_committed pt = store_group (pt_store pt) \<and>
    pt_state pt = PhS_Idle \<and> \<not> pt_retune_due pt \<and>
    store_group (pt_store pt) = boot_group (case pp_read bo q of None \<Rightarrow> [] | Some b \<Rightarrow> pb_rows b) \<and>
    so_persist (pt_store pt) = Some (if cause = RC_Reboot then snd (pp_mark_trial bo False q) else q)"
  proof (cases "pp_read bo q")
    case None
    have g: "store_group ?st = store_group (Store_new node_table (Some q))" by (simp add: store_group_def)
    show ?thesis
      using None assms(2) w st g boot_group_Nil [of "Some q"]
      by (auto simp: pt_begin_def PhyTrial_new_def Let_def) (simp_all add: enable_phy_trial_def)
  next
    case (Some b)
    let ?st' = "foldl (boot_restore bo) ?st (pb_rows b)"
    note r = boot_restore_all [OF st(1-4), of "pb_rows b", unfolded Let_def]
    have "store_group ?st' = boot_group (pb_rows b)"
    proof -
      have "effective i ?st' = boot_values (pb_rows b) i" for i
        using fun_cong [of "\<lambda>i. effective i ?st'" _ i] r by (simp add: boot_values_def effective_new)
      then show ?thesis unfolding boot_group_def store_group_ids by simp
    qed
    with Some assms(2) w st(5) r show ?thesis
      by (auto simp: pt_begin_def PhyTrial_new_def Let_def store_mark_def store_group_def
          enable_phy_trial_def split: if_splits)
  qed
  then show "store_inv (pt_store pt)" "so_table (pt_store pt) = node_table" "so_trial (pt_store pt) = []"
    "so_phy_trial_enabled (pt_store pt)" "pt_committed pt = store_group (pt_store pt)"
    "pt_state pt = PhS_Idle" "\<not> pt_retune_due pt"
    "store_group (pt_store pt) = boot_group (case pp_read bo q of None \<Rightarrow> [] | Some b \<Rightarrow> pb_rows b)"
    "so_persist (pt_store pt) = Some (if cause = RC_Reboot then snd (pp_mark_trial bo False q) else q)"
    by blast+
qed

lemma begin_unwritable:
  "\<not> pt_writable bo (PhyTrial_new q) \<Longrightarrow> pt_begin bo (PhyTrial_new q) = (RC_None, PhyTrial_new q)"
  by (simp add: pt_begin_def)

lemma new_unwritable_inv: "pt_inv (PhyTrial_new q)"
  by (simp add: pt_inv_def PhyTrial_new_def Let_def new_store_inv committed_group_idle)
    (simp add: Store_new_def committed_group_idle)

lemma writable_new: "pt_writable bo (PhyTrial_new q) \<Longrightarrow> \<exists>p. q = Some p \<and> pp_usable bo p"
  by (auto simp: pt_writable_def persist_usable_def PhyTrial_new_def Store_new_def PhyPersist_def Let_def split: option.splits)

lemma begin_inv: "pt_inv (snd (pt_begin bo (PhyTrial_new q)))"
proof (cases "pt_writable bo (PhyTrial_new q)")
  case True
  then obtain p where p: "q = Some p" "pp_usable bo p" using writable_new by blast
  obtain cause pt where b: "pt_begin bo (PhyTrial_new (Some p)) = (cause, pt)" by fastforce
  note parts = begin_parts [OF p(2) b]
  then have "pt_inv pt" unfolding pt_inv_def using committed_group_idle [OF parts(3)] by simp
  then show ?thesis by (simp add: p(1) b)
qed (simp add: begin_unwritable new_unwritable_inv)

lemma reachable_pt_inv: "pt_reachable bo pt \<Longrightarrow> pt_inv pt"
proof (induction rule: pt_reachable.induct)
  case (pr_on_set pt sl accepted members now_ms)
  then show ?case using pt_inv_cong [OF pt_on_set_keeps] by blast
qed (auto intro: begin_inv pt_set_parts(4) on_retuned_inv on_authenticated_inv tick_inv pt_reset_inv)

lemma begin_flash:
  assumes "blob_store bo"
  shows "flash_holds bo (snd (pt_begin (logged bo) (PhyTrial_new q)))"
proof (cases "pt_writable (logged bo) (PhyTrial_new q)")
  case True
  then obtain p where p: "q = Some p" "pp_usable (logged bo) p" using writable_new by blast
  obtain cause pt where b: "pt_begin (logged bo) (PhyTrial_new (Some p)) = (cause, pt)" by fastforce
  note parts = begin_parts [OF p(2) b]
  have "boot_group (blob_rows (logged bo) p) = pt_committed pt" by (simp add: read_rows [OF p(2)] parts(5,8))
  with parts(9) mark_rows [OF assms, of False p] have "flash_holds bo pt" by (auto simp: flash_holds_def split: if_splits)
  then show ?thesis by (simp add: p(1) b)
next
  case False
  have "flash_holds bo (PhyTrial_new q)" by (simp add: flash_holds_def PhyTrial_new_def Let_def Store_new_def)
  with False show ?thesis by (simp add: begin_unwritable)
qed

lemma reachable_flash:
  assumes "blob_store bo" "pt_reachable (logged bo) pt"
  shows "flash_holds bo pt"
  using assms(2)
proof (induction rule: pt_reachable.induct)
  case (pr_boot q)
  show ?case by (rule begin_flash [OF assms(1)])
next
  case (pr_set pt e r applied pt')
  then show ?case using pt_set_parts [OF reachable_pt_inv [OF pr_set(1)] pr_set(2,3)] flash_holds_same by blast
next
  case (pr_on_set pt sl accepted members now_ms)
  then show ?case by (simp add: flash_holds_def)
qed (auto intro: retuned_flash tick_flash authenticated_flash reset_flash assms(1) reachable_pt_inv)




section \<open>The radio a group describes\<close>

text \<open>A group the store can hold: the six values, each one its row takes.\<close>

lemma group_valid:
  assumes "store_inv st" "so_table st = node_table"
  shows "list_all2 valid_value (filter (\<lambda>d. pd_access d = Ac_Phy) kNodeCommonParams) (store_group st)"
proof -
  have "store_group st = map (\<lambda>d. effective (pd_id d) st) (filter (\<lambda>d. pd_access d = Ac_Phy) kNodeCommonParams)"
    unfolding store_group_ids phy_ids_rows by simp
  moreover have "valid_value d (effective (pd_id d) st)" if "d \<in> set kNodeCommonParams" for d
    using effective_valid [OF assms(1)] row_of_find [OF assms(1), of d] that by (simp add: assms(2) node_table_rows)
  ultimately show ?thesis by (simp add: list_all2_map2 list.rel_refl_strong list_all2_same)
qed

lemma group_ranges:
  assumes "store_inv st" "so_table st = node_table"
  obtains f s b c t w where "store_group st = [f, s, b, c, t, w]" "902000000 \<le> f" "f \<le> 928000000"
    "7 \<le> s" "s \<le> 12" "125 \<le> b" "b \<le> 500" "5 \<le> c" "c \<le> 8" "- 9 \<le> t" "t \<le> - 4" "30 \<le> w" "w \<le> 900"
proof -
  note v = group_valid [OF assms, unfolded phy_rows_of_node]
  obtain f s b c t w where g: "store_group st = [f, s, b, c, t, w]"
    using v by (auto simp: list_all2_Cons1)
  show ?thesis
    by (rule that [of f s b c t w]) (use g v in \<open>simp_all add: valid_value_def row_def\<close>)
qed

section \<open>A change to evaluate\<close>

text \<open>A GateLink on fresh flash, SET to spreading factor 10, and the same change on the air.\<close>

abbreviation nvs_bytes :: "(bytes option NvsBlob \<times> bool) BlobStore" where "nvs_bytes \<equiv> logged (NvsBlobStore one_key)"

definition sf10_entry :: ConfigEntry where
  "sf10_entry = \<lparr>ce_param_id = 0x0111, ce_ptype = PT_U8, ce_len = 1, ce_value = [10, 0, 0, 0]\<rparr>"

definition trial_boot :: "(bytes option NvsBlob \<times> bool) PhyTrial" where
  "trial_boot = snd (pt_begin nvs_bytes (PhyTrial_new (Some (Some (fresh_nvs, False)))))"

definition trial_set :: "(bytes option NvsBlob \<times> bool) PhyTrial" where
  "trial_set = snd (snd (the (pt_set nvs_bytes sf10_entry trial_boot)))"

definition trial_open :: "(bytes option NvsBlob \<times> bool) PhyTrial" where
  "trial_open = pt_on_retuned nvs_bytes 2000 (pt_on_set 0 True 1 1000 trial_set)"

definition clamped_set :: "(bytes option NvsBlob \<times> bool) PhyTrial" where
  "clamped_set = snd (snd (the (pt_set nvs_bytes sf_entry trial_boot)))"

lemma pt_set_reachable:
  assumes "pt_reachable bo pt" "is_phy (ce_param_id e)" "pt_set bo e pt \<noteq> None"
  shows "pt_reachable bo (snd (snd (the (pt_set bo e pt))))"
  using assms pr_set [OF assms(1,2)] by auto

lemma trial_reachable: "pt_reachable nvs_bytes trial_boot" "pt_reachable nvs_bytes trial_set"
  "pt_reachable nvs_bytes trial_open"
proof -
  show b: "pt_reachable nvs_bytes trial_boot" unfolding trial_boot_def by (rule pr_boot)
  have "is_phy (ce_param_id sf10_entry)" "pt_set nvs_bytes sf10_entry trial_boot \<noteq> None" by code_simp+
  with b show s: "pt_reachable nvs_bytes trial_set" unfolding trial_set_def by (rule pt_set_reachable)
  show "pt_reachable nvs_bytes trial_open"
    unfolding trial_open_def by (intro pr_on_retuned pr_on_set s)
qed

section \<open>Properties\<close>

text \<open>
  The nonvolatile blob round-trips: whatever group of at most six \<open>int32\_t\<close> rows, trial marker
  and owed acknowledgement a board encodes, decoding the bytes gives it back exactly.
\<close>

theorem phy_blob_roundtrip:
  assumes "blob_ok b"
  shows "phy_blob_decode (phy_blob_encode b kPhyBlobMax) = Some b \<and>
    length (phy_blob_encode b kPhyBlobMax) = 5 + 6 * length (pb_rows b)"
  using assms phy_blob_decode_encode by (simp add: phy_blob_encode_eq)

theorem phy_blob_roundtrip_witness:
  "let b = \<lparr>pb_trial_open = True, pb_ack_owed = False, pb_ack_rows = 7, pb_rows = [(0x0114, - 9), (0x0110, 917400000)]\<rparr>
   in blob_ok b \<and> phy_blob_decode (phy_blob_encode b kPhyBlobMax) = Some b"
proof -
  have "blob_ok \<lparr>pb_trial_open = True, pb_ack_owed = False, pb_ack_rows = 7,
      pb_rows = [(0x0114, - 9), (0x0110, 917400000)]\<rparr>"
    by (simp add: blob_ok_def i32_range_def)
  with phy_blob_roundtrip [OF this] show ?thesis unfolding Let_def by blast
qed

text \<open>
  C21: a reboot at any moment of a change comes back on the committed group, with no trial open and
  nothing owed to the radio, and reports \<open>Reboot\<close> exactly when the stored marker says a trial was
  open. The committed group is the one in force before the trial, until a commit succeeds. This
  holds on flash that has taken every write and erase asked of it; once one was refused, nothing is
  known of the bytes, and a \<open>phy reset\<close> whose erase is refused leaves the RAM on the defaults and the
  flash on whatever it kept.
\<close>

theorem reboot_returns_to_committed:
  assumes "blob_store bo" "pt_reachable (logged bo) pt" "so_phy_trial_enabled (pt_store pt)"
    "so_persist (pt_store pt) = Some q" "pp_usable (logged bo) q" "intact q"
    "pt_begin (logged bo) (PhyTrial_new (Some q)) = (cause, pt')"
  shows "pt_group pt' = pt_committed pt \<and> pt_committed pt' = pt_committed pt \<and>
    pt_state pt' = PhS_Idle \<and> \<not> pt_retune_due pt' \<and> so_trial (pt_store pt') = [] \<and>
    (cause = RC_Reboot \<longleftrightarrow> (\<exists>b. pp_read (logged bo) q = Some b \<and> pb_trial_open b))"
proof -
  note parts = begin_parts [OF assms(5,7)]
  have "boot_group (blob_rows (logged bo) q) = pt_committed pt"
    using reachable_flash [OF assms(1,2)] assms(3,4,6) by (simp add: flash_holds_def)
  then have "pt_group pt' = pt_committed pt" using parts(8) by (simp add: read_rows [OF assms(5)] pt_group_def)
  moreover have "pt_writable (logged bo) (PhyTrial_new (Some q))"
    using assms(5) by (simp add: pt_writable_def persist_usable_def PhyTrial_new_def Store_new_def PhyPersist_def Let_def)
  then have "cause = RC_Reboot \<longleftrightarrow> (\<exists>b. pp_read (logged bo) q = Some b \<and> pb_trial_open b)"
    using assms(7)
    by (auto simp: pt_begin_def PhyTrial_new_def Store_new_def enable_phy_trial_def Let_def
        split: option.splits if_splits)
  ultimately show ?thesis using parts(3,5,6,7) by (simp add: pt_group_def)
qed

theorem reboot_returns_to_committed_witness:
  "\<exists>q cause pt'. so_persist (pt_store trial_open) = Some q \<and>
     pt_begin nvs_bytes (PhyTrial_new (Some q)) = (cause, pt') \<and> cause = RC_Reboot \<and>
     pt_group pt' = pt_committed trial_open \<and> pt_group trial_open \<noteq> pt_committed trial_open"
proof -
  define q where "q = the (so_persist (pt_store trial_open))"
  obtain cause pt' where b: "pt_begin nvs_bytes (PhyTrial_new (Some q)) = (cause, pt')" by fastforce
  have en: "so_phy_trial_enabled (pt_store trial_open)" by code_simp
  have "so_persist (pt_store trial_open) \<noteq> None" by code_simp
  then have q: "so_persist (pt_store trial_open) = Some q" by (auto simp: q_def)
  have u: "pp_usable nvs_bytes q" "intact q" unfolding q_def by code_simp+
  have "pp_read nvs_bytes q \<noteq> None" "pb_trial_open (the (pp_read nvs_bytes q))"
    unfolding q_def by code_simp+
  then have "\<exists>b. pp_read nvs_bytes q = Some b \<and> pb_trial_open b" by auto
  moreover have "pt_group trial_open \<noteq> pt_committed trial_open" by code_simp
  ultimately show ?thesis
    using reboot_returns_to_committed
      [OF one_key.nvs.blob_store_axioms trial_reachable(3) en q u b] q b by blast
qed



text \<open>
  Whatever group a board can come to hold, the radio settings computed from it exist, equal
  its values with no truncation, and stay under the EIRP ceiling, for every antenna of up to 3 dBi.
\<close>

theorem radio_settings_within_ceiling:
  assumes "pt_reachable bo pt" "uint (pc_antenna_gain_dbi10 base) \<le> 30"
  shows "\<exists>p. phy_config_from (pt_group pt) base = Some p \<and> within_eirp_ceiling p \<and>
    uint (pc_freq_hz p) = pt_group pt ! 0 \<and> uint (pc_sf p) = pt_group pt ! 1 \<and>
    uint (pc_bw_khz10 p) = pt_group pt ! 2 * 10 \<and> uint (pc_cr_denom p) = pt_group pt ! 3 \<and>
    sint (pc_conducted_dbm p) = pt_group pt ! 4"
proof -
  have inv: "pt_inv pt" by (rule reachable_pt_inv [OF assms(1)])
  obtain f s b c t w where g: "store_group (pt_store pt) = [f, s, b, c, t, w]" and
    r: "902000000 \<le> f" "f \<le> 928000000" "7 \<le> s" "s \<le> 12" "125 \<le> b" "b \<le> 500" "5 \<le> c" "c \<le> 8"
      "- 9 \<le> t" "t \<le> - 4"
    by (rule group_ranges [OF pt_inv_store [OF inv] pt_inv_table [OF inv]])
  have w: "uint (word_of_int f :: u32) = f" "uint (word_of_int s :: u8) = s"
    "uint (word_of_int (b * 10) :: u16) = b * 10" "uint (word_of_int c :: u8) = c"
    using r by (simp_all add: uint_word_of_int_eq take_bit_int_eq_self del: of_int_mult)
  have t: "sint (word_of_int t :: i8) = t"
    using r by (simp add: signed_of_int signed_take_bit_int_eq_self)
  show ?thesis
    using assms(2) r w t
    by (simp add: pt_group_def g phy_config_from_def within_eirp_ceiling_def Let_def)
qed

theorem radio_settings_within_ceiling_witness:
  "\<exists>p. phy_config_from (pt_group trial_open) kPhy = Some p \<and> within_eirp_ceiling p \<and> uint (pc_sf p) = 10"
proof -
  have "pt_group trial_open ! 1 = 10" by code_simp
  with radio_settings_within_ceiling [OF trial_reachable(3), of kPhy]
  show ?thesis by (auto simp: kPhy_def)
qed

section \<open>Members\<close>

definition on_sets :: "(nat \<times> u32) list \<Rightarrow> u8 \<Rightarrow> 'b PhyTrial \<Rightarrow> 'b PhyTrial" where
  "on_sets acks members pt = foldl (\<lambda>pt (sl, now_ms). pt_on_set sl True members now_ms pt) pt acks"

lemma on_sets_keeps [simp]: "pt_store (on_sets acks members pt) = pt_store pt"
  by (induction acks arbitrary: pt) (auto simp: on_sets_def)

lemma on_set_group [simp]: "pt_group (pt_on_set sl accepted members now_ms pt) = pt_group pt"
  by (simp add: pt_group_def)

definition covers :: "nat set \<Rightarrow> u8 \<Rightarrow> bool" where
  "covers sls members \<longleftrightarrow> (\<forall>k<8. bit members k \<longrightarrow> k \<in> sls)"

lemma covers_mask: "m AND members = members \<longleftrightarrow> covers {k. bit m k} members" for m :: u8
proof
  assume "m AND members = members"
  then have "bit (m AND members) k = bit members k" for k by simp
  then show "covers {k. bit m k} members" by (auto simp: covers_def bit_simps)
next
  assume "covers {k. bit m k} members"
  then show "m AND members = members" by (intro bit_word_eqI) (auto simp: covers_def bit_simps)
qed

lemma bit_slot: "sl < 8 \<Longrightarrow> bit (push_bit sl (1 :: u8)) k \<longleftrightarrow> k = sl"
  by (auto simp: bit_simps)

text \<open>One accepted SET: the first of a group starts the count again.\<close>

lemma on_set_fields:
  assumes "sl < 8" "pt_state pt \<noteq> PhS_Trial"
  defines "acc \<equiv> (if pt_state pt = PhS_Idle \<or> pt_group pt \<noteq> pt_pending pt then 0 else pt_accepted pt) OR push_bit sl 1"
  shows "pt_state (pt_on_set sl True members now_ms pt) = PhS_Pending"
    "pt_pending (pt_on_set sl True members now_ms pt) = pt_group pt"
    "pt_accepted (pt_on_set sl True members now_ms pt) = acc"
    "pt_retune_to_trial (pt_on_set sl True members now_ms pt) \<longleftrightarrow>
       pt_retune_to_trial pt \<or> members \<noteq> 0 \<and> acc AND members = members"
proof -
  have "pt_state pt = PhS_Idle \<or> pt_state pt = PhS_Pending" using assms(2) by (cases "pt_state pt") auto
  then show "pt_state (pt_on_set sl True members now_ms pt) = PhS_Pending"
    "pt_pending (pt_on_set sl True members now_ms pt) = pt_group pt"
    "pt_accepted (pt_on_set sl True members now_ms pt) = acc"
    "pt_retune_to_trial (pt_on_set sl True members now_ms pt) \<longleftrightarrow>
       pt_retune_to_trial pt \<or> members \<noteq> 0 \<and> acc AND members = members"
    using assms(1) by (auto simp: pt_on_set_def Let_def acc_def)
qed

text \<open>The members heard so far of the group in force.\<close>

definition counted :: "nat set \<Rightarrow> u8 \<Rightarrow> 'b PhyTrial \<Rightarrow> bool" where
  "counted sls members pt \<longleftrightarrow> pt_state pt = PhS_Pending \<and> pt_pending pt = pt_group pt \<and>
     {k. bit (pt_accepted pt) k} = sls \<and> (pt_retune_to_trial pt \<longleftrightarrow> covers sls members)"

lemma slot_bits: "sl < 8 \<Longrightarrow> {k. bit (m OR push_bit sl 1) k} = insert sl {k. bit m k}" for m :: u8
  using bit_slot [of sl] by (auto simp: bit_or_iff)

lemma counted_first:
  assumes "sl < 8" "members \<noteq> 0" "\<not> pt_retune_to_trial pt"
    "pt_state pt = PhS_Idle \<or> pt_state pt = PhS_Pending \<and> pt_group pt \<noteq> pt_pending pt"
  shows "counted {sl} members (pt_on_set sl True members now_ms pt)"
proof -
  have "pt_state pt \<noteq> PhS_Trial" using assms(4) by auto
  note f = on_set_fields [OF assms(1) this, of members now_ms]
  have "pt_accepted (pt_on_set sl True members now_ms pt) = push_bit sl 1" using f(3) assms(4) by auto
  moreover have "{k. bit (push_bit sl (1 :: u8)) k} = {sl}" using bit_slot [OF assms(1)] by blast
  ultimately show ?thesis
    using f assms(2-4) covers_mask [of "push_bit sl 1" members] by (auto simp: counted_def)
qed

lemma counted_next:
  assumes "sl < 8" "members \<noteq> 0" "counted sls members pt"
  shows "counted (insert sl sls) members (pt_on_set sl True members now_ms pt)"
proof -
  have c: "pt_state pt = PhS_Pending" "pt_pending pt = pt_group pt" "{k. bit (pt_accepted pt) k} = sls"
    "pt_retune_to_trial pt \<longleftrightarrow> covers sls members"
    using assms(3) by (simp_all add: counted_def)
  then have "pt_state pt \<noteq> PhS_Trial" by simp
  note f = on_set_fields [OF assms(1) this, of members now_ms]
  have "pt_accepted (pt_on_set sl True members now_ms pt) = pt_accepted pt OR push_bit sl 1"
    using f(3) c(1,2) by simp
  moreover have "covers sls members \<Longrightarrow> covers (insert sl sls) members" by (auto simp: covers_def)
  ultimately show ?thesis
    using f c assms(2) slot_bits [OF assms(1), of "pt_accepted pt"]
      covers_mask [of "pt_accepted pt OR push_bit sl 1" members]
    by (auto simp: counted_def)
qed

lemma counted_all:
  "counted sls members pt \<Longrightarrow> members \<noteq> 0 \<Longrightarrow> \<forall>a\<in>set acks. fst a < 8 \<Longrightarrow>
   counted (sls \<union> fst ` set acks) members (on_sets acks members pt)"
proof (induction acks arbitrary: sls pt)
  case (Cons a acks)
  then have "counted (insert (fst a) sls) members (pt_on_set (fst a) True members (snd a) pt)"
    by (intro counted_next) auto
  from Cons.IH [OF this] Cons.prems show ?case
    by (auto simp: on_sets_def split_beta Un_insert_right)
qed (simp add: on_sets_def)

text \<open>
  The board owes the retune to a new group exactly when every member has accepted that same
  group. Members may repeat and come in any order; a group that differs from the pending one starts
  the count again.
\<close>

theorem retune_needs_every_member:
  assumes "acks \<noteq> []" "\<forall>a\<in>set acks. fst a < 8" "members \<noteq> 0" "\<not> pt_retune_to_trial pt"
    "pt_state pt = PhS_Idle \<or> pt_state pt = PhS_Pending \<and> pt_group pt \<noteq> pt_pending pt"
  shows "pt_retune_to_trial (on_sets acks members pt) \<longleftrightarrow> (\<forall>k<8. bit members k \<longrightarrow> k \<in> fst ` set acks)"
proof -
  obtain a rest where acks: "acks = a # rest" using assms(1) by (cases acks) auto
  have "counted {fst a} members (pt_on_set (fst a) True members (snd a) pt)"
    using assms acks by (intro counted_first) auto
  from counted_all [OF this assms(3), of rest] assms(2) acks
  have "counted (fst ` set acks) members (on_sets acks members pt)" by (simp add: on_sets_def split_beta)
  then show ?thesis by (simp add: counted_def covers_def)
qed

theorem retune_needs_every_member_witness:
  "\<not> pt_retune_to_trial (on_sets [(0, 10), (0, 20)] 5 trial_set) \<and>
   pt_retune_to_trial (on_sets [(0, 10), (2, 20)] 5 trial_set)"
proof -
  have s: "\<not> pt_retune_to_trial trial_set" "pt_state trial_set = PhS_Idle" by code_simp+
  have "\<not> (\<forall>k<8. bit (5 :: u8) k \<longrightarrow> k \<in> fst ` set [(0, 10 :: u32), (0, 20)])"
    by (auto intro!: exI [of _ 2])
  moreover have "\<forall>k\<in>set [0..<8]. bit (5 :: u8) k \<longrightarrow> k \<in> {0, 2}" by code_simp
  then have "\<forall>k<8. bit (5 :: u8) k \<longrightarrow> k \<in> fst ` set [(0, 10 :: u32), (2, 20)]" by simp
  moreover note r = retune_needs_every_member [where pt = trial_set and members = 5]
  from r [of "[(0, 10), (0, 20)]"] r [of "[(0, 10), (2, 20)]"] s
  have "pt_retune_to_trial (on_sets [(0, 10), (0, 20)] 5 trial_set) \<longleftrightarrow>
      (\<forall>k<8. bit (5 :: u8) k \<longrightarrow> k \<in> fst ` set [(0, 10 :: u32), (0, 20)])"
    "pt_retune_to_trial (on_sets [(0, 10), (2, 20)] 5 trial_set) \<longleftrightarrow>
      (\<forall>k<8. bit (5 :: u8) k \<longrightarrow> k \<in> fst ` set [(0, 10 :: u32), (2, 20)])"
    by simp_all
  ultimately show ?thesis by blast
qed

text \<open>
  C23: a SET that is not accepted leaves what its entries applied in force. When an entry was
  clamped, or another entry of the same SET refused, the engine calls \<open>on\_set\<close> with \<open>accepted\<close>
  false; that does nothing, the board stays idle, and no tick ever drops the applied value, so
  \<open>group()\<close> differs from the group on the air until something else ends the trial copy.
\<close>

theorem refused_set_stays_in_force:
  assumes "pt_reachable bo pt" "pt_state pt = PhS_Idle"
    "table_find node_table (ce_param_id e) = Some d" "pd_access d = Ac_Phy"
    "pt_set bo e pt = Some (r, True, pt')"
  shows "pt_on_set sl False members now_ms pt' = pt' \<and> (\<forall>t. pt_tick bo t pt' = (RC_None, pt')) \<and>
    effective (pd_id d) (pt_store pt') = clamp (requested e) d \<and> pt_committed pt' = pt_committed pt"
proof -
  have inv: "pt_inv pt" by (rule reachable_pt_inv [OF assms(1)])
  have f: "st_find (ce_param_id e) (pt_store pt) = Some d"
    using assms(3) pt_inv_table [OF inv] by (simp add: st_find_def)
  have id: "ce_param_id e = pd_id d" using table_find_SomeD [OF assms(3)] by simp
  have s: "snd (fst (store_apply (PhyPersist bo) e (pt_store pt))) = (True, snd (snd (fst (store_apply (PhyPersist bo) e (pt_store pt)))))"
    and pt': "pt' = pt\<lparr>pt_store := snd (store_apply (PhyPersist bo) e (pt_store pt))\<rparr>"
    using assms(2,5) by (auto simp: pt_set_def Let_def split: prod.splits)
  have "effective (pd_id d) (snd (store_apply (PhyPersist bo) e (pt_store pt))) = clamp (requested e) d"
    by (rule store_apply_cases [OF pt_inv_store [OF inv] f, of "PhyPersist bo"])
      (use s assms(4) f id in \<open>auto simp: effective_put_trial\<close>)
  with assms(2) pt' show ?thesis by (simp add: pt_on_set_def pt_tick_def)
qed

theorem refused_set_stays_in_force_witness:
  "cae_status (fst (the (pt_set nvs_bytes sf_entry trial_boot))) = Pa_Clamped \<and>
   pt_tick nvs_bytes 4000000 (pt_on_set 0 False 1 1000 clamped_set) = (RC_None, clamped_set) \<and>
   pt_group clamped_set = [917400000, 12, 125, 5, - 4, 120] \<and>
   pt_committed clamped_set = [917400000, 9, 125, 5, - 4, 120]"
proof -
  have s: "pt_state trial_boot = PhS_Idle" "pt_set nvs_bytes sf_entry trial_boot \<noteq> None"
    "fst (snd (the (pt_set nvs_bytes sf_entry trial_boot)))"
    "cae_status (fst (the (pt_set nvs_bytes sf_entry trial_boot))) = Pa_Clamped"
    "pt_committed trial_boot = [917400000, 9, 125, 5, - 4, 120]"
    "pt_group clamped_set = [917400000, 12, 125, 5, - 4, 120]"
    by code_simp+
  have e: "pt_set nvs_bytes sf_entry trial_boot =
      Some (fst (the (pt_set nvs_bytes sf_entry trial_boot)), True, clamped_set)"
    using s(2,3) by (auto simp: clamped_set_def)
  have d: "table_find node_table (ce_param_id sf_entry) = Some sf_row" "pd_access sf_row = Ac_Phy"
    by code_simp+
  from refused_set_stays_in_force
    [OF trial_reachable(1) s(1) d e, of 0 1 1000] s show ?thesis by simp
qed

end
