(* ===== verification/Names.thy ===== *)
theory Names
  imports Wire
begin

text \<open>
  The names an operator types and reads (\<open>lib/lran-node\<close>: \<open>names.h\<close>, \<open>names.cpp\<close>), with the
  enumerations of \<open>types.h\<close> they name. A C string is the list of its characters, and \<open>strcmp\<close>
  equality of lists.
\<close>

section \<open>Enumerations (types.h, sink.h)\<close>

datatype StatusReason =
    SR_PollResponse | SR_GateStateChange | SR_HoldStateChange | SR_MpptError | SR_VehicleDetected
  | SR_BmsAlarm | SR_HardShutdown | SR_Fire | SR_ConfigChange | SR_Boot | SR_ChargeInhibited
  | SR_DebugSynthetic

fun StatusReason_u8 :: "StatusReason \<Rightarrow> u8" where
  "StatusReason_u8 SR_PollResponse = 0x00"
| "StatusReason_u8 SR_GateStateChange = 0x01"
| "StatusReason_u8 SR_HoldStateChange = 0x02"
| "StatusReason_u8 SR_MpptError = 0x03"
| "StatusReason_u8 SR_VehicleDetected = 0x04"
| "StatusReason_u8 SR_BmsAlarm = 0x05"
| "StatusReason_u8 SR_HardShutdown = 0x06"
| "StatusReason_u8 SR_Fire = 0x07"
| "StatusReason_u8 SR_ConfigChange = 0x08"
| "StatusReason_u8 SR_Boot = 0x09"
| "StatusReason_u8 SR_ChargeInhibited = 0x0A"
| "StatusReason_u8 SR_DebugSynthetic = 0xFF"

datatype EventType =
    ET_VehicleWhileHeldOpen | ET_FireAsserted | ET_HardShutdown | ET_VehicleDetected
  | ET_GateStateChange | ET_HoldStateChange | ET_BmsAlarm | ET_MpptError | ET_ChargeInhibited
  | ET_Boot | ET_PhyReverted

fun EventType_u8 :: "EventType \<Rightarrow> u8" where
  "EventType_u8 ET_VehicleWhileHeldOpen = 0x01"
| "EventType_u8 ET_FireAsserted = 0x02"
| "EventType_u8 ET_HardShutdown = 0x03"
| "EventType_u8 ET_VehicleDetected = 0x04"
| "EventType_u8 ET_GateStateChange = 0x05"
| "EventType_u8 ET_HoldStateChange = 0x06"
| "EventType_u8 ET_BmsAlarm = 0x07"
| "EventType_u8 ET_MpptError = 0x08"
| "EventType_u8 ET_ChargeInhibited = 0x09"
| "EventType_u8 ET_Boot = 0x0A"
| "EventType_u8 ET_PhyReverted = 0x0B"

datatype ResetCause =
    RS_Unknown | RS_PowerOn | RS_RebootCommand | RS_Software | RS_Watchdog | RS_Panic
  | RS_Brownout | RS_External

fun ResetCause_u8 :: "ResetCause \<Rightarrow> u8" where
  "ResetCause_u8 RS_Unknown = 0x00"
| "ResetCause_u8 RS_PowerOn = 0x01"
| "ResetCause_u8 RS_RebootCommand = 0x02"
| "ResetCause_u8 RS_Software = 0x03"
| "ResetCause_u8 RS_Watchdog = 0x04"
| "ResetCause_u8 RS_Panic = 0x05"
| "ResetCause_u8 RS_Brownout = 0x06"
| "ResetCause_u8 RS_External = 0x07"

datatype LogLevel = LL_Quiet | LL_Info | LL_Debug

section \<open>Tables (names.cpp)\<close>

definition kReasons :: "(string \<times> StatusReason) list" where
  "kReasons = [(''POLL_RESPONSE'', SR_PollResponse), (''GATE_STATE_CHANGE'', SR_GateStateChange),
     (''HOLD_STATE_CHANGE'', SR_HoldStateChange), (''MPPT_ERROR'', SR_MpptError),
     (''VEHICLE_DETECTED'', SR_VehicleDetected), (''BMS_ALARM'', SR_BmsAlarm),
     (''HARD_SHUTDOWN'', SR_HardShutdown), (''FIRE'', SR_Fire), (''CONFIG_CHANGE'', SR_ConfigChange),
     (''BOOT'', SR_Boot), (''CHARGE_INHIBITED'', SR_ChargeInhibited),
     (''DEBUG_SYNTHETIC'', SR_DebugSynthetic)]"

definition kEvents :: "(string \<times> EventType) list" where
  "kEvents = [(''VEHICLE_WHILE_HELD_OPEN'', ET_VehicleWhileHeldOpen), (''FIRE_ASSERTED'', ET_FireAsserted),
     (''HARD_SHUTDOWN'', ET_HardShutdown), (''VEHICLE_DETECTED'', ET_VehicleDetected),
     (''GATE_STATE_CHANGE'', ET_GateStateChange), (''HOLD_STATE_CHANGE'', ET_HoldStateChange),
     (''BMS_ALARM'', ET_BmsAlarm), (''MPPT_ERROR'', ET_MpptError),
     (''CHARGE_INHIBITED'', ET_ChargeInhibited), (''BOOT'', ET_Boot), (''PHY_REVERTED'', ET_PhyReverted)]"

definition kResetCauses :: "(string \<times> ResetCause) list" where
  "kResetCauses = [(''UNKNOWN'', RS_Unknown), (''POWER_ON'', RS_PowerOn),
     (''REBOOT_COMMAND'', RS_RebootCommand), (''SOFTWARE'', RS_Software), (''WATCHDOG'', RS_Watchdog),
     (''PANIC'', RS_Panic), (''BROWNOUT'', RS_Brownout), (''EXTERNAL'', RS_External)]"

section \<open>Printing and parsing (names.cpp)\<close>

text \<open>The two loops every table is read with.\<close>

definition name_in :: "(string \<times> 'v) list \<Rightarrow> 'v \<Rightarrow> string" where
  "name_in tab v = (case List.find (\<lambda>n. snd n = v) tab of None \<Rightarrow> ''?'' | Some n \<Rightarrow> fst n)"

definition parse_in :: "(string \<times> 'v) list \<Rightarrow> string \<Rightarrow> 'v option" where
  "parse_in tab token = map_option snd (List.find (\<lambda>n. fst n = token) tab)"

definition status_reason_name :: "StatusReason \<Rightarrow> string" where
  "status_reason_name r = name_in kReasons r"

definition parse_status_reason :: "string \<Rightarrow> StatusReason option" where
  "parse_status_reason token = parse_in kReasons token"

definition event_type_name :: "EventType \<Rightarrow> string" where
  "event_type_name t = name_in kEvents t"

definition parse_event_type :: "string \<Rightarrow> EventType option" where
  "parse_event_type token = parse_in kEvents token"

definition reset_cause_name :: "ResetCause \<Rightarrow> string" where
  "reset_cause_name c = name_in kResetCauses c"

definition parse_reset_cause :: "string \<Rightarrow> ResetCause option" where
  "parse_reset_cause token = parse_in kResetCauses token"

fun log_level_name :: "LogLevel \<Rightarrow> string" where
  "log_level_name LL_Quiet = ''quiet''"
| "log_level_name LL_Info = ''info''"
| "log_level_name LL_Debug = ''debug''"

definition parse_log_level :: "string \<Rightarrow> LogLevel option" where
  "parse_log_level token = List.find (\<lambda>l. token = log_level_name l) [LL_Quiet, LL_Info, LL_Debug]"

fun ack_result_name :: "AckResult \<Rightarrow> string" where
  "ack_result_name AR_Accepted = ''ACCEPTED''"
| "ack_result_name AR_RejectedMac = ''REJECTED_MAC''"
| "ack_result_name AR_RejectedSeq = ''REJECTED_SEQ''"
| "ack_result_name AR_RejectedCtx = ''REJECTED_CTX''"
| "ack_result_name AR_RejectedUnknownCmd = ''REJECTED_UNKNOWN_CMD''"
| "ack_result_name AR_RejectedArg = ''REJECTED_ARG''"
| "ack_result_name AR_RejectedNotSupported = ''REJECTED_NOT_SUPPORTED''"
| "ack_result_name AR_DuplicateCached = ''DUPLICATE_CACHED''"
| "ack_result_name AR_DryRun = ''DRY_RUN''"
| "ack_result_name AR_ActuatorBusy = ''ACTUATOR_BUSY''"
| "ack_result_name AR_RejectedUnsafe = ''REJECTED_UNSAFE''"
| "ack_result_name AR_ActuatorFault = ''ACTUATOR_FAULT''"

definition cmd_name :: "u8 \<Rightarrow> string" where
  "cmd_name cmd =
     (if cmd = 0x00 then ''NOP'' else if cmd = 0x01 then ''OPEN'' else if cmd = 0x02 then ''CLOSE''
      else if cmd = 0x03 then ''HOLD_OPEN'' else if cmd = 0x04 then ''RELEASE_HOLD''
      else if cmd = 0x10 then ''REQUEST_STATUS'' else if cmd = 0x11 then ''REQUEST_CONFIG''
      else if cmd = Cmd_RollContext then ''ROLL_CONTEXT'' else if cmd = 0x20 then ''SET_DEBUG_MODE''
      else if cmd = 0x21 then ''SET_RELAY_DRY_RUN'' else if cmd = 0x22 then ''SET_BMS_POLLING''
      else if cmd = 0x7F then ''REBOOT'' else ''?'')"

section \<open>A table names and parses back\<close>

locale name_table =
  fixes tab :: "(string \<times> 'v) list"
  assumes table_names: "distinct (map fst tab)" and named_values: "distinct (map snd tab)" and every_value: "v \<in> snd ` set tab"
begin

lemma find_name: "(t, v) \<in> set tab \<Longrightarrow> List.find (\<lambda>n. fst n = t) tab = Some (t, v)"
  using table_names by (induction tab) force+

lemma find_value: "(t, v) \<in> set tab \<Longrightarrow> List.find (\<lambda>n. snd n = v) tab = Some (t, v)"
  using named_values by (induction tab) force+

lemma parse_iff: "parse_in tab t = Some v \<longleftrightarrow> name_in tab v = t"
proof -
  obtain t' where t': "(t', v) \<in> set tab" using every_value [of v] by auto
  have "parse_in tab t = Some v \<Longrightarrow> (t, v) \<in> set tab"
    by (auto simp: parse_in_def find_Some_iff in_set_conv_nth) (metis fst_conv)
  with t' find_value [OF t'] find_value [of t v] find_name [OF t'] show ?thesis
    by (auto simp: parse_in_def name_in_def)
qed

end

interpretation reasons: name_table kReasons
proof
  show "v \<in> snd ` set kReasons" for v by (cases v) (simp_all add: kReasons_def)
qed (simp_all add: kReasons_def)

interpretation events: name_table kEvents
proof
  show "v \<in> snd ` set kEvents" for v by (cases v) (simp_all add: kEvents_def)
qed (simp_all add: kEvents_def)

interpretation causes: name_table kResetCauses
proof
  show "v \<in> snd ` set kResetCauses" for v by (cases v) (simp_all add: kResetCauses_def)
qed (simp_all add: kResetCauses_def)

text \<open>
  A token parses to a reason, an event, a reset cause or a log level exactly when it is the
  name that value prints as; so every value has one name, no two share one, and what the console
  prints it also accepts.
\<close>

theorem names_parse_back:
  "(parse_status_reason t = Some r \<longleftrightarrow> status_reason_name r = t) \<and>
   (parse_event_type t = Some e \<longleftrightarrow> event_type_name e = t) \<and>
   (parse_reset_cause t = Some c \<longleftrightarrow> reset_cause_name c = t) \<and>
   (parse_log_level t = Some l \<longleftrightarrow> log_level_name l = t)"
proof -
  have "parse_log_level (log_level_name l) = Some l" by (cases l) (simp_all add: parse_log_level_def)
  moreover have "parse_log_level t = Some l \<Longrightarrow> log_level_name l = t"
    unfolding parse_log_level_def by (drule find_Some_iff [THEN iffD1]) auto
  ultimately show ?thesis
    unfolding parse_status_reason_def status_reason_name_def parse_event_type_def event_type_name_def
      parse_reset_cause_def reset_cause_name_def
    using reasons.parse_iff events.parse_iff causes.parse_iff by (intro conjI iffI) auto
qed

end
