(* ===== verification/NodeContext.thy ===== *)
theory NodeContext
  imports CommandGate Reassembly Names
begin

text \<open>
  What one node owns on the protocol side (\<open>lib/lran-node\<close>: \<open>context.h\<close>, \<open>context.cpp\<close>).

  \<open>gate\<close> and \<open>reassembler\<close> hold a pointer to the context's own \<open>counters\<close>: the model keeps the
  counters once, in the context, and \<open>on\_gate\<close> and \<open>on\_reassembler\<close> lend them to each call. The
  random source is a function pointer with hidden state: a step on a state of its own, \<open>None\<close> for
  a null pointer.
\<close>

section \<open>State (context.h)\<close>

type_synonym 'r RandomFn = "('r \<Rightarrow> u32 \<times> 'r) option"

datatype AfterAck = AA_None | AA_Status | AA_ConfigReadback | AA_Reboot

record PendingCommand =
  pd_active :: bool
  pd_peer :: NodeId
  pd_seq :: Seq
  pd_cmd :: u8
  pd_result :: AckResult
  pd_detail :: u8
  pd_after :: AfterAck
  pd_start_ms :: u32

definition PendingCommand_init :: PendingCommand where
  "PendingCommand_init = \<lparr>pd_active = False, pd_peer = 0, pd_seq = 0, pd_cmd = 0, pd_result = AR_Accepted,
     pd_detail = 0, pd_after = AA_None, pd_start_ms = 0\<rparr>"

record HexPending =
  hp_active :: bool
  hp_due_ms :: u32
  hp_peer :: NodeId
  hp_seq :: Seq

definition HexPending_init :: HexPending where
  "HexPending_init = \<lparr>hp_active = False, hp_due_ms = 0, hp_peer = 0, hp_seq = 0\<rparr>"

abbreviation kI16NotAvailable :: i16 where "kI16NotAvailable \<equiv> 0x8000"

record Context =
  cx_id :: NodeId
  cx_proto_ver :: u8
  cx_key :: bytes
  cx_ctx_id :: CtxId
  cx_tx_seq :: Seq
  cx_counters :: Counters
  cx_gate :: CommandGate
  cx_reassembler :: Reassembler
  cx_rx_chunk :: u8
  cx_heard :: bool
  cx_last_rssi_dbm :: i16
  cx_last_snr_db10 :: i16
  cx_pending :: PendingCommand
  cx_hex_pending :: HexPending
  cx_phy_revert_detail :: u16
  cx_config_change_owed :: bool
  cx_unhandled :: u32
  cx_executions :: u32
  cx_hex_requests :: u32

definition Context_init :: Context where
  "Context_init = \<lparr>cx_id = 0, cx_proto_ver = kProtoVer, cx_key = replicate kNodeKeyLen 0, cx_ctx_id = 0,
     cx_tx_seq = 1, cx_counters = Counters_init, cx_gate = CommandGate_new (Some Counters_init),
     cx_reassembler = Reassembler_new (Some Counters_init) (replicate kMaxPayloadPlain 0) (replicate kMaxPayloadPlain 0),
     cx_rx_chunk = 0, cx_heard = False, cx_last_rssi_dbm = kI16NotAvailable, cx_last_snr_db10 = kI16NotAvailable,
     cx_pending = PendingCommand_init, cx_hex_pending = HexPending_init, cx_phy_revert_detail = 0,
     cx_config_change_owed = False, cx_unhandled = 0, cx_executions = 0, cx_hex_requests = 0\<rparr>"

section \<open>Calls on the gate and the reassembler\<close>

definition on_gate :: "(CommandGate \<Rightarrow> 'r \<times> CommandGate) \<Rightarrow> Context \<Rightarrow> 'r \<times> Context" where
  "on_gate f c =
     (let (r, g) = f ((cx_gate c)\<lparr>cg_counters := Some (cx_counters c)\<rparr>)
      in (r, c\<lparr>cx_gate := g, cx_counters := (case cg_counters g of None \<Rightarrow> cx_counters c | Some k \<Rightarrow> k)\<rparr>))"

definition on_reassembler :: "(Reassembler \<Rightarrow> 'r \<times> Reassembler) \<Rightarrow> Context \<Rightarrow> 'r \<times> Context" where
  "on_reassembler f c =
     (let (r, a) = f ((cx_reassembler c)\<lparr>ra_counters := Some (cx_counters c)\<rparr>)
      in (r, c\<lparr>cx_reassembler := a, cx_counters := (case ra_counters a of None \<Rightarrow> cx_counters c | Some k \<Rightarrow> k)\<rparr>))"

section \<open>Operations (context.cpp)\<close>

text \<open>\<open>for (i = 0; i < 16; ++i)\<close>, the first non-zero draw.\<close>

fun draw_ctx_id :: "nat \<Rightarrow> 'r RandomFn \<Rightarrow> 'r \<Rightarrow> CtxId \<times> 'r" where
  "draw_ctx_id 0 random st = (1, st)"
| "draw_ctx_id (Suc n) random st =
     (let (v, st) = (case random of None \<Rightarrow> (0, st) | Some f \<Rightarrow> f st)
      in if v \<noteq> 0 then (v, st) else draw_ctx_id n random st)"

definition new_ctx_id :: "'r RandomFn \<Rightarrow> 'r \<Rightarrow> CtxId \<times> 'r" where
  "new_ctx_id random st = draw_ctx_id 16 random st"

definition reset_context :: "'r RandomFn \<Rightarrow> 'r \<Rightarrow> Context \<Rightarrow> Context \<times> 'r" where
  "reset_context random st c =
     (let (v, st) = new_ctx_id random st;
          c = c\<lparr>cx_ctx_id := v\<rparr>;
          c = snd (on_gate (\<lambda>g. ((), cg_reset_context v g)) c);
          c = c\<lparr>cx_tx_seq := 1\<rparr>;
          c = snd (on_reassembler (\<lambda>r. ((), ra_forget_completed (ra_reset r))) c)
      in (c\<lparr>cx_rx_chunk := 0, cx_pending := PendingCommand_init, cx_hex_pending := HexPending_init\<rparr>, st))"

text \<open>\<open>for (i = 0; i < 16 && next == c.ctx\_id; ++i) next = new\_ctx\_id(random)\<close>.\<close>

fun redraw_ctx_id :: "nat \<Rightarrow> 'r RandomFn \<Rightarrow> CtxId \<Rightarrow> CtxId \<Rightarrow> 'r \<Rightarrow> CtxId \<times> 'r" where
  "redraw_ctx_id 0 random old nxt st = (nxt, st)"
| "redraw_ctx_id (Suc n) random old nxt st =
     (if nxt \<noteq> old then (nxt, st)
      else let (nxt, st) = new_ctx_id random st in redraw_ctx_id n random old nxt st)"

definition roll_context :: "'r RandomFn \<Rightarrow> 'r \<Rightarrow> Context \<Rightarrow> Context \<times> 'r" where
  "roll_context random st c =
     (let (nxt, st) = new_ctx_id random st;
          (nxt, st) = redraw_ctx_id 16 random (cx_ctx_id c) nxt st;
          nxt = (if nxt = cx_ctx_id c then (if cx_ctx_id c = 0xFFFFFFFF then 1 else cx_ctx_id c + 1) else nxt);
          c = c\<lparr>cx_ctx_id := nxt\<rparr>;
          c = snd (on_gate (\<lambda>g. ((), cg_reset_context nxt g)) c)
      in (c\<lparr>cx_tx_seq := 1\<rparr>, st))"

section \<open>Lemmas\<close>

lemma new_ctx_id_nonzero: "fst (new_ctx_id random st) \<noteq> 0"
proof -
  have "fst (draw_ctx_id n random st) \<noteq> 0" for n
    by (induction n arbitrary: st) (auto simp: Let_def split: option.splits prod.splits)
  then show ?thesis by (simp add: new_ctx_id_def)
qed

lemma redraw_nonzero: "nxt \<noteq> 0 \<Longrightarrow> fst (redraw_ctx_id n random old nxt st) \<noteq> 0"
proof (induction n arbitrary: nxt st)
  case (Suc n)
  then show ?case using new_ctx_id_nonzero [of random st] by (auto simp: Let_def split: prod.splits)
qed simp

lemma word_succ_differs: "w + 1 \<noteq> w" "w \<noteq> 0xFFFFFFFF \<Longrightarrow> w + 1 \<noteq> 0" for w :: u32
proof -
  show "w + 1 \<noteq> w" by simp
  show "w + 1 \<noteq> 0" if "w \<noteq> 0xFFFFFFFF"
  proof
    assume "w + 1 = 0"
    then have "w = - 1" by (simp add: eq_neg_iff_add_eq_0)
    with that show False by simp
  qed
qed

text \<open>What a call on the gate leaves alone.\<close>

lemma on_gate_keeps [simp]:
  "cx_id (snd (on_gate f c)) = cx_id c" "cx_proto_ver (snd (on_gate f c)) = cx_proto_ver c"
  "cx_key (snd (on_gate f c)) = cx_key c" "cx_ctx_id (snd (on_gate f c)) = cx_ctx_id c"
  "cx_tx_seq (snd (on_gate f c)) = cx_tx_seq c" "cx_reassembler (snd (on_gate f c)) = cx_reassembler c"
  "cx_rx_chunk (snd (on_gate f c)) = cx_rx_chunk c"
  "cx_pending (snd (on_gate f c)) = cx_pending c" "cx_hex_pending (snd (on_gate f c)) = cx_hex_pending c"
  "cx_phy_revert_detail (snd (on_gate f c)) = cx_phy_revert_detail c"
  "cx_config_change_owed (snd (on_gate f c)) = cx_config_change_owed c"
  "cx_executions (snd (on_gate f c)) = cx_executions c"
  "cx_unhandled (snd (on_gate f c)) = cx_unhandled c"
  "cx_hex_requests (snd (on_gate f c)) = cx_hex_requests c"
  by (simp_all add: on_gate_def split_beta)

lemma roll_context_parts:
  assumes "roll_context random st c = (c', st')"
  shows "cx_ctx_id c' \<noteq> cx_ctx_id c" "cx_ctx_id c' \<noteq> 0" "cx_tx_seq c' = 1"
    "cg_ctx_id (cx_gate c') = cx_ctx_id c'" "cg_count (cx_gate c') = 0" "cg_high_water (cx_gate c') = 0"
    "\<not> cg_any_in_flight (cx_gate c')" "cx_pending c' = cx_pending c" "cx_hex_pending c' = cx_hex_pending c"
    "cx_reassembler c' = cx_reassembler c" "cx_counters c' = cx_counters c" "cx_id c' = cx_id c"
    "cx_key c' = cx_key c" "cx_proto_ver c' = cx_proto_ver c" "cx_executions c' = cx_executions c"
proof -
  let ?nxt = "fst (redraw_ctx_id 16 random (cx_ctx_id c) (fst (new_ctx_id random st)) (snd (new_ctx_id random st)))"
  have nz: "?nxt \<noteq> 0" by (rule redraw_nonzero) (rule new_ctx_id_nonzero)
  have id: "cx_ctx_id c' = (if ?nxt = cx_ctx_id c then (if cx_ctx_id c = 0xFFFFFFFF then 1 else cx_ctx_id c + 1) else ?nxt)"
    using assms by (auto simp: roll_context_def Let_def split_beta)
  show "cx_ctx_id c' \<noteq> cx_ctx_id c" unfolding id by simp
  show "cx_ctx_id c' \<noteq> 0" unfolding id using nz word_succ_differs(2) [of "cx_ctx_id c"] by simp
  show "cx_tx_seq c' = 1" "cg_ctx_id (cx_gate c') = cx_ctx_id c'" "cg_count (cx_gate c') = 0"
    "cg_high_water (cx_gate c') = 0" "\<not> cg_any_in_flight (cx_gate c')" "cx_pending c' = cx_pending c"
    "cx_hex_pending c' = cx_hex_pending c" "cx_reassembler c' = cx_reassembler c"
    "cx_counters c' = cx_counters c" "cx_id c' = cx_id c" "cx_key c' = cx_key c"
    "cx_proto_ver c' = cx_proto_ver c" "cx_executions c' = cx_executions c"
    using assms
    by (auto simp: roll_context_def Let_def split_beta on_gate_def cg_reset_context_def cg_any_in_flight_def)
qed

text \<open>
  C24: a context roll always takes effect, whatever the random source returns, a source that is
  missing or stuck included: the new context id is non-zero and differs from the old one, the
  command gate starts empty under it and the status sequence at 1. A pending command or HEX
  transaction, the reassembler and the counters survive; a reboot's context drops all but the
  counters.
\<close>

theorem roll_always_changes_context:
  assumes "roll_context random st c = (c', st')" "reset_context random st c = (c2, st2)"
  shows "cx_ctx_id c' \<noteq> cx_ctx_id c \<and> cx_ctx_id c' \<noteq> 0 \<and> cx_tx_seq c' = 1 \<and>
    cg_ctx_id (cx_gate c') = cx_ctx_id c' \<and> cg_count (cx_gate c') = 0 \<and> cg_high_water (cx_gate c') = 0 \<and>
    cx_pending c' = cx_pending c \<and> cx_hex_pending c' = cx_hex_pending c \<and>
    cx_reassembler c' = cx_reassembler c \<and> cx_counters c' = cx_counters c \<and>
    cx_ctx_id c2 \<noteq> 0 \<and> cx_tx_seq c2 = 1 \<and> cg_count (cx_gate c2) = 0 \<and> \<not> pd_active (cx_pending c2) \<and>
    \<not> hp_active (cx_hex_pending c2) \<and> \<not> ra_active (cx_reassembler c2) \<and> cx_counters c2 = cx_counters c"
proof -
  have "cx_ctx_id c2 \<noteq> 0 \<and> cx_tx_seq c2 = 1 \<and> cg_count (cx_gate c2) = 0 \<and> \<not> pd_active (cx_pending c2) \<and>
    \<not> hp_active (cx_hex_pending c2) \<and> \<not> ra_active (cx_reassembler c2) \<and> cx_counters c2 = cx_counters c"
    using assms(2) new_ctx_id_nonzero [of random st]
    by (auto simp: reset_context_def Let_def split_beta on_gate_def on_reassembler_def cg_reset_context_def
        ra_forget_completed_def ra_reset_def PendingCommand_init_def HexPending_init_def)
  with roll_context_parts [OF assms(1)] show ?thesis by simp
qed

theorem roll_always_changes_context_witness:
  "cx_ctx_id (fst (roll_context (Some (\<lambda>u. (7, u))) () (Context_init\<lparr>cx_ctx_id := 7\<rparr>))) \<noteq> 7 \<and>
   cx_ctx_id (fst (roll_context None () (Context_init\<lparr>cx_ctx_id := 1\<rparr>))) \<noteq> 1"
  using roll_always_changes_context [OF prod.collapse [symmetric] prod.collapse [symmetric],
      of "Some (\<lambda>u. (7, u))" "()" "Context_init\<lparr>cx_ctx_id := 7\<rparr>"]
    roll_always_changes_context [OF prod.collapse [symmetric] prod.collapse [symmetric],
      of None "()" "Context_init\<lparr>cx_ctx_id := 1\<rparr>"]
  by simp

end
