(* ===== verification/Outbox.thy ===== *)
theory Outbox
  imports Prelude
begin

text \<open>
  Encoded frames waiting for the radio (\<open>lib/lran-node\<close>: \<open>outbox.h\<close>, \<open>outbox.cpp\<close>): a ring of
  sixteen fixed buffers, and the bounded queue it implements.
\<close>

section \<open>The ring (outbox.h, outbox.cpp)\<close>

abbreviation kOutboxDepth :: nat where "kOutboxDepth \<equiv> 16"
abbreviation kOutFrameMax :: nat where "kOutFrameMax \<equiv> 255"

record OutFrame =
  of_bytes :: bytes
  of_len :: nat

record Outbox =
  ob_frames :: "OutFrame list"
  ob_head :: nat
  ob_count :: nat

definition Outbox_new :: Outbox where
  "Outbox_new = \<lparr>ob_frames = replicate kOutboxDepth \<lparr>of_bytes = replicate kOutFrameMax 0, of_len = 0\<rparr>,
     ob_head = 0, ob_count = 0\<rparr>"

definition free_slots :: "Outbox \<Rightarrow> nat" where
  "free_slots ob = kOutboxDepth - ob_count ob"

definition ob_push :: "bytes \<Rightarrow> Outbox \<Rightarrow> bool \<times> Outbox" where
  "ob_push bs ob =
     (if ob_count ob = kOutboxDepth \<or> length bs > kOutFrameMax then (False, ob)
      else let i = (ob_head ob + ob_count ob) mod kOutboxDepth;
               f = ob_frames ob ! i
        in (True, ob\<lparr>ob_frames := (ob_frames ob)[i := \<lparr>of_bytes = blit (of_bytes f) 0 bs, of_len = length bs\<rparr>],
                     ob_count := ob_count ob + 1\<rparr>))"

text \<open>\<open>pop\<close> fills the caller's \<open>OutFrame\<close>: its first \<open>len\<close> bytes and \<open>len\<close>.\<close>

definition ob_pop :: "OutFrame \<Rightarrow> Outbox \<Rightarrow> (bool \<times> OutFrame) \<times> Outbox" where
  "ob_pop out ob =
     (if ob_count ob = 0 then ((False, out), ob)
      else let f = ob_frames ob ! ob_head ob
        in ((True, \<lparr>of_bytes = blit (of_bytes out) 0 (take (of_len f) (of_bytes f)), of_len = of_len f\<rparr>),
            ob\<lparr>ob_head := (ob_head ob + 1) mod kOutboxDepth, ob_count := ob_count ob - 1\<rparr>))"

section \<open>A bounded queue\<close>

text \<open>
  What the engine relies on of its outbox: a push takes a frame of at most \<open>width\<close> bytes exactly
  when there is room, at the back, and leaves the queue alone otherwise.
\<close>

locale frame_queue =
  fixes push :: "bytes \<Rightarrow> 'q \<Rightarrow> bool \<times> 'q"
    and pop :: "'q \<Rightarrow> bytes option \<times> 'q"
    and room :: "'q \<Rightarrow> nat"
    and contents :: "'q \<Rightarrow> bytes list"
    and q_inv :: "'q \<Rightarrow> bool"
    and width :: nat
  assumes push_fits: "q_inv q \<Longrightarrow> 0 < room q \<Longrightarrow> length bs \<le> width \<Longrightarrow>
      fst (push bs q) \<and> contents (snd (push bs q)) = contents q @ [bs]"
    and push_full: "q_inv q \<Longrightarrow> room q = 0 \<or> width < length bs \<Longrightarrow> push bs q = (False, q)"
    and push_inv: "q_inv q \<Longrightarrow> q_inv (snd (push bs q))"
    and push_room: "q_inv q \<Longrightarrow> room (snd (push bs q)) = (if fst (push bs q) then room q - 1 else room q)"
    and pop_front: "q_inv q \<Longrightarrow> contents q = bs # rest \<Longrightarrow>
      fst (pop q) = Some bs \<and> contents (snd (pop q)) = rest"
    and pop_empty: "q_inv q \<Longrightarrow> contents q = [] \<Longrightarrow> pop q = (None, q)"
    and pop_inv: "q_inv q \<Longrightarrow> q_inv (snd (pop q))"
begin

definition push_all :: "bytes list \<Rightarrow> 'q \<Rightarrow> 'q" where
  "push_all fs q = foldl (\<lambda>q bs. snd (push bs q)) q fs"

definition pop_all :: "nat \<Rightarrow> 'q \<Rightarrow> 'q" where
  "pop_all n q = ((\<lambda>q. snd (pop q)) ^^ n) q"

lemma push_all_fits:
  "q_inv q \<Longrightarrow> length fs \<le> room q \<Longrightarrow> \<forall>f\<in>set fs. length f \<le> width \<Longrightarrow>
   contents (push_all fs q) = contents q @ fs \<and> q_inv (push_all fs q) \<and>
   room (push_all fs q) = room q - length fs"
proof (induction fs arbitrary: q)
  case (Cons f fs)
  have f: "fst (push f q)" "contents (snd (push f q)) = contents q @ [f]"
    using push_fits [OF Cons.prems(1), of f] Cons.prems by auto
  have "length fs \<le> room (snd (push f q))"
    using push_room [OF Cons.prems(1), of f] f(1) Cons.prems(2) by simp
  from Cons.IH [OF push_inv [OF Cons.prems(1)] this] Cons.prems f push_room [OF Cons.prems(1), of f]
  show ?case by (auto simp: push_all_def)
qed (simp add: push_all_def)

lemma pop_all_drops:
  "q_inv q \<Longrightarrow> q_inv (pop_all n q) \<and> contents (pop_all n q) = drop n (contents q)"
proof (induction n)
  case (Suc n)
  let ?q = "pop_all n q"
  have i: "q_inv ?q" "contents ?q = drop n (contents q)" using Suc by auto
  show ?case
  proof (cases "contents ?q")
    case Nil
    with i pop_empty [OF i(1)] show ?thesis by (simp add: pop_all_def drop_Suc tl_drop)
  next
    case (Cons bs rest)
    with i pop_front [OF i(1) Cons] pop_inv [OF i(1)] show ?thesis
      by (simp add: pop_all_def drop_Suc tl_drop) (metis list.sel(3) tl_drop)
  qed
qed (simp add: pop_all_def)

text \<open>Frames leave in the order they came, however pushes and pops interleave.\<close>

lemma fifo:
  assumes "q_inv q" "length fs \<le> room q" "\<forall>f\<in>set fs. length f \<le> width"
  shows "contents (pop_all (length (contents q)) (push_all fs q)) = fs"
  using push_all_fits [OF assms] pop_all_drops [of "push_all fs q" "length (contents q)"] by simp

end

section \<open>The ring is one\<close>

definition ob_inv :: "Outbox \<Rightarrow> bool" where
  "ob_inv ob \<longleftrightarrow> length (ob_frames ob) = kOutboxDepth \<and> ob_head ob < kOutboxDepth \<and> ob_count ob \<le> kOutboxDepth \<and>
     (\<forall>f\<in>set (ob_frames ob). length (of_bytes f) = kOutFrameMax \<and> of_len f \<le> kOutFrameMax)"

definition frame_bytes :: "OutFrame \<Rightarrow> bytes" where
  "frame_bytes f = take (of_len f) (of_bytes f)"

definition ob_queue :: "Outbox \<Rightarrow> bytes list" where
  "ob_queue ob = map (\<lambda>i. frame_bytes (ob_frames ob ! ((ob_head ob + i) mod kOutboxDepth))) [0..<ob_count ob]"

definition ob_take :: "Outbox \<Rightarrow> bytes option \<times> Outbox" where
  "ob_take ob =
     (case ob_pop \<lparr>of_bytes = replicate kOutFrameMax 0, of_len = 0\<rparr> ob of
        ((ok, out), ob') \<Rightarrow> (if ok then Some (frame_bytes out) else None, ob'))"

lemma ob_new: "ob_inv Outbox_new" "ob_queue Outbox_new = []"
  by (simp_all add: ob_inv_def Outbox_new_def ob_queue_def)

lemma ring_index:
  "h < kOutboxDepth \<Longrightarrow> i < kOutboxDepth \<Longrightarrow>
   (h + i) mod kOutboxDepth = (if h + i < kOutboxDepth then h + i else h + i - kOutboxDepth)"
  by (simp add: le_mod_geq)

lemma ring_index_inj:
  "h < kOutboxDepth \<Longrightarrow> i < kOutboxDepth \<Longrightarrow> j < kOutboxDepth \<Longrightarrow>
   (h + i) mod kOutboxDepth = (h + j) mod kOutboxDepth \<longleftrightarrow> i = j"
  by (simp add: ring_index) arith

lemma ob_push_queue:
  assumes "ob_inv ob" "0 < free_slots ob" "length bs \<le> kOutFrameMax"
  shows "fst (ob_push bs ob)" "ob_queue (snd (ob_push bs ob)) = ob_queue ob @ [bs]"
proof -
  let ?at = "\<lambda>i. (ob_head ob + i) mod kOutboxDepth"
  have c: "ob_count ob < kOutboxDepth" "ob_head ob < kOutboxDepth" "length (ob_frames ob) = kOutboxDepth"
    using assms(1,2) by (auto simp: ob_inv_def free_slots_def)
  have old: "?at i \<noteq> ?at (ob_count ob)" if "i < ob_count ob" for i
    using that c ring_index_inj [of "ob_head ob" i "ob_count ob"] by auto
  then have new: "?at (ob_count ob) \<noteq> ?at i" if "i < ob_count ob" for i using that by metis
  have "ob_frames ob ! ?at (ob_count ob) \<in> set (ob_frames ob)" using c(3) by (intro nth_mem) simp
  then have "length (of_bytes (ob_frames ob ! ?at (ob_count ob))) = kOutFrameMax"
    using assms(1) by (simp add: ob_inv_def)
  then have "frame_bytes \<lparr>of_bytes = blit (of_bytes (ob_frames ob ! ?at (ob_count ob))) 0 bs, of_len = length bs\<rparr> = bs"
    using assms(3) by (simp add: frame_bytes_def)
  with c new assms(3) show "fst (ob_push bs ob)" "ob_queue (snd (ob_push bs ob)) = ob_queue ob @ [bs]"
    by (auto simp: ob_push_def ob_queue_def Let_def)
qed

lemma ob_push_inv: "ob_inv ob \<Longrightarrow> ob_inv (snd (ob_push bs ob))"
  by (auto simp: ob_push_def ob_inv_def Let_def dest!: set_update_subset_insert [THEN subsetD])

lemma ob_pop_queue:
  assumes "ob_inv ob" "ob_queue ob = bs # rest"
  shows "fst (ob_take ob) = Some bs" "ob_queue (snd (ob_take ob)) = rest"
proof -
  obtain n where n: "ob_count ob = Suc n" using assms(2) by (cases "ob_count ob") (auto simp: ob_queue_def)
  have h: "ob_head ob < kOutboxDepth" using assms(1) by (simp add: ob_inv_def)
  let ?f = "ob_frames ob ! ob_head ob"
  have q: "ob_queue ob = frame_bytes ?f # map (\<lambda>i. frame_bytes (ob_frames ob ! ((ob_head ob + Suc i) mod kOutboxDepth))) [0..<n]"
    using n h by (simp add: ob_queue_def upt_conv_Cons map_Suc_upt [symmetric] comp_def del: upt_Suc map_Suc_upt)
  have "?f \<in> set (ob_frames ob)" using assms(1) by (auto simp: ob_inv_def intro: nth_mem)
  then have "length (of_bytes ?f) = kOutFrameMax" "of_len ?f \<le> kOutFrameMax" using assms(1) by (auto simp: ob_inv_def)
  then show "fst (ob_take ob) = Some bs"
    using q n assms(2) by (simp add: ob_take_def ob_pop_def frame_bytes_def Let_def)
  have "((ob_head ob + 1) mod kOutboxDepth + i) mod kOutboxDepth = (ob_head ob + Suc i) mod kOutboxDepth" for i
    by (simp add: mod_add_left_eq)
  with q n assms(2) show "ob_queue (snd (ob_take ob)) = rest"
    by (simp add: ob_take_def ob_pop_def ob_queue_def Let_def)
qed

lemma ob_take_empty: "ob_queue ob = [] \<Longrightarrow> ob_take ob = (None, ob)"
  by (simp add: ob_queue_def ob_take_def ob_pop_def)

lemma ob_take_inv: "ob_inv ob \<Longrightarrow> ob_inv (snd (ob_take ob))"
  by (auto simp: ob_take_def ob_pop_def ob_inv_def Let_def)

lemma free_slots_queue: "ob_inv ob \<Longrightarrow> free_slots ob = kOutboxDepth - length (ob_queue ob)"
  by (simp add: free_slots_def ob_queue_def)

interpretation outbox: frame_queue ob_push ob_take free_slots ob_queue ob_inv kOutFrameMax
proof
  fix q :: Outbox and bs :: bytes
  assume "ob_inv q" "0 < free_slots q" "length bs \<le> kOutFrameMax"
  then show "fst (ob_push bs q) \<and> ob_queue (snd (ob_push bs q)) = ob_queue q @ [bs]"
    using ob_push_queue by blast
next
  fix q :: Outbox and bs :: bytes
  assume "ob_inv q" "free_slots q = 0 \<or> kOutFrameMax < length bs"
  then show "ob_push bs q = (False, q)" by (auto simp: ob_push_def free_slots_def ob_inv_def)
next
  fix q :: Outbox and bs :: bytes
  show "free_slots (snd (ob_push bs q)) = (if fst (ob_push bs q) then free_slots q - 1 else free_slots q)"
    by (simp add: ob_push_def free_slots_def Let_def)
qed (use ob_push_inv ob_pop_queue ob_take_empty ob_take_inv in auto)

text \<open>
  The ring is a first-in first-out queue of at most sixteen frames. A push succeeds exactly
  when there is room and the frame fits a buffer, and then the frame is last; a refused push
  changes nothing; a pop hands out the oldest frame, byte for byte, and an empty ring hands out
  none.
\<close>

theorem outbox_is_fifo:
  assumes "ob_inv ob"
  shows "(fst (ob_push bs ob) \<longleftrightarrow> length (ob_queue ob) < kOutboxDepth \<and> length bs \<le> kOutFrameMax) \<and>
    ob_queue (snd (ob_push bs ob)) = (if fst (ob_push bs ob) then ob_queue ob @ [bs] else ob_queue ob) \<and>
    ob_inv (snd (ob_push bs ob)) \<and>
    (case ob_queue ob of
       [] \<Rightarrow> ob_take ob = (None, ob)
     | f # rest \<Rightarrow> fst (ob_take ob) = Some f \<and> ob_queue (snd (ob_take ob)) = rest \<and> ob_inv (snd (ob_take ob)))"
proof -
  have room: "0 < free_slots ob \<longleftrightarrow> length (ob_queue ob) < kOutboxDepth"
    using assms by (simp add: free_slots_queue)
  have push: "(fst (ob_push bs ob) \<longleftrightarrow> length (ob_queue ob) < kOutboxDepth \<and> length bs \<le> kOutFrameMax) \<and>
    ob_queue (snd (ob_push bs ob)) = (if fst (ob_push bs ob) then ob_queue ob @ [bs] else ob_queue ob)"
    using outbox.push_fits [OF assms, of bs] outbox.push_full [OF assms, of bs] room
    by (cases "0 < free_slots ob \<and> length bs \<le> kOutFrameMax") (auto simp: not_le)
  have "case ob_queue ob of
       [] \<Rightarrow> ob_take ob = (None, ob)
     | f # rest \<Rightarrow> fst (ob_take ob) = Some f \<and> ob_queue (snd (ob_take ob)) = rest \<and> ob_inv (snd (ob_take ob))"
    using outbox.pop_empty [OF assms] outbox.pop_front [OF assms] outbox.pop_inv [OF assms]
    by (simp split: list.split)
  with push outbox.push_inv [OF assms] show ?thesis by simp
qed

theorem outbox_is_fifo_witness:
  "let ob = snd (ob_push [3] (snd (ob_push [1, 2] Outbox_new))) in
   fst (ob_take ob) = Some [1, 2] \<and> ob_queue (snd (ob_take ob)) = [[3]]"
proof -
  let ?ob = "snd (ob_push [1, 2] Outbox_new)"
  have i: "ob_inv ?ob" "ob_queue ?ob = [[1, 2]]"
    using outbox_is_fifo [OF ob_new(1), of "[1, 2]"] ob_new(2) by auto
  then have j: "ob_inv (snd (ob_push [3] ?ob))" "ob_queue (snd (ob_push [3] ?ob)) = [[1, 2], [3]]"
    using outbox_is_fifo [OF i(1), of "[3]"] by auto
  from outbox_is_fifo [OF j(1)] j(2) show ?thesis by (simp add: Let_def)
qed

end
