(* ===== verification/NodeApp.thy ===== *)
theory NodeApp
  imports NodeContext Outbox PhyTrial
begin

text \<open>
  The state the node engine works on and what a firmware supplies to it (\<open>lib/lran-node\<close>:
  \<open>engine.h\<close>, \<open>application.h\<close>).

  A call of the engine reads and writes three objects: the engine with its outbox and the board's
  PHY trial, the context the call is about, and the application. The model passes them as one
  record, \<open>Sys\<close>. The virtual methods of \<open>Application\<close> are a record of functions: a method that
  takes a non-const \<open>Context\<close> returns it, and one that is not const returns the application's
  state. Log lines are not modelled, nor is the level that only selects them. \<open>cfg\_rx\_\<close>, a
  parsing buffer kept off the stack and overwritten before each use, is a local of the calls that
  use it.
\<close>

section \<open>The engine's state (engine.h)\<close>

abbreviation kMaxResults :: nat where "kMaxResults \<equiv> kMaxConfigAckMessages * kMaxConfigAckEntries"
abbreviation kUseStatusSeq :: u32 where "kUseStatusSeq \<equiv> 0x10000"

record 'b Engine =
  en_out :: Outbox
  en_mac :: "IMac option"
  en_answers_dropped :: u32
  en_restart_owed :: bool
  en_cfg_ack :: NodeConfigAckV1
  en_results :: "ConfigAckEntry list"
  en_results_dropped :: nat
  en_phy :: "'b PhyTrial"

definition kEmptyConfigAck :: NodeConfigAckV1 where
  "kEmptyConfigAck = \<lparr>nca_op = CO_Get, nca_more_follows = False, nca_persist_status = PS_Persisted, nca_entries = []\<rparr>"

definition Engine_new :: "Outbox \<Rightarrow> IMac option \<Rightarrow> 'b Engine" where
  "Engine_new ob hm = \<lparr>en_out = ob, en_mac = hm, en_answers_dropped = 0, en_restart_owed = False,
     en_cfg_ack = kEmptyConfigAck, en_results = [], en_results_dropped = 0, en_phy = PhyTrial_new None\<rparr>"

definition set_phy :: "'b PhyTrial option \<Rightarrow> 'b Engine \<Rightarrow> 'b Engine" where
  "set_phy phy e = e\<lparr>en_phy := (case phy of None \<Rightarrow> PhyTrial_new None | Some p \<Rightarrow> p)\<rparr>"

record ('b, 'a) Sys =
  sy_engine :: "'b Engine"
  sy_cx :: Context
  sy_app :: 'a

section \<open>The application (application.h)\<close>

abbreviation kAnswersCommands :: u8 where "kAnswersCommands \<equiv> 0x01"
abbreviation kAnswersConfig :: u8 where "kAnswersConfig \<equiv> 0x02"
abbreviation kAnswersHex :: u8 where "kAnswersHex \<equiv> 0x04"
abbreviation kRefusesAuthenticated :: u8 where "kRefusesAuthenticated \<equiv> 0x08"

record CommandOutcome =
  co_result :: AckResult
  co_detail :: u8
  co_after :: AfterAck
  co_deferred :: bool

text \<open>\<open>Answered\<close> carries what the method wrote to \<open>rsp\<close>.\<close>

datatype HexReply = HR_Answered bytes | HR_Pending

datatype AckDelivery = AD_Send | AD_Suppress | AD_Twice

record ('b, 'a) Application =
  ap_capabilities :: "Context \<Rightarrow> 'a \<Rightarrow> u8"
  ap_random :: "'a \<Rightarrow> 'a RandomFn"
  ap_on_poll :: "Header \<Rightarrow> bytes \<Rightarrow> u32 \<Rightarrow> ('b, 'a) Sys \<Rightarrow> bool \<times> ('b, 'a) Sys"
  ap_on_ping :: "Header \<Rightarrow> bytes \<Rightarrow> u8 \<Rightarrow> i16 \<Rightarrow> i16 \<Rightarrow> u32 \<Rightarrow> ('b, 'a) Sys \<Rightarrow> bool \<times> ('b, 'a) Sys"
  ap_execute :: "Command \<Rightarrow> u32 \<Rightarrow> Context \<Rightarrow> 'a \<Rightarrow> CommandOutcome \<times> Context \<times> 'a"
  ap_build_status :: "StatusReason \<Rightarrow> u32 \<Rightarrow> nat \<Rightarrow> Context \<Rightarrow> 'a \<Rightarrow> (bytes \<times> SchemaId) \<times> 'a"
  ap_build_event :: "EventType \<Rightarrow> u16 \<Rightarrow> u32 \<Rightarrow> nat \<Rightarrow> Context \<Rightarrow> 'a \<Rightarrow> (bytes \<times> SchemaId) \<times> Context \<times> 'a"
  ap_config_set :: "ConfigEntry \<Rightarrow> Context \<Rightarrow> 'a \<Rightarrow> ConfigAckEntry option \<times> Context \<times> 'a"
  ap_config_get :: "u16 \<Rightarrow> Context \<Rightarrow> 'a \<Rightarrow> ConfigAckEntry option \<times> 'a"
  ap_config_list :: "Context \<Rightarrow> 'a \<Rightarrow> ConfigAckEntry list \<times> 'a"
  ap_config_restore_defaults :: "Context \<Rightarrow> 'a \<Rightarrow> Context \<times> 'a"
  ap_config_unpersisted :: "Context \<Rightarrow> 'a \<Rightarrow> bool"
  ap_phy_slot :: "Context \<Rightarrow> 'a \<Rightarrow> nat"
  ap_phy_members :: "'a \<Rightarrow> u8"
  ap_hex_forward :: "bytes \<Rightarrow> nat \<Rightarrow> u32 \<Rightarrow> Context \<Rightarrow> 'a \<Rightarrow> HexReply \<times> Context \<times> 'a"
  ap_hex_timeout_ms :: "Context \<Rightarrow> 'a \<Rightarrow> u32"
  ap_withhold :: "string \<Rightarrow> Header \<Rightarrow> Context \<Rightarrow> 'a \<Rightarrow> bool \<times> Context \<times> 'a"
  ap_force_reject_ctx :: "Header \<Rightarrow> Context \<Rightarrow> 'a \<Rightarrow> bool \<times> Context \<times> 'a"
  ap_fresh_ack :: "Seq \<Rightarrow> Context \<Rightarrow> 'a \<Rightarrow> AckDelivery \<times> Context \<times> 'a"

text \<open>The defaults of the virtual methods; \<open>capabilities\<close> and \<open>random\<close> have none.\<close>

definition Application_default :: "(Context \<Rightarrow> 'a \<Rightarrow> u8) \<Rightarrow> ('a \<Rightarrow> 'a RandomFn) \<Rightarrow> ('b, 'a) Application" where
  "Application_default caps random =
     \<lparr>ap_capabilities = caps, ap_random = random,
      ap_on_poll = (\<lambda>h p now s. (False, s)),
      ap_on_ping = (\<lambda>h p fragments rssi snr now s. (False, s)),
      ap_execute = (\<lambda>cmd now c a. (\<lparr>co_result = AR_RejectedUnknownCmd, co_detail = 0, co_after = AA_None,
                                     co_deferred = False\<rparr>, c, a)),
      ap_build_status = (\<lambda>reason now cap c a. (([], kSchemaNone), a)),
      ap_build_event = (\<lambda>event detail now cap c a. (([], kSchemaNone), c, a)),
      ap_config_set = (\<lambda>e c a. (None, c, a)),
      ap_config_get = (\<lambda>i c a. (None, a)),
      ap_config_list = (\<lambda>c a. ([], a)),
      ap_config_restore_defaults = (\<lambda>c a. (c, a)),
      ap_config_unpersisted = (\<lambda>c a. False),
      ap_phy_slot = (\<lambda>c a. 0),
      ap_phy_members = (\<lambda>a. 0x01),
      ap_hex_forward = (\<lambda>req cap now c a. (HR_Pending, c, a)),
      ap_hex_timeout_ms = (\<lambda>c a. 1000),
      ap_withhold = (\<lambda>what h c a. (False, c, a)),
      ap_force_reject_ctx = (\<lambda>h c a. (False, c, a)),
      ap_fresh_ack = (\<lambda>seq c a. (AD_Send, c, a))\<rparr>"

section \<open>Reaching one object of the three\<close>

definition on_cx :: "(Context \<Rightarrow> 'r \<times> Context) \<Rightarrow> ('b, 'a) Sys \<Rightarrow> 'r \<times> ('b, 'a) Sys" where
  "on_cx f s = (let (r, c) = f (sy_cx s) in (r, s\<lparr>sy_cx := c\<rparr>))"

definition set_cx :: "(Context \<Rightarrow> Context) \<Rightarrow> ('b, 'a) Sys \<Rightarrow> ('b, 'a) Sys" where
  "set_cx f s = s\<lparr>sy_cx := f (sy_cx s)\<rparr>"

definition set_en :: "('b Engine \<Rightarrow> 'b Engine) \<Rightarrow> ('b, 'a) Sys \<Rightarrow> ('b, 'a) Sys" where
  "set_en f s = s\<lparr>sy_engine := f (sy_engine s)\<rparr>"

definition on_phy :: "('b PhyTrial \<Rightarrow> 'b PhyTrial) \<Rightarrow> ('b, 'a) Sys \<Rightarrow> ('b, 'a) Sys" where
  "on_phy f = set_en (\<lambda>e. e\<lparr>en_phy := f (en_phy e)\<rparr>)"

definition ask :: "(Context \<Rightarrow> 'a \<Rightarrow> 'r \<times> Context \<times> 'a) \<Rightarrow> ('b, 'a) Sys \<Rightarrow> 'r \<times> ('b, 'a) Sys" where
  "ask f s = (let (r, c, a) = f (sy_cx s) (sy_app s) in (r, s\<lparr>sy_cx := c, sy_app := a\<rparr>))"

definition ask_const :: "(Context \<Rightarrow> 'a \<Rightarrow> 'r \<times> 'a) \<Rightarrow> ('b, 'a) Sys \<Rightarrow> 'r \<times> ('b, 'a) Sys" where
  "ask_const f s = (let (r, a) = f (sy_cx s) (sy_app s) in (r, s\<lparr>sy_app := a\<rparr>))"

lemmas sys_defs = on_cx_def set_cx_def set_en_def on_phy_def ask_def ask_const_def

end
