(* ===== verification/NodeEngine.thy ===== *)
theory NodeEngine
  imports NodeApp
begin

text \<open>
  The node-side protocol engine (\<open>lib/lran-node\<close>: \<open>engine.h\<close>, \<open>engine.cpp\<close>): the receive ladder,
  the sends, context rolls and commands, CONFIG, the HEX transport, boot and PHY reverts. Every
  operation is a function on \<open>Sys\<close>; \<open>bo\<close> is the board's blob store and \<open>ap\<close> its application. A local
  buffer the source leaves uninitialised starts as zeros: only the bytes a call wrote are read.
\<close>

definition header :: "Context \<Rightarrow> MsgType \<Rightarrow> NodeId \<Rightarrow> SchemaId \<Rightarrow> Header" where
  "header c type dst schema =
     Header_init\<lparr>h_ver := cx_proto_ver c, h_type := type, h_src := cx_id c, h_dst := dst,
                 h_ctx_id := cx_ctx_id c, h_schema := schema\<rparr>"

section \<open>Sends\<close>

definition encode_ctx :: "('b, 'a) Sys \<Rightarrow> EncodeCtx" where
  "encode_ctx s = \<lparr>ec_mac = en_mac (sy_engine s), ec_node_key = Some (cx_key (sy_cx s))\<rparr>"

text \<open>\<open>out\_->push(buf, n); ++c.counters.tx\_frames\<close>.\<close>

definition queue_frame :: "bytes \<Rightarrow> ('b, 'a) Sys \<Rightarrow> ('b, 'a) Sys" where
  "queue_frame bs s =
     set_cx (\<lambda>c. c\<lparr>cx_counters := (cx_counters c)\<lparr>tx_frames := tx_frames (cx_counters c) + 1\<rparr>\<rparr>)
       (set_en (\<lambda>e. e\<lparr>en_out := snd (ob_push bs (en_out e))\<rparr>) s)"

fun send_fragments :: "nat list \<Rightarrow> Header \<Rightarrow> bytes \<Rightarrow> u8 \<Rightarrow> ('b, 'a) Sys \<Rightarrow> bool \<times> ('b, 'a) Sys" where
  "send_fragments [] hdr payload chunk s = (True, s)"
| "send_fragments (i # is) hdr payload chunk s =
     (let (st, buf, n) = encode_fragment hdr payload i (unat chunk) (encode_ctx s) (replicate kMaxFrame 0)
      in if st \<noteq> St_Ok then (False, s)
         else send_fragments is hdr payload chunk (queue_frame (take n buf) s))"

definition send :: "Header \<Rightarrow> bytes \<Rightarrow> u8 \<Rightarrow> ('b, 'a) Sys \<Rightarrow> bool \<times> ('b, 'a) Sys" where
  "send hdr payload chunk s =
     (if chunk = 0 \<or> unat chunk \<ge> length payload then
        if free_slots (en_out (sy_engine s)) < 1 then (False, s)
        else let (st, buf, n) = encode hdr payload (encode_ctx s) (replicate kMaxFrame 0)
          in if st \<noteq> St_Ok then (False, s) else (True, queue_frame (take n buf) s)
      else let total = fragment_count (length payload) (unat chunk)
        in if total = 0 \<or> free_slots (en_out (sy_engine s)) < total then (False, s)
           else send_fragments [0..<total] hdr payload chunk s)"

definition count_dropped :: "('b, 'a) Sys \<Rightarrow> ('b, 'a) Sys" where
  "count_dropped = set_en (\<lambda>e. e\<lparr>en_answers_dropped := en_answers_dropped e + 1\<rparr>)"

text \<open>\<open>h.seq = c.tx\_seq++\<close>.\<close>

definition take_seq :: "('b, 'a) Sys \<Rightarrow> Seq \<times> ('b, 'a) Sys" where
  "take_seq = on_cx (\<lambda>c. (cx_tx_seq c, c\<lparr>cx_tx_seq := cx_tx_seq c + 1\<rparr>))"

definition send_ack :: "NodeId \<Rightarrow> Seq \<Rightarrow> AckResult \<Rightarrow> u8 \<Rightarrow> ('b, 'a) Sys \<Rightarrow> bool \<times> ('b, 'a) Sys" where
  "send_ack peer ack_seq result detail s =
     (let (st, payload, n) = serialize_CommandAck
            \<lparr>ca_ack_seq = ack_seq, ca_result = AckResult_u8 result, ca_detail = detail\<rparr> (replicate kCommandAckLen 0)
      in if st \<noteq> St_Ok then (False, s)
         else let h = header (sy_cx s) MT_CommandAck peer kSchemaNone;
                  (seq, s) = take_seq s;
                  (ok, s) = send (h\<lparr>h_seq := seq\<rparr>) (take (the n) payload) 0 s
           in if \<not> ok then (False, count_dropped s) else (True, s))"

definition send_fresh_ack ::
  "('b, 'a) Application \<Rightarrow> NodeId \<Rightarrow> Seq \<Rightarrow> AckResult \<Rightarrow> u8 \<Rightarrow> ('b, 'a) Sys \<Rightarrow> ('b, 'a) Sys" where
  "send_fresh_ack ap peer seq result detail s =
     (let (d, s) = ask (ap_fresh_ack ap seq) s
      in if d = AD_Suppress then s
         else let s = snd (send_ack peer seq result detail s)
           in if d = AD_Twice then snd (send_ack peer seq result detail s) else s)"

definition send_status ::
  "('b, 'a) Application \<Rightarrow> NodeId \<Rightarrow> StatusReason \<Rightarrow> u32 \<Rightarrow> ('b, 'a) Sys \<Rightarrow> bool \<times> ('b, 'a) Sys" where
  "send_status ap dst reason now_ms s =
     (let report_change = (cx_config_change_owed (sy_cx s) \<and> reason = SR_PollResponse);
          reason = (if report_change then SR_ConfigChange else reason);
          ((payload, schema), s) = ask_const (ap_build_status ap reason now_ms kMaxSchemaPayload) s;
          h = header (sy_cx s) MT_Status dst schema;
          (seq, s) = take_seq s;
          (ok, s) = (if payload = [] then (False, s) else send (h\<lparr>h_seq := seq\<rparr>) payload 0 s)
      in if \<not> ok then (False, count_dropped s)
         else (True, if report_change then set_cx (\<lambda>c. c\<lparr>cx_config_change_owed := False\<rparr>) s else s))"

definition send_event :: "NodeId \<Rightarrow> bytes \<Rightarrow> SchemaId \<Rightarrow> ('b, 'a) Sys \<Rightarrow> bool \<times> ('b, 'a) Sys" where
  "send_event dst payload schema s =
     (let h = header (sy_cx s) MT_Event dst schema;
          (seq, s) = take_seq s
      in send (h\<lparr>h_seq := seq\<rparr>) payload 0 s)"

definition send_config_ack :: "NodeId \<Rightarrow> NodeConfigAckV1 \<Rightarrow> u32 \<Rightarrow> ('b, 'a) Sys \<Rightarrow> bool \<times> ('b, 'a) Sys" where
  "send_config_ack dst ack reply_seq s =
     (let (st, payload, n) = serialize_NodeConfigAckV1 ack (replicate kMaxSchemaPayload 0)
      in if st \<noteq> St_Ok then (False, s)
         else let h = header (sy_cx s) MT_ConfigAck dst kSchemaNodeConfigV1;
                  (seq, s) = (if reply_seq = kUseStatusSeq then take_seq s else (ucast reply_seq, s));
                  (ok, s) = send (h\<lparr>h_seq := seq\<rparr>) (take (the n) payload) 0 s
           in if \<not> ok then (False, count_dropped s) else (True, s))"

text \<open>The inner \<open>while\<close> of \<open>send\_config\_answer\<close>: how many of the results still to place fit.\<close>

fun fill_message :: "ConfigAckEntry list \<Rightarrow> nat \<Rightarrow> nat \<Rightarrow> nat" where
  "fill_message [] used n = n"
| "fill_message (r # rs) used n =
     (if n < kMaxConfigAckEntries \<and> used + kConfigAckEntryHdrLen + unat (cae_len r) \<le> kMaxSchemaPayload
      then fill_message rs (used + kConfigAckEntryHdrLen + unat (cae_len r)) (n + 1) else n)"

text \<open>The \<open>do ... while\<close> around it: \<open>ends[]\<close>, at most \<open>limit\<close> of them.\<close>

fun message_ends :: "nat \<Rightarrow> ConfigAckEntry list \<Rightarrow> nat \<Rightarrow> nat list" where
  "message_ends 0 results nxt = []"
| "message_ends (Suc left) results nxt =
     (let nxt = nxt + fill_message (drop nxt results) kConfigAckHdrLen 0
      in nxt # (if nxt < length results then message_ends left results nxt else []))"

fun send_messages :: "NodeId \<Rightarrow> u32 \<Rightarrow> ConfigOp \<Rightarrow> PersistStatus \<Rightarrow> nat \<Rightarrow> nat list \<Rightarrow> ('b, 'a) Sys \<Rightarrow> bool \<times> ('b, 'a) Sys" where
  "send_messages dst reply_seq op persisted first [] s = (True, s)"
| "send_messages dst reply_seq op persisted first (e # es) s =
     (let ack = \<lparr>nca_op = op, nca_more_follows = (es \<noteq> []), nca_persist_status = persisted,
                 nca_entries = take (e - first) (drop first (en_results (sy_engine s)))\<rparr>;
          s = set_en (\<lambda>x. x\<lparr>en_cfg_ack := ack\<rparr>) s;
          (ok, s) = send_config_ack dst ack reply_seq s
      in if \<not> ok then (False, s) else send_messages dst reply_seq op persisted e es s)"

definition send_config_answer :: "NodeId \<Rightarrow> u32 \<Rightarrow> ('b, 'a) Sys \<Rightarrow> bool \<times> ('b, 'a) Sys" where
  "send_config_answer dst reply_seq s =
     (let e = sy_engine s;
          split = (nca_op (en_cfg_ack e) \<noteq> CO_Set);
          limit = (if split then kMaxConfigAckMessages else 1);
          ends = message_ends limit (en_results e) 0
      in if free_slots (en_out e) < length ends then (False, count_dropped s)
         else send_messages dst reply_seq (nca_op (en_cfg_ack e)) (nca_persist_status (en_cfg_ack e)) 0 ends s)"

datatype HexStatus =
    HS_Ok | HS_Timeout | HS_RejectedUnauthenticated | HS_Busy | HS_UartError | HS_MalformedRequest

fun HexStatus_u8 :: "HexStatus \<Rightarrow> u8" where
  "HexStatus_u8 HS_Ok = 0x00"
| "HexStatus_u8 HS_Timeout = 0x01"
| "HexStatus_u8 HS_RejectedUnauthenticated = 0x02"
| "HexStatus_u8 HS_Busy = 0x03"
| "HexStatus_u8 HS_UartError = 0x04"
| "HexStatus_u8 HS_MalformedRequest = 0x05"

definition send_hex_rsp :: "NodeId \<Rightarrow> Seq \<Rightarrow> HexStatus \<Rightarrow> bytes option \<Rightarrow> ('b, 'a) Sys \<Rightarrow> bool \<times> ('b, 'a) Sys" where
  "send_hex_rsp dst seq status hex s =
     (let n = length (ptr_bytes hex);
          (st, payload, len) = serialize_HexRsp
            \<lparr>hrsp_status = HexStatus_u8 status, hrsp_n = of_nat n, hrsp_hex = hex\<rparr> (replicate kMaxPayloadPlain 0)
      in if n > 0xFF \<or> st \<noteq> St_Ok then (False, s)
         else let h = header (sy_cx s) MT_HexRsp dst kSchemaNone;
                  (ok, s) = send (h\<lparr>h_seq := seq\<rparr>) (take (the len) payload) 0 s
           in if \<not> ok then (False, count_dropped s) else (True, s))"

section \<open>Boot and PHY revert\<close>

definition announce_boot :: "('b, 'a) Application \<Rightarrow> ResetCause \<Rightarrow> u32 \<Rightarrow> ('b, 'a) Sys \<Rightarrow> bool \<times> ('b, 'a) Sys" where
  "announce_boot ap cause now_ms s =
     (let (status_queued, s) = send_status ap kNodeBridge SR_Boot now_ms s;
          ((payload, schema), s) = ask (ap_build_event ap ET_Boot (ucast (ResetCause_u8 cause)) now_ms kMaxSchemaPayload) s;
          (event_queued, s) = (if payload = [] then (False, s) else send_event kNodeBridge payload schema s);
          s = (if event_queued then s else count_dropped s)
      in (status_queued \<and> event_queued, s))"

definition note_phy_revert :: "RevertCause \<Rightarrow> Context \<Rightarrow> Context" where
  "note_phy_revert cause c = c\<lparr>cx_phy_revert_detail := RevertCause_u16 cause, cx_config_change_owed := True\<rparr>"

definition send_phy_reverted :: "('b, 'a) Application \<Rightarrow> NodeId \<Rightarrow> u32 \<Rightarrow> ('b, 'a) Sys \<Rightarrow> ('b, 'a) Sys" where
  "send_phy_reverted ap dst now_ms s =
     (let detail = cx_phy_revert_detail (sy_cx s);
          s = set_cx (\<lambda>c. c\<lparr>cx_phy_revert_detail := 0\<rparr>) s;
          ((payload, schema), s) = ask (ap_build_event ap ET_PhyReverted detail now_ms kMaxSchemaPayload) s;
          (ok, s) = (if payload = [] then (False, s) else send_event dst payload schema s)
      in if ok then s else count_dropped s)"

section \<open>CONFIG\<close>

definition add_result :: "ConfigAckEntry \<Rightarrow> ('b, 'a) Sys \<Rightarrow> ('b, 'a) Sys" where
  "add_result a = set_en (\<lambda>e. if length (en_results e) \<ge> kMaxResults
                               then e\<lparr>en_results_dropped := en_results_dropped e + 1\<rparr>
                               else e\<lparr>en_results := en_results e @ [a]\<rparr>)"

text \<open>The inner \<open>while\<close> of the insertion sort: \<open>e\<close> moves left past larger ids.\<close>

fun sift_down :: "nat \<Rightarrow> ConfigAckEntry \<Rightarrow> ConfigAckEntry list \<Rightarrow> ConfigAckEntry list" where
  "sift_down 0 e r = r[0 := e]"
| "sift_down (Suc j) e r =
     (if cae_param_id (r ! j) > cae_param_id e then sift_down j e (r[Suc j := r ! j]) else r[Suc j := e])"

definition sort_by_param_id :: "ConfigAckEntry list \<Rightarrow> ConfigAckEntry list" where
  "sort_by_param_id r = foldl (\<lambda>r i. sift_down i (r ! i) r) r [1..<length r]"

definition unknown_param :: "u16 \<Rightarrow> PType \<Rightarrow> ConfigAckEntry" where
  "unknown_param i t = ConfigAckEntry_init\<lparr>cae_param_id := i, cae_status := Pa_UnknownParam, cae_ptype := t, cae_len := 0\<rparr>"

text \<open>The lambdas \<open>current\<close> and \<open>list\_all\<close> of \<open>apply\_config\<close>.\<close>

definition config_current :: "'b BlobStore \<Rightarrow> ('b, 'a) Application \<Rightarrow> ('b, 'a) Sys \<Rightarrow> PersistStatus" where
  "config_current bo ap s =
     (if ap_config_unpersisted ap (sy_cx s) (sy_app s) then PS_AppliedNotPersisted
      else pt_read_persist_status bo (en_phy (sy_engine s)))"

definition config_list_all :: "('b, 'a) Application \<Rightarrow> ('b, 'a) Sys \<Rightarrow> ('b, 'a) Sys" where
  "config_list_all ap s =
     (let (rs, s) = ask_const (ap_config_list ap) s;
          s = foldl (\<lambda>s a. add_result a s) s rs
      in foldl (\<lambda>s d. if is_phy (pd_id d) then add_result (pt_get (pd_id d) (en_phy (sy_engine s))) s else s)
           s kNodeCommonParams)"

text \<open>
  One entry of a SET: the answer, and whether it named a PHY row. The \<open>None\<close> of \<open>pt\_set\<close> is the null
  row a PHY id never has (\<open>pt\_set\_known\<close>).
\<close>

definition set_entry ::
  "'b BlobStore \<Rightarrow> ('b, 'a) Application \<Rightarrow> ConfigEntry \<Rightarrow> ('b, 'a) Sys \<Rightarrow> ConfigAckEntry \<times> ('b, 'a) Sys" where
  "set_entry bo ap entry s =
     (if is_phy (ce_param_id entry) then
        (case pt_set bo entry (en_phy (sy_engine s)) of
           None \<Rightarrow> (ConfigAckEntry_init, s)
         | Some (a, took, phy) \<Rightarrow> (a, on_phy (\<lambda>_. phy) s))
      else let (r, s) = ask (ap_config_set ap entry) s
        in (case r of None \<Rightarrow> unknown_param (ce_param_id entry) (ce_ptype entry) | Some a \<Rightarrow> a, s))"

text \<open>The loop of a SET, with its three flags.\<close>

fun set_entries ::
  "'b BlobStore \<Rightarrow> ('b, 'a) Application \<Rightarrow> ConfigEntry list \<Rightarrow> bool \<times> bool \<times> bool \<Rightarrow> ('b, 'a) Sys \<Rightarrow>
   (bool \<times> bool \<times> bool) \<times> ('b, 'a) Sys" where
  "set_entries bo ap [] flags s = (flags, s)"
| "set_entries bo ap (entry # rest) (applied, phy_named, phy_ok) s =
     (let (a, s) = set_entry bo ap entry s;
          phy = is_phy (ce_param_id entry);
          applied = (applied \<or> cae_status a = Pa_Ok \<or> cae_status a = Pa_Clamped)
      in set_entries bo ap rest
           (applied, phy_named \<or> phy, if phy then phy_ok \<and> cae_status a = Pa_Ok else phy_ok) (add_result a s))"

definition get_entry :: "('b, 'a) Application \<Rightarrow> ConfigEntry \<Rightarrow> ('b, 'a) Sys \<Rightarrow> ConfigAckEntry \<times> ('b, 'a) Sys" where
  "get_entry ap entry s =
     (if is_phy (ce_param_id entry) then (pt_get (ce_param_id entry) (en_phy (sy_engine s)), s)
      else let (r, s) = ask_const (ap_config_get ap (ce_param_id entry)) s
        in (case r of None \<Rightarrow> unknown_param (ce_param_id entry) (ce_ptype entry) | Some a \<Rightarrow> a, s))"

definition set_status :: "PersistStatus \<Rightarrow> ('b, 'a) Sys \<Rightarrow> ('b, 'a) Sys" where
  "set_status p = set_en (\<lambda>e. e\<lparr>en_cfg_ack := (en_cfg_ack e)\<lparr>nca_persist_status := p\<rparr>\<rparr>)"

definition sort_results :: "('b, 'a) Sys \<Rightarrow> ('b, 'a) Sys" where
  "sort_results = set_en (\<lambda>e. e\<lparr>en_results := sort_by_param_id (en_results e)\<rparr>)"

definition apply_config ::
  "'b BlobStore \<Rightarrow> ('b, 'a) Application \<Rightarrow> NodeConfigV1 \<Rightarrow> u32 \<Rightarrow> ('b, 'a) Sys \<Rightarrow> ('b, 'a) Sys" where
  "apply_config bo ap inp now_ms s =
     (let s = set_en (\<lambda>e. e\<lparr>en_cfg_ack := kEmptyConfigAck\<lparr>nca_op := nc_op inp\<rparr>, en_results := [],
                            en_results_dropped := 0\<rparr>) s
      in case nc_op inp of
           CO_Set \<Rightarrow>
             let ((applied, phy_named, phy_ok), s) = set_entries bo ap (nc_entries inp) (False, False, True) s;
                 s = (if phy_named
                      then on_phy (pt_on_set (ap_phy_slot ap (sy_cx s) (sy_app s)) phy_ok
                                     (ap_phy_members ap (sy_app s)) now_ms) s
                      else s)
             in set_status (if applied then config_current bo ap s else PS_NotApplied) s
         | CO_Get \<Rightarrow>
             let s = foldl (\<lambda>s entry. let (a, s) = get_entry ap entry s in add_result a s) s (nc_entries inp)
             in set_status (config_current bo ap s) s
         | CO_GetAll \<Rightarrow>
             let s = sort_results (config_list_all ap s) in set_status (config_current bo ap s) s
         | CO_RestoreDefaults \<Rightarrow>
             let s = (let (c, a) = ap_config_restore_defaults ap (sy_cx s) (sy_app s) in s\<lparr>sy_cx := c, sy_app := a\<rparr>);
                 s = sort_results (config_list_all ap s)
             in set_status (config_current bo ap s) s
         | CO_Other x \<Rightarrow> set_status PS_NotApplied s)"

definition send_config_readback ::
  "'b BlobStore \<Rightarrow> ('b, 'a) Application \<Rightarrow> NodeId \<Rightarrow> ('b, 'a) Sys \<Rightarrow> bool \<times> ('b, 'a) Sys" where
  "send_config_readback bo ap dst s =
     send_config_answer dst kUseStatusSeq (apply_config bo ap \<lparr>nc_op = CO_GetAll, nc_entries = []\<rparr> 0 s)"

definition gate_check :: "Seq \<Rightarrow> ('b, 'a) Sys \<Rightarrow> GateResult \<times> ('b, 'a) Sys" where
  "gate_check seq = on_cx (on_gate (cg_check seq))"

definition gate_record :: "Seq \<Rightarrow> AckResult \<Rightarrow> u8 \<Rightarrow> ('b, 'a) Sys \<Rightarrow> ('b, 'a) Sys" where
  "gate_record seq result detail s = snd (on_cx (on_gate (cg_record seq result detail)) s)"

definition on_config ::
  "'b BlobStore \<Rightarrow> ('b, 'a) Application \<Rightarrow> Header \<Rightarrow> bytes \<Rightarrow> u32 \<Rightarrow> ('b, 'a) Sys \<Rightarrow> ('b, 'a) Sys" where
  "on_config bo ap hdr payload now_ms s =
     (let (withheld, s) = ask (ap_withhold ap ''config'' hdr) s in
      if withheld then s
      else let (g, s) = gate_check (h_seq hdr) s in
        case gr_verdict g of
          V_ReturnCached \<Rightarrow>
            (case deserialize_NodeConfigV1 payload of
               Inr cfg \<Rightarrow>
                 if nc_op cfg = CO_Get \<or> nc_op cfg = CO_GetAll
                 then snd (send_config_answer (h_src hdr) (ucast (h_seq hdr)) (apply_config bo ap cfg now_ms s))
                 else snd (send_ack (h_src hdr) (h_seq hdr) AR_DuplicateCached (AckResult_u8 (gr_cached_result g)) s)
             | Inl _ \<Rightarrow>
                 snd (send_ack (h_src hdr) (h_seq hdr) AR_DuplicateCached (AckResult_u8 (gr_cached_result g)) s))
        | V_InFlight \<Rightarrow> s
        | V_Reject \<Rightarrow> snd (send_ack (h_src hdr) (h_seq hdr) AR_RejectedSeq 0 s)
        | V_Execute \<Rightarrow>
            let s = on_phy (pt_on_authenticated bo) s in
            (case deserialize_NodeConfigV1 payload of
               Inl _ \<Rightarrow>
                 let s = gate_record (h_seq hdr) AR_RejectedArg 0 s;
                     ack = kEmptyConfigAck\<lparr>nca_op := u8_ConfigOp (if length payload > 0 then payload ! 0 else 0),
                                            nca_persist_status := PS_NotApplied\<rparr>;
                     s = set_en (\<lambda>e. e\<lparr>en_cfg_ack := ack\<rparr>) s
                 in snd (send_config_ack (h_src hdr) ack (ucast (h_seq hdr)) s)
             | Inr cfg \<Rightarrow>
                 let s = set_cx (\<lambda>c. c\<lparr>cx_executions := cx_executions c + 1\<rparr>) s;
                     s = apply_config bo ap cfg now_ms s;
                     s = gate_record (h_seq hdr) AR_Accepted 0 s
                 in snd (send_config_answer (h_src hdr) (ucast (h_seq hdr)) s)))"

section \<open>Context roll and commands\<close>

definition on_roll :: "'b BlobStore \<Rightarrow> ('b, 'a) Application \<Rightarrow> Header \<Rightarrow> Command \<Rightarrow> ('b, 'a) Sys \<Rightarrow> ('b, 'a) Sys" where
  "on_roll bo ap hdr cmd s =
     (if cmd_arg cmd \<noteq> kRollContextGuard then snd (send_ack (h_src hdr) (h_seq hdr) AR_RejectedArg 0 s)
      else if cg_any_in_flight (cx_gate (sy_cx s)) then snd (send_ack (h_src hdr) (h_seq hdr) AR_ActuatorBusy 0 s)
      else let s = on_phy (pt_on_authenticated bo) s;
               (c, a) = roll_context (ap_random ap (sy_app s)) (sy_app s) (sy_cx s);
               s = s\<lparr>sy_cx := c, sy_app := a\<rparr>
        in send_fresh_ack ap (h_src hdr) (h_seq hdr) AR_Accepted 0 s)"

definition answer_roll_only ::
  "'b BlobStore \<Rightarrow> ('b, 'a) Application \<Rightarrow> Header \<Rightarrow> bytes \<Rightarrow> ('b, 'a) Sys \<Rightarrow> bool \<times> ('b, 'a) Sys" where
  "answer_roll_only bo ap hdr payload s =
     (case deserialize_Command payload of
        Inl _ \<Rightarrow> (False, s)
      | Inr cmd \<Rightarrow>
          if cmd_cmd cmd \<noteq> Cmd_RollContext then (False, s)
          else let (withheld, s) = ask (ap_withhold ap ''roll'' hdr) s
            in (True, if withheld then s else on_roll bo ap hdr cmd s))"

definition finish_command :: "'b BlobStore \<Rightarrow> ('b, 'a) Application \<Rightarrow> u32 \<Rightarrow> ('b, 'a) Sys \<Rightarrow> ('b, 'a) Sys" where
  "finish_command bo ap now_ms s =
     (let p = cx_pending (sy_cx s) in
      if \<not> pd_active p then s
      else let s = set_cx (\<lambda>c. c\<lparr>cx_pending := (cx_pending c)\<lparr>pd_active := False\<rparr>\<rparr>) s;
               s = gate_record (pd_seq p) (pd_result p) (pd_detail p) s;
               s = send_fresh_ack ap (pd_peer p) (pd_seq p) (pd_result p) (pd_detail p) s
        in case pd_after p of
             AA_None \<Rightarrow> s
           | AA_Status \<Rightarrow> snd (send_status ap (pd_peer p) SR_PollResponse now_ms s)
           | AA_ConfigReadback \<Rightarrow> snd (send_config_readback bo ap (pd_peer p) s)
           | AA_Reboot \<Rightarrow> set_en (\<lambda>e. e\<lparr>en_restart_owed := True\<rparr>) s)"

definition finish_command_with ::
  "'b BlobStore \<Rightarrow> ('b, 'a) Application \<Rightarrow> u32 \<Rightarrow> AckResult \<Rightarrow> ('b, 'a) Sys \<Rightarrow> ('b, 'a) Sys" where
  "finish_command_with bo ap now_ms result s =
     finish_command bo ap now_ms
       (set_cx (\<lambda>c. c\<lparr>cx_pending := (cx_pending c)\<lparr>pd_result := result, pd_detail := 0\<rparr>\<rparr>) s)"

definition execute_command ::
  "'b BlobStore \<Rightarrow> ('b, 'a) Application \<Rightarrow> Header \<Rightarrow> Command \<Rightarrow> u32 \<Rightarrow> ('b, 'a) Sys \<Rightarrow> ('b, 'a) Sys" where
  "execute_command bo ap hdr cmd now_ms s =
     (let s = on_phy (pt_on_authenticated bo) s in
      if pd_active (cx_pending (sy_cx s)) then
        send_fresh_ack ap (h_src hdr) (h_seq hdr) AR_ActuatorBusy 0 (gate_record (h_seq hdr) AR_ActuatorBusy 0 s)
      else let s = set_cx (\<lambda>c. c\<lparr>cx_executions := cx_executions c + 1\<rparr>) s;
               (out, s) = ask (ap_execute ap cmd now_ms) s;
               s = set_cx (\<lambda>c. c\<lparr>cx_pending := \<lparr>pd_active = True, pd_peer = h_src hdr, pd_seq = h_seq hdr,
                     pd_cmd = cmd_cmd cmd, pd_result = co_result out, pd_detail = co_detail out,
                     pd_after = co_after out, pd_start_ms = now_ms\<rparr>\<rparr>) s
        in if co_deferred out then s else finish_command bo ap now_ms s)"

definition on_command ::
  "'b BlobStore \<Rightarrow> ('b, 'a) Application \<Rightarrow> Header \<Rightarrow> bytes \<Rightarrow> u32 \<Rightarrow> ('b, 'a) Sys \<Rightarrow> ('b, 'a) Sys" where
  "on_command bo ap hdr payload now_ms s =
     (let (withheld, s) = ask (ap_withhold ap ''command'' hdr) s in
      if withheld then s
      else case deserialize_Command payload of
        Inl _ \<Rightarrow> set_cx (\<lambda>c. c\<lparr>cx_unhandled := cx_unhandled c + 1\<rparr>) s
      | Inr cmd \<Rightarrow>
          let (rejected, s) = ask (ap_force_reject_ctx ap hdr) s in
          if rejected then snd (send_ack (h_src hdr) (h_seq hdr) AR_RejectedCtx 0 s)
          else if cmd_cmd cmd = Cmd_RollContext then on_roll bo ap hdr cmd s
          else let (g, s) = gate_check (h_seq hdr) s in
            case gr_verdict g of
              V_Execute \<Rightarrow> execute_command bo ap hdr cmd now_ms s
            | V_ReturnCached \<Rightarrow>
                snd (send_ack (h_src hdr) (h_seq hdr) AR_DuplicateCached (AckResult_u8 (gr_cached_result g)) s)
            | V_InFlight \<Rightarrow> s
            | V_Reject \<Rightarrow> snd (send_ack (h_src hdr) (h_seq hdr) AR_RejectedSeq 0 s))"

section \<open>HEX transport\<close>

definition hex_digit :: "u8 \<Rightarrow> bool" where
  "hex_digit c \<longleftrightarrow> list_ex (\<lambda>d. of_char d = c) ''0123456789ABCDEFabcdef''"

definition hex_shaped :: "bytes \<Rightarrow> bytes option" where
  "hex_shaped payload =
     (case deserialize_HexReq payload of
        Inl _ \<Rightarrow> None
      | Inr req \<Rightarrow>
          let hex = ptr_bytes (hreq_hex req) in
          if hreq_n req \<ge> 2 \<and> hex ! 0 = 0x3A \<and> hex_digit (hex ! 1) then Some (take (unat (hreq_n req)) hex) else None)"

text \<open>Past the gate: the shape check, the one transaction, the device.\<close>

definition forward_hex :: "('b, 'a) Application \<Rightarrow> Header \<Rightarrow> bytes \<Rightarrow> u32 \<Rightarrow> ('b, 'a) Sys \<Rightarrow> ('b, 'a) Sys" where
  "forward_hex ap hdr payload now_ms s =
     (case hex_shaped payload of
        None \<Rightarrow> snd (send_hex_rsp (h_src hdr) (h_seq hdr) HS_MalformedRequest None s)
      | Some hex \<Rightarrow>
          if hp_active (cx_hex_pending (sy_cx s))
          then snd (send_hex_rsp (h_src hdr) (h_seq hdr) HS_Busy None s)
          else let (reply, s) = ask (ap_hex_forward ap hex (kMaxPayloadPlain - kHexRspHdrLen) now_ms) s
            in case reply of
                 HR_Pending \<Rightarrow>
                   set_cx (\<lambda>c. c\<lparr>cx_hex_pending := \<lparr>hp_active = True,
                     hp_due_ms = now_ms + ap_hex_timeout_ms ap (sy_cx s) (sy_app s),
                     hp_peer = h_src hdr, hp_seq = h_seq hdr\<rparr>\<rparr>) s
               | HR_Answered rsp \<Rightarrow> snd (send_hex_rsp (h_src hdr) (h_seq hdr) HS_Ok (Some rsp) s))"

definition on_hex_req ::
  "'b BlobStore \<Rightarrow> ('b, 'a) Application \<Rightarrow> Header \<Rightarrow> bytes \<Rightarrow> u32 \<Rightarrow> ('b, 'a) Sys \<Rightarrow> ('b, 'a) Sys" where
  "on_hex_req bo ap hdr payload now_ms s =
     (let (withheld, s) = ask (ap_withhold ap ''HEX_REQ'' hdr) s in
      if withheld then s
      else let s = set_cx (\<lambda>c. c\<lparr>cx_hex_requests := cx_hex_requests c + 1\<rparr>) s in
        if \<not> hex_req_is_write_class payload then forward_hex ap hdr payload now_ms s
        else let (g, s) = gate_check (h_seq hdr) s in
          case gr_verdict g of
            V_Execute \<Rightarrow>
              forward_hex ap hdr payload now_ms
                (gate_record (h_seq hdr) AR_Accepted 0 (on_phy (pt_on_authenticated bo) s))
          | V_ReturnCached \<Rightarrow>
              snd (send_ack (h_src hdr) (h_seq hdr) AR_DuplicateCached (AckResult_u8 (gr_cached_result g)) s)
          | V_InFlight \<Rightarrow> s
          | V_Reject \<Rightarrow> snd (send_ack (h_src hdr) (h_seq hdr) AR_RejectedSeq 0 s))"

definition complete_hex :: "HexStatus \<Rightarrow> bytes option \<Rightarrow> ('b, 'a) Sys \<Rightarrow> bool \<times> ('b, 'a) Sys" where
  "complete_hex status hex s =
     (let h = cx_hex_pending (sy_cx s) in
      if \<not> hp_active h then (False, s)
      else send_hex_rsp (hp_peer h) (hp_seq h) status hex
             (set_cx (\<lambda>c. c\<lparr>cx_hex_pending := h\<lparr>hp_active := False\<rparr>\<rparr>) s))"

definition tick_hex :: "u32 \<Rightarrow> ('b, 'a) Sys \<Rightarrow> ('b, 'a) Sys" where
  "tick_hex now_ms s =
     (let h = cx_hex_pending (sy_cx s) in
      if \<not> hp_active h \<or> sint (now_ms - hp_due_ms h) < 0 then s
      else snd (send_hex_rsp (hp_peer h) (hp_seq h) HS_Timeout None
             (set_cx (\<lambda>c. c\<lparr>cx_hex_pending := h\<lparr>hp_active := False\<rparr>\<rparr>) s)))"

section \<open>The receive ladder\<close>

definition on_phy_crc_error :: "Context \<Rightarrow> Context" where
  "on_phy_crc_error c =
     c\<lparr>cx_counters := (cx_counters c)\<lparr>rx_frames := rx_frames (cx_counters c) + 1,
                                      rx_crc_err := rx_crc_err (cx_counters c) + 1\<rparr>\<rparr>"

definition engine_tick :: "u32 \<Rightarrow> ('b, 'a) Sys \<Rightarrow> ('b, 'a) Sys" where
  "engine_tick now_ms s = tick_hex now_ms (snd (on_cx (on_reassembler (\<lambda>r. ((), ra_tick now_ms r))) s))"

definition refuse_authenticated :: "Header \<Rightarrow> Status \<Rightarrow> ('b, 'a) Sys \<Rightarrow> ('b, 'a) Sys" where
  "refuse_authenticated hdr why s =
     (let r = (if why = St_RejectedCtx then AR_RejectedCtx else AR_RejectedMac) in
      if h_dst hdr \<noteq> cx_id (sy_cx s) then s
      else if h_type hdr = MT_HexReq then
        let s = set_cx (\<lambda>c. c\<lparr>cx_hex_requests := cx_hex_requests c + 1\<rparr>) s in
        if why = St_RejectedMac
        then snd (send_hex_rsp (h_src hdr) (h_seq hdr) HS_RejectedUnauthenticated None s)
        else snd (send_ack (h_src hdr) (h_seq hdr) r 0 s)
      else if h_type hdr \<noteq> MT_Command \<and> h_type hdr \<noteq> MT_Config then s
      else snd (send_ack (h_src hdr) (h_seq hdr) r 0 s))"

definition unhandled :: "('b, 'a) Sys \<Rightarrow> ('b, 'a) Sys" where
  "unhandled = set_cx (\<lambda>c. c\<lparr>cx_unhandled := cx_unhandled c + 1\<rparr>)"

definition deliver ::
  "'b BlobStore \<Rightarrow> ('b, 'a) Application \<Rightarrow> Header \<Rightarrow> bytes \<Rightarrow> u8 \<Rightarrow> i16 \<Rightarrow> i16 \<Rightarrow> u32 \<Rightarrow> ('b, 'a) Sys \<Rightarrow> ('b, 'a) Sys" where
  "deliver bo ap hdr payload fragments rssi_dbm snr_db10 now_ms s =
     (let s = (if h_src hdr = kNodeBridge \<and> cx_phy_revert_detail (sy_cx s) \<noteq> 0
               then send_phy_reverted ap (h_src hdr) now_ms s else s);
          caps = ap_capabilities ap (sy_cx s) (sy_app s)
      in if h_type hdr = MT_Error then s
      else if h_type hdr = MT_Ping then
        let (answered, s) = ap_on_ping ap hdr payload fragments rssi_dbm snr_db10 now_ms s
        in if answered then s else unhandled s
      else if h_type hdr = MT_Poll then
        let (answered, s) = ap_on_poll ap hdr payload now_ms s in if answered then s else unhandled s
      else if h_type hdr = MT_Command then
        if caps AND kAnswersCommands \<noteq> 0 then on_command bo ap hdr payload now_ms s
        else let (answered, s) = answer_roll_only bo ap hdr payload s in if answered then s else unhandled s
      else if h_type hdr = MT_HexReq \<and> caps AND kAnswersHex \<noteq> 0 then on_hex_req bo ap hdr payload now_ms s
      else if h_type hdr = MT_Config \<and> caps AND kAnswersConfig \<noteq> 0 then on_config bo ap hdr payload now_ms s
      else unhandled s)"

record RxResult =
  rx_decoded :: bool
  rx_hdr :: Header

text \<open>The \<open>DecodeCtx\<close> of stages 2 to 6, and what stages 7 to 9 add to it.\<close>

definition header_ctx :: "Context \<Rightarrow> DecodeCtx" where
  "header_ctx c = \<lparr>dc_self = cx_id c, dc_accept_ver_min = cx_proto_ver c, dc_accept_ver_max = cx_proto_ver c,
     dc_mac = None, dc_node_key = None, dc_expect_ctx_id = 0, dc_counters = Some (cx_counters c)\<rparr>"

definition payload_ctx :: "IMac option \<Rightarrow> Context \<Rightarrow> DecodeCtx" where
  "payload_ctx hm c =
     (header_ctx c)\<lparr>dc_mac := hm, dc_node_key := Some (cx_key c), dc_expect_ctx_id := cx_ctx_id c\<rparr>"

definition put_counters :: "Counters option \<Rightarrow> Context \<Rightarrow> Context" where
  "put_counters k c = c\<lparr>cx_counters := (case k of None \<Rightarrow> cx_counters c | Some k \<Rightarrow> k)\<rparr>"

text \<open>Stage 10: a fragment to the reassembler; a completed set to \<open>deliver\<close>.\<close>

definition receive_fragment ::
  "'b BlobStore \<Rightarrow> ('b, 'a) Application \<Rightarrow> Frame \<Rightarrow> i16 \<Rightarrow> i16 \<Rightarrow> u32 \<Rightarrow> ('b, 'a) Sys \<Rightarrow> ('b, 'a) Sys" where
  "receive_fragment bo ap f rssi_dbm snr_db10 now_ms s =
     (let s = (if ra_active (cx_reassembler (sy_cx s)) then s else set_cx (\<lambda>c. c\<lparr>cx_rx_chunk := 0\<rparr>) s);
          (st, s) = on_cx (on_reassembler (ra_accept f now_ms)) s;
          s = (if st = St_Ok \<and> f_payload_len f > unat (cx_rx_chunk (sy_cx s))
               then set_cx (\<lambda>c. c\<lparr>cx_rx_chunk := of_nat (f_payload_len f)\<rparr>) s else s)
      in if st \<noteq> St_Ok \<or> \<not> ra_complete (cx_reassembler (sy_cx s)) then s
         else deliver bo ap (f_hdr f) (ra_data (cx_reassembler (sy_cx s))) (frag_total (f_hdr f))
                rssi_dbm snr_db10 now_ms s)"

definition receive ::
  "'b BlobStore \<Rightarrow> ('b, 'a) Application \<Rightarrow> bytes \<Rightarrow> i16 \<Rightarrow> i16 \<Rightarrow> u32 \<Rightarrow> ('b, 'a) Sys \<Rightarrow> RxResult \<times> ('b, 'a) Sys" where
  "receive bo ap buf rssi_dbm snr_db10 now_ms s =
     (let s = set_cx (\<lambda>c. c\<lparr>cx_counters := (cx_counters c)\<lparr>rx_frames := rx_frames (cx_counters c) + 1\<rparr>\<rparr>) s;
          ((head, k), f) = decode_header buf (header_ctx (sy_cx s));
          s = set_cx (put_counters k) s
      in if head \<noteq> St_Ok then (\<lparr>rx_decoded = False, rx_hdr = Header_init\<rparr>, s)
      else let r = \<lparr>rx_decoded = True, rx_hdr = f_hdr f\<rparr>;
               s = set_cx (\<lambda>c. c\<lparr>cx_heard := True, cx_last_rssi_dbm := rssi_dbm, cx_last_snr_db10 := snr_db10\<rparr>) s;
               ((body, k), f) = decode_payload buf (payload_ctx (en_mac (sy_engine s)) (sy_cx s)) f;
               s = set_cx (put_counters k) s
        in if body \<noteq> St_Ok then
             (r, if ap_capabilities ap (sy_cx s) (sy_app s) AND kRefusesAuthenticated \<noteq> 0 \<and>
                    (body = St_RejectedCtx \<or> body = St_RejectedMac)
                 then refuse_authenticated (f_hdr f) body s else s)
           else if frame_has_mac (h_type (f_hdr f)) (ptr_bytes (f_payload f)) \<and> \<not> f_mac_verified f
             then (r, unhandled s)
           else if frag_total (f_hdr f) = 1
             then (r, deliver bo ap (f_hdr f) (ptr_bytes (f_payload f)) 1 rssi_dbm snr_db10 now_ms s)
           else (r, receive_fragment bo ap f rssi_dbm snr_db10 now_ms s))"

end
