(* ===== verification/EngineSend.thy ===== *)
theory EngineSend
  imports NodeEngine CodecCorrect
begin

text \<open>
  What the engine's sends put in the outbox and what they leave alone: an answer is queued whole
  or not at all, and no send touches the application, the gate, the context or the PHY trial.
\<close>

section \<open>Queued frames\<close>

abbreviation outq :: "('b, 'a) Sys \<Rightarrow> bytes list" where "outq s \<equiv> ob_queue (en_out (sy_engine s))"
abbreviation out_inv :: "('b, 'a) Sys \<Rightarrow> bool" where "out_inv s \<equiv> ob_inv (en_out (sy_engine s))"
abbreviation out_room :: "('b, 'a) Sys \<Rightarrow> nat" where "out_room s \<equiv> free_slots (en_out (sy_engine s))"
abbreviation sys_mac_ok :: "('b, 'a) Sys \<Rightarrow> bool" where "sys_mac_ok s \<equiv> mac_ok (en_mac (sy_engine s))"

definition queue_frames :: "bytes list \<Rightarrow> ('b, 'a) Sys \<Rightarrow> ('b, 'a) Sys" where
  "queue_frames fs s = foldl (\<lambda>s f. queue_frame f s) s fs"

lemma queue_frame_keeps [simp]:
  "sy_app (queue_frame f s) = sy_app s" "encode_ctx (queue_frame f s) = encode_ctx s"
  "sy_engine (queue_frame f s) = (sy_engine s)\<lparr>en_out := snd (ob_push f (en_out (sy_engine s)))\<rparr>"
  "sy_cx (queue_frame f s) = (sy_cx s)\<lparr>cx_counters := (cx_counters (sy_cx s))\<lparr>tx_frames := tx_frames (cx_counters (sy_cx s)) + 1\<rparr>\<rparr>"
  by (simp_all add: queue_frame_def sys_defs encode_ctx_def)

lemma queue_frames_Cons [simp]: "queue_frames (f # fs) s = queue_frames fs (queue_frame f s)" "queue_frames [] s = s"
  by (simp_all add: queue_frames_def)

lemma queue_frames_out: "en_out (sy_engine (queue_frames fs s)) = outbox.push_all fs (en_out (sy_engine s))"
  by (induction fs arbitrary: s) (simp_all add: outbox.push_all_def)

lemma queue_frames_fits:
  assumes "out_inv s" "length fs \<le> out_room s" "\<forall>f\<in>set fs. length f \<le> kOutFrameMax"
  shows "outq (queue_frames fs s) = outq s @ fs" "out_inv (queue_frames fs s)"
    "out_room (queue_frames fs s) = out_room s - length fs"
  using outbox.push_all_fits [OF assms] by (simp_all add: queue_frames_out)

section \<open>Encoding into the local buffer\<close>

abbreviation sendable :: "('b, 'a) Sys \<Rightarrow> Header \<Rightarrow> bytes \<Rightarrow> bool" where
  "sendable s h p \<equiv> frame_ok h p \<and> can_sign (encode_ctx s) h p"

lemma image_length:
  assumes "sys_mac_ok s" "sendable s h p"
  shows "length (frame_image (encode_ctx s) h p) \<le> kMaxFrame"
  using assms length_frame_image [of "encode_ctx s" h p]
  by (auto simp: frame_ok_def frame_len_def Let_def encode_ctx_def split: if_splits)

lemma encode_local:
  assumes "sys_mac_ok s"
  shows "sendable s h p \<Longrightarrow> encode h p (encode_ctx s) (replicate kMaxFrame 0) =
      (St_Ok, frame_image (encode_ctx s) h p @ drop (length (frame_image (encode_ctx s) h p)) (replicate kMaxFrame 0),
       length (frame_image (encode_ctx s) h p))"
    "\<not> sendable s h p \<Longrightarrow> \<exists>e buf n. encode h p (encode_ctx s) (replicate kMaxFrame 0) = (e, buf, n) \<and> e \<noteq> St_Ok"
proof -
  have m: "mac_ok (ec_mac (encode_ctx s))" using assms by (simp add: encode_ctx_def)
  show "sendable s h p \<Longrightarrow> encode h p (encode_ctx s) (replicate kMaxFrame 0) =
      (St_Ok, frame_image (encode_ctx s) h p @ drop (length (frame_image (encode_ctx s) h p)) (replicate kMaxFrame 0),
       length (frame_image (encode_ctx s) h p))"
    using encode_accepts [OF m, of h p "replicate kMaxFrame 0"] image_length [OF assms, of h p] by simp
  show "\<not> sendable s h p \<Longrightarrow> \<exists>e buf n. encode h p (encode_ctx s) (replicate kMaxFrame 0) = (e, buf, n) \<and> e \<noteq> St_Ok"
    using encode_rejects [OF m, of h p "replicate kMaxFrame 0"] by blast
qed

text \<open>A message that is not fragmented.\<close>

lemma send_single:
  assumes "sys_mac_ok s" "chunk = 0 \<or> unat chunk \<ge> length p"
  shows "send h p chunk s =
    (if 0 < out_room s \<and> sendable s h p then (True, queue_frame (frame_image (encode_ctx s) h p) s) else (False, s))"
  using encode_local [OF assms(1), of h p] assms(2) by (auto simp: send_def)

text \<open>The fragments of a message; the first one decides for all.\<close>

definition fragment_frame :: "('b, 'a) Sys \<Rightarrow> Header \<Rightarrow> bytes \<Rightarrow> nat \<Rightarrow> nat \<Rightarrow> bytes" where
  "fragment_frame s h p c i =
     frame_image (encode_ctx s) (set_frag (of_nat i) (of_nat (fragment_count (length p) c)) h) (chunk_of p c i)"

abbreviation first_sendable :: "('b, 'a) Sys \<Rightarrow> Header \<Rightarrow> bytes \<Rightarrow> nat \<Rightarrow> bool" where
  "first_sendable s h p c \<equiv>
     sendable s (set_frag 0 (of_nat (fragment_count (length p) c)) h) (chunk_of p c 0)"

lemma frame_has_mac_fragmentable: "type_is_fragmentable t \<Longrightarrow> frame_has_mac t p = type_requires_mac t"
  by (cases t) (simp_all add: frame_has_mac_def)

lemma fragment_starts_inside:
  assumes "i < fragment_count (length p) c" "1 < fragment_count (length p) c"
  shows "i * c < length p"
proof -
  let ?n = "fragment_count (length p) c"
  have c: "0 < c" "0 < length p" and n: "?n = (length p + c - 1) div c"
    using assms(2) by (auto simp: fragment_count_def Let_def split: if_splits)
  have "Suc i * c \<le> ?n * c" using assms(1) by (intro mult_le_mono1) simp
  also have "\<dots> \<le> length p + c - 1" unfolding n by simp
  finally show ?thesis using c by simp
qed

text \<open>The checks on a fragment depend on its length alone.\<close>

lemma fragment_ok_iff:
  assumes "1 < n" "n \<le> kMaxFragments" "i < n"
  shows "frame_ok (set_frag (of_nat i) (of_nat n) h) q \<longleftrightarrow>
    type_is_known (MsgType_u8 (h_type h)) \<and> schema_is_known (h_type h) (h_schema h) \<and>
    type_is_fragmentable (h_type h) \<and> 0 < length q \<and> length q \<le> reassembly_cap (h_type h) \<and>
    frame_len (length q) (type_requires_mac (h_type h)) \<noteq> 0"
proof -
  have sel: "frag_total (set_frag (of_nat i) (of_nat n) h) = of_nat n"
    "frag_index (set_frag (of_nat i) (of_nat n) h) = of_nat i"
    using set_frag_sel [of i n h] assms by simp_all
  have w: "1 < (of_nat n :: u8)" "(of_nat i :: u8) < of_nat n"
    using assms by (simp_all add: word_less_nat_alt unat_of_nat)
  then have nz: "(of_nat n :: u8) \<noteq> 0" by auto
  show ?thesis
    unfolding frame_ok_def check_payload_def sel set_frag_keeps using w nz
    by (auto simp: frame_has_mac_fragmentable split: if_splits)
qed

lemma fragment_like_first:
  assumes "first_sendable s h p c" "1 < fragment_count (length p) c" "i < fragment_count (length p) c"
  shows "sendable s (set_frag (of_nat i) (of_nat (fragment_count (length p) c)) h) (chunk_of p c i)"
proof -
  let ?n = "fragment_count (length p) c"
  have n: "?n \<le> kMaxFragments" by (auto simp: fragment_count_def Let_def)
  have zero: "0 < ?n" using assms(2) by simp
  note ok = fragment_ok_iff [OF assms(2) n]
  have first: "frame_ok (set_frag (of_nat 0) (of_nat ?n) h) (chunk_of p c 0)" using assms(1) by simp
  note f = first [unfolded ok [OF zero]]
  have c: "0 < c" using fragment_count_covers(2) [OF refl, of p c] zero by simp
  have len: "length (chunk_of p c i) \<le> length (chunk_of p c 0)" "0 < length (chunk_of p c i)"
    using fragment_starts_inside [OF assms(3,2)] c by (simp_all add: chunk_of_eq)
  then have "frame_len (length (chunk_of p c i)) (type_requires_mac (h_type h)) \<noteq> 0"
    using f by (auto simp: frame_len_def Let_def split: if_splits)
  moreover have "can_sign (encode_ctx s) (set_frag (of_nat i) (of_nat ?n) h) (chunk_of p c i)"
    using assms(1) f by (simp add: can_sign_def frame_has_mac_fragmentable)
  ultimately show ?thesis unfolding ok [OF assms(3)] using f len by auto
qed

lemma encode_fragment_eq:
  assumes "i < fragment_count (length p) c" "1 < fragment_count (length p) c"
    "type_is_known (MsgType_u8 (h_type h))" "type_is_fragmentable (h_type h)"
  shows "encode_fragment h p i c ctx buf =
    encode (set_frag (of_nat i) (of_nat (fragment_count (length p) c)) h) (chunk_of p c i) ctx buf"
proof -
  have "c \<noteq> 0" using fragment_count_covers(2) [OF refl, of p c] assms(1) by simp
  then show ?thesis using assms by (simp add: encode_fragment_def chunk_of_def Let_def)
qed

lemma send_fragments_ok:
  assumes "sys_mac_ok s" "first_sendable s h p (unat chunk)" "1 < fragment_count (length p) (unat chunk)"
    "set is \<subseteq> {..<fragment_count (length p) (unat chunk)}"
  shows "send_fragments is h p chunk s = (True, queue_frames (map (fragment_frame s h p (unat chunk)) is) s)"
  using assms
proof (induction "is" arbitrary: s)
  case (Cons i "is")
  let ?c = "unat chunk" let ?n = "fragment_count (length p) ?c"
  have i: "i < ?n" using Cons.prems(4) by simp
  have n: "?n \<le> kMaxFragments" by (auto simp: fragment_count_def Let_def)
  have "frame_ok (set_frag (of_nat 0) (of_nat ?n) h) (chunk_of p ?c 0)" using Cons.prems(2) by simp
  then have t: "type_is_known (MsgType_u8 (h_type h))" "type_is_fragmentable (h_type h)"
    using fragment_ok_iff [OF Cons.prems(3) n, of 0] Cons.prems(3) by auto
  let ?s = "queue_frame (fragment_frame s h p ?c i) s"
  have "fragment_frame ?s h p ?c = fragment_frame s h p ?c" by (simp add: fragment_frame_def fun_eq_iff)
  moreover have "send_fragments is h p chunk ?s = (True, queue_frames (map (fragment_frame ?s h p ?c) is) ?s)"
    by (rule Cons.IH) (use Cons.prems in auto)
  moreover note encode_local(1) [OF Cons.prems(1) fragment_like_first [OF Cons.prems(2,3) i],
      folded fragment_frame_def]
  ultimately show ?case
    by (simp add: encode_fragment_eq [OF i Cons.prems(3) t])
qed simp

lemma send_fragments_refused:
  assumes "sys_mac_ok s" "\<not> first_sendable s h p (unat chunk)" "1 < fragment_count (length p) (unat chunk)"
  shows "send_fragments (0 # is) h p chunk s = (False, s)"
proof -
  let ?c = "unat chunk"
  have z: "0 < fragment_count (length p) ?c" using assms(3) by simp
  have "\<exists>e buf n. encode_fragment h p 0 ?c (encode_ctx s) (replicate kMaxFrame 0) = (e, buf, n) \<and> e \<noteq> St_Ok"
  proof (cases "type_is_known (MsgType_u8 (h_type h)) \<and> type_is_fragmentable (h_type h)")
    case True
    with encode_local(2) [OF assms(1,2)] show ?thesis
      by (simp add: encode_fragment_eq [OF z assms(3)])
  next
    case False
    have "?c \<noteq> 0" using fragment_count_covers(2) [OF refl, of p ?c] z by simp
    with False z assms(3) show ?thesis by (auto simp: encode_fragment_def Let_def)
  qed
  then show ?thesis by auto
qed

text \<open>
  C25: a message is queued whole or not at all. A send succeeds exactly when the outbox has a slot
  for every frame the message needs and its first frame can be encoded; then exactly the frames
  of the message follow what was queued, in order, and the sent-frame counter rises by their
  number. A send that fails changes nothing.
\<close>

theorem send_whole_or_nothing:
  assumes "out_inv s" "sys_mac_ok s" "send h p chunk s = (ok, s')"
  defines "single \<equiv> chunk = 0 \<or> unat chunk \<ge> length p"
    and "frames \<equiv> (if chunk = 0 \<or> unat chunk \<ge> length p then [frame_image (encode_ctx s) h p]
           else map (fragment_frame s h p (unat chunk)) [0..<fragment_count (length p) (unat chunk)])"
  shows "(ok \<longleftrightarrow> length frames \<noteq> 0 \<and> length frames \<le> out_room s \<and>
            (if single then sendable s h p else first_sendable s h p (unat chunk))) \<and>
    (if ok then outq s' = outq s @ frames \<and> out_inv s' \<and>
       tx_frames (cx_counters (sy_cx s')) = tx_frames (cx_counters (sy_cx s)) + of_nat (length frames)
     else s' = s)"
proof (cases single)
  case True
  then have fr: "frames = [frame_image (encode_ctx s) h p]" by (simp add: single_def frames_def)
  show ?thesis
  proof (cases "0 < out_room s \<and> sendable s h p")
    case t: True
    then have "length (frame_image (encode_ctx s) h p) \<le> kOutFrameMax"
      using image_length [OF assms(2), of h p] by simp
    then have "outq s' = outq s @ frames \<and> out_inv s'"
      using t True assms(3) send_single [OF assms(2), of chunk p h] queue_frames_fits [OF assms(1), of frames]
      by (simp add: fr single_def)
    with t True assms(3) send_single [OF assms(2), of chunk p h] show ?thesis by (auto simp: fr single_def)
  qed (use True assms(3) send_single [OF assms(2), of chunk p h] in \<open>auto simp: fr single_def\<close>)
next
  case False
  let ?c = "unat chunk" let ?n = "fragment_count (length p) ?c"
  have fr: "frames = map (fragment_frame s h p ?c) [0..<?n]" and lt: "chunk \<noteq> 0" "?c < length p"
    using False by (auto simp: single_def frames_def)
  show ?thesis
  proof (cases "?n = 0 \<or> out_room s < ?n")
    case True
    with assms(3) False lt show ?thesis by (auto simp: fr send_def Let_def single_def)
  next
    case room: False
    have n1: "1 < ?n"
    proof (rule ccontr)
      assume "\<not> 1 < ?n"
      with room have "?n = 1" by simp
      with fragment_count_covers(1) [of p ?c 1] lt show False by simp
    qed
    have n: "?n \<le> kMaxFragments" by (auto simp: fragment_count_def Let_def)
    have s': "send_fragments [0..<?n] h p chunk s = (ok, s')"
      using assms(3) room lt by (simp add: send_def Let_def)
    have upt: "[0..<?n] = 0 # [1..<?n]" using n1 by (simp add: upt_rec)
    show ?thesis
    proof (cases "first_sendable s h p ?c")
      case True
      have eq: "ok" "s' = queue_frames frames s"
        using send_fragments_ok [OF assms(2) True n1, of "[0..<?n]"] s' by (auto simp: fr atLeast0LessThan)
      have "\<forall>f\<in>set frames. length f \<le> kOutFrameMax"
        using image_length [OF assms(2) fragment_like_first [OF True n1]] by (fastforce simp: fr fragment_frame_def)
      moreover have "tx_frames (cx_counters (sy_cx (queue_frames fs t))) = tx_frames (cx_counters (sy_cx t)) + of_nat (length fs)"
        for fs and t :: "('a, 'b) Sys" by (induction fs arbitrary: t) simp_all
      ultimately show ?thesis
        using queue_frames_fits [OF assms(1), of frames] room True eq False n1 by (simp add: fr)
    next
      case f: False
      with send_fragments_refused [OF assms(2) f n1, of "[1..<?n]"] s' upt False show ?thesis by simp
    qed
  qed
qed

text \<open>A node on the bench: identity 1, context 5, no MAC.\<close>

definition bench_sys :: "(unit, nat) Sys" where
  "bench_sys = \<lparr>sy_engine = Engine_new Outbox_new None, sy_cx = Context_init\<lparr>cx_id := 1, cx_ctx_id := 5\<rparr>, sy_app = 0\<rparr>"

lemma bench_sys_ok: "out_inv bench_sys" "sys_mac_ok bench_sys" "outq bench_sys = []" "out_room bench_sys = 16"
  by (simp_all add: bench_sys_def Engine_new_def ob_new mac_ok_def) (simp add: Outbox_new_def free_slots_def)

theorem send_whole_or_nothing_witness:
  "\<exists>s'. send (header (sy_cx bench_sys) MT_Ping 0 0) [0, 3, 7, 8, 9] 2 bench_sys = (True, s') \<and>
     length (outq s') = 3 \<and> tx_frames (cx_counters (sy_cx s')) = 3"
proof -
  let ?h = "header (sy_cx bench_sys) MT_Ping 0 0" let ?p = "[0, 3, 7, 8, 9]"
  obtain ok s' where s: "send ?h ?p 2 bench_sys = (ok, s')" by fastforce
  have n: "fragment_count (length ?p) (unat (2 :: u8)) = 3" by (simp add: fragment_count_def)
  have "frame_ok (set_frag 0 (of_nat 3) ?h) (chunk_of ?p (unat (2 :: u8)) 0)" by code_simp
  moreover have "can_sign (encode_ctx bench_sys) (set_frag 0 (of_nat 3) ?h) (chunk_of ?p (unat (2 :: u8)) 0)"
    by (simp add: can_sign_def frame_has_mac_def header_def)
  ultimately have f: "first_sendable bench_sys ?h ?p (unat (2 :: u8))" unfolding n by blast
  note w = send_whole_or_nothing [OF bench_sys_ok(1,2) s]
  have ok using w f n bench_sys_ok(4) by simp
  moreover have "tx_frames (cx_counters (sy_cx bench_sys)) = 0"
    by (simp add: bench_sys_def Context_init_def Counters_init_def)
  ultimately show ?thesis using w n s bench_sys_ok(3) by simp
qed

end
