(* ===== verification/EngineCorrect.thy ===== *)
theory EngineCorrect
  imports EngineSend
begin

text \<open>
  What the node engine promises of the frames it refuses: one that does not authenticate changes
  nothing but the counters and queues at most the refusal.
\<close>

section \<open>What an answer leaves alone\<close>

text \<open>Everything of a node but the sequence numbers, the counters and the outbox.\<close>

definition node_core :: "('b, 'a) Sys \<Rightarrow> 'a \<times> 'b PhyTrial \<times> bool \<times> Context" where
  "node_core s = (sy_app s, en_phy (sy_engine s), en_restart_owed (sy_engine s),
     (sy_cx s)\<lparr>cx_tx_seq := 0, cx_counters := Counters_init, cx_heard := False, cx_last_rssi_dbm := 0,
               cx_last_snr_db10 := 0, cx_unhandled := 0, cx_hex_requests := 0\<rparr>)"

lemma node_core_fields:
  assumes "node_core s' = node_core s"
  shows "sy_app s' = sy_app s" "en_phy (sy_engine s') = en_phy (sy_engine s)"
    "cx_id (sy_cx s') = cx_id (sy_cx s)" "cx_ctx_id (sy_cx s') = cx_ctx_id (sy_cx s)"
    "cx_gate (sy_cx s') = cx_gate (sy_cx s)" "cx_executions (sy_cx s') = cx_executions (sy_cx s)"
    "cx_pending (sy_cx s') = cx_pending (sy_cx s)" "cx_hex_pending (sy_cx s') = cx_hex_pending (sy_cx s)"
    "cx_reassembler (sy_cx s') = cx_reassembler (sy_cx s)" "cx_proto_ver (sy_cx s') = cx_proto_ver (sy_cx s)"
    "cx_key (sy_cx s') = cx_key (sy_cx s)"
proof -
  have "snd (snd (snd (node_core s'))) = snd (snd (snd (node_core s)))" using assms by simp
  note f = arg_cong [OF this]
  show "sy_app s' = sy_app s" "en_phy (sy_engine s') = en_phy (sy_engine s)"
    using assms by (simp_all add: node_core_def)
  show "cx_id (sy_cx s') = cx_id (sy_cx s)" "cx_ctx_id (sy_cx s') = cx_ctx_id (sy_cx s)"
    "cx_gate (sy_cx s') = cx_gate (sy_cx s)" "cx_executions (sy_cx s') = cx_executions (sy_cx s)"
    "cx_pending (sy_cx s') = cx_pending (sy_cx s)" "cx_hex_pending (sy_cx s') = cx_hex_pending (sy_cx s)"
    "cx_reassembler (sy_cx s') = cx_reassembler (sy_cx s)" "cx_proto_ver (sy_cx s') = cx_proto_ver (sy_cx s)"
    "cx_key (sy_cx s') = cx_key (sy_cx s)"
    using f [of cx_id] f [of cx_ctx_id] f [of cx_gate] f [of cx_executions] f [of cx_pending]
      f [of cx_hex_pending] f [of cx_reassembler] f [of cx_proto_ver] f [of cx_key]
    by (simp_all add: node_core_def)
qed

definition answer_only :: "nat \<Rightarrow> ('b, 'a) Sys \<Rightarrow> ('b, 'a) Sys \<Rightarrow> bool" where
  "answer_only n s s' \<longleftrightarrow> node_core s' = node_core s \<and>
     (out_inv s \<longrightarrow> out_inv s' \<and> (\<exists>fs. outq s' = outq s @ fs \<and> length fs \<le> n))"

lemma answer_only_refl: "answer_only n s s"
  by (simp add: answer_only_def)

lemma answer_only_trans: "answer_only m s s' \<Longrightarrow> answer_only n s' s'' \<Longrightarrow> answer_only (m + n) s s''"
  unfolding answer_only_def by (metis append_assoc add_mono length_append)

lemma answer_only_mono: "answer_only m s s' \<Longrightarrow> m \<le> n \<Longrightarrow> answer_only n s s'"
  unfolding answer_only_def by (meson le_trans)

lemma answer_only_step: "answer_only n s s' \<Longrightarrow> node_core s'' = node_core s' \<Longrightarrow>
   en_out (sy_engine s'') = en_out (sy_engine s') \<Longrightarrow> answer_only n s s''"
  by (simp add: answer_only_def)

lemma answer_only_queue: "answer_only 1 s (queue_frame f s)"
proof -
  have "node_core (queue_frame f s) = node_core s" by (simp add: node_core_def)
  moreover have "out_inv s \<Longrightarrow> outq (queue_frame f s) = outq s @ [f] \<or> outq (queue_frame f s) = outq s"
    using outbox.push_fits [of "en_out (sy_engine s)" f] outbox.push_full [of "en_out (sy_engine s)" f]
    by (cases "0 < out_room s \<and> length f \<le> kOutFrameMax") (auto simp: not_le)
  ultimately show ?thesis
    unfolding answer_only_def using outbox.push_inv [of "en_out (sy_engine s)" f] by fastforce
qed

lemma take_seq_core: "node_core (snd (take_seq s)) = node_core s" "sy_engine (snd (take_seq s)) = sy_engine s"
  "fst (take_seq s) = cx_tx_seq (sy_cx s)" "encode_ctx (snd (take_seq s)) = encode_ctx s"
  by (simp_all add: take_seq_def sys_defs node_core_def encode_ctx_def)

lemma count_dropped_core: "node_core (count_dropped s) = node_core s" "en_out (sy_engine (count_dropped s)) = en_out (sy_engine s)"
  by (simp_all add: count_dropped_def sys_defs node_core_def)

lemma send_answer:
  assumes "chunk = 0 \<or> length p \<le> unat chunk"
  shows "answer_only 1 s (snd (send h p chunk s))"
  using assms answer_only_queue answer_only_refl by (auto simp: send_def split: prod.splits)

lemma answer_after:
  "node_core t = node_core s \<Longrightarrow> en_out (sy_engine t) = en_out (sy_engine s) \<Longrightarrow>
   answer_only n t s' \<Longrightarrow> answer_only n s s'"
  by (simp add: answer_only_def)

lemma send_or_drop:
  assumes "node_core t = node_core s" "sy_engine t = sy_engine s"
  shows "answer_only 1 s (snd (let (ok, u) = send h p 0 t in if \<not> ok then (False, count_dropped u) else (True, u)))"
proof -
  have "answer_only 1 s (snd (send h p 0 t))"
    by (rule answer_after [OF assms(1) _ send_answer]) (simp_all add: assms(2))
  then show ?thesis
    by (auto simp: split_beta count_dropped_core intro: answer_only_step)
qed

lemma send_ack_answer: "answer_only 1 s (snd (send_ack peer q r d s))"
proof -
  have "answer_only 1 s (snd (let (ok, u) = send (h\<lparr>h_seq := fst (take_seq s)\<rparr>) p 0 (snd (take_seq s))
      in if \<not> ok then (False, count_dropped u) else (True, u)))" for h p
    by (rule send_or_drop) (simp_all add: take_seq_core)
  then show ?thesis by (auto simp: send_ack_def Let_def split_beta answer_only_refl)
qed

lemma send_hex_rsp_answer: "answer_only 1 s (snd (send_hex_rsp dst q status hex s))"
proof -
  have "answer_only 1 s (snd (let (ok, u) = send h p 0 s in if \<not> ok then (False, count_dropped u) else (True, u)))" for h p
    by (rule send_or_drop) simp_all
  then show ?thesis by (auto simp: send_hex_rsp_def Let_def split_beta answer_only_refl)
qed

section \<open>Frames that do not authenticate\<close>

lemma refuse_answer: "answer_only 1 s (refuse_authenticated h why s)"
proof -
  let ?t = "set_cx (\<lambda>c. c\<lparr>cx_hex_requests := cx_hex_requests c + 1\<rparr>) s"
  have t: "node_core ?t = node_core s" "en_out (sy_engine ?t) = en_out (sy_engine s)"
    by (simp_all add: node_core_def set_cx_def)
  have "answer_only 1 s (snd (send_hex_rsp dst q status hex ?t))" "answer_only 1 s (snd (send_ack peer q r d ?t))"
    for dst q status hex peer r d
    using answer_after [OF t] send_hex_rsp_answer send_ack_answer by blast+
  then show ?thesis
    by (simp add: refuse_authenticated_def Let_def answer_only_refl send_ack_answer del: One_nat_def)
qed

text \<open>The header a receiver reads from the bytes, and a valid MAC over them in the node's context.\<close>

definition received_hdr :: "bytes \<Rightarrow> Header" where
  "received_hdr buf = fst (run_state read_header (br_new buf))"

definition authentic :: "IMac \<Rightarrow> Context \<Rightarrow> bytes \<Rightarrow> bool" where
  "authentic hm c buf \<longleftrightarrow>
     (\<exists>n \<le> length (frame_body buf). frame_body buf = take n (frame_body buf) @ hm (cx_key c) (take (kHdrLen + n) buf)) \<and>
     (cx_ctx_id c = 0 \<or> h_ctx_id (received_hdr buf) = cx_ctx_id c)"

lemma decode_header_hdr: "decode_header buf ctx = ((St_Ok, k), f) \<Longrightarrow> f_hdr f = received_hdr buf"
  by (auto simp: decode_header_def Let_def fail_def received_hdr_def split: if_splits)

lemma received_hdr_image:
  "u8_MsgType (MsgType_u8 (h_type h)) = h_type h \<Longrightarrow> received_hdr (header_bytes h @ rest) = wire_hdr h"
  by (simp add: received_hdr_def br_new_reader_at run_read_header_at wire_hdr_def)

lemma accepted_is_authentic:
  assumes "decode_payload buf (payload_ctx (Some hm) c) f = ((St_Ok, k), f')" "imac hm"
    "f_hdr f = received_hdr buf" "type_requires_mac (h_type (received_hdr buf))"
  shows "authentic hm c buf"
  using assms(1)
proof (rule decode_payload_OkD)
  fix p mp mac
  assume a: "frame_body buf = p @ mac" "length mac = (if mp then kMacLen else 0)"
    "frame_has_mac (h_type (f_hdr f)) p \<Longrightarrow>
       mp \<and> (dc_expect_ctx_id (payload_ctx (Some hm) c) = 0 \<or>
             h_ctx_id (f_hdr f) = dc_expect_ctx_id (payload_ctx (Some hm) c))"
    "\<And>hm' key. dc_mac (payload_ctx (Some hm) c) = Some hm' \<Longrightarrow> dc_node_key (payload_ctx (Some hm) c) = Some key \<Longrightarrow>
       mp \<Longrightarrow> f_mac_verified f' \<and> ct_equal (hm' key (take (kHdrLen + length p) buf)) mac kMacLen"
  have fm: "frame_has_mac (h_type (f_hdr f)) p" using assms(3,4) by (simp add: frame_has_mac_def)
  have mp: mp using a(3) fm by blast
  then have "ct_equal (hm (cx_key c) (take (kHdrLen + length p) buf)) mac kMacLen"
    using a(4) [of hm "cx_key c"] by (simp add: payload_ctx_def)
  then have "mac = hm (cx_key c) (take (kHdrLen + length p) buf)"
    using imac.mac_accept_iff [OF assms(2)] a(2) mp by simp
  moreover have "cx_ctx_id c = 0 \<or> h_ctx_id (received_hdr buf) = cx_ctx_id c"
    using a(3) [OF fm] assms(3) by (simp add: payload_ctx_def)
  ultimately show ?thesis unfolding authentic_def using a(1) by (auto intro!: exI [of _ "length p"])
qed

text \<open>
  C26: a COMMAND or CONFIG frame that does not carry the keyed MAC of its bytes under the node's key,
  or that names another context, reaches no handler: the application, the command gate, the
  pending command and HEX transaction, the reassembler, the context id and the PHY trial are
  exactly as they were, and the outbox gains at most one frame, the refusal.
\<close>

theorem forged_frame_changes_nothing:
  assumes "en_mac (sy_engine s) = Some hm" "imac hm" "type_requires_mac (h_type (received_hdr buf))"
    "\<not> authentic hm (sy_cx s) buf" "receive bo ap buf rssi_dbm snr_db10 now_ms s = (r, s')"
  shows "node_core s' = node_core s \<and>
    (out_inv s \<longrightarrow> out_inv s' \<and> (\<exists>fs. outq s' = outq s @ fs \<and> length fs \<le> 1))"
proof -
  define s1 where "s1 = set_cx (\<lambda>c. c\<lparr>cx_counters := (cx_counters c)\<lparr>rx_frames := rx_frames (cx_counters c) + 1\<rparr>\<rparr>) s"
  obtain head k f where dh: "decode_header buf (header_ctx (sy_cx s1)) = ((head, k), f)" by (metis surj_pair)
  define s2 where "s2 = set_cx (put_counters k) s1"
  define s3 where "s3 = set_cx (\<lambda>c. c\<lparr>cx_heard := True, cx_last_rssi_dbm := rssi_dbm, cx_last_snr_db10 := snr_db10\<rparr>) s2"
  obtain body k' f' where dp: "decode_payload buf (payload_ctx (en_mac (sy_engine s3)) (sy_cx s3)) f = ((body, k'), f')"
    by (metis surj_pair)
  define s4 where "s4 = set_cx (put_counters k') s3"
  note defs = s1_def s2_def s3_def s4_def
  have core: "node_core s2 = node_core s" "node_core s4 = node_core s" "sy_engine s2 = sy_engine s"
    "sy_engine s4 = sy_engine s" "sy_engine s3 = sy_engine s"
    by (simp_all add: defs node_core_def set_cx_def put_counters_def)
  have "answer_only 1 s s'"
  proof (cases "head = St_Ok")
    case False
    with dh assms(5) core show ?thesis
      by (simp add: receive_def Let_def split_beta s1_def [symmetric] s2_def [symmetric] answer_only_def)
  next
    case True
    have keep: "authentic hm (sy_cx s3) buf = authentic hm (sy_cx s) buf"
      by (simp add: authentic_def defs set_cx_def put_counters_def)
    have "body \<noteq> St_Ok"
      using accepted_is_authentic [of buf hm "sy_cx s3" f k' f'] assms(1-4) dp decode_header_hdr [of buf _ k f] dh True core keep
      by auto
    then have "s' = s4 \<or> (\<exists>h why. s' = refuse_authenticated h why s4)"
      using assms(5) dh dp True
      by (simp add: receive_def Let_def split_beta s1_def [symmetric] s2_def [symmetric] s3_def [symmetric]
          s4_def [symmetric] split: if_splits) blast+
    moreover have "answer_only 1 s s4" using core by (simp add: answer_only_def)
    moreover have "answer_only 1 s (refuse_authenticated h why s4)" for h why
      using core by (intro answer_after [OF _ _ refuse_answer]) simp_all
    ultimately show ?thesis by auto
  qed
  then show ?thesis by (simp add: answer_only_def)
qed

text \<open>A keyed node, and a NOP command for it whose last bytes are no MAC.\<close>

definition keyed_sys :: "(unit, nat) Sys" where
  "keyed_sys = bench_sys\<lparr>sy_engine := Engine_new Outbox_new (Some RefMac)\<rparr>"

definition nop_hdr :: Header where
  "nop_hdr = Header_init\<lparr>h_type := MT_Command, h_src := kNodeBridge, h_dst := 1, h_seq := 9, h_ctx_id := 5\<rparr>"

definition forged_frame :: bytes where
  "forged_frame = (let b = header_bytes nop_hdr @ [0, 0, 0, 0] @ replicate 8 0xEE in b @ le16 (crc16_ccitt_false b))"

definition no_blob :: "unit BlobStore" where
  "no_blob = \<lparr>bs_usable = (\<lambda>_. False), bs_read = (\<lambda>_ _. []), bs_write = (\<lambda>_ b. (False, b)), bs_erase = (\<lambda>b. (False, b))\<rparr>"

definition refusing_app :: "(unit, nat) Application" where
  "refusing_app = Application_default (\<lambda>c a. 0x0F) (\<lambda>a. None)"

lemma keyed_sys_ok: "out_inv keyed_sys" "sys_mac_ok keyed_sys" "outq keyed_sys = []" "out_room keyed_sys = 16"
  "en_mac (sy_engine keyed_sys) = Some RefMac"
  using ref_mac.imac_axioms
  by (simp_all add: keyed_sys_def Engine_new_def ob_new mac_ok_def) (simp add: Outbox_new_def free_slots_def)

theorem forged_frame_changes_nothing_witness:
  "let s = keyed_sys\<lparr>sy_cx := (sy_cx keyed_sys)\<lparr>cx_ctx_id := 6\<rparr>\<rparr>;
       s' = snd (receive no_blob refusing_app forged_frame 0 0 7 s)
   in sy_app s' = sy_app s \<and> cx_gate (sy_cx s') = cx_gate (sy_cx s) \<and> length (outq s') \<le> 1"
proof -
  define s where "s = keyed_sys\<lparr>sy_cx := (sy_cx keyed_sys)\<lparr>cx_ctx_id := 6\<rparr>\<rparr>"
  obtain r s' where r: "receive no_blob refusing_app forged_frame 0 0 7 s = (r, s')" by fastforce
  have "u8_MsgType (MsgType_u8 (h_type nop_hdr)) = h_type nop_hdr" by (simp add: nop_hdr_def u8_MsgType_def)
  then have "received_hdr forged_frame = wire_hdr nop_hdr"
    by (simp add: forged_frame_def Let_def received_hdr_image)
  then have "type_requires_mac (h_type (received_hdr forged_frame))" "h_ctx_id (received_hdr forged_frame) = 5"
    by (simp_all add: wire_hdr_def nop_hdr_def)
  moreover have "cx_ctx_id (sy_cx s) = 6" "en_mac (sy_engine s) = Some RefMac" "out_inv s" "outq s = []"
    using keyed_sys_ok by (simp_all add: s_def)
  ultimately have "node_core s' = node_core s \<and> (\<exists>fs. outq s' = fs \<and> length fs \<le> 1)"
    using forged_frame_changes_nothing [OF _ ref_mac.imac_axioms _ _ r] by (simp add: authentic_def)
  then have "sy_app s' = sy_app s" "length (outq s') \<le> 1" "cx_gate (sy_cx s') = cx_gate (sy_cx s)"
    using node_core_fields by auto
  with r show ?thesis by (simp add: s_def [symmetric] Let_def)
qed

end
