(* ===== verification/EngineCommand.thy ===== *)
theory EngineCommand
  imports EngineCorrect
begin

text \<open>
  The command path of the engine: the acknowledgement an answer queues, the state an executed or a
  deferred command leaves, and the answer to a retry.
\<close>

section \<open>The acknowledgement\<close>

definition ack_frame :: "('b, 'a) Sys \<Rightarrow> NodeId \<Rightarrow> Seq \<Rightarrow> AckResult \<Rightarrow> u8 \<Rightarrow> bytes" where
  "ack_frame s peer q r d =
     frame_image (encode_ctx s) ((header (sy_cx s) MT_CommandAck peer kSchemaNone)\<lparr>h_seq := cx_tx_seq (sy_cx s)\<rparr>)
       (CommandAck_img \<lparr>ca_ack_seq = q, ca_result = AckResult_u8 r, ca_detail = d\<rparr>)"

lemma ack_ok:
  "sendable s ((header c MT_CommandAck peer kSchemaNone)\<lparr>h_seq := q\<rparr>) (CommandAck_img a)"
proof -
  have len: "length (CommandAck_img a) = kCommandAckLen" by (simp add: CommandAck_img_def)
  have t: "frag_total ((header c MT_CommandAck peer kSchemaNone)\<lparr>h_seq := q\<rparr>) = 1"
    "frag_index ((header c MT_CommandAck peer kSchemaNone)\<lparr>h_seq := q\<rparr>) = 0"
    by (simp_all add: header_def Header_init_def frag_total_def frag_index_def)
  show ?thesis
    using len
    by (simp add: frame_ok_def check_payload_def t can_sign_def frame_has_mac_def frame_len_def Let_def)
      (simp add: header_def Header_init_def type_is_known_def schema_is_known_def fixed_payload_len_def)
qed

lemma send_ack_eq:
  assumes "sys_mac_ok s" "0 < out_room s"
  shows "send_ack peer q r d s = (True, queue_frame (ack_frame s peer q r d) (snd (take_seq s)))"
proof -
  let ?a = "\<lparr>ca_ack_seq = q, ca_result = AckResult_u8 r, ca_detail = d\<rparr>"
  have ser: "serialize_CommandAck ?a (replicate kCommandAckLen 0) = (St_Ok, CommandAck_img ?a, Some kCommandAckLen)"
    using fmt_CommandAck.ser_fits [of ?a "replicate kCommandAckLen 0"] by (simp add: CommandAck_img_def any_value_def)
  have len: "length (CommandAck_img ?a) = kCommandAckLen" by (simp add: CommandAck_img_def)
  have t: "sys_mac_ok (snd (take_seq s))" "0 < out_room (snd (take_seq s))"
    using assms by (simp_all add: take_seq_core)
  show ?thesis
    using send_single [OF t(1), of 0] t(2) ack_ok len
    by (simp add: send_ack_def ser split_beta Let_def take_seq_core ack_frame_def)
qed

text \<open>What queueing one frame does to the outbox and the node.\<close>

lemma ack_queued:
  assumes "out_inv s" "sys_mac_ok s" "0 < out_room s" "send_ack peer q r d s = (ok, s')"
  shows "ok" "outq s' = outq s @ [ack_frame s peer q r d]" "out_inv s'" "out_room s' = out_room s - 1"
    "node_core s' = node_core s" "en_mac (sy_engine s') = en_mac (sy_engine s)" "sy_app s' = sy_app s"
    "cx_gate (sy_cx s') = cx_gate (sy_cx s)" "cx_executions (sy_cx s') = cx_executions (sy_cx s)"
    "cx_pending (sy_cx s') = cx_pending (sy_cx s)" "cx_tx_seq (sy_cx s') = cx_tx_seq (sy_cx s) + 1"
proof -
  let ?t = "snd (take_seq s)" let ?f = "ack_frame s peer q r d"
  have s': "ok" "s' = queue_frame ?f ?t" using send_ack_eq [OF assms(2,3)] assms(4) by auto
  have t: "sy_engine ?t = sy_engine s" "encode_ctx ?t = encode_ctx s" by (simp_all add: take_seq_core)
  have "length ?f \<le> kOutFrameMax"
    using image_length [OF assms(2) ack_ok] unfolding ack_frame_def by (rule le_trans) simp
  then have "outq (queue_frames [?f] ?t) = outq ?t @ [?f]" "out_inv (queue_frames [?f] ?t)"
    "out_room (queue_frames [?f] ?t) = out_room ?t - 1"
    using queue_frames_fits [of ?t "[?f]"] assms(1,3) t by simp_all
  with s' t show "ok" "outq s' = outq s @ [?f]" "out_inv s'" "out_room s' = out_room s - 1" by simp_all
  show "node_core s' = node_core s" "en_mac (sy_engine s') = en_mac (sy_engine s)" "sy_app s' = sy_app s"
    "cx_gate (sy_cx s') = cx_gate (sy_cx s)" "cx_executions (sy_cx s') = cx_executions (sy_cx s)"
    "cx_pending (sy_cx s') = cx_pending (sy_cx s)" "cx_tx_seq (sy_cx s') = cx_tx_seq (sy_cx s) + 1"
    by (simp_all add: s' t node_core_def take_seq_def sys_defs)
qed

section \<open>The gate, its counters lent\<close>

lemma gate_lent [simp]:
  "cg_cache (g\<lparr>cg_counters := k\<rparr>) = cg_cache g" "cg_inv (g\<lparr>cg_counters := k\<rparr>) = cg_inv g"
  by (simp_all add: cg_cache_def cg_item_def cg_slot_def cg_inv_def cg_ring_def cg_window_def cong: if_cong)

lemma on_gate_gate: "cx_gate (snd (on_gate f c)) = snd (f ((cx_gate c)\<lparr>cg_counters := Some (cx_counters c)\<rparr>))"
  "fst (on_gate f c) = fst (f ((cx_gate c)\<lparr>cg_counters := Some (cx_counters c)\<rparr>))"
  by (simp_all add: on_gate_def split_beta)

lemma executed_in_flight:
  assumes "cg_inv g" "gr_verdict (fst (cg_check q g)) = V_Execute"
  shows "cg_inv (snd (cg_check q g))" "map_of (cg_cache (snd (cg_check q g))) q = Some None"
proof -
  have n: "cg_find q g = None" "seq_newer q (cg_high_water g)"
    using assms(2) by (auto simp: cg_check_def Let_def split: option.splits if_splits)
  note ex = execute_refines [OF assms(1) n]
  show "cg_inv (snd (cg_check q g))" by (rule ex(2))
  then show "map_of (cg_cache (snd (cg_check q g))) q = Some None"
    using map_of_split [of "cg_cache (snd (cg_check q g))" "butlast (cg_cache (snd (cg_check q g)))" q None "[]"] ex(1)
    by (simp add: gc_insert_def cg_inv_def cg_ring_def)
qed

lemma recorded_cached:
  assumes "cg_inv g" "map_of (cg_cache g) q = Some None"
  shows "cg_inv (snd (cg_record q r d g))" "map_of (cg_cache (snd (cg_record q r d g))) q = Some (Some (r, d))"
proof -
  note rec = record_refines [OF assms(1), of q r d]
  show "cg_inv (snd (cg_record q r d g))" by (rule rec(1))
  have "map_of (gc_settle q (r, d) c) q = map_option (\<lambda>_. Some (r, d)) (map_of c q)" for c
    by (induction c) (auto simp: gc_settle_def)
  then show "map_of (cg_cache (snd (cg_record q r d g))) q = Some (Some (r, d))" using rec(3) assms(2) by simp
qed

lemma cached_check:
  assumes "cg_inv g" "map_of (cg_cache g) q = Some (Some (r, d))"
  shows "gr_verdict (fst (cg_check q g)) = V_ReturnCached" "gr_cached_result (fst (cg_check q g)) = r"
    "cg_cache (snd (cg_check q g)) = cg_cache g"
proof -
  obtain x where x: "cg_find q g = Some x"
    using assms(2) cg_find_None [of q g] map_of_eq_None_iff [of "cg_cache g" q] by (cases "cg_find q g") auto
  show "gr_verdict (fst (cg_check q g)) = V_ReturnCached" "gr_cached_result (fst (cg_check q g)) = r"
    "cg_cache (snd (cg_check q g)) = cg_cache g"
    using cg_find_lookup [OF assms(1) x] assms(2) x
    by (auto simp: cg_check_def cg_item_def flight_test split: if_splits)
qed

lemma check_lent: "fst (cg_check q (g\<lparr>cg_counters := k\<rparr>)) = fst (cg_check q g)"
  by (simp add: cg_check_def cg_find_def cg_slot_def Let_def split: option.split)

section \<open>The hooks of the application\<close>

text \<open>
  \<open>application.h\<close>: three hooks let a bench withhold what a node receives, refuse its context and
  drop or double an acknowledgement. None of them touches the context through \<open>fresh_ack\<close>; a node
  that leaves the two on the receive path alone is a \<open>quiet_app\<close>, GateLink among them.
\<close>

locale answering_app =
  fixes ap :: "('b, 'a) Application"
  assumes fresh_keeps: "fst (snd (ap_fresh_ack ap q c a)) = c"

locale quiet_app = answering_app ap for ap :: "('b, 'a) Application" +
  assumes no_withhold: "ap_withhold ap what h c a = (False, c, a)"
    and no_force: "ap_force_reject_ctx ap h c a = (False, c, a)"
begin

lemma not_withheld [simp]: "ask (ap_withhold ap what h) s = (False, s)" for s :: "('b, 'a) Sys"
  by (simp add: ask_def no_withhold)

lemma not_forced [simp]: "ask (ap_force_reject_ctx ap h) s = (False, s)" for s :: "('b, 'a) Sys"
  by (simp add: ask_def no_force)

end

interpretation default_app: quiet_app "Application_default caps random" for caps random
  by unfold_locales (simp_all add: Application_default_def)

text \<open>How often a fresh acknowledgement goes out, and the frames it goes out in.\<close>

fun copies :: "AckDelivery \<Rightarrow> nat" where
  "copies AD_Send = 1"
| "copies AD_Suppress = 0"
| "copies AD_Twice = 2"

definition later :: "nat \<Rightarrow> ('b, 'a) Sys \<Rightarrow> ('b, 'a) Sys" where
  "later k = set_cx (\<lambda>c. c\<lparr>cx_tx_seq := cx_tx_seq c + of_nat k\<rparr>)"

definition fresh_frames :: "AckDelivery \<Rightarrow> ('b, 'a) Sys \<Rightarrow> NodeId \<Rightarrow> Seq \<Rightarrow> AckResult \<Rightarrow> u8 \<Rightarrow> bytes list" where
  "fresh_frames d s peer q r x = map (\<lambda>k. ack_frame (later k s) peer q r x) [0..<copies d]"

lemma ack_frame_cong:
  "encode_ctx t = encode_ctx s \<Longrightarrow> cx_proto_ver (sy_cx t) = cx_proto_ver (sy_cx s) \<Longrightarrow>
   cx_id (sy_cx t) = cx_id (sy_cx s) \<Longrightarrow> cx_ctx_id (sy_cx t) = cx_ctx_id (sy_cx s) \<Longrightarrow>
   cx_tx_seq (sy_cx t) = cx_tx_seq (sy_cx s) \<Longrightarrow> ack_frame t peer q r d = ack_frame s peer q r d"
  by (simp add: ack_frame_def header_def)

lemma later_sel [simp]:
  "encode_ctx (later k s) = encode_ctx s" "cx_proto_ver (sy_cx (later k s)) = cx_proto_ver (sy_cx s)"
  "cx_id (sy_cx (later k s)) = cx_id (sy_cx s)" "cx_ctx_id (sy_cx (later k s)) = cx_ctx_id (sy_cx s)"
  "cx_tx_seq (sy_cx (later k s)) = cx_tx_seq (sy_cx s) + of_nat k"
  by (simp_all add: later_def sys_defs encode_ctx_def)

lemma fresh_frames_cong:
  "encode_ctx t = encode_ctx s \<Longrightarrow> cx_proto_ver (sy_cx t) = cx_proto_ver (sy_cx s) \<Longrightarrow>
   cx_id (sy_cx t) = cx_id (sy_cx s) \<Longrightarrow> cx_ctx_id (sy_cx t) = cx_ctx_id (sy_cx s) \<Longrightarrow>
   cx_tx_seq (sy_cx t) = cx_tx_seq (sy_cx s) \<Longrightarrow> fresh_frames d t peer q r x = fresh_frames d s peer q r x"
  unfolding fresh_frames_def by (simp add: ack_frame_cong [of "later _ t" "later _ s"])

lemma core_ctx:
  assumes "node_core t = node_core s"
  shows "encode_ctx t = encode_ctx s \<longleftrightarrow> en_mac (sy_engine t) = en_mac (sy_engine s)"
  using node_core_fields [OF assms] by (simp add: encode_ctx_def)

lemma fresh_queued:
  assumes "out_inv s" "sys_mac_ok s" "copies d \<le> out_room s" "ap_fresh_ack ap q (sy_cx s) (sy_app s) = (d, sy_cx s, a)"
    "s' = send_fresh_ack ap peer q r x s"
  shows "outq s' = outq s @ fresh_frames d s peer q r x" "out_inv s'" "out_room s' = out_room s - copies d"
    "node_core s' = node_core (s\<lparr>sy_app := a\<rparr>)" "en_mac (sy_engine s') = en_mac (sy_engine s)"
proof -
  let ?u = "s\<lparr>sy_app := a\<rparr>"
  have u: "out_inv ?u" "sys_mac_ok ?u" "outq ?u = outq s" "out_room ?u = out_room s" using assms(1,2) by simp_all
  have "encode_ctx ?u = encode_ctx s" by (simp add: encode_ctx_def)
  then have f0: "ack_frame ?u peer q r x = ack_frame (later 0 s) peer q r x" by (intro ack_frame_cong) simp_all
  have s': "s' = (if d = AD_Suppress then ?u else let t = snd (send_ack peer q r x ?u)
      in if d = AD_Twice then snd (send_ack peer q r x t) else t)"
    using assms(4,5) by (simp add: send_fresh_ack_def ask_def)
  obtain ok t where a1: "send_ack peer q r x ?u = (ok, t)" by fastforce
  obtain ok' t' where a2: "send_ack peer q r x t = (ok', t')" by fastforce
  have "outq s' = outq s @ fresh_frames d s peer q r x \<and> out_inv s' \<and> out_room s' = out_room s - copies d \<and>
    node_core s' = node_core ?u \<and> en_mac (sy_engine s') = en_mac (sy_engine s)"
  proof (cases "d = AD_Suppress")
    case True
    then show ?thesis using s' u by (simp add: fresh_frames_def)
  next
    case False
    then have room: "0 < out_room ?u" using assms(3) u(4) by (cases d) auto
    note q1 = ack_queued [OF u(1,2) room a1]
    have t: "encode_ctx t = encode_ctx s" using core_ctx [OF q1(5)] q1(6) by (simp add: encode_ctx_def)
    have f1: "ack_frame t peer q r x = ack_frame (later 1 s) peer q r x"
      by (rule ack_frame_cong) (use t node_core_fields [OF q1(5)] q1(11) in simp_all)
    show ?thesis
    proof (cases "d = AD_Twice")
      case True
      have "0 < out_room t" "sys_mac_ok t" using q1 assms(3) True u(2,4) by simp_all
      note q2 = ack_queued [OF q1(3) this(2,1) a2]
      show ?thesis using True s' a1 a2 q1 q2 u f0 f1
        by (simp add: fresh_frames_def numeral_2_eq_2)
    next
      case once: False
      with False have "d = AD_Send" by (cases d) auto
      then show ?thesis using s' a1 q1 u f0 by (simp add: fresh_frames_def)
    qed
  qed
  then show "outq s' = outq s @ fresh_frames d s peer q r x" "out_inv s'" "out_room s' = out_room s - copies d"
    "node_core s' = node_core (s\<lparr>sy_app := a\<rparr>)" "en_mac (sy_engine s') = en_mac (sy_engine s)" by simp_all
qed

section \<open>A command runs once\<close>

text \<open>The state an executed command leaves before its acknowledgement.\<close>

definition run_command :: "'b BlobStore \<Rightarrow> Header \<Rightarrow> Command \<Rightarrow> u32 \<Rightarrow> CommandOutcome \<Rightarrow> 'a \<Rightarrow> ('b, 'a) Sys \<Rightarrow> ('b, 'a) Sys" where
  "run_command bo hdr cmd now_ms out a s =
     gate_record (h_seq hdr) (co_result out) (co_detail out)
       (set_cx (\<lambda>c. c\<lparr>cx_executions := cx_executions c + 1,
          cx_pending := \<lparr>pd_active = False, pd_peer = h_src hdr, pd_seq = h_seq hdr, pd_cmd = cmd_cmd cmd,
            pd_result = co_result out, pd_detail = co_detail out, pd_after = co_after out, pd_start_ms = now_ms\<rparr>\<rparr>)
         (on_phy (pt_on_authenticated bo) (snd (gate_check (h_seq hdr) s))\<lparr>sy_app := a\<rparr>))"

lemma run_command_keeps:
  "en_out (sy_engine (run_command bo hdr cmd now_ms out a s)) = en_out (sy_engine s)"
  "encode_ctx (run_command bo hdr cmd now_ms out a s) = encode_ctx s"
  "en_mac (sy_engine (run_command bo hdr cmd now_ms out a s)) = en_mac (sy_engine s)"
  "sy_app (run_command bo hdr cmd now_ms out a s) = a"
  "cx_executions (sy_cx (run_command bo hdr cmd now_ms out a s)) = cx_executions (sy_cx s) + 1"
  "ack_frame (run_command bo hdr cmd now_ms out a s) peer q r d = ack_frame s peer q r d"
  "\<not> pd_active (cx_pending (sy_cx (run_command bo hdr cmd now_ms out a s)))"
  by (simp_all add: run_command_def gate_record_def gate_check_def sys_defs split_beta encode_ctx_def)
    (rule ack_frame_cong; simp add: gate_record_def gate_check_def sys_defs split_beta encode_ctx_def)

lemma run_command_ctx:
  "cx_proto_ver (sy_cx (run_command bo hdr cmd now_ms out a s)) = cx_proto_ver (sy_cx s)"
  "cx_id (sy_cx (run_command bo hdr cmd now_ms out a s)) = cx_id (sy_cx s)"
  "cx_ctx_id (sy_cx (run_command bo hdr cmd now_ms out a s)) = cx_ctx_id (sy_cx s)"
  "cx_tx_seq (sy_cx (run_command bo hdr cmd now_ms out a s)) = cx_tx_seq (sy_cx s)"
  by (simp_all add: run_command_def gate_record_def gate_check_def sys_defs split_beta)

lemma run_command_gate:
  assumes "cg_inv (cx_gate (sy_cx s))" "gr_verdict (fst (cg_check (h_seq hdr) (cx_gate (sy_cx s)))) = V_Execute"
    and g_def: "g = cx_gate (sy_cx (run_command bo hdr cmd now_ms out a s))"
  shows "cg_inv g" "map_of (cg_cache g) (h_seq hdr) = Some (Some (co_result out, co_detail out))"
proof -
  let ?c = "sy_cx s" let ?g = "(cx_gate ?c)\<lparr>cg_counters := Some (cx_counters ?c)\<rparr>"
  have v: "gr_verdict (fst (cg_check (h_seq hdr) ?g)) = V_Execute" "cg_inv ?g"
    using assms(1,2) by (simp_all add: check_lent)
  note e = executed_in_flight [OF v(2,1)]
  let ?g1 = "\<lambda>k. (snd (cg_check (h_seq hdr) ?g))\<lparr>cg_counters := k\<rparr>"
  have "\<exists>k. g = snd (cg_record (h_seq hdr) (co_result out) (co_detail out) (?g1 k))"
    by (rule exI) (simp add: g_def run_command_def gate_record_def gate_check_def sys_defs split_beta on_gate_gate)
  moreover have "cg_inv (?g1 k)" "map_of (cg_cache (?g1 k)) (h_seq hdr) = Some None" for k using e by simp_all
  ultimately show "cg_inv g" "map_of (cg_cache g) (h_seq hdr) = Some (Some (co_result out, co_detail out))"
    using recorded_cached by auto
qed

lemma in_flight_check:
  assumes "cg_inv g" "map_of (cg_cache g) q = Some None"
  shows "gr_verdict (fst (cg_check q g)) = V_InFlight" "cg_cache (snd (cg_check q g)) = cg_cache g"
    "cg_inv (snd (cg_check q g))"
proof -
  obtain x where x: "cg_find q g = Some x"
    using assms(2) cg_find_None [of q g] map_of_eq_None_iff [of "cg_cache g" q] by (cases "cg_find q g") auto
  show "gr_verdict (fst (cg_check q g)) = V_InFlight" "cg_cache (snd (cg_check q g)) = cg_cache g"
    "cg_inv (snd (cg_check q g))"
    using cg_find_lookup [OF assms(1) x] assms x
    by (auto simp: cg_check_def cg_item_def flight_test cg_bump_def split: if_splits)
qed

text \<open>The state a command leaves whose acknowledgement waits for the device.\<close>

definition defer_command :: "'b BlobStore \<Rightarrow> Header \<Rightarrow> Command \<Rightarrow> u32 \<Rightarrow> CommandOutcome \<Rightarrow> 'a \<Rightarrow> ('b, 'a) Sys \<Rightarrow> ('b, 'a) Sys" where
  "defer_command bo hdr cmd now_ms out a s =
     set_cx (\<lambda>c. c\<lparr>cx_executions := cx_executions c + 1,
        cx_pending := \<lparr>pd_active = True, pd_peer = h_src hdr, pd_seq = h_seq hdr, pd_cmd = cmd_cmd cmd,
          pd_result = co_result out, pd_detail = co_detail out, pd_after = co_after out, pd_start_ms = now_ms\<rparr>\<rparr>)
       (on_phy (pt_on_authenticated bo) (snd (gate_check (h_seq hdr) s))\<lparr>sy_app := a\<rparr>)"

context quiet_app
begin

lemma on_command_cached:
  assumes "deserialize_Command payload = Inr cmd" "cmd_cmd cmd \<noteq> Cmd_RollContext"
    "cg_inv (cx_gate (sy_cx s))" "map_of (cg_cache (cx_gate (sy_cx s))) (h_seq hdr) = Some (Some (r, d))"
  shows "on_command bo ap hdr payload now_ms s =
    snd (send_ack (h_src hdr) (h_seq hdr) AR_DuplicateCached (AckResult_u8 r) (snd (gate_check (h_seq hdr) s)))"
proof -
  let ?g = "(cx_gate (sy_cx s))\<lparr>cg_counters := Some (cx_counters (sy_cx s))\<rparr>"
  have "cg_inv ?g" "map_of (cg_cache ?g) (h_seq hdr) = Some (Some (r, d))" using assms(3,4) by simp_all
  note c = cached_check [OF this]
  have "gr_verdict (fst (gate_check (h_seq hdr) s)) = V_ReturnCached" "gr_cached_result (fst (gate_check (h_seq hdr) s)) = r"
    using c by (simp_all add: gate_check_def on_cx_def split_beta on_gate_gate)
  with assms(1,2) show ?thesis by (simp add: on_command_def split_beta)
qed


lemma on_command_defers:
  assumes "deserialize_Command payload = Inr cmd" "cmd_cmd cmd \<noteq> Cmd_RollContext"
    "gr_verdict (fst (cg_check (h_seq hdr) (cx_gate (sy_cx s)))) = V_Execute"
    "\<not> pd_active (cx_pending (sy_cx s))" "\<And>c. ap_execute ap cmd now_ms c (sy_app s) = (out, c, a)" "co_deferred out"
  shows "on_command bo ap hdr payload now_ms s = defer_command bo hdr cmd now_ms out a s"
proof -
  have v: "gr_verdict (fst (gate_check (h_seq hdr) s)) = V_Execute"
    using assms(3) by (simp add: gate_check_def on_cx_def split_beta on_gate_gate check_lent)
  have p: "\<not> pd_active (cx_pending (sy_cx (snd (gate_check (h_seq hdr) s))))"
    "sy_app (snd (gate_check (h_seq hdr) s)) = sy_app s"
    using assms(4) by (simp_all add: gate_check_def on_cx_def split_beta)
  have "on_command bo ap hdr payload now_ms s = execute_command bo ap hdr cmd now_ms (snd (gate_check (h_seq hdr) s))"
    using v assms(1,2) by (simp add: on_command_def split_beta)
  also have "\<dots> = defer_command bo hdr cmd now_ms out a s"
    using p assms(5,6) by (simp add: execute_command_def defer_command_def sys_defs Let_def)
  finally show ?thesis .
qed

lemma on_command_in_flight:
  assumes "deserialize_Command payload = Inr cmd" "cmd_cmd cmd \<noteq> Cmd_RollContext"
    "cg_inv (cx_gate (sy_cx s))" "map_of (cg_cache (cx_gate (sy_cx s))) (h_seq hdr) = Some None"
  shows "on_command bo ap hdr payload now_ms s = snd (gate_check (h_seq hdr) s)"
proof -
  have "gr_verdict (fst (gate_check (h_seq hdr) s)) = V_InFlight"
    using in_flight_check(1) [OF assms(3,4)]
    by (simp add: gate_check_def on_cx_def split_beta on_gate_gate check_lent)
  with assms(1,2) show ?thesis by (simp add: on_command_def split_beta)
qed

end

context quiet_app
begin

lemma on_command_runs:
  assumes "deserialize_Command payload = Inr cmd" "cmd_cmd cmd \<noteq> Cmd_RollContext"
    "gr_verdict (fst (cg_check (h_seq hdr) (cx_gate (sy_cx s)))) = V_Execute"
    "\<not> pd_active (cx_pending (sy_cx s))" "\<And>c. ap_execute ap cmd now_ms c (sy_app s) = (out, c, a)"
    "\<not> co_deferred out" "co_after out = AA_None"
  shows "on_command bo ap hdr payload now_ms s =
    send_fresh_ack ap (h_src hdr) (h_seq hdr) (co_result out) (co_detail out) (run_command bo hdr cmd now_ms out a s)"
proof -
  have v: "gr_verdict (fst (gate_check (h_seq hdr) s)) = V_Execute"
    using assms(3) by (simp add: gate_check_def on_cx_def split_beta on_gate_gate check_lent)
  have p: "\<not> pd_active (cx_pending (sy_cx (snd (gate_check (h_seq hdr) s))))"
    "sy_app (snd (gate_check (h_seq hdr) s)) = sy_app s"
    using assms(4) by (simp_all add: gate_check_def on_cx_def split_beta)
  have "on_command bo ap hdr payload now_ms s = execute_command bo ap hdr cmd now_ms (snd (gate_check (h_seq hdr) s))"
    using v assms(1,2) by (simp add: on_command_def split_beta)
  also have "\<dots> = send_fresh_ack ap (h_src hdr) (h_seq hdr) (co_result out) (co_detail out) (run_command bo hdr cmd now_ms out a s)"
    using p assms(5-7)
    by (simp add: execute_command_def finish_command_def run_command_def sys_defs Let_def)
  finally show ?thesis .
qed

end

text \<open>A node that has just booted, its gate and command record empty.\<close>

lemma keyed_sys_sel:
  "cx_gate (sy_cx keyed_sys) = CommandGate_new (Some Counters_init)" "sy_app keyed_sys = 0"
  "cx_pending (sy_cx keyed_sys) = PendingCommand_init" "cx_executions (sy_cx keyed_sys) = 0"
  by (simp_all add: keyed_sys_def bench_sys_def Context_init_def)

end
