(* ===== verification/Clock.thy ===== *)
theory Clock
  imports Prelude
begin

text \<open>
  Millisecond clocks. Every task reads time as a 32-bit counter that wraps after 49.7 days, and
  compares two readings either by the unsigned difference (\<open>now - since >= span\<close>) or by the sign
  of the difference (\<open>static_cast<int32_t>(now - at) >= 0\<close>). \<open>stamp\<close> is the reading at a real
  time in milliseconds, a natural number that does not wrap; the lemmas say for which distances
  the two comparisons agree with the order of the real times.
\<close>

definition stamp :: "nat \<Rightarrow> u32" where
  "stamp t = word_of_nat t"

text \<open>\<open>reached\<close>, as gate_io.cpp and ved_link.cpp define it.\<close>

definition reached :: "u32 \<Rightarrow> u32 \<Rightarrow> bool" where
  "reached now_ms at_ms \<longleftrightarrow> sint (now_ms - at_ms) \<ge> 0"

named_theorems clock_simps \<open>readings of the clock as real times\<close>

lemma stamp_add [clock_simps]: "stamp t + w = stamp (t + unat w)"
  by (simp add: stamp_def)

lemma unat_stamp_diff: "e \<le> t \<Longrightarrow> unat (stamp t - stamp e) = (t - e) mod 2 ^ 32"
  unfolding stamp_def
  by (simp only: of_nat_diff [symmetric] unsigned_of_nat take_bit_eq_mod) simp

lemma elapsed_stamp [clock_simps]:
  assumes "e \<le> t" and "t - e < 2 ^ 32"
  shows "unat (stamp t - stamp e) = t - e"
  using assms by (simp add: unat_stamp_diff)

lemma elapsed_at_most: "e \<le> t \<Longrightarrow> unat (stamp t - stamp e) \<le> t - e"
  by (simp add: unat_stamp_diff)

lemma sint_nonneg_iff: "sint (w :: u32) \<ge> 0 \<longleftrightarrow> unat w < 2 ^ 31"
proof -
  have "uint w < 2 ^ 32" using unsigned_less [of w] by simp
  then have "odd (uint w div 2 ^ 31) \<longleftrightarrow> 2 ^ 31 \<le> uint w"
    by (cases "uint w < 2 ^ 31") (auto simp: div_pos_pos_trivial odd_iff_mod_2_eq_one)
  then have "sint w \<ge> 0 \<longleftrightarrow> uint w < 2 ^ 31"
    by (simp add: sint_uint signed_take_bit_nonnegative_iff bit_iff_odd not_le)
  then show ?thesis
    by (simp add: unat_eq_nat_uint nat_less_iff del: nat_uint_eq)
qed

text \<open>
  A deadline less than \<open>2 ^ 31\<close> milliseconds away, ahead or behind, is judged correctly whatever
  the counter reads; one that passed between \<open>2 ^ 31\<close> and \<open>2 ^ 32\<close> milliseconds ago reads as
  still ahead.
\<close>

lemma reached_past [clock_simps]:
  assumes "e \<le> t" and "t < e + 2 ^ 31"
  shows "reached (stamp t) (stamp e)"
  using assms by (simp add: reached_def sint_nonneg_iff unat_stamp_diff)

lemma reached_ahead [clock_simps]:
  assumes "t < e" and "e \<le> t + 2 ^ 31"
  shows "\<not> reached (stamp t) (stamp e)"
proof -
  have "stamp t - stamp e = stamp (t + 2 ^ 32) - stamp e"
    by (simp add: stamp_def)
  then have "unat (stamp t - stamp e) = t + 2 ^ 32 - e"
    using assms by (simp add: elapsed_stamp)
  with assms show ?thesis by (simp add: reached_def sint_nonneg_iff)
qed

lemma reached_iff:
  assumes "e \<le> t + 2 ^ 31" and "t < e + 2 ^ 31"
  shows "reached (stamp t) (stamp e) \<longleftrightarrow> e \<le> t"
  using assms reached_past reached_ahead by (cases "e \<le> t") auto

lemma reached_long_past:
  assumes "e + 2 ^ 31 \<le> t" and "t < e + 2 ^ 32"
  shows "\<not> reached (stamp t) (stamp e)"
  using assms by (simp add: reached_def sint_nonneg_iff elapsed_stamp)

lemma reached_self [simp]: "reached now now"
  by (simp add: reached_def)

end
