(* ===== verification/GateIo.thy ===== *)
theory GateIo
  imports Clock
begin

text \<open>
  Relay pulses, the command sequencer and the input debounce of GateLink
  (\<open>firmware/gatelink/src\<close>: \<open>gate_io.h\<close>, \<open>gate_io.cpp\<close>), and the relay part of one pass of
  \<open>io_task\<close> (\<open>task_runtime.cpp\<close>) that composes them. The expander is reached only through
  \<open>board_write_relays\<close>; whether a write succeeded is an argument of the pass.
\<close>

section \<open>Definitions\<close>

definition kRelayCount :: u8 where "kRelayCount = 4"

datatype PulseResult = PR_Started | PR_BadRelay | PR_BadWidth | PR_Busy | PR_TooSoon

record RelayPulser =
  rp_active :: bool
  rp_ended :: bool
  rp_relay :: u8
  rp_end_ms :: u32

definition RelayPulser_new :: RelayPulser where
  "RelayPulser_new = \<lparr>rp_active = False, rp_ended = False, rp_relay = 0, rp_end_ms = 0\<rparr>"

definition rp_start :: "u8 \<Rightarrow> u32 \<Rightarrow> u32 \<Rightarrow> u32 \<Rightarrow> RelayPulser \<Rightarrow> PulseResult \<times> RelayPulser" where
  "rp_start relay width_ms spacing_ms now_ms p =
     (if relay \<ge> kRelayCount then (PR_BadRelay, p)
      else if width_ms = 0 then (PR_BadWidth, p)
      else if rp_active p then (PR_Busy, p)
      else if rp_ended p \<and> \<not> reached now_ms (rp_end_ms p + spacing_ms) then (PR_TooSoon, p)
      else (PR_Started, p\<lparr>rp_active := True, rp_relay := relay, rp_end_ms := now_ms + width_ms\<rparr>))"

definition rp_update :: "u32 \<Rightarrow> RelayPulser \<Rightarrow> bool \<times> RelayPulser" where
  "rp_update now_ms p =
     (if \<not> rp_active p \<or> \<not> reached now_ms (rp_end_ms p) then (False, p)
      else (True, p\<lparr>rp_active := False, rp_ended := True\<rparr>))"

definition rp_mask :: "RelayPulser \<Rightarrow> u8" where
  "rp_mask p = (if rp_active p then push_bit (unat (rp_relay p)) 1 else 0)"

definition ms_to_edge :: "u32 \<Rightarrow> RelayPulser \<Rightarrow> u32" where
  "ms_to_edge now_ms p =
     (if \<not> rp_active p then 0xFFFFFFFF
      else if reached now_ms (rp_end_ms p) then 0
      else rp_end_ms p - now_ms)"

definition kNoRelay :: u8 where "kNoRelay = 0xFF"

record RelaySequence =
  rs_first :: u8
  rs_second :: u8

datatype SequenceEnd = SE_Done | SE_Refused

datatype SeqState = Sq_Idle | Sq_Waiting | Sq_Pulsing

record CommandSequencer =
  cs_state :: SeqState
  cs_first :: u8
  cs_second :: u8
  cs_step :: u8
  cs_not_before_ms :: u32
  cs_ended :: bool
  cs_end :: SequenceEnd

definition CommandSequencer_new :: CommandSequencer where
  "CommandSequencer_new = \<lparr>cs_state = Sq_Idle, cs_first = kNoRelay, cs_second = kNoRelay, cs_step = 0,
     cs_not_before_ms = 0, cs_ended = False, cs_end = SE_Done\<rparr>"

definition cs_running :: "CommandSequencer \<Rightarrow> bool" where
  "cs_running s \<longleftrightarrow> cs_state s \<noteq> Sq_Idle"

definition cs_begin :: "RelaySequence \<Rightarrow> u32 \<Rightarrow> CommandSequencer \<Rightarrow> bool \<times> CommandSequencer" where
  "cs_begin sq now_ms s =
     (if cs_state s \<noteq> Sq_Idle then (False, s)
      else (True, s\<lparr>cs_state := Sq_Waiting, cs_first := rs_first sq, cs_second := rs_second sq,
                    cs_step := 0, cs_not_before_ms := now_ms, cs_ended := False\<rparr>))"

text \<open>The relay of the step in hand, \<open>relay_[step_]\<close>.\<close>

definition cs_relay :: "CommandSequencer \<Rightarrow> u8" where
  "cs_relay s = (if cs_step s = 0 then cs_first s else cs_second s)"

text \<open>The second half of \<open>service\<close>: a waiting step is tried once its time has come.\<close>

definition cs_try ::
  "u32 \<Rightarrow> u32 \<Rightarrow> u32 \<Rightarrow> RelayPulser \<Rightarrow> CommandSequencer \<Rightarrow> bool \<times> RelayPulser \<times> CommandSequencer" where
  "cs_try width_ms spacing_ms now_ms p s =
     (if cs_state s \<noteq> Sq_Waiting \<or> \<not> reached now_ms (cs_not_before_ms s) then (False, p, s)
      else case rp_start (cs_relay s) width_ms spacing_ms now_ms p of
        (PR_Started, p) \<Rightarrow> (True, p, s\<lparr>cs_state := Sq_Pulsing\<rparr>)
      | (PR_Busy, p) \<Rightarrow> (False, p, s)
      | (PR_TooSoon, p) \<Rightarrow> (False, p, s)
      | (_, p) \<Rightarrow> (False, p, s\<lparr>cs_state := Sq_Idle, cs_ended := True, cs_end := SE_Refused\<rparr>))"

definition cs_service ::
  "u32 \<Rightarrow> u32 \<Rightarrow> u32 \<Rightarrow> u32 \<Rightarrow> RelayPulser \<Rightarrow> CommandSequencer \<Rightarrow> bool \<times> RelayPulser \<times> CommandSequencer" where
  "cs_service width_ms spacing_ms settle_ms now_ms p s =
     (if cs_state s = Sq_Pulsing then
        if rp_mask p \<noteq> 0 then (False, p, s)
        else if cs_step s = 1 \<or> cs_second s = kNoRelay then
          (False, p, s\<lparr>cs_state := Sq_Idle, cs_ended := True, cs_end := SE_Done\<rparr>)
        else cs_try width_ms spacing_ms now_ms p
               (s\<lparr>cs_step := 1, cs_not_before_ms := now_ms + settle_ms, cs_state := Sq_Waiting\<rparr>)
      else cs_try width_ms spacing_ms now_ms p s)"

definition cs_take_end :: "CommandSequencer \<Rightarrow> SequenceEnd option \<times> CommandSequencer" where
  "cs_take_end s = (if \<not> cs_ended s then (None, s) else (Some (cs_end s), s\<lparr>cs_ended := False\<rparr>))"

section \<open>The relay part of one pass of io_task\<close>

record IoRelays =
  io_pulser :: RelayPulser
  io_sequencer :: CommandSequencer
  io_seq_failures :: u32   \<comment> \<open>\<open>seq_i2c_failures\<close>\<close>
  io_release_owed :: bool

record PulseRequest =
  pq_relay :: u8
  pq_width_ms :: u32

record IoParams =
  ip_width_ms :: u32
  ip_spacing_ms :: u32
  ip_settle_ms :: u32

text \<open>What one pass takes from the outside: the heads of the two queues, and whether each write
  of the expander went through.\<close>

record IoInputs =
  ii_command :: "RelaySequence option"
  ii_request :: "PulseRequest option"
  ii_release_ok :: bool
  ii_start_ok :: bool
  ii_request_ok :: bool

definition io_release :: "u32 \<Rightarrow> IoInputs \<Rightarrow> IoRelays \<Rightarrow> IoRelays" where
  "io_release now inp io =
     (let (changed, p) = rp_update now (io_pulser io); io = io\<lparr>io_pulser := p\<rparr> in
      if changed then
        io\<lparr>io_release_owed := \<not> ii_release_ok inp,
           io_seq_failures := io_seq_failures io +
             (if \<not> ii_release_ok inp \<and> cs_running (io_sequencer io) then 1 else 0)\<rparr>
      else io)"

definition io_take_command :: "u32 \<Rightarrow> IoInputs \<Rightarrow> IoRelays \<Rightarrow> IoRelays" where
  "io_take_command now inp io =
     (case ii_command inp of
        Some cmd \<Rightarrow>
          if \<not> cs_running (io_sequencer io)
          then io\<lparr>io_sequencer := snd (cs_begin cmd now (io_sequencer io))\<rparr> else io
      | None \<Rightarrow> io)"

definition io_sequence :: "IoParams \<Rightarrow> u32 \<Rightarrow> IoInputs \<Rightarrow> IoRelays \<Rightarrow> IoRelays" where
  "io_sequence ip now inp io =
     (let (started, p, s) = cs_service (ip_width_ms ip) (ip_spacing_ms ip) (ip_settle_ms ip) now
                              (io_pulser io) (io_sequencer io);
          io = io\<lparr>io_pulser := p, io_sequencer := s\<rparr> in
      if started then
        io\<lparr>io_seq_failures := io_seq_failures io + (if ii_start_ok inp then 0 else 1),
           io_release_owed := io_release_owed io \<and> \<not> ii_start_ok inp\<rparr>
      else io)"

text \<open>What \<open>io_task\<close> reports to \<open>lora_task\<close> when a sequence ends: how, and whether a write failed.\<close>

definition io_report :: "IoRelays \<Rightarrow> (SequenceEnd \<times> bool) option \<times> IoRelays" where
  "io_report io =
     (case cs_take_end (io_sequencer io) of
        (Some e, s) \<Rightarrow> (Some (e, io_seq_failures io \<noteq> 0), io\<lparr>io_sequencer := s, io_seq_failures := 0\<rparr>)
      | (None, s) \<Rightarrow> (None, io\<lparr>io_sequencer := s\<rparr>))"

definition io_bench_pulse :: "IoParams \<Rightarrow> u32 \<Rightarrow> IoInputs \<Rightarrow> IoRelays \<Rightarrow> IoRelays" where
  "io_bench_pulse ip now inp io =
     (case ii_request inp of
        None \<Rightarrow> io
      | Some req \<Rightarrow>
          let w = (if pq_width_ms req \<noteq> 0 then pq_width_ms req else ip_width_ms ip);
              (r, p) = rp_start (pq_relay req) w (ip_spacing_ms ip) now (io_pulser io);
              io = io\<lparr>io_pulser := p\<rparr> in
          if r = PR_Started \<and> ii_request_ok inp then io\<lparr>io_release_owed := False\<rparr> else io)"

definition io_pass ::
  "IoParams \<Rightarrow> u32 \<Rightarrow> IoInputs \<Rightarrow> IoRelays \<Rightarrow> (SequenceEnd \<times> bool) option \<times> IoRelays" where
  "io_pass ip now inp io =
     (let io = io_sequence ip now inp (io_take_command now inp (io_release now inp io));
          (e, io) = io_report io
      in (e, io_bench_pulse ip now inp io))"

definition IoRelays_new :: IoRelays where
  "IoRelays_new = \<lparr>io_pulser = RelayPulser_new, io_sequencer = CommandSequencer_new,
     io_seq_failures = 0, io_release_owed = False\<rparr>"

section \<open>Inputs\<close>

definition kInputsWired :: u8 where "kInputsWired = 0x3F"
definition kInputsActiveLow :: u8 where "kInputsActiveLow = 0x1C"

definition inputs_from_levels :: "u8 \<Rightarrow> u8" where
  "inputs_from_levels levels = (levels XOR kInputsActiveLow) AND kInputsWired"

record Debouncer =
  db_primed :: bool
  db_stable :: u8
  db_count :: "u8 list"

definition Debouncer_new :: Debouncer where
  "Debouncer_new = \<lparr>db_primed = False, db_stable = 0, db_count = replicate 8 0\<rparr>"

text \<open>One iteration of the loop over the eight bits.\<close>

definition db_bit :: "u8 \<Rightarrow> u8 \<Rightarrow> nat \<Rightarrow> Debouncer \<Rightarrow> Debouncer" where
  "db_bit raw samples i d =
     (let m = push_bit i 1 in
      if raw AND m = db_stable d AND m then d\<lparr>db_count := (db_count d)[i := 0]\<rparr>
      else let n = db_count d ! i + 1 in
        if n \<ge> samples
        then d\<lparr>db_stable := db_stable d XOR m, db_count := (db_count d)[i := 0]\<rparr>
        else d\<lparr>db_count := (db_count d)[i := n]\<rparr>)"

definition db_update :: "u8 \<Rightarrow> u8 \<Rightarrow> Debouncer \<Rightarrow> u8 \<times> Debouncer" where
  "db_update raw samples d =
     (if \<not> db_primed d then (raw, d\<lparr>db_primed := True, db_stable := raw\<rparr>)
      else let samples = (if samples = 0 then 1 else samples);
               d = fold (db_bit raw samples) [0..<8] d
        in (db_stable d, d))"

end
