(* ===== verification/GateIoCorrect.thy ===== *)
theory GateIoCorrect
  imports GateIo
begin

text \<open>
  What the relay timing of GateLink guarantees. \<open>logged_pass\<close> runs one pass of \<open>io_task\<close> at a
  real time and keeps a log of the pulses (newest first), each with the time it was energized,
  its width, the spacing asked for at its start and the time it was released; the log does not
  influence the pass. Safety is proved of every log, with no bound on the time between two
  passes; progress needs passes that are not days apart.
\<close>

section \<open>The log of pulses\<close>

record pulse =
  pu_relay :: u8
  pu_on :: nat
  pu_width :: nat
  pu_gap :: nat
  pu_off :: "nat option"

fun note_release :: "nat \<Rightarrow> bool \<Rightarrow> pulse list \<Rightarrow> pulse list" where
  "note_release t True (x # xs) = x\<lparr>pu_off := Some t\<rparr> # xs"
| "note_release t _ log = log"

definition note_start :: "nat \<Rightarrow> u32 \<Rightarrow> u32 \<Rightarrow> RelayPulser \<Rightarrow> RelayPulser \<Rightarrow> pulse list \<Rightarrow> pulse list" where
  "note_start t width spacing p p' log =
     (if \<not> rp_active p \<and> rp_active p'
      then \<lparr>pu_relay = rp_relay p', pu_on = t, pu_width = unat width, pu_gap = unat spacing,
            pu_off = None\<rparr> # log
      else log)"

definition bench_width :: "IoParams \<Rightarrow> IoInputs \<Rightarrow> u32" where
  "bench_width ip inp =
     (case ii_request inp of
        Some req \<Rightarrow> if pq_width_ms req \<noteq> 0 then pq_width_ms req else ip_width_ms ip
      | None \<Rightarrow> ip_width_ms ip)"

definition logged_pass ::
  "nat \<times> IoParams \<times> IoInputs \<Rightarrow> IoRelays \<times> pulse list \<Rightarrow> IoRelays \<times> pulse list" where
  "logged_pass pass st =
     (case (pass, st) of ((t, ip, inp), (io, log)) \<Rightarrow>
        let now = stamp t;
            io1 = io_release now inp io;
            log1 = note_release t (fst (rp_update now (io_pulser io))) log;
            io2 = io_sequence ip now inp (io_take_command now inp io1);
            log2 = note_start t (ip_width_ms ip) (ip_spacing_ms ip) (io_pulser io1) (io_pulser io2) log1;
            io3 = snd (io_report io2);
            io4 = io_bench_pulse ip now inp io3
        in (io4, note_start t (bench_width ip inp) (ip_spacing_ms ip) (io_pulser io3) (io_pulser io4) log2))"

lemma logged_pass_is_io_pass:
  "fst (logged_pass (t, ip, inp) (io, log)) = snd (io_pass ip (stamp t) inp io)"
  by (simp add: logged_pass_def io_pass_def Let_def split_beta)

definition io_passes :: "(nat \<times> IoParams \<times> IoInputs) list \<Rightarrow> IoRelays \<times> pulse list" where
  "io_passes ps = fold logged_pass ps (IoRelays_new, [])"

definition pulse_limits :: "IoParams \<Rightarrow> IoInputs \<Rightarrow> bool" where
  "pulse_limits ip inp \<longleftrightarrow>
     unat (ip_width_ms ip) \<le> 2 ^ 30 \<and> unat (ip_spacing_ms ip) \<le> 2 ^ 30 \<and> unat (bench_width ip inp) \<le> 2 ^ 30"

section \<open>What each step does to the pulser\<close>

lemma pulser_of_release [simp]: "io_pulser (io_release now inp io) = snd (rp_update now (io_pulser io))"
  by (auto simp: io_release_def split_beta Let_def)

lemma pulser_of_take_command [simp]: "io_pulser (io_take_command now inp io) = io_pulser io"
  by (auto simp: io_take_command_def split: option.splits)

lemma pulser_of_report [simp]: "io_pulser (snd (io_report io)) = io_pulser io"
  by (auto simp: io_report_def split: prod.splits option.splits)

lemma pulser_of_sequence:
  "io_pulser (io_sequence ip now inp io) =
     fst (snd (cs_service (ip_width_ms ip) (ip_spacing_ms ip) (ip_settle_ms ip) now (io_pulser io) (io_sequencer io)))"
  by (auto simp: io_sequence_def split_beta Let_def)

text \<open>Either nothing happened to the pulser, or one pulse was started by \<open>rp_start\<close>.\<close>

definition started_by :: "u32 \<Rightarrow> u32 \<Rightarrow> u32 \<Rightarrow> RelayPulser \<Rightarrow> RelayPulser \<Rightarrow> bool" where
  "started_by w sp now p p' \<longleftrightarrow> (\<exists>r. rp_start r w sp now p = (PR_Started, p'))"

lemma rp_start_refused: "fst (rp_start r w sp now p) \<noteq> PR_Started \<Longrightarrow> snd (rp_start r w sp now p) = p"
  by (auto simp: rp_start_def split: if_splits)

lemma rp_start_cases:
  obtains "rp_start r w sp now p = (fst (rp_start r w sp now p), p)" "fst (rp_start r w sp now p) \<noteq> PR_Started"
  | p' where "rp_start r w sp now p = (PR_Started, p')"
  by (metis rp_start_refused prod.collapse)

lemma cs_try_pulser: "fst (snd (cs_try w sp now p s)) = p \<or> started_by w sp now p (fst (snd (cs_try w sp now p s)))"
  by (rule rp_start_cases [of "cs_relay s" w sp now p])
    (auto simp: cs_try_def started_by_def split: prod.splits PulseResult.splits)

lemma sequence_pulser:
  "io_pulser (io_sequence ip now inp io) = io_pulser io \<or>
   started_by (ip_width_ms ip) (ip_spacing_ms ip) now (io_pulser io) (io_pulser (io_sequence ip now inp io))"
  using cs_try_pulser by (auto simp: pulser_of_sequence cs_service_def)

lemma bench_pulser:
  "io_pulser (io_bench_pulse ip now inp io) = io_pulser io \<or>
   started_by (bench_width ip inp) (ip_spacing_ms ip) now (io_pulser io) (io_pulser (io_bench_pulse ip now inp io))"
proof (cases "ii_request inp")
  case (Some req)
  show ?thesis
    by (rule rp_start_cases [of "pq_relay req" "bench_width ip inp" "ip_spacing_ms ip" now "io_pulser io"])
      (auto simp: io_bench_pulse_def bench_width_def Some started_by_def Let_def split: prod.splits)
qed (simp add: io_bench_pulse_def)

section \<open>Safety: one relay at a time, full width, minimum spacing\<close>

definition pulse_ok :: "pulse \<Rightarrow> bool" where
  "pulse_ok x \<longleftrightarrow> pu_relay x < kRelayCount \<and> (\<forall>off. pu_off x = Some off \<longrightarrow> pu_on x + pu_width x \<le> off)"

definition follows :: "pulse \<Rightarrow> pulse \<Rightarrow> bool" where
  "follows x y \<longleftrightarrow> (\<exists>off. pu_off y = Some off \<and> off \<le> pu_on x) \<and>
     pu_on y + pu_width y + pu_gap x \<le> pu_on x"

definition relay_inv :: "nat \<Rightarrow> RelayPulser \<Rightarrow> pulse list \<Rightarrow> bool" where
  "relay_inv t p log \<longleftrightarrow>
     (\<forall>x\<in>set log. pulse_ok x) \<and> successively follows log \<and>
     (case log of
        [] \<Rightarrow> \<not> rp_active p \<and> \<not> rp_ended p
      | x # _ \<Rightarrow> pu_on x \<le> t \<and> pu_width x \<le> 2 ^ 30 \<and> rp_end_ms p = stamp (pu_on x + pu_width x) \<and>
                 rp_relay p = pu_relay x \<and>
                 (if rp_active p then pu_off x = None
                  else rp_ended p \<and> (\<exists>off. pu_off x = Some off \<and> off \<le> t)))"

lemma relay_inv_later: "relay_inv t p log \<Longrightarrow> t \<le> t' \<Longrightarrow> relay_inv t' p log"
  by (auto simp: relay_inv_def split: list.splits if_splits)

lemma relay_inv_release:
  assumes inv: "relay_inv t p log"
  shows "relay_inv t (snd (rp_update (stamp t) p)) (note_release t (fst (rp_update (stamp t) p)) log)"
proof (cases "fst (rp_update (stamp t) p)")
  case True
  then have act: "rp_active p" and re: "reached (stamp t) (rp_end_ms p)"
    by (auto simp: rp_update_def split: if_splits)
  from inv act obtain x xs where log: "log = x # xs"
    by (cases log) (auto simp: relay_inv_def)
  with inv have "pu_on x \<le> t" "pu_width x \<le> 2 ^ 30" "rp_end_ms p = stamp (pu_on x + pu_width x)"
    by (auto simp: relay_inv_def)
  with re reached_ahead [of t "pu_on x + pu_width x"] have "pu_on x + pu_width x \<le> t"
    by (cases "pu_on x + pu_width x \<le> t") auto
  moreover have "successively follows (x\<lparr>pu_off := Some t\<rparr> # xs)"
    using inv by (cases xs) (auto simp: relay_inv_def log follows_def)
  ultimately show ?thesis
    using inv act re by (auto simp: relay_inv_def log rp_update_def pulse_ok_def)
next
  case False
  then have "snd (rp_update (stamp t) p) = p" by (auto simp: rp_update_def)
  with False inv show ?thesis by simp
qed

lemma relay_inv_start:
  assumes inv: "relay_inv t p log"
    and st: "started_by w sp (stamp t) p p'"
    and lim: "unat w \<le> 2 ^ 30" "unat sp \<le> 2 ^ 30"
  shows "relay_inv t p' (note_start t w sp p p' log)"
proof -
  from st obtain r where r: "rp_start r w sp (stamp t) p = (PR_Started, p')"
    by (auto simp: started_by_def)
  then have idle: "\<not> rp_active p" and rl: "r < kRelayCount"
    and p': "p' = p\<lparr>rp_active := True, rp_relay := r, rp_end_ms := stamp (t + unat w)\<rparr>"
    and re: "rp_ended p \<Longrightarrow> reached (stamp t) (rp_end_ms p + sp)"
    by (auto simp: rp_start_def stamp_add not_le split: if_splits)
  have "successively follows (\<lparr>pu_relay = r, pu_on = t, pu_width = unat w, pu_gap = unat sp,
      pu_off = None\<rparr> # log)"
  proof (cases log)
    case (Cons y ys)
    with inv idle have y: "rp_ended p" "pu_on y \<le> t" "pu_width y \<le> 2 ^ 30"
      "rp_end_ms p = stamp (pu_on y + pu_width y)" "\<exists>off. pu_off y = Some off \<and> off \<le> t"
      by (auto simp: relay_inv_def)
    let ?d = "pu_on y + pu_width y + unat sp"
    from y re have "reached (stamp t) (stamp ?d)" by (simp add: stamp_add)
    with y lim reached_ahead [of t ?d] have "?d \<le> t"
      by (cases "?d \<le> t") auto
    with y inv Cons show ?thesis by (auto simp: relay_inv_def follows_def)
  qed simp
  with inv idle rl lim show ?thesis
    by (auto simp: relay_inv_def note_start_def p' pulse_ok_def)
qed

lemma relay_inv_same: "relay_inv t p log \<Longrightarrow> relay_inv t p (note_start t w sp p p log)"
  by (simp add: note_start_def)

lemma relay_inv_pass:
  assumes "relay_inv t (io_pulser io) log" and "t \<le> t'" and "pulse_limits ip inp"
    and pass: "logged_pass (t', ip, inp) (io, log) = (io', log')"
  shows "relay_inv t' (io_pulser io') log'"
proof -
  define io1 where "io1 = io_release (stamp t') inp io"
  define io2 where "io2 = io_sequence ip (stamp t') inp (io_take_command (stamp t') inp io1)"
  define log2 where "log2 = note_start t' (ip_width_ms ip) (ip_spacing_ms ip) (io_pulser io1) (io_pulser io2)
      (note_release t' (fst (rp_update (stamp t') (io_pulser io))) log)"
  have "relay_inv t' (io_pulser io1) (note_release t' (fst (rp_update (stamp t') (io_pulser io))) log)"
    unfolding io1_def pulser_of_release by (rule relay_inv_release [OF relay_inv_later [OF assms(1,2)]])
  then have "relay_inv t' (io_pulser io2) log2"
    unfolding log2_def
    using sequence_pulser [of ip "stamp t'" inp "io_take_command (stamp t') inp io1"] assms(3)
      relay_inv_start relay_inv_same
    by (auto simp: io2_def pulse_limits_def)
  moreover define io3 where "io3 = snd (io_report io2)"
  ultimately have "relay_inv t' (io_pulser io3) log2" by simp
  then have "relay_inv t' (io_pulser (io_bench_pulse ip (stamp t') inp io3))
      (note_start t' (bench_width ip inp) (ip_spacing_ms ip) (io_pulser io3)
        (io_pulser (io_bench_pulse ip (stamp t') inp io3)) log2)"
    using bench_pulser [of ip "stamp t'" inp io3] assms(3) relay_inv_start relay_inv_same
    by (auto simp: pulse_limits_def)
  with pass show ?thesis
    by (auto simp: logged_pass_def Let_def io1_def io2_def io3_def log2_def)
qed

lemma relay_inv_passes:
  assumes "sorted (map fst ps)" and "\<forall>(t, ip, inp) \<in> set ps. pulse_limits ip inp"
    and "\<forall>(t, ip, inp) \<in> set ps. t \<le> u"
  shows "relay_inv u (io_pulser (fst (io_passes ps))) (snd (io_passes ps))"
  using assms
proof (induction ps arbitrary: u rule: rev_induct)
  case Nil
  show ?case by (simp add: io_passes_def relay_inv_def IoRelays_new_def RelayPulser_new_def)
next
  case (snoc x xs)
  obtain t ip inp where x: "x = (t, ip, inp)" by (cases x) auto
  from snoc.prems x have "relay_inv t (io_pulser (fst (io_passes xs))) (snd (io_passes xs))"
    by (intro snoc.IH) (auto simp: sorted_append)
  then have "relay_inv t (io_pulser (fst (io_passes (xs @ [x])))) (snd (io_passes (xs @ [x])))"
    using snoc.prems by (auto simp: x io_passes_def intro: relay_inv_pass [of t _ _ t ip inp])
  with snoc.prems x show ?case by (auto intro: relay_inv_later)
qed

text \<open>
  C29: relay safety. Over any run of io_task passes, with gate commands and bench pulses in any
  order and the millisecond counter wrapping freely, at most one relay is energized and it is
  the newest pulse of the log; no pulse is released before its width has passed; and a pulse
  starts only after the one before it was released and at least relay_min_spacing_ms after that
  pulse's scheduled trailing edge.
\<close>

theorem relay_pulses_are_spaced:
  assumes "sorted (map fst ps)" and "\<forall>(t, ip, inp) \<in> set ps. pulse_limits ip inp"
    and "io_passes ps = (io, log)"
  shows "(\<forall>x\<in>set log. pu_relay x < kRelayCount \<and>
            (\<forall>off. pu_off x = Some off \<longrightarrow> pu_on x + pu_width x \<le> off)) \<and>
         successively (\<lambda>x y. (\<exists>off. pu_off y = Some off \<and> off \<le> pu_on x) \<and>
           pu_on y + pu_width y + pu_gap x \<le> pu_on x) log \<and>
         rp_mask (io_pulser io) =
           (case log of [] \<Rightarrow> 0
            | x # _ \<Rightarrow> if pu_off x = None then push_bit (unat (pu_relay x)) 1 else 0)"
proof -
  have "\<forall>(t, ip, inp) \<in> set ps. t \<le> Max (insert 0 (fst ` set ps))"
    by (auto intro!: Max_ge image_eqI)
  from relay_inv_passes [OF assms(1,2) this] assms(3)
  have "relay_inv (Max (insert 0 (fst ` set ps))) (io_pulser io) log" by simp
  then show ?thesis
    by (auto simp: relay_inv_def pulse_ok_def follows_def [abs_def] rp_mask_def split: list.splits if_splits)
qed

definition bench_params :: IoParams where
  "bench_params = \<lparr>ip_width_ms = 500, ip_spacing_ms = 1000, ip_settle_ms = 500\<rparr>"

definition quiet_pass :: IoInputs where
  "quiet_pass = \<lparr>ii_command = None, ii_request = None, ii_release_ok = True, ii_start_ok = True,
     ii_request_ok = True\<rparr>"

text \<open>An immediate close, K2 then K4, over a few passes.\<close>

definition close_run :: "(nat \<times> IoParams \<times> IoInputs) list" where
  "close_run =
     [(10, bench_params, quiet_pass\<lparr>ii_command := Some \<lparr>rs_first = 1, rs_second = 3\<rparr>\<rparr>),
      (510, bench_params, quiet_pass), (1010, bench_params, quiet_pass), (1510, bench_params, quiet_pass),
      (2010, bench_params, quiet_pass)]"

lemma close_run_log:
  "snd (io_passes close_run) =
     [\<lparr>pu_relay = 3, pu_on = 1510, pu_width = 500, pu_gap = 1000, pu_off = Some 2010\<rparr>,
      \<lparr>pu_relay = 1, pu_on = 10, pu_width = 500, pu_gap = 1000, pu_off = Some 510\<rparr>]"
  by code_simp

theorem relay_pulses_are_spaced_witness:
  "successively (\<lambda>x y. (\<exists>off. pu_off y = Some off \<and> off \<le> pu_on x) \<and>
     pu_on y + pu_width y + pu_gap x \<le> pu_on x) (snd (io_passes close_run)) \<and>
   length (snd (io_passes close_run)) = 2"
proof -
  have "sorted (map fst close_run)" "\<forall>(t, ip, inp) \<in> set close_run. pulse_limits ip inp"
    by (simp_all add: close_run_def pulse_limits_def bench_params_def bench_width_def quiet_pass_def)
  from relay_pulses_are_spaced [OF this, of "fst (io_passes close_run)" "snd (io_passes close_run)"]
  show ?thesis by (simp add: close_run_log)
qed

section \<open>A late release\<close>

text \<open>
  The comment in \<open>RelayPulser::update\<close> says a late wake must not shorten the gap that follows
  it. The spacing runs from the scheduled edge, so it does: released 900 ms late, the relay is
  energized again 100 ms later although the spacing is a second.
\<close>

lemma late_release_shortens_gap:
  "snd (io_passes
     [(0, bench_params, quiet_pass\<lparr>ii_request := Some \<lparr>pq_relay = 2, pq_width_ms = 0\<rparr>\<rparr>),
      (1400, bench_params, quiet_pass),
      (1500, bench_params, quiet_pass\<lparr>ii_request := Some \<lparr>pq_relay = 2, pq_width_ms = 0\<rparr>\<rparr>)]) =
     [\<lparr>pu_relay = 2, pu_on = 1500, pu_width = 500, pu_gap = 1000, pu_off = None\<rparr>,
      \<lparr>pu_relay = 2, pu_on = 0, pu_width = 500, pu_gap = 1000, pu_off = Some 1400\<rparr>]"
  by code_simp

end
