(* ===== verification/GateIoProgress.thy ===== *)
theory GateIoProgress
  imports GateIoCorrect
begin

text \<open>
  Progress of the command sequencer: a gate command handed to \<open>io_task\<close> runs to its last
  trailing edge, whatever bench pulses are asked for meanwhile, as long as passes are less than
  \<open>horizon\<close> (about 37 hours) apart and the last relay edge is less than four horizons back. The
  two phases of a step, waiting for its time and pulsing, are described by \<open>waiting\<close> and
  \<open>pulsing\<close>; each lemma follows one pass out of a phase, and two inductions on the time left
  close the loop.
\<close>

definition horizon :: nat where "horizon = 2 ^ 27"

definition pass_limits :: "IoParams \<Rightarrow> IoInputs \<Rightarrow> bool" where
  "pass_limits ip inp \<longleftrightarrow>
     0 < unat (ip_width_ms ip) \<and> unat (ip_width_ms ip) \<le> horizon \<and> unat (ip_spacing_ms ip) \<le> horizon \<and>
     0 < unat (ip_settle_ms ip) \<and> unat (ip_settle_ms ip) \<le> horizon \<and> unat (bench_width ip inp) \<le> horizon"

definition relay_ok :: "u8 \<Rightarrow> bool" where
  "relay_ok r \<longleftrightarrow> r < kRelayCount"

definition carries :: "u8 \<Rightarrow> u8 \<Rightarrow> u8 \<Rightarrow> CommandSequencer \<Rightarrow> bool" where
  "carries a b k s \<longleftrightarrow> cs_first s = a \<and> cs_second s = b \<and> cs_step s = k \<and> \<not> cs_ended s \<and>
     relay_ok a \<and> (b = kNoRelay \<or> relay_ok b) \<and> (k = 0 \<or> k = 1 \<and> b \<noteq> kNoRelay)"

text \<open>The last edge of the pulser, seen from the time \<open>nb\<close> the step in hand may start.\<close>

definition edge_near :: "nat \<Rightarrow> RelayPulser \<Rightarrow> nat \<Rightarrow> bool" where
  "edge_near nb p e \<longleftrightarrow> rp_end_ms p = stamp e \<and> e \<le> nb + horizon \<and> nb \<le> e + 8 * horizon"

definition waiting :: "u8 \<Rightarrow> u8 \<Rightarrow> u8 \<Rightarrow> nat \<Rightarrow> nat \<Rightarrow> IoRelays \<Rightarrow> bool" where
  "waiting a b k nb t io \<longleftrightarrow>
     carries a b k (io_sequencer io) \<and> cs_state (io_sequencer io) = Sq_Waiting \<and>
     cs_not_before_ms (io_sequencer io) = stamp nb \<and> nb \<le> t + horizon \<and> t < nb + 2 * horizon \<and>
     (rp_active (io_pulser io) \<or> rp_ended (io_pulser io) \<longrightarrow> (\<exists>e. edge_near nb (io_pulser io) e))"

definition pulsing :: "u8 \<Rightarrow> u8 \<Rightarrow> u8 \<Rightarrow> nat \<Rightarrow> nat \<Rightarrow> IoRelays \<Rightarrow> bool" where
  "pulsing a b k e t io \<longleftrightarrow>
     carries a b k (io_sequencer io) \<and> cs_state (io_sequencer io) = Sq_Pulsing \<and>
     rp_active (io_pulser io) \<and> rp_relay (io_pulser io) = cs_relay (io_sequencer io) \<and>
     rp_end_ms (io_pulser io) = stamp e \<and> t < e \<and> e \<le> t + horizon"

text \<open>After the release and the command queue of a pass, before the step is tried.\<close>

definition ready :: "u8 \<Rightarrow> u8 \<Rightarrow> u8 \<Rightarrow> nat \<Rightarrow> nat \<Rightarrow> IoRelays \<Rightarrow> bool" where
  "ready a b k nb t io \<longleftrightarrow>
     carries a b k (io_sequencer io) \<and> cs_state (io_sequencer io) = Sq_Waiting \<and>
     cs_not_before_ms (io_sequencer io) = stamp nb \<and> nb \<le> t + horizon \<and> t < nb + 3 * horizon \<and>
     (rp_active (io_pulser io) \<or> rp_ended (io_pulser io) \<longrightarrow>
        (\<exists>e. edge_near nb (io_pulser io) e \<and> (rp_active (io_pulser io) \<longrightarrow> t < e)))"

definition io_rest :: "IoParams \<Rightarrow> u32 \<Rightarrow> IoInputs \<Rightarrow> IoRelays \<Rightarrow> (SequenceEnd \<times> bool) option \<times> IoRelays" where
  "io_rest ip now inp io =
     (let (e, io) = io_report (io_sequence ip now inp io) in (e, io_bench_pulse ip now inp io))"

lemma io_pass_stages:
  "io_pass ip now inp io = io_rest ip now inp (io_take_command now inp (io_release now inp io))"
  by (simp add: io_pass_def io_rest_def)

section \<open>One stage at a time\<close>

lemma sequencer_of_release [simp]: "io_sequencer (io_release now inp io) = io_sequencer io"
  by (auto simp: io_release_def split_beta Let_def)

lemma sequencer_of_bench [simp]: "io_sequencer (io_bench_pulse ip now inp io) = io_sequencer io"
  by (auto simp: io_bench_pulse_def split_beta Let_def split: option.splits)

lemma take_command_running [simp]: "cs_running (io_sequencer io) \<Longrightarrow> io_take_command now inp io = io"
  by (auto simp: io_take_command_def split: option.splits)

lemma report_none: "\<not> cs_ended (io_sequencer io) \<Longrightarrow> io_report io = (None, io)"
  by (simp add: io_report_def cs_take_end_def)

lemma sequencer_of_sequence:
  "io_sequencer (io_sequence ip now inp io) =
     snd (snd (cs_service (ip_width_ms ip) (ip_spacing_ms ip) (ip_settle_ms ip) now (io_pulser io) (io_sequencer io)))"
  by (auto simp: io_sequence_def split_beta Let_def)

lemma bench_keeps_active:
  "rp_active (io_pulser io) \<Longrightarrow> io_pulser (io_bench_pulse ip now inp io) = io_pulser io"
  by (auto simp: io_bench_pulse_def rp_start_def split_beta Let_def split: option.splits)

text \<open>A bench pulse either leaves the pulser alone or starts one of its own width; it never starts
  inside the spacing.\<close>

lemma bench_cases:
  obtains "io_pulser (io_bench_pulse ip (stamp t) inp io) = io_pulser io"
  | "\<not> rp_active (io_pulser io)"
    "rp_ended (io_pulser io) \<longrightarrow> reached (stamp t) (rp_end_ms (io_pulser io) + ip_spacing_ms ip)"
    "rp_active (io_pulser (io_bench_pulse ip (stamp t) inp io))"
    "rp_end_ms (io_pulser (io_bench_pulse ip (stamp t) inp io)) = stamp (t + unat (bench_width ip inp))"
proof -
  obtain p' where p': "io_pulser (io_bench_pulse ip (stamp t) inp io) = p'" by blast
  from bench_pulser [of ip "stamp t" inp io] show thesis
    unfolding p'
  proof
    assume "started_by (bench_width ip inp) (ip_spacing_ms ip) (stamp t) (io_pulser io) p'"
    then show thesis
      by (intro that(2)) (auto simp: p' started_by_def rp_start_def stamp_add split: if_splits)
  qed (simp add: that(1) p')
qed

lemma horizon_pos [simp]: "0 < horizon"
  by (simp add: horizon_def)

lemma reached_near:
  assumes "e \<le> t + 16 * horizon" and "t < e + 16 * horizon"
  shows "reached (stamp t) (stamp e) \<longleftrightarrow> e \<le> t"
  using reached_iff [of e t] assms by (simp add: horizon_def)

lemma ready_of_waiting:
  assumes "waiting a b k nb t io" and "t < t'" "t' \<le> t + horizon"
  shows "ready a b k nb t' (io_take_command (stamp t') inp (io_release (stamp t') inp io))"
proof -
  have run: "cs_running (io_sequencer io)"
    using assms(1) by (simp add: waiting_def cs_running_def)
  have near: "reached (stamp t') (stamp e) \<longleftrightarrow> e \<le> t'" if "edge_near nb (io_pulser io) e" for e
    using that assms by (intro reached_near) (auto simp: edge_near_def waiting_def)
  show ?thesis
  proof (cases "rp_active (io_pulser io) \<or> rp_ended (io_pulser io)")
    case True
    then obtain e where e: "edge_near nb (io_pulser io) e"
      using assms(1) by (auto simp: waiting_def)
    have "edge_near nb (snd (rp_update (stamp t') (io_pulser io))) e \<and>
        (rp_active (snd (rp_update (stamp t') (io_pulser io))) \<longrightarrow> t' < e)"
      using e near [OF e] by (auto simp: rp_update_def edge_near_def)
    then show ?thesis
      using assms by (auto simp: run ready_def waiting_def)
  qed (use assms in \<open>auto simp: run ready_def waiting_def rp_update_def\<close>)
qed

lemma relay_of_step: "carries a b k s \<Longrightarrow> relay_ok (cs_relay s)"
  by (auto simp: carries_def cs_relay_def)

lemma carries_state [simp]: "carries a b k (s\<lparr>cs_state := x\<rparr>) = carries a b k s"
  by (simp add: carries_def)

lemma cs_relay_state [simp]: "cs_relay (s\<lparr>cs_state := x\<rparr>) = cs_relay s"
  by (simp add: cs_relay_def)

text \<open>The step is tried: not yet its time, held up by a pulse or by the spacing, or started.\<close>

lemma try_stage:
  assumes rdy: "ready a b k nb t io" and lim: "pass_limits ip inp"
  shows "fst (io_rest ip (stamp t) inp io) = None \<and>
    (waiting a b k nb t (snd (io_rest ip (stamp t) inp io)) \<or>
     (\<exists>e. pulsing a b k e t (snd (io_rest ip (stamp t) inp io))))"
proof -
  let ?p = "io_pulser io" and ?s = "io_sequencer io"
  let ?io2 = "io_sequence ip (stamp t) inp io"
  from rdy have s: "carries a b k ?s" "cs_state ?s = Sq_Waiting" "cs_not_before_ms ?s = stamp nb"
    and nb: "nb \<le> t + horizon" "t < nb + 3 * horizon"
    by (auto simp: ready_def)
  have due: "reached (stamp t) (stamp nb) \<longleftrightarrow> nb \<le> t"
    using nb by (intro reached_near) auto
  have start: "rp_start (cs_relay ?s) (ip_width_ms ip) (ip_spacing_ms ip) (stamp t) ?p =
      (if rp_active ?p then (PR_Busy, ?p)
       else if rp_ended ?p \<and> \<not> reached (stamp t) (rp_end_ms ?p + ip_spacing_ms ip) then (PR_TooSoon, ?p)
       else (PR_Started, ?p\<lparr>rp_active := True, rp_relay := cs_relay ?s,
               rp_end_ms := stamp (t + unat (ip_width_ms ip))\<rparr>))"
    using relay_of_step [OF s(1)] lim
    by (auto simp: rp_start_def relay_ok_def pass_limits_def stamp_add unat_gt_0)
  have spaced: "reached (stamp t) (rp_end_ms ?p + ip_spacing_ms ip) \<longleftrightarrow> e + unat (ip_spacing_ms ip) \<le> t"
    if "edge_near nb ?p e" for e
    using that nb lim by (auto simp: edge_near_def stamp_add pass_limits_def intro!: reached_near)
  show ?thesis
  proof (cases "nb \<le> t \<and> \<not> rp_active ?p \<and>
      (rp_ended ?p \<longrightarrow> reached (stamp t) (rp_end_ms ?p + ip_spacing_ms ip))")
    case True
    then have sq: "io_sequencer ?io2 = ?s\<lparr>cs_state := Sq_Pulsing\<rparr>"
      "io_pulser ?io2 = ?p\<lparr>rp_active := True, rp_relay := cs_relay ?s,
         rp_end_ms := stamp (t + unat (ip_width_ms ip))\<rparr>"
      using s due start by (auto simp: sequencer_of_sequence pulser_of_sequence cs_service_def cs_try_def)
    then have "io_report ?io2 = (None, ?io2)"
      using s by (intro report_none) (simp add: carries_def)
    then show ?thesis
      using s sq lim bench_keeps_active [of ?io2]
      by (auto simp: io_rest_def pulsing_def pass_limits_def)
  next
    case False
    then have sq: "io_sequencer ?io2 = ?s" "io_pulser ?io2 = ?p"
      using s due start by (auto simp: sequencer_of_sequence pulser_of_sequence cs_service_def cs_try_def)
    then have rep: "io_report ?io2 = (None, ?io2)"
      using s by (intro report_none) (simp add: carries_def)
    have early: "t < nb + 2 * horizon"
      using False rdy spaced lim by (auto simp: ready_def edge_near_def pass_limits_def not_le)
    have "rp_active (io_pulser (io_bench_pulse ip (stamp t) inp ?io2)) \<or>
        rp_ended (io_pulser (io_bench_pulse ip (stamp t) inp ?io2)) \<longrightarrow>
      (\<exists>e. edge_near nb (io_pulser (io_bench_pulse ip (stamp t) inp ?io2)) e)"
    proof (rule bench_cases [of ip t inp ?io2])
      assume "io_pulser (io_bench_pulse ip (stamp t) inp ?io2) = io_pulser ?io2"
      then show ?thesis using rdy sq by (auto simp: ready_def)
    next
      assume "\<not> rp_active (io_pulser ?io2)"
        "rp_ended (io_pulser ?io2) \<longrightarrow> reached (stamp t) (rp_end_ms (io_pulser ?io2) + ip_spacing_ms ip)"
        "rp_end_ms (io_pulser (io_bench_pulse ip (stamp t) inp ?io2)) = stamp (t + unat (bench_width ip inp))"
      then show ?thesis
        using False sq nb lim by (auto simp: edge_near_def pass_limits_def)
    qed
    then show ?thesis
      using s sq rep nb early by (auto simp: io_rest_def waiting_def)
  qed
qed

text \<open>A pulse in progress: not yet over, the last one over, or the first of two over.\<close>

lemma pulse_pass:
  assumes pul: "pulsing a b k e t io" and "t < t'" "t' \<le> t + horizon" and lim: "pass_limits ip inp"
  shows "(fst (io_pass ip (stamp t') inp io) = None \<and> t' < e \<and> pulsing a b k e t' (snd (io_pass ip (stamp t') inp io))) \<or>
    ((k = 1 \<or> b = kNoRelay) \<and> (\<exists>fl. fst (io_pass ip (stamp t') inp io) = Some (SE_Done, fl))) \<or>
    (k = 0 \<and> b \<noteq> kNoRelay \<and> fst (io_pass ip (stamp t') inp io) = None \<and>
     (\<exists>nb. waiting a b 1 nb t' (snd (io_pass ip (stamp t') inp io))))"
proof -
  let ?p = "io_pulser io" and ?s = "io_sequencer io"
  define io1 where "io1 = io_release (stamp t') inp io"
  define io2 where "io2 = io_sequence ip (stamp t') inp io1"
  from pul have s: "carries a b k ?s" "cs_state ?s = Sq_Pulsing"
    and p: "rp_active ?p" "rp_end_ms ?p = stamp e" "rp_relay ?p = cs_relay ?s" and e: "t < e" "e \<le> t + horizon"
    by (auto simp: pulsing_def)
  have pass: "io_pass ip (stamp t') inp io = io_rest ip (stamp t') inp io1"
    using s by (simp add: io_pass_stages io1_def cs_running_def)
  have s1: "io_sequencer io1 = ?s" by (simp add: io1_def)
  have due: "reached (stamp t') (stamp e) \<longleftrightarrow> e \<le> t'"
    using e assms(2,3) by (intro reached_near) auto
  have bit: "push_bit (unat (rp_relay ?p)) 1 \<noteq> (0 :: u8)"
    using relay_of_step [OF s(1)] p(3)
    by (auto simp: relay_ok_def kRelayCount_def word_less_nat_alt push_bit_eq_0_iff)
  consider "t' < e" | "e \<le> t'" "k = 1 \<or> b = kNoRelay" | "e \<le> t'" "k = 0" "b \<noteq> kNoRelay"
    using s(1) by (cases "t' < e") (auto simp: carries_def not_less)
  then show ?thesis
  proof cases
    case 1
    then have p1: "io_pulser io1 = ?p" using due p by (simp add: io1_def rp_update_def)
    then have sq: "io_sequencer io2 = ?s" "io_pulser io2 = ?p"
      using s bit p by (simp_all add: io2_def sequencer_of_sequence pulser_of_sequence cs_service_def s1 rp_mask_def)
    then have "io_rest ip (stamp t') inp io1 = (None, io_bench_pulse ip (stamp t') inp io2)"
      using report_none [of io2] s by (simp add: io_rest_def io2_def [symmetric] carries_def)
    then show ?thesis
      using 1 sq s p e assms(2) bench_keeps_active [of io2]
      by (simp add: pass pulsing_def)
  next
    case 2
    then have "\<not> rp_active (io_pulser io1)" using due p by (simp add: io1_def rp_update_def)
    then have "cs_take_end (io_sequencer io2) = (Some SE_Done, (io_sequencer io2)\<lparr>cs_ended := False\<rparr>)"
      using 2 s by (auto simp: io2_def sequencer_of_sequence cs_service_def s1 rp_mask_def carries_def cs_take_end_def)
    then show ?thesis
      using 2 by (simp add: pass io_rest_def io2_def [symmetric] io_report_def)
  next
    case 3
    let ?nb = "t' + unat (ip_settle_ms ip)"
    from 3 have p1: "io_pulser io1 = ?p\<lparr>rp_active := False, rp_ended := True\<rparr>"
      using due p by (simp add: io1_def rp_update_def)
    have "\<not> reached (stamp t') (stamp ?nb)"
      using lim by (subst reached_near) (auto simp: pass_limits_def)
    then have sq: "io_sequencer io2 = ?s\<lparr>cs_step := 1, cs_not_before_ms := stamp ?nb, cs_state := Sq_Waiting\<rparr>"
      "io_pulser io2 = io_pulser io1"
      using 3 s by (auto simp: io2_def sequencer_of_sequence pulser_of_sequence cs_service_def s1 p1 rp_mask_def
          carries_def cs_try_def stamp_add)
    then have rest: "io_rest ip (stamp t') inp io1 = (None, io_bench_pulse ip (stamp t') inp io2)"
      using report_none [of io2] s by (simp add: io_rest_def io2_def [symmetric] carries_def)
    have "\<exists>e. edge_near ?nb (io_pulser (io_bench_pulse ip (stamp t') inp io2)) e"
    proof (rule bench_cases [of ip t' inp io2])
      assume "io_pulser (io_bench_pulse ip (stamp t') inp io2) = io_pulser io2"
      then show ?thesis
        using sq p1 p e 3 assms(2,3) lim by (auto simp: edge_near_def pass_limits_def intro!: exI [of _ e])
    next
      assume "rp_end_ms (io_pulser (io_bench_pulse ip (stamp t') inp io2)) = stamp (t' + unat (bench_width ip inp))"
      then show ?thesis
        using lim by (auto simp: edge_near_def pass_limits_def)
    qed
    then have "waiting a b 1 ?nb t' (io_bench_pulse ip (stamp t') inp io2)"
      using sq s 3 lim by (auto simp: waiting_def carries_def pass_limits_def)
    then show ?thesis
      using 3 rest by (auto simp: pass)
  qed
qed

section \<open>Runs\<close>

type_synonym io_env = "nat \<Rightarrow> nat \<times> IoParams \<times> IoInputs"

definition pass_at :: "io_env \<Rightarrow> nat \<Rightarrow> IoRelays \<Rightarrow> (SequenceEnd \<times> bool) option \<times> IoRelays" where
  "pass_at env n io = (case env n of (t, ip, inp) \<Rightarrow> io_pass ip (stamp t) inp io)"

primrec io_run :: "io_env \<Rightarrow> IoRelays \<Rightarrow> nat \<Rightarrow> IoRelays" where
  "io_run env io 0 = io"
| "io_run env io (Suc n) = snd (pass_at env n (io_run env io n))"

abbreviation time_at :: "io_env \<Rightarrow> nat \<Rightarrow> nat" where
  "time_at env n \<equiv> fst (env n)"

definition env_ok :: "io_env \<Rightarrow> bool" where
  "env_ok env \<longleftrightarrow> (\<forall>n. time_at env n < time_at env (Suc n) \<and> time_at env (Suc n) \<le> time_at env n + horizon \<and>
     pass_limits (fst (snd (env n))) (snd (snd (env n))))"

lemma wait_step:
  assumes "env_ok env" and "waiting a b k nb (time_at env n) (io_run env io (Suc n))"
  shows "waiting a b k nb (time_at env (Suc n)) (io_run env io (Suc (Suc n))) \<or>
    (\<exists>e. pulsing a b k e (time_at env (Suc n)) (io_run env io (Suc (Suc n))))"
proof -
  obtain t ip inp where env: "env (Suc n) = (t, ip, inp)" by (cases "env (Suc n)") auto
  have "time_at env n < t" "t \<le> time_at env n + horizon"
    using assms(1) env by (auto simp: env_ok_def dest: spec [of _ n])
  moreover have "pass_limits ip inp"
    using assms(1) env by (auto simp: env_ok_def dest!: spec [of _ "Suc n"])
  ultimately show ?thesis
    using try_stage [OF ready_of_waiting [OF assms(2)], of t ip inp] env
    by (auto simp: pass_at_def io_pass_stages)
qed

lemma pulse_step:
  assumes "env_ok env" and "pulsing a b k e (time_at env n) (io_run env io (Suc n))"
  shows "(time_at env (Suc n) < e \<and> pulsing a b k e (time_at env (Suc n)) (io_run env io (Suc (Suc n)))) \<or>
    ((k = 1 \<or> b = kNoRelay) \<and> (\<exists>fl. fst (pass_at env (Suc n) (io_run env io (Suc n))) = Some (SE_Done, fl))) \<or>
    (k = 0 \<and> b \<noteq> kNoRelay \<and> (\<exists>nb. waiting a b 1 nb (time_at env (Suc n)) (io_run env io (Suc (Suc n)))))"
proof -
  obtain t ip inp where env: "env (Suc n) = (t, ip, inp)" by (cases "env (Suc n)") auto
  have "time_at env n < t" "t \<le> time_at env n + horizon"
    using assms(1) env by (auto simp: env_ok_def dest: spec [of _ n])
  moreover have "pass_limits ip inp"
    using assms(1) env by (auto simp: env_ok_def dest!: spec [of _ "Suc n"])
  ultimately show ?thesis
    using pulse_pass [OF assms(2), of t ip inp] env by (auto simp: pass_at_def)
qed

lemma eventually_pulses:
  assumes env: "env_ok env" and "waiting a b k nb (time_at env n) (io_run env io (Suc n))"
  shows "\<exists>m>n. \<exists>e. pulsing a b k e (time_at env m) (io_run env io (Suc m))"
  using assms(2)
proof (induction "nb + 2 * horizon - time_at env n" arbitrary: n rule: less_induct)
  case less
  from wait_step [OF env less.prems] show ?case
  proof
    assume w: "waiting a b k nb (time_at env (Suc n)) (io_run env io (Suc (Suc n)))"
    have "time_at env n < time_at env (Suc n)" using env by (auto simp: env_ok_def)
    then have "nb + 2 * horizon - time_at env (Suc n) < nb + 2 * horizon - time_at env n"
      using less.prems by (auto simp: waiting_def)
    from less.hyps [OF this w] show ?thesis by (meson Suc_lessD)
  qed (blast intro: lessI)
qed

lemma eventually_released:
  assumes env: "env_ok env" and "pulsing a b k e (time_at env n) (io_run env io (Suc n))"
  shows "\<exists>m>n. ((k = 1 \<or> b = kNoRelay) \<and> (\<exists>fl. fst (pass_at env m (io_run env io m)) = Some (SE_Done, fl))) \<or>
    (k = 0 \<and> b \<noteq> kNoRelay \<and> (\<exists>nb. waiting a b 1 nb (time_at env m) (io_run env io (Suc m))))"
  using assms(2)
proof (induction "e - time_at env n" arbitrary: n rule: less_induct)
  case less
  from pulse_step [OF env less.prems]
  consider "time_at env (Suc n) < e" "pulsing a b k e (time_at env (Suc n)) (io_run env io (Suc (Suc n)))"
    | "(k = 1 \<or> b = kNoRelay) \<and> (\<exists>fl. fst (pass_at env (Suc n) (io_run env io (Suc n))) = Some (SE_Done, fl)) \<or>
       k = 0 \<and> b \<noteq> kNoRelay \<and> (\<exists>nb. waiting a b 1 nb (time_at env (Suc n)) (io_run env io (Suc (Suc n))))"
    by blast
  then show ?case
  proof cases
    case 1
    have "time_at env n < time_at env (Suc n)" using env by (auto simp: env_ok_def)
    with 1 have "e - time_at env (Suc n) < e - time_at env n" by auto
    from less.hyps [OF this 1(2)] show ?thesis by (meson Suc_lessD)
  qed (blast intro: lessI)
qed

lemma mask_of_pulsing:
  "pulsing a b k e t io \<Longrightarrow> rp_mask (io_pulser io) = push_bit (unat (if k = 0 then a else b)) 1"
  by (auto simp: pulsing_def rp_mask_def carries_def cs_relay_def)

lemma waiting_completes:
  assumes env: "env_ok env"
    and "waiting a b 0 nb (time_at env n) (io_run env io (Suc n)) \<or>
         pulsing a b 0 e (time_at env n) (io_run env io (Suc n))"
  shows "\<exists>i j m fl. n \<le> i \<and> i \<le> j \<and> j < m \<and>
     rp_mask (io_pulser (io_run env io (Suc i))) = push_bit (unat a) 1 \<and>
     (b \<noteq> kNoRelay \<longrightarrow> i < j \<and> rp_mask (io_pulser (io_run env io (Suc j))) = push_bit (unat b) 1) \<and>
     fst (pass_at env m (io_run env io m)) = Some (SE_Done, fl)"
proof -
  from assms(2) eventually_pulses [OF env]
  obtain i e0 where i: "n \<le> i" "pulsing a b 0 e0 (time_at env i) (io_run env io (Suc i))"
    by (meson less_imp_le_nat order_refl)
  note mi = mask_of_pulsing [OF i(2)]
  from eventually_released [OF env i(2)] obtain m where m: "m > i"
    "b = kNoRelay \<and> (\<exists>fl. fst (pass_at env m (io_run env io m)) = Some (SE_Done, fl)) \<or>
     b \<noteq> kNoRelay \<and> (\<exists>nb. waiting a b 1 nb (time_at env m) (io_run env io (Suc m)))"
    by auto
  show ?thesis
  proof (cases "b = kNoRelay")
    case True
    with m obtain fl where "fst (pass_at env m (io_run env io m)) = Some (SE_Done, fl)" by auto
    with True m(1) mi i(1) show ?thesis
      by (intro exI [of _ i] exI [of _ i] exI [of _ m] exI [of _ fl]) auto
  next
    case False
    with m obtain nb' where "waiting a b 1 nb' (time_at env m) (io_run env io (Suc m))" by auto
    from eventually_pulses [OF env this] obtain j e1
      where j: "j > m" "pulsing a b 1 e1 (time_at env j) (io_run env io (Suc j))" by auto
    from eventually_released [OF env j(2)] obtain l fl where "l > j"
      "fst (pass_at env l (io_run env io l)) = Some (SE_Done, fl)" by auto
    with i(1) mi j m(1) mask_of_pulsing [OF j(2)] False show ?thesis
      by (intro exI [of _ i] exI [of _ j] exI [of _ l] exI [of _ fl]) auto
  qed
qed

text \<open>From the pass that takes it to the pass that reports it.\<close>

lemma sequence_completes:
  assumes "env_ok env" and "relay_ok (rs_first sq)" and "rs_second sq = kNoRelay \<or> relay_ok (rs_second sq)"
    and "ii_command (snd (snd (env 0))) = Some sq"
    and "\<not> cs_running (io_sequencer io)"
    and "rp_active (io_pulser io) \<or> rp_ended (io_pulser io) \<Longrightarrow>
      rp_end_ms (io_pulser io) = stamp e \<and> e \<le> time_at env 0 + horizon \<and> time_at env 0 \<le> e + 4 * horizon"
  shows "\<exists>i j m fl. i \<le> j \<and> j < m \<and>
     rp_mask (io_pulser (io_run env io (Suc i))) = push_bit (unat (rs_first sq)) 1 \<and>
     (rs_second sq \<noteq> kNoRelay \<longrightarrow> i < j \<and>
        rp_mask (io_pulser (io_run env io (Suc j))) = push_bit (unat (rs_second sq)) 1) \<and>
     fst (pass_at env m (io_run env io m)) = Some (SE_Done, fl)"
proof -
  obtain t ip inp where e0: "env 0 = (t, ip, inp)" by (cases "env 0") auto
  let ?io1 = "io_take_command (stamp t) inp (io_release (stamp t) inp io)"
  have lim: "pass_limits ip inp" using assms(1) e0 by (auto simp: env_ok_def dest!: spec [of _ 0])
  have near: "reached (stamp t) (stamp e) \<longleftrightarrow> e \<le> t" if "rp_active (io_pulser io)"
    using that assms(6) e0 by (intro reached_near) (auto simp: horizon_def)
  have "ready (rs_first sq) (rs_second sq) 0 t t ?io1"
    using assms near e0
    by (auto simp: ready_def io_take_command_def carries_def cs_begin_def cs_running_def edge_near_def
        rp_update_def)
  from try_stage [OF this lim] have
    "waiting (rs_first sq) (rs_second sq) 0 t t (io_run env io (Suc 0)) \<or>
     (\<exists>e. pulsing (rs_first sq) (rs_second sq) 0 e t (io_run env io (Suc 0)))"
    by (simp add: pass_at_def e0 io_pass_stages)
  then obtain e' where
    "waiting (rs_first sq) (rs_second sq) 0 t (time_at env 0) (io_run env io (Suc 0)) \<or>
     pulsing (rs_first sq) (rs_second sq) 0 e' (time_at env 0) (io_run env io (Suc 0))"
    by (auto simp: e0)
  from waiting_completes [OF assms(1) this] show ?thesis by blast
qed

text \<open>
  A gate command is carried out. Handed to an idle sequencer, a sequence of one or two
  relays energizes the first, then the second, and io_task reports it done, whatever bench
  pulses are asked for and however the parameters change within their limits. The passes must
  be less than a horizon apart and the last relay edge at most four horizons back.
\<close>

theorem gate_command_completes:
  assumes "env_ok env" and "relay_ok (rs_first sq)" and "rs_second sq = kNoRelay \<or> relay_ok (rs_second sq)"
    and "ii_command (snd (snd (env 0))) = Some sq"
    and "\<not> cs_running (io_sequencer io)"
    and "rp_active (io_pulser io) \<or> rp_ended (io_pulser io) \<Longrightarrow>
      rp_end_ms (io_pulser io) = stamp e \<and> e \<le> time_at env 0 + horizon \<and> time_at env 0 \<le> e + 4 * horizon"
  shows "\<exists>i j m fl. i \<le> j \<and> j < m \<and>
     rp_mask (io_pulser (io_run env io (Suc i))) = push_bit (unat (rs_first sq)) 1 \<and>
     (rs_second sq \<noteq> kNoRelay \<longrightarrow> i < j \<and>
        rp_mask (io_pulser (io_run env io (Suc j))) = push_bit (unat (rs_second sq)) 1) \<and>
     fst (pass_at env m (io_run env io m)) = Some (SE_Done, fl)"
  by (rule sequence_completes [OF assms])

text \<open>A close handed over at the first pass of a node just booted, polled every 100 ms.\<close>

definition close_env :: io_env where
  "close_env n = (100 * n + 100, bench_params,
     if n = 0 then quiet_pass\<lparr>ii_command := Some \<lparr>rs_first = 1, rs_second = 3\<rparr>\<rparr> else quiet_pass)"

theorem gate_command_completes_witness:
  "\<exists>i j m fl. i \<le> j \<and> j < m \<and>
     rp_mask (io_pulser (io_run close_env IoRelays_new (Suc i))) = 2 \<and>
     (i < j \<and> rp_mask (io_pulser (io_run close_env IoRelays_new (Suc j))) = 8) \<and>
     fst (pass_at close_env m (io_run close_env IoRelays_new m)) = Some (SE_Done, fl)"
proof -
  have "env_ok close_env"
    by (auto simp: env_ok_def close_env_def pass_limits_def bench_params_def bench_width_def quiet_pass_def
        horizon_def)
  from gate_command_completes [OF this, of "\<lparr>rs_first = 1, rs_second = 3\<rparr>" IoRelays_new 0]
  show ?thesis
    by (simp add: close_env_def relay_ok_def kRelayCount_def IoRelays_new_def CommandSequencer_new_def
        cs_running_def RelayPulser_new_def kNoRelay_def)
qed

section \<open>The idle gate\<close>

text \<open>The pulser at rest since \<open>e\<close>, at a time at which the 32-bit comparison puts that edge in the future.\<close>

definition long_idle :: "nat \<Rightarrow> IoParams \<Rightarrow> nat \<Rightarrow> bool" where
  "long_idle e ip t \<longleftrightarrow> e + unat (ip_spacing_ms ip) + 2 ^ 31 \<le> t \<and> t < e + unat (ip_spacing_ms ip) + 2 ^ 32 \<and> ip_width_ms ip \<noteq> 0"

definition at_rest :: "nat \<Rightarrow> RelayPulser \<Rightarrow> bool" where
  "at_rest e p \<longleftrightarrow> rp_ended p \<and> \<not> rp_active p \<and> rp_end_ms p = stamp e"

definition held_back :: "RelaySequence \<Rightarrow> CommandSequencer \<Rightarrow> bool" where
  "held_back sq c \<longleftrightarrow> cs_state c = Sq_Waiting \<and> \<not> cs_ended c \<and> cs_step c = 0 \<and> cs_first c = rs_first sq \<and> cs_second c = rs_second sq"

lemma rest_holds:
  assumes "at_rest e (io_pulser io)" "long_idle e ip t" "held_back sq (io_sequencer io)" "relay_ok (rs_first sq)"
    "io_rest ip (stamp t) inp io = (r, io')"
  shows "r = None \<and> at_rest e (io_pulser io') \<and> io_sequencer io' = io_sequencer io"
proof -
  let ?now = "stamp t" and ?p = "io_pulser io"
  have late: "\<not> reached ?now (rp_end_ms ?p + ip_spacing_ms ip)"
    using assms(1,2) by (simp add: at_rest_def long_idle_def stamp_add reached_long_past)
  have "rp_start (rs_first sq) (ip_width_ms ip) (ip_spacing_ms ip) ?now ?p = (PR_TooSoon, ?p)"
    using assms late by (simp add: rp_start_def relay_ok_def at_rest_def long_idle_def)
  then have s: "io_sequencer (io_sequence ip ?now inp io) = io_sequencer io" "io_pulser (io_sequence ip ?now inp io) = ?p"
    using assms(3) by (simp_all add: sequencer_of_sequence pulser_of_sequence cs_service_def cs_try_def held_back_def cs_relay_def)
  moreover have "io_pulser (io_bench_pulse ip ?now inp (io_sequence ip ?now inp io)) = ?p"
    by (rule bench_cases [of ip t inp "io_sequence ip ?now inp io"]) (use s assms(1) late in \<open>auto simp: at_rest_def\<close>)
  moreover have "io_report (io_sequence ip ?now inp io) = (None, io_sequence ip ?now inp io)"
    using s assms(3) by (simp add: report_none held_back_def)
  ultimately show ?thesis using assms(1,5) by (auto simp: io_rest_def Let_def)
qed

text \<open>The pass that takes the command, and every one after it.\<close>

lemma pass_takes:
  assumes "at_rest e (io_pulser io)" "\<not> cs_running (io_sequencer io)" "\<not> cs_ended (io_sequencer io)" "ii_command inp = Some sq"
  shows "at_rest e (io_pulser (io_take_command now inp (io_release now inp io)))"
    "held_back sq (io_sequencer (io_take_command now inp (io_release now inp io)))"
  using assms by (simp_all add: at_rest_def rp_update_def io_take_command_def cs_begin_def cs_running_def held_back_def)

lemma pass_keeps:
  assumes "at_rest e (io_pulser io)" "held_back sq (io_sequencer io)"
  shows "at_rest e (io_pulser (io_take_command now inp (io_release now inp io)))"
    "held_back sq (io_sequencer (io_take_command now inp (io_release now inp io)))"
  using assms by (simp_all add: at_rest_def rp_update_def cs_running_def held_back_def)

text \<open>
  C30: after 24.9 days without a relay pulse, and until 49.7 days, a gate command is taken from
  the queue and then held back at every pass. Over every run of passes in that time, whatever their
  parameters, the bench pulses asked for and the commands that follow, no relay is energized, no
  pass reports an end, the sequencer still waits with the first step of that command, and so the
  command is neither run nor acknowledged.
\<close>

theorem idle_gate_holds_command:
  assumes "at_rest e (io_pulser io)" "\<not> cs_running (io_sequencer io)" "\<not> cs_ended (io_sequencer io)"
    "ii_command (snd (snd (env 0))) = Some sq" "relay_ok (rs_first sq)"
    "\<And>k. k \<le> n \<Longrightarrow> long_idle e (fst (snd (env k))) (fst (env k))"
  shows "fst (pass_at env n (io_run env io n)) = None \<and> rp_mask (io_pulser (io_run env io (Suc n))) = 0 \<and>
    held_back sq (io_sequencer (io_run env io (Suc n)))"
proof -
  have "fst (pass_at env n (io_run env io n)) = None \<and> at_rest e (io_pulser (io_run env io (Suc n))) \<and>
      held_back sq (io_sequencer (io_run env io (Suc n)))"
    using assms(6)
  proof (induction n)
    case 0
    obtain t ip inp where e0: "env 0 = (t, ip, inp)" by (metis prod.collapse)
    obtain r io' where p: "io_pass ip (stamp t) inp io = (r, io')" by fastforce
    have "ii_command inp = Some sq" using assms(4) e0 by simp
    note q = pass_takes [OF assms(1-3) this, of "stamp t"]
    have "long_idle e ip t" using 0 [of 0] e0 by simp
    from rest_holds [OF q(1) this q(2) assms(5)] p e0 q(2) show ?case by (simp add: pass_at_def io_pass_stages)
  next
    case (Suc n)
    define u where "u = io_run env io (Suc n)"
    have io: "at_rest e (io_pulser u)" "held_back sq (io_sequencer u)" using Suc unfolding u_def by simp_all
    obtain t ip inp where en: "env (Suc n) = (t, ip, inp)" by (metis prod.collapse)
    obtain r io' where p: "io_pass ip (stamp t) inp u = (r, io')" by fastforce
    then have step: "pass_at env (Suc n) u = (r, io')" by (simp add: pass_at_def en)
    note q = pass_keeps [OF io, of "stamp t" inp]
    have "long_idle e ip t" using Suc.prems [of "Suc n"] en by simp
    from rest_holds [OF q(1) this q(2) assms(5) p [unfolded io_pass_stages]] q(2)
    have "r = None \<and> at_rest e (io_pulser io') \<and> held_back sq (io_sequencer io')" by simp
    moreover have "io_run env io (Suc (Suc n)) = io'" unfolding io_run.simps(2) [of _ _ "Suc n"] u_def [symmetric] step by simp
    ultimately show ?case unfolding u_def [symmetric] step by simp
  qed
  then show ?thesis by (simp add: at_rest_def rp_mask_def)
qed

text \<open>An open 25 days after the last pulse, and a hundred seconds of passes after it.\<close>

definition idle_env :: io_env where
  "idle_env n = (25 * 24 * 3600 * 1000 + 100 * n, bench_params,
     if n = 0 then quiet_pass\<lparr>ii_command := Some \<lparr>rs_first = 2, rs_second = kNoRelay\<rparr>\<rparr> else quiet_pass)"

definition idle_io :: IoRelays where
  "idle_io = IoRelays_new\<lparr>io_pulser := RelayPulser_new\<lparr>rp_ended := True, rp_end_ms := stamp 1000\<rparr>\<rparr>"

theorem idle_gate_holds_command_witness:
  "fst (pass_at idle_env 1000 (io_run idle_env idle_io 1000)) = None \<and>
   rp_mask (io_pulser (io_run idle_env idle_io (Suc 1000))) = 0 \<and> cs_running (io_sequencer (io_run idle_env idle_io (Suc 1000)))"
proof -
  have "at_rest 1000 (io_pulser idle_io)" "\<not> cs_running (io_sequencer idle_io)" "\<not> cs_ended (io_sequencer idle_io)"
    by (simp_all add: idle_io_def at_rest_def IoRelays_new_def RelayPulser_new_def CommandSequencer_new_def cs_running_def)
  moreover have "long_idle 1000 (fst (snd (idle_env k))) (fst (idle_env k))" if "k \<le> 1000" for k
    using that by (simp add: idle_env_def long_idle_def bench_params_def)
  moreover have "ii_command (snd (snd (idle_env 0))) = Some \<lparr>rs_first = 2, rs_second = kNoRelay\<rparr>" "relay_ok 2"
    by (simp_all add: idle_env_def relay_ok_def kRelayCount_def)
  ultimately show ?thesis
    using idle_gate_holds_command [of 1000 idle_io idle_env "\<lparr>rs_first = 2, rs_second = kNoRelay\<rparr>" 1000]
    by (simp add: held_back_def cs_running_def)
qed

end
