(* ===== verification/GateState.thy ===== *)
theory GateState
  imports Clock
begin

text \<open>
  Gate state, hold and its source, and movement cause, derived from the debounced inputs
  (\<open>firmware/gatelink/src\<close>: \<open>gate_state.h\<close>, \<open>gate_state.cpp\<close>; the enumerations from \<open>types.h\<close>).
  \<open>gt_update\<close> is cut into the four parts of \<open>GateTracker::update\<close> in their order: edges and
  claims, the hold confirmation, the change of state, the change of hold.
\<close>

section \<open>Enumerations (types.h)\<close>

datatype GateState = GS_Unknown | GS_Closed | GS_Moving | GS_OpenCountdown | GS_OpenHeld | GS_Fault

fun GateState_u8 :: "GateState \<Rightarrow> u8" where
  "GateState_u8 GS_Unknown = 0x00"
| "GateState_u8 GS_Closed = 0x01"
| "GateState_u8 GS_Moving = 0x02"
| "GateState_u8 GS_OpenCountdown = 0x03"
| "GateState_u8 GS_OpenHeld = 0x04"
| "GateState_u8 GS_Fault = 0x08"

datatype HoldSource = HS_None | HS_Lran | HS_Manual | HS_KeypadFire | HS_Unknown

fun HoldSource_u8 :: "HoldSource \<Rightarrow> u8" where
  "HoldSource_u8 HS_None = 0x00"
| "HoldSource_u8 HS_Lran = 0x01"
| "HoldSource_u8 HS_Manual = 0x02"
| "HoldSource_u8 HS_KeypadFire = 0x03"
| "HoldSource_u8 HS_Unknown = 0x04"

datatype MovementCause =
    MC_Unknown | MC_ExitWand | MC_LranCommand | MC_KeypadFire | MC_ManualHold | MC_ExternalMomentary

fun MovementCause_u8 :: "MovementCause \<Rightarrow> u8" where
  "MovementCause_u8 MC_Unknown = 0x00"
| "MovementCause_u8 MC_ExitWand = 0x01"
| "MovementCause_u8 MC_LranCommand = 0x02"
| "MovementCause_u8 MC_KeypadFire = 0x03"
| "MovementCause_u8 MC_ManualHold = 0x04"
| "MovementCause_u8 MC_ExternalMomentary = 0x05"

section \<open>Inputs, relays and parameters\<close>

definition kInOpen :: u8 where "kInOpen = 0x01"
definition kInMoving :: u8 where "kInMoving = 0x02"
definition kInSafety :: u8 where "kInSafety = 0x04"
definition kInExit :: u8 where "kInExit = 0x08"
definition kInFire :: u8 where "kInFire = 0x10"
definition kInAlarm :: u8 where "kInAlarm = 0x20"

definition kRelayOpenLock :: u8 where "kRelayOpenLock = 0"
definition kRelayUnlock :: u8 where "kRelayUnlock = 1"
definition kRelayOpen :: u8 where "kRelayOpen = 2"

record GateParams =
  gp_hold_confirm_ms :: u32
  gp_cause_window_ms :: u32

definition kChangedState :: u8 where "kChangedState = 1"
definition kChangedHold :: u8 where "kChangedHold = 2"

section \<open>The tracker\<close>

record GateTracker =
  gt_primed :: bool
  gt_prev_inputs :: u8
  gt_state :: GateState
  gt_observed :: GateState
  gt_hold_candidate :: bool
  gt_hold_since_ms :: u32
  gt_held :: bool
  gt_source :: HoldSource
  gt_before_hold :: GateState
  gt_cause :: MovementCause
  gt_cause_pending :: bool
  gt_exit_seen :: bool
  gt_exit_ms :: u32
  gt_fire_seen :: bool
  gt_fire_ms :: u32
  gt_open_pulse_seen :: bool
  gt_open_pulse_ms :: u32
  gt_lran_claim :: bool
  gt_lran_claim_moved :: bool
  gt_lran_claim_ms :: u32
  gt_fire_claim :: bool

definition GateTracker_new :: GateTracker where
  "GateTracker_new = \<lparr>gt_primed = False, gt_prev_inputs = 0, gt_state = GS_Unknown, gt_observed = GS_Unknown,
     gt_hold_candidate = False, gt_hold_since_ms = 0, gt_held = False, gt_source = HS_None,
     gt_before_hold = GS_Unknown, gt_cause = MC_Unknown, gt_cause_pending = False, gt_exit_seen = False,
     gt_exit_ms = 0, gt_fire_seen = False, gt_fire_ms = 0, gt_open_pulse_seen = False, gt_open_pulse_ms = 0,
     gt_lran_claim = False, gt_lran_claim_moved = False, gt_lran_claim_ms = 0, gt_fire_claim = False\<rparr>"

definition gt_hold_byte :: "GateTracker \<Rightarrow> u8" where
  "gt_hold_byte g = (if gt_held g then 1 else 0) OR push_bit 1 (HoldSource_u8 (gt_source g))"

definition within :: "u32 \<Rightarrow> u32 \<Rightarrow> u32 \<Rightarrow> bool" where
  "within now thn window \<longleftrightarrow> now - thn \<le> window"

definition observe :: "u8 \<Rightarrow> GateState" where
  "observe inputs =
     (if inputs AND kInAlarm \<noteq> 0 then GS_Fault
      else let opn = (inputs AND kInOpen \<noteq> 0); moving = (inputs AND kInMoving \<noteq> 0) in
        if \<not> opn then (if moving then GS_Moving else GS_Closed)
        else if moving then GS_OpenCountdown else GS_OpenHeld)"

definition gt_note_pulse :: "u8 \<Rightarrow> u32 \<Rightarrow> GateTracker \<Rightarrow> GateTracker" where
  "gt_note_pulse relay now_ms g =
     (let g = (if relay = kRelayOpenLock \<or> relay = kRelayOpen
               then g\<lparr>gt_open_pulse_seen := True, gt_open_pulse_ms := now_ms\<rparr> else g) in
      if relay = kRelayOpenLock then
        g\<lparr>gt_lran_claim := True, gt_lran_claim_moved := False, gt_lran_claim_ms := now_ms\<rparr>
      else if relay = kRelayUnlock then g\<lparr>gt_lran_claim := False\<rparr>
      else g)"

definition gt_begin_opening :: "u32 \<Rightarrow> GateParams \<Rightarrow> GateTracker \<Rightarrow> GateTracker" where
  "gt_begin_opening now p g =
     (let g = g\<lparr>gt_cause_pending := False\<rparr>; window = gp_cause_window_ms p in
      if gt_exit_seen g \<and> within now (gt_exit_ms g) window then g\<lparr>gt_cause := MC_ExitWand\<rparr>
      else if gt_open_pulse_seen g \<and> within now (gt_open_pulse_ms g) window then g\<lparr>gt_cause := MC_LranCommand\<rparr>
      else if gt_fire_seen g \<and> within now (gt_fire_ms g) window then g\<lparr>gt_cause := MC_KeypadFire\<rparr>
      else g\<lparr>gt_cause := MC_Unknown, gt_cause_pending := True\<rparr>)"

text \<open>The edges of EXIT and FIRE, and what a K1 pulse still claims.\<close>

definition gt_edges :: "u8 \<Rightarrow> u32 \<Rightarrow> GateTracker \<Rightarrow> GateTracker" where
  "gt_edges inputs now_ms g =
     (let rising = (if gt_primed g then inputs AND NOT (gt_prev_inputs g) else 0);
          g = g\<lparr>gt_prev_inputs := inputs, gt_primed := True\<rparr>;
          g = (if rising AND kInExit \<noteq> 0 then g\<lparr>gt_exit_seen := True, gt_exit_ms := now_ms\<rparr> else g)
      in if rising AND kInFire \<noteq> 0
         then g\<lparr>gt_fire_seen := True, gt_fire_ms := now_ms, gt_fire_claim := True\<rparr> else g)"

definition gt_claim :: "GateState \<Rightarrow> u32 \<Rightarrow> GateParams \<Rightarrow> GateTracker \<Rightarrow> GateTracker" where
  "gt_claim seen now_ms p g =
     (let g = (if seen \<noteq> gt_observed g
               then g\<lparr>gt_observed := seen,
                      gt_lran_claim_moved := gt_lran_claim_moved g \<or> gt_lran_claim g\<rparr> else g) in
      if gt_lran_claim g \<and> \<not> gt_lran_claim_moved g \<and>
         \<not> within now_ms (gt_lran_claim_ms g) (gp_cause_window_ms p)
      then g\<lparr>gt_lran_claim := False\<rparr> else g)"

text \<open>The hold confirmation: the state to move to.\<close>

definition gt_confirm :: "GateState \<Rightarrow> u32 \<Rightarrow> GateParams \<Rightarrow> GateTracker \<Rightarrow> GateState \<times> GateTracker" where
  "gt_confirm seen now_ms p g =
     (if seen = GS_OpenHeld then
        let g = (if \<not> gt_hold_candidate g
                 then g\<lparr>gt_hold_candidate := True, gt_hold_since_ms := now_ms\<rparr> else g)
        in (if now_ms - gt_hold_since_ms g < gp_hold_confirm_ms p then gt_state g else seen, g)
      else (seen, g\<lparr>gt_hold_candidate := False\<rparr>))"

definition gt_settle_cause :: "GateState \<Rightarrow> GateTracker \<Rightarrow> GateTracker" where
  "gt_settle_cause nxt g =
     (if gt_cause_pending g \<and> (nxt = GS_OpenHeld \<or> nxt = GS_OpenCountdown)
      then g\<lparr>gt_cause_pending := False,
             gt_cause := (if nxt = GS_OpenHeld then MC_ManualHold else MC_ExternalMomentary)\<rparr>
      else g)"

definition gt_move :: "GateState \<Rightarrow> u32 \<Rightarrow> GateParams \<Rightarrow> GateTracker \<Rightarrow> u8 \<times> GateTracker" where
  "gt_move nxt now_ms p g =
     (if nxt = gt_state g then (0, g)
      else let prev = gt_state g;
               g = g\<lparr>gt_state := nxt\<rparr>;
               g = (if prev = GS_Closed then gt_begin_opening now_ms p g else g);
               g = (if nxt = GS_OpenHeld then g\<lparr>gt_before_hold := prev\<rparr> else g);
               g = gt_settle_cause nxt g
        in (kChangedState,
            if nxt = GS_Closed
            then g\<lparr>gt_cause_pending := False, gt_lran_claim := False, gt_fire_claim := False\<rparr> else g))"

definition gt_hold :: "u8 \<Rightarrow> GateTracker \<Rightarrow> u8 \<times> GateTracker" where
  "gt_hold changed g =
     (let held_now = (gt_state g = GS_OpenHeld) in
      if held_now = gt_held g then (changed, g)
      else (changed OR kChangedHold,
            g\<lparr>gt_held := held_now,
              gt_source := (if \<not> held_now then HS_None
                            else if gt_before_hold g = GS_Unknown then HS_Unknown
                            else if gt_lran_claim g then HS_Lran
                            else if gt_fire_claim g then HS_KeypadFire
                            else HS_Manual),
              gt_lran_claim := False\<rparr>))"

definition gt_update :: "u8 \<Rightarrow> u32 \<Rightarrow> GateParams \<Rightarrow> GateTracker \<Rightarrow> u8 \<times> GateTracker" where
  "gt_update inputs now_ms p g =
     (let seen = observe inputs;
          (nxt, g) = gt_confirm seen now_ms p (gt_claim seen now_ms p (gt_edges inputs now_ms g));
          (changed, g) = gt_move nxt now_ms p g
      in gt_hold changed g)"

section \<open>Histories\<close>

text \<open>What \<open>app_task\<close> tells the tracker: a relay pulse, or one debounced read.\<close>

datatype tracker_call = GK_Pulse u8 u32 | GK_Read u8 u32 GateParams

fun gt_call :: "tracker_call \<Rightarrow> GateTracker \<Rightarrow> GateTracker" where
  "gt_call (GK_Pulse relay now) g = gt_note_pulse relay now g"
| "gt_call (GK_Read inputs now p) g = snd (gt_update inputs now p g)"

definition gt_run :: "tracker_call list \<Rightarrow> GateTracker" where
  "gt_run calls = fold gt_call calls GateTracker_new"

text \<open>The reference reading of a history, newest read first: the state is what the inputs show,
  except that an unmoving open gate counts as held only once some read of the present spell
  came \<open>hold_confirm_ms\<close> after its first; until then the state before the spell stands.\<close>

fun gate_reads :: "tracker_call list \<Rightarrow> (GateState \<times> u32 \<times> GateParams) list" where
  "gate_reads [] = []"
| "gate_reads (GK_Pulse _ _ # cs) = gate_reads cs"
| "gate_reads (GK_Read inputs now p # cs) = (observe inputs, now, p) # gate_reads cs"

definition held_spell :: "(GateState \<times> u32 \<times> GateParams) list \<Rightarrow> (GateState \<times> u32 \<times> GateParams) list" where
  "held_spell rs = takeWhile (\<lambda>(s, _, _). s = GS_OpenHeld) rs"

definition state_before_spell :: "(GateState \<times> u32 \<times> GateParams) list \<Rightarrow> GateState" where
  "state_before_spell rs =
     (case dropWhile (\<lambda>(s, _, _). s = GS_OpenHeld) rs of [] \<Rightarrow> GS_Unknown | (s, _, _) # _ \<Rightarrow> s)"

definition spell_confirmed :: "(GateState \<times> u32 \<times> GateParams) list \<Rightarrow> bool" where
  "spell_confirmed rs =
     (held_spell rs \<noteq> [] \<and>
      list_ex (\<lambda>(_, now, p). now - fst (snd (last (held_spell rs))) \<ge> gp_hold_confirm_ms p) (held_spell rs))"

definition reference_state :: "(GateState \<times> u32 \<times> GateParams) list \<Rightarrow> GateState" where
  "reference_state rs = (if spell_confirmed rs then GS_OpenHeld else state_before_spell rs)"

section \<open>The tracker implements the reference\<close>

definition gt_tracks :: "(GateState \<times> u32 \<times> GateParams) list \<Rightarrow> GateTracker \<Rightarrow> bool" where
  "gt_tracks rs g \<longleftrightarrow>
     gt_state g = reference_state rs \<and> gt_held g = (gt_state g = GS_OpenHeld) \<and>
     (gt_source g = HS_None) = (\<not> gt_held g) \<and>
     gt_hold_candidate g = (held_spell rs \<noteq> []) \<and>
     (held_spell rs \<noteq> [] \<longrightarrow> gt_hold_since_ms g = fst (snd (last (held_spell rs))))"

lemma tracks_new: "gt_tracks [] GateTracker_new"
  by (simp add: gt_tracks_def GateTracker_new_def reference_state_def spell_confirmed_def
      held_spell_def state_before_spell_def)

lemma tracks_cong:
  "gt_state g' = gt_state g \<Longrightarrow> gt_held g' = gt_held g \<Longrightarrow> gt_source g' = gt_source g \<Longrightarrow>
   gt_hold_candidate g' = gt_hold_candidate g \<Longrightarrow> gt_hold_since_ms g' = gt_hold_since_ms g \<Longrightarrow>
   gt_tracks rs g \<Longrightarrow> gt_tracks rs g'"
  by (simp add: gt_tracks_def)

lemma tracks_pulse: "gt_tracks rs g \<Longrightarrow> gt_tracks rs (gt_note_pulse relay now g)"
  by (rule tracks_cong [of _ g]) (auto simp: gt_note_pulse_def Let_def)

lemma tracks_claim:
  "gt_tracks rs g \<Longrightarrow> gt_tracks rs (gt_claim seen now p (gt_edges inputs now g))"
  by (rule tracks_cong [of _ g]) (auto simp: gt_claim_def gt_edges_def Let_def)

lemma reference_not_held:
  "s \<noteq> GS_OpenHeld \<Longrightarrow> held_spell ((s, now, p) # rs) = [] \<and> reference_state ((s, now, p) # rs) = s"
  by (simp add: reference_state_def spell_confirmed_def held_spell_def state_before_spell_def)

lemma reference_held:
  "held_spell ((GS_OpenHeld, now, p) # rs) = (GS_OpenHeld, now, p) # held_spell rs"
  "reference_state ((GS_OpenHeld, now, p) # rs) =
     (let since = (if held_spell rs = [] then now else fst (snd (last (held_spell rs)))) in
      if now - since \<ge> gp_hold_confirm_ms p then GS_OpenHeld else reference_state rs)"
  by (auto simp: reference_state_def spell_confirmed_def held_spell_def state_before_spell_def Let_def
      list_ex_iff)

lemma confirm_tracks:
  assumes "gt_tracks rs g" and "gt_confirm seen now p g = (nxt, g')"
  shows "nxt = reference_state ((seen, now, p) # rs) \<and> gt_state g' = gt_state g \<and> gt_held g' = gt_held g \<and>
    gt_source g' = gt_source g \<and>
    gt_hold_candidate g' = (held_spell ((seen, now, p) # rs) \<noteq> []) \<and>
    (held_spell ((seen, now, p) # rs) \<noteq> [] \<longrightarrow>
       gt_hold_since_ms g' = fst (snd (last (held_spell ((seen, now, p) # rs)))))"
proof (cases "seen = GS_OpenHeld")
  case True
  with assms show ?thesis
    by (auto simp: gt_confirm_def gt_tracks_def reference_held Let_def not_less split: if_splits)
next
  case False
  with assms show ?thesis
    by (auto simp: gt_confirm_def reference_not_held)
qed

lemma begin_opening_fields [simp]:
  "gt_state (gt_begin_opening now p g) = gt_state g" "gt_held (gt_begin_opening now p g) = gt_held g"
  "gt_source (gt_begin_opening now p g) = gt_source g"
  "gt_hold_candidate (gt_begin_opening now p g) = gt_hold_candidate g"
  "gt_hold_since_ms (gt_begin_opening now p g) = gt_hold_since_ms g"
  by (simp_all add: gt_begin_opening_def Let_def)

lemma settle_cause_fields [simp]:
  "gt_state (gt_settle_cause nxt g) = gt_state g" "gt_held (gt_settle_cause nxt g) = gt_held g"
  "gt_source (gt_settle_cause nxt g) = gt_source g"
  "gt_hold_candidate (gt_settle_cause nxt g) = gt_hold_candidate g"
  "gt_hold_since_ms (gt_settle_cause nxt g) = gt_hold_since_ms g"
  by (simp_all add: gt_settle_cause_def)

lemma move_fields:
  assumes "gt_move nxt now p g = (c, g')"
  shows "gt_state g' = nxt \<and> gt_held g' = gt_held g \<and> gt_source g' = gt_source g \<and>
    gt_hold_candidate g' = gt_hold_candidate g \<and> gt_hold_since_ms g' = gt_hold_since_ms g"
  using assms by (auto simp: gt_move_def Let_def split: if_splits)

lemma hold_fields:
  assumes "gt_hold c g = (c', g')" and "(gt_source g = HS_None) = (\<not> gt_held g)"
  shows "gt_state g' = gt_state g \<and> gt_held g' = (gt_state g = GS_OpenHeld) \<and>
    (gt_source g' = HS_None) = (\<not> gt_held g') \<and>
    gt_hold_candidate g' = gt_hold_candidate g \<and> gt_hold_since_ms g' = gt_hold_since_ms g"
  using assms by (auto simp: gt_hold_def Let_def split: if_splits)

lemma tracks_update:
  assumes "gt_tracks rs g"
  shows "gt_tracks ((observe inputs, now, p) # rs) (snd (gt_update inputs now p g))"
proof -
  define g1 where "g1 = gt_claim (observe inputs) now p (gt_edges inputs now g)"
  obtain nxt g2 where c: "gt_confirm (observe inputs) now p g1 = (nxt, g2)" by fastforce
  obtain ch g3 where m: "gt_move nxt now p g2 = (ch, g3)" by fastforce
  obtain ch' g4 where h: "gt_hold ch g3 = (ch', g4)" by fastforce
  from tracks_claim [OF assms] have t1: "gt_tracks rs g1" by (simp add: g1_def)
  have "snd (gt_update inputs now p g) = g4"
    by (simp add: gt_update_def g1_def [symmetric] c m h)
  moreover have "(gt_source g3 = HS_None) = (\<not> gt_held g3)"
    using t1 confirm_tracks [OF t1 c] move_fields [OF m] by (simp add: gt_tracks_def)
  ultimately show ?thesis
    using confirm_tracks [OF t1 c] move_fields [OF m] hold_fields [OF h] by (auto simp: gt_tracks_def)
qed

lemma gate_reads_append: "gate_reads (xs @ ys) = gate_reads xs @ gate_reads ys"
  by (induction xs rule: gate_reads.induct) simp_all

lemma tracks_run: "gt_tracks (rev (gate_reads calls)) (gt_run calls)"
proof (induction calls rule: rev_induct)
  case Nil
  show ?case by (simp add: gt_run_def tracks_new)
next
  case (snoc c cs)
  then show ?case
    by (cases c) (simp_all add: gt_run_def gate_reads_append tracks_pulse tracks_update)
qed

lemma hold_byte_held: "gt_hold_byte g AND 1 = (if gt_held g then 1 else 0)"
  by (cases "gt_source g"; cases "gt_held g") (simp_all add: gt_hold_byte_def)

lemma hold_byte_source: "drop_bit 1 (gt_hold_byte g) = HoldSource_u8 (gt_source g)"
  by (cases "gt_source g"; cases "gt_held g") (simp_all add: gt_hold_byte_def)

lemma HoldSource_None_iff: "(HoldSource_u8 s = HoldSource_u8 HS_None) = (s = HS_None)"
  by (cases s) simp_all

text \<open>
  C31: the gate state an app_task reports is the reference reading of the inputs since boot,
  whatever relay pulses were noted in between and however the clock wraps: what the inputs
  show, with an open gate that does not move counted as held only once a read of the present
  spell came hold_confirm_ms after its first. The hold byte carries held exactly in that state,
  with a source exactly then.
\<close>

theorem gate_state_from_inputs:
  "gt_state (gt_run calls) = reference_state (rev (gate_reads calls)) \<and>
   gt_hold_byte (gt_run calls) AND 1 = (if reference_state (rev (gate_reads calls)) = GS_OpenHeld then 1 else 0) \<and>
   (drop_bit 1 (gt_hold_byte (gt_run calls)) = HoldSource_u8 HS_None) =
     (reference_state (rev (gate_reads calls)) \<noteq> GS_OpenHeld)"
  using tracks_run [of calls]
  unfolding gt_tracks_def hold_byte_held hold_byte_source HoldSource_None_iff by metis

end
