(* ===== verification/Detect.thy ===== *)
theory Detect
  imports GateState Names Schemas
begin

text \<open>
  Vehicle detection, direction and the held-open alert (\<open>firmware/gatelink/src\<close>: \<open>detect.h\<close>,
  \<open>detect.cpp\<close>), with the push list and the event counter its callers share. An operation that
  draws an event id or appends a push takes and returns the counter and the list.
\<close>

section \<open>Event ids and pushes\<close>

datatype Direction = Dir_None | Dir_Entry | Dir_Exit | Dir_Undetermined

fun Direction_u8 :: "Direction \<Rightarrow> u8" where
  "Direction_u8 Dir_None = 0x00"
| "Direction_u8 Dir_Entry = 0x01"
| "Direction_u8 Dir_Exit = 0x02"
| "Direction_u8 Dir_Undetermined = 0x03"

text \<open>\<open>EventIds\<close> is its last id; \<open>next\<close> is one atomic step.\<close>

type_synonym EventIds = u32

definition EventIds_next :: "EventIds \<Rightarrow> u32 \<times> EventIds" where
  "EventIds_next ids = (ids + 1, ids + 1)"

record DetectParams =
  dp_window_ms :: u32
  dp_idle_ms :: u32
  dp_alert_repeat_s :: u32

record GateContext =
  gc_held :: bool
  gc_hold_source :: HoldSource
  gc_gate_state :: GateState
  gc_input_bits :: u8
  gc_uptime_s :: u32

datatype PushKind = PK_Status | PK_Event

record Push =
  push_kind :: PushKind
  push_reason :: StatusReason
  push_event :: GateLinkEventV1

definition GateLinkEventV1_init :: GateLinkEventV1 where
  "GateLinkEventV1_init = \<lparr>ev_event_type = 0, ev_event_flags = 0, ev_hold_source = 0, ev_direction = 0,
     ev_gate_state = 0, ev_input_bits = 0, ev_detail = 0, ev_event_id = 0, ev_uptime_s = 0\<rparr>"

definition Push_init :: Push where
  "Push_init = \<lparr>push_kind = PK_Status, push_reason = SR_PollResponse, push_event = GateLinkEventV1_init\<rparr>"

type_synonym PushList = "Push list"

definition kPushCap :: nat where "kPushCap = 4"

definition pl_add :: "Push \<Rightarrow> PushList \<Rightarrow> bool \<times> PushList" where
  "pl_add p items = (if length items = kPushCap then (False, items) else (True, items @ [p]))"

text \<open>Every caller ignores the result of \<open>add\<close>.\<close>

definition push_to :: "PushList \<Rightarrow> Push \<Rightarrow> PushList" where
  "push_to items p = snd (pl_add p items)"

definition status_push :: "StatusReason \<Rightarrow> Push" where
  "status_push r = Push_init\<lparr>push_reason := r\<rparr>"

definition event_push :: "GateLinkEventV1 \<Rightarrow> Push" where
  "event_push ev = Push_init\<lparr>push_kind := PK_Event, push_event := ev\<rparr>"

section \<open>The detector\<close>

datatype Phase = Ph_Idle | Ph_Armed | Ph_Settling

record Detector =
  dt_primed :: bool
  dt_prev :: u8
  dt_phase :: Phase
  dt_first :: u8
  dt_crossed :: bool
  dt_start_ms :: u32
  dt_quiet :: bool
  dt_quiet_since_ms :: u32
  dt_event_id :: u32
  dt_event_type :: EventType
  dt_alerted :: bool
  dt_suppressed :: bool
  dt_alert_ever :: bool
  dt_last_alert_ms :: u32
  dt_last_direction :: Direction
  dt_traversal_seen :: bool
  dt_traversal_ms :: u32

definition Detector_new :: Detector where
  "Detector_new = \<lparr>dt_primed = False, dt_prev = 0, dt_phase = Ph_Idle, dt_first = 0, dt_crossed = False,
     dt_start_ms = 0, dt_quiet = True, dt_quiet_since_ms = 0, dt_event_id = 0,
     dt_event_type = ET_VehicleDetected, dt_alerted = False, dt_suppressed = False, dt_alert_ever = False,
     dt_last_alert_ms = 0, dt_last_direction = Dir_None, dt_traversal_seen = False, dt_traversal_ms = 0\<rparr>"

definition kSensors :: u8 where "kSensors = kInSafety OR kInExit"

definition dt_event :: "EventType \<Rightarrow> GateContext \<Rightarrow> GateLinkEventV1" where
  "dt_event t g = GateLinkEventV1_init\<lparr>ev_event_type := EventType_u8 t,
     ev_hold_source := HoldSource_u8 (gc_hold_source g), ev_gate_state := GateState_u8 (gc_gate_state g),
     ev_input_bits := gc_input_bits g, ev_uptime_s := gc_uptime_s g\<rparr>"

type_synonym det_state = "Detector \<times> EventIds \<times> PushList"

definition dt_limited :: "u32 \<Rightarrow> GateContext \<Rightarrow> DetectParams \<Rightarrow> Detector \<Rightarrow> bool" where
  "dt_limited now_ms g p d \<longleftrightarrow> gc_held g \<and> dp_alert_repeat_s p \<noteq> 0 \<and> dt_alert_ever d \<and>
     now_ms - dt_last_alert_ms d < dp_alert_repeat_s p * 1000"

definition dt_first_event :: "u32 \<Rightarrow> GateContext \<Rightarrow> DetectParams \<Rightarrow> Direction \<Rightarrow> det_state \<Rightarrow> det_state" where
  "dt_first_event now_ms g p dir st =
     (case st of (d, ids, out) \<Rightarrow>
      let limited = dt_limited now_ms g p d;
          alert = (gc_held g \<and> \<not> limited);
          d = d\<lparr>dt_suppressed := dt_suppressed d \<or> limited\<rparr>;
          d = (if alert then d\<lparr>dt_alerted := True, dt_alert_ever := True, dt_last_alert_ms := now_ms\<rparr> else d);
          t = (if alert then ET_VehicleWhileHeldOpen else ET_VehicleDetected);
          (i, ids) = EventIds_next ids;
          d = d\<lparr>dt_event_type := t, dt_event_id := i\<rparr>
      in (d, ids, push_to out
            (event_push ((dt_event t g)\<lparr>ev_event_id := i, ev_direction := Direction_u8 dir\<rparr>))))"

definition dt_resolve :: "Direction \<Rightarrow> bool \<Rightarrow> u32 \<Rightarrow> GateContext \<Rightarrow> det_state \<Rightarrow> det_state" where
  "dt_resolve dir traversal now_ms g st =
     (case st of (d, ids, out) \<Rightarrow>
      let d = d\<lparr>dt_last_direction := dir, dt_crossed := traversal\<rparr>;
          d = (if traversal then d\<lparr>dt_traversal_seen := True, dt_traversal_ms := now_ms\<rparr> else d);
          out = push_to out (event_push ((dt_event (dt_event_type d) g)
                  \<lparr>ev_event_flags := 0x01, ev_event_id := dt_event_id d, ev_direction := Direction_u8 dir\<rparr>));
          out = push_to out (status_push SR_VehicleDetected)
      in (d\<lparr>dt_phase := (if dt_quiet d then Ph_Idle else Ph_Settling)\<rparr>, ids, out))"

text \<open>The edges of the two sensors, before the switch on the phase.\<close>

definition dt_sense :: "u8 \<Rightarrow> u32 \<Rightarrow> Detector \<Rightarrow> u8 \<times> Detector" where
  "dt_sense inputs now_ms d =
     (let bits = inputs AND kSensors;
          rise = (if dt_primed d then bits AND NOT (dt_prev d) else 0);
          d = d\<lparr>dt_prev := bits, dt_primed := True\<rparr>
      in (rise,
          if bits \<noteq> 0 then d\<lparr>dt_quiet := False\<rparr>
          else if \<not> dt_quiet d then d\<lparr>dt_quiet := True, dt_quiet_since_ms := now_ms\<rparr> else d))"

definition dt_idle_step :: "u8 \<Rightarrow> u32 \<Rightarrow> GateContext \<Rightarrow> DetectParams \<Rightarrow> det_state \<Rightarrow> det_state" where
  "dt_idle_step rise now_ms g p st =
     (if rise = 0 then st
      else case st of (d, ids, out) \<Rightarrow>
        let d = d\<lparr>dt_alerted := False, dt_suppressed := False, dt_start_ms := now_ms\<rparr>;
            st = dt_first_event now_ms g p Dir_Undetermined (d, ids, out)
        in if rise = kSensors then dt_resolve Dir_Undetermined True now_ms g st
           else (case st of (d, ids, out) \<Rightarrow> (d\<lparr>dt_first := rise, dt_phase := Ph_Armed\<rparr>, ids, out)))"

definition dt_armed_step ::
  "u8 \<Rightarrow> bool \<Rightarrow> u32 \<Rightarrow> GateContext \<Rightarrow> DetectParams \<Rightarrow> det_state \<Rightarrow> det_state" where
  "dt_armed_step rise late_alert now_ms g p st =
     (if rise AND NOT (dt_first (fst st)) \<noteq> 0 then
        dt_resolve (if dt_first (fst st) = kInExit then Dir_Exit else Dir_Entry) True now_ms g st
      else let st = (if late_alert then dt_first_event now_ms g p Dir_Undetermined st else st); d = fst st in
        if now_ms - dt_start_ms d \<ge> dp_window_ms p \<or>
           (dt_quiet d \<and> now_ms - dt_quiet_since_ms d \<ge> dp_idle_ms p)
        then dt_resolve Dir_Undetermined False now_ms g st else st)"

definition dt_settling_step ::
  "bool \<Rightarrow> u32 \<Rightarrow> GateContext \<Rightarrow> DetectParams \<Rightarrow> det_state \<Rightarrow> det_state" where
  "dt_settling_step late_alert now_ms g p st =
     (case (if late_alert then dt_first_event now_ms g p (dt_last_direction (fst st)) st else st) of
        (d, ids, out) \<Rightarrow>
          if dt_quiet d \<and> (\<not> dt_crossed d \<or> now_ms - dt_quiet_since_ms d \<ge> dp_idle_ms p)
          then (d\<lparr>dt_phase := Ph_Idle\<rparr>, ids, out) else (d, ids, out))"

definition dt_update ::
  "u8 \<Rightarrow> u32 \<Rightarrow> GateContext \<Rightarrow> DetectParams \<Rightarrow> det_state \<Rightarrow> det_state" where
  "dt_update inputs now_ms g p st =
     (case st of (d, ids, out) \<Rightarrow>
      let (rise, d) = dt_sense inputs now_ms d;
          late_alert = (rise \<noteq> 0 \<and> gc_held g \<and> \<not> dt_alerted d \<and> \<not> dt_suppressed d)
      in case dt_phase d of
           Ph_Idle \<Rightarrow> dt_idle_step rise now_ms g p (d, ids, out)
         | Ph_Armed \<Rightarrow> dt_armed_step rise late_alert now_ms g p (d, ids, out)
         | Ph_Settling \<Rightarrow> dt_settling_step late_alert now_ms g p (d, ids, out))"

definition dt_flags :: "u8 \<Rightarrow> Detector \<Rightarrow> u8" where
  "dt_flags inputs d =
     (let active = (dt_phase d \<noteq> Ph_Idle) in
      (if inputs AND kInSafety \<noteq> 0 then 0x01 else 0) OR
      (if inputs AND kInExit \<noteq> 0 then 0x02 else 0) OR
      (if dt_phase d = Ph_Armed then 0x04 else 0) OR
      (if active \<and> dt_alerted d then 0x08 else 0) OR
      (if active \<and> dt_suppressed d then 0x10 else 0))"

definition last_traversal_age_s :: "u32 \<Rightarrow> Detector \<Rightarrow> u32" where
  "last_traversal_age_s now_ms d =
     (if dt_traversal_seen d then (now_ms - dt_traversal_ms d) div 1000 else 0xFFFFFFFF)"

section \<open>What one update asks for\<close>

text \<open>An update appends its pushes to the list it is given, at most three of them, so a list that
  holds one push already takes them all.\<close>

lemma push_to_room: "length out < 4 \<Longrightarrow> push_to out p = out @ [p]"
  by (simp add: push_to_def pl_add_def kPushCap_def)

definition first_type :: "u32 \<Rightarrow> GateContext \<Rightarrow> DetectParams \<Rightarrow> Detector \<Rightarrow> EventType" where
  "first_type now g p d =
     (if gc_held g \<and> \<not> dt_limited now g p d then ET_VehicleWhileHeldOpen else ET_VehicleDetected)"

definition first_noted :: "u32 \<Rightarrow> GateContext \<Rightarrow> DetectParams \<Rightarrow> u32 \<Rightarrow> Detector \<Rightarrow> Detector" where
  "first_noted now g p ids d = fst (dt_first_event now g p Dir_None (d, ids, []))"

definition first_push :: "u32 \<Rightarrow> GateContext \<Rightarrow> DetectParams \<Rightarrow> Direction \<Rightarrow> u32 \<Rightarrow> Detector \<Rightarrow> Push" where
  "first_push now g p dir ids d =
     event_push ((dt_event (first_type now g p d) g)\<lparr>ev_event_id := ids + 1, ev_direction := Direction_u8 dir\<rparr>)"

definition follow_push :: "Direction \<Rightarrow> GateContext \<Rightarrow> Detector \<Rightarrow> Push" where
  "follow_push dir g d = event_push ((dt_event (dt_event_type d) g)
     \<lparr>ev_event_flags := 0x01, ev_event_id := dt_event_id d, ev_direction := Direction_u8 dir\<rparr>)"

definition resolved :: "Direction \<Rightarrow> bool \<Rightarrow> u32 \<Rightarrow> Detector \<Rightarrow> Detector" where
  "resolved dir tr now d = fst (dt_resolve dir tr now undefined (d, undefined, []))"

lemma dt_first_event_eq:
  "length out < 4 \<Longrightarrow> dt_first_event now g p dir (d, ids, out) =
     (first_noted now g p ids d, ids + 1, out @ [first_push now g p dir ids d])"
  by (simp add: dt_first_event_def first_noted_def first_push_def first_type_def EventIds_next_def push_to_room Let_def)

lemma dt_resolve_eq:
  "length out < 3 \<Longrightarrow> dt_resolve dir tr now g (d, ids, out) =
     (resolved dir tr now d, ids, out @ [follow_push dir g d, status_push SR_VehicleDetected])"
  by (simp add: dt_resolve_def resolved_def follow_push_def push_to_room Let_def)

lemma first_noted_simps [simp]:
  "dt_phase (first_noted now g p ids d) = dt_phase d"
  "dt_event_id (first_noted now g p ids d) = ids + 1"
  "dt_start_ms (first_noted now g p ids d) = dt_start_ms d"
  "dt_first (first_noted now g p ids d) = dt_first d"
  "dt_quiet (first_noted now g p ids d) = dt_quiet d"
  by (simp_all add: first_noted_def dt_first_event_def EventIds_next_def Let_def)

lemma resolved_simps [simp]:
  "dt_phase (resolved dir tr now d) = (if dt_quiet d then Ph_Idle else Ph_Settling)"
  "dt_event_id (resolved dir tr now d) = dt_event_id d"
  by (simp_all add: resolved_def dt_resolve_def Let_def)

lemma sense_simps:
  assumes "dt_sense inputs now d = (rise, d')"
  shows "dt_phase d' = dt_phase d" "dt_event_id d' = dt_event_id d" "dt_start_ms d' = dt_start_ms d"
    "dt_first d' = dt_first d"
  using assms by (auto simp: dt_sense_def Let_def split: if_splits)

text \<open>The pushes one update asks for, with no list and no bound on one.\<close>

definition dt_asks :: "u8 \<Rightarrow> u32 \<Rightarrow> GateContext \<Rightarrow> DetectParams \<Rightarrow> Detector \<Rightarrow> EventIds \<Rightarrow> Push list" where
  "dt_asks inputs now g p d ids =
     (let (rise, d) = dt_sense inputs now d;
          late = (rise \<noteq> 0 \<and> gc_held g \<and> \<not> dt_alerted d \<and> \<not> dt_suppressed d);
          refined = (\<lambda>dir e. [follow_push dir g e, status_push SR_VehicleDetected])
      in case dt_phase d of
           Ph_Idle \<Rightarrow>
             (let d0 = d\<lparr>dt_alerted := False, dt_suppressed := False, dt_start_ms := now\<rparr> in
              if rise = 0 then []
              else first_push now g p Dir_Undetermined ids d0 #
                (if rise = kSensors then refined Dir_Undetermined (first_noted now g p ids d0) else []))
         | Ph_Armed \<Rightarrow>
             if rise AND NOT (dt_first d) \<noteq> 0 then refined (if dt_first d = kInExit then Dir_Exit else Dir_Entry) d
             else let d1 = (if late then first_noted now g p ids d else d) in
               (if late then [first_push now g p Dir_Undetermined ids d] else []) @
               (if now - dt_start_ms d1 \<ge> dp_window_ms p \<or> (dt_quiet d1 \<and> now - dt_quiet_since_ms d1 \<ge> dp_idle_ms p)
                then refined Dir_Undetermined d1 else [])
         | Ph_Settling \<Rightarrow> if late then [first_push now g p (dt_last_direction d) ids d] else [])"

lemmas detector_steps = dt_idle_step_def dt_armed_step_def dt_settling_step_def
  dt_first_event_eq dt_resolve_eq

lemma dt_update_appends:
  assumes "length out \<le> 1"
  shows "dt_update inputs now g p (d, ids, out) =
    (case dt_update inputs now g p (d, ids, []) of (d', ids', ps) \<Rightarrow> (d', ids', out @ ps))"
proof -
  obtain rise d1 where s: "dt_sense inputs now d = (rise, d1)" by fastforce
  show ?thesis
    using assms
    by (cases "dt_phase d1") (auto simp: dt_update_def s Let_def detector_steps)
qed

lemma dt_update_asks: "snd (snd (dt_update inputs now g p (d, ids, []))) = dt_asks inputs now g p d ids"
proof -
  obtain rise d1 where s: "dt_sense inputs now d = (rise, d1)" by fastforce
  show ?thesis
    by (cases "dt_phase d1") (auto simp: dt_asks_def dt_update_def s Let_def detector_steps)
qed

lemma dt_asks_length: "length (dt_asks inputs now g p d ids) \<le> 3"
proof -
  obtain rise d1 where s: "dt_sense inputs now d = (rise, d1)" by fastforce
  show ?thesis by (cases "dt_phase d1") (simp_all add: dt_asks_def s Let_def)
qed

section \<open>Runs\<close>

text \<open>One read of \<open>app_task\<close>, whose list starts with at most the tracker's push, or an id drawn by
  another task.\<close>

datatype det_call = DC_Read u8 u32 GateContext DetectParams | DC_Draw

fun det_apply :: "det_call \<Rightarrow> Detector \<times> EventIds \<times> Push list \<Rightarrow> Detector \<times> EventIds \<times> Push list" where
  "det_apply (DC_Read inputs now g p) (d, ids, log) =
     (case dt_update inputs now g p (d, ids, []) of (d', ids', ps) \<Rightarrow> (d', ids', log @ ps))"
| "det_apply DC_Draw (d, ids, log) = (d, snd (EventIds_next ids), log)"

definition det_run :: "det_call list \<Rightarrow> Detector \<times> EventIds \<times> Push list" where
  "det_run calls = fold det_apply calls (Detector_new, 0, [])"

definition first_ids :: "Push list \<Rightarrow> nat list" where
  "first_ids log = map (\<lambda>x. unat (ev_event_id (push_event x)))
     (filter (\<lambda>x. push_kind x = PK_Event \<and> ev_event_flags (push_event x) = 0) log)"

definition follow_ids :: "Push list \<Rightarrow> nat list" where
  "follow_ids log = map (\<lambda>x. unat (ev_event_id (push_event x)))
     (filter (\<lambda>x. push_kind x = PK_Event \<and> ev_event_flags (push_event x) = 1) log)"

lemma ids_append [simp]:
  "first_ids (xs @ ys) = first_ids xs @ first_ids ys" "follow_ids (xs @ ys) = follow_ids xs @ follow_ids ys"
  "first_ids [] = []" "follow_ids [] = []"
  by (simp_all add: first_ids_def follow_ids_def)

lemma ids_of_pushes [simp]:
  "first_ids (first_push now g p dir ids d # xs) = unat (ids + 1) # first_ids xs"
  "follow_ids (first_push now g p dir ids d # xs) = follow_ids xs"
  "first_ids (follow_push dir g d # xs) = first_ids xs"
  "follow_ids (follow_push dir g d # xs) = unat (dt_event_id d) # follow_ids xs"
  "first_ids (status_push r # xs) = first_ids xs" "follow_ids (status_push r # xs) = follow_ids xs"
  by (simp_all add: first_ids_def follow_ids_def first_push_def follow_push_def event_push_def status_push_def
      Push_init_def dt_event_def GateLinkEventV1_init_def)

text \<open>Ids grow: every announced and every refined id is at most the counter; while a detection is
  armed, its id was announced and is above every refined one.\<close>

definition det_inv :: "nat \<Rightarrow> Detector \<times> EventIds \<times> Push list \<Rightarrow> bool" where
  "det_inv n st \<longleftrightarrow> (case st of (d, ids, log) \<Rightarrow>
     unat ids \<le> n \<and>
     sorted_wrt (<) (first_ids log) \<and> (\<forall>i\<in>set (first_ids log). i \<le> unat ids) \<and>
     sorted_wrt (<) (follow_ids log) \<and> set (follow_ids log) \<subseteq> set (first_ids log) \<and>
     (dt_phase d = Ph_Armed \<longrightarrow> unat (dt_event_id d) \<in> set (first_ids log) \<and>
        (\<forall>i\<in>set (follow_ids log). i < unat (dt_event_id d))))"

lemma unat_next: "unat ids \<le> n \<Longrightarrow> Suc n < 2 ^ 32 \<Longrightarrow> unat (ids + 1 :: u32) = Suc (unat ids)"
  by (simp add: unat_word_ariths)

lemma det_inv_later: "det_inv n (d, ids, log) \<Longrightarrow> det_inv (Suc n) (d, ids, log)"
  by (auto simp: det_inv_def)

text \<open>Announcing an id, refining the announced one, and both at once.\<close>

lemma det_inv_first:
  assumes "det_inv n (d, ids, log)" and "Suc n < 2 ^ 32" and "first_ids ps = [unat (ids + 1)]" "follow_ids ps = []"
    and "dt_event_id d' = ids + 1"
  shows "det_inv (Suc n) (d', ids + 1, log @ ps)"
proof -
  from assms(1,2) have "unat (ids + 1) = Suc (unat ids)" by (auto simp: det_inv_def intro: unat_next)
  with assms show ?thesis by (fastforce simp: det_inv_def sorted_wrt_append)
qed

lemma det_inv_follow:
  assumes "det_inv n (d, ids, log)" and "dt_phase d = Ph_Armed" and "first_ids ps = []"
    and "follow_ids ps = [unat (dt_event_id d)]" and "dt_phase d' \<noteq> Ph_Armed"
  shows "det_inv n (d', ids, log @ ps)"
  using assms by (auto simp: det_inv_def sorted_wrt_append)

lemma det_inv_quiet:
  assumes "det_inv n (d, ids, log)" and "first_ids ps = []" "follow_ids ps = []"
    and "dt_phase d' = Ph_Armed \<longrightarrow> dt_phase d = Ph_Armed \<and> dt_event_id d' = dt_event_id d"
  shows "det_inv n (d', ids, log @ ps)"
  using assms by (auto simp: det_inv_def)

lemma det_inv_idle:
  assumes inv: "det_inv n (d, ids, log)" and n: "Suc n < 2 ^ 32" and ph: "dt_phase d = Ph_Idle"
    and st: "dt_idle_step rise now g p (d, ids, []) = (d', ids', ps)"
  shows "det_inv (Suc n) (d', ids', log @ ps)"
proof -
  let ?d0 = "d\<lparr>dt_alerted := False, dt_suppressed := False, dt_start_ms := now\<rparr>"
  let ?d1 = "(first_noted now g p ids ?d0)\<lparr>dt_phase := Ph_Armed\<rparr>"
  let ?f = "first_push now g p Dir_Undetermined ids ?d0"
  consider "rise = 0" | "rise \<noteq> 0" "rise \<noteq> kSensors" | "rise = kSensors"
    by auto
  then show ?thesis
  proof cases
    case 1
    with st inv show ?thesis by (simp add: dt_idle_step_def det_inv_later)
  next
    case 2
    with st show ?thesis
      by (auto simp: dt_idle_step_def dt_first_event_eq Let_def intro!: det_inv_first [OF inv n])
  next
    case 3
    have "det_inv (Suc n) (?d1, ids + 1, log @ [?f])"
      by (rule det_inv_first [OF inv n]) simp_all
    from det_inv_follow [OF this, of "[follow_push Dir_Undetermined g (first_noted now g p ids ?d0),
        status_push SR_VehicleDetected]" "resolved Dir_Undetermined True now (first_noted now g p ids ?d0)"]
    have "det_inv (Suc n) (resolved Dir_Undetermined True now (first_noted now g p ids ?d0), ids + 1,
      (log @ [?f]) @ [follow_push Dir_Undetermined g (first_noted now g p ids ?d0), status_push SR_VehicleDetected])"
      by simp
    moreover have "rise \<noteq> 0" using 3 by (simp add: kSensors_def kInSafety_def kInExit_def)
    ultimately show ?thesis
      using 3 st by (auto simp: dt_idle_step_def dt_first_event_eq dt_resolve_eq Let_def)
  qed
qed

lemma det_inv_resolve:
  assumes inv: "det_inv n (d, ids, log)" and "dt_phase d = Ph_Armed" and "length out < 3" "log = log0 @ out"
    and "dt_resolve dir tr now g (d, ids, out) = (d', ids', ps)"
  shows "det_inv n (d', ids', log0 @ ps)"
  using det_inv_follow [OF inv assms(2), of "[follow_push dir g d, status_push SR_VehicleDetected]"] assms(3-)
  by (auto simp: dt_resolve_eq)

lemma det_inv_armed:
  assumes inv: "det_inv n (d, ids, log)" and n: "Suc n < 2 ^ 32" and ph: "dt_phase d = Ph_Armed"
    and st: "dt_armed_step rise late now g p (d, ids, []) = (d', ids', ps)"
  shows "det_inv (Suc n) (d', ids', log @ ps)"
proof (cases "rise AND NOT (dt_first d) \<noteq> 0")
  case True
  with st det_inv_resolve [OF inv ph, of "[]" log] show ?thesis
    by (auto simp: dt_armed_step_def intro: det_inv_later)
next
  case False
  obtain d1 ids1 out where s1: "(if late then dt_first_event now g p Dir_Undetermined (d, ids, []) else (d, ids, [])) =
    (d1, ids1, out)" by (metis prod_cases3)
  then have inv1: "det_inv (Suc n) (d1, ids1, log @ out)" and ph1: "dt_phase d1 = Ph_Armed" and "length out < 3"
    using inv ph by (auto simp: dt_first_event_eq det_inv_later intro!: det_inv_first [OF inv n] split: if_splits)
  with False st s1 det_inv_resolve [OF inv1 ph1, of out log] show ?thesis
    by (auto simp: dt_armed_step_def Let_def split: if_splits)
qed

lemma det_inv_settling:
  assumes inv: "det_inv n (d, ids, log)" and n: "Suc n < 2 ^ 32" and ph: "dt_phase d = Ph_Settling"
    and st: "dt_settling_step late now g p (d, ids, []) = (d', ids', ps)"
  shows "det_inv (Suc n) (d', ids', log @ ps)"
proof (cases late)
  case True
  with st show ?thesis
    by (auto simp: dt_settling_step_def dt_first_event_eq intro!: det_inv_first [OF inv n] split: if_splits)
next
  case False
  with st show ?thesis
    using det_inv_quiet [OF det_inv_later [OF inv], of "[]"] ph
    by (auto simp: dt_settling_step_def split: if_splits)
qed

lemma det_inv_update:
  assumes inv: "det_inv n (d, ids, log)" and n: "Suc n < 2 ^ 32"
    and st: "dt_update inputs now g p (d, ids, []) = (d', ids', ps)"
  shows "det_inv (Suc n) (d', ids', log @ ps)"
proof -
  obtain rise d1 where s: "dt_sense inputs now d = (rise, d1)" by fastforce
  have inv1: "det_inv n (d1, ids, log)"
    using det_inv_quiet [OF inv, of "[]" d1] sense_simps [OF s] by simp
  show ?thesis
    using st det_inv_idle [OF inv1 n] det_inv_armed [OF inv1 n] det_inv_settling [OF inv1 n]
    by (cases "dt_phase d1") (simp_all add: dt_update_def s Let_def)
qed

lemma det_inv_run: "length calls < 2 ^ 32 \<Longrightarrow> det_inv (length calls) (det_run calls)"
proof (induction calls rule: rev_induct)
  case Nil
  show ?case by (simp add: det_run_def det_inv_def Detector_new_def)
next
  case (snoc c cs)
  obtain d ids log where r: "det_run cs = (d, ids, log)" by (metis prod_cases3)
  with snoc have inv: "det_inv (length cs) (d, ids, log)" by simp
  show ?case
  proof (cases c)
    case (DC_Read inputs now g p)
    then show ?thesis
      using det_inv_update [OF inv, of inputs now g p] snoc.prems r
      by (auto simp: det_run_def split: prod.splits)
  next
    case DC_Draw
    have "unat (ids + 1) = Suc (unat ids)"
      using inv snoc.prems by (intro unat_next [of _ "length cs"]) (auto simp: det_inv_def)
    with DC_Draw inv r show ?thesis
      by (auto simp: det_run_def EventIds_next_def det_inv_def)
  qed
qed

text \<open>
  Over any sequence of reads, with other tasks drawing ids from the same counter, the ids a
  detector announces are strictly increasing, a follow-up always refines an id announced before,
  and no id is refined twice: Home Assistant sees at most one follow-up per detection event.
\<close>

theorem follow_up_refines_once:
  assumes "length calls < 2 ^ 32" and "det_run calls = (d, ids, log)"
  shows "sorted_wrt (<) (first_ids log) \<and> sorted_wrt (<) (follow_ids log) \<and>
    set (follow_ids log) \<subseteq> set (first_ids log)"
  using det_inv_run [OF assms(1)] assms(2) by (simp add: det_inv_def)

definition bench_gate :: GateContext where
  "bench_gate = \<lparr>gc_held = False, gc_hold_source = HS_None, gc_gate_state = GS_Moving, gc_input_bits = 0,
     gc_uptime_s = 7\<rparr>"

definition bench_detect :: DetectParams where
  "bench_detect = \<lparr>dp_window_ms = 60000, dp_idle_ms = 10000, dp_alert_repeat_s = 0\<rparr>"

text \<open>A vehicle leaving: EXIT, then SAFETY two seconds later, with an id drawn in between.\<close>

definition exit_run :: "det_call list" where
  "exit_run = [DC_Read 0 100 bench_gate bench_detect, DC_Read 0x08 200 bench_gate bench_detect, DC_Draw,
     DC_Read 0x0C 2200 bench_gate bench_detect]"

lemma exit_run_ids:
  "first_ids (snd (snd (det_run exit_run))) = [1] \<and> follow_ids (snd (snd (det_run exit_run))) = [1] \<and>
   dt_last_direction (fst (det_run exit_run)) = Dir_Exit \<and> fst (snd (det_run exit_run)) = 2"
  by code_simp

theorem follow_up_refines_once_witness:
  "sorted_wrt (<) (first_ids (snd (snd (det_run exit_run)))) \<and>
   set (follow_ids (snd (snd (det_run exit_run)))) = {1}"
  using follow_up_refines_once [of exit_run "fst (det_run exit_run)" "fst (snd (det_run exit_run))"
      "snd (snd (det_run exit_run))"] exit_run_ids
  by (simp add: exit_run_def)

section \<open>An armed detection resolves\<close>

text \<open>
  C32: a detection that waits for the second sensor resolves at the first read
  detect_sequence_window_ms after its first edge, if not before; every read in between either
  leaves it armed with the same deadline or resolves it, and a read that resolves it sends one
  follow-up, for the id announced last.
\<close>

theorem armed_detection_resolves:
  assumes "dt_phase d = Ph_Armed" and "dt_start_ms d = stamp t0" and "t0 \<le> t" and "t - t0 < 2 ^ 32"
    and "dt_update inputs (stamp t) g p (d, ids, []) = (d', ids', ps)"
  shows "(dt_phase d' = Ph_Armed \<longrightarrow>
            t < t0 + unat (dp_window_ms p) \<and> dt_start_ms d' = dt_start_ms d \<and> follow_ids ps = []) \<and>
         (dt_phase d' \<noteq> Ph_Armed \<longrightarrow> follow_ids ps = [unat (dt_event_id d')])"
proof -
  obtain rise d1 where s: "dt_sense inputs (stamp t) d = (rise, d1)" by fastforce
  note keeps = sense_simps [OF s]
  have due: "stamp t - stamp t0 \<ge> dp_window_ms p \<longleftrightarrow> t0 + unat (dp_window_ms p) \<le> t"
    using assms(3,4) by (auto simp: word_le_nat_alt elapsed_stamp)
  show ?thesis
    using assms(1,2,5) keeps due
    by (auto simp: dt_update_def s Let_def dt_armed_step_def dt_first_event_eq dt_resolve_eq split: if_splits)
qed

theorem armed_detection_resolves_witness:
  "dt_phase (fst (dt_update 0x08 (stamp 60200) bench_gate bench_detect
     (fst (det_run (take 2 exit_run)), 1, []))) \<noteq> Ph_Armed"
proof -
  let ?d = "fst (det_run (take 2 exit_run))"
  have "dt_phase ?d = Ph_Armed" "dt_start_ms ?d = 200"
    by code_simp+
  then show ?thesis
    using armed_detection_resolves [of ?d 200 60200 "0x08" bench_gate bench_detect 1]
    by (cases "dt_update 0x08 (stamp 60200) bench_gate bench_detect (?d, 1, [])")
      (auto simp: stamp_def bench_detect_def)
qed

end
