(* ===== verification/Vedirect.thy ===== *)
theory Vedirect
  imports Prelude
begin

text \<open>
  VE.Direct on the UART of the charge controller (\<open>lib/vedirect\<close>: \<open>hex.h\<close>, \<open>hex.cpp\<close>,
  \<open>text.h\<close>, \<open>text.cpp\<close>): HEX frames, the byte-level text parser with the HEX lines interleaved,
  and the decoded record. A character is its byte. A fixed character array with its length is
  the list of the bytes stored, and \<open>c_str\<close> is what \<open>strcmp\<close> and the parsers see of it: the
  bytes before the first zero.
\<close>

section \<open>Characters\<close>

definition ascii :: "string \<Rightarrow> bytes" where
  "ascii s = map of_char s"

definition c_str :: "bytes \<Rightarrow> bytes" where
  "c_str bs = takeWhile (\<lambda>b. b \<noteq> 0) bs"

section \<open>HEX frames (hex.cpp)\<close>

datatype HexCmd = HC_Ping | HC_AppVersion | HC_ProductId | HC_Restart | HC_Get | HC_Set | HC_Async

fun HexCmd_u8 :: "HexCmd \<Rightarrow> u8" where
  "HexCmd_u8 HC_Ping = 0x1"
| "HexCmd_u8 HC_AppVersion = 0x3"
| "HexCmd_u8 HC_ProductId = 0x4"
| "HexCmd_u8 HC_Restart = 0x6"
| "HexCmd_u8 HC_Get = 0x7"
| "HexCmd_u8 HC_Set = 0x8"
| "HexCmd_u8 HC_Async = 0xA"

datatype HexRspCmd = HX_Done | HX_Unknown | HX_Error | HX_Ping | HX_Get | HX_Set

fun HexRspCmd_u8 :: "HexRspCmd \<Rightarrow> u8" where
  "HexRspCmd_u8 HX_Done = 0x1"
| "HexRspCmd_u8 HX_Unknown = 0x3"
| "HexRspCmd_u8 HX_Error = 0x4"
| "HexRspCmd_u8 HX_Ping = 0x5"
| "HexRspCmd_u8 HX_Get = 0x7"
| "HexRspCmd_u8 HX_Set = 0x8"

definition kMaxData :: nat where "kMaxData = 64"
definition kMaxChars :: nat where "kMaxChars = 2 + 2 * kMaxData + 2"

record VFrame =
  vf_cmd :: u8
  vf_data :: bytes

datatype Parse = Ps_NoColon | Ps_TooShort | Ps_BadChar | Ps_OddLength | Ps_TooLong | Ps_BadChecksum

definition kDigits :: bytes where
  "kDigits = ascii ''0123456789ABCDEF''"

text \<open>\<open>digit_value\<close>, with -1 as \<open>None\<close>.\<close>

definition digit_value :: "u8 \<Rightarrow> u8 option" where
  "digit_value c =
     (if 0x30 \<le> c \<and> c \<le> 0x39 then Some (c - 0x30)
      else if 0x41 \<le> c \<and> c \<le> 0x46 then Some (c - 0x41 + 10)
      else None)"

definition check_byte :: "u8 \<Rightarrow> bytes \<Rightarrow> u8" where
  "check_byte cmd data = 0x55 - fold (\<lambda>b sum. sum + b) data cmd"

definition ved_digit :: "u8 \<Rightarrow> u8" where
  "ved_digit v = kDigits ! unat v"

definition hex_byte :: "u8 \<Rightarrow> bytes" where
  "hex_byte v = [ved_digit (drop_bit 4 v), ved_digit (v AND 0xF)]"

text \<open>\<open>encode\<close>: the characters, or \<open>None\<close> where the source returns 0.\<close>

definition ved_encode :: "u8 \<Rightarrow> bytes \<Rightarrow> nat \<Rightarrow> bytes option" where
  "ved_encode cmd data cap =
     (if cmd > 0xF \<or> length data > kMaxData then None
      else if cap < 2 + 2 * length data + 2 then None
      else Some (0x3A # ved_digit cmd # concat (map hex_byte data) @ hex_byte (check_byte cmd data)))"

text \<open>Two digits at a time, as the loop over the data and check bytes reads them.\<close>

fun digit_pairs :: "u8 list \<Rightarrow> bytes" where
  "digit_pairs (h # l # ds) = (push_bit 4 h OR l) # digit_pairs ds"
| "digit_pairs _ = []"

definition ved_decode :: "bytes \<Rightarrow> Parse + VFrame" where
  "ved_decode s =
     (if s = [] \<or> hd s \<noteq> 0x3A then Inl Ps_NoColon
      else if length s < 4 then Inl Ps_TooShort
      else if \<exists>c \<in> set (tl s). digit_value c = None then Inl Ps_BadChar
      else if (length s - 2) mod 2 \<noteq> 0 then Inl Ps_OddLength
      else if (length s - 2) div 2 - 1 > kMaxData then Inl Ps_TooLong
      else let ds = map (\<lambda>c. the (digit_value c)) (tl s);
               bs = digit_pairs (tl ds)
        in if fold (\<lambda>b sum. sum + b) bs (hd ds) = 0x55
           then Inr \<lparr>vf_cmd = hd ds, vf_data = butlast bs\<rparr>
           else Inl Ps_BadChecksum)"

definition encode_get :: "u16 \<Rightarrow> nat \<Rightarrow> bytes option" where
  "encode_get reg cap = ved_encode (HexCmd_u8 HC_Get) [ucast (reg AND 0xFF), ucast (drop_bit 8 reg), 0] cap"

definition encode_set :: "u16 \<Rightarrow> u32 \<Rightarrow> u8 \<Rightarrow> nat \<Rightarrow> bytes option" where
  "encode_set reg v width cap =
     (if width \<noteq> 1 \<and> width \<noteq> 2 \<and> width \<noteq> 4 then None
      else ved_encode (HexCmd_u8 HC_Set)
        ([ucast (reg AND 0xFF), ucast (drop_bit 8 reg), 0] @
         map (\<lambda>i. ucast (drop_bit (8 * i) v)) [0..<unat width]) cap)"

record RegReply =
  rr_cmd :: HexRspCmd
  rr_reg :: u16
  rr_flags :: u8
  rr_value :: u32
  rr_width :: u8

definition reg_reply :: "VFrame \<Rightarrow> RegReply option" where
  "reg_reply f =
     (if vf_cmd f \<noteq> HexRspCmd_u8 HX_Get \<and> vf_cmd f \<noteq> HexRspCmd_u8 HX_Set then None
      else let d = vf_data f in
        if length d < 3 \<or> length d > 3 + 4 then None
        else Some \<lparr>rr_cmd = (if vf_cmd f = HexRspCmd_u8 HX_Get then HX_Get else HX_Set),
                   rr_reg = of_le16 (d ! 0) (d ! 1), rr_flags = d ! 2,
                   rr_value = fold (\<lambda>i v. v OR push_bit (8 * i) (ucast (d ! (3 + i)))) [0..<length d - 3] 0,
                   rr_width = word_of_nat (length d - 3)\<rparr>)"

section \<open>Text blocks (text.cpp)\<close>

definition kLabelChars :: nat where "kLabelChars = 15"
definition kValueChars :: nat where "kValueChars = 32"
definition kMaxFields :: nat where "kMaxFields = 24"

record TextField =
  tf_label :: bytes
  tf_value :: bytes

type_synonym TextBlock = "TextField list"

definition tb_find :: "string \<Rightarrow> TextBlock \<Rightarrow> bytes option" where
  "tb_find label b =
     (case filter (\<lambda>f. c_str (tf_label f) = ascii label) b of
        [] \<Rightarrow> None | f # _ \<Rightarrow> Some (c_str (tf_value f)))"

datatype TextEvent = TE_None | TE_Block | TE_Dropped | TE_HexLine

datatype TextDrop = TD_None | TD_BadChecksum | TD_Unsynced | TD_Interrupted | TD_Overflow | TD_HexTooLong

record TextCounters =
  tc_blocks :: u32
  tc_bad_checksum :: u32
  tc_unsynced :: u32
  tc_interrupted :: u32
  tc_overflow :: u32
  tc_hex_lines :: u32
  tc_hex_too_long :: u32

datatype TState = TS_Idle | TS_RecordBegin | TS_Label | TS_Value | TS_Checksum | TS_Hex

record TextParser =
  tp_state :: TState
  tp_resume :: TState
  tp_checksum :: u8
  tp_synced :: bool
  tp_started :: bool
  tp_interrupted :: bool
  tp_overflow :: bool
  tp_field_long :: bool
  tp_field :: TextField
  tp_scratch :: TextBlock
  tp_block :: TextBlock
  tp_hex :: bytes
  tp_hex_long :: bool
  tp_last_drop :: TextDrop
  tp_counters :: TextCounters

definition tp_reset :: "TextParser \<Rightarrow> TextParser" where
  "tp_reset t = t\<lparr>tp_state := TS_Idle, tp_resume := TS_Idle, tp_checksum := 0, tp_synced := False,
     tp_started := False, tp_interrupted := False, tp_overflow := False, tp_field_long := False,
     tp_scratch := [], tp_hex := [], tp_hex_long := False, tp_last_drop := TD_None\<rparr>"

definition TextParser_new :: TextParser where
  "TextParser_new = tp_reset \<lparr>tp_state = TS_Idle, tp_resume = TS_Idle, tp_checksum = 0, tp_synced = False,
     tp_started = False, tp_interrupted = False, tp_overflow = False, tp_field_long = False,
     tp_field = \<lparr>tf_label = [], tf_value = []\<rparr>, tp_scratch = [], tp_block = [], tp_hex = [],
     tp_hex_long = False, tp_last_drop = TD_None,
     tp_counters = \<lparr>tc_blocks = 0, tc_bad_checksum = 0, tc_unsynced = 0, tc_interrupted = 0,
       tc_overflow = 0, tc_hex_lines = 0, tc_hex_too_long = 0\<rparr>\<rparr>"

definition tp_end_record :: "TextParser \<Rightarrow> TextParser" where
  "tp_end_record t =
     (if tp_field_long t \<or> length (tp_scratch t) = kMaxFields then t\<lparr>tp_overflow := True\<rparr>
      else t\<lparr>tp_scratch := tp_scratch t @ [tp_field t]\<rparr>)"

definition tp_block_drop :: "TextParser \<Rightarrow> TextDrop" where
  "tp_block_drop t =
     (if tp_checksum t = 0 then (if tp_overflow t then TD_Overflow else TD_None)
      else if \<not> tp_synced t then TD_Unsynced
      else if tp_interrupted t then TD_Interrupted
      else TD_BadChecksum)"

fun tp_count_drop :: "TextDrop \<Rightarrow> TextCounters \<Rightarrow> TextCounters" where
  "tp_count_drop TD_None c = c\<lparr>tc_blocks := tc_blocks c + 1\<rparr>"
| "tp_count_drop TD_Overflow c = c\<lparr>tc_overflow := tc_overflow c + 1\<rparr>"
| "tp_count_drop TD_Unsynced c = c\<lparr>tc_unsynced := tc_unsynced c + 1\<rparr>"
| "tp_count_drop TD_Interrupted c = c\<lparr>tc_interrupted := tc_interrupted c + 1\<rparr>"
| "tp_count_drop TD_BadChecksum c = c\<lparr>tc_bad_checksum := tc_bad_checksum c + 1\<rparr>"
| "tp_count_drop TD_HexTooLong c = c"

definition tp_end_block :: "TextParser \<Rightarrow> TextEvent \<times> TextParser" where
  "tp_end_block t =
     (let drop = tp_block_drop t;
          t = t\<lparr>tp_block := (if drop = TD_None then tp_scratch t else tp_block t),
                tp_counters := tp_count_drop drop (tp_counters t), tp_last_drop := drop,
                tp_scratch := [], tp_checksum := 0, tp_synced := True, tp_started := False,
                tp_interrupted := False, tp_overflow := False, tp_state := TS_Idle\<rparr>
      in (if drop = TD_None then TE_Block else TE_Dropped, t))"

definition tp_end_hex :: "TextParser \<Rightarrow> TextEvent \<times> TextParser" where
  "tp_end_hex t =
     (let c = tp_counters t in
      if tp_hex_long t then
        (TE_Dropped, t\<lparr>tp_counters := c\<lparr>tc_hex_too_long := tc_hex_too_long c + 1\<rparr>,
                       tp_last_drop := TD_HexTooLong, tp_hex := []\<rparr>)
      else (TE_HexLine, t\<lparr>tp_counters := c\<lparr>tc_hex_lines := tc_hex_lines c + 1\<rparr>\<rparr>))"

text \<open>A byte of a HEX line, and a byte of text.\<close>

definition tp_hex_byte :: "u8 \<Rightarrow> TextParser \<Rightarrow> TextEvent \<times> TextParser" where
  "tp_hex_byte b t =
     (if b = 0x0A then tp_end_hex (t\<lparr>tp_state := tp_resume t\<rparr>)
      else if b = 0x0D then (TE_None, t)
      else if length (tp_hex t) < kMaxChars then (TE_None, t\<lparr>tp_hex := tp_hex t @ [b]\<rparr>)
      else (TE_None, t\<lparr>tp_hex_long := True\<rparr>))"

definition tp_label_byte :: "u8 \<Rightarrow> TextParser \<Rightarrow> TextParser" where
  "tp_label_byte b t =
     (let f = tp_field t in
      if b = 0x09 then
        t\<lparr>tp_state := (if \<not> tp_field_long t \<and> c_str (tf_label f) = ascii ''Checksum''
                        then TS_Checksum else TS_Value)\<rparr>
      else if length (tf_label f) < kLabelChars then t\<lparr>tp_field := f\<lparr>tf_label := tf_label f @ [b]\<rparr>\<rparr>
      else t\<lparr>tp_field_long := True\<rparr>)"

definition tp_value_byte :: "u8 \<Rightarrow> TextParser \<Rightarrow> TextParser" where
  "tp_value_byte b t =
     (let f = tp_field t in
      if b = 0x0A then (tp_end_record t)\<lparr>tp_state := TS_RecordBegin\<rparr>
      else if b = 0x0D then t
      else if length (tf_value f) < kValueChars then t\<lparr>tp_field := f\<lparr>tf_value := tf_value f @ [b]\<rparr>\<rparr>
      else t\<lparr>tp_field_long := True\<rparr>)"

definition tp_text_byte :: "u8 \<Rightarrow> TextParser \<Rightarrow> TextEvent \<times> TextParser" where
  "tp_text_byte b t =
     (let t = t\<lparr>tp_checksum := tp_checksum t + b, tp_started := True\<rparr> in
      case tp_state t of
        TS_Idle \<Rightarrow> (TE_None, if b = 0x0A then t\<lparr>tp_state := TS_RecordBegin\<rparr> else t)
      | TS_RecordBegin \<Rightarrow>
          (TE_None, tp_label_byte b (t\<lparr>tp_field := \<lparr>tf_label = [], tf_value = []\<rparr>, tp_field_long := False,
                                       tp_state := TS_Label\<rparr>))
      | TS_Label \<Rightarrow> (TE_None, tp_label_byte b t)
      | TS_Value \<Rightarrow> (TE_None, tp_value_byte b t)
      | TS_Checksum \<Rightarrow> tp_end_block t
      | TS_Hex \<Rightarrow> (TE_None, t))"

definition tp_feed :: "u8 \<Rightarrow> TextParser \<Rightarrow> TextEvent \<times> TextParser" where
  "tp_feed b t =
     (let t = (if b = 0x3A \<and> tp_state t \<noteq> TS_Checksum \<and> tp_state t \<noteq> TS_Hex
               then t\<lparr>tp_resume := tp_state t, tp_interrupted := tp_interrupted t \<or> tp_started t,
                      tp_state := TS_Hex, tp_hex := [], tp_hex_long := False\<rparr>
               else t)
      in if tp_state t = TS_Hex then tp_hex_byte b t else tp_text_byte b t)"

section \<open>The decoded record (decode\_mppt)\<close>

definition kU32NotAvailable :: u32 where "kU32NotAvailable = 0xFFFFFFFF"
definition kI32NotAvailable :: i32 where "kI32NotAvailable = 0x80000000"
definition kU16NotAvailable :: u16 where "kU16NotAvailable = 0xFFFF"

text \<open>The accumulator is a \<open>uint64_t\<close> that stays below ten times \<open>2 ^ 32\<close>.\<close>

fun parse_digits :: "nat \<Rightarrow> bytes \<Rightarrow> nat option" where
  "parse_digits v [] = Some v"
| "parse_digits v (c # cs) =
     (if c < 0x30 \<or> c > 0x39 then None
      else let v = v * 10 + unat (c - 0x30) in
        if v \<ge> unat kU32NotAvailable then None else parse_digits v cs)"

definition parse_u32 :: "bytes \<Rightarrow> u32 option" where
  "parse_u32 s = (if s = [] then None else map_option word_of_nat (parse_digits 0 s))"

definition parse_i32 :: "bytes \<Rightarrow> i32 option" where
  "parse_i32 s =
     (let neg = (s \<noteq> [] \<and> hd s = 0x2D) in
      case parse_u32 (if neg then tl s else s) of
        None \<Rightarrow> None
      | Some mag \<Rightarrow> if mag > 0x7FFFFFFF then None else Some (if neg then - mag else mag))"

definition parse_u16 :: "bytes \<Rightarrow> u16 option" where
  "parse_u16 s =
     (case parse_u32 s of None \<Rightarrow> None
      | Some v \<Rightarrow> if v \<ge> ucast kU16NotAvailable then None else Some (ucast v))"

definition any_digit :: "u8 \<Rightarrow> u32 option" where
  "any_digit c =
     (if 0x61 \<le> c \<and> c \<le> 0x66 then Some (ucast (c - 0x61 + 10)) else map_option ucast (digit_value c))"

fun parse_hex_digits :: "u32 \<Rightarrow> nat \<Rightarrow> bytes \<Rightarrow> u32 option" where
  "parse_hex_digits v n [] = Some v"
| "parse_hex_digits v n (c # cs) =
     (case any_digit c of
        None \<Rightarrow> None
      | Some d \<Rightarrow> if n = 4 then None else parse_hex_digits (push_bit 4 v OR d) (n + 1) cs)"

definition parse_hex16 :: "bytes \<Rightarrow> u16 option" where
  "parse_hex16 s =
     (case s of
        z # x # d # ds \<Rightarrow>
          if z \<noteq> 0x30 \<or> (x \<noteq> 0x78 \<and> x \<noteq> 0x58) then None
          else (case parse_hex_digits 0 0 (d # ds) of
                  None \<Rightarrow> None
                | Some v \<Rightarrow> if v \<ge> ucast kU16NotAvailable then None else Some (ucast v))
      | _ \<Rightarrow> None)"

datatype LoadState = LS_Off | LS_On | LS_NotAvailable

record MpptText =
  mt_pid :: u16
  mt_batt_mv :: u32
  mt_batt_ma :: i32
  mt_pv_mv :: u32
  mt_pv_w :: u32
  mt_load_ma :: i32
  mt_load :: LoadState
  mt_charge_state :: u16
  mt_tracker :: u16
  mt_err :: u16
  mt_yield_total :: u32
  mt_yield_today :: u32
  mt_pmax_today :: u32
  mt_yield_yest :: u32
  mt_day_seq :: u16

text \<open>One label: the parsed value or the sentinel, and whether a value was there and did not parse.\<close>

definition read_label :: "(bytes \<Rightarrow> 'a option) \<Rightarrow> 'a \<Rightarrow> string \<Rightarrow> TextBlock \<Rightarrow> 'a \<times> nat" where
  "read_label parse absent label b =
     (case tb_find label b of
        None \<Rightarrow> (absent, 0)
      | Some v \<Rightarrow> (case parse v of None \<Rightarrow> (absent, 1) | Some x \<Rightarrow> (x, 0)))"

definition parse_load :: "bytes \<Rightarrow> LoadState option" where
  "parse_load v = (if v = ascii ''ON'' then Some LS_On else if v = ascii ''OFF'' then Some LS_Off else None)"

definition decode_mppt :: "TextBlock \<Rightarrow> MpptText \<times> nat" where
  "decode_mppt b =
     (let u32 = read_label parse_u32 kU32NotAvailable; i32 = read_label parse_i32 kI32NotAvailable;
          u16 = read_label parse_u16 kU16NotAvailable;
          (pid, n1) = read_label parse_hex16 kU16NotAvailable ''PID'' b;
          (batt_mv, n2) = u32 ''V'' b; (batt_ma, n3) = i32 ''I'' b;
          (pv_mv, n4) = u32 ''VPV'' b; (pv_w, n5) = u32 ''PPV'' b;
          (load_ma, n6) = i32 ''IL'' b;
          (load, n7) = read_label parse_load LS_NotAvailable ''LOAD'' b;
          (cs, n8) = u16 ''CS'' b; (tracker, n9) = u16 ''MPPT'' b; (err, n10) = u16 ''ERR'' b;
          (h19, n11) = u32 ''H19'' b; (h20, n12) = u32 ''H20'' b;
          (h21, n13) = u32 ''H21'' b; (h22, n14) = u32 ''H22'' b;
          (hsds, n15) = u16 (if tb_find ''HSDS'' b \<noteq> None then ''HSDS'' else ''Hsds'') b
      in (\<lparr>mt_pid = pid, mt_batt_mv = batt_mv, mt_batt_ma = batt_ma, mt_pv_mv = pv_mv, mt_pv_w = pv_w,
           mt_load_ma = load_ma, mt_load = load, mt_charge_state = cs, mt_tracker = tracker, mt_err = err,
           mt_yield_total = h19, mt_yield_today = h20, mt_pmax_today = h21, mt_yield_yest = h22,
           mt_day_seq = hsds\<rparr>,
          n1 + n2 + n3 + n4 + n5 + n6 + n7 + n8 + n9 + n10 + n11 + n12 + n13 + n14 + n15))"

end
