(* ===== verification/VedirectHex.thy ===== *)
theory VedirectHex
  imports Vedirect
begin

text \<open>
  HEX frames are canonical: \<open>ved_decode\<close> accepts exactly the strings \<open>ved_encode\<close> writes. Digits
  first, then bytes as pairs of digits, then the check byte.
\<close>

section \<open>Digits\<close>

lemma digit_table:
  "\<forall>n\<in>set ([48..<58] @ [65..<71]). case digit_value (word_of_nat n) of
     None \<Rightarrow> True | Some d \<Rightarrow> d \<le> 15 \<and> ved_digit d = word_of_nat n"
  by code_simp

lemma digit_valueD:
  assumes "digit_value c = Some d"
  shows "d \<le> 15 \<and> ved_digit d = c"
proof -
  from assms have "48 \<le> unat c \<and> unat c < 58 \<or> 65 \<le> unat c \<and> unat c < 71"
    by (auto simp: digit_value_def word_le_nat_alt split: if_splits)
  then have "unat c \<in> set ([48..<58] @ [65..<71])"
    by (simp only: set_append set_upt Un_iff atLeastLessThan_iff)
  from bspec [OF digit_table this] assms show ?thesis by simp
qed

lemma nibble_cases:
  fixes v :: u8
  assumes "v \<le> 15"
  obtains n where "n < 16" "v = word_of_nat n"
  using assms by (intro that [of "unat v"]) (auto simp: word_le_nat_alt)

lemma digit_of_nibble_table:
  "\<forall>n\<in>set [0..<16]. digit_value (ved_digit (word_of_nat n)) = Some (word_of_nat n)"
  by code_simp

lemma digit_value_hex_digit: "v \<le> 15 \<Longrightarrow> digit_value (ved_digit v) = Some v"
  by (erule nibble_cases) (use digit_of_nibble_table in auto)

lemma high_nibble: "drop_bit 4 v \<le> (15 :: u8)"
proof -
  have "unat (drop_bit 4 v) = unat v div 16" by (simp add: drop_bit_eq_div unat_div)
  then show ?thesis using unat_u8_less [of v] by (simp add: word_le_nat_alt)
qed

lemma low_nibble: "v AND 15 \<le> (15 :: u8)"
  by (simp add: word_and_le1)

lemma join_nibbles: "push_bit 4 (drop_bit 4 v) OR (v AND 15) = (v :: u8)"
proof -
  have "v AND 15 = take_bit 4 v" by (simp add: take_bit_eq_mask mask_eq_exp_minus_1)
  then show ?thesis by (auto intro!: bit_word_eqI simp: bit_simps)
qed

lemma split_nibbles:
  fixes h l :: u8
  assumes "h \<le> 15" "l \<le> 15"
  shows "drop_bit 4 (push_bit 4 h OR l) = h" "(push_bit 4 h OR l) AND 15 = l"
proof -
  have small: "\<not> bit x n" if "x \<le> 15" "4 \<le> n" for x :: u8 and n
  proof -
    from that(1) have "unat x < 2 ^ 4" by (simp add: word_le_nat_alt)
    then have "take_bit 4 (unat x) = unat x" by (simp add: take_bit_nat_eq_self)
    then have "take_bit 4 x = x" by (simp add: word_unat_eq_iff unsigned_take_bit_eq)
    with that(2) show ?thesis by (metis bit_take_bit_iff not_le)
  qed
  have m: "(push_bit 4 h OR l) AND 15 = take_bit 4 (push_bit 4 h OR l)"
    by (simp add: take_bit_eq_mask mask_eq_exp_minus_1)
  show "drop_bit 4 (push_bit 4 h OR l) = h"
    using small [OF assms(1)] small [OF assms(2)]
    by (auto intro!: bit_word_eqI simp: bit_simps not_le [symmetric])
  show "(push_bit 4 h OR l) AND 15 = l"
    unfolding m using small [OF assms(2)] by (auto intro!: bit_word_eqI simp: bit_simps)
qed

section \<open>Bytes\<close>

abbreviation digits_of :: "bytes \<Rightarrow> bytes" where
  "digits_of cs \<equiv> map (\<lambda>c. the (digit_value c)) cs"

lemma digit_pairs_hex_bytes: "digit_pairs (digits_of (concat (map hex_byte bs))) = bs"
  by (induction bs)
    (simp_all add: hex_byte_def digit_value_hex_digit high_nibble low_nibble join_nibbles)

lemma hex_bytes_digits: "\<forall>c\<in>set (concat (map hex_byte bs)). digit_value c \<noteq> None"
  by (auto simp: hex_byte_def digit_value_hex_digit high_nibble low_nibble)

lemma hex_bytes_digit_pairs:
  assumes "\<forall>c\<in>set cs. digit_value c \<noteq> None" and "even (length cs)"
  shows "concat (map hex_byte (digit_pairs (digits_of cs))) = cs"
  using assms
proof (induction cs rule: digit_pairs.induct)
  case (1 h l cs)
  from 1 obtain x y where xy: "digit_value h = Some x" "digit_value l = Some y" by auto
  note d = digit_valueD [OF xy(1)] digit_valueD [OF xy(2)]
  from d have "hex_byte (push_bit 4 x OR y) = [h, l]"
    by (metis hex_byte_def split_nibbles)
  with 1 xy show ?case by simp
qed simp_all

lemma length_digit_pairs: "length (digit_pairs ds) = length ds div 2"
  by (induction ds rule: digit_pairs.induct) simp_all

lemma length_hex_bytes: "length (concat (map hex_byte bs)) = 2 * length bs"
  by (induction bs) (simp_all add: hex_byte_def)

lemma fold_sum: "fold (\<lambda>b s. s + b) bs (c :: u8) = c + sum_list bs"
  by (induction bs arbitrary: c) (simp_all add: add.assoc)

lemma check_sum: "fold (\<lambda>b s. s + b) (data @ [x]) cmd = 0x55 \<longleftrightarrow> x = check_byte cmd data"
  by (auto simp: check_byte_def fold_sum algebra_simps)

section \<open>Frames\<close>

lemma frame_chars:
  "ved_encode cmd data cap = Some s \<longleftrightarrow> cmd \<le> 15 \<and> length data \<le> 64 \<and> 2 * length data + 4 \<le> cap \<and>
     s = 0x3A # ved_digit cmd # concat (map hex_byte (data @ [check_byte cmd data]))"
  by (auto simp: ved_encode_def kMaxData_def)

lemma decode_of_encode:
  assumes "ved_encode cmd data cap = Some s"
  shows "ved_decode s = Inr \<lparr>vf_cmd = cmd, vf_data = data\<rparr>"
proof -
  let ?bs = "data @ [check_byte cmd data]"
  from assms have cmd: "cmd \<le> 15" "length data \<le> 64"
    and s: "s = 0x3A # ved_digit cmd # concat (map hex_byte ?bs)"
    by (auto simp only: frame_chars)
  have len: "length s = 2 + 2 * (length data + 1)"
    unfolding s by (simp add: length_hex_bytes del: concat_append map_append)
  have ds: "digits_of (tl s) = cmd # digits_of (concat (map hex_byte ?bs))"
    using cmd by (simp add: s digit_value_hex_digit del: map_append concat_append)
  have ok: "\<not> (\<exists>c\<in>set (tl s). digit_value c = None)"
    using cmd hex_bytes_digits [of ?bs] by (auto simp: s digit_value_hex_digit)
  show ?thesis
    unfolding ved_decode_def Let_def ds
    using cmd len ok check_sum [of data "check_byte cmd data" cmd]
    by (simp add: digit_pairs_hex_bytes kMaxData_def del: map_append concat_append) (simp add: s)
qed

lemma encode_of_decode:
  assumes "ved_decode s = Inr f"
  shows "ved_encode (vf_cmd f) (vf_data f) kMaxChars = Some s"
proof -
  from assms have s0: "s \<noteq> []" "hd s = 0x3A" "4 \<le> length s" "even (length s)"
    and dig: "\<forall>c\<in>set (tl s). digit_value c \<noteq> None" and short: "(length s - 2) div 2 - 1 \<le> 64"
    and sum: "fold (\<lambda>b x. x + b) (digit_pairs (tl (digits_of (tl s)))) (hd (digits_of (tl s))) = 0x55"
    and f: "f = \<lparr>vf_cmd = hd (digits_of (tl s)), vf_data = butlast (digit_pairs (tl (digits_of (tl s))))\<rparr>"
    by (auto simp: ved_decode_def Let_def kMaxData_def even_diff_nat split: if_splits)
  from s0 obtain c cs where s: "s = 0x3A # c # cs"
    by (cases s; cases "tl s") auto
  from dig s obtain d where d: "digit_value c = Some d" by auto
  let ?bs = "digit_pairs (digits_of cs)"
  have even: "even (length cs)" and "cs \<noteq> []" using s0 s by auto
  then have ne: "?bs \<noteq> []" and len: "length ?bs = length cs div 2"
    using s0 s by (auto simp: length_digit_pairs simp flip: length_greater_0_conv)
  have cs: "cs = concat (map hex_byte ?bs)"
    using hex_bytes_digit_pairs [of cs] dig even s by simp
  have f': "f = \<lparr>vf_cmd = d, vf_data = butlast ?bs\<rparr>" using f s d by simp
  have "fold (\<lambda>b x. x + b) (butlast ?bs @ [last ?bs]) d = 0x55"
    using sum s d ne by simp
  then have bs: "?bs = butlast ?bs @ [check_byte d (butlast ?bs)]"
    using ne by (metis check_sum append_butlast_last_id)
  have "s = 0x3A # ved_digit d # concat (map hex_byte (butlast ?bs @ [check_byte d (butlast ?bs)]))"
    using s cs bs digit_valueD [OF d] by metis
  moreover have "length (butlast ?bs) \<le> 64" using short len s by simp
  ultimately show ?thesis
    unfolding frame_chars f' using digit_valueD [OF d] by (simp add: kMaxChars_def kMaxData_def)
qed

text \<open>
  C33: HEX frames are canonical. decode accepts a string exactly when it is what encode writes
  for the frame it returns: every accepted request re-encodes to the same characters, and every
  frame of up to 64 data bytes survives the round trip.
\<close>

theorem ved_hex_canonical:
  "ved_decode s = Inr f \<longleftrightarrow> ved_encode (vf_cmd f) (vf_data f) kMaxChars = Some s"
  using decode_of_encode [of "vf_cmd f" "vf_data f" kMaxChars s] encode_of_decode [of s f] by auto

end
