(* ===== verification/VedirectText.thy ===== *)
theory VedirectText
  imports Vedirect
begin

text \<open>
  The text parser delivers every block it is sent, whatever HEX lines interrupt it. \<open>core\<close> is
  the part of the parser that text depends on; a HEX line leaves it alone, and a text byte acts
  on it alone, so a stream with interruptions runs like its text.
\<close>

section \<open>Feeding a stream\<close>

fun feed_all :: "bytes \<Rightarrow> TextParser \<Rightarrow> TextEvent list \<times> TextParser" where
  "feed_all [] t = ([], t)"
| "feed_all (b # bs) t =
     (let (e, t) = tp_feed b t; (es, t) = feed_all bs t in (e # es, t))"

lemma feed_all_append:
  "feed_all (xs @ ys) t =
     (let (es, t) = feed_all xs t; (fs, t) = feed_all ys t in (es @ fs, t))"
  by (induction xs arbitrary: t) (auto simp: Let_def split_beta)

definition core :: "TextParser \<Rightarrow> TextParser" where
  "core t = t\<lparr>tp_resume := TS_Idle, tp_started := False, tp_interrupted := False, tp_hex := [],
     tp_hex_long := False, tp_last_drop := TD_None,
     tp_counters := \<lparr>tc_blocks = 0, tc_bad_checksum = 0, tc_unsynced = 0, tc_interrupted = 0,
       tc_overflow = 0, tc_hex_lines = 0, tc_hex_too_long = 0\<rparr>\<rparr>"

lemma core_simps [simp]:
  "tp_state (core t) = tp_state t" "tp_checksum (core t) = tp_checksum t" "tp_synced (core t) = tp_synced t"
  "tp_overflow (core t) = tp_overflow t" "tp_field_long (core t) = tp_field_long t"
  "tp_field (core t) = tp_field t" "tp_scratch (core t) = tp_scratch t" "tp_block (core t) = tp_block t"
  by (simp_all add: core_def)

lemma core_eqI:
  "tp_state t = tp_state u \<Longrightarrow> tp_checksum t = tp_checksum u \<Longrightarrow> tp_synced t = tp_synced u \<Longrightarrow>
   tp_overflow t = tp_overflow u \<Longrightarrow> tp_field_long t = tp_field_long u \<Longrightarrow> tp_field t = tp_field u \<Longrightarrow>
   tp_scratch t = tp_scratch u \<Longrightarrow> tp_block t = tp_block u \<Longrightarrow> core t = core u"
  by (simp add: core_def)

lemma core_fields:
  assumes "core t = core u"
  shows "tp_state t = tp_state u" "tp_checksum t = tp_checksum u" "tp_synced t = tp_synced u"
    "tp_overflow t = tp_overflow u" "tp_field_long t = tp_field_long u" "tp_field t = tp_field u"
    "tp_scratch t = tp_scratch u" "tp_block t = tp_block u"
  using assms by (metis core_simps)+

section \<open>HEX lines are transparent\<close>

definition hex_line :: "bytes \<Rightarrow> bool" where
  "hex_line l \<longleftrightarrow> (\<exists>body. l = 0x3A # body @ [0x0A] \<and> 0x0A \<notin> set body)"

lemma hex_body:
  assumes "tp_state t = TS_Hex" and "0x0A \<notin> set body"
  shows "core (snd (feed_all body t)) = core t \<and> tp_resume (snd (feed_all body t)) = tp_resume t \<and>
    TE_Block \<notin> set (fst (feed_all body t))"
  using assms
proof (induction body arbitrary: t)
  case (Cons b bs)
  obtain e t1 where f: "tp_feed b t = (e, t1)" by fastforce
  with Cons.prems have t1: "tp_state t1 = TS_Hex" "core t1 = core t" "tp_resume t1 = tp_resume t" "e \<noteq> TE_Block"
    by (auto simp: tp_feed_def tp_hex_byte_def core_def split: if_splits)
  from Cons.IH [OF t1(1)] Cons.prems(2) t1 show ?case
    by (auto simp: f split_beta)
qed simp

lemma hex_line_transparent:
  assumes "hex_line l" and "tp_state t \<noteq> TS_Checksum" "tp_state t \<noteq> TS_Hex"
  shows "core (snd (feed_all l t)) = core t \<and> TE_Block \<notin> set (fst (feed_all l t))"
proof -
  from assms(1) obtain body where l: "l = 0x3A # body @ [0x0A]" "0x0A \<notin> set body"
    by (auto simp: hex_line_def)
  define t1 where "t1 = snd (tp_feed 0x3A t)"
  have t1: "tp_state t1 = TS_Hex" "core (t1\<lparr>tp_state := tp_state t\<rparr>) = core t" "tp_resume t1 = tp_state t"
    "fst (tp_feed 0x3A t) = TE_None"
    using assms(2,3) by (simp_all add: t1_def tp_feed_def tp_hex_byte_def core_def kMaxChars_def)
  define t2 where "t2 = snd (feed_all body t1)"
  have t2: "core t2 = core t1" "tp_resume t2 = tp_state t" "TE_Block \<notin> set (fst (feed_all body t1))"
    using hex_body [OF t1(1) l(2)] t1(3) by (simp_all add: t2_def)
  have "tp_state t2 = TS_Hex" using t2(1) t1(1) by (metis core_simps(1))
  then have e: "fst (tp_feed 0x0A t2) \<noteq> TE_Block" "core (snd (tp_feed 0x0A t2)) = core (t2\<lparr>tp_state := tp_state t\<rparr>)"
    using t2(2) by (auto simp: tp_feed_def tp_hex_byte_def tp_end_hex_def Let_def core_def)
  have "core (t2\<lparr>tp_state := tp_state t\<rparr>) = core (t1\<lparr>tp_state := tp_state t\<rparr>)"
    by (rule core_eqI) (use core_fields [OF t2(1)] in simp_all)
  with e t1 t2 show ?thesis
    by (simp add: l(1) feed_all_append split_beta t1_def [symmetric] t2_def [symmetric])
qed

lemma hex_lines_transparent:
  assumes "\<forall>l\<in>set ls. hex_line l" and "tp_state t \<noteq> TS_Checksum" "tp_state t \<noteq> TS_Hex"
  shows "core (snd (feed_all (concat ls) t)) = core t \<and> TE_Block \<notin> set (fst (feed_all (concat ls) t))"
  using assms
proof (induction ls arbitrary: t)
  case (Cons l ls)
  have one: "core (snd (feed_all l t)) = core t" "TE_Block \<notin> set (fst (feed_all l t))"
    using hex_line_transparent [of l t] Cons.prems by auto
  then show ?case
    using Cons.IH [of "snd (feed_all l t)"] Cons.prems core_fields(1) [OF one(1)]
    by (auto simp: feed_all_append split_beta)
qed simp

section \<open>Text acts on the core\<close>

lemma label_byte_core: "core t = core u \<Longrightarrow> core (tp_label_byte b t) = core (tp_label_byte b u)"
  by (frule core_fields(5), frule core_fields(6), rule core_eqI)
    (auto simp: tp_label_byte_def Let_def dest: core_fields)

lemma value_byte_core: "core t = core u \<Longrightarrow> core (tp_value_byte b t) = core (tp_value_byte b u)"
  by (frule core_fields(5), frule core_fields(6), frule core_fields(7), rule core_eqI)
    (auto simp: tp_value_byte_def tp_end_record_def Let_def dest: core_fields)

lemma text_byte_core:
  assumes "core t = core u" and "tp_state t \<noteq> TS_Checksum"
  shows "core (snd (tp_text_byte b t)) = core (snd (tp_text_byte b u))"
proof -
  note f = core_fields [OF assms(1)]
  let ?n = "\<lambda>t. t\<lparr>tp_checksum := tp_checksum t + b, tp_started := True\<rparr>"
  let ?r = "\<lambda>t. (?n t)\<lparr>tp_field := \<lparr>tf_label = [], tf_value = []\<rparr>, tp_field_long := False, tp_state := TS_Label\<rparr>"
  have n: "core (?n t) = core (?n u)" "core (?r t) = core (?r u)"
    "core ((?n t)\<lparr>tp_state := TS_RecordBegin\<rparr>) = core ((?n u)\<lparr>tp_state := TS_RecordBegin\<rparr>)"
    by (rule core_eqI; simp add: f)+
  show ?thesis
    using assms(2) f(1) n label_byte_core [OF n(1)] label_byte_core [OF n(2)] value_byte_core [OF n(1)]
    by (cases "tp_state t") (auto simp: tp_text_byte_def Let_def)
qed

text \<open>One text byte with the HEX lines before it.\<close>

definition item_bytes :: "bytes list \<times> u8 \<Rightarrow> bytes" where
  "item_bytes it = concat (fst it) @ [snd it]"

definition stream :: "(bytes list \<times> u8) list \<Rightarrow> bytes" where
  "stream items = concat (map item_bytes items)"

primrec text_run :: "bytes \<Rightarrow> TextParser \<Rightarrow> TextParser" where
  "text_run [] t = core t"
| "text_run (b # bs) t = text_run bs (snd (tp_text_byte b (core t)))"

lemma text_run_core [simp]: "text_run bs (core t) = text_run bs t"
  by (cases bs) (simp_all add: core_def)

lemma text_run_append: "text_run (xs @ ys) t = text_run ys (text_run xs t)"
  by (induction xs arbitrary: t) simp_all

lemma text_byte_plain:
  assumes "tp_state t \<noteq> TS_Checksum"
  shows "core (snd (tp_text_byte b (core t))) = core (snd (tp_text_byte b t))" "fst (tp_text_byte b t) = TE_None"
proof -
  have "core (core t) = core t" by (simp add: core_def)
  from text_byte_core [OF this, of b] assms
  show "core (snd (tp_text_byte b (core t))) = core (snd (tp_text_byte b t))" by simp
  show "fst (tp_text_byte b t) = TE_None"
    using assms by (cases "tp_state t") (auto simp: tp_text_byte_def Let_def)
qed

lemma item_step:
  assumes "\<forall>l\<in>set ls. hex_line l" and "b \<noteq> 0x3A" and "tp_state t \<noteq> TS_Checksum" "tp_state t \<noteq> TS_Hex"
  shows "core (snd (feed_all (item_bytes (ls, b)) t)) = text_run [b] t \<and>
    TE_Block \<notin> set (fst (feed_all (item_bytes (ls, b)) t))"
proof -
  define t1 where "t1 = snd (feed_all (concat ls) t)"
  from hex_lines_transparent [OF assms(1,3,4)]
  have t1: "core t1 = core t" "TE_Block \<notin> set (fst (feed_all (concat ls) t))" by (auto simp: t1_def)
  have st: "tp_state t1 = tp_state t" by (rule core_fields(1) [OF t1(1)])
  have feed: "tp_feed b t1 = tp_text_byte b t1"
    using assms(2,4) st by (auto simp: tp_feed_def)
  have "core (snd (tp_text_byte b t1)) = text_run [b] t"
    using text_byte_plain(1) [of t1 b] assms(3) st t1(1) by simp
  moreover have "fst (tp_text_byte b t1) = TE_None"
    using text_byte_plain(2) [of t1 b] assms(3) st by simp
  ultimately show ?thesis
    using t1(2) by (simp add: item_bytes_def feed_all_append split_beta t1_def [symmetric] feed)
qed

text \<open>A run of text that is not interrupted by the checksum position.\<close>

definition before_checksum :: "bytes \<Rightarrow> TextParser \<Rightarrow> bool" where
  "before_checksum bs t \<longleftrightarrow> (\<forall>n<length bs. tp_state (text_run (take n bs) t) \<notin> {TS_Checksum, TS_Hex})"

lemma stream_runs_as_text:
  assumes "\<forall>(ls, b)\<in>set items. b \<noteq> 0x3A \<and> (\<forall>l\<in>set ls. hex_line l)"
    and "before_checksum (map snd items) t"
  shows "core (snd (feed_all (stream items) t)) = text_run (map snd items) t \<and>
    TE_Block \<notin> set (fst (feed_all (stream items) t))"
  using assms
proof (induction items arbitrary: t)
  case (Cons it items)
  obtain ls b where it: "it = (ls, b)" by fastforce
  have st: "tp_state t \<noteq> TS_Checksum" "tp_state t \<noteq> TS_Hex"
    using Cons.prems(2) by (auto simp: before_checksum_def dest: spec [of _ 0])
  define t1 where "t1 = snd (feed_all (item_bytes (ls, b)) t)"
  have one: "core t1 = text_run [b] t" "TE_Block \<notin> set (fst (feed_all (item_bytes (ls, b)) t))"
    using item_step [of ls b t] Cons.prems(1) st by (auto simp: it t1_def)
  have run: "text_run bs t1 = text_run (b # bs) t" for bs
    by (metis one(1) text_run_core text_run_append append_Cons append_Nil)
  have "before_checksum (map snd items) t1"
    unfolding before_checksum_def
  proof (intro allI impI)
    fix n assume "n < length (map snd items)"
    then show "tp_state (text_run (take n (map snd items)) t1) \<notin> {TS_Checksum, TS_Hex}"
      using Cons.prems(2) by (auto simp: before_checksum_def run it dest!: spec [of _ "Suc n"])
  qed
  with Cons.IH [of t1] Cons.prems(1) one run show ?case
    by (auto simp: stream_def feed_all_append split_beta t1_def [symmetric] it)
qed (simp add: stream_def)

section \<open>A block, byte by byte\<close>

definition record_text :: "TextField \<Rightarrow> bytes" where
  "record_text f = [0x0D, 0x0A] @ tf_label f @ [0x09] @ tf_value f"

definition block_text :: "TextBlock \<Rightarrow> bytes" where
  "block_text fs = concat (map record_text fs) @ [0x0D, 0x0A] @ ascii ''Checksum'' @ [0x09]"

definition field_ok :: "TextField \<Rightarrow> bool" where
  "field_ok f \<longleftrightarrow> length (tf_label f) \<le> kLabelChars \<and> length (tf_value f) \<le> kValueChars \<and>
     0x09 \<notin> set (tf_label f) \<and> 0x3A \<notin> set (tf_label f) \<and> c_str (tf_label f) \<noteq> ascii ''Checksum'' \<and>
     0x0A \<notin> set (tf_value f) \<and> 0x0D \<notin> set (tf_value f) \<and> 0x3A \<notin> set (tf_value f)"

definition at :: "TState \<Rightarrow> TextField \<Rightarrow> TextBlock \<Rightarrow> u8 \<Rightarrow> TextParser \<Rightarrow> bool" where
  "at st f sc ck t \<longleftrightarrow> tp_state t = st \<and> (st = TS_Label \<or> st = TS_Value \<longrightarrow> tp_field t = f \<and> \<not> tp_field_long t) \<and>
     tp_scratch t = sc \<and> \<not> tp_overflow t \<and> tp_checksum t = ck"

text \<open>\<open>safe bs P Q\<close>: from \<open>P\<close> the text \<open>bs\<close> leads to \<open>Q\<close> without passing the checksum position.\<close>

definition safe :: "bytes \<Rightarrow> (TextParser \<Rightarrow> bool) \<Rightarrow> (TextParser \<Rightarrow> bool) \<Rightarrow> bool" where
  "safe bs P Q \<longleftrightarrow> (\<forall>t. P t \<longrightarrow> Q (text_run bs t) \<and> before_checksum bs t)"

lemma before_checksum_append:
  "before_checksum xs t \<Longrightarrow> before_checksum ys (text_run xs t) \<Longrightarrow> before_checksum (xs @ ys) t"
  unfolding before_checksum_def
proof (intro allI impI)
  fix n
  assume a: "\<forall>n<length xs. tp_state (text_run (take n xs) t) \<notin> {TS_Checksum, TS_Hex}"
    and b: "\<forall>n<length ys. tp_state (text_run (take n ys) (text_run xs t)) \<notin> {TS_Checksum, TS_Hex}"
    and n: "n < length (xs @ ys)"
  show "tp_state (text_run (take n (xs @ ys)) t) \<notin> {TS_Checksum, TS_Hex}"
    using a b n by (cases "n < length xs") (auto simp: text_run_append)
qed

lemma safe_append: "safe xs P Q \<Longrightarrow> safe ys Q R \<Longrightarrow> safe (xs @ ys) P R"
  by (auto simp: safe_def text_run_append before_checksum_append)

lemma at_core [simp]: "at st f sc ck (core t) = at st f sc ck t"
  by (simp add: at_def)

lemma before_checksum_single: "tp_state t \<notin> {TS_Checksum, TS_Hex} \<Longrightarrow> before_checksum [b] t"
  by (simp add: before_checksum_def)

lemma safe_byte:
  assumes "\<And>t. P t \<Longrightarrow> P (core t)" and "\<And>t. P t \<Longrightarrow> tp_state t \<notin> {TS_Checksum, TS_Hex}"
    and "\<And>t. P t \<Longrightarrow> Q (core (snd (tp_text_byte b t)))"
  shows "safe [b] P Q"
  unfolding safe_def using assms by (simp add: before_checksum_single)

lemma safe_label:
  assumes "length (tf_label f @ l) \<le> kLabelChars" and "0x09 \<notin> set l"
  shows "safe l (at TS_Label f sc ck) (at TS_Label (f\<lparr>tf_label := tf_label f @ l\<rparr>) sc (ck + sum_list l))"
  using assms
proof (induction l arbitrary: f ck)
  case Nil
  then show ?case by (simp add: safe_def before_checksum_def)
next
  case (Cons b l)
  have "safe [b] (at TS_Label f sc ck) (at TS_Label (f\<lparr>tf_label := tf_label f @ [b]\<rparr>) sc (ck + b))"
    using Cons.prems by (intro safe_byte) (auto simp: at_def tp_text_byte_def tp_label_byte_def Let_def)
  from safe_append [OF this Cons.IH] Cons.prems show ?case by (simp add: add.assoc)
qed

lemma safe_value:
  assumes "length (tf_value f @ v) \<le> kValueChars" and "0x0A \<notin> set v" "0x0D \<notin> set v"
  shows "safe v (at TS_Value f sc ck) (at TS_Value (f\<lparr>tf_value := tf_value f @ v\<rparr>) sc (ck + sum_list v))"
  using assms
proof (induction v arbitrary: f ck)
  case Nil
  then show ?case by (simp add: safe_def before_checksum_def)
next
  case (Cons b v)
  have "safe [b] (at TS_Value f sc ck) (at TS_Value (f\<lparr>tf_value := tf_value f @ [b]\<rparr>) sc (ck + b))"
    using Cons.prems by (intro safe_byte) (auto simp: at_def tp_text_byte_def tp_value_byte_def Let_def)
  from safe_append [OF this Cons.IH] Cons.prems show ?case by (simp add: add.assoc)
qed

text \<open>The first byte of a record acts as a label byte on an empty field.\<close>

lemma safe_begin:
  assumes "safe (b # bs) (at TS_Label \<lparr>tf_label = [], tf_value = []\<rparr> sc ck) Q"
  shows "safe (b # bs) (at TS_RecordBegin f sc ck) Q"
  unfolding safe_def
proof (intro allI impI)
  fix t assume t: "at TS_RecordBegin f sc ck t"
  let ?u = "t\<lparr>tp_field := \<lparr>tf_label = [], tf_value = []\<rparr>, tp_field_long := False, tp_state := TS_Label\<rparr>"
  have u: "at TS_Label \<lparr>tf_label = [], tf_value = []\<rparr> sc ck ?u" using t by (simp add: at_def)
  have "snd (tp_text_byte b (core t)) = snd (tp_text_byte b (core ?u))"
    using t by (cases t) (simp add: at_def tp_text_byte_def core_def Let_def)
  then have run: "text_run (b # xs) t = text_run (b # xs) ?u" for xs by simp
  have "before_checksum (b # bs) ?u" "Q (text_run (b # bs) ?u)"
    using assms u unfolding safe_def by blast+
  moreover have "before_checksum (b # bs) t"
    unfolding before_checksum_def
  proof (intro allI impI)
    fix n assume "n < length (b # bs)"
    then show "tp_state (text_run (take n (b # bs)) t) \<notin> {TS_Checksum, TS_Hex}"
    proof (cases n)
      case 0
      with t show ?thesis by (simp add: at_def)
    next
      case (Suc m)
      with \<open>before_checksum (b # bs) ?u\<close> \<open>n < length (b # bs)\<close>
      have "tp_state (text_run (b # take m bs) ?u) \<notin> {TS_Checksum, TS_Hex}"
        by (auto simp: before_checksum_def simp del: text_run.simps(2) dest!: spec [of _ n])
      with Suc show ?thesis by (simp add: run del: text_run.simps(2))
    qed
  qed
  ultimately show "Q (text_run (b # bs) t) \<and> before_checksum (b # bs) t"
    by (simp add: run del: text_run.simps(2))
qed

lemma safe_begin_text:
  "safe bs (at TS_Label \<lparr>tf_label = [], tf_value = []\<rparr> sc ck) Q \<Longrightarrow> bs \<noteq> [] \<Longrightarrow>
   safe bs (at TS_RecordBegin f sc ck) Q"
  by (cases bs) (auto intro: safe_begin)

lemma safe_record:
  assumes "field_ok f"
  shows "safe (tf_label f @ [0x09] @ tf_value f) (at TS_RecordBegin g sc ck)
    (at TS_Value f sc (ck + sum_list (tf_label f @ [0x09] @ tf_value f)))"
proof -
  let ?e = "\<lparr>tf_label = [], tf_value = []\<rparr>"
  have a: "safe (tf_label f) (at TS_Label ?e sc ck) (at TS_Label (?e\<lparr>tf_label := tf_label f\<rparr>) sc (ck + sum_list (tf_label f)))"
    using safe_label [of ?e "tf_label f" sc ck] assms by (simp add: field_ok_def)
  have b: "safe [0x09] (at TS_Label (?e\<lparr>tf_label := tf_label f\<rparr>) sc c) (at TS_Value (?e\<lparr>tf_label := tf_label f\<rparr>) sc (c + 0x09))" for c
    using assms by (intro safe_byte) (auto simp: at_def tp_text_byte_def tp_label_byte_def Let_def field_ok_def)
  have c: "safe (tf_value f) (at TS_Value (?e\<lparr>tf_label := tf_label f\<rparr>) sc c) (at TS_Value f sc (c + sum_list (tf_value f)))" for c
    using safe_value [of "?e\<lparr>tf_label := tf_label f\<rparr>" "tf_value f" sc c] assms
    by (cases f) (simp add: field_ok_def)
  have "safe (tf_label f @ [0x09] @ tf_value f) (at TS_Label ?e sc ck)
    (at TS_Value f sc (ck + sum_list (tf_label f @ [0x09] @ tf_value f)))"
    using safe_append [OF a safe_append [OF b c]] by (simp add: add.assoc)
  then show ?thesis by (rule safe_begin_text) simp
qed

text \<open>Between records: idle before the first, in the value of the last one after it.\<close>

definition boundary :: "TextBlock \<Rightarrow> u8 \<Rightarrow> TextParser \<Rightarrow> bool" where
  "boundary fs ck =
     (if fs = [] then at TS_Idle \<lparr>tf_label = [], tf_value = []\<rparr> [] ck
      else at TS_Value (last fs) (butlast fs) ck)"

lemma boundary_snoc: "boundary (gs @ [f]) ck = at TS_Value f gs ck"
  by (simp add: boundary_def)

lemma boundary_core: "boundary fs ck t \<Longrightarrow> boundary fs ck (core t)"
  by (simp add: boundary_def split: if_splits)

lemma safe_crlf:
  assumes "length fs \<le> kMaxFields"
  shows "safe [0x0D, 0x0A] (boundary fs ck) (at TS_RecordBegin g fs (ck + 0x0D + 0x0A))"
proof -
  have a: "safe [0x0D] (boundary fs ck) (boundary fs (ck + 0x0D))"
    by (intro safe_byte) (auto simp: boundary_def at_def tp_text_byte_def tp_value_byte_def Let_def split: if_splits)
  have b: "safe [0x0A] (boundary fs c) (at TS_RecordBegin g fs (c + 0x0A))" for c
    using assms
    by (intro safe_byte)
      (auto simp: boundary_def at_def tp_text_byte_def tp_value_byte_def tp_end_record_def Let_def kMaxFields_def
        split: if_splits)
  from safe_append [OF a b] show ?thesis by simp
qed

lemma safe_records:
  assumes "\<forall>f\<in>set fs. field_ok f" and "length (gs @ fs) \<le> kMaxFields"
  shows "safe (concat (map record_text fs)) (boundary gs ck)
    (boundary (gs @ fs) (ck + sum_list (concat (map record_text fs))))"
  using assms
proof (induction fs arbitrary: gs ck)
  case Nil
  then show ?case by (simp add: safe_def before_checksum_def boundary_core)
next
  case (Cons f fs)
  have a: "safe [0x0D, 0x0A] (boundary gs ck) (at TS_RecordBegin f gs (ck + 0x0D + 0x0A))"
    using Cons.prems by (intro safe_crlf) simp
  have b: "safe (tf_label f @ [0x09] @ tf_value f) (at TS_RecordBegin f gs c)
      (boundary (gs @ [f]) (c + sum_list (tf_label f @ [0x09] @ tf_value f)))" for c
    using safe_record [of f f gs c] Cons.prems by (simp add: boundary_snoc)
  have ab: "safe (record_text f) (boundary gs ck) (boundary (gs @ [f]) (ck + sum_list (record_text f)))"
    using safe_append [OF a b] by (simp add: record_text_def add.assoc)
  from safe_append [OF ab Cons.IH] Cons.prems show ?case
    by (simp add: add.assoc)
qed

lemma safe_checksum_label:
  "safe (ascii ''Checksum'' @ [0x09]) (at TS_RecordBegin g sc ck)
     (at TS_Checksum g sc (ck + sum_list (ascii ''Checksum'' @ [0x09])))"
proof -
  let ?e = "\<lparr>tf_label = [], tf_value = []\<rparr>" and ?l = "ascii ''Checksum''"
  have l: "length ?l = 8" "0x09 \<notin> set ?l" "c_str ?l = ?l" by code_simp+
  have a: "safe ?l (at TS_Label ?e sc ck) (at TS_Label (?e\<lparr>tf_label := ?l\<rparr>) sc (ck + sum_list ?l))"
    using safe_label [of ?e ?l sc ck] l by (simp add: kLabelChars_def)
  have b: "safe [0x09] (at TS_Label (?e\<lparr>tf_label := ?l\<rparr>) sc c) (at TS_Checksum g sc (c + 0x09))" for c
    using l by (intro safe_byte) (auto simp: at_def tp_text_byte_def tp_label_byte_def Let_def)
  have "safe (?l @ [0x09]) (at TS_Label ?e sc ck) (at TS_Checksum g sc (ck + sum_list (?l @ [0x09])))"
    using safe_append [OF a b] by (simp add: add.assoc)
  then show ?thesis by (rule safe_begin_text) simp
qed

lemma safe_block:
  assumes "\<forall>f\<in>set fs. field_ok f" and "length fs \<le> kMaxFields"
  shows "safe (block_text fs) (boundary [] 0) (at TS_Checksum g fs (sum_list (block_text fs)))"
proof -
  have a: "safe (concat (map record_text fs)) (boundary [] 0) (boundary fs (sum_list (concat (map record_text fs))))"
    using safe_records [of fs "[]" 0] assms by (simp)
  have b: "safe [0x0D, 0x0A] (boundary fs c) (at TS_RecordBegin g fs (c + 0x0D + 0x0A))" for c
    using assms(2) by (rule safe_crlf)
  from safe_append [OF a safe_append [OF b safe_checksum_label]] show ?thesis
    by (simp add: block_text_def add.assoc)
qed

text \<open>
  The parser delivers what it is sent. From an idle parser, a block of up to 24 records
  whose labels and values fit, sent with its checksum byte and with any number of HEX lines
  before any of its other bytes, is delivered exactly at the checksum byte and nowhere before,
  field for field; and the parser is idle and synced for the next block.
\<close>

theorem text_block_delivered:
  assumes "\<forall>f\<in>set fs. field_ok f" and "length fs \<le> kMaxFields"
    and "map snd items = block_text fs" and "\<forall>(ls, b)\<in>set items. \<forall>l\<in>set ls. hex_line l"
    and "tp_state t = TS_Idle" "tp_checksum t = 0" "tp_scratch t = []" "\<not> tp_overflow t"
    and "feed_all (stream items @ [- sum_list (block_text fs)]) t = (es, t')"
  shows "last es = TE_Block \<and> TE_Block \<notin> set (butlast es) \<and> tp_block t' = fs \<and>
    tp_state t' = TS_Idle \<and> tp_checksum t' = 0 \<and> tp_scratch t' = [] \<and> \<not> tp_overflow t' \<and> tp_synced t'"
proof -
  let ?c = "- sum_list (block_text fs) :: u8"
  have colon: "0x3A \<notin> set (block_text fs)"
  proof -
    have "(0x3A :: u8) \<notin> set (ascii ''Checksum'')" by code_simp
    with assms(1) show ?thesis by (auto simp: block_text_def record_text_def field_ok_def)
  qed
  have items: "\<forall>(ls, b)\<in>set items. b \<noteq> 0x3A \<and> (\<forall>l\<in>set ls. hex_line l)"
  proof clarify
    fix ls b assume *: "(ls, b) \<in> set items"
    then have "b \<in> set (map snd items)" by force
    with colon assms(3) have "b \<noteq> 0x3A" by auto
    with * assms(4) show "b \<noteq> 0x3A \<and> (\<forall>l\<in>set ls. hex_line l)" by blast
  qed
  have "boundary [] 0 t" using assms(5-8) by (simp add: boundary_def at_def)
  with safe_block [OF assms(1,2)] have
    ck: "at TS_Checksum undefined fs (sum_list (block_text fs)) (text_run (block_text fs) t)"
    and before: "before_checksum (block_text fs) t"
    unfolding safe_def by blast+
  define u where "u = snd (feed_all (stream items) t)"
  have u: "core u = text_run (block_text fs) t" "TE_Block \<notin> set (fst (feed_all (stream items) t))"
    using stream_runs_as_text [OF items] before assms(3) by (auto simp: u_def)
  with ck have "at TS_Checksum undefined fs (sum_list (block_text fs)) u"
    by (metis at_core)
  then have "tp_feed ?c u = (TE_Block, snd (tp_feed ?c u)) \<and> tp_block (snd (tp_feed ?c u)) = fs \<and>
      tp_state (snd (tp_feed ?c u)) = TS_Idle \<and> tp_checksum (snd (tp_feed ?c u)) = 0 \<and>
      tp_scratch (snd (tp_feed ?c u)) = [] \<and> \<not> tp_overflow (snd (tp_feed ?c u)) \<and> tp_synced (snd (tp_feed ?c u))"
    by (simp add: at_def tp_feed_def tp_text_byte_def tp_end_block_def tp_block_drop_def Let_def)
  moreover have "es = fst (feed_all (stream items) t) @ [fst (tp_feed ?c u)]" "t' = snd (tp_feed ?c u)"
    using assms(9) by (simp_all add: feed_all_append u_def split_beta)
  ultimately show ?thesis
    using u(2) by (metis butlast_snoc last_snoc fst_conv)
qed

definition bench_block :: TextBlock where
  "bench_block = [\<lparr>tf_label = ascii ''V'', tf_value = ascii ''12800''\<rparr>, \<lparr>tf_label = ascii ''CS'', tf_value = ascii ''3''\<rparr>]"

text \<open>A HEX reply arrives in the middle of the second record.\<close>

definition bench_items :: "(bytes list \<times> u8) list" where
  "bench_items = (let bs = map (Pair []) (block_text bench_block) in
     bs[12 := ([0x3A # ascii ''5414100'' @ [0x0A]], snd (bs ! 12))])"

lemma bench_block_ok:
  "list_all (\<lambda>f. length (tf_label f) \<le> 15 \<and> length (tf_value f) \<le> 32 \<and> 0x09 \<notin> set (tf_label f) \<and>
     0x3A \<notin> set (tf_label f) \<and> c_str (tf_label f) \<noteq> ascii ''Checksum'' \<and> 0x0A \<notin> set (tf_value f) \<and>
     0x0D \<notin> set (tf_value f) \<and> 0x3A \<notin> set (tf_value f)) bench_block"
  "map snd bench_items = block_text bench_block"
  "list_all (\<lambda>(ls, b). ls = [] \<or> ls = [0x3A # ascii ''5414100'' @ [0x0A]]) bench_items"
  "0x0A \<notin> set (ascii ''5414100'')"
  by code_simp+

theorem text_block_delivered_witness:
  "last (fst (feed_all (stream bench_items @ [- sum_list (block_text bench_block)]) TextParser_new)) = TE_Block \<and>
   tp_block (snd (feed_all (stream bench_items @ [- sum_list (block_text bench_block)]) TextParser_new)) = bench_block"
proof -
  let ?r = "feed_all (stream bench_items @ [- sum_list (block_text bench_block)]) TextParser_new"
  have f: "\<forall>f\<in>set bench_block. field_ok f"
    using bench_block_ok(1) by (simp add: list_all_iff field_ok_def kLabelChars_def kValueChars_def)
  have l: "length bench_block \<le> kMaxFields" by (simp add: bench_block_def kMaxFields_def)
  have "hex_line (0x3A # ascii ''5414100'' @ [0x0A])"
    using bench_block_ok(4) by (auto simp: hex_line_def)
  then have h: "\<forall>(ls, b)\<in>set bench_items. \<forall>l\<in>set ls. hex_line l"
    using bench_block_ok(3) by (auto simp: list_all_iff)
  have "tp_state TextParser_new = TS_Idle" "tp_checksum TextParser_new = 0" "tp_scratch TextParser_new = []"
    "\<not> tp_overflow TextParser_new"
    by (simp_all add: TextParser_new_def tp_reset_def)
  from text_block_delivered [OF f l bench_block_ok(2) h this, of "fst ?r" "snd ?r"]
  show ?thesis by simp
qed

end
