(* ===== verification/TdtProtocol.thy ===== *)
theory TdtProtocol
  imports Clock
begin

text \<open>
  The wire protocol of the battery (\<open>lib/bms-ble\<close>: \<open>bms_data.h\<close>, \<open>tdt_protocol.h\<close>,
  \<open>tdt_protocol.cpp\<close>) and the notification handler that runs it (\<open>NotifyHandler\<close> of
  \<open>firmware/gatelink/src/bms_client.cpp\<close>). \<open>buf_\<close> and \<open>len_\<close> are the list of the bytes held; a
  completed frame carries the payload bytes its pointer would show. The BLE transport only hands
  over notifications.
\<close>

section \<open>Constants and data\<close>

definition kRequestHead :: u8 where "kRequestHead = 0x1E"
definition kResponseHead :: u8 where "kResponseHead = 0x7E"
definition kTerminator :: u8 where "kTerminator = 0x0D"
definition kHeaderLen :: nat where "kHeaderLen = 8"
definition kTrailerLen :: nat where "kTrailerLen = 3"
definition kRequestLen :: nat where "kRequestLen = 11"
definition kMaxFrameLen :: nat where "kMaxFrameLen = 266"
definition kOffsetCmd :: nat where "kOffsetCmd = 5"
definition kOffsetPayloadLen :: nat where "kOffsetPayloadLen = 7"
definition kPartialFrameTimeoutMs :: u32 where "kPartialFrameTimeoutMs = 1000"
definition kCmdCellsPack :: u8 where "kCmdCellsPack = 0x8C"
definition kCmdDeviceInfo :: u8 where "kCmdDeviceInfo = 0x92"
definition kBmsMaxCells :: nat where "kBmsMaxCells = 16"
definition kMaxTemps :: nat where "kMaxTemps = 8"
definition kFieldLen :: nat where "kFieldLen = 20"

record BmsData =
  bd_valid :: bool
  bd_cell_count :: u8
  bd_cell_mv :: "u16 list"
  bd_temp_count :: u8
  bd_temp_dc :: "i16 list"
  bd_pack_mv :: u32
  bd_current_ma :: i32
  bd_discharging :: bool
  bd_current_raw :: u16
  bd_soc_pct :: u8
  bd_remaining_dAh :: u16
  bd_nominal_dAh :: u16
  bd_cycles :: u16
  bd_soh_dpct :: u16

definition BmsData_clear :: BmsData where
  "BmsData_clear = \<lparr>bd_valid = False, bd_cell_count = 0, bd_cell_mv = replicate kBmsMaxCells 0,
     bd_temp_count = 0, bd_temp_dc = replicate kMaxTemps 0, bd_pack_mv = 0, bd_current_ma = 0,
     bd_discharging = False, bd_current_raw = 0, bd_soc_pct = 0, bd_remaining_dAh = 0, bd_nominal_dAh = 0,
     bd_cycles = 0, bd_soh_dpct = 0\<rparr>"

definition min_cell_mv :: "BmsData \<Rightarrow> u16" where
  "min_cell_mv d =
     (if bd_cell_count d = 0 then 0
      else fold (\<lambda>i lo. if bd_cell_mv d ! i < lo then bd_cell_mv d ! i else lo) [1..<unat (bd_cell_count d)]
             (bd_cell_mv d ! 0))"

definition max_cell_mv :: "BmsData \<Rightarrow> u16" where
  "max_cell_mv d =
     (if bd_cell_count d = 0 then 0
      else fold (\<lambda>i hi. if bd_cell_mv d ! i > hi then bd_cell_mv d ! i else hi) [1..<unat (bd_cell_count d)]
             (bd_cell_mv d ! 0))"

definition delta_cell_mv :: "BmsData \<Rightarrow> u16" where
  "delta_cell_mv d = (if bd_cell_count d = 0 then 0 else max_cell_mv d - min_cell_mv d)"

definition max_temp_dc :: "BmsData \<Rightarrow> i16" where
  "max_temp_dc d =
     (if bd_temp_count d = 0 then 0
      else fold (\<lambda>i hi. if sint (bd_temp_dc d ! i) > sint hi then bd_temp_dc d ! i else hi)
             [1..<unat (bd_temp_count d)] (bd_temp_dc d ! 0))"

record DeviceInfo =
  di_sw_version :: bytes
  di_manufacturer :: bytes
  di_serial_number :: bytes

section \<open>CRC and requests\<close>

definition be16 :: "u8 \<Rightarrow> u8 \<Rightarrow> u16" where
  "be16 hi lo = push_bit 8 (ucast hi) OR ucast lo"

definition crc_modbus_bit :: "u16 \<Rightarrow> u16" where
  "crc_modbus_bit crc = (if crc AND 0x0001 \<noteq> 0 then drop_bit 1 crc XOR 0xA001 else drop_bit 1 crc)"

definition crc16_modbus :: "bytes \<Rightarrow> u16" where
  "crc16_modbus data = fold (\<lambda>b crc. (crc_modbus_bit ^^ 8) (crc XOR ucast b)) data 0xFFFF"

definition build_request :: "u8 \<Rightarrow> nat \<Rightarrow> bytes option" where
  "build_request cmd out_size =
     (if out_size < kRequestLen then None
      else let body = [kRequestHead, 0x00, 0x01, 0x03, 0x00, cmd, 0x00, 0x00]; crc = crc16_modbus body
        in Some (body @ [ucast (drop_bit 8 crc), ucast (crc AND 0xFF), kTerminator]))"

section \<open>Reassembly\<close>

record TdtFrame =
  td_cmd :: u8
  td_payload :: "bytes option"

datatype FrStatus = FS_Incomplete | FS_Complete | FS_CrcError | FS_BadTerminator

record FrameReassembler =
  fr_buf :: bytes
  fr_discarded :: nat
  fr_started_ms :: u32
  fr_timing :: bool
  fr_frame :: TdtFrame

definition fr_reset :: "FrameReassembler \<Rightarrow> FrameReassembler" where
  "fr_reset r = r\<lparr>fr_buf := [], fr_timing := False, fr_started_ms := 0,
     fr_frame := \<lparr>td_cmd = 0, td_payload = None\<rparr>\<rparr>"

definition FrameReassembler_new :: FrameReassembler where
  "FrameReassembler_new = \<lparr>fr_buf = [], fr_discarded = 0, fr_started_ms = 0, fr_timing = False,
     fr_frame = \<lparr>td_cmd = 0, td_payload = None\<rparr>\<rparr>"

definition fr_validate :: "nat \<Rightarrow> FrameReassembler \<Rightarrow> FrStatus \<times> FrameReassembler" where
  "fr_validate tot r =
     (let body = tot - kTrailerLen; buf = fr_buf r;
          bad = r\<lparr>fr_discarded := fr_discarded r + tot, fr_buf := [], fr_timing := False\<rparr> in
      if buf ! (tot - 1) \<noteq> kTerminator then (FS_BadTerminator, bad)
      else if crc16_modbus (take body buf) \<noteq> be16 (buf ! body) (buf ! (body + 1)) then (FS_CrcError, bad)
      else (FS_Complete,
            r\<lparr>fr_frame := \<lparr>td_cmd = buf ! kOffsetCmd,
                 td_payload = Some (take (unat (buf ! kOffsetPayloadLen)) (drop kHeaderLen buf))\<rparr>,
              fr_buf := [], fr_timing := False\<rparr>))"

fun fr_feed :: "bytes \<Rightarrow> nat \<Rightarrow> FrameReassembler \<Rightarrow> nat \<times> FrStatus \<times> FrameReassembler" where
  "fr_feed [] i r = (i, FS_Incomplete, r)"
| "fr_feed (b # bs) i r =
     (if fr_buf r = [] \<and> b \<noteq> kResponseHead then fr_feed bs (i + 1) (r\<lparr>fr_discarded := fr_discarded r + 1\<rparr>)
      else let r = r\<lparr>fr_buf := fr_buf r @ [b]\<rparr> in
        if length (fr_buf r) < kHeaderLen then fr_feed bs (i + 1) r
        else let tot = kHeaderLen + unat (fr_buf r ! kOffsetPayloadLen) + kTrailerLen in
          if length (fr_buf r) < tot then fr_feed bs (i + 1) r
          else (i + 1, fr_validate tot r))"

definition fr_feed_at :: "bytes \<Rightarrow> u32 \<Rightarrow> FrameReassembler \<Rightarrow> nat \<times> FrStatus \<times> FrameReassembler" where
  "fr_feed_at data now_ms r =
     (let was_empty = (fr_buf r = []);
          (consumed, status, r) = fr_feed data 0 r
      in (consumed, status,
          if fr_buf r \<noteq> [] \<and> (was_empty \<or> \<not> fr_timing r)
          then r\<lparr>fr_started_ms := now_ms, fr_timing := True\<rparr> else r))"

definition fr_tick :: "u32 \<Rightarrow> FrameReassembler \<Rightarrow> FrameReassembler" where
  "fr_tick now_ms r =
     (if fr_buf r = [] \<or> \<not> fr_timing r then r
      else if sint (now_ms - fr_started_ms r) \<ge> sint kPartialFrameTimeoutMs
      then r\<lparr>fr_discarded := fr_discarded r + length (fr_buf r), fr_buf := [], fr_timing := False\<rparr>
      else r)"

section \<open>Decoding\<close>

definition be16_at :: "bytes \<Rightarrow> nat \<Rightarrow> u16" where
  "be16_at p i = be16 (p ! i) (p ! (i + 1))"

definition decode_cells_and_pack :: "TdtFrame \<Rightarrow> BmsData option" where
  "decode_cells_and_pack f =
     (case td_payload f of
        None \<Rightarrow> None
      | Some p \<Rightarrow>
          let n = length p in
          if td_cmd f \<noteq> kCmdCellsPack then None
          else if n < 1 then None
          else let cells = p ! 0 in
          if cells = 0 \<or> unat cells > kBmsMaxCells then None
          else let off = 1 + unat cells * 2 in
          if n < off + 1 then None
          else let temps = p ! off in
          if unat temps > kMaxTemps then None
          else let off = off + 1; tail = off + unat temps * 2 in
          if n < tail + 14 then None
          else let raw_i = be16_at p tail;
                   magnitude_ma = ucast (raw_i AND 0x3FFF) * 100;
                   discharging = (raw_i AND 0x8000 \<noteq> 0)
            in Some \<lparr>bd_valid = True, bd_cell_count = cells,
                 bd_cell_mv = map (\<lambda>i. be16_at p (1 + i * 2)) [0..<unat cells] @
                              replicate (kBmsMaxCells - unat cells) 0,
                 bd_temp_count = temps,
                 bd_temp_dc = map (\<lambda>i. be16_at p (off + i * 2) - 2731) [0..<unat temps] @
                              replicate (kMaxTemps - unat temps) 0,
                 bd_pack_mv = ucast (be16_at p (tail + 2)) * 10,
                 bd_current_ma = (if discharging then - magnitude_ma else magnitude_ma),
                 bd_discharging = discharging, bd_current_raw = raw_i,
                 bd_soc_pct = ucast (be16_at p (tail + 12)),
                 bd_remaining_dAh = be16_at p (tail + 4), bd_nominal_dAh = be16_at p (tail + 6),
                 bd_cycles = be16_at p (tail + 8), bd_soh_dpct = be16_at p (tail + 10)\<rparr>)"

text \<open>\<open>copy_field\<close>: up to the first zero, without trailing blanks and controls.\<close>

definition copy_field :: "bytes \<Rightarrow> bytes" where
  "copy_field src = rev (dropWhile (\<lambda>b. b \<le> 0x20) (rev (takeWhile (\<lambda>b. b \<noteq> 0) src)))"

definition decode_device_info :: "TdtFrame \<Rightarrow> DeviceInfo option" where
  "decode_device_info f =
     (case td_payload f of
        None \<Rightarrow> None
      | Some p \<Rightarrow>
          if td_cmd f \<noteq> kCmdDeviceInfo \<or> length p < kFieldLen * 3 then None
          else Some \<lparr>di_sw_version = copy_field (take kFieldLen p),
                     di_manufacturer = copy_field (take kFieldLen (drop kFieldLen p)),
                     di_serial_number = copy_field (take kFieldLen (drop (kFieldLen * 2) p))\<rparr>)"

section \<open>The notification handler (bms\_client.cpp)\<close>

record BmsRxCounters =
  brx_frames :: u32
  brx_crc_errors :: u32
  brx_bad_term :: u32
  brx_undecoded :: u32
  brx_discarded :: u32

record NotifyHandler =
  no_rx :: FrameReassembler
  no_last :: BmsData
  no_counters :: BmsRxCounters

text \<open>What one return of \<open>feed\<close> leads to.\<close>

definition notify_status :: "FrStatus \<Rightarrow> NotifyHandler \<Rightarrow> NotifyHandler" where
  "notify_status st h =
     (let c = no_counters h in
      case st of
        FS_Complete \<Rightarrow>
          (case decode_cells_and_pack (fr_frame (no_rx h)) of
             Some d \<Rightarrow> h\<lparr>no_last := d, no_counters := c\<lparr>brx_frames := brx_frames c + 1\<rparr>\<rparr>
           | None \<Rightarrow> h\<lparr>no_counters := c\<lparr>brx_undecoded := brx_undecoded c + 1\<rparr>\<rparr>)
      | FS_CrcError \<Rightarrow> h\<lparr>no_counters := c\<lparr>brx_crc_errors := brx_crc_errors c + 1\<rparr>\<rparr>
      | FS_BadTerminator \<Rightarrow> h\<lparr>no_counters := c\<lparr>brx_bad_term := brx_bad_term c + 1\<rparr>\<rparr>
      | FS_Incomplete \<Rightarrow> h)"

text \<open>The loop over one notification ends because every call of \<open>feed\<close> takes at least one byte.\<close>

lemma fr_feed_consumed: "i \<le> fst (fr_feed bs i r) \<and> fst (fr_feed bs i r) \<le> i + length bs"
proof (induction bs arbitrary: i r)
  case (Cons b bs)
  have "i \<le> fst (fr_feed bs (Suc i) r') \<and> fst (fr_feed bs (Suc i) r') \<le> Suc (i + length bs)" for r'
    using Cons.IH [of "Suc i" r'] by simp
  then show ?case by (simp add: Let_def)
qed simp

lemma fr_feed_progress: "bs \<noteq> [] \<Longrightarrow> i < fst (fr_feed bs i r)"
proof (cases bs)
  case (Cons b bs')
  have "Suc i \<le> fst (fr_feed bs' (Suc i) r')" for r'
    using fr_feed_consumed [of "Suc i" bs'] by simp
  with Cons show ?thesis by (auto simp: Let_def Suc_le_eq)
qed simp

function notify_loop :: "(nat \<Rightarrow> u32) \<Rightarrow> bytes \<Rightarrow> NotifyHandler \<Rightarrow> NotifyHandler" where
  "notify_loop clock data h =
     (if data = [] then h
      else let (n, st, rx) = fr_feed_at data (clock (length data)) (no_rx h)
        in notify_loop clock (drop n data) (notify_status st (h\<lparr>no_rx := rx\<rparr>)))"
  by pat_completeness auto

termination
proof (relation "measure (\<lambda>(clock, data, h). length data)")
  fix clock :: "nat \<Rightarrow> u32" and data :: bytes and h :: NotifyHandler and x n y st rx
  assume "data \<noteq> []" "x = fr_feed_at data (clock (length data)) (no_rx h)" "(n, y) = x" "(st, rx) = y"
  then show "((clock, drop n data, notify_status st (h\<lparr>no_rx := rx\<rparr>)), clock, data, h)
      \<in> measure (\<lambda>(clock, data, h). length data)"
    using fr_feed_progress [of data 0 "no_rx h"]
    by (auto simp: fr_feed_at_def Let_def split_beta)
qed simp

declare notify_loop.simps [simp del]

definition on_notify :: "(nat \<Rightarrow> u32) \<Rightarrow> bytes \<Rightarrow> NotifyHandler \<Rightarrow> NotifyHandler" where
  "on_notify clock data h =
     (let h = notify_loop clock data h
      in h\<lparr>no_counters := (no_counters h)\<lparr>brx_discarded := word_of_nat (fr_discarded (no_rx h))\<rparr>\<rparr>)"

end
