(* ===== verification/TdtCorrect.thy ===== *)
theory TdtCorrect
  imports TdtProtocol
begin

text \<open>
  Reassembly of battery responses is independent of how the BLE stack cuts them into
  notifications. \<open>stream_at k\<close> describes the reassembler after \<open>k\<close> bytes of some noise and a
  response; the noise holds no response head.
\<close>

definition response_body :: "u8 \<Rightarrow> bytes \<Rightarrow> bytes" where
  "response_body cmd payload = [kResponseHead, 0x00, 0x01, 0x03, 0x00, cmd, 0x00, word_of_nat (length payload)] @ payload"

definition response :: "u8 \<Rightarrow> bytes \<Rightarrow> bytes" where
  "response cmd payload =
     (let crc = crc16_modbus (response_body cmd payload)
      in response_body cmd payload @ [ucast (drop_bit 8 crc), ucast (crc AND 0xFF), kTerminator])"

lemma length_response [simp]: "length (response cmd payload) = length payload + 11"
  by (simp add: response_def response_body_def Let_def)

lemma response_nonempty [simp]: "response cmd payload \<noteq> []"
  by (simp flip: length_greater_0_conv)

lemma be16_split: "be16 (ucast (drop_bit 8 crc)) (ucast (crc AND 0xFF)) = crc"
proof (rule bit_word_eqI)
  fix n assume "n < LENGTH(16)"
  then show "bit (be16 (ucast (drop_bit 8 crc)) (ucast (crc AND 0xFF))) n = bit crc n"
    by (cases "n < 8") (auto simp: be16_def bit_simps)
qed

lemma response_fields:
  assumes "length payload \<le> 255"
  shows "response cmd payload ! 0 = kResponseHead" "response cmd payload ! 5 = cmd"
    "unat (response cmd payload ! 7) = length payload"
  using assms by (simp_all add: response_def response_body_def Let_def unat_of_nat)

lemma validate_response:
  assumes "length payload \<le> 255" and "fr_buf r = response cmd payload"
  shows "fr_validate (length payload + 11) r =
    (FS_Complete, r\<lparr>fr_frame := \<lparr>td_cmd = cmd, td_payload = Some payload\<rparr>, fr_buf := [], fr_timing := False\<rparr>)"
proof -
  let ?crc = "crc16_modbus (response_body cmd payload)"
  have len: "length (response_body cmd payload) = length payload + 8" by (simp add: response_body_def)
  have buf: "fr_buf r = response_body cmd payload @ [ucast (drop_bit 8 ?crc), ucast (?crc AND 0xFF), kTerminator]"
    using assms(2) by (simp add: response_def Let_def)
  have "take (length payload + 8) (fr_buf r) = response_body cmd payload" "fr_buf r ! (length payload + 10) = kTerminator"
    "fr_buf r ! (length payload + 8) = ucast (drop_bit 8 ?crc)" "fr_buf r ! (length payload + 9) = ucast (?crc AND 0xFF)"
    using len by (simp_all add: buf nth_append)
  moreover have "take (length payload) (drop 8 (fr_buf r)) = payload"
    by (simp add: buf response_body_def)
  ultimately show ?thesis
    using response_fields [OF assms(1), of cmd] assms(2) be16_split [of ?crc]
    by (simp add: fr_validate_def Let_def kTrailerLen_def kHeaderLen_def kOffsetCmd_def kOffsetPayloadLen_def
        numeral_eq_Suc)
qed

definition stream_at :: "bytes \<Rightarrow> bytes \<Rightarrow> nat \<Rightarrow> nat \<Rightarrow> FrameReassembler \<Rightarrow> bool" where
  "stream_at junk img d0 k r \<longleftrightarrow>
     fr_buf r = take (k - length junk) img \<and> fr_discarded r = d0 + min k (length junk)"

lemma stream_byte:
  assumes at: "stream_at junk (response cmd payload) d0 k r" and k: "Suc k < length junk + length payload + 11"
    and pl: "length payload \<le> 255" and junk: "kResponseHead \<notin> set junk"
    and b: "b = (junk @ response cmd payload) ! k"
  obtains r' where "stream_at junk (response cmd payload) d0 (Suc k) r'" "\<And>bs i. fr_feed (b # bs) i r = fr_feed bs (Suc i) r'"
proof (cases "k < length junk")
  case True
  with at b junk have "fr_buf r = []" "b \<noteq> kResponseHead"
    by (auto simp: stream_at_def nth_append dest: nth_mem)
  then show ?thesis
    using at True by (intro that [of "r\<lparr>fr_discarded := fr_discarded r + 1\<rparr>"]) (auto simp: stream_at_def)
next
  case False
  let ?m = "k - length junk" and ?im = "response cmd payload"
  let ?r = "r\<lparr>fr_buf := fr_buf r @ [b]\<rparr>"
  have m: "?m < length ?im" "Suc ?m < length payload + 11" using k False by auto
  have buf: "fr_buf ?r = take (Suc ?m) ?im"
    using at b False m(1) by (simp add: stream_at_def nth_append take_Suc_conv_app_nth)
  have len: "length (fr_buf ?r) = Suc ?m" unfolding buf using m by simp
  have head: "\<not> (fr_buf r = [] \<and> b \<noteq> kResponseHead)"
  proof
    assume *: "fr_buf r = [] \<and> b \<noteq> kResponseHead"
    then have "?m = 0" using at m(1) by (auto simp: stream_at_def)
    with * b False response_fields(1) [OF pl] show False by (simp add: nth_append)
  qed
  have short: "length (fr_buf ?r) < 8 + unat (fr_buf ?r ! 7) + 3" if "\<not> length (fr_buf ?r) < 8"
    using that m response_fields(3) [OF pl, of cmd] len by (simp add: buf)
  have "stream_at junk ?im d0 (Suc k) ?r"
    using at False buf by (simp add: stream_at_def Suc_diff_le)
  moreover have "fr_feed (b # bs) i r = fr_feed bs (Suc i) ?r" for bs i
    using head short
    by (auto simp: Let_def kHeaderLen_def kTrailerLen_def kOffsetPayloadLen_def)
  ultimately show ?thesis by (rule that)
qed

lemma stream_last:
  assumes at: "stream_at junk (response cmd payload) d0 (length junk + length payload + 10) r"
    and pl: "length payload \<le> 255"
  shows "\<exists>r'. fr_feed [kTerminator] i r = (Suc i, FS_Complete, r') \<and> fr_buf r' = [] \<and>
    fr_discarded r' = d0 + length junk \<and> fr_frame r' = \<lparr>td_cmd = cmd, td_payload = Some payload\<rparr>"
proof -
  let ?im = "response cmd payload" and ?r = "r\<lparr>fr_buf := fr_buf r @ [kTerminator]\<rparr>"
  have "?im ! (length payload + 10) = kTerminator"
    by (simp add: response_def response_body_def Let_def nth_append)
  then have buf: "fr_buf ?r = ?im"
    using at take_Suc_conv_app_nth [of "length payload + 10" ?im] by (simp add: stream_at_def)
  have ne: "fr_buf r \<noteq> []" using at by (auto simp: stream_at_def)
  have "fr_feed [kTerminator] i r = (Suc i, fr_validate (length payload + 11) ?r)"
    using ne buf response_fields(3) [OF pl, of cmd]
    by (simp add: Let_def kHeaderLen_def kTrailerLen_def kOffsetPayloadLen_def add.commute)
  then show ?thesis
    using validate_response [OF pl buf] at by (auto simp: stream_at_def)
qed

lemma stream_chunk:
  assumes "stream_at junk (response cmd payload) d0 k r" and "length payload \<le> 255" and "kResponseHead \<notin> set junk"
    and "chunk @ rest = drop k (junk @ response cmd payload)"
  shows "(rest \<noteq> [] \<longrightarrow> (\<exists>r'. fr_feed chunk i r = (i + length chunk, FS_Incomplete, r') \<and>
            stream_at junk (response cmd payload) d0 (k + length chunk) r')) \<and>
    (rest = [] \<and> chunk \<noteq> [] \<longrightarrow> (\<exists>r'. fr_feed chunk i r = (i + length chunk, FS_Complete, r') \<and> fr_buf r' = [] \<and>
            fr_discarded r' = d0 + length junk \<and> fr_frame r' = \<lparr>td_cmd = cmd, td_payload = Some payload\<rparr>))"
  using assms
proof (induction chunk arbitrary: k r i)
  case (Cons b bs)
  let ?s = "junk @ response cmd payload"
  have len: "Suc (length bs + length rest) = length ?s - k"
    using arg_cong [OF Cons.prems(4), of length] by simp
  then have k: "k < length ?s" by simp
  have "drop k ?s = ?s ! k # drop (Suc k) ?s" using k by (rule Cons_nth_drop_Suc [symmetric])
  with Cons.prems(4) have b: "b = ?s ! k" and rest: "bs @ rest = drop (Suc k) ?s" by auto
  show ?case
  proof (cases "bs @ rest = []")
    case True
    have kk: "k = length junk + length payload + 10" using len True by simp
    have "b = kTerminator"
      unfolding b kk by (simp add: nth_append response_def response_body_def Let_def)
    with True stream_last [of junk cmd payload d0 r i] Cons.prems(1,2) kk show ?thesis by auto
  next
    case False
    have "Suc k < length junk + length payload + 11" using len False by (cases bs; cases rest) auto
    from stream_byte [OF Cons.prems(1) this Cons.prems(2,3) b]
    obtain r' where r': "stream_at junk (response cmd payload) d0 (Suc k) r'"
      "\<And>bs i. fr_feed (b # bs) i r = fr_feed bs (Suc i) r'" by blast
    show ?thesis
    proof (cases "bs = []")
      case True
      with False r' show ?thesis by (auto simp del: fr_feed.simps(2))
    next
      case False
      from Cons.IH [OF r'(1) Cons.prems(2,3) rest, of "Suc i"] False show ?thesis
        by (auto simp: r'(2) simp del: fr_feed.simps(2))
    qed
  qed
qed simp

section \<open>Notifications\<close>

definition read_outcome :: "u8 \<Rightarrow> bytes \<Rightarrow> NotifyHandler \<Rightarrow> NotifyHandler \<Rightarrow> bool" where
  "read_outcome cmd payload h h' \<longleftrightarrow>
     fr_buf (no_rx h') = [] \<and>
     brx_crc_errors (no_counters h') = brx_crc_errors (no_counters h) \<and>
     brx_bad_term (no_counters h') = brx_bad_term (no_counters h) \<and>
     (case decode_cells_and_pack \<lparr>td_cmd = cmd, td_payload = Some payload\<rparr> of
        Some d \<Rightarrow> no_last h' = d \<and> brx_frames (no_counters h') = brx_frames (no_counters h) + 1 \<and>
          brx_undecoded (no_counters h') = brx_undecoded (no_counters h)
      | None \<Rightarrow> no_last h' = no_last h \<and> brx_frames (no_counters h') = brx_frames (no_counters h) \<and>
          brx_undecoded (no_counters h') = brx_undecoded (no_counters h) + 1)"

text \<open>Mid-stream: the handler has decoded nothing new yet.\<close>

definition mid_stream :: "bytes \<Rightarrow> u8 \<Rightarrow> bytes \<Rightarrow> NotifyHandler \<Rightarrow> nat \<Rightarrow> NotifyHandler \<Rightarrow> bool" where
  "mid_stream junk cmd payload h k h' \<longleftrightarrow>
     stream_at junk (response cmd payload) (fr_discarded (no_rx h)) k (no_rx h') \<and> no_last h' = no_last h \<and>
     brx_frames (no_counters h') = brx_frames (no_counters h) \<and>
     brx_undecoded (no_counters h') = brx_undecoded (no_counters h) \<and>
     brx_crc_errors (no_counters h') = brx_crc_errors (no_counters h) \<and>
     brx_bad_term (no_counters h') = brx_bad_term (no_counters h)"

lemma stamped_fields:
  assumes "fr_feed data 0 r = (n, st, r1)"
  shows "\<exists>r2. fr_feed_at data now r = (n, st, r2) \<and> fr_buf r2 = fr_buf r1 \<and> fr_discarded r2 = fr_discarded r1 \<and>
    fr_frame r2 = fr_frame r1"
  using assms by (auto simp: fr_feed_at_def Let_def)

lemma notify_chunk:
  assumes mid: "mid_stream junk cmd payload h k h1" and pl: "length payload \<le> 255"
    and junk: "kResponseHead \<notin> set junk" and rest: "chunk @ rest = drop k (junk @ response cmd payload)"
  shows "(rest \<noteq> [] \<or> chunk = [] \<longrightarrow> mid_stream junk cmd payload h (k + length chunk) (on_notify clock chunk h1)) \<and>
    (rest = [] \<and> chunk \<noteq> [] \<longrightarrow> read_outcome cmd payload h (on_notify clock chunk h1))"
proof (cases "chunk = []")
  case True
  then show ?thesis
    using mid by (simp add: on_notify_def notify_loop.simps mid_stream_def Let_def)
next
  case False
  have loop: "notify_loop clock chunk h1 = notify_status st (h1\<lparr>no_rx := r2\<rparr>)"
    if "fr_feed_at chunk (clock (length chunk)) (no_rx h1) = (length chunk, st, r2)" for st r2
    using that False by (simp add: notify_loop.simps [of clock chunk] notify_loop.simps [of clock "[]"])
  note chunk = stream_chunk [of junk cmd payload "fr_discarded (no_rx h)" k "no_rx h1" chunk rest 0]
  show ?thesis
  proof (cases "rest = []")
    case True
    with chunk mid pl junk rest False obtain r1 where
      "fr_feed chunk 0 (no_rx h1) = (length chunk, FS_Complete, r1)" "fr_buf r1 = []"
      "fr_frame r1 = \<lparr>td_cmd = cmd, td_payload = Some payload\<rparr>"
      by (auto simp: mid_stream_def)
    with stamped_fields [OF this(1), of "clock (length chunk)"] obtain r2 where
      "fr_feed_at chunk (clock (length chunk)) (no_rx h1) = (length chunk, FS_Complete, r2)" "fr_buf r2 = []"
      "fr_frame r2 = \<lparr>td_cmd = cmd, td_payload = Some payload\<rparr>"
      by auto
    with loop True False mid show ?thesis
      by (auto simp: on_notify_def Let_def notify_status_def read_outcome_def mid_stream_def split: option.splits)
  next
    case rest_ne: False
    with chunk mid pl junk rest obtain r1 where
      "fr_feed chunk 0 (no_rx h1) = (length chunk, FS_Incomplete, r1)"
      "stream_at junk (response cmd payload) (fr_discarded (no_rx h)) (k + length chunk) r1"
      by (auto simp: mid_stream_def)
    with stamped_fields [OF this(1), of "clock (length chunk)"] obtain r2 where
      "fr_feed_at chunk (clock (length chunk)) (no_rx h1) = (length chunk, FS_Incomplete, r2)"
      "stream_at junk (response cmd payload) (fr_discarded (no_rx h)) (k + length chunk) r2"
      by (auto simp: stream_at_def)
    with loop rest_ne mid show ?thesis
      by (auto simp: on_notify_def Let_def notify_status_def mid_stream_def)
  qed
qed

text \<open>
  C34: a battery response is read however it is cut. Noise without a response head followed by
  a response of up to 255 payload bytes, split into notifications anywhere, leaves the
  reassembler empty with no error counted, and the response decoded exactly once.
\<close>

theorem bms_response_any_chunking:
  assumes "length payload \<le> 255" and "kResponseHead \<notin> set junk"
    and "concat (map snd chunks) = junk @ response cmd payload" and "\<forall>c\<in>set chunks. snd c \<noteq> []"
    and "fr_buf (no_rx h) = []"
  shows "read_outcome cmd payload h (fold (\<lambda>(clock, data). on_notify clock data) chunks h)"
proof -
  let ?s = "junk @ response cmd payload"
  have "chunks \<noteq> []" using assms(3) by (cases chunks) (auto simp: response_def response_body_def Let_def)
  moreover have "read_outcome cmd payload h (fold (\<lambda>(clock, data). on_notify clock data) cs h1)"
    if "mid_stream junk cmd payload h k h1" "concat (map snd cs) = drop k ?s" "cs \<noteq> []" "\<forall>c\<in>set cs. snd c \<noteq> []"
    for cs k h1
    using that
  proof (induction cs arbitrary: k h1)
    case (Cons c cs)
    obtain clock data where c: "c = (clock, data)" by fastforce
    have split: "data @ concat (map snd cs) = drop k ?s" using Cons.prems(2) c by simp
    note step = notify_chunk [OF Cons.prems(1) assms(1,2) split, of clock]
    show ?case
    proof (cases "cs = []")
      case True
      with step Cons.prems(4) c show ?thesis by auto
    next
      case False
      then have "concat (map snd cs) \<noteq> []" using Cons.prems(4) by (cases cs) auto
      with step have "mid_stream junk cmd payload h (k + length data) (on_notify clock data h1)" by simp
      moreover have "concat (map snd cs) = drop (k + length data) ?s"
        using arg_cong [OF split, of "drop (length data)"] by (simp only: drop_drop append_eq_conv_conj) (simp add: add.commute)
      ultimately show ?thesis using Cons.IH False Cons.prems(4) c by simp
    qed
  qed simp
  moreover have "mid_stream junk cmd payload h 0 h"
    using assms(5) by (simp add: mid_stream_def stream_at_def)
  ultimately show ?thesis using assms(3,4) by (metis drop0)
qed

text \<open>One cell at 3.465 V, one sensor at 22.5 degrees, discharging at 1.2 A, cut after ten bytes.\<close>

definition bench_pack :: bytes where
  "bench_pack = [1, 0x0D, 0x89, 1, 0x0B, 0x8C, 0xC0, 0x0C, 0x05, 0x3C, 0x03, 0xE8, 0x03, 0xE8, 0, 7, 0x03, 0xE8, 0, 98]"

definition bench_handler :: NotifyHandler where
  "bench_handler = \<lparr>no_rx = FrameReassembler_new, no_last = BmsData_clear,
     no_counters = \<lparr>brx_frames = 0, brx_crc_errors = 0, brx_bad_term = 0, brx_undecoded = 0, brx_discarded = 0\<rparr>\<rparr>"

lemma bench_pack_decodes:
  "map_option (\<lambda>d. (bd_cell_mv d ! 0, sint (bd_temp_dc d ! 0), sint (bd_current_ma d)))
     (decode_cells_and_pack \<lparr>td_cmd = kCmdCellsPack, td_payload = Some bench_pack\<rparr>) = Some (3465, 225, -1200)"
  by code_simp

theorem bms_response_any_chunking_witness:
  "let s = [0x00, 0x55] @ response kCmdCellsPack bench_pack;
       h = fold (\<lambda>(clock, data). on_notify clock data) [(\<lambda>_. 0, take 10 s), (\<lambda>_. 20, drop 10 s)] bench_handler
   in read_outcome kCmdCellsPack bench_pack bench_handler h \<and> brx_frames (no_counters h) = 1"
proof -
  let ?s = "[0x00, 0x55] @ response kCmdCellsPack bench_pack"
  let ?chunks = "[(\<lambda>_. 0, take 10 ?s), (\<lambda>_. 20, drop 10 ?s)]"
  have "length bench_pack \<le> 255" "kResponseHead \<notin> set [0x00, 0x55]"
    by (simp_all add: bench_pack_def kResponseHead_def)
  moreover have "concat (map snd ?chunks) = ?s" by (simp del: append_Cons)
  moreover have "\<forall>c\<in>set ?chunks. snd c \<noteq> []"
    by (simp flip: length_greater_0_conv)
  moreover have "fr_buf (no_rx bench_handler) = []"
    by (simp add: bench_handler_def FrameReassembler_new_def)
  ultimately have "read_outcome kCmdCellsPack bench_pack bench_handler
      (fold (\<lambda>(clock, data). on_notify clock data) ?chunks bench_handler)"
    by (rule bms_response_any_chunking)
  then show ?thesis
    using bench_pack_decodes
    by (auto simp: Let_def read_outcome_def bench_handler_def split: option.splits)
qed

end
