(* ===== verification/VedLink.thy ===== *)
theory VedLink
  imports Vedirect Clock NodeEngine
begin

text \<open>
  GateLink's side of the charge controller's UART (\<open>firmware/gatelink/src\<close>: \<open>ved_link.h\<close>,
  \<open>ved_link.cpp\<close>): the cached MPPT block with its staleness, and one HEX transaction at a time.
  The UART is \<open>VedWriter\<close>: writing a line takes the writer's state and says whether every byte
  was taken.
\<close>

section \<open>Parameters, snapshot and jobs\<close>

record VedParams =
  vp_hex_timeout_ms :: u32
  vp_stale_ms :: u32

definition VedParams_init :: VedParams where
  "VedParams_init = \<lparr>vp_hex_timeout_ms = 1000, vp_stale_ms = 5000\<rparr>"

definition kMpptFlagLoadOn :: u8 where "kMpptFlagLoadOn = 0x01"
definition kMpptFlagStale :: u8 where "kMpptFlagStale = 0x02"
definition kMpptFlagHexPending :: u8 where "kMpptFlagHexPending = 0x04"
definition kCodeNotAvailable :: u8 where "kCodeNotAvailable = 0xFF"
definition kCsBulk :: u8 where "kCsBulk = 3"
definition kCsAbsorption :: u8 where "kCsAbsorption = 4"
definition kCsFloat :: u8 where "kCsFloat = 5"

record MpptSnapshot =
  ms_batt_mv :: u16
  ms_batt_ma :: i16
  ms_pv_cv :: u16
  ms_pv_w :: u16
  ms_load_ma :: i16
  ms_yield_today :: u16
  ms_yield_yest :: u16
  ms_pmax_today :: u16
  ms_yield_total :: u32
  ms_charge_state :: u8
  ms_mppt_err :: u8
  ms_mppt_tracker :: u8
  ms_mppt_flags :: u8
  ms_mppt_temp_c10 :: i16

definition MpptSnapshot_init :: MpptSnapshot where
  "MpptSnapshot_init = \<lparr>ms_batt_mv = kU16NotAvailable, ms_batt_ma = kI16NotAvailable,
     ms_pv_cv = kU16NotAvailable, ms_pv_w = kU16NotAvailable, ms_load_ma = kI16NotAvailable,
     ms_yield_today = kU16NotAvailable, ms_yield_yest = kU16NotAvailable, ms_pmax_today = kU16NotAvailable,
     ms_yield_total = kU32NotAvailable, ms_charge_state = kCodeNotAvailable, ms_mppt_err = kCodeNotAvailable,
     ms_mppt_tracker = kCodeNotAvailable, ms_mppt_flags = kMpptFlagStale, ms_mppt_temp_c10 = kI16NotAvailable\<rparr>"

definition to_u16 :: "u32 \<Rightarrow> u16" where
  "to_u16 v = (if v = kU32NotAvailable \<or> v \<ge> ucast kU16NotAvailable then kU16NotAvailable else ucast v)"

definition to_i16 :: "i32 \<Rightarrow> i16" where
  "to_i16 v = (if v = kI32NotAvailable \<or> sint v \<le> -32768 \<or> sint v > 32767 then kI16NotAvailable else ucast v)"

definition to_code :: "u16 \<Rightarrow> u8" where
  "to_code v = (if v \<ge> ucast kCodeNotAvailable then kCodeNotAvailable else ucast v)"

definition mppt_from_text :: "MpptText \<Rightarrow> MpptSnapshot" where
  "mppt_from_text m = MpptSnapshot_init\<lparr>
     ms_batt_mv := to_u16 (mt_batt_mv m), ms_batt_ma := to_i16 (mt_batt_ma m),
     ms_pv_cv := (if mt_pv_mv m = kU32NotAvailable then kU16NotAvailable else to_u16 (mt_pv_mv m div 10)),
     ms_pv_w := to_u16 (mt_pv_w m), ms_load_ma := to_i16 (mt_load_ma m),
     ms_yield_today := to_u16 (mt_yield_today m), ms_yield_yest := to_u16 (mt_yield_yest m),
     ms_pmax_today := to_u16 (mt_pmax_today m), ms_yield_total := mt_yield_total m,
     ms_charge_state := to_code (mt_charge_state m), ms_mppt_err := to_code (mt_err m),
     ms_mppt_tracker := to_code (mt_tracker m), ms_mppt_flags := 0\<rparr>"

record HexJob =
  hj_token :: u32
  hj_hex :: bytes

record HexResult =
  hr_token :: u32
  hr_status :: HexStatus
  hr_hex :: bytes

record VedCounters =
  vc_blocks_unparsed :: u32
  vc_hex_bad :: u32
  vc_hex_async :: u32
  vc_hex_unmatched :: u32
  vc_hex_sent :: u32
  vc_hex_retries :: u32
  vc_hex_answered :: u32
  vc_hex_timeouts :: u32
  vc_hex_uart_errors :: u32

section \<open>The link\<close>

type_synonym 'w VedWriter = "bytes \<Rightarrow> 'w \<Rightarrow> bool \<times> 'w"

record 'w VedLink =
  vl_out :: 'w
  vl_params :: VedParams
  vl_text :: TextParser
  vl_counters :: VedCounters
  vl_last :: MpptSnapshot
  vl_load_on :: bool
  vl_have_block :: bool
  vl_last_block_ms :: u32
  vl_active :: bool
  vl_job :: HexJob
  vl_req_cmd :: u8
  vl_req_reg_known :: bool
  vl_req_reg :: u16
  vl_retryable :: bool
  vl_retried :: bool
  vl_start_ms :: u32
  vl_result :: "HexResult option"   \<comment> \<open>\<open>result_\<close> while \<open>result_ready_\<close>\<close>

definition VedLink_new :: "'w \<Rightarrow> 'w VedLink" where
  "VedLink_new out = \<lparr>vl_out = out, vl_params = VedParams_init, vl_text = TextParser_new,
     vl_counters = \<lparr>vc_blocks_unparsed = 0, vc_hex_bad = 0, vc_hex_async = 0, vc_hex_unmatched = 0,
       vc_hex_sent = 0, vc_hex_retries = 0, vc_hex_answered = 0, vc_hex_timeouts = 0, vc_hex_uart_errors = 0\<rparr>,
     vl_last = MpptSnapshot_init, vl_load_on = False, vl_have_block = False, vl_last_block_ms = 0,
     vl_active = False, vl_job = \<lparr>hj_token = 0, hj_hex = []\<rparr>, vl_req_cmd = 0, vl_req_reg_known = False,
     vl_req_reg = 0, vl_retryable = False, vl_retried = False, vl_start_ms = 0, vl_result = None\<rparr>"

definition vl_set_params :: "VedParams \<Rightarrow> 'w VedLink \<Rightarrow> 'w VedLink" where
  "vl_set_params p v = v\<lparr>vl_params := p\<rparr>"

definition bump_ved :: "(VedCounters \<Rightarrow> VedCounters) \<Rightarrow> 'w VedLink \<Rightarrow> 'w VedLink" where
  "bump_ved f v = v\<lparr>vl_counters := f (vl_counters v)\<rparr>"

definition vl_finish :: "HexStatus \<Rightarrow> bytes \<Rightarrow> 'w VedLink \<Rightarrow> 'w VedLink" where
  "vl_finish status hex v = v\<lparr>vl_active := False,
     vl_result := Some \<lparr>hr_token = hj_token (vl_job v), hr_status = status, hr_hex = take kMaxChars hex\<rparr>\<rparr>"

definition ved_nibble :: "u8 \<Rightarrow> u8" where
  "ved_nibble c =
     (case digit_value c of
        Some d \<Rightarrow> d
      | None \<Rightarrow> if 0x61 \<le> c \<and> c \<le> 0x66 then c - 0x61 + 10 else 0xFF)"

definition vl_answers :: "VFrame \<Rightarrow> 'w VedLink \<Rightarrow> bool" where
  "vl_answers f v =
     (if vf_cmd f = HexRspCmd_u8 HX_Unknown \<or> vf_cmd f = HexRspCmd_u8 HX_Error then True
      else if vl_req_cmd v = HexCmd_u8 HC_Ping then vf_cmd f = HexRspCmd_u8 HX_Ping
      else if vl_req_cmd v = HexCmd_u8 HC_AppVersion \<or> vl_req_cmd v = HexCmd_u8 HC_ProductId
        then vf_cmd f = HexRspCmd_u8 HX_Done
      else if vl_req_cmd v = HexCmd_u8 HC_Get \<or> vl_req_cmd v = HexCmd_u8 HC_Set then
        vl_req_reg_known v \<and> vf_cmd f = vl_req_cmd v \<and> length (vf_data f) \<ge> 3 \<and>
        of_le16 (vf_data f ! 0) (vf_data f ! 1) = vl_req_reg v
      else False)"

definition vl_on_hex_line :: "'w VedLink \<Rightarrow> 'w VedLink" where
  "vl_on_hex_line v =
     (case ved_decode (tp_hex (vl_text v)) of
        Inl _ \<Rightarrow> bump_ved (\<lambda>c. c\<lparr>vc_hex_bad := vc_hex_bad c + 1\<rparr>) v
      | Inr f \<Rightarrow>
          if vf_cmd f = HexCmd_u8 HC_Async then bump_ved (\<lambda>c. c\<lparr>vc_hex_async := vc_hex_async c + 1\<rparr>) v
          else if \<not> vl_active v \<or> \<not> vl_answers f v
          then bump_ved (\<lambda>c. c\<lparr>vc_hex_unmatched := vc_hex_unmatched c + 1\<rparr>) v
          else vl_finish HS_Ok (tp_hex (vl_text v))
                 (bump_ved (\<lambda>c. c\<lparr>vc_hex_answered := vc_hex_answered c + 1\<rparr>) v))"

definition vl_feed :: "u8 \<Rightarrow> u32 \<Rightarrow> 'w VedLink \<Rightarrow> 'w VedLink" where
  "vl_feed b now_ms v =
     (let (e, t) = tp_feed b (vl_text v); v = v\<lparr>vl_text := t\<rparr> in
      case e of
        TE_Block \<Rightarrow>
          (let (m, bad) = decode_mppt (tp_block t)
           in (bump_ved (\<lambda>c. c\<lparr>vc_blocks_unparsed := vc_blocks_unparsed c + word_of_nat bad\<rparr>) v)
                \<lparr>vl_last := mppt_from_text m, vl_load_on := (mt_load m = LS_On), vl_have_block := True,
                 vl_last_block_ms := now_ms\<rparr>)
      | TE_HexLine \<Rightarrow> vl_on_hex_line v
      | _ \<Rightarrow> v)"

definition vl_send :: "'w VedWriter \<Rightarrow> 'w VedLink \<Rightarrow> bool \<times> 'w VedLink" where
  "vl_send wr v =
     (let v = bump_ved (\<lambda>c. c\<lparr>vc_hex_sent := vc_hex_sent c + 1\<rparr>) v;
          (ok, w) = wr (hj_hex (vl_job v)) (vl_out v); v = v\<lparr>vl_out := w\<rparr> in
      if \<not> ok
      then (False, vl_finish HS_UartError [] (bump_ved (\<lambda>c. c\<lparr>vc_hex_uart_errors := vc_hex_uart_errors c + 1\<rparr>) v))
      else (True, v))"

text \<open>What \<open>start\<close> notes of the request before it is sent.\<close>

definition vl_note_request :: "bytes \<Rightarrow> 'w VedLink \<Rightarrow> 'w VedLink" where
  "vl_note_request hex v =
     (let known = (case ved_decode hex of
                     Inl _ \<Rightarrow> None
                   | Inr q \<Rightarrow> if (vf_cmd q = HexCmd_u8 HC_Get \<or> vf_cmd q = HexCmd_u8 HC_Set) \<and> length (vf_data q) \<ge> 2
                             then Some q else None)
      in v\<lparr>vl_req_cmd := ved_nibble (hex ! 1), vl_req_reg_known := known \<noteq> None,
           vl_req_reg := (case known of None \<Rightarrow> 0 | Some q \<Rightarrow> of_le16 (vf_data q ! 0) (vf_data q ! 1)),
           vl_retryable := (case known of None \<Rightarrow> False | Some q \<Rightarrow> vf_cmd q = HexCmd_u8 HC_Get)\<rparr>)"

definition vl_start :: "'w VedWriter \<Rightarrow> HexJob \<Rightarrow> u32 \<Rightarrow> 'w VedLink \<Rightarrow> bool \<times> 'w VedLink" where
  "vl_start wr job now_ms v =
     (if vl_active v then (False, v)
      else let v = v\<lparr>vl_active := True, vl_job := job, vl_start_ms := now_ms, vl_retried := False\<rparr>;
               n = length (hj_hex job) in
        if n < 2 \<or> n > kMaxChars then (True, vl_finish HS_MalformedRequest [] v)
        else let (sent, v) = vl_send wr (vl_note_request (hj_hex job) v) in
          if \<not> sent then (True, v)
          else (True, if vl_req_cmd v = HexCmd_u8 HC_Restart then vl_finish HS_Ok [] v else v))"

definition vl_tick :: "'w VedWriter \<Rightarrow> u32 \<Rightarrow> 'w VedLink \<Rightarrow> 'w VedLink" where
  "vl_tick wr now_ms v =
     (if \<not> vl_active v then v
      else if reached now_ms (vl_start_ms v + vp_hex_timeout_ms (vl_params v)) then
        vl_finish HS_Timeout [] (bump_ved (\<lambda>c. c\<lparr>vc_hex_timeouts := vc_hex_timeouts c + 1\<rparr>) v)
      else if vl_retryable v \<and> \<not> vl_retried v \<and>
        reached now_ms (vl_start_ms v + vp_hex_timeout_ms (vl_params v) div 2) then
        snd (vl_send wr (bump_ved (\<lambda>c. c\<lparr>vc_hex_retries := vc_hex_retries c + 1\<rparr>) (v\<lparr>vl_retried := True\<rparr>)))
      else v)"

definition vl_take_result :: "'w VedLink \<Rightarrow> HexResult option \<times> 'w VedLink" where
  "vl_take_result v = (vl_result v, v\<lparr>vl_result := None\<rparr>)"

definition vl_mppt :: "u32 \<Rightarrow> 'w VedLink \<Rightarrow> MpptSnapshot" where
  "vl_mppt now_ms v =
     (let stale = (\<not> vl_have_block v \<or> reached now_ms (vl_last_block_ms v + vp_stale_ms (vl_params v)))
      in (vl_last v)\<lparr>ms_mppt_flags := (if vl_have_block v \<and> vl_load_on v then kMpptFlagLoadOn else 0) OR
            (if stale then kMpptFlagStale else 0) OR (if vl_active v then kMpptFlagHexPending else 0)\<rparr>)"

section \<open>A transaction ends once\<close>

text \<open>What \<open>vedirect_task\<close> does with the link, each call at a real time.\<close>

datatype ved_call = VC_Params VedParams | VC_Feed u8 | VC_Start HexJob | VC_Tick | VC_Take

text \<open>A run with what it shows: the jobs \<open>start\<close> took, each with its time, and the results taken.\<close>

record 'w VedRun =
  vr_link :: "'w VedLink"
  vr_took :: "(HexJob \<times> nat) list"
  vr_answers :: "HexResult list"

fun ved_apply :: "'w VedWriter \<Rightarrow> nat \<times> ved_call \<Rightarrow> 'w VedRun \<Rightarrow> 'w VedRun" where
  "ved_apply wr (t, VC_Params p) r = r\<lparr>vr_link := vl_set_params p (vr_link r)\<rparr>"
| "ved_apply wr (t, VC_Feed b) r = r\<lparr>vr_link := vl_feed b (stamp t) (vr_link r)\<rparr>"
| "ved_apply wr (t, VC_Start job) r =
     (let (ok, v) = vl_start wr job (stamp t) (vr_link r)
      in r\<lparr>vr_link := v, vr_took := vr_took r @ (if ok then [(job, t)] else [])\<rparr>)"
| "ved_apply wr (t, VC_Tick) r = r\<lparr>vr_link := vl_tick wr (stamp t) (vr_link r)\<rparr>"
| "ved_apply wr (t, VC_Take) r =
     (let (x, v) = vl_take_result (vr_link r)
      in r\<lparr>vr_link := v, vr_answers := vr_answers r @ (case x of None \<Rightarrow> [] | Some y \<Rightarrow> [y])\<rparr>)"

definition ved_run :: "'w VedWriter \<Rightarrow> (nat \<times> ved_call) list \<Rightarrow> 'w VedLink \<Rightarrow> 'w VedRun" where
  "ved_run wr calls v = fold (ved_apply wr) calls \<lparr>vr_link = v, vr_took = [], vr_answers = []\<rparr>"

text \<open>No job is started over a result that still waits to be taken.\<close>

fun starts_clear :: "'w VedWriter \<Rightarrow> (nat \<times> ved_call) list \<Rightarrow> 'w VedRun \<Rightarrow> bool" where
  "starts_clear wr [] r = True"
| "starts_clear wr (c # calls) r =
     ((case snd c of VC_Start job \<Rightarrow> vl_result (vr_link r) = None | _ \<Rightarrow> True) \<and> starts_clear wr calls (ved_apply wr c r))"

text \<open>The tokens the link still has to hand out: the waiting result's, then the open job's.\<close>

definition ved_owed :: "'w VedLink \<Rightarrow> u32 list" where
  "ved_owed v = map hr_token (case vl_result v of None \<Rightarrow> [] | Some x \<Rightarrow> [x]) @ (if vl_active v then [hj_token (vl_job v)] else [])"

definition ved_clear :: "'w VedLink \<Rightarrow> bool" where
  "ved_clear v \<longleftrightarrow> \<not> (vl_active v \<and> vl_result v \<noteq> None)"

definition answer_ok :: "HexResult \<Rightarrow> bool" where
  "answer_ok x \<longleftrightarrow> hr_status x \<in> {HS_Ok, HS_Timeout, HS_UartError, HS_MalformedRequest} \<and> length (hr_hex x) \<le> kMaxChars"

text \<open>A step that starts no job: it opens nothing, owes nothing new, and, unless a result was being
  overwritten, owes what it owed before.\<close>

definition settles :: "'w VedLink \<Rightarrow> 'w VedLink \<Rightarrow> bool" where
  "settles v v' \<longleftrightarrow> (\<forall>k. count_list (ved_owed v') k \<le> count_list (ved_owed v) k) \<and>
     (ved_clear v \<longrightarrow> ved_clear v' \<and> ved_owed v' = ved_owed v) \<and> (vl_active v' \<longrightarrow> vl_active v) \<and>
     vl_start_ms v' = vl_start_ms v \<and> (\<forall>x. vl_result v' = Some x \<longrightarrow> vl_result v = Some x \<or> answer_ok x)"

lemma bump_ved_simps [simp]:
  "vl_active (bump_ved f v) = vl_active v" "vl_job (bump_ved f v) = vl_job v" "vl_start_ms (bump_ved f v) = vl_start_ms v"
  "vl_params (bump_ved f v) = vl_params v" "vl_result (bump_ved f v) = vl_result v" "vl_text (bump_ved f v) = vl_text v"
  "vl_out (bump_ved f v) = vl_out v"
  by (simp_all add: bump_ved_def)

lemmas settle_defs = settles_def ved_owed_def ved_clear_def

lemma settles_trans: "settles v v' \<Longrightarrow> settles v' v'' \<Longrightarrow> settles v v''"
  unfolding settles_def by (auto intro: order_trans)

lemma settles_same:
  "vl_active v' = vl_active v \<Longrightarrow> vl_job v' = vl_job v \<Longrightarrow> vl_start_ms v' = vl_start_ms v \<Longrightarrow> vl_result v' = vl_result v \<Longrightarrow> settles v v'"
  by (simp add: settle_defs)

lemma settles_finish:
  assumes "vl_active v" "st \<in> {HS_Ok, HS_Timeout, HS_UartError, HS_MalformedRequest}"
  shows "settles v (vl_finish st hex v)"
  using assms by (auto simp: settle_defs vl_finish_def answer_ok_def)

lemma settles_finish_bumped:
  assumes "vl_active v" "st \<in> {HS_Ok, HS_Timeout, HS_UartError, HS_MalformedRequest}"
  shows "settles v (vl_finish st hex (bump_ved f v))"
  by (rule settles_trans [OF settles_same settles_finish]) (use assms in simp_all)

lemma settles_hex_line: "settles v (vl_on_hex_line v)"
  by (auto simp: vl_on_hex_line_def intro: settles_same settles_finish_bumped split: sum.splits)

lemma settles_feed: "settles v (vl_feed b now v)"
proof -
  obtain e t where f: "tp_feed b (vl_text v) = (e, t)" by fastforce
  have "settles v (vl_on_hex_line (v\<lparr>vl_text := t\<rparr>))"
    by (rule settles_trans [OF settles_same settles_hex_line]) simp_all
  then show ?thesis by (cases e) (auto simp: vl_feed_def f Let_def split_beta intro: settles_same)
qed

lemma settles_send: "vl_active v \<Longrightarrow> settles v (snd (vl_send wr v))"
  by (auto simp: vl_send_def Let_def split_beta settle_defs vl_finish_def answer_ok_def)

lemma settles_tick: "settles v (vl_tick wr now v)"
proof -
  let ?v = "bump_ved (\<lambda>c. c\<lparr>vc_hex_retries := vc_hex_retries c + 1\<rparr>) (v\<lparr>vl_retried := True\<rparr>)"
  have "settles v ?v" by (rule settles_same) simp_all
  then have "settles v (snd (vl_send wr ?v))" if "vl_active v"
    using settles_send [of ?v wr] that by (auto intro: settles_trans)
  then show ?thesis by (auto simp: vl_tick_def intro: settles_same settles_finish_bumped)
qed

text \<open>Taking a job: the link then owes it too.\<close>

lemma start_settles:
  assumes "vl_start wr job now v = (ok, v')"
  shows "if ok then \<not> vl_active v \<and> settles (v\<lparr>vl_active := True, vl_job := job, vl_start_ms := now, vl_retried := False\<rparr>) v' else v' = v"
proof -
  let ?v = "v\<lparr>vl_active := True, vl_job := job, vl_start_ms := now, vl_retried := False\<rparr>"
  let ?n = "vl_note_request (hj_hex job) ?v" let ?s = "snd (vl_send wr ?n)"
  have n: "settles ?v ?n" by (rule settles_same) (simp_all add: vl_note_request_def Let_def)
  have a: "vl_active ?n" by (simp add: vl_note_request_def Let_def)
  from n settles_send [OF a] have s: "settles ?v ?s" by (rule settles_trans)
  have "vl_active ?s" if "fst (vl_send wr ?n)"
    using that a by (auto simp: vl_send_def Let_def split_beta split: if_splits)
  then have f: "settles ?v (vl_finish HS_Ok [] ?s)" if "fst (vl_send wr ?n)"
    using that s by (auto intro: settles_trans settles_finish)
  have m: "settles ?v (vl_finish HS_MalformedRequest [] ?v)" by (rule settles_finish) simp_all
  show ?thesis using assms s f m
    by (auto simp: vl_start_def Let_def split_beta split: if_splits)
qed

lemma start_owes:
  assumes "\<not> vl_active v" "settles (v\<lparr>vl_active := True, vl_job := job, vl_start_ms := now, vl_retried := False\<rparr>) v'"
  shows "count_list (ved_owed v') k \<le> count_list (ved_owed v @ [hj_token job]) k"
    "vl_result v = None \<Longrightarrow> ved_clear v' \<and> ved_owed v' = ved_owed v @ [hj_token job]"
    "vl_start_ms v' = now" "vl_result v' = Some x \<Longrightarrow> vl_result v = Some x \<or> answer_ok x"
  using assms by (auto simp: settle_defs)

text \<open>What a run keeps true.\<close>

definition run_ok :: "bool \<Rightarrow> 'w VedRun \<Rightarrow> bool" where
  "run_ok clear r \<longleftrightarrow>
     (\<forall>k. count_list (map hr_token (vr_answers r) @ ved_owed (vr_link r)) k \<le> count_list (map (hj_token \<circ> fst) (vr_took r)) k) \<and>
     (clear \<longrightarrow> ved_clear (vr_link r) \<and> map (hj_token \<circ> fst) (vr_took r) = map hr_token (vr_answers r) @ ved_owed (vr_link r)) \<and>
     (vl_active (vr_link r) \<longrightarrow> vr_took r \<noteq> [] \<and> vl_start_ms (vr_link r) = stamp (snd (last (vr_took r)))) \<and>
     (\<forall>x \<in> set (vr_answers r) \<union> set_option (vl_result (vr_link r)). answer_ok x)"

lemma run_ok_settles:
  assumes "run_ok clear r" "settles (vr_link r) v"
  shows "run_ok clear (r\<lparr>vr_link := v\<rparr>)"
proof -
  have "count_list (map hr_token (vr_answers r) @ ved_owed v) k \<le> count_list (map (hj_token \<circ> fst) (vr_took r)) k" for k
  proof -
    from assms(2) have "count_list (ved_owed v) k \<le> count_list (ved_owed (vr_link r)) k" by (simp add: settles_def)
    moreover from assms(1) have "count_list (map hr_token (vr_answers r)) k + count_list (ved_owed (vr_link r)) k \<le>
      count_list (map (hj_token \<circ> fst) (vr_took r)) k" by (simp add: run_ok_def)
    ultimately show ?thesis by simp
  qed
  moreover have "\<forall>x \<in> set (vr_answers r) \<union> set_option (vl_result v). answer_ok x"
    using assms unfolding run_ok_def settles_def by (auto simp: elem_set)
  ultimately show ?thesis using assms unfolding run_ok_def settles_def by simp
qed

lemma run_ok_start:
  assumes "run_ok clear r" "\<not> vl_active (vr_link r)"
    "settles ((vr_link r)\<lparr>vl_active := True, vl_job := job, vl_start_ms := stamp t, vl_retried := False\<rparr>) v"
    "clear \<Longrightarrow> vl_result (vr_link r) = None"
  shows "run_ok clear (r\<lparr>vr_link := v, vr_took := vr_took r @ [(job, t)]\<rparr>)"
proof -
  note st = start_owes [OF assms(2,3)]
  have "count_list (map hr_token (vr_answers r) @ ved_owed v) k \<le> count_list (map (hj_token \<circ> fst) (vr_took r @ [(job, t)])) k" for k
  proof -
    from assms(1) have "count_list (map hr_token (vr_answers r)) k + count_list (ved_owed (vr_link r)) k \<le> count_list (map (hj_token \<circ> fst) (vr_took r)) k"
      by (simp add: run_ok_def)
    with st(1) [of k] show ?thesis by (simp split: if_splits)
  qed
  moreover have "ved_clear v \<and> map (hj_token \<circ> fst) (vr_took r @ [(job, t)]) = map hr_token (vr_answers r) @ ved_owed v" if clear
    using assms(1) st(2) assms(4) that unfolding run_ok_def by simp
  moreover have "\<forall>x \<in> set (vr_answers r) \<union> set_option (vl_result v). answer_ok x"
    using assms(1) st(4) unfolding run_ok_def by (auto simp: elem_set)
  ultimately show ?thesis using st(3) unfolding run_ok_def by simp
qed

lemma run_ok_take:
  assumes "run_ok clear r"
  shows "run_ok clear (ved_apply wr (t, VC_Take) r)"
proof -
  let ?r = "ved_apply wr (t, VC_Take) r"
  have acc: "map hr_token (vr_answers ?r) @ ved_owed (vr_link ?r) = map hr_token (vr_answers r) @ ved_owed (vr_link r)"
    by (cases "vl_result (vr_link r)") (simp_all add: ved_owed_def vl_take_result_def)
  have same: "vr_took ?r = vr_took r" "vl_active (vr_link ?r) = vl_active (vr_link r)" "vl_start_ms (vr_link ?r) = vl_start_ms (vr_link r)"
    "ved_clear (vr_link r) \<longrightarrow> ved_clear (vr_link ?r)"
    "set (vr_answers ?r) \<union> set_option (vl_result (vr_link ?r)) = set (vr_answers r) \<union> set_option (vl_result (vr_link r))"
    by (auto simp: vl_take_result_def ved_clear_def elem_set split: option.split)
  from assms show ?thesis unfolding run_ok_def acc same using same(4) by blast
qed

lemma run_ok_apply:
  assumes "run_ok clear r" "clear \<Longrightarrow> (case snd c of VC_Start job \<Rightarrow> vl_result (vr_link r) = None | _ \<Rightarrow> True)"
  shows "run_ok clear (ved_apply wr c r)"
proof -
  obtain t k where c: "c = (t, k)" by fastforce
  show ?thesis
  proof (cases k)
    case (VC_Params p)
    with c show ?thesis by (simp add: run_ok_settles [OF assms(1)] settles_same vl_set_params_def)
  next
    case (VC_Start job)
    obtain ok v where s: "vl_start wr job (stamp t) (vr_link r) = (ok, v)" by fastforce
    from start_settles [OF s] run_ok_start [OF assms(1)] assms c VC_Start s
    show ?thesis by (cases ok) (simp_all add: run_ok_settles [OF assms(1)] settles_same)
  next
    case VC_Take
    with c run_ok_take [OF assms(1)] show ?thesis by simp
  qed (simp_all add: c run_ok_settles [OF assms(1)] settles_feed settles_tick)
qed

lemma run_ok_run:
  assumes "run_ok clear r" "clear \<Longrightarrow> starts_clear wr calls r"
  shows "run_ok clear (fold (ved_apply wr) calls r)"
  using assms
proof (induction calls arbitrary: r)
  case (Cons c calls)
  then have "run_ok clear (ved_apply wr c r)" by (intro run_ok_apply) auto
  with Cons show ?case by simp
qed simp

text \<open>
  C38: a HEX request is answered once and in time. Over any run of \<open>vedirect_task\<close>'s calls on the
  link, from its construction: no token is answered more often than \<open>start\<close> took a job with it; when
  no job is started over a result that still waits, the jobs taken are, in order, those whose result
  has been taken, then the one whose result waits, then the one still open; every answer is \<open>OK\<close>,
  \<open>TIMEOUT\<close>, \<open>UART_ERROR\<close> or \<open>MALFORMED_REQUEST\<close> and fits a HEX string; and an open job was started by
  the last start taken, and is over after a tick at \<open>hex_timeout_ms\<close>, as last set, past that start.
\<close>

theorem hex_job_answered_once:
  assumes "r = ved_run wr calls (VedLink_new w)" "u = vr_link r"
    and "held = (case vl_result u of None \<Rightarrow> [] | Some x \<Rightarrow> [x])" "open_job = (if vl_active u then [hj_token (vl_job u)] else [])"
  shows "(\<forall>k. count_list (map hr_token (vr_answers r @ held)) k \<le> count_list (map (hj_token \<circ> fst) (vr_took r)) k) \<and>
    (starts_clear wr calls \<lparr>vr_link = VedLink_new w, vr_took = [], vr_answers = []\<rparr> \<longrightarrow>
       map (hj_token \<circ> fst) (vr_took r) = map hr_token (vr_answers r @ held) @ open_job) \<and>
    (\<forall>x \<in> set (vr_answers r @ held). hr_status x \<in> {HS_Ok, HS_Timeout, HS_UartError, HS_MalformedRequest} \<and> length (hr_hex x) \<le> kMaxChars) \<and>
    (vl_active u \<longrightarrow> vr_took r \<noteq> [] \<and>
       (\<forall>t. let deadline = snd (last (vr_took r)) + unat (vp_hex_timeout_ms (vl_params u)) in
          deadline \<le> t \<and> t < deadline + 2 ^ 31 \<longrightarrow> \<not> vl_active (vl_tick wr (stamp t) u)))"
proof -
  let ?r0 = "\<lparr>vr_link = VedLink_new w, vr_took = [], vr_answers = []\<rparr>"
  have "run_ok c ?r0" for c by (simp add: run_ok_def ved_owed_def ved_clear_def VedLink_new_def)
  from run_ok_run [OF this, of _ wr calls] assms(1)
  have inv: "run_ok False r" and clear: "starts_clear wr calls ?r0 \<Longrightarrow> run_ok True r"
    by (simp_all add: ved_run_def)
  have owed: "ved_owed u = map hr_token held @ open_job" using assms(3,4) by (simp add: ved_owed_def)
  have "\<not> vl_active (vl_tick wr (stamp t) u)"
    if "vl_active u" "deadline = snd (last (vr_took r)) + unat (vp_hex_timeout_ms (vl_params u))" "deadline \<le> t" "t < deadline + 2 ^ 31"
    for t deadline
  proof -
    have "vl_start_ms u = stamp (snd (last (vr_took r)))" using inv that(1) assms(2) by (simp add: run_ok_def)
    with that reached_past [of deadline t] have "reached (stamp t) (vl_start_ms u + vp_hex_timeout_ms (vl_params u))"
      by (simp add: stamp_add)
    with that(1) show ?thesis by (simp add: vl_tick_def vl_finish_def)
  qed
  moreover have "vr_took r \<noteq> []" if "vl_active u" using inv that assms(2) by (simp add: run_ok_def)
  moreover have "count_list (map hr_token (vr_answers r @ held)) k \<le> count_list (map (hj_token \<circ> fst) (vr_took r)) k" for k
  proof -
    have "count_list (map hr_token (vr_answers r) @ ved_owed u) k \<le> count_list (map (hj_token \<circ> fst) (vr_took r)) k"
      using inv assms(2) by (simp add: run_ok_def)
    then show ?thesis by (simp add: owed)
  qed
  moreover have "map (hj_token \<circ> fst) (vr_took r) = map hr_token (vr_answers r @ held) @ open_job" if "starts_clear wr calls ?r0"
    using clear [OF that] assms(2) owed by (simp add: run_ok_def)
  moreover have "answer_ok x" if "x \<in> set (vr_answers r @ held)" for x
    using inv that assms(2,3) by (auto simp: run_ok_def elem_set split: option.splits)
  ultimately show ?thesis unfolding answer_ok_def Let_def by blast
qed

text \<open>A Get that goes unanswered for the whole timeout, its result then taken, and a second job.\<close>

definition ved_sample :: "(nat \<times> ved_call) list" where
  "ved_sample = [(100, VC_Start \<lparr>hj_token = 7, hj_hex = [0x3A, 0x31, 0x35, 0x34]\<rparr>), (600, VC_Tick), (1100, VC_Tick), (1100, VC_Take),
     (1200, VC_Start \<lparr>hj_token = 8, hj_hex = []\<rparr>), (1200, VC_Take)]"

lemmas ved_sample_defs = ved_sample_def ved_run_def VedLink_new_def VedParams_init_def kMaxChars_def vl_start_def vl_send_def
  bump_ved_def vl_tick_def vl_finish_def vl_take_result_def

theorem hex_job_answered_once_witness:
  "map hr_token (vr_answers (ved_run (\<lambda>_ w. (True, w)) ved_sample (VedLink_new ()))) = [7, 8]"
proof -
  have "starts_clear (\<lambda>_ w. (True, w)) ved_sample \<lparr>vr_link = VedLink_new (), vr_took = [], vr_answers = []\<rparr>"
    by code_simp
  moreover have "map (hj_token \<circ> fst) (vr_took (ved_run (\<lambda>_ w. (True, w)) ved_sample (VedLink_new ()))) = [7, 8]"
    by code_simp
  moreover have "vl_result (vr_link (ved_run (\<lambda>_ w. (True, w)) ved_sample (VedLink_new ()))) = None"
    by code_simp
  moreover have "\<not> vl_active (vr_link (ved_run (\<lambda>_ w. (True, w)) ved_sample (VedLink_new ())))"
    by code_simp
  ultimately show ?thesis
    using hex_job_answered_once [where wr = "\<lambda>_ w. (True, w)" and calls = ved_sample and w = "()", OF refl refl refl refl] by simp
qed

text \<open>A new timeout moves the deadline of the transaction under way.\<close>

theorem set_params_moves_deadline:
  assumes "vl_active v" "vl_start_ms v = stamp t0" "t0 + unat (vp_hex_timeout_ms p) \<le> t" "t < t0 + unat (vp_hex_timeout_ms p) + 2 ^ 31"
  shows "\<not> vl_active (vl_tick wr (stamp t) (vl_set_params p v)) \<and>
    map_option hr_status (vl_result (vl_tick wr (stamp t) (vl_set_params p v))) = Some HS_Timeout"
  using assms reached_past [of "t0 + unat (vp_hex_timeout_ms p)" t]
  by (simp add: vl_tick_def vl_set_params_def vl_finish_def stamp_add)

text \<open>
  The MPPT block is reported stale from stale_ms after the last text block on - but only for
  2 ^ 31 ms (24.9 days). For as long again the flag is clear, and a controller that has been
  silent since then is reported with its last readings as fresh ones.
\<close>

theorem mppt_stale_flag:
  assumes "vl_have_block v" and "vl_last_block_ms v = stamp t0" and "t0 \<le> t"
    and "deadline = t0 + unat (vp_stale_ms (vl_params v))" and "vp_stale_ms (vl_params v) \<le> 0x80000000"
  shows "(t < deadline + 2 ^ 31 \<longrightarrow> (bit (ms_mppt_flags (vl_mppt (stamp t) v)) 1 \<longleftrightarrow> deadline \<le> t)) \<and>
    (deadline + 2 ^ 31 \<le> t \<and> t < deadline + 2 ^ 32 \<longrightarrow> \<not> bit (ms_mppt_flags (vl_mppt (stamp t) v)) 1)"
proof -
  have "unat (vp_stale_ms (vl_params v)) \<le> 2 ^ 31"
    using assms(5) by (simp add: word_le_nat_alt)
  then have d: "deadline \<le> t + 2 ^ 31" using assms(3,4) by simp
  have flag: "bit (ms_mppt_flags (vl_mppt (stamp t) v)) 1 \<longleftrightarrow> reached (stamp t) (stamp deadline)"
    using assms(1,2,4)
    by (auto simp: vl_mppt_def Let_def kMpptFlagLoadOn_def kMpptFlagStale_def kMpptFlagHexPending_def stamp_add bit_simps)
  show ?thesis unfolding flag using reached_iff [OF d] reached_long_past by blast
qed

theorem mppt_stale_flag_witness:
  "\<not> bit (ms_mppt_flags (vl_mppt (stamp (2 ^ 31 + 5001)) ((VedLink_new ())\<lparr>vl_have_block := True\<rparr>))) 1"
  using mppt_stale_flag [of "(VedLink_new ())\<lparr>vl_have_block := True\<rparr>" 0 "2 ^ 31 + 5001" 5000]
  by (simp add: VedLink_new_def VedParams_init_def stamp_def)

end
