(* ===== verification/BmsLink.thy ===== *)
theory BmsLink
  imports TdtProtocol VedLink Schemas Names CodecCorrect
begin

text \<open>
  What GateLink makes of a battery read (\<open>firmware/gatelink/src\<close>: \<open>bms_link.h\<close>, \<open>bms_link.cpp\<close>):
  the BMS block of the STATUS, which frames a reply is awaited in, the choice between LoRa and
  the BLE window, and the retry of an aborted window. \<open>bms_end_name\<close> and
  \<open>format_bms_log_line\<close> are text for logs and are left out.
\<close>

section \<open>The BMS block\<close>

record BmsSnapshot =
  bs_have :: bool
  bs_data :: BmsData
  bs_rssi_dbm :: i16
  bs_read_ms :: u32

definition BmsSnapshot_init :: BmsSnapshot where
  "BmsSnapshot_init = \<lparr>bs_have = False, bs_data = BmsData_clear, bs_rssi_dbm = 0, bs_read_ms = 0\<rparr>"

definition kSocNotAvailable :: u8 where "kSocNotAvailable = 0xFF"
definition kBmsFlagValid :: u8 where "kBmsFlagValid = 0x01"
definition kBmsSocSourceBle :: u8 where "kBmsSocSourceBle = 0x00"
definition kBmsSocSourceUnknown :: u8 where "kBmsSocSourceUnknown = 0xC0"
definition kSchMaxCells :: nat where "kSchMaxCells = 4"
definition kInt8Min :: i8 where "kInt8Min = 0x80"

text \<open>C's division truncates towards zero.\<close>

definition whole_c :: "i16 \<Rightarrow> i8" where
  "whole_c dc =
     (let c = (if sint dc \<ge> 0 then (sint dc + 5) div 10 else - ((5 - sint dc) div 10)) in
      if c > 127 then 127 else if c \<le> -128 then word_of_int (-127) else word_of_int c)"

definition clamp_i16 :: "i32 \<Rightarrow> i16" where
  "clamp_i16 v =
     (let ma = sint v; ma = (if ma > 32767 then 32767 else ma); ma = (if ma \<le> -32768 then -32767 else ma)
      in word_of_int ma)"

definition fill_bms_block :: "BmsSnapshot \<Rightarrow> u32 \<Rightarrow> GateLinkStatusV1 \<Rightarrow> GateLinkStatusV1" where
  "fill_bms_block b now_ms s =
     (let s = s\<lparr>sv1_bms_alarms := kU16NotAvailable\<rparr> in
      if \<not> bs_have b then
        s\<lparr>sv1_bms_soc := kSocNotAvailable, sv1_bms_flags := kBmsSocSourceUnknown,
          sv1_pack_mv := kU16NotAvailable, sv1_pack_ma := kI16NotAvailable, sv1_cell_count := 0,
          sv1_bms_rssi_neg := 0, sv1_bms_cycles := kU16NotAvailable,
          sv1_bms_capacity_dah := kU16NotAvailable, sv1_bms_age_s := kU16NotAvailable,
          sv1_cell_mv := replicate kSchMaxCells kU16NotAvailable,
          sv1_cell_temp_c := replicate kSchMaxCells kInt8Min\<rparr>
      else let d = bs_data b; rssi = sint (bs_rssi_dbm b); age_s = (now_ms - bs_read_ms b) div 1000 in
        s\<lparr>sv1_bms_soc := (if bd_soc_pct d \<le> 100 then bd_soc_pct d else kSocNotAvailable),
          sv1_bms_flags := kBmsFlagValid OR kBmsSocSourceBle,
          sv1_pack_mv := (if bd_pack_mv d < ucast kU16NotAvailable then ucast (bd_pack_mv d) else kU16NotAvailable - 1),
          sv1_pack_ma := clamp_i16 (bd_current_ma d),
          sv1_cell_count := bd_cell_count d,
          sv1_bms_rssi_neg := (if rssi < 0 \<and> rssi \<ge> -255 then word_of_int (- rssi) else 0),
          sv1_cell_mv := map (\<lambda>i. if i < unat (bd_cell_count d) then bd_cell_mv d ! i else kU16NotAvailable) [0..<kSchMaxCells],
          sv1_cell_temp_c := map (\<lambda>i. if i < unat (bd_temp_count d) then whole_c (bd_temp_dc d ! i) else kInt8Min) [0..<kSchMaxCells],
          sv1_bms_cycles := bd_cycles d, sv1_bms_capacity_dah := bd_nominal_dAh d,
          sv1_bms_age_s := (if age_s < ucast kU16NotAvailable then ucast age_s else kU16NotAvailable)\<rparr>)"

section \<open>Replies and the BLE window\<close>

definition kReasonAt :: nat where "kReasonAt = kHdrLen + 77"

definition reply_awaited :: "bytes option \<Rightarrow> bool" where
  "reply_awaited frame =
     (case frame of
        None \<Rightarrow> False
      | Some f \<Rightarrow>
          if length f < kHdrLen then False
          else case u8_MsgType (f ! 1) of
              MT_CommandAck \<Rightarrow> True
            | MT_ConfigAck \<Rightarrow> True
            | MT_HexRsp \<Rightarrow> True
            | MT_Status \<Rightarrow>
                if f ! 11 \<noteq> kSchemaGateLinkStatusV1 \<and> f ! 11 \<noteq> kSchemaGateLinkStatusV2 then True
                else length f > kReasonAt \<and> f ! kReasonAt = StatusReason_u8 SR_PollResponse
            | _ \<Rightarrow> False)"

datatype TxGate = TG_Go | TG_Wait | TG_WaitAbort | TG_Overrun

definition tx_gate :: "bool \<Rightarrow> u32 \<Rightarrow> u32 \<Rightarrow> bool \<Rightarrow> TxGate" where
  "tx_gate ble_holds window_ms cap_ms awaited =
     (if \<not> ble_holds then TG_Go
      else if window_ms \<ge> cap_ms then TG_Overrun
      else if awaited then TG_WaitAbort else TG_Wait)"

datatype BmsEnd =
    BE_Read | BE_Aborted | BE_Cap | BE_NotFound | BE_ConnectFailed | BE_Handshake | BE_Subscribe
  | BE_Request | BE_NoAnswer | BE_InitFailed | BE_Count

definition bms_retry_next :: "BmsEnd \<Rightarrow> bool \<Rightarrow> bool" where
  "bms_retry_next e was_retry \<longleftrightarrow> e = BE_Aborted \<and> \<not> was_retry"

section \<open>Rounding and clamping\<close>

lemma sint_of_int8: "-128 \<le> c \<Longrightarrow> c < 128 \<Longrightarrow> sint (word_of_int c :: i8) = c"
  by (simp add: signed_of_int signed_take_bit_int_eq_self)

lemma sint_of_int16: "-32768 \<le> c \<Longrightarrow> c < 32768 \<Longrightarrow> sint (word_of_int c :: i16) = c"
  by (simp add: signed_of_int signed_take_bit_int_eq_self)

lemma sint_i16_range: "-32768 \<le> sint (x :: i16)" "sint (x :: i16) < 32768"
  using sint_ge [of x] sint_lt [of x] by simp_all

text \<open>A temperature is the nearest whole degree, ties away from zero, unless it is clamped; the
  sentinel is never one.\<close>

lemma sint_whole_c:
  "sint (whole_c dc) =
     max (-127) (min 127 (if sint dc \<ge> 0 then (sint dc + 5) div 10 else - ((5 - sint dc) div 10)))"
  using sint_i16_range [of dc]
  by (auto simp: whole_c_def Let_def sint_of_int8 min_def max_def)

lemma sint_clamp_i16: "sint (clamp_i16 v) = max (-32767) (min 32767 (sint v))"
  by (auto simp: clamp_i16_def Let_def sint_of_int16 min_def max_def)

lemma whole_c_nearest:
  assumes "\<bar>sint dc\<bar> \<le> 1270"
  shows "\<bar>10 * sint (whole_c dc) - sint dc\<bar> \<le> 5"
  using assms by (auto simp: sint_whole_c)

lemma whole_c_no_sentinel: "whole_c dc \<noteq> kInt8Min"
proof -
  have "sint (whole_c dc) \<ge> -127" by (simp add: sint_whole_c)
  moreover have "sint kInt8Min = -128" by (simp add: kInt8Min_def)
  ultimately show ?thesis by fastforce
qed

lemma clamp_i16_no_sentinel: "clamp_i16 v \<noteq> kI16NotAvailable"
proof -
  have "sint (clamp_i16 v) \<ge> -32767" by (simp add: sint_clamp_i16)
  moreover have "sint (kI16NotAvailable :: i16) = -32768" by simp
  ultimately show ?thesis by fastforce
qed

text \<open>
  The BMS block never makes a reading look like a missing one, nor a missing one like a
  reading. With a read at hand, pack voltage and current and every cell temperature the pack
  reported differ from their sentinels, the current is the pack's clamped to 16 bits, and a
  temperature within the byte's range is within half a degree of the pack's; without one, every
  field is its sentinel.
\<close>

theorem bms_block_keeps_sentinels:
  "if bs_have b then
     sv1_pack_mv (fill_bms_block b now s) \<noteq> kU16NotAvailable \<and>
     unat (sv1_pack_mv (fill_bms_block b now s)) = min 65534 (unat (bd_pack_mv (bs_data b))) \<and>
     sv1_pack_ma (fill_bms_block b now s) \<noteq> kI16NotAvailable \<and>
     sint (sv1_pack_ma (fill_bms_block b now s)) = max (-32767) (min 32767 (sint (bd_current_ma (bs_data b)))) \<and>
     (\<forall>i < 4. (sv1_cell_temp_c (fill_bms_block b now s) ! i = 0x80 \<longleftrightarrow> unat (bd_temp_count (bs_data b)) \<le> i)) \<and>
     (\<forall>i < 4. i < unat (bd_temp_count (bs_data b)) \<and> \<bar>sint (bd_temp_dc (bs_data b) ! i)\<bar> \<le> 1270 \<longrightarrow>
        \<bar>10 * sint (sv1_cell_temp_c (fill_bms_block b now s) ! i) - sint (bd_temp_dc (bs_data b) ! i)\<bar> \<le> 5)
   else sv1_pack_mv (fill_bms_block b now s) = 0xFFFF \<and> sv1_pack_ma (fill_bms_block b now s) = 0x8000 \<and>
     sv1_cell_mv (fill_bms_block b now s) = replicate 4 0xFFFF \<and>
     sv1_cell_temp_c (fill_bms_block b now s) = replicate 4 0x80 \<and> sv1_bms_age_s (fill_bms_block b now s) = 0xFFFF"
proof (cases "bs_have b")
  case True
  let ?d = "bs_data b" and ?s = "fill_bms_block b now s"
  have mv: "sv1_pack_mv ?s = (if bd_pack_mv ?d < 0xFFFF then ucast (bd_pack_mv ?d) else 0xFFFE)"
    using True by (simp add: fill_bms_block_def Let_def kU16NotAvailable_def)
  have "unat (bd_pack_mv ?d) < 65535 \<Longrightarrow> unat (ucast (bd_pack_mv ?d) :: u16) = unat (bd_pack_mv ?d)"
    by (simp add: unsigned_ucast_eq take_bit_nat_eq_self)
  then have u: "unat (sv1_pack_mv ?s) = min 65534 (unat (bd_pack_mv ?d))"
    unfolding mv by (auto simp: word_less_nat_alt)
  then have "unat (sv1_pack_mv ?s) \<noteq> unat kU16NotAvailable" by (simp add: kU16NotAvailable_def)
  then have "sv1_pack_mv ?s \<noteq> kU16NotAvailable" by auto
  moreover have ma: "sv1_pack_ma ?s = clamp_i16 (bd_current_ma ?d)"
    using True by (simp add: fill_bms_block_def Let_def)
  moreover have tc: "sv1_cell_temp_c ?s ! i = (if i < unat (bd_temp_count ?d) then whole_c (bd_temp_dc ?d ! i) else 0x80)"
    if "i < 4" for i
    using True that by (simp add: fill_bms_block_def Let_def kSchMaxCells_def kInt8Min_def)
  ultimately show ?thesis
    using True u clamp_i16_no_sentinel whole_c_no_sentinel
    by (auto simp: sint_clamp_i16 kInt8Min_def intro: whole_c_nearest)
next
  case False
  then show ?thesis
    by (simp add: fill_bms_block_def Let_def kU16NotAvailable_def kInt8Min_def kSchMaxCells_def)
qed

definition status_zero :: GateLinkStatusV1 where
  "status_zero = \<lparr>sv1_gate_state = 0, sv1_input_bits = 0, sv1_hold = 0, sv1_movement_cause = 0, sv1_last_direction = 0,
     sv1_detect_flags = 0, sv1_last_traversal_age_s = 0, sv1_batt_mv = 0, sv1_batt_ma = 0, sv1_pv_cv = 0,
     sv1_pv_w = 0, sv1_load_ma = 0, sv1_yield_today = 0, sv1_yield_yest = 0, sv1_pmax_today = 0,
     sv1_yield_total = 0, sv1_charge_state = 0, sv1_mppt_err = 0, sv1_mppt_tracker = 0, sv1_mppt_flags = 0,
     sv1_mppt_temp_c10 = 0, sv1_bms_soc = 0, sv1_bms_flags = 0, sv1_pack_mv = 0, sv1_pack_ma = 0,
     sv1_cell_count = 0, sv1_bms_rssi_neg = 0, sv1_cell_mv = replicate 4 0, sv1_cell_temp_c = replicate 4 0,
     sv1_bms_cycles = 0, sv1_bms_capacity_dah = 0, sv1_bms_alarms = 0, sv1_bms_age_s = 0, sv1_uptime_s = 0,
     sv1_boot_count = 0, sv1_node_mv = 0, sv1_node_ma = 0, sv1_enclosure_temp_c10 = 0, sv1_node_flags = 0,
     sv1_status_reason = 0\<rparr>"

definition bms_sample :: BmsSnapshot where
  "bms_sample = BmsSnapshot_init\<lparr>bs_have := True, bs_data := BmsData_clear\<lparr>bd_temp_count := 1,
     bd_temp_dc := [0x00E7, 0, 0, 0, 0, 0, 0, 0], bd_pack_mv := 70000\<rparr>\<rparr>"

theorem bms_block_keeps_sentinels_witness:
  "unat (sv1_pack_mv (fill_bms_block bms_sample 0 status_zero)) = 65534 \<and>
   \<bar>10 * sint (sv1_cell_temp_c (fill_bms_block bms_sample 0 status_zero) ! 0) - 231\<bar> \<le> 5 \<and>
   sv1_cell_temp_c (fill_bms_block bms_sample 0 status_zero) ! 1 = 0x80"
  using bms_block_keeps_sentinels [of bms_sample 0 status_zero]
  by (auto simp: bms_sample_def BmsSnapshot_init_def BmsData_clear_def)

section \<open>Which frames the bridge waits for\<close>

lemma encoded_image:
  assumes "mac_ok (ec_mac ec)" "encode h p ec buf = (St_Ok, out, n)"
  shows "take n out = frame_image ec h p" "frame_ok h p" "can_sign ec h p"
proof -
  have ok: "frame_ok h p \<and> can_sign ec h p \<and> length (frame_image ec h p) \<le> length buf"
    using encode_rejects [OF assms(1), of h p buf] assms(2) by auto
  then show "frame_ok h p" "can_sign ec h p" by simp_all
  from ok encode_accepts [OF assms(1), of h p buf] assms(2) show "take n out = frame_image ec h p" by auto
qed

lemma image_header:
  "frame_image ec h p ! 1 = MsgType_u8 (h_type h)" "frame_image ec h p ! 11 = h_schema h"
  "i < length p \<Longrightarrow> frame_image ec h p ! (kHdrLen + i) = p ! i"
  "kHdrLen + length p < length (frame_image ec h p)"
  by (simp_all add: frame_image_def Let_def nth_append header_bytes_def le16_def le32_def)

lemma status_reason_at:
  assumes "wf_StatusV1 s"
  shows "StatusV1_img s ! 77 = sv1_status_reason s" "length (StatusV1_img s) = 78"
proof -
  obtain a b c d where mv: "sv1_cell_mv s = [a, b, c, d]"
    using assms by (auto simp: wf_StatusV1_def numeral_eq_Suc length_Suc_conv)
  obtain e f g h where tc: "sv1_cell_temp_c s = [e, f, g, h]"
    using assms by (auto simp: wf_StatusV1_def numeral_eq_Suc length_Suc_conv)
  show "StatusV1_img s ! 77 = sv1_status_reason s" "length (StatusV1_img s) = 78"
    by (simp_all add: StatusV1_img_def mv tc le16_def le32_def)
qed

text \<open>
  Reply_awaited, which reads a queued frame by offsets, finds what the encoder put there. On
  every frame encode emits it is true for COMMAND_ACK, CONFIG_ACK and HEX_RSP and false for the
  other types but STATUS; on a STATUS in either GateLink schema it is true exactly when the
  status_reason the node filled in is POLL_RESPONSE.
\<close>

theorem reply_awaited_on_encoded:
  assumes "mac_ok (ec_mac ec)" and "encode h p ec buf = (St_Ok, out, n)" and "wf_MsgType (h_type h)"
  shows "(h_type h \<noteq> MT_Status \<longrightarrow>
      (reply_awaited (Some (take n out)) \<longleftrightarrow> h_type h \<in> {MT_CommandAck, MT_ConfigAck, MT_HexRsp})) \<and>
    (\<forall>s. h_type h = MT_Status \<and> wf_StatusV1 s \<and>
       (h_schema h = kSchemaGateLinkStatusV1 \<and> p = StatusV1_img s \<or>
        h_schema h = kSchemaGateLinkStatusV2 \<and> (\<exists>ah. p = StatusV2_img \<lparr>sv2_v1 = s, sv2_ah_drawn_dah = ah\<rparr>)) \<longrightarrow>
      (reply_awaited (Some (take n out)) \<longleftrightarrow> sv1_status_reason s = StatusReason_u8 SR_PollResponse))"
proof -
  note img = encoded_image [OF assms(1,2)]
  have long: "kHdrLen \<le> length (frame_image ec h p)"
    using image_header(4) [of p ec h] by simp
  have type: "u8_MsgType (frame_image ec h p ! 1) = h_type h"
    unfolding image_header(1) using assms(3) by simp
  have reason: "p ! 77 = sv1_status_reason s \<and> length p \<ge> 78"
    if "wf_StatusV1 s" "p = StatusV1_img s \<or> (\<exists>ah. p = StatusV2_img \<lparr>sv2_v1 = s, sv2_ah_drawn_dah = ah\<rparr>)" for s
    using that status_reason_at [of s] by (auto simp: StatusV2_img_def nth_append)
  show ?thesis
    unfolding img(1)
  proof (intro conjI impI allI)
    assume "h_type h \<noteq> MT_Status"
    then show "reply_awaited (Some (frame_image ec h p)) \<longleftrightarrow> h_type h \<in> {MT_CommandAck, MT_ConfigAck, MT_HexRsp}"
      using long type by (cases "h_type h") (simp_all add: reply_awaited_def)
  next
    fix s
    assume s: "h_type h = MT_Status \<and> wf_StatusV1 s \<and>
       (h_schema h = kSchemaGateLinkStatusV1 \<and> p = StatusV1_img s \<or>
        h_schema h = kSchemaGateLinkStatusV2 \<and> (\<exists>ah. p = StatusV2_img \<lparr>sv2_v1 = s, sv2_ah_drawn_dah = ah\<rparr>))"
    then have "p ! 77 = sv1_status_reason s" "length p \<ge> 78" using reason [of s] by blast+
    then show "reply_awaited (Some (frame_image ec h p)) \<longleftrightarrow> sv1_status_reason s = StatusReason_u8 SR_PollResponse"
      using s long type image_header(2) [of ec h p] image_header(3) [of 77 p ec h] image_header(4) [of p ec h]
      by (auto simp: reply_awaited_def kReasonAt_def)
  qed
qed

lemma status_sample_encode:
  "\<exists>out. encode (Header_init\<lparr>h_type := MT_Status, h_src := 1, h_schema := kSchemaGateLinkStatusV1\<rparr>)
     (StatusV1_img status_zero) sample_ec (replicate 222 0) = (St_Ok, out, 96)"
proof -
  let ?h = "Header_init\<lparr>h_type := MT_Status, h_src := 1, h_schema := kSchemaGateLinkStatusV1\<rparr>"
  have len: "length (StatusV1_img status_zero) = 78"
    by (rule status_reason_at) (simp add: wf_StatusV1_def status_zero_def)
  have m: "mac_ok (ec_mac sample_ec)" by (rule sample_facts)
  have s: "can_sign sample_ec ?h (StatusV1_img status_zero)"
    by (simp add: can_sign_def sample_ec_def)
  have f: "frame_ok ?h (StatusV1_img status_zero)"
    by (simp add: frame_ok_def len Header_init_def frag_total_def frag_index_def check_payload_def schema_is_known_def
        fixed_payload_len_def frame_len_def frame_has_mac_def type_is_known_def)
  have l: "length (frame_image sample_ec ?h (StatusV1_img status_zero)) = 96"
    using length_frame_image [OF m s] by (simp add: len frame_has_mac_def)
  show ?thesis using encode_accepts [OF m f s, of "replicate 222 0"] l by simp
qed

theorem reply_awaited_on_encoded_witness:
  "\<exists>out. encode (Header_init\<lparr>h_type := MT_Status, h_src := 1, h_schema := kSchemaGateLinkStatusV1\<rparr>)
     (StatusV1_img status_zero) sample_ec (replicate 222 0) = (St_Ok, out, 96) \<and> reply_awaited (Some (take 96 out))"
proof -
  obtain out where enc: "encode (Header_init\<lparr>h_type := MT_Status, h_src := 1, h_schema := kSchemaGateLinkStatusV1\<rparr>)
     (StatusV1_img status_zero) sample_ec (replicate 222 0) = (St_Ok, out, 96)"
    using status_sample_encode by blast
  have "wf_StatusV1 status_zero" "sv1_status_reason status_zero = StatusReason_u8 SR_PollResponse"
    by (simp_all add: wf_StatusV1_def status_zero_def)
  with reply_awaited_on_encoded [OF sample_facts(1) enc] have "reply_awaited (Some (take 96 out))"
    by (simp add: wf_MsgType_def u8_MsgType_def)
  with enc show ?thesis by blast
qed

end
