(* ===== verification/Watches.thy ===== *)
theory Watches
  imports Detect BmsLink
begin

text \<open>
  The watches \<open>app_task\<close> runs beside the gate tracker (\<open>firmware/gatelink/src\<close>): FIRE and the
  hard-shutdown latch (\<open>alarm_watch\<close>), the charger's error code (\<open>mppt_error_watch\<close>), the charge
  drawn since charging was last active (\<open>ah_drawn\<close>), and charge inhibition (\<open>charge_inhibit\<close>).
  An operation that draws an event id or appends a push takes and returns counter and list.
\<close>

type_synonym push_state = "EventIds \<times> PushList"

text \<open>The fields every watch copies into its EVENT, with an id of its own.\<close>

definition watch_event :: "EventType \<Rightarrow> GateContext \<Rightarrow> u16 \<Rightarrow> push_state \<Rightarrow> push_state" where
  "watch_event t g detail st =
     (case st of (ids, out) \<Rightarrow>
      let (i, ids) = EventIds_next ids
      in (ids, push_to out (event_push ((dt_event t g)\<lparr>ev_detail := detail, ev_event_id := i\<rparr>))))"

definition watch_status :: "StatusReason \<Rightarrow> push_state \<Rightarrow> push_state" where
  "watch_status r st = (case st of (ids, out) \<Rightarrow> (ids, push_to out (status_push r)))"

section \<open>FIRE and the hard-shutdown latch\<close>

record AlarmWatch =
  aw_seen :: bool
  aw_last :: u8

definition AlarmWatch_new :: AlarmWatch where
  "AlarmWatch_new = \<lparr>aw_seen = False, aw_last = 0\<rparr>"

definition kAlarms :: "(u8 \<times> StatusReason \<times> EventType) list" where
  "kAlarms = [(kInFire, SR_Fire, ET_FireAsserted), (kInAlarm, SR_HardShutdown, ET_HardShutdown)]"

definition aw_alarm :: "u8 \<Rightarrow> u8 \<Rightarrow> GateContext \<Rightarrow> u8 \<times> StatusReason \<times> EventType \<Rightarrow> push_state \<Rightarrow> push_state" where
  "aw_alarm now changed g a st =
     (case a of (b, reason, event) \<Rightarrow>
      if changed AND b = 0 then st
      else let st = watch_status reason st in
        if now AND b \<noteq> 0 then watch_event event g 0 st else st)"

definition aw_update :: "u8 \<Rightarrow> GateContext \<Rightarrow> AlarmWatch \<Rightarrow> push_state \<Rightarrow> bool \<times> AlarmWatch \<times> push_state" where
  "aw_update inputs g w st =
     (let now = inputs AND (kInFire OR kInAlarm) in
      if \<not> aw_seen w then (False, w\<lparr>aw_seen := True, aw_last := now\<rparr>, st)
      else let changed = now XOR aw_last w; w = w\<lparr>aw_last := now\<rparr> in
        if changed = 0 then (False, w, st)
        else (True, w, fold (aw_alarm now changed g) kAlarms st))"

section \<open>The charger's error\<close>

type_synonym MpptErrorWatch = u8

definition mw_update ::
  "MpptSnapshot \<Rightarrow> GateContext \<Rightarrow> MpptErrorWatch \<Rightarrow> push_state \<Rightarrow> bool \<times> MpptErrorWatch \<times> push_state" where
  "mw_update m g prev st =
     (if ms_mppt_flags m AND kMpptFlagStale \<noteq> 0 \<or> ms_mppt_err m = kCodeNotAvailable then (False, prev, st)
      else if ms_mppt_err m = prev then (False, prev, st)
      else (True, ms_mppt_err m,
            watch_event ET_MpptError g (ucast (ms_mppt_err m)) (watch_status SR_MpptError st)))"

section \<open>Charge drawn\<close>

record AhDrawn =
  ah_have_ref :: bool
  ah_ref_dah :: u32
  ah_last_dah :: u32
  ah_seen_read :: bool
  ah_read_ms :: u32

definition AhDrawn_new :: AhDrawn where
  "AhDrawn_new = \<lparr>ah_have_ref = False, ah_ref_dah = 0, ah_last_dah = 0, ah_seen_read = False, ah_read_ms = 0\<rparr>"

definition kRefStalePolls :: u32 where "kRefStalePolls = 2"
definition kSaturated :: u32 where "kSaturated = 0xFFFE"

definition charging_active :: "MpptSnapshot \<Rightarrow> bool" where
  "charging_active m \<longleftrightarrow> ms_mppt_flags m AND kMpptFlagStale = 0 \<and>
     (ms_charge_state m = kCsBulk \<or> ms_charge_state m = kCsAbsorption \<or> ms_charge_state m = kCsFloat) \<and>
     ms_batt_ma m \<noteq> kI16NotAvailable \<and> sint (ms_batt_ma m) > 0"

text \<open>The reference a pass leaves, before its answer.\<close>

definition ah_note :: "bool \<Rightarrow> BmsSnapshot \<Rightarrow> u32 \<Rightarrow> u32 \<Rightarrow> AhDrawn \<Rightarrow> AhDrawn" where
  "ah_note active b now_ms bms_poll_s a =
     (let fresh = (bs_have b \<and> (\<not> ah_seen_read a \<or> bs_read_ms b \<noteq> ah_read_ms a));
          a = (if fresh then
                 let a = a\<lparr>ah_seen_read := True, ah_read_ms := bs_read_ms b,
                           ah_last_dah := ucast (bd_remaining_dAh (bs_data b))\<rparr>
                 in if active then a\<lparr>ah_have_ref := True, ah_ref_dah := ah_last_dah a\<rparr> else a
               else a)
      in if active \<and> ah_have_ref a \<and> ah_seen_read a \<and>
            now_ms - ah_read_ms a > kRefStalePolls * bms_poll_s * 1000 + 1
         then a\<lparr>ah_have_ref := False\<rparr> else a)"

definition ah_update :: "MpptSnapshot \<Rightarrow> BmsSnapshot \<Rightarrow> u32 \<Rightarrow> u32 \<Rightarrow> AhDrawn \<Rightarrow> u16 \<times> AhDrawn" where
  "ah_update m b now_ms bms_poll_s a =
     (let active = charging_active m; a = ah_note active b now_ms bms_poll_s a in
      (if active then 0
       else if \<not> ah_have_ref a then kU16NotAvailable
       else if ah_last_dah a \<ge> ah_ref_dah a then 0
       else let drawn = ah_ref_dah a - ah_last_dah a in ucast (if drawn > kSaturated then kSaturated else drawn), a))"

section \<open>Charge inhibition\<close>

definition kMpptFlagChargeInhibited :: u8 where "kMpptFlagChargeInhibited = 0x08"

record ChargeParams =
  cp_confirm_ms :: u32
  cp_temp_c :: i16
  cp_band_ma :: u32
  cp_rise_mv :: u32
  cp_bms_poll_s :: u32

datatype ChargeSource = CS_None | CS_Bms | CS_VeDirect

record ChargeInhibit =
  ci_inhibited :: bool
  ci_source :: ChargeSource
  ci_path :: ChargeSource
  ci_ved_inferred :: bool
  ci_ved_met :: bool
  ci_ved_since_ms :: u32
  ci_ved_ref_mv :: u16

definition ChargeInhibit_new :: ChargeInhibit where
  "ChargeInhibit_new = \<lparr>ci_inhibited = False, ci_source = CS_None, ci_path = CS_None, ci_ved_inferred = False,
     ci_ved_met = False, ci_ved_since_ms = 0, ci_ved_ref_mv = 0\<rparr>"

definition kPvOverBattMv :: u32 where "kPvOverBattMv = 1000"
definition kBmsFreshPolls :: u32 where "kBmsFreshPolls = 3"
definition kBmsReleaseBandDc :: int where "kBmsReleaseBandDc = 10"

definition reached_span :: "u32 \<Rightarrow> u32 \<Rightarrow> u32 \<Rightarrow> bool" where
  "reached_span now since span \<longleftrightarrow> now - since \<ge> span"

fun wire_path :: "ChargeSource \<Rightarrow> u8" where
  "wire_path CS_Bms = 0x01"
| "wire_path CS_VeDirect = 0x02"
| "wire_path CS_None = 0x00"

text \<open>R-6.4b's condition on one snapshot, without the voltage rise.\<close>

definition ved_condition :: "MpptSnapshot \<Rightarrow> ChargeParams \<Rightarrow> bool" where
  "ved_condition m p \<longleftrightarrow> ms_mppt_flags m AND kMpptFlagStale = 0 \<and>
     ms_pv_cv m \<noteq> kU16NotAvailable \<and> ms_batt_mv m \<noteq> kU16NotAvailable \<and>
     ucast (ms_pv_cv m) * 10 \<ge> ucast (ms_batt_mv m) + kPvOverBattMv \<and>
     (ms_charge_state m = kCsBulk \<or> ms_charge_state m = kCsAbsorption) \<and>
     ms_batt_ma m \<noteq> kI16NotAvailable \<and> nat \<bar>sint (ms_batt_ma m)\<bar> \<le> unat (cp_band_ma p)"

definition ved_update :: "MpptSnapshot \<Rightarrow> u32 \<Rightarrow> ChargeParams \<Rightarrow> ChargeInhibit \<Rightarrow> ChargeInhibit" where
  "ved_update m now_ms p c =
     (let met = ved_condition m p;
          met = (if met \<and> ci_ved_met c \<and> ucast (ms_batt_mv m) > ucast (ci_ved_ref_mv c) + cp_rise_mv p then False else met);
          c = (if met \<noteq> ci_ved_met c
               then c\<lparr>ci_ved_met := met, ci_ved_since_ms := now_ms, ci_ved_ref_mv := ms_batt_mv m\<rparr>
               else if met \<and> ms_batt_mv m < ci_ved_ref_mv c then c\<lparr>ci_ved_ref_mv := ms_batt_mv m\<rparr> else c)
      in if ci_ved_met c \<noteq> ci_ved_inferred c \<and> reached_span now_ms (ci_ved_since_ms c) (cp_confirm_ms p)
         then c\<lparr>ci_ved_inferred := ci_ved_met c\<rparr> else c)"

definition coldest_dc :: "BmsData \<Rightarrow> int" where
  "coldest_dc d =
     fold (\<lambda>i lo. if sint (bd_temp_dc d ! i) < lo then sint (bd_temp_dc d ! i) else lo)
       [1..<min (unat (bd_temp_count d)) kMaxTemps] (sint (bd_temp_dc d ! 0))"

definition bms_fresh :: "BmsSnapshot \<Rightarrow> u32 \<Rightarrow> ChargeParams \<Rightarrow> bool" where
  "bms_fresh b now_ms p \<longleftrightarrow> bs_have b \<and> bd_temp_count (bs_data b) > 0 \<and>
     \<not> reached_span now_ms (bs_read_ms b) (kBmsFreshPolls * cp_bms_poll_s p * 1000 + 1)"

definition ci_decide :: "MpptSnapshot \<Rightarrow> BmsSnapshot \<Rightarrow> u32 \<Rightarrow> ChargeParams \<Rightarrow> ChargeInhibit \<Rightarrow> bool \<times> ChargeSource" where
  "ci_decide m b now_ms p c =
     (if bms_fresh b now_ms p then
        (coldest_dc (bs_data b) \<le> sint (cp_temp_c p) * 10 +
           (if ci_inhibited c \<and> ci_source c = CS_Bms then kBmsReleaseBandDc else 0) \<and>
         sint (bd_current_ma (bs_data b)) \<le> sint (cp_band_ma p), CS_Bms)
      else if ms_mppt_flags m AND kMpptFlagStale = 0 then (ci_ved_inferred c, CS_VeDirect)
      else (False, CS_None))"

definition ci_update ::
  "MpptSnapshot \<Rightarrow> BmsSnapshot \<Rightarrow> u32 \<Rightarrow> ChargeParams \<Rightarrow> GateContext \<Rightarrow> ChargeInhibit \<Rightarrow> push_state \<Rightarrow>
     bool \<times> ChargeInhibit \<times> push_state" where
  "ci_update m b now_ms p g c st =
     (let c = ved_update m now_ms p c; (next, path) = ci_decide m b now_ms p c; c = c\<lparr>ci_path := path\<rparr> in
      if next = ci_inhibited c then (False, c, st)
      else let c = c\<lparr>ci_inhibited := next, ci_source := (if next then path else CS_None)\<rparr>;
               st = watch_status SR_ChargeInhibited st
        in (True, c, if next then watch_event ET_ChargeInhibited g (ucast (wire_path (ci_source c))) st else st))"

end
