(* ===== verification/ChargeCorrect.thy ===== *)
theory ChargeCorrect
  imports Watches
begin

text \<open>
  What the VE.Direct inference of charge inhibition needs before it holds, over any sequence of
  passes. A pass has a real time, so that the 32-bit clock may wrap.
\<close>

section \<open>Passes and spells\<close>

record charge_pass =
  cpa_ms :: nat
  cpa_mppt :: MpptSnapshot
  cpa_bms :: BmsSnapshot
  cpa_params :: ChargeParams
  cpa_gate :: GateContext

definition charge_step :: "charge_pass \<Rightarrow> ChargeInhibit \<times> push_state \<Rightarrow> ChargeInhibit \<times> push_state" where
  "charge_step x cs =
     snd (ci_update (cpa_mppt x) (cpa_bms x) (stamp (cpa_ms x)) (cpa_params x) (cpa_gate x) (fst cs) (snd cs))"

definition charge_run :: "charge_pass list \<Rightarrow> ChargeInhibit \<times> push_state" where
  "charge_run calls = fold charge_step calls (ChargeInhibit_new, 0, [])"

abbreviation batt :: "charge_pass \<Rightarrow> nat" where
  "batt x \<equiv> unat (ms_batt_mv (cpa_mppt x))"

text \<open>Consecutive passes with R-6.4b's condition in each and no rise of the battery past \<open>rise_mv\<close>.\<close>

definition cold_spell :: "charge_pass list \<Rightarrow> bool" where
  "cold_spell xs \<longleftrightarrow> xs \<noteq> [] \<and> (\<forall>x \<in> set xs. ved_condition (cpa_mppt x) (cpa_params x)) \<and>
     (\<forall>j < length xs. \<forall>i < j. batt (xs ! j) \<le> batt (xs ! i) + unat (cp_rise_mv (cpa_params (xs ! j))))"

definition confirmed_spell :: "charge_pass list \<Rightarrow> bool" where
  "confirmed_spell xs \<longleftrightarrow> cold_spell xs \<and>
     cpa_ms (hd xs) + unat (cp_confirm_ms (cpa_params (last xs))) \<le> cpa_ms (last xs)"

definition has_confirmed_spell :: "charge_pass list \<Rightarrow> bool" where
  "has_confirmed_spell calls \<longleftrightarrow> (\<exists>pre spell post. calls = pre @ spell @ post \<and> confirmed_spell spell)"

lemma has_confirmed_spell_snoc: "has_confirmed_spell calls \<Longrightarrow> has_confirmed_spell (calls @ [x])"
  unfolding has_confirmed_spell_def by (metis append_assoc)

lemma cold_spell_single: "ved_condition (cpa_mppt x) (cpa_params x) \<Longrightarrow> cold_spell [x]"
  by (simp add: cold_spell_def)

lemma cold_spell_snoc:
  assumes "cold_spell xs" "ved_condition (cpa_mppt x) (cpa_params x)"
    "\<forall>y \<in> set xs. batt x \<le> batt y + unat (cp_rise_mv (cpa_params x))"
  shows "cold_spell (xs @ [x])"
  using assms by (auto simp: cold_spell_def nth_append less_Suc_eq)

section \<open>The invariant\<close>

definition spell_open :: "charge_pass list \<Rightarrow> ChargeInhibit \<Rightarrow> bool" where
  "spell_open calls c \<longleftrightarrow> (\<exists>pre spell. calls = pre @ spell \<and> cold_spell spell \<and>
     ci_ved_since_ms c = stamp (cpa_ms (hd spell)) \<and>
     (\<forall>y \<in> set spell. unat (ci_ved_ref_mv c) \<le> batt y))"

definition charge_inv :: "charge_pass list \<Rightarrow> ChargeInhibit \<Rightarrow> bool" where
  "charge_inv calls c \<longleftrightarrow> (ci_ved_met c \<longrightarrow> spell_open calls c) \<and>
     (ci_ved_inferred c \<longrightarrow> has_confirmed_spell calls) \<and>
     (ci_inhibited c \<and> ci_source c = CS_VeDirect \<longrightarrow> has_confirmed_spell calls)"

lemma unat_ucast_16_32 [simp]: "unat (ucast (x :: u16) :: u32) = unat x"
  using unat_u16_less [of x] by (simp add: unsigned_ucast_eq take_bit_nat_eq_self)

lemma no_rise:
  assumes "\<not> ucast mv > (ucast ref + rise :: u32)"
  shows "unat (mv :: u16) \<le> unat (ref :: u16) + unat rise"
proof -
  have "unat (ucast mv :: u32) \<le> unat (ucast ref + rise :: u32)"
    using assms by (simp add: word_le_nat_alt not_less)
  also have "\<dots> \<le> unat (ucast ref :: u32) + unat rise"
    by (simp only: unat_word_ariths mod_less_eq_dividend)
  finally show ?thesis by simp
qed

text \<open>One pass, by the three things it may do with the spell: open it, extend it, end it.\<close>

lemma charge_inv_ved:
  assumes "charge_inv calls c" "c' = ved_update (cpa_mppt x) (stamp (cpa_ms x)) (cpa_params x) c"
    "\<forall>y \<in> set calls. cpa_ms y \<le> cpa_ms x"
  shows "charge_inv (calls @ [x]) c'"
proof -
  let ?m = "cpa_mppt x" and ?p = "cpa_params x"
  define met where "met \<longleftrightarrow> ved_condition ?m ?p \<and>
    \<not> (ci_ved_met c \<and> ucast (ms_batt_mv ?m) > (ucast (ci_ved_ref_mv c) + cp_rise_mv ?p :: u32))"
  define c1 where "c1 = (if met \<noteq> ci_ved_met c
      then c\<lparr>ci_ved_met := met, ci_ved_since_ms := stamp (cpa_ms x), ci_ved_ref_mv := ms_batt_mv ?m\<rparr>
      else if met \<and> ms_batt_mv ?m < ci_ved_ref_mv c then c\<lparr>ci_ved_ref_mv := ms_batt_mv ?m\<rparr> else c)"
  have c': "c' = (if ci_ved_met c1 \<noteq> ci_ved_inferred c1 \<and> reached_span (stamp (cpa_ms x)) (ci_ved_since_ms c1) (cp_confirm_ms ?p)
      then c1\<lparr>ci_ved_inferred := ci_ved_met c1\<rparr> else c1)"
  proof -
    have "met = (if ved_condition ?m ?p \<and> ci_ved_met c \<and> ucast (ms_batt_mv ?m) > (ucast (ci_ved_ref_mv c) + cp_rise_mv ?p :: u32)
        then False else ved_condition ?m ?p)" by (auto simp: met_def)
    then show ?thesis unfolding assms(2) ved_update_def Let_def c1_def by (simp only:)
  qed
  have spell: "\<exists>pre spell. calls @ [x] = pre @ spell \<and> cold_spell spell \<and> last spell = x \<and>
      ci_ved_since_ms c1 = stamp (cpa_ms (hd spell)) \<and> (\<forall>y \<in> set spell. unat (ci_ved_ref_mv c1) \<le> batt y)"
    if met
  proof (cases "ci_ved_met c")
    case False
    with that have "calls @ [x] = calls @ [x] \<and> cold_spell [x] \<and> last [x] = x \<and>
      ci_ved_since_ms c1 = stamp (cpa_ms (hd [x])) \<and> (\<forall>y \<in> set [x]. unat (ci_ved_ref_mv c1) \<le> batt y)"
      by (auto simp: c1_def met_def cold_spell_single)
    then show ?thesis by blast
  next
    case True
    with assms(1) obtain pre spell where s: "calls = pre @ spell" "cold_spell spell"
      "ci_ved_since_ms c = stamp (cpa_ms (hd spell))" "\<forall>y \<in> set spell. unat (ci_ved_ref_mv c) \<le> batt y"
      by (auto simp: charge_inv_def spell_open_def)
    have "batt x \<le> unat (ci_ved_ref_mv c) + unat (cp_rise_mv ?p)"
      using that True by (intro no_rise) (simp add: met_def)
    with s(4) have "\<forall>y \<in> set spell. batt x \<le> batt y + unat (cp_rise_mv ?p)" by fastforce
    with s(2) that have "cold_spell (spell @ [x])" by (intro cold_spell_snoc) (simp_all add: met_def)
    moreover have "spell \<noteq> []" using s(2) by (simp add: cold_spell_def)
    moreover have "unat (ci_ved_ref_mv c1) = min (unat (ci_ved_ref_mv c)) (batt x)" "ci_ved_since_ms c1 = ci_ved_since_ms c"
      using True that by (auto simp: c1_def word_less_nat_alt)
    ultimately show ?thesis
      using s by (intro exI [of _ pre] exI [of _ "spell @ [x]"]) (auto simp: min_le_iff_disj)
  qed
  have met1: "ci_ved_met c1 = met" and inf1: "ci_ved_inferred c1 = ci_ved_inferred c"
    and keep: "ci_inhibited c' = ci_inhibited c" "ci_source c' = ci_source c"
    by (auto simp: c1_def c')
  have fields: "ci_ved_met c' = met" "ci_ved_since_ms c' = ci_ved_since_ms c1" "ci_ved_ref_mv c' = ci_ved_ref_mv c1"
    using met1 by (auto simp: c')
  have "has_confirmed_spell (calls @ [x])" if "ci_ved_inferred c'"
  proof (cases "ci_ved_inferred c")
    case True
    with assms(1) show ?thesis by (simp add: charge_inv_def has_confirmed_spell_snoc)
  next
    case False
    with that met1 inf1 have m: met and r: "cp_confirm_ms ?p \<le> stamp (cpa_ms x) - ci_ved_since_ms c1"
      by (auto simp: c' reached_span_def split: if_splits)
    from spell [OF m] obtain pre spell where s: "calls @ [x] = pre @ spell" "cold_spell spell" "last spell = x"
      "ci_ved_since_ms c1 = stamp (cpa_ms (hd spell))" by blast
    have "hd spell \<in> set (calls @ [x])" using s(1,2) by (auto simp: cold_spell_def)
    with assms(3) have le: "cpa_ms (hd spell) \<le> cpa_ms x" by auto
    have "unat (cp_confirm_ms ?p) \<le> cpa_ms x - cpa_ms (hd spell)"
      using r s(4) elapsed_at_most [OF le] by (simp add: word_le_nat_alt)
    with s le have "confirmed_spell spell" by (simp add: confirmed_spell_def)
    with s(1) show ?thesis unfolding has_confirmed_spell_def by (metis append_Nil2)
  qed
  then show ?thesis
    using assms(1) keep spell fields
    by (auto simp: charge_inv_def spell_open_def has_confirmed_spell_snoc)
qed

lemma ci_update_fields:
  assumes "ci_update m b now p g c st = (ch, c', st')" and "u = ved_update m now p c"
  shows "ci_ved_met c' = ci_ved_met u" "ci_ved_inferred c' = ci_ved_inferred u"
    "ci_ved_since_ms c' = ci_ved_since_ms u" "ci_ved_ref_mv c' = ci_ved_ref_mv u"
    "ci_inhibited c' \<and> ci_source c' = CS_VeDirect \<Longrightarrow>
       ci_ved_inferred u \<or> ci_inhibited u \<and> ci_source u = CS_VeDirect"
  using assms by (auto simp: ci_update_def ci_decide_def Let_def split: if_splits prod.splits)

lemma charge_inv_step:
  assumes "charge_inv calls (fst cs)" "\<forall>y \<in> set calls. cpa_ms y \<le> cpa_ms x"
  shows "charge_inv (calls @ [x]) (fst (charge_step x cs))"
proof -
  obtain ch c' st' where u: "ci_update (cpa_mppt x) (cpa_bms x) (stamp (cpa_ms x)) (cpa_params x) (cpa_gate x)
    (fst cs) (snd cs) = (ch, c', st')" by (metis prod_cases3)
  from charge_inv_ved [OF assms(1) refl assms(2)] ci_update_fields [OF u refl]
  have "charge_inv (calls @ [x]) c'"
    by (auto simp: charge_inv_def spell_open_def)
  with u show ?thesis by (simp add: charge_step_def)
qed

lemma charge_inv_run: "sorted (map cpa_ms calls) \<Longrightarrow> charge_inv calls (fst (charge_run calls))"
proof (induction calls rule: rev_induct)
  case Nil
  show ?case by (simp add: charge_run_def charge_inv_def ChargeInhibit_new_def)
next
  case (snoc x calls)
  then show ?case
    using charge_inv_step [of calls "charge_run calls" x] by (simp add: charge_run_def sorted_append)
qed

text \<open>
  Once inferred, a rising battery does not clear it. The rise ends the condition for one pass; the
  next pass starts it again with the higher voltage as reference, before the confirmation of the
  end can be reached.
\<close>

lemma rise_never_clears_inference:
  assumes "ci_ved_inferred c" "ved_condition m p" "cp_confirm_ms p \<noteq> 0"
  shows "ci_ved_inferred (ved_update m now p c)"
  using assms by (auto simp: ved_update_def Let_def reached_span_def)

lemma rise_keeps_step:
  assumes "ci_ved_inferred (fst cs)" "ved_condition (cpa_mppt x) (cpa_params x)" "cp_confirm_ms (cpa_params x) \<noteq> 0"
  shows "ci_ved_inferred (fst (charge_step x cs))"
proof -
  obtain ch c' st' where u: "ci_update (cpa_mppt x) (cpa_bms x) (stamp (cpa_ms x)) (cpa_params x) (cpa_gate x)
    (fst cs) (snd cs) = (ch, c', st')" by (metis prod_cases3)
  from ci_update_fields(2) [OF u refl] rise_never_clears_inference [OF assms] u show ?thesis
    by (simp add: charge_step_def)
qed

text \<open>
  Charge inhibition reported from VE.Direct rests on a spell. Over any passes in time order,
  whatever the battery monitor says in between, the node holds the inhibition to be VE.Direct's
  only if some run of consecutive passes, at least charge_inhibit_confirm_s long, had the
  condition of R-6.4b in every pass and the battery never more than charge_inhibit_rise_mv above
  any earlier pass of it. Once inferred it stays so through every pass with that condition,
  however far the battery rises.
\<close>

theorem vedirect_inhibition_is_confirmed:
  assumes "sorted (map cpa_ms calls)"
  shows "(ci_inhibited (fst (charge_run calls)) \<and> ci_source (fst (charge_run calls)) = CS_VeDirect \<longrightarrow>
      (\<exists>pre spell post. calls = pre @ spell @ post \<and> confirmed_spell spell)) \<and>
    (\<forall>x. ci_ved_inferred (fst (charge_run calls)) \<and> ved_condition (cpa_mppt x) (cpa_params x) \<and>
      cp_confirm_ms (cpa_params x) \<noteq> 0 \<longrightarrow> ci_ved_inferred (fst (charge_run (calls @ [x]))))"
  using charge_inv_run [OF assms] rise_keeps_step [of "charge_run calls"]
  by (auto simp: charge_inv_def has_confirmed_spell_def charge_run_def)

definition idle_pack :: "nat \<Rightarrow> charge_pass" where
  "idle_pack t = \<lparr>cpa_ms = t,
     cpa_mppt = MpptSnapshot_init\<lparr>ms_mppt_flags := 0, ms_pv_cv := 2000, ms_batt_mv := 12800, ms_batt_ma := 0, ms_charge_state := kCsBulk\<rparr>,
     cpa_bms = BmsSnapshot_init,
     cpa_params = \<lparr>cp_confirm_ms = 60000, cp_temp_c = 0, cp_band_ma = 100, cp_rise_mv = 20, cp_bms_poll_s = 300\<rparr>,
     cpa_gate = \<lparr>gc_held = False, gc_hold_source = HS_None, gc_gate_state = GS_Closed, gc_input_bits = 0, gc_uptime_s = 0\<rparr>\<rparr>"

lemma idle_pack_condition: "ved_condition (cpa_mppt (idle_pack t)) (cpa_params (idle_pack t))"
  by (simp add: ved_condition_def idle_pack_def MpptSnapshot_init_def kCsBulk_def kPvOverBattMv_def kU16NotAvailable_def)

lemma idle_pack_run:
  "ci_inhibited (fst (charge_run [idle_pack 0, idle_pack 60000])) \<and>
   ci_source (fst (charge_run [idle_pack 0, idle_pack 60000])) = CS_VeDirect \<and>
   ci_ved_inferred (fst (charge_run [idle_pack 0, idle_pack 60000]))"
proof -
  have flags: "ms_mppt_flags (cpa_mppt (idle_pack t)) = 0" "bs_have (cpa_bms (idle_pack t)) = False"
    "cp_confirm_ms (cpa_params (idle_pack t)) = 60000" "cp_rise_mv (cpa_params (idle_pack t)) = 20"
    "ms_batt_mv (cpa_mppt (idle_pack t)) = 12800" "cpa_ms (idle_pack t) = t" for t
    by (simp_all add: idle_pack_def BmsSnapshot_init_def)
  show ?thesis
    by (simp add: charge_run_def charge_step_def ci_update_def ved_update_def ci_decide_def bms_fresh_def
        ChargeInhibit_new_def idle_pack_condition flags reached_span_def stamp_def Let_def)
qed

theorem vedirect_inhibition_is_confirmed_witness:
  "(\<exists>pre spell post. [idle_pack 0, idle_pack 60000] = pre @ spell @ post \<and> confirmed_spell spell) \<and>
   ci_ved_inferred (fst (charge_run ([idle_pack 0, idle_pack 60000] @ [idle_pack 60100])))"
proof -
  have "sorted (map cpa_ms [idle_pack 0, idle_pack 60000])" "cp_confirm_ms (cpa_params (idle_pack 60100)) \<noteq> 0"
    by (simp_all add: idle_pack_def)
  with vedirect_inhibition_is_confirmed [OF this(1)] idle_pack_run idle_pack_condition show ?thesis by blast
qed

end
