(* ===== verification/Tasks.thy ===== *)
theory Tasks
  imports ConfigTable Clock GateState
begin

text \<open>
  GateLink's task table with its checks, the watch on a task's progress (\<open>tasks.h\<close>,
  \<open>tasks.cpp\<close>), and the injection scripts of the bench (\<open>inject.h\<close>, \<open>inject.cpp\<close>), all under
  \<open>firmware/gatelink/src\<close>.
\<close>

section \<open>The task table\<close>

datatype TaskId = TI_Io | TI_Vedirect | TI_Lora | TI_App | TI_Bms | TI_Ui | TI_Log

definition kPriorityLog :: u8 where "kPriorityLog = 1"
definition kPriorityLow :: u8 where "kPriorityLow = 2"
definition kPriorityNormal :: u8 where "kPriorityNormal = 3"
definition kPriorityHigh :: u8 where "kPriorityHigh = 4"
definition kPriorityIo :: u8 where "kPriorityIo = 6"

record TaskSpec =
  ts_id :: TaskId
  ts_name :: string
  ts_priority :: u8
  ts_stack_bytes :: u32
  ts_core :: int
  ts_period_ms :: u32
  ts_period_param :: u16

definition task_row :: "TaskId \<Rightarrow> string \<Rightarrow> u8 \<Rightarrow> u32 \<Rightarrow> u32 \<Rightarrow> u16 \<Rightarrow> TaskSpec" where
  "task_row i n pr st per par = \<lparr>ts_id = i, ts_name = n, ts_priority = pr, ts_stack_bytes = st, ts_core = -1,
     ts_period_ms = per, ts_period_param = par\<rparr>"

definition kTaskTable :: "TaskSpec list" where
  "kTaskTable = [
     task_row TI_Io ''io'' kPriorityIo 4096 0 0x1010,
     task_row TI_Vedirect ''vedirect'' kPriorityHigh 4096 0 0,
     task_row TI_Lora ''lora'' kPriorityHigh 8192 0 0,
     task_row TI_App ''app'' kPriorityNormal 6144 100 0,
     task_row TI_Bms ''bms'' kPriorityLow 6144 0 0x1040,
     task_row TI_Ui ''ui'' kPriorityLow 6144 100 0,
     task_row TI_Log ''log'' kPriorityLog 6144 0 0]"

definition kParamInputPollMs :: u16 where "kParamInputPollMs = 0x1010"
definition kParamHoldConfirmMs :: u16 where "kParamHoldConfirmMs = 0x1012"
definition kParamDetectWindowMs :: u16 where "kParamDetectWindowMs = 0x1020"
definition kParamDetectIdleMs :: u16 where "kParamDetectIdleMs = 0x1021"
definition kParamAlertRepeatS :: u16 where "kParamAlertRepeatS = 0x1022"
definition kParamCauseWindowMs :: u16 where "kParamCauseWindowMs = 0x1023"
definition kParamBmsPollS :: u16 where "kParamBmsPollS = 0x1040"
definition kParamChargeConfirmS :: u16 where "kParamChargeConfirmS = 0x1041"
definition kParamChargeTempC :: u16 where "kParamChargeTempC = 0x1043"
definition kParamChargeBandMa :: u16 where "kParamChargeBandMa = 0x1044"
definition kParamChargeRiseMv :: u16 where "kParamChargeRiseMv = 0x1045"
definition kParamInjectSpacingMs :: u16 where "kParamInjectSpacingMs = 0x1052"
definition kParamWatchdogTimeoutS :: u16 where "kParamWatchdogTimeoutS = 0x1060"
definition kIoStallPolls :: u32 where "kIoStallPolls = 20"

definition find_param :: "u16 \<Rightarrow> ParamDef option" where
  "find_param i = find (\<lambda>p. pd_id p = i) kGateLinkParams"

text \<open>\<open>task_spec\<close> indexes the table with the task's number.\<close>

fun TaskId_nat :: "TaskId \<Rightarrow> nat" where
  "TaskId_nat TI_Io = 0"
| "TaskId_nat TI_Vedirect = 1"
| "TaskId_nat TI_Lora = 2"
| "TaskId_nat TI_App = 3"
| "TaskId_nat TI_Bms = 4"
| "TaskId_nat TI_Ui = 5"
| "TaskId_nat TI_Log = 6"

definition task_spec :: "TaskId \<Rightarrow> TaskSpec" where
  "task_spec i = kTaskTable ! TaskId_nat i"

definition default_period_ms :: "TaskSpec \<Rightarrow> u32" where
  "default_period_ms spec =
     (if ts_period_param spec = 0 then ts_period_ms spec
      else case find_param (ts_period_param spec) of
        None \<Rightarrow> 0
      | Some p \<Rightarrow> word_of_int (pd_def p) * (if pd_unit p = Some ''s'' then 1000 else 1))"

definition param_default :: "u16 \<Rightarrow> u32" where
  "param_default i = (case find_param i of None \<Rightarrow> 0 | Some p \<Rightarrow> word_of_int (pd_def p))"

definition watchdog_timeout_in_range :: "u32 \<Rightarrow> u32" where
  "watchdog_timeout_in_range seconds =
     (case find_param kParamWatchdogTimeoutS of
        None \<Rightarrow> undefined
      | Some p \<Rightarrow> let lo = word_of_int (pd_min p); hi = word_of_int (pd_max p)
          in if seconds < lo then lo else if seconds > hi then hi else seconds)"

definition app_feeds_well_inside_the_watchdog :: bool where
  "app_feeds_well_inside_the_watchdog \<longleftrightarrow>
     (case find_param kParamWatchdogTimeoutS of
        None \<Rightarrow> False
      | Some p \<Rightarrow> default_period_ms (task_spec TI_App) * 2 \<le> word_of_int (pd_min p) * 1000)"

definition io_is_strictly_highest :: bool where
  "io_is_strictly_highest \<longleftrightarrow>
     list_all (\<lambda>t. \<not> (ts_id t \<noteq> TI_Io \<and> ts_priority t \<ge> ts_priority (task_spec TI_Io))) kTaskTable"

definition log_is_strictly_lowest :: bool where
  "log_is_strictly_lowest \<longleftrightarrow>
     list_all (\<lambda>t. \<not> (ts_id t \<noteq> TI_Log \<and> ts_priority t \<le> ts_priority (task_spec TI_Log))) kTaskTable"

definition all_priorities_above_arduino_loop :: bool where
  "all_priorities_above_arduino_loop \<longleftrightarrow> list_all (\<lambda>t. \<not> ts_priority t < 1) kTaskTable"

definition task_names_are_unique :: bool where
  "task_names_are_unique \<longleftrightarrow>
     list_all (\<lambda>i. list_all (\<lambda>j. ts_name (kTaskTable ! i) \<noteq> ts_name (kTaskTable ! j)) [i + 1..<length kTaskTable])
       [0..<length kTaskTable]"

definition period_params_exist :: bool where
  "period_params_exist \<longleftrightarrow>
     list_all (\<lambda>t. \<not> (ts_period_param t \<noteq> 0 \<and> find_param (ts_period_param t) = None)) kTaskTable"

lemma task_spec_id: "ts_id (task_spec i) = i"
  by (cases i) (simp_all add: task_spec_def kTaskTable_def task_row_def)

lemma watchdog_row: "find_param kParamWatchdogTimeoutS \<noteq> None"
  by (simp add: find_param_def kParamWatchdogTimeoutS_def kGateLinkParams_def row_def)

text \<open>The checks the native suite runs on the table all hold.\<close>

lemma task_table_checks:
  "io_is_strictly_highest" "log_is_strictly_lowest" "all_priorities_above_arduino_loop"
  "task_names_are_unique" "period_params_exist" "app_feeds_well_inside_the_watchdog"
  by code_simp+

section \<open>Progress\<close>

record ProgressWatch =
  pw_seen :: bool
  pw_last :: u32
  pw_since :: u32

definition ProgressWatch_new :: ProgressWatch where
  "ProgressWatch_new = \<lparr>pw_seen = False, pw_last = 0, pw_since = 0\<rparr>"

definition pw_stalled :: "u32 \<Rightarrow> u32 \<Rightarrow> u32 \<Rightarrow> ProgressWatch \<Rightarrow> bool \<times> ProgressWatch" where
  "pw_stalled passes now_ms limit_ms w =
     (if \<not> pw_seen w \<or> passes \<noteq> pw_last w
      then (False, w\<lparr>pw_seen := True, pw_last := passes, pw_since := now_ms\<rparr>)
      else (now_ms - pw_since w \<ge> limit_ms, w))"

section \<open>Injection scripts\<close>

record InjectStep =
  st_set :: u8
  st_clear :: u8
  st_timed :: bool
  st_wait_ms :: u32

record InjectScript =
  is_steps :: "InjectStep list"   \<comment> \<open>\<open>steps_\<close> and \<open>n_\<close>\<close>
  is_next :: nat
  is_running :: bool
  is_last_ms :: u32

definition kMaxSteps :: nat where "kMaxSteps = 16"

definition InjectScript_new :: InjectScript where
  "InjectScript_new = \<lparr>is_steps = [], is_next = 0, is_running = False, is_last_ms = 0\<rparr>"

definition input_bit :: "char \<Rightarrow> u8" where
  "input_bit c =
     (if c = CHR ''O'' then kInOpen else if c = CHR ''M'' then kInMoving
      else if c = CHR ''S'' then kInSafety else if c = CHR ''E'' then kInExit
      else if c = CHR ''F'' then kInFire else if c = CHR ''A'' then kInAlarm else 0)"

definition kCanned :: "(string \<times> string) list" where
  "kCanned = [(''exit'', ''+E @30000 +S @2000 -E @4000 -S''), (''entry'', ''+S @3000 +E @1000 -S @1000 -E''),
     (''both'', ''+S,+E @2000 -S,-E''), (''wand-back'', ''+E @5000 -E''), (''loop-stop'', ''+S @70000 -S''),
     (''cycle'', ''+M @15000 +O @20000 -O @15000 -M''), (''hold'', ''+M @15000 +O,-M''),
     (''release'', ''+M @2000 -O @15000 -M''), (''closed'', ''-O,-M,-S,-E'')]"

definition inject_canned :: "string \<Rightarrow> string option" where
  "inject_canned name = map_of kCanned name"

text \<open>
  \<open>strtoul\<close> in base 10 on a 32-bit \<open>unsigned long\<close>: white space and a sign are skipped, the value
  saturates, a minus negates it. \<open>None\<close> is the case without a digit. A string here holds no NUL;
  its end stands for the terminator.
\<close>

definition c_space :: "char \<Rightarrow> bool" where
  "c_space c \<longleftrightarrow> c = CHR '' '' \<or> (of_char c :: nat) \<in> {9, 10, 11, 12, 13}"

definition c_digit :: "char \<Rightarrow> bool" where
  "c_digit c \<longleftrightarrow> of_char CHR ''0'' \<le> (of_char c :: nat) \<and> of_char c \<le> (of_char CHR ''9'' :: nat)"

definition digits_value :: "string \<Rightarrow> nat" where
  "digits_value ds = foldl (\<lambda>v c. 10 * v + (of_char c - of_char CHR ''0'')) 0 ds"

definition c_strtoul :: "string \<Rightarrow> (u32 \<times> string) option" where
  "c_strtoul s =
     (let s = dropWhile c_space s;
          neg = (s \<noteq> [] \<and> hd s = CHR ''-'');
          s = (if s \<noteq> [] \<and> (hd s = CHR ''-'' \<or> hd s = CHR ''+'') then tl s else s);
          ds = takeWhile c_digit s; v = digits_value ds
      in if ds = [] then None
         else Some (if v > 0xFFFFFFFF then 0xFFFFFFFF else if neg then - of_nat v else of_nat v, dropWhile c_digit s))"

text \<open>One step: changes joined by commas; the rest of the text after it, or \<open>None\<close>.\<close>

fun parse_changes :: "string \<Rightarrow> u8 \<Rightarrow> u8 \<Rightarrow> (u8 \<times> u8 \<times> string) option" where
  "parse_changes (a # b # rest) st cl =
     (if (a \<noteq> CHR ''+'' \<and> a \<noteq> CHR ''-'') \<or> input_bit b = 0 then None
      else let st = (if a = CHR ''+'' then st OR input_bit b else st);
               cl = (if a = CHR ''+'' then cl else cl OR input_bit b)
        in case rest of
             c # rest' \<Rightarrow> if c = CHR '','' then parse_changes rest' st cl else Some (st, cl, rest)
           | [] \<Rightarrow> Some (st, cl, rest))"
| "parse_changes _ st cl = None"

definition token_ends :: "string \<Rightarrow> bool" where
  "token_ends s \<longleftrightarrow> s = [] \<or> hd s = CHR '' ''"

text \<open>The loop of \<open>parse\<close>: the steps so far, and the delay read for the next one. \<open>Inl\<close> is the text
  at the token not understood.\<close>

lemma parse_changes_shorter: "parse_changes s a b = Some (x, y, rest) \<Longrightarrow> length rest < length s"
  by (induction s a b rule: parse_changes.induct) (force simp: Let_def split: if_splits list.splits)+

lemma strtoul_shorter: "c_strtoul s = Some (v, rest) \<Longrightarrow> length rest < length s"
proof -
  assume a: "c_strtoul s = Some (v, rest)"
  define t where "t = dropWhile c_space s"
  define u where "u = (if t \<noteq> [] \<and> (hd t = CHR ''-'' \<or> hd t = CHR ''+'') then tl t else t)"
  have "length u \<le> length t" by (auto simp: u_def)
  moreover have "length t \<le> length s" by (simp add: t_def length_dropWhile_le)
  moreover have "takeWhile c_digit u \<noteq> []" "rest = dropWhile c_digit u"
    using a by (auto simp: c_strtoul_def t_def u_def Let_def split: if_splits)
  moreover have "length u = length (takeWhile c_digit u) + length (dropWhile c_digit u)"
    by (metis length_append takeWhile_dropWhile_id)
  ultimately show ?thesis by (cases "takeWhile c_digit u") auto
qed

function parse_script :: "string \<Rightarrow> (bool \<times> u32) \<Rightarrow> InjectStep list \<Rightarrow> string + InjectStep list" where
  "parse_script p delay steps =
     (let p = dropWhile (\<lambda>c. c = CHR '' '') p in
      if p = [] then Inr steps
      else if hd p = CHR ''@'' then
        (case c_strtoul (tl p) of
           None \<Rightarrow> Inl p
         | Some (ms, rest) \<Rightarrow> if \<not> token_ends rest then Inl p else parse_script rest (True, ms) steps)
      else if length steps = kMaxSteps then Inl p
      else case parse_changes p 0 0 of
          None \<Rightarrow> Inl p
        | Some (s, c, rest) \<Rightarrow>
            if \<not> token_ends rest then Inl p
            else parse_script rest (False, 0)
              (steps @ [\<lparr>st_set = s, st_clear = c, st_timed = fst delay, st_wait_ms = snd delay\<rparr>]))"
  by pat_completeness auto

termination
proof (relation "measure (\<lambda>(p, _, _). length p)", goal_cases)
  case 1
  show ?case by simp
next
  case (2 p delay steps x z ms rest)
  then show ?case
    using strtoul_shorter [of "tl x" ms rest] length_dropWhile_le [of "\<lambda>c. c = CHR '' ''" p] by simp
next
  case (3 p delay steps x z s y c rest)
  then show ?case
    using parse_changes_shorter [of x 0 0 s c rest] length_dropWhile_le [of "\<lambda>c. c = CHR '' ''" p] by simp
qed

declare parse_script.simps [simp del]

definition is_parse :: "string \<Rightarrow> InjectScript \<Rightarrow> (string + unit) \<times> InjectScript" where
  "is_parse script sc =
     (let sc = sc\<lparr>is_next := 0, is_running := False\<rparr> in
      case parse_script script (False, 0) [] of
        Inl bad \<Rightarrow> (Inl bad, sc\<lparr>is_steps := []\<rparr>)
      | Inr steps \<Rightarrow> (if steps = [] then Inl script else Inr (), sc\<lparr>is_steps := steps\<rparr>))"

definition is_start :: "u32 \<Rightarrow> InjectScript \<Rightarrow> InjectScript" where
  "is_start now_ms sc = sc\<lparr>is_next := 0, is_running := is_steps sc \<noteq> [], is_last_ms := now_ms\<rparr>"

definition is_stop :: "InjectScript \<Rightarrow> InjectScript" where
  "is_stop sc = sc\<lparr>is_running := False\<rparr>"

text \<open>The steps not yet played, each with its wait; \<open>service\<close> plays the due ones in order.\<close>

definition step_wait :: "u32 \<Rightarrow> nat \<Rightarrow> InjectStep \<Rightarrow> u32" where
  "step_wait spacing_ms k s = (if k = 0 then 0 else if st_timed s then st_wait_ms s else spacing_ms)"

function is_service :: "u32 \<Rightarrow> u32 \<Rightarrow> InjectScript \<Rightarrow> u8 \<Rightarrow> u8 \<Rightarrow> InjectScript \<times> u8 \<times> u8" where
  "is_service now_ms spacing_ms sc msk val =
     (if \<not> is_running sc \<or> is_next sc \<ge> length (is_steps sc) then (sc, msk, val)
      else let s = is_steps sc ! is_next sc; w = step_wait spacing_ms (is_next sc) s in
        if now_ms - is_last_ms sc < w then (sc, msk, val)
        else is_service now_ms spacing_ms
               (sc\<lparr>is_last_ms := is_last_ms sc + w, is_next := is_next sc + 1,
                   is_running := is_next sc + 1 \<noteq> length (is_steps sc)\<rparr>)
               (msk OR st_set s OR st_clear s) ((val OR st_set s) AND NOT (st_clear s)))"
  by pat_completeness auto

termination
  by (relation "measure (\<lambda>(_, _, sc, _, _). length (is_steps sc) - is_next sc)") auto

declare is_service.simps [simp del]

text \<open>A script is well formed: at most 16 steps, and a running one has a next step, so that the
  array is never read behind its end. Every operation keeps it.\<close>

definition script_ok :: "InjectScript \<Rightarrow> bool" where
  "script_ok sc \<longleftrightarrow> length (is_steps sc) \<le> kMaxSteps \<and> (is_running sc \<longrightarrow> is_next sc < length (is_steps sc))"

lemma parse_script_length:
  "parse_script p delay steps = Inr out \<Longrightarrow> length steps \<le> kMaxSteps \<Longrightarrow> length out \<le> kMaxSteps"
proof (induction p delay steps rule: parse_script.induct)
  case (1 p delay steps)
  define q where "q = dropWhile (\<lambda>c. c = CHR '' '') p"
  note eq = parse_script.simps [of p delay steps, folded q_def, unfolded Let_def]
  show ?case
  proof (cases "q = [] \<or> hd q = CHR ''@''")
    case True
    then show ?thesis
      using 1(1) [OF q_def] 1(3,4) eq by (auto split: if_splits option.splits)
  next
    case False
    then show ?thesis
      using 1(2) [OF q_def] 1(3,4) eq by (auto split: if_splits option.splits)
  qed
qed

lemma script_ok_parse: "script_ok (snd (is_parse script sc))"
  using parse_script_length [of script "(False, 0)" "[]"]
  by (auto simp: is_parse_def script_ok_def Let_def split: sum.splits)

lemma script_ok_start: "script_ok sc \<Longrightarrow> script_ok (is_start now sc)"
  by (simp add: is_start_def script_ok_def)

lemma script_ok_service: "script_ok sc \<Longrightarrow> script_ok (fst (is_service now spacing sc msk val))"
proof (induction now spacing sc msk val rule: is_service.induct)
  case (1 now spacing sc msk val)
  then show ?case
    by (subst is_service.simps) (auto simp: Let_def script_ok_def)
qed

lemma canned_scripts_parse: "\<forall>(name, script) \<in> set kCanned. \<exists>steps. parse_script script (False, 0) [] = Inr steps \<and> steps \<noteq> []"
  by (simp add: kCanned_def parse_script.simps c_strtoul_def c_space_def c_digit_def digits_value_def token_ends_def
      input_bit_def kInOpen_def kInMoving_def kInSafety_def kInExit_def kInFire_def kInAlarm_def kMaxSteps_def Let_def)

end
