(* ===== verification/AppTask.thy ===== *)
theory AppTask
  imports Watches Tasks
begin

text \<open>
  One pass of GateLink's \<open>app_task\<close> (\<open>firmware/gatelink/src/task_runtime.cpp\<close>): it plays the
  injection script, notes the relay pulses, runs the tracker, the detector and the watches on
  one snapshot, and queues what they ask for to \<open>lora_task\<close>. \<open>App\<close> holds the task's locals,
  \<open>AppShared\<close> the globals it writes, \<open>AppInputs\<close> what one pass reads. \<open>live\<close> is \<open>live_param\<close>. The
  critical sections make each snapshot one read; log lines are left out. \<open>IoSnapshot\<close> has the
  fields this task reads.
\<close>

section \<open>State\<close>

record GateSnapshot =
  gs_gate_state :: u8
  gs_hold :: u8
  gs_movement_cause :: u8
  gs_last_direction :: u8
  gs_detect_flags :: u8
  gs_last_traversal_age_s :: u32

definition GateSnapshot_init :: GateSnapshot where
  "GateSnapshot_init = \<lparr>gs_gate_state = 0, gs_hold = 0, gs_movement_cause = 0, gs_last_direction = 0,
     gs_detect_flags = 0, gs_last_traversal_age_s = 0xFFFFFFFF\<rparr>"

record IoSnapshot =
  io_inputs :: u8
  io_inputs_read :: bool
  io_relay_starts :: "u32 list"

record App =
  ap_tracker :: GateTracker
  ap_detector :: Detector
  ap_charge :: ChargeInhibit
  ap_alarms :: AlarmWatch
  ap_mppt_errors :: MpptErrorWatch
  ap_ah_drawn :: AhDrawn
  ap_script :: InjectScript
  ap_inj_mask :: u8
  ap_inj_value :: u8
  ap_starts_seen :: "u32 list"
  ap_io_watch :: ProgressWatch

definition App_new :: App where
  "App_new = \<lparr>ap_tracker = GateTracker_new, ap_detector = Detector_new, ap_charge = ChargeInhibit_new,
     ap_alarms = AlarmWatch_new, ap_mppt_errors = 0, ap_ah_drawn = AhDrawn_new, ap_script = InjectScript_new,
     ap_inj_mask = 0, ap_inj_value = 0, ap_starts_seen = [0, 0, 0, 0], ap_io_watch = ProgressWatch_new\<rparr>"

record AppShared =
  sh_event_ids :: EventIds
  sh_push_q :: "Push list"
  sh_push_dropped :: u32
  sh_gate :: GateSnapshot
  sh_ah_drawn_dah :: u16
  sh_charge_inhibited :: bool
  sh_charge_source :: ChargeSource
  sh_charge_path :: ChargeSource
  sh_inject :: u16
  sh_inject_req :: u8
  sh_inject_running :: bool
  sh_inject_step :: u8
  sh_wdt_feeds :: nat      \<comment> \<open>calls of \<open>esp_task_wdt_reset\<close>\<close>
  sh_lora_notified :: nat  \<comment> \<open>calls of \<open>xTaskNotifyGive\<close> on \<open>lora_task\<close>\<close>

record AppInputs =
  in_now :: u32
  in_live :: "u16 \<Rightarrow> u32"
  in_io_passes :: u32
  in_watched :: bool
  in_io :: IoSnapshot
  in_mppt :: MpptSnapshot
  in_bms :: BmsSnapshot
  in_uptime_s :: u32
  in_inject_text :: string
  in_lora_started :: bool

definition kPushQueue :: nat where "kPushQueue = 8"

definition kInjectStart :: u8 where "kInjectStart = 1"
definition kInjectOff :: u8 where "kInjectOff = 2"

section \<open>The pass\<close>

text \<open>\<open>xQueueSend\<close> on \<open>g_push_q\<close> without waiting: a full queue drops the push, counted.\<close>

definition queue_push :: "Push \<Rightarrow> AppShared \<Rightarrow> AppShared" where
  "queue_push p w =
     (if length (sh_push_q w) \<ge> kPushQueue then w\<lparr>sh_push_dropped := sh_push_dropped w + 1\<rparr>
      else w\<lparr>sh_push_q := sh_push_q w @ [p]\<rparr>)"

definition service_injection :: "AppInputs \<Rightarrow> App \<Rightarrow> AppShared \<Rightarrow> App \<times> AppShared" where
  "service_injection x a w =
     (let req = sh_inject_req w;
          a = (if req = kInjectStart then
                 (case is_parse (in_inject_text x) (ap_script a) of
                    (Inr _, sc) \<Rightarrow> a\<lparr>ap_script := is_start (in_now x) sc\<rparr>
                  | (Inl _, sc) \<Rightarrow> a\<lparr>ap_script := sc\<rparr>)
               else if req = kInjectOff then a\<lparr>ap_script := is_stop (ap_script a), ap_inj_mask := 0, ap_inj_value := 0\<rparr>
               else a);
          a = (if is_running (ap_script a) then
                 (let (sc, m, v) = is_service (in_now x) (in_live x kParamInjectSpacingMs) (ap_script a) (ap_inj_mask a) (ap_inj_value a)
                  in a\<lparr>ap_script := sc, ap_inj_mask := m, ap_inj_value := v\<rparr>)
               else a)
      in (a, w\<lparr>sh_inject_req := (if req \<noteq> 0 then 0 else req),
             sh_inject := push_bit 8 (ucast (ap_inj_mask a)) OR ucast (ap_inj_value a),
             sh_inject_running := is_running (ap_script a), sh_inject_step := word_of_nat (is_next (ap_script a))\<rparr>))"

definition note_starts :: "u32 list \<Rightarrow> u32 \<Rightarrow> App \<Rightarrow> App" where
  "note_starts starts now_ms a =
     fold (\<lambda>k a. if starts ! k \<noteq> ap_starts_seen a ! k
         then a\<lparr>ap_starts_seen := (ap_starts_seen a)[k := starts ! k], ap_tracker := gt_note_pulse (word_of_nat k) now_ms (ap_tracker a)\<rparr>
         else a) [0..<4] a"

definition gate_params :: "(u16 \<Rightarrow> u32) \<Rightarrow> GateParams" where
  "gate_params live = \<lparr>gp_hold_confirm_ms = live kParamHoldConfirmMs, gp_cause_window_ms = live kParamCauseWindowMs\<rparr>"

definition detect_params :: "(u16 \<Rightarrow> u32) \<Rightarrow> DetectParams" where
  "detect_params live = \<lparr>dp_window_ms = live kParamDetectWindowMs, dp_idle_ms = live kParamDetectIdleMs,
     dp_alert_repeat_s = live kParamAlertRepeatS\<rparr>"

definition charge_params :: "(u16 \<Rightarrow> u32) \<Rightarrow> ChargeParams" where
  "charge_params live = \<lparr>cp_confirm_ms = live kParamChargeConfirmS * 1000, cp_temp_c = ucast (live kParamChargeTempC),
     cp_band_ma = live kParamChargeBandMa, cp_rise_mv = live kParamChargeRiseMv, cp_bms_poll_s = live kParamBmsPollS\<rparr>"

definition gate_context :: "GateTracker \<Rightarrow> u8 \<Rightarrow> u32 \<Rightarrow> GateContext" where
  "gate_context t inputs uptime = \<lparr>gc_held = gt_held t, gc_hold_source = gt_source t, gc_gate_state = gt_state t,
     gc_input_bits = inputs, gc_uptime_s = uptime\<rparr>"

definition change_push :: "u8 \<Rightarrow> PushList" where
  "change_push changed =
     (if changed = 0 then []
      else push_to [] (status_push (if changed AND kChangedHold \<noteq> 0 then SR_HoldStateChange else SR_GateStateChange)))"

definition gate_snapshot :: "GateTracker \<Rightarrow> Detector \<Rightarrow> u8 \<Rightarrow> u32 \<Rightarrow> GateSnapshot" where
  "gate_snapshot t d inputs now_ms =
     \<lparr>gs_gate_state = GateState_u8 (gt_state t), gs_hold = gt_hold_byte t,
      gs_movement_cause = MovementCause_u8 (gt_cause t), gs_last_direction = Direction_u8 (dt_last_direction d),
      gs_detect_flags = dt_flags inputs d, gs_last_traversal_age_s = last_traversal_age_s now_ms d\<rparr>"

text \<open>The three lists of a pass and the task's state after it, before anything is queued.\<close>

record PassLists =
  pa_out :: PushList
  pa_alarm_out :: PushList
  pa_charge_out :: PushList

definition app_decide :: "AppInputs \<Rightarrow> App \<Rightarrow> EventIds \<Rightarrow> PassLists \<times> u16 \<times> App \<times> EventIds" where
  "app_decide x a ids =
     (let now = in_now x; inputs = io_inputs (in_io x); live = in_live x;
          a = note_starts (io_relay_starts (in_io x)) now a;
          (changed, tr) = gt_update inputs now (gate_params live) (ap_tracker a);
          gc = gate_context tr inputs (in_uptime_s x);
          (d, ids, out) = dt_update inputs now gc (detect_params live) (ap_detector a, ids, change_push changed);
          (_, al, ids, alarm_out) = aw_update inputs gc (ap_alarms a) (ids, []);
          cp = charge_params live;
          (drawn, ah) = ah_update (in_mppt x) (in_bms x) now (cp_bms_poll_s cp) (ap_ah_drawn a);
          (_, ch, ids, charge_out) = ci_update (in_mppt x) (in_bms x) now cp gc (ap_charge a) (ids, []);
          (_, me, ids, charge_out) = mw_update (in_mppt x) gc (ap_mppt_errors a) (ids, charge_out)
      in (\<lparr>pa_out = out, pa_alarm_out = alarm_out, pa_charge_out = charge_out\<rparr>, drawn,
          a\<lparr>ap_tracker := tr, ap_detector := d, ap_alarms := al, ap_ah_drawn := ah, ap_charge := ch, ap_mppt_errors := me\<rparr>, ids))"

definition app_gate_pass :: "AppInputs \<Rightarrow> App \<Rightarrow> AppShared \<Rightarrow> App \<times> AppShared" where
  "app_gate_pass x a w =
     (let (pl, drawn, a, ids) = app_decide x a (sh_event_ids w);
          w = w\<lparr>sh_event_ids := ids\<rparr>;
          w = fold queue_push (pa_alarm_out pl) w;
          w = w\<lparr>sh_ah_drawn_dah := drawn, sh_charge_inhibited := ci_inhibited (ap_charge a),
                sh_charge_source := ci_source (ap_charge a), sh_charge_path := ci_path (ap_charge a)\<rparr>;
          w = fold queue_push (pa_charge_out pl) w;
          w = w\<lparr>sh_gate := gate_snapshot (ap_tracker a) (ap_detector a) (io_inputs (in_io x)) (in_now x)\<rparr>;
          w = fold queue_push (pa_out pl) w
      in (a, if (pa_out pl \<noteq> [] \<or> pa_charge_out pl \<noteq> [] \<or> pa_alarm_out pl \<noteq> []) \<and> in_lora_started x
             then w\<lparr>sh_lora_notified := sh_lora_notified w + 1\<rparr> else w))"

definition app_pass :: "AppInputs \<Rightarrow> App \<Rightarrow> AppShared \<Rightarrow> App \<times> AppShared" where
  "app_pass x a w =
     (let (stalled, iw) = pw_stalled (in_io_passes x) (in_now x) (kIoStallPolls * in_live x kParamInputPollMs) (ap_io_watch a);
          a = a\<lparr>ap_io_watch := iw\<rparr>;
          w = (if in_watched x \<and> \<not> stalled then w\<lparr>sh_wdt_feeds := sh_wdt_feeds w + 1\<rparr> else w);
          (a, w) = service_injection x a w
      in if \<not> io_inputs_read (in_io x) then (a, w) else app_gate_pass x a w)"

section \<open>No push is lost inside the task\<close>

text \<open>What each part asks for in a pass, with no list and no bound on one.\<close>

definition watch_push :: "EventType \<Rightarrow> GateContext \<Rightarrow> u16 \<Rightarrow> EventIds \<Rightarrow> Push" where
  "watch_push t g detail ids = event_push ((dt_event t g)\<lparr>ev_detail := detail, ev_event_id := fst (EventIds_next ids)\<rparr>)"

fun alarm_asks :: "u8 \<Rightarrow> u8 \<Rightarrow> GateContext \<Rightarrow> (u8 \<times> StatusReason \<times> EventType) list \<Rightarrow> EventIds \<Rightarrow> Push list" where
  "alarm_asks now changed g [] ids = []"
| "alarm_asks now changed g ((b, reason, event) # rows) ids =
     (if changed AND b = 0 then alarm_asks now changed g rows ids
      else status_push reason #
        (if now AND b \<noteq> 0 then watch_push event g 0 ids # alarm_asks now changed g rows (snd (EventIds_next ids))
         else alarm_asks now changed g rows ids))"

definition aw_asks :: "u8 \<Rightarrow> GateContext \<Rightarrow> AlarmWatch \<Rightarrow> EventIds \<Rightarrow> Push list" where
  "aw_asks inputs g w ids =
     (let now = inputs AND (kInFire OR kInAlarm) in
      if aw_seen w then alarm_asks now (now XOR aw_last w) g kAlarms ids else [])"

definition ci_asks :: "MpptSnapshot \<Rightarrow> BmsSnapshot \<Rightarrow> u32 \<Rightarrow> ChargeParams \<Rightarrow> GateContext \<Rightarrow> ChargeInhibit \<Rightarrow> EventIds \<Rightarrow> Push list" where
  "ci_asks m b now p g c ids =
     (let c = ved_update m now p c; (next, path) = ci_decide m b now p c in
      if next = ci_inhibited c then []
      else status_push SR_ChargeInhibited # (if next then [watch_push ET_ChargeInhibited g (ucast (wire_path path)) ids] else []))"

definition mw_asks :: "MpptSnapshot \<Rightarrow> GateContext \<Rightarrow> MpptErrorWatch \<Rightarrow> EventIds \<Rightarrow> Push list" where
  "mw_asks m g e ids =
     (if ms_mppt_flags m AND kMpptFlagStale \<noteq> 0 \<or> ms_mppt_err m = kCodeNotAvailable \<or> ms_mppt_err m = e then []
      else [status_push SR_MpptError, watch_push ET_MpptError g (ucast (ms_mppt_err m)) ids])"

definition change_asks :: "u8 \<Rightarrow> Push list" where
  "change_asks changed =
     (if changed = 0 then []
      else [status_push (if changed AND kChangedHold \<noteq> 0 then SR_HoldStateChange else SR_GateStateChange)])"

text \<open>Each list holds all that is asked of it.\<close>

lemmas watch_defs = watch_status_def watch_event_def watch_push_def push_to_room EventIds_next_def

lemma aw_update_asks: "snd (snd (snd (aw_update inputs g w (ids, [])))) = aw_asks inputs g w ids"
  by (auto simp: aw_asks_def aw_update_def kAlarms_def aw_alarm_def watch_defs Let_def)

lemma ci_update_asks: "snd (snd (snd (ci_update m b now p g c (ids, [])))) = ci_asks m b now p g c ids"
  by (auto simp: ci_asks_def ci_update_def watch_defs Let_def split: prod.splits)

lemma mw_update_asks: "snd (snd (snd (mw_update m g e (ids, [])))) = mw_asks m g e ids"
  by (auto simp: mw_asks_def mw_update_def watch_defs Let_def)

lemma change_push_asks: "change_push changed = change_asks changed"
  by (simp add: change_push_def change_asks_def push_to_room)

lemma asks_length:
  "length (aw_asks inputs g w ids) \<le> 4" "length (ci_asks m b now p g c ids) \<le> 2" "length (mw_asks m g e ids) \<le> 2"
  "length (change_asks changed) \<le> 1"
  by (simp_all add: aw_asks_def kAlarms_def ci_asks_def mw_asks_def change_asks_def Let_def split_beta)

lemma mw_update_appends:
  assumes "length out \<le> 2"
  shows "mw_update m g e (ids, out) =
    (case mw_update m g e (ids, []) of (r, e', ids', ps) \<Rightarrow> (r, e', ids', out @ ps))"
  using assms
  by (auto simp: mw_update_def watch_status_def watch_event_def push_to_room EventIds_next_def Let_def)

text \<open>Everything a pass asks for: the alarms, then charge and charger, then gate and detection.\<close>

definition app_asks :: "AppInputs \<Rightarrow> App \<Rightarrow> EventIds \<Rightarrow> Push list \<times> Push list \<times> Push list" where
  "app_asks x a ids =
     (let now = in_now x; inputs = io_inputs (in_io x); live = in_live x;
          a = note_starts (io_relay_starts (in_io x)) now a;
          (changed, tr) = gt_update inputs now (gate_params live) (ap_tracker a);
          gc = gate_context tr inputs (in_uptime_s x);
          ids1 = fst (snd (dt_update inputs now gc (detect_params live) (ap_detector a, ids, [])));
          ids2 = fst (snd (snd (aw_update inputs gc (ap_alarms a) (ids1, []))));
          ids3 = fst (snd (snd (ci_update (in_mppt x) (in_bms x) now (charge_params live) gc (ap_charge a) (ids2, []))))
      in (aw_asks inputs gc (ap_alarms a) ids1,
          ci_asks (in_mppt x) (in_bms x) now (charge_params live) gc (ap_charge a) ids2 @
            mw_asks (in_mppt x) gc (ap_mppt_errors a) ids3,
          change_asks changed @ dt_asks inputs now gc (detect_params live) (ap_detector a) ids))"

lemma app_decide_asks:
  assumes "app_decide x a ids = (pl, drawn, a', ids')"
  shows "(pa_alarm_out pl, pa_charge_out pl, pa_out pl) = app_asks x a ids"
proof -
  let ?now = "in_now x" and ?in = "io_inputs (in_io x)" and ?live = "in_live x"
  define a1 where "a1 = note_starts (io_relay_starts (in_io x)) ?now a"
  obtain changed tr where tr: "gt_update ?in ?now (gate_params ?live) (ap_tracker a1) = (changed, tr)" by fastforce
  define gc where "gc = gate_context tr ?in (in_uptime_s x)"
  obtain d ids1 det where dt: "dt_update ?in ?now gc (detect_params ?live) (ap_detector a1, ids, []) = (d, ids1, det)"
    by (metis prod_cases3)
  obtain b1 al ids2 alout where aw: "aw_update ?in gc (ap_alarms a1) (ids1, []) = (b1, al, ids2, alout)"
    by (metis prod_cases4)
  obtain b2 ch ids3 chout where ci: "ci_update (in_mppt x) (in_bms x) ?now (charge_params ?live) gc (ap_charge a1) (ids2, []) = (b2, ch, ids3, chout)"
    by (metis prod_cases4)
  obtain b3 me ids4 meout where mw: "mw_update (in_mppt x) gc (ap_mppt_errors a1) (ids3, []) = (b3, me, ids4, meout)"
    by (metis prod_cases4)
  have dt': "dt_update ?in ?now gc (detect_params ?live) (ap_detector a1, ids, change_push changed) = (d, ids1, change_push changed @ det)"
    using dt_update_appends [of "change_push changed"] dt asks_length(4) [of changed] by (simp add: change_push_asks)
  note lists = dt_update_asks [of ?in ?now gc "detect_params ?live" "ap_detector a1" ids, unfolded dt snd_conv]
    aw_update_asks [of ?in gc "ap_alarms a1" ids1, unfolded aw snd_conv]
    ci_update_asks [of "in_mppt x" "in_bms x" ?now "charge_params ?live" gc "ap_charge a1" ids2, unfolded ci snd_conv]
    mw_update_asks [of "in_mppt x" gc "ap_mppt_errors a1" ids3, unfolded mw snd_conv]
  have "length chout \<le> 2" using lists(3) asks_length(2) by metis
  note mw' = mw_update_appends [OF this, of "in_mppt x" gc "ap_mppt_errors a1" ids3, unfolded mw prod.case]
  have asks: "app_asks x a ids = (alout, chout @ meout, change_push changed @ det)"
    using tr dt aw ci mw lists
    by (simp add: app_asks_def Let_def change_push_asks flip: a1_def gc_def)
  have "pl = \<lparr>pa_out = change_push changed @ det, pa_alarm_out = alout, pa_charge_out = chout @ meout\<rparr>"
    using assms tr dt' aw ci mw'
    by (simp add: app_decide_def Let_def split_beta flip: a1_def gc_def)
  with asks show ?thesis by simp
qed

lemma alarms_asked_length: "app_asks x a ids = (alarms, charge, gate) \<Longrightarrow> length alarms \<le> 4"
  using asks_length(1) by (auto simp: app_asks_def Let_def split_beta)

lemma queue_pushes:
  "length (sh_push_q w) \<le> kPushQueue \<Longrightarrow>
   sh_push_q (fold queue_push ps w) = sh_push_q w @ take (kPushQueue - length (sh_push_q w)) ps \<and>
   sh_push_dropped (fold queue_push ps w) = sh_push_dropped w + word_of_nat (length ps - (kPushQueue - length (sh_push_q w)))"
proof (induction ps arbitrary: w)
  case (Cons p ps)
  show ?case
  proof (cases "length (sh_push_q w) = kPushQueue")
    case True
    then show ?thesis using Cons.IH [of "queue_push p w"] by (simp add: queue_push_def)
  next
    case False
    with Cons.prems have "length (sh_push_q w) < kPushQueue" by simp
    then show ?thesis using Cons.IH [of "queue_push p w"] by (simp add: queue_push_def take_Cons' Suc_diff_Suc)
  qed
qed simp

text \<open>Queueing a second list, after changes that leave the queue alone, is queueing both at once.\<close>

lemma queue_twice:
  assumes "length (sh_push_q w) \<le> kPushQueue" "w1 = fold queue_push ps w"
    "sh_push_q w2 = sh_push_q w1" "sh_push_dropped w2 = sh_push_dropped w1"
  shows "length (sh_push_q w2) \<le> kPushQueue" "sh_push_q (fold queue_push qs w2) = sh_push_q (fold queue_push (ps @ qs) w)"
    "sh_push_dropped (fold queue_push qs w2) = sh_push_dropped (fold queue_push (ps @ qs) w)"
proof -
  note q = queue_pushes [OF assms(1), of ps, folded assms(2)]
  show l: "length (sh_push_q w2) \<le> kPushQueue" using q assms(1,3) by auto
  have len: "kPushQueue - length (sh_push_q w2) = kPushQueue - length (sh_push_q w) - length ps"
    using q assms(3) by (simp add: min_def)
  note r = queue_pushes [OF l, of qs, unfolded len]
  note both = queue_pushes [OF assms(1), of "ps @ qs"]
  show "sh_push_q (fold queue_push qs w2) = sh_push_q (fold queue_push (ps @ qs) w)"
    by (simp only: conjunct1 [OF r] conjunct1 [OF both] assms(3) conjunct1 [OF q] take_append append_assoc)
  have sum: "length (ps @ qs) - (kPushQueue - length (sh_push_q w)) =
    (length ps - (kPushQueue - length (sh_push_q w))) + (length qs - (kPushQueue - length (sh_push_q w) - length ps))"
    by simp
  show "sh_push_dropped (fold queue_push qs w2) = sh_push_dropped (fold queue_push (ps @ qs) w)"
    by (simp only: conjunct2 [OF r] conjunct2 [OF both] assms(4) conjunct2 [OF q] sum of_nat_add add.assoc)
qed

lemma app_gate_pass_queue:
  assumes "app_gate_pass x a w = (a', w')" "app_asks x a (sh_event_ids w) = (alarms, charge, gate)"
    "length (sh_push_q w) \<le> kPushQueue"
  shows "sh_push_q w' = sh_push_q (fold queue_push (alarms @ charge @ gate) w) \<and>
    sh_push_dropped w' = sh_push_dropped (fold queue_push (alarms @ charge @ gate) w)"
proof -
  obtain pl drawn a1 ids where dec: "app_decide x a (sh_event_ids w) = (pl, drawn, a1, ids)"
    by (metis prod_cases4)
  have lists: "pa_alarm_out pl = alarms" "pa_charge_out pl = charge" "pa_out pl = gate"
    using app_decide_asks [OF dec] assms(2) by simp_all
  let ?w0 = "w\<lparr>sh_event_ids := ids\<rparr>"
  have w0: "sh_push_q (fold queue_push ps ?w0) = sh_push_q (fold queue_push ps w)"
    "sh_push_dropped (fold queue_push ps ?w0) = sh_push_dropped (fold queue_push ps w)" for ps
    using queue_pushes [of ?w0 ps] queue_pushes [of w ps] assms(3) by simp_all
  let ?w1 = "fold queue_push alarms ?w0"
  let ?w2 = "?w1\<lparr>sh_ah_drawn_dah := drawn, sh_charge_inhibited := ci_inhibited (ap_charge a1),
      sh_charge_source := ci_source (ap_charge a1), sh_charge_path := ci_path (ap_charge a1)\<rparr>"
  have l0: "length (sh_push_q ?w0) \<le> kPushQueue" using assms(3) by simp
  have l1: "length (sh_push_q ?w2) \<le> kPushQueue" using queue_twice(1) [OF l0 refl, of ?w2 alarms] by simp
  let ?w3 = "(fold queue_push charge ?w2)\<lparr>sh_gate := gate_snapshot (ap_tracker a1) (ap_detector a1) (io_inputs (in_io x)) (in_now x)\<rparr>"
  have t2: "sh_push_q (fold queue_push gate ?w3) = sh_push_q (fold queue_push (alarms @ charge @ gate) ?w0) \<and>
    sh_push_dropped (fold queue_push gate ?w3) = sh_push_dropped (fold queue_push (alarms @ charge @ gate) ?w0)"
    using queue_twice(2,3) [OF l1 refl, of ?w3 charge gate] queue_twice(2,3) [OF l0 refl, of ?w2 alarms "charge @ gate"]
    by (simp del: fold_append)
  have "sh_push_q w' = sh_push_q (fold queue_push gate ?w3) \<and> sh_push_dropped w' = sh_push_dropped (fold queue_push gate ?w3)"
    using assms(1) by (auto simp: app_gate_pass_def dec lists Let_def)
  with t2 w0 show ?thesis by (simp del: fold_append)
qed

text \<open>Noting the starts reads and writes two fields.\<close>

definition starts_step :: "u32 list \<Rightarrow> u32 \<Rightarrow> nat \<Rightarrow> u32 list \<times> GateTracker \<Rightarrow> u32 list \<times> GateTracker" where
  "starts_step starts now_ms k st =
     (if starts ! k \<noteq> fst st ! k then ((fst st)[k := starts ! k], gt_note_pulse (word_of_nat k) now_ms (snd st)) else st)"

lemma note_starts_eq:
  "note_starts starts now_ms a =
     (let st = fold (starts_step starts now_ms) [0..<4] (ap_starts_seen a, ap_tracker a)
      in a\<lparr>ap_starts_seen := fst st, ap_tracker := snd st\<rparr>)"
proof -
  have "fold (\<lambda>k a. if starts ! k \<noteq> ap_starts_seen a ! k
         then a\<lparr>ap_starts_seen := (ap_starts_seen a)[k := starts ! k], ap_tracker := gt_note_pulse (word_of_nat k) now_ms (ap_tracker a)\<rparr>
         else a) ks a = (let st = fold (starts_step starts now_ms) ks (ap_starts_seen a, ap_tracker a)
      in a\<lparr>ap_starts_seen := fst st, ap_tracker := snd st\<rparr>)" for ks
    by (induction ks arbitrary: a) (simp_all add: starts_step_def Let_def)
  then show ?thesis unfolding note_starts_def .
qed

lemma app_asks_cong:
  assumes "ap_starts_seen a = ap_starts_seen b" "ap_tracker a = ap_tracker b" "ap_detector a = ap_detector b"
    "ap_alarms a = ap_alarms b" "ap_charge a = ap_charge b" "ap_mppt_errors a = ap_mppt_errors b"
  shows "app_asks x a ids = app_asks x b ids"
  using assms by (simp add: app_asks_def note_starts_eq Let_def)

lemma injection_app:
  "\<exists>sc m v. fst (service_injection x a w) = a\<lparr>ap_script := sc, ap_inj_mask := m, ap_inj_value := v\<rparr>"
proof -
  define a1 where "a1 = (if sh_inject_req w = kInjectStart then
      (case is_parse (in_inject_text x) (ap_script a) of
         (Inr _, sc) \<Rightarrow> a\<lparr>ap_script := is_start (in_now x) sc\<rparr>
       | (Inl _, sc) \<Rightarrow> a\<lparr>ap_script := sc\<rparr>)
    else if sh_inject_req w = kInjectOff then a\<lparr>ap_script := is_stop (ap_script a), ap_inj_mask := 0, ap_inj_value := 0\<rparr>
    else a)"
  have self: "\<exists>sc m v. a = a\<lparr>ap_script := sc, ap_inj_mask := m, ap_inj_value := v\<rparr>"
    by (intro exI [of _ "ap_script a"] exI [of _ "ap_inj_mask a"] exI [of _ "ap_inj_value a"]) simp
  have one: "\<exists>sc m v. a\<lparr>ap_script := sc1\<rparr> = a\<lparr>ap_script := sc, ap_inj_mask := m, ap_inj_value := v\<rparr>" for sc1
    by (intro exI [of _ sc1] exI [of _ "ap_inj_mask a"] exI [of _ "ap_inj_value a"]) simp
  obtain r sc1 where pr: "is_parse (in_inject_text x) (ap_script a) = (r, sc1)" by fastforce
  have "\<exists>sc m v. a1 = a\<lparr>ap_script := sc, ap_inj_mask := m, ap_inj_value := v\<rparr>"
  proof (cases "sh_inject_req w = kInjectStart")
    case True
    then have "\<exists>sc. a1 = a\<lparr>ap_script := sc\<rparr>" using pr by (cases r) (auto simp: a1_def)
    with one show ?thesis by metis
  next
    case False
    with self show ?thesis by (cases "sh_inject_req w = kInjectOff") (auto simp: a1_def)
  qed
  moreover have "fst (service_injection x a w) = (if is_running (ap_script a1) then
      (let (sc, m, v) = is_service (in_now x) (in_live x kParamInjectSpacingMs) (ap_script a1) (ap_inj_mask a1) (ap_inj_value a1)
       in a1\<lparr>ap_script := sc, ap_inj_mask := m, ap_inj_value := v\<rparr>) else a1)"
    unfolding service_injection_def Let_def a1_def [symmetric] by simp
  ultimately show ?thesis
    by (cases "is_running (ap_script a1)") (auto simp: split_beta, blast)
qed

lemma injection_keeps:
  assumes "service_injection x a w = (a', w')"
  shows "app_asks x a' ids = app_asks x a ids" "sh_push_q w' = sh_push_q w" "sh_push_dropped w' = sh_push_dropped w"
    "sh_event_ids w' = sh_event_ids w"
proof -
  obtain sc m v where "a' = a\<lparr>ap_script := sc, ap_inj_mask := m, ap_inj_value := v\<rparr>"
    using injection_app [of x a w] assms by auto
  then show "app_asks x a' ids = app_asks x a ids"
    by (intro app_asks_cong) simp_all
  have "w' = snd (service_injection x a w)" using assms by simp
  then show "sh_push_q w' = sh_push_q w" "sh_push_dropped w' = sh_push_dropped w" "sh_event_ids w' = sh_event_ids w"
    by (simp_all add: service_injection_def Let_def)
qed

text \<open>
  C40: a pass of app\_task loses no push of its own. The tracker, the detector and the watches
  share three lists of four, each of which drops in silence what it has no room for; yet everything
  they ask for in a pass, counted with no bound, is queued, the alarms first, then charge and
  charger, then gate and detection. Only a full queue drops, the
  last ones first, each counted; with half of the queue free no alarm is dropped.
\<close>

theorem app_pass_loses_no_push:
  assumes "app_pass x a w = (a', w')" "io_inputs_read (in_io x)" "length (sh_push_q w) \<le> kPushQueue"
    and "app_asks x a (sh_event_ids w) = (alarms, charge, gate)"
    and "asked = alarms @ charge @ gate" "room = kPushQueue - length (sh_push_q w)"
  shows "sh_push_q w' = sh_push_q w @ take room asked \<and>
    sh_push_dropped w' = sh_push_dropped w + word_of_nat (length asked - room) \<and>
    (room \<ge> 4 \<longrightarrow> set alarms \<subseteq> set (sh_push_q w'))"
proof -
  obtain st iw where pw: "pw_stalled (in_io_passes x) (in_now x) (kIoStallPolls * in_live x kParamInputPollMs) (ap_io_watch a) = (st, iw)"
    by fastforce
  define w0 where "w0 = (if in_watched x \<and> \<not> st then w\<lparr>sh_wdt_feeds := sh_wdt_feeds w + 1\<rparr> else w)"
  obtain a1 w1 where si: "service_injection x (a\<lparr>ap_io_watch := iw\<rparr>) w0 = (a1, w1)" by fastforce
  have w0: "sh_push_q w0 = sh_push_q w" "sh_push_dropped w0 = sh_push_dropped w" "sh_event_ids w0 = sh_event_ids w"
    by (simp_all add: w0_def)
  note k = injection_keeps [OF si, unfolded w0]
  have gp: "app_gate_pass x a1 w1 = (a', w')"
    using assms(1,2) by (simp add: app_pass_def pw si Let_def flip: w0_def)
  have asks: "app_asks x a1 (sh_event_ids w1) = (alarms, charge, gate)"
    using k(1,4) assms(4) app_asks_cong [of "a\<lparr>ap_io_watch := iw\<rparr>" a x] by simp
  have l: "length (sh_push_q w1) \<le> kPushQueue" using assms(3) k(2) by simp
  note q = app_gate_pass_queue [OF gp asks l] queue_pushes [OF l, of "alarms @ charge @ gate"]
  have "length alarms \<le> 4" by (rule alarms_asked_length [OF assms(4)])
  then have "set alarms \<subseteq> set (sh_push_q w')" if "room \<ge> 4"
    using q k(2) that assms(6) by (auto simp: take_append)
  then show ?thesis using q k(2,3) assms(5,6) by auto
qed

text \<open>A pass in which FIRE rises, with nothing queued before.\<close>

definition fire_inputs :: AppInputs where
  "fire_inputs = \<lparr>in_now = 1000, in_live = (\<lambda>_. 100), in_io_passes = 1, in_watched = True,
     in_io = \<lparr>io_inputs = 0x10, io_inputs_read = True, io_relay_starts = [0, 0, 0, 0]\<rparr>,
     in_mppt = MpptSnapshot_init, in_bms = BmsSnapshot_init, in_uptime_s = 1, in_inject_text = [], in_lora_started = True\<rparr>"

definition quiet_task :: App where
  "quiet_task = App_new\<lparr>ap_alarms := \<lparr>aw_seen = True, aw_last = 0\<rparr>\<rparr>"

definition quiet_shared :: AppShared where
  "quiet_shared = \<lparr>sh_event_ids = 0, sh_push_q = [], sh_push_dropped = 0, sh_gate = GateSnapshot_init,
     sh_ah_drawn_dah = 0, sh_charge_inhibited = False, sh_charge_source = CS_None, sh_charge_path = CS_None,
     sh_inject = 0, sh_inject_req = 0, sh_inject_running = False, sh_inject_step = 0, sh_wdt_feeds = 0,
     sh_lora_notified = 0\<rparr>"

lemma fire_asked:
  assumes "app_asks fire_inputs quiet_task ids = (alarms, charge, gate)"
  shows "status_push SR_Fire \<in> set alarms"
proof -
  have "status_push SR_Fire \<in> set (aw_asks 0x10 g \<lparr>aw_seen = True, aw_last = 0\<rparr> i)" for g i
    by (simp add: aw_asks_def kAlarms_def kInFire_def kInAlarm_def Let_def)
  then show ?thesis
    using assms by (auto simp: app_asks_def note_starts_eq fire_inputs_def quiet_task_def Let_def split_beta)
qed

theorem app_pass_loses_no_push_witness:
  "status_push SR_Fire \<in> set (sh_push_q (snd (app_pass fire_inputs quiet_task quiet_shared)))"
proof -
  obtain a' w' where p: "app_pass fire_inputs quiet_task quiet_shared = (a', w')" by fastforce
  obtain alarms charge gate where q: "app_asks fire_inputs quiet_task (sh_event_ids quiet_shared) = (alarms, charge, gate)"
    by (metis prod_cases3)
  have "io_inputs_read (in_io fire_inputs)" "length (sh_push_q quiet_shared) \<le> kPushQueue"
    "kPushQueue - length (sh_push_q quiet_shared) = 8"
    by (simp_all add: fire_inputs_def quiet_shared_def kPushQueue_def)
  with app_pass_loses_no_push [OF p _ _ q refl refl] fire_asked [OF q] p show ?thesis by auto
qed

end
