(* ===== verification/SdConfig.thy ===== *)
theory SdConfig
  imports ConfigCorrect
begin

text \<open>
  GateLink's configuration on the microSD card (\<open>firmware/gatelink/src\<close>: \<open>config_store.h\<close>,
  \<open>config_store.cpp\<close>): the file's format and its reader, and \<open>SdPersist\<close>, the \<open>Persist\<close> of
  \<open>GateLinkConfig\<close>'s store. The card is \<open>ConfigFile\<close>, a parameter; a file's text is a list of
  characters.
\<close>

section \<open>The file's text\<close>

fun dec :: "nat \<Rightarrow> string" where
  "dec n = (if n < 10 then [char_of (48 + n)] else dec (n div 10) @ [char_of (48 + n mod 10)])"

declare dec.simps [simp del]

text \<open>\<open>printf\<close>'s \<open>%ld\<close>.\<close>

definition show_long :: "int \<Rightarrow> string" where
  "show_long v = (if v < 0 then CHR ''-'' # dec (nat (- v)) else dec (nat v))"

text \<open>The lambda \<open>advance\<close>: \<open>None\<close> once a piece does not fit with its terminator.\<close>

definition advance :: "nat \<Rightarrow> string \<Rightarrow> string option \<Rightarrow> string option" where
  "advance cap piece acc =
     (case acc of None \<Rightarrow> None | Some t \<Rightarrow> if length piece \<ge> cap - length t then None else Some (t @ piece))"

abbreviation newline :: char where "newline \<equiv> CHR 0x0A"
abbreviation quote :: char where "quote \<equiv> CHR 0x22"
abbreviation backslash :: char where "backslash \<equiv> CHR 0x5C"

definition entry_text :: "string \<Rightarrow> Value \<Rightarrow> bool \<Rightarrow> string" where
  "entry_text name v comma =
     [CHR '' '', CHR '' '', quote] @ name @ [quote, CHR '':'', CHR '' ''] @ show_long v @
     (if comma then [CHR '','', newline] else [newline])"

fun format_entries :: "nat \<Rightarrow> (ParamDef \<times> Value) list \<Rightarrow> string option \<Rightarrow> string option" where
  "format_entries cap [] acc = acc"
| "format_entries cap ((d, v) # rest) acc =
     format_entries cap rest (advance cap (entry_text (pd_name d) v (rest \<noteq> [])) acc)"

text \<open>\<open>None\<close> is the result 0.\<close>

definition format_config :: "(ParamDef \<times> Value) list \<Rightarrow> nat \<Rightarrow> string option" where
  "format_config rows cap =
     (if cap = 0 then None
      else if rows = [] then advance cap [CHR ''{'', CHR ''}'', newline] (Some [])
      else advance cap [CHR ''}'', newline]
             (format_entries cap rows (advance cap [CHR ''{'', newline] (Some []))))"

section \<open>The reader\<close>

text \<open>A \<open>Reader\<close> is the text not yet read; an operation that returns false gives \<open>None\<close>, or keeps
  the text where the caller goes on.\<close>

definition json_ws :: "char \<Rightarrow> bool" where
  "json_ws c \<longleftrightarrow> c = CHR '' '' \<or> c = CHR 0x09 \<or> c = CHR 0x0D \<or> c = CHR 0x0A"

definition skip_ws :: "string \<Rightarrow> string" where
  "skip_ws s = dropWhile json_ws s"

definition take_char :: "char \<Rightarrow> string \<Rightarrow> string option" where
  "take_char c s = (case skip_ws s of x # r \<Rightarrow> if x = c then Some r else None | [] \<Rightarrow> None)"

definition at_end :: "string \<Rightarrow> bool" where
  "at_end s \<longleftrightarrow> skip_ws s = []"

fun key_chars :: "string \<Rightarrow> nat \<Rightarrow> nat \<Rightarrow> (string \<times> string) option" where
  "key_chars [] cap n = None"
| "key_chars (c # s) cap n =
     (if c = quote then Some ([], s)
      else if c = backslash \<or> n + 1 \<ge> cap then None
      else map_option (\<lambda>(k, r). (c # k, r)) (key_chars s cap (n + 1)))"

definition read_key :: "nat \<Rightarrow> string \<Rightarrow> (string \<times> string) option" where
  "read_key cap s = (case take_char quote s of None \<Rightarrow> None | Some r \<Rightarrow> key_chars r cap 0)"

definition is_digit :: "char \<Rightarrow> bool" where
  "is_digit c \<longleftrightarrow> 48 \<le> (of_char c :: nat) \<and> of_char c \<le> (57 :: nat)"

fun int_digits :: "string \<Rightarrow> int \<Rightarrow> (int \<times> string) option" where
  "int_digits [] v = Some (v, [])"
| "int_digits (c # s) v =
     (if \<not> is_digit c then Some (v, c # s)
      else let v = v * 10 + (int (of_char c) - 48) in if v > 2147483648 then None else int_digits s v)"

definition read_integer :: "string \<Rightarrow> (Value \<times> string) option" where
  "read_integer s =
     (let s = skip_ws s; neg = (s \<noteq> [] \<and> hd s = CHR ''-''); s = (if neg then tl s else s) in
      if s = [] \<or> \<not> is_digit (hd s) then None
      else case int_digits s 0 of
          None \<Rightarrow> None
        | Some (v, r) \<Rightarrow>
            if r \<noteq> [] \<and> (hd r = CHR ''.'' \<or> hd r = CHR ''e'' \<or> hd r = CHR ''E'') then None
            else let v = (if neg then - v else v) in
              if v < -2147483648 \<or> v > 2147483647 then None else Some (v, r))"

text \<open>A key is compared as a C string, up to a NUL in it.\<close>

definition find_by_name :: "Table \<Rightarrow> string \<Rightarrow> ParamDef option" where
  "find_by_name t name = List.find (\<lambda>d. pd_name d = takeWhile (\<lambda>c. c \<noteq> CHR 0x00) name) (tb_rows t)"

record ParseResult =
  pr_entries :: "(ParamDef \<times> Value) list"
  pr_unknown :: nat

lemma take_char_shorter: "take_char c s = Some r \<Longrightarrow> length r < length s"
  using length_dropWhile_le [of json_ws s]
  by (auto simp: take_char_def skip_ws_def split: list.splits if_splits)

lemma key_chars_shorter: "key_chars s cap n = Some (k, r) \<Longrightarrow> length r < length s"
  by (induction s cap n arbitrary: k rule: key_chars.induct) (force split: if_splits)+

lemma read_key_shorter: "read_key cap s = Some (k, r) \<Longrightarrow> length r < length s"
  by (auto simp: read_key_def split: option.splits dest!: take_char_shorter key_chars_shorter)

lemma int_digits_shorter: "int_digits s v = Some (w, r) \<Longrightarrow> length r \<le> length s"
  by (induction s v rule: int_digits.induct) (auto simp: Let_def split: if_splits)

lemma read_integer_shorter: "read_integer s = Some (v, r) \<Longrightarrow> length r \<le> length s"
proof -
  assume a: "read_integer s = Some (v, r)"
  let ?t = "skip_ws s" let ?u = "if ?t \<noteq> [] \<and> hd ?t = CHR ''-'' then tl ?t else ?t"
  obtain w where "int_digits ?u 0 = Some (w, r)"
    using a by (auto simp: read_integer_def Let_def split: if_splits option.splits)
  then have "length r \<le> length ?u" by (rule int_digits_shorter)
  moreover have "length ?u \<le> length ?t" by auto
  moreover have "length ?t \<le> length s" by (simp add: skip_ws_def length_dropWhile_le)
  ultimately show ?thesis by simp
qed

text \<open>One \<open>name: value\<close> of the object.\<close>

definition read_member :: "string \<Rightarrow> ((string \<times> Value) \<times> string) option" where
  "read_member s =
     (case read_key 48 s of
        None \<Rightarrow> None
      | Some (name, r) \<Rightarrow>
          (case take_char CHR '':'' r of
             None \<Rightarrow> None
           | Some r \<Rightarrow> map_option (\<lambda>(v, r). ((name, v), r)) (read_integer r)))"

lemma read_member_shorter: "read_member s = Some (m, r) \<Longrightarrow> length r < length s"
  by (force simp: read_member_def split: option.splits
      dest!: read_key_shorter take_char_shorter read_integer_shorter)

definition add_member :: "Table \<Rightarrow> nat \<Rightarrow> string \<times> Value \<Rightarrow> ParseResult \<Rightarrow> ParseResult" where
  "add_member t cap m r =
     (case find_by_name t (fst m) of
        None \<Rightarrow> r\<lparr>pr_unknown := pr_unknown r + 1\<rparr>
      | Some d \<Rightarrow> if length (pr_entries r) < cap then r\<lparr>pr_entries := pr_entries r @ [(d, snd m)]\<rparr> else r)"

text \<open>The loop of \<open>parse_config\<close>; \<open>None\<close> is a result that is not \<open>ok\<close>.\<close>

function parse_members :: "Table \<Rightarrow> nat \<Rightarrow> string \<Rightarrow> ParseResult \<Rightarrow> ParseResult option" where
  "parse_members t cap s r =
     (case read_member s of
        None \<Rightarrow> None
      | Some (m, s) \<Rightarrow>
          (let r = add_member t cap m r in
           case take_char CHR '','' s of
             Some s' \<Rightarrow> parse_members t cap s' r
           | None \<Rightarrow> (case take_char CHR ''}'' s of None \<Rightarrow> None | Some s' \<Rightarrow> if at_end s' then Some r else None)))"
  by pat_completeness auto

termination
  by (relation "measure (\<lambda>(_, _, s, _). length s)") (auto dest!: read_member_shorter take_char_shorter)

declare parse_members.simps [simp del]

definition parse_config :: "Table \<Rightarrow> string \<Rightarrow> nat \<Rightarrow> ParseResult option" where
  "parse_config t s cap =
     (case take_char CHR ''{'' s of
        None \<Rightarrow> None
      | Some s \<Rightarrow>
          (case take_char CHR ''}'' s of
             Some s' \<Rightarrow> if at_end s' then Some \<lparr>pr_entries = [], pr_unknown = 0\<rparr> else None
           | None \<Rightarrow> parse_members t cap s \<lparr>pr_entries = [], pr_unknown = 0\<rparr>))"

section \<open>The card and SdPersist\<close>

text \<open>\<open>read\<close> gives \<open>None\<close> for the result 0: no file, or one longer than the room for it.\<close>

record 'c ConfigFile =
  cf_mount :: "bool \<Rightarrow> 'c \<Rightarrow> bool \<times> 'c"
  cf_read :: "nat \<Rightarrow> 'c \<Rightarrow> string option \<times> 'c"
  cf_write :: "string \<Rightarrow> 'c \<Rightarrow> bool \<times> 'c"

definition kConfigFileCap :: nat where "kConfigFileCap = 3072"

record PersistStats =
  pst_writes :: u32
  pst_write_failures :: u32
  pst_mounts_failed :: u32
  pst_restored :: u32
  pst_refused :: u32
  pst_unknown :: u32
  pst_file_corrupt :: bool

record 'c SdPersist =
  sd_file :: "'c option"
  sd_mounted :: bool
  sd_dirty :: bool
  sd_stats :: PersistStats

definition SdPersist_new :: "'c option \<Rightarrow> 'c SdPersist" where
  "SdPersist_new file = \<lparr>sd_file = file, sd_mounted = False, sd_dirty = False,
     sd_stats = \<lparr>pst_writes = 0, pst_write_failures = 0, pst_mounts_failed = 0, pst_restored = 0,
       pst_refused = 0, pst_unknown = 0, pst_file_corrupt = False\<rparr>\<rparr>"

definition sd_usable :: "'c SdPersist \<Rightarrow> bool" where
  "sd_usable p \<longleftrightarrow> sd_mounted p \<and> \<not> sd_dirty p"

text \<open>The rows each write carries, read from the attached store.\<close>

definition override_rows :: "'p Store \<Rightarrow> (ParamDef \<times> Value) list" where
  "override_rows st = map (\<lambda>d. (d, effective (pd_id d) st))
     (filter (\<lambda>d. pd_access d \<noteq> Ac_Phy \<and> is_override (pd_id d) st) (tb_rows (so_table st)))"

definition write_all :: "'c ConfigFile \<Rightarrow> 'p Store \<Rightarrow> 'c SdPersist \<Rightarrow> bool \<times> 'c SdPersist" where
  "write_all cf st p =
     (case sd_file p of
        None \<Rightarrow> (False, p\<lparr>sd_dirty := True\<rparr>)
      | Some file \<Rightarrow>
          if \<not> sd_mounted p then (False, p\<lparr>sd_dirty := True\<rparr>)
          else
            let k = sd_stats p; k = k\<lparr>pst_writes := pst_writes k + 1\<rparr>;
                (ok, file) = (case format_config (override_rows st) kConfigFileCap of
                                None \<Rightarrow> (False, file) | Some s \<Rightarrow> cf_write cf s file);
                k = (if ok then k else k\<lparr>pst_write_failures := pst_write_failures k + 1\<rparr>)
            in (ok, p\<lparr>sd_file := Some file, sd_dirty := \<not> ok, sd_stats := k\<rparr>))"

text \<open>
  \<open>SdPersist\<close> as the store's \<open>Persist\<close>. \<open>save\<close> and \<open>clear_all\<close> ignore what they are told and write
  every override of the attached store, so the model of the interface depends on the store its
  calls are made from: \<open>apply\<close> has put the new override in before it calls \<open>save\<close>, and
  \<open>restore_defaults\<close> has reset the overrides before it calls \<open>clear_all\<close>.
\<close>

definition sd_persist :: "'c ConfigFile \<Rightarrow> 'c SdPersist Store \<Rightarrow> 'c SdPersist Persist" where
  "sd_persist cf st =
     \<lparr>ps_usable = sd_usable,
      ps_save = (\<lambda>i v p. write_all cf (snd (set_override i v st)) p),
      ps_clear_all = (\<lambda>p. write_all cf (defaults_kept st) p),
      ps_save_group = (\<lambda>g p. (False, p))\<rparr>"

fun restore_rows :: "'c SdPersist Persist \<Rightarrow> (ParamDef \<times> Value) list \<Rightarrow> u32 \<times> u32 \<Rightarrow> 'c SdPersist Store \<Rightarrow>
    (u32 \<times> u32) \<times> 'c SdPersist Store" where
  "restore_rows ops [] n st = (n, st)"
| "restore_rows ops ((d, v) # rest) (restored, refused) st =
     (let (ok, st) = restore ops (pd_id d) v st
      in restore_rows ops rest (if ok then (restored + 1, refused) else (restored, refused + 1)) st)"

text \<open>\<open>load\<close>, on the store that holds the persist object.\<close>

definition sd_load :: "'c ConfigFile \<Rightarrow> 'c SdPersist Store \<Rightarrow> 'c SdPersist Store" where
  "sd_load cf st =
     (case so_persist st of
        None \<Rightarrow> st
      | Some p \<Rightarrow>
          let k = (sd_stats p)\<lparr>pst_restored := 0, pst_refused := 0, pst_unknown := 0, pst_file_corrupt := False\<rparr>;
              (mounted, file) = (case sd_file p of None \<Rightarrow> (False, None)
                                 | Some file \<Rightarrow> (let (ok, f) = cf_mount cf False file in (ok, Some f)));
              p = p\<lparr>sd_file := file, sd_mounted := mounted, sd_dirty := False, sd_stats := k\<rparr>
          in if \<not> mounted
             then st\<lparr>so_persist := Some (p\<lparr>sd_stats := k\<lparr>pst_mounts_failed := pst_mounts_failed k + 1\<rparr>\<rparr>)\<rparr>
             else let (txt, f) = cf_read cf kConfigFileCap (the file); p = p\<lparr>sd_file := Some f\<rparr>
               in case txt of
                    None \<Rightarrow> st\<lparr>so_persist := Some p\<rparr>
                  | Some s \<Rightarrow>
                      (case parse_config (so_table st) s kMaxTableParams of
                         None \<Rightarrow> st\<lparr>so_persist := Some (p\<lparr>sd_stats := k\<lparr>pst_file_corrupt := True\<rparr>\<rparr>)\<rparr>
                       | Some r \<Rightarrow>
                           (let st = st\<lparr>so_persist := Some p\<rparr>;
                                ((restored, refused), st) = restore_rows (sd_persist cf st) (pr_entries r) (0, 0) st
                            in st\<lparr>so_persist := Some (p\<lparr>sd_stats := k\<lparr>pst_unknown := word_of_nat (pr_unknown r),
                                   pst_restored := restored, pst_refused := refused\<rparr>\<rparr>)\<rparr>)))"

definition sd_refresh :: "'c ConfigFile \<Rightarrow> 'c SdPersist Store \<Rightarrow> bool \<times> 'c SdPersist Store" where
  "sd_refresh cf st =
     (case so_persist st of
        None \<Rightarrow> (False, st)
      | Some p \<Rightarrow>
          if sd_usable p \<or> sd_file p = None then (sd_usable p, st)
          else let (ok, f) = cf_mount cf True (the (sd_file p)); p = p\<lparr>sd_file := Some f, sd_mounted := ok\<rparr> in
            if \<not> ok
            then (False, st\<lparr>so_persist := Some (p\<lparr>sd_stats := (sd_stats p)\<lparr>pst_mounts_failed := pst_mounts_failed (sd_stats p) + 1\<rparr>\<rparr>)\<rparr>)
            else let (ok, p) = write_all cf st p in (ok, st\<lparr>so_persist := Some p\<rparr>))"

section \<open>GateLinkConfig\<close>

definition GateLinkConfig_new :: "'c option \<Rightarrow> 'c SdPersist Store" where
  "GateLinkConfig_new file = Store_new gatelink_table (Some (SdPersist_new file))"

definition gl_apply :: "'c ConfigFile \<Rightarrow> ConfigEntry \<Rightarrow> 'c SdPersist Store \<Rightarrow>
    (ConfigAckEntry \<times> bool \<times> bool) \<times> 'c SdPersist Store" where
  "gl_apply cf e st = store_apply (sd_persist cf st) e st"

definition gl_restore_defaults :: "'c ConfigFile \<Rightarrow> 'c SdPersist Store \<Rightarrow> bool \<times> 'c SdPersist Store" where
  "gl_restore_defaults cf st = restore_defaults (sd_persist cf st) st"

definition gl_unpersisted :: "'c ConfigFile \<Rightarrow> 'c SdPersist Store \<Rightarrow> bool" where
  "gl_unpersisted cf st \<longleftrightarrow> (case so_persist st of None \<Rightarrow> False | Some p \<Rightarrow> sd_dirty p) \<or>
     read_persist_status (sd_persist cf st) st \<noteq> PS_Persisted"

end
