(* ===== verification/SdConfigCorrect.thy ===== *)
theory SdConfigCorrect
  imports SdConfig
begin

text \<open>
  What the card's file keeps: the reader gives back every row the writer put down, and a setting
  answered as persisted is in force again after a reboot.
\<close>

section \<open>Reading back what was written\<close>

lemma digit_char: "n < 10 \<Longrightarrow> of_char (char_of (48 + n) :: char) = 48 + (n :: nat)"
  by simp

lemma int_digits_dec: "n \<le> 2147483648 \<Longrightarrow> int_digits (dec n @ s) 0 = int_digits s (int n)"
proof (induction n arbitrary: s rule: dec.induct)
  case (1 n)
  have step: "int_digits (char_of (48 + m) # s) v = int_digits s (v * 10 + int m)"
    if "m < 10" "v * 10 + int m \<le> 2147483648" for m v
    using that by (simp add: is_digit_def Let_def)
  show ?case
  proof (cases "n < 10")
    case True
    with 1 step [of n 0] show ?thesis by (simp add: dec.simps)
  next
    case False
    have "int (n div 10) * 10 + int (n mod 10) = int n" by presburger
    with step [of "n mod 10" "int (n div 10)"] 1 False show ?thesis
      by (subst dec.simps) simp
  qed
qed

lemma dec_head: "\<exists>c s. dec n = c # s \<and> is_digit c"
proof (induction n rule: dec.induct)
  case (1 n)
  then show ?case by (subst dec.simps) (auto simp: is_digit_def)
qed

lemma digit_not: "is_digit c \<Longrightarrow> c \<noteq> CHR ''-'' \<and> \<not> json_ws c \<and> c \<noteq> CHR ''.'' \<and> c \<noteq> CHR ''e'' \<and> c \<noteq> CHR ''E''"
  by (auto simp: is_digit_def json_ws_def)

definition ends_number :: "string \<Rightarrow> bool" where
  "ends_number s \<longleftrightarrow> s \<noteq> [] \<and> hd s \<in> {CHR '','', newline}"

lemma ends_number_not: "ends_number s \<Longrightarrow> int_digits s v = Some (v, s) \<and> hd s \<noteq> CHR ''.'' \<and> hd s \<noteq> CHR ''e'' \<and> hd s \<noteq> CHR ''E''"
  by (cases s) (auto simp: ends_number_def is_digit_def)

lemma read_show_long:
  assumes "-2147483648 \<le> v" "v \<le> 2147483647" "ends_number s"
  shows "read_integer (CHR '' '' # show_long v @ s) = Some (v, s)"
proof -
  obtain c t where d: "dec (nat \<bar>v\<bar>) = c # t" "is_digit c" using dec_head by blast
  have int: "int_digits (c # t @ s) 0 = Some (\<bar>v\<bar>, s)"
    using int_digits_dec [of "nat \<bar>v\<bar>" s] assms ends_number_not [OF assms(3)] d(1) by simp
  have sp: "skip_ws (CHR '' '' # u) = skip_ws u" for u by (simp add: skip_ws_def json_ws_def)
  have dg: "skip_ws (c # u) = c # u" for u using digit_not [OF d(2)] by (simp add: skip_ws_def)
  have mn: "skip_ws (CHR ''-'' # u) = CHR ''-'' # u" for u by (simp add: skip_ws_def json_ws_def)
  show ?thesis
    using assms int d digit_not [OF d(2)] ends_number_not [OF assms(3)]
    by (cases "v < 0") (simp_all add: read_integer_def show_long_def sp dg mn Let_def)
qed

definition name_ok :: "string \<Rightarrow> bool" where
  "name_ok s \<longleftrightarrow> length s < 48 \<and> list_all (\<lambda>c. c \<noteq> quote \<and> c \<noteq> backslash \<and> c \<noteq> CHR 0x00) s"

lemma key_chars_name:
  assumes "list_all (\<lambda>c. c \<noteq> quote \<and> c \<noteq> backslash \<and> c \<noteq> CHR 0x00) name" "n + length name < cap"
  shows "key_chars (name @ quote # s) cap n = Some (name, s)"
  using assms by (induction name arbitrary: n) simp_all

lemma read_member_entry:
  assumes "name_ok name" "-2147483648 \<le> v" "v \<le> 2147483647"
  shows "read_member (entry_text name v comma @ s) =
    Some ((name, v), (if comma then [CHR '','', newline] else [newline]) @ s)"
proof -
  have "read_key 48 (entry_text name v comma @ s) =
      Some (name, [CHR '':'', CHR '' ''] @ show_long v @ (if comma then [CHR '','', newline] else [newline]) @ s)"
    using assms(1)
    by (simp add: read_key_def take_char_def skip_ws_def json_ws_def entry_text_def name_ok_def key_chars_name)
  moreover have "take_char CHR '':'' (CHR '':'' # u) = Some u" for u
    by (simp add: take_char_def skip_ws_def json_ws_def)
  moreover have "ends_number ((if comma then [CHR '','', newline] else [newline]) @ s)"
    by (simp add: ends_number_def)
  note read_show_long [OF assms(2,3) this]
  ultimately show ?thesis by (simp add: read_member_def)
qed

text \<open>The whole text of a set of rows, as the writer lays it down.\<close>

fun entries_text :: "(ParamDef \<times> Value) list \<Rightarrow> string" where
  "entries_text [] = []"
| "entries_text ((d, v) # rest) = entry_text (pd_name d) v (rest \<noteq> []) @ entries_text rest"

definition config_text :: "(ParamDef \<times> Value) list \<Rightarrow> string" where
  "config_text rows =
     (if rows = [] then [CHR ''{'', CHR ''}'', newline]
      else [CHR ''{'', newline] @ entries_text rows @ [CHR ''}'', newline])"

lemma advance_Some: "advance cap piece acc = Some t \<longleftrightarrow> (\<exists>u. acc = Some u \<and> t = u @ piece \<and> length t < cap)"
  by (auto simp: advance_def split: option.splits)

lemma format_entries_Some:
  "format_entries cap rows acc = Some t \<Longrightarrow> \<exists>u. acc = Some u \<and> t = u @ entries_text rows"
proof (induction rows arbitrary: acc t)
  case (Cons dv rows)
  obtain d v where dv: "dv = (d, v)" by fastforce
  from Cons.prems dv Cons.IH obtain u where
    "advance cap (entry_text (pd_name d) v (rows \<noteq> [])) acc = Some u" "t = u @ entries_text rows" by fastforce
  then show ?case by (auto simp: advance_Some dv)
qed simp

lemma format_config_text: "format_config rows cap = Some s \<Longrightarrow> s = config_text rows \<and> length s < cap"
  by (auto simp: format_config_def config_text_def advance_Some split: if_splits dest!: format_entries_Some)

text \<open>The writer runs out of room only when the text and its terminator do not fit.\<close>

lemma format_entries_fits:
  "length u + length (entries_text rows) < cap \<Longrightarrow> format_entries cap rows (Some u) = Some (u @ entries_text rows)"
proof (induction rows arbitrary: u)
  case (Cons dv rows)
  obtain d v where dv: "dv = (d, v)" by fastforce
  have "advance cap (entry_text (pd_name d) v (rows \<noteq> [])) (Some u) = Some (u @ entry_text (pd_name d) v (rows \<noteq> []))"
    using Cons.prems dv by (simp add: advance_def)
  with Cons.IH [of "u @ entry_text (pd_name d) v (rows \<noteq> [])"] Cons.prems dv show ?case by simp
qed simp

lemma format_config_fits:
  assumes "length (config_text rows) < cap"
  shows "format_config rows cap = Some (config_text rows)"
proof (cases "rows = []")
  case True
  with assms show ?thesis by (simp add: format_config_def config_text_def advance_def)
next
  case False
  with assms have len: "length ([CHR ''{'', newline] @ entries_text rows @ [CHR ''}'', newline]) < cap"
    by (simp add: config_text_def)
  have "advance cap [CHR ''{'', newline] (Some []) = Some [CHR ''{'', newline]"
    using len by (simp add: advance_def)
  moreover have "format_entries cap rows (Some [CHR ''{'', newline]) = Some ([CHR ''{'', newline] @ entries_text rows)"
    using len by (intro format_entries_fits) simp
  ultimately show ?thesis
    using len False by (simp add: format_config_def config_text_def advance_def)
qed

section \<open>Parsing the text\<close>

definition row_kept :: "Table \<Rightarrow> ParamDef \<times> Value \<Rightarrow> bool" where
  "row_kept t dv \<longleftrightarrow> find_by_name t (pd_name (fst dv)) = Some (fst dv) \<and> name_ok (pd_name (fst dv)) \<and>
     -2147483648 \<le> snd dv \<and> snd dv \<le> 2147483647"

lemma take_char_head:
  "\<not> json_ws c \<Longrightarrow> take_char k (c # s) = (if c = k then Some s else None)"
  "json_ws c \<Longrightarrow> take_char k (c # s) = take_char k s"
  by (simp_all add: take_char_def skip_ws_def)

lemma parse_members_newline: "parse_members t cap (newline # u) q = parse_members t cap u q"
proof -
  have "read_member (newline # u) = read_member u"
    by (simp add: read_member_def read_key_def take_char_head json_ws_def)
  then show ?thesis by (subst (1 2) parse_members.simps) simp
qed

lemma parse_members_text:
  assumes "rows \<noteq> []" "\<forall>dv \<in> set rows. row_kept t dv" "length (pr_entries r) + length rows \<le> cap"
  shows "parse_members t cap (entries_text rows @ [CHR ''}'', newline]) r =
    Some (r\<lparr>pr_entries := pr_entries r @ rows\<rparr>)"
  using assms
proof (induction rows arbitrary: r)
  case (Cons dv rows)
  obtain d v where dv: "dv = (d, v)" by fastforce
  from Cons.prems(2) dv have k: "find_by_name t (pd_name d) = Some d" "name_ok (pd_name d)"
      "-2147483648 \<le> v" "v \<le> 2147483647"
    by (auto simp: row_kept_def)
  let ?r = "r\<lparr>pr_entries := pr_entries r @ [(d, v)]\<rparr>"
  have add: "add_member t cap (pd_name d, v) r = ?r" using k(1) Cons.prems(3) by (simp add: add_member_def)
  have ws: "\<not> json_ws CHR '',''" "\<not> json_ws CHR ''}''" "json_ws newline" by (simp_all add: json_ws_def)
  have hd: "read_member (entries_text (dv # rows) @ [CHR ''}'', newline]) = Some ((pd_name d, v),
     (if rows \<noteq> [] then [CHR '','', newline] else [newline]) @ entries_text rows @ [CHR ''}'', newline])"
    using read_member_entry [OF k(2-4), of "rows \<noteq> []"] dv by simp
  show ?case
  proof (cases "rows = []")
    case True
    then show ?thesis
      using hd add dv by (subst parse_members.simps) (simp add: take_char_head ws at_end_def skip_ws_def)
  next
    case False
    with Cons.IH [of ?r] Cons.prems have "parse_members t cap (entries_text rows @ [CHR ''}'', newline]) ?r =
      Some (?r\<lparr>pr_entries := pr_entries ?r @ rows\<rparr>)" by simp
    then show ?thesis
      using hd add dv False by (subst parse_members.simps) (simp add: take_char_head ws parse_members_newline)
  qed
qed simp

lemma parse_config_text:
  assumes "format_config rows cap = Some s" "\<forall>dv \<in> set rows. row_kept t dv" "length rows \<le> n"
  shows "parse_config t s n = Some \<lparr>pr_entries = rows, pr_unknown = 0\<rparr>"
proof -
  have s: "s = config_text rows" using format_config_text [OF assms(1)] by simp
  have ws: "\<not> json_ws CHR ''{''" "\<not> json_ws CHR ''}''" "json_ws newline" "\<not> json_ws quote" "json_ws CHR '' ''"
    by (simp_all add: json_ws_def)
  show ?thesis
  proof (cases rows)
    case Nil
    then show ?thesis
      by (simp add: parse_config_def s config_text_def take_char_head ws at_end_def skip_ws_def)
  next
    case (Cons dv rest)
    have no_brace: "take_char CHR ''}'' (newline # entries_text rows @ u) = None" for u
      using Cons by (cases dv) (simp add: take_char_head ws entry_text_def)
    have "parse_members t n (entries_text rows @ [CHR ''}'', newline]) \<lparr>pr_entries = [], pr_unknown = 0\<rparr> =
      Some \<lparr>pr_entries = rows, pr_unknown = 0\<rparr>"
      using parse_members_text [of rows t "\<lparr>pr_entries = [], pr_unknown = 0\<rparr>" n] Cons assms(2,3) by simp
    with no_brace Cons show ?thesis
      by (simp add: parse_config_def s config_text_def take_char_head ws parse_members_newline)
  qed
qed

text \<open>
  The card's file is read back as it was written. For rows the table finds by name, whose
  names need no escape and whose values are 32-bit, parsing what format\_config wrote gives
  exactly those rows in their order and no unknown name.
\<close>

theorem config_file_roundtrip:
  assumes "format_config rows cap = Some s" "\<forall>dv \<in> set rows. row_kept t dv" "length rows \<le> n"
  shows "parse_config t s n = Some \<lparr>pr_entries = rows, pr_unknown = 0\<rparr>"
  using assms by (rule parse_config_text)

section \<open>GateLink's rows\<close>

lemma gatelink_names:
  "distinct (map pd_name (kNodeCommonParams @ kGateLinkParams))"
  "list_all name_ok (map pd_name (kNodeCommonParams @ kGateLinkParams))"
  by code_simp+

lemma gatelink_int32:
  "list_all (\<lambda>d. -2147483648 \<le> pd_min d \<and> pd_max d \<le> 2147483647) (kNodeCommonParams @ kGateLinkParams)"
  by (simp add: shipped_tables)

lemma find_distinct:
  "distinct (map f xs) \<Longrightarrow> x \<in> set xs \<Longrightarrow> List.find (\<lambda>y. f y = f x) xs = Some x"
  by (induction xs) (auto simp: image_iff)

lemma gatelink_row_kept:
  assumes "d \<in> set (tb_rows gatelink_table)" "valid_value d v"
  shows "row_kept gatelink_table (d, v)"
proof -
  from assms(1) have d: "d \<in> set (kNodeCommonParams @ kGateLinkParams)" unfolding gatelink_rows_eq .
  have n: "name_ok (pd_name d)" using gatelink_names(2) d by (simp only: list_all_iff set_map image_iff) blast
  have "list_all (\<lambda>c. c \<noteq> CHR 0x00) (pd_name d)" using n by (auto simp: name_ok_def list_all_iff)
  then have "takeWhile (\<lambda>c. c \<noteq> CHR 0x00) (pd_name d) = pd_name d"
    by (simp add: takeWhile_eq_all_conv list_all_iff)
  then have "find_by_name gatelink_table (pd_name d) = Some d"
    using find_distinct [OF gatelink_names(1) d] by (simp only: find_by_name_def gatelink_rows_eq)
  moreover have "-2147483648 \<le> pd_min d" "pd_max d \<le> 2147483647"
    using gatelink_int32 d by (auto simp only: list_all_iff)
  ultimately show ?thesis using n assms(2) by (auto simp: row_kept_def valid_value_def)
qed

section \<open>Stores of GateLink\<close>

text \<open>The store of \<open>GateLinkConfig\<close> never runs a PHY trial: its PHY rows answer READ\_ONLY.\<close>

definition gl_inv :: "'c SdPersist Store \<Rightarrow> bool" where
  "gl_inv st \<longleftrightarrow> store_inv st \<and> so_table st = gatelink_table \<and> so_trial st = [] \<and> \<not> so_phy_trial_enabled st"

lemma gl_invD:
  assumes "gl_inv st"
  shows "store_inv st" "so_table st = gatelink_table" "so_trial st = []" "\<not> phy_writable ops st"
  using assms by (simp_all add: gl_inv_def phy_writable_def)

lemma gl_inv_new: "gl_inv (GateLinkConfig_new file)"
  using gatelink_rows.param_rows_axioms
  by (simp add: gl_inv_def GateLinkConfig_new_def Store_new_def store_inv_def gatelink_rows_eq)

lemma gl_inv_persist [simp]: "gl_inv (st\<lparr>so_persist := p\<rparr>) = gl_inv st"
  by (simp add: gl_inv_def)

lemma gl_inv_restore:
  assumes "gl_inv st"
  shows "gl_inv (snd (restore ops i v st))"
proof (cases "st_find i st")
  case None
  with assms show ?thesis by (simp add: restore_def)
next
  case (Some d)
  note inv = gl_invD [OF assms]
  show ?thesis
    using assms Some inv(4) set_override_inv [OF inv(1) Some, of "clamp v d"] clamp_valid [OF inv(1) Some, of v]
    by (auto simp: restore_def gl_inv_def Let_def)
qed

lemma gl_inv_restore_rows: "gl_inv st \<Longrightarrow> gl_inv (snd (restore_rows ops rows n st))"
proof (induction rows arbitrary: n st)
  case (Cons dv rows)
  obtain d v a b where [simp]: "dv = (d, v)" "n = (a, b)" by (meson surj_pair)
  from Cons.IH [OF gl_inv_restore [OF Cons.prems, of ops "pd_id d" v]] show ?case
    by (auto simp: Let_def split_beta)
qed simp

lemma gl_inv_load: "gl_inv st \<Longrightarrow> gl_inv (sd_load cf st)"
  by (auto simp: sd_load_def Let_def split_beta intro!: gl_inv_restore_rows split: option.split)

lemma gl_inv_apply:
  assumes "gl_inv st"
  shows "gl_inv (snd (gl_apply cf e st))"
proof (cases "st_find (ce_param_id e) st")
  case None
  with assms show ?thesis by (simp add: gl_apply_def store_apply_unknown)
next
  case (Some d)
  note inv = gl_invD [OF assms]
  from inv(1) Some show ?thesis
  proof (cases rule: store_apply_cases [where ops = "sd_persist cf st"])
    case (trial s v)
    with inv(4) show ?thesis by (auto simp: refusal_def split: if_splits)
  next
    case (set s v saved p)
    with assms store_apply_inv [OF inv(1), of "sd_persist cf st" e] show ?thesis
      by (simp add: gl_apply_def gl_inv_def)
  qed (use assms in \<open>simp add: gl_apply_def\<close>)
qed

lemma gl_inv_defaults: "gl_inv st \<Longrightarrow> gl_inv (defaults_kept st)"
  using defaults_kept_inv [of st] by (simp add: gl_inv_def defaults_kept_def)

lemma gl_inv_restore_defaults: "gl_inv st \<Longrightarrow> gl_inv (snd (gl_restore_defaults cf st))"
  using gl_inv_defaults [of st] gl_invD(1) [of st]
  by (auto simp: gl_restore_defaults_def restore_defaults_eq split: option.splits)

lemma gl_inv_refresh: "gl_inv st \<Longrightarrow> gl_inv (snd (sd_refresh cf st))"
  by (auto simp: sd_refresh_def Let_def split_beta split: option.splits)

inductive gl_reachable :: "'c ConfigFile \<Rightarrow> 'c SdPersist Store \<Rightarrow> bool" for cf where
  gr_boot: "gl_reachable cf (sd_load cf (GateLinkConfig_new file))"
| gr_set: "gl_reachable cf st \<Longrightarrow> gl_reachable cf (snd (gl_apply cf e st))"
| gr_defaults: "gl_reachable cf st \<Longrightarrow> gl_reachable cf (snd (gl_restore_defaults cf st))"
| gr_refresh: "gl_reachable cf st \<Longrightarrow> gl_reachable cf (snd (sd_refresh cf st))"

lemma gl_reachable_inv: "gl_reachable cf st \<Longrightarrow> gl_inv st"
  by (induction rule: gl_reachable.induct)
    (simp_all add: gl_inv_load gl_inv_new gl_inv_apply gl_inv_restore_defaults gl_inv_refresh)

section \<open>A reboot\<close>

text \<open>What is documented of the card: after a write that reports success, a mount finds the card
  and a read into enough room returns the text.\<close>

definition keeps_writes :: "'c ConfigFile \<Rightarrow> bool" where
  "keeps_writes cf \<longleftrightarrow> (\<forall>s f f'. cf_write cf s f = (True, f') \<longrightarrow>
     (\<exists>f2 f3. cf_mount cf False f' = (True, f2) \<and> (\<forall>cap. length s \<le> cap \<longrightarrow> cf_read cf cap f2 = (Some s, f3))))"

definition same_settings :: "'p Store \<Rightarrow> 'q Store \<Rightarrow> bool" where
  "same_settings a b \<longleftrightarrow> (\<forall>d \<in> set (tb_rows gatelink_table). pd_access d \<noteq> Ac_Phy \<longrightarrow>
     effective (pd_id d) a = effective (pd_id d) b \<and> is_override (pd_id d) a = is_override (pd_id d) b)"

lemma gl_find: "gl_inv st \<Longrightarrow> d \<in> set (tb_rows gatelink_table) \<Longrightarrow> st_find (pd_id d) st = Some d"
  using param_rows.find_row [OF gatelink_rows.param_rows_axioms, of d] gl_invD(2) [of st]
  by (simp add: st_find_def table_find_rows gatelink_rows_eq)

lemma override_row_valid:
  assumes "gl_inv st" "dv \<in> set (override_rows st)"
  shows "fst dv \<in> set (tb_rows gatelink_table)" "pd_access (fst dv) = Ac_ReadWrite"
    "valid_value (fst dv) (snd dv)" "snd dv = effective (pd_id (fst dv)) st"
proof -
  note inv = gl_invD [OF assms(1)]
  obtain d where d: "dv = (d, effective (pd_id d) st)" "d \<in> set (tb_rows gatelink_table)"
      "pd_access d \<noteq> Ac_Phy" "is_override (pd_id d) st"
    using assms(2) inv(2) by (auto simp: override_rows_def)
  note f = gl_find [OF assms(1) d(2)]
  have "pd_access d \<noteq> Ac_ReadOnly"
    using d(4) slots_ok_slot [OF store_inv_overrides [OF inv(1)], of "pd_id d"] f
    by (auto simp: is_override_def slot_def st_find_def split: option.splits)
  with d effective_valid [OF inv(1) f] show "fst dv \<in> set (tb_rows gatelink_table)"
    "pd_access (fst dv) = Ac_ReadWrite" "valid_value (fst dv) (snd dv)" "snd dv = effective (pd_id (fst dv)) st"
    by (cases "pd_access d"; simp)+
qed

text \<open>Restoring one row that was an override sets it, and only it.\<close>

lemma restore_row:
  assumes "gl_inv st" "d \<in> set (tb_rows gatelink_table)" "pd_access d = Ac_ReadWrite" "valid_value d v"
  shows "fst (restore ops (pd_id d) v st)"
    "effective i (snd (restore ops (pd_id d) v st)) = (if i = pd_id d then v else effective i st)"
    "is_override i (snd (restore ops (pd_id d) v st)) \<longleftrightarrow> i = pd_id d \<or> is_override i st"
proof -
  note inv = gl_invD [OF assms(1)]
  note f = gl_find [OF assms(1,2)]
  have c: "clamp v d = v" "value_allowed d v" using assms(4) by (auto simp: clamp_def valid_value_def)
  have r: "restore ops (pd_id d) v st = set_override (pd_id d) v st"
    using f assms(3) c by (simp add: restore_def)
  have t: "trial_slot (pd_id d) st = None" using inv(3) by (simp add: trial_slot_def slot_of_def)
  show "fst (restore ops (pd_id d) v st)" "effective i (snd (restore ops (pd_id d) v st)) = (if i = pd_id d then v else effective i st)"
    using effective_set_override [OF inv(1) f, of i v] set_override_eq [OF inv(1) f] t by (simp_all add: r)
  show "is_override i (snd (restore ops (pd_id d) v st)) \<longleftrightarrow> i = pd_id d \<or> is_override i st"
    using set_override_eq [OF inv(1) f, of v] by (simp add: r is_override_def slot_def slot_of_put)
qed

lemma restore_rows_values:
  assumes "gl_inv st"
    "\<forall>dv \<in> set rows. fst dv \<in> set (tb_rows gatelink_table) \<and> pd_access (fst dv) = Ac_ReadWrite \<and> valid_value (fst dv) (snd dv)"
    "distinct (map (\<lambda>dv. pd_id (fst dv)) rows)"
  shows "effective i (snd (restore_rows ops rows n st)) =
      (case map_of (map (\<lambda>dv. (pd_id (fst dv), snd dv)) rows) i of Some v \<Rightarrow> v | None \<Rightarrow> effective i st) \<and>
    (is_override i (snd (restore_rows ops rows n st)) \<longleftrightarrow> i \<in> (\<lambda>dv. pd_id (fst dv)) ` set rows \<or> is_override i st)"
  using assms
proof (induction rows arbitrary: n st)
  case (Cons dv rows)
  obtain d v a b where [simp]: "dv = (d, v)" "n = (a, b)" by (meson surj_pair)
  from Cons.prems(2) have d: "d \<in> set (tb_rows gatelink_table)" "pd_access d = Ac_ReadWrite" "valid_value d v" by auto
  note r = restore_row [OF Cons.prems(1) d, where ops = ops]
  let ?st = "snd (restore ops (pd_id d) v st)"
  have e: "snd (restore_rows ops (dv # rows) n st) = snd (restore_rows ops rows (a + 1, b) ?st)"
    using r(1) by (simp add: Let_def split_beta)
  have inv: "gl_inv ?st" by (rule gl_inv_restore [OF Cons.prems(1)])
  note IH = Cons.IH [OF inv, of "(a + 1, b)"]
  have no: "map_of (map (\<lambda>dv. (pd_id (fst dv), snd dv)) rows) (pd_id d) = None"
    using Cons.prems(3) by (auto simp: map_of_eq_None_iff image_image)
  show ?case unfolding e using IH Cons.prems r(2,3) no by (auto split: option.splits)
qed simp

lemma written_store_reboots:
  assumes "keeps_writes cf" "gl_inv st" "write_all cf st p = (True, p')"
  shows "same_settings (sd_load cf (GateLinkConfig_new (sd_file p'))) st"
proof -
  note inv = gl_invD [OF assms(2)]
  let ?rows = "override_rows st"
  obtain f where f: "sd_file p = Some f" "sd_mounted p"
    using assms(3) by (auto simp: write_all_def split: option.splits if_splits)
  obtain s where w: "format_config ?rows kConfigFileCap = Some s"
    using assms(3) f by (cases "format_config ?rows kConfigFileCap") (simp_all add: write_all_def Let_def)
  obtain ok f' where cw: "cf_write cf s f = (ok, f')" by fastforce
  have w2: "cf_write cf s f = (True, f')" "sd_file p' = Some f'"
    using assms(3) f w cw by (auto simp: write_all_def Let_def split: if_splits)
  have len: "length s \<le> kConfigFileCap" using conjunct2 [OF format_config_text [OF w]] by simp
  from assms(1) w2(1) len obtain f2 f3 where m: "cf_mount cf False f' = (True, f2)" "cf_read cf kConfigFileCap f2 = (Some s, f3)"
    unfolding keeps_writes_def by blast
  have ids: "distinct (map pd_id (tb_rows gatelink_table))"
    unfolding gatelink_rows_eq by (rule param_rows.distinct_ids [OF gatelink_rows.param_rows_axioms])
  then have dist: "distinct (map (\<lambda>dv. pd_id (fst dv)) ?rows)"
    using inv(2) by (simp add: override_rows_def comp_def distinct_map_filter)
  have "length ?rows \<le> length (tb_rows gatelink_table)"
    using inv(2) by (simp add: override_rows_def)
  then have l: "length ?rows \<le> kMaxTableParams" using gatelink_rows_eq(3) by (simp add: tb_wf_def)
  have "\<forall>dv \<in> set ?rows. row_kept gatelink_table dv"
    using override_row_valid [OF assms(2)] gatelink_row_kept by fastforce
  then have parse: "parse_config gatelink_table s kMaxTableParams = Some \<lparr>pr_entries = ?rows, pr_unknown = 0\<rparr>"
    using w l parse_config_text by blast
  let ?new = "GateLinkConfig_new (sd_file p') :: 'a SdPersist Store"
  obtain ops n st1 q where load: "sd_load cf ?new = (snd (restore_rows ops ?rows n st1))\<lparr>so_persist := q\<rparr>"
      "st1 = ?new\<lparr>so_persist := so_persist st1\<rparr>"
    using m parse w2(2)
    by (auto simp: sd_load_def Let_def split_beta GateLinkConfig_new_def Store_new_def SdPersist_new_def)
  have inv1: "gl_inv st1" using load(2) gl_inv_new [of "sd_file p'"] by (metis gl_inv_persist)
  have rows_ok: "\<forall>dv \<in> set ?rows. fst dv \<in> set (tb_rows gatelink_table) \<and> pd_access (fst dv) = Ac_ReadWrite \<and> valid_value (fst dv) (snd dv)"
    using override_row_valid [OF assms(2)] by blast
  note vals = restore_rows_values [OF inv1 rows_ok dist, where ops = ops and n = n]
  show ?thesis
    unfolding same_settings_def
  proof (intro ballI impI conjI)
    fix d assume d: "d \<in> set (tb_rows gatelink_table)" "pd_access d \<noteq> Ac_Phy"
    note f = gl_find [OF assms(2) d(1)] and f1 = gl_find [OF inv1 d(1)]
    have none: "slot (pd_id d) st1 = None" "trial_slot (pd_id d) st1 = None" "trial_slot (pd_id d) st = None"
      using load(2) inv(3) by (metis (no_types, lifting) GateLinkConfig_new_def Store.select_convs Store.update_convs
          Store_new_def slot_def slot_of_None_iff trial_slot_def empty_iff image_empty list.set(1))+
    have mem: "pd_id d \<in> (\<lambda>dv. pd_id (fst dv)) ` set ?rows \<longleftrightarrow> is_override (pd_id d) st"
      using d inv(2) ids by (auto simp: override_rows_def image_iff distinct_map dest: inj_onD)
    have "map_of (map (\<lambda>dv. (pd_id (fst dv), snd dv)) ?rows) (pd_id d) =
        (if is_override (pd_id d) st then Some (effective (pd_id d) st) else None)"
      using map_of_group [of pd_id "filter (\<lambda>d. pd_access d \<noteq> Ac_Phy \<and> is_override (pd_id d) st) (tb_rows gatelink_table)"
          "\<lambda>i. effective i st" "pd_id d"] ids mem inv(2)
      by (simp add: override_rows_def comp_def distinct_map_filter image_image)
    moreover have "\<not> is_override (pd_id d) st \<Longrightarrow> effective (pd_id d) st = pd_def d"
      using f none(3) by (auto simp: effective_def is_override_def split: option.splits)
    moreover have "effective (pd_id d) st1 = pd_def d" "\<not> is_override (pd_id d) st1"
      using f1 none by (simp_all add: effective_def is_override_def)
    ultimately show "effective (pd_id d) (sd_load cf ?new) = effective (pd_id d) st"
      using vals [where i = "pd_id d"] by (simp add: load(1))
    show "is_override (pd_id d) (sd_load cf ?new) = is_override (pd_id d) st"
      using vals [where i = "pd_id d"] mem \<open>\<not> is_override (pd_id d) st1\<close>
      by (simp add: load(1) is_override_def slot_def)
  qed
qed

text \<open>
  C39: what GateLink answers as persisted is in force after a reboot. In every state its
  configuration reaches, when a SET is applied and reported persisted, or restoring the defaults
  reports success, a boot that loads the card as those calls left it gives every parameter
  outside the PHY group the value, and the override mark, it had before the reboot.
\<close>

theorem persisted_settings_survive_reboot:
  assumes "keeps_writes cf" "gl_reachable cf st"
  shows "(\<forall>e ack st' p. gl_apply cf e st = ((ack, True, True), st') \<and> so_persist st' = Some p \<longrightarrow>
      same_settings (sd_load cf (GateLinkConfig_new (sd_file p))) st') \<and>
    (\<forall>st' p. gl_restore_defaults cf st = (True, st') \<and> so_persist st' = Some p \<longrightarrow>
      same_settings (sd_load cf (GateLinkConfig_new (sd_file p))) st')"
proof (intro conjI allI impI; elim conjE)
  have inv: "gl_inv st" using assms(2) by (rule gl_reachable_inv)
  have same: "same_settings a (b\<lparr>so_persist := q\<rparr>) = same_settings a b" for a b :: "'a SdPersist Store" and q
    by (simp add: same_settings_def is_override_def slot_def)
  fix st' p
  {
    fix e ack
    assume a: "gl_apply cf e st = ((ack, True, True), st')" "so_persist st' = Some p"
    show "same_settings (sd_load cf (GateLinkConfig_new (sd_file p))) st'"
    proof (cases "st_find (ce_param_id e) st")
      case None
      with a show ?thesis by (simp add: gl_apply_def store_apply_unknown)
    next
      case (Some d)
      from gl_invD(1) [OF inv] Some show ?thesis
      proof (cases rule: store_apply_cases [where ops = "sd_persist cf st"])
        case (set s v saved q)
        let ?st = "st\<lparr>so_overrides := put_override (ce_param_id e) v (so_overrides st)\<rparr>"
        have "saved" "st' = ?st\<lparr>so_persist := q\<rparr>" using a(1) set by (simp_all add: gl_apply_def)
        moreover have "snd (set_override (ce_param_id e) v st) = ?st"
          by (simp add: set_override_eq [OF gl_invD(1) [OF inv] Some])
        ultimately obtain p0 where "write_all cf ?st p0 = (True, p)"
          using set(6) a(2) by (auto simp: try_save_def sd_persist_def split: option.splits if_splits prod.splits)
        moreover have "gl_inv ?st" using gl_inv_apply [OF inv, of cf e] set by (simp add: gl_apply_def)
        ultimately show ?thesis
          using written_store_reboots [OF assms(1)] \<open>st' = ?st\<lparr>so_persist := q\<rparr>\<close> same by metis
      qed (use a in \<open>simp_all add: gl_apply_def\<close>)
    qed
  next
    assume a: "gl_restore_defaults cf st = (True, st')" "so_persist st' = Some p"
    from a(1) obtain p0 where p0: "write_all cf (defaults_kept st) p0 = (True, p)"
        "st' = (defaults_kept st)\<lparr>so_persist := Some p\<rparr>"
      using a(2) restore_defaults_eq [OF gl_invD(1) [OF inv], of "sd_persist cf st"]
      by (auto simp: gl_restore_defaults_def sd_persist_def prod_eq_iff split: option.splits if_splits)
    with written_store_reboots [OF assms(1) gl_inv_defaults [OF inv]] same show
      "same_settings (sd_load cf (GateLinkConfig_new (sd_file p))) st'" by metis
  }
qed

text \<open>A card that holds one file, and a SET of \<open>relay_pulse_ms\<close> to 600 on it.\<close>

definition one_file :: "string option ConfigFile" where
  "one_file = \<lparr>cf_mount = (\<lambda>re f. (True, f)),
     cf_read = (\<lambda>cap f. (case f of None \<Rightarrow> None | Some s \<Rightarrow> if length s \<le> cap then Some s else None, f)),
     cf_write = (\<lambda>s f. (True, Some s))\<rparr>"

definition pulse_entry :: ConfigEntry where
  "pulse_entry = \<lparr>ce_param_id = 0x1000, ce_ptype = PT_U16, ce_len = 2, ce_value = [0x58, 0x02, 0, 0]\<rparr>"

lemma one_file_keeps: "keeps_writes one_file"
  by (auto simp: keeps_writes_def one_file_def)

definition booted :: "string option SdPersist Store" where
  "booted = sd_load one_file (GateLinkConfig_new (Some None))"

lemma booted_eq: "booted = (GateLinkConfig_new (Some None))\<lparr>so_persist := Some ((SdPersist_new (Some None))\<lparr>sd_mounted := True\<rparr>)\<rparr>"
  by (simp add: booted_def sd_load_def GateLinkConfig_new_def Store_new_def SdPersist_new_def one_file_def)

lemma booted_reachable: "gl_reachable one_file booted"
  unfolding booted_def by (rule gr_boot)

lemma pulse_set:
  "\<exists>ack st' p. gl_apply one_file pulse_entry booted = ((ack, True, True), st') \<and> so_persist st' = Some p \<and>
     effective 0x1000 st' = 600"
proof -
  note inv = gl_invD [OF gl_reachable_inv [OF booted_reachable]]
  obtain d where f: "st_find 0x1000 booted = Some d" and d: "pd_type d = PT_U16" "pd_access d = Ac_ReadWrite"
      "pd_min d \<le> 600" "600 \<le> pd_max d" "value_allowed d 600"
    using inv(2)
    by (simp add: st_find_def table_find_rows gatelink_rows_eq shipped_tables value_allowed_def points_for_def kParamPoints_def)
  have r: "requested pulse_entry = 600"
    by (simp add: requested_def pulse_entry_def entry_signed_def entry_raw_def upt_small)
  have c: "clamp 600 d = 600" using d by (simp add: clamp_def)
  have ok: "refusal (sd_persist one_file booted) pulse_entry d booted = None"
    using d c r by (simp add: refusal_def pulse_entry_def requested_def)
  have e: "ce_param_id pulse_entry = 0x1000" by (simp add: pulse_entry_def)
  let ?st = "snd (set_override 0x1000 600 booted)"
  have st: "?st = booted\<lparr>so_overrides := [\<lparr>ov_id = 0x1000, ov_value = 600, ov_set = True\<rparr>]\<rparr>"
    using set_override_eq [OF inv(1) f, of 600] by (simp add: booted_eq GateLinkConfig_new_def Store_new_def)
  have eff: "effective 0x1000 ?st = 600"
    unfolding st using f inv(3) by (simp add: effective_def store_slot_defs slot_of_def)
  have ovr: "is_override i ?st \<longleftrightarrow> i = 0x1000" for i
    unfolding st by (simp add: is_override_def store_slot_defs slot_of_def)
  have "override_rows ?st = [(d, 600)]"
  proof -
    have "filter (\<lambda>x. pd_access x \<noteq> Ac_Phy \<and> pd_id x = 0x1000) (tb_rows gatelink_table) = [d]"
      using f inv(2) by (auto simp: st_find_def table_find_rows gatelink_rows_eq shipped_tables)
    moreover have "pd_id d = 0x1000" using f table_find_SomeD by (auto simp: st_find_def)
    ultimately show ?thesis using inv(2) eff by (simp add: override_rows_def ovr)
  qed
  moreover have "length (pd_name d) < 48"
    using f inv(2) by (auto simp: st_find_def table_find_rows gatelink_rows_eq shipped_tables)
  ultimately have "format_config (override_rows ?st) kConfigFileCap = Some (config_text (override_rows ?st))"
    by (intro format_config_fits) (simp add: config_text_def entry_text_def show_long_def dec.simps kConfigFileCap_def)
  then have w: "fst (write_all one_file ?st p)" if "sd_file p = Some f" "sd_mounted p" for p f
    using that by (simp add: write_all_def one_file_def Let_def)
  have p: "so_persist booted = Some ((SdPersist_new (Some None))\<lparr>sd_mounted := True\<rparr>)" by (simp add: booted_eq)
  then have "fst (try_save (sd_persist one_file booted) 0x1000 600 (so_persist booted))"
    using w by (simp add: try_save_def sd_persist_def SdPersist_new_def sd_usable_def split_beta Let_def)
  then show ?thesis
    using store_apply_set [OF inv(1) _ ok] f e d(2) r c eff
    by (auto simp: gl_apply_def split_beta Let_def try_save_def p set_override_eq [OF inv(1) f] split: if_splits)
qed

theorem persisted_settings_survive_reboot_witness:
  "\<exists>(st' :: string option SdPersist Store) p. so_persist st' = Some p \<and> effective 0x1000 st' = 600 \<and>
     same_settings (sd_load one_file (GateLinkConfig_new (sd_file p))) st'"
proof -
  obtain ack st' p where a: "gl_apply one_file pulse_entry booted = ((ack, True, True), st')" "so_persist st' = Some p"
    "effective 0x1000 st' = 600" using pulse_set by blast
  with persisted_settings_survive_reboot [OF one_file_keeps booted_reachable] show ?thesis by blast
qed

theorem config_file_roundtrip_witness:
  "parse_config gatelink_table (config_text [(hd kGateLinkParams, 500)]) 64 =
     Some \<lparr>pr_entries = [(hd kGateLinkParams, 500)], pr_unknown = 0\<rparr>"
proof -
  have d: "hd kGateLinkParams \<in> set (tb_rows gatelink_table)" "valid_value (hd kGateLinkParams) 500"
    "length (pd_name (hd kGateLinkParams)) < 48"
    by (simp_all add: gatelink_rows_eq shipped_tables valid_value_def value_allowed_def points_for_def kParamPoints_def)
  have "format_config [(hd kGateLinkParams, 500)] 3072 = Some (config_text [(hd kGateLinkParams, 500)])"
    using d(3) by (intro format_config_fits) (simp add: config_text_def entry_text_def show_long_def dec.simps)
  from config_file_roundtrip [OF this, of gatelink_table 64] gatelink_row_kept [OF d(1,2)] show ?thesis by simp
qed

end
