(* ===== verification/GateLinkApp.thy ===== *)
theory GateLinkApp
  imports AppTask SdConfig GateIo NodeEngine
begin

text \<open>
  GateLink's half of the node engine (\<open>firmware/gatelink/src\<close>: \<open>gatelink_app.h\<close>,
  \<open>gatelink_app.cpp\<close>): what a command does to the relays, what STATUS and EVENT carry, the HEX
  transaction and the configuration. The port to the other tasks is a record of functions over
  its own state, the random source among them; theory \<open>NodePort\<close> has \<open>Node\<close> of \<open>task_runtime.cpp\<close> as one. The counter of event ids
  is shared with \<open>app_task\<close>, which draws from it between the calls of this class.
\<close>

section \<open>The port\<close>

record NodeSnapshot =
  ns_inputs :: u8
  ns_node_mv :: u16
  ns_enclosure_temp_c10 :: i16
  ns_uptime_s :: u32
  ns_boot_count :: u16

record 'p GateLinkPort =
  gp_dispatch :: "RelaySequence \<Rightarrow> 'p \<Rightarrow> bool \<times> 'p"
  gp_snapshot :: "'p \<Rightarrow> NodeSnapshot"
  gp_gate :: "'p \<Rightarrow> GateSnapshot"
  gp_mppt :: "'p \<Rightarrow> MpptSnapshot"
  gp_bms :: "'p \<Rightarrow> BmsSnapshot"
  gp_charge_inhibited :: "'p \<Rightarrow> bool"
  gp_ah_drawn_dah :: "'p \<Rightarrow> u16"
  gp_bms_polling_changed :: "bool \<Rightarrow> 'p \<Rightarrow> 'p"
  gp_hex_submit :: "HexJob \<Rightarrow> 'p \<Rightarrow> bool \<times> 'p"
  gp_hex_take :: "'p \<Rightarrow> HexResult option \<times> 'p"
  gp_param_changed :: "u16 \<Rightarrow> Value \<Rightarrow> 'p \<Rightarrow> 'p"
  gp_random :: "'p \<Rightarrow> u32 \<times> 'p"

definition kHexBackstopMarginMs :: u32 where "kHexBackstopMarginMs = 250"

section \<open>The application\<close>

record ('p, 'c) GateLinkApp =
  ga_port :: 'p
  ga_cfg :: "'c SdPersist Store option"
  ga_card_retry :: bool
  ga_dry_run :: bool
  ga_debug_modes :: u8
  ga_bms_polling :: bool
  ga_ids :: EventIds
  ga_dispatched :: u32
  ga_dispatch_refused :: u32
  ga_hex_timeout_ms :: u32
  ga_hex_token :: u32
  ga_hex_refusal :: "HexStatus option"   \<comment> \<open>\<open>hex_refusal_\<close> while \<open>hex_refusal_owed_\<close>\<close>
  ga_hex_late :: u32
  ga_withhold_ack :: bool
  ga_acks_withheld :: u32

definition GateLinkApp_new :: "'p \<Rightarrow> ('p, 'c) GateLinkApp" where
  "GateLinkApp_new port = \<lparr>ga_port = port, ga_cfg = None, ga_card_retry = False, ga_dry_run = False,
     ga_debug_modes = 0, ga_bms_polling = True, ga_ids = 0, ga_dispatched = 0, ga_dispatch_refused = 0,
     ga_hex_timeout_ms = 1000, ga_hex_token = 0, ga_hex_refusal = None, ga_hex_late = 0,
     ga_withhold_ack = False, ga_acks_withheld = 0\<rparr>"


definition kRebootGuard :: u8 where "kRebootGuard = 0xA5"

definition kK1OpenLock :: u8 where "kK1OpenLock = 0"
definition kK2Unlock :: u8 where "kK2Unlock = 1"
definition kK3Open :: u8 where "kK3Open = 2"
definition kK4CloseNow :: u8 where "kK4CloseNow = 3"

definition kNodeFlagPersisted :: u8 where "kNodeFlagPersisted = 0x01"
definition kNodeFlagCardWritable :: u8 where "kNodeFlagCardWritable = 0x02"
definition kNodeFlagDryRun :: u8 where "kNodeFlagDryRun = 0x04"
definition kNodeFlagBmsPolling :: u8 where "kNodeFlagBmsPolling = 0x08"
definition kNodeFlagDebug :: u8 where "kNodeFlagDebug = 0x10"
definition kNodeFlagHardShutdown :: u8 where "kNodeFlagHardShutdown = 0x20"
definition kNodeFlagAgeNotPersisted :: u8 where "kNodeFlagAgeNotPersisted = 0x40"

definition relay_sequence_for :: "Command \<Rightarrow> RelaySequence option" where
  "relay_sequence_for cmd =
     (if cmd_cmd cmd = Cmd_Open then Some \<lparr>rs_first = kK3Open, rs_second = kNoRelay\<rparr>
      else if cmd_cmd cmd = Cmd_HoldOpen then Some \<lparr>rs_first = kK1OpenLock, rs_second = kNoRelay\<rparr>
      else if cmd_cmd cmd = Cmd_ReleaseHold then Some \<lparr>rs_first = kK2Unlock, rs_second = kNoRelay\<rparr>
      else if cmd_cmd cmd = Cmd_Close then
        (if cmd_arg cmd = 0 then Some \<lparr>rs_first = kK2Unlock, rs_second = kNoRelay\<rparr>
         else if cmd_arg cmd = 1 then Some \<lparr>rs_first = kK2Unlock, rs_second = kK4CloseNow\<rparr>
         else None)
      else None)"

definition ga_fresh_ack :: "Seq \<Rightarrow> Context \<Rightarrow> ('p, 'c) GateLinkApp \<Rightarrow> AckDelivery \<times> Context \<times> ('p, 'c) GateLinkApp" where
  "ga_fresh_ack seq c a =
     (if \<not> ga_withhold_ack a then (AD_Send, c, a)
      else (AD_Suppress, c, a\<lparr>ga_withhold_ack := False, ga_acks_withheld := ga_acks_withheld a + 1\<rparr>))"

definition ga_capabilities :: u8 where
  "ga_capabilities = kAnswersCommands OR kAnswersConfig OR kAnswersHex OR kRefusesAuthenticated"

abbreviation outcome :: "AckResult \<Rightarrow> AfterAck \<Rightarrow> bool \<Rightarrow> CommandOutcome" where
  "outcome r after deferred \<equiv> \<lparr>co_result = r, co_detail = 0, co_after = after, co_deferred = deferred\<rparr>"

definition ga_execute ::
  "'p GateLinkPort \<Rightarrow> Command \<Rightarrow> u32 \<Rightarrow> Context \<Rightarrow> ('p, 'c) GateLinkApp \<Rightarrow> CommandOutcome \<times> Context \<times> ('p, 'c) GateLinkApp" where
  "ga_execute gp cmd now_ms c a =
     (let which = cmd_cmd cmd in
      if which \<noteq> Cmd_Nop \<and> which \<le> 0x0F then
        (case relay_sequence_for cmd of
           None \<Rightarrow> (outcome (if which = Cmd_Close then AR_RejectedArg else AR_RejectedUnknownCmd) AA_None False, c, a)
         | Some seq \<Rightarrow>
             if ga_dry_run a then (outcome AR_DryRun AA_None False, c, a)
             else let (ok, p) = gp_dispatch gp seq (ga_port a); a = a\<lparr>ga_port := p\<rparr> in
               if \<not> ok then (outcome AR_ActuatorBusy AA_None False, c, a\<lparr>ga_dispatch_refused := ga_dispatch_refused a + 1\<rparr>)
               else (outcome AR_Accepted AA_None True, c, a\<lparr>ga_dispatched := ga_dispatched a + 1\<rparr>))
      else if which = Cmd_Nop then (outcome AR_Accepted AA_None False, c, a)
      else if which = Cmd_RequestStatus then (outcome AR_Accepted AA_Status False, c, a)
      else if which = Cmd_RequestConfig then (outcome AR_Accepted AA_ConfigReadback False, c, a)
      else if which = Cmd_SetDebugMode then (outcome AR_Accepted AA_None False, c, a\<lparr>ga_debug_modes := ucast (cmd_arg2 cmd)\<rparr>)
      else if which = Cmd_SetRelayDryRun then
        (if cmd_arg cmd > 1 then (outcome AR_RejectedArg AA_None False, c, a)
         else (outcome AR_Accepted AA_None False, c, a\<lparr>ga_dry_run := (cmd_arg cmd = 1)\<rparr>))
      else if which = Cmd_SetBmsPolling then
        (if cmd_arg cmd > 1 then (outcome AR_RejectedArg AA_None False, c, a)
         else (outcome AR_Accepted AA_None False, c,
               a\<lparr>ga_bms_polling := (cmd_arg cmd = 1), ga_port := gp_bms_polling_changed gp (cmd_arg cmd = 1) (ga_port a)\<rparr>))
      else if which = Cmd_Reboot then
        (if cmd_arg cmd \<noteq> kRebootGuard then (outcome AR_RejectedArg AA_None False, c, a)
         else (outcome AR_Accepted AA_Reboot False, c, a))
      else (outcome AR_RejectedUnknownCmd AA_None False, c, a))"

section \<open>STATUS and EVENT\<close>

definition cfg_usable :: "'c SdPersist Store \<Rightarrow> bool" where
  "cfg_usable st = (case so_persist st of None \<Rightarrow> False | Some p \<Rightarrow> sd_usable p)"

definition node_flags :: "'c ConfigFile \<Rightarrow> NodeSnapshot \<Rightarrow> ('p, 'c) GateLinkApp \<Rightarrow> u8" where
  "node_flags cf n a =
     (if (case ga_cfg a of None \<Rightarrow> True | Some st \<Rightarrow> \<not> gl_unpersisted cf st) then kNodeFlagPersisted else 0) OR
     (if (case ga_cfg a of None \<Rightarrow> False | Some st \<Rightarrow> cfg_usable st) then kNodeFlagCardWritable else 0) OR
     kNodeFlagAgeNotPersisted OR (if ga_dry_run a then kNodeFlagDryRun else 0) OR
     (if ga_bms_polling a then kNodeFlagBmsPolling else 0) OR (if ga_debug_modes a \<noteq> 0 then kNodeFlagDebug else 0) OR
     (if ns_inputs n AND kInAlarm \<noteq> 0 then kNodeFlagHardShutdown else 0)"

text \<open>The STATUS a call fills in; \<open>fill_bms_block\<close> overwrites every BMS field.\<close>

definition ga_status :: "'p GateLinkPort \<Rightarrow> 'c ConfigFile \<Rightarrow> StatusReason \<Rightarrow> u32 \<Rightarrow> ('p, 'c) GateLinkApp \<Rightarrow> GateLinkStatusV2" where
  "ga_status gp cf reason now_ms a =
     (let p = ga_port a; n = gp_snapshot gp p; g = gp_gate gp p; m = gp_mppt gp p;
          s = \<lparr>sv1_gate_state = gs_gate_state g, sv1_input_bits = ns_inputs n, sv1_hold = gs_hold g,
               sv1_movement_cause = gs_movement_cause g, sv1_last_direction = gs_last_direction g,
               sv1_detect_flags = gs_detect_flags g, sv1_last_traversal_age_s = gs_last_traversal_age_s g,
               sv1_batt_mv = ms_batt_mv m, sv1_batt_ma = ms_batt_ma m, sv1_pv_cv = ms_pv_cv m, sv1_pv_w = ms_pv_w m,
               sv1_load_ma = ms_load_ma m, sv1_yield_today = ms_yield_today m, sv1_yield_yest = ms_yield_yest m,
               sv1_pmax_today = ms_pmax_today m, sv1_yield_total = ms_yield_total m,
               sv1_charge_state = ms_charge_state m, sv1_mppt_err = ms_mppt_err m, sv1_mppt_tracker = ms_mppt_tracker m,
               sv1_mppt_flags = ms_mppt_flags m OR (if gp_charge_inhibited gp p then kMpptFlagChargeInhibited else 0),
               sv1_mppt_temp_c10 = ms_mppt_temp_c10 m,
               sv1_bms_soc = 0, sv1_bms_flags = 0, sv1_pack_mv = 0, sv1_pack_ma = 0, sv1_cell_count = 0,
               sv1_bms_rssi_neg = 0, sv1_cell_mv = [], sv1_cell_temp_c = [], sv1_bms_cycles = 0,
               sv1_bms_capacity_dah = 0, sv1_bms_alarms = 0, sv1_bms_age_s = 0,
               sv1_uptime_s = ns_uptime_s n, sv1_boot_count = ns_boot_count n, sv1_node_mv = ns_node_mv n,
               sv1_node_ma = kI16NotAvailable, sv1_enclosure_temp_c10 = ns_enclosure_temp_c10 n,
               sv1_node_flags = node_flags cf n a, sv1_status_reason = StatusReason_u8 reason\<rparr>
      in \<lparr>sv2_v1 = fill_bms_block (gp_bms gp p) now_ms s, sv2_ah_drawn_dah = gp_ah_drawn_dah gp p\<rparr>)"

definition payload_of :: "Status \<times> bytes \<times> nat option \<Rightarrow> bytes" where
  "payload_of r = (case r of (st, out, n) \<Rightarrow> if st = St_Ok then take (the n) out else [])"

definition ga_build_status ::
  "'p GateLinkPort \<Rightarrow> 'c ConfigFile \<Rightarrow> StatusReason \<Rightarrow> u32 \<Rightarrow> nat \<Rightarrow> Context \<Rightarrow> ('p, 'c) GateLinkApp \<Rightarrow>
     (bytes \<times> SchemaId) \<times> ('p, 'c) GateLinkApp" where
  "ga_build_status gp cf reason now_ms cap c a =
     ((payload_of (serialize_GateLinkStatusV2 (ga_status gp cf reason now_ms a) (replicate cap 0)), kSchemaGateLinkStatusV2), a)"

definition ga_serialize_event :: "GateLinkEventV1 \<Rightarrow> nat \<Rightarrow> bytes \<times> SchemaId" where
  "ga_serialize_event ev cap = (payload_of (serialize_GateLinkEventV1 ev (replicate cap 0)), kSchemaGateLinkEventV1)"

definition ga_build_event ::
  "'p GateLinkPort \<Rightarrow> EventType \<Rightarrow> u16 \<Rightarrow> u32 \<Rightarrow> nat \<Rightarrow> Context \<Rightarrow> ('p, 'c) GateLinkApp \<Rightarrow>
     (bytes \<times> SchemaId) \<times> Context \<times> ('p, 'c) GateLinkApp" where
  "ga_build_event gp type detail now_ms cap c a =
     (let n = gp_snapshot gp (ga_port a); g = gp_gate gp (ga_port a); (i, ids) = EventIds_next (ga_ids a) in
      (ga_serialize_event
         (GateLinkEventV1_init\<lparr>ev_event_type := EventType_u8 type, ev_hold_source := drop_bit 1 (gs_hold g) AND 0x07,
            ev_gate_state := gs_gate_state g, ev_input_bits := ns_inputs n, ev_detail := detail, ev_event_id := i,
            ev_uptime_s := ns_uptime_s n\<rparr>) cap,
       c, a\<lparr>ga_ids := ids\<rparr>))"

section \<open>HEX\<close>

definition ga_hex_forward ::
  "'p GateLinkPort \<Rightarrow> bytes \<Rightarrow> nat \<Rightarrow> u32 \<Rightarrow> Context \<Rightarrow> ('p, 'c) GateLinkApp \<Rightarrow> HexReply \<times> Context \<times> ('p, 'c) GateLinkApp" where
  "ga_hex_forward gp req cap now_ms c a =
     (let token = ga_hex_token a + 1; a = a\<lparr>ga_hex_token := token\<rparr> in
      if length req > kMaxChars then (HR_Pending, c, a\<lparr>ga_hex_refusal := Some HS_MalformedRequest\<rparr>)
      else let (ok, p) = gp_hex_submit gp \<lparr>hj_token = token, hj_hex = req\<rparr> (ga_port a); a = a\<lparr>ga_port := p\<rparr>
        in (HR_Pending, c, if ok then a else a\<lparr>ga_hex_refusal := Some HS_Busy\<rparr>))"

text \<open>The results waiting at the port, in order; the mailbox of \<open>Node\<close> holds one, so the fuel of its
  callers is 2.\<close>

fun drain_hex :: "nat \<Rightarrow> 'p GateLinkPort \<Rightarrow> ('b, ('p, 'c) GateLinkApp) Sys \<Rightarrow> ('b, ('p, 'c) GateLinkApp) Sys" where
  "drain_hex 0 gp s = s"
| "drain_hex (Suc n) gp s =
     (let (r, p) = gp_hex_take gp (ga_port (sy_app s)); s = s\<lparr>sy_app := (sy_app s)\<lparr>ga_port := p\<rparr>\<rparr> in
      case r of
        None \<Rightarrow> s
      | Some r \<Rightarrow>
          drain_hex n gp
            (if hr_token r \<noteq> ga_hex_token (sy_app s) \<or> \<not> hp_active (cx_hex_pending (sy_cx s))
             then s\<lparr>sy_app := (sy_app s)\<lparr>ga_hex_late := ga_hex_late (sy_app s) + 1\<rparr>\<rparr>
             else snd (complete_hex (hr_status r) (Some (hr_hex r)) s)))"

definition poll_hex :: "nat \<Rightarrow> 'p GateLinkPort \<Rightarrow> ('b, ('p, 'c) GateLinkApp) Sys \<Rightarrow> ('b, ('p, 'c) GateLinkApp) Sys" where
  "poll_hex fuel gp s =
     drain_hex fuel gp
       (case ga_hex_refusal (sy_app s) of
          None \<Rightarrow> s
        | Some st \<Rightarrow> snd (complete_hex st None (s\<lparr>sy_app := (sy_app s)\<lparr>ga_hex_refusal := None\<rparr>\<rparr>)))"

section \<open>Configuration\<close>

definition kParamDedupCacheDepth :: u16 where "kParamDedupCacheDepth = 0x0100"
definition kParamFragReassemblyTimeoutMs :: u16 where "kParamFragReassemblyTimeoutMs = 0x0101"
definition kParamHexTimeoutMs :: u16 where "kParamHexTimeoutMs = 0x1030"

definition apply_param ::
  "'p GateLinkPort \<Rightarrow> 'c SdPersist Store \<Rightarrow> u16 \<Rightarrow> Context \<times> ('p, 'c) GateLinkApp \<Rightarrow> Context \<times> ('p, 'c) GateLinkApp" where
  "apply_param gp st i ca =
     (case ca of (c, a) \<Rightarrow>
      let v = effective i st;
          c = (if i = kParamDedupCacheDepth then snd (on_gate (\<lambda>g. ((), cg_set_cache_depth (word_of_int v) g)) c)
               else if i = kParamFragReassemblyTimeoutMs
                 then snd (on_reassembler (\<lambda>r. ((), ra_set_timeout_ms (word_of_int v) r)) c)
               else c);
          a = (if i = kParamHexTimeoutMs then a\<lparr>ga_hex_timeout_ms := word_of_int v\<rparr> else a)
      in (c, a\<lparr>ga_port := gp_param_changed gp i v (ga_port a)\<rparr>))"

definition apply_all :: "'p GateLinkPort \<Rightarrow> Context \<Rightarrow> ('p, 'c) GateLinkApp \<Rightarrow> Context \<times> ('p, 'c) GateLinkApp" where
  "apply_all gp c a =
     (case ga_cfg a of
        None \<Rightarrow> (c, a)
      | Some st \<Rightarrow> fold (\<lambda>d ca. if pd_access d \<noteq> Ac_Phy then apply_param gp st (pd_id d) ca else ca) (tb_rows (so_table st)) (c, a))"

definition note_card :: "'c SdPersist Store \<Rightarrow> ('p, 'c) GateLinkApp \<Rightarrow> ('p, 'c) GateLinkApp" where
  "note_card st a = a\<lparr>ga_card_retry := (ga_card_retry a \<or> \<not> cfg_usable st)\<rparr>"

definition ga_config_set ::
  "'p GateLinkPort \<Rightarrow> 'c ConfigFile \<Rightarrow> ConfigEntry \<Rightarrow> Context \<Rightarrow> ('p, 'c) GateLinkApp \<Rightarrow>
     ConfigAckEntry option \<times> Context \<times> ('p, 'c) GateLinkApp" where
  "ga_config_set gp cf e c a =
     (case ga_cfg a of
        None \<Rightarrow> (None, c, a)
      | Some st \<Rightarrow>
          let ((out, _, _), st) = gl_apply cf e st;
              a = note_card st (a\<lparr>ga_cfg := Some st\<rparr>);
              (c, a) = (if cae_status out = Pa_Ok \<or> cae_status out = Pa_Clamped
                        then apply_param gp st (ce_param_id e) (c, a) else (c, a))
          in (if cae_status out \<noteq> Pa_UnknownParam then Some out else None, c, a))"

definition ga_config_get :: "u16 \<Rightarrow> Context \<Rightarrow> ('p, 'c) GateLinkApp \<Rightarrow> ConfigAckEntry option \<times> ('p, 'c) GateLinkApp" where
  "ga_config_get i c a =
     (case ga_cfg a of
        None \<Rightarrow> (None, a)
      | Some st \<Rightarrow> (let out = store_get i st in (if cae_status out \<noteq> Pa_UnknownParam then Some out else None, note_card st a)))"

definition ga_config_list :: "Context \<Rightarrow> ('p, 'c) GateLinkApp \<Rightarrow> ConfigAckEntry list \<times> ('p, 'c) GateLinkApp" where
  "ga_config_list c a =
     (case ga_cfg a of
        None \<Rightarrow> ([], a)
      | Some st \<Rightarrow> (map (\<lambda>d. store_get (pd_id d) st) (filter (\<lambda>d. pd_access d \<noteq> Ac_Phy) (tb_rows (so_table st))), note_card st a))"

definition ga_config_restore_defaults ::
  "'p GateLinkPort \<Rightarrow> 'c ConfigFile \<Rightarrow> Context \<Rightarrow> ('p, 'c) GateLinkApp \<Rightarrow> Context \<times> ('p, 'c) GateLinkApp" where
  "ga_config_restore_defaults gp cf c a =
     (case ga_cfg a of
        None \<Rightarrow> (c, a)
      | Some st \<Rightarrow> (let st = snd (gl_restore_defaults cf st) in apply_all gp c (note_card st (a\<lparr>ga_cfg := Some st\<rparr>))))"

definition ga_config_unpersisted :: "'c ConfigFile \<Rightarrow> Context \<Rightarrow> ('p, 'c) GateLinkApp \<Rightarrow> bool" where
  "ga_config_unpersisted cf c a = (case ga_cfg a of None \<Rightarrow> False | Some st \<Rightarrow> gl_unpersisted cf st)"

definition take_card_retry :: "('p, 'c) GateLinkApp \<Rightarrow> bool \<times> ('p, 'c) GateLinkApp" where
  "take_card_retry a = (ga_card_retry a, a\<lparr>ga_card_retry := False\<rparr>)"

section \<open>The application as the engine sees it\<close>

definition lift_random :: "'p GateLinkPort \<Rightarrow> ('p, 'c) GateLinkApp \<Rightarrow> u32 \<times> ('p, 'c) GateLinkApp" where
  "lift_random gp a = (let (v, p) = gp_random gp (ga_port a) in (v, a\<lparr>ga_port := p\<rparr>))"

text \<open>Every method but the two that call the engine back; those call only what is here.\<close>

definition gatelink_core :: "'p GateLinkPort \<Rightarrow> 'c ConfigFile \<Rightarrow> ('b, ('p, 'c) GateLinkApp) Application" where
  "gatelink_core gp cf =
     (Application_default (\<lambda>c a. ga_capabilities) (\<lambda>a. Some (lift_random gp)))
       \<lparr>ap_execute := ga_execute gp, ap_build_status := ga_build_status gp cf, ap_build_event := ga_build_event gp,
        ap_config_set := ga_config_set gp cf, ap_config_get := ga_config_get, ap_config_list := ga_config_list,
        ap_config_restore_defaults := ga_config_restore_defaults gp cf,
        ap_config_unpersisted := ga_config_unpersisted cf, ap_hex_forward := ga_hex_forward gp,
        ap_hex_timeout_ms := (\<lambda>c a. ga_hex_timeout_ms a + kHexBackstopMarginMs), ap_fresh_ack := ga_fresh_ack\<rparr>"

definition ga_on_poll ::
  "'b BlobStore \<Rightarrow> ('b, ('p, 'c) GateLinkApp) Application \<Rightarrow> Header \<Rightarrow> bytes \<Rightarrow> u32 \<Rightarrow>
     ('b, ('p, 'c) GateLinkApp) Sys \<Rightarrow> bool \<times> ('b, ('p, 'c) GateLinkApp) Sys" where
  "ga_on_poll bo core hdr payload now_ms s =
     (let flags = (case deserialize_Poll payload of Inr p \<Rightarrow> poll_flags p | Inl _ \<Rightarrow> 0);
          (ok, s) = send_status core (h_src hdr) SR_PollResponse now_ms s;
          s = (if ok then s else count_dropped s)
      in if flags AND 0x02 \<noteq> 0
         then let (ok, s) = send_config_readback bo core (h_src hdr) s in (True, if ok then s else count_dropped s)
         else (True, s))"

definition ga_on_ping ::
  "Header \<Rightarrow> bytes \<Rightarrow> u8 \<Rightarrow> i16 \<Rightarrow> i16 \<Rightarrow> u32 \<Rightarrow> ('b, ('p, 'c) GateLinkApp) Sys \<Rightarrow> bool \<times> ('b, ('p, 'c) GateLinkApp) Sys" where
  "ga_on_ping hdr payload fragments rssi snr now_ms s =
     (case deserialize_Ping payload of
        Inl _ \<Rightarrow> (False, s)
      | Inr p \<Rightarrow>
          let h = (header (sy_cx s) MT_Ping (h_src hdr) kSchemaNone)\<lparr>h_seq := h_seq hdr\<rparr>;
              (ok, s) = send h payload (if fragments > 1 then cx_rx_chunk (sy_cx s) else 0) s
          in (True, if ok then s else count_dropped s))"

definition gatelink_app :: "'b BlobStore \<Rightarrow> 'p GateLinkPort \<Rightarrow> 'c ConfigFile \<Rightarrow> ('b, ('p, 'c) GateLinkApp) Application" where
  "gatelink_app bo gp cf =
     (gatelink_core gp cf)\<lparr>ap_on_poll := ga_on_poll bo (gatelink_core gp cf), ap_on_ping := ga_on_ping\<rparr>"

end
