(* ===== verification/Interlock.thy ===== *)
theory Interlock
  imports BmsLink
begin

text \<open>
  The LoRa/BLE interlock of GateLink and the words it guards (\<open>firmware/gatelink/src\<close>:
  \<open>ble_interlock.h\<close>, \<open>roll_entropy.h\<close>, and the interlock of \<open>task_runtime.cpp\<close>). \<open>lora_task\<close> takes the
  mutex before a frame's media access and never waits for it; \<open>bms_task\<close> holds it for a whole BLE
  window. Each atomic access of either task to the shared words, and each reading of the clock, is a
  step of its own, so that the two tasks interleave at every one of them.
\<close>

section \<open>Held entropy\<close>

type_synonym RollEntropy = "u32 list"   \<comment> \<open>\<open>words_\<close> up to \<open>n_\<close>\<close>

definition kRollCap :: nat where "kRollCap = 4"

definition re_put :: "u32 \<Rightarrow> RollEntropy \<Rightarrow> bool \<times> RollEntropy" where
  "re_put word ws = (if word = 0 \<or> length ws = kRollCap then (False, ws) else (True, ws @ [word]))"

definition re_take :: "RollEntropy \<Rightarrow> u32 \<times> RollEntropy" where
  "re_take ws = (case ws of [] \<Rightarrow> (0, []) | w # rest \<Rightarrow> (w, rest))"

section \<open>The interlock\<close>

record Interlock =
  il_taken :: bool          \<comment> \<open>\<open>g_ble_mutex\<close>\<close>
  il_ble_holds :: bool
  il_start_ms :: u32
  il_abort_ms :: u32        \<comment> \<open>0 = not asked\<close>
  il_radio_holds :: bool
  il_tx_waits :: u32
  il_aborts_asked :: u32
  il_overruns :: u32

definition Interlock_new :: Interlock where
  "Interlock_new = \<lparr>il_taken = False, il_ble_holds = False, il_start_ms = 0, il_abort_ms = 0,
     il_radio_holds = False, il_tx_waits = 0, il_aborts_asked = 0, il_overruns = 0\<rparr>"

text \<open>\<open>xSemaphoreTake\<close> with no wait, and \<open>xSemaphoreGive\<close>.\<close>

definition mutex_try :: "Interlock \<Rightarrow> bool \<times> Interlock" where
  "mutex_try l = (if il_taken l then (False, l) else (True, l\<lparr>il_taken := True\<rparr>))"

definition mutex_give :: "Interlock \<Rightarrow> Interlock" where
  "mutex_give l = l\<lparr>il_taken := False\<rparr>"

definition ask_abort :: "u32 \<Rightarrow> Interlock \<Rightarrow> Interlock" where
  "ask_abort now_ms l =
     (if il_abort_ms l = 0
      then l\<lparr>il_abort_ms := (if now_ms = 0 then 1 else now_ms), il_aborts_asked := il_aborts_asked l + 1\<rparr> else l)"

text \<open>The first accesses of \<open>ble_interlock_tx_take\<close>: its own flag, then the mutex.\<close>

definition tx_try :: "Interlock \<Rightarrow> bool \<times> Interlock" where
  "tx_try l =
     (if il_radio_holds l then (True, l)
      else let (ok, l) = mutex_try l in (ok, if ok then l\<lparr>il_radio_holds := True\<rparr> else l))"

text \<open>The call as one, when nothing comes between its accesses.\<close>

definition ble_interlock_tx_take :: "u32 \<Rightarrow> bytes option \<Rightarrow> u32 \<Rightarrow> Interlock \<Rightarrow> bool \<times> Interlock" where
  "ble_interlock_tx_take cap_ms frame now_ms l =
     (let (ok, l) = tx_try l in
      if ok then (True, l)
      else case tx_gate (il_ble_holds l) (now_ms - il_start_ms l) cap_ms (reply_awaited frame) of
          TG_Go \<Rightarrow> (False, l)
        | TG_Wait \<Rightarrow> (False, l\<lparr>il_tx_waits := il_tx_waits l + 1\<rparr>)
        | TG_WaitAbort \<Rightarrow> (let l = ask_abort now_ms l in (False, l\<lparr>il_tx_waits := il_tx_waits l + 1\<rparr>))
        | TG_Overrun \<Rightarrow> (True, l\<lparr>il_overruns := il_overruns l + 1\<rparr>))"

definition ble_interlock_tx_release :: "Interlock \<Rightarrow> Interlock" where
  "ble_interlock_tx_release l =
     (if \<not> il_radio_holds l then l else mutex_give (l\<lparr>il_radio_holds := False\<rparr>))"

text \<open>The window's stop test; \<open>bench\<close> is the console's \<open>bms now [abort\_ms]\<close>, 0 for none.\<close>

definition ble_stop_requested :: "u32 \<Rightarrow> u32 \<Rightarrow> Interlock \<Rightarrow> bool \<times> Interlock" where
  "ble_stop_requested bench now_ms l =
     (let l = (if bench \<noteq> 0 \<and> now_ms - il_start_ms l \<ge> bench \<and> il_abort_ms l = 0
               then l\<lparr>il_abort_ms := il_start_ms l + bench\<rparr> else l)
      in (il_abort_ms l \<noteq> 0, l))"

section \<open>Drawing a ctx id\<close>

text \<open>\<open>esp_random\<close> is a step on the chip's own state. The mutex is taken and given back within the
  call, and \<open>lora_task\<close> is the only caller.\<close>

definition roll_random_u32 :: "('h \<Rightarrow> u32 \<times> 'h) \<Rightarrow> Interlock \<Rightarrow> RollEntropy \<Rightarrow> 'h \<Rightarrow> u32 \<times> Interlock \<times> RollEntropy \<times> 'h" where
  "roll_random_u32 esp_random l ws h =
     (let (held, ws) = re_take ws in
      if held \<noteq> 0 then (held, l, ws, h)
      else let (mine, l) = (if il_radio_holds l then (False, l) else mutex_try l);
               (v, h) = esp_random h
        in (v, if mine then mutex_give l else l, ws, h))"

definition boot_random_u32 ::
  "('h \<Rightarrow> u32 \<times> 'h) \<Rightarrow> u32 \<Rightarrow> Interlock \<Rightarrow> RollEntropy \<Rightarrow> 'h \<Rightarrow> u32 \<times> u32 \<times> Interlock \<times> RollEntropy \<times> 'h" where
  "boot_random_u32 esp_random boot_entropy l ws h =
     (if boot_entropy \<noteq> 0 then (boot_entropy, 0, l, ws, h)
      else let (v, l, ws, h) = roll_random_u32 esp_random l ws h in (v, 0, l, ws, h))"

section \<open>The window of bms\_task\<close>

record BmsStats =
  bv_snap :: BmsSnapshot
  bv_last_end :: BmsEnd
  bv_window_ms :: u32
  bv_window_max_ms :: u32
  bv_abort_ms :: u32
  bv_abort_max_ms :: u32
  bv_ends :: "BmsEnd \<Rightarrow> u32"
  bv_busy :: u32
  bv_suspended :: u32

text \<open>What the task publishes once the mutex is given back.\<close>

definition bms_publish :: "u32 \<Rightarrow> u32 \<Rightarrow> u32 \<Rightarrow> BmsEnd \<Rightarrow> BmsSnapshot \<Rightarrow> BmsStats \<Rightarrow> BmsStats" where
  "bms_publish start done_ms asked_at e snap b =
     (let w = done_ms - start; ab = done_ms - asked_at;
          b = b\<lparr>bv_snap := (if e = BE_Read then snap else bv_snap b), bv_last_end := e, bv_window_ms := w,
                bv_window_max_ms := max (bv_window_max_ms b) w\<rparr>;
          b = (if asked_at \<noteq> 0
               then b\<lparr>bv_abort_ms := ab, bv_abort_max_ms := max (bv_abort_max_ms b) ab\<rparr> else b)
      in b\<lparr>bv_ends := (bv_ends b)(e := bv_ends b e + 1)\<rparr>)"

text \<open>Where \<open>bms_task\<close> stands between the accesses of a window.\<close>

datatype BmsPc =
    BP_Waiting      \<comment> \<open>at \<open>ulTaskNotifyTake\<close> or \<open>xSemaphoreTake\<close>\<close>
  | BP_Taken        \<comment> \<open>the mutex taken\<close>
  | BP_Timed        \<comment> \<open>the clock read into \<open>start\<close>\<close>
  | BP_Cleared      \<comment> \<open>\<open>g_ble_abort_ms\<close> cleared\<close>
  | BP_Stamped      \<comment> \<open>\<open>g_ble_start_ms\<close> stored\<close>
  | BP_Window       \<comment> \<open>\<open>g_ble_holds\<close> set: \<open>bms_window\<close> runs\<close>
  | BP_Ended u32    \<comment> \<open>the window ended and \<open>g_ble_abort_ms\<close> read\<close>
  | BP_Closed u32   \<comment> \<open>\<open>g_ble_holds\<close> cleared\<close>

text \<open>
  Where \<open>lora_task\<close> stands in a pass with a frame to send. The first number is the time at which the
  pass read its clock; times are milliseconds since boot, and the words the tasks compare are their
  stamps. A frame on the air without the interlock carries what it was let out on: the pass's time,
  the start it read, and the cap.
\<close>

datatype LoraPc =
    LP_Idle
  | LP_Pass nat "bytes option"                      \<comment> \<open>the clock read\<close>
  | LP_Refused nat "bytes option"                   \<comment> \<open>the mutex not free\<close>
  | LP_Flag nat "bytes option" bool                 \<comment> \<open>\<open>g_ble_holds\<close> loaded\<close>
  | LP_Start nat "bytes option" bool "nat option" u32   \<comment> \<open>\<open>g_ble_start_ms\<close> loaded, \<open>window\<close> computed\<close>
  | LP_Ask nat                                      \<comment> \<open>about to ask for the window's end\<close>
  | LP_Air "(nat \<times> nat option \<times> u32) option"        \<comment> \<open>media access and the frame; \<open>None\<close> with the interlock\<close>

record Node_ble =
  nb_time :: nat
  nb_lock :: Interlock
  nb_lora :: LoraPc
  nb_pc :: BmsPc
  nb_retry :: bool
  nb_is_retry :: bool
  nb_start :: nat
  nb_stored :: "nat option"   \<comment> \<open>the start last stored in \<open>g_ble_start_ms\<close>\<close>
  nb_asked :: bool            \<comment> \<open>\<open>lora_task\<close> has asked since the abort word was last cleared\<close>
  nb_end :: BmsEnd
  nb_snap :: BmsSnapshot
  nb_stats :: BmsStats

text \<open>The gate, on the cap as it is live at that moment.\<close>

definition tx_decide :: "u32 \<Rightarrow> nat \<Rightarrow> bytes option \<Rightarrow> bool \<Rightarrow> nat option \<Rightarrow> u32 \<Rightarrow> Node_ble \<Rightarrow> Node_ble" where
  "tx_decide cap_ms t frame holds start window s =
     (case tx_gate holds window cap_ms (reply_awaited frame) of
        TG_Go \<Rightarrow> s\<lparr>nb_lora := LP_Idle\<rparr>
      | TG_Wait \<Rightarrow> s\<lparr>nb_lora := LP_Idle, nb_lock := (nb_lock s)\<lparr>il_tx_waits := il_tx_waits (nb_lock s) + 1\<rparr>\<rparr>
      | TG_WaitAbort \<Rightarrow> s\<lparr>nb_lora := LP_Ask t\<rparr>
      | TG_Overrun \<Rightarrow> s\<lparr>nb_lora := LP_Air (Some (t, start, cap_ms)), nb_lock := (nb_lock s)\<lparr>il_overruns := il_overruns (nb_lock s) + 1\<rparr>\<rparr>)"

inductive ble_step :: "Node_ble \<Rightarrow> Node_ble \<Rightarrow> bool" where
  time_passes: "ble_step s (s\<lparr>nb_time := nb_time s + d\<rparr>)"
| pass: "nb_lora s = LP_Idle \<Longrightarrow> ble_step s (s\<lparr>nb_lora := LP_Pass (nb_time s) frame\<rparr>)"
| tx_taken: "nb_lora s = LP_Pass t frame \<Longrightarrow> tx_try (nb_lock s) = (True, l) \<Longrightarrow>
    ble_step s (s\<lparr>nb_lora := LP_Air None, nb_lock := l\<rparr>)"
| tx_refused: "nb_lora s = LP_Pass t frame \<Longrightarrow> tx_try (nb_lock s) = (False, l) \<Longrightarrow>
    ble_step s (s\<lparr>nb_lora := LP_Refused t frame, nb_lock := l\<rparr>)"
| tx_flag: "nb_lora s = LP_Refused t frame \<Longrightarrow> ble_step s (s\<lparr>nb_lora := LP_Flag t frame (il_ble_holds (nb_lock s))\<rparr>)"
| tx_start: "nb_lora s = LP_Flag t frame holds \<Longrightarrow>
    ble_step s (s\<lparr>nb_lora := LP_Start t frame holds (nb_stored s) (stamp t - il_start_ms (nb_lock s))\<rparr>)"
| tx_gated: "nb_lora s = LP_Start t frame holds start window \<Longrightarrow> ble_step s (tx_decide cap_ms t frame holds start window s)"
| tx_ask: "nb_lora s = LP_Ask t \<Longrightarrow> l = ask_abort (stamp t) (nb_lock s) \<Longrightarrow>
    ble_step s (s\<lparr>nb_lora := LP_Idle, nb_asked := True, nb_lock := l\<lparr>il_tx_waits := il_tx_waits l + 1\<rparr>\<rparr>)"
| tx_done: "nb_lora s = LP_Air x \<Longrightarrow> ble_step s (s\<lparr>nb_lora := LP_Idle, nb_lock := ble_interlock_tx_release (nb_lock s)\<rparr>)"
| suspended: "nb_pc s = BP_Waiting \<Longrightarrow>
    ble_step s (s\<lparr>nb_retry := False, nb_stats := (nb_stats s)\<lparr>bv_suspended := bv_suspended (nb_stats s) + 1\<rparr>\<rparr>)"
| busy: "nb_pc s = BP_Waiting \<Longrightarrow> il_taken (nb_lock s) \<Longrightarrow>
    ble_step s (s\<lparr>nb_retry := False, nb_stats := (nb_stats s)\<lparr>bv_busy := bv_busy (nb_stats s) + 1\<rparr>\<rparr>)"
| take_mutex: "nb_pc s = BP_Waiting \<Longrightarrow> mutex_try (nb_lock s) = (True, l) \<Longrightarrow>
    ble_step s (s\<lparr>nb_lock := l, nb_pc := BP_Taken, nb_is_retry := nb_retry s, nb_retry := False\<rparr>)"
| read_clock: "nb_pc s = BP_Taken \<Longrightarrow> ble_step s (s\<lparr>nb_pc := BP_Timed, nb_start := nb_time s\<rparr>)"
| clear_abort: "nb_pc s = BP_Timed \<Longrightarrow>
    ble_step s (s\<lparr>nb_lock := (nb_lock s)\<lparr>il_abort_ms := 0\<rparr>, nb_pc := BP_Cleared, nb_asked := False\<rparr>)"
| stamp: "nb_pc s = BP_Cleared \<Longrightarrow>
    ble_step s (s\<lparr>nb_lock := (nb_lock s)\<lparr>il_start_ms := stamp (nb_start s)\<rparr>, nb_stored := Some (nb_start s), nb_pc := BP_Stamped\<rparr>)"
| hold: "nb_pc s = BP_Stamped \<Longrightarrow>
    ble_step s (s\<lparr>nb_lock := (nb_lock s)\<lparr>il_ble_holds := True\<rparr>, nb_pc := BP_Window\<rparr>)"
| poll_stop: "nb_pc s = BP_Window \<Longrightarrow>
    ble_step s (s\<lparr>nb_lock := snd (ble_stop_requested bench now (nb_lock s))\<rparr>)"
| window_ends: "nb_pc s = BP_Window \<Longrightarrow>
    ble_step s (s\<lparr>nb_pc := BP_Ended (il_abort_ms (nb_lock s)), nb_end := e, nb_snap := snap,
      nb_retry := bms_retry_next e (nb_is_retry s)\<rparr>)"
| close: "nb_pc s = BP_Ended asked \<Longrightarrow>
    ble_step s (s\<lparr>nb_lock := (nb_lock s)\<lparr>il_ble_holds := False\<rparr>, nb_pc := BP_Closed asked\<rparr>)"
| give: "nb_pc s = BP_Closed asked \<Longrightarrow>
    ble_step s (s\<lparr>nb_lock := mutex_give (nb_lock s), nb_pc := BP_Waiting,
      nb_stats := bms_publish (stamp (nb_start s)) done_ms asked (nb_end s) (nb_snap s) (nb_stats s)\<rparr>)"

definition Node_ble_new :: Node_ble where
  "Node_ble_new = \<lparr>nb_time = 0, nb_lock = Interlock_new, nb_lora = LP_Idle, nb_pc = BP_Waiting, nb_retry = False,
     nb_is_retry = False, nb_start = 0, nb_stored = None, nb_asked = False, nb_end = BE_Count, nb_snap = BmsSnapshot_init,
     nb_stats = \<lparr>bv_snap = BmsSnapshot_init, bv_last_end = BE_Count, bv_window_ms = 0, bv_window_max_ms = 0,
       bv_abort_ms = 0, bv_abort_max_ms = 0, bv_ends = (\<lambda>_. 0), bv_busy = 0, bv_suspended = 0\<rparr>\<rparr>"

section \<open>Exclusion\<close>

fun in_window :: "BmsPc \<Rightarrow> bool" where
  "in_window BP_Window = True"
| "in_window (BP_Ended _) = True"
| "in_window _ = False"

text \<open>What the radio knows at each point of its pass.\<close>

fun lora_ok :: "LoraPc \<Rightarrow> Node_ble \<Rightarrow> bool" where
  "lora_ok (LP_Flag t frame holds) s = (holds \<longrightarrow> nb_stored s \<noteq> None)"
| "lora_ok (LP_Start t frame holds start window) s =
     (holds \<longrightarrow> (\<exists>ts. start = Some ts \<and> window = stamp t - stamp ts))"
| "lora_ok (LP_Air (Some (t, start, cap))) s = (\<exists>ts. start = Some ts \<and> stamp t - stamp ts \<ge> cap)"
| "lora_ok _ s = True"

definition ble_inv :: "Node_ble \<Rightarrow> bool" where
  "ble_inv s \<longleftrightarrow>
     (il_taken (nb_lock s) \<longleftrightarrow> il_radio_holds (nb_lock s) \<or> nb_pc s \<noteq> BP_Waiting) \<and>
     (il_radio_holds (nb_lock s) \<longrightarrow> nb_pc s = BP_Waiting) \<and>
     (il_radio_holds (nb_lock s) \<longleftrightarrow> nb_lora s = LP_Air None) \<and>
     (il_ble_holds (nb_lock s) \<longleftrightarrow> in_window (nb_pc s)) \<and>
     (nb_pc s = BP_Stamped \<or> in_window (nb_pc s) \<longrightarrow> nb_stored s = Some (nb_start s)) \<and>
     (\<forall>ts. nb_stored s = Some ts \<longrightarrow> il_start_ms (nb_lock s) = stamp ts) \<and>
     (nb_asked s \<longrightarrow> il_abort_ms (nb_lock s) \<noteq> 0) \<and> lora_ok (nb_lora s) s"

lemmas lock_defs = mutex_try_def mutex_give_def ask_abort_def tx_try_def
  ble_interlock_tx_release_def ble_stop_requested_def

lemma ble_inv_new: "ble_inv Node_ble_new"
  by (simp add: ble_inv_def Node_ble_new_def Interlock_new_def)

lemma lora_ok_same: "nb_stored s' = nb_stored s \<Longrightarrow> lora_ok p s' = lora_ok p s"
  by (cases "(p, s)" rule: lora_ok.cases) simp_all

lemma lora_ok_stored: "nb_stored s' \<noteq> None \<Longrightarrow> lora_ok p s \<Longrightarrow> lora_ok p s'"
  by (cases "(p, s)" rule: lora_ok.cases) simp_all

lemma decide_inv: "ble_inv s \<Longrightarrow> nb_lora s = LP_Start t frame holds start window \<Longrightarrow> ble_inv (tx_decide cap t frame holds start window s)"
  by (auto simp: ble_inv_def tx_decide_def tx_gate_def)

lemma ble_inv_step:
  assumes "ble_step s s'" "ble_inv s"
  shows "ble_inv s'"
  using assms
proof (cases rule: ble_step.cases)
  case (tx_gated t frame holds start window cap)
  with assms(2) decide_inv show ?thesis by simp
next
  case stamp
  with assms(2) lora_ok_stored [of "s'" "nb_lora s" s] show ?thesis by (auto simp: ble_inv_def)
next
  case (poll_stop bench now)
  then show ?thesis using assms(2) lora_ok_same [of s' s]
    by (auto simp: ble_inv_def ble_stop_requested_def Let_def)
qed (use lora_ok_same [of s' s] in \<open>auto simp: ble_inv_def lock_defs Let_def split: if_splits\<close>)

lemma ble_inv_reachable:
  assumes "ble_step\<^sup>*\<^sup>* Node_ble_new s"
  shows "ble_inv s"
  using assms by (induction rule: rtranclp_induct) (auto intro: ble_inv_new ble_inv_step)

text \<open>Without interference, the accesses of a pass are the call.\<close>

lemma tx_take_pieces:
  assumes "ble_interlock_tx_take cap frame (stamp t) (nb_lock s) = (go, l)" "\<not> fst (tx_try (nb_lock s))"
    "s' = tx_decide cap t frame (il_ble_holds (nb_lock s)) (nb_stored s) (stamp t - il_start_ms (nb_lock s)) s"
  shows "go \<longleftrightarrow> nb_lora s' = LP_Air (Some (t, nb_stored s, cap))"
    "nb_lora s' \<noteq> LP_Ask t \<Longrightarrow> l = nb_lock s'"
    "nb_lora s' = LP_Ask t \<Longrightarrow> l = (ask_abort (stamp t) (nb_lock s'))\<lparr>il_tx_waits := il_tx_waits (ask_abort (stamp t) (nb_lock s')) + 1\<rparr>"
  using assms by (auto simp: ble_interlock_tx_take_def tx_decide_def tx_gate_def lock_defs Let_def split: if_splits TxGate.splits)

text \<open>
  C37: the radio and the BLE controller exclude each other, short of a stale clock. Whatever order
  the accesses of \<open>lora_task\<close> and \<open>bms_task\<close> take, and however long either is held up between two of
  them: while the radio holds the interlock no BLE window is open or opening; a frame on the air
  without the interlock was let out on a window's start that lay at least the cap back when the pass
  read its clock, or on one later than that reading; and once \<open>lora_task\<close> has asked for the window's
  end, every stop test of that window says so. (The draw of a context id, which takes the mutex and
  gives it back within \<open>lora_task\<close>, is left out.)
\<close>

theorem interlock_excludes_ble:
  assumes "ble_step\<^sup>*\<^sup>* Node_ble_new s"
  shows "(nb_lora s = LP_Air None \<longrightarrow> il_radio_holds (nb_lock s) \<and> nb_pc s = BP_Waiting \<and> \<not> il_ble_holds (nb_lock s)) \<and>
    (\<forall>t start cap. nb_lora s = LP_Air (Some (t, start, cap)) \<longrightarrow> (\<exists>ts. start = Some ts \<and> (ts + unat cap \<le> t \<or> t < ts))) \<and>
    (nb_asked s \<longrightarrow> fst (ble_stop_requested bench now (nb_lock s)))"
proof -
  note inv = ble_inv_reachable [OF assms]
  have age: "ts + unat cap \<le> t \<or> t < ts" if "stamp t - stamp ts \<ge> cap" for t ts cap
  proof (rule ccontr)
    assume "\<not> (ts + unat cap \<le> t \<or> t < ts)"
    then have "ts \<le> t" "t - ts < unat cap" by auto
    with elapsed_at_most [of ts t] that show False by (simp add: word_le_nat_alt)
  qed
  have "nb_lora s = LP_Air None \<longrightarrow> il_radio_holds (nb_lock s) \<and> nb_pc s = BP_Waiting \<and> \<not> il_ble_holds (nb_lock s)"
    using inv by (auto simp: ble_inv_def)
  moreover have "\<exists>ts. start = Some ts \<and> (ts + unat cap \<le> t \<or> t < ts)" if "nb_lora s = LP_Air (Some (t, start, cap))" for t start cap
  proof -
    have "lora_ok (nb_lora s) s" using inv by (simp add: ble_inv_def)
    then show ?thesis using age that by auto
  qed
  moreover have "nb_asked s \<longrightarrow> fst (ble_stop_requested bench now (nb_lock s))"
    using inv by (simp add: ble_inv_def ble_stop_requested_def Let_def)
  ultimately show ?thesis by blast
qed

text \<open>A first pass that finds the mutex free.\<close>

definition on_air :: Node_ble where
  "on_air = Node_ble_new\<lparr>nb_lora := LP_Air None, nb_lock := Interlock_new\<lparr>il_taken := True, il_radio_holds := True\<rparr>\<rparr>"

lemma on_air_reachable: "ble_step\<^sup>*\<^sup>* Node_ble_new on_air"
proof -
  let ?a = "Node_ble_new\<lparr>nb_lora := LP_Pass 0 None\<rparr>"
  let ?l = "Interlock_new\<lparr>il_taken := True, il_radio_holds := True\<rparr>"
  have "ble_step Node_ble_new ?a" using ble_step.pass [of Node_ble_new None] by (simp add: Node_ble_new_def)
  moreover have "ble_step ?a on_air" using ble_step.tx_taken [of ?a 0 None ?l]
    by (simp add: on_air_def Node_ble_new_def Interlock_new_def tx_try_def mutex_try_def)
  ultimately show ?thesis by (meson rtranclp.rtrancl_into_rtrancl rtranclp.rtrancl_refl)
qed

theorem interlock_excludes_ble_witness:
  "nb_lora on_air = LP_Air None \<and> il_radio_holds (nb_lock on_air) \<and> nb_pc on_air = BP_Waiting \<and> \<not> il_ble_holds (nb_lock on_air)"
  using interlock_excludes_ble [OF on_air_reachable, of 0 0] by (simp add: on_air_def)

text \<open>
  A pass that read its clock at 1000 and reaches the interlock after a window that started at 1001:
  both compare the same two words, so the window is taken for one that outlived its cap.
\<close>

definition early_pass :: "bytes option \<Rightarrow> Node_ble" where
  "early_pass frame = Node_ble_new\<lparr>nb_time := 1001, nb_lora := LP_Pass 1000 frame, nb_pc := BP_Window, nb_start := 1001,
     nb_stored := Some 1001, nb_lock := Interlock_new\<lparr>il_taken := True, il_start_ms := stamp 1001, il_ble_holds := True\<rparr>\<rparr>"

lemma early_pass_reachable: "ble_step\<^sup>*\<^sup>* Node_ble_new (early_pass frame)"
proof -
  let ?a = "Node_ble_new\<lparr>nb_time := 1000\<rparr>" let ?b = "?a\<lparr>nb_lora := LP_Pass 1000 frame\<rparr>" let ?c = "?b\<lparr>nb_time := 1001\<rparr>"
  let ?l = "Interlock_new\<lparr>il_taken := True\<rparr>"
  let ?d = "?c\<lparr>nb_lock := ?l, nb_pc := BP_Taken\<rparr>" let ?e = "?d\<lparr>nb_pc := BP_Timed, nb_start := 1001\<rparr>"
  let ?f = "?e\<lparr>nb_pc := BP_Cleared\<rparr>"
  let ?g = "?f\<lparr>nb_lock := ?l\<lparr>il_start_ms := stamp 1001\<rparr>, nb_stored := Some 1001, nb_pc := BP_Stamped\<rparr>"
  note d = Node_ble_new_def Interlock_new_def
  have "ble_step Node_ble_new ?a" using ble_step.time_passes [of Node_ble_new 1000] by (simp add: d)
  moreover have "ble_step ?a ?b" using ble_step.pass [of ?a frame] by (simp add: d)
  moreover have "ble_step ?b ?c" using ble_step.time_passes [of ?b 1] by (simp add: d)
  moreover have "ble_step ?c ?d" using ble_step.take_mutex [of ?c ?l] by (simp add: d mutex_try_def)
  moreover have "ble_step ?d ?e" using ble_step.read_clock [of ?d] by simp
  moreover have "ble_step ?e ?f" using ble_step.clear_abort [of ?e] by (simp add: d)
  moreover have "ble_step ?f ?g" using ble_step.stamp [of ?f] by simp
  moreover have "ble_step ?g (early_pass frame)" using ble_step.hold [of ?g] by (simp add: early_pass_def d)
  ultimately show ?thesis by (meson rtranclp.rtrancl_into_rtrancl rtranclp.rtrancl_refl)
qed

text \<open>
  A window that opens between the pass's clock reading and its look at the interlock is taken for
  one that outlived its cap, whatever the cap is. \<open>now - start\<close> is then a negative number read as an
  unsigned one, so the frame goes out, counted as an overrun, while the window has run for no time at
  all.
\<close>

theorem stale_clock_overruns_window:
  "\<exists>s. ble_step\<^sup>*\<^sup>* Node_ble_new s \<and> nb_lora s = LP_Air (Some (1000, Some 1001, cap)) \<and> nb_pc s = BP_Window \<and>
     nb_start s = 1001 \<and> nb_time s = 1001 \<and> il_ble_holds (nb_lock s) \<and> \<not> il_radio_holds (nb_lock s)"
proof -
  let ?w = "stamp 1000 - stamp 1001"
  let ?a = "(early_pass None)\<lparr>nb_lora := LP_Refused 1000 None\<rparr>" let ?b = "?a\<lparr>nb_lora := LP_Flag 1000 None True\<rparr>"
  let ?c = "?b\<lparr>nb_lora := LP_Start 1000 None True (Some 1001) ?w\<rparr>"
  let ?d = "tx_decide cap 1000 None True (Some 1001) ?w ?c"
  note d = early_pass_def Node_ble_new_def Interlock_new_def
  have "ble_step (early_pass None) ?a"
    using ble_step.tx_refused [of "early_pass None" 1000 None "nb_lock (early_pass None)"] by (simp add: d tx_try_def mutex_try_def)
  moreover have "ble_step ?a ?b" using ble_step.tx_flag [of ?a 1000 None] by (simp add: d)
  moreover have "ble_step ?b ?c" using ble_step.tx_start [of ?b 1000 None True] by (simp add: d)
  moreover have "ble_step ?c ?d" using ble_step.tx_gated [of ?c 1000 None True "Some 1001" ?w cap] by simp
  ultimately have r: "ble_step\<^sup>*\<^sup>* Node_ble_new ?d"
    using early_pass_reachable [of None] by (meson rtranclp.rtrancl_into_rtrancl)
  have "?w = - 1" by (simp add: stamp_def)
  then have "cap \<le> ?w" by simp
  then have "tx_gate True ?w cap (reply_awaited None) = TG_Overrun" by (simp add: tx_gate_def)
  with r show ?thesis by (intro exI [of _ ?d]) (simp add: tx_decide_def d)
qed

section \<open>Each word is spent once\<close>

text \<open>Whatever order words come and go, those taken and those held are those accepted, in order.\<close>

datatype entropy_op = EO_Put u32 | EO_Take

fun entropy_run :: "entropy_op list \<Rightarrow> RollEntropy \<Rightarrow> u32 list \<times> u32 list \<times> RollEntropy" where
  "entropy_run [] ws = ([], [], ws)"
| "entropy_run (EO_Put w # ops) ws =
     (let (ok, ws) = re_put w ws; (acc, spent, ws) = entropy_run ops ws in (if ok then w # acc else acc, spent, ws))"
| "entropy_run (EO_Take # ops) ws =
     (let (v, ws) = re_take ws; (acc, spent, ws) = entropy_run ops ws in (acc, if v \<noteq> 0 then v # spent else spent, ws))"

lemma entropy_is_spent_once:
  assumes "entropy_run ops ws = (acc, spent, ws')" "0 \<notin> set ws" "length ws \<le> kRollCap"
  shows "ws @ acc = spent @ ws' \<and> length ws' \<le> kRollCap \<and> 0 \<notin> set spent"
  using assms
proof (induction ops ws arbitrary: acc spent ws' rule: entropy_run.induct)
  case (2 w ops ws)
  then show ?case by (fastforce simp: re_put_def split: prod.splits if_splits)
next
  case (3 ops ws)
  then show ?case by (cases ws) (fastforce simp: re_take_def split: prod.splits if_splits)+
qed simp

end
