(* ===== verification/NodePort.thy ===== *)
theory NodePort
  imports GateLinkApp Interlock
begin

text \<open>
  What GateLink's tasks share, and the port through which the protocol node reaches them
  (\<open>firmware/gatelink/src/task_runtime.cpp\<close>: the live parameters, \<open>Node\<close> as \<open>GateLinkPort\<close>, one pass
  of \<open>vedirect_task\<close>, and the part of \<open>start_tasks\<close> that fills them). A queue of depth 1 is an option.
  The chip is a parameter: \<open>esp_random\<close> and \<open>esp_task_wdt_init\<close> are steps on its own state.
\<close>

section \<open>Shared state\<close>

record 'h Hardware =
  hw_random :: "'h \<Rightarrow> u32 \<times> 'h"
  hw_wdt_init :: "u32 \<Rightarrow> 'h \<Rightarrow> bool \<times> 'h"

record VedView =
  vv_mppt :: MpptSnapshot
  vv_busy :: bool
  vv_result :: "HexResult option"   \<comment> \<open>\<open>result\<close> while \<open>result_ready\<close>\<close>
  vv_have_block :: bool
  vv_block_age_ms :: u32
  vv_text :: TextCounters
  vv_link :: VedCounters

record 'h NodeShared =
  np_cmd_q :: "RelaySequence option"
  np_hex_q :: "HexJob option"
  np_inputs :: u8
  np_bus_mv :: u16
  np_temp_c10 :: i16
  np_time_us :: nat                \<comment> \<open>\<open>esp_timer_get_time\<close>\<close>
  np_gate :: GateSnapshot
  np_bms :: BmsSnapshot
  np_charge_inhibited :: bool
  np_ah_drawn_dah :: u16
  np_bms_polling :: bool
  np_ved :: VedView
  np_live :: "Value list"          \<comment> \<open>\<open>g_live\<close>\<close>
  np_media :: "u8 \<times> u32"           \<comment> \<open>the last \<open>radio_set_media_access\<close>\<close>
  np_wdt_timeout_s :: u32
  np_lock :: Interlock
  np_entropy :: RollEntropy
  np_chip :: 'h

section \<open>Live parameters\<close>

definition kParamCadRetries :: u16 where "kParamCadRetries = 0x0102"
definition kParamBackoffMaxMs :: u16 where "kParamBackoffMaxMs = 0x0103"
definition kParamVedirectStaleS :: u16 where "kParamVedirectStaleS = 0x1031"
definition kParamBmsWindowMaxMs :: u16 where "kParamBmsWindowMaxMs = 0x1042"

definition live_index :: "u16 \<Rightarrow> nat" where
  "live_index i =
     (case List.find (\<lambda>k. pd_id (tb_rows gatelink_table ! k) = i) [0..<length (tb_rows gatelink_table)] of
        None \<Rightarrow> kMaxTableParams | Some k \<Rightarrow> k)"

definition live_param :: "u16 \<Rightarrow> 'h NodeShared \<Rightarrow> u32" where
  "live_param i n = (let k = live_index i in if k < kMaxTableParams then word_of_int (np_live n ! k) else param_default i)"

definition publish_param :: "u16 \<Rightarrow> Value \<Rightarrow> 'h NodeShared \<Rightarrow> 'h NodeShared" where
  "publish_param i v n = (let k = live_index i in if k < kMaxTableParams then n\<lparr>np_live := (np_live n)[k := v]\<rparr> else n)"

definition apply_watchdog_timeout :: "'h Hardware \<Rightarrow> u32 \<Rightarrow> 'h NodeShared \<Rightarrow> bool \<times> 'h NodeShared" where
  "apply_watchdog_timeout hw seconds n =
     (let s = watchdog_timeout_in_range seconds; (ok, h) = hw_wdt_init hw s (np_chip n); n = n\<lparr>np_chip := h\<rparr>
      in if ok then (True, n\<lparr>np_wdt_timeout_s := s\<rparr>) else (False, n))"

section \<open>Node as GateLinkPort\<close>

definition np_dispatch :: "RelaySequence \<Rightarrow> 'h NodeShared \<Rightarrow> bool \<times> 'h NodeShared" where
  "np_dispatch sq n = (case np_cmd_q n of None \<Rightarrow> (True, n\<lparr>np_cmd_q := Some sq\<rparr>) | Some _ \<Rightarrow> (False, n))"

definition np_snapshot :: "'h NodeShared \<Rightarrow> NodeSnapshot" where
  "np_snapshot n = \<lparr>ns_inputs = np_inputs n, ns_node_mv = np_bus_mv n, ns_enclosure_temp_c10 = np_temp_c10 n,
     ns_uptime_s = word_of_nat (np_time_us n div 1000000), ns_boot_count = 0\<rparr>"

definition np_hex_submit :: "HexJob \<Rightarrow> 'h NodeShared \<Rightarrow> bool \<times> 'h NodeShared" where
  "np_hex_submit job n =
     (if vv_busy (np_ved n) then (False, n)
      else case np_hex_q n of None \<Rightarrow> (True, n\<lparr>np_hex_q := Some job\<rparr>) | Some _ \<Rightarrow> (False, n))"

definition np_hex_take :: "'h NodeShared \<Rightarrow> HexResult option \<times> 'h NodeShared" where
  "np_hex_take n = (vv_result (np_ved n), n\<lparr>np_ved := (np_ved n)\<lparr>vv_result := None\<rparr>\<rparr>)"

definition np_param_changed :: "'h Hardware \<Rightarrow> u16 \<Rightarrow> Value \<Rightarrow> 'h NodeShared \<Rightarrow> 'h NodeShared" where
  "np_param_changed hw i v n =
     (let n = publish_param i v n in
      if i = kParamCadRetries \<or> i = kParamBackoffMaxMs
      then n\<lparr>np_media := (ucast (live_param kParamCadRetries n), live_param kParamBackoffMaxMs n)\<rparr>
      else if i = kParamWatchdogTimeoutS \<and> word_of_int v \<noteq> np_wdt_timeout_s n
      then snd (apply_watchdog_timeout hw (word_of_int v) n)
      else n)"

definition np_random :: "'h Hardware \<Rightarrow> 'h NodeShared \<Rightarrow> u32 \<times> 'h NodeShared" where
  "np_random hw n =
     (let (v, l, ws, h) = roll_random_u32 (hw_random hw) (np_lock n) (np_entropy n) (np_chip n)
      in (v, n\<lparr>np_lock := l, np_entropy := ws, np_chip := h\<rparr>))"

definition node_port :: "'h Hardware \<Rightarrow> 'h NodeShared GateLinkPort" where
  "node_port hw =
     \<lparr>gp_dispatch = np_dispatch, gp_snapshot = np_snapshot, gp_gate = np_gate, gp_mppt = (\<lambda>n. vv_mppt (np_ved n)),
      gp_bms = np_bms, gp_charge_inhibited = np_charge_inhibited, gp_ah_drawn_dah = np_ah_drawn_dah,
      gp_bms_polling_changed = (\<lambda>on n. n\<lparr>np_bms_polling := on\<rparr>), gp_hex_submit = np_hex_submit,
      gp_hex_take = np_hex_take, gp_param_changed = np_param_changed hw, gp_random = np_random hw\<rparr>"

section \<open>start\_tasks\<close>

text \<open>The words \<open>start_tasks\<close> draws: the boot's, then as many as fill the held ones. A zero is not
  held, so the loop draws again; \<open>fuel\<close> bounds the draws.\<close>

fun fill_entropy :: "nat \<Rightarrow> 'h Hardware \<Rightarrow> RollEntropy \<Rightarrow> 'h \<Rightarrow> (RollEntropy \<times> 'h) option" where
  "fill_entropy 0 hw ws h = (if length ws < kRollCap then None else Some (ws, h))"
| "fill_entropy (Suc k) hw ws h =
     (if length ws < kRollCap then let (v, h) = hw_random hw h in fill_entropy k hw (snd (re_put v ws)) h else Some (ws, h))"

text \<open>The live values and the watchdog, once the card has been read into the store.\<close>

definition start_live :: "'h Hardware \<Rightarrow> 'c SdPersist Store \<Rightarrow> 'h NodeShared \<Rightarrow> 'h NodeShared" where
  "start_live hw st n =
     (let n = n\<lparr>np_live := fold (\<lambda>k l. l[k := effective (pd_id (tb_rows (so_table st) ! k)) st]) [0..<length (tb_rows (so_table st))] (np_live n)\<rparr>
      in snd (apply_watchdog_timeout hw (live_param kParamWatchdogTimeoutS n) n))"

section \<open>One pass of vedirect\_task\<close>

definition kVedWaitMs :: u32 where "kVedWaitMs = 20"

record 'w VedTask =
  vt_params :: VedParams
  vt_link :: "'w VedLink"

definition live_ved_params :: "'h NodeShared \<Rightarrow> VedParams" where
  "live_ved_params n = \<lparr>vp_hex_timeout_ms = live_param kParamHexTimeoutMs n, vp_stale_ms = live_param kParamVedirectStaleS n * 1000\<rparr>"

definition vedirect_pass ::
  "'w VedWriter \<Rightarrow> bytes \<Rightarrow> u32 \<Rightarrow> 'w VedTask \<Rightarrow> 'h NodeShared \<Rightarrow> bool \<times> 'w VedTask \<times> 'h NodeShared" where
  "vedirect_pass wr received now t n =
     (let live = live_ved_params n;
          t = (if live \<noteq> vt_params t then t\<lparr>vt_params := live, vt_link := vl_set_params live (vt_link t)\<rparr> else t);
          v = fold (\<lambda>b. vl_feed b now) received (vt_link t);
          (v, q) = (case np_hex_q n of
                      None \<Rightarrow> (v, None)
                    | Some job \<Rightarrow> if vl_active v then (v, Some job) else (snd (vl_start wr job now v), None));
          v = vl_tick wr now v;
          (r, v) = vl_take_result v;
          view = (np_ved n)\<lparr>vv_mppt := vl_mppt now v, vv_busy := vl_active v, vv_have_block := vl_have_block v,
                    vv_block_age_ms := now - vl_last_block_ms v, vv_text := tp_counters (vl_text v),
                    vv_link := vl_counters v\<rparr>;
          view = (case r of None \<Rightarrow> view | Some x \<Rightarrow> view\<lparr>vv_result := Some x\<rparr>)
      in (r \<noteq> None, t\<lparr>vt_link := v\<rparr>, n\<lparr>np_ved := view, np_hex_q := q\<rparr>))"

text \<open>
  The pass as calls on the link, in the order the task makes them. A link that is idle when the pass
  begins, with its last result taken, starts its next job over no waiting result.
\<close>

definition ved_pass_calls :: "bytes \<Rightarrow> nat \<Rightarrow> 'w VedTask \<Rightarrow> 'h NodeShared \<Rightarrow> (nat \<times> ved_call) list" where
  "ved_pass_calls received now t n =
     (if live_ved_params n \<noteq> vt_params t then [(now, VC_Params (live_ved_params n))] else []) @
     map (\<lambda>b. (now, VC_Feed b)) received @ (case np_hex_q n of None \<Rightarrow> [] | Some job \<Rightarrow> [(now, VC_Start job)]) @
     [(now, VC_Tick), (now, VC_Take)]"

lemma fold_feeds:
  "fold (ved_apply wr) (map (\<lambda>b. (now, VC_Feed b)) bs) r = r\<lparr>vr_link := fold (\<lambda>b. vl_feed b (stamp now)) bs (vr_link r)\<rparr>"
  by (induction bs arbitrary: r) simp_all

lemma vedirect_pass_run:
  "vt_link (fst (snd (vedirect_pass wr received (stamp now) t n))) =
     vr_link (fold (ved_apply wr) (ved_pass_calls received now t n) \<lparr>vr_link = vt_link t, vr_took = jobs, vr_answers = given\<rparr>)"
  by (auto simp: vedirect_pass_def ved_pass_calls_def fold_feeds Let_def split_beta vl_start_def split: option.split)

lemma feeds_idle:
  "\<not> vl_active v \<and> vl_result v = None \<Longrightarrow> \<not> vl_active (fold (\<lambda>b. vl_feed b now) bs v) \<and> vl_result (fold (\<lambda>b. vl_feed b now) bs v) = None"
proof (induction bs arbitrary: v)
  case (Cons b bs)
  then have "\<not> vl_active (vl_feed b now v) \<and> vl_result (vl_feed b now v) = None"
    using settles_feed [of v b now] by (auto simp: settle_defs split: option.splits if_splits)
  with Cons.IH show ?case by simp
qed simp

lemma starts_clear_feeds:
  "starts_clear wr (map (\<lambda>b. (now, VC_Feed b)) bs @ cs) r =
     starts_clear wr cs (r\<lparr>vr_link := fold (\<lambda>b. vl_feed b (stamp now)) bs (vr_link r)\<rparr>)"
  by (induction bs arbitrary: r) simp_all

lemma vedirect_pass_clear:
  assumes "\<not> vl_active (vt_link t)" "vl_result (vt_link t) = None"
  shows "starts_clear wr (ved_pass_calls received now t n) \<lparr>vr_link = vt_link t, vr_took = jobs, vr_answers = given\<rparr>"
proof -
  have "vl_result (fold (\<lambda>b. vl_feed b (stamp now)) received (vt_link t)) = None"
    "vl_result (fold (\<lambda>b. vl_feed b (stamp now)) received (vl_set_params p (vt_link t))) = None" for p
    using feeds_idle [of "vt_link t" "stamp now" received] feeds_idle [of "vl_set_params p (vt_link t)" "stamp now" received] assms
    by (simp_all add: vl_set_params_def)
  then show ?thesis by (simp add: ved_pass_calls_def starts_clear_feeds split: option.split)
qed

end
