(* ===== verification/GateLinkCorrect.thy ===== *)
theory GateLinkCorrect
  imports NodePort EngineCommand
begin

text \<open>
  GateLink's application under the engine: an actuation command reaches the relays once and is
  acknowledged when the relays are done, a command that finishes at once runs once and is answered
  from the cache after that, and a roll waits for the command in flight.
\<close>

interpretation gatelink: quiet_app "gatelink_app bo gp cf" for bo :: "'b BlobStore" and gp :: "'p GateLinkPort"
  and cf :: "'c ConfigFile"
  by unfold_locales (simp_all add: gatelink_app_def gatelink_core_def Application_default_def ga_fresh_ack_def)

section \<open>What an actuation command does\<close>

lemma relay_sequence_actuates:
  "relay_sequence_for cmd = Some seq \<Longrightarrow>
   cmd_cmd cmd \<noteq> Cmd_Nop \<and> cmd_cmd cmd \<le> 0x0F \<and> cmd_cmd cmd \<noteq> Cmd_RollContext"
  by (auto simp: relay_sequence_for_def split: if_splits)

lemma execute_dispatches:
  assumes "relay_sequence_for cmd = Some seq" "\<not> ga_dry_run a" "gp_dispatch gp seq (ga_port a) = (True, p)"
  shows "ap_execute (gatelink_app bo gp cf) cmd now_ms c a =
    (outcome AR_Accepted AA_None True, c, a\<lparr>ga_port := p, ga_dispatched := ga_dispatched a + 1\<rparr>)"
  using assms relay_sequence_actuates [OF assms(1)]
  by (simp add: gatelink_app_def gatelink_core_def ga_execute_def Let_def)

lemma fresh_ack_sent:
  "\<not> ga_withhold_ack (sy_app s) \<Longrightarrow>
   send_fresh_ack (gatelink_app bo gp cf) peer q r d s = snd (send_ack peer q r d s)"
  by (simp add: send_fresh_ack_def ask_def gatelink_app_def gatelink_core_def ga_fresh_ack_def)

text \<open>The gate while the command is with the relays, and what the pending record says.\<close>

lemma defer_command_keeps:
  "sy_app (defer_command bo hdr cmd now_ms out a s) = a"
  "sy_engine (defer_command bo hdr cmd now_ms out a s) = (sy_engine s)\<lparr>en_phy := pt_on_authenticated bo (en_phy (sy_engine s))\<rparr>"
  "cx_pending (sy_cx (defer_command bo hdr cmd now_ms out a s)) =
     \<lparr>pd_active = True, pd_peer = h_src hdr, pd_seq = h_seq hdr, pd_cmd = cmd_cmd cmd, pd_result = co_result out,
      pd_detail = co_detail out, pd_after = co_after out, pd_start_ms = now_ms\<rparr>"
  "cx_executions (sy_cx (defer_command bo hdr cmd now_ms out a s)) = cx_executions (sy_cx s) + 1"
  by (simp_all add: defer_command_def gate_check_def sys_defs split_beta on_gate_def)

lemma defer_command_gate:
  assumes "cg_inv (cx_gate (sy_cx s))" "gr_verdict (fst (cg_check (h_seq hdr) (cx_gate (sy_cx s)))) = V_Execute"
  shows "cg_inv (cx_gate (sy_cx (defer_command bo hdr cmd now_ms out a s)))"
    "map_of (cg_cache (cx_gate (sy_cx (defer_command bo hdr cmd now_ms out a s)))) (h_seq hdr) = Some None"
proof -
  let ?g = "(cx_gate (sy_cx s))\<lparr>cg_counters := Some (cx_counters (sy_cx s))\<rparr>"
  have "cg_inv ?g" "gr_verdict (fst (cg_check (h_seq hdr) ?g)) = V_Execute" using assms by (simp_all add: check_lent)
  note e = executed_in_flight [OF this]
  have "cx_gate (sy_cx (defer_command bo hdr cmd now_ms out a s)) = snd (cg_check (h_seq hdr) ?g)"
    by (simp add: defer_command_def gate_check_def sys_defs split_beta on_gate_gate)
  with e show "cg_inv (cx_gate (sy_cx (defer_command bo hdr cmd now_ms out a s)))"
    "map_of (cg_cache (cx_gate (sy_cx (defer_command bo hdr cmd now_ms out a s)))) (h_seq hdr) = Some None" by simp_all
qed

text \<open>A gate check that finds the command in flight changes no more than the counters.\<close>

lemma in_flight_gate_check:
  assumes "cg_inv (cx_gate (sy_cx s))" "map_of (cg_cache (cx_gate (sy_cx s))) q = Some None" "t = snd (gate_check q s)"
  shows "sy_engine t = sy_engine s" "sy_app t = sy_app s" "cx_pending (sy_cx t) = cx_pending (sy_cx s)"
    "cg_inv (cx_gate (sy_cx t))" "map_of (cg_cache (cx_gate (sy_cx t))) q = Some None"
    "cx_executions (sy_cx t) = cx_executions (sy_cx s)"
proof -
  let ?g = "(cx_gate (sy_cx s))\<lparr>cg_counters := Some (cx_counters (sy_cx s))\<rparr>"
  have "cg_inv ?g" "map_of (cg_cache ?g) q = Some None" using assms(1,2) by simp_all
  note c = in_flight_check [OF this]
  have g: "cx_gate (sy_cx t) = snd (cg_check q ?g)"
    by (simp add: assms(3) gate_check_def sys_defs split_beta on_gate_gate)
  show "cg_inv (cx_gate (sy_cx t))" "map_of (cg_cache (cx_gate (sy_cx t))) q = Some None"
    unfolding g using c(2,3) assms(2) by simp_all
  show "sy_engine t = sy_engine s" "sy_app t = sy_app s" "cx_pending (sy_cx t) = cx_pending (sy_cx s)"
    "cx_executions (sy_cx t) = cx_executions (sy_cx s)"
    by (simp_all add: assms(3) gate_check_def sys_defs split_beta on_gate_def)
qed

text \<open>Finishing the command in flight: the result is recorded and acknowledged.\<close>

lemma finish_acknowledges:
  assumes "pd_active (cx_pending (sy_cx s))" "pd_after (cx_pending (sy_cx s)) = AA_None" "\<not> ga_withhold_ack (sy_app s)"
    "out_inv s" "sys_mac_ok s" "0 < out_room s" "cg_inv (cx_gate (sy_cx s))"
    "map_of (cg_cache (cx_gate (sy_cx s))) q = Some None"
    "q = pd_seq (cx_pending (sy_cx s))" "r = pd_result (cx_pending (sy_cx s))" "d = pd_detail (cx_pending (sy_cx s))"
    and t: "t = finish_command bo (gatelink_app bo gp cf) now_ms s"
  shows "sy_app t = sy_app s" "\<not> pd_active (cx_pending (sy_cx t))" "out_inv t" "sys_mac_ok t"
    "out_room t = out_room s - 1" "\<exists>f. outq t = outq s @ [f] \<and> f = ack_frame s (pd_peer (cx_pending (sy_cx s))) q r d"
    "cg_inv (cx_gate (sy_cx t))" "map_of (cg_cache (cx_gate (sy_cx t))) q = Some (Some (r, d))"
    "cx_executions (sy_cx t) = cx_executions (sy_cx s)"
proof -
  define u where "u = gate_record q r d (set_cx (\<lambda>c. c\<lparr>cx_pending := (cx_pending c)\<lparr>pd_active := False\<rparr>\<rparr>) s)"
  have k: "sy_engine u = sy_engine s" "sy_app u = sy_app s" "\<not> pd_active (cx_pending (sy_cx u))"
    "cx_executions (sy_cx u) = cx_executions (sy_cx s)"
    by (simp_all add: u_def gate_record_def sys_defs split_beta on_gate_def)
  have g: "cg_inv (cx_gate (sy_cx u))" "map_of (cg_cache (cx_gate (sy_cx u))) q = Some (Some (r, d))"
    using recorded_cached [of "(cx_gate (sy_cx s))\<lparr>cg_counters := Some (cx_counters (sy_cx s))\<rparr>" q r d] assms(7,8)
    by (simp_all add: u_def gate_record_def sys_defs split_beta on_gate_gate)
  have f: "ack_frame u peer q r d = ack_frame s peer q r d" for peer
    by (rule ack_frame_cong) (simp_all add: u_def gate_record_def sys_defs split_beta on_gate_def encode_ctx_def)
  have "t = send_fresh_ack (gatelink_app bo gp cf) (pd_peer (cx_pending (sy_cx s))) q r d u"
    using assms(1,2,9-11) by (simp add: t finish_command_def u_def Let_def)
  then have t': "send_ack (pd_peer (cx_pending (sy_cx s))) q r d u =
      (fst (send_ack (pd_peer (cx_pending (sy_cx s))) q r d u), t)"
    using fresh_ack_sent [of u] assms(3) k(2) by (simp add: prod_eq_iff)
  note a = ack_queued [OF _ _ _ t', unfolded k]
  show "sy_app t = sy_app s" "\<not> pd_active (cx_pending (sy_cx t))" "out_inv t" "sys_mac_ok t"
    "out_room t = out_room s - 1" "\<exists>f. outq t = outq s @ [f] \<and> f = ack_frame s (pd_peer (cx_pending (sy_cx s))) q r d"
    "cg_inv (cx_gate (sy_cx t))" "map_of (cg_cache (cx_gate (sy_cx t))) q = Some (Some (r, d))"
    "cx_executions (sy_cx t) = cx_executions (sy_cx s)"
    using a assms(4-6) k(3) g f by simp_all
qed

section \<open>Once, whatever is repeated\<close>

text \<open>\<open>lora_task\<close> when \<open>io_task\<close> reports the end of a sequence.\<close>

definition lora_finish :: "'b BlobStore \<Rightarrow> ('b, 'a) Application \<Rightarrow> bool \<Rightarrow> u32 \<Rightarrow> ('b, 'a) Sys \<Rightarrow> ('b, 'a) Sys" where
  "lora_finish bo ap write_failed now_ms s =
     (if write_failed then finish_command_with bo ap now_ms AR_ActuatorFault s else finish_command bo ap now_ms s)"

text \<open>A command dispatched to the relays, and the acknowledgement once they are done.\<close>

lemma dispatch_defers:
  assumes "deserialize_Command payload = Inr cmd" "relay_sequence_for cmd = Some seq"
    "\<not> ga_dry_run (sy_app s)" "gp_dispatch gp seq (ga_port (sy_app s)) = (True, p)"
    "gr_verdict (fst (cg_check (h_seq hdr) (cx_gate (sy_cx s)))) = V_Execute" "\<not> pd_active (cx_pending (sy_cx s))"
  shows "on_command bo (gatelink_app bo gp cf) hdr payload now_ms s =
    defer_command bo hdr cmd now_ms (outcome AR_Accepted AA_None True)
      ((sy_app s)\<lparr>ga_port := p, ga_dispatched := ga_dispatched (sy_app s) + 1\<rparr>) s"
proof -
  have "cmd_cmd cmd \<noteq> Cmd_RollContext" using relay_sequence_actuates [OF assms(2)] by simp
  then show ?thesis
    by (rule gatelink.on_command_defers [OF assms(1) _ assms(5,6)])
      (simp_all add: execute_dispatches [OF assms(2,3,4)])
qed

lemma finish_in_flight:
  assumes "pd_active (cx_pending (sy_cx s))" "pd_after (cx_pending (sy_cx s)) = AA_None"
    "pd_seq (cx_pending (sy_cx s)) = q" "pd_peer (cx_pending (sy_cx s)) = peer"
    "pd_result (cx_pending (sy_cx s)) = AR_Accepted" "pd_detail (cx_pending (sy_cx s)) = 0"
    "\<not> ga_withhold_ack (sy_app s)" "out_inv s" "sys_mac_ok s" "0 < out_room s" "cg_inv (cx_gate (sy_cx s))"
    "map_of (cg_cache (cx_gate (sy_cx s))) q = Some None"
    and t: "t = lora_finish bo (gatelink_app bo gp cf) failed now_ms s"
    and r: "r = (if failed then AR_ActuatorFault else AR_Accepted)"
  shows "sy_app t = sy_app s" "\<not> pd_active (cx_pending (sy_cx t))" "out_inv t" "sys_mac_ok t"
    "out_room t = out_room s - 1" "outq t = outq s @ [ack_frame s peer q r 0]"
    "cg_inv (cx_gate (sy_cx t))" "map_of (cg_cache (cx_gate (sy_cx t))) q = Some (Some (r, 0))"
    "cx_executions (sy_cx t) = cx_executions (sy_cx s)"
proof -
  define u where "u = (if failed then set_cx (\<lambda>c. c\<lparr>cx_pending := (cx_pending c)\<lparr>pd_result := AR_ActuatorFault, pd_detail := 0\<rparr>\<rparr>) s else s)"
  have tu: "t = finish_command bo (gatelink_app bo gp cf) now_ms u"
    using t by (simp add: lora_finish_def u_def finish_command_with_def)
  have ku: "sy_engine u = sy_engine s" "sy_app u = sy_app s" "cx_gate (sy_cx u) = cx_gate (sy_cx s)"
    "cx_executions (sy_cx u) = cx_executions (sy_cx s)"
    by (simp_all add: u_def set_cx_def)
  have pu: "pd_active (cx_pending (sy_cx u))" "pd_after (cx_pending (sy_cx u)) = AA_None"
    "pd_seq (cx_pending (sy_cx u)) = q" "pd_peer (cx_pending (sy_cx u)) = peer"
    "pd_result (cx_pending (sy_cx u)) = r" "pd_detail (cx_pending (sy_cx u)) = 0"
    using assms(1-6) r by (simp_all add: u_def set_cx_def)
  have fu: "ack_frame u peer q r d = ack_frame s peer q r d" for d
    by (rule ack_frame_cong) (simp_all add: u_def set_cx_def encode_ctx_def)
  have su: "\<not> ga_withhold_ack (sy_app u)" "out_inv u" "sys_mac_ok u" "0 < out_room u" "cg_inv (cx_gate (sy_cx u))"
    "map_of (cg_cache (cx_gate (sy_cx u))) q = Some None"
    using assms(7-12) ku by simp_all
  note f = finish_acknowledges [OF pu(1,2) su pu(3,5,6) [symmetric] tu]
  show "sy_app t = sy_app s" "\<not> pd_active (cx_pending (sy_cx t))" "out_inv t" "sys_mac_ok t"
    "out_room t = out_room s - 1" "outq t = outq s @ [ack_frame s peer q r 0]"
    "cg_inv (cx_gate (sy_cx t))" "map_of (cg_cache (cx_gate (sy_cx t))) q = Some (Some (r, 0))"
    "cx_executions (sy_cx t) = cx_executions (sy_cx s)"
    using f ku fu pu(4) by simp_all
qed

text \<open>
  C36: an actuation command moves the gate once. When GateLink takes a new OPEN, CLOSE, HOLD\_OPEN or
  RELEASE\_HOLD, its relay sequence is handed to io\_task once and nothing is answered; a retry
  that arrives meanwhile is neither executed nor answered; when the sequence ends the
  acknowledgement goes out, ACTUATOR\_FAULT if a relay write failed; a retry after that is
  answered DUPLICATE\_CACHED with the same result, and the relays are left alone.
\<close>

theorem gate_command_dispatched_once:
  fixes s :: "('b, ('p, 'c) GateLinkApp) Sys"
  assumes "out_inv s" "sys_mac_ok s" "2 \<le> out_room s" "cg_inv (cx_gate (sy_cx s))"
    "deserialize_Command payload = Inr cmd" "relay_sequence_for cmd = Some seq"
    "\<not> ga_dry_run (sy_app s)" "\<not> ga_withhold_ack (sy_app s)"
    "gp_dispatch gp seq (ga_port (sy_app s)) = (True, p)"
    "gr_verdict (fst (cg_check (h_seq hdr) (cx_gate (sy_cx s)))) = V_Execute" "\<not> pd_active (cx_pending (sy_cx s))"
    "ap = gatelink_app bo gp cf" "result = (if failed then AR_ActuatorFault else AR_Accepted)"
    "s1 = on_command bo ap hdr payload t1 s" "s2 = on_command bo ap hdr payload t2 s1"
    "s3 = lora_finish bo ap failed t3 s2" "s4 = on_command bo ap hdr payload t4 s3"
  shows "ga_port (sy_app s1) = p \<and> ga_dispatched (sy_app s1) = ga_dispatched (sy_app s) + 1 \<and> outq s1 = outq s \<and>
    sy_app s2 = sy_app s1 \<and> outq s2 = outq s \<and>
    sy_app s3 = sy_app s1 \<and> outq s3 = outq s @ [ack_frame s2 (h_src hdr) (h_seq hdr) result 0] \<and>
    sy_app s4 = sy_app s1 \<and> cx_executions (sy_cx s4) = cx_executions (sy_cx s) + 1 \<and>
    outq s4 = outq s3 @ [ack_frame s3 (h_src hdr) (h_seq hdr) AR_DuplicateCached (AckResult_u8 result)]"
proof -
  let ?out = "outcome AR_Accepted AA_None True"
  let ?a = "(sy_app s)\<lparr>ga_port := p, ga_dispatched := ga_dispatched (sy_app s) + 1\<rparr>"
  have nr: "cmd_cmd cmd \<noteq> Cmd_RollContext" using relay_sequence_actuates [OF assms(6)] by simp
  have s1: "s1 = defer_command bo hdr cmd t1 ?out ?a s"
    unfolding assms(14,12) by (rule dispatch_defers [OF assms(5-7,9-11)])
  note k1 = defer_command_keeps [of bo hdr cmd t1 ?out ?a s, folded s1]
  note g1 = defer_command_gate [OF assms(4,10), of bo cmd t1 ?out ?a, folded s1]
  have s2: "s2 = snd (gate_check (h_seq hdr) s1)"
    unfolding assms(15,12) by (rule gatelink.on_command_in_flight [OF assms(5) nr g1])
  note k2 = in_flight_gate_check [OF g1 s2]
  have pend: "pd_active (cx_pending (sy_cx s2))" "pd_after (cx_pending (sy_cx s2)) = AA_None"
    "pd_seq (cx_pending (sy_cx s2)) = h_seq hdr" "pd_peer (cx_pending (sy_cx s2)) = h_src hdr"
    "pd_result (cx_pending (sy_cx s2)) = AR_Accepted" "pd_detail (cx_pending (sy_cx s2)) = 0"
    using k2(3) k1(3) by simp_all
  have out: "\<not> ga_withhold_ack (sy_app s2)" "out_inv s2" "sys_mac_ok s2" "0 < out_room s2" "out_room s2 = out_room s"
    "outq s2 = outq s"
    using assms(1-3,8) k1 k2 by simp_all
  note f = finish_in_flight [OF pend out(1-4) k2(4,5) assms(16) [unfolded assms(12)] assms(13)]
  let ?v = "snd (gate_check (h_seq hdr) s3)"
  have v: "sy_engine ?v = sy_engine s3" "sy_app ?v = sy_app s3" "cx_executions (sy_cx ?v) = cx_executions (sy_cx s3)"
    by (simp_all add: gate_check_def on_cx_def split_beta on_gate_def)
  have fv: "ack_frame ?v peer q r d = ack_frame s3 peer q r d" for peer q r d
    by (rule ack_frame_cong) (simp_all add: gate_check_def on_cx_def split_beta encode_ctx_def on_gate_def)
  have s4: "send_ack (h_src hdr) (h_seq hdr) AR_DuplicateCached (AckResult_u8 result) ?v =
      (fst (send_ack (h_src hdr) (h_seq hdr) AR_DuplicateCached (AckResult_u8 result) ?v), s4)"
    using gatelink.on_command_cached [OF assms(5) nr f(7,8)] assms(12,17) by (simp add: prod_eq_iff)
  have room3: "0 < out_room s3" using f(5) out(5) assms(3) by simp
  note a4 = ack_queued [OF _ _ _ s4, unfolded v fv, OF f(3,4) room3]
  have apps: "sy_app s2 = sy_app s1" "sy_app s3 = sy_app s1" using k2(2) f(1) by simp_all
  have ex: "cx_executions (sy_cx s4) = cx_executions (sy_cx s) + 1" using a4 f(9) k2(6) k1(4) by simp
  show ?thesis
    using k1(1,2) k2(1) f(6) out(6) apps ex a4 by simp
qed

text \<open>A node at boot, over a chip whose words are all 1 and a card that never mounts.\<close>

definition plain_chip :: "unit Hardware" where
  "plain_chip = \<lparr>hw_random = (\<lambda>h. (1, h)), hw_wdt_init = (\<lambda>_ h. (True, h))\<rparr>"

definition no_card :: "unit ConfigFile" where
  "no_card = \<lparr>cf_mount = (\<lambda>_ c. (False, c)), cf_read = (\<lambda>_ c. (None, c)), cf_write = (\<lambda>_ c. (False, c))\<rparr>"

definition boot_shared :: "unit NodeShared" where
  "boot_shared = \<lparr>np_cmd_q = None, np_hex_q = None, np_inputs = 0, np_bus_mv = 0, np_temp_c10 = 0, np_time_us = 0,
     np_gate = GateSnapshot_init, np_bms = BmsSnapshot_init, np_charge_inhibited = False,
     np_ah_drawn_dah = kU16NotAvailable, np_bms_polling = True,
     np_ved = \<lparr>vv_mppt = MpptSnapshot_init, vv_busy = False, vv_result = None, vv_have_block = False,
       vv_block_age_ms = 0, vv_text = tp_counters TextParser_new, vv_link = vl_counters (VedLink_new ())\<rparr>,
     np_live = replicate kMaxTableParams 0, np_media = (0, 0), np_wdt_timeout_s = 0, np_lock = Interlock_new,
     np_entropy = [2, 3, 4, 5], np_chip = ()\<rparr>"

definition gate_sys :: "(unit, (unit NodeShared, unit) GateLinkApp) Sys" where
  "gate_sys = \<lparr>sy_engine = sy_engine keyed_sys, sy_cx = sy_cx keyed_sys, sy_app = GateLinkApp_new boot_shared\<rparr>"

lemma gate_sys_ok:
  "out_inv gate_sys" "sys_mac_ok gate_sys" "outq gate_sys = []" "2 \<le> out_room gate_sys"
  "cg_inv (cx_gate (sy_cx gate_sys))" "\<not> pd_active (cx_pending (sy_cx gate_sys))"
  "gr_verdict (fst (cg_check (h_seq nop_hdr) (cx_gate (sy_cx gate_sys)))) = V_Execute"
  "\<not> ga_dry_run (sy_app gate_sys)" "\<not> ga_withhold_ack (sy_app gate_sys)"
  "gp_dispatch (node_port plain_chip) seq (ga_port (sy_app gate_sys)) = (True, boot_shared\<lparr>np_cmd_q := Some seq\<rparr>)"
  "np_cmd_q (ga_port (sy_app gate_sys)) = None" "ga_dispatched (sy_app gate_sys) = 0"
  using keyed_sys_ok new_inv [of "Some Counters_init"]
  by (simp_all add: gate_sys_def keyed_sys_sel PendingCommand_init_def nop_hdr_def cg_check_def cg_find_def
      CommandGate_new_def seq_newer_def Let_def GateLinkApp_new_def node_port_def np_dispatch_def boot_shared_def)

lemma open_command:
  "deserialize_Command [1, 0, 0, 0] = Inr \<lparr>cmd_cmd = Cmd_Open, cmd_arg = 0, cmd_arg2 = 0\<rparr>"
  "relay_sequence_for \<lparr>cmd_cmd = Cmd_Open, cmd_arg = 0, cmd_arg2 = 0\<rparr> = Some \<lparr>rs_first = kK3Open, rs_second = kNoRelay\<rparr>"
  using fmt_Command.des_img [of "\<lparr>cmd_cmd = Cmd_Open, cmd_arg = 0, cmd_arg2 = 0\<rparr>"]
  by (simp_all add: Command_img_def any_value_def le16_def relay_sequence_for_def)

theorem gate_command_dispatched_once_witness:
  "let ap = gatelink_app no_blob (node_port plain_chip) no_card;
       s1 = on_command no_blob ap nop_hdr [1, 0, 0, 0] 10 gate_sys; s2 = on_command no_blob ap nop_hdr [1, 0, 0, 0] 20 s1;
       s3 = lora_finish no_blob ap True 900 s2; s4 = on_command no_blob ap nop_hdr [1, 0, 0, 0] 950 s3
   in np_cmd_q (ga_port (sy_app s4)) = Some \<lparr>rs_first = kK3Open, rs_second = kNoRelay\<rparr> \<and>
      ga_dispatched (sy_app s4) = 1 \<and> length (outq s2) = 0 \<and> length (outq s3) = 1 \<and> length (outq s4) = 2"
proof -
  let ?ap = "gatelink_app no_blob (node_port plain_chip) no_card"
  let ?p = "boot_shared\<lparr>np_cmd_q := Some \<lparr>rs_first = kK3Open, rs_second = kNoRelay\<rparr>\<rparr>"
  let ?s1 = "on_command no_blob ?ap nop_hdr [1, 0, 0, 0] 10 gate_sys"
  let ?s2 = "on_command no_blob ?ap nop_hdr [1, 0, 0, 0] 20 ?s1"
  let ?s3 = "lora_finish no_blob ?ap True 900 ?s2"
  let ?s4 = "on_command no_blob ?ap nop_hdr [1, 0, 0, 0] 950 ?s3"
  have "ga_port (sy_app ?s1) = ?p \<and> ga_dispatched (sy_app ?s1) = ga_dispatched (sy_app gate_sys) + 1 \<and> outq ?s1 = outq gate_sys \<and>
    sy_app ?s2 = sy_app ?s1 \<and> outq ?s2 = outq gate_sys \<and>
    sy_app ?s3 = sy_app ?s1 \<and> outq ?s3 = outq gate_sys @ [ack_frame ?s2 (h_src nop_hdr) (h_seq nop_hdr) AR_ActuatorFault 0] \<and>
    sy_app ?s4 = sy_app ?s1 \<and> cx_executions (sy_cx ?s4) = cx_executions (sy_cx gate_sys) + 1 \<and>
    outq ?s4 = outq ?s3 @ [ack_frame ?s3 (h_src nop_hdr) (h_seq nop_hdr) AR_DuplicateCached (AckResult_u8 AR_ActuatorFault)]"
    by (rule gate_command_dispatched_once [OF gate_sys_ok(1,2,4,5) open_command gate_sys_ok(8-10) gate_sys_ok(7,6) refl _ refl refl refl refl]) simp
  then show ?thesis by (simp add: Let_def gate_sys_ok(3,12))
qed

section \<open>Commands that finish at once, and the roll\<close>

text \<open>
  C27: a command executes once and a retry is answered from the cache. When a node takes a new
  command and its application finishes it at once with nothing to follow the acknowledgement, the
  application runs it exactly once, and COMMAND\_ACK with its result is queued under the command's
  sequence number as often as the application's hook says (GateLink: once, or not at all while the
  bench withholds it). Whether or not that acknowledgement went out, a second copy of the frame
  leaves the application untouched and queues only COMMAND\_ACK(DUPLICATE\_CACHED) with the first
  result. It holds of every application that leaves the receive path alone, GateLink among them.
\<close>

theorem command_runs_once:
  assumes "quiet_app ap" "out_inv s" "sys_mac_ok s" "copies d < out_room s" "cg_inv (cx_gate (sy_cx s))"
    "deserialize_Command payload = Inr cmd" "cmd_cmd cmd \<noteq> Cmd_RollContext"
    "gr_verdict (fst (cg_check (h_seq hdr) (cx_gate (sy_cx s)))) = V_Execute"
    "\<not> pd_active (cx_pending (sy_cx s))" "\<And>c. ap_execute ap cmd now_ms c (sy_app s) = (out, c, a)"
    "\<not> co_deferred out" "co_after out = AA_None" "\<And>c. ap_fresh_ack ap (h_seq hdr) c a = (d, c, a')"
    "s1 = on_command bo ap hdr payload now_ms s" "s2 = on_command bo ap hdr payload later_ms s1"
  shows "sy_app s1 = a' \<and> cx_executions (sy_cx s1) = cx_executions (sy_cx s) + 1 \<and>
    outq s1 = outq s @ fresh_frames d s (h_src hdr) (h_seq hdr) (co_result out) (co_detail out) \<and>
    sy_app s2 = a' \<and> cx_executions (sy_cx s2) = cx_executions (sy_cx s1) \<and>
    outq s2 = outq s1 @ [ack_frame s1 (h_src hdr) (h_seq hdr) AR_DuplicateCached (AckResult_u8 (co_result out))]"
proof -
  let ?t = "run_command bo hdr cmd now_ms out a s"
  note k = run_command_keeps [of bo hdr cmd now_ms out a s]
  have s1: "s1 = send_fresh_ack ap (h_src hdr) (h_seq hdr) (co_result out) (co_detail out) ?t"
    using quiet_app.on_command_runs [OF assms(1,6-12)] assms(14) by simp
  have "ap_fresh_ack ap (h_seq hdr) (sy_cx ?t) (sy_app ?t) = (d, sy_cx ?t, a')" using assms(13) by (simp add: k)
  note q1 = fresh_queued [OF _ _ _ this s1, unfolded k]
  have r: "out_inv s1" "sys_mac_ok s1" "0 < out_room s1" using q1 assms(2-4) by simp_all
  have core: "node_core s1 = node_core (?t\<lparr>sy_app := a'\<rparr>)" using q1 assms(2-4) by simp
  note c = node_core_fields [OF core]
  note g = run_command_gate [OF assms(5,8) refl, of bo cmd now_ms out a]
  have g1: "cg_inv (cx_gate (sy_cx s1))" "map_of (cg_cache (cx_gate (sy_cx s1))) (h_seq hdr) = Some (Some (co_result out, co_detail out))"
    using g c(5) by simp_all
  let ?u = "snd (gate_check (h_seq hdr) s1)"
  have u: "sy_engine ?u = sy_engine s1" "sy_app ?u = sy_app s1" "cx_executions (sy_cx ?u) = cx_executions (sy_cx s1)"
    by (simp_all add: gate_check_def on_cx_def split_beta)
  have f: "ack_frame ?u peer q r d = ack_frame s1 peer q r d" for peer q r d
    by (rule ack_frame_cong) (simp_all add: gate_check_def on_cx_def split_beta encode_ctx_def)
  have s2: "send_ack (h_src hdr) (h_seq hdr) AR_DuplicateCached (AckResult_u8 (co_result out)) ?u =
      (fst (send_ack (h_src hdr) (h_seq hdr) AR_DuplicateCached (AckResult_u8 (co_result out)) ?u), s2)"
    using quiet_app.on_command_cached [OF assms(1,6,7) g1] assms(15) by simp
  note q2 = ack_queued [OF _ _ _ s2, unfolded u f]
  have "fresh_frames d ?t peer q r x = fresh_frames d s peer q r x" for peer q r x
    by (rule fresh_frames_cong) (simp_all add: k run_command_ctx)
  then show ?thesis using q1 q2 r c k(5) assms(2-4) by simp
qed

text \<open>A NOP at GateLink, its acknowledgement withheld by the bench.\<close>

definition withheld_sys :: "(unit, (unit NodeShared, unit) GateLinkApp) Sys" where
  "withheld_sys = gate_sys\<lparr>sy_app := (sy_app gate_sys)\<lparr>ga_withhold_ack := True\<rparr>\<rparr>"

lemma nop_command: "deserialize_Command [0, 0, 0, 0] = Inr \<lparr>cmd_cmd = Cmd_Nop, cmd_arg = 0, cmd_arg2 = 0\<rparr>"
  using fmt_Command.des_img [of "\<lparr>cmd_cmd = Cmd_Nop, cmd_arg = 0, cmd_arg2 = 0\<rparr>"]
  by (simp add: Command_img_def any_value_def le16_def)

theorem command_runs_once_witness:
  "let ap = gatelink_app no_blob (node_port plain_chip) no_card;
       s1 = on_command no_blob ap nop_hdr [0, 0, 0, 0] 10 withheld_sys; s2 = on_command no_blob ap nop_hdr [0, 0, 0, 0] 20 s1
   in ga_acks_withheld (sy_app s2) = 1 \<and> length (outq s1) = 0 \<and> length (outq s2) = 1"
proof -
  let ?ap = "gatelink_app no_blob (node_port plain_chip) no_card" and ?a = "(sy_app gate_sys)\<lparr>ga_withhold_ack := True\<rparr>"
  let ?s1 = "on_command no_blob ?ap nop_hdr [0, 0, 0, 0] 10 withheld_sys"
  have w: "out_inv withheld_sys" "sys_mac_ok withheld_sys" "copies AD_Suppress < out_room withheld_sys" "outq withheld_sys = []"
    "cg_inv (cx_gate (sy_cx withheld_sys))" "\<not> pd_active (cx_pending (sy_cx withheld_sys))"
    "gr_verdict (fst (cg_check (h_seq nop_hdr) (cx_gate (sy_cx withheld_sys)))) = V_Execute" "sy_app withheld_sys = ?a"
    using gate_sys_ok by (simp_all add: withheld_sys_def)
  have ex: "ap_execute ?ap \<lparr>cmd_cmd = Cmd_Nop, cmd_arg = 0, cmd_arg2 = 0\<rparr> 10 c (sy_app withheld_sys) = (outcome AR_Accepted AA_None False, c, ?a)" for c
    by (simp add: gatelink_app_def gatelink_core_def ga_execute_def w(8))
  have fr: "ap_fresh_ack ?ap (h_seq nop_hdr) c ?a = (AD_Suppress, c, ?a\<lparr>ga_withhold_ack := False, ga_acks_withheld := 1\<rparr>)" for c
    by (simp add: gatelink_app_def gatelink_core_def ga_fresh_ack_def gate_sys_def GateLinkApp_new_def)
  have q: "quiet_app ?ap" by (rule gatelink.quiet_app_axioms)
  from command_runs_once [OF q w(1,2,3,5) nop_command _ w(7,6) ex _ _ fr refl refl, where bo = no_blob and later_ms = 20]
  show ?thesis by (simp add: Let_def w(4) fresh_frames_def)
qed

text \<open>
  C28: a roll waits for the command in flight. ROLL\_CONTEXT with a wrong guard, or while a command
  still executes, changes nothing and is refused; otherwise the node moves to a new context id, the
  gate starts empty, and the acknowledgement goes out under the new id from sequence number 1, as
  often as the application's hook says. It holds of every application whose hook leaves the context
  alone, GateLink among them.
\<close>

theorem roll_waits_for_command:
  assumes "answering_app ap" "out_inv s" "sys_mac_ok s" "2 \<le> out_room s" "s' = on_roll bo ap hdr cmd s"
  shows "if cmd_arg cmd \<noteq> kRollContextGuard \<or> cg_any_in_flight (cx_gate (sy_cx s))
    then node_core s' = node_core s \<and>
      outq s' = outq s @ [ack_frame s (h_src hdr) (h_seq hdr)
        (if cmd_arg cmd \<noteq> kRollContextGuard then AR_RejectedArg else AR_ActuatorBusy) 0]
    else \<exists>c a. roll_context (ap_random ap (sy_app s)) (sy_app s) (sy_cx s) = (c, a) \<and>
      cx_ctx_id (sy_cx s') = cx_ctx_id c \<and> cx_ctx_id c \<noteq> cx_ctx_id (sy_cx s) \<and> cx_ctx_id c \<noteq> 0 \<and>
      cg_cache (cx_gate (sy_cx s')) = [] \<and> cg_high_water (cx_gate (sy_cx s')) = 0 \<and>
      cx_executions (sy_cx s') = cx_executions (sy_cx s) \<and>
      outq s' = outq s @ map (\<lambda>k. frame_image (encode_ctx s)
          ((header (sy_cx s') MT_CommandAck (h_src hdr) kSchemaNone)\<lparr>h_seq := 1 + of_nat k\<rparr>)
          (CommandAck_img \<lparr>ca_ack_seq = h_seq hdr, ca_result = AckResult_u8 AR_Accepted, ca_detail = 0\<rparr>))
        [0..<copies (fst (ap_fresh_ack ap (h_seq hdr) c a))]"
proof (cases "cmd_arg cmd \<noteq> kRollContextGuard \<or> cg_any_in_flight (cx_gate (sy_cx s))")
  case True
  let ?r = "if cmd_arg cmd \<noteq> kRollContextGuard then AR_RejectedArg else AR_ActuatorBusy"
  have room: "0 < out_room s" using assms(4) by simp
  have "send_ack (h_src hdr) (h_seq hdr) ?r 0 s = (fst (send_ack (h_src hdr) (h_seq hdr) ?r 0 s), s')"
    using True assms(5) by (auto simp: on_roll_def)
  with ack_queued [OF assms(2,3) room this] True show ?thesis by auto
next
  case False
  define u where "u = on_phy (pt_on_authenticated bo) s"
  obtain c a where roll: "roll_context (ap_random ap (sy_app s)) (sy_app s) (sy_cx s) = (c, a)" by fastforce
  define t where "t = u\<lparr>sy_cx := c, sy_app := a\<rparr>"
  have u: "sy_cx u = sy_cx s" "sy_app u = sy_app s" "en_out (sy_engine u) = en_out (sy_engine s)" "en_mac (sy_engine u) = en_mac (sy_engine s)"
    by (simp_all add: u_def sys_defs)
  note parts = roll_context_parts [OF roll]
  have t: "sy_cx t = c" "sy_app t = a" "en_out (sy_engine t) = en_out (sy_engine s)" "en_mac (sy_engine t) = en_mac (sy_engine s)"
    by (simp_all add: t_def u)
  have s': "s' = send_fresh_ack ap (h_src hdr) (h_seq hdr) AR_Accepted 0 t"
    using False assms(5) roll u by (simp add: on_roll_def u_def [symmetric] t_def)
  obtain d a' where fr: "ap_fresh_ack ap (h_seq hdr) (sy_cx t) (sy_app t) = (d, sy_cx t, a')"
    using answering_app.fresh_keeps [OF assms(1), of "h_seq hdr" "sy_cx t" "sy_app t"] by (metis prod.collapse)
  have room: "copies d \<le> out_room t" using assms(4) t(3) by (cases d) auto
  have o: "out_inv t" "sys_mac_ok t" "outq t = outq s" using assms(2,3) t by simp_all
  note q = fresh_queued [OF o(1,2) room fr s']
  note n = node_core_fields [OF q(4), simplified, unfolded t]
  have "encode_ctx t = encode_ctx s" using t parts by (simp add: encode_ctx_def)
  moreover have "header (sy_cx s') = header c" using n by (simp add: header_def fun_eq_iff)
  moreover have "cg_cache (cx_gate c) = []" using parts(5) by (simp add: cg_cache_def)
  moreover have "header (sy_cx (later k t)) = header (sy_cx t)" for k by (simp add: header_def fun_eq_iff)
  ultimately show ?thesis
    using False q(1) o(3) t parts n roll fr by (simp add: ack_frame_def fresh_frames_def)
qed

theorem roll_waits_for_command_witness:
  "let s' = on_roll no_blob (gatelink_app no_blob (node_port plain_chip) no_card) nop_hdr
       \<lparr>cmd_cmd = Cmd_RollContext, cmd_arg = kRollContextGuard, cmd_arg2 = 0\<rparr> gate_sys
   in cx_ctx_id (sy_cx s') \<noteq> 5 \<and> length (outq s') = 1"
proof -
  let ?ap = "gatelink_app no_blob (node_port plain_chip) no_card"
  have "answering_app ?ap" by (rule gatelink.answering_app_axioms)
  moreover have "cx_ctx_id (sy_cx gate_sys) = 5" "\<not> cg_any_in_flight (cx_gate (sy_cx gate_sys))"
    by (simp_all add: gate_sys_def keyed_sys_def bench_sys_def Context_init_def CommandGate_new_def cg_any_in_flight_def)
  moreover have "fst (ap_fresh_ack ?ap (h_seq nop_hdr) c a) = AD_Send"
    if "roll_context (ap_random ?ap (sy_app gate_sys)) (sy_app gate_sys) (sy_cx gate_sys) = (c, a)" for c a
  proof -
    have "\<not> ga_withhold_ack (snd (roll_context (ap_random ?ap (sy_app gate_sys)) (sy_app gate_sys) (sy_cx gate_sys)))" by code_simp
    with that show ?thesis by (simp add: gatelink_app_def gatelink_core_def ga_fresh_ack_def)
  qed
  ultimately show ?thesis
    using roll_waits_for_command [OF _ gate_sys_ok(1,2,4) refl, where ap = ?ap and bo = no_blob and hdr = nop_hdr and cmd =
        "\<lparr>cmd_cmd = Cmd_RollContext, cmd_arg = kRollContextGuard, cmd_arg2 = 0\<rparr>"] gate_sys_ok(3)
    by (auto simp: Let_def)
qed

end
