(* ===== verification/LoraTask.thy ===== *)
theory LoraTask
  imports GateLinkCorrect
begin

text \<open>
  \<open>lora_task\<close> of GateLink (\<open>firmware/gatelink/src/task_runtime.cpp\<close>): the boot of the protocol node and one
  pass of the loop. What \<open>radio_service\<close> did in the pass is an argument, a list of the calls it
  makes on its client and of the frames it takes from the outbox; so are the answers of the radio
  and the snapshot of \<open>io_task\<close>. Log lines are not modelled.
\<close>

section \<open>Definitions\<close>

type_synonym ('b, 'h, 'c) NodeSys = "('b, ('h NodeShared, 'c) GateLinkApp) Sys"

datatype radio_call =
    Rx_Frame bytes i16 i16   \<comment> \<open>\<open>RadioClient::on_frame\<close>\<close>
  | Rx_CrcError              \<comment> \<open>\<open>RadioClient::on_phy_crc_error\<close>\<close>
  | Tx_Taken                 \<comment> \<open>the head of the outbox goes to media access\<close>

record LoraIo =
  lo_cmd_seq :: u32
  lo_cmd_write_failed :: bool
  lo_inputs_read :: bool
  lo_inputs :: u8

record LoraInputs =
  li_now :: u32
  li_radio :: "radio_call list"
  li_io :: LoraIo
  li_radio_phy :: PhyConfig     \<comment> \<open>\<open>radio_phy\<close>\<close>
  li_retuned :: bool            \<comment> \<open>\<open>radio_take_retuned\<close>\<close>
  li_tx_idle :: bool            \<comment> \<open>\<open>radio_tx_idle\<close>\<close>

record ('b, 'h, 'c) LoraTask =
  lt_sys :: "('b, 'h, 'c) NodeSys"
  lt_cmd_seq :: u32
  lt_boot_alarms_owed :: bool
  lt_retune_requested :: bool
  lt_radio_request :: "PhyConfig option"   \<comment> \<open>the last \<open>radio_request_phy\<close>\<close>
  lt_push_q :: "Push list"
  lt_phy_reset_req :: bool
  lt_ack_drop_req :: bool
  lt_ctx_new_req :: bool
  lt_restarted :: bool                     \<comment> \<open>\<open>esp_restart\<close> called, \<open>g_reboot_marker\<close> set\<close>

definition on_sys :: "(('b, 'h, 'c) NodeSys \<Rightarrow> ('b, 'h, 'c) NodeSys) \<Rightarrow> ('b, 'h, 'c) LoraTask \<Rightarrow> ('b, 'h, 'c) LoraTask" where
  "on_sys f t = t\<lparr>lt_sys := f (lt_sys t)\<rparr>"

definition set_app :: "('a \<Rightarrow> 'a) \<Rightarrow> ('b, 'a) Sys \<Rightarrow> ('b, 'a) Sys" where
  "set_app f s = s\<lparr>sy_app := f (sy_app s)\<rparr>"

text \<open>\<open>Node::on_frame\<close>: a configuration frame that met an unusable card has it tried again.\<close>

definition node_on_frame ::
  "'b BlobStore \<Rightarrow> 'h Hardware \<Rightarrow> 'c ConfigFile \<Rightarrow> bytes \<Rightarrow> i16 \<Rightarrow> i16 \<Rightarrow> u32 \<Rightarrow> ('b, 'h, 'c) NodeSys \<Rightarrow> ('b, 'h, 'c) NodeSys" where
  "node_on_frame bo hw cf buf rssi snr now_ms s =
     (let s = snd (receive bo (gatelink_app bo (node_port hw) cf) buf rssi snr now_ms s);
          (retry, a) = take_card_retry (sy_app s)
      in s\<lparr>sy_app := (if retry then a\<lparr>ga_cfg := map_option (\<lambda>st. snd (sd_refresh cf st)) (ga_cfg a)\<rparr> else a)\<rparr>)"

fun radio_called ::
  "'b BlobStore \<Rightarrow> 'h Hardware \<Rightarrow> 'c ConfigFile \<Rightarrow> u32 \<Rightarrow> radio_call \<Rightarrow> ('b, 'h, 'c) NodeSys \<Rightarrow> ('b, 'h, 'c) NodeSys" where
  "radio_called bo hw cf now (Rx_Frame buf rssi snr) s = node_on_frame bo hw cf buf rssi snr now s"
| "radio_called bo hw cf now Rx_CrcError s = set_cx on_phy_crc_error s"
| "radio_called bo hw cf now Tx_Taken s = set_en (\<lambda>e. e\<lparr>en_out := snd (ob_take (en_out e))\<rparr>) s"

definition kInputFire :: u8 where "kInputFire = 0x10"
definition kInputHardShutdown :: u8 where "kInputHardShutdown = 0x20"

definition send_boot_alarm :: "('b, 'a) Application \<Rightarrow> EventType \<Rightarrow> u32 \<Rightarrow> ('b, 'a) Sys \<Rightarrow> ('b, 'a) Sys" where
  "send_boot_alarm ap type now s =
     (let ((payload, schema), s) = ask (ap_build_event ap type 0 now kMaxSchemaPayload) s;
          (queued, s) = (if payload = [] then (False, s) else send_event kNodeBridge payload schema s)
      in if queued then s else count_dropped s)"

definition boot_alarms :: "('b, 'a) Application \<Rightarrow> u8 \<Rightarrow> u32 \<Rightarrow> ('b, 'a) Sys \<Rightarrow> ('b, 'a) Sys" where
  "boot_alarms ap inputs now s =
     (let s = (if inputs AND kInputFire \<noteq> 0 then send_boot_alarm ap ET_FireAsserted now s else s)
      in if inputs AND kInputHardShutdown \<noteq> 0 then send_boot_alarm ap ET_HardShutdown now s else s)"

definition send_push :: "('b, 'a) Application \<Rightarrow> u32 \<Rightarrow> Push \<Rightarrow> ('b, 'a) Sys \<Rightarrow> ('b, 'a) Sys" where
  "send_push ap now p s =
     (let (queued, s) =
            (if push_kind p = PK_Status then send_status ap kNodeBridge (push_reason p) now s
             else let (payload, schema) = ga_serialize_event (push_event p) kMaxSchemaPayload
               in if payload = [] then (False, s) else send_event kNodeBridge payload schema s)
      in if queued then s else count_dropped s)"

definition phy_service ::
  "'b BlobStore \<Rightarrow> u32 \<Rightarrow> PhyConfig \<Rightarrow> bool \<Rightarrow> ('b, 'h, 'c) LoraTask \<Rightarrow> ('b, 'h, 'c) LoraTask" where
  "phy_service bo now radio_phy retuned t =
     (let (reverted, ph) = pt_tick bo now (en_phy (sy_engine (lt_sys t)));
          t = on_sys (\<lambda>s. (on_phy (\<lambda>_. ph) s)) t;
          t = (if reverted \<noteq> RC_None then on_sys (set_cx (note_phy_revert reverted)) t else t);
          t = (if pt_retune_due ph \<and> \<not> lt_retune_requested t
               then t\<lparr>lt_radio_request := Some (case phy_config_from (pt_group ph) radio_phy of Some p \<Rightarrow> p | None \<Rightarrow> radio_phy),
                      lt_retune_requested := True\<rparr>
               else t)
      in if lt_retune_requested t \<and> retuned
         then on_sys (on_phy (pt_on_retuned bo now)) (t\<lparr>lt_retune_requested := False\<rparr>) else t)"

definition renew_context :: "'h Hardware \<Rightarrow> ('b, 'h, 'c) NodeSys \<Rightarrow> ('b, 'h, 'c) NodeSys" where
  "renew_context hw s =
     (if pd_active (cx_pending (sy_cx s)) then s
      else let (c, p) = reset_context (Some (np_random hw)) (ga_port (sy_app s)) (sy_cx s)
        in s\<lparr>sy_cx := c, sy_app := (sy_app s)\<lparr>ga_port := p\<rparr>\<rparr>)"

text \<open>The steps of one pass, in the order of the loop.\<close>

definition lora_io :: "'b BlobStore \<Rightarrow> ('b, ('h NodeShared, 'c) GateLinkApp) Application \<Rightarrow> LoraIo \<Rightarrow> u32 \<Rightarrow> ('b, 'h, 'c) LoraTask \<Rightarrow> ('b, 'h, 'c) LoraTask" where
  "lora_io bo ap io now t =
     (let t = (if lo_cmd_seq io \<noteq> lt_cmd_seq t
               then on_sys (lora_finish bo ap (lo_cmd_write_failed io) now) (t\<lparr>lt_cmd_seq := lo_cmd_seq io\<rparr>) else t)
      in if lt_boot_alarms_owed t \<and> lo_inputs_read io
         then on_sys (boot_alarms ap (lo_inputs io) now) (t\<lparr>lt_boot_alarms_owed := False\<rparr>) else t)"

definition lora_requests :: "'b BlobStore \<Rightarrow> 'h Hardware \<Rightarrow> LoraInputs \<Rightarrow> ('b, 'h, 'c) LoraTask \<Rightarrow> ('b, 'h, 'c) LoraTask" where
  "lora_requests bo hw x t =
     (let t = (if lt_phy_reset_req t then on_sys (on_phy (\<lambda>p. snd (pt_reset_to_defaults bo p))) t else t);
          t = phy_service bo (li_now x) (li_radio_phy x) (li_retuned x) (t\<lparr>lt_phy_reset_req := False\<rparr>);
          t = (if lt_ack_drop_req t then on_sys (set_app (\<lambda>a. a\<lparr>ga_withhold_ack := True\<rparr>)) t else t);
          t = (if lt_ctx_new_req t then on_sys (renew_context hw) t else t)
      in t\<lparr>lt_ack_drop_req := False, lt_ctx_new_req := False\<rparr>)"

definition lora_pass ::
  "'b BlobStore \<Rightarrow> 'h Hardware \<Rightarrow> 'c ConfigFile \<Rightarrow> LoraInputs \<Rightarrow> ('b, 'h, 'c) LoraTask \<Rightarrow> ('b, 'h, 'c) LoraTask" where
  "lora_pass bo hw cf x t =
     (let ap = gatelink_app bo (node_port hw) cf; now = li_now x;
          t = on_sys (fold (radio_called bo hw cf now) (li_radio x)) t;
          t = lora_io bo ap (li_io x) now t;
          t = on_sys (fold (send_push ap now) (lt_push_q t)) (t\<lparr>lt_push_q := []\<rparr>);
          t = on_sys (\<lambda>s. engine_tick now (poll_hex 2 (node_port hw) s)) t;
          t = lora_requests bo hw x t;
          e = sy_engine (lt_sys t)
      in if en_restart_owed e \<and> ob_count (en_out e) = 0 \<and> li_tx_idle x then t\<lparr>lt_restarted := True\<rparr> else t)"

text \<open>\<open>Node::begin\<close> and the part of \<open>lora_task\<close> before the loop.\<close>

definition node_begin ::
  "'h Hardware \<Rightarrow> bytes \<Rightarrow> 'c SdPersist Store \<Rightarrow> u32 \<Rightarrow> ('b, 'h, 'c) NodeSys \<Rightarrow> ('b, 'h, 'c) NodeSys" where
  "node_begin hw key cfg boot_entropy s =
     (let c = (sy_cx s)\<lparr>cx_id := kNodeGateLink, cx_key := take (length (cx_key (sy_cx s))) key @ drop (length key) (cx_key (sy_cx s))\<rparr>;
          draw = (\<lambda>(boot, n). let (v, boot, l, ws, h) = boot_random_u32 (hw_random hw) boot (np_lock n) (np_entropy n) (np_chip n)
                    in (v, boot, n\<lparr>np_lock := l, np_entropy := ws, np_chip := h\<rparr>));
          (c, boot, p) = reset_context (Some draw) (boot_entropy, ga_port (sy_app s)) c;
          (c, a) = apply_all (node_port hw) c ((sy_app s)\<lparr>ga_port := p, ga_cfg := Some cfg\<rparr>)
      in s\<lparr>sy_cx := c, sy_app := a\<rparr>)"

definition lora_begin ::
  "'b BlobStore \<Rightarrow> 'h Hardware \<Rightarrow> 'c ConfigFile \<Rightarrow> bytes \<Rightarrow> 'c SdPersist Store \<Rightarrow> u32 \<Rightarrow> 'b PhyTrial \<Rightarrow> ResetCause \<Rightarrow> u32 \<Rightarrow>
     ('b, 'h, 'c) NodeSys \<Rightarrow> bool \<times> ('b, 'h, 'c) NodeSys" where
  "lora_begin bo hw cf key cfg boot_entropy phy cause now s =
     (let s = node_begin hw key cfg boot_entropy s;
          (reverted, ph) = pt_begin bo phy;
          s = set_en (set_phy (Some ph)) s;
          s = (if reverted \<noteq> RC_None then set_cx (note_phy_revert reverted) s else s)
      in announce_boot (gatelink_app bo (node_port hw) cf) cause now s)"

section \<open>A frame dropped is counted twice\<close>

lemma full_send: "out_room s = 0 \<Longrightarrow> send h p 0 s = (False, s)"
  by (simp add: send_def)

lemma full_status:
  assumes "out_room s = 0" "send_status (gatelink_core gp cf) dst reason now s = (ok, s')"
  shows "\<not> ok" "en_out (sy_engine s') = en_out (sy_engine s)"
    "en_answers_dropped (sy_engine s') = en_answers_dropped (sy_engine s) + 1"
  using assms
  by (auto simp: send_status_def Let_def split_beta full_send count_dropped_def set_en_def take_seq_def on_cx_def
      ask_const_def gatelink_core_def Application_default_def split: if_splits)

lemma app_status: "send_status (gatelink_app bo gp cf) = send_status (gatelink_core gp cf)"
  by (simp add: send_status_def gatelink_app_def fun_eq_iff)

text \<open>
  With the outbox full, a poll adds two to \<open>answers_dropped\<close> for the one STATUS it could not
  queue, and so does a status push: \<open>send_status\<close> counts the drop, and its callers count it again.
\<close>

theorem dropped_status_counted_twice:
  fixes s :: "('b, ('p, 'c) GateLinkApp) Sys"
  assumes "out_room s = 0" "deserialize_Poll payload = Inr poll" "poll_flags poll AND 0x02 = 0"
    "ap = gatelink_app bo gp cf"
  shows "outq (snd (ap_on_poll ap hdr payload now s)) = outq s \<and>
    en_answers_dropped (sy_engine (snd (ap_on_poll ap hdr payload now s))) = en_answers_dropped (sy_engine s) + 2 \<and>
    en_answers_dropped (sy_engine (send_push ap now (status_push reason) s)) = en_answers_dropped (sy_engine s) + 2"
proof -
  obtain ok u where u: "send_status (gatelink_core gp cf) (h_src hdr) SR_PollResponse now s = (ok, u)" by fastforce
  obtain ok' v where v: "send_status (gatelink_core gp cf) kNodeBridge reason now s = (ok', v)" by fastforce
  have "ap_on_poll ap = ga_on_poll bo (gatelink_core gp cf)" by (simp add: assms(4) gatelink_app_def)
  with full_status [OF assms(1) u] full_status [OF assms(1) v] assms u v show ?thesis
    by (simp add: ga_on_poll_def send_push_def status_push_def Push_init_def app_status count_dropped_def set_en_def)
qed

text \<open>The node at boot with its sixteen slots taken.\<close>

definition full_sys :: "(unit, (unit NodeShared, unit) GateLinkApp) Sys" where
  "full_sys = gate_sys\<lparr>sy_engine := (sy_engine gate_sys)\<lparr>en_out := (en_out (sy_engine gate_sys))\<lparr>ob_count := kOutboxDepth\<rparr>\<rparr>\<rparr>"

theorem dropped_status_counted_twice_witness:
  "en_answers_dropped (sy_engine (snd (ap_on_poll (gatelink_app no_blob (node_port plain_chip) no_card) nop_hdr [0] 5 full_sys))) = 2"
proof -
  have "out_room full_sys = 0" "en_answers_dropped (sy_engine full_sys) = 0"
    by (simp_all add: full_sys_def gate_sys_def keyed_sys_def Engine_new_def free_slots_def)
  moreover have "deserialize_Poll [0] = Inr \<lparr>poll_flags = 0\<rparr>"
    using fmt_Poll.des_img [of "\<lparr>poll_flags = 0\<rparr>"] by (simp add: Poll_img_def any_value_def)
  ultimately show ?thesis
    using dropped_status_counted_twice [of full_sys "[0]" "\<lparr>poll_flags = 0\<rparr>" _ no_blob "node_port plain_chip" no_card nop_hdr 5] by simp
qed

end
