(* ===== verification/GateLinkEnd.thy ===== *)
theory GateLinkEnd
  imports LoraTask GateIoProgress
begin

text \<open>
  A gate command from the radio to its acknowledgement, across the two tasks of GateLink that carry
  it: \<open>lora_task\<close>, which hands the relay sequence over and answers, and \<open>io_task\<close>, which pulses the
  relays. The queue between them and the report back are the ones the tasks share.
\<close>

lemma relay_sequence_relays:
  "relay_sequence_for cmd = Some seq \<Longrightarrow> relay_ok (rs_first seq) \<and> (rs_second seq = kNoRelay \<or> relay_ok (rs_second seq))"
  by (auto simp: relay_sequence_for_def relay_ok_def kRelayCount_def kK1OpenLock_def kK2Unlock_def kK3Open_def
      kK4CloseNow_def split: if_splits)

text \<open>
  C35: a gate command is carried out and answered. When GateLink accepts a new OPEN, CLOSE, HOLD\_OPEN
  or RELEASE\_HOLD while no sequence runs, and \<open>io_task\<close> takes the queue's sequence at its next pass,
  a later pass reports the sequence done after its relays were energized one after the other, and \<open>lora_task\<close> then queues one
  acknowledgement: ACCEPTED, or ACTUATOR\_FAULT if the report says that a write of the expander
  failed. The passes are less than a horizon apart and the last relay edge is at most four back.
\<close>

theorem gate_command_answered:
  fixes s :: "('b, ('h NodeShared, 'c) GateLinkApp) Sys"
  assumes "out_inv s" "sys_mac_ok s" "0 < out_room s" "cg_inv (cx_gate (sy_cx s))"
    "deserialize_Command payload = Inr cmd" "relay_sequence_for cmd = Some seq"
    "\<not> ga_dry_run (sy_app s)" "\<not> ga_withhold_ack (sy_app s)" "np_cmd_q (ga_port (sy_app s)) = None"
    "gr_verdict (fst (cg_check (h_seq hdr) (cx_gate (sy_cx s)))) = V_Execute" "\<not> pd_active (cx_pending (sy_cx s))"
    "ap = gatelink_app bo (node_port hw) cf" "s1 = on_command bo ap hdr payload t1 s"
    "env_ok env" "ii_command (snd (snd (env 0))) = np_cmd_q (ga_port (sy_app s1))" "\<not> cs_running (io_sequencer io)"
    "rp_active (io_pulser io) \<or> rp_ended (io_pulser io) \<longrightarrow>
      rp_end_ms (io_pulser io) = stamp e \<and> e \<le> time_at env 0 + horizon \<and> time_at env 0 \<le> e + 4 * horizon"
  shows "outq s1 = outq s \<and>
    (\<exists>i j m failed. i \<le> j \<and> j < m \<and>
      rp_mask (io_pulser (io_run env io (Suc i))) = push_bit (unat (rs_first seq)) 1 \<and>
      (rs_second seq \<noteq> kNoRelay \<longrightarrow> i < j \<and>
        rp_mask (io_pulser (io_run env io (Suc j))) = push_bit (unat (rs_second seq)) 1) \<and>
      fst (pass_at env m (io_run env io m)) = Some (SE_Done, failed) \<and>
      outq (lora_finish bo ap failed t2 s1) =
        outq s @ [ack_frame s1 (h_src hdr) (h_seq hdr) (if failed then AR_ActuatorFault else AR_Accepted) 0] \<and>
      \<not> pd_active (cx_pending (sy_cx (lora_finish bo ap failed t2 s1))))"
proof -
  let ?p = "(ga_port (sy_app s))\<lparr>np_cmd_q := Some seq\<rparr>" and ?out = "outcome AR_Accepted AA_None True"
  let ?a = "(sy_app s)\<lparr>ga_port := ?p, ga_dispatched := ga_dispatched (sy_app s) + 1\<rparr>"
  have disp: "gp_dispatch (node_port hw) seq (ga_port (sy_app s)) = (True, ?p)"
    using assms(9) by (simp add: node_port_def np_dispatch_def)
  have s1: "s1 = defer_command bo hdr cmd t1 ?out ?a s"
    unfolding assms(13,12) by (rule dispatch_defers [OF assms(5-7) disp assms(10,11)])
  note k = defer_command_keeps [of bo hdr cmd t1 ?out ?a s, folded s1]
  note g = defer_command_gate [OF assms(4,10), of bo cmd t1 ?out ?a, folded s1]
  have q: "ii_command (snd (snd (env 0))) = Some seq" using assms(15) k(1) by simp
  have relays: "relay_ok (rs_first seq)" "rs_second seq = kNoRelay \<or> relay_ok (rs_second seq)"
    using relay_sequence_relays [OF assms(6)] by simp_all
  obtain i j m failed where run: "i \<le> j" "j < m"
      "rp_mask (io_pulser (io_run env io (Suc i))) = push_bit (unat (rs_first seq)) 1"
      "rs_second seq \<noteq> kNoRelay \<longrightarrow> i < j \<and> rp_mask (io_pulser (io_run env io (Suc j))) = push_bit (unat (rs_second seq)) 1"
      "fst (pass_at env m (io_run env io m)) = Some (SE_Done, failed)"
    using sequence_completes [OF assms(14) relays q assms(16) assms(17) [rule_format]] by blast
  have pend: "pd_active (cx_pending (sy_cx s1))" "pd_after (cx_pending (sy_cx s1)) = AA_None"
    "pd_seq (cx_pending (sy_cx s1)) = h_seq hdr" "pd_peer (cx_pending (sy_cx s1)) = h_src hdr"
    "pd_result (cx_pending (sy_cx s1)) = AR_Accepted" "pd_detail (cx_pending (sy_cx s1)) = 0"
    using k(3) by simp_all
  have out: "\<not> ga_withhold_ack (sy_app s1)" "out_inv s1" "sys_mac_ok s1" "0 < out_room s1" "outq s1 = outq s"
    using assms(1-3,8) k by simp_all
  note f = finish_in_flight [OF pend out(1-4) g refl refl, of bo "node_port hw" cf failed t2, folded assms(12)]
  from run f(2,6) out(5) show ?thesis
    by (intro conjI exI [of _ i] exI [of _ j] exI [of _ m] exI [of _ failed]) simp_all
qed

text \<open>The node at boot takes an OPEN; \<open>io_task\<close> polls every 100 ms.\<close>

definition open_env :: io_env where
  "open_env n = (100 * n + 100, bench_params,
     if n = 0 then quiet_pass\<lparr>ii_command := Some \<lparr>rs_first = kK3Open, rs_second = kNoRelay\<rparr>\<rparr> else quiet_pass)"

theorem gate_command_answered_witness:
  "let ap = gatelink_app no_blob (node_port plain_chip) no_card; s1 = on_command no_blob ap nop_hdr [1, 0, 0, 0] 10 gate_sys
   in \<exists>i m failed. i < m \<and> rp_mask (io_pulser (io_run open_env IoRelays_new (Suc i))) = 4 \<and>
     fst (pass_at open_env m (io_run open_env IoRelays_new m)) = Some (SE_Done, failed) \<and>
     length (outq (lora_finish no_blob ap failed 900 s1)) = 1"
proof -
  let ?ap = "gatelink_app no_blob (node_port plain_chip) no_card" and ?seq = "\<lparr>rs_first = kK3Open, rs_second = kNoRelay\<rparr>"
  let ?s1 = "on_command no_blob ?ap nop_hdr [1, 0, 0, 0] 10 gate_sys"
  note g = gate_sys_ok
  have "ga_port (sy_app ?s1) = boot_shared\<lparr>np_cmd_q := Some ?seq\<rparr>"
    unfolding dispatch_defers [OF open_command(1,2) g(8,10) g(7,6)] by (simp add: defer_command_keeps)
  then have q: "ii_command (snd (snd (open_env 0))) = np_cmd_q (ga_port (sy_app ?s1))" by (simp add: open_env_def)
  have env: "env_ok open_env"
    by (auto simp: env_ok_def open_env_def pass_limits_def bench_params_def bench_width_def quiet_pass_def horizon_def)
  have idle: "\<not> cs_running (io_sequencer IoRelays_new)" "\<not> (rp_active (io_pulser IoRelays_new) \<or> rp_ended (io_pulser IoRelays_new))"
    by (simp_all add: IoRelays_new_def CommandSequencer_new_def cs_running_def RelayPulser_new_def)
  have room: "0 < out_room gate_sys" using g(4) by simp
  have near: "rp_active (io_pulser IoRelays_new) \<or> rp_ended (io_pulser IoRelays_new) \<longrightarrow>
      rp_end_ms (io_pulser IoRelays_new) = stamp 0 \<and> 0 \<le> time_at open_env 0 + horizon \<and> time_at open_env 0 \<le> 0 + 4 * horizon"
    using idle(2) by blast
  note w = gate_command_answered [OF g(1,2) room g(5) open_command g(8,9) g(11) g(7,6) refl refl env q idle(1) near, of 900]
  from conjunct2 [OF w] obtain i j m failed where r: "i \<le> j" "j < m"
      "rp_mask (io_pulser (io_run open_env IoRelays_new (Suc i))) = push_bit (unat (rs_first ?seq)) 1"
      "fst (pass_at open_env m (io_run open_env IoRelays_new m)) = Some (SE_Done, failed)"
      "outq (lora_finish no_blob ?ap failed 900 ?s1) = outq gate_sys @
        [ack_frame ?s1 (h_src nop_hdr) (h_seq nop_hdr) (if failed then AR_ActuatorFault else AR_Accepted) 0]"
    by (elim exE conjE) (rule that)
  have "push_bit (unat (rs_first ?seq)) 1 = (4 :: u8)" by (simp add: kK3Open_def)
  moreover have "i < m" using r(1,2) by simp
  ultimately show ?thesis using r g(3) unfolding Let_def by (intro exI [of _ i] exI [of _ m] exI [of _ failed]) simp
qed

end
