(* ===== verification/BridgeRegistry.thy ===== *)
theory BridgeRegistry
  imports CodecCorrect Messages ConfigTable
begin

text \<open>
  The bridge's registry of nodes (\<open>firmware/bridge/src\<close>: \<open>registry.h\<close>, \<open>registry.cpp\<close>): what a node is, its
  key, and what the bridge has learned of it. The key derivation is a parameter (\<open>IKdf\<close>).
\<close>

section \<open>The table\<close>

datatype NodeType = NT_GateLink | NT_WellLink | NT_Simnode

abbreviation kNodeWellLink :: NodeId where "kNodeWellLink \<equiv> 0x02"
abbreviation kNodeSim0 :: NodeId where "kNodeSim0 \<equiv> 0xF0"
abbreviation kNodeSim1 :: NodeId where "kNodeSim1 \<equiv> 0xF1"
abbreviation kNodeSim2 :: NodeId where "kNodeSim2 \<equiv> 0xF2"
abbreviation kNodeSim3 :: NodeId where "kNodeSim3 \<equiv> 0xF3"

definition is_bench_node :: "NodeId \<Rightarrow> bool" where
  "is_bench_node i \<longleftrightarrow> 0xF0 \<le> i \<and> i \<le> 0xFE"

definition kNodeTable :: "(NodeId \<times> NodeType) list" where
  "kNodeTable = [(kNodeGateLink, NT_GateLink), (kNodeWellLink, NT_WellLink), (kNodeSim0, NT_Simnode),
     (kNodeSim1, NT_Simnode), (kNodeSim2, NT_Simnode), (kNodeSim3, NT_Simnode)]"

definition kNodeCount :: nat where "kNodeCount = length kNodeTable"

definition hex_allowed :: "NodeType \<Rightarrow> bool" where
  "hex_allowed type \<longleftrightarrow> type = NT_GateLink \<or> type = NT_Simnode"

fun index_from :: "nat \<Rightarrow> NodeId \<Rightarrow> NodeId list \<Rightarrow> nat option" where
  "index_from i node [] = None"
| "index_from i node (x # xs) = (if x = node then Some i else index_from (Suc i) node xs)"

definition node_table_index :: "NodeId \<Rightarrow> nat option" where
  "node_table_index node = index_from 0 node (map fst kNodeTable)"

fun node_table_valid :: "(NodeId \<times> NodeType) list \<Rightarrow> NodeId list \<Rightarrow> bool" where
  "node_table_valid [] seen = True"
| "node_table_valid ((i, t) # rest) seen =
     (i \<noteq> kNodeBridge \<and> i \<noteq> kNodeBroadcast \<and> i \<notin> set seen \<and> node_table_valid rest (i # seen))"

text \<open>The \<open>static_assert\<close>s on the table.\<close>

lemma node_table_checked: "node_table_valid kNodeTable []" "kNodeCount = 6"
  by (simp_all add: kNodeTable_def kNodeCount_def)

section \<open>State\<close>

definition kRssiUnknown :: i16 where "kRssiUnknown = word_of_int (-32768)"
definition kSnrUnknown :: i8 where "kSnrUnknown = word_of_int (-128)"
definition kVerUnknown :: u8 where "kVerUnknown = 0xFF"
definition kPollIntervalDefaultS :: u16 where "kPollIntervalDefaultS = 60"

record NodeInfo =
  ni_id :: NodeId
  ni_type :: NodeType
  ni_is_bench :: bool

record NodeState =
  nst_ctx_id :: CtxId
  nst_cmd_seq :: Seq
  nst_heard :: bool
  nst_last_seen_ms :: u32
  nst_frames_heard :: u32
  nst_missed_polls :: u16
  nst_proto_ver :: u8
  nst_unsupported_ver :: u8
  nst_rssi_dbm :: i16
  nst_snr_db :: i8
  nst_poll_interval_s :: u16

definition NodeState_init :: NodeState where
  "NodeState_init = \<lparr>nst_ctx_id = 0, nst_cmd_seq = 1, nst_heard = False, nst_last_seen_ms = 0, nst_frames_heard = 0,
     nst_missed_polls = 0, nst_proto_ver = kVerUnknown, nst_unsupported_ver = 0, nst_rssi_dbm = kRssiUnknown,
     nst_snr_db = kSnrUnknown, nst_poll_interval_s = kPollIntervalDefaultS\<rparr>"

datatype Observed = Ob_UnregisteredNode | Ob_Heard | Ob_NewContext

record RegEntry =
  re_info :: NodeInfo
  re_key :: bytes
  re_state :: NodeState

record Registry =
  rg_entries :: "RegEntry list"
  rg_loaded :: bool

definition Registry_new :: Registry where
  "Registry_new = \<lparr>rg_entries = map (\<lambda>(i, t). \<lparr>re_info = \<lparr>ni_id = i, ni_type = t, ni_is_bench = is_bench_node i\<rparr>,
       re_key = replicate kNodeKeyLen 0, re_state = NodeState_init\<rparr>) kNodeTable, rg_loaded = False\<rparr>"

definition rg_load :: "(bytes \<Rightarrow> NodeId \<Rightarrow> bytes) \<Rightarrow> bytes \<Rightarrow> Registry \<Rightarrow> Registry" where
  "rg_load kdf master r = r\<lparr>rg_entries := map (\<lambda>e. e\<lparr>re_key := kdf master (ni_id (re_info e)), re_state := NodeState_init\<rparr>) (rg_entries r),
     rg_loaded := True\<rparr>"

definition rg_index :: "NodeId \<Rightarrow> Registry \<Rightarrow> nat option" where
  "rg_index node r = (if \<not> rg_loaded r then None else index_from 0 node (map (\<lambda>e. ni_id (re_info e)) (rg_entries r)))"

definition rg_key_for :: "NodeId \<Rightarrow> Registry \<Rightarrow> bytes option" where
  "rg_key_for node r = map_option (\<lambda>i. re_key (rg_entries r ! i)) (rg_index node r)"

definition rg_is_registered :: "NodeId \<Rightarrow> Registry \<Rightarrow> bool" where
  "rg_is_registered node r \<longleftrightarrow> rg_index node r \<noteq> None"

definition rg_find :: "NodeId \<Rightarrow> Registry \<Rightarrow> NodeInfo option" where
  "rg_find node r = map_option (\<lambda>i. re_info (rg_entries r ! i)) (rg_index node r)"

definition rg_state :: "NodeId \<Rightarrow> Registry \<Rightarrow> NodeState option" where
  "rg_state node r = map_option (\<lambda>i. re_state (rg_entries r ! i)) (rg_index node r)"

section \<open>What the bridge learns\<close>

definition reg_put :: "nat \<Rightarrow> (NodeState \<Rightarrow> NodeState) \<Rightarrow> Registry \<Rightarrow> Registry" where
  "reg_put i f r = r\<lparr>rg_entries := (rg_entries r)[i := (rg_entries r ! i)\<lparr>re_state := f (re_state (rg_entries r ! i))\<rparr>]\<rparr>"

definition observe_state :: "Header \<Rightarrow> i16 \<Rightarrow> i8 \<Rightarrow> u32 \<Rightarrow> NodeState \<Rightarrow> Observed \<times> NodeState" where
  "observe_state hdr rssi_dbm snr_db now_ms s =
     (let s = s\<lparr>nst_heard := True, nst_last_seen_ms := now_ms, nst_frames_heard := nst_frames_heard s + 1,
                nst_proto_ver := h_ver hdr, nst_unsupported_ver := 0, nst_rssi_dbm := rssi_dbm, nst_snr_db := snr_db,
                nst_missed_polls := 0\<rparr> in
      if h_ctx_id hdr = 0 \<or> h_ctx_id hdr = nst_ctx_id s then (Ob_Heard, s)
      else (Ob_NewContext, s\<lparr>nst_ctx_id := h_ctx_id hdr, nst_cmd_seq := 1\<rparr>))"

definition rg_observe :: "Header \<Rightarrow> i16 \<Rightarrow> i8 \<Rightarrow> u32 \<Rightarrow> Registry \<Rightarrow> Observed \<times> Registry" where
  "rg_observe hdr rssi_dbm snr_db now_ms r =
     (case rg_index (h_src hdr) r of
        None \<Rightarrow> (Ob_UnregisteredNode, r)
      | Some i \<Rightarrow> (fst (observe_state hdr rssi_dbm snr_db now_ms (re_state (rg_entries r ! i))),
                 reg_put i (\<lambda>s. snd (observe_state hdr rssi_dbm snr_db now_ms s)) r))"

definition rg_take_cmd_seq :: "NodeId \<Rightarrow> Registry \<Rightarrow> Seq option \<times> Registry" where
  "rg_take_cmd_seq node r =
     (case rg_index node r of
        None \<Rightarrow> (None, r)
      | Some i \<Rightarrow> (let s = nst_cmd_seq (re_state (rg_entries r ! i)); n = s + 1
                 in (Some s, reg_put i (\<lambda>st. st\<lparr>nst_cmd_seq := (if n = 0 then 1 else n)\<rparr>) r)))"

definition rg_update :: "NodeId \<Rightarrow> (NodeState \<Rightarrow> NodeState) \<Rightarrow> Registry \<Rightarrow> bool \<times> Registry" where
  "rg_update node f r = (case rg_index node r of None \<Rightarrow> (False, r) | Some i \<Rightarrow> (True, reg_put i f r))"

definition rg_adopt_ctx :: "NodeId \<Rightarrow> CtxId \<Rightarrow> Registry \<Rightarrow> bool \<times> Registry" where
  "rg_adopt_ctx node ctx = rg_update node (\<lambda>s. s\<lparr>nst_ctx_id := ctx, nst_cmd_seq := 1\<rparr>)"

definition rg_note_unsupported_version :: "NodeId \<Rightarrow> u8 \<Rightarrow> Registry \<Rightarrow> bool \<times> Registry" where
  "rg_note_unsupported_version node ver = rg_update node (\<lambda>s. s\<lparr>nst_unsupported_ver := ver\<rparr>)"

definition rg_set_poll_interval :: "NodeId \<Rightarrow> u16 \<Rightarrow> Registry \<Rightarrow> bool \<times> Registry" where
  "rg_set_poll_interval node interval_s = rg_update node (\<lambda>s. s\<lparr>nst_poll_interval_s := interval_s\<rparr>)"

definition rg_note_poll_missed :: "NodeId \<Rightarrow> Registry \<Rightarrow> bool \<times> Registry" where
  "rg_note_poll_missed node =
     rg_update node (\<lambda>s. if nst_missed_polls s < 0xFFFF then s\<lparr>nst_missed_polls := nst_missed_polls s + 1\<rparr> else s)"

definition node_tx_ver :: "NodeState \<Rightarrow> u8" where
  "node_tx_ver s = (if nst_proto_ver s = kVerUnknown then kProtoVer else nst_proto_ver s)"

section \<open>What every operation keeps\<close>

lemma index_from_nth: "index_from k node xs = Some i \<Longrightarrow> k \<le> i \<and> i - k < length xs \<and> xs ! (i - k) = node"
  by (induction k node xs rule: index_from.induct) (auto simp: nth_Cons' split: if_splits)

lemma index_from_None: "index_from k node xs = None \<longleftrightarrow> node \<notin> set xs"
  by (induction k node xs rule: index_from.induct) auto

lemma rg_index_Some:
  "rg_index node r = Some i \<Longrightarrow> rg_loaded r \<and> i < length (rg_entries r) \<and> ni_id (re_info (rg_entries r ! i)) = node"
  by (auto simp: rg_index_def split: if_splits dest: index_from_nth)

lemma map_update_same: "g x = g (xs ! i) \<Longrightarrow> map g (xs[i := x]) = map g xs"
  by (cases "i < length xs") (auto simp: map_update list_update_same_conv list_update_beyond)

lemma reg_put_sel [simp]:
  "rg_loaded (reg_put i f r) = rg_loaded r" "length (rg_entries (reg_put i f r)) = length (rg_entries r)"
  "map (\<lambda>e. (re_info e, re_key e)) (rg_entries (reg_put i f r)) = map (\<lambda>e. (re_info e, re_key e)) (rg_entries r)"
  "map (\<lambda>e. ni_id (re_info e)) (rg_entries (reg_put i f r)) = map (\<lambda>e. ni_id (re_info e)) (rg_entries r)"
  by (simp_all add: reg_put_def map_update_same)

lemma reg_put_index [simp]: "rg_index node (reg_put i f r) = rg_index node r"
  by (simp add: rg_index_def)

lemma reg_put_state:
  assumes "rg_index node r = Some i"
  shows "rg_state node (reg_put i f r) = Some (f (re_state (rg_entries r ! i)))"
    "node' \<noteq> node \<Longrightarrow> rg_state node' (reg_put i f r) = rg_state node' r"
proof -
  note i = rg_index_Some [OF assms]
  show "rg_state node (reg_put i f r) = Some (f (re_state (rg_entries r ! i)))"
    using assms i by (simp add: rg_state_def reg_put_def rg_index_def map_update_same)
  show "rg_state node' (reg_put i f r) = rg_state node' r" if "node' \<noteq> node"
  proof (cases "rg_index node' r")
    case (Some j)
    then have "j \<noteq> i" using i that rg_index_Some [OF Some] by auto
    with Some show ?thesis by (simp add: rg_state_def) (simp add: reg_put_def)
  qed (simp add: rg_state_def)
qed

text \<open>The two halves of an entry: what a node is, and what was learned.\<close>

definition rg_identity :: "Registry \<Rightarrow> (NodeInfo \<times> bytes) list" where
  "rg_identity r = map (\<lambda>e. (re_info e, re_key e)) (rg_entries r)"

definition provisioned :: "(bytes \<Rightarrow> NodeId \<Rightarrow> bytes) \<Rightarrow> bytes \<Rightarrow> (NodeInfo \<times> bytes) list" where
  "provisioned kdf master =
     map (\<lambda>(i, t). (\<lparr>ni_id = i, ni_type = t, ni_is_bench = is_bench_node i\<rparr>, kdf master i)) kNodeTable"

definition rg_seqs_ok :: "Registry \<Rightarrow> bool" where
  "rg_seqs_ok r \<longleftrightarrow> (\<forall>e \<in> set (rg_entries r). nst_cmd_seq (re_state e) \<noteq> 0)"

text \<open>Every call a task makes on a loaded registry.\<close>

inductive rg_step :: "Registry \<Rightarrow> Registry \<Rightarrow> bool" where
  "rg_step r (snd (rg_observe hdr rssi snr now r))"
| "rg_step r (snd (rg_take_cmd_seq node r))"
| "rg_step r (snd (rg_adopt_ctx node ctx r))"
| "rg_step r (snd (rg_note_unsupported_version node ver r))"
| "rg_step r (snd (rg_set_poll_interval node interval r))"
| "rg_step r (snd (rg_note_poll_missed node r))"

lemma load_identity: "rg_identity (rg_load kdf master Registry_new) = provisioned kdf master"
  "rg_seqs_ok (rg_load kdf master Registry_new)" "rg_loaded (rg_load kdf master Registry_new)"
  by (auto simp: rg_load_def Registry_new_def rg_identity_def provisioned_def rg_seqs_ok_def NodeState_init_def)

lemma reg_put_seqs:
  "rg_seqs_ok r \<Longrightarrow> (\<And>s. nst_cmd_seq s \<noteq> 0 \<Longrightarrow> nst_cmd_seq (f s) \<noteq> 0) \<Longrightarrow> rg_seqs_ok (reg_put i f r)"
  by (cases "i < length (rg_entries r)")
    (auto simp: rg_seqs_ok_def reg_put_def list_update_beyond dest!: set_update_subset_insert [THEN subsetD])

lemma observe_state_seq: "nst_cmd_seq s \<noteq> 0 \<Longrightarrow> nst_cmd_seq (snd (observe_state hdr rssi snr now s)) \<noteq> 0"
  by (simp add: observe_state_def Let_def)

lemma rg_step_keeps:
  assumes "rg_step r r'"
  shows "rg_identity r' = rg_identity r \<and> rg_loaded r' = rg_loaded r \<and> (rg_seqs_ok r \<longrightarrow> rg_seqs_ok r')"
  using assms
  by cases (auto simp: rg_identity_def rg_observe_def rg_take_cmd_seq_def rg_update_def rg_adopt_ctx_def Let_def
      rg_note_unsupported_version_def rg_set_poll_interval_def rg_note_poll_missed_def split_beta
      split: option.splits if_splits intro!: reg_put_seqs observe_state_seq)

lemma rg_steps_keep:
  "rg_step\<^sup>*\<^sup>* r r' \<Longrightarrow> rg_seqs_ok r \<Longrightarrow> rg_identity r' = rg_identity r \<and> rg_loaded r' = rg_loaded r \<and> rg_seqs_ok r'"
  by (induction rule: rtranclp_induct) (auto dest: rg_step_keeps)

lemma identity_lookup:
  assumes "rg_identity r = provisioned kdf master" "rg_loaded r"
  shows "rg_key_for node r = (if node \<in> fst ` set kNodeTable then Some (kdf master node) else None)"
    "rg_is_registered node r \<longleftrightarrow> node \<in> fst ` set kNodeTable"
proof -
  have "map (\<lambda>x. ni_id (fst x)) (rg_identity r) = map fst kNodeTable"
    by (auto simp: assms(1) provisioned_def)
  then have ids: "map (\<lambda>e. ni_id (re_info e)) (rg_entries r) = map fst kNodeTable"
    by (simp add: rg_identity_def comp_def)
  show reg: "rg_is_registered node r \<longleftrightarrow> node \<in> fst ` set kNodeTable"
    by (simp add: rg_is_registered_def rg_index_def ids assms(2) index_from_None)
  show "rg_key_for node r = (if node \<in> fst ` set kNodeTable then Some (kdf master node) else None)"
  proof (cases "rg_index node r")
    case (Some i)
    note x = rg_index_Some [OF Some]
    have "rg_identity r ! i \<in> set (provisioned kdf master)" using x by (simp add: rg_identity_def flip: assms(1))
    then have "re_key (rg_entries r ! i) = kdf master (ni_id (re_info (rg_entries r ! i)))"
      using x by (auto simp: provisioned_def rg_identity_def)
    with Some x reg show ?thesis by (auto simp: rg_key_for_def rg_is_registered_def)
  qed (use reg in \<open>auto simp: rg_key_for_def rg_is_registered_def\<close>)
qed

text \<open>
  C17: what a node is never changes. Once loaded, whatever frames are observed, sequence numbers taken,
  contexts adopted and polls missed, the registry holds exactly the nodes of the table, each with
  its type and the key derived from the master key, and hands out no sequence number 0.
\<close>

theorem registry_stays_provisioned:
  assumes "rg_step\<^sup>*\<^sup>* (rg_load kdf master Registry_new) r"
  shows "rg_identity r = provisioned kdf master \<and>
    rg_key_for node r = (if node \<in> fst ` set kNodeTable then Some (kdf master node) else None) \<and>
    (rg_is_registered node r \<longleftrightarrow> node \<in> fst ` set kNodeTable) \<and> fst (rg_take_cmd_seq node r) \<noteq> Some 0"
proof -
  note k = rg_steps_keep [OF assms load_identity(2)]
  have "fst (rg_take_cmd_seq node r) \<noteq> Some 0"
    using k rg_index_Some [of node r] by (auto simp: rg_take_cmd_seq_def rg_seqs_ok_def Let_def split: option.split)
  with k identity_lookup [of r kdf master node] load_identity show ?thesis by auto
qed

theorem registry_stays_provisioned_witness:
  "let r = snd (rg_take_cmd_seq kNodeGateLink (rg_load RefKdf (replicate 32 7) Registry_new))
   in rg_key_for kNodeGateLink r = Some (RefKdf (replicate 32 7) kNodeGateLink) \<and> \<not> rg_is_registered 0x55 r"
proof -
  let ?r0 = "rg_load RefKdf (replicate 32 7) Registry_new"
  have "rg_step\<^sup>*\<^sup>* ?r0 (snd (rg_take_cmd_seq kNodeGateLink ?r0))" by (blast intro: rg_step.intros)
  from registry_stays_provisioned [OF this, of kNodeGateLink] registry_stays_provisioned [OF this, of "0x55"]
  show ?thesis by (simp add: kNodeTable_def)
qed

end
