(* ===== verification/BridgeCommand.thy ===== *)
theory BridgeCommand
  imports BridgeRegistry Clock
begin

text \<open>
  The bridge's command path and its retry (\<open>firmware/bridge/src\<close>: \<open>command.h\<close>, \<open>command.cpp\<close>).
  \<open>CommandPath\<close> decides what to transmit and how a command ended; the caller builds the frame and
  reports back. Statistics wrap as the \<open>uint32_t\<close> fields of the source do.
\<close>

section \<open>Which commands\<close>

definition kCommandAckTimeoutDefaultMs :: u32 where "kCommandAckTimeoutDefaultMs = 3000"
definition kCommandRetriesDefault :: u8 where "kCommandRetriesDefault = 3"
definition kCommandRetryBackoffMs :: u32 where "kCommandRetryBackoffMs = 500"

record CommandRequest =
  cr_dst :: NodeId
  cr_cmd :: u8
  cr_arg :: u8
  cr_arg2 :: u16

definition command_allowed :: "NodeType \<Rightarrow> u8 \<Rightarrow> bool" where
  "command_allowed type cmd =
     (if cmd \<in> {Cmd_Nop, Cmd_RequestStatus, Cmd_RequestConfig, Cmd_SetDebugMode, Cmd_Reboot} then True
      else if cmd \<in> {Cmd_Open, Cmd_Close, Cmd_HoldOpen, Cmd_ReleaseHold, Cmd_SetRelayDryRun}
        then type = NT_GateLink \<or> type = NT_Simnode
      else if cmd = Cmd_SetBmsPolling then type = NT_GateLink \<or> type = NT_Simnode
      else if cmd = Cmd_RollContext then False
      else False)"

definition resync_may_retry :: "u8 \<Rightarrow> bool" where
  "resync_may_retry cmd = (if cmd \<le> 0x0F then False else cmd \<noteq> Cmd_Reboot)"

section \<open>State\<close>

datatype CmdAction = CA_None | CA_Send | CA_Resolve

datatype CmdOutcome = CO_Pending | CO_Acked | CO_NoAck | CO_ResyncFailed | CO_Unconfirmed

record CmdStep =
  cs_action :: CmdAction
  cs_dst :: NodeId
  cs_cmd :: u8
  cs_arg :: u8
  cs_arg2 :: u16
  cs_seq :: Seq
  cs_ctx_id :: CtxId
  cs_attempt :: u8
  cs_ctx_adopted :: bool
  cs_outcome :: CmdOutcome
  cs_result :: u8
  cs_detail :: u8

definition CmdStep_init :: CmdStep where
  "CmdStep_init = \<lparr>cs_action = CA_None, cs_dst = 0, cs_cmd = 0, cs_arg = 0, cs_arg2 = 0, cs_seq = 0, cs_ctx_id = 0,
     cs_attempt = 0, cs_ctx_adopted = False, cs_outcome = CO_Pending, cs_result = 0, cs_detail = 0\<rparr>"

record CommandStats =
  cst_submitted :: u32
  cst_refused_busy :: u32
  cst_sent :: u32
  cst_retries :: u32
  cst_acked :: u32
  cst_no_ack :: u32
  cst_resyncs :: u32
  cst_resync_failed :: u32
  cst_unconfirmed :: u32
  cst_ack_ignored :: u32

definition CommandStats_init :: CommandStats where
  "CommandStats_init = \<lparr>cst_submitted = 0, cst_refused_busy = 0, cst_sent = 0, cst_retries = 0, cst_acked = 0,
     cst_no_ack = 0, cst_resyncs = 0, cst_resync_failed = 0, cst_unconfirmed = 0, cst_ack_ignored = 0\<rparr>"

datatype PathPhase = PP_Idle | PP_SendDue | PP_AwaitingAck | PP_Resolved

record CommandPath =
  cp_req :: CommandRequest
  cp_phase :: PathPhase
  cp_seq :: Seq
  cp_ctx :: CtxId
  cp_attempt :: u8
  cp_resync_used :: bool
  cp_ctx_adopted :: bool
  cp_window_opened_ms :: u32
  cp_outcome :: CmdOutcome
  cp_result :: u8
  cp_detail :: u8
  cp_ack_timeout_ms :: u32
  cp_retries :: u8
  cp_stats :: CommandStats

definition CommandPath_new :: CommandPath where
  "CommandPath_new = \<lparr>cp_req = \<lparr>cr_dst = 0, cr_cmd = 0, cr_arg = 0, cr_arg2 = 0\<rparr>, cp_phase = PP_Idle, cp_seq = 0,
     cp_ctx = 0, cp_attempt = 0, cp_resync_used = False, cp_ctx_adopted = False, cp_window_opened_ms = 0,
     cp_outcome = CO_Pending, cp_result = 0, cp_detail = 0, cp_ack_timeout_ms = kCommandAckTimeoutDefaultMs,
     cp_retries = kCommandRetriesDefault, cp_stats = CommandStats_init\<rparr>"

definition cp_busy :: "CommandPath \<Rightarrow> bool" where
  "cp_busy p \<longleftrightarrow> cp_phase p \<noteq> PP_Idle"

definition cp_count :: "(CommandStats \<Rightarrow> CommandStats) \<Rightarrow> CommandPath \<Rightarrow> CommandPath" where
  "cp_count f p = p\<lparr>cp_stats := f (cp_stats p)\<rparr>"

section \<open>The state machine\<close>

definition cp_set_ack_timeout_ms :: "u32 \<Rightarrow> CommandPath \<Rightarrow> CommandPath" where
  "cp_set_ack_timeout_ms ms p = p\<lparr>cp_ack_timeout_ms := ms\<rparr>"

definition cp_set_retries :: "u8 \<Rightarrow> CommandPath \<Rightarrow> CommandPath" where
  "cp_set_retries n p = p\<lparr>cp_retries := n\<rparr>"

definition cp_submit :: "CommandRequest \<Rightarrow> CtxId \<Rightarrow> Seq \<Rightarrow> u32 \<Rightarrow> CommandPath \<Rightarrow> bool \<times> CommandPath" where
  "cp_submit req ctx seq now_ms p =
     (if cp_phase p \<noteq> PP_Idle then (False, cp_count (\<lambda>s. s\<lparr>cst_refused_busy := cst_refused_busy s + 1\<rparr>) p)
      else (True, cp_count (\<lambda>s. s\<lparr>cst_submitted := cst_submitted s + 1\<rparr>)
        (p\<lparr>cp_req := req, cp_ctx := ctx, cp_seq := seq, cp_attempt := 0, cp_resync_used := False,
           cp_ctx_adopted := False, cp_outcome := CO_Pending, cp_result := 0, cp_detail := 0,
           cp_window_opened_ms := now_ms, cp_phase := PP_SendDue\<rparr>)))"

text \<open>
  \<open>next()\<close>: a window that is still open yields nothing; a closed one moves to \<open>Resolved\<close> or
  \<open>SendDue\<close> and falls through to that phase, which is the recursive call of the source.
\<close>

definition cp_window :: "CommandPath \<Rightarrow> u32" where
  "cp_window p = cp_ack_timeout_ms p + (if cp_attempt p > 0 then kCommandRetryBackoffMs else 0)"

definition cp_window_open :: "u32 \<Rightarrow> CommandPath \<Rightarrow> bool" where
  "cp_window_open now_ms p \<longleftrightarrow> sint (now_ms - cp_window_opened_ms p) < sint (cp_window p)"

definition cp_close_window :: "u32 \<Rightarrow> CommandPath \<Rightarrow> CommandPath" where
  "cp_close_window now_ms p =
     (if cp_phase p \<noteq> PP_AwaitingAck \<or> cp_window_open now_ms p then p
      else if cp_attempt p \<ge> cp_retries p
        then cp_count (\<lambda>s. s\<lparr>cst_no_ack := cst_no_ack s + 1\<rparr>) (p\<lparr>cp_outcome := CO_NoAck, cp_phase := PP_Resolved\<rparr>)
      else p\<lparr>cp_attempt := cp_attempt p + 1, cp_phase := PP_SendDue\<rparr>)"

definition cp_send_step :: "CommandPath \<Rightarrow> CmdStep" where
  "cp_send_step p = CmdStep_init\<lparr>cs_action := CA_Send, cs_dst := cr_dst (cp_req p), cs_cmd := cr_cmd (cp_req p),
     cs_arg := cr_arg (cp_req p), cs_arg2 := cr_arg2 (cp_req p), cs_seq := cp_seq p, cs_ctx_id := cp_ctx p,
     cs_attempt := cp_attempt p, cs_ctx_adopted := cp_ctx_adopted p\<rparr>"

definition cp_resolve_step :: "CommandPath \<Rightarrow> CmdStep" where
  "cp_resolve_step p =
     (let st = CmdStep_init\<lparr>cs_action := CA_Resolve, cs_dst := cr_dst (cp_req p), cs_seq := cp_seq p,
                cs_attempt := cp_attempt p, cs_outcome := cp_outcome p, cs_result := cp_result p, cs_detail := cp_detail p\<rparr>
      in if cp_outcome p = CO_Unconfirmed then st\<lparr>cs_ctx_id := cp_ctx p, cs_ctx_adopted := True\<rparr> else st)"

definition cp_next :: "u32 \<Rightarrow> CommandPath \<Rightarrow> CmdStep \<times> CommandPath" where
  "cp_next now_ms p =
     (let p = cp_close_window now_ms p in
      case cp_phase p of
        PP_Idle \<Rightarrow> (CmdStep_init, p)
      | PP_SendDue \<Rightarrow> (cp_send_step p, p)
      | PP_AwaitingAck \<Rightarrow> (CmdStep_init, p)
      | PP_Resolved \<Rightarrow> (cp_resolve_step p, p\<lparr>cp_phase := PP_Idle\<rparr>))"

definition cp_on_sent :: "u32 \<Rightarrow> CommandPath \<Rightarrow> CommandPath" where
  "cp_on_sent now_ms p =
     (if cp_phase p \<noteq> PP_SendDue then p
      else cp_count (\<lambda>s. s\<lparr>cst_sent := cst_sent s + 1,
                           cst_retries := (if cp_attempt p > 0 then cst_retries s + 1 else cst_retries s)\<rparr>)
             (p\<lparr>cp_window_opened_ms := now_ms, cp_phase := PP_AwaitingAck, cp_ctx_adopted := False\<rparr>))"

definition cp_on_aired :: "u32 \<Rightarrow> CommandPath \<Rightarrow> CommandPath" where
  "cp_on_aired aired_ms p = (if cp_phase p = PP_AwaitingAck then p\<lparr>cp_window_opened_ms := aired_ms\<rparr> else p)"

definition cp_on_ack :: "NodeId \<Rightarrow> CommandAck \<Rightarrow> CtxId \<Rightarrow> u32 \<Rightarrow> CommandPath \<Rightarrow> CommandPath" where
  "cp_on_ack src ack ack_ctx now_ms p =
     (if cp_phase p \<noteq> PP_AwaitingAck \<or> src \<noteq> cr_dst (cp_req p) \<or> ca_ack_seq ack \<noteq> cp_seq p
        then cp_count (\<lambda>s. s\<lparr>cst_ack_ignored := cst_ack_ignored s + 1\<rparr>) p
      else if ca_result ack = AckResult_u8 AR_RejectedCtx then
        (if cp_resync_used p then
           cp_count (\<lambda>s. s\<lparr>cst_resync_failed := cst_resync_failed s + 1\<rparr>)
             (p\<lparr>cp_outcome := CO_ResyncFailed, cp_result := ca_result ack, cp_detail := ca_detail ack,
                cp_phase := PP_Resolved\<rparr>)
         else if \<not> resync_may_retry (cr_cmd (cp_req p)) then
           cp_count (\<lambda>s. s\<lparr>cst_unconfirmed := cst_unconfirmed s + 1\<rparr>)
             (p\<lparr>cp_ctx := ack_ctx, cp_outcome := CO_Unconfirmed, cp_result := ca_result ack,
                cp_detail := ca_detail ack, cp_phase := PP_Resolved\<rparr>)
         else
           cp_count (\<lambda>s. s\<lparr>cst_resyncs := cst_resyncs s + 1\<rparr>)
             (p\<lparr>cp_ctx := ack_ctx, cp_seq := 1, cp_attempt := 0, cp_resync_used := True, cp_ctx_adopted := True,
                cp_window_opened_ms := now_ms, cp_phase := PP_SendDue\<rparr>))
      else cp_count (\<lambda>s. s\<lparr>cst_acked := cst_acked s + 1\<rparr>)
             (p\<lparr>cp_outcome := CO_Acked, cp_result := ca_result ack, cp_detail := ca_detail ack, cp_phase := PP_Resolved\<rparr>))"

section \<open>Frame construction\<close>

definition build_command_frame :: "NodeId \<Rightarrow> CtxId \<Rightarrow> Seq \<Rightarrow> u8 \<Rightarrow> Command \<Rightarrow> EncodeCtx \<Rightarrow> bytes \<Rightarrow> bytes \<times> nat" where
  "build_command_frame dst ctx seq ver cmd ectx buf =
     (let h = Header_init\<lparr>h_ver := ver, h_type := MT_Command, h_src := kNodeBridge, h_dst := dst, h_seq := seq,
                h_ctx_id := ctx, h_schema := kSchemaNone\<rparr>;
          (st, payload, plen) = serialize_Command cmd (replicate kCommandLen 0)
      in if st \<noteq> St_Ok then (buf, 0)
         else let (st, buf, len) = encode h (take (the plen) payload) ectx buf
              in (buf, if st = St_Ok then len else 0))"

end
