(* ===== verification/BridgeRoll.thy ===== *)
theory BridgeRoll
  imports BridgeCommand
begin

text \<open>
  The context roll after a bridge restart (\<open>firmware/bridge/src\<close>: \<open>context_roll.h\<close>,
  \<open>context_roll.cpp\<close>): every node starts pending, is sent \<open>ROLL_CONTEXT\<close> when it is first heard,
  and is sent nothing else until the roll completes. The pending and due sets are 32-bit masks, one
  bit per row of the node table.
\<close>

section \<open>State\<close>

definition kAllNodesMask :: u32 where
  "kAllNodesMask = (if kNodeCount = 32 then 0xFFFFFFFF else push_bit kNodeCount 1 - 1)"

definition node_bit :: "NodeId \<Rightarrow> u32" where
  "node_bit i = (case node_table_index i of None \<Rightarrow> 0 | Some k \<Rightarrow> push_bit k 1)"

datatype RollAction = RA_None | RA_Send | RA_Resolve

datatype RollOutcome = RO_Pending | RO_Rolled | RO_Failed

record RollStep =
  rs_action :: RollAction
  rs_dst :: NodeId
  rs_seq :: Seq
  rs_ctx_id :: CtxId
  rs_attempt :: u8
  rs_outcome :: RollOutcome
  rs_no_ack :: bool
  rs_result :: u8

definition RollStep_init :: RollStep where
  "RollStep_init = \<lparr>rs_action = RA_None, rs_dst = 0, rs_seq = 0, rs_ctx_id = 0, rs_attempt = 0,
     rs_outcome = RO_Pending, rs_no_ack = False, rs_result = 0\<rparr>"

record RollStats =
  rst_ctx_rolls :: u32
  rst_ctx_roll_failed :: u32
  rst_sent :: u32
  rst_retries :: u32
  rst_busy :: u32
  rst_by_rejected_ctx :: u32
  rst_cmd_refused :: u32

record ContextRoll =
  rl_pending :: u32
  rl_due :: u32
  rl_phase :: PathPhase
  rl_dst :: NodeId
  rl_ctx :: CtxId
  rl_seq :: Seq
  rl_attempt :: u8
  rl_window_opened_ms :: u32
  rl_outcome :: RollOutcome
  rl_no_ack :: bool
  rl_result :: u8
  rl_ack_timeout_ms :: u32
  rl_retries :: u8
  rl_stats :: RollStats

definition ContextRoll_new :: ContextRoll where
  "ContextRoll_new = \<lparr>rl_pending = kAllNodesMask, rl_due = 0, rl_phase = PP_Idle, rl_dst = 0, rl_ctx = 0, rl_seq = 0,
     rl_attempt = 0, rl_window_opened_ms = 0, rl_outcome = RO_Pending, rl_no_ack = False, rl_result = 0,
     rl_ack_timeout_ms = kCommandAckTimeoutDefaultMs, rl_retries = kCommandRetriesDefault,
     rl_stats = \<lparr>rst_ctx_rolls = 0, rst_ctx_roll_failed = 0, rst_sent = 0, rst_retries = 0, rst_busy = 0,
                 rst_by_rejected_ctx = 0, rst_cmd_refused = 0\<rparr>\<rparr>"

definition rl_count :: "(RollStats \<Rightarrow> RollStats) \<Rightarrow> ContextRoll \<Rightarrow> ContextRoll" where
  "rl_count f r = r\<lparr>rl_stats := f (rl_stats r)\<rparr>"

section \<open>Operations\<close>

definition rl_set_ack_timeout_ms :: "u32 \<Rightarrow> ContextRoll \<Rightarrow> ContextRoll" where
  "rl_set_ack_timeout_ms ms r = r\<lparr>rl_ack_timeout_ms := ms\<rparr>"

definition rl_set_retries :: "u8 \<Rightarrow> ContextRoll \<Rightarrow> ContextRoll" where
  "rl_set_retries n r = r\<lparr>rl_retries := n\<rparr>"

definition rl_is_pending :: "NodeId \<Rightarrow> ContextRoll \<Rightarrow> bool" where
  "rl_is_pending i r \<longleftrightarrow> rl_pending r AND node_bit i \<noteq> 0"

definition rl_busy :: "ContextRoll \<Rightarrow> bool" where
  "rl_busy r \<longleftrightarrow> rl_phase r \<noteq> PP_Idle"

definition rl_on_heard :: "NodeId \<Rightarrow> ContextRoll \<Rightarrow> ContextRoll" where
  "rl_on_heard i r =
     (if rl_pending r AND node_bit i = 0 then r
      else if rl_busy r \<and> rl_dst r = i then r
      else r\<lparr>rl_due := rl_due r OR node_bit i\<rparr>)"

definition rl_next_due :: "ContextRoll \<Rightarrow> NodeId option" where
  "rl_next_due r = map_option (\<lambda>i. fst (kNodeTable ! i))
     (List.find (\<lambda>i. rl_due r AND rl_pending r AND push_bit i 1 \<noteq> 0) [0..<kNodeCount])"

definition rl_submit :: "NodeId \<Rightarrow> CtxId \<Rightarrow> Seq \<Rightarrow> u32 \<Rightarrow> ContextRoll \<Rightarrow> bool \<times> ContextRoll" where
  "rl_submit i ctx seq now_ms r =
     (if rl_busy r \<or> \<not> rl_is_pending i r \<or> ctx = 0 then (False, r)
      else (True, r\<lparr>rl_due := rl_due r AND NOT (node_bit i), rl_dst := i, rl_ctx := ctx, rl_seq := seq, rl_attempt := 0,
             rl_outcome := RO_Pending, rl_no_ack := False, rl_result := 0, rl_window_opened_ms := now_ms,
             rl_phase := PP_SendDue\<rparr>))"

definition rl_resolve_rolled :: "CtxId \<Rightarrow> ContextRoll \<Rightarrow> ContextRoll" where
  "rl_resolve_rolled ctx r = rl_count (\<lambda>s. s\<lparr>rst_ctx_rolls := rst_ctx_rolls s + 1\<rparr>)
     (r\<lparr>rl_pending := rl_pending r AND NOT (node_bit (rl_dst r)), rl_due := rl_due r AND NOT (node_bit (rl_dst r)),
        rl_ctx := ctx, rl_outcome := RO_Rolled, rl_phase := PP_Resolved\<rparr>)"

definition rl_resolve_failed :: "bool \<Rightarrow> u8 \<Rightarrow> ContextRoll \<Rightarrow> ContextRoll" where
  "rl_resolve_failed no_ack result r = rl_count (\<lambda>s. s\<lparr>rst_ctx_roll_failed := rst_ctx_roll_failed s + 1\<rparr>)
     (r\<lparr>rl_outcome := RO_Failed, rl_no_ack := no_ack, rl_result := result, rl_phase := PP_Resolved\<rparr>)"

definition rl_window_open :: "u32 \<Rightarrow> ContextRoll \<Rightarrow> bool" where
  "rl_window_open now_ms r \<longleftrightarrow> sint (now_ms - rl_window_opened_ms r) <
     sint (rl_ack_timeout_ms r + (if rl_attempt r > 0 then kCommandRetryBackoffMs else 0))"

definition rl_close_window :: "u32 \<Rightarrow> ContextRoll \<Rightarrow> ContextRoll" where
  "rl_close_window now_ms r =
     (if rl_phase r \<noteq> PP_AwaitingAck \<or> rl_window_open now_ms r then r
      else if rl_attempt r \<ge> rl_retries r then rl_resolve_failed True 0 r
      else r\<lparr>rl_attempt := rl_attempt r + 1, rl_phase := PP_SendDue\<rparr>)"

definition rl_next :: "u32 \<Rightarrow> ContextRoll \<Rightarrow> RollStep \<times> ContextRoll" where
  "rl_next now_ms r =
     (let r = rl_close_window now_ms r in
      case rl_phase r of
        PP_Idle \<Rightarrow> (RollStep_init, r)
      | PP_SendDue \<Rightarrow> (RollStep_init\<lparr>rs_action := RA_Send, rs_dst := rl_dst r, rs_seq := rl_seq r, rs_ctx_id := rl_ctx r,
                        rs_attempt := rl_attempt r\<rparr>, r)
      | PP_AwaitingAck \<Rightarrow> (RollStep_init, r)
      | PP_Resolved \<Rightarrow> (RollStep_init\<lparr>rs_action := RA_Resolve, rs_dst := rl_dst r, rs_seq := rl_seq r,
                         rs_ctx_id := rl_ctx r, rs_attempt := rl_attempt r, rs_outcome := rl_outcome r,
                         rs_no_ack := rl_no_ack r, rs_result := rl_result r\<rparr>, r\<lparr>rl_phase := PP_Idle\<rparr>))"

definition rl_on_sent :: "u32 \<Rightarrow> ContextRoll \<Rightarrow> ContextRoll" where
  "rl_on_sent now_ms r =
     (if rl_phase r \<noteq> PP_SendDue then r
      else rl_count (\<lambda>s. s\<lparr>rst_sent := rst_sent s + 1,
                           rst_retries := (if rl_attempt r > 0 then rst_retries s + 1 else rst_retries s)\<rparr>)
             (r\<lparr>rl_window_opened_ms := now_ms, rl_phase := PP_AwaitingAck\<rparr>))"

definition rl_on_aired :: "u32 \<Rightarrow> ContextRoll \<Rightarrow> ContextRoll" where
  "rl_on_aired aired_ms r = (if rl_phase r = PP_AwaitingAck then r\<lparr>rl_window_opened_ms := aired_ms\<rparr> else r)"

definition rl_on_ack :: "NodeId \<Rightarrow> CommandAck \<Rightarrow> CtxId \<Rightarrow> u32 \<Rightarrow> ContextRoll \<Rightarrow> bool \<times> ContextRoll" where
  "rl_on_ack src ack ack_ctx now_ms r =
     (if rl_phase r \<noteq> PP_AwaitingAck \<or> src \<noteq> rl_dst r \<or> ca_ack_seq ack \<noteq> rl_seq r then (False, r)
      else if ca_result ack = AckResult_u8 AR_Accepted then (True, rl_resolve_rolled ack_ctx r)
      else if ca_result ack = AckResult_u8 AR_RejectedCtx then
        (True, rl_resolve_rolled ack_ctx (rl_count (\<lambda>s. s\<lparr>rst_by_rejected_ctx := rst_by_rejected_ctx s + 1\<rparr>) r))
      else if ca_result ack = AckResult_u8 AR_ActuatorBusy then
        (True, (rl_count (\<lambda>s. s\<lparr>rst_busy := rst_busy s + 1\<rparr>) r)\<lparr>rl_window_opened_ms := now_ms\<rparr>)
      else (True, rl_resolve_failed False (ca_result ack) r))"

definition rl_note_cmd_refused :: "ContextRoll \<Rightarrow> ContextRoll" where
  "rl_note_cmd_refused = rl_count (\<lambda>s. s\<lparr>rst_cmd_refused := rst_cmd_refused s + 1\<rparr>)"

end
