(* ===== verification/BridgeScheduler.thy ===== *)
theory BridgeScheduler
  imports BridgeRegistry
begin

text \<open>
  The poll scheduler (\<open>firmware/bridge/src\<close>: \<open>scheduler.h\<close>, \<open>scheduler.cpp\<close>) and the rule of one
  exchange on the air at a time (\<open>air_turn.h\<close>).
\<close>

section \<open>State\<close>

definition kPollReplyTimeoutDefaultMs :: u32 where "kPollReplyTimeoutDefaultMs = 10000"
definition kHalfRange :: u32 where "kHalfRange = 0x80000000"
definition kNotAnAnswer :: u32 where "kNotAnAnswer = 0xFFFFFFFF"

datatype PollAction = PA_None | PA_Poll | PA_Missed

record PollStep =
  pl_action :: PollAction
  pl_node :: NodeId

record PollStats =
  pst_sent :: u32
  pst_answered :: u32
  pst_missed :: u32

record PollRow =
  pr_id :: NodeId
  pr_enrolled :: bool
  pr_due_set :: bool
  pr_due_ms :: u32
  pr_sent_ms :: u32

record PollScheduler =
  ps_rows :: "PollRow list"
  ps_outstanding :: bool
  ps_outstanding_node :: NodeId
  ps_sent_ms :: u32
  ps_reply_timeout_ms :: u32
  ps_poll_seq :: Seq
  ps_stats :: PollStats

definition PollScheduler_new :: PollScheduler where
  "PollScheduler_new = \<lparr>ps_rows = map (\<lambda>(i, t). \<lparr>pr_id = i, pr_enrolled = False, pr_due_set = False, pr_due_ms = 0,
       pr_sent_ms = 0\<rparr>) kNodeTable, ps_outstanding = False, ps_outstanding_node = 0, ps_sent_ms = 0,
     ps_reply_timeout_ms = kPollReplyTimeoutDefaultMs, ps_poll_seq = 1,
     ps_stats = \<lparr>pst_sent = 0, pst_answered = 0, pst_missed = 0\<rparr>\<rparr>"

section \<open>Operations\<close>

definition poll_reached :: "u32 \<Rightarrow> u32 \<Rightarrow> bool" where
  "poll_reached now_ms at_ms \<longleftrightarrow> now_ms - at_ms < kHalfRange"

definition interval_ms :: "u16 \<Rightarrow> u32" where
  "interval_ms interval_s = ucast (if interval_s = 0 then 1 else interval_s) * 1000"

definition ps_index_of :: "NodeId \<Rightarrow> PollScheduler \<Rightarrow> nat option" where
  "ps_index_of node s = index_from 0 node (map pr_id (ps_rows s))"

definition ps_enrolled :: "NodeId \<Rightarrow> PollScheduler \<Rightarrow> bool" where
  "ps_enrolled node s = (case ps_index_of node s of None \<Rightarrow> False | Some i \<Rightarrow> pr_enrolled (ps_rows s ! i))"

definition ps_row :: "nat \<Rightarrow> (PollRow \<Rightarrow> PollRow) \<Rightarrow> PollScheduler \<Rightarrow> PollScheduler" where
  "ps_row i f s = s\<lparr>ps_rows := (ps_rows s)[i := f (ps_rows s ! i)]\<rparr>"

definition ps_set_reply_timeout_ms :: "u32 \<Rightarrow> PollScheduler \<Rightarrow> PollScheduler" where
  "ps_set_reply_timeout_ms ms s = s\<lparr>ps_reply_timeout_ms := ms\<rparr>"

text \<open>How late a row is, when it is enrolled and due.\<close>

definition row_late :: "u32 \<Rightarrow> PollRow \<Rightarrow> u32 option" where
  "row_late now_ms r =
     (if \<not> pr_enrolled r then None
      else if pr_due_set r \<and> \<not> poll_reached now_ms (pr_due_ms r) then None
      else Some (if pr_due_set r then now_ms - pr_due_ms r else 0xFFFFFFFF))"

fun most_overdue :: "u32 \<Rightarrow> nat \<Rightarrow> PollRow list \<Rightarrow> (nat \<times> u32) option \<Rightarrow> (nat \<times> u32) option" where
  "most_overdue now_ms i [] best = best"
| "most_overdue now_ms i (r # rs) best =
     (case row_late now_ms r of
        None \<Rightarrow> most_overdue now_ms (Suc i) rs best
      | Some late \<Rightarrow> most_overdue now_ms (Suc i) rs
          (case best of None \<Rightarrow> Some (i, late) | Some (b, bl) \<Rightarrow> if late > bl then Some (i, late) else best))"

definition ps_next :: "u32 \<Rightarrow> bool \<Rightarrow> PollScheduler \<Rightarrow> PollStep \<times> PollScheduler" where
  "ps_next now_ms may_start s =
     (if ps_outstanding s then
        (if now_ms - ps_sent_ms s < ps_reply_timeout_ms s then (\<lparr>pl_action = PA_None, pl_node = 0\<rparr>, s)
         else (\<lparr>pl_action = PA_Missed, pl_node = ps_outstanding_node s\<rparr>,
               s\<lparr>ps_outstanding := False, ps_stats := (ps_stats s)\<lparr>pst_missed := pst_missed (ps_stats s) + 1\<rparr>\<rparr>))
      else if \<not> may_start then (\<lparr>pl_action = PA_None, pl_node = 0\<rparr>, s)
      else case most_overdue now_ms 0 (ps_rows s) None of
          None \<Rightarrow> (\<lparr>pl_action = PA_None, pl_node = 0\<rparr>, s)
        | Some (best, late) \<Rightarrow> (\<lparr>pl_action = PA_Poll, pl_node = pr_id (ps_rows s ! best)\<rparr>, s))"

definition ps_on_sent :: "NodeId \<Rightarrow> u16 \<Rightarrow> u32 \<Rightarrow> PollScheduler \<Rightarrow> PollScheduler" where
  "ps_on_sent node interval_s now_ms s =
     (case ps_index_of node s of
        None \<Rightarrow> s
      | Some i \<Rightarrow> (ps_row i (\<lambda>r. r\<lparr>pr_due_ms := now_ms + interval_ms interval_s, pr_due_set := True, pr_sent_ms := now_ms\<rparr>) s)
          \<lparr>ps_outstanding := True, ps_outstanding_node := node, ps_sent_ms := now_ms,
           ps_stats := (ps_stats s)\<lparr>pst_sent := pst_sent (ps_stats s) + 1\<rparr>\<rparr>)"

definition ps_retime :: "NodeId \<Rightarrow> u16 \<Rightarrow> PollScheduler \<Rightarrow> PollScheduler" where
  "ps_retime node interval_s s =
     (case ps_index_of node s of
        None \<Rightarrow> s
      | Some i \<Rightarrow> if \<not> pr_due_set (ps_rows s ! i) then s
                else ps_row i (\<lambda>r. r\<lparr>pr_due_ms := pr_sent_ms r + interval_ms interval_s\<rparr>) s)"

definition ps_enrol :: "NodeId \<Rightarrow> PollScheduler \<Rightarrow> PollScheduler" where
  "ps_enrol node s =
     (case ps_index_of node s of
        None \<Rightarrow> s
      | Some i \<Rightarrow> if pr_enrolled (ps_rows s ! i) then s
                else ps_row i (\<lambda>r. r\<lparr>pr_enrolled := True, pr_due_set := False\<rparr>) s)"

definition ps_on_heard :: "NodeId \<Rightarrow> u32 \<Rightarrow> PollScheduler \<Rightarrow> u32 \<times> PollScheduler" where
  "ps_on_heard node now_ms s =
     (case ps_index_of node s of
        None \<Rightarrow> (kNotAnAnswer, s)
      | Some i \<Rightarrow>
          let (answer_ms, s) =
                (if ps_outstanding s \<and> ps_outstanding_node s = node
                 then (now_ms - ps_sent_ms s, s\<lparr>ps_outstanding := False,
                         ps_stats := (ps_stats s)\<lparr>pst_answered := pst_answered (ps_stats s) + 1\<rparr>\<rparr>)
                 else (kNotAnAnswer, s))
          in (answer_ms, if \<not> pr_enrolled (ps_rows s ! i)
                         then ps_row i (\<lambda>r. r\<lparr>pr_enrolled := True, pr_due_set := False\<rparr>) s else s))"

definition ps_take_poll_seq :: "PollScheduler \<Rightarrow> Seq \<times> PollScheduler" where
  "ps_take_poll_seq s = (ps_poll_seq s, s\<lparr>ps_poll_seq := ps_poll_seq s + 1\<rparr>)"

definition build_poll_frame :: "NodeId \<Rightarrow> CtxId \<Rightarrow> Seq \<Rightarrow> u8 \<Rightarrow> u8 \<Rightarrow> bytes \<Rightarrow> bytes \<times> nat" where
  "build_poll_frame dst ctx seq ver pflags buf =
     (let h = Header_init\<lparr>h_ver := ver, h_type := MT_Poll, h_src := kNodeBridge, h_dst := dst, h_seq := seq,
                h_ctx_id := ctx, h_schema := kSchemaNone\<rparr>;
          (st, buf, len) = encode h [pflags] \<lparr>ec_mac = None, ec_node_key = None\<rparr> buf
      in (buf, if st = St_Ok then len else 0))"

section \<open>One exchange on the air at a time (air\_turn.h)\<close>

record AirTurn =
  at_poll_outstanding :: bool
  at_command_busy :: bool
  at_roll_busy :: bool
  at_config_busy :: bool
  at_phy_blocks_traffic :: bool
  at_hex_busy :: bool
  at_echo_busy :: bool
  at_request_waiting :: bool
  at_ota_in_progress :: bool

definition poll_may_start :: "AirTurn \<Rightarrow> bool" where
  "poll_may_start a \<longleftrightarrow> \<not> at_ota_in_progress a \<and> \<not> at_command_busy a \<and> \<not> at_roll_busy a \<and> \<not> at_config_busy a \<and>
     \<not> at_phy_blocks_traffic a \<and> \<not> at_hex_busy a \<and> \<not> at_echo_busy a \<and> \<not> at_request_waiting a"

definition exchange_may_start :: "AirTurn \<Rightarrow> bool" where
  "exchange_may_start a \<longleftrightarrow> \<not> at_ota_in_progress a \<and> \<not> at_poll_outstanding a \<and> \<not> at_command_busy a \<and>
     \<not> at_roll_busy a \<and> \<not> at_config_busy a \<and> \<not> at_phy_blocks_traffic a \<and> \<not> at_hex_busy a \<and> \<not> at_echo_busy a"

definition air_idle :: "AirTurn \<Rightarrow> bool" where
  "air_idle a \<longleftrightarrow> \<not> at_poll_outstanding a \<and> \<not> at_command_busy a \<and> \<not> at_roll_busy a \<and> \<not> at_config_busy a \<and>
     \<not> at_phy_blocks_traffic a \<and> \<not> at_hex_busy a \<and> \<not> at_echo_busy a \<and> \<not> at_request_waiting a"

end
