(* ===== verification/BridgeHex.thy ===== *)
theory BridgeHex
  imports BridgeRegistry BridgeCommand VedirectHex
begin

text \<open>
  The VE.Direct HEX proxy of the bridge (\<open>firmware/bridge/src\<close>: \<open>hex_proxy.h\<close>,
  \<open>hex_proxy.cpp\<close>): one request from Home Assistant to a node and its answer back, and the write
  gates the bridge owns. A request is the list of its characters, at most \<open>kHexMaxChars\<close> of them.
\<close>

section \<open>Requests\<close>

definition kHexMaxChars :: nat where "kHexMaxChars = kMaxChars"
definition kHexRspTimeoutDefaultMs :: u32 where "kHexRspTimeoutDefaultMs = 3000"
definition kHexReadRetriesDefault :: u8 where "kHexReadRetriesDefault = 2"

datatype HexOrigin = HO_Operator | HO_Readback

record HexRequest =
  hq_dst :: NodeId
  hq_origin :: HexOrigin
  hq_reg :: u16
  hq_hex :: bytes

datatype HexClass = HC_Read | HC_Write | HC_Malformed

definition classify_hex :: "bytes \<Rightarrow> HexClass" where
  "classify_hex hex =
     (case ved_decode hex of
        Inl p \<Rightarrow> HC_Malformed
      | Inr f \<Rightarrow> if vf_cmd f = HexCmd_u8 HC_Set \<or> vf_cmd f = HexCmd_u8 HC_Restart then HC_Write else HC_Read)"

section \<open>Gate 2: the write arm\<close>

record WriteArm =
  wa_armed :: bool
  wa_armed_ms :: u32

definition WriteArm_new :: WriteArm where "WriteArm_new = \<lparr>wa_armed = False, wa_armed_ms = 0\<rparr>"

definition wa_arm :: "u32 \<Rightarrow> WriteArm \<Rightarrow> WriteArm" where
  "wa_arm now_ms w = w\<lparr>wa_armed := True, wa_armed_ms := now_ms\<rparr>"

definition wa_disarm :: "WriteArm \<Rightarrow> WriteArm" where
  "wa_disarm w = w\<lparr>wa_armed := False\<rparr>"

definition wa_is_armed :: "u32 \<Rightarrow> u32 \<Rightarrow> WriteArm \<Rightarrow> bool" where
  "wa_is_armed now_ms timeout_s w \<longleftrightarrow> wa_armed w \<and> sint (now_ms - wa_armed_ms w) < sint (timeout_s * 1000)"

definition wa_expire :: "u32 \<Rightarrow> u32 \<Rightarrow> WriteArm \<Rightarrow> bool \<times> WriteArm" where
  "wa_expire now_ms timeout_s w =
     (if \<not> wa_armed w \<or> wa_is_armed now_ms timeout_s w then (False, w) else (True, w\<lparr>wa_armed := False\<rparr>))"

section \<open>The state machine\<close>

datatype HexAction = HA_None | HA_Send | HA_Resolve

datatype HexOutcome = HR_Pending | HR_Answered | HR_NoResponse | HR_Unknown | HR_Rejected | HR_ResyncFailed
  | HR_RefusedDisarmed

record HexStep =
  hs_action :: HexAction
  hs_dst :: NodeId
  hs_write :: bool
  hs_seq :: Seq
  hs_ctx_id :: CtxId
  hs_attempt :: u8
  hs_ctx_adopted :: bool
  hs_outcome :: HexOutcome
  hs_status :: u8
  hs_ack_result :: u8
  hs_ack_detail :: u8
  hs_audit :: bool

definition HexStep_init :: HexStep where
  "HexStep_init = \<lparr>hs_action = HA_None, hs_dst = 0, hs_write = False, hs_seq = 0, hs_ctx_id = 0, hs_attempt = 0,
     hs_ctx_adopted = False, hs_outcome = HR_Pending, hs_status = 0, hs_ack_result = 0, hs_ack_detail = 0, hs_audit = False\<rparr>"

record HexStats =
  hst_submitted :: u32
  hst_refused_busy :: u32
  hst_sent :: u32
  hst_read_retries :: u32
  hst_answered :: u32
  hst_no_response :: u32
  hst_unknown :: u32
  hst_rejected :: u32
  hst_refused_disarmed :: u32
  hst_resyncs :: u32
  hst_answer_ignored :: u32

record HexProxy =
  hp_req :: HexRequest
  hp_write :: bool
  hp_phase :: PathPhase
  hp_seq :: Seq
  hp_ctx :: CtxId
  hp_attempt :: u8
  hp_resync_used :: bool
  hp_restart :: bool
  hp_ctx_adopted :: bool
  hp_window_opened_ms :: u32
  hp_outcome :: HexOutcome
  hp_status :: u8
  hp_ack_result :: u8
  hp_ack_detail :: u8
  hp_rsp :: bytes
  hp_read_seq :: Seq
  hp_rsp_timeout_ms :: u32
  hp_read_retries :: u8
  hp_stats :: HexStats

definition HexProxy_new :: HexProxy where
  "HexProxy_new = \<lparr>hp_req = \<lparr>hq_dst = 0, hq_origin = HO_Operator, hq_reg = 0, hq_hex = []\<rparr>, hp_write = False,
     hp_phase = PP_Idle, hp_seq = 0, hp_ctx = 0, hp_attempt = 0, hp_resync_used = False, hp_restart = False,
     hp_ctx_adopted = False, hp_window_opened_ms = 0, hp_outcome = HR_Pending, hp_status = 0, hp_ack_result = 0,
     hp_ack_detail = 0, hp_rsp = [], hp_read_seq = 0, hp_rsp_timeout_ms = kHexRspTimeoutDefaultMs,
     hp_read_retries = kHexReadRetriesDefault,
     hp_stats = \<lparr>hst_submitted = 0, hst_refused_busy = 0, hst_sent = 0, hst_read_retries = 0, hst_answered = 0,
       hst_no_response = 0, hst_unknown = 0, hst_rejected = 0, hst_refused_disarmed = 0, hst_resyncs = 0,
       hst_answer_ignored = 0\<rparr>\<rparr>"

definition hp_count :: "(HexStats \<Rightarrow> HexStats) \<Rightarrow> HexProxy \<Rightarrow> HexProxy" where
  "hp_count f p = p\<lparr>hp_stats := f (hp_stats p)\<rparr>"

definition hp_set_rsp_timeout_ms :: "u32 \<Rightarrow> HexProxy \<Rightarrow> HexProxy" where
  "hp_set_rsp_timeout_ms ms p = p\<lparr>hp_rsp_timeout_ms := ms\<rparr>"

definition hp_set_read_retries :: "u8 \<Rightarrow> HexProxy \<Rightarrow> HexProxy" where
  "hp_set_read_retries n p = p\<lparr>hp_read_retries := n\<rparr>"

definition hp_busy :: "HexProxy \<Rightarrow> bool" where
  "hp_busy p \<longleftrightarrow> hp_phase p \<noteq> PP_Idle"

definition is_restart :: "bytes \<Rightarrow> bool" where
  "is_restart hex = (case ved_decode hex of Inl p \<Rightarrow> False | Inr f \<Rightarrow> vf_cmd f = HexCmd_u8 HC_Restart)"

definition hp_submit :: "HexRequest \<Rightarrow> bool \<Rightarrow> CtxId \<Rightarrow> Seq \<Rightarrow> u32 \<Rightarrow> HexProxy \<Rightarrow> bool \<times> HexProxy" where
  "hp_submit req write ctx write_seq now_ms p =
     (if hp_phase p \<noteq> PP_Idle then (False, hp_count (\<lambda>s. s\<lparr>hst_refused_busy := hst_refused_busy s + 1\<rparr>) p)
      else let p = p\<lparr>hp_req := req, hp_write := write, hp_restart := is_restart (hq_hex req)\<rparr>;
               p = (if write then p\<lparr>hp_seq := write_seq, hp_ctx := ctx\<rparr>
                    else let r = hp_read_seq p + 1; r = (if r = 0 then 1 else r)
                         in p\<lparr>hp_read_seq := r, hp_seq := r, hp_ctx := ctx\<rparr>)
           in (True, hp_count (\<lambda>s. s\<lparr>hst_submitted := hst_submitted s + 1\<rparr>)
                (p\<lparr>hp_attempt := 0, hp_resync_used := False, hp_ctx_adopted := False, hp_outcome := HR_Pending,
                   hp_status := 0, hp_ack_result := 0, hp_ack_detail := 0, hp_rsp := [],
                   hp_window_opened_ms := now_ms, hp_phase := PP_SendDue\<rparr>)))"

fun hst_count_outcome :: "HexOutcome \<Rightarrow> HexStats \<Rightarrow> HexStats" where
  "hst_count_outcome HR_Answered s = s\<lparr>hst_answered := hst_answered s + 1\<rparr>"
| "hst_count_outcome HR_NoResponse s = s\<lparr>hst_no_response := hst_no_response s + 1\<rparr>"
| "hst_count_outcome HR_Unknown s = s\<lparr>hst_unknown := hst_unknown s + 1\<rparr>"
| "hst_count_outcome HR_Rejected s = s\<lparr>hst_rejected := hst_rejected s + 1\<rparr>"
| "hst_count_outcome HR_ResyncFailed s = s\<lparr>hst_rejected := hst_rejected s + 1\<rparr>"
| "hst_count_outcome HR_RefusedDisarmed s = s\<lparr>hst_refused_disarmed := hst_refused_disarmed s + 1\<rparr>"
| "hst_count_outcome HR_Pending s = s"

definition hp_resolve :: "HexOutcome \<Rightarrow> HexProxy \<Rightarrow> HexProxy" where
  "hp_resolve out p = hp_count (hst_count_outcome out) (p\<lparr>hp_outcome := out, hp_phase := PP_Resolved\<rparr>)"

text \<open>
  \<open>next()\<close>, its recursive calls unrolled: a window that closed resolves the request or makes a
  retry due; a write that is due while its node is disarmed resolves without a frame.
\<close>

definition hp_close_window :: "u32 \<Rightarrow> HexProxy \<Rightarrow> HexProxy" where
  "hp_close_window now_ms p =
     (if hp_phase p \<noteq> PP_AwaitingAck \<or> sint (now_ms - hp_window_opened_ms p) < sint (hp_rsp_timeout_ms p) then p
      else if hp_write p then hp_resolve HR_Unknown p
      else if hp_attempt p \<ge> (if hq_origin (hp_req p) = HO_Readback then 0 else hp_read_retries p)
        then hp_resolve HR_NoResponse p
      else p\<lparr>hp_attempt := hp_attempt p + 1, hp_phase := PP_SendDue\<rparr>)"

definition hp_gate2 :: "bool \<Rightarrow> HexProxy \<Rightarrow> HexProxy" where
  "hp_gate2 armed p = (if hp_phase p = PP_SendDue \<and> hp_write p \<and> \<not> armed then hp_resolve HR_RefusedDisarmed p else p)"

definition hp_next :: "u32 \<Rightarrow> bool \<Rightarrow> HexProxy \<Rightarrow> HexStep \<times> HexProxy" where
  "hp_next now_ms armed p =
     (let p = hp_gate2 armed (hp_close_window now_ms p) in
      case hp_phase p of
        PP_Idle \<Rightarrow> (HexStep_init, p)
      | PP_SendDue \<Rightarrow> (HexStep_init\<lparr>hs_action := HA_Send, hs_dst := hq_dst (hp_req p), hs_write := hp_write p,
                        hs_seq := hp_seq p, hs_ctx_id := hp_ctx p, hs_attempt := hp_attempt p,
                        hs_ctx_adopted := hp_ctx_adopted p\<rparr>, p)
      | PP_AwaitingAck \<Rightarrow> (HexStep_init, p)
      | PP_Resolved \<Rightarrow> (HexStep_init\<lparr>hs_action := HA_Resolve, hs_dst := hq_dst (hp_req p), hs_write := hp_write p,
                         hs_seq := hp_seq p, hs_attempt := hp_attempt p, hs_outcome := hp_outcome p,
                         hs_status := hp_status p, hs_ack_result := hp_ack_result p, hs_ack_detail := hp_ack_detail p,
                         hs_audit := hp_write p, hs_ctx_id := hp_ctx p, hs_ctx_adopted := hp_ctx_adopted p\<rparr>,
                        p\<lparr>hp_phase := PP_Idle\<rparr>))"

definition hp_on_sent :: "u32 \<Rightarrow> HexProxy \<Rightarrow> HexProxy" where
  "hp_on_sent now_ms p =
     (if hp_phase p \<noteq> PP_SendDue then p
      else hp_count (\<lambda>s. s\<lparr>hst_sent := hst_sent s + 1,
                           hst_read_retries := (if hp_attempt p > 0 then hst_read_retries s + 1 else hst_read_retries s)\<rparr>)
             (p\<lparr>hp_window_opened_ms := now_ms, hp_phase := PP_AwaitingAck, hp_ctx_adopted := False\<rparr>))"

definition hp_on_aired :: "u32 \<Rightarrow> HexProxy \<Rightarrow> HexProxy" where
  "hp_on_aired aired_ms p = (if hp_phase p = PP_AwaitingAck then p\<lparr>hp_window_opened_ms := aired_ms\<rparr> else p)"

text \<open>
  The response is copied when the buffer holds it. A \<open>HEX_RSP\<close> that was deserialized has a null
  pointer exactly when its length is 0.
\<close>

definition hp_on_rsp :: "NodeId \<Rightarrow> Seq \<Rightarrow> HexRsp \<Rightarrow> HexProxy \<Rightarrow> bool \<times> HexProxy" where
  "hp_on_rsp src seq rsp p =
     (if hp_phase p \<noteq> PP_AwaitingAck \<or> src \<noteq> hq_dst (hp_req p) \<or> seq \<noteq> hp_seq p
        then (False, hp_count (\<lambda>s. s\<lparr>hst_answer_ignored := hst_answer_ignored s + 1\<rparr>) p)
      else (True, hp_resolve HR_Answered
              (p\<lparr>hp_status := hrsp_status rsp,
                 hp_rsp := (case hrsp_hex rsp of
                     None \<Rightarrow> []
                   | Some h \<Rightarrow> if unat (hrsp_n rsp) \<le> kHexMaxChars then take (unat (hrsp_n rsp)) h else [])\<rparr>)))"

definition hp_on_ack :: "NodeId \<Rightarrow> CommandAck \<Rightarrow> CtxId \<Rightarrow> u32 \<Rightarrow> HexProxy \<Rightarrow> bool \<times> HexProxy" where
  "hp_on_ack src ack ack_ctx now_ms p =
     (if hp_phase p \<noteq> PP_AwaitingAck \<or> \<not> hp_write p \<or> src \<noteq> hq_dst (hp_req p) \<or> ca_ack_seq ack \<noteq> hp_seq p then (False, p)
      else if ca_result ack = AckResult_u8 AR_RejectedCtx \<and> \<not> hp_resync_used p \<and> hp_restart p then
        (True, hp_resolve HR_Unknown (p\<lparr>hp_ctx := ack_ctx, hp_ctx_adopted := True, hp_ack_result := ca_result ack,
                                        hp_ack_detail := ca_detail ack\<rparr>))
      else if ca_result ack = AckResult_u8 AR_RejectedCtx \<and> \<not> hp_resync_used p then
        (True, hp_count (\<lambda>s. s\<lparr>hst_resyncs := hst_resyncs s + 1\<rparr>)
           (p\<lparr>hp_ctx := ack_ctx, hp_seq := 1, hp_resync_used := True, hp_ctx_adopted := True,
              hp_window_opened_ms := now_ms, hp_phase := PP_SendDue\<rparr>))
      else (True, hp_resolve (if ca_result ack = AckResult_u8 AR_RejectedCtx then HR_ResyncFailed else HR_Rejected)
              (p\<lparr>hp_ack_result := ca_result ack, hp_ack_detail := ca_detail ack\<rparr>)))"

section \<open>The frame\<close>

definition kHexReqFlagWriteClass :: u8 where "kHexReqFlagWriteClass = 0x01"

definition hex_req_of :: "bytes \<Rightarrow> HexReq" where
  "hex_req_of hex = \<lparr>hreq_flags = (if classify_hex hex = HC_Write then kHexReqFlagWriteClass else 0),
     hreq_n = of_nat (length hex), hreq_hex = Some hex\<rparr>"

definition hex_req_header :: "NodeId \<Rightarrow> CtxId \<Rightarrow> Seq \<Rightarrow> u8 \<Rightarrow> Header" where
  "hex_req_header dst ctx seq ver = Header_init\<lparr>h_ver := ver, h_type := MT_HexReq, h_src := kNodeBridge, h_dst := dst,
     h_seq := seq, h_ctx_id := ctx, h_schema := kSchemaNone\<rparr>"

definition build_hex_req_frame :: "NodeId \<Rightarrow> CtxId \<Rightarrow> Seq \<Rightarrow> u8 \<Rightarrow> bytes \<Rightarrow> EncodeCtx \<Rightarrow> bytes \<Rightarrow> bytes \<times> nat" where
  "build_hex_req_frame dst ctx seq ver hex ectx buf =
     (if hex = [] \<or> length hex > kHexMaxChars then (buf, 0)
      else let (st, payload, plen) = serialize_HexReq (hex_req_of hex) (replicate (kHexReqHdrLen + kHexMaxChars) 0)
           in if st \<noteq> St_Ok then (buf, 0)
              else let (st, buf, len) = encode (hex_req_header dst ctx seq ver) (take (the plen) payload) ectx buf
                   in (buf, if st = St_Ok then len else 0))"

section \<open>The class decided here is the class the library authenticates\<close>

lemma decode_shape:
  assumes "ved_decode hex = Inr f"
  shows "4 \<le> length hex" "length hex \<le> kHexMaxChars" "hex ! 0 = 0x3A" "digit_value (hex ! 1) = Some (vf_cmd f)"
proof -
  from assms have *: "hex \<noteq> []" "hd hex = 0x3A" "\<not> length hex < 4" "\<forall>c \<in> set (tl hex). digit_value c \<noteq> None"
    "\<not> (length hex - 2) div 2 - 1 > kMaxData" "(length hex - 2) mod 2 = 0"
    "vf_cmd f = hd (map (\<lambda>c. the (digit_value c)) (tl hex))"
    by (auto simp: ved_decode_def Let_def split: if_splits)
  then obtain a b cs where h: "hex = a # b # cs" by (cases hex; cases "tl hex") auto
  show "4 \<le> length hex" "hex ! 0 = 0x3A" using * h by auto
  show "length hex \<le> kHexMaxChars" using * by (simp add: kHexMaxChars_def kMaxChars_def kMaxData_def) presburger
  show "digit_value (hex ! 1) = Some (vf_cmd f)" using * h by auto
qed

lemma hex_nibble_digit: "digit_value c = Some d \<Longrightarrow> hex_nibble c = Some d"
  by (auto simp: digit_value_def hex_nibble_def split: if_splits)

lemma hex_req_wf:
  assumes "ved_decode hex = Inr f"
  shows "wf_HexReq (hex_req_of hex)" "HexReq_img (hex_req_of hex) = [hreq_flags (hex_req_of hex), of_nat (length hex)] @ hex"
    "unat (of_nat (length hex) :: u8) = length hex"
proof -
  have b: "4 \<le> length hex" "length hex \<le> 132"
    using decode_shape [OF assms] by (simp_all add: kHexMaxChars_def kMaxChars_def kMaxData_def)
  then show n: "unat (of_nat (length hex) :: u8) = length hex" by (simp add: unat_of_nat)
  then have "(of_nat (length hex) :: u8) \<noteq> 0" using b by auto
  with n show "wf_HexReq (hex_req_of hex)" by (simp add: wf_HexReq_def wf_counted_def hex_req_of_def)
  show "HexReq_img (hex_req_of hex) = [hreq_flags (hex_req_of hex), of_nat (length hex)] @ hex"
    by (simp add: HexReq_img_def counted_img_def hex_req_of_def ptr_bytes_def)
qed

lemma write_class_agrees:
  assumes "ved_decode hex = Inr f"
  shows "hex_req_is_write_class (HexReq_img (hex_req_of hex)) \<longleftrightarrow> classify_hex hex = HC_Write"
proof -
  note d = decode_shape [OF assms] and w = hex_req_wf [OF assms]
  obtain a b cs where h: "hex = a # b # cs" using d(1) by (cases hex; cases "tl hex") auto
  have "\<not> (of_nat (length hex) :: u8) < 2" using d(1) w(3) by (simp add: word_less_nat_alt)
  moreover have "hex_nibble b = Some (vf_cmd f)" using d(4) h by (simp add: hex_nibble_digit)
  ultimately show ?thesis
    using d(1,3) w(3) assms unfolding w(2)
    by (simp add: hex_req_is_write_class_def h classify_hex_def split: option.split)
qed

lemma hex_frame_ok:
  assumes "ved_decode hex = Inr f"
  shows "frame_ok (hex_req_header dst ctx seq ver) (HexReq_img (hex_req_of hex))"
    "length (HexReq_img (hex_req_of hex)) = 2 + length hex"
proof -
  have b: "4 \<le> length hex" "length hex \<le> 132" "length (HexReq_img (hex_req_of hex)) = 2 + length hex"
    using decode_shape [OF assms] hex_req_wf [OF assms] by (simp_all add: kHexMaxChars_def kMaxChars_def kMaxData_def)
  then show "length (HexReq_img (hex_req_of hex)) = 2 + length hex" by simp
  have h: "h_type (hex_req_header dst ctx seq ver) = MT_HexReq" "frag_total (hex_req_header dst ctx seq ver) = 1"
    "frag_index (hex_req_header dst ctx seq ver) = 0" "h_schema (hex_req_header dst ctx seq ver) = kSchemaNone"
    by (simp_all add: hex_req_header_def Header_init_def frag_total_def frag_index_def)
  have "check_variable_payload MT_HexReq (HexReq_img (hex_req_of hex)) = St_Ok"
    using b hex_req_wf [OF assms] by (simp add: check_variable_payload_def)
  then show "frame_ok (hex_req_header dst ctx seq ver) (HexReq_img (hex_req_of hex))"
    using b by (simp add: frame_ok_def h check_payload_def schema_is_known_def fixed_payload_len_def type_is_known_def
      frame_len_def Let_def)
qed

text \<open>
  C14: a HEX write leaves the bridge authenticated or not at all. For every well-formed request, the
  class the bridge decides is the class that decides the MAC: a read always makes a frame, a write
  makes one only with the node's key, and the frame of a request carries a MAC exactly when the
  request is a write.
\<close>

theorem hex_write_is_authenticated:
  assumes "mac_ok (ec_mac ectx)" "ved_decode hex = Inr f" "kMaxFrame \<le> length buf"
    "build_hex_req_frame dst ctx seq ver hex ectx buf = (out, n)"
  shows "(n \<noteq> 0 \<longleftrightarrow> classify_hex hex = HC_Read \<or> ec_mac ectx \<noteq> None \<and> ec_node_key ectx \<noteq> None) \<and>
    (n \<noteq> 0 \<longrightarrow> take n out = frame_image ectx (hex_req_header dst ctx seq ver) (HexReq_img (hex_req_of hex)) \<and>
       (frame_has_mac MT_HexReq (HexReq_img (hex_req_of hex)) \<longleftrightarrow> classify_hex hex = HC_Write))"
proof -
  let ?h = "hex_req_header dst ctx seq ver" let ?p = "HexReq_img (hex_req_of hex)"
  note d = decode_shape [OF assms(2)] and w = hex_req_wf [OF assms(2)] and ok = hex_frame_ok [OF assms(2)]
  have t: "h_type ?h = MT_HexReq" by (simp add: hex_req_header_def)
  have mac: "frame_has_mac MT_HexReq ?p \<longleftrightarrow> classify_hex hex = HC_Write"
    using write_class_agrees [OF assms(2)] by (simp add: frame_has_mac_def wire_defs)
  have cls: "classify_hex hex = HC_Read \<longleftrightarrow> classify_hex hex \<noteq> HC_Write"
    using assms(2) by (simp add: classify_hex_def)
  have ser: "\<exists>b. serialize_HexReq (hex_req_of hex) (replicate (kHexReqHdrLen + kHexMaxChars) 0) = (St_Ok, ?p @ b, Some (length ?p))"
    using fmt_HexReq.ser_fits [OF w(1), of "replicate (kHexReqHdrLen + kHexMaxChars) 0"] d(2) ok(2) by simp
  have "hex \<noteq> []" using d(1) by auto
  with ser d(2) have build: "build_hex_req_frame dst ctx seq ver hex ectx buf =
      (let (st, buf, len) = encode ?h ?p ectx buf in (buf, if st = St_Ok then len else 0))"
    by (auto simp: build_hex_req_frame_def Let_def)
  show ?thesis
  proof (cases "can_sign ectx ?h ?p")
    case True
    have pos: "length (frame_image ectx ?h ?p) \<noteq> 0" "length (frame_image ectx ?h ?p) \<le> length buf"
      using length_frame_image [OF assms(1) True] ok(2) d(2) assms(3) by (simp_all add: kHexMaxChars_def kMaxChars_def kMaxData_def)
    with encode_accepts [OF assms(1) ok(1) True pos(2)] build assms(4)
    have "n = length (frame_image ectx ?h ?p)" "take n out = frame_image ectx ?h ?p" by auto
    with True pos mac cls t show ?thesis by (auto simp: can_sign_def)
  next
    case False
    with encode_rejects [OF assms(1), where h = ?h and p = ?p and buf = buf] build assms(4) have "n = 0" by (auto simp: Let_def)
    with False mac cls t show ?thesis by (auto simp: can_sign_def)
  qed
qed

definition set_frame :: bytes where
  "set_frame = ascii '':8F0ED0064000C''"

lemma set_frame_decoded:
  "ved_decode set_frame = Inr \<lparr>vf_cmd = 8, vf_data = [0xF0, 0xED, 0, 0x64, 0]\<rparr>" "classify_hex set_frame = HC_Write"
  by code_simp+

theorem hex_write_is_authenticated_witness:
  "classify_hex set_frame = HC_Write \<and>
   snd (build_hex_req_frame kNodeGateLink 5 1 kProtoVer set_frame \<lparr>ec_mac = None, ec_node_key = None\<rparr> (replicate 222 0)) = 0"
proof -
  obtain out n where b: "build_hex_req_frame kNodeGateLink 5 1 kProtoVer set_frame \<lparr>ec_mac = None, ec_node_key = None\<rparr>
      (replicate 222 0) = (out, n)" by fastforce
  from hex_write_is_authenticated [OF _ set_frame_decoded(1) _ b] show ?thesis
    by (simp add: set_frame_decoded(2) b mac_ok_def)
qed

section \<open>What a write may cost\<close>

text \<open>The calls on the proxy between a submission and the next; \<open>queued\<close> says whether the frame was taken.\<close>

datatype hex_call = HK_Next u32 bool bool | HK_Aired u32 | HK_Rsp NodeId Seq HexRsp | HK_Ack NodeId CommandAck CtxId u32

fun hk_do :: "hex_call \<Rightarrow> HexProxy \<Rightarrow> HexStep list \<times> HexProxy" where
  "hk_do (HK_Next now armed queued) p =
     (let (st, p) = hp_next now armed p
      in ([st], if hs_action st = HA_Send \<and> queued then hp_on_sent now p else p))"
| "hk_do (HK_Aired t) p = ([], hp_on_aired t p)"
| "hk_do (HK_Rsp src q rsp) p = ([], snd (hp_on_rsp src q rsp p))"
| "hk_do (HK_Ack src ack ctx now) p = ([], snd (hp_on_ack src ack ctx now p))"

text \<open>The frames of a write that were queued, and the reports of how it ended.\<close>

fun hk_sent :: "hex_call \<Rightarrow> HexProxy \<Rightarrow> nat" where
  "hk_sent (HK_Next now armed queued) p = (if hs_action (fst (hp_next now armed p)) = HA_Send \<and> queued then 1 else 0)"
| "hk_sent _ p = 0"

fun hk_run :: "hex_call list \<Rightarrow> HexProxy \<Rightarrow> HexProxy" where
  "hk_run [] p = p"
| "hk_run (c # cs) p = hk_run cs (snd (hk_do c p))"

fun hk_steps :: "hex_call list \<Rightarrow> HexProxy \<Rightarrow> HexStep list" where
  "hk_steps [] p = []"
| "hk_steps (c # cs) p = fst (hk_do c p) @ hk_steps cs (snd (hk_do c p))"

fun hk_frames :: "hex_call list \<Rightarrow> HexProxy \<Rightarrow> nat" where
  "hk_frames [] p = 0"
| "hk_frames (c # cs) p = hk_sent c p + hk_frames cs (snd (hk_do c p))"

text \<open>How many frames and reports the state still allows a write.\<close>

definition sends_left :: "HexProxy \<Rightarrow> nat" where
  "sends_left p = (let again = (if hp_resync_used p \<or> hp_restart p then 0 else 1) in
     case hp_phase p of PP_SendDue \<Rightarrow> Suc again | PP_AwaitingAck \<Rightarrow> again | _ \<Rightarrow> 0)"

definition reports_left :: "HexProxy \<Rightarrow> nat" where
  "reports_left p = (if hp_phase p = PP_Idle then 0 else 1)"

lemma hp_count_sel [simp]:
  "hp_phase (hp_count f p) = hp_phase p" "hp_write (hp_count f p) = hp_write p" "hp_restart (hp_count f p) = hp_restart p"
  "hp_resync_used (hp_count f p) = hp_resync_used p" "hp_req (hp_count f p) = hp_req p"
  by (simp_all add: hp_count_def)

lemma hp_resolve_sel [simp]:
  "hp_phase (hp_resolve out p) = PP_Resolved" "hp_write (hp_resolve out p) = hp_write p"
  "hp_restart (hp_resolve out p) = hp_restart p" "hp_resync_used (hp_resolve out p) = hp_resync_used p"
  by (simp_all add: hp_resolve_def)

lemma hp_next_write:
  assumes "hp_write p" "hp_next now armed p = (st, p')"
  shows "hp_write p'" "sends_left p' \<le> sends_left p"
    "hs_action st = HA_Send \<Longrightarrow> armed \<and> hs_write st \<and> hp_phase p' = PP_SendDue"
    "length (filter (\<lambda>s. hs_action s = HA_Resolve) [st]) + reports_left p' \<le> reports_left p"
    "hs_action st = HA_Resolve \<Longrightarrow> hs_audit st"
  using assms
  by (auto simp: hp_next_def hp_gate2_def hp_close_window_def Let_def sends_left_def reports_left_def HexStep_init_def
      split: PathPhase.splits if_splits)

lemma hk_do_write:
  assumes "hp_write p"
  shows "hp_write (snd (hk_do c p)) \<and> hk_sent c p + sends_left (snd (hk_do c p)) \<le> sends_left p \<and>
    length (filter (\<lambda>s. hs_action s = HA_Resolve) (fst (hk_do c p))) + reports_left (snd (hk_do c p)) \<le> reports_left p \<and>
    (\<forall>s \<in> set (fst (hk_do c p)). hs_action s = HA_Resolve \<longrightarrow> hs_audit s)"
proof (cases c)
  case (HK_Next now armed queued)
  obtain st p' where n: "hp_next now armed p = (st, p')" by fastforce
  note w = hp_next_write [OF assms n]
  have s: "hp_phase p' = PP_SendDue \<Longrightarrow> hp_phase (hp_on_sent now p') = PP_AwaitingAck"
    "hp_write (hp_on_sent now p') = hp_write p'" "hp_restart (hp_on_sent now p') = hp_restart p'"
    "hp_resync_used (hp_on_sent now p') = hp_resync_used p'"
    by (simp_all add: hp_on_sent_def)
  have r: "hp_phase p' = PP_SendDue \<Longrightarrow> reports_left (hp_on_sent now p') = reports_left p'" 
    "hp_phase p' = PP_SendDue \<Longrightarrow> Suc (sends_left (hp_on_sent now p')) = sends_left p'"
    using s by (simp_all add: reports_left_def sends_left_def)
  show ?thesis
  proof (cases "hs_action st = HA_Send \<and> queued")
    case True
    then have "hk_do c p = ([st], hp_on_sent now p')" "hk_sent c p = 1" by (simp_all add: HK_Next n)
    moreover from True w have "hp_phase p' = PP_SendDue" by simp
    ultimately show ?thesis using True w(1,2,4) s(2) r by simp
  next
    case False
    then have "hk_do c p = ([st], p')" "hk_sent c p = 0" by (auto simp: HK_Next n)
    with w show ?thesis by simp
  qed
qed (use assms in \<open>auto simp: hp_on_aired_def hp_on_rsp_def hp_on_ack_def sends_left_def reports_left_def split: PathPhase.splits\<close>)

lemma hk_run_write:
  "hp_write p \<Longrightarrow> hk_frames cs p \<le> sends_left p \<and>
     length (filter (\<lambda>s. hs_action s = HA_Resolve) (hk_steps cs p)) \<le> reports_left p \<and>
     (\<forall>s \<in> set (hk_steps cs p). hs_action s = HA_Resolve \<longrightarrow> hs_audit s)"
proof (induction cs arbitrary: p)
  case (Cons c cs)
  from hk_do_write [OF Cons.prems, of c] Cons.IH [of "snd (hk_do c p)"] show ?case by auto
qed simp

text \<open>
  C13: the gates on a HEX write. Whatever is heard and whenever the clock is read, a write that was
  accepted is never put on the air while its node is disarmed, goes out at most twice (the second
  time after the one resync) and a VE.Direct restart at most once, and it is reported at most once,
  always for the audit trail.
\<close>

theorem hex_write_is_gated:
  assumes "hp_submit req True ctx seq now p = (True, q)"
  shows "hk_frames cs q \<le> (if is_restart (hq_hex req) then 1 else 2) \<and>
    length (filter (\<lambda>s. hs_action s = HA_Resolve) (hk_steps cs q)) \<le> 1 \<and>
    (\<forall>s \<in> set (hk_steps cs q). hs_action s = HA_Resolve \<longrightarrow> hs_audit s) \<and>
    (hs_action (fst (hp_next later armed (hk_run cs q))) = HA_Send \<longrightarrow> armed)"
proof -
  have q: "hp_write q" "hp_phase q = PP_SendDue" "\<not> hp_resync_used q" "hp_restart q = is_restart (hq_hex req)"
    using assms by (auto simp: hp_submit_def Let_def split: if_splits)
  have run: "hp_write (hk_run ds r)" if "hp_write r" for ds r
    using that by (induction ds arbitrary: r) (auto dest: hk_do_write)
  obtain st r where n: "hp_next later armed (hk_run cs q) = (st, r)" by fastforce
  from hp_next_write(3) [OF run [OF q(1)] n] have "hs_action st = HA_Send \<longrightarrow> armed" by blast
  moreover have "sends_left q \<le> (if is_restart (hq_hex req) then 1 else 2)" "reports_left q = 1"
    using q by (simp_all add: sends_left_def reports_left_def)
  ultimately show ?thesis using hk_run_write [OF q(1), of cs] by (auto simp: n)
qed

definition set_request :: HexRequest where
  "set_request = \<lparr>hq_dst = kNodeGateLink, hq_origin = HO_Operator, hq_reg = 0, hq_hex = set_frame\<rparr>"

theorem hex_write_is_gated_witness:
  "let q = snd (hp_submit set_request True 5 1 0 HexProxy_new)
   in hk_frames [HK_Next 1 True True, HK_Next 4000 True True, HK_Next 4001 True True] q = 1 \<and>
      length (filter (\<lambda>s. hs_action s = HA_Resolve)
        (hk_steps [HK_Next 1 True True, HK_Next 4000 True True, HK_Next 4001 True True] q)) \<le> 1"
proof -
  let ?q = "snd (hp_submit set_request True 5 1 0 HexProxy_new)"
  have s: "hp_submit set_request True 5 1 0 HexProxy_new = (True, ?q)"
    by (simp add: hp_submit_def HexProxy_new_def Let_def)
  have "hk_frames [HK_Next 1 True True, HK_Next 4000 True True, HK_Next 4001 True True] ?q = 1" by code_simp
  with hex_write_is_gated [OF s, of "[HK_Next 1 True True, HK_Next 4000 True True, HK_Next 4001 True True]"]
  show ?thesis by (simp add: Let_def)
qed

end
