(* ===== verification/BridgeConfig.thy ===== *)
theory BridgeConfig
  imports BridgeRegistry NodeConfig ConfigTable Schemas Names Clock
begin

text \<open>
  The bridge's configuration transaction (\<open>firmware/bridge/src\<close>: \<open>config_path.h\<close>,
  \<open>config_path.cpp\<close>): a CONFIG is sent once, its answer is staged over up to four messages, and an
  answer that does not come is settled by a readback. Also the reading of a node's STATUS for a
  configuration change and for a reboot.

  What a job carries only for the publication of its answer (names, the bridge's own half, a PHY
  change) is one field, \<open>cj_ride\<close>.
\<close>

section \<open>Jobs and steps\<close>

definition kMaxStagedResults :: nat where "kMaxStagedResults = 64"
definition kConfigAckTimeoutDefaultMs :: u32 where "kConfigAckTimeoutDefaultMs = 8000"
definition kConfigReadbackTimeoutDefaultMs :: u32 where "kConfigReadbackTimeoutDefaultMs = 15000"

datatype AckPersist = AP_Persisted | AP_AppliedNotPersisted | AP_NotApplied | AP_Unknown

fun ack_persist_of :: "PersistStatus \<Rightarrow> AckPersist" where
  "ack_persist_of PS_Persisted = AP_Persisted"
| "ack_persist_of PS_AppliedNotPersisted = AP_AppliedNotPersisted"
| "ack_persist_of PS_NotApplied = AP_NotApplied"
| "ack_persist_of (PS_Other b) = AP_Unknown"

record 'r ConfigJob =
  cj_dst :: NodeId
  cj_op :: ConfigOp
  cj_config :: NodeConfigV1
  cj_readback_only :: bool
  cj_ride :: 'r

datatype ConfigAction = CF_None | CF_SendConfig | CF_RequestReadback | CF_Resolve

datatype ConfigOutcome = CT_Pending | CT_Acked | CT_Unknown | CT_ReadbackOk | CT_Abandoned

record ConfigStep =
  cfs_action :: ConfigAction
  cfs_dst :: NodeId
  cfs_payload :: "NodeConfigV1 option"
  cfs_seq :: Seq
  cfs_ctx_id :: CtxId
  cfs_readback_only :: bool
  cfs_unsolicited :: bool
  cfs_op_outcome :: ConfigOutcome
  cfs_op :: ConfigOp
  cfs_persist :: AckPersist
  cfs_results :: "ConfigAckEntry list"
  cfs_updates_state :: bool

record ConfigStats =
  cfst_submitted :: u32
  cfst_refused_busy :: u32
  cfst_sent :: u32
  cfst_acked :: u32
  cfst_unknown :: u32
  cfst_readbacks_requested :: u32
  cfst_readbacks_completed :: u32
  cfst_config_readback_abandoned :: u32
  cfst_ack_ignored :: u32
  cfst_unsolicited_readbacks :: u32
  cfst_staging_overflow :: u32

datatype ConfigPhase = CPh_Idle | CPh_SendDue | CPh_AwaitingAck | CPh_ReadbackDue | CPh_AwaitingReadback | CPh_Resolved

record 'r ConfigPath =
  cfp_job :: "'r ConfigJob"
  cfp_unsolicited :: bool
  cfp_phase :: ConfigPhase
  cfp_seq :: Seq
  cfp_ctx :: CtxId
  cfp_window_opened_ms :: u32
  cfp_readback_first_ms :: u32
  cfp_messages_staged :: nat
  cfp_outcome :: ConfigOutcome
  cfp_persist :: AckPersist
  cfp_staged :: "ConfigAckEntry list"
  cfp_ack_timeout_ms :: u32
  cfp_readback_timeout_ms :: u32
  cfp_stats :: ConfigStats

definition ConfigJob_init :: "'r \<Rightarrow> 'r ConfigJob" where
  "ConfigJob_init ride = \<lparr>cj_dst = 0, cj_op = CO_Set, cj_config = \<lparr>nc_op = CO_Set, nc_entries = []\<rparr>,
     cj_readback_only = False, cj_ride = ride\<rparr>"

definition ConfigPath_new :: "'r \<Rightarrow> 'r ConfigPath" where
  "ConfigPath_new ride = \<lparr>cfp_job = ConfigJob_init ride, cfp_unsolicited = False, cfp_phase = CPh_Idle, cfp_seq = 0,
     cfp_ctx = 0, cfp_window_opened_ms = 0, cfp_readback_first_ms = 0, cfp_messages_staged = 0,
     cfp_outcome = CT_Pending, cfp_persist = AP_Unknown, cfp_staged = [],
     cfp_ack_timeout_ms = kConfigAckTimeoutDefaultMs, cfp_readback_timeout_ms = kConfigReadbackTimeoutDefaultMs,
     cfp_stats = \<lparr>cfst_submitted = 0, cfst_refused_busy = 0, cfst_sent = 0, cfst_acked = 0, cfst_unknown = 0,
       cfst_readbacks_requested = 0, cfst_readbacks_completed = 0, cfst_config_readback_abandoned = 0,
       cfst_ack_ignored = 0, cfst_unsolicited_readbacks = 0, cfst_staging_overflow = 0\<rparr>\<rparr>"

definition cfp_count :: "(ConfigStats \<Rightarrow> ConfigStats) \<Rightarrow> 'r ConfigPath \<Rightarrow> 'r ConfigPath" where
  "cfp_count f p = p\<lparr>cfp_stats := f (cfp_stats p)\<rparr>"

definition cfp_busy :: "'r ConfigPath \<Rightarrow> bool" where
  "cfp_busy p \<longleftrightarrow> cfp_phase p \<noteq> CPh_Idle"

definition cfp_set_timeouts :: "u32 \<Rightarrow> u32 \<Rightarrow> 'r ConfigPath \<Rightarrow> 'r ConfigPath" where
  "cfp_set_timeouts ack_ms readback_ms p = p\<lparr>cfp_ack_timeout_ms := ack_ms, cfp_readback_timeout_ms := readback_ms\<rparr>"

section \<open>The transaction\<close>

definition cfp_submit :: "'r ConfigJob \<Rightarrow> CtxId \<Rightarrow> Seq \<Rightarrow> u32 \<Rightarrow> 'r ConfigPath \<Rightarrow> bool \<times> 'r ConfigPath" where
  "cfp_submit job ctx seq now_ms p =
     (if cfp_phase p \<noteq> CPh_Idle then (False, cfp_count (\<lambda>s. s\<lparr>cfst_refused_busy := cfst_refused_busy s + 1\<rparr>) p)
      else (True, cfp_count (\<lambda>s. s\<lparr>cfst_submitted := cfst_submitted s + 1\<rparr>)
        (p\<lparr>cfp_job := (if cj_readback_only job then job\<lparr>cj_op := CO_GetAll\<rparr> else job), cfp_unsolicited := False,
           cfp_ctx := ctx, cfp_seq := seq, cfp_outcome := CT_Pending, cfp_persist := AP_Unknown, cfp_staged := [],
           cfp_messages_staged := 0, cfp_readback_first_ms := 0, cfp_window_opened_ms := now_ms,
           cfp_phase := (if cj_readback_only job then CPh_ReadbackDue else CPh_SendDue)\<rparr>)))"

definition cfp_step0 :: "'r ConfigPath \<Rightarrow> ConfigStep" where
  "cfp_step0 p = \<lparr>cfs_action = CF_None, cfs_dst = cj_dst (cfp_job p), cfs_payload = None, cfs_seq = 0, cfs_ctx_id = 0,
     cfs_readback_only = cj_readback_only (cfp_job p), cfs_unsolicited = cfp_unsolicited p,
     cfs_op_outcome = CT_Pending, cfs_op = CO_Set, cfs_persist = AP_Unknown, cfs_results = [], cfs_updates_state = False\<rparr>"

text \<open>A window of \<open>timeout\<close> milliseconds that opened at \<open>since\<close> has closed.\<close>

definition window_over :: "u32 \<Rightarrow> u32 \<Rightarrow> u32 \<Rightarrow> bool" where
  "window_over now_ms since timeout \<longleftrightarrow> sint (now_ms - since) \<ge> sint timeout"

definition cfp_next :: "u32 \<Rightarrow> 'r ConfigPath \<Rightarrow> ConfigStep \<times> 'r ConfigPath" where
  "cfp_next now_ms p =
     (let step = cfp_step0 p in
      case cfp_phase p of
        CPh_Idle \<Rightarrow> (step, p)
      | CPh_SendDue \<Rightarrow> (step\<lparr>cfs_action := CF_SendConfig, cfs_payload := Some (cj_config (cfp_job p)), cfs_seq := cfp_seq p,
                             cfs_ctx_id := cfp_ctx p\<rparr>, p)
      | CPh_AwaitingAck \<Rightarrow>
          if window_over now_ms (cfp_window_opened_ms p) (cfp_ack_timeout_ms p) then
            (step\<lparr>cfs_action := CF_Resolve, cfs_op_outcome := CT_Unknown, cfs_op := cj_op (cfp_job p)\<rparr>,
             (cfp_count (\<lambda>s. s\<lparr>cfst_unknown := cfst_unknown s + 1\<rparr>) p)
               \<lparr>cfp_outcome := CT_Unknown, cfp_persist := AP_Unknown, cfp_phase := CPh_ReadbackDue\<rparr>)
          else (step, p)
      | CPh_ReadbackDue \<Rightarrow> (step\<lparr>cfs_action := CF_RequestReadback\<rparr>, p)
      | CPh_AwaitingReadback \<Rightarrow>
          if window_over now_ms (if cfp_readback_first_ms p \<noteq> 0 then cfp_readback_first_ms p else cfp_window_opened_ms p)
               (cfp_readback_timeout_ms p) then
            (step\<lparr>cfs_action := CF_Resolve, cfs_op_outcome := CT_Abandoned, cfs_op := CO_GetAll\<rparr>,
             (cfp_count (\<lambda>s. s\<lparr>cfst_config_readback_abandoned := cfst_config_readback_abandoned s + 1\<rparr>) p)
               \<lparr>cfp_staged := [], cfp_messages_staged := 0, cfp_outcome := CT_Abandoned, cfp_phase := CPh_Idle\<rparr>)
          else (step, p)
      | CPh_Resolved \<Rightarrow>
          (step\<lparr>cfs_action := CF_Resolve, cfs_op_outcome := cfp_outcome p,
             cfs_op := (if cfp_outcome p = CT_ReadbackOk then CO_GetAll else cj_op (cfp_job p)),
             cfs_persist := cfp_persist p, cfs_results := cfp_staged p,
             cfs_updates_state := (cfp_outcome p = CT_ReadbackOk \<or> cfp_outcome p = CT_Acked)\<rparr>,
           p\<lparr>cfp_phase := CPh_Idle\<rparr>))"

definition cfp_on_sent :: "u32 \<Rightarrow> 'r ConfigPath \<Rightarrow> 'r ConfigPath" where
  "cfp_on_sent now_ms p =
     (let p = p\<lparr>cfp_window_opened_ms := now_ms\<rparr> in
      if cfp_phase p = CPh_SendDue
        then (cfp_count (\<lambda>s. s\<lparr>cfst_sent := cfst_sent s + 1\<rparr>) p)\<lparr>cfp_phase := CPh_AwaitingAck\<rparr>
      else if cfp_phase p = CPh_ReadbackDue
        then (cfp_count (\<lambda>s. s\<lparr>cfst_readbacks_requested := cfst_readbacks_requested s + 1\<rparr>) p)
               \<lparr>cfp_readback_first_ms := 0, cfp_phase := CPh_AwaitingReadback\<rparr>
      else p)"

definition cfp_on_aired :: "u32 \<Rightarrow> 'r ConfigPath \<Rightarrow> 'r ConfigPath" where
  "cfp_on_aired aired_ms p =
     (if cfp_phase p = CPh_AwaitingAck \<or> cfp_phase p = CPh_AwaitingReadback then p\<lparr>cfp_window_opened_ms := aired_ms\<rparr> else p)"

fun stage_entries :: "ConfigAckEntry list \<Rightarrow> 'r ConfigPath \<Rightarrow> 'r ConfigPath" where
  "stage_entries [] p = p"
| "stage_entries (e # es) p =
     (if length (cfp_staged p) \<ge> kMaxStagedResults
      then cfp_count (\<lambda>s. s\<lparr>cfst_staging_overflow := cfst_staging_overflow s + 1\<rparr>) p
      else stage_entries es (p\<lparr>cfp_staged := cfp_staged p @ [e]\<rparr>))"

definition cfp_finish :: "ConfigOutcome \<Rightarrow> 'r ConfigPath \<Rightarrow> 'r ConfigPath" where
  "cfp_finish out p = p\<lparr>cfp_outcome := out, cfp_phase := CPh_Resolved\<rparr>"

definition cfp_ignore :: "'r ConfigPath \<Rightarrow> 'r ConfigPath" where
  "cfp_ignore = cfp_count (\<lambda>s. s\<lparr>cfst_ack_ignored := cfst_ack_ignored s + 1\<rparr>)"

text \<open>An answer nobody asked for opens a readback of its own, when it starts at the table's first row.\<close>

definition cfp_unsolicited_start :: "'r \<Rightarrow> NodeId \<Rightarrow> NodeConfigAckV1 \<Rightarrow> u32 \<Rightarrow> 'r ConfigPath \<Rightarrow> 'r ConfigPath" where
  "cfp_unsolicited_start ride src ack now_ms p =
     (if cfp_phase p = CPh_Idle \<and> nca_op ack = CO_GetAll \<and> nca_entries ack \<noteq> [] \<and>
         cae_param_id (hd (nca_entries ack)) = pd_id (hd kNodeCommonParams)
      then (cfp_count (\<lambda>s. s\<lparr>cfst_unsolicited_readbacks := cfst_unsolicited_readbacks s + 1\<rparr>) p)
             \<lparr>cfp_job := (ConfigJob_init ride)\<lparr>cj_dst := src, cj_op := CO_GetAll, cj_readback_only := True\<rparr>,
              cfp_unsolicited := True, cfp_outcome := CT_Pending, cfp_persist := AP_Unknown, cfp_staged := [],
              cfp_messages_staged := 0, cfp_readback_first_ms := now_ms, cfp_window_opened_ms := now_ms,
              cfp_phase := CPh_AwaitingReadback\<rparr>
      else p)"

definition cfp_first :: "u32 \<Rightarrow> 'r ConfigPath \<Rightarrow> 'r ConfigPath" where
  "cfp_first now_ms p = (if cfp_readback_first_ms p = 0 then p\<lparr>cfp_readback_first_ms := now_ms\<rparr> else p)"

definition cfp_take :: "NodeConfigAckV1 \<Rightarrow> u32 \<Rightarrow> 'r ConfigPath \<Rightarrow> 'r ConfigPath" where
  "cfp_take ack now_ms p =
     (if cfp_messages_staged p \<ge> kMaxConfigAckMessages
      then cfp_count (\<lambda>s. s\<lparr>cfst_staging_overflow := cfst_staging_overflow s + 1\<rparr>) p
      else let p = stage_entries (nca_entries ack) (p\<lparr>cfp_messages_staged := cfp_messages_staged p + 1\<rparr>);
               p = p\<lparr>cfp_persist := ack_persist_of (nca_persist_status ack)\<rparr>
           in if nca_more_follows ack then cfp_first now_ms p
              else if cfp_phase p = CPh_AwaitingAck
                then cfp_finish CT_Acked (cfp_count (\<lambda>s. s\<lparr>cfst_acked := cfst_acked s + 1\<rparr>) p)
              else cfp_finish CT_ReadbackOk (cfp_count (\<lambda>s. s\<lparr>cfst_readbacks_completed := cfst_readbacks_completed s + 1\<rparr>) p))"

definition cfp_on_config_ack :: "'r \<Rightarrow> NodeId \<Rightarrow> NodeConfigAckV1 \<Rightarrow> Seq \<Rightarrow> u32 \<Rightarrow> 'r ConfigPath \<Rightarrow> 'r ConfigPath" where
  "cfp_on_config_ack ride src ack ack_seq now_ms p =
     (let p = cfp_unsolicited_start ride src ack now_ms p in
      if cfp_phase p \<noteq> CPh_AwaitingAck \<and> cfp_phase p \<noteq> CPh_AwaitingReadback then cfp_ignore p
      else if src \<noteq> cj_dst (cfp_job p) then cfp_ignore p
      else if cfp_phase p = CPh_AwaitingAck then
        (if ack_seq \<noteq> cfp_seq p then cfp_ignore p else cfp_take ack now_ms p)
      else cfp_take ack now_ms (cfp_first now_ms p))"

section \<open>Reading a node's STATUS\<close>

definition decode_node_status :: "Header \<Rightarrow> bytes \<Rightarrow> GateLinkStatusV1 option" where
  "decode_node_status hdr payload =
     (if h_schema hdr = kSchemaGateLinkStatusV2 then
        (case deserialize_GateLinkStatusV2 payload of Inl st \<Rightarrow> None | Inr v2 \<Rightarrow> Some (sv2_v1 v2))
      else if h_schema hdr \<noteq> kSchemaGateLinkStatusV1 \<and> h_schema hdr \<noteq> kSchemaSimnodeStatusV1 then None
      else (case deserialize_GateLinkStatusV1 payload of Inl st \<Rightarrow> None | Inr s \<Rightarrow> Some s))"

definition status_reports_config_change :: "Header \<Rightarrow> bytes \<Rightarrow> bool" where
  "status_reports_config_change hdr payload =
     (if h_type hdr \<noteq> MT_Status then False
      else case decode_node_status hdr payload of
          None \<Rightarrow> False | Some s \<Rightarrow> sv1_status_reason s = StatusReason_u8 SR_ConfigChange)"

record Seen =
  sn_heard :: bool
  sn_uptime_s :: u32
  sn_boot_count :: u16
  sn_rx_ms :: u32

type_synonym RebootWatch = "Seen list"

definition RebootWatch_new :: RebootWatch where
  "RebootWatch_new = replicate kNodeCount \<lparr>sn_heard = False, sn_uptime_s = 0, sn_boot_count = 0, sn_rx_ms = 0\<rparr>"

definition kSlackS :: nat where "kSlackS = 5"
definition kDriftDivisor :: nat where "kDriftDivisor = 256"

text \<open>Uptime, boot count and whether the frame itself says BOOT.\<close>

definition boot_reading :: "Header \<Rightarrow> bytes \<Rightarrow> (u32 \<times> u16 \<times> bool) option" where
  "boot_reading hdr payload =
     (if h_schema hdr = kSchemaGateLinkStatusV1 \<or> h_schema hdr = kSchemaGateLinkStatusV2 \<or> h_schema hdr = kSchemaSimnodeStatusV1
      then map_option (\<lambda>s. (sv1_uptime_s s, sv1_boot_count s, sv1_status_reason s = StatusReason_u8 SR_Boot))
             (decode_node_status hdr payload)
      else if h_schema hdr = kSchemaNodeHealthV1 then
        (case deserialize_NodeHealthV1 payload of Inl st \<Rightarrow> None | Inr s \<Rightarrow> Some (nh_uptime_s s, nh_boot_count s, False))
      else None)"

text \<open>The sums are computed in 64 bits in the source, wide enough not to wrap.\<close>

definition reboot_seen :: "Seen \<Rightarrow> u32 \<Rightarrow> u16 \<Rightarrow> u32 \<Rightarrow> bool" where
  "reboot_seen old uptime_s boot_count rx_ms \<longleftrightarrow> sn_heard old \<and>
     (boot_count \<noteq> 0 \<and> sn_boot_count old \<noteq> 0 \<and> boot_count \<noteq> sn_boot_count old \<or>
      (let gap_s = unat ((rx_ms - sn_rx_ms old) div 1000)
       in unat uptime_s + (kSlackS + gap_s div kDriftDivisor) < unat (sn_uptime_s old) + gap_s))"

definition rw_on_status :: "Header \<Rightarrow> bytes \<Rightarrow> u32 \<Rightarrow> RebootWatch \<Rightarrow> bool \<times> RebootWatch" where
  "rw_on_status hdr payload rx_ms w =
     (if h_type hdr \<noteq> MT_Status then (False, w)
      else case node_table_index (h_src hdr) of
          None \<Rightarrow> (False, w)
        | Some i \<Rightarrow> (case boot_reading hdr payload of
            None \<Rightarrow> (False, w)
          | Some (uptime_s, boot_count, says_boot) \<Rightarrow>
              (says_boot \<or> reboot_seen (w ! i) uptime_s boot_count rx_ms,
               w[i := \<lparr>sn_heard = True, sn_uptime_s = uptime_s, sn_boot_count = boot_count, sn_rx_ms = rx_ms\<rparr>])))"

definition rw_heard :: "NodeId \<Rightarrow> RebootWatch \<Rightarrow> bool" where
  "rw_heard src w = (case node_table_index src of None \<Rightarrow> False | Some i \<Rightarrow> sn_heard (w ! i))"

section \<open>Staging an answer\<close>

text \<open>The messages of an answer with the time each is heard.\<close>

fun cfp_hear :: "'r \<Rightarrow> NodeId \<Rightarrow> Seq \<Rightarrow> (u32 \<times> NodeConfigAckV1) list \<Rightarrow> 'r ConfigPath \<Rightarrow> 'r ConfigPath" where
  "cfp_hear ride src q [] p = p"
| "cfp_hear ride src q ((t, m) # ms) p = cfp_hear ride src q ms (cfp_on_config_ack ride src m q t p)"

definition entries_of :: "(u32 \<times> NodeConfigAckV1) list \<Rightarrow> ConfigAckEntry list" where
  "entries_of ms = concat (map (\<lambda>(t, m). nca_entries m) ms)"

definition partial_answer :: "(u32 \<times> NodeConfigAckV1) list \<Rightarrow> bool" where
  "partial_answer ms \<longleftrightarrow> (\<forall>(t, m) \<in> set ms. nca_more_follows m)"

definition whole_answer :: "(u32 \<times> NodeConfigAckV1) list \<Rightarrow> bool" where
  "whole_answer ms \<longleftrightarrow> ms \<noteq> [] \<and> partial_answer (butlast ms) \<and> \<not> nca_more_follows (snd (last ms))"

definition room_for :: "(u32 \<times> NodeConfigAckV1) list \<Rightarrow> 'r ConfigPath \<Rightarrow> bool" where
  "room_for ms p \<longleftrightarrow> length (cfp_staged p) + length (entries_of ms) \<le> kMaxStagedResults"

lemma entries_of_Cons [simp]: "entries_of ((t, m) # ms) = nca_entries m @ entries_of ms" "entries_of [] = []"
  by (simp_all add: entries_of_def)

lemma entries_of_append: "entries_of (xs @ ys) = entries_of xs @ entries_of ys"
  by (simp add: entries_of_def)

lemma stage_entries_fits:
  "length (cfp_staged p) + length es \<le> kMaxStagedResults \<Longrightarrow> stage_entries es p = p\<lparr>cfp_staged := cfp_staged p @ es\<rparr>"
  by (induction es arbitrary: p) (auto simp: less_eq_Suc_le)

lemma cfp_count_sel [simp]:
  "cfp_phase (cfp_count f p) = cfp_phase p" "cfp_job (cfp_count f p) = cfp_job p" "cfp_staged (cfp_count f p) = cfp_staged p"
  "cfp_messages_staged (cfp_count f p) = cfp_messages_staged p" "cfp_seq (cfp_count f p) = cfp_seq p"
  "cfp_outcome (cfp_count f p) = cfp_outcome p"
  by (simp_all add: cfp_count_def)

lemma cfp_first_sel [simp]:
  "cfp_phase (cfp_first t p) = cfp_phase p" "cfp_job (cfp_first t p) = cfp_job p" "cfp_staged (cfp_first t p) = cfp_staged p"
  "cfp_messages_staged (cfp_first t p) = cfp_messages_staged p" "cfp_seq (cfp_first t p) = cfp_seq p"
  by (simp_all add: cfp_first_def)

text \<open>What a path that is waiting for messages keeps: whose answer, and how much of it is staged.\<close>

definition waits :: "ConfigPhase \<Rightarrow> NodeId \<Rightarrow> Seq \<Rightarrow> nat \<Rightarrow> ConfigAckEntry list \<Rightarrow> 'r ConfigPath \<Rightarrow> bool" where
  "waits ph src q n es p \<longleftrightarrow> cfp_phase p = ph \<and> (ph = CPh_AwaitingAck \<or> ph = CPh_AwaitingReadback) \<and>
     cj_dst (cfp_job p) = src \<and> (ph = CPh_AwaitingAck \<longrightarrow> cfp_seq p = q) \<and> cfp_messages_staged p = n \<and> cfp_staged p = es"

lemma waits_takes:
  assumes "waits ph src q n es p" "n < kMaxConfigAckMessages" "length es + length (nca_entries m) \<le> kMaxStagedResults"
  shows "nca_more_follows m \<Longrightarrow> waits ph src q (Suc n) (es @ nca_entries m) (cfp_on_config_ack ride src m q t p)"
    "\<not> nca_more_follows m \<Longrightarrow> let p' = cfp_on_config_ack ride src m q t p in cfp_phase p' = CPh_Resolved \<and>
       cfp_outcome p' = (if ph = CPh_AwaitingAck then CT_Acked else CT_ReadbackOk) \<and>
       cfp_staged p' = es @ nca_entries m \<and> cfp_job p' = cfp_job p"
  using assms
  by (auto simp: waits_def cfp_on_config_ack_def cfp_unsolicited_start_def cfp_take_def Let_def stage_entries_fits cfp_finish_def)

lemma waits_full:
  assumes "waits ph src q n es p" "n \<ge> kMaxConfigAckMessages"
  shows "waits ph src q n es (cfp_on_config_ack ride src m q t p)"
  using assms by (auto simp: waits_def cfp_on_config_ack_def cfp_unsolicited_start_def cfp_take_def Let_def)

lemma hear_partial:
  "waits ph src q n es p \<Longrightarrow> partial_answer ms \<Longrightarrow> n + length ms \<le> kMaxConfigAckMessages \<Longrightarrow>
   length es + length (entries_of ms) \<le> kMaxStagedResults \<Longrightarrow>
   waits ph src q (n + length ms) (es @ entries_of ms) (cfp_hear ride src q ms p)"
proof (induction ms arbitrary: n es p)
  case (Cons tm ms)
  obtain t m where tm: "tm = (t, m)" by fastforce
  have "waits ph src q (Suc n) (es @ nca_entries m) (cfp_on_config_ack ride src m q t p)"
    by (rule waits_takes(1)) (use Cons.prems tm in \<open>auto simp: partial_answer_def\<close>)
  from Cons.IH [OF this] Cons.prems tm show ?case by (auto simp: partial_answer_def)
qed simp

lemma hear_append: "cfp_hear ride src q (xs @ ys) p = cfp_hear ride src q ys (cfp_hear ride src q xs p)"
  by (induction ride src q xs p rule: cfp_hear.induct) auto

lemma hear_whole:
  assumes "waits ph src q n es p" "whole_answer ms" "n + length ms \<le> kMaxConfigAckMessages"
    "length es + length (entries_of ms) \<le> kMaxStagedResults"
  shows "let p' = cfp_hear ride src q ms p in cfp_phase p' = CPh_Resolved \<and>
    cfp_outcome p' = (if ph = CPh_AwaitingAck then CT_Acked else CT_ReadbackOk) \<and> cfp_staged p' = es @ entries_of ms"
proof -
  obtain xs t m where ms: "ms = xs @ [(t, m)]" "partial_answer xs" "\<not> nca_more_follows m"
    using assms(2) by (cases ms rule: rev_cases) (auto simp: whole_answer_def)
  have "waits ph src q (n + length xs) (es @ entries_of xs) (cfp_hear ride src q xs p)"
    by (rule hear_partial [OF assms(1) ms(2)]) (use assms(3,4) ms(1) in \<open>auto simp: entries_of_append\<close>)
  from waits_takes(2) [OF this _ _ ms(3), of ride t] assms(3,4) show ?thesis
    by (simp add: ms(1) hear_append entries_of_append Let_def)
qed

lemma hear_full:
  "waits ph src q n es p \<Longrightarrow> n \<ge> kMaxConfigAckMessages \<Longrightarrow> waits ph src q n es (cfp_hear ride src q ms p)"
proof (induction ms arbitrary: p)
  case (Cons tm ms)
  then show ?case by (cases tm) (auto intro: waits_full)
qed simp

lemma hear_overflow:
  assumes "waits ph src q n es p" "whole_answer ms" "kMaxConfigAckMessages < n + length ms" "n \<le> kMaxConfigAckMessages"
    "length es + length (entries_of ms) \<le> kMaxStagedResults"
  shows "cfp_phase (cfp_hear ride src q ms p) = ph"
proof -
  let ?k = "kMaxConfigAckMessages - n"
  have "take ?k (butlast ms) = take ?k ms" using assms(3,4) by (subst take_butlast) auto
  then have "partial_answer (take ?k ms)"
    using assms(2) by (metis (mono_tags, lifting) in_set_takeD partial_answer_def whole_answer_def)
  moreover have "length (entries_of (take ?k ms)) \<le> length (entries_of ms)"
    using entries_of_append [of "take ?k ms" "drop ?k ms"] by simp
  ultimately have "waits ph src q (n + length (take ?k ms)) (es @ entries_of (take ?k ms)) (cfp_hear ride src q (take ?k ms) p)"
    using assms(3-5) by (intro hear_partial [OF assms(1)]) auto
  from hear_full [OF this, of ride "drop ?k ms"] assms(3,4) have
    "cfp_phase (cfp_hear ride src q (take ?k ms @ drop ?k ms) p) = ph"
    unfolding hear_append by (simp add: waits_def)
  then show ?thesis by (simp only: append_take_drop_id)
qed

section \<open>Properties\<close>

lemma sent_waits:
  assumes "cfp_phase p = CPh_SendDue \<or> cfp_phase p = CPh_ReadbackDue"
  shows "waits (if cfp_phase p = CPh_SendDue then CPh_AwaitingAck else CPh_AwaitingReadback) (cj_dst (cfp_job p)) (cfp_seq p)
    (cfp_messages_staged p) (cfp_staged p) (cfp_on_sent now p)"
  using assms by (auto simp: waits_def cfp_on_sent_def Let_def)

lemma submit_fields:
  assumes "cfp_submit job ctx q now p = (True, p')"
  shows "cfp_phase p' = (if cj_readback_only job then CPh_ReadbackDue else CPh_SendDue)" "cfp_seq p' = q"
    "cfp_messages_staged p' = 0" "cfp_staged p' = []" "cj_dst (cfp_job p') = cj_dst job"
    "cj_readback_only (cfp_job p') = cj_readback_only job" "cj_readback_only job \<longrightarrow> cj_op (cfp_job p') = CO_GetAll"
  using assms by (auto simp: cfp_submit_def split: if_splits)

lemma resolved_next:
  "cfp_phase p = CPh_Resolved \<Longrightarrow> let st = fst (cfp_next now p) in cfs_action st = CF_Resolve \<and>
     cfs_op_outcome st = cfp_outcome p \<and> cfs_results st = cfp_staged p \<and> cfs_dst st = cj_dst (cfp_job p)"
  by (simp add: cfp_next_def cfp_step0_def Let_def)

text \<open>
  C15: a configuration answer is delivered whole. After a CONFIG or a readback request went out, an
  answer of up to four messages, each but the last announcing more, resolves the transaction with
  exactly the entries of all its messages, in order, and not before its last message.
\<close>

theorem config_answer_delivered_whole:
  assumes "cfp_submit job ctx q now p = (True, p1)" "p2 = cfp_hear ride (cj_dst job) q ms (cfp_on_sent t p1)"
    "length ms \<le> kMaxConfigAckMessages" "length (entries_of ms) \<le> kMaxStagedResults"
  shows "(whole_answer ms \<longrightarrow> (let st = fst (cfp_next later p2) in cfs_action st = CF_Resolve \<and> cfs_results st = entries_of ms \<and>
       cfs_op_outcome st = (if cj_readback_only job then CT_ReadbackOk else CT_Acked))) \<and>
    (partial_answer ms \<longrightarrow> cfp_phase p2 = (if cj_readback_only job then CPh_AwaitingReadback else CPh_AwaitingAck))"
proof -
  let ?ph = "if cj_readback_only job then CPh_AwaitingReadback else CPh_AwaitingAck"
  note f = submit_fields [OF assms(1)]
  have w: "waits ?ph (cj_dst job) q 0 [] (cfp_on_sent t p1)"
    using sent_waits [of p1 t] f by (simp split: if_splits)
  have "let st = fst (cfp_next later p2) in cfs_action st = CF_Resolve \<and> cfs_results st = entries_of ms \<and>
       cfs_op_outcome st = (if cj_readback_only job then CT_ReadbackOk else CT_Acked)" if "whole_answer ms"
    using hear_whole [OF w that, of ride] resolved_next [of p2 later] assms by (auto simp: Let_def)
  moreover have "cfp_phase p2 = ?ph" if "partial_answer ms"
    using hear_partial [OF w that, of ride] assms(2-4) by (auto simp: waits_def)
  ultimately show ?thesis by simp
qed

definition sample_entry :: "u16 \<Rightarrow> ConfigAckEntry" where
  "sample_entry i = ConfigAckEntry_init\<lparr>cae_param_id := i\<rparr>"

definition sample_ack :: "bool \<Rightarrow> u16 \<Rightarrow> NodeConfigAckV1" where
  "sample_ack more_msgs i = \<lparr>nca_op = CO_GetAll, nca_more_follows = more_msgs, nca_persist_status = PS_Persisted,
     nca_entries = [sample_entry i]\<rparr>"

definition sample_job :: "bool \<Rightarrow> unit ConfigJob" where
  "sample_job readback = (ConfigJob_init ())\<lparr>cj_dst := kNodeGateLink, cj_readback_only := readback\<rparr>"

theorem config_answer_delivered_whole_witness:
  "let p1 = snd (cfp_submit (sample_job False) 5 3 0 (ConfigPath_new ()));
       p2 = cfp_hear () kNodeGateLink 3 [(20, sample_ack True 1), (30, sample_ack False 2)] (cfp_on_sent 10 p1)
   in cfs_results (fst (cfp_next 40 p2)) = [sample_entry 1, sample_entry 2]"
proof -
  let ?p1 = "snd (cfp_submit (sample_job False) 5 3 0 (ConfigPath_new ()))"
  let ?ms = "[(20, sample_ack True 1), (30, sample_ack False 2)]"
  have s: "cfp_submit (sample_job False) 5 3 0 (ConfigPath_new ()) = (True, ?p1)"
    by (simp add: cfp_submit_def ConfigPath_new_def)
  have "whole_answer ?ms" by (simp add: whole_answer_def partial_answer_def sample_ack_def)
  moreover have "entries_of ?ms = [sample_entry 1, sample_entry 2]" by (simp add: sample_ack_def)
  moreover have "cj_dst (sample_job False) = kNodeGateLink" by (simp add: sample_job_def)
  ultimately show ?thesis
    using config_answer_delivered_whole [OF s refl, where ms = ?ms and ride = "()" and t = 10 and later = 40] by (simp add: Let_def kMaxStagedResults_def)
qed

text \<open>
  C16: what arrived of an answer that was given up is still staged when the readback begins. If a
  CONFIG's answer stops after some messages and the window closes, the readback that follows reports
  those entries again before its own, and when the two together exceed four messages the complete
  readback is not recognised: the path goes on waiting until it abandons it.
\<close>

theorem partial_answer_spoils_readback:
  assumes "cfp_submit job ctx q now p = (True, p1)" "\<not> cj_readback_only job"
    "partial_answer xs" "length xs \<le> kMaxConfigAckMessages" "p2 = cfp_hear ride (cj_dst job) q xs (cfp_on_sent t p1)"
    "cfp_next t2 p2 = (st, p3)" "cfs_action st = CF_Resolve"
    "whole_answer ys" "length ys \<le> kMaxConfigAckMessages" "p4 = cfp_hear ride (cj_dst job) q ys (cfp_on_sent t3 p3)"
    "length (entries_of xs) + length (entries_of ys) \<le> kMaxStagedResults"
  shows "cfs_op_outcome st = CT_Unknown \<and>
    (if length xs + length ys \<le> kMaxConfigAckMessages
     then cfs_results (fst (cfp_next t4 p4)) = entries_of xs @ entries_of ys \<and>
       cfs_op_outcome (fst (cfp_next t4 p4)) = CT_ReadbackOk
     else cfp_phase p4 = CPh_AwaitingReadback)"
proof -
  note f = submit_fields [OF assms(1)]
  have w: "waits CPh_AwaitingAck (cj_dst job) q 0 [] (cfp_on_sent t p1)"
    using sent_waits [of p1 t] f assms(2) by simp
  have w2: "waits CPh_AwaitingAck (cj_dst job) q (length xs) (entries_of xs) p2"
    using hear_partial [OF w assms(3), of ride] assms(4,5,11) by simp
  then have n: "cfs_op_outcome st = CT_Unknown" "cfp_phase p3 = CPh_ReadbackDue" "cj_dst (cfp_job p3) = cj_dst job"
    "cfp_messages_staged p3 = length xs" "cfp_staged p3 = entries_of xs" "cfp_seq p3 = q"
    using assms(6,7) by (auto simp: waits_def cfp_next_def cfp_step0_def Let_def split: if_splits)
  then have w3: "waits CPh_AwaitingReadback (cj_dst job) q (length xs) (entries_of xs) (cfp_on_sent t3 p3)"
    using sent_waits [of p3 t3] by simp
  show ?thesis
  proof (cases "length xs + length ys \<le> kMaxConfigAckMessages")
    case True
    with hear_whole [OF w3 assms(8) True, of ride] assms(10,11) resolved_next [of p4 t4] n(1) show ?thesis
      by (simp add: Let_def)
  next
    case False
    with hear_overflow [OF w3 assms(8), of ride] assms(4,10,11) n(1) show ?thesis by simp
  qed
qed

theorem partial_answer_spoils_readback_witness:
  "let p1 = snd (cfp_submit (sample_job False) 5 3 0 (ConfigPath_new ()));
       p2 = cfp_hear () kNodeGateLink 3 [(20, sample_ack True 1), (30, sample_ack True 2)] (cfp_on_sent 10 p1);
       p3 = snd (cfp_next 9000 p2);
       p4 = cfp_hear () kNodeGateLink 3 [(9100, sample_ack True 1), (9110, sample_ack True 2), (9120, sample_ack False 3)]
              (cfp_on_sent 9050 p3)
   in cfp_phase p4 = CPh_AwaitingReadback"
proof -
  let ?p1 = "snd (cfp_submit (sample_job False) 5 3 0 (ConfigPath_new ()))"
  let ?xs = "[(20, sample_ack True 1), (30, sample_ack True 2)]"
  let ?ys = "[(9100, sample_ack True 1), (9110, sample_ack True 2), (9120, sample_ack False 3)]"
  let ?p2 = "cfp_hear () (cj_dst (sample_job False)) 3 ?xs (cfp_on_sent 10 ?p1)"
  have s: "cfp_submit (sample_job False) 5 3 0 (ConfigPath_new ()) = (True, ?p1)"
    by (simp add: cfp_submit_def ConfigPath_new_def)
  obtain st p3 where n: "cfp_next 9000 ?p2 = (st, p3)" by fastforce
  have "cfs_action (fst (cfp_next 9000 ?p2)) = CF_Resolve" by code_simp
  then have a: "cfs_action st = CF_Resolve" by (simp only: n fst_conv)
  have h: "\<not> cj_readback_only (sample_job False)" "partial_answer ?xs" "length ?xs \<le> kMaxConfigAckMessages"
    "whole_answer ?ys" "length ?ys \<le> kMaxConfigAckMessages" "length (entries_of ?xs) + length (entries_of ?ys) \<le> kMaxStagedResults"
    by (simp_all add: sample_job_def ConfigJob_init_def partial_answer_def whole_answer_def sample_ack_def kMaxStagedResults_def)
  have d: "cj_dst (sample_job False) = kNodeGateLink" by (simp add: sample_job_def)
  from partial_answer_spoils_readback [OF s h(1-3) refl n a h(4,5) refl h(6), where ?t4.0 = 0 and ?t3.0 = 9050]
  have "cfp_phase (cfp_hear () kNodeGateLink 3 ?ys (cfp_on_sent 9050 p3)) = CPh_AwaitingReadback" by (simp add: d)
  moreover have "p3 = snd (cfp_next 9000 (cfp_hear () kNodeGateLink 3 ?xs (cfp_on_sent 10 ?p1)))"
    using n by (simp only: d snd_conv)
  ultimately show ?thesis by (simp only: Let_def)
qed

end
