(* ===== verification/BridgeEcho.thy ===== *)
theory BridgeEcho
  imports BridgeRegistry
begin

text \<open>The bridge's PING responder (\<open>firmware/bridge/src\<close>: \<open>echo.h\<close>, \<open>echo.cpp\<close>).\<close>

datatype EchoOffer = EO_Accepted | EO_Busy | EO_Malformed

record EchoStats =
  est_answered :: u32
  est_busy :: u32
  est_malformed :: u32
  est_frames :: u32

record PingEcho =
  pe_reply :: Header
  pe_payload :: bytes
  pe_chunk :: u8
  pe_total :: nat
  pe_next :: nat
  pe_active :: bool
  pe_stats :: EchoStats

definition PingEcho_new :: PingEcho where
  "PingEcho_new = \<lparr>pe_reply = Header_init, pe_payload = [], pe_chunk = 0, pe_total = 0, pe_next = 0, pe_active = False,
     pe_stats = \<lparr>est_answered = 0, est_busy = 0, est_malformed = 0, est_frames = 0\<rparr>\<rparr>"

definition pe_count :: "(EchoStats \<Rightarrow> EchoStats) \<Rightarrow> PingEcho \<Rightarrow> PingEcho" where
  "pe_count f e = e\<lparr>pe_stats := f (pe_stats e)\<rparr>"

definition pe_offer :: "Header \<Rightarrow> bytes option \<Rightarrow> u8 \<Rightarrow> PingEcho \<Rightarrow> EchoOffer \<times> PingEcho" where
  "pe_offer ping payload frag_chunk e =
     (if pe_active e then (EO_Busy, pe_count (\<lambda>s. s\<lparr>est_busy := est_busy s + 1\<rparr>) e)
      else let bad = pe_count (\<lambda>s. s\<lparr>est_malformed := est_malformed s + 1\<rparr>) in
        case payload of
          None \<Rightarrow> (EO_Malformed, bad e)
        | Some p \<Rightarrow>
            if length p > kMaxPayloadPlain \<or> isl (deserialize_Ping p) then (EO_Malformed, bad e)
            else let chunk = (if frag_chunk \<noteq> 0 \<and> unat frag_chunk < length p then frag_chunk else 0);
                     e = e\<lparr>pe_reply := Header_init\<lparr>h_ver := h_ver ping, h_type := MT_Ping, h_src := kNodeBridge,
                             h_dst := h_src ping, h_seq := h_seq ping, h_ctx_id := h_ctx_id ping, h_schema := kSchemaNone\<rparr>,
                           pe_payload := p, pe_chunk := chunk,
                           pe_total := (if chunk = 0 then 1 else fragment_count (length p) (unat chunk))\<rparr>
                 in if pe_total e = 0 then (EO_Malformed, bad e)
                    else (EO_Accepted, pe_count (\<lambda>s. s\<lparr>est_answered := est_answered s + 1\<rparr>) (e\<lparr>pe_next := 0, pe_active := True\<rparr>)))"

definition pe_frames_left :: "PingEcho \<Rightarrow> bool" where
  "pe_frames_left e \<longleftrightarrow> pe_active e \<and> pe_next e < pe_total e"

definition pe_started :: "PingEcho \<Rightarrow> bool" where
  "pe_started e \<longleftrightarrow> pe_next e > 0"

definition pe_at_last :: "PingEcho \<Rightarrow> bool" where
  "pe_at_last e \<longleftrightarrow> pe_active e \<and> pe_next e + 1 = pe_total e"

text \<open>The frame, or \<open>None\<close> where the source returns 0.\<close>

definition pe_encode_next :: "bytes \<Rightarrow> PingEcho \<Rightarrow> bytes option" where
  "pe_encode_next buf e =
     (if \<not> pe_frames_left e then None
      else let ectx = \<lparr>ec_mac = None, ec_node_key = None\<rparr>;
               (st, out, n) = (if pe_chunk e = 0 then encode (pe_reply e) (pe_payload e) ectx buf
                               else encode_fragment (pe_reply e) (pe_payload e) (pe_next e) (unat (pe_chunk e)) ectx buf)
           in if st = St_Ok \<and> n \<noteq> 0 then Some (take n out) else None)"

definition pe_advance :: "PingEcho \<Rightarrow> PingEcho" where
  "pe_advance e = (if \<not> pe_frames_left e then e
     else pe_count (\<lambda>s. s\<lparr>est_frames := est_frames s + 1\<rparr>) (e\<lparr>pe_next := pe_next e + 1\<rparr>))"

definition pe_finish :: "PingEcho \<Rightarrow> PingEcho" where
  "pe_finish e = e\<lparr>pe_active := False\<rparr>"

end
