(* ===== verification/BridgeSched.thy ===== *)
theory BridgeSched
  imports BridgeRoll BridgeScheduler BridgeHex BridgeConfig BridgeEcho
begin

text \<open>
  The bridge's scheduling task (\<open>firmware/bridge/src/task_runtime.cpp\<close>): the six senders of a tick,
  the wait for a frame to leave \<open>lora_task\<close>, and what \<open>app_task\<close> hands over from the frames it
  receives. The transmit queue is a list of at most \<open>kTxQueueDepth\<close> messages that \<open>lora_task\<close>
  takes from. What is published is the list \<open>sd_out\<close>.

  Outside the model, as the record \<open>SchedEnv\<close> of what a tick reads: the PHY change, the OTA state,
  the charge-register readback and the reports of \<open>lora_task\<close> about finished frames.
\<close>

section \<open>State\<close>

definition kTxQueueDepth :: nat where "kTxQueueDepth = 4"
definition kConfigQueueDepth :: nat where "kConfigQueueDepth = 2"
definition kAirWaitMaxMs :: u32 where "kAirWaitMaxMs = 10000"
definition kPollFlagFullStatus :: u8 where "kPollFlagFullStatus = 0x01"
definition kPollFlagConfigReadback :: u8 where "kPollFlagConfigReadback = 0x02"

record TxMessage =
  tm_dst :: NodeId
  tm_bytes :: bytes
  tm_ticket :: u32

record AirWait =
  aw_ticket :: u32
  aw_queued_ms :: u32

definition AirWait_init :: AirWait where "AirWait_init = \<lparr>aw_ticket = 0, aw_queued_ms = 0\<rparr>"

datatype sched_out = SO_CmdAck CmdStep | SO_CmdRefused NodeId | SO_Roll RollStep | SO_Config ConfigStep
  | SO_Hex HexRequest HexStep bytes | SO_HexRefused HexRequest | SO_ArmOff NodeId | SO_CfgRefused NodeId

record Sched =
  sd_reg :: Registry
  sd_polls :: PollScheduler
  sd_cmd :: CommandPath
  sd_roll :: ContextRoll
  sd_cfg :: "unit ConfigPath"
  sd_hex :: HexProxy
  sd_echo :: PingEcho
  sd_arms :: "WriteArm list"
  sd_arm_timeout_s :: u32
  sd_cmd_air :: AirWait
  sd_roll_air :: AirWait
  sd_cfg_air :: AirWait
  sd_hex_air :: AirWait
  sd_echo_air :: AirWait
  sd_ticket :: u32
  sd_cmd_queue :: "CommandRequest list"
  sd_cfg_queue :: "unit ConfigJob list"
  sd_hex_queue :: "HexRequest list"
  sd_cfg_change :: u32
  sd_watch :: RebootWatch
  sd_roll_pending :: u32
  sd_tx :: "TxMessage list"
  sd_out :: "sched_out list"

definition Sched_new :: "Registry \<Rightarrow> Sched" where
  "Sched_new reg = \<lparr>sd_reg = reg, sd_polls = PollScheduler_new, sd_cmd = CommandPath_new, sd_roll = ContextRoll_new,
     sd_cfg = ConfigPath_new (), sd_hex = HexProxy_new, sd_echo = PingEcho_new,
     sd_arms = replicate kNodeCount WriteArm_new, sd_arm_timeout_s = 300, sd_cmd_air = AirWait_init,
     sd_roll_air = AirWait_init, sd_cfg_air = AirWait_init, sd_hex_air = AirWait_init, sd_echo_air = AirWait_init,
     sd_ticket = 0, sd_cmd_queue = [], sd_cfg_queue = [], sd_hex_queue = [], sd_cfg_change = 0, sd_watch = RebootWatch_new,
     sd_roll_pending = kAllNodesMask, sd_tx = [], sd_out = []\<rparr>"

record SchedEnv =
  ev_mac :: IMac
  ev_tx_done :: "u32 \<Rightarrow> u32 option"
  ev_phy_blocks :: bool
  ev_phy_waiting :: bool
  ev_ota :: bool
  ev_readback :: "HexRequest option"

section \<open>The air\<close>

definition air_turn_locked :: "SchedEnv \<Rightarrow> Sched \<Rightarrow> AirTurn" where
  "air_turn_locked ev s = \<lparr>at_poll_outstanding = ps_outstanding (sd_polls s), at_command_busy = cp_busy (sd_cmd s),
     at_roll_busy = rl_busy (sd_roll s), at_config_busy = cfp_busy (sd_cfg s), at_phy_blocks_traffic = ev_phy_blocks ev,
     at_hex_busy = hp_busy (sd_hex s), at_echo_busy = pe_active (sd_echo s),
     at_request_waiting = (ev_phy_waiting ev \<or> sd_cmd_queue s \<noteq> [] \<or> sd_cfg_queue s \<noteq> [] \<or> sd_hex_queue s \<noteq> [] \<or>
       sd_cfg_change s \<noteq> 0), at_ota_in_progress = ev_ota ev\<rparr>"

definition send_tx :: "NodeId \<Rightarrow> u32 \<Rightarrow> bytes \<Rightarrow> Sched \<Rightarrow> bool \<times> Sched" where
  "send_tx dst ticket bs s =
     (if length (sd_tx s) \<ge> kTxQueueDepth then (False, s)
      else (True, s\<lparr>sd_tx := sd_tx s @ [\<lparr>tm_dst = dst, tm_bytes = bs, tm_ticket = ticket\<rparr>]\<rparr>))"

text \<open>\<open>send_tx_awaited\<close>: on success, the wait to store in the path.\<close>

definition send_tx_awaited :: "NodeId \<Rightarrow> bytes \<Rightarrow> u32 \<Rightarrow> Sched \<Rightarrow> AirWait option \<times> Sched" where
  "send_tx_awaited dst bs now_ms s =
     (let t = (if sd_ticket s + 1 = 0 then 1 else sd_ticket s + 1);
          (ok, s) = send_tx dst t bs (s\<lparr>sd_ticket := t\<rparr>)
      in (if ok then Some \<lparr>aw_ticket = t, aw_queued_ms = now_ms\<rparr> else None, s))"

text \<open>\<open>air_pending\<close>: whether the path waits, its wait afterwards, and when its frame left if it did.\<close>

definition air_pending :: "SchedEnv \<Rightarrow> u32 \<Rightarrow> AirWait \<Rightarrow> bool \<times> AirWait \<times> u32 option" where
  "air_pending ev now_ms w =
     (if aw_ticket w = 0 then (False, w, None)
      else case ev_tx_done ev (aw_ticket w) of
          Some done_ms \<Rightarrow> (False, w\<lparr>aw_ticket := 0\<rparr>, Some done_ms)
        | None \<Rightarrow> if sint (now_ms - aw_queued_ms w) < sint kAirWaitMaxMs then (True, w, None)
                 else (False, w\<lparr>aw_ticket := 0\<rparr>, Some now_ms))"

definition publish :: "sched_out \<Rightarrow> Sched \<Rightarrow> Sched" where
  "publish x s = s\<lparr>sd_out := sd_out s @ [x]\<rparr>"

section \<open>Frames for a registered node (registry\_runtime.cpp)\<close>

definition tx_buf :: bytes where "tx_buf = replicate kMaxFrame 0"

definition node_ectx :: "IMac \<Rightarrow> bytes \<Rightarrow> EncodeCtx" where
  "node_ectx mac key = \<lparr>ec_mac = Some mac, ec_node_key = Some key\<rparr>"

definition the_frame :: "bytes \<times> nat \<Rightarrow> bytes option" where
  "the_frame r = (if snd r = 0 then None else Some (take (snd r) (fst r)))"

definition registry_build_command :: "IMac \<Rightarrow> Registry \<Rightarrow> NodeId \<Rightarrow> CtxId \<Rightarrow> Seq \<Rightarrow> u8 \<Rightarrow> Command \<Rightarrow> bytes option" where
  "registry_build_command mac reg dst ctx seq ver cmd =
     (case rg_key_for dst reg of
        None \<Rightarrow> None
      | Some key \<Rightarrow> the_frame (build_command_frame dst ctx seq ver cmd (node_ectx mac key) tx_buf))"

definition registry_build_config :: "IMac \<Rightarrow> Registry \<Rightarrow> NodeId \<Rightarrow> CtxId \<Rightarrow> Seq \<Rightarrow> u8 \<Rightarrow> NodeConfigV1 \<Rightarrow> bytes option" where
  "registry_build_config mac reg dst ctx seq ver cfg =
     (case rg_key_for dst reg of
        None \<Rightarrow> None
      | Some key \<Rightarrow>
          let (st, payload, plen) = serialize_NodeConfigV1 cfg (replicate kMaxSchemaPayload 0)
          in if st \<noteq> St_Ok then None
             else let h = Header_init\<lparr>h_ver := ver, h_type := MT_Config, h_src := kNodeBridge, h_dst := dst, h_seq := seq,
                            h_ctx_id := ctx, h_schema := kSchemaNodeConfigV1\<rparr>;
                      (st, out, len) = encode h (take (the plen) payload) (node_ectx mac key) tx_buf
                  in the_frame (out, if st = St_Ok then len else 0))"

definition registry_build_hex_req :: "IMac \<Rightarrow> Registry \<Rightarrow> NodeId \<Rightarrow> CtxId \<Rightarrow> Seq \<Rightarrow> u8 \<Rightarrow> bytes \<Rightarrow> bytes option" where
  "registry_build_hex_req mac reg dst ctx seq ver hex =
     (case rg_key_for dst reg of
        None \<Rightarrow> None
      | Some key \<Rightarrow> the_frame (build_hex_req_frame dst ctx seq ver hex (node_ectx mac key) tx_buf))"

text \<open>The version a frame to the node carries.\<close>

definition tx_ver :: "NodeId \<Rightarrow> Registry \<Rightarrow> u8" where
  "tx_ver node reg = (case rg_state node reg of None \<Rightarrow> kProtoVer | Some ns \<Rightarrow> node_tx_ver ns)"

section \<open>The senders of a tick\<close>

text \<open>The loop of \<open>sched_polls\<close> runs twice at most: a missed poll, then a new one.\<close>

fun sched_polls_from :: "nat \<Rightarrow> SchedEnv \<Rightarrow> u32 \<Rightarrow> Sched \<Rightarrow> Sched" where
  "sched_polls_from 0 ev now_ms s = s"
| "sched_polls_from (Suc n) ev now_ms s =
     (let (st, ps) = ps_next now_ms (poll_may_start (air_turn_locked ev s)) (sd_polls s);
          s = s\<lparr>sd_polls := ps\<rparr>
      in case pl_action st of
           PA_None \<Rightarrow> s
         | PA_Missed \<Rightarrow> sched_polls_from n ev now_ms (s\<lparr>sd_reg := snd (rg_note_poll_missed (pl_node st) (sd_reg s))\<rparr>)
         | PA_Poll \<Rightarrow>
             let (seq, ps) = ps_take_poll_seq (sd_polls s); s = s\<lparr>sd_polls := ps\<rparr>
             in case rg_state (pl_node st) (sd_reg s) of
                  None \<Rightarrow> s
                | Some ns \<Rightarrow>
                    (case the_frame (build_poll_frame (pl_node st) (nst_ctx_id ns) seq (node_tx_ver ns) kPollFlagFullStatus tx_buf) of
                       None \<Rightarrow> s
                     | Some bs \<Rightarrow>
                         let (ok, s) = send_tx (pl_node st) 0 bs s
                         in if \<not> ok then s
                            else s\<lparr>sd_polls := ps_on_sent (pl_node st) (nst_poll_interval_s ns) now_ms (sd_polls s)\<rparr>))"

definition sched_polls :: "SchedEnv \<Rightarrow> u32 \<Rightarrow> Sched \<Rightarrow> Sched" where
  "sched_polls = sched_polls_from 2"

definition adopt_if :: "bool \<Rightarrow> NodeId \<Rightarrow> CtxId \<Rightarrow> Sched \<Rightarrow> Sched" where
  "adopt_if b dst ctx s = (if b then s\<lparr>sd_reg := snd (rg_adopt_ctx dst ctx (sd_reg s))\<rparr> else s)"

definition admit_command :: "SchedEnv \<Rightarrow> u32 \<Rightarrow> Sched \<Rightarrow> bool \<times> Sched" where
  "admit_command ev now_ms s =
     (if \<not> exchange_may_start (air_turn_locked ev s) then (True, s)
      else case sd_cmd_queue s of
          [] \<Rightarrow> (True, s)
        | req # rest \<Rightarrow>
            let s = s\<lparr>sd_cmd_queue := rest\<rparr>
            in if rl_is_pending (cr_dst req) (sd_roll s)
               then (False, publish (SO_CmdRefused (cr_dst req)) (s\<lparr>sd_roll := rl_note_cmd_refused (sd_roll s)\<rparr>))
               else (True, case rg_state (cr_dst req) (sd_reg s) of
                   None \<Rightarrow> s
                 | Some ns \<Rightarrow> (case rg_take_cmd_seq (cr_dst req) (sd_reg s) of
                       (None, reg) \<Rightarrow> s\<lparr>sd_reg := reg\<rparr>
                     | (Some seq, reg) \<Rightarrow> s\<lparr>sd_reg := reg, sd_cmd := snd (cp_submit req (nst_ctx_id ns) seq now_ms (sd_cmd s))\<rparr>)))"

fun commands_from :: "nat \<Rightarrow> SchedEnv \<Rightarrow> u32 \<Rightarrow> Sched \<Rightarrow> Sched" where
  "commands_from 0 ev now_ms s = s"
| "commands_from (Suc n) ev now_ms s =
     (let (st, p) = cp_next now_ms (sd_cmd s); s = s\<lparr>sd_cmd := p\<rparr>
      in case cs_action st of
           CA_None \<Rightarrow> s
         | CA_Resolve \<Rightarrow> commands_from n ev now_ms (publish (SO_CmdAck st) (adopt_if (cs_ctx_adopted st) (cs_dst st) (cs_ctx_id st) s))
         | CA_Send \<Rightarrow>
             let s = adopt_if (cs_ctx_adopted st) (cs_dst st) (cs_ctx_id st) s
             in case registry_build_command (ev_mac ev) (sd_reg s) (cs_dst st) (cs_ctx_id st) (cs_seq st) (tx_ver (cs_dst st) (sd_reg s))
                       \<lparr>cmd_cmd = cs_cmd st, cmd_arg = cs_arg st, cmd_arg2 = cs_arg2 st\<rparr> of
                  None \<Rightarrow> s
                | Some bs \<Rightarrow>
                    (case send_tx_awaited (cs_dst st) bs now_ms s of
                       (None, s) \<Rightarrow> s
                     | (Some w, s) \<Rightarrow> s\<lparr>sd_cmd_air := w, sd_cmd := cp_on_sent now_ms (sd_cmd s)\<rparr>))"

definition sched_commands :: "SchedEnv \<Rightarrow> u32 \<Rightarrow> Sched \<Rightarrow> Sched" where
  "sched_commands ev now_ms s =
     (let (go, s) = admit_command ev now_ms s
      in if \<not> go then s
         else let (wait, w, aired) = air_pending ev now_ms (sd_cmd_air s);
                  s = s\<lparr>sd_cmd_air := w, sd_cmd := (case aired of None \<Rightarrow> sd_cmd s | Some ms \<Rightarrow> cp_on_aired ms (sd_cmd s))\<rparr>
              in if wait then s else commands_from 2 ev now_ms s)"

definition admit_roll :: "SchedEnv \<Rightarrow> u32 \<Rightarrow> Sched \<Rightarrow> Sched" where
  "admit_roll ev now_ms s =
     (if \<not> exchange_may_start (air_turn_locked ev s) then s
      else case rl_next_due (sd_roll s) of
          None \<Rightarrow> s
        | Some node \<Rightarrow> (case rg_state node (sd_reg s) of
              None \<Rightarrow> s
            | Some ns \<Rightarrow>
                if nst_ctx_id ns = 0 then s
                else case rg_take_cmd_seq node (sd_reg s) of
                    (None, reg) \<Rightarrow> s\<lparr>sd_reg := reg\<rparr>
                  | (Some seq, reg) \<Rightarrow> s\<lparr>sd_reg := reg, sd_roll := snd (rl_submit node (nst_ctx_id ns) seq now_ms (sd_roll s))\<rparr>))"

fun roll_from :: "nat \<Rightarrow> SchedEnv \<Rightarrow> u32 \<Rightarrow> Sched \<Rightarrow> Sched" where
  "roll_from 0 ev now_ms s = s"
| "roll_from (Suc n) ev now_ms s =
     (let (st, r) = rl_next now_ms (sd_roll s); s = s\<lparr>sd_roll := r\<rparr>
      in case rs_action st of
           RA_None \<Rightarrow> s
         | RA_Resolve \<Rightarrow> roll_from n ev now_ms
             (publish (SO_Roll st) ((adopt_if (rs_outcome st = RO_Rolled) (rs_dst st) (rs_ctx_id st) s)\<lparr>sd_roll_pending := rl_pending r\<rparr>))
         | RA_Send \<Rightarrow>
             (case registry_build_command (ev_mac ev) (sd_reg s) (rs_dst st) (rs_ctx_id st) (rs_seq st) (tx_ver (rs_dst st) (sd_reg s))
                     \<lparr>cmd_cmd = Cmd_RollContext, cmd_arg = kRollContextGuard, cmd_arg2 = 0\<rparr> of
                None \<Rightarrow> s
              | Some bs \<Rightarrow>
                  (case send_tx_awaited (rs_dst st) bs now_ms s of
                     (None, s) \<Rightarrow> s
                   | (Some w, s) \<Rightarrow> s\<lparr>sd_roll_air := w, sd_roll := rl_on_sent now_ms (sd_roll s)\<rparr>)))"

definition sched_roll :: "SchedEnv \<Rightarrow> u32 \<Rightarrow> Sched \<Rightarrow> Sched" where
  "sched_roll ev now_ms s =
     (let s = admit_roll ev now_ms s;
          (wait, w, aired) = air_pending ev now_ms (sd_roll_air s);
          s = s\<lparr>sd_roll_air := w, sd_roll := (case aired of None \<Rightarrow> sd_roll s | Some ms \<Rightarrow> rl_on_aired ms (sd_roll s))\<rparr>
      in if wait then s else roll_from 2 ev now_ms s)"

text \<open>
  \<open>sched_config\<close>: a queued job, or else the readback of one node that reported a change. A job for
  the whole fleet's PHY settings goes to the PHY change and is not part of the queue here.
\<close>

definition first_changed :: "u32 \<Rightarrow> nat option" where
  "first_changed m = List.find (\<lambda>i. m AND node_bit (fst (kNodeTable ! i)) \<noteq> 0) [0..<kNodeCount]"

definition admit_config :: "SchedEnv \<Rightarrow> u32 \<Rightarrow> Sched \<Rightarrow> Sched" where
  "admit_config ev now_ms s =
     (if \<not> exchange_may_start (air_turn_locked ev s) \<or> ev_phy_waiting ev then s
      else case sd_cfg_queue s of
          job # rest \<Rightarrow>
            let s = s\<lparr>sd_cfg_queue := rest\<rparr>;
                (seq, reg) = rg_take_cmd_seq (cj_dst job) (sd_reg s); s = s\<lparr>sd_reg := reg\<rparr>
            in (case (seq, rg_state (cj_dst job) (sd_reg s)) of
                  (Some q, Some ns) \<Rightarrow>
                    let (started, p) = cfp_submit job (nst_ctx_id ns) q now_ms (sd_cfg s); s = s\<lparr>sd_cfg := p\<rparr>
                    in if started then s else s\<lparr>sd_cfg_queue := job # sd_cfg_queue s\<rparr>
                | _ \<Rightarrow> s)
        | [] \<Rightarrow>
            (case first_changed (sd_cfg_change s) of
               None \<Rightarrow> s
             | Some i \<Rightarrow>
                 let node = fst (kNodeTable ! i);
                     (started, p) = cfp_submit ((ConfigJob_init ())\<lparr>cj_dst := node, cj_readback_only := True\<rparr>) 0 0 now_ms (sd_cfg s)
                 in s\<lparr>sd_cfg := p, sd_cfg_change := (if started then sd_cfg_change s AND NOT (node_bit node) else sd_cfg_change s)\<rparr>))"

fun config_from :: "nat \<Rightarrow> SchedEnv \<Rightarrow> u32 \<Rightarrow> Sched \<Rightarrow> Sched" where
  "config_from 0 ev now_ms s = s"
| "config_from (Suc n) ev now_ms s =
     (let (st, p) = cfp_next now_ms (sd_cfg s); s = s\<lparr>sd_cfg := p\<rparr>;
          queue = (\<lambda>bs s. case send_tx_awaited (cfs_dst st) bs now_ms s of
              (None, s) \<Rightarrow> s
            | (Some w, s) \<Rightarrow> s\<lparr>sd_cfg_air := w, sd_cfg := cfp_on_sent now_ms (sd_cfg s)\<rparr>)
      in case cfs_action st of
           CF_None \<Rightarrow> s
         | CF_Resolve \<Rightarrow> config_from n ev now_ms (publish (SO_Config st) s)
         | CF_RequestReadback \<Rightarrow>
             (case rg_state (cfs_dst st) (sd_reg s) of
                None \<Rightarrow> s
              | Some ns \<Rightarrow>
                  let (seq, ps) = ps_take_poll_seq (sd_polls s); s = s\<lparr>sd_polls := ps\<rparr>
                  in case the_frame (build_poll_frame (cfs_dst st) (nst_ctx_id ns) seq (node_tx_ver ns)
                                       (kPollFlagFullStatus OR kPollFlagConfigReadback) tx_buf) of
                       None \<Rightarrow> s | Some bs \<Rightarrow> queue bs s)
         | CF_SendConfig \<Rightarrow>
             (case cfs_payload st of
                None \<Rightarrow> s
              | Some cfg \<Rightarrow>
                  (case registry_build_config (ev_mac ev) (sd_reg s) (cfs_dst st) (cfs_ctx_id st) (cfs_seq st)
                          (tx_ver (cfs_dst st) (sd_reg s)) cfg of
                     None \<Rightarrow> s | Some bs \<Rightarrow> queue bs s)))"

definition sched_config :: "SchedEnv \<Rightarrow> u32 \<Rightarrow> Sched \<Rightarrow> Sched" where
  "sched_config ev now_ms s =
     (let s = admit_config ev now_ms s;
          (wait, w, aired) = air_pending ev now_ms (sd_cfg_air s);
          s = s\<lparr>sd_cfg_air := w, sd_cfg := (case aired of None \<Rightarrow> sd_cfg s | Some ms \<Rightarrow> cfp_on_aired ms (sd_cfg s))\<rparr>
      in if wait then s else config_from 4 ev now_ms s)"

text \<open>\<open>sched_hex\<close>: the arms that lapsed, then an operator's request or else the next register to read back.\<close>

fun expire_arms :: "u32 \<Rightarrow> nat \<Rightarrow> Sched \<Rightarrow> Sched" where
  "expire_arms now_ms 0 s = s"
| "expire_arms now_ms (Suc n) s =
     (let s = expire_arms now_ms n s; (lapsed, w) = wa_expire now_ms (sd_arm_timeout_s s) (sd_arms s ! n);
          s = s\<lparr>sd_arms := (sd_arms s)[n := w]\<rparr>
      in if lapsed \<and> hex_allowed (snd (kNodeTable ! n)) then publish (SO_ArmOff (fst (kNodeTable ! n))) s else s)"

definition submit_hex :: "HexRequest \<Rightarrow> u32 \<Rightarrow> Sched \<Rightarrow> Sched" where
  "submit_hex req now_ms s =
     (let write = (classify_hex (hq_hex req) = HC_Write)
      in if write \<and> sd_roll_pending s AND node_bit (hq_dst req) \<noteq> 0 then publish (SO_HexRefused req) s
         else case rg_state (hq_dst req) (sd_reg s) of
             None \<Rightarrow> s
           | Some ns \<Rightarrow>
               if \<not> write then s\<lparr>sd_hex := snd (hp_submit req False (nst_ctx_id ns) 0 now_ms (sd_hex s))\<rparr>
               else case rg_take_cmd_seq (hq_dst req) (sd_reg s) of
                   (None, reg) \<Rightarrow> s\<lparr>sd_reg := reg\<rparr>
                 | (Some seq, reg) \<Rightarrow> s\<lparr>sd_reg := reg, sd_hex := snd (hp_submit req True (nst_ctx_id ns) seq now_ms (sd_hex s))\<rparr>)"

definition admit_hex :: "SchedEnv \<Rightarrow> u32 \<Rightarrow> Sched \<Rightarrow> Sched" where
  "admit_hex ev now_ms s =
     (if ev_phy_waiting ev \<or> \<not> exchange_may_start (air_turn_locked ev s) then s
      else case sd_hex_queue s of
          req # rest \<Rightarrow> submit_hex req now_ms (s\<lparr>sd_hex_queue := rest\<rparr>)
        | [] \<Rightarrow> (case ev_readback ev of None \<Rightarrow> s | Some req \<Rightarrow> submit_hex req now_ms s))"

definition hex_armed :: "u32 \<Rightarrow> Sched \<Rightarrow> bool" where
  "hex_armed now_ms s = (case node_table_index (hq_dst (hp_req (sd_hex s))) of
     None \<Rightarrow> False | Some i \<Rightarrow> wa_is_armed now_ms (sd_arm_timeout_s s) (sd_arms s ! i))"

fun hex_from :: "nat \<Rightarrow> SchedEnv \<Rightarrow> u32 \<Rightarrow> Sched \<Rightarrow> Sched" where
  "hex_from 0 ev now_ms s = s"
| "hex_from (Suc n) ev now_ms s =
     (let (st, p) = hp_next now_ms (hex_armed now_ms s) (sd_hex s); s = s\<lparr>sd_hex := p\<rparr>
      in case hs_action st of
           HA_None \<Rightarrow> s
         | HA_Resolve \<Rightarrow> hex_from n ev now_ms
             (publish (SO_Hex (hp_req p) st (hp_rsp p)) (adopt_if (hs_ctx_adopted st) (hs_dst st) (hs_ctx_id st) s))
         | HA_Send \<Rightarrow>
             let s = adopt_if (hs_ctx_adopted st) (hs_dst st) (hs_ctx_id st) s
             in case registry_build_hex_req (ev_mac ev) (sd_reg s) (hs_dst st) (hs_ctx_id st) (hs_seq st)
                       (tx_ver (hs_dst st) (sd_reg s)) (hq_hex (hp_req p)) of
                  None \<Rightarrow> s
                | Some bs \<Rightarrow>
                    (case send_tx_awaited (hs_dst st) bs now_ms s of
                       (None, s) \<Rightarrow> s
                     | (Some w, s) \<Rightarrow> s\<lparr>sd_hex_air := w, sd_hex := hp_on_sent now_ms (sd_hex s)\<rparr>))"

definition sched_hex :: "SchedEnv \<Rightarrow> u32 \<Rightarrow> Sched \<Rightarrow> Sched" where
  "sched_hex ev now_ms s =
     (let s = admit_hex ev now_ms (expire_arms now_ms kNodeCount s);
          (wait, w, aired) = air_pending ev now_ms (sd_hex_air s);
          s = s\<lparr>sd_hex_air := w, sd_hex := (case aired of None \<Rightarrow> sd_hex s | Some ms \<Rightarrow> hp_on_aired ms (sd_hex s))\<rparr>
      in if wait then s else hex_from 2 ev now_ms s)"

text \<open>
  \<open>sched_echo\<close>: as many frames as the queue takes, the first only when the air is free. The loop
  ends with the queue, whose free places bound it.
\<close>

fun echo_from :: "nat \<Rightarrow> SchedEnv \<Rightarrow> u32 \<Rightarrow> Sched \<Rightarrow> Sched" where
  "echo_from 0 ev now_ms s = s"
| "echo_from (Suc n) ev now_ms s =
     (if length (sd_tx s) \<ge> kTxQueueDepth \<or> \<not> pe_frames_left (sd_echo s) then s
      else if \<not> pe_started (sd_echo s) \<and> \<not> exchange_may_start ((air_turn_locked ev s)\<lparr>at_echo_busy := False\<rparr>) then s
      else case pe_encode_next tx_buf (sd_echo s) of
          None \<Rightarrow> s\<lparr>sd_echo := pe_finish (sd_echo s)\<rparr>
        | Some bs \<Rightarrow>
            if pe_at_last (sd_echo s) then
              (case send_tx_awaited (h_dst (pe_reply (sd_echo s))) bs now_ms s of
                 (None, s) \<Rightarrow> s
               | (Some w, s) \<Rightarrow> s\<lparr>sd_echo_air := w, sd_echo := pe_advance (sd_echo s)\<rparr>)
            else let (ok, s) = send_tx (h_dst (pe_reply (sd_echo s))) 0 bs s
                 in if \<not> ok then s else echo_from n ev now_ms (s\<lparr>sd_echo := pe_advance (sd_echo s)\<rparr>))"

definition sched_echo :: "SchedEnv \<Rightarrow> u32 \<Rightarrow> Sched \<Rightarrow> Sched" where
  "sched_echo ev now_ms s =
     (let (wait, w, aired) = air_pending ev now_ms (sd_echo_air s);
          s = s\<lparr>sd_echo_air := w, sd_echo := (case aired of None \<Rightarrow> sd_echo s | Some ms \<Rightarrow> pe_finish (sd_echo s))\<rparr>
      in if wait then s else echo_from (Suc kTxQueueDepth) ev now_ms s)"

section \<open>Configuration jobs\<close>

definition queue_config_job :: "unit ConfigJob \<Rightarrow> Sched \<Rightarrow> bool \<times> Sched" where
  "queue_config_job job s = (if length (sd_cfg_queue s) \<ge> kConfigQueueDepth then (False, s)
     else (True, s\<lparr>sd_cfg_queue := sd_cfg_queue s @ [job]\<rparr>))"

definition roll_pending_for :: "NodeId \<Rightarrow> Sched \<Rightarrow> bool" where
  "roll_pending_for node s \<longleftrightarrow> sd_roll_pending s AND node_bit node \<noteq> 0"

text \<open>
  The half of \<open>handle_config_set\<close> that goes to a node: refused whole while the node's roll is pending,
  else queued. A request that would queue nothing for the node (\<open>config_set_reaches_node\<close>) makes no job.
\<close>

definition queue_node_half :: "unit ConfigJob \<Rightarrow> Sched \<Rightarrow> Sched" where
  "queue_node_half job s = (if roll_pending_for (cj_dst job) s then publish (SO_CfgRefused (cj_dst job)) s
     else snd (queue_config_job job s))"

text \<open>The readback an abandoned PHY change owes, queued by \<open>sched_phy\<close> whether or not the roll is pending.\<close>

definition phy_readback_job :: "NodeId \<Rightarrow> unit ConfigJob" where
  "phy_readback_job dst = (ConfigJob_init ())\<lparr>cj_dst := dst, cj_op := CO_GetAll, cj_config := \<lparr>nc_op = CO_GetAll, nc_entries = []\<rparr>\<rparr>"

definition queue_phy_readback :: "NodeId \<Rightarrow> Sched \<Rightarrow> Sched" where
  "queue_phy_readback dst s = snd (queue_config_job (phy_readback_job dst) s)"

section \<open>What app\_task hands over\<close>

record RxMessage =
  rm_hdr :: Header
  rm_payload :: bytes
  rm_frag_chunk :: u8
  rm_rssi_dbm :: i16
  rm_snr_db :: i8
  rm_rx_millis :: u32
  rm_dummy :: bool

definition sched_on_heard :: "NodeId \<Rightarrow> u32 \<Rightarrow> Sched \<Rightarrow> Sched" where
  "sched_on_heard src now_ms s =
     s\<lparr>sd_polls := snd (ps_on_heard src now_ms (sd_polls s)), sd_roll := rl_on_heard src (sd_roll s)\<rparr>"

definition cmd_on_ack :: "RxMessage \<Rightarrow> Sched \<Rightarrow> Sched" where
  "cmd_on_ack msg s =
     (case deserialize_CommandAck (rm_payload msg) of
        Inl st \<Rightarrow> s
      | Inr ack \<Rightarrow>
          let src = h_src (rm_hdr msg); ctx = h_ctx_id (rm_hdr msg); t = rm_rx_millis msg;
              (claimed, r) = rl_on_ack src ack ctx t (sd_roll s); s = s\<lparr>sd_roll := r\<rparr>
          in if claimed then s
             else let (claimed, h) = hp_on_ack src ack ctx t (sd_hex s); s = s\<lparr>sd_hex := h\<rparr>
                  in if claimed then s else s\<lparr>sd_cmd := cp_on_ack src ack ctx t (sd_cmd s)\<rparr>)"

text \<open>The PHY change, outside the model, may claim the answer first.\<close>

definition config_on_ack :: "bool \<Rightarrow> RxMessage \<Rightarrow> Sched \<Rightarrow> Sched" where
  "config_on_ack phy_claims msg s =
     (case deserialize_NodeConfigAckV1 (rm_payload msg) of
        Inl st \<Rightarrow> s
      | Inr ack \<Rightarrow> if phy_claims then s
                  else s\<lparr>sd_cfg := cfp_on_config_ack () (h_src (rm_hdr msg)) ack (h_seq (rm_hdr msg)) (rm_rx_millis msg) (sd_cfg s)\<rparr>)"

definition hex_on_rsp :: "RxMessage \<Rightarrow> Sched \<Rightarrow> Sched" where
  "hex_on_rsp msg s =
     (case deserialize_HexRsp (rm_payload msg) of
        Inl st \<Rightarrow> s
      | Inr rsp \<Rightarrow> s\<lparr>sd_hex := snd (hp_on_rsp (h_src (rm_hdr msg)) (h_seq (rm_hdr msg)) rsp (sd_hex s))\<rparr>)"

definition echo_on_ping :: "RxMessage \<Rightarrow> Sched \<Rightarrow> Sched" where
  "echo_on_ping msg s = s\<lparr>sd_echo := snd (pe_offer (rm_hdr msg) (Some (rm_payload msg)) (rm_frag_chunk msg) (sd_echo s))\<rparr>"

text \<open>
  A STATUS: a changed configuration, a reboot or a first hearing each owe a readback of the node.
\<close>

definition owe_readback :: "bool \<Rightarrow> NodeId \<Rightarrow> Sched \<Rightarrow> Sched" where
  "owe_readback b node s = (if b then s\<lparr>sd_cfg_change := sd_cfg_change s OR node_bit node\<rparr> else s)"

definition app_status :: "RxMessage \<Rightarrow> Sched \<Rightarrow> Sched" where
  "app_status msg s =
     (let h = rm_hdr msg; src = h_src h;
          s = owe_readback (status_reports_config_change h (rm_payload msg)) src s;
          (rebooted, w) = rw_on_status h (rm_payload msg) (rm_rx_millis msg) (sd_watch s);
          first = (\<not> rw_heard src (sd_watch s) \<and> rw_heard src w)
      in owe_readback (rebooted \<or> first) src (s\<lparr>sd_watch := w\<rparr>))"

text \<open>
  A turn of \<open>app_task\<close>, less the documents the publication policy makes of a STATUS or an EVENT. A
  message made on the console goes to that policy alone.
\<close>

definition app_message :: "bool \<Rightarrow> RxMessage \<Rightarrow> Sched \<Rightarrow> Sched" where
  "app_message phy_claims msg s =
     (if rm_dummy msg then s
      else let h = rm_hdr msg;
          s = s\<lparr>sd_reg := snd (rg_observe h (rm_rssi_dbm msg) (rm_snr_db msg) (rm_rx_millis msg) (sd_reg s))\<rparr>;
          s = sched_on_heard (h_src h) (rm_rx_millis msg) s;
          s = (if h_type h = MT_CommandAck then cmd_on_ack msg s else s);
          s = (if h_type h = MT_ConfigAck then config_on_ack phy_claims msg s else s);
          s = (if h_type h = MT_HexRsp then hex_on_rsp msg s else s);
          s = (if h_type h = MT_Ping then echo_on_ping msg s else s)
      in if h_type h = MT_Status then app_status msg s else s)"

end
