(* ===== verification/BridgeSchedCorrect.thy ===== *)
theory BridgeSchedCorrect
  imports BridgeSched
begin

text \<open>
  What the scheduling task keeps, over every interleaving of its senders with the frames
  \<open>app_task\<close> hands over and the requests \<open>mqtt_task\<close> queues: one exchange on the air at a time, and
  nothing authenticated but the roll itself to a node whose context roll is pending.
\<close>

section \<open>Masks\<close>

definition mask_le :: "u32 \<Rightarrow> u32 \<Rightarrow> bool" where
  "mask_le a b \<longleftrightarrow> (\<forall>n. bit a n \<longrightarrow> bit b n)"

lemma mask_le_refl [simp]: "mask_le a a"
  by (simp add: mask_le_def)

lemma mask_le_trans: "mask_le a b \<Longrightarrow> mask_le b c \<Longrightarrow> mask_le a c"
  by (simp add: mask_le_def)

lemma mask_le_and [simp]: "mask_le (a AND c) a"
  by (simp add: mask_le_def bit_and_iff)

lemma mask_le_test: "mask_le a b \<Longrightarrow> b AND m = 0 \<Longrightarrow> a AND m = 0"
  by (metis (no_types, lifting) bit_and_iff mask_le_def word_eq_0_bits)

section \<open>The machines\<close>

lemma cp_busy_keeps [simp]:
  "cp_busy (cp_on_sent t p) = cp_busy p" "cp_busy (cp_on_aired t p) = cp_busy p" "cp_busy (cp_on_ack src ack ctx t p) = cp_busy p"
  "cp_req (cp_on_sent t p) = cp_req p" "cp_req (cp_on_aired t p) = cp_req p" "cp_req (cp_on_ack src ack ctx t p) = cp_req p"
  by (auto simp: cp_busy_def cp_on_sent_def cp_on_aired_def cp_on_ack_def cp_count_def)

lemma cp_next_keeps:
  "cp_next t p = (st, p') \<Longrightarrow> (cp_busy p' \<longrightarrow> cp_busy p) \<and> cp_req p' = cp_req p"
  by (auto simp: cp_next_def cp_close_window_def cp_busy_def cp_count_def Let_def split: PathPhase.splits if_splits)

lemma rl_count_sel [simp]: "rl_phase (rl_count f r) = rl_phase r" "rl_pending (rl_count f r) = rl_pending r"
  by (simp_all add: rl_count_def)

lemma rl_keeps [simp]:
  "rl_busy (rl_on_sent t r) = rl_busy r" "rl_busy (rl_on_aired t r) = rl_busy r" "rl_busy (rl_on_heard i r) = rl_busy r"
  "rl_busy (rl_note_cmd_refused r) = rl_busy r" "rl_busy (snd (rl_on_ack src ack ctx t r)) = rl_busy r"
  "rl_pending (rl_on_sent t r) = rl_pending r" "rl_pending (rl_on_aired t r) = rl_pending r"
  "rl_pending (rl_on_heard i r) = rl_pending r" "rl_pending (rl_note_cmd_refused r) = rl_pending r"
  by (auto simp: rl_busy_def rl_on_sent_def rl_on_aired_def rl_on_heard_def rl_note_cmd_refused_def rl_on_ack_def
      rl_resolve_rolled_def rl_resolve_failed_def)

lemma rl_ack_pending: "mask_le (rl_pending (snd (rl_on_ack src ack ctx t r))) (rl_pending r)"
  by (auto simp: rl_on_ack_def rl_resolve_rolled_def rl_resolve_failed_def)

lemma rl_next_keeps:
  "rl_next t r = (st, r') \<Longrightarrow> (rl_busy r' \<longrightarrow> rl_busy r) \<and> rl_pending r' = rl_pending r"
  by (auto simp: rl_next_def rl_close_window_def rl_resolve_failed_def rl_busy_def Let_def split: PathPhase.splits if_splits)

lemma hp_keeps [simp]:
  "hp_busy (hp_on_sent t p) = hp_busy p" "hp_busy (hp_on_aired t p) = hp_busy p"
  "hp_busy (snd (hp_on_rsp src q rsp p)) = hp_busy p" "hp_busy (snd (hp_on_ack src ack ctx t p)) = hp_busy p"
  "hp_req (hp_on_sent t p) = hp_req p" "hp_req (hp_on_aired t p) = hp_req p"
  "hp_req (snd (hp_on_rsp src q rsp p)) = hp_req p" "hp_req (snd (hp_on_ack src ack ctx t p)) = hp_req p"
  "hp_write (hp_on_sent t p) = hp_write p" "hp_write (hp_on_aired t p) = hp_write p"
  "hp_write (snd (hp_on_rsp src q rsp p)) = hp_write p" "hp_write (snd (hp_on_ack src ack ctx t p)) = hp_write p"
  by (auto simp: hp_busy_def hp_on_sent_def hp_on_aired_def hp_on_rsp_def hp_on_ack_def hp_resolve_def hp_count_def)

lemma hp_next_keeps:
  "hp_next t a p = (st, p') \<Longrightarrow> (hp_busy p' \<longrightarrow> hp_busy p) \<and> hp_req p' = hp_req p \<and> hp_write p' = hp_write p"
  by (auto simp: hp_next_def hp_gate2_def hp_close_window_def hp_resolve_def hp_count_def hp_busy_def Let_def
      split: PathPhase.splits if_splits)

text \<open>
  A CONFIG of the bridge is on its way or waits to be; more generally a configuration exchange the
  bridge asked for runs, and an echo is going out.
\<close>

definition config_live :: "unit ConfigPath \<Rightarrow> bool" where
  "config_live p \<longleftrightarrow> cfp_phase p = CPh_SendDue \<or> cfp_phase p = CPh_AwaitingAck"

definition config_asked :: "unit ConfigPath \<Rightarrow> bool" where
  "config_asked p \<longleftrightarrow> cfp_busy p \<and> \<not> cfp_unsolicited p"

definition echo_out :: "PingEcho \<Rightarrow> bool" where
  "echo_out e \<longleftrightarrow> pe_active e \<and> pe_started e"

lemma echo_keeps: "echo_out (snd (pe_offer h bs c e)) \<Longrightarrow> echo_out e" "\<not> echo_out (pe_finish e)"
  by (auto simp: echo_out_def pe_offer_def pe_started_def pe_count_def pe_finish_def Let_def split: option.splits sum.splits if_splits)

lemma cfp_unsolicited_keeps [simp]:
  "cfp_unsolicited (cfp_count f p) = cfp_unsolicited p" "cfp_unsolicited (cfp_first t p) = cfp_unsolicited p"
  by (simp_all add: cfp_count_def cfp_first_def)

lemma cfp_stage_keeps [simp]:
  "cfp_unsolicited (stage_entries es p) = cfp_unsolicited p"
  "cfp_phase (stage_entries es p) = cfp_phase p" "cfp_job (stage_entries es p) = cfp_job p"
  by (induction es p rule: stage_entries.induct) auto

lemma cfp_keeps [simp]:
  "config_asked (cfp_on_sent t p) = config_asked p" "config_asked (cfp_on_aired t p) = config_asked p"
  "config_live (cfp_on_sent t p) = config_live p" "config_live (cfp_on_aired t p) = config_live p"
  "cfp_job (cfp_on_sent t p) = cfp_job p" "cfp_job (cfp_on_aired t p) = cfp_job p"
  by (auto simp: config_live_def config_asked_def cfp_busy_def cfp_on_sent_def cfp_on_aired_def Let_def)

lemma cfp_ack_keeps:
  "config_live (cfp_on_config_ack u src ack q t p) \<Longrightarrow> config_live p \<and> cfp_job (cfp_on_config_ack u src ack q t p) = cfp_job p"
  by (auto simp: config_live_def cfp_on_config_ack_def cfp_unsolicited_start_def cfp_take_def cfp_ignore_def cfp_finish_def
      Let_def split: if_splits)

lemma cfp_ack_asked: "config_asked (cfp_on_config_ack u src ack q t p) \<Longrightarrow> config_asked p"
  by (auto simp: config_asked_def cfp_busy_def cfp_on_config_ack_def cfp_unsolicited_start_def cfp_take_def cfp_ignore_def
      cfp_finish_def Let_def split: if_splits)

lemma cfp_next_keeps:
  "cfp_next t p = (st, p') \<Longrightarrow> (config_asked p' \<longrightarrow> config_asked p) \<and> (config_live p' \<longrightarrow> config_live p) \<and> cfp_job p' = cfp_job p"
  by (auto simp: config_live_def config_asked_def cfp_busy_def cfp_next_def Let_def split: ConfigPhase.splits if_splits)

lemma ps_row_outstanding [simp]: "ps_outstanding (ps_row i f s) = ps_outstanding s"
  by (simp add: ps_row_def)

lemma ps_keeps [simp]:
  "ps_outstanding (snd (ps_take_poll_seq s)) = ps_outstanding s" "ps_outstanding (ps_retime n i s) = ps_outstanding s"
  "ps_outstanding (ps_enrol n s) = ps_outstanding s" "ps_outstanding (ps_set_reply_timeout_ms ms s) = ps_outstanding s"
  by (simp_all add: ps_take_poll_seq_def ps_retime_def ps_enrol_def ps_set_reply_timeout_ms_def split: option.split)

lemma ps_heard_keeps: "ps_outstanding (snd (ps_on_heard n t s)) \<Longrightarrow> ps_outstanding s"
  by (auto simp: ps_on_heard_def Let_def split: option.splits if_splits)

lemma ps_next_keeps:
  "ps_next t may s = (st, s') \<Longrightarrow> (ps_outstanding s' \<longrightarrow> ps_outstanding s) \<and>
     (pl_action st = PA_Poll \<longrightarrow> may \<and> \<not> ps_outstanding s')"
  by (auto simp: ps_next_def split: option.splits if_splits prod.splits)

section \<open>Calm changes\<close>

definition pending_at :: "Sched \<Rightarrow> NodeId \<Rightarrow> bool" where
  "pending_at s node \<longleftrightarrow> rl_is_pending node (sd_roll s)"

text \<open>Nothing starts: an exchange that is in flight afterwards was before, and to the same node.\<close>

definition calm :: "Sched \<Rightarrow> Sched \<Rightarrow> bool" where
  "calm s s' \<longleftrightarrow>
     (ps_outstanding (sd_polls s') \<longrightarrow> ps_outstanding (sd_polls s)) \<and>
     (cp_busy (sd_cmd s') \<longrightarrow> cp_busy (sd_cmd s) \<and> cp_req (sd_cmd s') = cp_req (sd_cmd s)) \<and>
     (rl_busy (sd_roll s') \<longrightarrow> rl_busy (sd_roll s)) \<and>
     (hp_busy (sd_hex s') \<longrightarrow> hp_busy (sd_hex s) \<and> hp_req (sd_hex s') = hp_req (sd_hex s) \<and> hp_write (sd_hex s') = hp_write (sd_hex s)) \<and>
     (config_asked (sd_cfg s') \<longrightarrow> config_asked (sd_cfg s)) \<and> (echo_out (sd_echo s') \<longrightarrow> echo_out (sd_echo s)) \<and>
     (config_live (sd_cfg s') \<longrightarrow> config_live (sd_cfg s) \<and> cfp_job (sd_cfg s') = cfp_job (sd_cfg s)) \<and>
     mask_le (rl_pending (sd_roll s')) (rl_pending (sd_roll s)) \<and>
     (mask_le (rl_pending (sd_roll s)) (sd_roll_pending s) \<longrightarrow> mask_le (rl_pending (sd_roll s')) (sd_roll_pending s')) \<and>
     set (sd_cfg_queue s') \<subseteq> set (sd_cfg_queue s)"

lemma calm_refl [simp]: "calm s s"
  by (simp add: calm_def)

lemma calm_trans: "calm s s' \<Longrightarrow> calm s' s'' \<Longrightarrow> calm s s''"
  unfolding calm_def by (intro conjI impI; elim conjE) (simp_all, (blast intro: mask_le_trans)+)

definition exchanges :: "Sched \<Rightarrow> nat" where
  "exchanges s = of_bool (ps_outstanding (sd_polls s)) + of_bool (cp_busy (sd_cmd s)) + of_bool (rl_busy (sd_roll s)) +
     of_bool (hp_busy (sd_hex s)) + of_bool (config_asked (sd_cfg s)) + of_bool (echo_out (sd_echo s))"

text \<open>A CONFIG for a node whose roll is pending asks for its values and changes none.\<close>

definition config_allowed :: "Sched \<Rightarrow> unit ConfigJob \<Rightarrow> bool" where
  "config_allowed s job \<longleftrightarrow> pending_at s (cj_dst job) \<longrightarrow> cj_config job = \<lparr>nc_op = CO_GetAll, nc_entries = []\<rparr>"

definition rolled_first :: "Sched \<Rightarrow> bool" where
  "rolled_first s \<longleftrightarrow>
     (cp_busy (sd_cmd s) \<longrightarrow> \<not> pending_at s (cr_dst (cp_req (sd_cmd s)))) \<and>
     (hp_busy (sd_hex s) \<and> hp_write (sd_hex s) \<longrightarrow> \<not> pending_at s (hq_dst (hp_req (sd_hex s)))) \<and>
     (config_live (sd_cfg s) \<longrightarrow> config_allowed s (cfp_job (sd_cfg s)))"

definition sd_inv :: "Sched \<Rightarrow> bool" where
  "sd_inv s \<longleftrightarrow> exchanges s \<le> 1 \<and> rolled_first s \<and> mask_le (rl_pending (sd_roll s)) (sd_roll_pending s) \<and>
     (\<forall>job \<in> set (sd_cfg_queue s). config_allowed s job)"

lemma calm_pending: "calm s s' \<Longrightarrow> pending_at s' node \<Longrightarrow> pending_at s node"
  unfolding calm_def pending_at_def rl_is_pending_def by (metis mask_le_test)

lemma calm_allowed: "calm s s' \<Longrightarrow> config_allowed s job \<Longrightarrow> config_allowed s' job"
  using calm_pending by (auto simp: config_allowed_def)

lemma calm_inv: "sd_inv s \<Longrightarrow> calm s s' \<Longrightarrow> sd_inv s'"
proof -
  assume i: "sd_inv s" and c: "calm s s'"
  have "exchanges s' \<le> exchanges s" using c by (auto simp: exchanges_def calm_def)
  moreover have "rolled_first s'"
    using i c calm_pending [OF c] calm_allowed [OF c] unfolding sd_inv_def rolled_first_def calm_def by (metis (no_types, lifting))
  ultimately show ?thesis using i c calm_allowed [OF c] unfolding sd_inv_def calm_def by (meson order_trans subsetD)
qed

section \<open>Queueing and publishing\<close>

lemma send_awaited_frame: "send_tx_awaited d bs t s = (w, s') \<Longrightarrow> \<exists>k q. s' = s\<lparr>sd_ticket := k, sd_tx := q\<rparr>"
proof -
  assume "send_tx_awaited d bs t s = (w, s')"
  then have "s' = s\<lparr>sd_ticket := sd_ticket s', sd_tx := sd_tx s'\<rparr>"
    by (auto simp: send_tx_awaited_def send_tx_def Let_def split: if_splits prod.splits)
  then show ?thesis by blast
qed

lemma send_frame: "send_tx d k bs s = (ok, s') \<Longrightarrow> \<exists>q. s' = s\<lparr>sd_tx := q\<rparr>"
proof -
  assume "send_tx d k bs s = (ok, s')"
  then have "s' = s\<lparr>sd_tx := sd_tx s'\<rparr>" by (auto simp: send_tx_def split: if_splits)
  then show ?thesis by blast
qed

lemma calm_publish [simp]: "calm s (publish x s)"
  by (simp add: calm_def publish_def)

lemma calm_adopt [simp]: "calm s (adopt_if b d c s)"
  by (simp add: calm_def adopt_if_def)

lemma calm_tx: "calm s (s\<lparr>sd_ticket := k, sd_tx := q\<rparr>)"
  by (simp add: calm_def)

lemma calm_cmd:
  "cp_busy p \<longrightarrow> cp_busy (sd_cmd s) \<Longrightarrow> cp_req p = cp_req (sd_cmd s) \<Longrightarrow> calm s (s\<lparr>sd_cmd_air := w, sd_cmd := p\<rparr>)"
  by (simp add: calm_def)

lemma calm_roll:
  "rl_busy r \<longrightarrow> rl_busy (sd_roll s) \<Longrightarrow> mask_le (rl_pending r) (rl_pending (sd_roll s)) \<Longrightarrow> calm s (s\<lparr>sd_roll_air := w, sd_roll := r\<rparr>)"
  by (auto simp: calm_def intro: mask_le_trans)

lemma calm_hex:
  "hp_busy p \<longrightarrow> hp_busy (sd_hex s) \<Longrightarrow> hp_req p = hp_req (sd_hex s) \<Longrightarrow> hp_write p = hp_write (sd_hex s) \<Longrightarrow>
   calm s (s\<lparr>sd_hex_air := w, sd_hex := p\<rparr>)"
  by (simp add: calm_def)

lemma calm_cfg:
  "config_asked p \<longrightarrow> config_asked (sd_cfg s) \<Longrightarrow> config_live p \<longrightarrow> config_live (sd_cfg s) \<and> cfp_job p = cfp_job (sd_cfg s) \<Longrightarrow> calm s (s\<lparr>sd_cfg_air := w, sd_cfg := p\<rparr>)"
  by (simp add: calm_def)

lemma calm_polls: "ps_outstanding p \<longrightarrow> ps_outstanding (sd_polls s) \<Longrightarrow> calm s (s\<lparr>sd_polls := p\<rparr>)"
  by (simp add: calm_def)

lemma calm_echo: "echo_out e \<longrightarrow> echo_out (sd_echo s) \<Longrightarrow> calm s (s\<lparr>sd_echo_air := w, sd_echo := e\<rparr>)"
  by (simp add: calm_def)

lemma calm_reg: "calm s (s\<lparr>sd_reg := r\<rparr>)"
  by (simp add: calm_def)

text \<open>The same with the wait left as it is.\<close>

lemma same_air [simp]:
  "s\<lparr>sd_cmd_air := sd_cmd_air s, sd_cmd := p\<rparr> = s\<lparr>sd_cmd := p\<rparr>" "s\<lparr>sd_roll_air := sd_roll_air s, sd_roll := r\<rparr> = s\<lparr>sd_roll := r\<rparr>"
  "s\<lparr>sd_hex_air := sd_hex_air s, sd_hex := h\<rparr> = s\<lparr>sd_hex := h\<rparr>" "s\<lparr>sd_cfg_air := sd_cfg_air s, sd_cfg := c\<rparr> = s\<lparr>sd_cfg := c\<rparr>"
  "s\<lparr>sd_echo_air := sd_echo_air s, sd_echo := e\<rparr> = s\<lparr>sd_echo := e\<rparr>"
  by simp_all

section \<open>Each sender\<close>

lemma calm_awaited:
  assumes "send_tx_awaited d bs t s = (w, s')"
  shows "calm s s'" "sd_cmd s' = sd_cmd s" "sd_roll s' = sd_roll s" "sd_hex s' = sd_hex s" "sd_cfg s' = sd_cfg s"
  using send_awaited_frame [OF assms] calm_tx by auto

text \<open>Building a frame and queueing it, as every sender does.\<close>

lemma calm_send:
  assumes "calm s s1" "\<And>bs w s2. calm s1 s2 \<Longrightarrow> send_tx_awaited d bs t s1 = (Some w, s2) \<Longrightarrow> calm s2 (k w s2)"
  shows "calm s (case frame of None \<Rightarrow> s1
    | Some bs \<Rightarrow> (case send_tx_awaited d bs t s1 of (None, s2) \<Rightarrow> s2 | (Some w, s2) \<Rightarrow> k w s2))"
proof (cases frame)
  case (Some bs)
  obtain w s2 where q: "send_tx_awaited d bs t s1 = (w, s2)" by fastforce
  note c = calm_awaited(1) [OF q]
  show ?thesis using assms(2) [OF c, of bs] c assms(1) Some q by (auto split: option.split intro: calm_trans)
qed (simp add: assms(1))

lemma commands_from_calm: "calm s (commands_from n ev t s)"
proof (induction n arbitrary: s)
  case (Suc n)
  obtain st p where n: "cp_next t (sd_cmd s) = (st, p)" by fastforce
  define s1 where "s1 = s\<lparr>sd_cmd := p\<rparr>"
  define s2 where "s2 = adopt_if (cs_ctx_adopted st) (cs_dst st) (cs_ctx_id st) s1"
  have c1: "calm s s1" using cp_next_keeps [OF n] calm_cmd [of p s "sd_cmd_air s"] by (simp add: s1_def)
  have c2: "calm s s2" unfolding s2_def by (rule calm_trans [OF c1 calm_adopt])
  have "calm s (commands_from n ev t (publish (SO_CmdAck st) s2))"
    by (rule calm_trans [OF calm_trans [OF c2 calm_publish] Suc])
  moreover have "calm s (case frame of None \<Rightarrow> s2
    | Some bs \<Rightarrow> (case send_tx_awaited (cs_dst st) bs t s2 of (None, s) \<Rightarrow> s
        | (Some w, s) \<Rightarrow> s\<lparr>sd_cmd_air := w, sd_cmd := cp_on_sent t (sd_cmd s)\<rparr>))" for frame
    by (rule calm_send [OF c2]) (rule calm_cmd, simp_all)
  ultimately show ?case using c1 unfolding s1_def s2_def
    by (simp add: n Let_def split: CmdAction.split)
qed simp

lemma roll_from_calm: "calm s (roll_from n ev t s)"
proof (induction n arbitrary: s)
  case (Suc n)
  obtain st r where n: "rl_next t (sd_roll s) = (st, r)" by fastforce
  define s1 where "s1 = s\<lparr>sd_roll := r\<rparr>"
  define s2 where "s2 = (adopt_if (rs_outcome st = RO_Rolled) (rs_dst st) (rs_ctx_id st) s1)\<lparr>sd_roll_pending := rl_pending r\<rparr>"
  note k = rl_next_keeps [OF n]
  have c1: "calm s s1" using k calm_roll [of r s "sd_roll_air s"] by (simp add: s1_def)
  have "calm s1 s2" by (auto simp: s2_def s1_def adopt_if_def calm_def)
  then have "calm s (roll_from n ev t (publish (SO_Roll st) s2))"
    by (rule calm_trans [OF calm_trans [OF calm_trans [OF c1] calm_publish] Suc])
  moreover have "calm s (case frame of None \<Rightarrow> s1
    | Some bs \<Rightarrow> (case send_tx_awaited (rs_dst st) bs t s1 of (None, s) \<Rightarrow> s
        | (Some w, s) \<Rightarrow> s\<lparr>sd_roll_air := w, sd_roll := rl_on_sent t (sd_roll s)\<rparr>))" for frame
    by (rule calm_send [OF c1]) (rule calm_roll, simp_all)
  ultimately show ?case using c1 unfolding s1_def s2_def
    by (simp add: n Let_def split: RollAction.split)
qed simp

lemma hex_from_calm: "calm s (hex_from n ev t s)"
proof (induction n arbitrary: s)
  case (Suc n)
  obtain st p where n: "hp_next t (hex_armed t s) (sd_hex s) = (st, p)" by fastforce
  define s1 where "s1 = s\<lparr>sd_hex := p\<rparr>"
  define s2 where "s2 = adopt_if (hs_ctx_adopted st) (hs_dst st) (hs_ctx_id st) s1"
  have c1: "calm s s1" using hp_next_keeps [OF n] calm_hex [of p s "sd_hex_air s"] by (simp add: s1_def)
  have c2: "calm s s2" unfolding s2_def by (rule calm_trans [OF c1 calm_adopt])
  have "calm s (hex_from n ev t (publish (SO_Hex (hp_req p) st (hp_rsp p)) s2))"
    by (rule calm_trans [OF calm_trans [OF c2 calm_publish] Suc])
  moreover have "calm s (case frame of None \<Rightarrow> s2
    | Some bs \<Rightarrow> (case send_tx_awaited (hs_dst st) bs t s2 of (None, s) \<Rightarrow> s
        | (Some w, s) \<Rightarrow> s\<lparr>sd_hex_air := w, sd_hex := hp_on_sent t (sd_hex s)\<rparr>))" for frame
    by (rule calm_send [OF c2]) (rule calm_hex, simp_all)
  ultimately show ?case using c1 unfolding s1_def s2_def
    by (simp add: n Let_def split: HexAction.split)
qed simp

lemma config_from_calm: "calm s (config_from n ev t s)"
proof (induction n arbitrary: s)
  case (Suc n)
  obtain st p where n: "cfp_next t (sd_cfg s) = (st, p)" by fastforce
  define s1 where "s1 = s\<lparr>sd_cfg := p\<rparr>"
  obtain sq ps where tk: "ps_take_poll_seq (sd_polls s) = (sq, ps)" by fastforce
  define s2 where "s2 = s1\<lparr>sd_polls := ps\<rparr>"
  have c1: "calm s s1" using cfp_next_keeps [OF n] calm_cfg [of p s "sd_cfg_air s"] by (simp add: s1_def)
  have "ps_outstanding ps = ps_outstanding (sd_polls s1)"
    using ps_keeps(1) [of "sd_polls s"] by (simp add: tk s1_def)
  then have c2: "calm s s2" unfolding s2_def by (intro calm_trans [OF c1 calm_polls]) simp
  have "calm s (config_from n ev t (publish (SO_Config st) s1))"
    by (rule calm_trans [OF calm_trans [OF c1 calm_publish] Suc])
  moreover have q: "calm s (case frame of None \<Rightarrow> x
    | Some bs \<Rightarrow> (case send_tx_awaited (cfs_dst st) bs t x of (None, s) \<Rightarrow> s
        | (Some w, s) \<Rightarrow> s\<lparr>sd_cfg_air := w, sd_cfg := cfp_on_sent t (sd_cfg s)\<rparr>))" if "calm s x" for frame x
    by (rule calm_send [OF that]) (rule calm_cfg, simp_all)
  ultimately show ?case
  proof (cases "cfs_action st")
    case CF_RequestReadback
    then show ?thesis using c1 q [OF c2] unfolding s1_def s2_def
      by (cases "rg_state (cfs_dst st) (sd_reg s)") (simp_all add: n tk Let_def)
  next
    case CF_SendConfig
    then show ?thesis using c1 q [OF c1] unfolding s1_def
      by (cases "cfs_payload st") (simp_all add: n Let_def)
  qed (use c1 in \<open>simp_all add: n Let_def s1_def\<close>)
qed simp

text \<open>Before anything starts nothing is in flight, so what starts is alone.\<close>

lemma may_start_idle:
  "exchange_may_start (air_turn_locked ev s) \<Longrightarrow> \<not> ps_outstanding (sd_polls s) \<and> \<not> cp_busy (sd_cmd s) \<and>
     \<not> rl_busy (sd_roll s) \<and> \<not> hp_busy (sd_hex s) \<and> \<not> cfp_busy (sd_cfg s) \<and> \<not> config_asked (sd_cfg s) \<and> \<not> echo_out (sd_echo s)"
  "poll_may_start (air_turn_locked ev s) \<Longrightarrow> \<not> cp_busy (sd_cmd s) \<and> \<not> rl_busy (sd_roll s) \<and> \<not> hp_busy (sd_hex s) \<and>
     \<not> config_asked (sd_cfg s) \<and> \<not> echo_out (sd_echo s)"
  by (simp_all add: exchange_may_start_def poll_may_start_def air_turn_locked_def config_asked_def echo_out_def)

lemma starts_alone:
  "exchange_may_start (air_turn_locked ev s) \<Longrightarrow> sd_inv s \<Longrightarrow> \<not> pending_at s (cr_dst (cp_req p)) \<Longrightarrow>
     sd_inv (s\<lparr>sd_cmd := p\<rparr>)"
  "exchange_may_start (air_turn_locked ev s) \<Longrightarrow> sd_inv s \<Longrightarrow> rl_pending r = rl_pending (sd_roll s) \<Longrightarrow> sd_inv (s\<lparr>sd_roll := r\<rparr>)"
  "exchange_may_start (air_turn_locked ev s) \<Longrightarrow> sd_inv s \<Longrightarrow> (hp_write h \<longrightarrow> \<not> pending_at s (hq_dst (hp_req h))) \<Longrightarrow>
     sd_inv (s\<lparr>sd_hex := h\<rparr>)"
  "exchange_may_start (air_turn_locked ev s) \<Longrightarrow> sd_inv s \<Longrightarrow>
     (config_live c \<longrightarrow> config_allowed s (cfp_job c)) \<Longrightarrow> sd_inv (s\<lparr>sd_cfg := c\<rparr>)"
  using may_start_idle [of ev s]
  by (auto simp: sd_inv_def exchanges_def rolled_first_def config_allowed_def pending_at_def rl_is_pending_def)

lemma may_start_fields:
  "exchange_may_start (air_turn_locked ev (s\<lparr>sd_reg := r\<rparr>)) = exchange_may_start (air_turn_locked ev s)"
  "exchange_may_start (air_turn_locked ev (s\<lparr>sd_cmd_queue := q\<rparr>)) = exchange_may_start (air_turn_locked ev s)"
  "exchange_may_start (air_turn_locked ev (s\<lparr>sd_cfg_queue := j\<rparr>)) = exchange_may_start (air_turn_locked ev s)"
  "exchange_may_start (air_turn_locked ev (s\<lparr>sd_hex_queue := h\<rparr>)) = exchange_may_start (air_turn_locked ev s)"
  by (simp_all add: exchange_may_start_def air_turn_locked_def)

lemma submit_reqs:
  "cp_req (snd (cp_submit req ctx q t p)) = (if cp_busy p then cp_req p else req)"
  "hp_req (snd (hp_submit hr w ctx q t h)) = (if hp_busy h then hp_req h else hr)"
  "hp_write (snd (hp_submit hr w ctx q t h)) = (if hp_busy h then hp_write h else w)"
  "rl_pending (snd (rl_submit i ctx q t r)) = rl_pending r"
  by (auto simp: cp_submit_def cp_busy_def cp_count_def hp_submit_def hp_busy_def hp_count_def rl_submit_def Let_def)

lemma admit_command_inv: "sd_inv s \<Longrightarrow> sd_inv (snd (admit_command ev t s))"
proof (cases "exchange_may_start (air_turn_locked ev s)")
  case may: True
  assume i: "sd_inv s"
  show ?thesis
  proof (cases "sd_cmd_queue s")
    case (Cons req rest)
    define s1 where "s1 = s\<lparr>sd_cmd_queue := rest\<rparr>"
    have i1: "sd_inv s1" by (rule calm_inv [OF i]) (simp add: s1_def calm_def)
    show ?thesis
    proof (cases "rl_is_pending (cr_dst req) (sd_roll s)")
      case True
      have "calm s1 (publish (SO_CmdRefused (cr_dst req)) (s1\<lparr>sd_roll := rl_note_cmd_refused (sd_roll s1)\<rparr>))"
        by (simp add: calm_def publish_def)
      from calm_inv [OF i1 this] True may Cons show ?thesis by (simp add: admit_command_def Let_def s1_def)
    next
      case False
      have "sd_inv (s1\<lparr>sd_reg := reg, sd_cmd := snd (cp_submit req ctx q t (sd_cmd s1))\<rparr>)" for reg ctx q
        using starts_alone(1) [of ev "s1\<lparr>sd_reg := reg\<rparr>"] calm_inv [OF i1 calm_reg [of s1 reg]] may False may_start_idle(1) [OF may]
        by (simp add: may_start_fields s1_def submit_reqs pending_at_def)
      with may Cons False i1 calm_inv [OF i1 calm_reg] show ?thesis
        by (auto simp: admit_command_def Let_def s1_def split: option.split prod.split)
    qed
  qed (simp add: admit_command_def i)
qed (simp add: admit_command_def)

lemma admit_roll_inv: "sd_inv s \<Longrightarrow> sd_inv (admit_roll ev t s)"
proof (cases "exchange_may_start (air_turn_locked ev s)")
  case may: True
  assume i: "sd_inv s"
  have r: "sd_inv (s\<lparr>sd_reg := reg\<rparr>)" for reg by (rule calm_inv [OF i calm_reg])
  have "sd_inv (s\<lparr>sd_reg := reg, sd_roll := snd (rl_submit node ctx q t (sd_roll s))\<rparr>)" for reg node ctx q
    using starts_alone(2) [of ev "s\<lparr>sd_reg := reg\<rparr>"] r may by (simp add: may_start_fields submit_reqs)
  with i r show ?thesis by (auto simp: admit_roll_def split: option.split prod.split)
qed (simp add: admit_roll_def)

lemma submit_hex_inv:
  assumes "sd_inv s" "exchange_may_start (air_turn_locked ev s)"
  shows "sd_inv (submit_hex req t s)"
proof -
  have r: "sd_inv (s\<lparr>sd_reg := reg\<rparr>)" for reg by (rule calm_inv [OF assms(1) calm_reg])
  have idle: "\<not> hp_busy (sd_hex s)" using may_start_idle(1) [OF assms(2)] by simp
  have rd: "sd_inv (s\<lparr>sd_hex := snd (hp_submit req False ctx q t (sd_hex s))\<rparr>)" for ctx q
    by (rule starts_alone(3) [OF assms(2,1)]) (simp add: submit_reqs idle)
  have wr: "sd_inv (s\<lparr>sd_reg := reg, sd_hex := snd (hp_submit req True ctx q t (sd_hex s))\<rparr>)"
    if "sd_roll_pending s AND node_bit (hq_dst req) = 0" for reg ctx q
  proof -
    have "mask_le (rl_pending (sd_roll s)) (sd_roll_pending s)" using assms(1) by (simp add: sd_inv_def)
    with that have "\<not> pending_at s (hq_dst req)" by (auto simp: pending_at_def rl_is_pending_def dest: mask_le_test)
    with starts_alone(3) [of ev "s\<lparr>sd_reg := reg\<rparr>"] r assms(2) idle show ?thesis
      by (simp add: may_start_fields submit_reqs pending_at_def)
  qed
  show ?thesis
    using calm_inv [OF assms(1) calm_publish] r rd wr assms(1)
    by (auto simp: submit_hex_def Let_def split: option.split prod.split)
qed

lemma expire_arms_calm: "calm s (expire_arms t n s)"
proof (induction n)
  case (Suc n)
  have "calm u (u\<lparr>sd_arms := x\<rparr>)" "calm u (publish y (u\<lparr>sd_arms := x\<rparr>))" for u x y
    by (simp_all add: calm_def publish_def)
  with calm_trans [OF Suc] show ?case by (simp add: Let_def split: prod.split)
qed simp

lemma admit_hex_inv: "sd_inv s \<Longrightarrow> sd_inv (admit_hex ev t s)"
proof (cases "exchange_may_start (air_turn_locked ev s)")
  case may: True
  assume i: "sd_inv s"
  have "sd_inv (s\<lparr>sd_hex_queue := q\<rparr>)" for q by (rule calm_inv [OF i]) (simp add: calm_def)
  with submit_hex_inv [of _ ev] i may show ?thesis
    by (auto simp: admit_hex_def may_start_fields split: list.split option.split)
qed (simp add: admit_hex_def)

lemma cfg_submit_job:
  "cfp_submit job ctx q t p = (ok, p') \<Longrightarrow> \<not> cfp_busy p \<Longrightarrow>
     ok \<and> (config_live p' \<longrightarrow> \<not> cj_readback_only job \<and> cfp_job p' = job)"
  by (auto simp: cfp_submit_def cfp_busy_def config_live_def split: if_splits)

lemma admit_config_inv: "sd_inv s \<Longrightarrow> sd_inv (admit_config ev t s)"
proof (cases "exchange_may_start (air_turn_locked ev s)")
  case may: True
  assume i: "sd_inv s"
  have idle: "\<not> cfp_busy (sd_cfg s)" using may_start_idle(1) [OF may] by simp
  show ?thesis
  proof (cases "sd_cfg_queue s")
    case (Cons job rest)
    define s1 where "s1 = s\<lparr>sd_cfg_queue := rest\<rparr>"
    have i1: "sd_inv (s1\<lparr>sd_reg := reg\<rparr>)" for reg
      by (rule calm_inv [OF i]) (use Cons in \<open>auto simp: s1_def calm_def\<close>)
    have job: "config_allowed s job" using i Cons by (simp add: sd_inv_def)
    have "sd_inv (s1\<lparr>sd_reg := reg, sd_cfg := p\<rparr>) \<and> ok" if "cfp_submit job ctx q t (sd_cfg s) = (ok, p)" for reg ctx q ok p
      using starts_alone(4) [of ev "s1\<lparr>sd_reg := reg\<rparr>" p] i1 may job cfg_submit_job [OF that idle]
      by (simp add: may_start_fields s1_def config_allowed_def pending_at_def)
    with i1 Cons i show ?thesis
      by (auto simp: admit_config_def Let_def s1_def split: option.split prod.split dest: cfg_submit_job [OF _ idle])
  next
    case Nil
    have "sd_inv (s\<lparr>sd_cfg := p, sd_cfg_change := m\<rparr>)"
      if "cfp_submit job ctx q t (sd_cfg s) = (ok, p)" "cj_readback_only job" for job ctx q ok p m
    proof -
      have "sd_inv (s\<lparr>sd_cfg := p\<rparr>)"
        by (rule starts_alone(4) [OF may i]) (use cfg_submit_job [OF that(1) idle] that(2) in auto)
      then show ?thesis by (rule calm_inv) (simp add: calm_def)
    qed
    with Nil i show ?thesis by (auto simp: admit_config_def Let_def split: option.split prod.split)
  qed
qed (simp add: admit_config_def)

text \<open>A poll that starts is alone, too.\<close>

lemma polls_from_inv: "sd_inv s \<Longrightarrow> sd_inv (sched_polls_from n ev t s)"
proof (induction n arbitrary: s)
  case (Suc n)
  obtain st ps where n: "ps_next t (poll_may_start (air_turn_locked ev s)) (sd_polls s) = (st, ps)" by fastforce
  note k = ps_next_keeps [OF n]
  obtain q ps' where tk: "ps_take_poll_seq ps = (q, ps')" by fastforce
  have i1: "sd_inv (s\<lparr>sd_polls := ps\<rparr>)" by (rule calm_inv [OF Suc.prems calm_polls]) (use k in simp)
  have i2: "sd_inv (s\<lparr>sd_polls := ps'\<rparr>)"
    by (rule calm_inv [OF Suc.prems calm_polls]) (use k ps_keeps(1) [of ps] tk in simp)
  have miss: "sd_inv (sched_polls_from n ev t (s\<lparr>sd_polls := ps, sd_reg := r\<rparr>))" for r
    by (rule Suc.IH, rule calm_inv [OF i1]) (simp add: calm_def)
  have sent: "sd_inv (s2\<lparr>sd_polls := p\<rparr>)" if "pl_action st = PA_Poll" "send_tx d 0 bs (s\<lparr>sd_polls := ps'\<rparr>) = (ok, s2)" for d bs ok s2 p
  proof -
    have "\<exists>x. s2 = s\<lparr>sd_polls := ps', sd_tx := x\<rparr>" using send_frame [OF that(2)] by simp
    then show ?thesis
      using Suc.prems k that(1) may_start_idle(2) [of ev s]
      by (auto simp: sd_inv_def exchanges_def rolled_first_def config_allowed_def pending_at_def)
  qed
  have refused: "sd_inv s2" if "send_tx d 0 bs (s\<lparr>sd_polls := ps'\<rparr>) = (ok, s2)" for d bs ok s2
    using send_frame [OF that] by (auto intro!: calm_inv [OF i2] simp: calm_def)
  show ?case
  proof (cases "pl_action st")
    case PA_Poll
    then show ?thesis using i2 sent [OF PA_Poll] refused
      by (auto simp: n tk Let_def split: option.split prod.split)
  qed (use i1 miss in \<open>simp_all add: n Let_def\<close>)
qed simp

text \<open>The first frame of an echo goes out alone; the others follow it.\<close>

lemma echo_turn:
  assumes "sd_inv s" "pe_frames_left (sd_echo s)"
    "pe_started (sd_echo s) \<or> exchange_may_start ((air_turn_locked ev s)\<lparr>at_echo_busy := False\<rparr>)"
  shows "sd_inv (s\<lparr>sd_echo := pe_advance (sd_echo s)\<rparr>)"
proof (cases "pe_started (sd_echo s)")
  case True
  with assms(2) have "echo_out (sd_echo s)" by (simp add: echo_out_def pe_frames_left_def)
  then have "calm s (s\<lparr>sd_echo := pe_advance (sd_echo s)\<rparr>)" by (simp add: calm_def)
  with assms(1) show ?thesis by (rule calm_inv)
next
  case False
  with assms(3) have "exchanges (s\<lparr>sd_echo := pe_advance (sd_echo s)\<rparr>) \<le> 1"
    by (simp add: exchanges_def exchange_may_start_def air_turn_locked_def config_asked_def)
  with assms(1) show ?thesis by (simp add: sd_inv_def rolled_first_def config_allowed_def pending_at_def)
qed

lemma echo_from_inv: "sd_inv s \<Longrightarrow> sd_inv (echo_from n ev t s)"
proof (induction n arbitrary: s)
  case (Suc n)
  let ?stop = "length (sd_tx s) \<ge> kTxQueueDepth \<or> \<not> pe_frames_left (sd_echo s) \<or>
    \<not> pe_started (sd_echo s) \<and> \<not> exchange_may_start ((air_turn_locked ev s)\<lparr>at_echo_busy := False\<rparr>)"
  have off: "sd_inv (s\<lparr>sd_echo := pe_finish (sd_echo s)\<rparr>)"
    by (rule calm_inv [OF Suc.prems]) (simp add: calm_def echo_keeps)
  show ?case
  proof (cases ?stop)
    case False
    define u where "u = s\<lparr>sd_echo := pe_advance (sd_echo s)\<rparr>"
    have a: "sd_inv u" unfolding u_def by (rule echo_turn [OF Suc.prems, of ev]) (use False in auto)
    have after: "sd_inv (s2\<lparr>sd_echo := pe_advance (sd_echo s2)\<rparr>)" "sd_inv (s2\<lparr>sd_echo_air := w, sd_echo := pe_advance (sd_echo s2)\<rparr>)"
      "sd_inv s2" if "\<exists>k q. s2 = s\<lparr>sd_ticket := k, sd_tx := q\<rparr>" for s2 w
      using that calm_inv [OF a, of "s2\<lparr>sd_echo := pe_advance (sd_echo s2)\<rparr>"]
        calm_inv [OF a, of "s2\<lparr>sd_echo_air := w, sd_echo := pe_advance (sd_echo s2)\<rparr>"] calm_inv [OF Suc.prems, of s2]
      by (auto simp: u_def calm_def)
    have tx: "\<exists>k q. s2 = s\<lparr>sd_ticket := k, sd_tx := q\<rparr>" if "send_tx d 0 bs s = (ok, s2)" for d bs ok s2
    proof -
      from send_frame [OF that] obtain q where "s2 = s\<lparr>sd_tx := q\<rparr>" by blast
      then have "s2 = s\<lparr>sd_ticket := sd_ticket s, sd_tx := q\<rparr>" by simp
      then show ?thesis by blast
    qed
    show ?thesis using False off after(2,3) [OF send_awaited_frame] after(3) [OF tx] Suc.IH [OF after(1) [OF tx]]
      by (auto split: option.split prod.split)
  qed (auto simp: Suc.prems)
qed simp

section \<open>A step of the system\<close>

text \<open>
  The senders of \<open>sched_task\<close>, a message through \<open>app_task\<close>, the requests \<open>mqtt_task\<close> queues (a
  configuration for a node only when its roll is not shown pending), \<open>lora_task\<close> taking a frame, the
  write arm, the levers, and a node's report that its configuration changed.
\<close>

inductive sd_step :: "Sched \<Rightarrow> Sched \<Rightarrow> bool" where
  "sd_step s (sched_polls ev t s)"
| "sd_step s (sched_roll ev t s)"
| "sd_step s (sched_commands ev t s)"
| "sd_step s (sched_config ev t s)"
| "sd_step s (sched_hex ev t s)"
| "sd_step s (sched_echo ev t s)"
| "sd_step s (app_message phy msg s)"
| "sd_step s (s\<lparr>sd_cmd_queue := sd_cmd_queue s @ [req]\<rparr>)"
| "sd_step s (queue_node_half job s)"
| "sd_step s (queue_phy_readback dst s)"
| "sd_step s (s\<lparr>sd_hex_queue := sd_hex_queue s @ [hq]\<rparr>)"
| "sd_step s (s\<lparr>sd_tx := tl (sd_tx s)\<rparr>)"
| "sd_step s (s\<lparr>sd_arms := arms\<rparr>)"
| "sd_step s (s\<lparr>sd_polls := ps_enrol node (ps_retime node i (ps_set_reply_timeout_ms ms (sd_polls s))),
     sd_cmd := cp_set_retries n (cp_set_ack_timeout_ms ms' (sd_cmd s)),
     sd_roll := rl_set_retries n (rl_set_ack_timeout_ms ms' (sd_roll s)), sd_arm_timeout_s := a\<rparr>)"
| "sd_step s (s\<lparr>sd_cfg_change := m\<rparr>)"

lemma app_message_calm: "calm s (app_message phy msg s)"
proof -
  have heard: "calm u (sched_on_heard src t u)" for u src t
    by (auto simp: sched_on_heard_def calm_def dest: ps_heard_keeps)
  have ack: "calm u (cmd_on_ack msg u)" for u
    using rl_ack_pending by (auto simp: cmd_on_ack_def calm_def Let_def split: sum.split prod.split)
      (metis rl_keeps hp_keeps snd_conv mask_le_trans)+
  have cfg: "calm u (config_on_ack phy msg u)" for u
    by (auto simp: config_on_ack_def calm_def dest: cfp_ack_keeps cfp_ack_asked split: sum.split)
  have hex: "calm u (hex_on_rsp msg u)" for u
    by (auto simp: hex_on_rsp_def calm_def split: sum.split)
  have ping: "calm u (echo_on_ping msg u)" for u
    by (auto simp: echo_on_ping_def calm_def dest: echo_keeps(1))
  have status: "calm u (app_status msg u)" for u
    by (auto simp: app_status_def owe_readback_def calm_def Let_def split: prod.split)
  have cond: "calm u v \<Longrightarrow> calm v (f v) \<Longrightarrow> calm u (if b then f v else v)" for u v f b by (simp add: calm_trans)
  have "calm s (app_message phy msg s)" if "\<not> rm_dummy msg" unfolding app_message_def Let_def if_not_P [OF that]
    by (intro cond calm_trans [OF calm_reg heard] ack cfg hex ping status)
  then show ?thesis by (cases "rm_dummy msg") (simp_all add: app_message_def)
qed

text \<open>After admission, a sender waits for its frame or takes its turns; both are calm.\<close>

lemma calm_air [simp]:
  "calm s (s\<lparr>sd_cmd_air := w\<rparr>)" "calm s (s\<lparr>sd_roll_air := w\<rparr>)"
  "calm s (s\<lparr>sd_hex_air := w\<rparr>)" "calm s (s\<lparr>sd_cfg_air := w\<rparr>)" "calm s (s\<lparr>sd_echo_air := w\<rparr>)"
  by (simp_all add: calm_def)

lemma turn_inv:
  assumes "sd_inv s" "\<And>u. sd_inv u \<Longrightarrow> sd_inv (turns u)" "\<And>w x. calm s (upd w x s)"
  shows "sd_inv (let (wait, w, aired) = air_pending ev t a; u = upd w aired s in if wait then u else turns u)"
proof -
  obtain wait w aired where p: "air_pending ev t a = (wait, w, aired)" by (metis surj_pair)
  have "sd_inv (upd w aired s)" by (rule calm_inv [OF assms(1,3)])
  with assms(2) [OF this] show ?thesis by (simp add: p Let_def)
qed

lemma sched_roll_inv: "sd_inv s \<Longrightarrow> sd_inv (sched_roll ev t s)"
  unfolding sched_roll_def Let_def [of "admit_roll ev t s"]
  by (rule turn_inv [OF admit_roll_inv calm_inv [OF _ roll_from_calm]]) (auto intro: calm_roll split: option.split)

lemma sched_config_inv: "sd_inv s \<Longrightarrow> sd_inv (sched_config ev t s)"
  unfolding sched_config_def Let_def [of "admit_config ev t s"]
  by (rule turn_inv [OF admit_config_inv calm_inv [OF _ config_from_calm]]) (auto intro: calm_cfg split: option.split)

lemma sched_hex_inv: "sd_inv s \<Longrightarrow> sd_inv (sched_hex ev t s)"
  unfolding sched_hex_def Let_def [of "admit_hex ev t (expire_arms t kNodeCount s)"]
  by (rule turn_inv [OF admit_hex_inv calm_inv [OF _ hex_from_calm]])
    (auto intro: calm_hex calm_inv expire_arms_calm split: option.split)

lemma sched_echo_inv: "sd_inv s \<Longrightarrow> sd_inv (sched_echo ev t s)"
  unfolding sched_echo_def by (rule turn_inv [OF _ echo_from_inv]) (auto intro!: calm_echo simp: echo_keeps split: option.split)

lemma sched_commands_inv: "sd_inv s \<Longrightarrow> sd_inv (sched_commands ev t s)"
proof -
  assume i: "sd_inv s"
  obtain go s1 where a: "admit_command ev t s = (go, s1)" by fastforce
  with admit_command_inv [OF i, of ev t] have "sd_inv s1" by simp
  moreover have "sd_inv (let (wait, w, aired) = air_pending ev t (sd_cmd_air s1);
      u = s1\<lparr>sd_cmd_air := w, sd_cmd := (case aired of None \<Rightarrow> sd_cmd s1 | Some ms \<Rightarrow> cp_on_aired ms (sd_cmd s1))\<rparr>
    in if wait then u else commands_from 2 ev t u)"
    by (rule turn_inv [OF \<open>sd_inv s1\<close> calm_inv [OF _ commands_from_calm]]) (auto intro: calm_cmd split: option.split)
  ultimately show ?thesis by (simp add: sched_commands_def a)
qed

lemma queued_inv: "sd_inv s \<Longrightarrow> config_allowed s job \<Longrightarrow> sd_inv (snd (queue_config_job job s))"
  by (auto simp: queue_config_job_def sd_inv_def exchanges_def rolled_first_def config_allowed_def pending_at_def)

lemma sd_step_inv:
  assumes "sd_step s s'" "sd_inv s"
  shows "sd_inv s'"
  using assms
proof cases
  case (9 job)
  have "\<not> roll_pending_for (cj_dst job) s \<Longrightarrow> config_allowed s job"
    using assms(2) mask_le_test by (fastforce simp: sd_inv_def config_allowed_def pending_at_def rl_is_pending_def roll_pending_for_def)
  with assms(2) show ?thesis unfolding 9
    by (auto simp: queue_node_half_def intro: queued_inv calm_inv [OF _ calm_publish])
next
  case (10 dst)
  with assms(2) show ?thesis by (auto simp: queue_phy_readback_def phy_readback_job_def config_allowed_def intro!: queued_inv)
next
  case (14 node i ms n ms' a)
  have "calm s s'" unfolding 14
    by (simp add: calm_def cp_busy_def cp_set_retries_def cp_set_ack_timeout_ms_def rl_busy_def rl_set_retries_def
        rl_set_ack_timeout_ms_def)
  with assms(2) show ?thesis by (rule calm_inv)
qed (use assms(2) in \<open>auto simp: sched_polls_def calm_def intro: polls_from_inv sched_roll_inv sched_commands_inv sched_config_inv
  sched_hex_inv sched_echo_inv calm_inv [OF _ app_message_calm] calm_inv [of s]\<close>)

lemma start_inv: "sd_inv (Sched_new reg)"
  by (simp add: sd_inv_def Sched_new_def exchanges_def rolled_first_def PollScheduler_new_def CommandPath_new_def
      ContextRoll_new_def HexProxy_new_def ConfigPath_new_def PingEcho_new_def cp_busy_def rl_busy_def hp_busy_def cfp_busy_def config_live_def
      config_asked_def echo_out_def)

lemma sd_reachable_inv: "sd_step\<^sup>*\<^sup>* (Sched_new reg) s \<Longrightarrow> sd_inv s"
  by (induction rule: rtranclp_induct) (auto intro: start_inv sd_step_inv)

section \<open>Properties\<close>

text \<open>
  C10: one exchange on the air at a time. Over every interleaving of the scheduling task's senders
  with received frames, queued requests and changed levers, at most one of a scheduled poll, a
  command, a context roll, a HEX request, a configuration exchange the bridge asked for and an echo
  is under way. (A readback a node sends unasked may arrive beside it.)
\<close>

theorem one_exchange_at_a_time:
  assumes "sd_step\<^sup>*\<^sup>* (Sched_new reg) s"
  shows "exchanges s \<le> 1"
  using sd_reachable_inv [OF assms] by (simp add: sd_inv_def)

text \<open>
  C11: nothing that acts on a node goes out before its roll. Whatever is queued and heard, and
  whatever order the tasks run in, a command or a HEX write in flight is never for a node whose
  context the bridge has not yet moved since it started, and a CONFIG exchange with such a node can
  only be the one that asks for all its values and sets none (the readback an abandoned PHY change
  owes). The SETs and GETs of a PHY change itself are not part of this statement.
\<close>

theorem roll_comes_first:
  assumes "sd_step\<^sup>*\<^sup>* (Sched_new reg) s"
  shows "(cp_busy (sd_cmd s) \<longrightarrow> \<not> rl_is_pending (cr_dst (cp_req (sd_cmd s))) (sd_roll s)) \<and>
    (hp_busy (sd_hex s) \<and> hp_write (sd_hex s) \<longrightarrow> \<not> rl_is_pending (hq_dst (hp_req (sd_hex s))) (sd_roll s)) \<and>
    (config_live (sd_cfg s) \<and> rl_is_pending (cj_dst (cfp_job (sd_cfg s))) (sd_roll s) \<longrightarrow>
       cj_config (cfp_job (sd_cfg s)) = \<lparr>nc_op = CO_GetAll, nc_entries = []\<rparr>)"
  using sd_reachable_inv [OF assms] by (simp add: sd_inv_def rolled_first_def config_allowed_def pending_at_def)

text \<open>An open command while the gate's roll is pending is refused, and the poll goes out.\<close>

definition quiet_env :: SchedEnv where
  "quiet_env = \<lparr>ev_mac = RefMac, ev_tx_done = (\<lambda>t. None), ev_phy_blocks = False, ev_phy_waiting = False, ev_ota = False,
     ev_readback = None\<rparr>"

definition gate_sched :: Sched where
  "gate_sched = (let s = Sched_new (rg_load (\<lambda>m i. m) (replicate 32 7) Registry_new)
     in s\<lparr>sd_cmd_queue := [\<lparr>cr_dst = kNodeGateLink, cr_cmd = Cmd_Open, cr_arg = 0, cr_arg2 = 0\<rparr>]\<rparr>)"

lemma gate_sched_step: "sd_step\<^sup>*\<^sup>* (Sched_new (rg_load (\<lambda>m i. m) (replicate 32 7) Registry_new)) (sched_commands quiet_env 5 gate_sched)"
proof -
  let ?s = "Sched_new (rg_load (\<lambda>m i. m) (replicate 32 7) Registry_new)"
  have "sd_cmd_queue ?s @ [req] = [req]" for req by (simp add: Sched_new_def)
  then have "sd_step ?s gate_sched" unfolding gate_sched_def Let_def by (metis sd_step.intros(8))
  then show ?thesis by (meson r_into_rtranclp rtranclp.rtrancl_into_rtrancl sd_step.intros(3))
qed

theorem one_exchange_at_a_time_witness: "exchanges (sched_commands quiet_env 5 gate_sched) \<le> 1"
  by (rule one_exchange_at_a_time [OF gate_sched_step])

theorem roll_comes_first_witness:
  "sd_out (sched_commands quiet_env 5 gate_sched) = [SO_CmdRefused kNodeGateLink] \<and>
   \<not> (cp_busy (sd_cmd (sched_commands quiet_env 5 gate_sched)) \<and>
      rl_is_pending (cr_dst (cp_req (sd_cmd (sched_commands quiet_env 5 gate_sched)))) (sd_roll (sched_commands quiet_env 5 gate_sched)))"
proof -
  have "sd_out (sched_commands quiet_env 5 gate_sched) = [SO_CmdRefused kNodeGateLink]" by code_simp
  with roll_comes_first [OF gate_sched_step] show ?thesis by simp
qed

end
