(* ===== verification/CommandLink.thy ===== *)
theory CommandLink
  imports BridgeCommand CommandGate
begin

text \<open>
  The bridge's command path and a node's command gate over an unreliable link.

  The bridge side is the registry and the command path, driven as \<open>sched_commands\<close> and
  \<open>cmd_on_ack\<close> of \<open>firmware/bridge/src/task_runtime.cpp\<close> drive them; the node side is the
  context check and the gate. Every authenticated frame ever sent stays deliverable: the link may
  lose, delay, duplicate and reorder frames in any way. What the bridge hears is unconstrained, so
  acknowledgements may be stale, lost or forged. The node may restart or roll its context at any
  time, into a context it has not had before, and the bridge may restart. The other senders of
  authenticated frames (configuration, HEX writes, the roll) share the sequence numbers and are
  represented by the numbers they draw and the frames they send.
\<close>

section \<open>The link\<close>

text \<open>A frame on the air; \<open>af_id\<close> is the submission it carries, \<open>None\<close> for the other senders.\<close>

record AirFrame =
  af_ctx :: CtxId
  af_seq :: Seq
  af_id :: "nat option"
  af_cmd :: Command

record Link =
  lk_path :: CommandPath
  lk_reg :: Registry
  lk_gate :: CommandGate
  lk_used :: "CtxId set"
  lk_asked :: "CommandRequest list"
  lk_drawn :: nat
  lk_air :: "AirFrame set"
  lk_ran :: "(nat option \<times> Command) list"

definition command_of :: "CommandRequest \<Rightarrow> Command" where
  "command_of req = \<lparr>cmd_cmd = cr_cmd req, cmd_arg = cr_arg req, cmd_arg2 = cr_arg2 req\<rparr>"

definition step_command :: "CmdStep \<Rightarrow> Command" where
  "step_command st = \<lparr>cmd_cmd = cs_cmd st, cmd_arg = cs_arg st, cmd_arg2 = cs_arg2 st\<rparr>"

definition Link_start :: "Registry \<Rightarrow> CtxId \<Rightarrow> Link" where
  "Link_start reg c = \<lparr>lk_path = CommandPath_new, lk_reg = reg, lk_gate = cg_reset_context c (CommandGate_new None),
     lk_used = {c}, lk_asked = [], lk_drawn = 0, lk_air = {}, lk_ran = []\<rparr>"

text \<open>
  One turn of the loop of \<open>sched_commands\<close>: what \<open>next\<close> asks for is done, a context it adopted is
  written back, and a frame the transmit queue took is reported with \<open>on_sent\<close>.
\<close>

definition sched_turn :: "u32 \<Rightarrow> bool \<Rightarrow> Link \<Rightarrow> Link" where
  "sched_turn now_ms queued l =
     (let (st, p) = cp_next now_ms (lk_path l);
          l = l\<lparr>lk_path := p\<rparr>;
          l = (if cs_ctx_adopted st then l\<lparr>lk_reg := snd (rg_adopt_ctx (cs_dst st) (cs_ctx_id st) (lk_reg l))\<rparr> else l)
      in if cs_action st = CA_Send \<and> queued
         then l\<lparr>lk_path := cp_on_sent now_ms (lk_path l),
                lk_air := insert \<lparr>af_ctx = cs_ctx_id st, af_seq = cs_seq st, af_id = Some (length (lk_asked l) - 1),
                                  af_cmd = step_command st\<rparr> (lk_air l)\<rparr>
         else l)"

definition admit :: "CommandRequest \<Rightarrow> u32 \<Rightarrow> Link \<Rightarrow> Link" where
  "admit req now_ms l =
     (if cp_busy (lk_path l) then l
      else case rg_state (cr_dst req) (lk_reg l) of
          None \<Rightarrow> l
        | Some ns \<Rightarrow> (case rg_take_cmd_seq (cr_dst req) (lk_reg l) of
              (None, reg) \<Rightarrow> l
            | (Some q, reg) \<Rightarrow> l\<lparr>lk_reg := reg, lk_path := snd (cp_submit req (nst_ctx_id ns) q now_ms (lk_path l)),
                lk_asked := lk_asked l @ [req], lk_drawn := lk_drawn l + 1\<rparr>))"

text \<open>
  A frame reaches the node: one of another context is refused before the gate (spec 9.4 step 2),
  and the gate decides about the others.
\<close>

definition reach_node :: "AirFrame \<Rightarrow> Link \<Rightarrow> Link" where
  "reach_node f l =
     (if af_ctx f \<noteq> cg_ctx_id (lk_gate l) then l
      else let (res, g) = cg_check (af_seq f) (lk_gate l)
           in l\<lparr>lk_gate := g, lk_ran := (if gr_verdict res = V_Execute then lk_ran l @ [(af_id f, af_cmd f)] else lk_ran l)\<rparr>)"

inductive link_step :: "Link \<Rightarrow> Link \<Rightarrow> bool" where
  ls_admit: "link_step l (admit req now l)"
| ls_sched: "link_step l (sched_turn now queued l)"
| ls_aired: "link_step l (l\<lparr>lk_path := cp_on_aired now (lk_path l)\<rparr>)"
| ls_levers: "link_step l (l\<lparr>lk_path := cp_set_retries n (cp_set_ack_timeout_ms ms (lk_path l))\<rparr>)"
| ls_observe: "link_step l (l\<lparr>lk_reg := snd (rg_observe hdr rssi snr now (lk_reg l))\<rparr>)"
| ls_ack: "link_step l (l\<lparr>lk_path := cp_on_ack src ack ctx now (lk_path l)\<rparr>)"
| ls_other: "rg_take_cmd_seq node (lk_reg l) = (Some q, reg) \<Longrightarrow>
    link_step l (l\<lparr>lk_reg := reg, lk_drawn := lk_drawn l + 1,
      lk_air := insert \<lparr>af_ctx = ctx, af_seq = q, af_id = None, af_cmd = c\<rparr> (lk_air l)\<rparr>)"
| ls_other_resync: "0 < lk_drawn l \<Longrightarrow>
    link_step l (l\<lparr>lk_reg := snd (rg_adopt_ctx node ctx (lk_reg l)),
      lk_air := insert \<lparr>af_ctx = ctx, af_seq = 1, af_id = None, af_cmd = c\<rparr> (lk_air l)\<rparr>)"
| ls_deliver: "f \<in> lk_air l \<Longrightarrow> link_step l (reach_node f l)"
| ls_record: "link_step l (l\<lparr>lk_gate := snd (cg_record q r d (lk_gate l))\<rparr>)"
| ls_depth: "link_step l (l\<lparr>lk_gate := cg_set_cache_depth n (lk_gate l)\<rparr>)"
| ls_context: "c \<notin> lk_used l \<Longrightarrow> g = lk_gate l \<or> g = CommandGate_new k \<Longrightarrow>
    link_step l (l\<lparr>lk_gate := cg_reset_context c g, lk_used := insert c (lk_used l)\<rparr>)"
| ls_restart: "link_step l (l\<lparr>lk_path := CommandPath_new, lk_reg := rg_load kdf master Registry_new\<rparr>)"

section \<open>Sequence numbers stay small\<close>

definition seqs_to :: "nat \<Rightarrow> Registry \<Rightarrow> bool" where
  "seqs_to n r \<longleftrightarrow> (\<forall>e \<in> set (rg_entries r). unat (nst_cmd_seq (re_state e)) \<le> n + 1)"

lemma reg_put_seqs_to:
  "seqs_to n r \<Longrightarrow> (\<And>s. unat (nst_cmd_seq s) \<le> n + 1 \<Longrightarrow> unat (nst_cmd_seq (f s)) \<le> m + 1) \<Longrightarrow> n \<le> m \<Longrightarrow>
     seqs_to m (reg_put i f r)"
  by (cases "i < length (rg_entries r)")
    (fastforce simp: seqs_to_def reg_put_def list_update_beyond dest!: set_update_subset_insert [THEN subsetD])+

lemma observe_seqs_to: "seqs_to n r \<Longrightarrow> seqs_to n (snd (rg_observe hdr rssi snr now r))"
  by (auto simp: rg_observe_def split: option.split intro!: reg_put_seqs_to)
    (simp add: observe_state_def Let_def)

lemma adopt_seqs_to: "seqs_to n r \<Longrightarrow> seqs_to n (snd (rg_adopt_ctx node ctx r))"
  by (auto simp: rg_adopt_ctx_def rg_update_def split: option.split intro!: reg_put_seqs_to)

lemma unat_Suc_le: "unat (s + 1 :: u16) \<le> unat s + 1"
  by (simp add: unat_word_ariths)

lemma take_seqs_to:
  assumes "seqs_to n r" "rg_take_cmd_seq node r = (Some q, r')"
  shows "unat q \<le> n + 1" "seqs_to (n + 1) r'"
proof -
  from assms(2) obtain i where i: "rg_index node r = Some i" "q = nst_cmd_seq (re_state (rg_entries r ! i))"
    "r' = reg_put i (\<lambda>st. st\<lparr>nst_cmd_seq := (if q + 1 = 0 then 1 else q + 1)\<rparr>) r"
    by (auto simp: rg_take_cmd_seq_def Let_def split: option.splits)
  then have "rg_entries r ! i \<in> set (rg_entries r)" using rg_index_Some [OF i(1)] by simp
  with assms(1) i(2) show q: "unat q \<le> n + 1" by (auto simp: seqs_to_def)
  then have "unat (q + 1) \<le> n + 2" using unat_Suc_le [of q] by simp
  with assms(1) show "seqs_to (n + 1) r'" unfolding i(3) by (intro reg_put_seqs_to) auto
qed

lemma seq_newer_small: "unat a < 32768 \<Longrightarrow> unat b < 32768 \<Longrightarrow> seq_newer a b \<Longrightarrow> unat b < unat a"
  by (auto simp: seq_newer_iff unat_sub_if' split: if_splits)

section \<open>What the path keeps of a command\<close>

definition live :: "CommandPath \<Rightarrow> bool" where
  "live p \<longleftrightarrow> cp_phase p = PP_SendDue \<or> cp_phase p = PP_AwaitingAck"

text \<open>
  \<open>p'\<close> carries the command of \<open>p\<close> on: it is the same request, a path that is idle stays idle, and
  until it is resolved an actuation keeps its context and its sequence number.
\<close>

definition carries_on :: "CommandPath \<Rightarrow> CommandPath \<Rightarrow> bool" where
  "carries_on p p' \<longleftrightarrow> cp_req p' = cp_req p \<and> (cp_phase p = PP_Idle \<longrightarrow> cp_phase p' = PP_Idle) \<and>
     (live p' \<longrightarrow> live p) \<and> (cp_seq p' = cp_seq p \<or> cp_seq p' = 1) \<and>
     (live p' \<and> \<not> resync_may_retry (cr_cmd (cp_req p)) \<longrightarrow> cp_ctx p' = cp_ctx p \<and> cp_seq p' = cp_seq p)"

lemma cp_count_sel [simp]:
  "cp_req (cp_count f p) = cp_req p" "cp_phase (cp_count f p) = cp_phase p" "cp_seq (cp_count f p) = cp_seq p"
  "cp_ctx (cp_count f p) = cp_ctx p" "cp_attempt (cp_count f p) = cp_attempt p"
  by (simp_all add: cp_count_def)

lemma close_window_carries: "carries_on p (cp_close_window now p)"
  by (auto simp: carries_on_def cp_close_window_def live_def)

lemma next_carries: "carries_on p (snd (cp_next now p))"
  using close_window_carries [of p now]
  by (auto simp: carries_on_def cp_next_def Let_def live_def split: PathPhase.split)

lemma on_sent_carries: "carries_on p (cp_on_sent now p)"
  by (auto simp: carries_on_def cp_on_sent_def live_def)

lemma on_aired_carries: "carries_on p (cp_on_aired now p)"
  by (auto simp: carries_on_def cp_on_aired_def live_def)

lemma on_ack_carries: "carries_on p (cp_on_ack src ack ctx now p)"
  by (auto simp: carries_on_def cp_on_ack_def live_def)

lemma levers_carries: "carries_on p (cp_set_retries n (cp_set_ack_timeout_ms ms p))"
  by (simp add: carries_on_def cp_set_retries_def cp_set_ack_timeout_ms_def live_def)

lemma next_send:
  "cs_action (fst (cp_next now p)) = CA_Send \<Longrightarrow>
     let p' = snd (cp_next now p) in fst (cp_next now p) = cp_send_step p' \<and> cp_phase p' = PP_SendDue"
  by (auto simp: cp_next_def Let_def CmdStep_init_def cp_resolve_step_def split: PathPhase.splits if_splits)

lemma carries_on_trans: "carries_on p q \<Longrightarrow> carries_on q r \<Longrightarrow> carries_on p r"
  by (auto simp: carries_on_def)

section \<open>The invariant\<close>

definition final :: "CommandRequest \<Rightarrow> bool" where
  "final req \<longleftrightarrow> \<not> resync_may_retry (cr_cmd req)"

definition path_inv :: "Link \<Rightarrow> bool" where
  "path_inv l \<longleftrightarrow> seqs_to (lk_drawn l) (lk_reg l) \<and>
     (cp_phase (lk_path l) \<noteq> PP_Idle \<longrightarrow> unat (cp_seq (lk_path l)) \<le> lk_drawn l \<and> 0 < lk_drawn l \<and>
        lk_asked l \<noteq> [] \<and> cp_req (lk_path l) = last (lk_asked l)) \<and>
     (live (lk_path l) \<and> final (cp_req (lk_path l)) \<longrightarrow>
        (\<forall>f \<in> lk_air l. af_id f = Some (length (lk_asked l) - 1) \<longrightarrow>
           af_ctx f = cp_ctx (lk_path l) \<and> af_seq f = cp_seq (lk_path l)))"

definition same_seal :: "AirFrame \<Rightarrow> AirFrame \<Rightarrow> bool" where
  "same_seal f g \<longleftrightarrow> af_ctx f = af_ctx g \<and> af_seq f = af_seq g"

definition names_asked :: "CommandRequest list \<Rightarrow> AirFrame \<Rightarrow> bool" where
  "names_asked rs f \<longleftrightarrow> (\<forall>i. af_id f = Some i \<longrightarrow> i < length rs \<and> af_cmd f = command_of (rs ! i))"

definition one_seal :: "CommandRequest list \<Rightarrow> AirFrame \<Rightarrow> AirFrame \<Rightarrow> bool" where
  "one_seal rs f g \<longleftrightarrow> (\<forall>i. af_id f = Some i \<and> af_id g = Some i \<and> final (rs ! i) \<longrightarrow> same_seal f g)"

definition air_inv :: "Link \<Rightarrow> bool" where
  "air_inv l \<longleftrightarrow> (\<forall>f \<in> lk_air l. unat (af_seq f) \<le> lk_drawn l \<and> names_asked (lk_asked l) f \<and>
     (\<forall>g \<in> lk_air l. one_seal (lk_asked l) f g))"

definition spent :: "Link \<Rightarrow> AirFrame \<Rightarrow> bool" where
  "spent l f \<longleftrightarrow> f \<in> lk_air l \<and> af_ctx f \<in> lk_used l \<and>
     (af_ctx f = cg_ctx_id (lk_gate l) \<longrightarrow> unat (af_seq f) \<le> unat (cg_high_water (lk_gate l)))"

definition node_inv :: "Link \<Rightarrow> bool" where
  "node_inv l \<longleftrightarrow> unat (cg_high_water (lk_gate l)) \<le> lk_drawn l \<and> cg_ctx_id (lk_gate l) \<in> lk_used l \<and>
     (\<forall>r \<in> set (lk_ran l). \<exists>f. spent l f \<and> af_id f = fst r \<and> af_cmd f = snd r) \<and>
     (\<forall>i < length (lk_asked l). final (lk_asked l ! i) \<longrightarrow> length (filter (\<lambda>r. fst r = Some i) (lk_ran l)) \<le> 1)"

lemma same_seal_refl [simp]: "same_seal f f"
  by (simp add: same_seal_def)

lemma one_seal_sym: "one_seal rs f g \<longleftrightarrow> one_seal rs g f"
  by (auto simp: one_seal_def same_seal_def)

lemma one_seal_refl [simp]: "one_seal rs f f"
  by (simp add: one_seal_def)

lemma air_inv_insert:
  assumes "air_inv l" "unat (af_seq f) \<le> lk_drawn l" "names_asked (lk_asked l) f"
    "\<And>g. g \<in> lk_air l \<Longrightarrow> one_seal (lk_asked l) f g"
  shows "air_inv (l\<lparr>lk_air := insert f (lk_air l)\<rparr>)"
  using assms one_seal_sym by (auto simp: air_inv_def)

text \<open>The bridge's own calls on the path, which send nothing.\<close>

lemma path_inv_quiet:
  assumes "path_inv l" "carries_on (lk_path l) p" "seqs_to (lk_drawn l) reg"
  shows "path_inv (l\<lparr>lk_path := p, lk_reg := reg\<rparr>)"
proof -
  have "unat (cp_seq p) \<le> lk_drawn l" if "cp_phase p \<noteq> PP_Idle"
    using assms(1,2) that by (auto simp: path_inv_def carries_on_def)
  with assms show ?thesis by (auto simp: path_inv_def carries_on_def final_def)
qed

text \<open>A frame the path sends carries the command in flight, under its context and number.\<close>

lemma path_inv_send:
  assumes "path_inv l" "air_inv l" "cp_phase (lk_path l) = PP_SendDue" "st = cp_send_step (lk_path l)"
    "f = \<lparr>af_ctx = cs_ctx_id st, af_seq = cs_seq st, af_id = Some (length (lk_asked l) - 1), af_cmd = step_command st\<rparr>"
  shows "path_inv (l\<lparr>lk_path := cp_on_sent now (lk_path l), lk_air := insert f (lk_air l)\<rparr>)"
    "air_inv (l\<lparr>lk_air := insert f (lk_air l)\<rparr>)"
proof -
  let ?p = "lk_path l" let ?i = "length (lk_asked l) - 1"
  have f: "af_ctx f = cp_ctx ?p" "af_seq f = cp_seq ?p" "af_id f = Some ?i" "af_cmd f = command_of (cp_req ?p)"
    by (simp_all add: assms(4,5) cp_send_step_def step_command_def command_of_def)
  have p: "unat (cp_seq ?p) \<le> lk_drawn l" "0 < lk_drawn l" "lk_asked l \<noteq> []" "cp_req ?p = lk_asked l ! ?i"
    using assms(1,3) by (auto simp: path_inv_def last_conv_nth)
  have same: "final (cp_req ?p) \<longrightarrow> (\<forall>g \<in> lk_air l. af_id g = Some ?i \<longrightarrow> af_ctx g = cp_ctx ?p \<and> af_seq g = cp_seq ?p)"
    using assms(1,3) by (simp add: path_inv_def live_def)
  show "path_inv (l\<lparr>lk_path := cp_on_sent now ?p, lk_air := insert f (lk_air l)\<rparr>)"
    using assms(1,3) p(3) f(1,2,3) same by (simp add: path_inv_def cp_on_sent_def)
  have "one_seal (lk_asked l) f g" if "g \<in> lk_air l" for g
    using same that f p(4) by (auto simp: one_seal_def same_seal_def)
  moreover have "names_asked (lk_asked l) f" using p f by (simp add: names_asked_def)
  ultimately show "air_inv (l\<lparr>lk_air := insert f (lk_air l)\<rparr>)"
    using p(1) f(2) by (intro air_inv_insert [OF assms(2)]) simp_all
qed

section \<open>Every step keeps it\<close>

text \<open>The node's part, when the node does nothing.\<close>

lemma node_inv_bridge:
  assumes "node_inv l" "lk_gate l' = lk_gate l" "lk_used l' = lk_used l" "lk_ran l' = lk_ran l"
    "lk_drawn l \<le> lk_drawn l'" "lk_air l \<subseteq> lk_air l'" "lk_asked l' = lk_asked l"
  shows "node_inv l'"
proof -
  have "spent l f \<Longrightarrow> spent l' f" for f using assms(2,3,6) by (auto simp: spent_def)
  with assms show ?thesis unfolding node_inv_def by (metis (no_types, lifting) order_trans)
qed

lemma ran_asked:
  assumes "air_inv l" "node_inv l" "(Some i, c) \<in> set (lk_ran l)"
  shows "i < length (lk_asked l) \<and> c = command_of (lk_asked l ! i)"
proof -
  from assms(2,3) obtain f where "f \<in> lk_air l" "af_id f = Some i" "af_cmd f = c"
    by (fastforce simp: node_inv_def spent_def)
  with assms(1) show ?thesis by (auto simp: air_inv_def names_asked_def)
qed

lemma node_inv_asked:
  assumes "air_inv l" "node_inv l"
  shows "node_inv (l\<lparr>lk_asked := lk_asked l @ [req]\<rparr>)"
proof -
  have "filter (\<lambda>r. fst r = Some (length (lk_asked l))) (lk_ran l) = []"
    using ran_asked [OF assms] by (fastforce simp: filter_empty_conv)
  then have "length (filter (\<lambda>r. fst r = Some i) (lk_ran l)) \<le> 1"
    if "i < length (lk_asked l @ [req])" "final ((lk_asked l @ [req]) ! i)" for i
    using assms(2) that by (cases "i = length (lk_asked l)") (auto simp: node_inv_def nth_append)
  with assms(2) show ?thesis by (simp add: node_inv_def spent_def)
qed

definition link_inv :: "Link \<Rightarrow> bool" where
  "link_inv l \<longleftrightarrow> path_inv l \<and> air_inv l \<and> node_inv l"

lemma link_inv_quiet:
  "link_inv l \<Longrightarrow> carries_on (lk_path l) p \<Longrightarrow> seqs_to (lk_drawn l) reg \<Longrightarrow> link_inv (l\<lparr>lk_path := p, lk_reg := reg\<rparr>)"
  by (auto simp: link_inv_def air_inv_def intro: path_inv_quiet node_inv_bridge)

lemma link_inv_path: "link_inv l \<Longrightarrow> carries_on (lk_path l) p \<Longrightarrow> link_inv (l\<lparr>lk_path := p\<rparr>)"
  using link_inv_quiet [of l p "lk_reg l"] by (simp add: link_inv_def path_inv_def)

lemma link_inv_reg: "link_inv l \<Longrightarrow> seqs_to (lk_drawn l) reg \<Longrightarrow> link_inv (l\<lparr>lk_reg := reg\<rparr>)"
  using link_inv_quiet [of l "lk_path l" reg] by (simp add: carries_on_def)

lemma sched_turn_inv:
  assumes "link_inv l"
  shows "link_inv (sched_turn now queued l)" "lk_drawn (sched_turn now queued l) = lk_drawn l"
proof -
  obtain st p where n: "cp_next now (lk_path l) = (st, p)" by fastforce
  define m where "m = l\<lparr>lk_path := p, lk_reg := (if cs_ctx_adopted st then snd (rg_adopt_ctx (cs_dst st) (cs_ctx_id st) (lk_reg l)) else lk_reg l)\<rparr>"
  have m: "link_inv m" unfolding m_def
    using assms next_carries [of "lk_path l" now] n
    by (intro link_inv_quiet) (auto simp: link_inv_def path_inv_def intro: adopt_seqs_to)
  define f where "f = \<lparr>af_ctx = cs_ctx_id st, af_seq = cs_seq st, af_id = Some (length (lk_asked m) - 1), af_cmd = step_command st\<rparr>"
  have turn: "sched_turn now queued l = (if cs_action st = CA_Send \<and> queued
      then m\<lparr>lk_path := cp_on_sent now (lk_path m), lk_air := insert f (lk_air m)\<rparr> else m)"
    by (simp add: sched_turn_def n m_def f_def Let_def)
  then show "lk_drawn (sched_turn now queued l) = lk_drawn l" by (simp add: m_def)
  show "link_inv (sched_turn now queued l)"
  proof (cases "cs_action st = CA_Send \<and> queued")
    case True
    with next_send [of now "lk_path l"] n have "st = cp_send_step (lk_path m)" "cp_phase (lk_path m) = PP_SendDue"
      by (simp_all add: m_def)
    note sent = path_inv_send(1) [OF _ _ this(2,1) f_def, of now] path_inv_send(2) [OF _ _ this(2,1) f_def]
    have "node_inv (m\<lparr>lk_path := cp_on_sent now (lk_path m), lk_air := insert f (lk_air m)\<rparr>)"
      by (rule node_inv_bridge [of m]) (use m in \<open>auto simp: link_inv_def\<close>)
    moreover have "air_inv (m\<lparr>lk_path := cp_on_sent now (lk_path m), lk_air := insert f (lk_air m)\<rparr>)"
      using sent(2) m by (simp add: link_inv_def air_inv_def)
    ultimately have "link_inv (m\<lparr>lk_path := cp_on_sent now (lk_path m), lk_air := insert f (lk_air m)\<rparr>)"
      using sent(1) m by (simp add: link_inv_def)
    then show ?thesis unfolding turn using True by presburger
  qed (auto simp: turn m)
qed

lemma link_submit_fields:
  "cp_phase p = PP_Idle \<Longrightarrow> let p' = snd (cp_submit req ctx q now p) in
     cp_req p' = req \<and> cp_ctx p' = ctx \<and> cp_seq p' = q \<and> cp_phase p' = PP_SendDue"
  by (simp add: cp_submit_def)

lemma admit_inv:
  assumes "link_inv l"
  shows "link_inv (admit req now l)" "lk_drawn l \<le> lk_drawn (admit req now l)"
proof -
  have "link_inv (admit req now l) \<and> lk_drawn l \<le> lk_drawn (admit req now l)"
  proof (cases "admit req now l = l")
    case False
    then obtain ns q reg where a: "cp_phase (lk_path l) = PP_Idle" and ns: "rg_state (cr_dst req) (lk_reg l) = Some ns"
      and b: "rg_take_cmd_seq (cr_dst req) (lk_reg l) = (Some q, reg)"
      "admit req now l = l\<lparr>lk_reg := reg, lk_path := snd (cp_submit req (nst_ctx_id ns) q now (lk_path l)),
         lk_asked := lk_asked l @ [req], lk_drawn := lk_drawn l + 1\<rparr>"
      by (auto simp: admit_def cp_busy_def split: if_splits option.splits prod.splits)
    let ?l = "admit req now l"
    have i: "path_inv l" "air_inv l" "node_inv l" using assms by (simp_all add: link_inv_def)
    have "seqs_to (lk_drawn l) (lk_reg l)" using i(1) by (simp add: path_inv_def)
    note t = take_seqs_to [OF this b(1)] and p = link_submit_fields [OF a, of req "nst_ctx_id ns" q now, unfolded Let_def]
    have named: "af_id f \<noteq> Some (length (lk_asked l))" if "f \<in> lk_air l" for f
      using i(2) that by (auto simp: air_inv_def names_asked_def)
    have "path_inv ?l" using t p named by (auto simp: path_inv_def b(2))
    moreover have "air_inv ?l"
      using i(2) by (auto simp: air_inv_def b(2) names_asked_def one_seal_def nth_append)
    moreover have "node_inv ?l"
      by (rule node_inv_bridge [OF node_inv_asked [OF i(2,3), of req]]) (simp_all add: b(2))
    ultimately show ?thesis by (simp add: link_inv_def b(2))
  qed (simp add: assms)
  then show "link_inv (admit req now l)" "lk_drawn l \<le> lk_drawn (admit req now l)" by simp_all
qed

text \<open>Another sender draws a number and sends.\<close>

lemma other_inv:
  assumes "link_inv l" "lk_drawn l \<le> n" "seqs_to n reg" "unat q \<le> n"
  shows "link_inv (l\<lparr>lk_reg := reg, lk_drawn := n,
    lk_air := insert \<lparr>af_ctx = ctx, af_seq = q, af_id = None, af_cmd = c\<rparr> (lk_air l)\<rparr>)" (is "link_inv ?l")
proof -
  have i: "path_inv l" "air_inv l" "node_inv l" using assms(1) by (simp_all add: link_inv_def)
  have "path_inv ?l" using i(1) assms(2,3) by (auto simp: path_inv_def)
  moreover have "air_inv ?l"
    using i(2) assms(2,4) by (auto simp: air_inv_def names_asked_def one_seal_def)
  moreover have "node_inv ?l" by (rule node_inv_bridge [OF i(3)]) (use assms(2) in auto)
  ultimately show ?thesis by (simp add: link_inv_def)
qed

text \<open>The node executes what its gate releases, and then its mark covers the frame.\<close>

lemma reach_inv:
  assumes "link_inv l" "f \<in> lk_air l" "lk_drawn l < 32768"
  shows "link_inv (reach_node f l)"
proof (cases "af_ctx f = cg_ctx_id (lk_gate l) \<and> gr_verdict (fst (cg_check (af_seq f) (lk_gate l))) = V_Execute")
  case False
  then have "cg_high_water (snd (cg_check (af_seq f) (lk_gate l))) = cg_high_water (lk_gate l)"
    if "af_ctx f = cg_ctx_id (lk_gate l)" using gate.others_keep that by blast
  moreover have "cg_ctx_id (snd (cg_check (af_seq f) (lk_gate l))) = cg_ctx_id (lk_gate l)"
    by (auto simp: cg_check_def cg_bump_def cg_evict_oldest_def Let_def split: option.split)
  ultimately show ?thesis
    using assms(1) False by (auto simp: reach_node_def Let_def link_inv_def path_inv_def air_inv_def node_inv_def spent_def split_beta)
next
  case True
  let ?g = "snd (cg_check (af_seq f) (lk_gate l))"
  have i: "path_inv l" "air_inv l" "node_inv l" using assms(1) by (simp_all add: link_inv_def)
  have mark: "cg_high_water ?g = af_seq f" "seq_newer (af_seq f) (cg_high_water (lk_gate l))"
    using True gate.execute_marks gate.execute_newer by blast+
  have ctx: "cg_ctx_id ?g = cg_ctx_id (lk_gate l)"
    by (auto simp: cg_check_def cg_bump_def cg_evict_oldest_def Let_def split: option.split)
  have seq: "unat (af_seq f) \<le> lk_drawn l" using i(2) assms(2) by (simp add: air_inv_def)
  have less: "unat (cg_high_water (lk_gate l)) < unat (af_seq f)"
    by (rule seq_newer_small [OF _ _ mark(2)]) (use i(3) seq assms(3) in \<open>simp_all add: node_inv_def\<close>)
  let ?l = "l\<lparr>lk_gate := ?g, lk_ran := lk_ran l @ [(af_id f, af_cmd f)]\<rparr>"
  have l: "reach_node f l = ?l" using True by (simp add: reach_node_def Let_def split_beta)
  have old: "spent ?l g" if "spent l g" for g using that less by (auto simp: spent_def mark ctx)
  have new: "spent ?l f" using assms(2) True i(3) by (simp add: spent_def mark ctx node_inv_def)
  have "length (filter (\<lambda>r. fst r = Some i) (lk_ran ?l)) \<le> 1" if "i < length (lk_asked l)" "final (lk_asked l ! i)" for i
  proof (cases "af_id f = Some i")
    case True': True
    have "fst r \<noteq> Some i" if r: "r \<in> set (lk_ran l)" for r
    proof
      assume "fst r = Some i"
      with r i(3) obtain g where g: "spent l g" "af_id g = Some i" by (auto simp: node_inv_def)
      with i(2) assms(2) True' \<open>final (lk_asked l ! i)\<close> have "same_seal g f"
        by (auto simp: air_inv_def spent_def one_seal_def)
      with g(1) True less show False by (simp add: spent_def same_seal_def)
    qed
    then show ?thesis by (simp add: filter_False)
  next
    case False
    with i(3) that show ?thesis by (simp add: node_inv_def)
  qed
  moreover have "\<exists>g. spent ?l g \<and> af_id g = fst r \<and> af_cmd g = snd r" if "r \<in> set (lk_ran ?l)" for r
  proof (cases "r \<in> set (lk_ran l)")
    case True
    with i(3) old show ?thesis by (meson node_inv_def)
  next
    case False
    with that have "r = (af_id f, af_cmd f)" by simp
    with new show ?thesis by (metis fst_conv snd_conv)
  qed
  ultimately have "node_inv ?l" using seq i(3) by (simp add: node_inv_def mark ctx)
  with i show ?thesis by (simp add: l link_inv_def path_inv_def air_inv_def)
qed

lemma context_inv:
  assumes "link_inv l" "c \<notin> lk_used l"
  shows "link_inv (l\<lparr>lk_gate := cg_reset_context c g, lk_used := insert c (lk_used l)\<rparr>)" (is "link_inv ?l")
proof -
  have "spent ?l f" if "spent l f" for f using that assms(2) by (auto simp: spent_def cg_reset_context_def)
  then have "node_inv ?l" using assms(1) unfolding node_inv_def link_inv_def
    by (simp add: cg_reset_context_def) blast
  with assms(1) show ?thesis by (simp add: link_inv_def path_inv_def air_inv_def)
qed

lemma gate_inv:
  "link_inv l \<Longrightarrow> cg_high_water g = cg_high_water (lk_gate l) \<Longrightarrow> cg_ctx_id g = cg_ctx_id (lk_gate l) \<Longrightarrow>
     link_inv (l\<lparr>lk_gate := g\<rparr>)"
  by (simp add: link_inv_def path_inv_def air_inv_def node_inv_def spent_def)

lemma gate_ctx_keeps [simp]:
  "cg_ctx_id (cg_evict_oldest g) = cg_ctx_id g" "cg_ctx_id (snd (cg_record q r d g)) = cg_ctx_id g"
  by (simp_all add: cg_evict_oldest_def cg_record_def split: option.split)

lemma shrink_ctx [simp]: "cg_ctx_id (cg_shrink g) = cg_ctx_id g"
  by (induction g rule: cg_shrink.induct) (simp add: cg_shrink.simps)

lemma load_seqs_to: "seqs_to n (rg_load kdf master Registry_new)"
  by (auto simp: seqs_to_def rg_load_def NodeState_init_def)

lemma restart_inv:
  "link_inv l \<Longrightarrow> link_inv (l\<lparr>lk_path := CommandPath_new, lk_reg := rg_load kdf master Registry_new\<rparr>)"
  by (simp add: link_inv_def path_inv_def air_inv_def node_inv_def spent_def load_seqs_to CommandPath_new_def live_def)

lemma link_step_inv:
  assumes "link_step l l'" "lk_drawn l' < 32768" "link_inv l"
  shows "link_inv l'"
  using assms
proof cases
  case (ls_other node q reg ctx c)
  have "seqs_to (lk_drawn l) (lk_reg l)" using assms(3) by (simp add: link_inv_def path_inv_def)
  from take_seqs_to [OF this ls_other(2)] show ?thesis
    unfolding ls_other(1) by (intro other_inv assms(3)) simp_all
next
  case (ls_other_resync ctx c node)
  have "link_inv (l\<lparr>lk_reg := snd (rg_adopt_ctx node ctx (lk_reg l)), lk_drawn := lk_drawn l,
      lk_air := insert \<lparr>af_ctx = ctx, af_seq = 1, af_id = None, af_cmd = c\<rparr> (lk_air l)\<rparr>)"
    by (rule other_inv) (use assms(3) ls_other_resync in \<open>auto simp: link_inv_def path_inv_def intro: adopt_seqs_to\<close>)
  then show ?thesis by (simp add: ls_other_resync(1))
next
  case (ls_observe hdr rssi snr now)
  have "seqs_to (lk_drawn l) (lk_reg l)" using assms(3) by (simp add: link_inv_def path_inv_def)
  then show ?thesis unfolding ls_observe by (intro link_inv_reg observe_seqs_to assms(3))
next
  case (ls_deliver f)
  moreover have "lk_drawn (reach_node f l) = lk_drawn l" by (simp add: reach_node_def Let_def split_beta)
  ultimately show ?thesis using assms by (auto intro: reach_inv)
next
  case (ls_depth n)
  with assms(3) show ?thesis by (auto intro!: gate_inv simp: cg_set_cache_depth_def Let_def)
qed (use assms(3) in \<open>auto intro!: admit_inv sched_turn_inv link_inv_path on_aired_carries levers_carries on_ack_carries
  context_inv restart_inv gate_inv simp: gate.record_keeps\<close>)

lemma drawn_grows: "link_step l l' \<Longrightarrow> lk_drawn l \<le> lk_drawn l'"
  by (erule link_step.cases)
    (auto simp: admit_def sched_turn_def reach_node_def Let_def split_beta split: option.split prod.split)

lemma link_start_inv: "seqs_to 0 reg \<Longrightarrow> link_inv (Link_start reg c)"
  by (simp add: link_inv_def path_inv_def air_inv_def node_inv_def Link_start_def CommandPath_new_def live_def
      cg_reset_context_def)

lemma link_reachable_inv:
  "link_step\<^sup>*\<^sup>* l l' \<Longrightarrow> link_inv l \<Longrightarrow> lk_drawn l' < 32768 \<Longrightarrow> link_inv l'"
proof (induction rule: rtranclp_induct)
  case (step m l')
  show ?case
  proof (cases "lk_drawn m < 32768")
    case True
    with step show ?thesis by (blast intro: link_step_inv)
  next
    case False
    then show ?thesis using drawn_grows [OF step(2)] step.prems by simp
  qed
qed simp

section \<open>Properties\<close>

text \<open>
  C9: an actuation runs at most once. Whatever the link loses, delays, repeats or reorders,
  whatever acknowledgements the bridge hears, true or false, and however often the node or the
  bridge restarts in between, a gate command that was submitted once is executed at most once, and
  what is executed is the command that was asked for; provided that the node does not reuse a
  context and fewer than \<open>2 ^ 15\<close> sequence numbers were drawn.
\<close>

theorem actuation_runs_at_most_once:
  assumes "link_step\<^sup>*\<^sup>* (Link_start (rg_load kdf master Registry_new) c) l" "lk_drawn l < 32768"
    "i < length (lk_asked l)" "\<not> resync_may_retry (cr_cmd (lk_asked l ! i))"
  shows "length (filter (\<lambda>r. fst r = Some i) (lk_ran l)) \<le> 1 \<and>
    (\<forall>cmd. (Some i, cmd) \<in> set (lk_ran l) \<longrightarrow> cmd = command_of (lk_asked l ! i))"
proof -
  have inv: "link_inv l" by (rule link_reachable_inv [OF assms(1) link_start_inv [OF load_seqs_to] assms(2)])
  then have "air_inv l" "node_inv l" by (simp_all add: link_inv_def)
  with ran_asked [OF this] assms(3,4) show ?thesis by (auto simp: node_inv_def final_def)
qed

text \<open>An open command, its first frame delivered twice around a retry.\<close>

definition open_request :: CommandRequest where
  "open_request = \<lparr>cr_dst = kNodeGateLink, cr_cmd = Cmd_Open, cr_arg = 0, cr_arg2 = 0\<rparr>"

definition open_frame :: AirFrame where
  "open_frame = \<lparr>af_ctx = 5, af_seq = 1, af_id = Some 0, af_cmd = command_of open_request\<rparr>"

definition open_sent :: Link where
  "open_sent = sched_turn 10 True (admit open_request 5
     (let l = Link_start (rg_load (\<lambda>m i. m) [] Registry_new) 5
      in l\<lparr>lk_reg := snd (rg_observe (Header_init\<lparr>h_src := kNodeGateLink, h_ctx_id := 5\<rparr>) 0 0 1 (lk_reg l))\<rparr>))"

definition open_retried :: Link where
  "open_retried = reach_node open_frame (sched_turn 4000 True (reach_node open_frame open_sent))"

lemma open_retried_facts:
  "open_frame \<in> lk_air open_sent" "lk_air (sched_turn 4000 True (reach_node open_frame open_sent)) = {open_frame}"
  "lk_drawn open_retried = 1" "lk_asked open_retried = [open_request]" "lk_ran open_retried \<noteq> []"
  "cst_sent (cp_stats (lk_path open_retried)) = 2"
  by code_simp+

theorem actuation_runs_at_most_once_witness:
  "cst_sent (cp_stats (lk_path open_retried)) = 2 \<and> length (filter (\<lambda>r. fst r = Some 0) (lk_ran open_retried)) \<le> 1"
proof -
  let ?s = "Link_start (rg_load (\<lambda>m i. m) [] Registry_new) 5"
  have "link_step\<^sup>*\<^sup>* ?s open_sent"
    unfolding open_sent_def Let_def
    by (blast intro: ls_observe ls_admit ls_sched rtranclp.rtrancl_into_rtrancl)
  moreover have "link_step open_sent (reach_node open_frame open_sent)"
    "link_step (sched_turn 4000 True (reach_node open_frame open_sent)) open_retried"
    unfolding open_retried_def using open_retried_facts(1,2) by (auto intro: ls_deliver)
  ultimately have "link_step\<^sup>*\<^sup>* ?s open_retried"
    by (meson ls_sched rtranclp.rtrancl_into_rtrancl)
  from actuation_runs_at_most_once [OF this, of 0] show ?thesis
    by (simp add: open_retried_facts(3,4,6) open_request_def resync_may_retry_def)
qed

section \<open>After a resync\<close>

text \<open>
  C12: a resync gives its sequence number out twice. When a command that may be retried draws
  \<open>REJECTED_CTX\<close>, the retry goes out under number 1 of the node's context and the registry is reset
  to number 1 of that context, without counting the retry: the next command to the node takes
  number 1 again, which a gate whose mark the retry moved to 1 does not execute.
\<close>

theorem resync_number_is_reused:
  assumes "cp_phase (lk_path l) = PP_AwaitingAck" "\<not> cp_resync_used (lk_path l)"
    "resync_may_retry (cr_cmd (cp_req (lk_path l)))" "node = cr_dst (cp_req (lk_path l))"
    "rg_is_registered node (lk_reg l)" "ca_ack_seq ack = cp_seq (lk_path l)"
    "ca_result ack = AckResult_u8 AR_RejectedCtx"
    "l' = sched_turn later True (l\<lparr>lk_path := cp_on_ack node ack ctx now (lk_path l)\<rparr>)"
  shows "(\<exists>f \<in> lk_air l'. af_ctx f = ctx \<and> af_seq f = 1 \<and> af_cmd f = command_of (cp_req (lk_path l))) \<and>
    fst (rg_take_cmd_seq node (lk_reg l')) = Some 1 \<and>
    map_option nst_ctx_id (rg_state node (lk_reg l')) = Some ctx \<and>
    (cg_high_water g = 1 \<longrightarrow> gr_verdict (fst (cg_check 1 g)) \<noteq> V_Execute)"
proof -
  let ?p = "cp_on_ack node ack ctx now (lk_path l)"
  have p: "cp_phase ?p = PP_SendDue" "cp_ctx ?p = ctx" "cp_seq ?p = 1" "cp_req ?p = cp_req (lk_path l)" "cp_ctx_adopted ?p"
    using assms by (simp_all add: cp_on_ack_def cp_count_def)
  then have n: "cp_next later ?p = (cp_send_step ?p, ?p)" by (simp add: cp_next_def cp_close_window_def Let_def)
  have st: "cs_action (cp_send_step ?p) = CA_Send" "cs_ctx_adopted (cp_send_step ?p)" "cs_ctx_id (cp_send_step ?p) = ctx"
    "cs_seq (cp_send_step ?p) = 1" "cs_dst (cp_send_step ?p) = node"
    "step_command (cp_send_step ?p) = command_of (cp_req (lk_path l))"
    using p assms(4) by (simp_all add: cp_send_step_def step_command_def command_of_def)
  obtain i where i: "rg_index node (lk_reg l) = Some i" using assms(5) by (auto simp: rg_is_registered_def)
  let ?f = "\<lambda>s. s\<lparr>nst_ctx_id := ctx, nst_cmd_seq := 1\<rparr>"
  have reg: "lk_reg l' = reg_put i ?f (lk_reg l)"
    by (simp add: assms(8) sched_turn_def n st Let_def rg_adopt_ctx_def rg_update_def i)
  have state: "rg_state node (lk_reg l') = Some (?f (re_state (rg_entries (lk_reg l) ! i)))"
    unfolding reg by (rule reg_put_state(1) [OF i])
  have idx: "rg_index node (lk_reg l') = Some i" by (simp add: reg i)
  have "re_state (rg_entries (lk_reg l') ! i) = ?f (re_state (rg_entries (lk_reg l) ! i))"
    using state idx by (simp add: rg_state_def)
  then have "fst (rg_take_cmd_seq node (lk_reg l')) = Some 1"
    by (simp add: rg_take_cmd_seq_def idx Let_def)
  moreover have "\<exists>f \<in> lk_air l'. af_ctx f = ctx \<and> af_seq f = 1 \<and> af_cmd f = command_of (cp_req (lk_path l))"
    by (simp add: assms(8) sched_turn_def n st Let_def)
  moreover have "cg_high_water g = 1 \<longrightarrow> gr_verdict (fst (cg_check 1 g)) \<noteq> V_Execute"
    using gate.execute_newer [of 1 g] by auto
  ultimately show ?thesis using state by simp
qed

text \<open>
  A status request resynchronises the bridge with a node that restarted; the open command after it
  is answered as a duplicate and not run.
\<close>

definition status_request :: CommandRequest where
  "status_request = open_request\<lparr>cr_cmd := Cmd_RequestStatus\<rparr>"

definition resync_start :: Link where
  "resync_start = (let l = sched_turn 10 True (admit status_request 5
     (let l = Link_start (rg_load (\<lambda>m i. m) [] Registry_new) 5
      in l\<lparr>lk_reg := snd (rg_observe (Header_init\<lparr>h_src := kNodeGateLink, h_ctx_id := 5\<rparr>) 0 0 1 (lk_reg l))\<rparr>))
     in l\<lparr>lk_gate := cg_reset_context 6 (lk_gate l)\<rparr>)"

definition ack_of :: "Seq \<Rightarrow> AckResult \<Rightarrow> CommandAck" where
  "ack_of q r = \<lparr>ca_ack_seq = q, ca_result = AckResult_u8 r, ca_detail = 0\<rparr>"

definition resynced :: Link where
  "resynced = sched_turn 60 True (resync_start\<lparr>lk_path := cp_on_ack kNodeGateLink (ack_of 1 AR_RejectedCtx) 6 50 (lk_path resync_start)\<rparr>)"

definition second_asked :: Link where
  "second_asked = (let l = reach_node \<lparr>af_ctx = 6, af_seq = 1, af_id = Some 0, af_cmd = command_of status_request\<rparr> resynced;
       l = l\<lparr>lk_gate := snd (cg_record 1 AR_Accepted 0 (lk_gate l)),
             lk_path := cp_on_ack kNodeGateLink (ack_of 1 AR_Accepted) 6 70 (lk_path l)\<rparr>
     in reach_node \<lparr>af_ctx = 6, af_seq = 1, af_id = Some 1, af_cmd = command_of open_request\<rparr>
          (sched_turn 100 True (admit open_request 90 (sched_turn 80 True l))))"

theorem resync_number_is_reused_witness:
  "fst (rg_take_cmd_seq kNodeGateLink (lk_reg resynced)) = Some 1 \<and>
   \<lparr>af_ctx = 6, af_seq = 1, af_id = Some 1, af_cmd = command_of open_request\<rparr> \<in> lk_air second_asked \<and>
   lk_ran second_asked = [(Some 0, command_of status_request)]"
proof -
  have "cp_phase (lk_path resync_start) = PP_AwaitingAck" "\<not> cp_resync_used (lk_path resync_start)"
    "resync_may_retry (cr_cmd (cp_req (lk_path resync_start)))" "kNodeGateLink = cr_dst (cp_req (lk_path resync_start))"
    "rg_is_registered kNodeGateLink (lk_reg resync_start)"
    "ca_ack_seq (ack_of 1 AR_RejectedCtx) = cp_seq (lk_path resync_start)"
    "ca_result (ack_of 1 AR_RejectedCtx) = AckResult_u8 AR_RejectedCtx"
    by code_simp+
  from resync_number_is_reused [OF this resynced_def]
  have "fst (rg_take_cmd_seq kNodeGateLink (lk_reg resynced)) = Some 1" by simp
  moreover have "\<lparr>af_ctx = 6, af_seq = 1, af_id = Some 1, af_cmd = command_of open_request\<rparr> \<in> lk_air second_asked"
    "lk_ran second_asked = [(Some 0, command_of status_request)]"
    by code_simp+
  ultimately show ?thesis by simp
qed

end
