(* ===== verification/BridgePhy.thy ===== *)
theory BridgePhy
  imports PhyTrialCorrect BridgeRegistry Clock
begin

text \<open>
  The bridge's half of a fleet PHY change (\<open>firmware/bridge/src\<close>: \<open>phy_change.h\<close>,
  \<open>phy_change.cpp\<close>): every node is asked to accept the new group, the bridge retunes last, hears
  every node on the new settings, commits, and confirms each node with an authenticated GET. The
  fixed arrays of the machine are lists of \<open>kMaxPhyFleet\<close> places; the fleet is the list of its nodes.
\<close>

section \<open>The group\<close>

definition kBridgePhyIds :: "u16 list" where
  "kBridgePhyIds = [0x0010, 0x0011, 0x0012, 0x0013, 0x0014, 0x0015]"

definition kNodePhyIds :: "u16 list" where
  "kNodePhyIds = [0x0110, 0x0111, 0x0112, 0x0113, 0x0114, 0x0115]"

abbreviation kPhyTrialS :: nat where "kPhyTrialS \<equiv> 5"

definition bridge_phy_row :: "nat \<Rightarrow> ParamDef option" where
  "bridge_phy_row i = (if i \<ge> kPhyGroupSize then None else List.find (\<lambda>d. pd_id d = kBridgePhyIds ! i) kBridgeParams)"

definition phy_index_of :: "u16 \<Rightarrow> nat" where
  "phy_index_of pid = (case List.find (\<lambda>i. kBridgePhyIds ! i = pid \<or> kNodePhyIds ! i = pid) [0..<kPhyGroupSize] of
     None \<Rightarrow> kPhyGroupSize | Some i \<Rightarrow> i)"

definition bridge_phy_config :: "PhyGroup \<Rightarrow> PhyConfig \<Rightarrow> PhyConfig option" where
  "bridge_phy_config g base =
     (let p = base\<lparr>pc_freq_hz := word_of_int (g ! 0), pc_sf := word_of_int (g ! 1),
                   pc_bw_khz10 := word_of_int (g ! 2 * 10), pc_cr_denom := word_of_int (g ! 3),
                   pc_conducted_dbm := word_of_int (g ! 4)\<rparr>
      in if \<not> within_eirp_ceiling p then None else Some p)"

text \<open>An entry that does not pack is left cleared, as \<open>clear_config\<close> made it.\<close>

definition build_phy_set :: "PhyGroup \<Rightarrow> NodeConfigV1" where
  "build_phy_set g = \<lparr>nc_op = CO_Set, nc_entries = map (\<lambda>i.
     let d = the (bridge_phy_row i); v = (word_of_int (g ! i) :: u32);
         raw = (if ptype_width (pd_type d) = 1 then v AND 0xFF else if ptype_width (pd_type d) = 2 then v AND 0xFFFF else v)
     in case entry_pack (kNodePhyIds ! i) (pd_type d) raw of None \<Rightarrow> ConfigEntry_init | Some e \<Rightarrow> e) [0..<kPhyGroupSize]\<rparr>"

definition build_phy_get :: NodeConfigV1 where
  "build_phy_get = \<lparr>nc_op = CO_Get, nc_entries = map (\<lambda>i.
     ConfigEntry_init\<lparr>ce_param_id := kNodePhyIds ! i, ce_ptype := pd_type (the (bridge_phy_row i))\<rparr>) [0..<kPhyGroupSize]\<rparr>"

section \<open>The machine\<close>

datatype PhyAction = PY_None | PY_SendSet | PY_Retune | PY_SendPoll | PY_Commit | PY_SendGet | PY_NodeConfirmed
  | PY_Abandon | PY_Readback

datatype PhyReason = PR_None | PR_NotAccepted | PR_NotHeard | PR_CommitFailed

record PhyStep =
  phs_action :: PhyAction
  phs_dst :: NodeId
  phs_group :: PhyGroup
  phs_reason :: PhyReason
  phs_culprit :: NodeId
  phs_retuned :: bool
  phs_results :: "ConfigAckEntry list"

definition PhyGroup_init :: PhyGroup where "PhyGroup_init = replicate kPhyGroupSize 0"

definition PhyStep_init :: PhyStep where
  "PhyStep_init = \<lparr>phs_action = PY_None, phs_dst = 0, phs_group = PhyGroup_init, phs_reason = PR_None, phs_culprit = 0,
     phs_retuned = False, phs_results = []\<rparr>"

record PhyChangeStats =
  pcs_started :: u32
  pcs_committed :: u32
  pcs_not_accepted :: u32
  pcs_not_heard :: u32
  pcs_get_resent :: u32
  pcs_confirm_missed :: u32

definition kMaxPhyFleet :: nat where "kMaxPhyFleet = 8"

datatype PhyPhase = PF_Idle | PF_SetDue | PF_AwaitingSetAck | PF_RetuneDue | PF_AwaitingRetune | PF_Hearing | PF_CommitDue
  | PF_GetDue | PF_AwaitingGet | PF_Confirmed | PF_AbandonDue | PF_Cooldown | PF_ReadbackDue

record PhyChange =
  phc_phase :: PhyPhase
  phc_from :: PhyGroup
  phc_to :: PhyGroup
  phc_fleet :: "NodeId list"
  phc_index :: nat
  phc_seq :: Seq
  phc_first_get_seq :: Seq
  phc_get_attempts :: u8
  phc_sent_ms :: u32
  phc_have_first_ack :: bool
  phc_first_ack_ms :: u32
  phc_ack_ms :: "u32 list"
  phc_last_open_ms :: u32
  phc_retuned :: bool
  phc_retuned_ms :: u32
  phc_heard :: "bool list"
  phc_polled_ms :: "u32 list"
  phc_polled :: "bool list"
  phc_reason :: PhyReason
  phc_culprit :: NodeId
  phc_readback_owed :: bool
  phc_confirm :: "ConfigAckEntry list"
  phc_ack_timeout_ms :: u32
  phc_stats :: PhyChangeStats

definition PhyChange_new :: PhyChange where
  "PhyChange_new = \<lparr>phc_phase = PF_Idle, phc_from = PhyGroup_init, phc_to = PhyGroup_init, phc_fleet = [], phc_index = 0,
     phc_seq = 0, phc_first_get_seq = 0, phc_get_attempts = 0, phc_sent_ms = 0, phc_have_first_ack = False,
     phc_first_ack_ms = 0, phc_ack_ms = replicate kMaxPhyFleet 0, phc_last_open_ms = 0, phc_retuned = False,
     phc_retuned_ms = 0, phc_heard = replicate kMaxPhyFleet False, phc_polled_ms = replicate kMaxPhyFleet 0,
     phc_polled = replicate kMaxPhyFleet False, phc_reason = PR_None, phc_culprit = 0, phc_readback_owed = False,
     phc_confirm = [], phc_ack_timeout_ms = 8000,
     phc_stats = \<lparr>pcs_started = 0, pcs_committed = 0, pcs_not_accepted = 0, pcs_not_heard = 0, pcs_get_resent = 0,
       pcs_confirm_missed = 0\<rparr>\<rparr>"

definition phc_count :: "(PhyChangeStats \<Rightarrow> PhyChangeStats) \<Rightarrow> PhyChange \<Rightarrow> PhyChange" where
  "phc_count f p = p\<lparr>phc_stats := f (phc_stats p)\<rparr>"

definition phc_set_ack_timeout_ms :: "u32 \<Rightarrow> PhyChange \<Rightarrow> PhyChange" where
  "phc_set_ack_timeout_ms ms p = p\<lparr>phc_ack_timeout_ms := ms\<rparr>"

definition phc_busy :: "PhyChange \<Rightarrow> bool" where
  "phc_busy p \<longleftrightarrow> phc_phase p \<noteq> PF_Idle"

definition phc_blocks_traffic :: "PhyChange \<Rightarrow> bool" where
  "phc_blocks_traffic p \<longleftrightarrow> phc_phase p \<notin> {PF_Idle, PF_AbandonDue, PF_Cooldown, PF_ReadbackDue}"

text \<open>The signed distance of two readings of the clock.\<close>

definition ms_since :: "u32 \<Rightarrow> u32 \<Rightarrow> int" where
  "ms_since now_ms then_ms = sint (now_ms - then_ms)"

definition phc_trial_ms :: "PhyChange \<Rightarrow> u32" where
  "phc_trial_ms p = word_of_int (phc_to p ! kPhyTrialS) * 1000"

definition phc_deadline_passed :: "u32 \<Rightarrow> PhyChange \<Rightarrow> bool" where
  "phc_deadline_passed now_ms p \<longleftrightarrow> phc_have_first_ack p \<and>
     ms_since now_ms (phc_first_ack_ms p) \<ge> uint (phc_trial_ms p) - int (length (phc_fleet p)) * uint (phc_ack_timeout_ms p)"

definition phc_start :: "PhyGroup \<Rightarrow> PhyGroup \<Rightarrow> NodeId list \<Rightarrow> u32 \<Rightarrow> PhyChange \<Rightarrow> bool \<times> PhyChange" where
  "phc_start from to fleet now_ms p =
     (if phc_phase p \<noteq> PF_Idle \<or> fleet = [] \<or> length fleet > kMaxPhyFleet \<or> from = to then (False, p)
      else (True, phc_count (\<lambda>s. s\<lparr>pcs_started := pcs_started s + 1\<rparr>)
        (PhyChange_new\<lparr>phc_ack_timeout_ms := phc_ack_timeout_ms p, phc_stats := phc_stats p, phc_from := from, phc_to := to,
           phc_fleet := fleet, phc_sent_ms := now_ms, phc_phase := PF_SetDue\<rparr>)))"

definition phc_abandon :: "PhyReason \<Rightarrow> NodeId \<Rightarrow> PhyChange \<Rightarrow> PhyChange" where
  "phc_abandon reason culprit p = phc_count (\<lambda>s. s\<lparr>
       pcs_not_accepted := (if reason = PR_NotAccepted then pcs_not_accepted s + 1 else pcs_not_accepted s),
       pcs_not_heard := (if reason = PR_NotHeard then pcs_not_heard s + 1 else pcs_not_heard s)\<rparr>)
     (p\<lparr>phc_reason := reason, phc_culprit := culprit, phc_phase := PF_AbandonDue\<rparr>)"

definition phc_next_get :: "PhyChange \<Rightarrow> PhyChange" where
  "phc_next_get p = (let i = phc_index p + 1
     in p\<lparr>phc_index := i, phc_get_attempts := 0, phc_phase := (if i < length (phc_fleet p) then PF_GetDue else PF_Idle)\<rparr>)"

text \<open>The first node not yet heard.\<close>

definition phc_unheard :: "PhyChange \<Rightarrow> nat option" where
  "phc_unheard p = List.find (\<lambda>i. \<not> phc_heard p ! i) [0..<length (phc_fleet p)]"

text \<open>
  \<open>next\<close>, first the changes of phase that come before a step is emitted: each ends in a phase that
  emits at once or waits.
\<close>

definition phc_settle :: "u32 \<Rightarrow> PhyChange \<Rightarrow> PhyChange" where
  "phc_settle now_ms p =
     (case phc_phase p of
        PF_SetDue \<Rightarrow> if phc_deadline_passed now_ms p then phc_abandon PR_NotAccepted (phc_fleet p ! phc_index p) p else p
      | PF_AwaitingSetAck \<Rightarrow>
          if ms_since now_ms (phc_sent_ms p) \<ge> uint (phc_ack_timeout_ms p)
            then phc_abandon PR_NotAccepted (phc_fleet p ! phc_index p)
                   (p\<lparr>phc_readback_owed := True, phc_last_open_ms := phc_sent_ms p\<rparr>)
          else if phc_deadline_passed now_ms p
            then phc_abandon PR_NotAccepted (phc_fleet p ! phc_index p) (p\<lparr>phc_last_open_ms := phc_sent_ms p\<rparr>)
          else p
      | PF_AwaitingRetune \<Rightarrow>
          if phc_deadline_passed now_ms p
            then phc_abandon PR_NotHeard (phc_fleet p ! (case phc_unheard p of Some i \<Rightarrow> i | None \<Rightarrow> 0)) p else p
      | PF_Hearing \<Rightarrow>
          if phc_unheard p = None then p\<lparr>phc_phase := PF_CommitDue\<rparr>
          else if phc_deadline_passed now_ms p
            then phc_abandon PR_NotHeard (phc_fleet p ! (case phc_unheard p of Some i \<Rightarrow> i | None \<Rightarrow> 0)) p else p
      | PF_AwaitingGet \<Rightarrow>
          if ms_since now_ms (phc_sent_ms p) < uint (phc_ack_timeout_ms p) then p
          else if ms_since now_ms (phc_ack_ms p ! phc_index p) \<ge> uint (phc_trial_ms p)
            then phc_next_get (phc_count (\<lambda>s. s\<lparr>pcs_confirm_missed := pcs_confirm_missed s + 1\<rparr>) p)
          else (phc_count (\<lambda>s. s\<lparr>pcs_get_resent := pcs_get_resent s + 1\<rparr>) p)\<lparr>phc_phase := PF_GetDue\<rparr>
      | PF_Cooldown \<Rightarrow>
          if ms_since now_ms (phc_last_open_ms p) < uint (phc_trial_ms p) then p
          else p\<lparr>phc_phase := (if phc_readback_owed p then PF_ReadbackDue else PF_Idle)\<rparr>
      | _ \<Rightarrow> p)"

text \<open>Whose turn a POLL is: nobody's while an answer is due, else in turn after the last one polled.\<close>

definition poll_due :: "u32 \<Rightarrow> PhyChange \<Rightarrow> nat \<Rightarrow> bool" where
  "poll_due now_ms p i \<longleftrightarrow> phc_polled p ! i \<and> ms_since now_ms (phc_polled_ms p ! i) < uint (phc_ack_timeout_ms p)"

definition phc_poll_turn :: "u32 \<Rightarrow> PhyChange \<Rightarrow> nat option" where
  "phc_poll_turn now_ms p =
     (let n = length (phc_fleet p)
      in if list_ex (\<lambda>i. \<not> phc_heard p ! i \<and> poll_due now_ms p i) [0..<n] then None
         else let first = (if list_ex (\<lambda>i. phc_polled p ! i) [0..<n] then phc_index p + 1 else 0)
              in List.find (\<lambda>i. \<not> phc_heard p ! i \<and> \<not> poll_due now_ms p i) (map (\<lambda>k. (first + k) mod n) [0..<n]))"

definition phc_emit :: "u32 \<Rightarrow> PhyChange \<Rightarrow> PhyStep \<times> PhyChange" where
  "phc_emit now_ms p =
     (let s0 = PhyStep_init; dst = phc_fleet p ! phc_index p in
      case phc_phase p of
        PF_SetDue \<Rightarrow> (s0\<lparr>phs_action := PY_SendSet, phs_dst := dst, phs_group := phc_to p\<rparr>, p)
      | PF_RetuneDue \<Rightarrow> (s0\<lparr>phs_action := PY_Retune, phs_group := phc_to p\<rparr>, p\<lparr>phc_retuned := True, phc_phase := PF_AwaitingRetune\<rparr>)
      | PF_Hearing \<Rightarrow>
          (case phc_poll_turn now_ms p of
             None \<Rightarrow> (s0, p)
           | Some i \<Rightarrow> (s0\<lparr>phs_action := PY_SendPoll, phs_dst := phc_fleet p ! i\<rparr>, p\<lparr>phc_index := i\<rparr>))
      | PF_CommitDue \<Rightarrow> (s0\<lparr>phs_action := PY_Commit, phs_group := phc_to p\<rparr>,
          (phc_count (\<lambda>s. s\<lparr>pcs_committed := pcs_committed s + 1\<rparr>) p)\<lparr>phc_index := 0, phc_get_attempts := 0, phc_phase := PF_GetDue\<rparr>)
      | PF_GetDue \<Rightarrow> (s0\<lparr>phs_action := PY_SendGet, phs_dst := dst\<rparr>, p)
      | PF_Confirmed \<Rightarrow> (s0\<lparr>phs_action := PY_NodeConfirmed, phs_dst := dst, phs_results := phc_confirm p\<rparr>, phc_next_get p)
      | PF_AbandonDue \<Rightarrow> (s0\<lparr>phs_action := PY_Abandon, phs_group := phc_from p, phs_reason := phc_reason p,
          phs_culprit := phc_culprit p, phs_retuned := phc_retuned p\<rparr>, p\<lparr>phc_phase := PF_Cooldown\<rparr>)
      | PF_ReadbackDue \<Rightarrow> (s0\<lparr>phs_action := PY_Readback, phs_dst := phc_culprit p\<rparr>, p\<lparr>phc_phase := PF_Idle\<rparr>)
      | _ \<Rightarrow> (s0, p))"

definition phc_next :: "u32 \<Rightarrow> PhyChange \<Rightarrow> PhyStep \<times> PhyChange" where
  "phc_next now_ms p = phc_emit now_ms (phc_settle now_ms p)"

definition phc_on_sent :: "Seq \<Rightarrow> u32 \<Rightarrow> PhyChange \<Rightarrow> PhyChange" where
  "phc_on_sent seq now_ms p =
     (case phc_phase p of
        PF_SetDue \<Rightarrow> p\<lparr>phc_seq := seq, phc_sent_ms := now_ms, phc_phase := PF_AwaitingSetAck\<rparr>
      | PF_GetDue \<Rightarrow> p\<lparr>phc_first_get_seq := (if phc_get_attempts p = 0 then seq else phc_first_get_seq p),
          phc_get_attempts := phc_get_attempts p + 1, phc_seq := seq, phc_sent_ms := now_ms, phc_phase := PF_AwaitingGet\<rparr>
      | PF_Hearing \<Rightarrow> p\<lparr>phc_polled := (phc_polled p)[phc_index p := True], phc_polled_ms := (phc_polled_ms p)[phc_index p := now_ms]\<rparr>
      | _ \<Rightarrow> p)"

definition phc_on_aired :: "u32 \<Rightarrow> PhyChange \<Rightarrow> PhyChange" where
  "phc_on_aired aired_ms p =
     (case phc_phase p of
        PF_AwaitingSetAck \<Rightarrow> p\<lparr>phc_sent_ms := aired_ms\<rparr>
      | PF_AwaitingGet \<Rightarrow> p\<lparr>phc_sent_ms := aired_ms\<rparr>
      | PF_Hearing \<Rightarrow> if phc_polled p ! phc_index p then p\<lparr>phc_polled_ms := (phc_polled_ms p)[phc_index p := aired_ms]\<rparr> else p
      | _ \<Rightarrow> p)"

definition phc_commit_failed :: "PhyChange \<Rightarrow> PhyChange" where
  "phc_commit_failed p =
     (if phc_phase p \<noteq> PF_GetDue \<or> phc_index p \<noteq> 0 \<or> phc_get_attempts p \<noteq> 0 then p
      else phc_abandon PR_CommitFailed 0 (phc_count (\<lambda>s. s\<lparr>pcs_committed := pcs_committed s - 1\<rparr>) p))"

definition phc_on_retuned :: "u32 \<Rightarrow> PhyChange \<Rightarrow> PhyChange" where
  "phc_on_retuned now_ms p =
     (if phc_phase p \<noteq> PF_AwaitingRetune then p else p\<lparr>phc_retuned_ms := now_ms, phc_phase := PF_Hearing\<rparr>)"

definition phc_on_heard :: "NodeId \<Rightarrow> u32 \<Rightarrow> PhyChange \<Rightarrow> PhyChange" where
  "phc_on_heard src rx_ms p =
     (if phc_phase p \<noteq> PF_Hearing \<or> ms_since rx_ms (phc_retuned_ms p) < 0 then p
      else p\<lparr>phc_heard := map (\<lambda>i. if i < length (phc_fleet p) \<and> phc_fleet p ! i = src then True else phc_heard p ! i)
               [0..<length (phc_heard p)]\<rparr>)"

text \<open>Every PHY entry present, Ok, and carrying exactly the value sent.\<close>

definition phy_entry_ok :: "PhyGroup \<Rightarrow> ConfigAckEntry \<Rightarrow> bool" where
  "phy_entry_ok to e \<longleftrightarrow> phy_index_of (cae_param_id e) = kPhyGroupSize \<or>
     cae_status e = Pa_Ok \<and> cae_len e \<noteq> 0 \<and>
     entry_signed (cae_value e) (cae_len e) (cae_ptype e) = to ! phy_index_of (cae_param_id e)"

definition phy_accepted :: "PhyGroup \<Rightarrow> NodeConfigAckV1 \<Rightarrow> bool" where
  "phy_accepted to ack \<longleftrightarrow> list_all (phy_entry_ok to) (nca_entries ack) \<and>
     list_all (\<lambda>k. list_ex (\<lambda>e. phy_index_of (cae_param_id e) = k) (nca_entries ack)) [0..<kPhyGroupSize]"

definition phc_on_config_ack :: "NodeId \<Rightarrow> NodeConfigAckV1 \<Rightarrow> Seq \<Rightarrow> u32 \<Rightarrow> PhyChange \<Rightarrow> bool \<times> PhyChange" where
  "phc_on_config_ack src ack ack_seq now_ms p =
     (if phc_phase p = PF_AwaitingSetAck then
        (if src \<noteq> phc_fleet p ! phc_index p \<or> ack_seq \<noteq> phc_seq p then (False, p)
         else let p = p\<lparr>phc_ack_ms := (phc_ack_ms p)[phc_index p := now_ms], phc_last_open_ms := now_ms\<rparr>
              in if \<not> phy_accepted (phc_to p) ack then (True, phc_abandon PR_NotAccepted src p)
                 else let p = (if phc_have_first_ack p then p else p\<lparr>phc_have_first_ack := True, phc_first_ack_ms := now_ms\<rparr>);
                          i = phc_index p + 1
                      in (True, p\<lparr>phc_index := i, phc_phase := (if i < length (phc_fleet p) then PF_SetDue else PF_RetuneDue)\<rparr>))
      else if phc_phase p = PF_AwaitingGet \<or> phc_phase p = PF_GetDue then
        (if src \<noteq> phc_fleet p ! phc_index p \<or> phc_get_attempts p = 0 then (False, p)
         else if phc_seq p - ack_seq > phc_seq p - phc_first_get_seq p then (False, p)
         else (True, p\<lparr>phc_confirm := take kMaxConfigAckEntries (nca_entries ack), phc_phase := PF_Confirmed\<rparr>))
      else (False, p))"

end
