(* ===== verification/PhyFleet.thy ===== *)
theory PhyFleet
  imports BridgePhy
begin

text \<open>
  A fleet PHY change from both ends: the bridge's machine as \<open>sched_phy\<close> of
  \<open>firmware/bridge/src/task_runtime.cpp\<close> drives it, and the trial of every node. Frames that count
  as a confirmation (the authenticated ones) wait in the transmit queue and go on the air, each
  before the bridge gives up waiting for it, with the settings the bridge's radio has when they
  leave; a node in its trial hears those sent on its trial settings. POLLs confirm nothing and are not followed. What the bridge hears is unconstrained.
\<close>

section \<open>The fleet\<close>

text \<open>
  \<open>fl_request\<close> is the retune \<open>lora_task\<close> has been asked for and has not applied, \<open>fl_ticket\<close> whether
  the machine waits for it, \<open>fl_kept\<close> the group the bridge holds in flash and \<open>fl_ever\<close> every group it
  has held there. A queued frame is marked when it is the machine's own.
\<close>

record 'b Fleet =
  fl_phy :: PhyChange
  fl_radio :: PhyGroup
  fl_request :: "PhyGroup option"
  fl_ticket :: bool
  fl_kept :: PhyGroup
  fl_ever :: "PhyGroup set"
  fl_tx :: "(NodeId \<times> bool) list"
  fl_air :: "(PhyGroup \<times> NodeId) set"
  fl_nodes :: "NodeId \<Rightarrow> 'b PhyTrial"

definition Fleet_start :: "PhyGroup \<Rightarrow> (NodeId \<Rightarrow> 'b PhyTrial) \<Rightarrow> 'b Fleet" where
  "Fleet_start g ns = \<lparr>fl_phy = PhyChange_new, fl_radio = g, fl_request = None, fl_ticket = False, fl_kept = g, fl_ever = {g},
     fl_tx = [], fl_air = {}, fl_nodes = ns\<rparr>"

text \<open>
  What a step of the machine makes \<open>sched_phy\<close> do: whether the loop goes on, and the state. \<open>queued\<close>
  says whether the transmit queue takes a frame, \<open>q\<close> is its sequence number, \<open>saved\<close> whether the flash
  takes the group. A group above the EIRP ceiling is never requested.
\<close>

definition phy_send :: "bool \<Rightarrow> Seq \<Rightarrow> u32 \<Rightarrow> NodeId \<Rightarrow> 'b Fleet \<Rightarrow> 'b Fleet" where
  "phy_send queued q now_ms dst l =
     (if queued then l\<lparr>fl_tx := fl_tx l @ [(dst, True)], fl_phy := phc_on_sent q now_ms (fl_phy l)\<rparr> else l)"

definition phy_act :: "bool \<Rightarrow> Seq \<Rightarrow> bool \<Rightarrow> u32 \<Rightarrow> PhyStep \<Rightarrow> 'b Fleet \<Rightarrow> bool \<times> 'b Fleet" where
  "phy_act queued q saved now_ms st l =
     (case phs_action st of
        PY_None \<Rightarrow> (False, l)
      | PY_SendSet \<Rightarrow> (False, phy_send queued q now_ms (phs_dst st) l)
      | PY_SendGet \<Rightarrow> (False, phy_send queued q now_ms (phs_dst st) l)
      | PY_SendPoll \<Rightarrow> (False, if queued then l\<lparr>fl_phy := phc_on_sent 0 now_ms (fl_phy l)\<rparr> else l)
      | PY_Retune \<Rightarrow> (True, if bridge_phy_config (phs_group st) kPhy = None then l
                           else l\<lparr>fl_request := Some (phs_group st), fl_ticket := True\<rparr>)
      | PY_Commit \<Rightarrow> (True, if saved then l\<lparr>fl_kept := phs_group st, fl_ever := insert (phs_group st) (fl_ever l)\<rparr>
                           else l\<lparr>fl_phy := phc_commit_failed (fl_phy l)\<rparr>)
      | PY_NodeConfirmed \<Rightarrow> (True, l)
      | PY_Abandon \<Rightarrow> (True, if phs_retuned st \<and> bridge_phy_config (phs_group st) kPhy \<noteq> None
                            then l\<lparr>fl_request := Some (phs_group st), fl_ticket := False\<rparr> else l)
      | PY_Readback \<Rightarrow> (True, l))"

fun phy_turns :: "nat \<Rightarrow> bool \<Rightarrow> Seq \<Rightarrow> bool \<Rightarrow> u32 \<Rightarrow> 'b Fleet \<Rightarrow> 'b Fleet" where
  "phy_turns 0 queued q saved now_ms l = l"
| "phy_turns (Suc n) queued q saved now_ms l =
     (let (st, p) = phc_next now_ms (fl_phy l); (again, l) = phy_act queued q saved now_ms st (l\<lparr>fl_phy := p\<rparr>)
      in if again then phy_turns n queued q saved now_ms l else l)"

text \<open>
  \<open>sched_phy\<close>: the retune's report first, then, unless a frame of its own still waits to leave, the
  turns of the machine.
\<close>

definition sched_phy :: "bool \<Rightarrow> Seq \<Rightarrow> bool \<Rightarrow> u32 \<Rightarrow> 'b Fleet \<Rightarrow> 'b Fleet" where
  "sched_phy queued q saved now_ms l =
     (let l = (if fl_ticket l \<and> fl_request l = None then l\<lparr>fl_ticket := False, fl_phy := phc_on_retuned now_ms (fl_phy l)\<rparr> else l)
      in if list_ex snd (fl_tx l) then l else phy_turns 8 queued q saved now_ms l)"

text \<open>
  The calls of a node's trial but the confirmation: SETs, the retune, ticks, and, as long as its flash
  has refused no write, a restart from it.
\<close>

inductive node_step :: "('b \<times> bool) BlobStore \<Rightarrow> ('b \<times> bool) PhyTrial \<Rightarrow> ('b \<times> bool) PhyTrial \<Rightarrow> bool" for bo where
  ns_set: "is_phy (ce_param_id e) \<Longrightarrow> pt_set bo e pt = Some (r, applied, pt') \<Longrightarrow> node_step bo pt pt'"
| ns_on_set: "node_step bo pt (pt_on_set sl accepted members now pt)"
| ns_retuned: "node_step bo pt (pt_on_retuned bo now pt)"
| ns_tick: "node_step bo pt (snd (pt_tick bo now pt))"
| ns_reboot: "so_phy_trial_enabled (pt_store pt) \<Longrightarrow> so_persist (pt_store pt) = Some r \<Longrightarrow> pp_usable bo r \<Longrightarrow>
    intact r \<Longrightarrow> node_step bo pt (snd (pt_begin bo (PhyTrial_new (Some r))))"

text \<open>
  The fleet. Other authenticated traffic is queued whenever the machine does not block it; with
  \<open>settled\<close> it also waits until no retune is outstanding, which the code does not ask for. A change
  starts only when nothing is in flight (\<open>exchange_may_start\<close>).
\<close>

inductive fleet_step :: "bool \<Rightarrow> ('b \<times> bool) BlobStore \<Rightarrow> ('b \<times> bool) Fleet \<Rightarrow> ('b \<times> bool) Fleet \<Rightarrow> bool" for settled bo where
  fs_start: "fl_tx l = [] \<Longrightarrow> settled \<longrightarrow> fl_request l = None \<Longrightarrow>
    fleet_step settled bo l (l\<lparr>fl_phy := snd (phc_start (fl_kept l) to fleet now (fl_phy l))\<rparr>)"
| fs_sched: "fleet_step settled bo l (sched_phy queued q saved now l)"
| fs_ack: "fleet_step settled bo l (l\<lparr>fl_phy := snd (phc_on_config_ack src ack aq now (fl_phy l))\<rparr>)"
| fs_heard: "fleet_step settled bo l (l\<lparr>fl_phy := phc_on_heard src now (fl_phy l)\<rparr>)"
| fs_aired: "fleet_step settled bo l (l\<lparr>fl_phy := phc_on_aired now (fl_phy l)\<rparr>)"
| fs_timeout: "fleet_step settled bo l (l\<lparr>fl_phy := phc_set_ack_timeout_ms ms (fl_phy l)\<rparr>)"
| fs_other: "\<not> phc_blocks_traffic (fl_phy l) \<Longrightarrow> settled \<longrightarrow> fl_request l = None \<Longrightarrow>
    fleet_step settled bo l (l\<lparr>fl_tx := fl_tx l @ [(dst, False)]\<rparr>)"
| fs_transmit: "fl_tx l = (dst, own) # rest \<Longrightarrow>
    fleet_step settled bo l (l\<lparr>fl_tx := rest, fl_air := insert (fl_radio l, dst) (fl_air l)\<rparr>)"
| fs_drop: "fleet_step settled bo l (l\<lparr>fl_tx := tl (fl_tx l)\<rparr>)"
| fs_retune: "fl_request l = Some g \<Longrightarrow> fleet_step settled bo l (l\<lparr>fl_radio := g, fl_request := None\<rparr>)"
| fs_restart: "fleet_step settled bo l (l\<lparr>fl_phy := PhyChange_new, fl_radio := fl_kept l, fl_request := None, fl_ticket := False, fl_tx := []\<rparr>)"
| fs_node: "node_step bo (fl_nodes l dst) pt \<Longrightarrow> fleet_step settled bo l (l\<lparr>fl_nodes := (fl_nodes l)(dst := pt)\<rparr>)"
| fs_receive: "(g, dst) \<in> fl_air l \<Longrightarrow> pt_state (fl_nodes l dst) = PhS_Trial \<longrightarrow> pt_group (fl_nodes l dst) = g \<Longrightarrow>
    fleet_step settled bo l (l\<lparr>fl_nodes := (fl_nodes l)(dst := pt_on_authenticated bo (fl_nodes l dst))\<rparr>)"

section \<open>The bridge\<close>

definition ceiling_ok :: "PhyGroup \<Rightarrow> bool" where
  "ceiling_ok g \<longleftrightarrow> bridge_phy_config g kPhy \<noteq> None"

text \<open>The radio is on a group the bridge has held, or about to be put on one, and so is what waits for it.\<close>

definition home :: "'b Fleet \<Rightarrow> bool" where
  "home l \<longleftrightarrow> \<not> fl_ticket l \<and> (fl_request l = None \<longrightarrow> fl_radio l \<in> fl_ever l) \<and>
     (\<forall>g. fl_request l = Some g \<longrightarrow> g \<in> fl_ever l) \<and> (fl_tx l \<noteq> [] \<longrightarrow> fl_radio l \<in> fl_ever l)"

text \<open>The same with no retune outstanding and only the machine's own frames queued.\<close>

definition alone :: "'b Fleet \<Rightarrow> bool" where
  "alone l \<longleftrightarrow> \<not> fl_ticket l \<and> fl_request l = None \<and> fl_radio l \<in> fl_ever l \<and> list_all snd (fl_tx l)"

text \<open>What holds of the bridge in each phase of the machine.\<close>

fun mode :: "PhyPhase \<Rightarrow> PhyChange \<Rightarrow> 'b Fleet \<Rightarrow> bool" where
  "mode PF_Idle p l = home l"
| "mode PF_AbandonDue p l = (home l \<and> phc_from p \<in> fl_ever l)"
| "mode PF_Cooldown p l = (home l \<and> phc_from p \<in> fl_ever l)"
| "mode PF_ReadbackDue p l = (home l \<and> phc_from p \<in> fl_ever l)"
| "mode PF_AwaitingRetune p l = (phc_from p \<in> fl_ever l \<and> phc_retuned p \<and> fl_tx l = [] \<and>
     (fl_ticket l \<longrightarrow> ceiling_ok (phc_to p) \<and> (fl_request l = None \<longrightarrow> fl_radio l = phc_to p) \<and> (\<forall>g. fl_request l = Some g \<longrightarrow> g = phc_to p)) \<and>
     (\<not> fl_ticket l \<longrightarrow> fl_request l = None \<and> fl_radio l \<in> fl_ever l))"
| "mode PF_Hearing p l = (phc_from p \<in> fl_ever l \<and> phc_retuned p \<and> fl_tx l = [] \<and> \<not> fl_ticket l \<and> fl_request l = None \<and>
     ceiling_ok (phc_to p) \<and> fl_radio l = phc_to p)"
| "mode PF_CommitDue p l = (phc_from p \<in> fl_ever l \<and> phc_retuned p \<and> fl_tx l = [] \<and> \<not> fl_ticket l \<and> fl_request l = None \<and>
     ceiling_ok (phc_to p) \<and> fl_radio l = phc_to p)"
| "mode PF_GetDue p l = (alone l \<and> phc_from p \<in> fl_ever l \<and> phc_to p \<in> fl_ever l)"
| "mode PF_AwaitingGet p l = (alone l \<and> phc_from p \<in> fl_ever l \<and> phc_to p \<in> fl_ever l)"
| "mode PF_Confirmed p l = (alone l \<and> phc_from p \<in> fl_ever l \<and> phc_to p \<in> fl_ever l)"
| "mode PF_SetDue p l = (alone l \<and> phc_from p \<in> fl_ever l)"
| "mode PF_AwaitingSetAck p l = (alone l \<and> phc_from p \<in> fl_ever l)"
| "mode PF_RetuneDue p l = (alone l \<and> phc_from p \<in> fl_ever l)"

definition held_ok :: "'b Fleet \<Rightarrow> bool" where
  "held_ok l \<longleftrightarrow> fl_kept l \<in> fl_ever l \<and> (\<forall>g \<in> fl_ever l. ceiling_ok g) \<and> (\<forall>(g, d) \<in> fl_air l. g \<in> fl_ever l)"

definition bridge_safe :: "'b Fleet \<Rightarrow> bool" where
  "bridge_safe l \<longleftrightarrow> held_ok l \<and> mode (phc_phase (fl_phy l)) (fl_phy l) l"

lemma home_phy [simp]: "home (l\<lparr>fl_phy := p\<rparr>) = home l" "alone (l\<lparr>fl_phy := p\<rparr>) = alone l" "held_ok (l\<lparr>fl_phy := p\<rparr>) = held_ok l"
  by (simp_all add: home_def alone_def held_ok_def)

lemma mode_phy [simp]: "mode ph p' (l\<lparr>fl_phy := p\<rparr>) = mode ph p' l"
  by (cases ph) simp_all

lemma mode_same:
  "phc_from p' = phc_from p \<Longrightarrow> phc_to p' = phc_to p \<Longrightarrow> phc_retuned p' = phc_retuned p \<Longrightarrow> mode ph p' l = mode ph p l"
  by (cases ph) simp_all

lemma alone_home: "alone l \<Longrightarrow> home l"
  by (simp add: alone_def home_def)

lemma mode_home: "mode ph p l \<Longrightarrow> ph \<notin> {PF_AwaitingRetune, PF_Hearing, PF_CommitDue} \<Longrightarrow> home l"
  by (cases ph) (auto intro: alone_home)

lemma mode_from: "mode ph p l \<Longrightarrow> ph \<noteq> PF_Idle \<Longrightarrow> phc_from p \<in> fl_ever l"
  by (cases ph) auto

lemma phc_count_sel [simp]:
  "phc_phase (phc_count f p) = phc_phase p" "phc_from (phc_count f p) = phc_from p" "phc_to (phc_count f p) = phc_to p"
  "phc_retuned (phc_count f p) = phc_retuned p" "phc_fleet (phc_count f p) = phc_fleet p" "phc_index (phc_count f p) = phc_index p"
  "phc_get_attempts (phc_count f p) = phc_get_attempts p"
  by (simp_all add: phc_count_def)

lemma phc_abandon_sel [simp]:
  "phc_phase (phc_abandon r c p) = PF_AbandonDue" "phc_from (phc_abandon r c p) = phc_from p"
  "phc_to (phc_abandon r c p) = phc_to p" "phc_retuned (phc_abandon r c p) = phc_retuned p"
  by (simp_all add: phc_abandon_def)

text \<open>Where a call of \<open>next\<close> leads from each phase.\<close>

definition next_ok :: "PhyChange \<Rightarrow> PhyStep \<Rightarrow> PhyChange \<Rightarrow> bool" where
  "next_ok p st p' \<longleftrightarrow> phc_from p' = phc_from p \<and> phc_to p' = phc_to p \<and>
     (case phs_action st of
        PY_None \<Rightarrow> phc_phase p' = phc_phase p \<and> phc_phase p \<notin> {PF_SetDue, PF_RetuneDue, PF_CommitDue, PF_GetDue} \<or>
          phc_phase p \<in> {PF_Cooldown, PF_AwaitingGet} \<and> phc_phase p' = PF_Idle
      | PY_SendSet \<Rightarrow> phc_phase p = PF_SetDue \<and> phc_phase p' = PF_SetDue
      | PY_Retune \<Rightarrow> phc_phase p = PF_RetuneDue \<and> phc_phase p' = PF_AwaitingRetune \<and> phc_retuned p' \<and> phs_group st = phc_to p
      | PY_SendPoll \<Rightarrow> phc_phase p = PF_Hearing \<and> phc_phase p' = PF_Hearing
      | PY_Commit \<Rightarrow> phc_phase p \<in> {PF_Hearing, PF_CommitDue} \<and> phc_phase p' = PF_GetDue \<and> phc_index p' = 0 \<and> phc_get_attempts p' = 0 \<and>
          phs_group st = phc_to p \<and> phc_retuned p' = phc_retuned p
      | PY_SendGet \<Rightarrow> phc_phase p \<in> {PF_GetDue, PF_AwaitingGet} \<and> phc_phase p' = PF_GetDue
      | PY_NodeConfirmed \<Rightarrow> phc_phase p = PF_Confirmed \<and> phc_phase p' \<in> {PF_GetDue, PF_Idle}
      | PY_Abandon \<Rightarrow> phc_phase p \<in> {PF_SetDue, PF_AwaitingSetAck, PF_AwaitingRetune, PF_Hearing, PF_AbandonDue} \<and>
          phc_phase p' = PF_Cooldown \<and> phs_group st = phc_from p \<and> phs_retuned st = phc_retuned p
      | PY_Readback \<Rightarrow> phc_phase p \<in> {PF_Cooldown, PF_ReadbackDue} \<and> phc_phase p' = PF_Idle) \<and>
     (phs_action st \<in> {PY_None, PY_SendPoll} \<longrightarrow> phc_retuned p' = phc_retuned p)"

lemma next_leads: "phc_next t p = (st, p') \<Longrightarrow> next_ok p st p'"
  by (cases "phc_phase p")
    (auto simp: phc_next_def phc_settle_def phc_emit_def next_ok_def PhyStep_init_def phc_next_get_def Let_def
      split: if_splits option.splits)

lemma no_own: "\<not> list_ex snd xs \<Longrightarrow> list_all snd xs \<longleftrightarrow> xs = []"
  by (cases xs) auto

text \<open>
  One turn of the machine. A commit the flash refuses leaves the machine to abandon at once, on the
  settings it tried; the turn after that asks for the retune back.
\<close>

definition refused_commit :: "'b Fleet \<Rightarrow> bool" where
  "refused_commit l \<longleftrightarrow> held_ok l \<and> phc_phase (fl_phy l) = PF_AbandonDue \<and> phc_retuned (fl_phy l) \<and>
     phc_from (fl_phy l) \<in> fl_ever l \<and> fl_tx l = [] \<and> \<not> fl_ticket l"

text \<open>Asking for the way back makes the radio safe, whatever it is on, when nothing is queued.\<close>

lemma ask_back:
  assumes "held_ok l" "phc_from p \<in> fl_ever l" "fl_tx l = []" "phc_phase p = PF_Cooldown"
  shows "bridge_safe (l\<lparr>fl_phy := p, fl_request := Some (phc_from p), fl_ticket := False\<rparr>)"
  using assms by (simp add: bridge_safe_def home_def held_ok_def)

lemma abandon_turn:
  assumes "held_ok l" "phc_from (fl_phy l) \<in> fl_ever l" "phs_action st = PY_Abandon" "phs_group st = phc_from (fl_phy l)"
    "phc_from p = phc_from (fl_phy l)" "phc_phase p = PF_Cooldown" "phs_retuned st" "fl_tx l = []"
    "phy_act queued q saved t st (l\<lparr>fl_phy := p\<rparr>) = (again, l')"
  shows "again \<and> bridge_safe l' \<and> phc_phase (fl_phy l') = PF_Cooldown \<and> fl_tx l' = []"
proof -
  have "bridge_phy_config (phc_from (fl_phy l)) kPhy \<noteq> None"
    using assms(1,2) by (auto simp: held_ok_def ceiling_ok_def)
  with assms have "l' = l\<lparr>fl_phy := p, fl_request := Some (phc_from p), fl_ticket := False\<rparr> \<and> again"
    by (auto simp: phy_act_def)
  with ask_back [OF assms(1), of p] assms(2,5,6,8) show ?thesis by simp
qed

lemma act_safe:
  assumes safe: "bridge_safe l" and own: "\<not> list_ex snd (fl_tx l)" and n: "phc_next t (fl_phy l) = (st, p)"
    and a: "phy_act queued q saved t st (l\<lparr>fl_phy := p\<rparr>) = (again, l')"
  shows "bridge_safe l' \<and> (again \<longrightarrow> phc_phase (fl_phy l') \<notin> {PF_Hearing, PF_CommitDue} \<and> \<not> list_ex snd (fl_tx l')) \<or>
    again \<and> phc_phase (fl_phy l) \<in> {PF_Hearing, PF_CommitDue} \<and> refused_commit l'"
proof -
  note ok = next_leads [OF n, unfolded next_ok_def]
  have h: "held_ok l" and m: "mode (phc_phase (fl_phy l)) (fl_phy l) l" using safe by (simp_all add: bridge_safe_def)
  have none: "alone l \<Longrightarrow> fl_tx l = []" using own by (simp add: alone_def no_own)
  show ?thesis
  proof (cases "phs_action st")
    case PY_None
    with a have e: "l' = l\<lparr>fl_phy := p\<rparr>" "\<not> again" by (auto simp: phy_act_def)
    from PY_None ok have "phc_phase p = phc_phase (fl_phy l) \<or> phc_phase (fl_phy l) \<in> {PF_Cooldown, PF_AwaitingGet} \<and> phc_phase p = PF_Idle"
      by auto
    then have "bridge_safe (l\<lparr>fl_phy := p\<rparr>)"
    proof
      assume "phc_phase p = phc_phase (fl_phy l)"
      with PY_None ok h m mode_same [of p "fl_phy l" "phc_phase p" l] show ?thesis by (simp add: bridge_safe_def)
    next
      assume "phc_phase (fl_phy l) \<in> {PF_Cooldown, PF_AwaitingGet} \<and> phc_phase p = PF_Idle"
      with h mode_home [OF m] show ?thesis by (auto simp: bridge_safe_def)
    qed
    with e show ?thesis by simp
  next
    case PY_SendSet
    with a ok have "l' = l\<lparr>fl_phy := p\<rparr> \<or> l' = l\<lparr>fl_phy := phc_on_sent q t p, fl_tx := fl_tx l @ [(phs_dst st, True)]\<rparr>" "\<not> again"
      by (auto simp: phy_act_def phy_send_def)
    with PY_SendSet ok h m show ?thesis
      by (auto simp: bridge_safe_def phc_on_sent_def alone_def held_ok_def)
  next
    case PY_SendGet
    with a ok have "l' = l\<lparr>fl_phy := p\<rparr> \<or> l' = l\<lparr>fl_phy := phc_on_sent q t p, fl_tx := fl_tx l @ [(phs_dst st, True)]\<rparr>" "\<not> again"
      by (auto simp: phy_act_def phy_send_def)
    with PY_SendGet ok h m show ?thesis
      by (auto simp: bridge_safe_def phc_on_sent_def alone_def held_ok_def)
  next
    case PY_SendPoll
    with a ok have "l' = l\<lparr>fl_phy := p\<rparr> \<or> l' = l\<lparr>fl_phy := phc_on_sent 0 t p\<rparr>" "\<not> again" by (auto simp: phy_act_def)
    with PY_SendPoll ok h m show ?thesis by (auto simp: bridge_safe_def phc_on_sent_def)
  next
    case PY_Retune
    with ok m none have "alone l" "fl_tx l = []" by auto
    moreover from PY_Retune a ok have "again \<and> (l' = l\<lparr>fl_phy := p\<rparr> \<or> ceiling_ok (phc_to p) \<and>
        l' = l\<lparr>fl_phy := p, fl_request := Some (phc_to p), fl_ticket := True\<rparr>)"
      by (auto simp: phy_act_def ceiling_ok_def split: if_splits)
    ultimately show ?thesis using PY_Retune ok h m by (auto simp: bridge_safe_def alone_def held_ok_def)
  next
    case PY_Commit
    with ok m have p: "mode PF_Hearing p l" "phc_phase p = PF_GetDue" using mode_same [of p "fl_phy l" PF_Hearing l] by auto
    show ?thesis
    proof (cases saved)
      case True
      with PY_Commit a ok have "again" "l' = l\<lparr>fl_phy := p, fl_kept := phc_to p, fl_ever := insert (phc_to p) (fl_ever l)\<rparr>"
        by (auto simp: phy_act_def)
      with p h show ?thesis by (auto simp: bridge_safe_def held_ok_def alone_def)
    next
      case False
      with PY_Commit a ok have "again" "l' = l\<lparr>fl_phy := phc_commit_failed p\<rparr>" by (auto simp: phy_act_def)
      with PY_Commit ok p h show ?thesis by (auto simp: refused_commit_def phc_commit_failed_def)
    qed
  next
    case PY_NodeConfirmed
    with a have "again" "l' = l\<lparr>fl_phy := p\<rparr>" by (auto simp: phy_act_def)
    with PY_NodeConfirmed ok h m own show ?thesis by (auto simp: bridge_safe_def intro: alone_home)
  next
    case PY_Abandon
    note from_ = mode_from [OF m]
    show ?thesis
    proof (cases "phs_retuned st \<and> fl_tx l = []")
      case True
      with abandon_turn [OF h _ PY_Abandon _ _ _ _ _ a] PY_Abandon ok from_ show ?thesis by auto
    next
      case False
      with PY_Abandon ok m have "phc_phase (fl_phy l) \<notin> {PF_AwaitingRetune, PF_Hearing, PF_CommitDue}" by auto
      note hm = mode_home [OF m this]
      have e: "again" "l' = l\<lparr>fl_phy := p\<rparr> \<or> l' = l\<lparr>fl_phy := p, fl_request := Some (phc_from p), fl_ticket := False\<rparr>"
        using PY_Abandon a ok by (auto simp: phy_act_def split: if_splits)
      have p: "phc_phase p = PF_Cooldown" "phc_from p \<in> fl_ever l" using PY_Abandon ok from_ by auto
      then have "bridge_safe (l\<lparr>fl_phy := p\<rparr>)" "bridge_safe (l\<lparr>fl_phy := p, fl_request := Some (phc_from p), fl_ticket := False\<rparr>)"
        using h hm by (simp_all add: bridge_safe_def home_def held_ok_def)
      with e p own show ?thesis by auto
    qed
  next
    case PY_Readback
    with a have "again" "l' = l\<lparr>fl_phy := p\<rparr>" by (auto simp: phy_act_def)
    with PY_Readback ok h m own show ?thesis by (auto simp: bridge_safe_def)
  qed
qed

lemma refused_turn:
  assumes "refused_commit l" "phc_next t (fl_phy l) = (st, p)" "phy_act queued q saved t st (l\<lparr>fl_phy := p\<rparr>) = (again, l')"
  shows "bridge_safe l' \<and> phc_phase (fl_phy l') = PF_Cooldown \<and> fl_tx l' = []"
proof -
  have "phs_action st = PY_Abandon" "phs_group st = phc_from (fl_phy l)" "phs_retuned st" "phc_from p = phc_from (fl_phy l)"
    "phc_phase p = PF_Cooldown"
    using assms(1,2) by (auto simp: phc_next_def phc_settle_def phc_emit_def refused_commit_def Let_def)
  with abandon_turn [OF _ _ _ _ _ _ _ _ assms(3)] assms(1) show ?thesis by (auto simp: refused_commit_def)
qed

lemma turns_safe_quiet:
  "bridge_safe l \<Longrightarrow> \<not> list_ex snd (fl_tx l) \<Longrightarrow> phc_phase (fl_phy l) \<notin> {PF_Hearing, PF_CommitDue} \<Longrightarrow>
   bridge_safe (phy_turns n queued q saved t l)"
proof (induction n arbitrary: l)
  case (Suc n)
  obtain st p where p: "phc_next t (fl_phy l) = (st, p)" by fastforce
  obtain again l' where a: "phy_act queued q saved t st (l\<lparr>fl_phy := p\<rparr>) = (again, l')" by fastforce
  from act_safe [OF Suc.prems(1,2) p a] Suc.prems(3)
  have "bridge_safe l' \<and> (again \<longrightarrow> phc_phase (fl_phy l') \<notin> {PF_Hearing, PF_CommitDue} \<and> \<not> list_ex snd (fl_tx l'))" by blast
  with Suc.IH [of l'] show ?case by (simp add: p a)
qed simp

lemma turns_safe:
  assumes "bridge_safe l" "\<not> list_ex snd (fl_tx l)"
  shows "bridge_safe (phy_turns (Suc (Suc n)) queued q saved t l)"
proof -
  obtain st p where p: "phc_next t (fl_phy l) = (st, p)" by fastforce
  obtain again l' where a: "phy_act queued q saved t st (l\<lparr>fl_phy := p\<rparr>) = (again, l')" by fastforce
  obtain st' p' where p': "phc_next t (fl_phy l') = (st', p')" by fastforce
  obtain again' l2 where a': "phy_act queued q saved t st' (l'\<lparr>fl_phy := p'\<rparr>) = (again', l2)" by fastforce
  from act_safe [OF assms p a] show ?thesis
  proof
    assume "bridge_safe l' \<and> (again \<longrightarrow> phc_phase (fl_phy l') \<notin> {PF_Hearing, PF_CommitDue} \<and> \<not> list_ex snd (fl_tx l'))"
    with turns_safe_quiet [of l' "Suc n"] show ?thesis by (simp add: p a del: phy_turns.simps(2) add: phy_turns.simps(2) [of "Suc n"])
  next
    assume r: "again \<and> phc_phase (fl_phy l) \<in> {PF_Hearing, PF_CommitDue} \<and> refused_commit l'"
    with refused_turn [OF _ p' a'] turns_safe_quiet [of l2 n] show ?thesis by (simp add: p a p' a')
  qed
qed

lemma sched_phy_safe: "bridge_safe l \<Longrightarrow> bridge_safe (sched_phy queued q saved t l)"
proof -
  assume safe: "bridge_safe l"
  define l1 where "l1 = (if fl_ticket l \<and> fl_request l = None then l\<lparr>fl_ticket := False, fl_phy := phc_on_retuned t (fl_phy l)\<rparr> else l)"
  have "bridge_safe l1"
  proof (cases "fl_ticket l \<and> fl_request l = None")
    case True
    with safe have "phc_phase (fl_phy l) = PF_AwaitingRetune"
      by (cases "phc_phase (fl_phy l)") (auto simp: bridge_safe_def home_def alone_def)
    with safe True show ?thesis by (auto simp: l1_def phc_on_retuned_def bridge_safe_def held_ok_def)
  next
    case False
    then show ?thesis unfolding l1_def using safe by (simp only: if_False)
  qed
  with turns_safe [of l1 6] show ?thesis
    unfolding sched_phy_def l1_def [symmetric] Let_def by (auto simp: eval_nat_numeral)
qed

section \<open>The fleet keeps together\<close>

lemma phc_keeps:
  "phc_from (phc_on_heard src t p) = phc_from p" "phc_to (phc_on_heard src t p) = phc_to p"
  "phc_retuned (phc_on_heard src t p) = phc_retuned p" "phc_phase (phc_on_heard src t p) = phc_phase p"
  "phc_from (phc_on_aired t p) = phc_from p" "phc_to (phc_on_aired t p) = phc_to p"
  "phc_retuned (phc_on_aired t p) = phc_retuned p" "phc_phase (phc_on_aired t p) = phc_phase p"
  "phc_from (phc_set_ack_timeout_ms ms p) = phc_from p" "phc_to (phc_set_ack_timeout_ms ms p) = phc_to p"
  "phc_retuned (phc_set_ack_timeout_ms ms p) = phc_retuned p" "phc_phase (phc_set_ack_timeout_ms ms p) = phc_phase p"
  by (simp_all add: phc_on_heard_def phc_on_aired_def phc_set_ack_timeout_ms_def split: PhyPhase.split)

lemma same_safe:
  "bridge_safe l \<Longrightarrow> phc_phase p = phc_phase (fl_phy l) \<Longrightarrow> phc_from p = phc_from (fl_phy l) \<Longrightarrow> phc_to p = phc_to (fl_phy l) \<Longrightarrow>
   phc_retuned p = phc_retuned (fl_phy l) \<Longrightarrow> bridge_safe (l\<lparr>fl_phy := p\<rparr>)"
  using mode_same [of p "fl_phy l" "phc_phase p" l] by (simp add: bridge_safe_def)

lemma ack_safe: "bridge_safe l \<Longrightarrow> bridge_safe (l\<lparr>fl_phy := snd (phc_on_config_ack src ack aq t (fl_phy l))\<rparr>)"
  by (cases "phc_phase (fl_phy l)")
    (auto simp: bridge_safe_def phc_on_config_ack_def Let_def intro: alone_home)

lemma start_safe:
  "bridge_safe l \<Longrightarrow> fl_tx l = [] \<Longrightarrow> fl_request l = None \<Longrightarrow>
   bridge_safe (l\<lparr>fl_phy := snd (phc_start (fl_kept l) to fleet t (fl_phy l))\<rparr>)"
  by (auto simp: bridge_safe_def phc_start_def alone_def home_def held_ok_def)

lemma mode_nodes [simp]: "mode ph p (l\<lparr>fl_nodes := ns\<rparr>) = mode ph p l"
  by (cases ph) (simp_all add: home_def alone_def)

lemma transmit_safe:
  assumes "bridge_safe l" "fl_tx l = x # rest"
  shows "bridge_safe (l\<lparr>fl_tx := rest, fl_air := insert (fl_radio l, d) (fl_air l)\<rparr>)"
  using assms by (cases "phc_phase (fl_phy l)") (auto simp: bridge_safe_def home_def alone_def held_ok_def)

lemma drop_safe: "bridge_safe l \<Longrightarrow> bridge_safe (l\<lparr>fl_tx := tl (fl_tx l)\<rparr>)"
  by (cases "phc_phase (fl_phy l)"; cases "fl_tx l") (auto simp: bridge_safe_def home_def alone_def held_ok_def)

lemma retune_safe: "bridge_safe l \<Longrightarrow> fl_request l = Some g \<Longrightarrow> bridge_safe (l\<lparr>fl_radio := g, fl_request := None\<rparr>)"
  by (cases "phc_phase (fl_phy l)") (auto simp: bridge_safe_def home_def alone_def held_ok_def)

lemma other_safe:
  assumes "bridge_safe l" "\<not> phc_blocks_traffic (fl_phy l)" "fl_request l = None"
  shows "bridge_safe (l\<lparr>fl_tx := fl_tx l @ [(d, False)]\<rparr>)"
  using assms by (cases "phc_phase (fl_phy l)") (auto simp: bridge_safe_def home_def held_ok_def phc_blocks_traffic_def)

lemma fleet_step_safe:
  assumes "fleet_step True bo l l'" "bridge_safe l"
  shows "bridge_safe l'"
  using assms
proof cases
  case fs_restart
  with assms(2) show ?thesis by (auto simp: bridge_safe_def PhyChange_new_def home_def held_ok_def)
next
  case (fs_node dst pt)
  with assms(2) show ?thesis by (simp add: bridge_safe_def held_ok_def)
next
  case (fs_receive g dst)
  with assms(2) show ?thesis by (simp add: bridge_safe_def held_ok_def)
qed (use assms(2) in \<open>auto simp: phc_keeps intro: sched_phy_safe ack_safe start_safe transmit_safe drop_safe retune_safe other_safe
  same_safe\<close>)

lemma phy_act_frame: "phy_act queued q saved t st l = (again, l') \<Longrightarrow> fl_nodes l' = fl_nodes l \<and> fl_ever l \<subseteq> fl_ever l'"
  by (auto simp: phy_act_def phy_send_def split: PhyAction.splits if_splits)

lemma phy_turns_frame: "fl_nodes (phy_turns n queued q saved t l) = fl_nodes l \<and> fl_ever l \<subseteq> fl_ever (phy_turns n queued q saved t l)"
proof (induction n arbitrary: l)
  case (Suc n)
  obtain st p where p: "phc_next t (fl_phy l) = (st, p)" by fastforce
  obtain again l' where a: "phy_act queued q saved t st (l\<lparr>fl_phy := p\<rparr>) = (again, l')" by fastforce
  from phy_act_frame [OF a] Suc [of l'] show ?case by (auto simp: p a)
qed simp

lemma sched_phy_frame: "fl_nodes (sched_phy queued q saved t l) = fl_nodes l \<and> fl_ever l \<subseteq> fl_ever (sched_phy queued q saved t l)"
  using phy_turns_frame [of 8 queued q saved t l]
    phy_turns_frame [of 8 queued q saved t "l\<lparr>fl_ticket := False, fl_phy := phc_on_retuned t (fl_phy l)\<rparr>"]
  unfolding sched_phy_def Let_def by auto

lemma fleet_ever_mono: "fleet_step settled bo l l' \<Longrightarrow> fl_ever l \<subseteq> fl_ever l'"
proof (induction rule: fleet_step.induct)
  case (fs_sched l queued q saved now)
  then show ?case using sched_phy_frame by blast
qed auto

text \<open>Every node is a booted trial, and what it has committed is what it started with or what the bridge has held.\<close>

definition nodes_ok :: "'b BlobStore \<Rightarrow> (NodeId \<Rightarrow> ('b \<times> bool) PhyTrial) \<Rightarrow> ('b \<times> bool) Fleet \<Rightarrow> bool" where
  "nodes_ok bo ns l \<longleftrightarrow> (\<forall>d. pt_inv (fl_nodes l d) \<and> flash_holds bo (fl_nodes l d) \<and>
     pt_committed (fl_nodes l d) \<in> insert (pt_committed (ns d)) (fl_ever l))"

lemma on_authenticated_committed:
  assumes "pt_inv pt" "pt_state pt = PhS_Trial"
  shows "pt_committed (pt_on_authenticated bo pt) \<in> {pt_committed pt, pt_group pt}"
proof -
  obtain ok st where c: "commit_phy_trial (PhyPersist bo) (pt_store pt) = (ok, st)" by fastforce
  have "store_group st = store_group (pt_store pt)"
    using commit_outcome(1) [OF pt_inv_store [OF assms(1)] c] by (simp add: store_group_def)
  then show ?thesis by (simp add: pt_on_authenticated_def c pt_group_def)
qed

lemma reboot_committed:
  assumes "blob_store bo" "flash_holds bo pt" "so_phy_trial_enabled (pt_store pt)" "so_persist (pt_store pt) = Some r"
    "pp_usable (logged bo) r" "intact r"
  shows "pt_committed (snd (pt_begin (logged bo) (PhyTrial_new (Some r)))) = pt_committed pt"
proof -
  obtain cause pt' where b: "pt_begin (logged bo) (PhyTrial_new (Some r)) = (cause, pt')" by fastforce
  note parts = begin_parts [OF assms(5) b]
  have "boot_group (blob_rows (logged bo) r) = pt_committed pt" using assms(2-4,6) by (simp add: flash_holds_def)
  then show ?thesis using parts(5,8) read_rows [OF assms(5)] by (simp add: b)
qed

lemma node_step_keeps:
  assumes "blob_store bo" "node_step (logged bo) pt pt'" "pt_inv pt" "flash_holds bo pt"
  shows "pt_inv pt' \<and> flash_holds bo pt' \<and> pt_committed pt' = pt_committed pt"
  using assms(2)
proof cases
  case (ns_set e r applied)
  with pt_set_parts [OF assms(3) ns_set] flash_holds_same [OF assms(4)] show ?thesis by blast
next
  case (ns_on_set sl accepted members now)
  with pt_inv_cong [OF pt_on_set_keeps, of sl accepted members now pt] assms(3,4) show ?thesis by (simp add: flash_holds_def)
next
  case (ns_retuned now)
  with on_retuned_inv [OF assms(3)] retuned_flash [OF assms(1,4)] show ?thesis by (simp add: pt_on_retuned_def)
next
  case (ns_tick now)
  with tick_inv [OF assms(3)] tick_flash [OF assms(1,4)] show ?thesis by (simp add: pt_tick_def)
next
  case (ns_reboot r)
  with reboot_committed [OF assms(1,4) ns_reboot(2-5)] begin_inv begin_flash [OF assms(1)] show ?thesis by simp
qed

lemma fleet_step_nodes:
  assumes "blob_store bo" "fleet_step True (logged bo) l l'" "bridge_safe l" "nodes_ok bo ns l"
  shows "nodes_ok bo ns l'"
proof -
  have node: "pt_inv (fl_nodes l d)" "flash_holds bo (fl_nodes l d)"
    "pt_committed (fl_nodes l d) \<in> insert (pt_committed (ns d)) (fl_ever l')" for d
    using assms(4) fleet_ever_mono [OF assms(2)] by (auto simp: nodes_ok_def)
  have same: ?thesis if "fl_nodes l' = fl_nodes l" using node that by (simp add: nodes_ok_def)
  from assms(2) show ?thesis
  proof cases
    case (fs_node dst pt)
    with node_step_keeps [OF assms(1) fs_node(2) node(1,2)] node show ?thesis by (simp add: nodes_ok_def)
  next
    case (fs_receive g dst)
    have "g \<in> fl_ever l" using assms(3) fs_receive(2) by (auto simp: bridge_safe_def held_ok_def)
    moreover have "pt_on_authenticated (logged bo) (fl_nodes l dst) = fl_nodes l dst" if "pt_state (fl_nodes l dst) \<noteq> PhS_Trial"
      using that by (simp add: pt_on_authenticated_def)
    ultimately have "pt_committed (pt_on_authenticated (logged bo) (fl_nodes l dst)) \<in> insert (pt_committed (ns dst)) (fl_ever l')"
      using on_authenticated_committed [OF node(1), of dst "logged bo"] fs_receive(1,3) node(3) [of dst]
      by (cases "pt_state (fl_nodes l dst) = PhS_Trial") auto
    with fs_receive(1) node on_authenticated_inv [OF node(1) [of dst], of "logged bo"] authenticated_flash [OF assms(1) node(1,2)] show ?thesis by (simp add: nodes_ok_def)
  next
    case (fs_sched queued q saved now)
    then show ?thesis using sched_phy_frame [of queued q saved now l] by (intro same) simp
  qed (use same in auto)
qed

lemma fleet_reachable_safe:
  assumes "blob_store bo" "(fleet_step True (logged bo))\<^sup>*\<^sup>* (Fleet_start g ns) l" "ceiling_ok g" "\<And>d. pt_reachable (logged bo) (ns d)"
  shows "bridge_safe l \<and> nodes_ok bo ns l"
  using assms(2)
proof (induction rule: rtranclp_induct)
  case base
  show ?case using assms(3) reachable_pt_inv [OF assms(4)] reachable_flash [OF assms(1,4)]
    by (simp add: bridge_safe_def nodes_ok_def Fleet_start_def PhyChange_new_def home_def held_ok_def)
next
  case (step l l')
  then show ?case using fleet_step_safe fleet_step_nodes [OF assms(1)] by blast
qed

section \<open>A change to evaluate\<close>

text \<open>One GateLink on spreading factor 9, asked for 10; it accepts, is never heard again, and the change is given up.\<close>

definition sf9_group :: PhyGroup where "sf9_group = [917400000, 9, 125, 5, - 4, 120]"

definition sf10_group :: PhyGroup where "sf10_group = [917400000, 10, 125, 5, - 4, 120]"

definition sf10_ack :: NodeConfigAckV1 where
  "sf10_ack = \<lparr>nca_op = CO_Set, nca_more_follows = False, nca_persist_status = PS_AppliedNotPersisted, nca_entries = map (\<lambda>e.
     \<lparr>cae_param_id = ce_param_id e, cae_status = Pa_Ok, cae_is_override = True, cae_ptype = ce_ptype e, cae_len = ce_len e,
      cae_value = ce_value e\<rparr>) (nc_entries (build_phy_set sf10_group))\<rparr>"

definition asking :: PhyChange where "asking = snd (phc_start sf9_group sf10_group [1] 0 PhyChange_new)"
definition asked :: PhyChange where "asked = phc_on_sent 1 0 asking"
definition accepted_all :: PhyChange where
  "accepted_all = asked\<lparr>phc_ack_ms := [1000, 0, 0, 0, 0, 0, 0, 0], phc_last_open_ms := 1000, phc_have_first_ack := True,
     phc_first_ack_ms := 1000, phc_index := 1, phc_phase := PF_RetuneDue\<rparr>"
definition retuning :: PhyChange where "retuning = accepted_all\<lparr>phc_retuned := True, phc_phase := PF_AwaitingRetune\<rparr>"
definition listening :: PhyChange where "listening = retuning\<lparr>phc_retuned_ms := 2000, phc_phase := PF_Hearing\<rparr>"
definition polling :: PhyChange where "polling = listening\<lparr>phc_index := 0\<rparr>"
definition given_up :: PhyChange where "given_up = snd (phc_next 113000 polling)"

lemma sf10_accepted: "phy_accepted sf10_group sf10_ack"
  by code_simp

lemma asked_fields:
  "phc_phase asked = PF_AwaitingSetAck" "phc_fleet asked = [1]" "phc_index asked = 0" "phc_seq asked = 1" "phc_to asked = sf10_group"
  "\<not> phc_have_first_ack asked" "phc_ack_ms asked = replicate 8 0"
  by code_simp+

lemma on_accepted: "phc_on_config_ack 1 sf10_ack 1 1000 asked = (True, accepted_all)"
  by (simp add: phc_on_config_ack_def asked_fields sf10_accepted accepted_all_def Let_def numeral_eq_Suc)

lemma on_listening: "phc_on_retuned 2000 retuning = listening"
  by (simp add: phc_on_retuned_def retuning_def listening_def)

lemma change_actions:
  "phs_action (fst (phc_next 0 asking)) = PY_SendSet" "phs_dst (fst (phc_next 0 asking)) = 1" "snd (phc_next 0 asking) = asking"
  "phs_action (fst (phc_next 1000 accepted_all)) = PY_Retune" "phs_group (fst (phc_next 1000 accepted_all)) = sf10_group"
  "snd (phc_next 1000 accepted_all) = retuning"
  "phs_action (fst (phc_next 1000 retuning)) = PY_None" "snd (phc_next 1000 retuning) = retuning"
  "phs_action (fst (phc_next 2000 listening)) = PY_SendPoll" "snd (phc_next 2000 listening) = polling"
  "phs_action (fst (phc_next 113000 polling)) = PY_Abandon" "phs_group (fst (phc_next 113000 polling)) = sf9_group"
  "phs_retuned (fst (phc_next 113000 polling))"
  "phs_action (fst (phc_next 113000 given_up)) = PY_None" "snd (phc_next 113000 given_up) = given_up"
  "bridge_phy_config sf10_group kPhy \<noteq> None" "bridge_phy_config sf9_group kPhy \<noteq> None"
  "phc_phase given_up = PF_Cooldown"
  by code_simp+

lemma trial_actions:
  "is_phy (ce_param_id sf10_entry)" "pt_set nvs_bytes sf10_entry trial_boot \<noteq> None" "pt_group trial_open = sf10_group"
  "pt_state (pt_on_authenticated nvs_bytes trial_open) = PhS_Idle"
  "pt_committed (pt_on_authenticated nvs_bytes trial_open) = sf10_group"
  by code_simp+

lemma phy_turns_split:
  "phy_turns (Suc n) queued q saved t l =
     (let x = phy_act queued q saved t (fst (phc_next t (fl_phy l))) (l\<lparr>fl_phy := snd (phc_next t (fl_phy l))\<rparr>)
      in if fst x then phy_turns n queued q saved t (snd x) else snd x)"
  by (simp add: Let_def split: prod.split)

text \<open>The fleet of the example with the parts that change.\<close>

definition fleet_at :: "PhyChange \<Rightarrow> PhyGroup \<Rightarrow> PhyGroup option \<Rightarrow> bool \<Rightarrow> (NodeId \<times> bool) list \<Rightarrow> (PhyGroup \<times> NodeId) set \<Rightarrow>
    (bytes option NvsBlob \<times> bool) PhyTrial \<Rightarrow> (bytes option NvsBlob \<times> bool) Fleet" where
  "fleet_at p r rq tk tx air pt = \<lparr>fl_phy = p, fl_radio = r, fl_request = rq, fl_ticket = tk, fl_kept = sf9_group,
    fl_ever = {sf9_group}, fl_tx = tx, fl_air = air, fl_nodes = (\<lambda>_. trial_boot)(1 := pt)\<rparr>"

lemma fleet_at_sel:
  "fl_phy (fleet_at p r rq tk tx air pt) = p" "fl_radio (fleet_at p r rq tk tx air pt) = r" "fl_request (fleet_at p r rq tk tx air pt) = rq"
  "fl_ticket (fleet_at p r rq tk tx air pt) = tk" "fl_tx (fleet_at p r rq tk tx air pt) = tx" "fl_air (fleet_at p r rq tk tx air pt) = air"
  "fl_nodes (fleet_at p r rq tk tx air pt) 1 = pt" "fl_kept (fleet_at p r rq tk tx air pt) = sf9_group"
  "fl_ever (fleet_at p r rq tk tx air pt) = {sf9_group}"
  "fleet_at p r rq tk tx air pt\<lparr>fl_phy := p'\<rparr> = fleet_at p' r rq tk tx air pt" "fleet_at p r rq tk tx air pt\<lparr>fl_radio := r'\<rparr> = fleet_at p r' rq tk tx air pt"
  "fleet_at p r rq tk tx air pt\<lparr>fl_request := rq'\<rparr> = fleet_at p r rq' tk tx air pt" "fleet_at p r rq tk tx air pt\<lparr>fl_ticket := tk'\<rparr> = fleet_at p r rq tk' tx air pt"
  "fleet_at p r rq tk tx air pt\<lparr>fl_tx := tx'\<rparr> = fleet_at p r rq tk tx' air pt" "fleet_at p r rq tk tx air pt\<lparr>fl_air := air'\<rparr> = fleet_at p r rq tk tx air' pt"
  "fleet_at p r rq tk tx air pt\<lparr>fl_nodes := (fl_nodes (fleet_at p r rq tk tx air pt))(1 := pt')\<rparr> = fleet_at p r rq tk tx air pt'"
  by (simp_all add: fleet_at_def)

lemma node_opens: "(fleet_step settled nvs_bytes)\<^sup>*\<^sup>* (fleet_at p r rq tk tx air trial_boot) (fleet_at p r rq tk tx air trial_open)"
proof -
  let ?at = "fleet_at p r rq tk tx air" and ?pt = "pt_on_set 0 True 1 1000 trial_set"
  have n: "fleet_step settled nvs_bytes (?at pt) (?at pt')" if "node_step nvs_bytes pt pt'" for pt pt'
    using fs_node [of nvs_bytes "?at pt" 1 pt' settled] that by (simp add: fleet_at_sel)
  obtain x y where "pt_set nvs_bytes sf10_entry trial_boot = Some (x, y, trial_set)"
    using trial_actions(2) by (auto simp: trial_set_def)
  then have "node_step nvs_bytes trial_boot trial_set" by (rule ns_set [OF trial_actions(1)])
  moreover have "node_step nvs_bytes trial_set ?pt" by (rule ns_on_set)
  moreover have "node_step nvs_bytes ?pt trial_open" unfolding trial_open_def by (rule ns_retuned)
  ultimately show ?thesis using n by (meson rtranclp.rtrancl_into_rtrancl rtranclp.rtrancl_refl)
qed

abbreviation sf9_air :: "(PhyGroup \<times> NodeId) set" where "sf9_air \<equiv> {(sf9_group, 1)}"

lemmas turn_simps = fleet_at_sel phy_act_def phy_send_def sched_phy_def phy_turns_split numeral_eq_Suc Let_def change_actions
  on_listening given_up_def [symmetric]

lemma change_accepted:
  "(fleet_step settled nvs_bytes)\<^sup>*\<^sup>* (Fleet_start sf9_group (\<lambda>_. trial_boot)) (fleet_at accepted_all sf9_group None False [] sf9_air trial_open)"
proof -
  let ?S = "fleet_step settled nvs_bytes" and ?ns = "\<lambda>_ :: NodeId. trial_boot"
  have "?S (Fleet_start sf9_group ?ns) (fleet_at asking sf9_group None False [] {} trial_boot)"
    using fs_start [of "Fleet_start sf9_group ?ns" settled nvs_bytes sf10_group "[1]" 0]
    by (simp add: Fleet_start_def fleet_at_def asking_def fun_upd_idem)
  moreover have "?S (fleet_at asking sf9_group None False [] {} trial_boot) (fleet_at asked sf9_group None False [(1, True)] {} trial_boot)"
    using fs_sched [of settled nvs_bytes "fleet_at asking sf9_group None False [] {} trial_boot" True 1 True 0]
    by (simp add: turn_simps asked_def del: phy_turns.simps)
  moreover have "?S (fleet_at asked sf9_group None False [(1, True)] {} trial_boot) (fleet_at asked sf9_group None False [] sf9_air trial_boot)"
    using fs_transmit [of "fleet_at asked sf9_group None False [(1, True)] {} trial_boot" 1 True "[]" settled nvs_bytes] by (simp add: fleet_at_sel)
  moreover have "?S (fleet_at asked sf9_group None False [] sf9_air trial_open) (fleet_at accepted_all sf9_group None False [] sf9_air trial_open)"
    using fs_ack [of settled nvs_bytes "fleet_at asked sf9_group None False [] sf9_air trial_open" 1 sf10_ack 1 1000]
    by (simp add: fleet_at_sel on_accepted)
  ultimately show ?thesis using node_opens [of settled asked sf9_group None False "[]" sf9_air]
    by (meson rtranclp.rtrancl_into_rtrancl rtranclp.rtrancl_refl rtranclp_trans)
qed

lemma change_given_up:
  "(fleet_step False nvs_bytes)\<^sup>*\<^sup>* (fleet_at accepted_all sf9_group None False [] sf9_air trial_open)
     (fleet_at given_up sf10_group (Some sf9_group) False [] sf9_air trial_open)"
proof -
  let ?S = "fleet_step False nvs_bytes"
  have "?S (fleet_at accepted_all sf9_group None False [] sf9_air trial_open) (fleet_at retuning sf9_group (Some sf10_group) True [] sf9_air trial_open)"
    using fs_sched [of False nvs_bytes "fleet_at accepted_all sf9_group None False [] sf9_air trial_open" True 2 True 1000]
    by (simp add: turn_simps del: phy_turns.simps)
  moreover have "?S (fleet_at retuning sf9_group (Some sf10_group) True [] sf9_air trial_open) (fleet_at retuning sf10_group None True [] sf9_air trial_open)"
    using fs_retune [of "fleet_at retuning sf9_group (Some sf10_group) True [] sf9_air trial_open" sf10_group False nvs_bytes] by (simp add: fleet_at_sel)
  moreover have "?S (fleet_at retuning sf10_group None True [] sf9_air trial_open) (fleet_at polling sf10_group None False [] sf9_air trial_open)"
    using fs_sched [of False nvs_bytes "fleet_at retuning sf10_group None True [] sf9_air trial_open" False 2 True 2000]
    by (simp add: turn_simps del: phy_turns.simps)
  moreover have "?S (fleet_at polling sf10_group None False [] sf9_air trial_open) (fleet_at given_up sf10_group (Some sf9_group) False [] sf9_air trial_open)"
    using fs_sched [of False nvs_bytes "fleet_at polling sf10_group None False [] sf9_air trial_open" False 2 True 113000]
    by (simp add: turn_simps del: phy_turns.simps)
  ultimately show ?thesis by (meson rtranclp.rtrancl_into_rtrancl rtranclp.rtrancl_refl)
qed

section \<open>A silent node\<close>

text \<open>The window of the node being confirmed, and the calls of the machine while that node is silent and it is open.\<close>

definition window_open :: "u32 \<Rightarrow> PhyChange \<Rightarrow> bool" where
  "window_open t p \<longleftrightarrow> ms_since t (phc_ack_ms p ! phc_index p) < uint (phc_trial_ms p)"

inductive unanswered :: "PhyChange \<Rightarrow> PhyChange \<Rightarrow> bool" where
  un_next: "window_open t p \<Longrightarrow> unanswered p (snd (phc_next t p))"
| un_sent: "unanswered p (phc_on_sent q t p)"
| un_aired: "unanswered p (phc_on_aired t p)"
| un_heard: "unanswered p (phc_on_heard src t p)"
| un_ack: "src \<noteq> phc_fleet p ! phc_index p \<Longrightarrow> unanswered p (snd (phc_on_config_ack src ack q t p))"
| un_retuned: "unanswered p (phc_on_retuned t p)"
| un_timeout: "unanswered p (phc_set_ack_timeout_ms ms p)"

lemma confirming_next:
  assumes "phc_phase p \<in> {PF_GetDue, PF_AwaitingGet}" "window_open t p" "phc_next t p = (st, p')"
  shows "phc_phase p' \<in> {PF_GetDue, PF_AwaitingGet} \<and> phc_fleet p' = phc_fleet p \<and> phc_index p' = phc_index p \<and>
    phs_action st \<in> {PY_None, PY_SendGet} \<and> (phs_action st = PY_SendGet \<longrightarrow> phs_dst st = phc_fleet p ! phc_index p)"
  using assms by (auto simp: phc_next_def phc_settle_def phc_emit_def window_open_def PhyStep_init_def Let_def split: if_splits)

lemma unanswered_keeps:
  assumes "unanswered p p'" "phc_phase p \<in> {PF_GetDue, PF_AwaitingGet}"
  shows "phc_phase p' \<in> {PF_GetDue, PF_AwaitingGet} \<and> phc_fleet p' = phc_fleet p \<and> phc_index p' = phc_index p"
  using assms
proof cases
  case (un_next t)
  with confirming_next [OF assms(2), of t] show ?thesis by (cases "phc_next t p") simp
qed (use assms(2) in \<open>auto simp: phc_on_sent_def phc_on_aired_def phc_on_heard_def phc_on_config_ack_def phc_on_retuned_def
  phc_set_ack_timeout_ms_def\<close>)

text \<open>Two nodes that accepted a second apart; the first has been sent its GET.\<close>

definition confirming :: PhyChange where
  "confirming = PhyChange_new\<lparr>phc_phase := PF_AwaitingGet, phc_from := sf9_group, phc_to := sf10_group, phc_fleet := [1, 2],
     phc_get_attempts := 1, phc_sent_ms := 20000, phc_have_first_ack := True, phc_first_ack_ms := 1000,
     phc_ack_ms := [1000, 2000, 0, 0, 0, 0, 0, 0], phc_retuned := True\<rparr>"

section \<open>Properties\<close>

text \<open>
  As long as no other frame is queued while a retune is outstanding, and every frame leaves or is
  dropped before \<open>air_pending\<close> gives up on it (\<open>kAirWaitMaxMs\<close>), a fleet PHY change never
  leaves a node behind on settings the bridge has given up. Whatever order the acceptances, POLLs,
  answers, lost frames, retunes, refused flash writes, restarts and lapsed windows come in, every
  group a node has committed is the one it started with or one the bridge has itself held in flash,
  every authenticated frame leaves on such a group, and no group above the EIRP ceiling is held.
\<close>

theorem fleet_commits_with_bridge:
  assumes "blob_store bo" "ceiling_ok g" "\<And>d. pt_reachable (logged bo) (ns d)" "(fleet_step True (logged bo))\<^sup>*\<^sup>* (Fleet_start g ns) l"
  shows "pt_committed (fl_nodes l d) \<in> insert (pt_committed (ns d)) (fl_ever l) \<and> fst ` fl_air l \<subseteq> fl_ever l \<and>
    fl_kept l \<in> fl_ever l \<and> fl_ever l \<subseteq> Collect ceiling_ok"
  using fleet_reachable_safe [OF assms(1,4,2,3)]
  by (fastforce simp: bridge_safe_def held_ok_def nodes_ok_def)

theorem fleet_commits_with_bridge_witness:
  "(fleet_step True nvs_bytes)\<^sup>*\<^sup>* (Fleet_start sf9_group (\<lambda>_. trial_boot)) (fleet_at accepted_all sf9_group None False [] sf9_air trial_open) \<and>
   pt_committed (fl_nodes (fleet_at accepted_all sf9_group None False [] sf9_air trial_open) 1) \<in> {pt_committed trial_boot, sf9_group}"
proof -
  have "ceiling_ok sf9_group" using change_actions(17) by (simp add: ceiling_ok_def)
  from fleet_commits_with_bridge [OF one_key.nvs.blob_store_axioms this trial_reachable(1) change_accepted, of 1] change_accepted
  show ?thesis by (simp add: fleet_at_sel)
qed

text \<open>
  Late retune. Between giving a change up and the radio being back on the old settings the code
  lets other traffic out: the change is abandoned, the bridge never holds the new group, and still an
  authenticated frame queued before the retune back is applied leaves on the abandoned settings and
  makes the node commit them. The bridge and that node are then on different settings.
\<close>

theorem late_retune_splits_fleet:
  "\<exists>l. (fleet_step False nvs_bytes)\<^sup>*\<^sup>* (Fleet_start sf9_group (\<lambda>_. trial_boot)) l \<and>
     phc_phase (fl_phy l) = PF_Cooldown \<and> fl_kept l = sf9_group \<and> fl_ever l = {sf9_group} \<and> fl_request l = Some sf9_group \<and>
     pt_state (fl_nodes l 1) = PhS_Idle \<and> pt_committed (fl_nodes l 1) = sf10_group"
proof -
  let ?S = "fleet_step False nvs_bytes" and ?pt = "pt_on_authenticated nvs_bytes trial_open"
  let ?at = "fleet_at given_up sf10_group (Some sf9_group) False"
  have "?S (?at [] sf9_air trial_open) (?at [(1, False)] sf9_air trial_open)"
    using fs_other [of "?at [] sf9_air trial_open" False nvs_bytes 1] by (simp add: fleet_at_sel phc_blocks_traffic_def change_actions)
  moreover have "?S (?at [(1, False)] sf9_air trial_open) (?at [] (insert (sf10_group, 1) sf9_air) trial_open)"
    using fs_transmit [of "?at [(1, False)] sf9_air trial_open" 1 False "[]" False nvs_bytes] by (simp add: fleet_at_sel)
  moreover have "?S (?at [] (insert (sf10_group, 1) sf9_air) trial_open) (?at [] (insert (sf10_group, 1) sf9_air) ?pt)"
    using fs_receive [of sf10_group 1 "?at [] (insert (sf10_group, 1) sf9_air) trial_open" False nvs_bytes]
    by (simp add: fleet_at_sel trial_actions)
  ultimately have "?S\<^sup>*\<^sup>* (Fleet_start sf9_group (\<lambda>_. trial_boot)) (?at [] (insert (sf10_group, 1) sf9_air) ?pt)"
    using rtranclp_trans [OF change_accepted change_given_up] by (meson rtranclp.rtrancl_into_rtrancl)
  then show ?thesis
    by (intro exI [of _ "?at [] (insert (sf10_group, 1) sf9_air) ?pt"] conjI) (simp_all add: fleet_at_sel change_actions trial_actions)
qed

text \<open>
  Confirming a silent node. Once the bridge has committed it confirms its nodes one after the
  other, and a node that does not answer is asked again until its own trial window has closed: as
  long as that window is open, whatever is queued, aired or heard and whatever other nodes answer,
  the machine sends no GET to any other node. The nodes behind it, whose windows opened only moments
  later, are confirmed after that or not at all.
\<close>

theorem silent_node_holds_confirmation:
  assumes "unanswered\<^sup>*\<^sup>* p p'" "phc_phase p \<in> {PF_GetDue, PF_AwaitingGet}" "window_open t p'"
  shows "phs_action (fst (phc_next t p')) \<in> {PY_None, PY_SendGet} \<and>
    (phs_action (fst (phc_next t p')) = PY_SendGet \<longrightarrow> phs_dst (fst (phc_next t p')) = phc_fleet p ! phc_index p) \<and>
    phc_index (snd (phc_next t p')) = phc_index p"
proof -
  have "phc_phase p' \<in> {PF_GetDue, PF_AwaitingGet} \<and> phc_fleet p' = phc_fleet p \<and> phc_index p' = phc_index p"
    using assms(1,2) by (induction rule: rtranclp_induct) (auto dest: unanswered_keeps)
  with confirming_next [of p' t "fst (phc_next t p')" "snd (phc_next t p')"] assms(3) show ?thesis by simp
qed

theorem silent_node_holds_confirmation_witness:
  "phs_action (fst (phc_next 110000 confirming)) = PY_SendGet \<and> phs_dst (fst (phc_next 110000 confirming)) = 1 \<and>
   phc_fleet confirming = [1, 2]"
proof -
  have c: "phc_phase confirming = PF_AwaitingGet" "window_open 110000 confirming" "phc_fleet confirming = [1, 2]" "phc_index confirming = 0"
    "phs_action (fst (phc_next 110000 confirming)) = PY_SendGet"
    by code_simp+
  with silent_node_holds_confirmation [of confirming confirming 110000] show ?thesis by simp
qed

end
