(* ===== verification/Spec2Isabelle.thy ===== *)
theory Spec2Isabelle
  imports CodecCorrect Schemas NodeConfig Reassembly CommandGate ConfigCorrect PhyTrialCorrect EngineCommand
    GateIoProgress Detect VedirectHex VedirectText TdtCorrect VedLink BmsLink ChargeCorrect AppTask SdConfigCorrect
    GateLinkCorrect Interlock LoraTask GateLinkEnd BridgeSchedCorrect CommandLink PhyFleet
begin

text \<open>
  A verification library of the LoRa Remote Automation Network (LRAN): the protocol library, the
  node engine, the GateLink firmware (a gate node with its charge controller and battery) and the
  scheduling side of the bridge firmware. The sources are C++ under \<open>src/lib\<close> and
  \<open>src/firmware\<close>.

  \<^bold>\<open>The program.\<close> The bridge and its nodes exchange frames over one LoRa channel. A frame is a header,
  a payload, a truncated HMAC where its type asks for one, and a CRC; messages that are too long are
  fragmented. The bridge polls its nodes, sends them commands, configuration and VE.Direct HEX
  requests, one exchange at a time, rolls their contexts after a restart, and moves the whole fleet to
  new radio settings. A node's engine takes frames, checks them against its context and replay gate,
  and asks its application, which for GateLink hands relay sequences to the task that drives the gate,
  HEX strings to the task on the charge controller's UART, and settings to the microSD card. The tasks
  share words, queues and a mutex; every one of them reads time as a 32-bit millisecond counter.

  \<^bold>\<open>Conventions.\<close> Machine integers are words, so that arithmetic wraps where the code's does; a pointer
  with a length is a byte list; a nullable pointer is an option; a status code is a value of its
  enumeration and an operation that can fail returns it or a sum. State is a record with the members of
  its class, an operation takes and returns it, a handler is one definition. An interface the code calls
  through (\<open>IMac\<close>, \<open>BlobStore\<close>, \<open>Persist\<close>, \<open>Application\<close>, \<open>GateLinkPort\<close>, \<open>ConfigFile\<close>, \<open>VedWriter\<close>) is
  a record of functions or a function, passed as an argument; what the environment decides (what a random
  source, the flash, the card or the radio answers) is an argument too. Log lines are left out.
  Where a theorem needs time to pass, calls carry real times (natural numbers) and the code sees their
  stamps modulo \<open>2 ^ 32\<close> (theory \<open>Clock\<close>).

  \<^bold>\<open>Theories\<close>, with what they model and what they show.

  \<^item> \<open>Prelude\<close>, \<open>Clock\<close>: machine types, little-endian images, the copy loop, the lemma collections, and
    the two ways the code compares readings of a wrapping clock.

  \<^item> \<open>Bytes\<close> (\<open>bytes.cpp\<close>, \<open>crc.cpp\<close>, \<open>seq.h\<close>), \<open>Wire\<close> (\<open>types.h\<close>, \<open>wire.cpp\<close>, \<open>counters.cpp\<close>), \<open>Mac\<close>
    (\<open>mac.cpp\<close>, \<open>refimpl_mac.cpp\<close>), \<open>Codec\<close> (\<open>codec.cpp\<close>): the frame codec over any MAC. \<open>CodecCorrect\<close>:
    the exact image and success condition of \<open>encode\<close>, the round trip through \<open>decode_header\<close> and
    \<open>decode_payload\<close>, that an accepted authenticated frame carries the right MAC, that burst damage is
    refused.

  \<^item> \<open>Messages\<close>, \<open>Schemas\<close>, \<open>NodeConfig\<close> (\<open>messages.cpp\<close>, \<open>schema/*.cpp\<close>): every payload; the locales
    \<open>wire_format\<close>, \<open>closed_format\<close> and \<open>fixed_format\<close> state what serialize and deserialize promise each
    other and are interpreted on all of them.

  \<^item> \<open>Reassembly\<close> (\<open>reassembly.cpp\<close>): bounds over every run, delivery in any order, the refusal of
    unverified fragments. \<open>CommandGate\<close> (\<open>command_gate.cpp\<close>): the replay gate; the locale \<open>seq_gate\<close> is
    what at-most-once execution needs of it.

  \<^item> \<open>ConfigTable\<close>, \<open>ConfigStore\<close> (\<open>lib/lran-config\<close>: \<open>table.h\<close>, \<open>store.cpp\<close>): the shipped rows, the
    override store and the readback; \<open>ConfigCorrect\<close>: values stay valid, the PHY trial is all or nothing,
    a readback covers the table. The locale \<open>param_rows\<close> is interpreted on the three tables.

  \<^item> \<open>PhyBlob\<close>, \<open>NvsBlob\<close>, \<open>PhyTrial\<close> (\<open>phy_blob.cpp\<close>, \<open>nvs_blob.cpp\<close>, \<open>phy_trial.cpp\<close>): a node's half of a
    change of the radio settings, over any store of bytes (locales \<open>blob_store\<close>, \<open>persist\<close> and, for the
    Arduino library, \<open>preferences\<close>). \<open>logged\<close> wraps a store and remembers whether it ever refused a write;
    nothing is assumed of a refused one. \<open>PhyTrialCorrect\<close>: reboots, the window, a refused SET.

  \<^item> \<open>Outbox\<close>, \<open>Names\<close>, \<open>NodeContext\<close>, \<open>NodeApp\<close>, \<open>NodeEngine\<close> (\<open>lib/lran-node\<close>: \<open>outbox.cpp\<close>, \<open>names.cpp\<close>,
    \<open>context.cpp\<close>, \<open>application.h\<close>, \<open>engine.cpp\<close>): the node's protocol engine. The locale \<open>frame_queue\<close>
    is the outbox's contract, \<open>name_table\<close> that of the name tables. \<open>EngineSend\<close>: a message is queued whole
    or not at all. \<open>EngineCorrect\<close>: a forged frame changes nothing. \<open>EngineCommand\<close>: the command path; its
    locales \<open>answering_app\<close> and \<open>quiet_app\<close> say what it needs of an application.

  \<^item> \<open>GateIo\<close>, \<open>GateState\<close>, \<open>Detect\<close> (\<open>firmware/gatelink/src\<close>: \<open>gate_io.cpp\<close>, \<open>gate_state.cpp\<close>,
    \<open>detect.cpp\<close>): relays, inputs, gate state and vehicle detection. \<open>GateIoCorrect\<close>: spacing of pulses;
    \<open>GateIoProgress\<close>: a command runs to its end, and the days in which it does not.

  \<^item> \<open>Vedirect\<close>, \<open>VedirectHex\<close>, \<open>VedirectText\<close> (\<open>lib/vedirect\<close>), \<open>VedLink\<close> (\<open>ved_link.cpp\<close>), \<open>TdtProtocol\<close>,
    \<open>TdtCorrect\<close> (\<open>lib/bms-ble\<close>), \<open>BmsLink\<close> (\<open>bms_link.cpp\<close>): charge controller and battery. HEX is
    canonical, blocks and responses survive any chunking, and each HEX job taken is answered once.

  \<^item> \<open>Watches\<close>, \<open>ChargeCorrect\<close>, \<open>Tasks\<close>, \<open>AppTask\<close>, \<open>SdConfig\<close>, \<open>SdConfigCorrect\<close>, \<open>GateLinkApp\<close>,
    \<open>Interlock\<close>, \<open>NodePort\<close>, \<open>LoraTask\<close>: the watches, the task table, \<open>app_task\<close>, the card, the application
    and the passes of \<open>lora_task\<close>, \<open>vedirect_task\<close> and \<open>bms_task\<close> of \<open>task_runtime.cpp\<close>. \<open>Interlock\<close> interleaves
    \<open>lora_task\<close> and \<open>bms_task\<close> at every access to the words they share. \<open>GateLinkCorrect\<close> interprets
    \<open>quiet_app\<close> on the shipped application and shows that commands run and are dispatched once and that a
    roll waits; \<open>GateLinkEnd\<close> follows a gate command from the radio to its acknowledgement.

  \<^item> \<open>BridgeRegistry\<close>, \<open>BridgeCommand\<close>, \<open>BridgeRoll\<close>, \<open>BridgeScheduler\<close>, \<open>BridgeHex\<close>, \<open>BridgeConfig\<close>,
    \<open>BridgeEcho\<close> (\<open>firmware/bridge/src\<close>: \<open>registry.cpp\<close>, \<open>command.cpp\<close>, \<open>context_roll.cpp\<close>, \<open>scheduler.cpp\<close>
    with \<open>air_turn.h\<close>, \<open>hex_proxy.cpp\<close>, \<open>config_path.cpp\<close>, \<open>echo.cpp\<close>): the state machines of the bridge.
    \<open>BridgeSched\<close> is \<open>sched_task\<close> and the turn of \<open>app_task\<close>; \<open>BridgeSchedCorrect\<close> shows, over every
    interleaving, one exchange at a time and the roll before commands. \<open>CommandLink\<close> joins the command path
    to the node's gate over a link that loses, repeats and reorders: an actuation runs at most once.

  \<^item> \<open>BridgePhy\<close>, \<open>PhyFleet\<close> (\<open>phy_change.cpp\<close>, \<open>sched_phy\<close>): the fleet's change of radio settings with the
    trial of every node. A node commits only what the bridge has held, as long as no other frame is queued
    while a retune is outstanding; without that proviso, which the code does not ask for, bridge and node
    can part, and one silent node holds the confirmation of the others.

  \<^bold>\<open>Bounds.\<close> Comparisons of wrapping readings are right while the times are less than \<open>2 ^ 31\<close> ms apart;
  theorems over real time carry that as a bound on the times. \<open>horizon\<close> (\<open>2 ^ 27\<close> ms, 37 hours) bounds the
  gap between two passes of \<open>io_task\<close> and its parameters, so that a sum of sixteen stays below \<open>2 ^ 31\<close>.
  Sequence numbers are compared over half their range, \<open>2 ^ 15\<close>. The senders of \<open>sched_task\<close> loop at
  most 2, 4 or 8 times as in the code, written as recursion on that number; the echo loop recurses on the
  free places of the transmit queue. Fuel appears in \<open>fill_entropy\<close> and \<open>drain_hex\<close>, where running out
  is \<open>None\<close> or cannot happen, and in \<open>readback_run\<close>, where more than the four messages a readback may have
  is shown to be enough.

  \<^bold>\<open>What the code does not do.\<close> Several theorems state a behaviour the code should not have: a command
  that waits after 24.9 idle days (\<open>idle_gate_holds_command\<close>), a sequence number handed out twice
  after a resync (\<open>resync_number_is_reused\<close>), a readback spoilt by a partial answer
  (\<open>partial_answer_spoils_readback\<close>), a refused SET that stays in force (\<open>refused_set_stays_in_force\<close>), a
  BLE window taken for an old one on a stale clock (\<open>stale_clock_overruns_window\<close>), a deadline that
  moves with its parameter (\<open>set_params_moves_deadline\<close>), a stale flag that clears itself
  (\<open>mppt_stale_flag\<close>), a dropped STATUS counted twice (\<open>dropped_status_counted_twice\<close>), and the two of
  \<open>PhyFleet\<close> above.

  \<^bold>\<open>Not modelled.\<close> What Home Assistant reads and writes (topics, JSON documents, discovery), the radio,
  WiFi, MQTT, NVS, OTA, BLE, display and board drivers with the receive ladder of the bridge's radio, the
  link policies (media access, channel statistics), the console, the UI and log tasks, task creation, and
  the bench firmwares (simulated node, range test, channel capture): device calls and text around the
  state machines above. The file on the card is a parameter with the contract \<open>keeps_writes\<close>.
\<close>

end
